(* ===== verification/Prelude.thy ===== *)
theory Prelude
  imports Main "HOL-Library.Word" "HOL-Library.State_Monad" "HOL-Library.Signed_Division"
    "HOL-Library.List_Lexorder" "HOL-Library.Char_ord"
begin

text \<open>
  Shared vocabulary and automation of the development.

  \<^item> the collections \<open>host_simps\<close>, \<open>store_simps\<close> and \<open>frame\<close>, filled by the component
    theories: equations of the host operations, normal forms of the load/save operations, and
    what an operation leaves untouched;
  \<^item> sums of weights over the entries of a finite map that satisfy a predicate, and how one
    update changes them (the ledgers of the indexer rest on it);
  \<^item> decimal rendering of integers and its inverse, zero padding to a width, and the
    comparison of padded numerals as strings.
\<close>

named_theorems host_simps \<open>equations of the host operations\<close>
named_theorems store_simps \<open>normal forms of the load and save operations\<close>
named_theorems frame \<open>parts of the state that an operation leaves unchanged\<close>

type_synonym 'e table = "string \<rightharpoonup> 'e"

section \<open>Sums of weights over a finite map\<close>

definition contrib :: "('v \<Rightarrow> bool) \<Rightarrow> ('v \<Rightarrow> int) \<Rightarrow> 'v option \<Rightarrow> int" where
  "contrib P w x = (case x of None \<Rightarrow> 0 | Some v \<Rightarrow> if P v then w v else 0)"

definition msum :: "('v \<Rightarrow> bool) \<Rightarrow> ('v \<Rightarrow> int) \<Rightarrow> ('k \<rightharpoonup> 'v) \<Rightarrow> int" where
  "msum P w m = (\<Sum>k \<in> dom m. contrib P w (m k))"

lemma contrib_simps [simp]:
  "contrib P w None = 0"
  "contrib P w (Some v) = (if P v then w v else 0)"
  by (simp_all add: contrib_def)

lemma msum_empty [simp]: "msum P w Map.empty = 0"
  by (simp add: msum_def)

lemma msum_upd:
  assumes fin: "finite (dom m)"
  shows "msum P w (m(k \<mapsto> v)) = msum P w m - contrib P w (m k) + contrib P w (Some v)"
proof -
  let ?D = "dom m - {k}"
  have new: "msum P w (m(k \<mapsto> v)) = contrib P w (Some v) + (\<Sum>j \<in> ?D. contrib P w (m j))"
  proof -
    have "(\<Sum>j \<in> insert k ?D. contrib P w ((m(k \<mapsto> v)) j))
        = contrib P w ((m(k \<mapsto> v)) k) + (\<Sum>j \<in> ?D. contrib P w ((m(k \<mapsto> v)) j))"
      using fin by (intro sum.insert) auto
    moreover have "(\<Sum>j \<in> ?D. contrib P w ((m(k \<mapsto> v)) j)) = (\<Sum>j \<in> ?D. contrib P w (m j))"
      by (rule sum.cong) auto
    moreover have "dom (m(k \<mapsto> v)) = insert k ?D" by auto
    ultimately show ?thesis by (simp add: msum_def)
  qed
  have "msum P w m = contrib P w (m k) + (\<Sum>j \<in> ?D. contrib P w (m j))"
  proof (cases "k \<in> dom m")
    case True
    then show ?thesis using fin by (simp add: msum_def sum.remove)
  next
    case False
    then have "?D = dom m" and "m k = None" by auto
    then show ?thesis by (simp add: msum_def)
  qed
  with new show ?thesis by simp
qed

lemma msum_nonneg:
  assumes "\<And>k v. m k = Some v \<Longrightarrow> P v \<Longrightarrow> 0 \<le> w v"
  shows "0 \<le> msum P w m"
  unfolding msum_def using assms by (intro sum_nonneg) (force simp: contrib_def split: option.splits)

lemma msum_ge_member:
  assumes fin: "finite (dom m)" and k: "m k = Some v" and P: "P v"
    and nn: "\<And>k v. m k = Some v \<Longrightarrow> P v \<Longrightarrow> 0 \<le> w v"
  shows "w v \<le> msum P w m"
proof -
  have "contrib P w (m k) \<le> msum P w m"
    unfolding msum_def
  proof (rule member_le_sum)
    show "k \<in> dom m" using k by auto
    show "finite (dom m)" by (rule fin)
    show "0 \<le> contrib P w (m j)" if "j \<in> dom m - {k}" for j
      using that nn by (auto simp: contrib_def)
  qed
  then show ?thesis using k P by simp
qed

lemma finite_dom_upd [simp]: "finite (dom (m(k \<mapsto> v))) \<longleftrightarrow> finite (dom m)"
  by (simp add: dom_fun_upd)

section \<open>Decimal rendering\<close>

definition digit_char :: "nat \<Rightarrow> char" where
  "digit_char d = char_of (48 + d)"

fun nat_string :: "nat \<Rightarrow> string" where
  "nat_string n = (if n < 10 then [digit_char n] else nat_string (n div 10) @ [digit_char (n mod 10)])"

declare nat_string.simps [simp del]

definition int_string :: "int \<Rightarrow> string" where
  "int_string i = (if i < 0 then ''-'' @ nat_string (nat (- i)) else nat_string (nat i))"

definition char_digit :: "char \<Rightarrow> nat" where
  "char_digit c = of_char c - 48"

definition string_nat :: "string \<Rightarrow> nat" where
  "string_nat s = foldl (\<lambda>a c. 10 * a + char_digit c) 0 s"

lemma of_char_digit [simp]: "d < 10 \<Longrightarrow> of_char (digit_char d) = (48 + d :: nat)"
  by (simp add: digit_char_def)

lemma char_digit_digit_char [simp]: "d < 10 \<Longrightarrow> char_digit (digit_char d) = d"
  by (simp add: char_digit_def)

lemma string_nat_snoc: "string_nat (s @ [c]) = 10 * string_nat s + char_digit c"
  by (simp add: string_nat_def)

lemma string_nat_nat_string [simp]: "string_nat (nat_string n) = n"
proof (induction n rule: nat_string.induct)
  case (1 n)
  show ?case
  proof (cases "n < 10")
    case True
    then show ?thesis by (subst nat_string.simps) (simp add: string_nat_def)
  next
    case False
    then show ?thesis
      by (subst nat_string.simps) (simp add: string_nat_snoc 1)
  qed
qed

lemma nat_string_inj: "nat_string m = nat_string n \<longleftrightarrow> m = n"
  by (metis string_nat_nat_string)

lemma nat_string_digits: "c \<in> set (nat_string n) \<Longrightarrow> \<exists>d<10. c = digit_char d"
proof (induction n rule: nat_string.induct)
  case (1 n)
  then show ?case
    by (subst (asm) nat_string.simps) (fastforce split: if_splits intro: exI [of _ "n mod 10"])
qed

lemma nat_string_nonempty [simp]: "nat_string n \<noteq> []"
  by (subst nat_string.simps) simp

lemma digit_char_neq:
  assumes "d < 10"
  shows "digit_char d \<noteq> CHR ''-''" and "digit_char d \<noteq> CHR '':''"
proof -
  have d: "of_char (digit_char d) = (48 + d :: nat)" using assms by simp
  show "digit_char d \<noteq> CHR ''-''"
  proof
    assume "digit_char d = CHR ''-''"
    with d have "48 + d = (45 :: nat)" by simp
    then show False by simp
  qed
  show "digit_char d \<noteq> CHR '':''"
  proof
    assume "digit_char d = CHR '':''"
    with d have "48 + d = (58 :: nat)" by simp
    with assms show False by simp
  qed
qed

definition is_numeral :: "string \<Rightarrow> bool" where
  "is_numeral s \<longleftrightarrow> (\<forall>c \<in> set s. \<exists>d<10. c = digit_char d)"

lemma is_numeral_nat_string [simp]: "is_numeral (nat_string n)"
  using nat_string_digits by (auto simp: is_numeral_def)

lemma is_numeral_simps [simp]:
  "is_numeral []"
  "is_numeral (c # s) \<longleftrightarrow> (\<exists>d<10. c = digit_char d) \<and> is_numeral s"
  "is_numeral (s @ t) \<longleftrightarrow> is_numeral s \<and> is_numeral t"
  by (auto simp: is_numeral_def)

lemma int_string_inj: "int_string i = int_string j \<longleftrightarrow> i = j"
proof
  have sign: "CHR ''-'' \<notin> set (nat_string n)" for n
    using nat_string_digits digit_char_neq(1) by force
  assume eq: "int_string i = int_string j"
  show "i = j"
  proof (cases "i < 0 \<longleftrightarrow> j < 0")
    case True
    with eq show ?thesis by (auto simp: int_string_def nat_string_inj split: if_splits)
  next
    case False
    with eq have "CHR ''-'' \<in> set (nat_string (nat i)) \<or> CHR ''-'' \<in> set (nat_string (nat j))"
      by (auto simp: int_string_def split: if_splits) (metis list.set_intros(1))+
    with sign show ?thesis by blast
  qed
qed simp

section \<open>Numerals of one width compare as strings the way they compare as numbers\<close>

lemma string_nat_Cons: "string_nat (c # s) = char_digit c * 10 ^ length s + string_nat s"
proof (induction s rule: rev_induct)
  case Nil
  then show ?case by (simp add: string_nat_def)
next
  case (snoc x s)
  have "string_nat (c # s @ [x]) = 10 * string_nat (c # s) + char_digit x"
    using string_nat_snoc [of "c # s" x] by simp
  then show ?case using snoc by (simp add: string_nat_snoc algebra_simps)
qed

lemma string_nat_bound: "is_numeral s \<Longrightarrow> string_nat s < 10 ^ length s"
proof (induction s rule: rev_induct)
  case Nil
  then show ?case by (simp add: string_nat_def)
next
  case (snoc x s)
  then obtain d where "d < 10" and "x = digit_char d" by auto
  with snoc show ?case by (auto simp: string_nat_snoc)
qed

lemma digit_char_less [simp]:
  "d < 10 \<Longrightarrow> e < 10 \<Longrightarrow> digit_char d < digit_char e \<longleftrightarrow> d < e"
  by (simp add: less_char_def)

lemma digit_char_inj [simp]:
  "d < 10 \<Longrightarrow> e < 10 \<Longrightarrow> digit_char d = digit_char e \<longleftrightarrow> d = e"
  by (metis char_digit_digit_char)

lemma numeral_less_iff:
  assumes "length s = length t" and "is_numeral s" and "is_numeral t"
  shows "s < t \<longleftrightarrow> string_nat s < string_nat t"
  using assms
proof (induction s t rule: list_induct2)
  case Nil
  then show ?case by simp
next
  case (Cons x xs y ys)
  then obtain d e where d: "d < 10" "x = digit_char d" and e: "e < 10" "y = digit_char e"
    by auto
  have xs: "string_nat xs < 10 ^ length ys" and ys: "string_nat ys < 10 ^ length ys"
    using Cons.prems Cons.hyps string_nat_bound [of xs] string_nat_bound [of ys] by simp_all
  consider "d < e" | "d = e" | "e < d" by linarith
  then show ?case
  proof cases
    case 1
    then have "Suc d * 10 ^ length ys \<le> e * 10 ^ length ys" by (intro mult_right_mono) auto
    with 1 d e xs Cons.hyps show ?thesis by (simp add: string_nat_Cons Cons_less_Cons)
  next
    case 2
    with d e Cons show ?thesis by (simp add: string_nat_Cons Cons_less_Cons)
  next
    case 3
    then have "Suc e * 10 ^ length ys \<le> d * 10 ^ length ys" by (intro mult_right_mono) auto
    with 3 d e ys Cons.hyps show ?thesis by (simp add: string_nat_Cons Cons_less_Cons)
  qed
qed

lemma append_less_same_length:
  fixes s t u v :: string
  assumes "length s = length t"
  shows "s @ u < t @ v \<longleftrightarrow> s < t \<or> s = t \<and> u < v"
  using assms by (induction s t rule: list_induct2) (auto simp: Cons_less_Cons)

lemma string_nat_zero_pad [simp]: "string_nat (CHR ''0'' # s) = string_nat s"
  by (simp add: string_nat_Cons char_digit_def)

lemma length_nat_string_le: "0 < w \<Longrightarrow> n < 10 ^ w \<Longrightarrow> length (nat_string n) \<le> w"
proof (induction n arbitrary: w rule: nat_string.induct)
  case (1 n)
  show ?case
  proof (cases "n < 10")
    case True
    then show ?thesis using 1 by (subst nat_string.simps) simp
  next
    case False
    with 1 obtain w' where w: "w = Suc w'" by (cases w) auto
    with False 1 have "0 < w'" by (cases w') auto
    moreover have "n div 10 < 10 ^ w'" using 1 w by (simp add: div_less_iff_less_mult)
    ultimately have "length (nat_string (n div 10)) \<le> w'" using 1 False by blast
    with False w show ?thesis by (subst nat_string.simps) simp
  qed
qed

section \<open>ASCII strings as JavaScript treats them\<close>

text \<open>Case mapping and white space of the ASCII range (and the no-break space).\<close>

definition upper_char :: "char \<Rightarrow> char" where
  "upper_char c = (let n = of_char c :: nat in if 97 \<le> n \<and> n \<le> 122 then char_of (n - 32) else c)"

definition lower_char :: "char \<Rightarrow> char" where
  "lower_char c = (let n = of_char c :: nat in if 65 \<le> n \<and> n \<le> 90 then char_of (n + 32) else c)"

definition toUpperCase :: "string \<Rightarrow> string" where
  "toUpperCase = map upper_char"

definition toLowerCase :: "string \<Rightarrow> string" where
  "toLowerCase = map lower_char"

definition is_space :: "char \<Rightarrow> bool" where
  "is_space c = (let n = of_char c :: nat in 9 \<le> n \<and> n \<le> 13 \<or> n = 32 \<or> n = 160)"

definition js_trim :: "string \<Rightarrow> string" where
  "js_trim s = rev (dropWhile is_space (rev (dropWhile is_space s)))"

fun js_includes :: "string \<Rightarrow> string \<Rightarrow> bool" where
  "js_includes [] t = (t = [])"
| "js_includes (c # s) t = (take (length t) (c # s) = t \<or> js_includes s t)"

definition js_endsWith :: "string \<Rightarrow> string \<Rightarrow> bool" where
  "js_endsWith s t = (length t \<le> length s \<and> drop (length s - length t) s = t)"

fun split_on :: "char \<Rightarrow> string \<Rightarrow> string list" where
  "split_on c [] = [[]]"
| "split_on c (x # xs) =
     (if x = c then [] # split_on c xs
      else (case split_on c xs of [] \<Rightarrow> [[x]] | p # ps \<Rightarrow> (x # p) # ps))"

lemma js_trim_id: "(\<And>c. c \<in> set s \<Longrightarrow> \<not> is_space c) \<Longrightarrow> js_trim s = s"
proof -
  assume "\<And>c. c \<in> set s \<Longrightarrow> \<not> is_space c"
  then have "dropWhile is_space s = s" and "dropWhile is_space (rev s) = rev s"
    by (cases s, simp_all) (metis dropWhile_eq_self_iff list.set_sel(1) set_rev)
  then show ?thesis by (simp add: js_trim_def)
qed

end
