(* ===== verification/GraphHost.thy ===== *)
theory GraphHost
  imports Prelude
begin

text \<open>
  What the subgraph mappings (\<open>src/subgraph/src\<close>, AssemblyScript) take from their host.

  \<^item> \<open>BigInt\<close> is unbounded, an \<open>int\<close>; its division truncates towards zero and \<open>toI32\<close>
    aborts the handler outside the range of \<open>i32\<close>, so it returns an option here.
  \<^item> \<open>Bytes\<close> and \<open>Address\<close> are byte lists; \<open>toHexString\<close> renders them as the lower case
    string that the mappings use as an entity id.
  \<^item> An event is its receipt context (\<open>ethereum.Event\<close>); its parameters are arguments of the
    handlers.
  \<^item> \<open>ethereum.decode\<close> is the host's too: \<open>abi_uint256\<close> decodes one word, the other two the call data of
    the Furnace entries, of which they give the parameters the mapping reads (\<open>None\<close> for data that does not
    decode).
  \<^item> Everything the mappings read from the chain at the indexed block (\<open>dataSource\<close>, the
    \<open>try_*\<close> contract calls, \<open>None\<close> for a reverted call) and the host's \<open>BigDecimal\<close>
    arithmetic are fields of the record \<open>chain\<close>, an argument of the handlers that read
    them: nothing about them is assumed.
\<close>

section \<open>Numbers\<close>

definition bigint_div :: "int \<Rightarrow> int \<Rightarrow> int" where
  "bigint_div a b = a sdiv b"

lemma bigint_div_nonneg [host_simps]: "0 \<le> a \<Longrightarrow> 0 \<le> b \<Longrightarrow> bigint_div a b = a div b"
  by (cases "b = 0"; cases "a = 0") (simp_all add: bigint_div_def signed_divide_int_def)

definition bigint_mod :: "int \<Rightarrow> int \<Rightarrow> int" where
  "bigint_mod a b = a smod b"

lemma bigint_mod_nonneg [host_simps]: "0 \<le> a \<Longrightarrow> 0 \<le> b \<Longrightarrow> bigint_mod a b = a mod b"
  by (cases "b = 0"; cases "a = 0")
    (simp_all add: bigint_mod_def signed_modulo_int_def signed_divide_int_def minus_div_mult_eq_mod)

definition toI32 :: "int \<Rightarrow> (32 word) option" where
  "toI32 i = (if - (2 ^ 31) \<le> i \<and> i < 2 ^ 31 then Some (word_of_int i) else None)"

lemma toI32_sint: "toI32 i = Some x \<Longrightarrow> sint x = i"
  by (auto simp: toI32_def sint_sbintrunc' signed_take_bit_int_eq_self split: if_splits)

text \<open>A \<open>BigDecimal\<close> is \<open>digits * 10^exp\<close>; its arithmetic (34 significant digits) is the host's.\<close>

record bigdecimal =
  bd_digits :: int
  bd_exp :: int

lemma toI32_Some_iff: "(\<exists>x. toI32 i = Some x) \<longleftrightarrow> - (2 ^ 31) \<le> i \<and> i < 2 ^ 31"
  by (simp add: toI32_def)

section \<open>Bytes and addresses\<close>

lemma unat_byte_less: "unat (b :: 8 word) < 256"
  using unsigned_less [of b, where ?'a = nat] by simp

type_synonym bytes = "8 word list"
type_synonym address = bytes

definition hex_char :: "nat \<Rightarrow> char" where
  "hex_char d = (if d < 10 then char_of (48 + d) else char_of (87 + d))"

definition hex_byte :: "8 word \<Rightarrow> string" where
  "hex_byte b = [hex_char (unat b div 16), hex_char (unat b mod 16)]"

definition toHexString :: "bytes \<Rightarrow> string" where
  "toHexString bs = ''0x'' @ concat (map hex_byte bs)"

lemma hex_char_inj: "d < 16 \<Longrightarrow> e < 16 \<Longrightarrow> hex_char d = hex_char e \<longleftrightarrow> d = e"
proof
  assume lt: "d < 16" "e < 16" and eq: "hex_char d = hex_char e"
  have "of_char (hex_char d) = (if d < 10 then 48 + d else 87 + d :: nat)"
    and "of_char (hex_char e) = (if e < 10 then 48 + e else 87 + e :: nat)"
    using lt by (simp_all add: hex_char_def)
  with eq have "(if d < 10 then 48 + d else 87 + d) = (if e < 10 then 48 + e else 87 + e)"
    by simp
  then show "d = e" using lt by (auto split: if_splits)
qed simp

lemma hex_byte_inj: "hex_byte a = hex_byte b \<longleftrightarrow> a = b"
proof
  assume eq: "hex_byte a = hex_byte b"
  have lt: "unat a < 256" "unat b < 256"
    by (rule unat_byte_less)+
  then have "unat a div 16 < 16" "unat b div 16 < 16" by simp_all
  with eq have "unat a div 16 = unat b div 16" and "unat a mod 16 = unat b mod 16"
    by (simp_all add: hex_byte_def hex_char_inj)
  then have "unat a = unat b" by (metis mult_div_mod_eq)
  then show "a = b" by (rule unsigned_word_eqI)
qed simp

lemma concat_hex_inj: "concat (map hex_byte a) = concat (map hex_byte b) \<Longrightarrow> a = b"
proof (induction a arbitrary: b)
  case Nil
  then show ?case by (cases b) (simp_all add: hex_byte_def)
next
  case (Cons x a)
  then obtain y b' where b: "b = y # b'" by (cases b) (simp_all add: hex_byte_def)
  with Cons.prems have eq: "hex_byte x @ concat (map hex_byte a) = hex_byte y @ concat (map hex_byte b')"
    by simp
  moreover have "length (hex_byte x) = length (hex_byte y)" by (simp add: hex_byte_def)
  ultimately have "hex_byte x = hex_byte y" and "concat (map hex_byte a) = concat (map hex_byte b')"
    by simp_all
  with Cons.IH b show ?case by (simp add: hex_byte_inj)
qed

lemma toHexString_inj [simp]: "toHexString a = toHexString b \<longleftrightarrow> a = b"
  using concat_hex_inj by (auto simp: toHexString_def)

lemma hex_char_neq_dash: "d < 16 \<Longrightarrow> hex_char d \<noteq> CHR ''-''"
proof
  assume lt: "d < 16" and eq: "hex_char d = CHR ''-''"
  have "of_char (hex_char d) = (if d < 10 then 48 + d else 87 + d :: nat)"
    using lt by (simp add: hex_char_def)
  with eq have "(if d < 10 then 48 + d else 87 + d) = (45 :: nat)" by simp
  then show False by (simp split: if_splits)
qed

lemma toHexString_no_dash: "CHR ''-'' \<notin> set (toHexString a)"
proof -
  have "CHR ''-'' \<notin> set (hex_byte b)" for b
  proof -
    have "unat b < 256" by (rule unat_byte_less)
    then have "unat b div 16 < 16" and "unat b mod 16 < 16" by simp_all
    then show ?thesis
      using hex_char_neq_dash [of "unat b div 16"] hex_char_neq_dash [of "unat b mod 16"]
      by (auto simp: hex_byte_def)
  qed
  then show ?thesis by (auto simp: toHexString_def)
qed

text \<open>Ids made of two dash-free parts joined by a dash determine both parts.\<close>

lemma dash_join_inj:
  assumes "CHR ''-'' \<notin> set a" and "CHR ''-'' \<notin> set c"
  shows "a @ ''-'' @ b = c @ ''-'' @ d \<longleftrightarrow> a = c \<and> b = d"
proof
  assume eq: "a @ ''-'' @ b = c @ ''-'' @ d"
  have "takeWhile (\<lambda>x. x \<noteq> CHR ''-'') (a @ ''-'' @ b) = a"
    using assms(1) by (induction a) auto
  moreover have "takeWhile (\<lambda>x. x \<noteq> CHR ''-'') (c @ ''-'' @ d) = c"
    using assms(2) by (induction c) auto
  ultimately have "a = c" using eq by simp
  with eq show "a = c \<and> b = d" by simp
qed simp

section \<open>Events and the chain\<close>

record eth_log =
  log_address :: address
  log_topics :: "bytes list"
  log_logIndex :: int
  log_data :: bytes

record eth_event =
  ev_address :: address
  ev_logIndex :: int
  ev_blockNumber :: int
  ev_timestamp :: int
  ev_txHash :: bytes
  ev_txInput :: bytes
  ev_txFrom :: address
  ev_receipt :: "eth_log list option"

record chain =
  network :: string
  dataSource_address :: address
  try_totalSupply :: "address \<Rightarrow> int option"
  try_balanceOf :: "address \<Rightarrow> address \<Rightarrow> int option"
  try_quote :: "address \<Rightarrow> address \<Rightarrow> int \<Rightarrow> int \<Rightarrow> int option"
  try_quoteOut :: "address \<Rightarrow> address \<Rightarrow> int \<Rightarrow> int option"
  try_latestRoundData :: "address \<Rightarrow> (int \<times> int) option"
  try_totalStaked :: "address \<Rightarrow> int option"
  try_token0 :: "address \<Rightarrow> address option"
  try_token1 :: "address \<Rightarrow> address option"
  try_getReserves :: "address \<Rightarrow> (int \<times> int) option"
  try_furnace :: "address \<Rightarrow> address option"
  try_ve :: "address \<Rightarrow> address option"
  try_getLockInfo :: "address \<Rightarrow> int \<Rightarrow> (int \<times> int \<times> bool) option"
  try_minBonusTargetEscrowBudget :: "address \<Rightarrow> int option"
  try_maxBonusTargetEscrowDiscountBps :: "address \<Rightarrow> int option"
  try_guardian :: "address \<Rightarrow> address option"
  try_getRouterConfig :: "address \<Rightarrow> (address \<times> address \<times> address \<times> address) option"
  try_getWethClaimHop :: "address \<Rightarrow> (bool \<times> address) option"
  try_furnaceQuoter :: "address \<Rightarrow> address option"
  try_getFurnaceState :: "address \<Rightarrow> (int \<times> int \<times> int \<times> int \<times> int) option"
  try_lpWithdrawRecipient :: "address \<Rightarrow> address option"
  abi_uint256 :: "bytes \<Rightarrow> int option"
  abi_enterWithToken :: "bytes \<Rightarrow> (address \<times> int) option"
  abi_enterWithTokenFromCallerFor :: "bytes \<Rightarrow> (address \<times> address \<times> int) option"
  bd_zero :: bigdecimal
  bd_plus :: "bigdecimal \<Rightarrow> bigdecimal \<Rightarrow> bigdecimal"
  bd_times :: "bigdecimal \<Rightarrow> bigdecimal \<Rightarrow> bigdecimal"
  bd_div :: "bigdecimal \<Rightarrow> bigdecimal \<Rightarrow> bigdecimal"
  bd_gt :: "bigdecimal \<Rightarrow> bigdecimal \<Rightarrow> bool"
  bd_fromString :: "string \<Rightarrow> bigdecimal"
  toBigDecimal :: "int \<Rightarrow> bigdecimal"

text \<open>
  Concrete instances, for evaluating the handlers: a local network on which every contract read
  reverts, with exact decimal arithmetic and a quotient of eighteen decimals, and an event.
\<close>

definition exact_plus :: "bigdecimal \<Rightarrow> bigdecimal \<Rightarrow> bigdecimal" where
  "exact_plus a b =
     (let e = min (bd_exp a) (bd_exp b)
      in \<lparr>bd_digits = bd_digits a * 10 ^ nat (bd_exp a - e) + bd_digits b * 10 ^ nat (bd_exp b - e),
          bd_exp = e\<rparr>)"

definition local_chain :: chain where
  "local_chain = \<lparr>network = ''local'', dataSource_address = [],
     try_totalSupply = (\<lambda>_. None), try_balanceOf = (\<lambda>_ _. None), try_quote = (\<lambda>_ _ _ _. None),
     try_quoteOut = (\<lambda>_ _ _. None), try_latestRoundData = (\<lambda>_. None), try_totalStaked = (\<lambda>_. None),
     try_token0 = (\<lambda>_. None), try_token1 = (\<lambda>_. None), try_getReserves = (\<lambda>_. None),
     try_furnace = (\<lambda>_. None), try_ve = (\<lambda>_. None), try_getLockInfo = (\<lambda>_ _. None),
     try_minBonusTargetEscrowBudget = (\<lambda>_. None), try_maxBonusTargetEscrowDiscountBps = (\<lambda>_. None),
     try_guardian = (\<lambda>_. None), try_getRouterConfig = (\<lambda>_. None), try_getWethClaimHop = (\<lambda>_. None),
     try_furnaceQuoter = (\<lambda>_. None), try_getFurnaceState = (\<lambda>_. None), try_lpWithdrawRecipient = (\<lambda>_. None),
     abi_uint256 = (\<lambda>_. None), abi_enterWithToken = (\<lambda>_. None),
     abi_enterWithTokenFromCallerFor = (\<lambda>_. None),
     bd_zero = \<lparr>bd_digits = 0, bd_exp = 0\<rparr>,
     bd_plus = exact_plus,
     bd_times = (\<lambda>a b. \<lparr>bd_digits = bd_digits a * bd_digits b, bd_exp = bd_exp a + bd_exp b\<rparr>),
     bd_div = (\<lambda>a b. \<lparr>bd_digits = bd_digits a * 10 ^ 18 div bd_digits b,
                      bd_exp = bd_exp a - bd_exp b - 18\<rparr>),
     bd_gt = (\<lambda>a b. 0 < bd_digits (exact_plus a \<lparr>bd_digits = - bd_digits b, bd_exp = bd_exp b\<rparr>)),
     bd_fromString = (\<lambda>t. \<lparr>bd_digits = int (string_nat t), bd_exp = 0\<rparr>),
     toBigDecimal = (\<lambda>i. \<lparr>bd_digits = i, bd_exp = 0\<rparr>)\<rparr>"

definition sample_event :: eth_event where
  "sample_event = \<lparr>ev_address = [9], ev_logIndex = 3, ev_blockNumber = 100, ev_timestamp = 5000,
     ev_txHash = [171], ev_txInput = [], ev_txFrom = [7], ev_receipt = None\<rparr>"

section \<open>The host's entity store as an interface\<close>

text \<open>
  One kind of entity as the mappings see it: \<open>E.load(id)\<close> and \<open>e.save()\<close>. Loads return a
  fresh copy, so an entity is a value; a save replaces the row of its id and no other.
\<close>

locale entity_table =
  fixes load :: "string \<Rightarrow> 's \<Rightarrow> 'e option"
    and save :: "string \<Rightarrow> 'e \<Rightarrow> 's \<Rightarrow> 's"
  assumes load_save: "load i (save j e s) = (if i = j then Some e else load i s)"
    and save_save: "save i e (save i d s) = save i e s"
    and save_same: "load i s = Some e \<Longrightarrow> save i e s = s"
begin

lemma load_save_same [simp]: "load i (save i e s) = Some e"
  by (simp add: load_save)

lemma load_save_other: "i \<noteq> j \<Longrightarrow> load i (save j e s) = load i s"
  by (simp add: load_save)

text \<open>The mappings' \<open>loadOrCreate\<close> idiom: load, else a fresh row; write back a value made from it.\<close>

definition upsert :: "string \<Rightarrow> 'e \<Rightarrow> ('e \<Rightarrow> 'e) \<Rightarrow> 's \<Rightarrow> 's" where
  "upsert i fresh f s = save i (f (case load i s of None \<Rightarrow> fresh | Some e \<Rightarrow> e)) s"

lemma load_upsert:
  "load j (upsert i fresh f s) =
     (if j = i then Some (f (case load i s of None \<Rightarrow> fresh | Some e \<Rightarrow> e)) else load j s)"
  by (simp add: upsert_def load_save)

lemma upsert_idem:
  assumes "\<And>e. f (f e) = f e"
  shows "upsert i fresh f (upsert i fresh f s) = upsert i fresh f s"
  by (simp add: upsert_def load_save save_save assms)

end

end
