(* ===== verification/Store.thy ===== *)
theory Store
  imports GraphHost
begin

text \<open>
  The subgraph's entity store (\<open>src/subgraph/schema.graphql\<close>, the classes the mappings import
  from \<open>generated/schema\<close>): a record per mutable entity with the schema's fields (nullable
  fields are options; a foreign key is the string id of the other row; the id itself is the key of
  the row in its table), a datatype per mapping
  file for the immutable log entities that its handlers write once, the store itself with one
  table per entity kind, and the load/save operations, interpreted as \<open>entity_table\<close>s.
  Field names carry a prefix because Isabelle's record fields share one name space.
\<close>

section \<open>Mutable entities\<close>

record protocol =
  pr_chainId :: int
  pr_version :: string
  pr_deployedAtBlock :: int
  pr_claimToken :: bytes
  pr_veClaimNft :: bytes
  pr_mineCore :: bytes
  pr_shareholderRoyalties :: bytes
  pr_furnace :: bytes
  pr_marketRouter :: bytes
  pr_furnaceEntryTokenRegistry :: "bytes option"
  pr_mineCoreEntryTokenRegistry :: "bytes option"
  pr_entryTokenRegistry :: "bytes option"
  pr_dexAdapter :: "bytes option"
  pr_furnaceQuoter :: "bytes option"
  pr_lpStakingVault :: "bytes option"
  pr_launchController :: "bytes option"
  pr_genesisLpVault24m :: "bytes option"
  pr_maintenanceHub :: "bytes option"
  pr_takeoversPaused :: bool
  pr_lockingPaused :: bool
  pr_tradingPaused :: bool

record token_pricing =
  tp_updatedAt :: "int option"
  tp_claimEthTwap30m :: "bigdecimal option"
  tp_ethUsd :: "bigdecimal option"
  tp_ethUsdUpdatedAt :: "int option"
  tp_totalSupplyWei :: "int option"
  tp_lockedSupplyWei :: "int option"

record apr_snapshot =
  as_updatedAt :: "int option"
  as_lpAprBps24h :: "int option"
  as_lpAvgTvl24hUsd :: "bigdecimal option"
  as_veAprBps24h :: "int option"

record apr_bucket =
  ab_hourStart :: int
  ab_lpRewardsClaimWei :: int
  ab_shareholderEthWei :: int
  ab_totalStakedLpWei :: "int option"
  ab_lpTvlUsd :: "bigdecimal option"
  ab_totalLockedClaimUsd :: "bigdecimal option"
  ab_claimUsd :: "bigdecimal option"
  ab_ethUsd :: "bigdecimal option"
  ab_updatedAt :: int

record user =
  us_address :: bytes
  us_displayName :: "string option"
  us_takeoverCount :: "32 word"
  us_ethSpentOnTakeoversWei :: int
  us_kingClaimMinedWei :: int
  us_longestReignSeconds :: "32 word"
  us_shareholderEthClaimedWei :: int
  us_furnaceEthInWei :: int
  us_furnacePrincipalClaimInWei :: int
  us_veBalanceWei :: "int option"
  us_totalLockedClaimWei :: "int option"

record delegation_session =
  ds_user :: string
  ds_delegate :: string
  ds_perms :: int
  ds_expiry :: int
  ds_createdAt :: int
  ds_updatedAt :: int
  ds_revokedAt :: "int option"
  ds_lastUsedAt :: "int option"
  ds_lastActionType :: "string option"
  ds_lastTxHash :: "bytes option"

record reign =
  rg_reignId :: int
  rg_king :: string
  rg_startTime :: int
  rg_endTime :: "int option"
  rg_totalClaimMinedWei :: "int option"
  rg_totalEthToKingWei :: "int option"
  rg_liquidClaimPaidWei :: "int option"
  rg_liquidBpsApplied :: "int option"
  rg_startedByTakeover :: string
  rg_finalizedBy :: "string option"
  rg_previousReign :: "string option"

record takeover =
  tk_sortKey :: string
  tk_reign :: string
  tk_previousKing :: "string option"
  tk_newKing :: string
  tk_pricePaidWei :: int
  tk_referencePriceWei :: int
  tk_timestamp :: int
  tk_blockNumber :: int
  tk_txHash :: bytes

record recipients_state =
  rs_reignId :: int
  rs_king :: string
  rs_ethRecipient :: bytes
  rs_claimRecipient :: bytes
  rs_updateCount :: "32 word"
  rs_createdAt :: int
  rs_updatedAt :: int
  rs_firstSetTxHash :: bytes
  rs_firstSetTimestamp :: int
  rs_lastSetTxHash :: bytes
  rs_lastSetTimestamp :: int

record ve_lock =
  vl_tokenId :: int
  vl_owner :: string
  vl_amountWei :: int
  vl_lockEnd :: int
  vl_autoMax :: bool
  vl_listed :: bool
  vl_createdAt :: int
  vl_updatedAt :: int
  vl_currentVeWei :: "int option"

record market_listing =
  ml_tokenId :: int
  ml_lock :: string
  ml_seller :: string
  ml_minClaimOutWei :: int
  ml_priceBps :: int
  ml_listedAtTime :: int
  ml_expiresAtTime :: int
  ml_active :: bool
  ml_updatedAt :: int

record auto_compound_config =
  ac_user :: string
  ac_enabled :: bool
  ac_paused :: bool
  ac_tokenId :: int
  ac_durationSeconds :: int
  ac_minCadenceSeconds :: int
  ac_minEthToCompoundWei :: int
  ac_maxSlippageBps :: int
  ac_pausedReasonCode :: int
  ac_updatedAt :: int

record keeper_row =
  kr_keeper :: string
  kr_allowed :: bool
  kr_updatedAt :: int

record activity_item =
  ai_sortKey :: string
  ai_kind :: string
  ai_timestamp :: int
  ai_txHash :: bytes
  ai_reignId :: "int option"
  ai_tokenId :: "int option"
  ai_user :: "string option"
  ai_otherUser :: "string option"
  ai_amountEthWei :: "int option"
  ai_amountClaimWei :: "int option"
  ai_bps :: "int option"

record token_registry =
  tr_address :: bytes
  tr_guardian :: "bytes option"
  tr_router :: "bytes option"
  tr_factory :: "bytes option"
  tr_wrappedNative :: "bytes option"
  tr_claimToken :: "bytes option"
  tr_wethClaimPool :: "bytes option"
  tr_wethClaimPoolStable :: "bool option"
  tr_updatedAt :: "int option"

record bonus_escrow =
  be_offerId :: int
  be_buyer :: string
  be_discountBps :: "32 word"
  be_priceBps :: int
  be_minLockSizeWei :: "int option"
  be_budgetClaimWei :: int
  be_fundsRemainingWei :: "int option"
  be_createdAt :: int
  be_updatedAt :: int
  be_active :: bool
  be_durationSeconds :: "int option"
  be_createAutoMax :: bool
  be_expiresAt :: int
  be_destinationLockId :: "int option"
  be_destinationLock :: "string option"
  be_targetBonusBps :: "32 word"
  be_slippageBps :: "32 word"

record router_params =
  rp_updatedAt :: int
  rp_minBonusTargetEscrowBudgetClaimWei :: int
  rp_maxBonusTargetEscrowDiscountBps :: "32 word"

record tx_furnace_enter =
  te_txHash :: bytes
  te_user :: string
  te_logIndex :: int
  te_tokenId :: int
  te_principalClaimWei :: int
  te_bonusClaimWei :: int
  te_timestamp :: int
  te_blockNumber :: int

record furnace_day =
  fd_dayStartTimestamp :: int
  fd_bonusPaidCount :: "32 word"
  fd_dripCount :: "32 word"
  fd_totalGrossBonus :: int
  fd_totalUserBonus :: int
  fd_totalLpTopup :: int
  fd_totalLpDrip :: int
  fd_totalLpFromFurnace :: int
  fd_sellCount :: "32 word"
  fd_totalSellLockAmount :: int
  fd_totalSellClaimOut :: int
  fd_totalSellLpReward :: int
  fd_totalSellReserveAdd :: int
  fd_reserveEnd :: int
  fd_quoteBonusMinBps :: "32 word"
  fd_quoteBonusMaxBps :: "32 word"

record pending_queue =
  pq_head :: "32 word"
  pq_tail :: "32 word"

record pending_bonus =
  pb_queueId :: string
  pb_sequence :: "32 word"
  pb_txHash :: bytes
  pb_user :: bytes
  pb_timestamp :: int
  pb_blockNumber :: int
  pb_userBonusClaim :: int
  pb_reserveAfter :: int

record bonus_snapshot =
  bs_updatedAt :: int
  bs_lastDayId :: "32 word"
  bs_last24hRecomputeBucketStart :: "int option"
  bs_currentBps :: "32 word"
  bs_min24hBps :: "32 word"
  bs_max24hBps :: "32 word"
  bs_min7dBps :: "32 word"
  bs_max7dBps :: "32 word"
  bs_min30dBps :: "32 word"
  bs_max30dBps :: "32 word"
  bs_q33Bps :: "32 word"
  bs_q66Bps :: "32 word"
  bs_q95Bps :: "32 word"

record bonus_sample =
  bm_bucketStart :: int
  bm_bucketSeconds :: "32 word"
  bm_quoteUserBonusBps :: "32 word"

record lp_sample =
  ls_bucketStart :: int
  ls_bucketSeconds :: "32 word"
  ls_lpTopupClaim :: int
  ls_lpDripClaim :: int
  ls_lpSellRewardClaim :: int
  ls_lpRewardsClaim :: int

text \<open>The reserved fields of \<open>FurnaceState\<close> that nothing writes are left out.\<close>

record furnace_state =
  fs_updatedAt :: int
  fs_reserve :: int
  fs_userSpotBonusBps :: "(32 word) option"
  fs_grossSpotBonusBps :: "(32 word) option"
  fs_lpTopupRateBps :: "(32 word) option"
  fs_capInflowPerDay :: "int option"
  fs_lpStreamRatePerSec :: int
  fs_lpStreamPeriodFinish :: int
  fs_lpRewardsClaim24h :: int
  fs_lpRewardsTopupClaim24h :: int
  fs_lpRewardsDripClaim24h :: int
  fs_lpRewardsSellRewardClaim24h :: int

record genesis_state =
  gs_genesisFinalized :: bool
  gs_finalizedAt :: "int option"
  gs_finalizedTxHash :: "bytes option"
  gs_genesisLpVaultLockStart :: "int option"
  gs_genesisLpVaultUnlockTime :: "int option"

record token_config =
  tc_registry :: string
  tc_tokenIn :: bytes
  tc_enabled :: bool
  tc_directToClaimEnabled :: bool
  tc_tokenClaimStable :: bool
  tc_tokenClaimPool :: bytes
  tc_tokenWethStable :: bool
  tc_tokenWethPool :: bytes
  tc_exactReceiptSafe :: bool
  tc_updatedAt :: int

section \<open>Immutable log entities, by the mapping that writes them\<close>

text \<open>The arguments are the schema's fields in the order the handlers set them.\<close>

datatype ve_log =
  VeLockCreatedEvent string int int int bool int int bytes
    \<comment> \<open>user, tokenId, amountWei, lockEnd, autoMax, timestamp, blockNumber, txHash\<close>
| VeLockExtendedEvent string int int int int int bytes
    \<comment> \<open>user, tokenId, oldEnd, newEnd, timestamp, blockNumber, txHash\<close>
| VeLockAmountIncreasedEvent string int int int int int bytes
    \<comment> \<open>user, tokenId, amountAddedWei, amountAfterWei, timestamp, blockNumber, txHash\<close>
| VeLockMergedEvent string int int int int int int int bytes
    \<comment> \<open>user, fromTokenId, intoTokenId, amountMovedWei, fromAmountAfterWei, intoAmountAfterWei,
      timestamp, blockNumber, txHash\<close>
| VeLockUnlockedEvent string int int int int int bytes
    \<comment> \<open>user, tokenId, amountReturnedWei, amountAfterWei, timestamp, blockNumber, txHash\<close>
| VeLockAutoMaxSetEvent string int bool int int bytes
    \<comment> \<open>user, tokenId, autoMax, timestamp, blockNumber, txHash\<close>
| VeLockTransferEvent int "string option" "string option" int int bool int int bytes
    \<comment> \<open>tokenId, from, to, amountWei, lockEnd, autoMax, timestamp, blockNumber, txHash\<close>

datatype royalty_log =
  ShareholderAllocation string int int bytes
    \<comment> \<open>reign, amountEthWei, timestamp, txHash\<close>
| ShareholderFlushEvent int int int bytes
    \<comment> \<open>amountEthWei, deltaEthPerVeWei, timestamp, txHash\<close>
| ShareholderClaimEvent string string int int int bytes
    \<comment> \<open>sortKey, user, mode, amountEthWei, timestamp, txHash\<close>
| ShareholderAutoCompoundConfiguredEvent string bool int int int int int int bytes
    \<comment> \<open>user, enabled, tokenId, durationSeconds, minCadenceSeconds, minEthToCompoundWei,
      maxSlippageBps, timestamp, txHash\<close>
| ShareholderAutoCompoundPausedEvent string int int int bytes
    \<comment> \<open>user, tokenId, reasonCode, timestamp, txHash\<close>
| ShareholderAutoCompoundExecutedEvent string string int int int int bytes
    \<comment> \<open>user, executor, amountEthWei, tokenId, effectiveDurationSeconds, timestamp, txHash\<close>
| ShareholderAutoCompoundKeeperSetEvent string bool int bytes
    \<comment> \<open>keeper, allowed, timestamp, txHash\<close>
| ShareholderMinAutoCompoundEthSetEvent int int int bytes
    \<comment> \<open>oldFloorWei, newFloorWei, timestamp, txHash\<close>

datatype mine_log =
  ReignFinalizedEvent string string string int int int int int int bytes
    \<comment> \<open>sortKey, reign, king, startTime, endTime, totalClaimMinedWei, totalEthToKingWei,
      timestamp, blockNumber, txHash\<close>
| ReignRecipientsSetEvent string int string bytes bytes bool int int bytes
    \<comment> \<open>sortKey, reignId, king, ethRecipient, claimRecipient, isMidReignUpdate, timestamp,
      blockNumber, txHash\<close>
| KingWithdrawalEvent string int int int bytes
    \<comment> \<open>king, amount, blockNumber, timestamp, txHash\<close>
| KingWithdrawalToEvent string string int int int bytes
    \<comment> \<open>king, to, amount, blockNumber, timestamp, txHash\<close>
| RefundCreditedEvent string int int int bytes
    \<comment> \<open>to, amount, blockNumber, timestamp, txHash\<close>
| RefundWithdrawnEvent string string int int int bytes
    \<comment> \<open>user, to, amount, blockNumber, timestamp, txHash\<close>
| ShareholderRoyaltiesTakeoverFailedEvent int int bytes int int bytes
    \<comment> \<open>reignId, amountEthWei, reason, timestamp, blockNumber, txHash\<close>
| ShareholderRoyaltiesFlushFailedEvent bytes int int bytes
    \<comment> \<open>reason, timestamp, blockNumber, txHash\<close>

datatype delegation_log =
  DelegationSessionUse string string string string string int int int int int bytes bytes
    \<comment> \<open>sortKey, session, user, delegate, actionType, actionTypeId, permsUsed, refId, timestamp,
      blockNumber, txHash, emitter\<close>
| DelegationSessionSetEvent string string string string int int bool int int bytes
    \<comment> \<open>sortKey, session, user, delegate, perms, expiry, isRevocation, timestamp, blockNumber,
      txHash\<close>

datatype market_log =
  MarketLockListedEvent int string int int int int int bytes
    \<comment> \<open>tokenId, seller, minClaimOutWei, listedAtTime, expiresAtTime, timestamp, blockNumber, txHash\<close>
| MarketLockDelistedEvent int string int "int option" int int bytes
    \<comment> \<open>tokenId, seller, reason, minClaimOutWei, timestamp, blockNumber, txHash\<close>
| ListingSettledEvent int string int int int int bytes
    \<comment> \<open>tokenId, seller, claimOutWei, penaltyWei, timestamp, blockNumber, txHash\<close>
| MarketSellToFurnaceEvent int string int int int int int bytes
    \<comment> \<open>tokenId, seller, minClaimOutWei, deadline, claimOutWei, timestamp, blockNumber, txHash\<close>
| MarketSettlementKeeperSetEvent string bool int bytes
    \<comment> \<open>keeper, allowed, timestamp, txHash\<close>
| BonusTargetEscrowParamsChangedEvent int int bytes int int "32 word" "32 word"
    \<comment> \<open>timestamp, blockNumber, txHash, oldMinBudgetClaimWei, newMinBudgetClaimWei,
      oldMaxDiscountBps, newMaxDiscountBps\<close>
| BonusTargetEscrowEvent string string int bytes
    \<comment> \<open>offer, kind, timestamp, txHash\<close>
| BonusTargetEscrowExecutedEvent string string int int int int "32 word" int "int option" int int bytes
    \<comment> \<open>offer, buyer, claimInWei, principalClaimWei, bonusClaimWei, veOutWei,
      bonusBpsVsPrincipalClaim, routeTokenId, furnaceTokenId, timestamp, blockNumber, txHash\<close>
| BonusTargetEscrowAutoFurnaceExecutedEvent string string int int int int "32 word" int "int option" int int bytes
    \<comment> \<open>the same fields\<close>

datatype furnace_log =
  BonusPaidEvent int int bytes string int int int int int "32 word" "32 word" "32 word" "32 word" "32 word" "32 word"
    int int int int
    \<comment> \<open>timestamp, blockNumber, txHash, user, principal, principalEff, grossBonusClaim, userBonusClaim,
      lpTopupClaim, userSpotBonusBps, lpTopupRateBps, grossSpotBonusBps, quoteUserBonusBps, quoteLpTopupBps,
      lockDurationSec, reserveBefore, reserveAfter, virtualDepthBefore, virtualDepthAfter\<close>
| LpOverflowDripPaidEvent int int bytes int int int "32 word" "32 word" int int int int
    \<comment> \<open>timestamp, blockNumber, txHash, dripAmount, reserveBefore, reserveAfter, alphaBps, gateBps,
      capInflowPerDay, capFixedPerDay, reserveTarget, excessBefore\<close>
| LockSoldToFurnaceEvent int int bytes string int int int "32 word" int "32 word" int int "32 word"
    \<comment> \<open>timestamp, blockNumber, txHash, seller, tokenId, lockAmountWei, claimOutWei, spreadBps, cutWei,
      lpSaleShareBps, lpRewardWei, reserveAddWei, bonusRefBpsUsed\<close>
| MarketTradeEvent string int string string int int int "(32 word) option" int bytes
    \<comment> \<open>kind, tokenId, seller, buyer, priceInClaimWei, feeToFurnaceWei, lockAmountWei, discountBps,
      timestamp, txHash; offer is null\<close>
| FurnaceEnterEvent string int int bytes string "32 word" int int int int "bytes option" "int option"
    \<comment> \<open>sortKey, timestamp, blockNumber, txHash, user, mode, ethInWei, principalClaimWei, bonusClaimWei,
      tokenId, tokenIn, amountInWei\<close>
| FurnaceMergeWithBonusEvent int int bytes string int int int int int int bool int int
    \<comment> \<open>timestamp, blockNumber, txHash, user, fromTokenId, intoTokenId, fromAmount, intoAmount,
      newPrincipal, newEnd, newAutoMax, durationDelta, bonusClaimWei\<close>
| LpRewardsVaultSetEvent int int bytes bytes bytes
    \<comment> \<open>timestamp, blockNumber, txHash, oldVault, newVault\<close>
| FurnaceQuoterSetEvent int int bytes bytes bytes
    \<comment> \<open>timestamp, blockNumber, txHash, oldQuoter, newQuoter\<close>
| LpRewardsNotifyFailedEvent int int bytes bytes int bytes
    \<comment> \<open>timestamp, blockNumber, txHash, vault, amountClaim, revertData\<close>
| LpStreamFundedEvent int int bytes int int int
    \<comment> \<open>timestamp, blockNumber, txHash, amountFunded, newRatePerSec, newPeriodFinish\<close>
| ReserveClampedEvent int int bytes string int int int int
    \<comment> \<open>timestamp, blockNumber, txHash, caller, oldReserve, newReserve, claimBalance, lpStreamRemaining\<close>
| ReserveCreditedEvent int int bytes int int
    \<comment> \<open>timestamp, blockNumber, txHash, amount, newReserve\<close>
| AutoMaxBonusClaimedEvent int int bytes string int int
    \<comment> \<open>timestamp, blockNumber, txHash, user, tokenId, bonusClaimWei\<close>

datatype vault_log =
  AutoCompoundConfiguredEvent string bool int int int int int bytes
    \<comment> \<open>user, enabled, tokenId, durationSeconds, maxSlippageBps, minRewardToCompoundWei, timestamp, txHash\<close>
| AutoCompoundPausedEvent string int "32 word" int bytes
    \<comment> \<open>user, tokenId, reasonCode, timestamp, txHash\<close>
| AutoCompoundUnpausedEvent string int bytes
    \<comment> \<open>user, timestamp, txHash\<close>
| HarvestKeeperSetEvent string bool int bytes
    \<comment> \<open>keeper, allowed, timestamp, txHash\<close>
| LpMinCompoundRewardSetEvent int int int bytes
    \<comment> \<open>oldFloorWei, newFloorWei, timestamp, txHash\<close>
| LpMinHarvestClaimFloorSetEvent int int int bytes
    \<comment> \<open>oldFloorWei, newFloorWei, timestamp, txHash\<close>
| LpNotifyAmountDivergenceEvent int int int bytes
    \<comment> \<open>declaredWei, actualDeltaWei, timestamp, txHash\<close>
| LpAccountedRewardBalanceClampedEvent int int int bytes
    \<comment> \<open>requestedWei, availableWei, timestamp, txHash\<close>
| LpHarvestMinClaimOutIgnoredEvent int int bytes
    \<comment> \<open>minClaimOutWei, timestamp, txHash\<close>
| LpOwnershipTransferStartedEvent string string int bytes
    \<comment> \<open>previousOwner, newOwner, timestamp, txHash\<close>
| LpOwnershipTransferredEvent string string int bytes
    \<comment> \<open>previousOwner, newOwner, timestamp, txHash\<close>
| LpStakedEvent string int int bytes
    \<comment> \<open>user, amount, timestamp, txHash\<close>
| LpUnbondStartedEvent string int int int int bytes
    \<comment> \<open>user, unbondId, amount, unlockTime, timestamp, txHash\<close>
| LpUnbondWithdrawnEvent string int int int bytes
    \<comment> \<open>user, unbondId, amount, timestamp, txHash\<close>
| LpRewardsNotifiedEvent int int bytes
    \<comment> \<open>amountClaim, timestamp, txHash\<close>
| LpRewardsClaimedEvent string int int bytes
    \<comment> \<open>user, amountClaim, timestamp, txHash\<close>
| LpRewardsLockedEvent string int int int int bool int bytes
    \<comment> \<open>user, amountClaim, principalClaim, bonusClaim, tokenId, autoCompounded, timestamp, txHash\<close>
| LpFeesHarvestedToRewardsEvent string int int int int bytes
    \<comment> \<open>caller, feeWeth, feeClaim, claimToRewards, timestamp, txHash\<close>

datatype launch_log =
  LaunchControllerDeploymentValidatedEvent bytes bytes bytes bytes bytes int bytes
    \<comment> \<open>claim, mineCore, genesisLpVault, guardian, expectedPool, timestamp, txHash\<close>
| LaunchControllerTokenSweptEvent bytes bytes int int bytes
    \<comment> \<open>token, to, amountWei, timestamp, txHash\<close>
| LaunchControllerSkimFailedEvent bytes bytes int bytes
    \<comment> \<open>pool, reason, timestamp, txHash\<close>
| GenesisWithdrawLpEvent string int int bytes
    \<comment> \<open>to, amountWei, timestamp, txHash\<close>
| GenesisResidualLpSweepEvent string int int bytes
    \<comment> \<open>to, amountWei, timestamp, txHash\<close>
| GenesisLpFeeClaimEvent string bool bytes bytes int int int int bytes
    \<comment> \<open>to, recipientResolvedByFallback, token0, token1, amount0Wei, amount1Wei, blockNumber, timestamp, txHash\<close>
| MaintenancePokedEvent string bool bool int int bool int int int bytes
    \<comment> \<open>caller, checkpointOk, flushOk, offersAttempted, offersSucceeded, furnaceTickSucceeded,
      bountyWethForwarded, timestamp, blockNumber, txHash\<close>

section \<open>The store\<close>

text \<open>The tables of the market mapping.\<close>

record market_tables =
  mt_escrows :: "bonus_escrow table"
  mt_furnaceEnters :: "tx_furnace_enter table"
  mt_settlementKeepers :: "keeper_row table"
  mt_routerParams :: "router_params table"
  mt_logs :: "string \<times> string \<rightharpoonup> market_log"

text \<open>The tables of the Furnace mapping.\<close>

record furnace_tables =
  ft_days :: "furnace_day table"
  ft_queues :: "pending_queue table"
  ft_pendings :: "pending_bonus table"
  ft_snapshots :: "bonus_snapshot table"
  ft_bonusSamples :: "bonus_sample table"
  ft_lpSamples :: "lp_sample table"
  ft_states :: "furnace_state table"
  ft_logs :: "string \<times> string \<rightharpoonup> furnace_log"

text \<open>The tables of the staking vault, launch, genesis, maintenance and registry mappings.\<close>

record launch_tables =
  lt_genesis :: "genesis_state table"
  lt_tokenConfigs :: "token_config table"
  lt_harvestKeepers :: "keeper_row table"
  lt_vaultLogs :: "string \<times> string \<rightharpoonup> vault_log"
  lt_logs :: "string \<times> string \<rightharpoonup> launch_log"

text \<open>
  One table per entity kind; \<open>dataSources\<close> are the addresses for which a dynamic data source
  was created (\<open>EntryTokenRegistryTemplate.create\<close>). A log entity is keyed by its class and id,
  as in the host, where ids of different classes do not collide.
\<close>

record store =
  protocols :: "protocol table"
  pricings :: "token_pricing table"
  aprs :: "apr_snapshot table"
  buckets :: "apr_bucket table"
  users :: "user table"
  sessions :: "delegation_session table"
  reigns :: "reign table"
  takeovers :: "takeover table"
  recipients :: "recipients_state table"
  veLocks :: "ve_lock table"
  listings :: "market_listing table"
  autoCompounds :: "auto_compound_config table"
  royaltyKeepers :: "keeper_row table"
  activity :: "activity_item table"
  registries :: "token_registry table"
  dataSources :: "address list"
  ve_logs :: "string \<times> string \<rightharpoonup> ve_log"
  royalty_logs :: "string \<times> string \<rightharpoonup> royalty_log"
  mine_logs :: "string \<times> string \<rightharpoonup> mine_log"
  delegation_logs :: "string \<times> string \<rightharpoonup> delegation_log"
  market :: market_tables
  furnace_rows :: furnace_tables
  launch_rows :: launch_tables

definition empty_store :: store where
  "empty_store = \<lparr>protocols = Map.empty, pricings = Map.empty, aprs = Map.empty,
     buckets = Map.empty, users = Map.empty, sessions = Map.empty, reigns = Map.empty,
     takeovers = Map.empty, recipients = Map.empty, veLocks = Map.empty, listings = Map.empty,
     autoCompounds = Map.empty, royaltyKeepers = Map.empty, activity = Map.empty,
     registries = Map.empty, dataSources = [], ve_logs = Map.empty, royalty_logs = Map.empty,
     mine_logs = Map.empty, delegation_logs = Map.empty,
     market = \<lparr>mt_escrows = Map.empty, mt_furnaceEnters = Map.empty, mt_settlementKeepers = Map.empty,
       mt_routerParams = Map.empty, mt_logs = Map.empty\<rparr>,
     furnace_rows = \<lparr>ft_days = Map.empty, ft_queues = Map.empty, ft_pendings = Map.empty,
       ft_snapshots = Map.empty, ft_bonusSamples = Map.empty, ft_lpSamples = Map.empty, ft_states = Map.empty,
       ft_logs = Map.empty\<rparr>,
     launch_rows = \<lparr>lt_genesis = Map.empty, lt_tokenConfigs = Map.empty, lt_harvestKeepers = Map.empty,
       lt_vaultLogs = Map.empty, lt_logs = Map.empty\<rparr>\<rparr>"

lemma empty_store_tables [simp]:
  "protocols empty_store = Map.empty" "pricings empty_store = Map.empty"
  "aprs empty_store = Map.empty" "buckets empty_store = Map.empty" "users empty_store = Map.empty"
  "sessions empty_store = Map.empty" "reigns empty_store = Map.empty"
  "takeovers empty_store = Map.empty" "recipients empty_store = Map.empty"
  "veLocks empty_store = Map.empty" "listings empty_store = Map.empty"
  "autoCompounds empty_store = Map.empty" "royaltyKeepers empty_store = Map.empty"
  "activity empty_store = Map.empty" "registries empty_store = Map.empty"
  "mt_escrows (market empty_store) = Map.empty"
  "ft_days (furnace_rows empty_store) = Map.empty" "ft_queues (furnace_rows empty_store) = Map.empty"
  "ft_pendings (furnace_rows empty_store) = Map.empty" "ft_snapshots (furnace_rows empty_store) = Map.empty"
  "ft_bonusSamples (furnace_rows empty_store) = Map.empty" "ft_lpSamples (furnace_rows empty_store) = Map.empty"
  "ft_states (furnace_rows empty_store) = Map.empty" "lt_genesis (launch_rows empty_store) = Map.empty"
  "lt_tokenConfigs (launch_rows empty_store) = Map.empty"
  by (simp_all add: empty_store_def)

fun ve_log_class :: "ve_log \<Rightarrow> string" where
  "ve_log_class (VeLockCreatedEvent _ _ _ _ _ _ _ _) = ''VeLockCreatedEvent''"
| "ve_log_class (VeLockExtendedEvent _ _ _ _ _ _ _) = ''VeLockExtendedEvent''"
| "ve_log_class (VeLockAmountIncreasedEvent _ _ _ _ _ _ _) = ''VeLockAmountIncreasedEvent''"
| "ve_log_class (VeLockMergedEvent _ _ _ _ _ _ _ _ _) = ''VeLockMergedEvent''"
| "ve_log_class (VeLockUnlockedEvent _ _ _ _ _ _ _) = ''VeLockUnlockedEvent''"
| "ve_log_class (VeLockAutoMaxSetEvent _ _ _ _ _ _) = ''VeLockAutoMaxSetEvent''"
| "ve_log_class (VeLockTransferEvent _ _ _ _ _ _ _ _ _) = ''VeLockTransferEvent''"

fun royalty_log_class :: "royalty_log \<Rightarrow> string" where
  "royalty_log_class (ShareholderAllocation _ _ _ _) = ''ShareholderAllocation''"
| "royalty_log_class (ShareholderFlushEvent _ _ _ _) = ''ShareholderFlushEvent''"
| "royalty_log_class (ShareholderClaimEvent _ _ _ _ _ _) = ''ShareholderClaimEvent''"
| "royalty_log_class (ShareholderAutoCompoundConfiguredEvent _ _ _ _ _ _ _ _ _)
     = ''ShareholderAutoCompoundConfiguredEvent''"
| "royalty_log_class (ShareholderAutoCompoundPausedEvent _ _ _ _ _)
     = ''ShareholderAutoCompoundPausedEvent''"
| "royalty_log_class (ShareholderAutoCompoundExecutedEvent _ _ _ _ _ _ _)
     = ''ShareholderAutoCompoundExecutedEvent''"
| "royalty_log_class (ShareholderAutoCompoundKeeperSetEvent _ _ _ _)
     = ''ShareholderAutoCompoundKeeperSetEvent''"
| "royalty_log_class (ShareholderMinAutoCompoundEthSetEvent _ _ _ _)
     = ''ShareholderMinAutoCompoundEthSetEvent''"

fun mine_log_class :: "mine_log \<Rightarrow> string" where
  "mine_log_class (ReignFinalizedEvent _ _ _ _ _ _ _ _ _ _) = ''ReignFinalizedEvent''"
| "mine_log_class (ReignRecipientsSetEvent _ _ _ _ _ _ _ _ _) = ''ReignRecipientsSetEvent''"
| "mine_log_class (KingWithdrawalEvent _ _ _ _ _) = ''KingWithdrawalEvent''"
| "mine_log_class (KingWithdrawalToEvent _ _ _ _ _ _) = ''KingWithdrawalToEvent''"
| "mine_log_class (RefundCreditedEvent _ _ _ _ _) = ''RefundCreditedEvent''"
| "mine_log_class (RefundWithdrawnEvent _ _ _ _ _ _) = ''RefundWithdrawnEvent''"
| "mine_log_class (ShareholderRoyaltiesTakeoverFailedEvent _ _ _ _ _ _)
     = ''ShareholderRoyaltiesTakeoverFailedEvent''"
| "mine_log_class (ShareholderRoyaltiesFlushFailedEvent _ _ _ _)
     = ''ShareholderRoyaltiesFlushFailedEvent''"

fun delegation_log_class :: "delegation_log \<Rightarrow> string" where
  "delegation_log_class (DelegationSessionUse _ _ _ _ _ _ _ _ _ _ _ _) = ''DelegationSessionUse''"
| "delegation_log_class (DelegationSessionSetEvent _ _ _ _ _ _ _ _ _ _)
     = ''DelegationSessionSetEvent''"

section \<open>Handlers thread the store\<close>

text \<open>
  A handler is a computation of the state monad over the store. The helpers below read a table
  (\<open>E.load\<close>) and write a row (\<open>e.save()\<close>).
\<close>

type_synonym 'a handler = "(store, 'a) state"

abbreviation ret :: "'a \<Rightarrow> 'a handler" where
  "ret \<equiv> State_Monad.return"

definition gets :: "(store \<Rightarrow> 'a) \<Rightarrow> 'a handler" where
  "gets f = State (\<lambda>s. (f s, s))"

definition modify :: "(store \<Rightarrow> store) \<Rightarrow> unit handler" where
  "modify f = State (\<lambda>s. ((), f s))"

abbreviation skip :: "unit handler" where
  "skip \<equiv> State_Monad.return ()"

lemma run_gets [simp]: "run_state (gets f) s = (f s, s)"
  by (simp add: gets_def)

lemma run_modify [simp]: "run_state (modify f) s = ((), f s)"
  by (simp add: modify_def)

text \<open>The store after a handler that returns nothing.\<close>

definition exec :: "'a handler \<Rightarrow> store \<Rightarrow> store" where
  "exec h s = snd (run_state h s)"

lemma exec_simps [simp]:
  "exec (State_Monad.return x) s = s"
  "exec (State_Monad.bind h f) s = exec (f (fst (run_state h s))) (snd (run_state h s))"
  "exec (modify g) s = g s"
  "exec (gets q) s = s"
  by (simp_all add: exec_def split: prod.splits)

lemma exec_if [simp]: "exec (if b then h else k) s = (if b then exec h s else exec k s)"
  by simp

definition saveProtocol :: "string \<Rightarrow> protocol \<Rightarrow> store \<Rightarrow> store" where
  "saveProtocol i p s = s\<lparr>protocols := (protocols s)(i \<mapsto> p)\<rparr>"

definition savePricing :: "string \<Rightarrow> token_pricing \<Rightarrow> store \<Rightarrow> store" where
  "savePricing i p s = s\<lparr>pricings := (pricings s)(i \<mapsto> p)\<rparr>"

definition saveApr :: "string \<Rightarrow> apr_snapshot \<Rightarrow> store \<Rightarrow> store" where
  "saveApr i p s = s\<lparr>aprs := (aprs s)(i \<mapsto> p)\<rparr>"

definition saveBucket :: "string \<Rightarrow> apr_bucket \<Rightarrow> store \<Rightarrow> store" where
  "saveBucket i b s = s\<lparr>buckets := (buckets s)(i \<mapsto> b)\<rparr>"

definition saveUser :: "string \<Rightarrow> user \<Rightarrow> store \<Rightarrow> store" where
  "saveUser i u s = s\<lparr>users := (users s)(i \<mapsto> u)\<rparr>"

definition saveSession :: "string \<Rightarrow> delegation_session \<Rightarrow> store \<Rightarrow> store" where
  "saveSession i d s = s\<lparr>sessions := (sessions s)(i \<mapsto> d)\<rparr>"

definition saveReign :: "string \<Rightarrow> reign \<Rightarrow> store \<Rightarrow> store" where
  "saveReign i r s = s\<lparr>reigns := (reigns s)(i \<mapsto> r)\<rparr>"

definition saveTakeover :: "string \<Rightarrow> takeover \<Rightarrow> store \<Rightarrow> store" where
  "saveTakeover i t s = s\<lparr>takeovers := (takeovers s)(i \<mapsto> t)\<rparr>"

definition saveRecipients :: "string \<Rightarrow> recipients_state \<Rightarrow> store \<Rightarrow> store" where
  "saveRecipients i r s = s\<lparr>recipients := (recipients s)(i \<mapsto> r)\<rparr>"

definition saveVeLock :: "string \<Rightarrow> ve_lock \<Rightarrow> store \<Rightarrow> store" where
  "saveVeLock i l s = s\<lparr>veLocks := (veLocks s)(i \<mapsto> l)\<rparr>"

definition saveListing :: "string \<Rightarrow> market_listing \<Rightarrow> store \<Rightarrow> store" where
  "saveListing i l s = s\<lparr>listings := (listings s)(i \<mapsto> l)\<rparr>"

definition saveAutoCompound :: "string \<Rightarrow> auto_compound_config \<Rightarrow> store \<Rightarrow> store" where
  "saveAutoCompound i c s = s\<lparr>autoCompounds := (autoCompounds s)(i \<mapsto> c)\<rparr>"

definition saveRoyaltyKeeper :: "string \<Rightarrow> keeper_row \<Rightarrow> store \<Rightarrow> store" where
  "saveRoyaltyKeeper i k s = s\<lparr>royaltyKeepers := (royaltyKeepers s)(i \<mapsto> k)\<rparr>"

definition saveActivity :: "string \<Rightarrow> activity_item \<Rightarrow> store \<Rightarrow> store" where
  "saveActivity i a s = s\<lparr>activity := (activity s)(i \<mapsto> a)\<rparr>"

definition saveRegistry :: "string \<Rightarrow> token_registry \<Rightarrow> store \<Rightarrow> store" where
  "saveRegistry i r s = s\<lparr>registries := (registries s)(i \<mapsto> r)\<rparr>"

definition saveVeLog :: "string \<Rightarrow> ve_log \<Rightarrow> store \<Rightarrow> store" where
  "saveVeLog i e s = s\<lparr>ve_logs := (ve_logs s)((ve_log_class e, i) \<mapsto> e)\<rparr>"

definition saveRoyaltyLog :: "string \<Rightarrow> royalty_log \<Rightarrow> store \<Rightarrow> store" where
  "saveRoyaltyLog i e s = s\<lparr>royalty_logs := (royalty_logs s)((royalty_log_class e, i) \<mapsto> e)\<rparr>"

definition saveMineLog :: "string \<Rightarrow> mine_log \<Rightarrow> store \<Rightarrow> store" where
  "saveMineLog i e s = s\<lparr>mine_logs := (mine_logs s)((mine_log_class e, i) \<mapsto> e)\<rparr>"

definition saveDelegationLog :: "string \<Rightarrow> delegation_log \<Rightarrow> store \<Rightarrow> store" where
  "saveDelegationLog i e s =
     s\<lparr>delegation_logs := (delegation_logs s)((delegation_log_class e, i) \<mapsto> e)\<rparr>"

definition saveEscrow :: "string \<Rightarrow> bonus_escrow \<Rightarrow> store \<Rightarrow> store" where
  "saveEscrow i x s = s\<lparr>market := (market s)\<lparr>mt_escrows := (mt_escrows (market s))(i \<mapsto> x)\<rparr>\<rparr>"

definition saveSettlementKeeper :: "string \<Rightarrow> keeper_row \<Rightarrow> store \<Rightarrow> store" where
  "saveSettlementKeeper i k s =
     s\<lparr>market := (market s)\<lparr>mt_settlementKeepers := (mt_settlementKeepers (market s))(i \<mapsto> k)\<rparr>\<rparr>"

definition saveRouterParams :: "string \<Rightarrow> router_params \<Rightarrow> store \<Rightarrow> store" where
  "saveRouterParams i p s =
     s\<lparr>market := (market s)\<lparr>mt_routerParams := (mt_routerParams (market s))(i \<mapsto> p)\<rparr>\<rparr>"

fun market_log_class :: "market_log \<Rightarrow> string" where
  "market_log_class (MarketLockListedEvent _ _ _ _ _ _ _ _) = ''MarketLockListedEvent''"
| "market_log_class (MarketLockDelistedEvent _ _ _ _ _ _ _) = ''MarketLockDelistedEvent''"
| "market_log_class (ListingSettledEvent _ _ _ _ _ _ _) = ''ListingSettledEvent''"
| "market_log_class (MarketSellToFurnaceEvent _ _ _ _ _ _ _ _) = ''MarketSellToFurnaceEvent''"
| "market_log_class (MarketSettlementKeeperSetEvent _ _ _ _) = ''MarketSettlementKeeperSetEvent''"
| "market_log_class (BonusTargetEscrowParamsChangedEvent _ _ _ _ _ _ _) =
     ''BonusTargetEscrowParamsChangedEvent''"
| "market_log_class (BonusTargetEscrowEvent _ _ _ _) = ''BonusTargetEscrowEvent''"
| "market_log_class (BonusTargetEscrowExecutedEvent _ _ _ _ _ _ _ _ _ _ _ _) =
     ''BonusTargetEscrowExecutedEvent''"
| "market_log_class (BonusTargetEscrowAutoFurnaceExecutedEvent _ _ _ _ _ _ _ _ _ _ _ _) =
     ''BonusTargetEscrowAutoFurnaceExecutedEvent''"

definition saveMarketLog :: "string \<Rightarrow> market_log \<Rightarrow> store \<Rightarrow> store" where
  "saveMarketLog i e s =
     s\<lparr>market := (market s)\<lparr>mt_logs := (mt_logs (market s))((market_log_class e, i) \<mapsto> e)\<rparr>\<rparr>"

fun furnace_log_class :: "furnace_log \<Rightarrow> string" where
  "furnace_log_class (BonusPaidEvent _ _ _ _ _ _ _ _ _ _ _ _ _ _ _ _ _ _ _) = ''BonusPaidEvent''"
| "furnace_log_class (LpOverflowDripPaidEvent _ _ _ _ _ _ _ _ _ _ _ _) = ''LpOverflowDripPaidEvent''"
| "furnace_log_class (LockSoldToFurnaceEvent _ _ _ _ _ _ _ _ _ _ _ _ _) = ''LockSoldToFurnaceEvent''"
| "furnace_log_class (MarketTradeEvent _ _ _ _ _ _ _ _ _ _) = ''MarketTradeEvent''"
| "furnace_log_class (FurnaceEnterEvent _ _ _ _ _ _ _ _ _ _ _ _) = ''FurnaceEnterEvent''"
| "furnace_log_class (FurnaceMergeWithBonusEvent _ _ _ _ _ _ _ _ _ _ _ _ _) = ''FurnaceMergeWithBonusEvent''"
| "furnace_log_class (LpRewardsVaultSetEvent _ _ _ _ _) = ''LpRewardsVaultSetEvent''"
| "furnace_log_class (FurnaceQuoterSetEvent _ _ _ _ _) = ''FurnaceQuoterSetEvent''"
| "furnace_log_class (LpRewardsNotifyFailedEvent _ _ _ _ _ _) = ''LpRewardsNotifyFailedEvent''"
| "furnace_log_class (LpStreamFundedEvent _ _ _ _ _ _) = ''LpStreamFundedEvent''"
| "furnace_log_class (ReserveClampedEvent _ _ _ _ _ _ _ _) = ''ReserveClampedEvent''"
| "furnace_log_class (ReserveCreditedEvent _ _ _ _ _) = ''ReserveCreditedEvent''"
| "furnace_log_class (AutoMaxBonusClaimedEvent _ _ _ _ _ _) = ''AutoMaxBonusClaimedEvent''"

fun vault_log_class :: "vault_log \<Rightarrow> string" where
  "vault_log_class (AutoCompoundConfiguredEvent _ _ _ _ _ _ _ _) = ''AutoCompoundConfiguredEvent''"
| "vault_log_class (AutoCompoundPausedEvent _ _ _ _ _) = ''AutoCompoundPausedEvent''"
| "vault_log_class (AutoCompoundUnpausedEvent _ _ _) = ''AutoCompoundUnpausedEvent''"
| "vault_log_class (HarvestKeeperSetEvent _ _ _ _) = ''HarvestKeeperSetEvent''"
| "vault_log_class (LpMinCompoundRewardSetEvent _ _ _ _) = ''LpMinCompoundRewardSetEvent''"
| "vault_log_class (LpMinHarvestClaimFloorSetEvent _ _ _ _) = ''LpMinHarvestClaimFloorSetEvent''"
| "vault_log_class (LpNotifyAmountDivergenceEvent _ _ _ _) = ''LpNotifyAmountDivergenceEvent''"
| "vault_log_class (LpAccountedRewardBalanceClampedEvent _ _ _ _) = ''LpAccountedRewardBalanceClampedEvent''"
| "vault_log_class (LpHarvestMinClaimOutIgnoredEvent _ _ _) = ''LpHarvestMinClaimOutIgnoredEvent''"
| "vault_log_class (LpOwnershipTransferStartedEvent _ _ _ _) = ''LpOwnershipTransferStartedEvent''"
| "vault_log_class (LpOwnershipTransferredEvent _ _ _ _) = ''LpOwnershipTransferredEvent''"
| "vault_log_class (LpStakedEvent _ _ _ _) = ''LpStakedEvent''"
| "vault_log_class (LpUnbondStartedEvent _ _ _ _ _ _) = ''LpUnbondStartedEvent''"
| "vault_log_class (LpUnbondWithdrawnEvent _ _ _ _ _) = ''LpUnbondWithdrawnEvent''"
| "vault_log_class (LpRewardsNotifiedEvent _ _ _) = ''LpRewardsNotifiedEvent''"
| "vault_log_class (LpRewardsClaimedEvent _ _ _ _) = ''LpRewardsClaimedEvent''"
| "vault_log_class (LpRewardsLockedEvent _ _ _ _ _ _ _ _) = ''LpRewardsLockedEvent''"
| "vault_log_class (LpFeesHarvestedToRewardsEvent _ _ _ _ _ _) = ''LpFeesHarvestedToRewardsEvent''"

fun launch_log_class :: "launch_log \<Rightarrow> string" where
  "launch_log_class (LaunchControllerDeploymentValidatedEvent _ _ _ _ _ _ _) = ''LaunchControllerDeploymentValidatedEvent''"
| "launch_log_class (LaunchControllerTokenSweptEvent _ _ _ _ _) = ''LaunchControllerTokenSweptEvent''"
| "launch_log_class (LaunchControllerSkimFailedEvent _ _ _ _) = ''LaunchControllerSkimFailedEvent''"
| "launch_log_class (GenesisWithdrawLpEvent _ _ _ _) = ''GenesisWithdrawLpEvent''"
| "launch_log_class (GenesisResidualLpSweepEvent _ _ _ _) = ''GenesisResidualLpSweepEvent''"
| "launch_log_class (GenesisLpFeeClaimEvent _ _ _ _ _ _ _ _ _) = ''GenesisLpFeeClaimEvent''"
| "launch_log_class (MaintenancePokedEvent _ _ _ _ _ _ _ _ _ _) = ''MaintenancePokedEvent''"

definition saveTxFurnaceEnter :: "string \<Rightarrow> tx_furnace_enter \<Rightarrow> store \<Rightarrow> store" where
  "saveTxFurnaceEnter i x s = s\<lparr>market := (market s)\<lparr>mt_furnaceEnters := (mt_furnaceEnters (market s))(i \<mapsto> x)\<rparr>\<rparr>"

definition saveDay :: "string \<Rightarrow> furnace_day \<Rightarrow> store \<Rightarrow> store" where
  "saveDay i x s = s\<lparr>furnace_rows := (furnace_rows s)\<lparr>ft_days := (ft_days (furnace_rows s))(i \<mapsto> x)\<rparr>\<rparr>"

definition savePendingQueue :: "string \<Rightarrow> pending_queue \<Rightarrow> store \<Rightarrow> store" where
  "savePendingQueue i x s = s\<lparr>furnace_rows := (furnace_rows s)\<lparr>ft_queues := (ft_queues (furnace_rows s))(i \<mapsto> x)\<rparr>\<rparr>"

definition savePending :: "string \<Rightarrow> pending_bonus \<Rightarrow> store \<Rightarrow> store" where
  "savePending i x s = s\<lparr>furnace_rows := (furnace_rows s)\<lparr>ft_pendings := (ft_pendings (furnace_rows s))(i \<mapsto> x)\<rparr>\<rparr>"

definition saveBonusSnapshot :: "string \<Rightarrow> bonus_snapshot \<Rightarrow> store \<Rightarrow> store" where
  "saveBonusSnapshot i x s = s\<lparr>furnace_rows := (furnace_rows s)\<lparr>ft_snapshots := (ft_snapshots (furnace_rows s))(i \<mapsto> x)\<rparr>\<rparr>"

definition saveBonusSample :: "string \<Rightarrow> bonus_sample \<Rightarrow> store \<Rightarrow> store" where
  "saveBonusSample i x s = s\<lparr>furnace_rows := (furnace_rows s)\<lparr>ft_bonusSamples := (ft_bonusSamples (furnace_rows s))(i \<mapsto> x)\<rparr>\<rparr>"

definition saveLpSample :: "string \<Rightarrow> lp_sample \<Rightarrow> store \<Rightarrow> store" where
  "saveLpSample i x s = s\<lparr>furnace_rows := (furnace_rows s)\<lparr>ft_lpSamples := (ft_lpSamples (furnace_rows s))(i \<mapsto> x)\<rparr>\<rparr>"

definition saveFurnaceState :: "string \<Rightarrow> furnace_state \<Rightarrow> store \<Rightarrow> store" where
  "saveFurnaceState i x s = s\<lparr>furnace_rows := (furnace_rows s)\<lparr>ft_states := (ft_states (furnace_rows s))(i \<mapsto> x)\<rparr>\<rparr>"

definition saveGenesis :: "string \<Rightarrow> genesis_state \<Rightarrow> store \<Rightarrow> store" where
  "saveGenesis i x s = s\<lparr>launch_rows := (launch_rows s)\<lparr>lt_genesis := (lt_genesis (launch_rows s))(i \<mapsto> x)\<rparr>\<rparr>"

definition saveTokenConfig :: "string \<Rightarrow> token_config \<Rightarrow> store \<Rightarrow> store" where
  "saveTokenConfig i x s = s\<lparr>launch_rows := (launch_rows s)\<lparr>lt_tokenConfigs := (lt_tokenConfigs (launch_rows s))(i \<mapsto> x)\<rparr>\<rparr>"

definition saveHarvestKeeper :: "string \<Rightarrow> keeper_row \<Rightarrow> store \<Rightarrow> store" where
  "saveHarvestKeeper i x s = s\<lparr>launch_rows := (launch_rows s)\<lparr>lt_harvestKeepers := (lt_harvestKeepers (launch_rows s))(i \<mapsto> x)\<rparr>\<rparr>"

definition saveFurnaceLog :: "string \<Rightarrow> furnace_log \<Rightarrow> store \<Rightarrow> store" where
  "saveFurnaceLog i e s =
     s\<lparr>furnace_rows := (furnace_rows s)\<lparr>ft_logs := (ft_logs (furnace_rows s))((furnace_log_class e, i) \<mapsto> e)\<rparr>\<rparr>"

definition saveVaultLog :: "string \<Rightarrow> vault_log \<Rightarrow> store \<Rightarrow> store" where
  "saveVaultLog i e s =
     s\<lparr>launch_rows := (launch_rows s)\<lparr>lt_vaultLogs := (lt_vaultLogs (launch_rows s))((vault_log_class e, i) \<mapsto> e)\<rparr>\<rparr>"

definition saveLaunchLog :: "string \<Rightarrow> launch_log \<Rightarrow> store \<Rightarrow> store" where
  "saveLaunchLog i e s =
     s\<lparr>launch_rows := (launch_rows s)\<lparr>lt_logs := (lt_logs (launch_rows s))((launch_log_class e, i) \<mapsto> e)\<rparr>\<rparr>"

text \<open>\<open>store.remove(entity, id)\<close>.\<close>

definition removePendingQueue :: "string \<Rightarrow> store \<Rightarrow> store" where
  "removePendingQueue i s = s\<lparr>furnace_rows := (furnace_rows s)\<lparr>ft_queues := (ft_queues (furnace_rows s))(i := None)\<rparr>\<rparr>"

definition removePending :: "string \<Rightarrow> store \<Rightarrow> store" where
  "removePending i s = s\<lparr>furnace_rows := (furnace_rows s)\<lparr>ft_pendings := (ft_pendings (furnace_rows s))(i := None)\<rparr>\<rparr>"

definition removeBonusSample :: "string \<Rightarrow> store \<Rightarrow> store" where
  "removeBonusSample i s = s\<lparr>furnace_rows := (furnace_rows s)\<lparr>ft_bonusSamples := (ft_bonusSamples (furnace_rows s))(i := None)\<rparr>\<rparr>"

definition removeLpSample :: "string \<Rightarrow> store \<Rightarrow> store" where
  "removeLpSample i s = s\<lparr>furnace_rows := (furnace_rows s)\<lparr>ft_lpSamples := (ft_lpSamples (furnace_rows s))(i := None)\<rparr>\<rparr>"

lemmas save_defs [store_simps] =
  saveProtocol_def savePricing_def saveApr_def saveBucket_def saveUser_def saveSession_def
  saveReign_def saveTakeover_def saveRecipients_def saveVeLock_def saveListing_def
  saveAutoCompound_def saveRoyaltyKeeper_def saveActivity_def saveRegistry_def saveVeLog_def
  saveRoyaltyLog_def saveMineLog_def saveDelegationLog_def saveEscrow_def saveSettlementKeeper_def
  saveRouterParams_def saveMarketLog_def saveTxFurnaceEnter_def saveDay_def savePendingQueue_def savePending_def saveBonusSnapshot_def
  saveBonusSample_def saveLpSample_def saveFurnaceState_def saveGenesis_def saveTokenConfig_def
  saveHarvestKeeper_def saveFurnaceLog_def saveVaultLog_def saveLaunchLog_def removePendingQueue_def
  removePending_def removeBonusSample_def removeLpSample_def

section \<open>The tables provide the interface\<close>

interpretation user_table: entity_table "\<lambda>i s. users s i" saveUser
  by unfold_locales (auto simp: saveUser_def map_upd_triv)

interpretation lock_table: entity_table "\<lambda>i s. veLocks s i" saveVeLock
  by unfold_locales (auto simp: saveVeLock_def map_upd_triv)

interpretation session_table: entity_table "\<lambda>i s. sessions s i" saveSession
  by unfold_locales (auto simp: saveSession_def map_upd_triv)

interpretation reign_table: entity_table "\<lambda>i s. reigns s i" saveReign
  by unfold_locales (auto simp: saveReign_def map_upd_triv)

interpretation takeover_table: entity_table "\<lambda>i s. takeovers s i" saveTakeover
  by unfold_locales (auto simp: saveTakeover_def map_upd_triv)

interpretation listing_table: entity_table "\<lambda>i s. listings s i" saveListing
  by unfold_locales (auto simp: saveListing_def map_upd_triv)

interpretation bucket_table: entity_table "\<lambda>i s. buckets s i" saveBucket
  by unfold_locales (auto simp: saveBucket_def map_upd_triv)

interpretation config_table: entity_table "\<lambda>i s. autoCompounds s i" saveAutoCompound
  by unfold_locales (auto simp: saveAutoCompound_def map_upd_triv)

interpretation escrow_table: entity_table "\<lambda>i s. mt_escrows (market s) i" saveEscrow
  by unfold_locales (auto simp: saveEscrow_def map_upd_triv)

end
