(* ===== verification/SubgraphUtils.thy ===== *)
theory SubgraphUtils
  imports Store
begin

unbundle bit_operations_syntax

text \<open>
  The helpers every mapping uses (\<open>src/subgraph/src/utils\<close>): entity ids and sort keys, the
  activity feed, day buckets, the protocol singleton, the user rows, the decay of voting weight
  and the use of delegation sessions. For \<open>loadOrCreateUser\<close> and \<open>loadOrCreateProtocol\<close> the
  value and the store they leave are given in closed form, and those equations are what the
  handlers' proofs rewrite with.
\<close>

section \<open>Ids, sort keys, day buckets (id.ts, sortKey.ts, activity.ts, day.ts)\<close>

definition eventId :: "eth_event \<Rightarrow> string" where
  "eventId ev = toHexString (ev_txHash ev) @ ''-'' @ int_string (ev_logIndex ev)"

definition SORT_KEY_NUMERIC_WIDTH :: nat where
  "SORT_KEY_NUMERIC_WIDTH = 20"

function padNumeric :: "string \<Rightarrow> string" where
  "padNumeric out =
     (if length out < SORT_KEY_NUMERIC_WIDTH then padNumeric (CHR ''0'' # out) else out)"
  by pat_completeness auto
termination by (relation "measure (\<lambda>out. SORT_KEY_NUMERIC_WIDTH - length out)") auto

declare padNumeric.simps [simp del]

definition blockSortKey :: "int \<Rightarrow> string \<Rightarrow> string" where
  "blockSortKey blockNumber i = padNumeric (int_string blockNumber) @ '':'' @ i"

definition timestampSortKey :: "int \<Rightarrow> string \<Rightarrow> string" where
  "timestampSortKey timestamp i = padNumeric (int_string timestamp) @ '':'' @ i"

definition ACTIVITY_SORT_TIMESTAMP_WIDTH :: nat where
  "ACTIVITY_SORT_TIMESTAMP_WIDTH = 20"

function padTimestamp :: "string \<Rightarrow> string" where
  "padTimestamp out =
     (if length out < ACTIVITY_SORT_TIMESTAMP_WIDTH then padTimestamp (CHR ''0'' # out) else out)"
  by pat_completeness auto
termination by (relation "measure (\<lambda>out. ACTIVITY_SORT_TIMESTAMP_WIDTH - length out)") auto

declare padTimestamp.simps [simp del]

definition activitySortKey :: "int \<Rightarrow> string \<Rightarrow> string" where
  "activitySortKey timestamp i = padTimestamp (int_string timestamp) @ '':'' @ i"

definition saveActivityItem :: "string \<Rightarrow> activity_item \<Rightarrow> unit handler" where
  "saveActivityItem i item =
     modify (saveActivity i (item\<lparr>ai_sortKey := activitySortKey (ai_timestamp item) i\<rparr>))"

text \<open>A fresh \<open>new ActivityItem(id)\<close>: every field null or unset but those the handlers write.\<close>

definition new_activity :: "string \<Rightarrow> int \<Rightarrow> bytes \<Rightarrow> activity_item" where
  "new_activity kind timestamp txHash =
     \<lparr>ai_sortKey = '''', ai_kind = kind, ai_timestamp = timestamp, ai_txHash = txHash,
      ai_reignId = None, ai_tokenId = None, ai_user = None, ai_otherUser = None,
      ai_amountEthWei = None, ai_amountClaimWei = None, ai_bps = None\<rparr>"

definition SECONDS_PER_DAY :: int where
  "SECONDS_PER_DAY = 86400"

definition dayIdFromTimestamp :: "int \<Rightarrow> string" where
  "dayIdFromTimestamp ts = int_string (bigint_div ts SECONDS_PER_DAY)"

text \<open>\<open>BigInt.fromString\<close> on a decimal numeral.\<close>

definition bigint_fromString :: "string \<Rightarrow> int" where
  "bigint_fromString s =
     (case s of c # cs \<Rightarrow> if c = CHR ''-'' then - int (string_nat cs) else int (string_nat s)
      | [] \<Rightarrow> 0)"

definition dayStartFromDayId :: "string \<Rightarrow> int" where
  "dayStartFromDayId dayId = bigint_fromString dayId * SECONDS_PER_DAY"

section \<open>Voting weight (ve.ts)\<close>

definition MAX_LOCK_DURATION_SECONDS :: int where
  "MAX_LOCK_DURATION_SECONDS = 31536000"

definition currentVeWei :: "int \<Rightarrow> int \<Rightarrow> int \<Rightarrow> bool \<Rightarrow> int" where
  "currentVeWei amountWei lockEnd now autoMax =
     (if autoMax then amountWei
      else if lockEnd \<le> now then 0
      else let remaining = lockEnd - now
           in bigint_div (amountWei * remaining) MAX_LOCK_DURATION_SECONDS)"

section \<open>The protocol singleton (protocol.ts)\<close>

definition PROTOCOL_ID :: string where
  "PROTOCOL_ID = ''1''"

definition chainIdFromNetwork :: "chain \<Rightarrow> int" where
  "chainIdFromNetwork c =
     (if network c = ''base'' then 8453
      else if network c = ''base-sepolia'' then 84532
      else if network c = ''local'' then 31337
      else 0)"

definition ZERO_ADDRESS :: address where
  "ZERO_ADDRESS = replicate 20 0"

lemma short_address_neq: "length a \<noteq> 20 \<Longrightarrow> a \<noteq> ZERO_ADDRESS"
  by (auto simp: ZERO_ADDRESS_def)

definition isZeroAddressBytes :: "bytes \<Rightarrow> bool" where
  "isZeroAddressBytes b \<longleftrightarrow> toHexString b = toHexString ZERO_ADDRESS"

lemma isZeroAddressBytes_iff [simp]: "isZeroAddressBytes b \<longleftrightarrow> b = ZERO_ADDRESS"
  by (simp add: isZeroAddressBytes_def)

definition setBytesIfZero :: "bytes \<Rightarrow> bytes \<Rightarrow> bytes" where
  "setBytesIfZero current next = (if isZeroAddressBytes current then next else current)"

definition new_pricing :: token_pricing where
  "new_pricing = \<lparr>tp_updatedAt = None, tp_claimEthTwap30m = None, tp_ethUsd = None,
     tp_ethUsdUpdatedAt = None, tp_totalSupplyWei = None, tp_lockedSupplyWei = None\<rparr>"

definition new_apr :: apr_snapshot where
  "new_apr = \<lparr>as_updatedAt = None, as_lpAprBps24h = None, as_lpAvgTvl24hUsd = None,
     as_veAprBps24h = None\<rparr>"

definition ensureInfoSurfaces :: "unit handler" where
  "ensureInfoSurfaces = do {
     p \<leftarrow> gets (\<lambda>s. pricings s PROTOCOL_ID);
     (if p = None then modify (savePricing PROTOCOL_ID new_pricing) else skip);
     a \<leftarrow> gets (\<lambda>s. aprs s PROTOCOL_ID);
     (if a = None then modify (saveApr PROTOCOL_ID new_apr) else skip)
   }"

definition new_protocol :: "chain \<Rightarrow> int option \<Rightarrow> protocol" where
  "new_protocol c deployedAtBlock =
     \<lparr>pr_chainId = chainIdFromNetwork c, pr_version = ''v1.0.0'',
      pr_deployedAtBlock = (case deployedAtBlock of None \<Rightarrow> 0 | Some b \<Rightarrow> b),
      pr_claimToken = ZERO_ADDRESS, pr_veClaimNft = ZERO_ADDRESS, pr_mineCore = ZERO_ADDRESS,
      pr_shareholderRoyalties = ZERO_ADDRESS, pr_furnace = ZERO_ADDRESS,
      pr_marketRouter = ZERO_ADDRESS, pr_furnaceEntryTokenRegistry = None,
      pr_mineCoreEntryTokenRegistry = None, pr_entryTokenRegistry = Some ZERO_ADDRESS,
      pr_dexAdapter = None, pr_furnaceQuoter = None, pr_lpStakingVault = None,
      pr_launchController = None, pr_genesisLpVault24m = None, pr_maintenanceHub = None,
      pr_takeoversPaused = False, pr_lockingPaused = False, pr_tradingPaused = False\<rparr>"

text \<open>The alias backfill: the row and whether it changed.\<close>

definition backfillEntryTokenRegistry :: "protocol \<Rightarrow> protocol \<times> bool" where
  "backfillEntryTokenRegistry p =
     (case pr_entryTokenRegistry p of
        None \<Rightarrow>
          (case pr_furnaceEntryTokenRegistry p of
             Some fe \<Rightarrow> (p\<lparr>pr_entryTokenRegistry := Some fe\<rparr>, True)
           | None \<Rightarrow> (p\<lparr>pr_entryTokenRegistry := Some ZERO_ADDRESS\<rparr>, True))
      | Some current \<Rightarrow>
          (case pr_furnaceEntryTokenRegistry p of
             Some fe \<Rightarrow>
               if toHexString current \<noteq> toHexString fe
               then (p\<lparr>pr_entryTokenRegistry := Some fe\<rparr>, True) else (p, False)
           | None \<Rightarrow> (p, False)))"

definition loadOrCreateProtocol :: "chain \<Rightarrow> int option \<Rightarrow> protocol handler" where
  "loadOrCreateProtocol c deployedAtBlock = do {
     r \<leftarrow> gets (\<lambda>s. protocols s PROTOCOL_ID);
     (p, created) \<leftarrow> (case r of
         None \<Rightarrow> do { ensureInfoSurfaces; ret (new_protocol c deployedAtBlock, True) }
       | Some p \<Rightarrow> ret (p, False));
     let (p, didBackfill) = backfillEntryTokenRegistry p;
     (if created \<or> didBackfill then modify (saveProtocol PROTOCOL_ID p) else skip);
     ret p
   }"

section \<open>Users (user.ts)\<close>

definition shortAddress :: "string \<Rightarrow> string" where
  "shortAddress hex =
     (if length hex \<le> 10 then hex
      else let prefix = take 6 hex; suffix = take 4 (drop (length hex - 4) hex)
           in prefix @ ''...'' @ suffix)"

abbreviation user_id :: "address \<Rightarrow> string" where
  "user_id \<equiv> toHexString"

definition new_user :: "address \<Rightarrow> user" where
  "new_user addr =
     \<lparr>us_address = addr, us_displayName = Some (shortAddress (user_id addr)),
      us_takeoverCount = 0, us_ethSpentOnTakeoversWei = 0, us_kingClaimMinedWei = 0,
      us_longestReignSeconds = 0, us_shareholderEthClaimedWei = 0, us_furnaceEthInWei = 0,
      us_furnacePrincipalClaimInWei = 0, us_veBalanceWei = Some 0,
      us_totalLockedClaimWei = Some 0\<rparr>"

definition loadOrCreateUser :: "address \<Rightarrow> user handler" where
  "loadOrCreateUser addr = do {
     let i = user_id addr;
     r \<leftarrow> gets (\<lambda>s. users s i);
     (case r of
        None \<Rightarrow> do {
          let u = new_user addr;
          modify (saveUser i u);
          ret u
        }
      | Some u \<Rightarrow> do {
          let b1 = (us_displayName u = None);
          let u = (if b1 then u\<lparr>us_displayName := Some (shortAddress i)\<rparr> else u);
          let b2 = (us_veBalanceWei u = None);
          let u = (if b2 then u\<lparr>us_veBalanceWei := Some 0\<rparr> else u);
          let b3 = (us_totalLockedClaimWei u = None);
          let u = (if b3 then u\<lparr>us_totalLockedClaimWei := Some 0\<rparr> else u);
          (if b1 \<or> b2 \<or> b3 then modify (saveUser i u) else skip);
          ret u
        })
   }"

section \<open>Delegation sessions (delegation.ts)\<close>

definition sessionId :: "string \<Rightarrow> string \<Rightarrow> string" where
  "sessionId userId delegateId = userId @ ''-'' @ delegateId"

definition actionTypeEnum :: "int \<Rightarrow> string" where
  "actionTypeEnum actionTypeId =
     (if actionTypeId = 1 then ''TAKEOVER''
      else if actionTypeId = 2 then ''REIGN_RECIPIENTS''
      else if actionTypeId \<ge> 10 \<and> actionTypeId \<le> 13 then ''CLAIM''
      else if actionTypeId \<ge> 20 \<and> actionTypeId \<le> 22 then ''FURNACE_ENTER''
      else if actionTypeId \<ge> 30 \<and> actionTypeId \<le> 32 then ''VE_LOCK''
      else if actionTypeId \<ge> 40 \<and> actionTypeId \<le> 42 then ''CONFIG''
      else ''UNKNOWN'')"

definition missing_session :: "string \<Rightarrow> string \<Rightarrow> int \<Rightarrow> int \<Rightarrow> delegation_session" where
  "missing_session userId delegateId permsUsed timestamp =
     \<lparr>ds_user = userId, ds_delegate = delegateId, ds_perms = permsUsed, ds_expiry = 4294967295,
      ds_createdAt = timestamp, ds_updatedAt = timestamp, ds_revokedAt = None,
      ds_lastUsedAt = None, ds_lastActionType = None, ds_lastTxHash = None\<rparr>"

definition recordDelegationSessionUsed ::
  "eth_event \<Rightarrow> address \<Rightarrow> address \<Rightarrow> int \<Rightarrow> int \<Rightarrow> int \<Rightarrow> int \<Rightarrow> unit handler" where
  "recordDelegationSessionUsed ev userAddr delegateAddr actionTypeId permsUsed refId timestamp = do {
     user \<leftarrow> loadOrCreateUser userAddr;
     delegate \<leftarrow> loadOrCreateUser delegateAddr;
     let i = sessionId (user_id userAddr) (user_id delegateAddr);
     r \<leftarrow> gets (\<lambda>s. sessions s i);
     let session = (case r of
         None \<Rightarrow> missing_session (user_id userAddr) (user_id delegateAddr) permsUsed timestamp
       | Some d \<Rightarrow> d);
     let session = session\<lparr>ds_perms := ds_perms session OR permsUsed\<rparr>;
     let kind = actionTypeEnum actionTypeId;
     let session = session\<lparr>ds_lastUsedAt := Some timestamp, ds_lastActionType := Some kind,
                           ds_lastTxHash := Some (ev_txHash ev), ds_updatedAt := timestamp\<rparr>;
     modify (saveSession i session);
     let useId = eventId ev;
     modify (saveDelegationLog useId
       (DelegationSessionUse (blockSortKey (ev_blockNumber ev) useId) i
          (user_id userAddr) (user_id delegateAddr) kind actionTypeId permsUsed refId timestamp
          (ev_blockNumber ev) (ev_txHash ev) (ev_address ev)))
   }"

section \<open>DelegationHub mapping (delegationHub.ts)\<close>

definition unset_session :: "string \<Rightarrow> string \<Rightarrow> int \<Rightarrow> delegation_session" where
  "unset_session userId delegateId timestamp =
     \<lparr>ds_user = userId, ds_delegate = delegateId, ds_perms = 0, ds_expiry = 0,
      ds_createdAt = timestamp, ds_updatedAt = timestamp, ds_revokedAt = None,
      ds_lastUsedAt = None, ds_lastActionType = None, ds_lastTxHash = None\<rparr>"

definition handleSessionSet ::
  "eth_event \<Rightarrow> address \<Rightarrow> address \<Rightarrow> int \<Rightarrow> int \<Rightarrow> unit handler" where
  "handleSessionSet ev p_user p_delegate p_perms p_expiry = do {
     user \<leftarrow> loadOrCreateUser p_user;
     delegate \<leftarrow> loadOrCreateUser p_delegate;
     let i = sessionId (user_id p_user) (user_id p_delegate);
     r \<leftarrow> gets (\<lambda>s. sessions s i);
     let d = (case r of
         None \<Rightarrow> unset_session (user_id p_user) (user_id p_delegate) (ev_timestamp ev)
       | Some d \<Rightarrow> d);
     let isRevocation = (p_perms = 0 \<and> p_expiry = 0);
     let d = d\<lparr>ds_perms := p_perms, ds_expiry := p_expiry, ds_updatedAt := ev_timestamp ev,
               ds_revokedAt := (if isRevocation then Some (ev_timestamp ev) else None)\<rparr>;
     modify (saveSession i d);
     let evId = eventId ev;
     modify (saveDelegationLog evId
       (DelegationSessionSetEvent (blockSortKey (ev_blockNumber ev) evId) i
          (user_id p_user) (user_id p_delegate) p_perms p_expiry isRevocation
          (ev_timestamp ev) (ev_blockNumber ev) (ev_txHash ev)))
   }"

section \<open>Closed forms of the load-or-create helpers\<close>

definition backfill_user :: "string \<Rightarrow> user \<Rightarrow> user" where
  "backfill_user i u =
     u\<lparr>us_displayName := Some (case us_displayName u of None \<Rightarrow> shortAddress i | Some d \<Rightarrow> d),
       us_veBalanceWei := Some (case us_veBalanceWei u of None \<Rightarrow> 0 | Some v \<Rightarrow> v),
       us_totalLockedClaimWei := Some (case us_totalLockedClaimWei u of None \<Rightarrow> 0 | Some v \<Rightarrow> v)\<rparr>"

definition user_of :: "address \<Rightarrow> store \<Rightarrow> user" where
  "user_of a s =
     (case users s (user_id a) of None \<Rightarrow> new_user a | Some u \<Rightarrow> backfill_user (user_id a) u)"

lemma run_loadOrCreateUser [simp]:
  "run_state (loadOrCreateUser a) s = (user_of a s, saveUser (user_id a) (user_of a s) s)"
proof (cases "users s (user_id a)")
  case None
  then show ?thesis by (simp add: loadOrCreateUser_def user_of_def Let_def)
next
  case (Some u)
  show ?thesis
  proof (cases "us_displayName u = None \<or> us_veBalanceWei u = None
      \<or> us_totalLockedClaimWei u = None")
    case True
    with Some show ?thesis
      by (cases u) (auto simp: loadOrCreateUser_def user_of_def backfill_user_def Let_def
          split: option.splits)
  next
    case False
    then obtain d v t where fields: "us_displayName u = Some d" "us_veBalanceWei u = Some v"
        "us_totalLockedClaimWei u = Some t" by auto
    then have "backfill_user (user_id a) u = u"
      by (cases u) (auto simp: backfill_user_def)
    with fields Some user_table.save_same [of s "user_id a" u] show ?thesis
      by (simp add: loadOrCreateUser_def user_of_def Let_def)
  qed
qed

lemma user_of_present [simp]:
  "us_veBalanceWei (user_of a s) \<noteq> None" "us_totalLockedClaimWei (user_of a s) \<noteq> None"
  "us_displayName (user_of a s) \<noteq> None"
  by (auto simp: user_of_def new_user_def backfill_user_def split: option.splits)

definition protocol_of :: "chain \<Rightarrow> int option \<Rightarrow> store \<Rightarrow> protocol" where
  "protocol_of c b s = fst (backfillEntryTokenRegistry
     (case protocols s PROTOCOL_ID of None \<Rightarrow> new_protocol c b | Some p \<Rightarrow> p))"

definition surfaces_of :: "store \<Rightarrow> store" where
  "surfaces_of s = s\<lparr>
     pricings := (case pricings s PROTOCOL_ID of
        None \<Rightarrow> (pricings s)(PROTOCOL_ID \<mapsto> new_pricing) | Some _ \<Rightarrow> pricings s),
     aprs := (case aprs s PROTOCOL_ID of
        None \<Rightarrow> (aprs s)(PROTOCOL_ID \<mapsto> new_apr) | Some _ \<Rightarrow> aprs s)\<rparr>"

definition with_protocol :: "chain \<Rightarrow> int option \<Rightarrow> store \<Rightarrow> store" where
  "with_protocol c b s =
     saveProtocol PROTOCOL_ID (protocol_of c b s)
       (if protocols s PROTOCOL_ID = None then surfaces_of s else s)"

lemma run_ensureInfoSurfaces [simp]: "run_state ensureInfoSurfaces s = ((), surfaces_of s)"
  by (auto simp: ensureInfoSurfaces_def surfaces_of_def store_simps split: option.splits)

lemma backfill_unchanged: "backfillEntryTokenRegistry p = (q, False) \<Longrightarrow> q = p"
  by (auto simp: backfillEntryTokenRegistry_def split: option.splits if_splits)

lemma run_loadOrCreateProtocol [simp]:
  "run_state (loadOrCreateProtocol c b) s = (protocol_of c b s, with_protocol c b s)"
proof (cases "protocols s PROTOCOL_ID")
  case None
  then show ?thesis
    by (simp add: loadOrCreateProtocol_def protocol_of_def with_protocol_def split: prod.splits)
next
  case (Some p)
  obtain q f where q: "backfillEntryTokenRegistry p = (q, f)" by fastforce
  show ?thesis
  proof (cases f)
    case True
    with Some q show ?thesis
      by (simp add: loadOrCreateProtocol_def protocol_of_def with_protocol_def)
  next
    case False
    with q have "q = p" by (simp add: backfill_unchanged)
    with False Some q show ?thesis
      by (simp add: loadOrCreateProtocol_def protocol_of_def with_protocol_def saveProtocol_def
          map_upd_triv)
  qed
qed

lemma new_protocol_registry [simp]:
  "pr_furnaceEntryTokenRegistry (new_protocol c b) = None"
  "pr_entryTokenRegistry (new_protocol c b) = Some ZERO_ADDRESS"
  by (simp_all add: new_protocol_def)

text \<open>What the two helpers leave alone.\<close>

lemma with_protocol_frame [frame, simp]:
  "buckets (with_protocol c b s) = buckets s"
  "users (with_protocol c b s) = users s"
  "sessions (with_protocol c b s) = sessions s"
  "reigns (with_protocol c b s) = reigns s"
  "takeovers (with_protocol c b s) = takeovers s"
  "recipients (with_protocol c b s) = recipients s"
  "veLocks (with_protocol c b s) = veLocks s"
  "listings (with_protocol c b s) = listings s"
  "autoCompounds (with_protocol c b s) = autoCompounds s"
  "royaltyKeepers (with_protocol c b s) = royaltyKeepers s"
  "activity (with_protocol c b s) = activity s"
  "registries (with_protocol c b s) = registries s"
  "dataSources (with_protocol c b s) = dataSources s"
  "ve_logs (with_protocol c b s) = ve_logs s"
  "royalty_logs (with_protocol c b s) = royalty_logs s"
  "mine_logs (with_protocol c b s) = mine_logs s"
  "delegation_logs (with_protocol c b s) = delegation_logs s" "market (with_protocol c b s) = market s"
  "furnace_rows (with_protocol c b s) = furnace_rows s" "launch_rows (with_protocol c b s) = launch_rows s"
  by (auto simp: with_protocol_def surfaces_of_def saveProtocol_def)

lemma protocols_with_protocol [simp]:
  "protocols (with_protocol c b s) = (protocols s)(PROTOCOL_ID \<mapsto> protocol_of c b s)"
  by (auto simp: with_protocol_def surfaces_of_def saveProtocol_def)

lemma user_of_cong: "users s (user_id a) = users t (user_id a) \<Longrightarrow> user_of a s = user_of a t"
  by (simp add: user_of_def)

lemma user_of_frame [simp]: "user_of a (with_protocol c b s) = user_of a s"
  by (simp add: user_of_def)

section \<open>Ids and sort keys identify and order their rows\<close>

lemma padNumeric_eq:
  "padNumeric s = replicate (SORT_KEY_NUMERIC_WIDTH - length s) CHR ''0'' @ s"
proof (induction s rule: padNumeric.induct)
  case (1 s)
  show ?case
  proof (cases "length s < SORT_KEY_NUMERIC_WIDTH")
    case True
    then obtain k where k: "SORT_KEY_NUMERIC_WIDTH - length s = Suc k"
      using less_imp_Suc_add by (metis Suc_diff_Suc)
    then have "SORT_KEY_NUMERIC_WIDTH - length (CHR ''0'' # s) = k" by simp
    with True 1 k show ?thesis
      by (subst padNumeric.simps) (simp add: replicate_app_Cons_same)
  next
    case False
    then show ?thesis by (subst padNumeric.simps) simp
  qed
qed

lemma padTimestamp_eq: "padTimestamp s = padNumeric s"
  by (induction s rule: padTimestamp.induct)
     (subst padTimestamp.simps, subst padNumeric.simps,
      simp add: ACTIVITY_SORT_TIMESTAMP_WIDTH_def SORT_KEY_NUMERIC_WIDTH_def)

lemma string_nat_replicate_zero [simp]: "string_nat (replicate k CHR ''0'' @ s) = string_nat s"
  by (induction k) simp_all

lemma zero_digit: "CHR ''0'' = digit_char 0"
proof -
  have "(of_char (CHR ''0'') :: nat) = 48" by simp
  then have "char_of (48 :: nat) = CHR ''0''" by (metis char_of_char)
  then show ?thesis by (simp add: digit_char_def)
qed

lemma padNumeric_numeral:
  assumes "0 \<le> n" and "n < 10 ^ 20"
  shows "length (padNumeric (int_string n)) = 20"
    and "is_numeral (padNumeric (int_string n))"
    and "string_nat (padNumeric (int_string n)) = nat n"
proof -
  have "nat n < 10 ^ 20" using assms by (simp add: nat_less_iff)
  then have len: "length (nat_string (nat n)) \<le> 20" by (intro length_nat_string_le) simp_all
  have eq: "padNumeric (int_string n)
      = replicate (20 - length (nat_string (nat n))) CHR ''0'' @ nat_string (nat n)"
    using assms by (simp add: padNumeric_eq int_string_def SORT_KEY_NUMERIC_WIDTH_def)
  show "length (padNumeric (int_string n)) = 20" using eq len by simp
  show "is_numeral (padNumeric (int_string n))"
    using eq by (auto simp: is_numeral_def zero_digit dest: nat_string_digits intro: exI [of _ 0])
  show "string_nat (padNumeric (int_string n)) = nat n" using eq by simp
qed

lemma padded_key_less:
  assumes m: "0 \<le> m" "m < 10 ^ 20" and n: "0 \<le> n" "n < 10 ^ 20"
  shows "padNumeric (int_string m) @ '':'' @ i < padNumeric (int_string n) @ '':'' @ j
    \<longleftrightarrow> m < n \<or> m = n \<and> i < j"
proof -
  let ?M = "padNumeric (int_string m)" and ?N = "padNumeric (int_string n)"
  note M = padNumeric_numeral [OF m] and N = padNumeric_numeral [OF n]
  have less: "?M < ?N \<longleftrightarrow> m < n"
    using numeral_less_iff [of ?M ?N] M N m n by auto
  have eq: "?M = ?N \<longleftrightarrow> m = n"
  proof
    assume "?M = ?N"
    then have "nat m = nat n" using M(3) N(3) by simp
    then show "m = n" using m n by simp
  qed simp
  have "?M @ '':'' @ i < ?N @ '':'' @ j \<longleftrightarrow> ?M < ?N \<or> ?M = ?N \<and> '':'' @ i < '':'' @ j"
    using M(1) N(1) by (intro append_less_same_length) simp
  then show ?thesis using less eq by simp
qed

text \<open>
  Sort keys are total-order keys: for block numbers below ten to the twenty, the
  lexicographic order of \<open>blockSortKey\<close> strings is the order by block number and then by
  entity id, so a cursor over the key field never skips a row of the same block.
\<close>

theorem blockSortKey_order:
  assumes "0 \<le> m" and "m < 10 ^ 20" and "0 \<le> n" and "n < 10 ^ 20"
  shows "blockSortKey m i < blockSortKey n j \<longleftrightarrow> m < n \<or> m = n \<and> i < j"
  unfolding blockSortKey_def by (rule padded_key_less [OF assms])

lemma blockSortKey_order_witness:
  "blockSortKey 99 ''b'' < blockSortKey 100 ''a'' \<and> \<not> blockSortKey 7 ''b'' < blockSortKey 7 ''a''"
  using blockSortKey_order [of 99 100 "''b''" "''a''"] blockSortKey_order [of 7 7 "''b''" "''a''"]
  by simp

lemma activitySortKey_eq: "activitySortKey t i = timestampSortKey t i"
  by (simp add: activitySortKey_def timestampSortKey_def padTimestamp_eq)

text \<open>An event id determines its transaction hash and log index.\<close>

theorem eventId_inj:
  "eventId e = eventId f \<longleftrightarrow> ev_txHash e = ev_txHash f \<and> ev_logIndex e = ev_logIndex f"
  by (auto simp: eventId_def dash_join_inj [OF toHexString_no_dash toHexString_no_dash]
      int_string_inj simp del: append_Cons append_Nil)

lemma sessionId_inj:
  "sessionId (user_id a) (user_id b) = sessionId (user_id c) (user_id d) \<longleftrightarrow> a = c \<and> b = d"
  by (auto simp: sessionId_def dash_join_inj [OF toHexString_no_dash toHexString_no_dash]
      simp del: append_Cons append_Nil)

lemma dayStart_dayId:
  assumes "0 \<le> ts"
  shows "dayStartFromDayId (dayIdFromTimestamp ts) = ts - ts mod 86400"
proof -
  let ?d = "ts div 86400"
  have nn: "0 \<le> ?d" using assms by simp
  obtain c cs where split: "nat_string (nat ?d) = c # cs"
    using nat_string_nonempty by (cases "nat_string (nat ?d)") blast+
  have "c \<noteq> CHR ''-''"
    using nat_string_digits [of c "nat ?d"] split digit_char_neq(1) by force
  then have "bigint_fromString (nat_string (nat ?d)) = ?d"
    using split nn string_nat_nat_string [of "nat ?d"] by (simp add: bigint_fromString_def)
  then show ?thesis
    using assms nn by (simp add: dayStartFromDayId_def dayIdFromTimestamp_def SECONDS_PER_DAY_def
        host_simps int_string_def minus_mod_eq_div_mult)
qed

section \<open>Voting weight is bounded by the amount and only decays\<close>

lemma currentVeWei_autoMax [simp]: "currentVeWei a e t True = a"
  by (simp add: currentVeWei_def)

lemma currentVeWei_zero [simp]: "currentVeWei 0 e t am = 0"
  by (simp add: currentVeWei_def bigint_div_def)

lemma currentVeWei_div:
  "0 \<le> a \<Longrightarrow> currentVeWei a e t False = (if e \<le> t then 0 else a * (e - t) div 31536000)"
  by (simp add: currentVeWei_def MAX_LOCK_DURATION_SECONDS_def host_simps)

lemma currentVeWei_nonneg: "0 \<le> a \<Longrightarrow> 0 \<le> currentVeWei a e t am"
  by (cases am) (auto simp: currentVeWei_div pos_imp_zdiv_nonneg_iff)

text \<open>
  For a non-negative amount and a lock that ends at most the maximal duration from now, the
  voting weight lies between 0 and the amount, and it never grows as time passes.
\<close>

theorem currentVeWei_bounds:
  assumes amount: "0 \<le> a" and window: "e \<le> t + MAX_LOCK_DURATION_SECONDS" and later: "t \<le> t'"
  shows "0 \<le> currentVeWei a e t' am \<and> currentVeWei a e t' am \<le> currentVeWei a e t am
    \<and> currentVeWei a e t am \<le> a"
proof (cases am)
  case True
  then show ?thesis using amount by simp
next
  case False
  have "a * (e - t) div 31536000 \<le> a"
  proof -
    have "a * (e - t) \<le> a * 31536000"
      using window amount by (intro mult_left_mono) (simp_all add: MAX_LOCK_DURATION_SECONDS_def)
    then have "a * (e - t) div 31536000 \<le> a * 31536000 div 31536000" by (rule zdiv_mono1) simp
    then show ?thesis by simp
  qed
  moreover have "a * (e - t') div 31536000 \<le> a * (e - t) div 31536000"
    using later amount by (intro zdiv_mono1 mult_left_mono) simp_all
  moreover have "t < e \<Longrightarrow> 0 \<le> a * (e - t) div 31536000"
    using amount by (simp add: pos_imp_zdiv_nonneg_iff)
  moreover have "0 \<le> currentVeWei a e t' False" by (rule currentVeWei_nonneg [OF amount])
  ultimately show ?thesis using False amount later by (auto simp: currentVeWei_div)
qed

lemma currentVeWei_bounds_witness:
  "0 \<le> currentVeWei 1000 31536000 15768000 False
    \<and> currentVeWei 1000 31536000 15768000 False \<le> currentVeWei 1000 31536000 0 False
    \<and> currentVeWei 1000 31536000 0 False \<le> 1000 \<and> currentVeWei 1000 31536000 15768000 False = 500"
  using currentVeWei_bounds [of 1000 31536000 0 15768000 False]
  by (simp add: MAX_LOCK_DURATION_SECONDS_def currentVeWei_div)

end
