(* ===== verification/HandlerRules.thy ===== *)
theory HandlerRules
  imports SubgraphUtils
begin

text \<open>
  Rules for store predicates that a handler keeps. A handler keeps a predicate when each of its steps does;
  the collection \<open>keeps\<close> holds one rule per construct of the state monad, so that the claim for a composed
  handler is left with its \<open>modify\<close> steps and the helpers that have a rule of their own.
\<close>

named_theorems keeps "rules for predicates a handler keeps"

definition keeps_inv :: "(store \<Rightarrow> bool) \<Rightarrow> 'a handler \<Rightarrow> bool" where
  "keeps_inv P h \<longleftrightarrow> (\<forall>s. P s \<longrightarrow> P (snd (run_state h s)))"

lemma keepsD: "keeps_inv P h \<Longrightarrow> P s \<Longrightarrow> P (snd (run_state h s))"
  by (simp add: keeps_inv_def)

lemma keeps_exec: "keeps_inv P h \<Longrightarrow> P s \<Longrightarrow> P (exec h s)"
  by (simp add: keeps_inv_def exec_def)

lemma keeps_ret [keeps]: "keeps_inv P (State_Monad.return x)"
  by (simp add: keeps_inv_def)

lemma keeps_gets [keeps]: "keeps_inv P (gets q)"
  by (simp add: keeps_inv_def)

lemma keeps_bind [keeps]:
  "keeps_inv P h \<Longrightarrow> (\<And>x. keeps_inv P (f x)) \<Longrightarrow> keeps_inv P (State_Monad.bind h f)"
  by (simp add: keeps_inv_def split: prod.splits) (metis snd_conv)

lemma keeps_if [keeps]: "(b \<Longrightarrow> keeps_inv P h) \<Longrightarrow> (\<not> b \<Longrightarrow> keeps_inv P k) \<Longrightarrow> keeps_inv P (if b then h else k)"
  by simp

lemma keeps_option [keeps]:
  "(r = None \<Longrightarrow> keeps_inv P h) \<Longrightarrow> (\<And>x. r = Some x \<Longrightarrow> keeps_inv P (k x)) \<Longrightarrow> keeps_inv P (case r of None \<Rightarrow> h | Some x \<Rightarrow> k x)"
  by (simp split: option.split)

lemma keeps_prod [keeps]: "(\<And>x y. r = (x, y) \<Longrightarrow> keeps_inv P (k x y)) \<Longrightarrow> keeps_inv P (case r of (x, y) \<Rightarrow> k x y)"
  by (simp split: prod.split)

lemma keeps_let [keeps]: "(\<And>x. x = t \<Longrightarrow> keeps_inv P (f x)) \<Longrightarrow> keeps_inv P (let x = t in f x)"
  by simp

lemma keeps_modify: "(\<And>s. P s \<Longrightarrow> P (g s)) \<Longrightarrow> keeps_inv P (modify g)"
  by (simp add: keeps_inv_def)

text \<open>A predicate of one part of the store is kept by steps that leave the part alone.\<close>

definition part_inv :: "(store \<Rightarrow> 'a) \<Rightarrow> ('a \<Rightarrow> bool) \<Rightarrow> store \<Rightarrow> bool" where
  "part_inv part I s \<longleftrightarrow> I (part s)"

lemma keeps_modify_part [keeps]:
  "(\<And>s. part_inv part I s \<Longrightarrow> I (part (g s))) \<Longrightarrow> keeps_inv (part_inv part I) (modify g)"
  by (rule keeps_modify) (simp add: part_inv_def)

end
