(* ===== verification/FurnaceBonus.thy ===== *)
theory FurnaceBonus
  imports HandlerRules "HOL-Library.Multiset"
begin

text \<open>
  The bookkeeping half of the Furnace mapping (\<open>src/subgraph/src/mappings/furnace.ts\<close>, the functions before
  its event handlers): the daily rows, the queue that pairs a \<open>BonusPaid\<close> event with the receipt that
  settles it, the bonus samples and the snapshot computed from them, the hourly samples of LP rewards and
  their 24h totals, the state row.

  \<^item> \<open>i32\<close> fields are 32-bit words read as signed; the bucket sizes are such words.
  \<^item> The loops over buckets and days are recursions with a measure; the windows bound them.
  \<^item> The quantile indices are computed in floating point in the source, \<open>(n - 1) * 33 / 100\<close> rounded down,
    with \<open>n\<close> at most 290. The product is exact and a quotient that is no integer is at least 1/100 away
    from one, so rounding does not change its floor: natural division.
  \<^item> \<open>computeQuantile\<close> is not called and not modelled.
\<close>

section \<open>Constants\<close>

definition BUCKET_5M :: "32 word" where "BUCKET_5M = 300"
definition BUCKET_1H :: "32 word" where "BUCKET_1H = 3600"
definition WINDOW_24H :: int where "WINDOW_24H = 86400"
definition WINDOW_7D :: int where "WINDOW_7D = 604800"
definition BONUS_BPS_SENTINEL :: "32 word" where "BONUS_BPS_SENTINEL = 2147483647"
definition MAX_GROSS_BONUS_BPS :: "32 word" where "MAX_GROSS_BONUS_BPS = 12500"
definition BPS_DENOM :: "32 word" where "BPS_DENOM = 10000"

lemma bucket_values [simp]: "sint BUCKET_5M = 300" "sint BUCKET_1H = 3600"
  by (simp_all add: BUCKET_5M_def BUCKET_1H_def)

text \<open>Signed division of \<open>i32\<close>, truncating.\<close>

definition i32_div :: "32 word \<Rightarrow> 32 word \<Rightarrow> 32 word" where
  "i32_div a b = word_of_int (sint a sdiv sint b)"

definition computeGrossSpotBonusBps :: "32 word \<Rightarrow> 32 word \<Rightarrow> 32 word" where
  "computeGrossSpotBonusBps userSpotBps lpTopupRateBps =
     (if sint userSpotBps \<le> 0 \<or> sint lpTopupRateBps < 0
      then (if sint userSpotBps > 0 then userSpotBps else 0)
      else let lpTopupSpotBps = i32_div (userSpotBps * lpTopupRateBps) BPS_DENOM;
               gross = userSpotBps + lpTopupSpotBps
           in if sint gross > sint MAX_GROSS_BONUS_BPS then MAX_GROSS_BONUS_BPS else gross)"

section \<open>Daily rows\<close>

definition new_day :: "string \<Rightarrow> furnace_day" where
  "new_day dayId =
     \<lparr>fd_dayStartTimestamp = dayStartFromDayId dayId, fd_bonusPaidCount = 0, fd_dripCount = 0,
      fd_totalGrossBonus = 0, fd_totalUserBonus = 0, fd_totalLpTopup = 0, fd_totalLpDrip = 0,
      fd_totalLpFromFurnace = 0, fd_sellCount = 0, fd_totalSellLockAmount = 0, fd_totalSellClaimOut = 0,
      fd_totalSellLpReward = 0, fd_totalSellReserveAdd = 0, fd_reserveEnd = 0,
      fd_quoteBonusMinBps = BONUS_BPS_SENTINEL, fd_quoteBonusMaxBps = 0\<rparr>"

definition loadOrCreateDay :: "string \<Rightarrow> furnace_day handler" where
  "loadOrCreateDay dayId = do {
     r \<leftarrow> gets (\<lambda>s. ft_days (furnace_rows s) dayId);
     (case r of
        None \<Rightarrow> do { modify (saveDay dayId (new_day dayId)); ret (new_day dayId) }
      | Some d \<Rightarrow> ret d)
   }"

section \<open>The state row\<close>

definition new_furnace_state :: furnace_state where
  "new_furnace_state =
     \<lparr>fs_updatedAt = 0, fs_reserve = 0, fs_userSpotBonusBps = None, fs_grossSpotBonusBps = None,
      fs_lpTopupRateBps = None, fs_capInflowPerDay = None, fs_lpStreamRatePerSec = 0,
      fs_lpStreamPeriodFinish = 0, fs_lpRewardsClaim24h = 0, fs_lpRewardsTopupClaim24h = 0,
      fs_lpRewardsDripClaim24h = 0, fs_lpRewardsSellRewardClaim24h = 0\<rparr>"

text \<open>The backfill of fields missing in a row of an older release has nothing to do here.\<close>

definition loadOrCreateFurnaceState :: "furnace_state handler" where
  "loadOrCreateFurnaceState = do {
     r \<leftarrow> gets (\<lambda>s. ft_states (furnace_rows s) ''current'');
     (case r of
        None \<Rightarrow> do { modify (saveFurnaceState ''current'' new_furnace_state); ret new_furnace_state }
      | Some x \<Rightarrow> ret x)
   }"

section \<open>Bonuses paid and not yet settled\<close>

definition pendingBonusPaidQueueId :: "bytes \<Rightarrow> bytes \<Rightarrow> string" where
  "pendingBonusPaidQueueId txHash user = toHexString txHash @ ''-'' @ toHexString user"

definition pendingBonusPaidId :: "string \<Rightarrow> 32 word \<Rightarrow> string" where
  "pendingBonusPaidId queueId sequence = queueId @ ''-'' @ int_string (sint sequence)"

text \<open>A fresh queue is not saved here.\<close>

definition loadOrCreatePendingBonusPaidQueue :: "string \<Rightarrow> pending_queue handler" where
  "loadOrCreatePendingBonusPaidQueue i =
     gets (\<lambda>s. case ft_queues (furnace_rows s) i of None \<Rightarrow> \<lparr>pq_head = 0, pq_tail = 0\<rparr> | Some q \<Rightarrow> q)"

definition recordPendingBonusPaid :: "eth_event \<Rightarrow> address \<Rightarrow> int \<Rightarrow> int \<Rightarrow> unit handler" where
  "recordPendingBonusPaid ev p_user p_userBonusClaim p_reserveAfter = do {
     let queueId = pendingBonusPaidQueueId (ev_txHash ev) p_user;
     queue \<leftarrow> loadOrCreatePendingBonusPaidQueue queueId;
     let sequence = pq_tail queue;
     modify (savePendingQueue queueId (queue\<lparr>pq_tail := pq_tail queue + 1\<rparr>));
     modify (savePending (pendingBonusPaidId queueId sequence)
       \<lparr>pb_queueId = queueId, pb_sequence = sequence, pb_txHash = ev_txHash ev, pb_user = p_user,
        pb_timestamp = ev_timestamp ev, pb_blockNumber = ev_blockNumber ev,
        pb_userBonusClaim = p_userBonusClaim, pb_reserveAfter = p_reserveAfter\<rparr>)
   }"

definition final_reserve :: "pending_bonus \<Rightarrow> int \<Rightarrow> int" where
  "final_reserve pending bonusClaim =
     (if pb_userBonusClaim pending > bonusClaim
      then pb_reserveAfter pending + (pb_userBonusClaim pending - bonusClaim)
      else pb_reserveAfter pending)"

text \<open>The head of the queue is settled and removed; the daily row of the receipt is saved last.\<close>

definition settleHead :: "string \<Rightarrow> pending_queue \<Rightarrow> int \<Rightarrow> int \<Rightarrow> furnace_day \<Rightarrow> furnace_day handler" where
  "settleHead queueId queue timestamp bonusClaim daily = do {
     let pendingId = pendingBonusPaidId queueId (pq_head queue);
     p \<leftarrow> gets (\<lambda>s. ft_pendings (furnace_rows s) pendingId);
     (case p of
        None \<Rightarrow> ret daily
      | Some pending \<Rightarrow> do {
          let finalReserve = final_reserve pending bonusClaim;
          state \<leftarrow> loadOrCreateFurnaceState;
          modify (saveFurnaceState ''current''
            (state\<lparr>fs_updatedAt := timestamp, fs_reserve := finalReserve\<rparr>));
          modify (removePending pendingId);
          ret (daily\<lparr>fd_reserveEnd := finalReserve\<rparr>)
        })
   }"

definition advanceQueue :: "string \<Rightarrow> pending_queue \<Rightarrow> unit handler" where
  "advanceQueue queueId queue = do {
     let queue = queue\<lparr>pq_head := pq_head queue + 1\<rparr>;
     (if sint (pq_head queue) \<ge> sint (pq_tail queue)
      then modify (removePendingQueue queueId)
      else modify (savePendingQueue queueId queue))
   }"

definition settleDeliveredUserBonus :: "int \<Rightarrow> bytes \<Rightarrow> bytes \<Rightarrow> int \<Rightarrow> unit handler" where
  "settleDeliveredUserBonus timestamp txHash user bonusClaim = do {
     let dayId = dayIdFromTimestamp timestamp;
     daily \<leftarrow> loadOrCreateDay dayId;
     let daily = daily\<lparr>fd_totalUserBonus := fd_totalUserBonus daily + bonusClaim\<rparr>;
     let queueId = pendingBonusPaidQueueId txHash user;
     q \<leftarrow> gets (\<lambda>s. ft_queues (furnace_rows s) queueId);
     daily \<leftarrow> (case q of
        None \<Rightarrow> ret daily
      | Some queue \<Rightarrow> do {
          daily \<leftarrow> settleHead queueId queue timestamp bonusClaim daily;
          advanceQueue queueId queue;
          ret daily
        });
     modify (saveDay dayId daily)
   }"

section \<open>The bonus snapshot\<close>

definition new_bonus_snapshot :: bonus_snapshot where
  "new_bonus_snapshot =
     \<lparr>bs_updatedAt = 0, bs_lastDayId = 0, bs_last24hRecomputeBucketStart = Some 0, bs_currentBps = 0,
      bs_min24hBps = 0, bs_max24hBps = 0, bs_min7dBps = 0, bs_max7dBps = 0, bs_min30dBps = 0,
      bs_max30dBps = 0, bs_q33Bps = 0, bs_q66Bps = 0, bs_q95Bps = 0\<rparr>"

definition loadOrCreateFurnaceBonusSnapshot :: "bonus_snapshot handler" where
  "loadOrCreateFurnaceBonusSnapshot = do {
     r \<leftarrow> gets (\<lambda>s. ft_snapshots (furnace_rows s) ''1'');
     (case r of
        None \<Rightarrow> do { modify (saveBonusSnapshot ''1'' new_bonus_snapshot); ret new_bonus_snapshot }
      | Some x \<Rightarrow>
          if bs_last24hRecomputeBucketStart x = None
          then do {
            let x = x\<lparr>bs_last24hRecomputeBucketStart := Some 0\<rparr>;
            modify (saveBonusSnapshot ''1'' x);
            ret x
          }
          else ret x)
   }"

definition bucketStart :: "int \<Rightarrow> 32 word \<Rightarrow> int" where
  "bucketStart ts bucketSeconds = ts - bigint_mod ts (sint bucketSeconds)"

definition dayIdI32 :: "int \<Rightarrow> (32 word) option" where
  "dayIdI32 ts = toI32 (bigint_div ts SECONDS_PER_DAY)"

definition bonusSampleId :: "32 word \<Rightarrow> int \<Rightarrow> string" where
  "bonusSampleId bucketSeconds bucketStartTs =
     int_string (sint bucketSeconds) @ ''-'' @ int_string bucketStartTs"

text \<open>\<open>if (q < m) m = q\<close> and \<open>if (q > m) m = q\<close>.\<close>

definition lower :: "32 word \<Rightarrow> 32 word \<Rightarrow> 32 word" where
  "lower q m = (if sint q < sint m then q else m)"

definition upper :: "32 word \<Rightarrow> 32 word \<Rightarrow> 32 word" where
  "upper q m = (if sint q > sint m then q else m)"

text \<open>The minima and maxima over 7 and 30 days, from the daily rows, walking back from today.\<close>

type_synonym bps_ranges = "(32 word \<times> 32 word) \<times> (32 word \<times> 32 word)"

definition widen_ranges :: "nat \<Rightarrow> furnace_day option \<Rightarrow> bps_ranges \<Rightarrow> bps_ranges" where
  "widen_ranges i day r =
     (case (day, r) of
        (Some d, ((min7d, max7d), (min30d, max30d))) \<Rightarrow>
          if sint (fd_quoteBonusMinBps d) < sint BONUS_BPS_SENTINEL
          then ((if i < 7 then (lower (fd_quoteBonusMinBps d) min7d, upper (fd_quoteBonusMaxBps d) max7d)
                 else (min7d, max7d)),
                (lower (fd_quoteBonusMinBps d) min30d, upper (fd_quoteBonusMaxBps d) max30d))
          else r
      | (None, _) \<Rightarrow> r)"

function dayLoop :: "store \<Rightarrow> nat \<Rightarrow> int \<Rightarrow> bps_ranges \<Rightarrow> bps_ranges" where
  "dayLoop s i cursor r =
     (if i < 30
      then dayLoop s (i + 1) (cursor - 1) (widen_ranges i (ft_days (furnace_rows s) (int_string cursor)) r)
      else r)"
  by pat_completeness auto
termination by (relation "measure (\<lambda>(s, i, c, r). 30 - i)") auto

declare dayLoop.simps [simp del]

definition refreshBonusSnapshot7d30d :: "bonus_snapshot \<Rightarrow> int \<Rightarrow> 32 word \<Rightarrow> store \<Rightarrow> bonus_snapshot" where
  "refreshBonusSnapshot7d30d snap ts currentQuoteBps s =
     (case dayLoop s 0 (bigint_div ts SECONDS_PER_DAY)
             ((currentQuoteBps, currentQuoteBps), (currentQuoteBps, currentQuoteBps)) of
        ((min7d, max7d), (min30d, max30d)) \<Rightarrow>
          snap\<lparr>bs_min7dBps := min7d, bs_max7dBps := max7d, bs_min30dBps := min30d, bs_max30dBps := max30d\<rparr>)"

definition widen7d30d :: "32 word \<Rightarrow> bonus_snapshot \<Rightarrow> bonus_snapshot" where
  "widen7d30d q snap =
     snap\<lparr>bs_min7dBps := lower q (bs_min7dBps snap), bs_max7dBps := upper q (bs_max7dBps snap),
          bs_min30dBps := lower q (bs_min30dBps snap), bs_max30dBps := upper q (bs_max30dBps snap)\<rparr>"

text \<open>On a day boundary the 7d and 30d ranges are recomputed, within a day they only widen.\<close>

definition touchDays :: "int \<Rightarrow> 32 word \<Rightarrow> 32 word \<Rightarrow> store \<Rightarrow> bonus_snapshot \<Rightarrow> bonus_snapshot" where
  "touchDays ts currentQuoteBps currDayId s snap =
     (if bs_lastDayId snap \<noteq> currDayId
      then (refreshBonusSnapshot7d30d snap ts currentQuoteBps s)\<lparr>bs_lastDayId := currDayId\<rparr>
      else widen7d30d currentQuoteBps snap)"

definition sample_value :: "store \<Rightarrow> int \<Rightarrow> 32 word list" where
  "sample_value s cursor =
     (case ft_bonusSamples (furnace_rows s) (bonusSampleId BUCKET_5M cursor) of
        None \<Rightarrow> []
      | Some sample \<Rightarrow> if bm_bucketSeconds sample = BUCKET_5M then [bm_quoteUserBonusBps sample] else [])"

function sampleLoop :: "store \<Rightarrow> int \<Rightarrow> int \<Rightarrow> 32 word list \<Rightarrow> 32 word list" where
  "sampleLoop s cursor currentBucketStart values =
     (if cursor \<le> currentBucketStart
      then sampleLoop s (cursor + sint BUCKET_5M) currentBucketStart (values @ sample_value s cursor)
      else values)"
  by pat_completeness auto
termination by (relation "measure (\<lambda>(s, c, e, v). nat (e + 1 - c))") auto

declare sampleLoop.simps [simp del]

text \<open>The values of the last 24 hours and the live one, in increasing order.\<close>

definition window_values :: "int \<Rightarrow> 32 word \<Rightarrow> store \<Rightarrow> 32 word list" where
  "window_values currentBucketStart currentQuoteBps s =
     (let minBucketStart = currentBucketStart - WINDOW_24H;
          minBucketStart = (if minBucketStart < 0 then 0 else minBucketStart)
      in sort_key sint (sampleLoop s minBucketStart currentBucketStart [] @ [currentQuoteBps]))"

definition recompute24h :: "int \<Rightarrow> 32 word \<Rightarrow> store \<Rightarrow> bonus_snapshot \<Rightarrow> bonus_snapshot" where
  "recompute24h currentBucketStart currentQuoteBps s snap =
     (let values = window_values currentBucketStart currentQuoteBps s; n = length values
      in snap\<lparr>bs_min24hBps := values ! 0, bs_max24hBps := values ! (n - 1),
              bs_q33Bps := values ! ((n - 1) * 33 div 100), bs_q66Bps := values ! ((n - 1) * 66 div 100),
              bs_q95Bps := values ! ((n - 1) * 95 div 100),
              bs_last24hRecomputeBucketStart := Some currentBucketStart\<rparr>)"

definition widen24h :: "32 word \<Rightarrow> bonus_snapshot \<Rightarrow> bonus_snapshot" where
  "widen24h q snap =
     snap\<lparr>bs_min24hBps := lower q (bs_min24hBps snap), bs_max24hBps := upper q (bs_max24hBps snap)\<rparr>"

definition updateSnapshotFromLast24h :: "int \<Rightarrow> 32 word \<Rightarrow> unit option handler" where
  "updateSnapshotFromLast24h ts currentQuoteBps = do {
     snap \<leftarrow> loadOrCreateFurnaceBonusSnapshot;
     let currentBucketStart = bucketStart ts BUCKET_5M;
     let needsFull = (bs_last24hRecomputeBucketStart snap \<noteq> Some currentBucketStart);
     (case dayIdI32 ts of
        None \<Rightarrow> ret None
      | Some currDayId \<Rightarrow> do {
          let snap = snap\<lparr>bs_updatedAt := ts, bs_currentBps := currentQuoteBps\<rparr>;
          snap \<leftarrow> gets (\<lambda>s. touchDays ts currentQuoteBps currDayId s
            (if needsFull then recompute24h currentBucketStart currentQuoteBps s snap
             else widen24h currentQuoteBps snap));
          modify (saveBonusSnapshot ''1'' snap);
          ret (Some ())
        })
   }"

definition updateDailyBonusQuoteMinMax :: "int \<Rightarrow> 32 word \<Rightarrow> int \<Rightarrow> unit handler" where
  "updateDailyBonusQuoteMinMax ts quoteBps currentReserveEnd = do {
     let dayId = dayIdFromTimestamp ts;
     day \<leftarrow> loadOrCreateDay dayId;
     let init = (fd_reserveEnd day = 0 \<and> currentReserveEnd > 0);
     let less = (sint quoteBps < sint (fd_quoteBonusMinBps day));
     let more = (sint quoteBps > sint (fd_quoteBonusMaxBps day));
     let day = (if init then day\<lparr>fd_reserveEnd := currentReserveEnd\<rparr> else day);
     let day = (if less then day\<lparr>fd_quoteBonusMinBps := quoteBps\<rparr> else day);
     let day = (if more then day\<lparr>fd_quoteBonusMaxBps := quoteBps\<rparr> else day);
     (if init \<or> less \<or> more then modify (saveDay dayId day) else skip)
   }"

section \<open>Bonus samples\<close>

definition pruneSample :: "32 word \<Rightarrow> int \<Rightarrow> store \<Rightarrow> store" where
  "pruneSample bucketSeconds pruneStart s =
     (if pruneStart \<ge> 0 then removeBonusSample (bonusSampleId bucketSeconds pruneStart) s else s)"

definition pruneSamples :: "int \<Rightarrow> 32 word \<Rightarrow> store \<Rightarrow> store" where
  "pruneSamples bStart bucketSeconds s =
     (let s = (if bucketSeconds = BUCKET_5M
               then fold (\<lambda>j. pruneSample BUCKET_5M (bStart - (WINDOW_24H + 300 * j))) [1, 2, 3, 4, 5] s
               else s)
      in if bucketSeconds = BUCKET_1H then pruneSample BUCKET_1H (bStart - (WINDOW_7D + 3600)) s else s)"

definition maybeCreateBonusSample :: "int \<Rightarrow> 32 word \<Rightarrow> 32 word \<Rightarrow> unit handler" where
  "maybeCreateBonusSample ts bucketSeconds quoteBps = do {
     let bStart = bucketStart ts bucketSeconds;
     let i = bonusSampleId bucketSeconds bStart;
     r \<leftarrow> gets (\<lambda>s. ft_bonusSamples (furnace_rows s) i);
     (if r = None
      then do {
        modify (saveBonusSample i
          \<lparr>bm_bucketStart = bStart, bm_bucketSeconds = bucketSeconds, bm_quoteUserBonusBps = quoteBps\<rparr>);
        modify (pruneSamples bStart bucketSeconds)
      }
      else skip)
   }"

section \<open>LP rewards of the last 24 hours\<close>

definition lpRewardsSampleId :: "32 word \<Rightarrow> int \<Rightarrow> string" where
  "lpRewardsSampleId bucketSeconds bucketStartTs =
     int_string (sint bucketSeconds) @ ''-'' @ int_string bucketStartTs"

definition new_lp_sample :: "int \<Rightarrow> 32 word \<Rightarrow> lp_sample" where
  "new_lp_sample bStart bucketSeconds =
     \<lparr>ls_bucketStart = bStart, ls_bucketSeconds = bucketSeconds, ls_lpTopupClaim = 0, ls_lpDripClaim = 0,
      ls_lpSellRewardClaim = 0, ls_lpRewardsClaim = 0\<rparr>"

definition loadOrCreateLpRewardsSample :: "int \<Rightarrow> 32 word \<Rightarrow> lp_sample handler" where
  "loadOrCreateLpRewardsSample ts bucketSeconds = do {
     let bStart = bucketStart ts bucketSeconds;
     let i = lpRewardsSampleId bucketSeconds bStart;
     r \<leftarrow> gets (\<lambda>s. ft_lpSamples (furnace_rows s) i);
     (case r of
        None \<Rightarrow> do {
          modify (saveLpSample i (new_lp_sample bStart bucketSeconds));
          ret (new_lp_sample bStart bucketSeconds)
        }
      | Some x \<Rightarrow> ret x)
   }"

definition added_lp_sample :: "int \<Rightarrow> int \<Rightarrow> int \<Rightarrow> lp_sample \<Rightarrow> lp_sample" where
  "added_lp_sample topup drip sellReward x =
     x\<lparr>ls_lpTopupClaim := (if topup > 0 then ls_lpTopupClaim x + topup else ls_lpTopupClaim x),
       ls_lpDripClaim := (if drip > 0 then ls_lpDripClaim x + drip else ls_lpDripClaim x),
       ls_lpSellRewardClaim :=
         (if sellReward > 0 then ls_lpSellRewardClaim x + sellReward else ls_lpSellRewardClaim x),
       ls_lpRewardsClaim := ls_lpRewardsClaim x + topup + drip + sellReward\<rparr>"

definition addToLpRewardsSample1h :: "int \<Rightarrow> int \<Rightarrow> int \<Rightarrow> int \<Rightarrow> unit handler" where
  "addToLpRewardsSample1h ts topup drip sellReward =
     (if topup = 0 \<and> drip = 0 \<and> sellReward = 0 then skip
      else do {
        x \<leftarrow> loadOrCreateLpRewardsSample ts BUCKET_1H;
        modify (saveLpSample (lpRewardsSampleId BUCKET_1H (bucketStart ts BUCKET_1H))
          (added_lp_sample topup drip sellReward x))
      })"

text \<open>Totals in the order total, topup, drip, sell.\<close>

type_synonym lp_totals = "int \<times> int \<times> int \<times> int"

definition add_lp :: "lp_sample option \<Rightarrow> lp_totals \<Rightarrow> lp_totals" where
  "add_lp row t =
     (case (row, t) of
        (Some x, (rewards, topup, drip, sell)) \<Rightarrow>
          (rewards + ls_lpRewardsClaim x, topup + ls_lpTopupClaim x, drip + ls_lpDripClaim x,
           sell + ls_lpSellRewardClaim x)
      | (None, _) \<Rightarrow> t)"

function lpLoop :: "store \<Rightarrow> nat \<Rightarrow> int \<Rightarrow> lp_totals \<Rightarrow> lp_totals" where
  "lpLoop s i cursor t =
     (if i < 24
      then lpLoop s (i + 1) (cursor + sint BUCKET_1H)
             (add_lp (ft_lpSamples (furnace_rows s) (lpRewardsSampleId BUCKET_1H cursor)) t)
      else t)"
  by pat_completeness auto
termination by (relation "measure (\<lambda>(s, i, c, t). 24 - i)") auto

declare lpLoop.simps [simp del]

definition pruneLp :: "int \<Rightarrow> store \<Rightarrow> store" where
  "pruneLp currentHourStart s =
     fold (\<lambda>j s. let pruneStart = currentHourStart - (WINDOW_24H + 3600 * j) in
             if pruneStart \<ge> 0 then removeLpSample (lpRewardsSampleId BUCKET_1H pruneStart) s else s)
       [1, 2, 3] s"

definition lp_window_start :: "int \<Rightarrow> int" where
  "lp_window_start currentHourStart =
     (let start = currentHourStart - 3600 * 23 in if start < 0 then 0 else start)"

text \<open>The state object is mutated, not saved.\<close>

definition refreshLpRewards24h :: "furnace_state \<Rightarrow> int \<Rightarrow> furnace_state handler" where
  "refreshLpRewards24h state ts = do {
     let currentHourStart = bucketStart ts BUCKET_1H;
     t \<leftarrow> gets (\<lambda>s. lpLoop s 0 (lp_window_start currentHourStart) (0, 0, 0, 0));
     modify (pruneLp currentHourStart);
     ret (case t of (rewards, topup, drip, sell) \<Rightarrow>
       state\<lparr>fs_lpRewardsClaim24h := rewards, fs_lpRewardsTopupClaim24h := topup,
             fs_lpRewardsDripClaim24h := drip, fs_lpRewardsSellRewardClaim24h := sell\<rparr>)
   }"

section \<open>Invariants of the Furnace's tables\<close>

text \<open>An invariant of the Furnace's tables, as a predicate of the store.\<close>

abbreviation rows_inv :: "(furnace_tables \<Rightarrow> bool) \<Rightarrow> store \<Rightarrow> bool" where
  "rows_inv \<equiv> part_inv furnace_rows"

lemma keeps_rows_other [keeps]:
  "keeps_inv (rows_inv I) (loadOrCreateUser a)"
  "keeps_inv (rows_inv I) (loadOrCreateProtocol c b)"
  "keeps_inv (rows_inv I) (saveActivityItem i x)"
  by (simp_all add: keeps_inv_def part_inv_def saveActivityItem_def store_simps)

text \<open>Helpers that leave the table of a predicate alone keep it.\<close>

lemma keeps_days:
  assumes "\<And>f d. I (f\<lparr>ft_days := d\<rparr>) = I f"
  shows "keeps_inv (rows_inv I) (loadOrCreateDay i)" "keeps_inv (rows_inv I) (updateDailyBonusQuoteMinMax ts q r)"
  using assms by (auto simp: loadOrCreateDay_def updateDailyBonusQuoteMinMax_def Let_def part_inv_def store_simps
      intro!: keeps)

text \<open>Pruning changes nothing but the table of samples.\<close>

definition only_samples :: "store \<Rightarrow> store \<Rightarrow> bool" where
  "only_samples s t \<longleftrightarrow> (\<exists>m. t = s\<lparr>furnace_rows := (furnace_rows s)\<lparr>ft_bonusSamples := m\<rparr>\<rparr>)"

lemma only_samples_refl: "only_samples s s"
  unfolding only_samples_def by (rule exI [of _ "ft_bonusSamples (furnace_rows s)"]) simp

lemma only_samples_prune: "only_samples s t \<Longrightarrow> only_samples s (pruneSample k x t)"
  by (auto simp: only_samples_def pruneSample_def removeBonusSample_def)

lemma only_samples_pruneSamples: "only_samples s (pruneSamples b k s)"
  unfolding pruneSamples_def Let_def
  by (auto intro!: only_samples_prune intro: only_samples_refl)

lemma keeps_samples:
  assumes "\<And>f d. I (f\<lparr>ft_bonusSamples := d\<rparr>) = I f"
  shows "keeps_inv (rows_inv I) (maybeCreateBonusSample ts b q)"
proof -
  have "I (furnace_rows (pruneSamples x b s)) = I (furnace_rows s)" for x s
    using only_samples_pruneSamples [of s x b] assms by (auto simp: only_samples_def)
  then show ?thesis
    using assms by (auto simp: maybeCreateBonusSample_def part_inv_def store_simps intro!: keeps)
qed

lemma pruneLp_eq: "\<exists>m. pruneLp h s = s\<lparr>furnace_rows := (furnace_rows s)\<lparr>ft_lpSamples := m\<rparr>\<rparr>"
proof -
  have "\<exists>m'. fold (\<lambda>j s. let p = h - (WINDOW_24H + 3600 * j) in
          if p \<ge> 0 then removeLpSample (lpRewardsSampleId BUCKET_1H p) s else s) js
        (s\<lparr>furnace_rows := (furnace_rows s)\<lparr>ft_lpSamples := m\<rparr>\<rparr>)
      = s\<lparr>furnace_rows := (furnace_rows s)\<lparr>ft_lpSamples := m'\<rparr>\<rparr>" for js m
    by (induction js arbitrary: m) (auto simp: Let_def store_simps)
  from this [of "[1, 2, 3]" "ft_lpSamples (furnace_rows s)"] show ?thesis by (simp add: pruneLp_def)
qed

lemma keeps_lp:
  assumes "\<And>f d. I (f\<lparr>ft_lpSamples := d\<rparr>) = I f"
  shows "keeps_inv (rows_inv I) (addToLpRewardsSample1h ts a b d)" "keeps_inv (rows_inv I) (refreshLpRewards24h st ts)"
proof -
  have "I (furnace_rows (pruneLp x s)) = I (furnace_rows s)" for x s
    using pruneLp_eq [of x s] assms by auto
  then show "keeps_inv (rows_inv I) (addToLpRewardsSample1h ts a b d)" "keeps_inv (rows_inv I) (refreshLpRewards24h st ts)"
    using assms by (auto simp: addToLpRewardsSample1h_def loadOrCreateLpRewardsSample_def refreshLpRewards24h_def
        Let_def part_inv_def store_simps intro!: keeps)
qed

lemma keeps_state:
  assumes "\<And>f d. I (f\<lparr>ft_states := d\<rparr>) = I f"
  shows "keeps_inv (rows_inv I) loadOrCreateFurnaceState"
  using assms by (auto simp: loadOrCreateFurnaceState_def part_inv_def store_simps intro!: keeps)

lemma keeps_settle:
  assumes "\<And>f d. I (f\<lparr>ft_days := d\<rparr>) = I f" "\<And>f d. I (f\<lparr>ft_states := d\<rparr>) = I f"
    "\<And>f d. I (f\<lparr>ft_queues := d\<rparr>) = I f" "\<And>f d. I (f\<lparr>ft_pendings := d\<rparr>) = I f"
  shows "keeps_inv (rows_inv I) (settleDeliveredUserBonus ts h u b)"
    "keeps_inv (rows_inv I) (recordPendingBonusPaid ev u b r)"
  using assms by (auto simp: settleDeliveredUserBonus_def settleHead_def advanceQueue_def recordPendingBonusPaid_def
      loadOrCreatePendingBonusPaidQueue_def Let_def part_inv_def store_simps
      intro!: keeps keeps_days keeps_state)

section \<open>The snapshot is ordered\<close>

lemma sorted_window: "sorted (map sint (window_values b q s))"
  by (simp add: window_values_def Let_def)

lemma live_in_window: "q \<in> set (window_values b q s)"
  by (simp add: window_values_def Let_def)

lemma window_mono:
  "i \<le> j \<Longrightarrow> j < length (window_values b q s) \<Longrightarrow> sint (window_values b q s ! i) \<le> sint (window_values b q s ! j)"
  using sorted_nth_mono [OF sorted_window, of i j b q s] by simp

lemma sample_ranks:
  fixes n :: nat
  shows "n * 33 div 100 \<le> n * 66 div 100" "n * 66 div 100 \<le> n * 95 div 100" "n * 95 div 100 \<le> n"
  by (auto intro: div_le_mono)

definition snapshot_ordered :: "bonus_snapshot \<Rightarrow> bool" where
  "snapshot_ordered x \<longleftrightarrow>
     sint (bs_min24hBps x) \<le> sint (bs_q33Bps x) \<and> sint (bs_q33Bps x) \<le> sint (bs_q66Bps x)
     \<and> sint (bs_q66Bps x) \<le> sint (bs_q95Bps x) \<and> sint (bs_q95Bps x) \<le> sint (bs_max24hBps x)
     \<and> sint (bs_min24hBps x) \<le> sint (bs_currentBps x) \<and> sint (bs_currentBps x) \<le> sint (bs_max24hBps x)
     \<and> sint (bs_min30dBps x) \<le> sint (bs_min7dBps x) \<and> sint (bs_min7dBps x) \<le> sint (bs_currentBps x)
     \<and> sint (bs_currentBps x) \<le> sint (bs_max7dBps x) \<and> sint (bs_max7dBps x) \<le> sint (bs_max30dBps x)"

lemma recompute24h_ordered:
  fixes b q s
  defines "v \<equiv> window_values b q s"
  shows "sint (v ! 0) \<le> sint (v ! ((length v - 1) * 33 div 100))"
    "sint (v ! ((length v - 1) * 33 div 100)) \<le> sint (v ! ((length v - 1) * 66 div 100))"
    "sint (v ! ((length v - 1) * 66 div 100)) \<le> sint (v ! ((length v - 1) * 95 div 100))"
    "sint (v ! ((length v - 1) * 95 div 100)) \<le> sint (v ! (length v - 1))"
    "sint (v ! 0) \<le> sint q" "sint q \<le> sint (v ! (length v - 1))"
proof -
  note R = sample_ranks [of "length v - 1"]
  have mem: "q \<in> set v" by (simp add: v_def live_in_window)
  then have len: "0 < length v" by (cases v) auto
  have lt: "length v - 1 < length v" "(length v - 1) * 95 div 100 < length v"
      "(length v - 1) * 66 div 100 < length v" "(length v - 1) * 33 div 100 < length v"
    using len R by linarith+
  show "sint (v ! 0) \<le> sint (v ! ((length v - 1) * 33 div 100))"
    unfolding v_def by (rule window_mono) (use lt v_def in simp_all)
  show "sint (v ! ((length v - 1) * 33 div 100)) \<le> sint (v ! ((length v - 1) * 66 div 100))"
    unfolding v_def by (rule window_mono) (use R lt v_def in simp_all)
  show "sint (v ! ((length v - 1) * 66 div 100)) \<le> sint (v ! ((length v - 1) * 95 div 100))"
    unfolding v_def by (rule window_mono) (use R lt v_def in simp_all)
  show "sint (v ! ((length v - 1) * 95 div 100)) \<le> sint (v ! (length v - 1))"
    unfolding v_def by (rule window_mono) (use R lt v_def in simp_all)
  obtain k where k: "k < length v" "v ! k = q" using mem by (auto simp: in_set_conv_nth)
  show "sint (v ! 0) \<le> sint q" using window_mono [of 0 k b q s] k by (simp add: v_def)
  show "sint q \<le> sint (v ! (length v - 1))"
    using window_mono [of k "length v - 1" b q s] k by (simp add: v_def)
qed

text \<open>The ranges of the daily rows contain the live value, the longer one the shorter.\<close>

fun ranges_ok :: "32 word \<Rightarrow> bps_ranges \<Rightarrow> bool" where
  "ranges_ok q ((min7d, max7d), (min30d, max30d)) \<longleftrightarrow>
     sint min30d \<le> sint min7d \<and> sint min7d \<le> sint q \<and> sint q \<le> sint max7d \<and> sint max7d \<le> sint max30d"

lemma widen_ranges_ok: "ranges_ok q r \<Longrightarrow> ranges_ok q (widen_ranges i day r)"
  by (cases "(q, r)" rule: ranges_ok.cases)
    (auto simp: widen_ranges_def lower_def upper_def split: option.splits)

lemma dayLoop_ok: "ranges_ok q r \<Longrightarrow> ranges_ok q (dayLoop s i c r)"
proof (induction s i c r rule: dayLoop.induct)
  case (1 s i c r)
  then show ?case by (subst dayLoop.simps) (auto intro: widen_ranges_ok)
qed

text \<open>What the recomputation and the widening of the 24h fields establish.\<close>

definition day_ordered :: "32 word \<Rightarrow> bonus_snapshot \<Rightarrow> bool" where
  "day_ordered q x \<longleftrightarrow>
     sint (bs_min24hBps x) \<le> sint (bs_q33Bps x) \<and> sint (bs_q33Bps x) \<le> sint (bs_q66Bps x)
     \<and> sint (bs_q66Bps x) \<le> sint (bs_q95Bps x) \<and> sint (bs_q95Bps x) \<le> sint (bs_max24hBps x)
     \<and> sint (bs_min24hBps x) \<le> sint q \<and> sint q \<le> sint (bs_max24hBps x) \<and> bs_currentBps x = q
     \<and> sint (bs_min30dBps x) \<le> sint (bs_min7dBps x) \<and> sint (bs_max7dBps x) \<le> sint (bs_max30dBps x)"

lemma touchDays_ordered:
  assumes "day_ordered q x"
  shows "snapshot_ordered (touchDays ts q day s x)"
proof (cases "bs_lastDayId x = day")
  case True
  then show ?thesis using assms
    unfolding touchDays_def widen7d30d_def snapshot_ordered_def day_ordered_def lower_def upper_def by simp
next
  case False
  obtain a b e d where r: "dayLoop s 0 (bigint_div ts SECONDS_PER_DAY) ((q, q), (q, q)) = ((a, b), (e, d))"
    by (metis prod.exhaust)
  have "ranges_ok q (dayLoop s 0 (bigint_div ts SECONDS_PER_DAY) ((q, q), (q, q)))"
    by (rule dayLoop_ok) simp
  then show ?thesis using False assms
    unfolding touchDays_def refreshBonusSnapshot7d30d_def snapshot_ordered_def day_ordered_def r by simp
qed

lemma recompute24h_day:
  assumes "snapshot_ordered x"
  shows "day_ordered q (recompute24h b q s (x\<lparr>bs_updatedAt := ts, bs_currentBps := q\<rparr>))"
  using assms recompute24h_ordered [where b = b and q = q and s = s]
  unfolding snapshot_ordered_def day_ordered_def recompute24h_def Let_def by simp

lemma widen24h_day:
  assumes "snapshot_ordered x"
  shows "day_ordered q (widen24h q (x\<lparr>bs_updatedAt := ts, bs_currentBps := q\<rparr>))"
  using assms unfolding snapshot_ordered_def day_ordered_def widen24h_def lower_def upper_def by simp

definition snapshot_inv :: "furnace_tables \<Rightarrow> bool" where
  "snapshot_inv f \<longleftrightarrow> (case ft_snapshots f ''1'' of None \<Rightarrow> True | Some x \<Rightarrow> snapshot_ordered x)"

lemma snapshot_inv_frame [simp]:
  "snapshot_inv (f\<lparr>ft_days := d\<rparr>) = snapshot_inv f" "snapshot_inv (f\<lparr>ft_queues := q\<rparr>) = snapshot_inv f"
  "snapshot_inv (f\<lparr>ft_pendings := p\<rparr>) = snapshot_inv f" "snapshot_inv (f\<lparr>ft_bonusSamples := b\<rparr>) = snapshot_inv f"
  "snapshot_inv (f\<lparr>ft_lpSamples := l\<rparr>) = snapshot_inv f" "snapshot_inv (f\<lparr>ft_states := t\<rparr>) = snapshot_inv f"
  "snapshot_inv (f\<lparr>ft_logs := g\<rparr>) = snapshot_inv f"
  by (simp_all add: snapshot_inv_def)

lemma new_snapshot_ordered: "snapshot_ordered new_bonus_snapshot"
  by (simp add: new_bonus_snapshot_def snapshot_ordered_def)

lemma updated_ordered:
  "snapshot_ordered x \<Longrightarrow> snapshot_ordered (touchDays ts q day s
    (if full then recompute24h b q s (x\<lparr>bs_updatedAt := ts, bs_currentBps := q\<rparr>)
     else widen24h q (x\<lparr>bs_updatedAt := ts, bs_currentBps := q\<rparr>)))"
  by (rule touchDays_ordered) (simp add: recompute24h_day widen24h_day)

lemma backfilled_ordered [simp]:
  "snapshot_ordered (x\<lparr>bs_last24hRecomputeBucketStart := b\<rparr>) = snapshot_ordered x"
  by (simp add: snapshot_ordered_def)

lemma keeps_updateSnapshot:
  "keeps_inv (rows_inv snapshot_inv) (updateSnapshotFromLast24h ts q)"
  unfolding keeps_inv_def
proof (intro allI impI)
  fix s assume inv: "rows_inv snapshot_inv s"
  let ?r = "run_state loadOrCreateFurnaceBonusSnapshot s"
  have loaded: "snapshot_ordered (fst ?r)" "rows_inv snapshot_inv (snd ?r)"
    using inv new_snapshot_ordered
    by (auto simp: loadOrCreateFurnaceBonusSnapshot_def part_inv_def snapshot_inv_def store_simps Let_def
        split: option.splits)
  show "rows_inv snapshot_inv (snd (run_state (updateSnapshotFromLast24h ts q) s))"
  proof (cases "dayIdI32 ts")
    case None
    then show ?thesis using loaded by (simp add: updateSnapshotFromLast24h_def Let_def case_prod_beta)
  next
    case (Some day)
    then show ?thesis
      using updated_ordered [OF loaded(1), where full = True] updated_ordered [OF loaded(1), where full = False]
      by (simp add: updateSnapshotFromLast24h_def Let_def case_prod_beta part_inv_def snapshot_inv_def store_simps
          del: fun_upd_apply) (simp add: fun_upd_def)
  qed
qed

section \<open>The windows\<close>

text \<open>The sample loop is the concatenation over the buckets from the cursor to the last one.\<close>

lemma sampleLoop_eq:
  assumes "cursor \<le> e"
  shows "sampleLoop s cursor e vs =
    vs @ concat (map (\<lambda>n. sample_value s (cursor + 300 * int n)) [0..<Suc (nat ((e - cursor) div 300))])"
  using assms
proof (induction s cursor e vs rule: sampleLoop.induct)
  case (1 s cursor e vs)
  show ?case
  proof (cases "cursor + 300 \<le> e")
    case True
    define m where "m = nat ((e - (cursor + 300)) div 300)"
    have d: "(e - cursor) div 300 = (e - (cursor + 300)) div 300 + 1"
      using div_add_self2 [of 300 "e - (cursor + 300)"] by simp
    have m: "nat ((e - cursor) div 300) = Suc m"
      unfolding d m_def using True by (simp add: nat_add_distrib pos_imp_zdiv_nonneg_iff)
    have upt: "[0..<Suc (Suc m)] = 0 # map Suc [0..<Suc m]" by (simp add: map_Suc_upt upt_conv_Cons del: upt_Suc)
    have "sampleLoop s cursor e vs = sampleLoop s (cursor + 300) e (vs @ sample_value s cursor)"
      using "1.prems" by (subst sampleLoop.simps) simp
    also have "\<dots> = vs @ sample_value s cursor
        @ concat (map (\<lambda>n. sample_value s (cursor + 300 + 300 * int n)) [0..<Suc m])"
      using 1 True by (simp add: m_def)
    also have "\<dots> = vs @ concat (map (\<lambda>n. sample_value s (cursor + 300 * int n)) [0..<Suc (Suc m)])"
      unfolding upt by (simp add: o_def algebra_simps del: upt_Suc)
    finally show ?thesis unfolding m .
  next
    case False
    then have "(e - cursor) div 300 = 0" using "1.prems" by (intro div_pos_pos_trivial) auto
    then show ?thesis using "1.prems" False
      by (subst sampleLoop.simps, subst sampleLoop.simps) simp
  qed
qed

definition window_start :: "int \<Rightarrow> int" where
  "window_start e = max 0 (e - 86400)"

lemma window_values_eq:
  assumes "0 \<le> e"
  shows "window_values e q s = sort_key sint
    (concat (map (\<lambda>n. sample_value s (window_start e + 300 * int n)) [0..<Suc (nat ((e - window_start e) div 300))]) @ [q])"
proof -
  have "(let m = e - WINDOW_24H in if m < 0 then 0 else m) = window_start e"
    by (simp add: Let_def window_start_def WINDOW_24H_def)
  moreover have "window_start e \<le> e" using assms by (simp add: window_start_def)
  ultimately show ?thesis by (simp add: window_values_def Let_def sampleLoop_eq del: upt_Suc)
qed

lemma sample_value_length: "length (sample_value s x) \<le> 1"
  by (simp add: sample_value_def split: option.split)

lemma length_concat_le:
  "(\<And>x. length (f x) \<le> 1) \<Longrightarrow> length (concat (map f xs)) \<le> length xs"
proof (induction xs)
  case (Cons x xs)
  then show ?case using Cons.prems [of x] by (simp add: add_mono [where a = "length (f x)" and b = 1, simplified])
qed simp

lemma window_values_length:
  assumes "0 \<le> e"
  shows "length (window_values e q s) \<le> 290"
proof -
  define N where "N = Suc (nat ((e - window_start e) div 300))"
  have "(e - window_start e) div 300 \<le> 86400 div 300"
    using assms by (intro zdiv_mono1) (simp_all add: window_start_def)
  then have N: "N \<le> 289" by (simp add: N_def)
  have "length (concat (map (\<lambda>n. sample_value s (window_start e + 300 * int n)) [0..<N])) \<le> length [0..<N]"
    by (rule length_concat_le) (rule sample_value_length)
  then show ?thesis unfolding window_values_eq [OF assms] N_def [symmetric] using N by simp
qed

text \<open>The LP totals are sums over 24 buckets.\<close>

definition lp_sum :: "(lp_sample \<Rightarrow> int) \<Rightarrow> store \<Rightarrow> int \<Rightarrow> int" where
  "lp_sum sel s start = (\<Sum>n < 24. case ft_lpSamples (furnace_rows s) (lpRewardsSampleId BUCKET_1H (start + 3600 * int n)) of
     None \<Rightarrow> 0 | Some x \<Rightarrow> sel x)"

definition lp_part :: "(lp_sample \<Rightarrow> int) \<Rightarrow> store \<Rightarrow> int \<Rightarrow> nat \<Rightarrow> int" where
  "lp_part sel s cursor k = (\<Sum>n < k. case ft_lpSamples (furnace_rows s) (lpRewardsSampleId BUCKET_1H (cursor + 3600 * int n)) of
     None \<Rightarrow> 0 | Some x \<Rightarrow> sel x)"

lemma lp_part_Suc:
  "lp_part sel s cursor (Suc k) =
     (case ft_lpSamples (furnace_rows s) (lpRewardsSampleId BUCKET_1H cursor) of None \<Rightarrow> 0 | Some x \<Rightarrow> sel x)
     + lp_part sel s (cursor + 3600) k"
  unfolding lp_part_def by (subst sum.lessThan_Suc_shift) (simp add: algebra_simps)

lemma lpLoop_eq:
  "i \<le> 24 \<Longrightarrow> lpLoop s i cursor (a, b, d, e) =
    (a + lp_part ls_lpRewardsClaim s cursor (24 - i), b + lp_part ls_lpTopupClaim s cursor (24 - i),
     d + lp_part ls_lpDripClaim s cursor (24 - i), e + lp_part ls_lpSellRewardClaim s cursor (24 - i))"
proof (induction "24 - i" arbitrary: i cursor a b d e)
  case 0
  then show ?case by (subst lpLoop.simps) (simp add: lp_part_def)
next
  case (Suc k)
  then have i: "i < 24" "24 - (i + 1) = k" "24 - i = Suc k" by linarith+
  show ?case
    using Suc(1) [of "i + 1"] i
    by (subst lpLoop.simps) (simp add: lp_part_Suc add_lp_def split: option.split)
qed

text \<open>A sample is kept as long as a window can read it.\<close>

lemma bucketStart_hour: "0 \<le> ts \<Longrightarrow> bucketStart ts BUCKET_1H = ts - ts mod 3600"
  "0 \<le> ts \<Longrightarrow> bucketStart ts BUCKET_5M = ts - ts mod 300"
  by (simp_all add: bucketStart_def host_simps)

lemma int_string_no_dash: "0 \<le> i \<Longrightarrow> CHR ''-'' \<notin> set (int_string i)"
  using nat_string_digits [of "CHR ''-''" "nat i"] digit_char_neq(1) by (auto simp: int_string_def) metis

lemma bonusSampleId_inj:
  "0 \<le> sint a \<Longrightarrow> 0 \<le> sint b \<Longrightarrow> bonusSampleId a x = bonusSampleId b y \<longleftrightarrow> a = b \<and> x = y"
  using dash_join_inj [OF int_string_no_dash int_string_no_dash, of "sint a" "sint b"]
  by (simp add: bonusSampleId_def int_string_inj word_eq_iff_signed [symmetric])

lemma lpRewardsSampleId_inj: "lpRewardsSampleId BUCKET_1H x = lpRewardsSampleId BUCKET_1H y \<longleftrightarrow> x = y"
  using dash_join_inj [OF int_string_no_dash int_string_no_dash, of 3600 3600]
  by (simp add: lpRewardsSampleId_def int_string_inj)

lemma bucket_neq [simp]: "BUCKET_5M \<noteq> BUCKET_1H" "BUCKET_1H \<noteq> BUCKET_5M"
  by (simp_all add: BUCKET_5M_def BUCKET_1H_def)

lemma bucketStart_mono:
  assumes "0 \<le> ts" "ts \<le> ts'"
  shows "bucketStart ts BUCKET_5M \<le> bucketStart ts' BUCKET_5M"
    "bucketStart ts BUCKET_1H \<le> bucketStart ts' BUCKET_1H"
  using assms zdiv_mono1 [of ts ts' 300] zdiv_mono1 [of ts ts' 3600]
  by (simp_all add: bucketStart_hour minus_mod_eq_mult_div)

lemma pruneSample_other:
  assumes "0 \<le> sint k" "j \<noteq> k \<or> x \<noteq> y" "0 \<le> sint j"
  shows "ft_bonusSamples (furnace_rows (pruneSample k y s)) (bonusSampleId j x)
    = ft_bonusSamples (furnace_rows s) (bonusSampleId j x)"
  using assms by (auto simp: pruneSample_def removeBonusSample_def bonusSampleId_inj)

lemma pruneSamples_spares:
  assumes "window_start b \<le> x" "b' = b \<or> k \<noteq> BUCKET_5M"
  shows "ft_bonusSamples (furnace_rows (pruneSamples b' k s)) (bonusSampleId BUCKET_5M x)
    = ft_bonusSamples (furnace_rows s) (bonusSampleId BUCKET_5M x)"
proof -
  have "x \<noteq> b - (86400 + 300 * j)" if "0 < j" for j using assms(1) that by (simp add: window_start_def)
  from this [of 1] this [of 2] this [of 3] this [of 4] this [of 5] show ?thesis
    using assms(2) by (auto simp: pruneSamples_def pruneSample_other WINDOW_24H_def Let_def)
qed

section \<open>LP samples add up\<close>

definition lp_row_ok :: "lp_sample \<Rightarrow> bool" where
  "lp_row_ok x \<longleftrightarrow> ls_lpRewardsClaim x = ls_lpTopupClaim x + ls_lpDripClaim x + ls_lpSellRewardClaim x"

definition lp_inv :: "furnace_tables \<Rightarrow> bool" where
  "lp_inv f \<longleftrightarrow> (\<forall>i x. ft_lpSamples f i = Some x \<longrightarrow> lp_row_ok x)"

lemma lp_inv_frame [simp]:
  "lp_inv (f\<lparr>ft_days := d\<rparr>) = lp_inv f" "lp_inv (f\<lparr>ft_queues := q\<rparr>) = lp_inv f"
  "lp_inv (f\<lparr>ft_pendings := p\<rparr>) = lp_inv f" "lp_inv (f\<lparr>ft_bonusSamples := b\<rparr>) = lp_inv f"
  "lp_inv (f\<lparr>ft_snapshots := l\<rparr>) = lp_inv f" "lp_inv (f\<lparr>ft_states := t\<rparr>) = lp_inv f"
  "lp_inv (f\<lparr>ft_logs := g\<rparr>) = lp_inv f"
  by (simp_all add: lp_inv_def)

lemma added_row_ok:
  "lp_row_ok x \<Longrightarrow> 0 \<le> a \<Longrightarrow> 0 \<le> b \<Longrightarrow> 0 \<le> c \<Longrightarrow> lp_row_ok (added_lp_sample a b c x)"
  by (auto simp: lp_row_ok_def added_lp_sample_def)

lemma keeps_addToLp:
  assumes "0 \<le> a" "0 \<le> b" "0 \<le> c"
  shows "keeps_inv (rows_inv lp_inv) (addToLpRewardsSample1h ts a b c)"
proof -
  have "lp_row_ok (new_lp_sample x y)" for x y by (simp add: lp_row_ok_def new_lp_sample_def)
  then show ?thesis
    using added_row_ok [OF _ assms] by (auto simp: keeps_inv_def addToLpRewardsSample1h_def
        loadOrCreateLpRewardsSample_def Let_def part_inv_def lp_inv_def store_simps split: option.splits)
qed

lemma keeps_pruneLp:
  assumes "lp_inv (furnace_rows s)"
  shows "lp_inv (furnace_rows (pruneLp h s))"
  using assms by (simp add: pruneLp_def removeLpSample_def lp_inv_def Let_def)

lemma keeps_refreshLp: "keeps_inv (rows_inv lp_inv) (refreshLpRewards24h st ts)"
  using keeps_pruneLp by (auto simp: refreshLpRewards24h_def Let_def part_inv_def intro!: keeps)

lemma lp_part_adds:
  assumes "lp_inv (furnace_rows s)"
  shows "lp_part ls_lpRewardsClaim s b k
    = lp_part ls_lpTopupClaim s b k + lp_part ls_lpDripClaim s b k + lp_part ls_lpSellRewardClaim s b k"
  unfolding lp_part_def sum.distrib [symmetric]
  by (rule sum.cong) (use assms in \<open>auto simp: lp_inv_def lp_row_ok_def split: option.split\<close>)

lemma lp_sum_part: "lp_sum sel s b = lp_part sel s b 24"
  by (simp add: lp_sum_def lp_part_def)

lemma run_refreshLp:
  fixes ts :: int
  defines "b \<equiv> lp_window_start (bucketStart ts BUCKET_1H)"
  shows "fst (run_state (refreshLpRewards24h st ts) s) = st
    \<lparr>fs_lpRewardsClaim24h := lp_sum ls_lpRewardsClaim s b, fs_lpRewardsTopupClaim24h := lp_sum ls_lpTopupClaim s b,
     fs_lpRewardsDripClaim24h := lp_sum ls_lpDripClaim s b,
     fs_lpRewardsSellRewardClaim24h := lp_sum ls_lpSellRewardClaim s b\<rparr>"
    "snd (run_state (refreshLpRewards24h st ts) s) = pruneLp (bucketStart ts BUCKET_1H) s"
  using lpLoop_eq [of 0 s b 0 0 0 0] by (simp_all add: refreshLpRewards24h_def b_def lp_sum_part Let_def)

lemma pruneLp_spares:
  assumes "lp_window_start h \<le> x"
  shows "ft_lpSamples (furnace_rows (pruneLp h s)) (lpRewardsSampleId BUCKET_1H x)
    = ft_lpSamples (furnace_rows s) (lpRewardsSampleId BUCKET_1H x)"
proof -
  have "x \<noteq> h - (86400 + 3600 * j)" if "0 < j" for j
    using assms that by (auto simp: lp_window_start_def Let_def split: if_splits)
  from this [of 1] this [of 2] this [of 3] show ?thesis
    by (auto simp: pruneLp_def removeLpSample_def lpRewardsSampleId_inj WINDOW_24H_def Let_def)
qed

section \<open>Properties of the bookkeeping\<close>

text \<open>
  The gross spot bonus, computed in \<open>i32\<close> arithmetic, is what the contract computes over the integers
  for rates up to 100%: the user's part plus the floor of the LP part of it, capped at 12500.
\<close>

theorem gross_bonus_exact:
  assumes "0 \<le> sint u" "sint u \<le> 10000" "0 \<le> sint r" "sint r \<le> 10000"
  shows "sint (computeGrossSpotBonusBps u r) = min 12500 (sint u + sint u * sint r div 10000)"
proof (cases "sint u = 0")
  case True
  then show ?thesis by (simp add: computeGrossSpotBonusBps_def)
next
  case False
  have prod: "0 \<le> sint u * sint r" "sint u * sint r \<le> 10000 * 10000"
    using assms mult_mono [of "sint u" 10000 "sint r" 10000] by simp_all
  have word: "sint (word_of_int k :: 32 word) = k" if "0 \<le> k" "k \<le> 100000000" for k
    using that by (simp add: sint_sbintrunc' signed_take_bit_int_eq_self)
  have "u * r = word_of_int (sint u) * word_of_int (sint r)" by simp
  then have "sint (u * r) = sint (word_of_int (sint u * sint r) :: 32 word)" by (simp only: wi_hom_mult)
  then have m: "sint (u * r) = sint u * sint r" using prod by (simp only: word)
  define q where "q = sint u * sint r div 10000"
  have q: "0 \<le> q" "q \<le> 10000"
    using prod zdiv_mono1 [of "sint u * sint r" "10000 * 10000" 10000] by (simp_all add: q_def pos_imp_zdiv_nonneg_iff)
  have d: "i32_div (u * r) BPS_DENOM = word_of_int q"
    using bigint_div_nonneg [of "sint u * sint r" 10000] prod
    by (simp add: i32_div_def m BPS_DENOM_def q_def bigint_div_def)
  have "u + word_of_int q = word_of_int (sint u) + word_of_int q" by simp
  then have "sint (u + word_of_int q) = sint (word_of_int (sint u + q) :: 32 word)" by (simp only: wi_hom_add)
  then have "sint (u + i32_div (u * r) BPS_DENOM) = sint u + q" using assms q by (simp only: d word)
  then show ?thesis
    using False assms by (simp add: computeGrossSpotBonusBps_def Let_def MAX_GROSS_BONUS_BPS_def q_def [symmetric])
qed

lemma gross_bonus_witness: "sint (computeGrossSpotBonusBps 9000 5000) = 12500 \<and> sint (computeGrossSpotBonusBps 333 1000) = 366"
  using gross_bonus_exact [of 9000 5000] gross_bonus_exact [of 333 1000] by simp

text \<open>
  A sample of the 24h window survives: whatever sample is created at a time \<open>ts\<close>, every 5-minute row that
  the recomputation at \<open>ts\<close> or any later time reads is still there, unchanged.
\<close>

theorem samples_survive_pruning:
  assumes "0 \<le> ts" "ts \<le> ts'" "k = BUCKET_5M \<or> k = BUCKET_1H"
    and "window_start (bucketStart ts' BUCKET_5M) \<le> x"
    and "ft_bonusSamples (furnace_rows s) (bonusSampleId BUCKET_5M x) = Some row"
  shows "ft_bonusSamples (furnace_rows (exec (maybeCreateBonusSample ts k q) s)) (bonusSampleId BUCKET_5M x) = Some row"
proof -
  have x: "window_start (bucketStart ts BUCKET_5M) \<le> x"
    using assms(4) bucketStart_mono(1) [OF assms(1,2)] by (simp add: window_start_def)
  have spares: "ft_bonusSamples (furnace_rows (pruneSamples (bucketStart ts k) k t)) (bonusSampleId BUCKET_5M x)
      = ft_bonusSamples (furnace_rows t) (bonusSampleId BUCKET_5M x)" for t
    by (rule pruneSamples_spares [OF x]) (use assms(3) in auto)
  show ?thesis
    using assms(5) by (auto simp: maybeCreateBonusSample_def Let_def spares saveBonusSample_def)
qed

lemma samples_survive_witness:
  "let s = exec (maybeCreateBonusSample 5000 BUCKET_5M 7) empty_store
   in map_option bm_quoteUserBonusBps
        (ft_bonusSamples (furnace_rows (exec (maybeCreateBonusSample 90000 BUCKET_5M 9) s)) (bonusSampleId BUCKET_5M 4800))
      = Some 7"
proof -
  let ?s = "exec (maybeCreateBonusSample 5000 BUCKET_5M 7) empty_store"
  have b: "bucketStart 5000 BUCKET_5M = 4800" "bucketStart 90000 BUCKET_5M = 90000" by (simp_all add: bucketStart_hour)
  have "ft_bonusSamples (furnace_rows ?s) (bonusSampleId BUCKET_5M 4800)
      = Some \<lparr>bm_bucketStart = 4800, bm_bucketSeconds = BUCKET_5M, bm_quoteUserBonusBps = 7\<rparr>"
    using pruneSamples_spares [of 4800 4800 4800 BUCKET_5M]
    by (simp add: maybeCreateBonusSample_def Let_def b saveBonusSample_def window_start_def)
  then show ?thesis
    using samples_survive_pruning [of 90000 90000 BUCKET_5M 4800 ?s _ 9] by (simp add: b window_start_def)
qed

text \<open>
  The loop of the recomputation is the window: the values it sorts are those of the 5-minute rows from 24
  hours before the current bucket to the current bucket, with the live value, and there are at most 290.
\<close>

theorem recompute_reads_window:
  assumes "0 \<le> e"
  shows "mset (window_values e q s) =
      mset (concat (map (\<lambda>n. sample_value s (window_start e + 300 * int n)) [0..<Suc (nat ((e - window_start e) div 300))])) + {#q#}
    \<and> sorted (map sint (window_values e q s)) \<and> length (window_values e q s) \<le> 290"
  using window_values_length [OF assms] sorted_window by (simp add: window_values_eq [OF assms] del: upt_Suc)

lemma recompute_reads_witness:
  "length (window_values 600 7 empty_store) \<le> 290 \<and> sorted (map sint (window_values 600 7 empty_store))"
  using recompute_reads_window [of 600 7 empty_store] by simp

text \<open>
  The 24h totals of the state are the sums over the 24 hourly buckets of the window, and the pruning that
  goes with the refresh removes none of them.
\<close>

theorem lp_totals_exact:
  assumes "r = run_state (refreshLpRewards24h st ts) s" and "b = lp_window_start (bucketStart ts BUCKET_1H)"
  shows "fs_lpRewardsClaim24h (fst r) = lp_sum ls_lpRewardsClaim s b
    \<and> fs_lpRewardsTopupClaim24h (fst r) = lp_sum ls_lpTopupClaim s b
    \<and> fs_lpRewardsDripClaim24h (fst r) = lp_sum ls_lpDripClaim s b
    \<and> fs_lpRewardsSellRewardClaim24h (fst r) = lp_sum ls_lpSellRewardClaim s b
    \<and> lp_sum ls_lpRewardsClaim (snd r) b = lp_sum ls_lpRewardsClaim s b"
proof -
  have "lp_sum ls_lpRewardsClaim (pruneLp (bucketStart ts BUCKET_1H) s) b = lp_sum ls_lpRewardsClaim s b"
    unfolding lp_sum_def by (rule sum.cong) (simp_all add: assms(2) pruneLp_spares)
  then show ?thesis unfolding assms(1) run_refreshLp by (simp add: assms(2))
qed

lemma lp_totals_witness:
  "fs_lpRewardsClaim24h (fst (run_state (refreshLpRewards24h new_furnace_state 90000) empty_store)) = 0"
  using lp_totals_exact [OF refl refl, of new_furnace_state 90000 empty_store] by (simp add: lp_sum_def)

end
