(* ===== verification/PendingQueue.thy ===== *)
theory PendingQueue
  imports FurnaceBonus
begin

text \<open>
  The queue of paid and not yet settled bonuses (\<open>recordPendingBonusPaid\<close>, \<open>settleDeliveredUserBonus\<close> in
  \<open>src/subgraph/src/mappings/furnace.ts\<close>) against its specification: one first-in first-out list per
  transaction and user. The rows \<open>PendingBonusPaidQueue\<close> (head and tail) and \<open>PendingBonusPaid\<close> (one per
  sequence number) implement the list; the locale \<open>keyed_fifo\<close> states the contract and derives from it what
  any sequence of pushes and pops leaves, and its interpretation discharges the contract for the two functions.
\<close>

section \<open>First-in first-out lists under a key\<close>

datatype ('k, 'v, 'a) fifo_op = Push 'k 'v | Pop 'k 'a

fun fifo_spec :: "('v \<Rightarrow> 'w) \<Rightarrow> ('k, 'v, 'a) fifo_op list \<Rightarrow> ('k \<Rightarrow> 'w list) \<Rightarrow> 'k \<Rightarrow> 'w list" where
  "fifo_spec view [] m = m"
| "fifo_spec view (Push k v # ops) m = fifo_spec view ops (m(k := m k @ [view v]))"
| "fifo_spec view (Pop k a # ops) m = fifo_spec view ops (m(k := tl (m k)))"

fun pushes :: "'k \<Rightarrow> ('k, 'v, 'a) fifo_op list \<Rightarrow> nat" where
  "pushes k [] = 0"
| "pushes k (Push j v # ops) = (if j = k then Suc (pushes k ops) else pushes k ops)"
| "pushes k (Pop j a # ops) = pushes k ops"

fun fifo_run :: "('k \<Rightarrow> 'v \<Rightarrow> 's \<Rightarrow> 's) \<Rightarrow> ('k \<Rightarrow> 'a \<Rightarrow> 's \<Rightarrow> 's) \<Rightarrow> ('k, 'v, 'a) fifo_op list \<Rightarrow> 's \<Rightarrow> 's" where
  "fifo_run push pop [] s = s"
| "fifo_run push pop (Push k v # ops) s = fifo_run push pop ops (push k v s)"
| "fifo_run push pop (Pop k a # ops) s = fifo_run push pop ops (pop k a s)"

locale keyed_fifo =
  fixes ok :: "'s \<Rightarrow> bool" and content :: "'s \<Rightarrow> 'k \<Rightarrow> 'w list" and room :: "'s \<Rightarrow> 'k \<Rightarrow> nat"
    and view :: "'v \<Rightarrow> 'w" and push :: "'k \<Rightarrow> 'v \<Rightarrow> 's \<Rightarrow> 's" and pop :: "'k \<Rightarrow> 'a \<Rightarrow> 's \<Rightarrow> 's"
  assumes push_ok: "ok s \<Longrightarrow> 0 < room s k \<Longrightarrow> ok (push k v s)"
    and push_content: "ok s \<Longrightarrow> 0 < room s k \<Longrightarrow> content (push k v s) = (content s)(k := content s k @ [view v])"
    and push_room: "ok s \<Longrightarrow> 0 < room s k \<Longrightarrow> room s j \<le> room (push k v s) j + (if j = k then 1 else 0)"
    and pop_ok: "ok s \<Longrightarrow> ok (pop k a s)"
    and pop_content: "ok s \<Longrightarrow> content (pop k a s) = (content s)(k := tl (content s k))"
    and pop_room: "ok s \<Longrightarrow> room s j \<le> room (pop k a s) j"
begin

lemma run_refines:
  assumes "ok s" and "\<And>k. pushes k ops \<le> room s k"
  shows "ok (fifo_run push pop ops s) \<and> content (fifo_run push pop ops s) = fifo_spec view ops (content s)"
  using assms
proof (induction ops arbitrary: s)
  case (Cons x ops)
  show ?case
  proof (cases x)
    case (Push k v)
    then have pos: "0 < room s k" using Cons.prems(2) [of k] by simp
    have "pushes j ops \<le> room (push k v s) j" for j
      using push_room [OF Cons.prems(1) pos, of j v] Cons.prems(2) [of j] Push by (cases "j = k") auto
    then show ?thesis
      using Cons.IH [OF push_ok [OF Cons.prems(1) pos, of v]] push_content [OF Cons.prems(1) pos, of v] Push
      by (simp add: fun_upd_def)
  next
    case (Pop k a)
    have "pushes j ops \<le> room (pop k a s) j" for j
      using pop_room [OF Cons.prems(1), of j k a] Cons.prems(2) [of j] Pop by simp
    then show ?thesis
      using Cons.IH [OF pop_ok [OF Cons.prems(1), of k a]] pop_content [OF Cons.prems(1), of k a] Pop
      by (simp add: fun_upd_def)
  qed
qed simp

lemma pops_in_order:
  assumes "ok s" and "length xs \<le> room s k"
  shows "content (fifo_run push pop (map (Push k) xs @ map (Pop k) as) s) k
    = drop (length as) (content s k @ map view xs)"
proof -
  let ?ops = "map (Push k) xs @ map (Pop k) as"
  have n: "pushes j ?ops = (if j = k then length xs else 0)" for j
  proof -
    have none: "pushes j (map (Pop k) as) = 0" by (induction as) simp_all
    show ?thesis by (induction xs) (auto simp: none)
  qed
  have pops: "fifo_spec view (map (Pop k) as) m k = drop (length as) (m k)" for m
    by (induction as arbitrary: m) (simp_all add: drop_Suc)
  have "fifo_spec view ?ops m k = drop (length as) (m k @ map view xs)" for m
    by (induction xs arbitrary: m) (simp_all add: pops del: drop_append)
  moreover have "\<And>j. pushes j ?ops \<le> room s j" unfolding n using assms(2) by simp
  ultimately show ?thesis using run_refines [OF assms(1)] by simp
qed

end

section \<open>The rows of one queue\<close>

definition pending_id :: "bytes \<times> bytes \<Rightarrow> nat \<Rightarrow> string" where
  "pending_id k n = pendingBonusPaidId (pendingBonusPaidQueueId (fst k) (snd k)) (of_nat n)"

definition queue_of :: "furnace_tables \<Rightarrow> bytes \<times> bytes \<Rightarrow> pending_queue option" where
  "queue_of f k = ft_queues f (pendingBonusPaidQueueId (fst k) (snd k))"

definition queue_ok :: "furnace_tables \<Rightarrow> bool" where
  "queue_ok f \<longleftrightarrow> (\<forall>k q. queue_of f k = Some q \<longrightarrow>
     unat (pq_head q) < unat (pq_tail q) \<and> unat (pq_tail q) < 2 ^ 31
     \<and> (\<forall>n \<in> {unat (pq_head q)..<unat (pq_tail q)}. ft_pendings f (pending_id k n) \<noteq> None))"

lemma queue_okD:
  assumes "queue_ok f" and "queue_of f k = Some q"
  shows "unat (pq_head q) < unat (pq_tail q)" "unat (pq_tail q) < 2 ^ 31"
    "unat (pq_head q) \<le> n \<Longrightarrow> n < unat (pq_tail q) \<Longrightarrow> ft_pendings f (pending_id k n) \<noteq> None"
  using assms(1) [unfolded queue_ok_def, rule_format, OF assms(2)] by auto

definition pending_view :: "pending_bonus option \<Rightarrow> int \<times> int" where
  "pending_view p = (case p of None \<Rightarrow> (0, 0) | Some b \<Rightarrow> (pb_userBonusClaim b, pb_reserveAfter b))"

definition pending_content :: "furnace_tables \<Rightarrow> bytes \<times> bytes \<Rightarrow> (int \<times> int) list" where
  "pending_content f k = (case queue_of f k of
     None \<Rightarrow> []
   | Some q \<Rightarrow> map (\<lambda>n. pending_view (ft_pendings f (pending_id k n))) [unat (pq_head q)..<unat (pq_tail q)])"

definition pending_room :: "furnace_tables \<Rightarrow> bytes \<times> bytes \<Rightarrow> nat" where
  "pending_room f k = (case queue_of f k of None \<Rightarrow> 2 ^ 31 - 1 | Some q \<Rightarrow> 2 ^ 31 - 1 - unat (pq_tail q))"

lemma sint_small: "unat (w :: 32 word) < 2 ^ 31 \<Longrightarrow> sint w = int (unat w)"
proof -
  assume "unat w < 2 ^ 31"
  then have "int (unat w) < int (2 ^ 31)" by (simp only: of_nat_less_iff)
  then have "uint w < 2 ^ 31" by (simp only: uint_nat of_nat_power of_nat_numeral)
  moreover have "sint w = signed_take_bit 31 (uint w)" by (simp add: sint_uint)
  moreover have "- (2 ^ 31) \<le> uint w" by (rule order_trans [of _ 0]) simp_all
  ultimately show ?thesis by (simp only: signed_take_bit_int_eq_self uint_nat)
qed

lemma unat_Suc: "unat (w :: 32 word) < 2 ^ 31 \<Longrightarrow> unat (w + 1) = Suc (unat w)"
  by (simp add: unat_word_ariths)

lemma queueId_inj:
  "pendingBonusPaidQueueId t u = pendingBonusPaidQueueId t' u' \<longleftrightarrow> t = t' \<and> u = u'"
  using dash_join_inj [OF toHexString_no_dash toHexString_no_dash] by (simp add: pendingBonusPaidQueueId_def)

lemma pendingId_inj:
  "pendingBonusPaidId (pendingBonusPaidQueueId t u) a = pendingBonusPaidId (pendingBonusPaidQueueId t' u') b
     \<longleftrightarrow> t = t' \<and> u = u' \<and> a = b"
  using dash_join_inj [OF toHexString_no_dash toHexString_no_dash]
  by (simp add: pendingBonusPaidId_def pendingBonusPaidQueueId_def int_string_inj
      word_eq_iff_signed [symmetric])

lemma pending_id_inj:
  assumes "m < 2 ^ 32" "n < 2 ^ 32"
  shows "pending_id j m = pending_id k n \<longleftrightarrow> j = k \<and> m = n"
proof -
  have "(of_nat m :: 32 word) = of_nat n \<longleftrightarrow> m = n"
    using assms by (auto simp: word_unat_eq_iff unat_of_nat take_bit_nat_eq_self)
  then show ?thesis by (auto simp: pending_id_def pendingId_inj prod_eq_iff)
qed

section \<open>What recording and settling do to the rows\<close>

lemma record_rows:
  fixes k q s
  defines "q \<equiv> (case queue_of (furnace_rows s) k of None \<Rightarrow> \<lparr>pq_head = 0, pq_tail = 0\<rparr> | Some q \<Rightarrow> q)"
  assumes "ev_txHash ev = fst k"
  shows "\<exists>p. pending_view (Some p) = (b, r) \<and>
    furnace_rows (exec (recordPendingBonusPaid ev (snd k) b r) s) = (furnace_rows s)
      \<lparr>ft_queues := (ft_queues (furnace_rows s))(pendingBonusPaidQueueId (fst k) (snd k) \<mapsto> q\<lparr>pq_tail := pq_tail q + 1\<rparr>),
       ft_pendings := (ft_pendings (furnace_rows s))(pendingBonusPaidId (pendingBonusPaidQueueId (fst k) (snd k)) (pq_tail q) \<mapsto> p)\<rparr>"
proof -
  let ?i = "pendingBonusPaidQueueId (fst k) (snd k)"
  let ?p = "\<lparr>pb_queueId = ?i, pb_sequence = pq_tail q, pb_txHash = fst k, pb_user = snd k,
    pb_timestamp = ev_timestamp ev, pb_blockNumber = ev_blockNumber ev, pb_userBonusClaim = b, pb_reserveAfter = r\<rparr>"
  have "pending_view (Some ?p) = (b, r)" by (simp add: pending_view_def)
  moreover have "furnace_rows (exec (recordPendingBonusPaid ev (snd k) b r) s) = (furnace_rows s)
      \<lparr>ft_queues := (ft_queues (furnace_rows s))(?i \<mapsto> q\<lparr>pq_tail := pq_tail q + 1\<rparr>),
       ft_pendings := (ft_pendings (furnace_rows s))(pendingBonusPaidId ?i (pq_tail q) \<mapsto> ?p)\<rparr>"
    using assms(2) by (simp add: recordPendingBonusPaid_def loadOrCreatePendingBonusPaidQueue_def q_def
        queue_of_def savePendingQueue_def savePending_def Let_def)
  ultimately show ?thesis by blast
qed

lemma settle_rows:
  fixes f s k ts b
  defines "f \<equiv> furnace_rows (exec (settleDeliveredUserBonus ts (fst k) (snd k) b) s)"
    and "i \<equiv> pendingBonusPaidQueueId (fst k) (snd k)"
  shows "ft_queues f = (case queue_of (furnace_rows s) k of
      None \<Rightarrow> ft_queues (furnace_rows s)
    | Some q \<Rightarrow> (ft_queues (furnace_rows s))(i :=
        if sint (pq_head q + 1) \<ge> sint (pq_tail q) then None else Some (q\<lparr>pq_head := pq_head q + 1\<rparr>)))"
    and "ft_pendings f = (case queue_of (furnace_rows s) k of
      None \<Rightarrow> ft_pendings (furnace_rows s)
    | Some q \<Rightarrow> (ft_pendings (furnace_rows s))(pendingBonusPaidId i (pq_head q) := None))"
  by (auto simp: f_def i_def settleDeliveredUserBonus_def settleHead_def advanceQueue_def loadOrCreateDay_def
      loadOrCreateFurnaceState_def queue_of_def Let_def store_simps fun_upd_idem split: option.splits)

section \<open>The rows implement the lists\<close>

definition push_bonus :: "bytes \<times> bytes \<Rightarrow> eth_event \<times> int \<times> int \<Rightarrow> store \<Rightarrow> store" where
  "push_bonus k v s = (case v of (ev, b, r) \<Rightarrow>
     exec (recordPendingBonusPaid (ev\<lparr>ev_txHash := fst k\<rparr>) (snd k) b r) s)"

definition pop_bonus :: "bytes \<times> bytes \<Rightarrow> int \<times> int \<Rightarrow> store \<Rightarrow> store" where
  "pop_bonus k a s = exec (settleDeliveredUserBonus (fst a) (fst k) (snd k) (snd a)) s"

lemma queue_of_upd:
  "ft_queues f = m(pendingBonusPaidQueueId (fst k) (snd k) := r) \<Longrightarrow>
     queue_of f j = (if j = k then r else m (pendingBonusPaidQueueId (fst j) (snd j)))"
  by (auto simp: queue_of_def queueId_inj prod_eq_iff)

lemma pushed:
  fixes k v s
  defines "f \<equiv> furnace_rows s" and "g \<equiv> furnace_rows (push_bonus k v s)"
  defines "h \<equiv> (case queue_of f k of None \<Rightarrow> 0 | Some q \<Rightarrow> unat (pq_head q))"
    and "t \<equiv> (case queue_of f k of None \<Rightarrow> 0 | Some q \<Rightarrow> unat (pq_tail q))"
  assumes ok: "queue_ok f" and room: "0 < pending_room f k"
  shows "\<exists>q. queue_of g k = Some q \<and> unat (pq_head q) = h \<and> unat (pq_tail q) = Suc t"
    "h \<le> t" "Suc t < 2 ^ 31" "\<And>j. j \<noteq> k \<Longrightarrow> queue_of g j = queue_of f j"
    "\<And>j n. n < 2 ^ 31 \<Longrightarrow> (j, n) \<noteq> (k, t) \<Longrightarrow> ft_pendings g (pending_id j n) = ft_pendings f (pending_id j n)"
    "\<exists>p. ft_pendings g (pending_id k t) = Some p \<and> pending_view (Some p) = snd v"
proof -
  obtain ev b r where v: "v = (ev, b, r)" by (cases v)
  let ?q = "case queue_of f k of None \<Rightarrow> \<lparr>pq_head = 0, pq_tail = 0\<rparr> | Some q \<Rightarrow> q"
  have ht: "unat (pq_head ?q) = h" "unat (pq_tail ?q) = t" by (simp_all add: h_def t_def split: option.split)
  show le: "h \<le> t" using ok by (cases "queue_of f k") (simp_all add: h_def t_def less_imp_le queue_okD)
  show lt: "Suc t < 2 ^ 31" using room by (auto simp: t_def pending_room_def split: option.splits)
  obtain p where p: "pending_view (Some p) = (b, r)" and g: "g = f
      \<lparr>ft_queues := (ft_queues f)(pendingBonusPaidQueueId (fst k) (snd k) \<mapsto> ?q\<lparr>pq_tail := pq_tail ?q + 1\<rparr>),
       ft_pendings := (ft_pendings f)(pendingBonusPaidId (pendingBonusPaidQueueId (fst k) (snd k)) (pq_tail ?q) \<mapsto> p)\<rparr>"
    using record_rows [of "ev\<lparr>ev_txHash := fst k\<rparr>" k b r s] by (auto simp: g_def f_def push_bonus_def v)
  have tail: "pq_tail ?q = of_nat t" by (simp add: ht(2) [symmetric])
  have qs: "ft_queues g = (ft_queues f)(pendingBonusPaidQueueId (fst k) (snd k) := Some (?q\<lparr>pq_tail := pq_tail ?q + 1\<rparr>))"
    unfolding g by simp
  have "queue_of g k = Some (?q\<lparr>pq_tail := pq_tail ?q + 1\<rparr>)" using queue_of_upd [OF qs, of k] by simp
  moreover have "unat (pq_tail ?q + 1) = Suc t" using unat_Suc [of "pq_tail ?q"] lt ht by simp
  ultimately show "\<exists>q. queue_of g k = Some q \<and> unat (pq_head q) = h \<and> unat (pq_tail q) = Suc t"
    using ht by simp
  show "queue_of g j = queue_of f j" if "j \<noteq> k" for j
    using queue_of_upd [OF qs, of j] that by (simp add: queue_of_def)
  have row: "ft_pendings g = (ft_pendings f)(pending_id k t \<mapsto> p)"
    unfolding g by (simp add: pending_id_def tail)
  show "ft_pendings g (pending_id j n) = ft_pendings f (pending_id j n)" if "n < 2 ^ 31" "(j, n) \<noteq> (k, t)" for j n
    using that lt pending_id_inj [of n t j k] by (auto simp: row)
  show "\<exists>p. ft_pendings g (pending_id k t) = Some p \<and> pending_view (Some p) = snd v"
    using p by (simp add: row v)
qed

lemma push_queue_ok:
  assumes "queue_ok (furnace_rows s)" "0 < pending_room (furnace_rows s) k"
  shows "queue_ok (furnace_rows (push_bonus k v s))"
  unfolding queue_ok_def
proof (intro allI impI)
  note P = pushed(1,4,5,6) [OF assms, where v = v] and L = pushed(2,3) [OF assms]
  fix j q assume q: "queue_of (furnace_rows (push_bonus k v s)) j = Some q"
  show "unat (pq_head q) < unat (pq_tail q) \<and> unat (pq_tail q) < 2 ^ 31
     \<and> (\<forall>n \<in> {unat (pq_head q)..<unat (pq_tail q)}. ft_pendings (furnace_rows (push_bonus k v s)) (pending_id j n) \<noteq> None)"
  proof (cases "j = k")
    case True
    have "ft_pendings (furnace_rows (push_bonus k v s)) (pending_id k n) \<noteq> None"
      if "n \<in> {unat (pq_head q)..<unat (pq_tail q)}" for n
    proof (cases "queue_of (furnace_rows s) k")
      case None
      then have "n = 0" using that q P(1) True by auto
      then show ?thesis using P(4) None by auto
    next
      case (Some q0)
      then show ?thesis
        using that q L P(1,3,4) True queue_okD [OF assms(1) Some]
        by (cases "n = unat (pq_tail q0)") auto
    qed
    then show ?thesis using L P(1) q True by auto
  next
    case False
    then have "queue_of (furnace_rows s) j = Some q" using q P(2) by simp
    from queue_okD [OF assms(1) this] show ?thesis using False P(3) by auto
  qed
qed

lemma push_contents:
  assumes "queue_ok (furnace_rows s)" "0 < pending_room (furnace_rows s) k"
  shows "pending_content (furnace_rows (push_bonus k v s))
    = (pending_content (furnace_rows s))(k := pending_content (furnace_rows s) k @ [snd v])"
proof
  note P = pushed(1,4,5,6) [OF assms, where v = v] and L = pushed(2,3) [OF assms]
  fix j
  show "pending_content (furnace_rows (push_bonus k v s)) j
    = ((pending_content (furnace_rows s))(k := pending_content (furnace_rows s) k @ [snd v])) j"
  proof (cases "j = k")
    case True
    obtain q where q: "queue_of (furnace_rows (push_bonus k v s)) k = Some q" using P(1) by auto
    show ?thesis
    proof (cases "queue_of (furnace_rows s) k")
      case None
      then show ?thesis using P(1,4) q True by (auto simp: pending_content_def)
    next
      case (Some q0)
      then show ?thesis using L P(1,3,4) q True by (auto simp: pending_content_def)
    qed
  next
    case False
    then have same: "queue_of (furnace_rows (push_bonus k v s)) j = queue_of (furnace_rows s) j" using P(2) by simp
    show ?thesis
    proof (cases "queue_of (furnace_rows s) j")
      case (Some q)
      then show ?thesis using False P(3) same queue_okD(2) [OF assms(1) Some] by (auto simp: pending_content_def)
    qed (use False same in \<open>simp add: pending_content_def\<close>)
  qed
qed

lemma push_rooms:
  assumes "queue_ok (furnace_rows s)" "0 < pending_room (furnace_rows s) k"
  shows "pending_room (furnace_rows s) j
    \<le> pending_room (furnace_rows (push_bonus k v s)) j + (if j = k then 1 else 0)"
  using pushed(1,4) [OF assms, where v = v] by (cases "j = k") (auto simp: pending_room_def split: option.splits)

lemma popped:
  fixes k a s
  defines "f \<equiv> furnace_rows s" and "g \<equiv> furnace_rows (pop_bonus k a s)"
  assumes ok: "queue_ok f" and q: "queue_of f k = Some q"
  shows "queue_of g k = (if Suc (unat (pq_head q)) < unat (pq_tail q) then Some (q\<lparr>pq_head := pq_head q + 1\<rparr>) else None)"
    "unat (pq_head q + 1) = Suc (unat (pq_head q))"
    "j \<noteq> k \<Longrightarrow> queue_of g j = queue_of f j"
    "n < 2 ^ 31 \<Longrightarrow> (j, n) \<noteq> (k, unat (pq_head q)) \<Longrightarrow> ft_pendings g (pending_id j n) = ft_pendings f (pending_id j n)"
proof -
  note D = queue_okD [OF ok q]
  have h: "unat (pq_head q) < 2 ^ 31" using D(1,2) by (rule order_less_trans)
  then show up: "unat (pq_head q + 1) = Suc (unat (pq_head q))" by (rule unat_Suc)
  have lt: "unat (pq_head q + 1) < 2 ^ 31" using D(1,2) up by linarith
  have cmp: "sint (pq_tail q) \<le> sint (pq_head q + 1) \<longleftrightarrow> \<not> Suc (unat (pq_head q)) < unat (pq_tail q)"
    unfolding sint_small [OF D(2)] sint_small [OF lt] up by linarith
  have qs: "ft_queues g = (ft_queues f)(pendingBonusPaidQueueId (fst k) (snd k) :=
      if Suc (unat (pq_head q)) < unat (pq_tail q) then Some (q\<lparr>pq_head := pq_head q + 1\<rparr>) else None)"
    using settle_rows(1) [of "fst a" k "snd a" s] q cmp by (simp add: f_def g_def pop_bonus_def)
  have ps: "ft_pendings g = (ft_pendings f)(pending_id k (unat (pq_head q)) := None)"
    using settle_rows(2) [of "fst a" k "snd a" s] q by (simp add: f_def g_def pop_bonus_def pending_id_def)
  show "queue_of g k = (if Suc (unat (pq_head q)) < unat (pq_tail q) then Some (q\<lparr>pq_head := pq_head q + 1\<rparr>) else None)"
    using queue_of_upd [OF qs, of k] by simp
  show "queue_of g j = queue_of f j" if "j \<noteq> k"
    using queue_of_upd [OF qs, of j] that by (simp add: queue_of_def)
  show "ft_pendings g (pending_id j n) = ft_pendings f (pending_id j n)"
    if "n < 2 ^ 31" "(j, n) \<noteq> (k, unat (pq_head q))"
    using that h pending_id_inj [of n "unat (pq_head q)" j k] by (auto simp: ps)
qed

text \<open>A settlement with nothing queued leaves the queue rows alone.\<close>

lemma popped_none:
  assumes "queue_of (furnace_rows s) k = None"
  shows "queue_of (furnace_rows (pop_bonus k a s)) = queue_of (furnace_rows s)"
    "ft_pendings (furnace_rows (pop_bonus k a s)) = ft_pendings (furnace_rows s)"
  using assms settle_rows [of "fst a" k "snd a" s] by (simp_all add: pop_bonus_def queue_of_def fun_eq_iff)

lemma pop_queue_ok:
  assumes "queue_ok (furnace_rows s)"
  shows "queue_ok (furnace_rows (pop_bonus k a s))"
proof (cases "queue_of (furnace_rows s) k")
  case None
  then show ?thesis using assms by (simp add: queue_ok_def popped_none)
next
  case (Some q)
  note P = popped(1,3,4) [OF assms Some, where a = a] and up = popped(2) [OF assms Some]
  show ?thesis
    unfolding queue_ok_def
  proof (intro allI impI)
    fix j r assume r: "queue_of (furnace_rows (pop_bonus k a s)) j = Some r"
    show "unat (pq_head r) < unat (pq_tail r) \<and> unat (pq_tail r) < 2 ^ 31
       \<and> (\<forall>n \<in> {unat (pq_head r)..<unat (pq_tail r)}. ft_pendings (furnace_rows (pop_bonus k a s)) (pending_id j n) \<noteq> None)"
    proof (cases "j = k")
      case True
      then have "r = q\<lparr>pq_head := pq_head q + 1\<rparr>" "Suc (unat (pq_head q)) < unat (pq_tail q)"
        using r P(1) by (auto split: if_splits)
      then show ?thesis using up P(3) queue_okD [OF assms Some] True by auto
    next
      case False
      then have "queue_of (furnace_rows s) j = Some r" using r P(2) by simp
      from queue_okD [OF assms this] show ?thesis using False P(3) by auto
    qed
  qed
qed

lemma pop_contents:
  assumes "queue_ok (furnace_rows s)"
  shows "pending_content (furnace_rows (pop_bonus k a s))
    = (pending_content (furnace_rows s))(k := tl (pending_content (furnace_rows s) k))"
proof (cases "queue_of (furnace_rows s) k")
  case None
  then show ?thesis by (auto simp: fun_eq_iff pending_content_def popped_none split: option.split)
next
  case (Some q)
  note P = popped(1,3,4) [OF assms Some, where a = a] and up = popped(2) [OF assms Some] and D = queue_okD [OF assms Some]
  show ?thesis
  proof
    fix j
    show "pending_content (furnace_rows (pop_bonus k a s)) j
      = ((pending_content (furnace_rows s))(k := tl (pending_content (furnace_rows s) k))) j"
    proof (cases "j = k")
      case True
      have "[unat (pq_head q)..<unat (pq_tail q)] = unat (pq_head q) # [Suc (unat (pq_head q))..<unat (pq_tail q)]"
        using D(1) by (rule upt_conv_Cons)
      then show ?thesis using up P(1,3) D(2) True Some by (auto simp: pending_content_def)
    next
      case False
      then have same: "queue_of (furnace_rows (pop_bonus k a s)) j = queue_of (furnace_rows s) j" using P(2) by simp
      show ?thesis
      proof (cases "queue_of (furnace_rows s) j")
        case (Some r)
        then show ?thesis using False P(3) same queue_okD(2) [OF assms Some] by (auto simp: pending_content_def)
      qed (use False same in \<open>simp add: pending_content_def\<close>)
    qed
  qed
qed

lemma pop_rooms:
  assumes "queue_ok (furnace_rows s)"
  shows "pending_room (furnace_rows s) j \<le> pending_room (furnace_rows (pop_bonus k a s)) j"
proof (cases "queue_of (furnace_rows s) k")
  case None
  then show ?thesis by (simp add: pending_room_def popped_none)
next
  case (Some q)
  then show ?thesis
    using popped(1,3) [OF assms Some, where a = a] by (cases "j = k") (auto simp: pending_room_def split: option.splits)
qed

interpretation bonus_queue: keyed_fifo "\<lambda>s. queue_ok (furnace_rows s)" "\<lambda>s. pending_content (furnace_rows s)"
    "\<lambda>s. pending_room (furnace_rows s)" snd push_bonus pop_bonus
  by unfold_locales (rule push_queue_ok push_contents push_rooms pop_queue_ok pop_contents pop_rooms; assumption)+

section \<open>Properties\<close>

text \<open>
  C26. The queue refines its specification. Whatever bonuses are recorded and receipts settled, in whatever
  interleaving over transactions and users, what is pending for a transaction and user is what first-in
  first-out lists give, as long as no queue takes more than the \<open>2\<^sup>3\<^sup>1 - 1\<close> sequence numbers of an \<open>i32\<close>.
\<close>

theorem pending_bonuses_fifo:
  assumes "\<And>k. pushes k ops < 2 ^ 31"
  shows "pending_content (furnace_rows (fifo_run push_bonus pop_bonus ops empty_store))
    = fifo_spec snd ops (\<lambda>_. [])"
proof -
  have start: "queue_of (furnace_rows empty_store) = (\<lambda>_. None)" by (simp add: queue_of_def fun_eq_iff)
  then have "queue_ok (furnace_rows empty_store)" "pending_content (furnace_rows empty_store) = (\<lambda>_. [])"
    by (simp_all add: queue_ok_def pending_content_def fun_eq_iff)
  moreover have "pushes k ops \<le> pending_room (furnace_rows empty_store) k" for k
    using assms [of k] start by (simp add: pending_room_def)
  ultimately show ?thesis using bonus_queue.run_refines [of empty_store ops] by simp
qed

lemma pending_bonuses_fifo_witness:
  "let ops = [Push ([1], [2]) (sample_event, 50, 900), Push ([1], [3]) (sample_event, 5, 7),
              Push ([1], [2]) (sample_event, 60, 800), Pop ([1], [2]) (5000, 50)]
   in pending_content (furnace_rows (fifo_run push_bonus pop_bonus ops empty_store)) ([1], [2]) = [(60, 800)]"
proof -
  let ?ops = "[Push ([1], [2]) (sample_event, 50, 900), Push ([1], [3]) (sample_event, 5, 7),
              Push ([1], [2]) (sample_event, 60, 800), Pop ([1], [2]) (5000, 50)]
            :: (bytes \<times> bytes, eth_event \<times> int \<times> int, int \<times> int) fifo_op list"
  have "pushes k ?ops < 2 ^ 31" for k by simp
  from pending_bonuses_fifo [of ?ops, OF this] show ?thesis by (simp add: Let_def)
qed

text \<open>
  Settling the head of the queue takes its bonus off and sets the reserve of the state and of the receipt's
  day: the reserve after that bonus was paid, plus whatever of it was not delivered. The day's user bonus
  grows by the delivered amount.
\<close>

theorem settlement_corrects_reserve:
  assumes "queue_ok (furnace_rows s)" and "pending_content (furnace_rows s) (txHash, user) = (b, r) # rest"
    and s': "s' = exec (settleDeliveredUserBonus ts txHash user delivered) s"
    and d: "day = (case ft_days (furnace_rows s) (dayIdFromTimestamp ts) of
      None \<Rightarrow> new_day (dayIdFromTimestamp ts) | Some d \<Rightarrow> d)"
  shows "ft_states (furnace_rows s') ''current'' \<noteq> None
    \<and> map_option fs_reserve (ft_states (furnace_rows s') ''current'') = Some (r + max 0 (b - delivered))
    \<and> ft_days (furnace_rows s') (dayIdFromTimestamp ts) =
        Some (day\<lparr>fd_totalUserBonus := fd_totalUserBonus day + delivered,
                  fd_reserveEnd := r + max 0 (b - delivered)\<rparr>)
    \<and> pending_content (furnace_rows s') (txHash, user) = rest"
proof -
  let ?k = "(txHash, user)"
  obtain q where q: "queue_of (furnace_rows s) ?k = Some q"
    using assms(2) by (auto simp: pending_content_def split: option.splits)
  note D = queue_okD [OF assms(1) q]
  obtain p where p: "ft_pendings (furnace_rows s) (pending_id ?k (unat (pq_head q))) = Some p"
    using D(3) [of "unat (pq_head q)"] D(1) by auto
  have "pending_content (furnace_rows s) ?k = pending_view (Some p)
      # map (\<lambda>n. pending_view (ft_pendings (furnace_rows s) (pending_id ?k n))) [Suc (unat (pq_head q))..<unat (pq_tail q)]"
    using q p D(1) by (simp add: pending_content_def upt_conv_Cons)
  then have view: "pb_userBonusClaim p = b" "pb_reserveAfter p = r" using assms(2) by (simp_all add: pending_view_def)
  have fin: "final_reserve p delivered = r + max 0 (b - delivered)" by (simp add: final_reserve_def view)
  have "pending_content (furnace_rows (pop_bonus ?k (ts, delivered) s)) ?k = rest"
    using pop_contents [OF assms(1), of ?k "(ts, delivered)"] assms(2) by simp
  moreover have "pop_bonus ?k (ts, delivered) s = s'" by (simp add: s' pop_bonus_def)
  moreover have "map_option fs_reserve (ft_states (furnace_rows s') ''current'') = Some (r + max 0 (b - delivered))
      \<and> ft_days (furnace_rows s') (dayIdFromTimestamp ts) =
        Some (day\<lparr>fd_totalUserBonus := fd_totalUserBonus day + delivered, fd_reserveEnd := r + max 0 (b - delivered)\<rparr>)"
    using p q unfolding s' settleDeliveredUserBonus_def settleHead_def
    by (auto simp: advanceQueue_def loadOrCreateDay_def loadOrCreateFurnaceState_def queue_of_def pending_id_def
        Let_def store_simps d fin split: option.splits)
  ultimately show ?thesis by auto
qed


lemma settlement_witness:
  "let s = push_bonus ([1], [2]) (sample_event, 50, 900) empty_store;
       s' = exec (settleDeliveredUserBonus 5000 [1] [2] 30) s
   in map_option fs_reserve (ft_states (furnace_rows s') ''current'') = Some 920"
proof -
  let ?s = "push_bonus ([1], [2]) (sample_event, 50, 900) empty_store"
  have ok: "queue_ok (furnace_rows empty_store)" "0 < pending_room (furnace_rows empty_store) ([1], [2])"
    "pending_content (furnace_rows empty_store) ([1], [2]) = []"
    by (simp_all add: queue_ok_def pending_room_def pending_content_def queue_of_def)
  have c: "pending_content (furnace_rows ?s) ([1], [2]) = (50, 900) # []"
    using push_contents [OF ok(1,2), of "(sample_event, 50, 900)"] ok(3) by simp
  show ?thesis
    using settlement_corrects_reserve [OF push_queue_ok [OF ok(1,2)] c refl refl, of 5000 30] by (simp add: Let_def)
qed

end
