(* ===== verification/PricingApr.thy ===== *)
theory PricingApr
  imports SubgraphUtils Complex_Main
begin

text \<open>
  The pricing and APR singletons (\<open>src/subgraph/src/utils/tokenPricingSnapshot.ts\<close>,
  \<open>aprSnapshot.ts\<close>): the refresh of \<open>TokenPricingSnapshot\<close> from contract reads, the hourly
  buckets, and the recompute of \<open>AprSnapshot\<close> over the last 24 closed hours. The host's
  \<open>BigDecimal\<close> operations and the contract reads are fields of \<open>chain\<close>. The loops over 24 hours
  and over an exponent are recursions over a list or a number.
\<close>

section \<open>Token pricing (tokenPricingSnapshot.ts)\<close>

definition ONE_CLAIM_WEI :: int where
  "ONE_CLAIM_WEI = 1000000000000000000"

definition AERODROME_TWAP_GRANULARITY :: int where
  "AERODROME_TWAP_GRANULARITY = 1"

definition MAX_ETH_USD_FEED_AGE_SECONDS :: int where
  "MAX_ETH_USD_FEED_AGE_SECONDS = 7200"

definition chainlinkEthUsdFeed :: "chain \<Rightarrow> address option" where
  "chainlinkEthUsdFeed c =
     (if network c = ''base''
      then Some [0x71, 0x04, 0x1d, 0xdd, 0xad, 0x35, 0x95, 0xF9, 0xCE, 0xd3,
                 0xDc, 0xCF, 0xBe, 0x3D, 0x1F, 0x4b, 0x0a, 0x16, 0xBb, 0x70]
      else None)"

text \<open>The three blocks of the refresh, each on the snapshot and the \<open>touched\<close> flag.\<close>

definition refresh_supply ::
  "chain \<Rightarrow> address \<Rightarrow> address \<Rightarrow> token_pricing \<times> bool \<Rightarrow> token_pricing \<times> bool" where
  "refresh_supply c claim ve st = (
     let (p, touched) = st;
         (p, touched) = (case try_totalSupply c claim of
             Some v \<Rightarrow> (p\<lparr>tp_totalSupplyWei := Some v\<rparr>, True) | None \<Rightarrow> (p, touched));
         (p, touched) = (case try_balanceOf c claim ve of
             Some v \<Rightarrow> (p\<lparr>tp_lockedSupplyWei := Some v\<rparr>, True) | None \<Rightarrow> (p, touched))
     in (p, touched))"

definition refresh_twap ::
  "chain \<Rightarrow> store \<Rightarrow> protocol \<Rightarrow> address \<Rightarrow> token_pricing \<times> bool \<Rightarrow> token_pricing \<times> bool" where
  "refresh_twap c s protocol claim st = (
     let (p, touched) = st in
     case pr_entryTokenRegistry protocol of
       None \<Rightarrow> (p, touched)
     | Some registryAddr \<Rightarrow>
         if isZeroAddressBytes registryAddr then (p, touched)
         else (case registries s (toHexString registryAddr) of
             None \<Rightarrow> (p, touched)
           | Some registry \<Rightarrow>
               (case tr_wethClaimPool registry of
                  None \<Rightarrow> (p, touched)
                | Some pool \<Rightarrow>
                    if isZeroAddressBytes pool then (p, touched)
                    else let amountOut =
                           (case try_quote c pool claim ONE_CLAIM_WEI AERODROME_TWAP_GRANULARITY of
                              Some v \<Rightarrow> Some v
                            | None \<Rightarrow> try_quoteOut c pool claim ONE_CLAIM_WEI)
                         in (case amountOut of
                               Some v \<Rightarrow>
                                 if v > 0
                                 then (p\<lparr>tp_claimEthTwap30m := Some (bd_div c (toBigDecimal c v)
                                          (toBigDecimal c ONE_CLAIM_WEI))\<rparr>, True)
                                 else (p\<lparr>tp_claimEthTwap30m := None\<rparr>, True)
                             | None \<Rightarrow> (p\<lparr>tp_claimEthTwap30m := None\<rparr>, True)))))"

definition refresh_eth_usd ::
  "chain \<Rightarrow> int \<Rightarrow> token_pricing \<times> bool \<Rightarrow> token_pricing \<times> bool" where
  "refresh_eth_usd c blockTimestamp st = (
     let (p, touched) = st in
     case chainlinkEthUsdFeed c of
       None \<Rightarrow> (p, touched)
     | Some feed \<Rightarrow>
         (case try_latestRoundData c feed of
            None \<Rightarrow> (p, touched)
          | Some (answer, feedUpdatedAt) \<Rightarrow>
              let age = blockTimestamp - feedUpdatedAt in
              if answer > 0 \<and> feedUpdatedAt > 0 \<and> age \<le> MAX_ETH_USD_FEED_AGE_SECONDS
              then (p\<lparr>tp_ethUsd := Some (bd_div c (toBigDecimal c answer)
                                          (bd_fromString c ''100000000'')),
                      tp_ethUsdUpdatedAt := Some feedUpdatedAt\<rparr>, True)
              else (p\<lparr>tp_ethUsd := None, tp_ethUsdUpdatedAt := None\<rparr>, True)))"

definition refreshTokenPricingSnapshot ::
  "chain \<Rightarrow> address \<Rightarrow> int \<Rightarrow> int \<Rightarrow> unit handler" where
  "refreshTokenPricingSnapshot c veClaimNftAddress blockNumber blockTimestamp = (
     if network c = ''local'' then skip
     else do {
       protocol \<leftarrow> loadOrCreateProtocol c (Some blockNumber);
       let claim = pr_claimToken protocol;
       (if isZeroAddressBytes claim then skip
        else do {
          r \<leftarrow> gets (\<lambda>s. pricings s PROTOCOL_ID);
          st \<leftarrow> gets (\<lambda>s. s);
          let p0 = (case r of None \<Rightarrow> new_pricing | Some p \<Rightarrow> p);
          let (p, touched) = refresh_eth_usd c blockTimestamp
                (refresh_twap c st protocol claim (refresh_supply c claim veClaimNftAddress (p0, False)));
          (if touched
           then modify (savePricing PROTOCOL_ID (p\<lparr>tp_updatedAt := Some blockTimestamp\<rparr>))
           else skip)
        })
     })"

section \<open>APR (aprSnapshot.ts)\<close>

definition HOUR_SECONDS :: int where
  "HOUR_SECONDS = 3600"

definition HOURS_PER_DAY :: nat where
  "HOURS_PER_DAY = 24"

definition ONE_E18_WEI :: int where
  "ONE_E18_WEI = 1000000000000000000"

fun times_ten :: "nat \<Rightarrow> int \<Rightarrow> int" where
  "times_ten 0 mult = mult"
| "times_ten (Suc n) mult = times_ten n (mult * 10)"

text \<open>\<open>d.exp.toI32()\<close> is the exponent itself: the host keeps it within a few thousand.\<close>

definition bigDecimalFloorToBigInt :: "bigdecimal \<Rightarrow> int" where
  "bigDecimalFloorToBigInt d =
     (if bd_exp d \<ge> 0
      then let expI32 = nat (bd_exp d)
           in if expI32 = 0 then bd_digits d else bd_digits d * times_ten expI32 1
      else let negExpI32 = nat (0 - bd_exp d)
           in bigint_div (bd_digits d) (times_ten negExpI32 1))"

definition hourStart :: "int \<Rightarrow> int" where
  "hourStart ts = bigint_div ts HOUR_SECONDS * HOUR_SECONDS"

definition new_bucket :: "int \<Rightarrow> int \<Rightarrow> apr_bucket" where
  "new_bucket hour blockTimestamp =
     \<lparr>ab_hourStart = hour, ab_lpRewardsClaimWei = 0, ab_shareholderEthWei = 0,
      ab_totalStakedLpWei = None, ab_lpTvlUsd = None, ab_totalLockedClaimUsd = None,
      ab_claimUsd = None, ab_ethUsd = None, ab_updatedAt = blockTimestamp\<rparr>"

definition loadOrCreateBucket :: "int \<Rightarrow> int \<Rightarrow> apr_bucket handler" where
  "loadOrCreateBucket hour blockTimestamp = do {
     r \<leftarrow> gets (\<lambda>s. buckets s (int_string hour));
     ret (case r of None \<Rightarrow> new_bucket hour blockTimestamp | Some b \<Rightarrow> b)
   }"

definition resolveCanonicalPool :: "store \<Rightarrow> protocol \<Rightarrow> address option" where
  "resolveCanonicalPool s protocol =
     (case pr_entryTokenRegistry protocol of
        None \<Rightarrow> None
      | Some registryBytes \<Rightarrow>
          if isZeroAddressBytes registryBytes then None
          else (case registries s (toHexString registryBytes) of
              None \<Rightarrow> None
            | Some registry \<Rightarrow>
                (case tr_wethClaimPool registry of
                   None \<Rightarrow> None
                 | Some pool \<Rightarrow> if isZeroAddressBytes pool then None else Some pool)))"

definition pool_reserves :: "chain \<Rightarrow> address \<Rightarrow> address \<Rightarrow> address \<Rightarrow> (int \<times> int) option" where
  "pool_reserves c pool token0 token1 =
     (case try_getReserves c pool of
        Some r \<Rightarrow> Some r
      | None \<Rightarrow>
          (case (try_balanceOf c token0 pool, try_balanceOf c token1 pool) of
             (Some b0, Some b1) \<Rightarrow> Some (b0, b1)
           | _ \<Rightarrow> None))"

definition snapshotLpTvlUsd ::
  "chain \<Rightarrow> address \<Rightarrow> address \<Rightarrow> address \<Rightarrow> bigdecimal \<Rightarrow> bigdecimal \<Rightarrow> (int \<times> bigdecimal) option" where
  "snapshotLpTvlUsd c vault pool claim claimUsd ethUsd = do {
     totalStakedLpWei \<leftarrow> try_totalStaked c vault;
     lpTotalSupplyWei \<leftarrow> try_totalSupply c pool;
     (if lpTotalSupplyWei = 0 then None
      else do {
        token0 \<leftarrow> try_token0 c pool;
        token1 \<leftarrow> try_token1 c pool;
        claimIsToken0 \<leftarrow> (if token0 = claim then Some True
                         else if token1 = claim then Some False else None);
        (reserve0, reserve1) \<leftarrow> pool_reserves c pool token0 token1;
        let reserveClaim = (if claimIsToken0 then reserve0 else reserve1);
        let reserveWeth = (if claimIsToken0 then reserve1 else reserve0);
        let poolValueUsd = bd_plus c (bd_times c (toBigDecimal c reserveClaim) claimUsd)
                                     (bd_times c (toBigDecimal c reserveWeth) ethUsd);
        let lpValueUsdPerWei = bd_div c poolValueUsd (toBigDecimal c lpTotalSupplyWei);
        let lpTvlUsd = bd_times c (toBigDecimal c totalStakedLpWei) lpValueUsdPerWei;
        Some (totalStakedLpWei, lpTvlUsd)
      })
   }"

text \<open>The 24 hours before \<open>asOfHour\<close>, in the loops' order.\<close>

definition windowHours :: "int \<Rightarrow> int list" where
  "windowHours asOfHour = map (\<lambda>i. asOfHour - int i * HOUR_SECONDS) [1..<Suc HOURS_PER_DAY]"

fun averageLoop :: "chain \<Rightarrow> store \<Rightarrow> int list \<Rightarrow> bigdecimal \<times> int \<Rightarrow> bigdecimal \<times> int" where
  "averageLoop c s [] acc = acc"
| "averageLoop c s (bh # bhs) (acc, count) =
     (case buckets s (int_string bh) of
        None \<Rightarrow> averageLoop c s bhs (acc, count)
      | Some bucket \<Rightarrow>
          (case ab_lpTvlUsd bucket of
             None \<Rightarrow> averageLoop c s bhs (acc, count)
           | Some tvl \<Rightarrow> averageLoop c s bhs (bd_plus c acc tvl, count + 1)))"

definition averageLpTvlOverLast24h :: "chain \<Rightarrow> store \<Rightarrow> int \<Rightarrow> bigdecimal option" where
  "averageLpTvlOverLast24h c s asOfHour =
     (let (acc, count) = averageLoop c s (windowHours asOfHour) (bd_zero c, 0)
      in if count = 0 then None
         else Some (bd_div c acc (bd_fromString c (int_string count))))"

datatype flow_kind = FLOW_LP_REWARDS | FLOW_SHAREHOLDER_ETH

fun bucket_flow :: "flow_kind \<Rightarrow> apr_bucket \<Rightarrow> int" where
  "bucket_flow FLOW_LP_REWARDS b = ab_lpRewardsClaimWei b"
| "bucket_flow FLOW_SHAREHOLDER_ETH b = ab_shareholderEthWei b"

fun sumFlowLoop :: "store \<Rightarrow> flow_kind \<Rightarrow> int list \<Rightarrow> int \<Rightarrow> int" where
  "sumFlowLoop s kind [] acc = acc"
| "sumFlowLoop s kind (bh # bhs) acc =
     (case buckets s (int_string bh) of
        None \<Rightarrow> sumFlowLoop s kind bhs acc
      | Some bucket \<Rightarrow> sumFlowLoop s kind bhs (acc + bucket_flow kind bucket))"

definition sumFlowOverLast24h :: "store \<Rightarrow> int \<Rightarrow> flow_kind \<Rightarrow> int" where
  "sumFlowOverLast24h s asOfHour kind = sumFlowLoop s kind (windowHours asOfHour) 0"

definition readClaimUsd :: "chain \<Rightarrow> token_pricing \<Rightarrow> bigdecimal option" where
  "readClaimUsd c snapshot =
     (case (tp_claimEthTwap30m snapshot, tp_ethUsd snapshot) of
        (Some claimEth, Some ethUsd) \<Rightarrow> Some (bd_times c claimEth ethUsd)
      | _ \<Rightarrow> None)"

definition lp_apr ::
  "chain \<Rightarrow> store \<Rightarrow> int \<Rightarrow> bigdecimal option \<Rightarrow> apr_snapshot \<Rightarrow> apr_snapshot" where
  "lp_apr c s asOfHour claimUsd snap =
     (let rewardsClaimWei = sumFlowOverLast24h s asOfHour FLOW_LP_REWARDS;
          avgTvlUsd = averageLpTvlOverLast24h c s asOfHour
      in case (claimUsd, avgTvlUsd) of
           (Some cu, Some tvl) \<Rightarrow>
             if bd_gt c tvl (bd_zero c)
             then let rewardsUsd = bd_times c (bd_div c (toBigDecimal c rewardsClaimWei)
                                                 (toBigDecimal c ONE_E18_WEI)) cu;
                      aprBpsDec = bd_div c (bd_times c (bd_fromString c ''3650000'') rewardsUsd) tvl
                  in snap\<lparr>as_lpAprBps24h := Some (bigDecimalFloorToBigInt aprBpsDec),
                          as_lpAvgTvl24hUsd := Some tvl\<rparr>
             else snap\<lparr>as_lpAprBps24h := None, as_lpAvgTvl24hUsd := None\<rparr>
         | _ \<Rightarrow> snap\<lparr>as_lpAprBps24h := None, as_lpAvgTvl24hUsd := None\<rparr>)"

definition ve_apr ::
  "chain \<Rightarrow> store \<Rightarrow> int \<Rightarrow> token_pricing \<Rightarrow> bigdecimal option \<Rightarrow> apr_snapshot \<Rightarrow> apr_snapshot" where
  "ve_apr c s asOfHour pricing claimUsd snap =
     (case (claimUsd, tp_ethUsd pricing, tp_lockedSupplyWei pricing) of
        (Some cu, Some eu, Some locked) \<Rightarrow>
          if locked > 0
          then let ethWei = sumFlowOverLast24h s asOfHour FLOW_SHAREHOLDER_ETH;
                   ethAllocatedUsd = bd_times c (bd_div c (toBigDecimal c ethWei)
                                                   (toBigDecimal c ONE_E18_WEI)) eu;
                   lockedClaimUsd = bd_times c (bd_div c (toBigDecimal c locked)
                                                  (toBigDecimal c ONE_E18_WEI)) cu
               in if bd_gt c lockedClaimUsd (bd_zero c)
                  then snap\<lparr>as_veAprBps24h := Some (bigDecimalFloorToBigInt
                         (bd_div c (bd_times c (bd_fromString c ''3650000'') ethAllocatedUsd)
                            lockedClaimUsd))\<rparr>
                  else snap\<lparr>as_veAprBps24h := None\<rparr>
          else snap\<lparr>as_veAprBps24h := None\<rparr>
      | _ \<Rightarrow> snap\<lparr>as_veAprBps24h := None\<rparr>)"

definition refreshAprSnapshot :: "chain \<Rightarrow> int \<Rightarrow> int \<Rightarrow> unit handler" where
  "refreshAprSnapshot c asOfHour blockTimestamp = do {
     rp \<leftarrow> gets (\<lambda>s. pricings s PROTOCOL_ID);
     (case rp of
        None \<Rightarrow> skip
      | Some pricing \<Rightarrow> do {
          ra \<leftarrow> gets (\<lambda>s. aprs s PROTOCOL_ID);
          let snap = (case ra of None \<Rightarrow> new_apr | Some a \<Rightarrow> a);
          let claimUsd = readClaimUsd c pricing;
          st \<leftarrow> gets (\<lambda>s. s);
          let snap = lp_apr c st asOfHour claimUsd snap;
          let snap = ve_apr c st asOfHour pricing claimUsd snap;
          modify (saveApr PROTOCOL_ID (snap\<lparr>as_updatedAt := Some blockTimestamp\<rparr>))
        })
   }"

text \<open>The TVL part of an LP bucket, when every input is there.\<close>

definition stamp_lp_tvl ::
  "chain \<Rightarrow> store \<Rightarrow> protocol \<Rightarrow> address \<Rightarrow> apr_bucket \<Rightarrow> apr_bucket" where
  "stamp_lp_tvl c s protocol vault bucket =
     (case (resolveCanonicalPool s protocol, pricings s PROTOCOL_ID) of
        (Some pool, Some pricing) \<Rightarrow>
          (case (readClaimUsd c pricing, tp_ethUsd pricing) of
             (Some claimUsd, Some ethUsd) \<Rightarrow>
               (case snapshotLpTvlUsd c vault pool (pr_claimToken protocol) claimUsd ethUsd of
                  Some (staked, tvl) \<Rightarrow>
                    bucket\<lparr>ab_totalStakedLpWei := Some staked, ab_lpTvlUsd := Some tvl,
                           ab_claimUsd := Some claimUsd, ab_ethUsd := Some ethUsd\<rparr>
                | None \<Rightarrow> bucket)
           | _ \<Rightarrow> bucket)
      | _ \<Rightarrow> bucket)"

definition recordLpEventForApr :: "chain \<Rightarrow> address \<Rightarrow> int \<Rightarrow> int \<Rightarrow> int \<Rightarrow> unit handler" where
  "recordLpEventForApr c vaultAddress blockNumber blockTimestamp rewardsClaimWeiDelta = (
     if network c = ''local'' then skip
     else do {
       protocol \<leftarrow> loadOrCreateProtocol c (Some blockNumber);
       (if isZeroAddressBytes (pr_claimToken protocol) then skip
        else do {
          let hour = hourStart blockTimestamp;
          bucket \<leftarrow> loadOrCreateBucket hour blockTimestamp;
          let bucket = (if rewardsClaimWeiDelta > 0
             then bucket\<lparr>ab_lpRewardsClaimWei := ab_lpRewardsClaimWei bucket + rewardsClaimWeiDelta\<rparr>
             else bucket);
          st \<leftarrow> gets (\<lambda>s. s);
          let bucket = stamp_lp_tvl c st protocol vaultAddress bucket;
          modify (saveBucket (int_string hour) (bucket\<lparr>ab_updatedAt := blockTimestamp\<rparr>));
          refreshAprSnapshot c hour blockTimestamp
        })
     })"

definition stamp_locked_claim :: "chain \<Rightarrow> token_pricing option \<Rightarrow> apr_bucket \<Rightarrow> apr_bucket" where
  "stamp_locked_claim c rp bucket =
     (case rp of
        None \<Rightarrow> bucket
      | Some pricing \<Rightarrow>
          (case (readClaimUsd c pricing, tp_lockedSupplyWei pricing) of
             (Some claimUsd, Some locked) \<Rightarrow>
               (let bucket = bucket\<lparr>ab_totalLockedClaimUsd := Some (bd_times c
                       (bd_div c (toBigDecimal c locked) (toBigDecimal c ONE_E18_WEI)) claimUsd),
                     ab_claimUsd := Some claimUsd\<rparr>
                in case tp_ethUsd pricing of
                     Some ethUsd \<Rightarrow> bucket\<lparr>ab_ethUsd := Some ethUsd\<rparr>
                   | None \<Rightarrow> bucket)
           | _ \<Rightarrow> bucket))"

definition touchVeStockBucket :: "chain \<Rightarrow> int \<Rightarrow> int \<Rightarrow> int \<Rightarrow> unit handler" where
  "touchVeStockBucket c blockNumber blockTimestamp ethWeiDelta = (
     if network c = ''local'' then skip
     else do {
       protocol \<leftarrow> loadOrCreateProtocol c (Some blockNumber);
       (if isZeroAddressBytes (pr_claimToken protocol) then skip
        else do {
          let hour = hourStart blockTimestamp;
          bucket \<leftarrow> loadOrCreateBucket hour blockTimestamp;
          let bucket = (if ethWeiDelta > 0
             then bucket\<lparr>ab_shareholderEthWei := ab_shareholderEthWei bucket + ethWeiDelta\<rparr>
             else bucket);
          rp \<leftarrow> gets (\<lambda>s. pricings s PROTOCOL_ID);
          let bucket = stamp_locked_claim c rp bucket;
          modify (saveBucket (int_string hour) (bucket\<lparr>ab_updatedAt := blockTimestamp\<rparr>));
          refreshAprSnapshot c hour blockTimestamp
        })
     })"

definition recordShareholderEthForApr :: "chain \<Rightarrow> int \<Rightarrow> int \<Rightarrow> int \<Rightarrow> unit handler" where
  "recordShareholderEthForApr c blockNumber blockTimestamp ethWeiDelta =
     touchVeStockBucket c blockNumber blockTimestamp ethWeiDelta"

definition refreshAprAfterLockChange :: "chain \<Rightarrow> int \<Rightarrow> int \<Rightarrow> unit handler" where
  "refreshAprAfterLockChange c blockNumber blockTimestamp =
     touchVeStockBucket c blockNumber blockTimestamp 0"

section \<open>Both refreshes write nothing but the pricing, APR and protocol rows\<close>

definition same_outside_surfaces :: "store \<Rightarrow> store \<Rightarrow> bool" where
  "same_outside_surfaces s t \<longleftrightarrow>
     users t = users s \<and> sessions t = sessions s \<and> reigns t = reigns s
     \<and> takeovers t = takeovers s \<and> recipients t = recipients s \<and> veLocks t = veLocks s
     \<and> listings t = listings s \<and> autoCompounds t = autoCompounds s
     \<and> royaltyKeepers t = royaltyKeepers s \<and> activity t = activity s
     \<and> registries t = registries s \<and> dataSources t = dataSources s \<and> ve_logs t = ve_logs s
     \<and> royalty_logs t = royalty_logs s \<and> mine_logs t = mine_logs s
     \<and> delegation_logs t = delegation_logs s \<and> market t = market s
     \<and> furnace_rows t = furnace_rows s \<and> launch_rows t = launch_rows s"

lemma same_outside_refl [simp]: "same_outside_surfaces s s"
  by (simp add: same_outside_surfaces_def)

lemma same_outside_simps [simp]:
  "same_outside_surfaces s (with_protocol c d t) = same_outside_surfaces s t"
  "same_outside_surfaces s (savePricing i p t) = same_outside_surfaces s t"
  "same_outside_surfaces s (saveApr i a t) = same_outside_surfaces s t"
  "same_outside_surfaces s (saveBucket i b t) = same_outside_surfaces s t"
  "same_outside_surfaces s (saveProtocol i q t) = same_outside_surfaces s t"
  by (simp_all add: same_outside_surfaces_def store_simps)

lemma exec_refreshTokenPricing [simp]:
  "same_outside_surfaces s (exec (refreshTokenPricingSnapshot c v b t) s)"
  by (auto simp: refreshTokenPricingSnapshot_def Let_def split: prod.splits)

lemma exec_refreshApr [simp]:
  "same_outside_surfaces s (exec (refreshAprSnapshot c h t) u) = same_outside_surfaces s u"
  by (auto simp: refreshAprSnapshot_def Let_def split: option.splits)

lemma run_loadOrCreateBucket [simp]:
  "run_state (loadOrCreateBucket h t) s
    = (case buckets s (int_string h) of None \<Rightarrow> new_bucket h t | Some b \<Rightarrow> b, s)"
  by (simp add: loadOrCreateBucket_def)

lemma exec_touchVeStock [simp]:
  "same_outside_surfaces s (exec (touchVeStockBucket c b t d) s)"
  by (auto simp: touchVeStockBucket_def Let_def)

lemma exec_recordLp [simp]:
  "same_outside_surfaces s (exec (recordLpEventForApr c v b t d) s)"
  by (auto simp: recordLpEventForApr_def Let_def)

lemma exec_refreshAprAfterLock [simp]:
  "same_outside_surfaces s (exec (refreshAprAfterLockChange c b t) s)"
  "same_outside_surfaces s (exec (recordShareholderEthForApr c b t d) s)"
  by (simp_all add: refreshAprAfterLockChange_def recordShareholderEthForApr_def)

lemmas refresh_frame [frame, simp] =
  exec_refreshTokenPricing [unfolded same_outside_surfaces_def, simplified]
  exec_refreshAprAfterLock [unfolded same_outside_surfaces_def, simplified]
  exec_recordLp [unfolded same_outside_surfaces_def, simplified]

text \<open>The same facts for a refresh in the middle of a handler, where it is run for its store.\<close>

lemmas refresh_run_frame [frame, simp] = refresh_frame [unfolded exec_def]

section \<open>Properties\<close>

lemma times_ten_eq: "times_ten n m = m * 10 ^ n"
  by (induction n arbitrary: m) simp_all

lemma sdiv_pos: "0 < b \<Longrightarrow> bigint_div a b = (if 0 \<le> a then a div b else - (- a div b))"
  by (auto simp: bigint_div_def signed_divide_int_def sgn_if)

text \<open>
  \<open>bigDecimalFloorToBigInt\<close> is exact: it is the integer part of \<open>digits * 10^exp\<close>, the floor
  when the digits are not negative (as every APR is) and rounded towards zero otherwise.
\<close>

theorem bigDecimalFloor_value:
  "bigDecimalFloorToBigInt d =
     (let x = (of_int (bd_digits d) :: real) * (if 0 \<le> bd_exp d then 10 ^ nat (bd_exp d)
                                                else 1 / 10 ^ nat (- bd_exp d))
      in if 0 \<le> bd_digits d then \<lfloor>x\<rfloor> else \<lceil>x\<rceil>)"
proof (cases "0 \<le> bd_exp d")
  case True
  have int: "(of_int (bd_digits d) :: real) * 10 ^ nat (bd_exp d)
      = of_int (bd_digits d * 10 ^ nat (bd_exp d))" by simp
  have "bigDecimalFloorToBigInt d = bd_digits d * 10 ^ nat (bd_exp d)"
    using True by (auto simp: bigDecimalFloorToBigInt_def times_ten_eq Let_def)
  then show ?thesis using True by (simp only: Let_def if_True int floor_of_int ceiling_of_int if_cancel)
next
  case False
  let ?p = "10 ^ nat (- bd_exp d) :: int"
  have eq: "bigDecimalFloorToBigInt d
      = (if 0 \<le> bd_digits d then bd_digits d div ?p else - (- bd_digits d div ?p))"
    using False by (simp add: bigDecimalFloorToBigInt_def times_ten_eq sdiv_pos Let_def)
  have x: "(of_int (bd_digits d) :: real) * (1 / 10 ^ nat (- bd_exp d)) = of_int (bd_digits d) / of_int ?p"
    by simp
  have fl: "\<lfloor>(of_int (bd_digits d) :: real) / of_int ?p\<rfloor> = bd_digits d div ?p"
    by (rule floor_divide_of_int_eq)
  have ce: "\<lceil>(of_int (bd_digits d) :: real) / of_int ?p\<rceil> = - (- bd_digits d div ?p)"
    by (rule ceiling_divide_eq_div)
  show ?thesis using False by (simp only: eq Let_def x fl ce if_False)
qed

lemma sumFlowLoop_eq:
  "sumFlowLoop s kind hs acc
    = acc + (\<Sum>h\<leftarrow>hs. case buckets s (int_string h) of None \<Rightarrow> 0 | Some b \<Rightarrow> bucket_flow kind b)"
  by (induction hs arbitrary: acc) (simp_all split: option.splits)

text \<open>
  The 24-hour flow is the sum over the 24 closed hours before \<open>asOfHour\<close>, an absent bucket
  counting as zero; the running hour does not count.
\<close>

theorem sumFlow_window:
  "sumFlowOverLast24h s asOfHour kind =
     (\<Sum>i \<in> {1..24}. case buckets s (int_string (asOfHour - 3600 * i)) of
        None \<Rightarrow> 0 | Some b \<Rightarrow> bucket_flow kind b)"
proof -
  let ?f = "\<lambda>i :: int. case buckets s (int_string (asOfHour - 3600 * i)) of
      None \<Rightarrow> 0 | Some b \<Rightarrow> bucket_flow kind b"
  have "sumFlowOverLast24h s asOfHour kind = sum_list (map (\<lambda>n. ?f (int n)) [1..<25])"
    by (simp add: sumFlowOverLast24h_def sumFlowLoop_eq windowHours_def HOUR_SECONDS_def
        HOURS_PER_DAY_def comp_def mult.commute)
  also have "\<dots> = (\<Sum>n \<in> {1..<25}. ?f (int n))"
    by (simp add: sum_list_distinct_conv_sum_set)
  also have "\<dots> = (\<Sum>i \<in> int ` {1..<25}. ?f i)" by (subst sum.reindex) (simp_all add: comp_def)
  also have "int ` {1..<25} = {1..24}"
    by (simp only: image_int_atLeastLessThan) auto
  finally show ?thesis .
qed

lemma refresh_supply_frame [simp]:
  "tp_ethUsd (fst (refresh_supply c claim ve pt)) = tp_ethUsd (fst pt)"
  "tp_ethUsdUpdatedAt (fst (refresh_supply c claim ve pt)) = tp_ethUsdUpdatedAt (fst pt)"
  by (auto simp: refresh_supply_def Let_def split: prod.splits option.splits)

lemma refresh_twap_frame [simp]:
  "tp_ethUsd (fst (refresh_twap c s p claim pt)) = tp_ethUsd (fst pt)"
  "tp_ethUsdUpdatedAt (fst (refresh_twap c s p claim pt)) = tp_ethUsdUpdatedAt (fst pt)"
  by (auto simp: refresh_twap_def Let_def split: prod.splits option.splits)

text \<open>The price of a row is absent together with its time, or was at most two hours old when read.\<close>

definition eth_usd_fresh :: "int \<Rightarrow> token_pricing \<Rightarrow> bool" where
  "eth_usd_fresh now p \<longleftrightarrow>
     (case (tp_ethUsd p, tp_ethUsdUpdatedAt p) of
        (None, None) \<Rightarrow> True
      | (Some _, Some t) \<Rightarrow> 0 < t \<and> now - t \<le> MAX_ETH_USD_FEED_AGE_SECONDS
      | _ \<Rightarrow> False)"

lemma eth_usd_fresh_updatedAt [simp]: "eth_usd_fresh now (p\<lparr>tp_updatedAt := x\<rparr>) = eth_usd_fresh now p"
  by (auto simp: eth_usd_fresh_def split: option.splits)

text \<open>
  The ETH/USD gate: on a chain with a feed that answers, a refresh that writes the pricing row
  leaves either a positive answer at most two hours old together with its time, or no price at all;
  a stale or non-positive answer never stays behind.
\<close>

theorem refresh_eth_usd_gate:
  assumes net: "network c = ''base''" and claim: "pr_claimToken (protocol_of c (Some b) s) \<noteq> ZERO_ADDRESS"
    and feed: "chainlinkEthUsdFeed c = Some f" and round: "try_latestRoundData c f = Some (answer, fedAt)"
    and s': "s' = exec (refreshTokenPricingSnapshot c ve b now) s"
  shows "\<exists>p. pricings s' PROTOCOL_ID = Some p \<and> eth_usd_fresh now p
    \<and> (tp_ethUsd p \<noteq> None \<longleftrightarrow> 0 < answer \<and> 0 < fedAt \<and> now - fedAt \<le> MAX_ETH_USD_FEED_AGE_SECONDS)"
proof -
  let ?q = "protocol_of c (Some b) s" and ?st = "with_protocol c (Some b) s"
  define p0 where "p0 = (case pricings ?st PROTOCOL_ID of None \<Rightarrow> new_pricing | Some p \<Rightarrow> p)"
  define pt where "pt = refresh_twap c ?st ?q (pr_claimToken ?q)
                          (refresh_supply c (pr_claimToken ?q) ve (p0, False))"
  obtain p touched where r: "refresh_eth_usd c now pt = (p, touched)" by fastforce
  then have t: touched and fresh: "eth_usd_fresh now p"
    and iff: "tp_ethUsd p \<noteq> None \<longleftrightarrow> 0 < answer \<and> 0 < fedAt \<and> now - fedAt \<le> MAX_ETH_USD_FEED_AGE_SECONDS"
    by (auto simp: refresh_eth_usd_def feed round eth_usd_fresh_def Let_def split: prod.splits if_splits)
  have "pricings s' PROTOCOL_ID = Some (p\<lparr>tp_updatedAt := Some now\<rparr>)"
    using net claim t r
    by (simp add: s' refreshTokenPricingSnapshot_def Let_def p0_def [symmetric] pt_def [symmetric] savePricing_def)
  with fresh iff show ?thesis by simp
qed

text \<open>A mainnet whose feed answers with a price of its time \<open>fedAt\<close>, and a store with the CLAIM address.\<close>

definition base_chain :: "int \<Rightarrow> int \<Rightarrow> chain" where
  "base_chain answer fedAt =
     local_chain\<lparr>network := ''base'', try_latestRoundData := (\<lambda>_. Some (answer, fedAt)),
       try_balanceOf := (\<lambda>_ _. Some (5 * 10 ^ 18))\<rparr>"

definition claim_store :: store where
  "claim_store = saveProtocol PROTOCOL_ID ((new_protocol local_chain None)\<lparr>pr_claimToken := [7]\<rparr>) empty_store"

lemma claim_store_simps [simp]:
  "protocols claim_store PROTOCOL_ID = Some ((new_protocol local_chain None)\<lparr>pr_claimToken := [7]\<rparr>)"
  "buckets claim_store = Map.empty" "pricings claim_store = Map.empty"
  by (simp_all add: claim_store_def saveProtocol_def)

lemma claim_store_protocol: "pr_claimToken (protocol_of c b claim_store) = [7]"
  by (simp add: protocol_of_def backfillEntryTokenRegistry_def)

lemma seven_neq_zero: "[7] \<noteq> ZERO_ADDRESS"
  by (simp add: short_address_neq)

lemma refresh_eth_usd_gate_witness:
  "(\<exists>p. pricings (exec (refreshTokenPricingSnapshot (base_chain 300000000000 9000) [9] 1 10000) claim_store)
           PROTOCOL_ID = Some p \<and> tp_ethUsd p \<noteq> None)
   \<and> (\<exists>p. pricings (exec (refreshTokenPricingSnapshot (base_chain 300000000000 1000) [9] 1 10000) claim_store)
           PROTOCOL_ID = Some p \<and> tp_ethUsd p = None)"
proof -
  have feed: "\<exists>f. chainlinkEthUsdFeed (base_chain a t) = Some f" for a t
    by (simp add: chainlinkEthUsdFeed_def base_chain_def)
  have gate: "\<exists>p. pricings (exec (refreshTokenPricingSnapshot (base_chain 300000000000 t) [9] 1 10000)
        claim_store) PROTOCOL_ID = Some p
      \<and> (tp_ethUsd p \<noteq> None \<longleftrightarrow> 0 < t \<and> 10000 - t \<le> MAX_ETH_USD_FEED_AGE_SECONDS)" for t
  proof -
    obtain f where "chainlinkEthUsdFeed (base_chain 300000000000 t) = Some f" using feed by blast
    then show ?thesis
      using refresh_eth_usd_gate [of "base_chain 300000000000 t" 1 claim_store f 300000000000 t _ "[9]" 10000,
          OF _ _ _ _ refl] seven_neq_zero
      by (auto simp: base_chain_def claim_store_protocol)
  qed
  show ?thesis
    using gate [of 9000] gate [of 1000] by (auto simp: MAX_ETH_USD_FEED_AGE_SECONDS_def)
qed

lemma buckets_refreshApr [simp]:
  "buckets (exec (refreshAprSnapshot c h t) s) = buckets s"
  "buckets (snd (run_state (refreshAprSnapshot c h t) s)) = buckets s"
  by (auto simp: refreshAprSnapshot_def Let_def exec_def store_simps split: option.splits)

lemma stamp_locked_claim_flows [simp]:
  "ab_shareholderEthWei (stamp_locked_claim c rp b) = ab_shareholderEthWei b"
  "ab_lpRewardsClaimWei (stamp_locked_claim c rp b) = ab_lpRewardsClaimWei b"
  by (auto simp: stamp_locked_claim_def Let_def split: option.splits)

lemma stamp_lp_tvl_flows [simp]:
  "ab_shareholderEthWei (stamp_lp_tvl c s p v b) = ab_shareholderEthWei b"
  "ab_lpRewardsClaimWei (stamp_lp_tvl c s p v b) = ab_lpRewardsClaimWei b"
  by (auto simp: stamp_lp_tvl_def split: option.splits)

definition flow_in :: "store \<Rightarrow> flow_kind \<Rightarrow> int \<Rightarrow> int" where
  "flow_in s kind h = (case buckets s (int_string h) of None \<Rightarrow> 0 | Some b \<Rightarrow> bucket_flow kind b)"

text \<open>
  Flow accounting: off a local network and once the CLAIM address is known, recording a
  shareholder allocation adds its positive part to the bucket of the event's hour and to no other
  hour, and leaves every LP reward flow as it was.
\<close>

theorem shareholder_flow_recorded:
  assumes net: "network c \<noteq> ''local''" and claim: "pr_claimToken (protocol_of c (Some b) s) \<noteq> ZERO_ADDRESS"
    and s': "s' = exec (recordShareholderEthForApr c b now d) s"
  shows "flow_in s' FLOW_SHAREHOLDER_ETH h
      = flow_in s FLOW_SHAREHOLDER_ETH h + (if h = hourStart now then max d 0 else 0)
    \<and> flow_in s' FLOW_LP_REWARDS h = flow_in s FLOW_LP_REWARDS h"
  using net claim
  by (auto simp: s' recordShareholderEthForApr_def touchVeStockBucket_def Let_def flow_in_def
      saveBucket_def new_bucket_def int_string_inj max_def split: option.splits)

lemma shareholder_flow_recorded_witness:
  "let s' = exec (recordShareholderEthForApr (base_chain 1 1) 1 7300 40) claim_store
   in flow_in s' FLOW_SHAREHOLDER_ETH 7200 = 40 \<and> flow_in s' FLOW_SHAREHOLDER_ETH 3600 = 0"
proof -
  have net: "network (base_chain 1 1) \<noteq> ''local''" by (simp add: base_chain_def)
  have hour: "hourStart 7300 = 7200" by (simp add: hourStart_def HOUR_SECONDS_def host_simps)
  show ?thesis
    using shareholder_flow_recorded [OF net _ refl, of 1 claim_store 7300 40 7200]
      shareholder_flow_recorded [OF net _ refl, of 1 claim_store 7300 40 3600] seven_neq_zero
    by (simp add: claim_store_protocol hour flow_in_def)
qed

end
