(* ===== verification/Royalties.thy ===== *)
theory Royalties
  imports PricingApr
begin

text \<open>
  The ShareholderRoyalties mapping (\<open>src/subgraph/src/mappings/shareholderRoyalties.ts\<close>): the
  placeholder reign that a mid-history event needs, the allocation, flush and claim handlers with
  their user totals and activity, and the current-state mirror of the auto-compound configuration
  with its pause flag.
\<close>

section \<open>Placeholder reigns\<close>

definition placeholder_id :: "string \<Rightarrow> string" where
  "placeholder_id i = ''missing-'' @ i"

definition placeholder_takeover :: "string \<Rightarrow> string \<Rightarrow> int \<Rightarrow> int \<Rightarrow> bytes \<Rightarrow> takeover" where
  "placeholder_takeover i newKing ts blockNumber txHash =
     \<lparr>tk_sortKey = blockSortKey blockNumber (placeholder_id i), tk_reign = i,
      tk_previousKing = None, tk_newKing = newKing, tk_pricePaidWei = 0, tk_referencePriceWei = 0,
      tk_timestamp = ts, tk_blockNumber = blockNumber, tk_txHash = txHash\<rparr>"

text \<open>\<open>new Reign(id)\<close> with its required fields; every other field is null.\<close>

definition new_reign :: "int \<Rightarrow> string \<Rightarrow> int \<Rightarrow> string \<Rightarrow> reign" where
  "new_reign reignId king startTime startedBy =
     \<lparr>rg_reignId = reignId, rg_king = king, rg_startTime = startTime, rg_endTime = None,
      rg_totalClaimMinedWei = None, rg_totalEthToKingWei = None, rg_liquidClaimPaidWei = None,
      rg_liquidBpsApplied = None, rg_startedByTakeover = startedBy, rg_finalizedBy = None,
      rg_previousReign = None\<rparr>"

text \<open>The best-effort link to the previous reign: sequential ids, none before the first.\<close>

definition link_previous :: "int \<Rightarrow> reign \<Rightarrow> reign" where
  "link_previous reignId r =
     (if reignId > 1 then r\<lparr>rg_previousReign := Some (int_string (reignId - 1))\<rparr> else r)"

definition ensureReignForForeignKey :: "int \<Rightarrow> int \<Rightarrow> int \<Rightarrow> bytes \<Rightarrow> string handler" where
  "ensureReignForForeignKey reignId ts blockNumber txHash = do {
     let i = int_string reignId;
     r \<leftarrow> gets (\<lambda>s. reigns s i);
     (if r \<noteq> None then ret i
      else do {
        zeroUser \<leftarrow> loadOrCreateUser ZERO_ADDRESS;
        t \<leftarrow> gets (\<lambda>s. takeovers s (placeholder_id i));
        (if t = None
         then modify (saveTakeover (placeholder_id i)
                (placeholder_takeover i (user_id ZERO_ADDRESS) ts blockNumber txHash))
         else skip);
        let r = link_previous reignId
                  (new_reign reignId (user_id ZERO_ADDRESS) ts (placeholder_id i));
        modify (saveReign i r);
        ret i
      })
   }"

section \<open>Handlers\<close>

definition handleShareholderWiringSet ::
  "chain \<Rightarrow> eth_event \<Rightarrow> address \<Rightarrow> address \<Rightarrow> address \<Rightarrow> unit handler" where
  "handleShareholderWiringSet c ev p_mineCore p_mineMarket p_furnace = do {
     protocol \<leftarrow> loadOrCreateProtocol c (Some (ev_blockNumber ev));
     modify (saveProtocol PROTOCOL_ID
       (protocol\<lparr>pr_shareholderRoyalties := ev_address ev, pr_mineCore := p_mineCore,
                 pr_marketRouter := p_mineMarket, pr_furnace := p_furnace\<rparr>))
   }"

text \<open>The opening of the other handlers: the protocol row, with the emitter seeded once.\<close>

definition seedShareholderRoyalties :: "chain \<Rightarrow> eth_event \<Rightarrow> protocol handler" where
  "seedShareholderRoyalties c ev = do {
     protocol \<leftarrow> loadOrCreateProtocol c (Some (ev_blockNumber ev));
     let protocol = protocol\<lparr>pr_shareholderRoyalties :=
                       setBytesIfZero (pr_shareholderRoyalties protocol) (ev_address ev)\<rparr>;
     modify (saveProtocol PROTOCOL_ID protocol);
     ret protocol
   }"

definition handleShareholderTakeoverAllocation ::
  "chain \<Rightarrow> eth_event \<Rightarrow> int \<Rightarrow> int \<Rightarrow> unit handler" where
  "handleShareholderTakeoverAllocation c ev p_reignId p_amountEth = do {
     protocol \<leftarrow> seedShareholderRoyalties c ev;
     let i = eventId ev;
     let effectiveReignId = (if p_reignId = 0 then 1 else p_reignId);
     reignIdStr \<leftarrow> ensureReignForForeignKey effectiveReignId (ev_timestamp ev)
                     (ev_blockNumber ev) (ev_txHash ev);
     modify (saveRoyaltyLog i
       (ShareholderAllocation reignIdStr p_amountEth (ev_timestamp ev) (ev_txHash ev)));
     let veNftBytes = pr_veClaimNft protocol;
     (if toHexString veNftBytes \<noteq> toHexString ZERO_ADDRESS
      then refreshTokenPricingSnapshot c veNftBytes (ev_blockNumber ev) (ev_timestamp ev)
      else skip);
     recordShareholderEthForApr c (ev_blockNumber ev) (ev_timestamp ev) p_amountEth
   }"

definition handleShareholderFlush :: "chain \<Rightarrow> eth_event \<Rightarrow> int \<Rightarrow> int \<Rightarrow> unit handler" where
  "handleShareholderFlush c ev p_amountEth p_deltaEthPerVe = do {
     protocol \<leftarrow> seedShareholderRoyalties c ev;
     modify (saveRoyaltyLog (eventId ev)
       (ShareholderFlushEvent p_amountEth p_deltaEthPerVe (ev_timestamp ev) (ev_txHash ev)))
   }"

definition handleShareholderClaim ::
  "chain \<Rightarrow> eth_event \<Rightarrow> address \<Rightarrow> int \<Rightarrow> int \<Rightarrow> unit handler" where
  "handleShareholderClaim c ev p_user p_mode p_amountEth = do {
     protocol \<leftarrow> seedShareholderRoyalties c ev;
     let i = eventId ev;
     user \<leftarrow> loadOrCreateUser p_user;
     modify (saveRoyaltyLog i
       (ShareholderClaimEvent (timestampSortKey (ev_timestamp ev) i) (user_id p_user) p_mode
          p_amountEth (ev_timestamp ev) (ev_txHash ev)));
     modify (saveUser (user_id p_user)
       (user\<lparr>us_shareholderEthClaimedWei := us_shareholderEthClaimedWei user + p_amountEth\<rparr>));
     let a = new_activity (if p_mode = 0 then ''SHAREHOLDER_CLAIM'' else ''SHAREHOLDER_AUTO_COMPOUND'')
               (ev_timestamp ev) (ev_txHash ev);
     saveActivityItem i (a\<lparr>ai_user := Some (user_id p_user), ai_amountEthWei := Some p_amountEth\<rparr>)
   }"

definition configured_row ::
  "auto_compound_config \<Rightarrow> bool \<Rightarrow> int \<Rightarrow> int \<Rightarrow> int \<Rightarrow> int \<Rightarrow> int \<Rightarrow> int \<Rightarrow> auto_compound_config" where
  "configured_row cfg enabled tokenId duration cadence minEth slippage now =
     cfg\<lparr>ac_enabled := enabled, ac_paused := False, ac_tokenId := tokenId,
         ac_durationSeconds := duration, ac_minCadenceSeconds := cadence,
         ac_minEthToCompoundWei := minEth, ac_maxSlippageBps := slippage, ac_updatedAt := now\<rparr>"

text \<open>
  \<open>new ShareholderAutoCompoundConfig(id)\<close>: numbers and flags unset; each handler writes every field
  that it does not find here before the save.
\<close>

definition new_config :: "string \<Rightarrow> auto_compound_config" where
  "new_config i =
     \<lparr>ac_user = i, ac_enabled = False, ac_paused = False, ac_tokenId = 0, ac_durationSeconds = 0,
      ac_minCadenceSeconds = 0, ac_minEthToCompoundWei = 0, ac_maxSlippageBps = 0,
      ac_pausedReasonCode = 0, ac_updatedAt = 0\<rparr>"

definition handleShareholderAutoCompoundConfigured ::
  "chain \<Rightarrow> eth_event \<Rightarrow> address \<Rightarrow> bool \<Rightarrow> int \<Rightarrow> int \<Rightarrow> int \<Rightarrow> int \<Rightarrow> int \<Rightarrow> unit handler" where
  "handleShareholderAutoCompoundConfigured c ev p_user p_enabled p_tokenId p_duration p_cadence
       p_minEth p_slippage = do {
     protocol \<leftarrow> seedShareholderRoyalties c ev;
     user \<leftarrow> loadOrCreateUser p_user;
     let uid = user_id p_user;
     modify (saveRoyaltyLog (eventId ev)
       (ShareholderAutoCompoundConfiguredEvent uid p_enabled p_tokenId p_duration p_cadence p_minEth
          p_slippage (ev_timestamp ev) (ev_txHash ev)));
     r \<leftarrow> gets (\<lambda>s. autoCompounds s uid);
     let cfg = (case r of None \<Rightarrow> (new_config uid)\<lparr>ac_pausedReasonCode := 0\<rparr> | Some k \<Rightarrow> k);
     modify (saveAutoCompound uid
       (configured_row cfg p_enabled p_tokenId p_duration p_cadence p_minEth p_slippage
          (ev_timestamp ev)))
   }"

definition handleShareholderAutoCompoundPaused ::
  "chain \<Rightarrow> eth_event \<Rightarrow> address \<Rightarrow> int \<Rightarrow> int \<Rightarrow> unit handler" where
  "handleShareholderAutoCompoundPaused c ev p_user p_tokenId p_reasonCode = do {
     protocol \<leftarrow> seedShareholderRoyalties c ev;
     user \<leftarrow> loadOrCreateUser p_user;
     let uid = user_id p_user;
     modify (saveRoyaltyLog (eventId ev)
       (ShareholderAutoCompoundPausedEvent uid p_tokenId p_reasonCode (ev_timestamp ev) (ev_txHash ev)));
     r \<leftarrow> gets (\<lambda>s. autoCompounds s uid);
     let cfg = (case r of
         None \<Rightarrow> (new_config uid)\<lparr>ac_enabled := False, ac_tokenId := p_tokenId,
                   ac_durationSeconds := 0, ac_minCadenceSeconds := 0,
                   ac_minEthToCompoundWei := 0, ac_maxSlippageBps := 0\<rparr>
       | Some k \<Rightarrow> k);
     modify (saveAutoCompound uid
       (cfg\<lparr>ac_paused := True, ac_pausedReasonCode := p_reasonCode, ac_updatedAt := ev_timestamp ev\<rparr>))
   }"

definition handleShareholderAutoCompoundExecuted ::
  "chain \<Rightarrow> eth_event \<Rightarrow> address \<Rightarrow> address \<Rightarrow> int \<Rightarrow> int \<Rightarrow> int \<Rightarrow> unit handler" where
  "handleShareholderAutoCompoundExecuted c ev p_user p_executor p_amountEth p_tokenId p_duration = do {
     protocol \<leftarrow> seedShareholderRoyalties c ev;
     user \<leftarrow> loadOrCreateUser p_user;
     executor \<leftarrow> loadOrCreateUser p_executor;
     modify (saveRoyaltyLog (eventId ev)
       (ShareholderAutoCompoundExecutedEvent (user_id p_user) (user_id p_executor) p_amountEth
          p_tokenId p_duration (ev_timestamp ev) (ev_txHash ev)))
   }"

definition handleShareholderAutoCompoundKeeperSet ::
  "chain \<Rightarrow> eth_event \<Rightarrow> address \<Rightarrow> bool \<Rightarrow> unit handler" where
  "handleShareholderAutoCompoundKeeperSet c ev p_keeper p_allowed = do {
     protocol \<leftarrow> seedShareholderRoyalties c ev;
     keeper \<leftarrow> loadOrCreateUser p_keeper;
     let kid = user_id p_keeper;
     r \<leftarrow> gets (\<lambda>s. royaltyKeepers s kid);
     let k = (case r of
         None \<Rightarrow> \<lparr>kr_keeper = kid, kr_allowed = False, kr_updatedAt = ev_timestamp ev\<rparr>
       | Some k \<Rightarrow> k);
     modify (saveRoyaltyKeeper kid (k\<lparr>kr_allowed := p_allowed, kr_updatedAt := ev_timestamp ev\<rparr>));
     modify (saveRoyaltyLog (eventId ev)
       (ShareholderAutoCompoundKeeperSetEvent kid p_allowed (ev_timestamp ev) (ev_txHash ev)))
   }"

definition handleMinAutoCompoundEthSet :: "chain \<Rightarrow> eth_event \<Rightarrow> int \<Rightarrow> int \<Rightarrow> unit handler" where
  "handleMinAutoCompoundEthSet c ev p_oldFloor p_newFloor = do {
     protocol \<leftarrow> seedShareholderRoyalties c ev;
     modify (saveRoyaltyLog (eventId ev)
       (ShareholderMinAutoCompoundEthSetEvent p_oldFloor p_newFloor (ev_timestamp ev) (ev_txHash ev)))
   }"

definition sr_handleDelegationSessionUsed ::
  "eth_event \<Rightarrow> address \<Rightarrow> address \<Rightarrow> int \<Rightarrow> int \<Rightarrow> int \<Rightarrow> int \<Rightarrow> unit handler" where
  "sr_handleDelegationSessionUsed ev p_user p_delegate p_actionType p_permsUsed p_refId p_timestamp =
     recordDelegationSessionUsed ev p_user p_delegate p_actionType p_permsUsed p_refId p_timestamp"

section \<open>What the handlers write\<close>

definition sr_seeded :: "chain \<Rightarrow> eth_event \<Rightarrow> store \<Rightarrow> store" where
  "sr_seeded c ev s = snd (run_state (seedShareholderRoyalties c ev) s)"

definition sr_protocol :: "chain \<Rightarrow> eth_event \<Rightarrow> store \<Rightarrow> protocol" where
  "sr_protocol c ev s = fst (run_state (seedShareholderRoyalties c ev) s)"

lemma run_seedShareholderRoyalties [simp]:
  "run_state (seedShareholderRoyalties c ev) s = (sr_protocol c ev s, sr_seeded c ev s)"
  by (simp add: sr_seeded_def sr_protocol_def)

lemma sr_seeded_frame [frame, simp]:
  "users (sr_seeded c ev s) = users s" "reigns (sr_seeded c ev s) = reigns s"
  "takeovers (sr_seeded c ev s) = takeovers s" "veLocks (sr_seeded c ev s) = veLocks s"
  "autoCompounds (sr_seeded c ev s) = autoCompounds s"
  "royaltyKeepers (sr_seeded c ev s) = royaltyKeepers s" "activity (sr_seeded c ev s) = activity s"
  "buckets (sr_seeded c ev s) = buckets s"
  by (simp_all add: sr_seeded_def seedShareholderRoyalties_def Let_def store_simps)

lemma user_of_sr_seeded [simp]: "user_of a (sr_seeded c ev s) = user_of a s"
  by (rule user_of_cong) simp

lemma run_ensureReign [simp]:
  "fst (run_state (ensureReignForForeignKey n ts b h) s) = int_string n"
  "reigns (snd (run_state (ensureReignForForeignKey n ts b h) s))
     = (case reigns s (int_string n) of
          Some r \<Rightarrow> reigns s
        | None \<Rightarrow> (reigns s)(int_string n \<mapsto> link_previous n
            (new_reign n (user_id ZERO_ADDRESS) ts (placeholder_id (int_string n)))))"
  "takeovers (snd (run_state (ensureReignForForeignKey n ts b h) s))
     = (if reigns s (int_string n) = None \<and> takeovers s (placeholder_id (int_string n)) = None
        then (takeovers s)(placeholder_id (int_string n) \<mapsto>
          placeholder_takeover (int_string n) (user_id ZERO_ADDRESS) ts b h)
        else takeovers s)"
  by (auto simp: ensureReignForForeignKey_def Let_def store_simps split: option.splits)

lemma claim_writes:
  assumes "s' = exec (handleShareholderClaim c ev a m x) s"
  shows "users s' = (users s)(user_id a \<mapsto> (user_of a s)
           \<lparr>us_shareholderEthClaimedWei := us_shareholderEthClaimedWei (user_of a s) + x\<rparr>)"
    and "activity s' (eventId ev) \<noteq> None"
  by (simp_all add: assms handleShareholderClaim_def saveActivityItem_def Let_def store_simps)

section \<open>Totals and the pause flag\<close>

definition claimed_total :: "store \<Rightarrow> address \<Rightarrow> int" where
  "claimed_total s a = (case users s (user_id a) of None \<Rightarrow> 0 | Some u \<Rightarrow> us_shareholderEthClaimedWei u)"

lemma user_of_claimed [simp]: "us_shareholderEthClaimedWei (user_of a s) = claimed_total s a"
  by (auto simp: claimed_total_def user_of_def new_user_def backfill_user_def split: option.splits)

text \<open>A run of claim events: every event with its user, mode and amount.\<close>

fun run_claims :: "chain \<Rightarrow> (eth_event \<times> address \<times> int \<times> int) list \<Rightarrow> store \<Rightarrow> store" where
  "run_claims c [] s = s"
| "run_claims c ((ev, a, m, x) # es) s = run_claims c es (exec (handleShareholderClaim c ev a m x) s)"

text \<open>
  After any sequence of claims, in either mode, a user's \<open>shareholderEthClaimedWei\<close> has grown
  by the sum of the amounts of that user's claims and by nothing else.
\<close>

theorem claims_accumulate:
  "claimed_total (run_claims c es s) a
    = claimed_total s a + (\<Sum>(ev, b, m, x)\<leftarrow>es. if b = a then x else 0)"
proof (induction es arbitrary: s)
  case Nil
  then show ?case by simp
next
  case (Cons e es)
  obtain ev b m x where e: "e = (ev, b, m, x)" by (cases e) auto
  have "claimed_total (exec (handleShareholderClaim c ev b m x) s) a
      = claimed_total s a + (if b = a then x else 0)"
    using claim_writes(1) [OF refl, of c ev b m x s] by (auto simp: claimed_total_def [of _ a])
  then show ?case by (simp add: e Cons.IH)
qed

text \<open>The events that touch the configuration of one user, and what the row says after a run.\<close>

datatype compound_event =
  Configured eth_event address bool int int int int int
| Paused eth_event address int int

fun on_compound :: "chain \<Rightarrow> compound_event \<Rightarrow> unit handler" where
  "on_compound c (Configured ev a en t d k m sl) =
     handleShareholderAutoCompoundConfigured c ev a en t d k m sl"
| "on_compound c (Paused ev a t r) = handleShareholderAutoCompoundPaused c ev a t r"

fun compound_user :: "compound_event \<Rightarrow> address" where
  "compound_user (Configured _ a _ _ _ _ _ _) = a"
| "compound_user (Paused _ a _ _) = a"

fun compound_pauses :: "compound_event \<Rightarrow> bool" where
  "compound_pauses (Configured _ _ _ _ _ _ _ _) = False"
| "compound_pauses (Paused _ _ _ _) = True"

fun run_compounds :: "chain \<Rightarrow> compound_event list \<Rightarrow> store \<Rightarrow> store" where
  "run_compounds c [] s = s"
| "run_compounds c (e # es) s = run_compounds c es (exec (on_compound c e) s)"

definition paused_of :: "store \<Rightarrow> address \<Rightarrow> bool option" where
  "paused_of s a = map_option ac_paused (autoCompounds s (user_id a))"

lemma compound_step:
  "paused_of (exec (on_compound c e) s) a
    = (if compound_user e = a then Some (compound_pauses e) else paused_of s a)"
  by (cases e) (auto simp: paused_of_def handleShareholderAutoCompoundConfigured_def
      handleShareholderAutoCompoundPaused_def configured_row_def Let_def store_simps)

lemma run_compounds_append: "run_compounds c (es @ fs) s = run_compounds c fs (run_compounds c es s)"
  by (induction es arbitrary: s) simp_all

text \<open>
  The configuration mirror follows the last word: after any run of configure and pause events,
  a user with an event in the run has a row whose \<open>paused\<close> flag is set exactly when the user's last
  event was a pause (so reconfiguring always clears it), and a user without one keeps its flag.
\<close>

theorem paused_is_last_event:
  "paused_of (run_compounds c es s) a
    = (case rev (filter (\<lambda>e. compound_user e = a) es) of
         [] \<Rightarrow> paused_of s a | e # _ \<Rightarrow> Some (compound_pauses e))"
  by (induction es rule: rev_induct) (auto simp: run_compounds_append compound_step split: list.splits)

end
