(* ===== verification/MineCoreMap.thy ===== *)
theory MineCoreMap
  imports Royalties
begin

text \<open>
  The MineCore mapping (\<open>src/subgraph/src/mappings/minecore.ts\<close>) and the snapshot of an entry token
  registry (\<open>src/subgraph/src/utils/entryTokenRegistryInit.ts\<close>): takeovers and reigns, the
  per-user takeover totals, the recipients state of a reign, and the activity feed. The reign and
  takeover rows refer to each other by id; the last sections give the step relation of the handlers
  that write them and the referential invariant of its reachable stores.
\<close>

section \<open>Entry token registries (entryTokenRegistryInit.ts)\<close>

definition registryEntityId :: "address \<Rightarrow> string" where
  "registryEntityId registry = toHexString registry"

definition new_registry :: "address \<Rightarrow> token_registry" where
  "new_registry registry =
     \<lparr>tr_address = registry, tr_guardian = None, tr_router = None, tr_factory = None,
      tr_wrappedNative = None, tr_claimToken = None, tr_wethClaimPool = None,
      tr_wethClaimPoolStable = None, tr_updatedAt = None\<rparr>"

definition snapshotEntryTokenRegistry :: "chain \<Rightarrow> address \<Rightarrow> int \<Rightarrow> int \<Rightarrow> unit handler" where
  "snapshotEntryTokenRegistry c registry ts blockNumber = (
     if network c = ''local'' then skip
     else do {
       let i = registryEntityId registry;
       row \<leftarrow> gets (\<lambda>s. registries s i);
       let r = (case row of None \<Rightarrow> new_registry registry | Some r \<Rightarrow> r);
       let r = (case try_guardian c registry of Some g \<Rightarrow> r\<lparr>tr_guardian := Some g\<rparr> | None \<Rightarrow> r);
       r \<leftarrow> (case try_getRouterConfig c registry of
           Some (router, factory, wrappedNative, claimToken) \<Rightarrow> do {
             let r = r\<lparr>tr_router := Some router, tr_factory := Some factory,
                       tr_wrappedNative := Some wrappedNative, tr_claimToken := Some claimToken\<rparr>;
             protocol \<leftarrow> loadOrCreateProtocol c (Some blockNumber);
             (if isZeroAddressBytes (pr_claimToken protocol)
              then modify (saveProtocol PROTOCOL_ID (protocol\<lparr>pr_claimToken := claimToken\<rparr>))
              else skip);
             ret r
           }
         | None \<Rightarrow> ret r);
       let r = (case try_getWethClaimHop c registry of
           Some (hopStable, hopPool) \<Rightarrow>
             r\<lparr>tr_wethClaimPoolStable := Some hopStable, tr_wethClaimPool := Some hopPool\<rparr>
         | None \<Rightarrow> r);
       modify (saveRegistry i (r\<lparr>tr_updatedAt := Some ts\<rparr>))
     })"

section \<open>Helpers\<close>

definition TAKEOVER_SIG :: bytes where
  "TAKEOVER_SIG =
     [0x9e, 0x8e, 0xa9, 0xeb, 0xe1, 0xef, 0xf3, 0x17, 0x1e, 0x76, 0x90, 0x5f, 0x1d, 0xed, 0x95, 0xf8,
      0x60, 0x73, 0xdd, 0xe0, 0xbf, 0x18, 0x1d, 0x85, 0x61, 0x2d, 0xea, 0xd4, 0x2f, 0x2e, 0x43, 0x0c]"

fun logsHaveTopic :: "eth_log list \<Rightarrow> bytes \<Rightarrow> address \<Rightarrow> bool" where
  "logsHaveTopic [] sig emitter = False"
| "logsHaveTopic (lg # logs) sig emitter =
     (if toHexString (log_address lg) \<noteq> toHexString emitter then logsHaveTopic logs sig emitter
      else (case log_topics lg of
              [] \<Rightarrow> logsHaveTopic logs sig emitter
            | topic0 # _ \<Rightarrow>
                if toHexString topic0 = toHexString sig then True
                else logsHaveTopic logs sig emitter))"

definition receiptHasTopic :: "eth_log list option \<Rightarrow> bytes \<Rightarrow> address \<Rightarrow> bool" where
  "receiptHasTopic receipt sig emitter =
     (case receipt of None \<Rightarrow> False | Some logs \<Rightarrow> logsHaveTopic logs sig emitter)"

definition mc_isZeroAddress :: "address \<Rightarrow> bool" where
  "mc_isZeroAddress addr \<longleftrightarrow> toHexString addr = toHexString ZERO_ADDRESS"

lemma mc_isZeroAddress_iff [simp]: "mc_isZeroAddress a \<longleftrightarrow> a = ZERO_ADDRESS"
  by (simp add: mc_isZeroAddress_def)

lemma toHexString_nonempty [simp]: "toHexString a \<noteq> []"
  by (simp add: toHexString_def)

definition seedMineCore :: "chain \<Rightarrow> eth_event \<Rightarrow> protocol handler" where
  "seedMineCore c ev = do {
     protocol \<leftarrow> loadOrCreateProtocol c (Some (ev_blockNumber ev));
     let protocol = protocol\<lparr>pr_mineCore := setBytesIfZero (pr_mineCore protocol) (ev_address ev)\<rparr>;
     modify (saveProtocol PROTOCOL_ID protocol);
     ret protocol
   }"

section \<open>Configuration handlers\<close>

definition mc_handleEntryTokenRegistrySet :: "chain \<Rightarrow> eth_event \<Rightarrow> address \<Rightarrow> unit handler" where
  "mc_handleEntryTokenRegistrySet c ev p_registry = do {
     protocol \<leftarrow> loadOrCreateProtocol c (Some (ev_blockNumber ev));
     let protocol = protocol\<lparr>pr_mineCore := setBytesIfZero (pr_mineCore protocol) (ev_address ev)\<rparr>;
     let prev = pr_mineCoreEntryTokenRegistry protocol;
     modify (saveProtocol PROTOCOL_ID (protocol\<lparr>pr_mineCoreEntryTokenRegistry := Some p_registry\<rparr>));
     let shouldCreate = (case prev of
         None \<Rightarrow> True
       | Some prevBytes \<Rightarrow> toHexString prevBytes \<noteq> toHexString p_registry);
     (if shouldCreate
      then do {
        let registryId = toHexString p_registry;
        r \<leftarrow> gets (\<lambda>s. registries s registryId);
        (if r = None
         then do {
           modify (saveRegistry registryId
             ((new_registry p_registry)\<lparr>tr_updatedAt := Some (ev_timestamp ev)\<rparr>));
           modify (\<lambda>s. s\<lparr>dataSources := dataSources s @ [p_registry]\<rparr>)
         }
         else skip);
        snapshotEntryTokenRegistry c p_registry (ev_timestamp ev) (ev_blockNumber ev)
      }
      else skip)
   }"

definition handleTakeoversPausedChanged :: "chain \<Rightarrow> eth_event \<Rightarrow> bool \<Rightarrow> unit handler" where
  "handleTakeoversPausedChanged c ev p_paused = do {
     protocol \<leftarrow> loadOrCreateProtocol c (Some (ev_blockNumber ev));
     let protocol = protocol\<lparr>pr_mineCore := setBytesIfZero (pr_mineCore protocol) (ev_address ev)\<rparr>;
     modify (saveProtocol PROTOCOL_ID (protocol\<lparr>pr_takeoversPaused := p_paused\<rparr>))
   }"

definition mc_handleFurnaceChanged :: "chain \<Rightarrow> eth_event \<Rightarrow> address \<Rightarrow> unit handler" where
  "mc_handleFurnaceChanged c ev p_newFurnace = do {
     protocol \<leftarrow> loadOrCreateProtocol c (Some (ev_blockNumber ev));
     let protocol = protocol\<lparr>pr_mineCore := setBytesIfZero (pr_mineCore protocol) (ev_address ev)\<rparr>;
     modify (saveProtocol PROTOCOL_ID (protocol\<lparr>pr_furnace := p_newFurnace\<rparr>))
   }"

section \<open>Takeovers and reigns\<close>

definition takeover_row ::
  "eth_event \<Rightarrow> string \<Rightarrow> string option \<Rightarrow> string \<Rightarrow> int \<Rightarrow> int \<Rightarrow> int \<Rightarrow> takeover" where
  "takeover_row ev reignId previousKing newKing pricePaid referencePrice timestamp =
     \<lparr>tk_sortKey = blockSortKey (ev_blockNumber ev) (eventId ev), tk_reign = reignId,
      tk_previousKing = previousKing, tk_newKing = newKing, tk_pricePaidWei = pricePaid,
      tk_referencePriceWei = referencePrice, tk_timestamp = timestamp,
      tk_blockNumber = ev_blockNumber ev, tk_txHash = ev_txHash ev\<rparr>"

text \<open>The reign row after its takeover: a fresh one, or the found one with king and start refreshed.\<close>

definition taken_reign :: "reign option \<Rightarrow> int \<Rightarrow> string \<Rightarrow> int \<Rightarrow> string \<Rightarrow> reign" where
  "taken_reign row reignId king timestamp takeoverId =
     (case row of
        None \<Rightarrow> link_previous reignId (new_reign reignId king timestamp takeoverId)
      | Some reign \<Rightarrow> reign\<lparr>rg_king := king, rg_startTime := timestamp,
                           rg_startedByTakeover := takeoverId\<rparr>)"

definition handleTakeover ::
  "chain \<Rightarrow> eth_event \<Rightarrow> int \<Rightarrow> address \<Rightarrow> address \<Rightarrow> int \<Rightarrow> int \<Rightarrow> int \<Rightarrow> unit handler" where
  "handleTakeover c ev p_reignId p_previousKing p_newKing p_pricePaid p_referencePrice p_timestamp = do {
     protocol \<leftarrow> seedMineCore c ev;
     let takeoverId = eventId ev;
     newKingUser \<leftarrow> loadOrCreateUser p_newKing;
     previousKingUserId \<leftarrow> (if \<not> mc_isZeroAddress p_previousKing
        then do { u \<leftarrow> loadOrCreateUser p_previousKing; ret (user_id p_previousKing) }
        else ret '''');
     let reignId = int_string p_reignId;
     modify (saveTakeover takeoverId (takeover_row ev reignId
       (if length previousKingUserId = 0 then None else Some previousKingUserId)
       (user_id p_newKing) p_pricePaid p_referencePrice p_timestamp));
     r \<leftarrow> gets (\<lambda>s. reigns s reignId);
     modify (saveReign reignId (taken_reign r p_reignId (user_id p_newKing) p_timestamp takeoverId));
     let newKingUser = newKingUser\<lparr>us_takeoverCount := us_takeoverCount newKingUser + 1,
           us_ethSpentOnTakeoversWei := us_ethSpentOnTakeoversWei newKingUser + p_pricePaid\<rparr>;
     modify (saveUser (user_id p_newKing) newKingUser);
     let a = (new_activity ''TAKEOVER'' p_timestamp (ev_txHash ev))
               \<lparr>ai_reignId := Some p_reignId, ai_user := Some (user_id p_newKing),
                ai_amountEthWei := Some p_pricePaid\<rparr>;
     saveActivityItem takeoverId
       (if length previousKingUserId \<noteq> 0 then a\<lparr>ai_otherUser := Some previousKingUserId\<rparr> else a)
   }"

definition MAX_I32 :: int where
  "MAX_I32 = 2147483647"

text \<open>
  The clamped duration; \<open>toI32\<close> aborts the handler below the range, so the result is an option.
\<close>

definition reignDurationI32 :: "int \<Rightarrow> (32 word) option" where
  "reignDurationI32 reignDuration =
     (if reignDuration > MAX_I32 then Some 2147483647 else toI32 reignDuration)"

definition finalized_reign ::
  "reign \<Rightarrow> string \<Rightarrow> int \<Rightarrow> int \<Rightarrow> int \<Rightarrow> int \<Rightarrow> string \<Rightarrow> reign" where
  "finalized_reign reign kid startTime endTime totalClaimMined totalEthToKing i =
     reign\<lparr>rg_king := kid, rg_startTime := startTime, rg_endTime := Some endTime,
           rg_totalClaimMinedWei := Some totalClaimMined,
           rg_totalEthToKingWei := Some totalEthToKing, rg_finalizedBy := Some i\<rparr>"

definition handleReignFinalized ::
  "chain \<Rightarrow> eth_event \<Rightarrow> int \<Rightarrow> address \<Rightarrow> int \<Rightarrow> int \<Rightarrow> int \<Rightarrow> int \<Rightarrow> unit option handler" where
  "handleReignFinalized c ev p_reignId p_king p_startTime p_endTime p_totalClaimMined p_totalEthToKing = do {
     protocol \<leftarrow> seedMineCore c ev;
     let i = eventId ev;
     let reignId = int_string p_reignId;
     kingUser \<leftarrow> loadOrCreateUser p_king;
     let kid = user_id p_king;
     r \<leftarrow> gets (\<lambda>s. reigns s reignId);
     reign \<leftarrow> (case r of
         None \<Rightarrow> do {
           modify (saveTakeover (placeholder_id reignId)
             ((placeholder_takeover reignId kid p_startTime (ev_blockNumber ev) (ev_txHash ev))));
           ret (new_reign p_reignId kid p_startTime (placeholder_id reignId))
         }
       | Some reign \<Rightarrow> ret reign);
     modify (saveMineLog i
       (ReignFinalizedEvent (blockSortKey (ev_blockNumber ev) i) reignId kid p_startTime p_endTime
          p_totalClaimMined p_totalEthToKing (ev_timestamp ev) (ev_blockNumber ev) (ev_txHash ev)));
     modify (saveReign reignId
       (finalized_reign reign kid p_startTime p_endTime p_totalClaimMined p_totalEthToKing i));
     let kingUser = kingUser\<lparr>us_kingClaimMinedWei := us_kingClaimMinedWei kingUser + p_totalClaimMined\<rparr>;
     (case reignDurationI32 (p_endTime - p_startTime) of
        None \<Rightarrow> ret None
      | Some d \<Rightarrow> do {
          let kingUser = (if sint d > sint (us_longestReignSeconds kingUser)
                          then kingUser\<lparr>us_longestReignSeconds := d\<rparr> else kingUser);
          modify (saveUser kid kingUser);
          saveActivityItem i
            ((new_activity ''REIGN_FINALIZED'' (ev_timestamp ev) (ev_txHash ev))
               \<lparr>ai_reignId := Some p_reignId, ai_user := Some kid,
                ai_amountEthWei := Some p_totalEthToKing,
                ai_amountClaimWei := Some p_totalClaimMined\<rparr>);
          ret (Some ())
        })
   }"

section \<open>King settlement: the activity feed\<close>

definition handleKingAutoLockConfigured ::
  "chain \<Rightarrow> eth_event \<Rightarrow> address \<Rightarrow> int \<Rightarrow> int \<Rightarrow> unit handler" where
  "handleKingAutoLockConfigured c ev p_user p_targetTokenId p_pinnedTokenId = do {
     protocol \<leftarrow> seedMineCore c ev;
     user \<leftarrow> loadOrCreateUser p_user;
     let a = (new_activity ''KING_AUTOLOCK_CONFIGURED'' (ev_timestamp ev) (ev_txHash ev))
               \<lparr>ai_user := Some (user_id p_user)\<rparr>;
     let a = (if p_targetTokenId > 0 then a\<lparr>ai_tokenId := Some p_targetTokenId\<rparr>
              else if p_pinnedTokenId > 0 then a\<lparr>ai_tokenId := Some p_pinnedTokenId\<rparr>
              else a);
     saveActivityItem (eventId ev) a
   }"

definition handleKingAutoLockExecuted ::
  "chain \<Rightarrow> eth_event \<Rightarrow> address \<Rightarrow> int \<Rightarrow> int \<Rightarrow> int \<Rightarrow> unit handler" where
  "handleKingAutoLockExecuted c ev p_user p_reignId p_principalClaim p_tokenIdUsed = do {
     protocol \<leftarrow> seedMineCore c ev;
     user \<leftarrow> loadOrCreateUser p_user;
     saveActivityItem (eventId ev)
       ((new_activity ''KING_AUTOLOCK_EXECUTED'' (ev_timestamp ev) (ev_txHash ev))
          \<lparr>ai_reignId := Some p_reignId, ai_user := Some (user_id p_user),
           ai_tokenId := Some p_tokenIdUsed, ai_amountClaimWei := Some p_principalClaim\<rparr>)
   }"

definition handleKingClaimLiquidPaid ::
  "chain \<Rightarrow> eth_event \<Rightarrow> int \<Rightarrow> address \<Rightarrow> int \<Rightarrow> int \<Rightarrow> unit handler" where
  "handleKingClaimLiquidPaid c ev p_reignId p_recipient p_amount p_liquidBps = do {
     protocol \<leftarrow> seedMineCore c ev;
     user \<leftarrow> loadOrCreateUser p_recipient;
     saveActivityItem (eventId ev)
       ((new_activity ''KING_CLAIM_LIQUID_PAID'' (ev_timestamp ev) (ev_txHash ev))
          \<lparr>ai_reignId := Some p_reignId, ai_user := Some (user_id p_recipient),
           ai_amountClaimWei := Some p_amount, ai_bps := Some p_liquidBps\<rparr>);
     r \<leftarrow> gets (\<lambda>s. reigns s (int_string p_reignId));
     (case r of
        None \<Rightarrow> skip
      | Some reign \<Rightarrow> modify (saveReign (int_string p_reignId)
          (reign\<lparr>rg_liquidClaimPaidWei := Some p_amount, rg_liquidBpsApplied := Some p_liquidBps\<rparr>)))
   }"

definition handleKingAutoLockSkipped ::
  "chain \<Rightarrow> eth_event \<Rightarrow> address \<Rightarrow> int \<Rightarrow> int \<Rightarrow> unit handler" where
  "handleKingAutoLockSkipped c ev p_user p_reignId p_principalClaim = do {
     protocol \<leftarrow> seedMineCore c ev;
     user \<leftarrow> loadOrCreateUser p_user;
     saveActivityItem (eventId ev)
       ((new_activity ''KING_AUTOLOCK_SKIPPED'' (ev_timestamp ev) (ev_txHash ev))
          \<lparr>ai_reignId := Some p_reignId, ai_user := Some (user_id p_user),
           ai_amountClaimWei := Some p_principalClaim\<rparr>)
   }"

definition handleKingAutoLockFailed ::
  "chain \<Rightarrow> eth_event \<Rightarrow> address \<Rightarrow> int \<Rightarrow> int \<Rightarrow> unit handler" where
  "handleKingAutoLockFailed c ev p_user p_reignId p_principalClaim = do {
     protocol \<leftarrow> seedMineCore c ev;
     user \<leftarrow> loadOrCreateUser p_user;
     saveActivityItem (eventId ev)
       ((new_activity ''KING_AUTOLOCK_FAILED'' (ev_timestamp ev) (ev_txHash ev))
          \<lparr>ai_reignId := Some p_reignId, ai_user := Some (user_id p_user),
           ai_amountClaimWei := Some p_principalClaim\<rparr>)
   }"

definition handleKingEthPaid ::
  "chain \<Rightarrow> eth_event \<Rightarrow> address \<Rightarrow> int \<Rightarrow> unit handler" where
  "handleKingEthPaid c ev p_recipient p_amount = do {
     protocol \<leftarrow> seedMineCore c ev;
     user \<leftarrow> loadOrCreateUser p_recipient;
     saveActivityItem (eventId ev)
       ((new_activity ''KING_ETH_PAID'' (ev_timestamp ev) (ev_txHash ev))
          \<lparr>ai_user := Some (user_id p_recipient), ai_amountEthWei := Some p_amount\<rparr>)
   }"

definition handleKingEthCredited ::
  "chain \<Rightarrow> eth_event \<Rightarrow> address \<Rightarrow> int \<Rightarrow> unit handler" where
  "handleKingEthCredited c ev p_recipient p_amount = do {
     protocol \<leftarrow> seedMineCore c ev;
     user \<leftarrow> loadOrCreateUser p_recipient;
     saveActivityItem (eventId ev)
       ((new_activity ''KING_ETH_CREDITED'' (ev_timestamp ev) (ev_txHash ev))
          \<lparr>ai_user := Some (user_id p_recipient), ai_amountEthWei := Some p_amount\<rparr>)
   }"

section \<open>Withdrawals, refunds and failures: log rows only\<close>

definition handleKingWithdrawal ::
  "chain \<Rightarrow> eth_event \<Rightarrow> address \<Rightarrow> int \<Rightarrow> unit handler" where
  "handleKingWithdrawal c ev p_king p_amount = do {
     protocol \<leftarrow> seedMineCore c ev;
     u0 \<leftarrow> loadOrCreateUser p_king;
     modify (saveMineLog (eventId ev)
       (KingWithdrawalEvent (user_id p_king) p_amount (ev_blockNumber ev) (ev_timestamp ev) (ev_txHash ev)))
   }"

definition handleKingWithdrawalTo ::
  "chain \<Rightarrow> eth_event \<Rightarrow> address \<Rightarrow> address \<Rightarrow> int \<Rightarrow> unit handler" where
  "handleKingWithdrawalTo c ev p_king p_to p_amount = do {
     protocol \<leftarrow> seedMineCore c ev;
     u0 \<leftarrow> loadOrCreateUser p_king;
     u1 \<leftarrow> loadOrCreateUser p_to;
     modify (saveMineLog (eventId ev)
       (KingWithdrawalToEvent (user_id p_king) (user_id p_to) p_amount
          (ev_blockNumber ev) (ev_timestamp ev) (ev_txHash ev)))
   }"

definition handleRefundCredited ::
  "chain \<Rightarrow> eth_event \<Rightarrow> address \<Rightarrow> int \<Rightarrow> unit handler" where
  "handleRefundCredited c ev p_to p_amount = do {
     protocol \<leftarrow> seedMineCore c ev;
     u0 \<leftarrow> loadOrCreateUser p_to;
     modify (saveMineLog (eventId ev)
       (RefundCreditedEvent (user_id p_to) p_amount (ev_blockNumber ev) (ev_timestamp ev) (ev_txHash ev)))
   }"

definition handleRefundWithdrawn ::
  "chain \<Rightarrow> eth_event \<Rightarrow> address \<Rightarrow> address \<Rightarrow> int \<Rightarrow> unit handler" where
  "handleRefundWithdrawn c ev p_user p_to p_amount = do {
     protocol \<leftarrow> seedMineCore c ev;
     u0 \<leftarrow> loadOrCreateUser p_user;
     u1 \<leftarrow> loadOrCreateUser p_to;
     modify (saveMineLog (eventId ev)
       (RefundWithdrawnEvent (user_id p_user) (user_id p_to) p_amount
          (ev_blockNumber ev) (ev_timestamp ev) (ev_txHash ev)))
   }"

definition handleShareholderRoyaltiesTakeoverFailed ::
  "chain \<Rightarrow> eth_event \<Rightarrow> int \<Rightarrow> int \<Rightarrow> bytes \<Rightarrow> unit handler" where
  "handleShareholderRoyaltiesTakeoverFailed c ev p_reignId p_amountEth p_reason = do {
     protocol \<leftarrow> seedMineCore c ev;
     modify (saveMineLog (eventId ev)
       (ShareholderRoyaltiesTakeoverFailedEvent p_reignId p_amountEth p_reason
          (ev_timestamp ev) (ev_blockNumber ev) (ev_txHash ev)))
   }"

definition handleShareholderRoyaltiesFlushFailed ::
  "chain \<Rightarrow> eth_event \<Rightarrow> bytes \<Rightarrow> unit handler" where
  "handleShareholderRoyaltiesFlushFailed c ev p_reason = do {
     protocol \<leftarrow> seedMineCore c ev;
     modify (saveMineLog (eventId ev)
       (ShareholderRoyaltiesFlushFailedEvent p_reason (ev_timestamp ev) (ev_blockNumber ev) (ev_txHash ev)))
   }"

section \<open>Recipients of a reign\<close>

definition new_recipients :: "eth_event \<Rightarrow> int \<Rightarrow> string \<Rightarrow> address \<Rightarrow> address \<Rightarrow> recipients_state" where
  "new_recipients ev reignId kid ethRecipient claimRecipient =
     \<lparr>rs_reignId = reignId, rs_king = kid, rs_ethRecipient = ethRecipient,
      rs_claimRecipient = claimRecipient, rs_updateCount = -1, rs_createdAt = ev_timestamp ev,
      rs_updatedAt = ev_timestamp ev, rs_firstSetTxHash = ev_txHash ev,
      rs_firstSetTimestamp = ev_timestamp ev, rs_lastSetTxHash = ev_txHash ev,
      rs_lastSetTimestamp = ev_timestamp ev\<rparr>"

definition handleReignRecipientsSet ::
  "chain \<Rightarrow> eth_event \<Rightarrow> int \<Rightarrow> address \<Rightarrow> address \<Rightarrow> address \<Rightarrow> unit handler" where
  "handleReignRecipientsSet c ev p_reignId p_king p_ethRecipient p_claimRecipient = do {
     protocol \<leftarrow> seedMineCore c ev;
     let i = eventId ev;
     let reignId = int_string p_reignId;
     kingUser \<leftarrow> loadOrCreateUser p_king;
     let kid = user_id p_king;
     r \<leftarrow> gets (\<lambda>s. recipients s reignId);
     let (st, isMidReignUpdate) = (case r of
         None \<Rightarrow> (new_recipients ev p_reignId kid p_ethRecipient p_claimRecipient,
                  \<not> receiptHasTopic (ev_receipt ev) TAKEOVER_SIG (ev_address ev))
       | Some st \<Rightarrow> (st, True));
     modify (saveRecipients reignId
       (st\<lparr>rs_king := kid, rs_ethRecipient := p_ethRecipient, rs_claimRecipient := p_claimRecipient,
           rs_updateCount := rs_updateCount st + 1, rs_updatedAt := ev_timestamp ev,
           rs_lastSetTxHash := ev_txHash ev, rs_lastSetTimestamp := ev_timestamp ev\<rparr>));
     modify (saveMineLog i
       (ReignRecipientsSetEvent (blockSortKey (ev_blockNumber ev) i) p_reignId kid p_ethRecipient
          p_claimRecipient isMidReignUpdate (ev_timestamp ev) (ev_blockNumber ev) (ev_txHash ev)))
   }"

definition mc_handleDelegationSessionUsed ::
  "eth_event \<Rightarrow> address \<Rightarrow> address \<Rightarrow> int \<Rightarrow> int \<Rightarrow> int \<Rightarrow> int \<Rightarrow> unit handler" where
  "mc_handleDelegationSessionUsed ev p_user p_delegate p_actionType p_permsUsed p_refId p_timestamp =
     recordDelegationSessionUsed ev p_user p_delegate p_actionType p_permsUsed p_refId p_timestamp"

section \<open>What the handlers write to reigns and takeovers\<close>

definition mc_seeded :: "chain \<Rightarrow> eth_event \<Rightarrow> store \<Rightarrow> store" where
  "mc_seeded c ev s = snd (run_state (seedMineCore c ev) s)"

definition mc_protocol :: "chain \<Rightarrow> eth_event \<Rightarrow> store \<Rightarrow> protocol" where
  "mc_protocol c ev s = fst (run_state (seedMineCore c ev) s)"

lemma run_seedMineCore [simp]:
  "run_state (seedMineCore c ev) s = (mc_protocol c ev s, mc_seeded c ev s)"
  by (simp add: mc_seeded_def mc_protocol_def)

lemma mc_seeded_frame [frame, simp]:
  "users (mc_seeded c ev s) = users s" "reigns (mc_seeded c ev s) = reigns s"
  "takeovers (mc_seeded c ev s) = takeovers s" "recipients (mc_seeded c ev s) = recipients s"
  "mine_logs (mc_seeded c ev s) = mine_logs s"
  by (simp_all add: mc_seeded_def seedMineCore_def Let_def store_simps)

lemma user_of_mc_seeded [simp]: "user_of a (mc_seeded c ev s) = user_of a s"
  by (rule user_of_cong) simp

lemma run_saveActivityItem [simp]:
  "run_state (saveActivityItem i a) s
    = ((), saveActivity i (a\<lparr>ai_sortKey := activitySortKey (ai_timestamp a) i\<rparr>) s)"
  "exec (saveActivityItem i a) s = saveActivity i (a\<lparr>ai_sortKey := activitySortKey (ai_timestamp a) i\<rparr>) s"
  by (simp_all add: saveActivityItem_def exec_def)

lemma takeover_writes:
  assumes "s' = exec (handleTakeover c ev n prev new price ref ts) s"
  shows "takeovers s' = (takeovers s)(eventId ev \<mapsto> takeover_row ev (int_string n)
           (if prev = ZERO_ADDRESS then None else Some (user_id prev)) (user_id new) price ref ts)"
    and "reigns s' = (reigns s)(int_string n \<mapsto>
           taken_reign (reigns s (int_string n)) n (user_id new) ts (eventId ev))"
  by (auto simp: assms handleTakeover_def Let_def store_simps)

lemma takeover_users:
  assumes "s' = exec (handleTakeover c ev n prev new price ref ts) s"
  shows "users s' (user_id new) = Some ((user_of new s)
           \<lparr>us_takeoverCount := us_takeoverCount (user_of new s) + 1,
            us_ethSpentOnTakeoversWei := us_ethSpentOnTakeoversWei (user_of new s) + price\<rparr>)"
  by (auto simp: assms handleTakeover_def Let_def store_simps)

lemma finalized_writes:
  assumes "s' = exec (handleReignFinalized c ev n king st en mined eth) s"
  shows "reigns s' = (reigns s)(int_string n \<mapsto> finalized_reign
           (case reigns s (int_string n) of
              None \<Rightarrow> new_reign n (user_id king) st (placeholder_id (int_string n)) | Some r \<Rightarrow> r)
           (user_id king) st en mined eth (eventId ev))"
    and "takeovers s' = (if reigns s (int_string n) = None
           then (takeovers s)(placeholder_id (int_string n) \<mapsto>
             placeholder_takeover (int_string n) (user_id king) st (ev_blockNumber ev) (ev_txHash ev))
           else takeovers s)"
  by (auto simp: assms handleReignFinalized_def Let_def store_simps split: option.splits)

lemma finalized_result:
  "fst (run_state (handleReignFinalized c ev n king st en mined eth) s)
    = map_option (\<lambda>_. ()) (reignDurationI32 (en - st))"
  by (cases "reigns s (int_string n)"; cases "reignDurationI32 (en - st)")
     (simp_all add: handleReignFinalized_def Let_def store_simps)

lemma exec_same_outside_reigns [simp]:
  "reigns (exec (refreshTokenPricingSnapshot c v b t) s) = reigns s"
  "takeovers (exec (refreshTokenPricingSnapshot c v b t) s) = takeovers s"
  by simp_all

lemma allocation_writes:
  assumes "s' = exec (handleShareholderTakeoverAllocation c ev n x) s"
    and "m = int_string (if n = 0 then 1 else n)"
  shows "reigns s' = (case reigns s m of
       Some r \<Rightarrow> reigns s
     | None \<Rightarrow> (reigns s)(m \<mapsto> link_previous (if n = 0 then 1 else n)
         (new_reign (if n = 0 then 1 else n) (user_id ZERO_ADDRESS) (ev_timestamp ev) (placeholder_id m))))"
    and "takeovers s' = (if reigns s m = None \<and> takeovers s (placeholder_id m) = None
       then (takeovers s)(placeholder_id m \<mapsto> placeholder_takeover m (user_id ZERO_ADDRESS)
              (ev_timestamp ev) (ev_blockNumber ev) (ev_txHash ev))
       else takeovers s)"
  by (auto simp: assms handleShareholderTakeoverAllocation_def Let_def store_simps split: option.splits)

lemma liquid_writes:
  assumes "s' = exec (handleKingClaimLiquidPaid c ev n a x bps) s"
  shows "takeovers s' = takeovers s"
    and "reigns s' = (case reigns s (int_string n) of None \<Rightarrow> reigns s
         | Some r \<Rightarrow> (reigns s)(int_string n \<mapsto>
             r\<lparr>rg_liquidClaimPaidWei := Some x, rg_liquidBpsApplied := Some bps\<rparr>))"
  by (auto simp: assms handleKingClaimLiquidPaid_def Let_def store_simps split: option.splits)

section \<open>Reigns and takeovers refer to each other\<close>

text \<open>
  One handled event that may write a reign or a takeover. Event ids are fresh (a log index occurs
  once); an aborted finalization writes nothing, so only a completed one is a step.
\<close>

inductive reign_step :: "chain \<Rightarrow> store \<Rightarrow> store \<Rightarrow> bool" for c where
  rs_takeover: "takeovers s (eventId ev) = None \<Longrightarrow>
     reign_step c s (exec (handleTakeover c ev n prev new price ref ts) s)"
| rs_finalized: "fst (run_state (handleReignFinalized c ev n king st en mined eth) s) = Some () \<Longrightarrow>
     reign_step c s (exec (handleReignFinalized c ev n king st en mined eth) s)"
| rs_allocation: "reign_step c s (exec (handleShareholderTakeoverAllocation c ev n x) s)"
| rs_liquid: "reign_step c s (exec (handleKingClaimLiquidPaid c ev n a x bps) s)"
| rs_other: "takeovers s' = takeovers s \<Longrightarrow> reigns s' = reigns s \<Longrightarrow> reign_step c s s'"

inductive reign_reachable :: "chain \<Rightarrow> store \<Rightarrow> bool" for c where
  rr_init: "reign_reachable c empty_store"
| rr_next: "reign_reachable c s \<Longrightarrow> reign_step c s s' \<Longrightarrow> reign_reachable c s'"

definition reign_refs :: "store \<Rightarrow> bool" where
  "reign_refs s \<longleftrightarrow>
     (\<forall>n r. reigns s n = Some r \<longrightarrow> n = int_string (rg_reignId r)
        \<and> (\<exists>t. takeovers s (rg_startedByTakeover r) = Some t \<and> tk_reign t = n))
   \<and> (\<forall>n. takeovers s (placeholder_id n) \<noteq> None \<longrightarrow> reigns s n \<noteq> None)"

lemma eventId_not_placeholder [simp]: "eventId ev \<noteq> placeholder_id n" "placeholder_id n \<noteq> eventId ev"
  by (simp_all add: eventId_def placeholder_id_def toHexString_def)

lemma placeholder_inj [simp]: "placeholder_id m = placeholder_id n \<longleftrightarrow> m = n"
  by (simp add: placeholder_id_def)

lemma link_previous_simps [simp]:
  "rg_reignId (link_previous n r) = rg_reignId r"
  "rg_startedByTakeover (link_previous n r) = rg_startedByTakeover r"
  by (simp_all add: link_previous_def)

lemma new_reign_simps [simp]:
  "rg_reignId (new_reign n k t b) = n" "rg_startedByTakeover (new_reign n k t b) = b"
  by (simp_all add: new_reign_def)

lemma placeholder_takeover_reign [simp]: "tk_reign (placeholder_takeover i k ts b h) = i"
  by (simp add: placeholder_takeover_def)

text \<open>A new row of a reign, together with the takeover row it names, keeps the references.\<close>

lemma refs_upd:
  assumes ok: "reign_refs s" and r: "n = int_string (rg_reignId r)"
    and t: "tk' (rg_startedByTakeover r) = Some t" "tk_reign t = n"
    and keep: "takeovers s \<subseteq>\<^sub>m tk'"
    and ph: "\<And>m. tk' (placeholder_id m) \<noteq> None \<Longrightarrow> m = n \<or> takeovers s (placeholder_id m) \<noteq> None"
    and s': "reigns s' = (reigns s)(n \<mapsto> r)" "takeovers s' = tk'"
  shows "reign_refs s'"
  unfolding reign_refs_def
proof (intro conjI allI impI)
  fix m q
  assume q: "reigns s' m = Some q"
  show "m = int_string (rg_reignId q)"
    using q ok r by (auto simp: reign_refs_def s' split: if_splits)
  show "\<exists>t. takeovers s' (rg_startedByTakeover q) = Some t \<and> tk_reign t = m"
  proof (cases "m = n")
    case True
    then show ?thesis using q t by (simp add: s')
  next
    case False
    then have "reigns s m = Some q" using q by (simp add: s')
    then obtain u where "takeovers s (rg_startedByTakeover q) = Some u" and "tk_reign u = m"
      using ok by (auto simp: reign_refs_def)
    with keep show ?thesis by (auto simp: s' map_le_def dom_def)
  qed
next
  fix m
  assume "takeovers s' (placeholder_id m) \<noteq> None"
  then show "reigns s' m \<noteq> None" using ph [of m] ok by (auto simp: s' reign_refs_def)
qed

lemma takeover_row_reign [simp]: "tk_reign (takeover_row ev i p k x y z) = i"
  by (simp add: takeover_row_def)

lemma taken_reign_simps [simp]:
  "rg_startedByTakeover (taken_reign row n k ts b) = b"
  "rg_reignId (taken_reign row n k ts b) = (case row of None \<Rightarrow> n | Some r \<Rightarrow> rg_reignId r)"
  by (simp_all add: taken_reign_def split: option.splits)

lemma finalized_reign_simps [simp]:
  "rg_startedByTakeover (finalized_reign r k a b x y i) = rg_startedByTakeover r"
  "rg_reignId (finalized_reign r k a b x y i) = rg_reignId r"
  by (simp_all add: finalized_reign_def)

lemma upd_fresh_le: "m k = None \<Longrightarrow> m \<subseteq>\<^sub>m m(k \<mapsto> v)"
  by (auto simp: map_le_def)

lemma refs_key: "reign_refs s \<Longrightarrow> reigns s n = Some r \<Longrightarrow> int_string (rg_reignId r) = n"
  by (simp add: reign_refs_def)

lemma refs_placeholder: "reign_refs s \<Longrightarrow> reigns s n = None \<Longrightarrow> takeovers s (placeholder_id n) = None"
  by (auto simp: reign_refs_def)

text \<open>A step keeps the references and every takeover row there was.\<close>

lemma takeover_refs:
  assumes ok: "reign_refs s" and fresh: "takeovers s (eventId ev) = None"
  shows "reign_refs (exec (handleTakeover c ev n prev new price ref ts) s)"
proof (rule refs_upd [OF ok _ _ _ _ _ takeover_writes(2) [OF refl] takeover_writes(1) [OF refl]])
  show "takeovers s \<subseteq>\<^sub>m (takeovers s)(eventId ev \<mapsto> takeover_row ev (int_string n)
      (if prev = ZERO_ADDRESS then None else Some (user_id prev)) (user_id new) price ref ts)"
    using fresh by (rule upd_fresh_le)
qed (use ok refs_key in \<open>auto split: option.splits\<close>)

lemma refs_same:
  "reign_refs s \<Longrightarrow> reigns s' = reigns s \<Longrightarrow> takeovers s' = takeovers s \<Longrightarrow> reign_refs s'"
  by (simp add: reign_refs_def)

text \<open>Rewriting a row that keeps its id and its takeover.\<close>

lemma refs_rewrite:
  assumes ok: "reign_refs s" and q: "reigns s n = Some q" and "rg_reignId r = rg_reignId q"
    and "rg_startedByTakeover r = rg_startedByTakeover q"
    and s': "reigns s' = (reigns s)(n \<mapsto> r)" "takeovers s' = takeovers s"
  shows "reign_refs s'"
proof -
  obtain t where t: "takeovers s (rg_startedByTakeover q) = Some t" "tk_reign t = n"
    using ok q by (auto simp: reign_refs_def)
  have eq: "n = int_string (rg_reignId r)" using refs_key [OF ok q] assms(3) by simp
  show ?thesis
    by (rule refs_upd [OF ok eq _ t(2) _ _ s']) (use t(1) assms(4) in auto)
qed

text \<open>A new reign together with its placeholder takeover.\<close>

lemma refs_placeholder_upd:
  assumes ok: "reign_refs s" and none: "reigns s n = None" and r: "n = int_string (rg_reignId r)"
    and "rg_startedByTakeover r = placeholder_id n" and t: "tk_reign t = n"
    and s': "reigns s' = (reigns s)(n \<mapsto> r)" "takeovers s' = (takeovers s)(placeholder_id n \<mapsto> t)"
  shows "reign_refs s'"
  by (rule refs_upd [OF ok r _ t _ _ s'])
     (use assms refs_placeholder [OF ok none] in \<open>auto simp: upd_fresh_le split: if_splits\<close>)

lemma reign_step_refs: "reign_step c s s' \<Longrightarrow> reign_refs s \<Longrightarrow> reign_refs s'"
proof (induction rule: reign_step.induct)
  case (rs_takeover s ev n prev new price ref ts)
  then show ?case by (intro takeover_refs)
next
  case (rs_finalized ev n king st en mined eth s)
  note W = finalized_writes [OF refl, of c ev n king st en mined eth s]
  show ?case
  proof (cases "reigns s (int_string n)")
    case None
    show ?thesis
      by (rule refs_placeholder_upd [OF rs_finalized(2) None _ _ _ W(1) W(2) [unfolded None, simplified]])
         (simp_all add: None)
  next
    case (Some q)
    show ?thesis by (rule refs_rewrite [OF rs_finalized(2) Some]) (simp_all add: W Some)
  qed
next
  case (rs_allocation s ev n x)
  let ?n = "if n = 0 then 1 else n"
  note W = allocation_writes [OF refl refl, of c ev n x s]
  show ?case
  proof (cases "reigns s (int_string ?n)")
    case None
    show ?thesis
      by (rule refs_placeholder_upd [OF rs_allocation None, of _
            "placeholder_takeover (int_string ?n) (user_id ZERO_ADDRESS) (ev_timestamp ev)
               (ev_blockNumber ev) (ev_txHash ev)"])
         (use None refs_placeholder [OF rs_allocation None] in \<open>simp_all add: W\<close>)
  next
    case (Some q)
    show ?thesis by (rule refs_same [OF rs_allocation]) (use Some in \<open>simp_all add: W\<close>)
  qed
next
  case (rs_liquid s ev n a x bps)
  note W = liquid_writes [OF refl, of c ev n a x bps s]
  show ?case
  proof (cases "reigns s (int_string n)")
    case None
    then show ?thesis by (intro refs_same [OF rs_liquid]) (simp_all add: W)
  next
    case (Some q)
    show ?thesis by (rule refs_rewrite [OF rs_liquid Some]) (simp_all add: W Some)
  qed
next
  case (rs_other s' s)
  then show ?case by (simp add: reign_refs_def)
qed

lemma reign_step_keeps:
  assumes "reign_step c s s'" and "reign_refs s"
  shows "takeovers s \<subseteq>\<^sub>m takeovers s'"
  using assms
proof (induction rule: reign_step.induct)
  case (rs_takeover s ev n prev new price ref ts)
  then show ?case unfolding takeover_writes(1) [OF refl] by (intro upd_fresh_le)
next
  case (rs_finalized ev n king st en mined eth s)
  show ?case
  proof (cases "reigns s (int_string n)")
    case None
    show ?thesis
      unfolding finalized_writes(2) [OF refl] if_P [OF None]
      by (rule upd_fresh_le) (rule refs_placeholder [OF rs_finalized(2) None])
  qed (simp add: finalized_writes(2) [OF refl])
next
  case (rs_allocation s ev n x)
  let ?i = "int_string (if n = 0 then 1 else n)"
  show ?case
  proof (cases "reigns s ?i = None \<and> takeovers s (placeholder_id ?i) = None")
    case True
    show ?thesis
      unfolding allocation_writes(2) [OF refl refl] if_P [OF True]
      by (rule upd_fresh_le) (use True in blast)
  next
    case False
    show ?thesis unfolding allocation_writes(2) [OF refl refl] if_not_P [OF False] by simp
  qed
next
  case (rs_liquid s ev n a x bps)
  then show ?case by (simp add: liquid_writes [OF refl])
next
  case (rs_other s' s)
  then show ?case by simp
qed

lemma reign_init: "reign_refs empty_store"
  by (simp add: reign_refs_def)

lemma reachable_refs: "reign_reachable c s \<Longrightarrow> reign_refs s"
  by (induction rule: reign_reachable.induct) (auto intro: reign_init reign_step_refs)

section \<open>Properties\<close>


text \<open>
  C30. Takeover rows are immutable, as the schema declares them: no handled event of a reachable
  store rewrites one, the two code paths that create the placeholder of a reign included.
\<close>

theorem takeover_rows_immutable:
  assumes "reign_reachable c s" and "reign_step c s s'" and "takeovers s i = Some t"
  shows "takeovers s' i = Some t"
  using reign_step_keeps [OF assms(2) reachable_refs [OF assms(1)]] assms(3)
  by (auto simp: map_le_def dom_def)

text \<open>A mid-history run for the witnesses: an allocation for reign 4, then its finalization.\<close>

definition mid_history :: store where
  "mid_history = exec (handleShareholderTakeoverAllocation local_chain sample_event 4 10) empty_store"

lemma mid_history_rows:
  "reigns mid_history (int_string 4) = Some (link_previous 4
     (new_reign 4 (user_id ZERO_ADDRESS) 5000 (placeholder_id (int_string 4))))"
  "takeovers mid_history (placeholder_id (int_string 4)) = Some (placeholder_takeover (int_string 4)
     (user_id ZERO_ADDRESS) 5000 100 [171])"
  by (simp_all add: mid_history_def allocation_writes [OF refl refl] sample_event_def)

lemma mid_history_reachable: "reign_reachable local_chain mid_history"
  unfolding mid_history_def by (rule rr_next [OF rr_init rs_allocation])


lemma takeover_rows_immutable_witness:
  "takeovers (exec (handleReignFinalized local_chain sample_event 4 [1] 10 20 5 6) mid_history)
     (placeholder_id (int_string 4))
   = Some (placeholder_takeover (int_string 4) (user_id ZERO_ADDRESS) 5000 100 [171])"
proof (rule takeover_rows_immutable [OF mid_history_reachable _ mid_history_rows(2)])
  show "reign_step local_chain mid_history
      (exec (handleReignFinalized local_chain sample_event 4 [1] 10 20 5 6) mid_history)"
    by (rule rs_finalized)
       (simp add: finalized_result reignDurationI32_def toI32_def MAX_I32_def)
qed

lemma sint_MAX: "sint (2147483647 :: 32 word) = 2147483647"
  by simp

lemma reignDurationI32_sint: "reignDurationI32 d = Some x \<Longrightarrow> sint x = min d MAX_I32"
  using toI32_sint [of d x] by (auto simp: reignDurationI32_def MAX_I32_def split: if_splits)

lemma reignDurationI32_None: "reignDurationI32 d = None \<longleftrightarrow> d < - (2 ^ 31)"
  by (auto simp: reignDurationI32_def toI32_def MAX_I32_def)

text \<open>
  A finalization aborts exactly when the reported duration is below the 32-bit range; otherwise
  the king's mined total grows by the reported amount and the longest reign becomes the larger of
  the old one and the duration clamped to the 32-bit maximum, so it never decreases or wraps.
\<close>

theorem finalized_king_totals:
  assumes s': "s' = exec (handleReignFinalized c ev n king st en mined eth) s"
  shows "(fst (run_state (handleReignFinalized c ev n king st en mined eth) s) = None
       \<longleftrightarrow> en - st < - (2 ^ 31))
    \<and> (- (2 ^ 31) \<le> en - st \<longrightarrow> (\<exists>u. users s' (user_id king) = Some u
        \<and> us_kingClaimMinedWei u = us_kingClaimMinedWei (user_of king s) + mined
        \<and> sint (us_longestReignSeconds u)
            = max (sint (us_longestReignSeconds (user_of king s))) (min (en - st) MAX_I32)))"
proof (intro conjI impI)
  show "fst (run_state (handleReignFinalized c ev n king st en mined eth) s) = None
      \<longleftrightarrow> en - st < - (2 ^ 31)"
    by (simp add: finalized_result reignDurationI32_None)
  assume "- (2 ^ 31) \<le> en - st"
  then obtain d where d: "reignDurationI32 (en - st) = Some d"
    using reignDurationI32_None [of "en - st"] by fastforce
  have "users s' (user_id king) = Some
      ((let u = (user_of king s)\<lparr>us_kingClaimMinedWei := us_kingClaimMinedWei (user_of king s) + mined\<rparr>
        in if sint d > sint (us_longestReignSeconds u) then u\<lparr>us_longestReignSeconds := d\<rparr> else u))"
    by (cases "reigns s (int_string n)")
       (simp_all add: s' handleReignFinalized_def Let_def d store_simps)
  then show "\<exists>u. users s' (user_id king) = Some u
      \<and> us_kingClaimMinedWei u = us_kingClaimMinedWei (user_of king s) + mined
      \<and> sint (us_longestReignSeconds u)
          = max (sint (us_longestReignSeconds (user_of king s))) (min (en - st) MAX_I32)"
    using reignDurationI32_sint [OF d] by (auto simp: Let_def)
qed

lemma finalized_king_totals_witness:
  "(\<exists>u. users (exec (handleReignFinalized local_chain sample_event 4 [1] 10 5000000000 5 6) mid_history)
          (user_id [1]) = Some u \<and> sint (us_longestReignSeconds u) = 2147483647)"
proof -
  have "users mid_history (user_id [1]) = None"
    by (simp add: mid_history_def handleShareholderTakeoverAllocation_def ensureReignForForeignKey_def
        Let_def store_simps short_address_neq)
  then have "sint (us_longestReignSeconds (user_of [1] mid_history)) = 0"
    by (simp add: user_of_def new_user_def)
  then show ?thesis
    using finalized_king_totals [OF refl, of local_chain sample_event 4 "[1]" 10 5000000000 5 6 mid_history]
    by (auto simp: MAX_I32_def)
qed

text \<open>Repeated recipient settings of one reign.\<close>

fun run_recipients ::
  "chain \<Rightarrow> int \<Rightarrow> (eth_event \<times> address \<times> address \<times> address) list \<Rightarrow> store \<Rightarrow> store" where
  "run_recipients c n [] s = s"
| "run_recipients c n ((ev, k, e, d) # es) s =
     run_recipients c n es (exec (handleReignRecipientsSet c ev n k e d) s)"

lemma recipients_set:
  assumes "s' = exec (handleReignRecipientsSet c ev n k e d) s"
  shows "\<exists>st. recipients s' (int_string n) = Some st \<and> rs_lastSetTxHash st = ev_txHash ev
     \<and> (case recipients s (int_string n) of
          None \<Rightarrow> rs_updateCount st = 0 \<and> rs_firstSetTxHash st = ev_txHash ev
        | Some o' \<Rightarrow> rs_updateCount st = rs_updateCount o' + 1 \<and> rs_firstSetTxHash st = rs_firstSetTxHash o')"
  by (cases "recipients s (int_string n)")
     (simp_all add: assms handleReignRecipientsSet_def Let_def store_simps new_recipients_def)

lemma recipients_run:
  "recipients s (int_string n) = Some st \<Longrightarrow>
   \<exists>st'. recipients (run_recipients c n es s) (int_string n) = Some st'
     \<and> rs_updateCount st' = rs_updateCount st + of_nat (length es)
     \<and> rs_firstSetTxHash st' = rs_firstSetTxHash st"
proof (induction es arbitrary: s st)
  case Nil
  then show ?case by simp
next
  case (Cons x es)
  obtain ev k e d where x: "x = (ev, k, e, d)" by (cases x) auto
  obtain st1 where "recipients (exec (handleReignRecipientsSet c ev n k e d) s) (int_string n) = Some st1"
      and "rs_updateCount st1 = rs_updateCount st + 1" and "rs_firstSetTxHash st1 = rs_firstSetTxHash st"
    using recipients_set [OF refl, of c ev n k e d s] Cons.prems by auto
  with Cons.IH [of "exec (handleReignRecipientsSet c ev n k e d) s" st1] show ?case
    by (auto simp: x algebra_simps)
qed

text \<open>
  The recipients state of a reign counts updates from zero: after the first setting the indexer
  sees and \<open>m\<close> more, \<open>updateCount\<close> is \<open>m\<close> (at its 32 bits) and the first-set transaction is the
  first event's.
\<close>

theorem recipients_count_updates:
  assumes "recipients s (int_string n) = None"
  shows "\<exists>st. recipients (run_recipients c n ((ev, k, e, d) # es) s) (int_string n) = Some st
    \<and> rs_updateCount st = of_nat (length es) \<and> rs_firstSetTxHash st = ev_txHash ev"
proof -
  obtain st where "recipients (exec (handleReignRecipientsSet c ev n k e d) s) (int_string n) = Some st"
      and "rs_updateCount st = 0" and "rs_firstSetTxHash st = ev_txHash ev"
    using recipients_set [OF refl, of c ev n k e d s] assms by auto
  then show ?thesis
    using recipients_run [of "exec (handleReignRecipientsSet c ev n k e d) s" n st c es] by auto
qed

lemma recipients_count_updates_witness:
  "\<exists>st. recipients (run_recipients local_chain 3 [(sample_event, [1], [2], [3]), (sample_event, [1], [4], [5])]
      empty_store) (int_string 3) = Some st \<and> rs_updateCount st = 1 \<and> rs_firstSetTxHash st = [171]"
  using recipients_count_updates [of empty_store 3 local_chain sample_event "[1]" "[2]" "[3]"
      "[(sample_event, [1], [4], [5])]"]
  by (simp add: sample_event_def)

end
