(* ===== verification/VeLocks.thy ===== *)
theory VeLocks
  imports PricingApr
begin

text \<open>
  The veNFT mapping (\<open>src/subgraph/src/mappings/veClaimNFT.ts\<close>): one row per lock and, per user,
  two aggregates kept by the handlers, the locked principal and the voting weight at the last
  activity. The handlers come first, in the order of the file; then the abstract ledger they
  implement (the aggregates are the sums over the locks a user owns), the step relation of the
  events a well-behaved contract emits, and the invariant of its reachable stores.
\<close>

section \<open>Helpers\<close>

definition isZeroAddress :: "address \<Rightarrow> bool" where
  "isZeroAddress addr \<longleftrightarrow> toHexString addr = toHexString ZERO_ADDRESS"

lemma isZeroAddress_iff [simp]: "isZeroAddress a \<longleftrightarrow> a = ZERO_ADDRESS"
  by (simp add: isZeroAddress_def)

definition isLocalNetwork :: "chain \<Rightarrow> bool" where
  "isLocalNetwork c \<longleftrightarrow> network c = ''local''"

text \<open>\<open>x as BigInt\<close> on a field that \<open>ensureUserVeFields\<close> has set.\<close>

definition as_BigInt :: "int option \<Rightarrow> int" where
  "as_BigInt x = (case x of None \<Rightarrow> 0 | Some v \<Rightarrow> v)"

lemma as_BigInt_simps [simp]: "as_BigInt None = 0" "as_BigInt (Some v) = v"
  by (simp_all add: as_BigInt_def)

definition ensureUserVeFields :: "user \<Rightarrow> user" where
  "ensureUserVeFields u =
     (let u = (if us_veBalanceWei u = None then u\<lparr>us_veBalanceWei := Some 0\<rparr> else u)
      in if us_totalLockedClaimWei u = None then u\<lparr>us_totalLockedClaimWei := Some 0\<rparr> else u)"

definition lockVeSnapshot :: "ve_lock \<Rightarrow> int \<Rightarrow> int" where
  "lockVeSnapshot l now =
     (case vl_currentVeWei l of
        None \<Rightarrow> currentVeWei (vl_amountWei l) (vl_lockEnd l) now (vl_autoMax l)
      | Some v \<Rightarrow> v)"

text \<open>The mappings' subtraction clamped at zero: \<open>if (a.ge(b)) a.minus(b) else ZERO\<close>.\<close>

definition minus_clamped :: "int \<Rightarrow> int \<Rightarrow> int" where
  "minus_clamped a b = (if a \<ge> b then a - b else 0)"

definition replaceUserVeContribution :: "user \<Rightarrow> int \<Rightarrow> int \<Rightarrow> user" where
  "replaceUserVeContribution user oldVe newVe =
     (let user = ensureUserVeFields user;
          agg = as_BigInt (us_veBalanceWei user);
          agg = (if newVe \<ge> oldVe then agg + (newVe - oldVe)
                 else let diff = oldVe - newVe in minus_clamped agg diff)
      in user\<lparr>us_veBalanceWei := Some agg\<rparr>)"

definition new_lock :: "int \<Rightarrow> address \<Rightarrow> int \<Rightarrow> ve_lock" where
  "new_lock tokenId owner now =
     \<lparr>vl_tokenId = tokenId, vl_owner = user_id owner, vl_amountWei = 0, vl_lockEnd = 0,
      vl_autoMax = False, vl_listed = False, vl_createdAt = now, vl_updatedAt = now,
      vl_currentVeWei = Some 0\<rparr>"

definition loadOrCreateVeLock :: "int \<Rightarrow> address \<Rightarrow> int \<Rightarrow> ve_lock handler" where
  "loadOrCreateVeLock tokenId owner now = do {
     let i = int_string tokenId;
     r \<leftarrow> gets (\<lambda>s. veLocks s i);
     (case r of
        None \<Rightarrow> do {
          u \<leftarrow> loadOrCreateUser owner;
          let l = new_lock tokenId owner now;
          modify (saveVeLock i l);
          ret l
        }
      | Some l \<Rightarrow> ret l)
   }"

text \<open>The opening of every handler: the protocol row, with the emitting contract seeded once.\<close>

definition seedVeClaimNft :: "chain \<Rightarrow> eth_event \<Rightarrow> protocol handler" where
  "seedVeClaimNft c ev = do {
     protocol \<leftarrow> loadOrCreateProtocol c (Some (ev_blockNumber ev));
     let protocol = protocol\<lparr>pr_veClaimNft := setBytesIfZero (pr_veClaimNft protocol) (ev_address ev)\<rparr>;
     modify (saveProtocol PROTOCOL_ID protocol);
     ret protocol
   }"

text \<open>\<open>listing.active = false\<close> for the listing of a lock, when there is an active one.\<close>

definition deactivateListing :: "string \<Rightarrow> int \<Rightarrow> unit handler" where
  "deactivateListing i now = do {
     r \<leftarrow> gets (\<lambda>s. listings s i);
     (case r of
        None \<Rightarrow> skip
      | Some listing \<Rightarrow>
          if ml_active listing
          then modify (saveListing i (listing\<lparr>ml_active := False, ml_updatedAt := now\<rparr>))
          else skip)
   }"

section \<open>Handlers\<close>

definition handleFurnaceChanged :: "chain \<Rightarrow> eth_event \<Rightarrow> address \<Rightarrow> unit handler" where
  "handleFurnaceChanged c ev newFurnace = do {
     protocol \<leftarrow> loadOrCreateProtocol c (Some (ev_blockNumber ev));
     let protocol = protocol\<lparr>pr_veClaimNft := setBytesIfZero (pr_veClaimNft protocol) (ev_address ev)\<rparr>;
     let protocol = protocol\<lparr>pr_furnace := newFurnace\<rparr>;
     modify (saveProtocol PROTOCOL_ID protocol)
   }"

definition handleMineMarketChanged :: "chain \<Rightarrow> eth_event \<Rightarrow> address \<Rightarrow> unit handler" where
  "handleMineMarketChanged c ev newMineMarket = do {
     protocol \<leftarrow> loadOrCreateProtocol c (Some (ev_blockNumber ev));
     let protocol = protocol\<lparr>pr_veClaimNft := setBytesIfZero (pr_veClaimNft protocol) (ev_address ev)\<rparr>;
     let protocol = protocol\<lparr>pr_marketRouter := newMineMarket\<rparr>;
     modify (saveProtocol PROTOCOL_ID protocol)
   }"

definition handleLockCreated ::
  "chain \<Rightarrow> eth_event \<Rightarrow> address \<Rightarrow> int \<Rightarrow> int \<Rightarrow> int \<Rightarrow> bool \<Rightarrow> unit handler" where
  "handleLockCreated c ev p_user p_tokenId p_amount p_lockEnd p_autoMax = do {
     protocol \<leftarrow> seedVeClaimNft c ev;
     user \<leftarrow> loadOrCreateUser p_user;
     let user = ensureUserVeFields user;
     let i = int_string p_tokenId;
     let ve = currentVeWei p_amount p_lockEnd (ev_timestamp ev) p_autoMax;
     let l = \<lparr>vl_tokenId = p_tokenId, vl_owner = user_id p_user, vl_amountWei = p_amount,
              vl_lockEnd = p_lockEnd, vl_autoMax = p_autoMax, vl_listed = False,
              vl_createdAt = ev_timestamp ev, vl_updatedAt = ev_timestamp ev,
              vl_currentVeWei = Some ve\<rparr>;
     modify (saveVeLock i l);
     let user = user\<lparr>us_totalLockedClaimWei := Some (as_BigInt (us_totalLockedClaimWei user) + p_amount)\<rparr>;
     let user = replaceUserVeContribution user 0 ve;
     modify (saveUser (user_id p_user) user);
     modify (saveVeLog (eventId ev)
       (VeLockCreatedEvent (user_id p_user) p_tokenId p_amount p_lockEnd p_autoMax
          (ev_timestamp ev) (ev_blockNumber ev) (ev_txHash ev)));
     refreshTokenPricingSnapshot c (ev_address ev) (ev_blockNumber ev) (ev_timestamp ev);
     refreshAprAfterLockChange c (ev_blockNumber ev) (ev_timestamp ev)
   }"

definition handleLockExtended ::
  "chain \<Rightarrow> eth_event \<Rightarrow> address \<Rightarrow> int \<Rightarrow> int \<Rightarrow> unit handler" where
  "handleLockExtended c ev p_user p_tokenId p_newEnd = do {
     protocol \<leftarrow> seedVeClaimNft c ev;
     user \<leftarrow> loadOrCreateUser p_user;
     let user = ensureUserVeFields user;
     let now = ev_timestamp ev;
     l \<leftarrow> loadOrCreateVeLock p_tokenId p_user now;
     let oldEnd = vl_lockEnd l;
     let oldVe = lockVeSnapshot l now;
     let l = l\<lparr>vl_owner := user_id p_user, vl_lockEnd := p_newEnd, vl_updatedAt := now\<rparr>;
     let newVe = currentVeWei (vl_amountWei l) (vl_lockEnd l) now (vl_autoMax l);
     let l = l\<lparr>vl_currentVeWei := Some newVe\<rparr>;
     modify (saveVeLock (int_string p_tokenId) l);
     let user = replaceUserVeContribution user oldVe newVe;
     modify (saveUser (user_id p_user) user);
     modify (saveVeLog (eventId ev)
       (VeLockExtendedEvent (user_id p_user) p_tokenId oldEnd p_newEnd now
          (ev_blockNumber ev) (ev_txHash ev)))
   }"

definition handleLockAmountIncreased ::
  "chain \<Rightarrow> eth_event \<Rightarrow> address \<Rightarrow> int \<Rightarrow> int \<Rightarrow> unit handler" where
  "handleLockAmountIncreased c ev p_user p_tokenId p_amountAdded = do {
     protocol \<leftarrow> seedVeClaimNft c ev;
     user \<leftarrow> loadOrCreateUser p_user;
     let user = ensureUserVeFields user;
     let now = ev_timestamp ev;
     l \<leftarrow> loadOrCreateVeLock p_tokenId p_user now;
     let oldVe = lockVeSnapshot l now;
     let l = l\<lparr>vl_owner := user_id p_user, vl_amountWei := vl_amountWei l + p_amountAdded,
               vl_updatedAt := now\<rparr>;
     let newVe = currentVeWei (vl_amountWei l) (vl_lockEnd l) now (vl_autoMax l);
     let l = l\<lparr>vl_currentVeWei := Some newVe\<rparr>;
     modify (saveVeLock (int_string p_tokenId) l);
     let user = user\<lparr>us_totalLockedClaimWei :=
                       Some (as_BigInt (us_totalLockedClaimWei user) + p_amountAdded)\<rparr>;
     let user = replaceUserVeContribution user oldVe newVe;
     modify (saveUser (user_id p_user) user);
     modify (saveVeLog (eventId ev)
       (VeLockAmountIncreasedEvent (user_id p_user) p_tokenId p_amountAdded (vl_amountWei l) now
          (ev_blockNumber ev) (ev_txHash ev)));
     refreshTokenPricingSnapshot c (ev_address ev) (ev_blockNumber ev) (ev_timestamp ev);
     refreshAprAfterLockChange c (ev_blockNumber ev) (ev_timestamp ev)
   }"

text \<open>
  The two halves of a merge: what the mapping computes for the burned source and for the
  destination, in the order of its assignments.
\<close>

definition merge_into :: "int \<Rightarrow> int \<Rightarrow> string \<Rightarrow> ve_lock \<Rightarrow> ve_lock \<Rightarrow> ve_lock" where
  "merge_into now amountMoved userId fromLock intoLock =
     (let intoLock = intoLock\<lparr>vl_owner := userId\<rparr>;
          intoLock = intoLock\<lparr>vl_amountWei := vl_amountWei intoLock + amountMoved\<rparr>;
          intoLock = intoLock\<lparr>vl_updatedAt := now\<rparr>;
          intoLock = intoLock\<lparr>vl_autoMax := vl_autoMax intoLock \<or> vl_autoMax fromLock\<rparr>;
          intoLock = (if vl_autoMax intoLock
                      then intoLock\<lparr>vl_lockEnd := now + MAX_LOCK_DURATION_SECONDS\<rparr>
                      else if vl_lockEnd fromLock > vl_lockEnd intoLock
                      then intoLock\<lparr>vl_lockEnd := vl_lockEnd fromLock\<rparr>
                      else intoLock)
      in intoLock\<lparr>vl_currentVeWei := Some (currentVeWei (vl_amountWei intoLock)
                     (vl_lockEnd intoLock) now (vl_autoMax intoLock))\<rparr>)"

definition merge_from :: "int \<Rightarrow> int \<Rightarrow> string \<Rightarrow> ve_lock \<Rightarrow> ve_lock" where
  "merge_from now amountMoved zeroId fromLock =
     (let fromLock = fromLock\<lparr>vl_amountWei := minus_clamped (vl_amountWei fromLock) amountMoved\<rparr>;
          fromLock = fromLock\<lparr>vl_updatedAt := now, vl_owner := zeroId, vl_listed := False\<rparr>;
          newFromVe = currentVeWei (vl_amountWei fromLock) (vl_lockEnd fromLock) now
                        (vl_autoMax fromLock);
          fromLock = (if vl_amountWei fromLock = 0
                      then fromLock\<lparr>vl_lockEnd := 0, vl_autoMax := False\<rparr> else fromLock)
      in fromLock\<lparr>vl_currentVeWei := Some newFromVe\<rparr>)"

definition handleLockMerged ::
  "chain \<Rightarrow> eth_event \<Rightarrow> address \<Rightarrow> int \<Rightarrow> int \<Rightarrow> int \<Rightarrow> unit handler" where
  "handleLockMerged c ev p_user p_fromTokenId p_intoTokenId p_amountMoved = do {
     protocol \<leftarrow> seedVeClaimNft c ev;
     user \<leftarrow> loadOrCreateUser p_user;
     let user = ensureUserVeFields user;
     let now = ev_timestamp ev;
     fromLock \<leftarrow> loadOrCreateVeLock p_fromTokenId p_user now;
     intoLock \<leftarrow> loadOrCreateVeLock p_intoTokenId p_user now;
     let oldFromVe = lockVeSnapshot fromLock now;
     let oldIntoVe = lockVeSnapshot intoLock now;
     let newInto = merge_into now p_amountMoved (user_id p_user) fromLock intoLock;
     zeroUser \<leftarrow> loadOrCreateUser ZERO_ADDRESS;
     (if vl_listed fromLock then deactivateListing (int_string p_fromTokenId) now else skip);
     let newFrom = merge_from now p_amountMoved (user_id ZERO_ADDRESS) fromLock;
     modify (saveVeLock (int_string p_fromTokenId) newFrom);
     modify (saveVeLock (int_string p_intoTokenId) newInto);
     let oldTotal = oldFromVe + oldIntoVe;
     let newTotal = as_BigInt (vl_currentVeWei newFrom) + as_BigInt (vl_currentVeWei newInto);
     let user = replaceUserVeContribution user oldTotal newTotal;
     modify (saveUser (user_id p_user) user);
     modify (saveVeLog (eventId ev)
       (VeLockMergedEvent (user_id p_user) p_fromTokenId p_intoTokenId p_amountMoved
          (vl_amountWei newFrom) (vl_amountWei newInto) now (ev_blockNumber ev) (ev_txHash ev)))
   }"

definition handleLockUnlocked ::
  "chain \<Rightarrow> eth_event \<Rightarrow> address \<Rightarrow> int \<Rightarrow> int \<Rightarrow> unit handler" where
  "handleLockUnlocked c ev p_user p_tokenId p_amountReturned = do {
     protocol \<leftarrow> seedVeClaimNft c ev;
     user \<leftarrow> loadOrCreateUser p_user;
     let user = ensureUserVeFields user;
     let now = ev_timestamp ev;
     l \<leftarrow> loadOrCreateVeLock p_tokenId p_user now;
     let oldVe = lockVeSnapshot l now;
     let wasListed = vl_listed l;
     let l = l\<lparr>vl_amountWei := minus_clamped (vl_amountWei l) p_amountReturned\<rparr>;
     zeroUser \<leftarrow> loadOrCreateUser ZERO_ADDRESS;
     let l = l\<lparr>vl_owner := user_id ZERO_ADDRESS\<rparr>;
     (if wasListed then deactivateListing (int_string p_tokenId) now else skip);
     let l = l\<lparr>vl_listed := False, vl_updatedAt := now\<rparr>;
     let l = (if vl_amountWei l = 0 then l\<lparr>vl_lockEnd := 0, vl_autoMax := False\<rparr> else l);
     let newVe = currentVeWei (vl_amountWei l) (vl_lockEnd l) now (vl_autoMax l);
     let l = l\<lparr>vl_currentVeWei := Some newVe\<rparr>;
     modify (saveVeLock (int_string p_tokenId) l);
     let user = user\<lparr>us_totalLockedClaimWei :=
                       Some (minus_clamped (as_BigInt (us_totalLockedClaimWei user)) p_amountReturned)\<rparr>;
     let user = replaceUserVeContribution user oldVe newVe;
     modify (saveUser (user_id p_user) user);
     modify (saveVeLog (eventId ev)
       (VeLockUnlockedEvent (user_id p_user) p_tokenId p_amountReturned (vl_amountWei l) now
          (ev_blockNumber ev) (ev_txHash ev)));
     refreshTokenPricingSnapshot c (ev_address ev) (ev_blockNumber ev) (ev_timestamp ev);
     refreshAprAfterLockChange c (ev_blockNumber ev) (ev_timestamp ev)
   }"

definition handleAutoMaxSet ::
  "chain \<Rightarrow> eth_event \<Rightarrow> address \<Rightarrow> int \<Rightarrow> bool \<Rightarrow> unit handler" where
  "handleAutoMaxSet c ev p_user p_tokenId p_autoMax = do {
     protocol \<leftarrow> seedVeClaimNft c ev;
     let now = ev_timestamp ev;
     user \<leftarrow> loadOrCreateUser p_user;
     let user = ensureUserVeFields user;
     l \<leftarrow> loadOrCreateVeLock p_tokenId p_user now;
     let oldVe = lockVeSnapshot l now;
     let l = l\<lparr>vl_autoMax := p_autoMax, vl_lockEnd := now + MAX_LOCK_DURATION_SECONDS,
               vl_updatedAt := now\<rparr>;
     let newVe = currentVeWei (vl_amountWei l) (vl_lockEnd l) now (vl_autoMax l);
     let l = l\<lparr>vl_currentVeWei := Some newVe\<rparr>;
     modify (saveVeLock (int_string p_tokenId) l);
     let user = replaceUserVeContribution user oldVe newVe;
     modify (saveUser (user_id p_user) user);
     modify (saveVeLog (eventId ev)
       (VeLockAutoMaxSetEvent (user_id p_user) p_tokenId p_autoMax now (ev_blockNumber ev)
          (ev_txHash ev)))
   }"

text \<open>
  \<open>handleTransfer\<close> has three paths. The burn path first resolves the Furnace address: the stored
  one, or off a local network the contract read, which it then backfills.
\<close>

definition resolveFurnace :: "chain \<Rightarrow> eth_event \<Rightarrow> protocol \<Rightarrow> address handler" where
  "resolveFurnace c ev protocol = do {
     let furnaceAddr = pr_furnace protocol;
     (if isZeroAddress furnaceAddr \<and> \<not> isLocalNetwork c
      then (case try_furnace c (ev_address ev) of
              Some v \<Rightarrow>
                if \<not> isZeroAddress v
                then do {
                  modify (saveProtocol PROTOCOL_ID
                    (protocol\<lparr>pr_furnace := setBytesIfZero (pr_furnace protocol) v\<rparr>));
                  ret v
                }
                else ret v
            | None \<Rightarrow> ret furnaceAddr)
      else ret furnaceAddr)
   }"

definition furnaceBurn ::
  "chain \<Rightarrow> eth_event \<Rightarrow> address \<Rightarrow> int \<Rightarrow> user \<Rightarrow> ve_lock \<Rightarrow> unit handler" where
  "furnaceBurn c ev p_from p_tokenId fromUser l = do {
     let now = ev_timestamp ev;
     let amountWei = vl_amountWei l;
     let lockEnd = vl_lockEnd l;
     let autoMax = vl_autoMax l;
     let oldVe = lockVeSnapshot l now;
     let fromUser = fromUser\<lparr>us_totalLockedClaimWei :=
           Some (minus_clamped (as_BigInt (us_totalLockedClaimWei fromUser)) amountWei)\<rparr>;
     let fromUser = replaceUserVeContribution fromUser oldVe 0;
     modify (saveUser (user_id p_from) fromUser);
     let l = l\<lparr>vl_owner := user_id ZERO_ADDRESS, vl_amountWei := 0, vl_listed := False,
               vl_updatedAt := now, vl_currentVeWei := Some 0\<rparr>;
     modify (saveVeLock (int_string p_tokenId) l);
     modify (saveVeLog (eventId ev)
       (VeLockTransferEvent p_tokenId (Some (user_id p_from)) None amountWei lockEnd autoMax now
          (ev_blockNumber ev) (ev_txHash ev)));
     refreshTokenPricingSnapshot c (ev_address ev) (ev_blockNumber ev) now;
     refreshAprAfterLockChange c (ev_blockNumber ev) now
   }"

definition burnTransfer :: "chain \<Rightarrow> eth_event \<Rightarrow> protocol \<Rightarrow> address \<Rightarrow> int \<Rightarrow> unit handler" where
  "burnTransfer c ev protocol p_from p_tokenId = do {
     fromUser \<leftarrow> loadOrCreateUser p_from;
     let fromUser = ensureUserVeFields fromUser;
     zeroUser \<leftarrow> loadOrCreateUser ZERO_ADDRESS;
     furnaceAddr \<leftarrow> resolveFurnace c ev protocol;
     let fromIsFurnace = (\<not> isZeroAddress furnaceAddr
                          \<and> toHexString furnaceAddr = toHexString p_from);
     (if \<not> fromIsFurnace then skip
      else do {
        l \<leftarrow> loadOrCreateVeLock p_tokenId p_from (ev_timestamp ev);
        (if vl_owner l = user_id ZERO_ADDRESS \<or> vl_amountWei l = 0 then skip
         else furnaceBurn c ev p_from p_tokenId fromUser l)
      })
   }"

definition normalTransfer :: "eth_event \<Rightarrow> address \<Rightarrow> address \<Rightarrow> int \<Rightarrow> unit handler" where
  "normalTransfer ev p_from p_to p_tokenId = do {
     let now = ev_timestamp ev;
     fromUser \<leftarrow> loadOrCreateUser p_from;
     toUser \<leftarrow> loadOrCreateUser p_to;
     let fromUser = ensureUserVeFields fromUser;
     let toUser = ensureUserVeFields toUser;
     l \<leftarrow> loadOrCreateVeLock p_tokenId p_from now;
     let amountWei = vl_amountWei l;
     let lockEnd = vl_lockEnd l;
     let autoMax = vl_autoMax l;
     let oldVe = lockVeSnapshot l now;
     let newVe = currentVeWei amountWei lockEnd now autoMax;
     let wasListed = vl_listed l;
     let l = l\<lparr>vl_owner := user_id p_to, vl_updatedAt := now, vl_currentVeWei := Some newVe\<rparr>;
     let l = (if wasListed then l\<lparr>vl_listed := False\<rparr> else l);
     (if wasListed then deactivateListing (int_string p_tokenId) now else skip);
     modify (saveVeLock (int_string p_tokenId) l);
     let fromUser = fromUser\<lparr>us_totalLockedClaimWei :=
           Some (minus_clamped (as_BigInt (us_totalLockedClaimWei fromUser)) amountWei)\<rparr>;
     let fromUser = replaceUserVeContribution fromUser oldVe 0;
     modify (saveUser (user_id p_from) fromUser);
     let toUser = toUser\<lparr>us_totalLockedClaimWei :=
           Some (as_BigInt (us_totalLockedClaimWei toUser) + amountWei)\<rparr>;
     let toUser = replaceUserVeContribution toUser 0 newVe;
     modify (saveUser (user_id p_to) toUser);
     modify (saveVeLog (eventId ev)
       (VeLockTransferEvent p_tokenId (Some (user_id p_from)) (Some (user_id p_to)) amountWei
          lockEnd autoMax now (ev_blockNumber ev) (ev_txHash ev)))
   }"

definition handleTransfer :: "chain \<Rightarrow> eth_event \<Rightarrow> address \<Rightarrow> address \<Rightarrow> int \<Rightarrow> unit handler" where
  "handleTransfer c ev p_from p_to p_tokenId = do {
     protocol \<leftarrow> seedVeClaimNft c ev;
     (if isZeroAddress p_from then skip
      else if p_from = p_to then skip
      else if isZeroAddress p_to then burnTransfer c ev protocol p_from p_tokenId
      else normalTransfer ev p_from p_to p_tokenId)
   }"

definition ve_handleDelegationSessionUsed ::
  "eth_event \<Rightarrow> address \<Rightarrow> address \<Rightarrow> int \<Rightarrow> int \<Rightarrow> int \<Rightarrow> int \<Rightarrow> unit handler" where
  "ve_handleDelegationSessionUsed ev p_user p_delegate p_actionType p_permsUsed p_refId p_timestamp =
     recordDelegationSessionUsed ev p_user p_delegate p_actionType p_permsUsed p_refId p_timestamp"

definition handleSlopeDriftClamped :: "eth_event \<Rightarrow> unit handler" where
  "handleSlopeDriftClamped ev =
     saveActivityItem (eventId ev)
       (new_activity ''VE_SLOPE_DRIFT_CLAMPED'' (ev_timestamp ev) (ev_txHash ev))"

definition handleShareholderCheckpointFailed :: "eth_event \<Rightarrow> address \<Rightarrow> unit handler" where
  "handleShareholderCheckpointFailed ev p_user = do {
     user \<leftarrow> loadOrCreateUser p_user;
     saveActivityItem (eventId ev)
       ((new_activity ''SHAREHOLDER_CHECKPOINT_FAILED'' (ev_timestamp ev) (ev_txHash ev))
          \<lparr>ai_user := Some (user_id p_user)\<rparr>)
   }"

section \<open>What the aggregates promise: a ledger of weights by owner\<close>

text \<open>
  The contract between the lock table and the two aggregates of a user, once for any weight of a
  lock: the balance of an owner is the sum of the weights of what it owns.
\<close>

locale owned_weight =
  fixes valid :: "'v \<Rightarrow> bool"
    and owner :: "'v \<Rightarrow> string"
    and weight :: "'v \<Rightarrow> int"
  assumes weight_nonneg: "valid v \<Longrightarrow> 0 \<le> weight v"
begin

definition balanced :: "(string \<Rightarrow> int) \<Rightarrow> 'v table \<Rightarrow> bool" where
  "balanced bal m \<longleftrightarrow> finite (dom m) \<and> (\<forall>k v. m k = Some v \<longrightarrow> valid v)
     \<and> (\<forall>i. bal i = msum (\<lambda>v. owner v = i) weight m)"

lemma balanced_empty: "balanced (\<lambda>_. 0) Map.empty"
  by (simp add: balanced_def)

lemma balancedD: "balanced bal m \<Longrightarrow> bal i = msum (\<lambda>v. owner v = i) weight m"
  by (simp add: balanced_def)

lemma balanced_nonneg: "balanced bal m \<Longrightarrow> 0 \<le> bal i"
  unfolding balanced_def using msum_nonneg weight_nonneg by (metis (mono_tags, lifting))

lemma balanced_covers:
  assumes "balanced bal m" and "m k = Some v"
  shows "weight v \<le> bal (owner v)"
  using assms msum_ge_member [of m k v "\<lambda>x. owner x = owner v" weight] weight_nonneg
  by (auto simp: balanced_def)

text \<open>Two distinct locks of one owner are covered together.\<close>

lemma balanced_covers_two:
  assumes b: "balanced bal m" and k: "m k = Some v" and j: "m j = Some w" and "k \<noteq> j"
    and "owner v = owner w"
  shows "weight v + weight w \<le> bal (owner w)"
proof -
  let ?P = "\<lambda>x. owner x = owner w" and ?m = "m(k := None)"
  have fin: "finite (dom m)" and ok: "\<And>i x. m i = Some x \<Longrightarrow> valid x" using b by (auto simp: balanced_def)
  have "m = ?m(k \<mapsto> v)" using k by auto
  then have "msum ?P weight m = msum ?P weight ?m + weight v"
    using fin msum_upd [of ?m ?P weight k v] assms(5) by simp
  moreover have "weight w \<le> msum ?P weight ?m"
  proof (rule msum_ge_member)
    show "0 \<le> weight x" if "?m i = Some x" for i x
      using that ok [of i x] weight_nonneg by (auto split: if_splits)
    show "finite (dom ?m)" by (rule finite_subset [OF _ fin]) auto
  qed (use j assms(4) in auto)
  ultimately show ?thesis using balancedD [OF b, of "owner w"] by simp
qed

text \<open>Writing one lock moves its old weight off the old owner and the new weight onto the new one.\<close>

lemma balanced_upd:
  assumes "balanced bal m" and "valid v"
    and "\<And>i. bal' i = bal i - contrib (\<lambda>x. owner x = i) weight (m k)
                + (if owner v = i then weight v else 0)"
  shows "balanced bal' (m(k \<mapsto> v))"
  using assms by (auto simp: balanced_def msum_upd)

lemma balanced_insert:
  assumes "balanced bal m" and "m k = None" and "valid v"
  shows "balanced (bal(owner v := bal (owner v) + weight v)) (m(k \<mapsto> v))"
  by (rule balanced_upd [OF assms(1,3)]) (simp add: assms(2))

lemma balanced_reweigh:
  assumes "balanced bal m" and "m k = Some u" and "valid v" and "owner v = owner u"
  shows "balanced (bal(owner u := bal (owner u) - weight u + weight v)) (m(k \<mapsto> v))"
  by (rule balanced_upd [OF assms(1,3)]) (simp add: assms(2,4))

lemma balanced_move:
  assumes "balanced bal m" and "m k = Some u" and "valid v" and "owner v \<noteq> owner u"
  shows "balanced (bal(owner u := bal (owner u) - weight u, owner v := bal (owner v) + weight v))
           (m(k \<mapsto> v))"
  by (rule balanced_upd [OF assms(1,3)]) (use assms(2,4) in auto)

lemma balanced_discard:
  assumes "balanced bal m" and "m k = Some u" and "valid v" and "weight v = 0"
  shows "balanced (bal(owner u := bal (owner u) - weight u)) (m(k \<mapsto> v))"
  by (rule balanced_upd [OF assms(1,3)]) (use assms(2,4) in auto)

end

definition lock_ok :: "ve_lock \<Rightarrow> bool" where
  "lock_ok l \<longleftrightarrow> 0 \<le> vl_amountWei l \<and> (\<exists>v. vl_currentVeWei l = Some v \<and> 0 \<le> v)"

definition lock_ve :: "ve_lock \<Rightarrow> int" where
  "lock_ve l = as_BigInt (vl_currentVeWei l)"

interpretation principal: owned_weight lock_ok vl_owner vl_amountWei
  by unfold_locales (simp add: lock_ok_def)

interpretation voting: owned_weight lock_ok vl_owner lock_ve
  by unfold_locales (auto simp: lock_ok_def lock_ve_def)

section \<open>The aggregates in the store\<close>

definition locked_in :: "user table \<Rightarrow> string \<Rightarrow> int" where
  "locked_in us i = (case us i of None \<Rightarrow> 0 | Some u \<Rightarrow> as_BigInt (us_totalLockedClaimWei u))"

definition ve_in :: "user table \<Rightarrow> string \<Rightarrow> int" where
  "ve_in us i = (case us i of None \<Rightarrow> 0 | Some u \<Rightarrow> as_BigInt (us_veBalanceWei u))"

lemma empty_totals [simp]: "locked_in Map.empty = (\<lambda>_. 0)" "ve_in Map.empty = (\<lambda>_. 0)"
  by (auto simp: locked_in_def ve_in_def)

lemma locked_in_upd [simp]:
  "locked_in (us(i \<mapsto> u)) = (locked_in us)(i := as_BigInt (us_totalLockedClaimWei u))"
  by (auto simp: locked_in_def)

lemma ve_in_upd [simp]: "ve_in (us(i \<mapsto> u)) = (ve_in us)(i := as_BigInt (us_veBalanceWei u))"
  by (auto simp: ve_in_def)

lemma user_of_totals [simp]:
  "as_BigInt (us_totalLockedClaimWei (user_of a s)) = locked_in (users s) (user_id a)"
  "as_BigInt (us_veBalanceWei (user_of a s)) = ve_in (users s) (user_id a)"
  by (auto simp: user_of_def locked_in_def ve_in_def new_user_def backfill_user_def as_BigInt_def
      split: option.splits)

lemma ensureUserVeFields_totals [simp]:
  "as_BigInt (us_totalLockedClaimWei (ensureUserVeFields u)) = as_BigInt (us_totalLockedClaimWei u)"
  "as_BigInt (us_veBalanceWei (ensureUserVeFields u)) = as_BigInt (us_veBalanceWei u)"
  "us_totalLockedClaimWei (ensureUserVeFields u) = Some (as_BigInt (us_totalLockedClaimWei u))"
  by (auto simp: ensureUserVeFields_def Let_def)

definition ve_replace :: "int \<Rightarrow> int \<Rightarrow> int \<Rightarrow> int" where
  "ve_replace agg oldVe newVe =
     (if newVe \<ge> oldVe then agg + (newVe - oldVe) else minus_clamped agg (oldVe - newVe))"

lemma replaceUserVeContribution_totals [simp]:
  "as_BigInt (us_veBalanceWei (replaceUserVeContribution u oldVe newVe))
     = ve_replace (as_BigInt (us_veBalanceWei u)) oldVe newVe"
  "as_BigInt (us_totalLockedClaimWei (replaceUserVeContribution u oldVe newVe))
     = as_BigInt (us_totalLockedClaimWei u)"
  by (simp_all add: replaceUserVeContribution_def ve_replace_def Let_def)

lemma ve_replace_exact: "oldVe \<le> agg + newVe \<Longrightarrow> ve_replace agg oldVe newVe = agg - oldVe + newVe"
  by (simp add: ve_replace_def minus_clamped_def)

lemma minus_clamped_exact [simp]: "b \<le> a \<Longrightarrow> minus_clamped a b = a - b"
  by (simp add: minus_clamped_def)

section \<open>What each handler writes to the ledger\<close>

definition ve_seeded :: "chain \<Rightarrow> eth_event \<Rightarrow> store \<Rightarrow> store" where
  "ve_seeded c ev s = snd (run_state (seedVeClaimNft c ev) s)"

definition ve_protocol :: "chain \<Rightarrow> eth_event \<Rightarrow> store \<Rightarrow> protocol" where
  "ve_protocol c ev s = fst (run_state (seedVeClaimNft c ev) s)"

lemma run_seedVeClaimNft [simp]:
  "run_state (seedVeClaimNft c ev) s = (ve_protocol c ev s, ve_seeded c ev s)"
  by (simp add: ve_seeded_def ve_protocol_def)

lemma ve_seeded_frame [frame, simp]:
  "users (ve_seeded c ev s) = users s" "veLocks (ve_seeded c ev s) = veLocks s"
  "listings (ve_seeded c ev s) = listings s" "ve_logs (ve_seeded c ev s) = ve_logs s"
  by (simp_all add: ve_seeded_def seedVeClaimNft_def Let_def store_simps)

lemma user_of_ve_seeded [simp]: "user_of a (ve_seeded c ev s) = user_of a s"
  by (rule user_of_cong) simp

lemma run_loadOrCreateVeLock_present [simp]:
  "veLocks s (int_string t) = Some l \<Longrightarrow> run_state (loadOrCreateVeLock t a now) s = (l, s)"
  by (simp add: loadOrCreateVeLock_def Let_def)

lemma exec_deactivateListing_frame [frame, simp]:
  "users (exec (deactivateListing i now) s) = users s"
  "veLocks (exec (deactivateListing i now) s) = veLocks s"
  by (auto simp: deactivateListing_def store_simps split: option.splits)

lemmas deactivateListing_run_frame [frame, simp] = exec_deactivateListing_frame [unfolded exec_def]

text \<open>The rows that the lifecycle handlers leave, for a lock that is there.\<close>

definition created_lock :: "address \<Rightarrow> int \<Rightarrow> int \<Rightarrow> int \<Rightarrow> bool \<Rightarrow> int \<Rightarrow> ve_lock" where
  "created_lock a t amt e am now =
     \<lparr>vl_tokenId = t, vl_owner = user_id a, vl_amountWei = amt, vl_lockEnd = e, vl_autoMax = am,
      vl_listed = False, vl_createdAt = now, vl_updatedAt = now,
      vl_currentVeWei = Some (currentVeWei amt e now am)\<rparr>"

definition rescheduled_lock :: "ve_lock \<Rightarrow> string \<Rightarrow> int \<Rightarrow> int \<Rightarrow> bool \<Rightarrow> int \<Rightarrow> ve_lock" where
  "rescheduled_lock l i amt e am now =
     l\<lparr>vl_owner := i, vl_amountWei := amt, vl_lockEnd := e, vl_autoMax := am, vl_updatedAt := now,
       vl_currentVeWei := Some (currentVeWei amt e now am)\<rparr>"

definition cleared_lock :: "ve_lock \<Rightarrow> int \<Rightarrow> ve_lock" where
  "cleared_lock l now =
     l\<lparr>vl_owner := user_id ZERO_ADDRESS, vl_amountWei := 0, vl_lockEnd := 0, vl_autoMax := False,
       vl_listed := False, vl_updatedAt := now, vl_currentVeWei := Some 0\<rparr>"

lemma created_ledger:
  assumes "s' = exec (handleLockCreated c ev a t amt e am) s"
  shows "veLocks s' = (veLocks s)(int_string t \<mapsto> created_lock a t amt e am (ev_timestamp ev))"
    and "locked_in (users s') = (locked_in (users s))(user_id a := locked_in (users s) (user_id a) + amt)"
    and "ve_in (users s') = (ve_in (users s))(user_id a :=
           ve_replace (ve_in (users s) (user_id a)) 0 (currentVeWei amt e (ev_timestamp ev) am))"
  by (simp_all add: assms created_lock_def handleLockCreated_def Let_def store_simps)

lemma extended_ledger:
  assumes "s' = exec (handleLockExtended c ev a t e) s" and "veLocks s (int_string t) = Some l"
  shows "veLocks s' = (veLocks s)(int_string t \<mapsto>
           rescheduled_lock l (user_id a) (vl_amountWei l) e (vl_autoMax l) (ev_timestamp ev))"
    and "locked_in (users s') = locked_in (users s)"
    and "ve_in (users s') = (ve_in (users s))(user_id a :=
           ve_replace (ve_in (users s) (user_id a)) (lockVeSnapshot l (ev_timestamp ev))
             (currentVeWei (vl_amountWei l) e (ev_timestamp ev) (vl_autoMax l)))"
  using assms(2)
  by (simp_all add: assms(1) rescheduled_lock_def handleLockExtended_def Let_def store_simps)

lemma increased_ledger:
  assumes "s' = exec (handleLockAmountIncreased c ev a t d) s" and "veLocks s (int_string t) = Some l"
  shows "veLocks s' = (veLocks s)(int_string t \<mapsto> rescheduled_lock l (user_id a)
           (vl_amountWei l + d) (vl_lockEnd l) (vl_autoMax l) (ev_timestamp ev))"
    and "locked_in (users s') = (locked_in (users s))(user_id a := locked_in (users s) (user_id a) + d)"
    and "ve_in (users s') = (ve_in (users s))(user_id a :=
           ve_replace (ve_in (users s) (user_id a)) (lockVeSnapshot l (ev_timestamp ev))
             (currentVeWei (vl_amountWei l + d) (vl_lockEnd l) (ev_timestamp ev) (vl_autoMax l)))"
  using assms(2)
  by (simp_all add: assms(1) rescheduled_lock_def handleLockAmountIncreased_def Let_def store_simps)

lemma autoMax_ledger:
  assumes "s' = exec (handleAutoMaxSet c ev a t am) s" and "veLocks s (int_string t) = Some l"
  shows "veLocks s' = (veLocks s)(int_string t \<mapsto> rescheduled_lock l (vl_owner l)
           (vl_amountWei l) (ev_timestamp ev + MAX_LOCK_DURATION_SECONDS) am (ev_timestamp ev))"
    and "locked_in (users s') = locked_in (users s)"
    and "ve_in (users s') = (ve_in (users s))(user_id a :=
           ve_replace (ve_in (users s) (user_id a)) (lockVeSnapshot l (ev_timestamp ev))
             (currentVeWei (vl_amountWei l) (ev_timestamp ev + MAX_LOCK_DURATION_SECONDS)
                (ev_timestamp ev) am))"
  using assms(2)
  by (cases l, simp_all add: assms(1) rescheduled_lock_def handleAutoMaxSet_def Let_def store_simps)

lemma unlocked_ledger:
  assumes "s' = exec (handleLockUnlocked c ev a t r) s" and "veLocks s (int_string t) = Some l"
    and "vl_amountWei l \<le> r" and "a \<noteq> ZERO_ADDRESS"
  shows "veLocks s' = (veLocks s)(int_string t \<mapsto> cleared_lock l (ev_timestamp ev))"
    and "locked_in (users s') =
           (locked_in (users s))(user_id a := minus_clamped (locked_in (users s) (user_id a)) r)"
    and "ve_in (users s') = (ve_in (users s))(user_id a :=
           ve_replace (ve_in (users s) (user_id a)) (lockVeSnapshot l (ev_timestamp ev)) 0)"
  using assms(2,3,4)
  by (auto simp: assms(1) cleared_lock_def handleLockUnlocked_def Let_def store_simps
      minus_clamped_def fun_upd_twist fun_upd_idem)

definition merged_lock :: "ve_lock \<Rightarrow> ve_lock \<Rightarrow> string \<Rightarrow> int \<Rightarrow> ve_lock" where
  "merged_lock f l i now =
     rescheduled_lock l i (vl_amountWei l + vl_amountWei f)
       (if vl_autoMax l \<or> vl_autoMax f then now + MAX_LOCK_DURATION_SECONDS
        else max (vl_lockEnd l) (vl_lockEnd f))
       (vl_autoMax l \<or> vl_autoMax f) now"

lemma merge_into_eq: "merge_into now (vl_amountWei f) i f l = merged_lock f l i now"
  by (cases l) (auto simp: merge_into_def merged_lock_def rescheduled_lock_def Let_def max_def)

lemma merge_from_eq:
  "vl_amountWei l \<le> m \<Longrightarrow> merge_from now m (user_id ZERO_ADDRESS) l = cleared_lock l now"
  by (cases l) (auto simp: merge_from_def cleared_lock_def Let_def minus_clamped_def)

lemma cleared_lock_simps [simp]:
  "vl_owner (cleared_lock l now) = user_id ZERO_ADDRESS" "vl_amountWei (cleared_lock l now) = 0"
  "vl_currentVeWei (cleared_lock l now) = Some 0"
  by (simp_all add: cleared_lock_def)

lemma rescheduled_lock_simps [simp]:
  "vl_owner (rescheduled_lock l i amt e am now) = i"
  "vl_amountWei (rescheduled_lock l i amt e am now) = amt"
  "vl_currentVeWei (rescheduled_lock l i amt e am now) = Some (currentVeWei amt e now am)"
  by (simp_all add: rescheduled_lock_def)

lemma merged_ledger:
  assumes "s' = exec (handleLockMerged c ev a tf ti (vl_amountWei f)) s"
    and "veLocks s (int_string tf) = Some f" and "veLocks s (int_string ti) = Some l"
    and "tf \<noteq> ti" and "a \<noteq> ZERO_ADDRESS"
  defines "l' \<equiv> merged_lock f l (user_id a) (ev_timestamp ev)"
  shows "veLocks s' = (veLocks s)(int_string tf \<mapsto> cleared_lock f (ev_timestamp ev),
           int_string ti \<mapsto> l')"
    and "locked_in (users s') = locked_in (users s)"
    and "ve_in (users s') = (ve_in (users s))(user_id a :=
           ve_replace (ve_in (users s) (user_id a))
             (lockVeSnapshot f (ev_timestamp ev) + lockVeSnapshot l (ev_timestamp ev))
             (lock_ve l'))"
  using assms(2-5)
  by (auto simp: assms(1) l'_def handleLockMerged_def Let_def store_simps merge_into_eq
      merge_from_eq lock_ve_def fun_upd_twist fun_upd_idem)

text \<open>The lock after a transfer to a new owner.\<close>

definition moved_lock :: "ve_lock \<Rightarrow> string \<Rightarrow> int \<Rightarrow> ve_lock" where
  "moved_lock l i now =
     l\<lparr>vl_owner := i, vl_listed := False, vl_updatedAt := now,
       vl_currentVeWei := Some (currentVeWei (vl_amountWei l) (vl_lockEnd l) now (vl_autoMax l))\<rparr>"

lemma moved_lock_simps [simp]:
  "vl_owner (moved_lock l i now) = i" "vl_amountWei (moved_lock l i now) = vl_amountWei l"
  "vl_currentVeWei (moved_lock l i now)
     = Some (currentVeWei (vl_amountWei l) (vl_lockEnd l) now (vl_autoMax l))"
  by (simp_all add: moved_lock_def)

lemma transfer_lock_eq:
  "(if vl_listed l then l\<lparr>vl_owner := i, vl_updatedAt := now, vl_currentVeWei := v, vl_listed := False\<rparr>
    else l\<lparr>vl_owner := i, vl_updatedAt := now, vl_currentVeWei := v\<rparr>)
   = l\<lparr>vl_owner := i, vl_listed := False, vl_updatedAt := now, vl_currentVeWei := v\<rparr>"
  by (cases l) simp

lemma normalTransfer_ledger:
  assumes "s' = exec (handleTransfer c ev a b t) s" and "veLocks s (int_string t) = Some l"
    and "a \<noteq> ZERO_ADDRESS" and "b \<noteq> ZERO_ADDRESS" and "a \<noteq> b"
  shows "veLocks s' = (veLocks s)(int_string t \<mapsto> moved_lock l (user_id b) (ev_timestamp ev))"
    and "locked_in (users s') = (locked_in (users s))
           (user_id a := minus_clamped (locked_in (users s) (user_id a)) (vl_amountWei l),
            user_id b := locked_in (users s) (user_id b) + vl_amountWei l)"
    and "ve_in (users s') = (ve_in (users s))
           (user_id a := ve_replace (ve_in (users s) (user_id a)) (lockVeSnapshot l (ev_timestamp ev)) 0,
            user_id b := ve_replace (ve_in (users s) (user_id b)) 0
              (currentVeWei (vl_amountWei l) (vl_lockEnd l) (ev_timestamp ev) (vl_autoMax l)))"
  using assms(2-5)
  by (auto simp: assms(1) moved_lock_def handleTransfer_def normalTransfer_def Let_def store_simps
      transfer_lock_eq fun_upd_twist fun_upd_idem)

definition furnace_of :: "chain \<Rightarrow> eth_event \<Rightarrow> protocol \<Rightarrow> address" where
  "furnace_of c ev p =
     (if pr_furnace p = ZERO_ADDRESS \<and> \<not> isLocalNetwork c
      then (case try_furnace c (ev_address ev) of Some v \<Rightarrow> v | None \<Rightarrow> pr_furnace p)
      else pr_furnace p)"

lemma run_resolveFurnace [simp]:
  "fst (run_state (resolveFurnace c ev p) s) = furnace_of c ev p"
  "users (snd (run_state (resolveFurnace c ev p) s)) = users s"
  "veLocks (snd (run_state (resolveFurnace c ev p) s)) = veLocks s"
  "listings (snd (run_state (resolveFurnace c ev p) s)) = listings s"
  by (auto simp: resolveFurnace_def furnace_of_def Let_def store_simps split: option.splits)

definition burned_lock :: "ve_lock \<Rightarrow> int \<Rightarrow> ve_lock" where
  "burned_lock l now =
     l\<lparr>vl_owner := user_id ZERO_ADDRESS, vl_amountWei := 0, vl_listed := False,
       vl_updatedAt := now, vl_currentVeWei := Some 0\<rparr>"

lemma burned_lock_simps [simp]:
  "vl_owner (burned_lock l now) = user_id ZERO_ADDRESS" "vl_amountWei (burned_lock l now) = 0"
  "vl_currentVeWei (burned_lock l now) = Some 0"
  by (simp_all add: burned_lock_def)

lemma furnaceBurn_ledger:
  assumes "s' = exec (handleTransfer c ev a ZERO_ADDRESS t) s" and "veLocks s (int_string t) = Some l"
    and "a \<noteq> ZERO_ADDRESS" and "furnace_of c ev (ve_protocol c ev s) = a"
    and "vl_owner l \<noteq> user_id ZERO_ADDRESS" and "vl_amountWei l \<noteq> 0"
  shows "veLocks s' = (veLocks s)(int_string t \<mapsto> burned_lock l (ev_timestamp ev))"
    and "locked_in (users s') = (locked_in (users s))
           (user_id a := minus_clamped (locked_in (users s) (user_id a)) (vl_amountWei l))"
    and "ve_in (users s') = (ve_in (users s))
           (user_id a := ve_replace (ve_in (users s) (user_id a)) (lockVeSnapshot l (ev_timestamp ev)) 0)"
  using assms(2-6)
  by (auto simp: assms(1) burned_lock_def handleTransfer_def burnTransfer_def furnaceBurn_def Let_def
      store_simps fun_upd_twist fun_upd_idem)

lemma noop_transfer_ledger:
  assumes "s' = exec (handleTransfer c ev a b t) s"
    and "a = ZERO_ADDRESS \<or> a = b \<or> b = ZERO_ADDRESS \<and> furnace_of c ev (ve_protocol c ev s) \<noteq> a"
  shows "veLocks s' = veLocks s" and "locked_in (users s') = locked_in (users s)"
    and "ve_in (users s') = ve_in (users s)"
  using assms(2)
  by (auto simp: assms(1) handleTransfer_def burnTransfer_def Let_def store_simps
      fun_upd_twist fun_upd_idem)

lemma cleared_burn_ledger:
  assumes "s' = exec (handleTransfer c ev a ZERO_ADDRESS t) s" and "veLocks s (int_string t) = Some l"
    and "vl_owner l = user_id ZERO_ADDRESS \<or> vl_amountWei l = 0"
  shows "veLocks s' = veLocks s" and "locked_in (users s') = locked_in (users s)"
    and "ve_in (users s') = ve_in (users s)"
  using assms(2,3)
  by (auto simp: assms(1) handleTransfer_def burnTransfer_def Let_def store_simps
      fun_upd_twist fun_upd_idem)

section \<open>The events of a contract and the ledger of its reachable stores\<close>

text \<open>
  \<open>ve_step\<close> relates the stores around one event that the veNFT contract
  (\<open>src/src/VeClaimNFT.sol\<close>) can emit in the state the indexer has seen: a lock is created
  under a fresh id with a non-negative amount and a real owner, it is extended, increased, switched
  or transferred by its owner, a merge moves the whole source, an unlock returns the whole
  principal, and a burned lock is gone. \<open>ve_unlock_after_sellback\<close> is the \<open>LockUnlocked\<close> that
  \<open>furnaceBurnAndWithdraw\<close> emits after its burn, for a Furnace that holds nothing else.
  \<open>ve_other\<close> is any handler that writes neither the lock ledger nor the aggregates.
\<close>

inductive ve_step :: "chain \<Rightarrow> store \<Rightarrow> store \<Rightarrow> bool" for c where
  ve_created: "veLocks s (int_string t) = None \<Longrightarrow> 0 \<le> amt \<Longrightarrow>
     ve_step c s (exec (handleLockCreated c ev a t amt e am) s)"
| ve_extended: "veLocks s (int_string t) = Some l \<Longrightarrow> vl_owner l = user_id a \<Longrightarrow>
     ve_step c s (exec (handleLockExtended c ev a t e) s)"
| ve_increased: "veLocks s (int_string t) = Some l \<Longrightarrow> vl_owner l = user_id a \<Longrightarrow> 0 \<le> d \<Longrightarrow>
     ve_step c s (exec (handleLockAmountIncreased c ev a t d) s)"
| ve_autoMax: "veLocks s (int_string t) = Some l \<Longrightarrow> vl_owner l = user_id a \<Longrightarrow>
     ve_step c s (exec (handleAutoMaxSet c ev a t am) s)"
| ve_merged: "veLocks s (int_string tf) = Some f \<Longrightarrow> veLocks s (int_string ti) = Some l \<Longrightarrow>
     vl_owner f = user_id a \<Longrightarrow> vl_owner l = user_id a \<Longrightarrow> tf \<noteq> ti \<Longrightarrow> a \<noteq> ZERO_ADDRESS \<Longrightarrow>
     ve_step c s (exec (handleLockMerged c ev a tf ti (vl_amountWei f)) s)"
| ve_unlocked: "veLocks s (int_string t) = Some l \<Longrightarrow> vl_owner l = user_id a \<Longrightarrow> a \<noteq> ZERO_ADDRESS \<Longrightarrow>
     ve_step c s (exec (handleLockUnlocked c ev a t (vl_amountWei l)) s)"
| ve_unlock_after_sellback: "veLocks s (int_string t) = Some l \<Longrightarrow>
     vl_owner l = user_id ZERO_ADDRESS \<Longrightarrow> vl_amountWei l = 0 \<Longrightarrow> vl_currentVeWei l = Some 0 \<Longrightarrow>
     a \<noteq> ZERO_ADDRESS \<Longrightarrow> locked_in (users s) (user_id a) = 0 \<Longrightarrow> 0 \<le> r \<Longrightarrow>
     ve_step c s (exec (handleLockUnlocked c ev a t r) s)"
| ve_minted: "ve_step c s (exec (handleTransfer c ev ZERO_ADDRESS b t) s)"
| ve_self: "ve_step c s (exec (handleTransfer c ev a a t) s)"
| ve_transferred: "veLocks s (int_string t) = Some l \<Longrightarrow> vl_owner l = user_id a \<Longrightarrow>
     a \<noteq> ZERO_ADDRESS \<Longrightarrow> ve_step c s (exec (handleTransfer c ev a b t) s)"
| ve_other: "veLocks s' = veLocks s \<Longrightarrow> locked_in (users s') = locked_in (users s) \<Longrightarrow>
     ve_in (users s') = ve_in (users s) \<Longrightarrow> ve_step c s s'"

inductive ve_reachable :: "chain \<Rightarrow> store \<Rightarrow> bool" for c where
  ve_init: "ve_reachable c empty_store"
| ve_next: "ve_reachable c s \<Longrightarrow> ve_step c s s' \<Longrightarrow> ve_reachable c s'"

definition ledger_ok :: "store \<Rightarrow> bool" where
  "ledger_ok s \<longleftrightarrow> principal.balanced (locked_in (users s)) (veLocks s)
     \<and> voting.balanced (ve_in (users s)) (veLocks s)"

lemma ledger_locks_ok: "ledger_ok s \<Longrightarrow> veLocks s k = Some l \<Longrightarrow> lock_ok l"
  by (auto simp: ledger_ok_def principal.balanced_def)

lemma ledger_covers:
  assumes "ledger_ok s" and "veLocks s k = Some l"
  shows "vl_amountWei l \<le> locked_in (users s) (vl_owner l)"
    and "lock_ve l \<le> ve_in (users s) (vl_owner l)"
  using assms principal.balanced_covers voting.balanced_covers by (auto simp: ledger_ok_def)

lemma lockVeSnapshot_ok [simp]: "lock_ok l \<Longrightarrow> lockVeSnapshot l now = lock_ve l"
  by (auto simp: lock_ok_def lockVeSnapshot_def lock_ve_def)

lemma lock_ok_ve_nonneg: "lock_ok l \<Longrightarrow> 0 \<le> lock_ve l"
  by (auto simp: lock_ok_def lock_ve_def)

lemma ledger_insert:
  assumes ok: "ledger_ok s" and k: "veLocks s k = None" and l: "lock_ok l"
    and s': "veLocks s' = (veLocks s)(k \<mapsto> l)"
      "locked_in (users s') = (locked_in (users s))
         (vl_owner l := locked_in (users s) (vl_owner l) + vl_amountWei l)"
      "ve_in (users s') = (ve_in (users s))
         (vl_owner l := ve_replace (ve_in (users s) (vl_owner l)) 0 (lock_ve l))"
  shows "ledger_ok s'"
  using ok k l lock_ok_ve_nonneg [OF l]
    principal.balanced_insert [of "locked_in (users s)" "veLocks s" k l]
    voting.balanced_insert [of "ve_in (users s)" "veLocks s" k l]
  by (simp add: ledger_ok_def s' ve_replace_def)

lemma ledger_reweigh:
  assumes ok: "ledger_ok s" and k: "veLocks s k = Some u" and l: "lock_ok l"
    and own: "vl_owner l = vl_owner u"
    and s': "veLocks s' = (veLocks s)(k \<mapsto> l)"
      "locked_in (users s') = (locked_in (users s))(vl_owner u :=
         locked_in (users s) (vl_owner u) + (vl_amountWei l - vl_amountWei u))"
      "ve_in (users s') = (ve_in (users s))(vl_owner u :=
         ve_replace (ve_in (users s) (vl_owner u)) (lock_ve u) (lock_ve l))"
  shows "ledger_ok s'"
proof -
  have "ve_replace (ve_in (users s) (vl_owner u)) (lock_ve u) (lock_ve l)
      = ve_in (users s) (vl_owner u) - lock_ve u + lock_ve l"
    using ledger_covers(2) [OF ok k] lock_ok_ve_nonneg [OF l] by (intro ve_replace_exact) simp
  moreover have "locked_in (users s) (vl_owner u) + (vl_amountWei l - vl_amountWei u)
      = locked_in (users s) (vl_owner u) - vl_amountWei u + vl_amountWei l" by simp
  ultimately show ?thesis
    using ok principal.balanced_reweigh [where m = "veLocks s", OF _ k l own]
      voting.balanced_reweigh [where m = "veLocks s", OF _ k l own]
    by (simp only: ledger_ok_def s' simp_thms)
qed

lemma ledger_discard:
  assumes ok: "ledger_ok s" and k: "veLocks s k = Some u" and l: "lock_ok l"
    and zero: "vl_amountWei l = 0" "lock_ve l = 0"
    and s': "veLocks s' = (veLocks s)(k \<mapsto> l)"
      "locked_in (users s') = (locked_in (users s))(vl_owner u :=
         minus_clamped (locked_in (users s) (vl_owner u)) (vl_amountWei u))"
      "ve_in (users s') = (ve_in (users s))(vl_owner u :=
         ve_replace (ve_in (users s) (vl_owner u)) (lock_ve u) 0)"
  shows "ledger_ok s'"
  using ok ledger_covers [OF ok k] principal.balanced_discard [where m = "veLocks s", OF _ k l zero(1)]
    voting.balanced_discard [where m = "veLocks s", OF _ k l zero(2)]
  by (simp add: ledger_ok_def s' ve_replace_exact)

lemma ledger_move:
  assumes ok: "ledger_ok s" and k: "veLocks s k = Some u" and l: "lock_ok l"
    and own: "vl_owner l \<noteq> vl_owner u" and amt: "vl_amountWei l = vl_amountWei u"
    and s': "veLocks s' = (veLocks s)(k \<mapsto> l)"
      "locked_in (users s') = (locked_in (users s))
         (vl_owner u := minus_clamped (locked_in (users s) (vl_owner u)) (vl_amountWei u),
          vl_owner l := locked_in (users s) (vl_owner l) + vl_amountWei l)"
      "ve_in (users s') = (ve_in (users s))
         (vl_owner u := ve_replace (ve_in (users s) (vl_owner u)) (lock_ve u) 0,
          vl_owner l := ve_replace (ve_in (users s) (vl_owner l)) 0 (lock_ve l))"
  shows "ledger_ok s'"
proof -
  have "ve_replace (ve_in (users s) (vl_owner l)) 0 (lock_ve l)
      = ve_in (users s) (vl_owner l) + lock_ve l"
    using lock_ok_ve_nonneg [OF l] by (simp add: ve_replace_def)
  then show ?thesis
    using ok ledger_covers [OF ok k] principal.balanced_move [where m = "veLocks s", OF _ k l own]
      voting.balanced_move [where m = "veLocks s", OF _ k l own]
    by (simp add: ledger_ok_def s' amt ve_replace_exact)
qed

text \<open>A merge is two writes: the source is discarded, then the destination gains its weight.\<close>

lemma ledger_merge:
  assumes ok: "ledger_ok s" and f: "veLocks s k = Some f" and u: "veLocks s j = Some u" and kj: "k \<noteq> j"
    and own: "vl_owner f = vl_owner u" "vl_owner l = vl_owner u"
    and d: "lock_ok d" "vl_amountWei d = 0" "lock_ve d = 0"
    and l: "lock_ok l" "vl_amountWei l = vl_amountWei u + vl_amountWei f"
    and s': "veLocks s' = (veLocks s)(k \<mapsto> d, j \<mapsto> l)" "locked_in (users s') = locked_in (users s)"
      "ve_in (users s') = (ve_in (users s))(vl_owner u :=
         ve_replace (ve_in (users s) (vl_owner u)) (lock_ve f + lock_ve u) (lock_ve l))"
  shows "ledger_ok s'"
proof -
  let ?o = "vl_owner u" and ?L = "locked_in (users s)" and ?V = "ve_in (users s)"
  note bal = ok [unfolded ledger_ok_def]
  have j: "((veLocks s)(k \<mapsto> d)) j = Some u" using kj u by simp
  have "lock_ve f + lock_ve u \<le> ?V ?o"
    using voting.balanced_covers_two [OF bal [THEN conjunct2] f u kj own(1)] .
  then have ve: "ve_replace (?V ?o) (lock_ve f + lock_ve u) (lock_ve l)
      = ?V ?o - lock_ve f - lock_ve u + lock_ve l"
    using lock_ok_ve_nonneg [OF l(1)] by (subst ve_replace_exact) auto
  have "principal.balanced (?L(?o := ?L ?o - vl_amountWei f)) ((veLocks s)(k \<mapsto> d))"
    using principal.balanced_discard [OF bal [THEN conjunct1] f d(1,2)] own(1) by simp
  from principal.balanced_reweigh [where m = "(veLocks s)(k \<mapsto> d)", OF this j l(1) own(2)]
  have P: "principal.balanced ?L ((veLocks s)(k \<mapsto> d, j \<mapsto> l))" using l(2) by simp
  have "voting.balanced (?V(?o := ?V ?o - lock_ve f)) ((veLocks s)(k \<mapsto> d))"
    using voting.balanced_discard [OF bal [THEN conjunct2] f d(1,3)] own(1) by simp
  from voting.balanced_reweigh [where m = "(veLocks s)(k \<mapsto> d)", OF this j l(1) own(2)]
  have "voting.balanced (?V(?o := ?V ?o - lock_ve f - lock_ve u + lock_ve l))
      ((veLocks s)(k \<mapsto> d, j \<mapsto> l))" by simp
  with P show ?thesis by (simp add: ledger_ok_def s' ve)
qed

lemma lock_ok_simps [simp]:
  "lock_ok (created_lock a t amt e am now) \<longleftrightarrow> 0 \<le> amt \<and> 0 \<le> currentVeWei amt e now am"
  "lock_ok (rescheduled_lock l i amt e am now) \<longleftrightarrow> 0 \<le> amt \<and> 0 \<le> currentVeWei amt e now am"
  "lock_ok (cleared_lock l now)" "lock_ok (burned_lock l now)"
  "lock_ok (moved_lock l i now) \<longleftrightarrow> 0 \<le> vl_amountWei l
     \<and> 0 \<le> currentVeWei (vl_amountWei l) (vl_lockEnd l) now (vl_autoMax l)"
  by (simp_all add: lock_ok_def created_lock_def)

lemma lock_ve_simps [simp]:
  "lock_ve (created_lock a t amt e am now) = currentVeWei amt e now am"
  "lock_ve (rescheduled_lock l i amt e am now) = currentVeWei amt e now am"
  "lock_ve (cleared_lock l now) = 0" "lock_ve (burned_lock l now) = 0"
  "lock_ve (moved_lock l i now) = currentVeWei (vl_amountWei l) (vl_lockEnd l) now (vl_autoMax l)"
  by (simp_all add: lock_ve_def created_lock_def)

lemma created_lock_simps [simp]:
  "vl_owner (created_lock a t amt e am now) = user_id a"
  "vl_amountWei (created_lock a t amt e am now) = amt"
  by (simp_all add: created_lock_def)

lemma lock_ok_amount: "lock_ok l \<Longrightarrow> 0 \<le> vl_amountWei l"
  by (simp add: lock_ok_def)

text \<open>A second write of the same balance, as the self-transfer of nothing leaves it.\<close>

lemma ledger_cong:
  "ledger_ok s \<Longrightarrow> veLocks s' = veLocks s \<Longrightarrow> locked_in (users s') = locked_in (users s) \<Longrightarrow>
   ve_in (users s') = ve_in (users s) \<Longrightarrow> ledger_ok s'"
  by (simp add: ledger_ok_def)

lemma ledger_burn_step:
  assumes ok: "ledger_ok s" and l: "veLocks s (int_string t) = Some l" and own: "vl_owner l = user_id a"
    and a: "a \<noteq> ZERO_ADDRESS"
  shows "ledger_ok (exec (handleTransfer c ev a ZERO_ADDRESS t) s)"
proof -
  let ?s' = "exec (handleTransfer c ev a ZERO_ADDRESS t) s"
  consider (user) "furnace_of c ev (ve_protocol c ev s) \<noteq> a"
    | (empty) "vl_amountWei l = 0"
    | (furnace) "furnace_of c ev (ve_protocol c ev s) = a" "vl_amountWei l \<noteq> 0" by blast
  then show ?thesis
  proof cases
    case user
    then show ?thesis by (intro ledger_cong [OF ok]) (rule noop_transfer_ledger [OF refl], simp)+
  next
    case empty
    then show ?thesis
      by (intro ledger_cong [OF ok]) (rule cleared_burn_ledger [OF refl l], simp)+
  next
    case furnace
    note L = furnaceBurn_ledger [of ?s', OF refl l a furnace(1) _ furnace(2)]
    show ?thesis
      by (rule ledger_discard [OF ok l, of "burned_lock l (ev_timestamp ev)"])
         (use L ledger_locks_ok [OF ok l] own a in simp_all)
  qed
qed

lemma ledger_unlock_after_sellback:
  assumes ok: "ledger_ok s" and l: "veLocks s (int_string t) = Some l"
    and zero: "vl_owner l = user_id ZERO_ADDRESS" "vl_amountWei l = 0" "vl_currentVeWei l = Some 0"
    and a: "a \<noteq> ZERO_ADDRESS" and none: "locked_in (users s) (user_id a) = 0" and r: "0 \<le> r"
  shows "ledger_ok (exec (handleLockUnlocked c ev a t r) s)"
proof -
  let ?s' = "exec (handleLockUnlocked c ev a t r) s" and ?l = "cleared_lock l (ev_timestamp ev)"
  have U: "veLocks ?s' = (veLocks s)(int_string t \<mapsto> ?l)"
      "locked_in (users ?s') = locked_in (users s)" "ve_in (users ?s') = ve_in (users s)"
    using unlocked_ledger [of ?s', OF refl l _ a] zero none r
    by (auto simp: lockVeSnapshot_def ve_replace_def minus_clamped_def fun_upd_idem)
  have "principal.balanced (locked_in (users s)) ((veLocks s)(int_string t \<mapsto> ?l))"
    using ok zero by (intro principal.balanced_upd) (auto simp: ledger_ok_def l)
  moreover have "voting.balanced (ve_in (users s)) ((veLocks s)(int_string t \<mapsto> ?l))"
    using ok zero by (intro voting.balanced_upd) (auto simp: ledger_ok_def l lock_ve_def)
  ultimately show ?thesis by (simp add: ledger_ok_def U)
qed

lemma ledger_merge_step:
  assumes f: "veLocks s (int_string tf) = Some f" and l: "veLocks s (int_string ti) = Some l"
    and own: "vl_owner f = user_id a" "vl_owner l = user_id a" and ne: "tf \<noteq> ti"
    and a: "a \<noteq> ZERO_ADDRESS" and ok: "ledger_ok s"
  shows "ledger_ok (exec (handleLockMerged c ev a tf ti (vl_amountWei f)) s)"
proof -
  note okf = ledger_locks_ok [OF ok f] and okl = ledger_locks_ok [OF ok l]
  let ?l = "merged_lock f l (user_id a) (ev_timestamp ev)"
  have keys: "int_string tf \<noteq> int_string ti" using ne by (simp add: int_string_inj)
  have amt: "0 \<le> vl_amountWei l + vl_amountWei f" using lock_ok_amount okf okl by fastforce
  then have lok: "lock_ok ?l" "vl_owner ?l = user_id a" "vl_amountWei ?l = vl_amountWei l + vl_amountWei f"
    by (simp_all add: merged_lock_def currentVeWei_nonneg)
  show ?thesis
    by (rule ledger_merge [OF ok f l keys, of ?l "cleared_lock f (ev_timestamp ev)"])
       (use own lok okf okl merged_ledger [OF refl f l ne a, of c ev] in simp_all)
qed

lemma ledger_transfer_step:
  assumes l: "veLocks s (int_string t) = Some l" and own: "vl_owner l = user_id a"
    and a: "a \<noteq> ZERO_ADDRESS" and ok: "ledger_ok s"
  shows "ledger_ok (exec (handleTransfer c ev a b t) s)"
proof -
  note lok = ledger_locks_ok [OF ok l]
  consider (burn) "b = ZERO_ADDRESS" | (self) "a = b" | (move) "b \<noteq> ZERO_ADDRESS" "a \<noteq> b" by blast
  then show ?thesis
  proof cases
    case burn
    then show ?thesis using ledger_burn_step [OF ok l own a] by simp
  next
    case self
    show ?thesis by (intro ledger_cong [OF ok]) (rule noop_transfer_ledger [OF refl], simp add: self)+
  next
    case move
    show ?thesis
      by (rule ledger_move [OF ok l, of "moved_lock l (user_id b) (ev_timestamp ev)"])
         (use own move lok lock_ok_amount [OF lok] normalTransfer_ledger [OF refl l a move, of c ev] in
            \<open>simp_all add: currentVeWei_nonneg\<close>)
  qed
qed

lemma ve_step_ledger: "ve_step c s s' \<Longrightarrow> ledger_ok s \<Longrightarrow> ledger_ok s'"
proof (induction rule: ve_step.induct)
  case (ve_created s t amt ev a e am)
  let ?now = "ev_timestamp ev"
  show ?case
    by (rule ledger_insert [OF ve_created(3,1), of "created_lock a t amt e am ?now"])
       (use ve_created created_ledger [OF refl, of c ev a t amt e am s] in
          \<open>simp_all add: currentVeWei_nonneg\<close>)
next
  case (ve_extended s t l a ev e)
  note ok = ledger_locks_ok [OF ve_extended(3,1)]
  show ?case
    by (rule ledger_reweigh [OF ve_extended(3,1),
          of "rescheduled_lock l (user_id a) (vl_amountWei l) e (vl_autoMax l) (ev_timestamp ev)"])
       (use ve_extended extended_ledger [OF refl ve_extended(1), of c ev a e] ok lock_ok_amount [OF ok] in
          \<open>simp_all add: currentVeWei_nonneg\<close>)
next
  case (ve_increased s t l a d ev)
  note ok = ledger_locks_ok [OF ve_increased(4,1)]
  show ?case
    by (rule ledger_reweigh [OF ve_increased(4,1), of "rescheduled_lock l (user_id a)
          (vl_amountWei l + d) (vl_lockEnd l) (vl_autoMax l) (ev_timestamp ev)"])
       (use ve_increased increased_ledger [OF refl ve_increased(1), of c ev a d] ok lock_ok_amount [OF ok] in
          \<open>simp_all add: currentVeWei_nonneg\<close>)
next
  case (ve_autoMax s t l a ev am)
  note ok = ledger_locks_ok [OF ve_autoMax(3,1)]
  show ?case
    by (rule ledger_reweigh [OF ve_autoMax(3,1), of "rescheduled_lock l (vl_owner l) (vl_amountWei l)
          (ev_timestamp ev + MAX_LOCK_DURATION_SECONDS) am (ev_timestamp ev)"])
       (use ve_autoMax autoMax_ledger [OF refl ve_autoMax(1), of c ev a am] ok lock_ok_amount [OF ok] in
          \<open>simp_all add: currentVeWei_nonneg\<close>)
next
  case (ve_merged s tf f ti l a ev)
  then show ?case by (intro ledger_merge_step)
next
  case (ve_unlocked s t l a ev)
  note ok = ledger_locks_ok [OF ve_unlocked(4,1)]
  show ?case
    by (rule ledger_discard [OF ve_unlocked(4,1), of "cleared_lock l (ev_timestamp ev)"])
       (use ve_unlocked unlocked_ledger [OF refl ve_unlocked(1) order_refl ve_unlocked(3), of c ev] ok
          in simp_all)
next
  case (ve_unlock_after_sellback s t l a r ev)
  then show ?case by (intro ledger_unlock_after_sellback)
next
  case (ve_minted s ev b t)
  show ?case by (intro ledger_cong [OF ve_minted]) (rule noop_transfer_ledger [OF refl], simp)+
next
  case (ve_self s ev a t)
  show ?case by (intro ledger_cong [OF ve_self]) (rule noop_transfer_ledger [OF refl], simp)+
next
  case (ve_transferred s t l a ev b)
  then show ?case by (intro ledger_transfer_step)
next
  case (ve_other s' s)
  then show ?case by (simp add: ledger_ok_def)
qed

lemma ledger_init: "ledger_ok empty_store"
  by (simp add: ledger_ok_def principal.balanced_empty voting.balanced_empty)

lemma reachable_ledger: "ve_reachable c s \<Longrightarrow> ledger_ok s"
  by (induction rule: ve_reachable.induct) (auto intro: ledger_init ve_step_ledger)

section \<open>Properties\<close>

text \<open>
  C1. In every store reachable by the events of the veNFT contract, each user's
  \<open>totalLockedClaimWei\<close> is the sum of the amounts of the locks it owns and its \<open>veBalanceWei\<close> the
  sum of their voting-weight snapshots: no clamp ever hides a difference.
\<close>

theorem ve_ledger_conserved:
  assumes "ve_reachable c s"
  shows "locked_in (users s) i = msum (\<lambda>l. vl_owner l = i) vl_amountWei (veLocks s)
    \<and> ve_in (users s) i = msum (\<lambda>l. vl_owner l = i) lock_ve (veLocks s)"
  using reachable_ledger [OF assms] principal.balancedD voting.balancedD
  by (auto simp: ledger_ok_def)

lemma ve_ledger_witness:
  "let s = exec (handleTransfer local_chain sample_event [1] [2] 7)
             (exec (handleLockCreated local_chain sample_event [1] 7 1000 0 True) empty_store)
   in locked_in (users s) (user_id [2]) = msum (\<lambda>l. vl_owner l = user_id [2]) vl_amountWei (veLocks s)
      \<and> locked_in (users s) (user_id [2]) = 1000 \<and> locked_in (users s) (user_id [1]) = 0"
proof -
  let ?s1 = "exec (handleLockCreated local_chain sample_event [1] 7 1000 0 True) empty_store"
  let ?s2 = "exec (handleTransfer local_chain sample_event [1] [2] 7) ?s1"
  note C = created_ledger [OF refl, of local_chain sample_event "[1]" 7 1000 0 True empty_store]
  have none: "veLocks empty_store (int_string 7) = None" by simp
  have l: "veLocks ?s1 (int_string 7) = Some (created_lock [1] 7 1000 0 True (ev_timestamp sample_event))"
    by (simp add: C)
  have r1: "ve_reachable local_chain ?s1"
    by (rule ve_next [OF ve_init]) (rule ve_created [OF none], simp)
  have z: "[1] \<noteq> ZERO_ADDRESS" "[2] \<noteq> ZERO_ADDRESS"
    by (simp_all add: short_address_neq)
  have r2: "ve_reachable local_chain ?s2"
    by (rule ve_next [OF r1]) (rule ve_transferred [OF l _ z(1)], simp)
  note T = normalTransfer_ledger [OF refl l z, of local_chain sample_event]
  show ?thesis
    using ve_ledger_conserved [OF r2, of "user_id [2]"]
    by (simp add: Let_def T C)
qed

text \<open>
  The Furnace sellback. \<open>furnaceBurnAndWithdraw\<close> emits the burn \<open>Transfer\<close> and then
  \<open>LockUnlocked(furnace, tokenId, amount)\<close>; the mapping handles both, so from a balanced ledger
  the Furnace's \<open>totalLockedClaimWei\<close> ends as what its remaining locks hold minus the burned amount
  once more, clamped at zero. It is right exactly when the Furnace holds nothing else.
\<close>

theorem sellback_subtracts_twice:
  assumes "ledger_ok s" and l: "veLocks s (int_string t) = Some l" and own: "vl_owner l = user_id a"
    and a: "a \<noteq> ZERO_ADDRESS" and furnace: "furnace_of c ev (ve_protocol c ev s) = a"
    and amount: "0 < vl_amountWei l"
    and s1: "s1 = exec (handleTransfer c ev a ZERO_ADDRESS t) s"
    and s2: "s2 = exec (handleLockUnlocked c ev' a t (vl_amountWei l)) s1"
  shows "locked_in (users s2) (user_id a)
      = minus_clamped (msum (\<lambda>v. vl_owner v = user_id a) vl_amountWei (veLocks s2)) (vl_amountWei l)"
proof -
  have ok1: "ledger_ok s1" unfolding s1 by (rule ledger_burn_step [OF assms(1) l own a])
  have ne: "vl_owner l \<noteq> user_id ZERO_ADDRESS" using own a by simp
  have amt: "vl_amountWei l \<noteq> 0" using amount by simp
  note B = furnaceBurn_ledger [OF s1 l a furnace ne amt]
  let ?b = "burned_lock l (ev_timestamp ev)"
  have l1: "veLocks s1 (int_string t) = Some ?b" by (simp add: B)
  have le: "vl_amountWei ?b \<le> vl_amountWei l" using amount by simp
  note U = unlocked_ledger [OF s2 l1 le a]
  have "msum (\<lambda>v. vl_owner v = user_id a) vl_amountWei (veLocks s2)
      = msum (\<lambda>v. vl_owner v = user_id a) vl_amountWei (veLocks s1)"
    unfolding U(1)
    by (subst msum_upd) (use ok1 l1 in \<open>auto simp: ledger_ok_def principal.balanced_def\<close>)
  also have "\<dots> = locked_in (users s1) (user_id a)"
    using ok1 by (intro principal.balancedD [symmetric]) (simp add: ledger_ok_def)
  finally show ?thesis by (simp add: U(2))
qed

lemma sellback_subtracts_twice_witness:
  "let s0 = exec (handleLockCreated local_chain sample_event [5] 1 100 0 True) empty_store;
       s = exec (handleFurnaceChanged local_chain sample_event [5])
             (exec (handleLockCreated local_chain sample_event [5] 2 300 0 True) s0);
       s1 = exec (handleTransfer local_chain sample_event [5] ZERO_ADDRESS 1) s;
       s2 = exec (handleLockUnlocked local_chain sample_event [5] 1 100) s1
   in locked_in (users s2) (user_id [5]) = 200
     \<and> msum (\<lambda>v. vl_owner v = user_id [5]) vl_amountWei (veLocks s2) = 300"
proof -
  define s0 where "s0 = exec (handleLockCreated local_chain sample_event [5] 1 100 0 True) empty_store"
  define sm where "sm = exec (handleLockCreated local_chain sample_event [5] 2 300 0 True) s0"
  define s where "s = exec (handleFurnaceChanged local_chain sample_event [5]) sm"
  define s1 where "s1 = exec (handleTransfer local_chain sample_event [5] ZERO_ADDRESS 1) s"
  define s2 where "s2 = exec (handleLockUnlocked local_chain sample_event [5] 1 100) s1"
  let ?now = "ev_timestamp sample_event"
  have z: "[5] \<noteq> ZERO_ADDRESS" by (simp add: short_address_neq)
  have key: "int_string 1 \<noteq> int_string 2" by (simp add: int_string_inj)
  note C0 = created_ledger [OF s0_def] and C1 = created_ledger [OF sm_def]
  have frame: "veLocks s = veLocks sm" "users s = users sm"
    by (simp_all add: s_def handleFurnaceChanged_def Let_def store_simps)
  have l: "veLocks s (int_string 1) = Some (created_lock [5] 1 100 0 True ?now)"
    using key by (simp add: frame C0 C1)
  have "ve_reachable local_chain s0"
    unfolding s0_def by (rule ve_next [OF ve_init]) (rule ve_created, simp_all)
  then have "ve_reachable local_chain sm"
    unfolding sm_def
    by (rule ve_next) (rule ve_created, use key in \<open>simp_all add: C0\<close>)
  then have ok: "ledger_ok s" using reachable_ledger by (simp add: ledger_ok_def frame)
  have "pr_furnace (ve_protocol local_chain sample_event s) = [5]"
    by (simp add: ve_protocol_def seedVeClaimNft_def s_def handleFurnaceChanged_def Let_def store_simps
        protocol_of_def backfillEntryTokenRegistry_def split: option.splits)
  with z have f: "furnace_of local_chain sample_event (ve_protocol local_chain sample_event s) = [5]"
    by (simp add: furnace_of_def)
  have s2': "s2 = exec (handleLockUnlocked local_chain sample_event [5] 1
      (vl_amountWei (created_lock [5] 1 100 0 True ?now))) s1"
    by (simp add: s2_def)
  have amt: "0 < vl_amountWei (created_lock [5] 1 100 0 True ?now)" by simp
  note twice = sellback_subtracts_twice [OF ok l _ z f amt s1_def s2', simplified]
  note B = furnaceBurn_ledger [OF s1_def l z f, simplified] 
  note U = unlocked_ledger [OF s2_def, simplified B, simplified]
  have "locked_in (users s2) (user_id [5]) = 200"
    using z by (simp add: U B frame C0 C1 minus_clamped_def)
  with twice show ?thesis
    unfolding Let_def s2_def [symmetric] s1_def [symmetric] s_def [symmetric] sm_def [symmetric]
      s0_def [symmetric]
    by (auto simp: minus_clamped_def split: if_splits)
qed

text \<open>The listing table when a listed lock leaves its owner.\<close>

definition delisted :: "market_listing table \<Rightarrow> string \<Rightarrow> int \<Rightarrow> market_listing table" where
  "delisted ls i now =
     (case ls i of None \<Rightarrow> ls
      | Some m \<Rightarrow> if ml_active m then ls(i \<mapsto> m\<lparr>ml_active := False, ml_updatedAt := now\<rparr>) else ls)"

lemma listings_deactivateListing [simp]:
  "listings (exec (deactivateListing i now) s) = delisted (listings s) i now"
  "listings (snd (run_state (deactivateListing i now) s)) = delisted (listings s) i now"
  by (auto simp: deactivateListing_def delisted_def exec_def store_simps split: option.splits)

lemma delisted_inactive: "delisted ls i now i = Some m \<Longrightarrow> \<not> ml_active m"
  by (auto simp: delisted_def split: option.splits if_splits)

lemma delisted_other: "i \<noteq> j \<Longrightarrow> delisted ls i now j = ls j"
  by (auto simp: delisted_def split: option.splits)

lemma transfer_listings:
  assumes "veLocks s (int_string t) = Some l" and "a \<noteq> ZERO_ADDRESS" and "b \<noteq> ZERO_ADDRESS" and "a \<noteq> b"
  shows "listings (exec (handleTransfer c ev a b t) s)
    = (if vl_listed l then delisted (listings s) (int_string t) (ev_timestamp ev) else listings s)"
  using assms
  by (auto simp: handleTransfer_def normalTransfer_def Let_def store_simps)

text \<open>
  A transfer of a lock between two users, from a balanced ledger: the row changes owner and is
  no longer listed, the sender's locked principal falls and the receiver's grows by exactly the
  amount, nobody else's changes, and a listing of a listed lock ends inactive while every other
  listing is untouched.
\<close>

theorem transfer_moves_lock:
  assumes ok: "ledger_ok s" and l: "veLocks s (int_string t) = Some l" and own: "vl_owner l = user_id a"
    and ab: "a \<noteq> ZERO_ADDRESS" "b \<noteq> ZERO_ADDRESS" "a \<noteq> b"
    and s': "s' = exec (handleTransfer c ev a b t) s"
  shows "veLocks s' (int_string t) = Some (moved_lock l (user_id b) (ev_timestamp ev))
    \<and> locked_in (users s') (user_id a) = locked_in (users s) (user_id a) - vl_amountWei l
    \<and> locked_in (users s') (user_id b) = locked_in (users s) (user_id b) + vl_amountWei l
    \<and> (\<forall>i. i \<noteq> user_id a \<and> i \<noteq> user_id b \<longrightarrow> locked_in (users s') i = locked_in (users s) i)
    \<and> (\<forall>m. vl_listed l \<and> listings s' (int_string t) = Some m \<longrightarrow> \<not> ml_active m)
    \<and> (\<forall>k. k \<noteq> int_string t \<longrightarrow> listings s' k = listings s k)"
proof -
  have "vl_amountWei l \<le> locked_in (users s) (user_id a)"
    using ledger_covers(1) [OF ok l] own by simp
  then show ?thesis
    using normalTransfer_ledger [OF s' l ab] ab(3) transfer_listings [OF l ab, of c ev]
    by (auto simp: s' delisted_other dest: delisted_inactive)
qed

lemma transfer_moves_lock_witness:
  "let s = exec (handleLockCreated local_chain sample_event [1] 7 1000 0 True) empty_store;
       s' = exec (handleTransfer local_chain sample_event [1] [2] 7) s
   in map_option vl_owner (veLocks s' (int_string 7)) = Some (user_id [2])
      \<and> locked_in (users s') (user_id [1]) = 0 \<and> locked_in (users s') (user_id [2]) = 1000"
proof -
  let ?s1 = "exec (handleLockCreated local_chain sample_event [1] 7 1000 0 True) empty_store"
  note C = created_ledger [OF refl, of local_chain sample_event "[1]" 7 1000 0 True empty_store]
  have z: "[1] \<noteq> ZERO_ADDRESS" "[2] \<noteq> ZERO_ADDRESS" by (simp_all add: short_address_neq)
  have l: "veLocks ?s1 (int_string 7) = Some (created_lock [1] 7 1000 0 True (ev_timestamp sample_event))"
    by (simp add: C)
  have ok: "ledger_ok ?s1"
    by (rule reachable_ledger, rule ve_next [OF ve_init]) (rule ve_created, simp_all)
  show ?thesis
    using transfer_moves_lock [OF ok l _ z _ refl, of local_chain sample_event] by (simp add: C)
qed

text \<open>
  Merging two distinct locks of a user: the destination holds the sum of the two principals, is
  auto-max when either was, ends at the later of the two ends (or a full period from now when
  auto-max); the source row is cleared and owned by the zero address, and the user's locked
  principal does not change.
\<close>

theorem merge_combines_locks:
  assumes f: "veLocks s (int_string tf) = Some f" and l: "veLocks s (int_string ti) = Some l"
    and ne: "tf \<noteq> ti" and a: "a \<noteq> ZERO_ADDRESS"
    and s': "s' = exec (handleLockMerged c ev a tf ti (vl_amountWei f)) s"
  shows "\<exists>d. veLocks s' (int_string ti) = Some d
    \<and> vl_owner d = user_id a \<and> vl_amountWei d = vl_amountWei l + vl_amountWei f
    \<and> vl_autoMax d = (vl_autoMax l \<or> vl_autoMax f)
    \<and> vl_lockEnd d = (if vl_autoMax d then ev_timestamp ev + MAX_LOCK_DURATION_SECONDS
                      else max (vl_lockEnd l) (vl_lockEnd f))
    \<and> veLocks s' (int_string tf) = Some (cleared_lock f (ev_timestamp ev))
    \<and> locked_in (users s') = locked_in (users s)"
proof -
  have "int_string tf \<noteq> int_string ti" using ne by (simp add: int_string_inj)
  then show ?thesis
    using merged_ledger [OF s' f l ne a]
    by (intro exI [of _ "merged_lock f l (user_id a) (ev_timestamp ev)"])
       (simp add: merged_lock_def rescheduled_lock_def)
qed

lemma merge_combines_locks_witness:
  "let s = exec (handleLockCreated local_chain sample_event [1] 8 50 90000 False)
             (exec (handleLockCreated local_chain sample_event [1] 7 1000 80000 False) empty_store);
       s' = exec (handleLockMerged local_chain sample_event [1] 8 7 50) s
   in map_option (\<lambda>l. (vl_amountWei l, vl_lockEnd l)) (veLocks s' (int_string 7)) = Some (1050, 90000)
      \<and> locked_in (users s') (user_id [1]) = 1050"
proof -
  let ?e = empty_store and ?now = "ev_timestamp sample_event"
  let ?s1 = "exec (handleLockCreated local_chain sample_event [1] 7 1000 80000 False) ?e"
  let ?s2 = "exec (handleLockCreated local_chain sample_event [1] 8 50 90000 False) ?s1"
  note C1 = created_ledger [OF refl, of local_chain sample_event "[1]" 7 1000 80000 False ?e]
  note C2 = created_ledger [OF refl, of local_chain sample_event "[1]" 8 50 90000 False ?s1]
  have key: "int_string 7 \<noteq> int_string 8" by (simp add: int_string_inj)
  have f: "veLocks ?s2 (int_string 8) = Some (created_lock [1] 8 50 90000 False ?now)"
    by (simp add: C2)
  have l: "veLocks ?s2 (int_string 7) = Some (created_lock [1] 7 1000 80000 False ?now)"
    using key by (simp add: C2 C1)
  have z: "[1] \<noteq> ZERO_ADDRESS" by (simp add: short_address_neq)
  show ?thesis
    using merge_combines_locks [OF f l _ z refl, of local_chain sample_event] key
    by (auto simp: C2 C1 created_lock_def)
qed

end
