(* ===== verification/Market.thy ===== *)
theory Market
  imports VeLocks
begin

text \<open>
  The mapping of the market router (\<open>src/subgraph/src/mappings/marketRouter.ts\<close>): listings of locks, the
  bonus-target escrows, settlement keepers and the router's parameters.

  \<^item> A \<open>toI32\<close> that does not fit aborts the handler; such a handler returns an option, \<open>None\<close> for the
    abort. The store it leaves then is not used.
  \<^item> The backfill of \<open>loadOrCreateMarketRouterParams\<close> fills fields that are missing in a row written by an
    older release; a row here has all its fields, so it does nothing.
\<close>

section \<open>Helpers\<close>

definition BPS :: int where
  "BPS = 10000"

definition UNKNOWN_LISTING_PRICE_BPS :: int where
  "UNKNOWN_LISTING_PRICE_BPS = 1000000000"

definition MARKET_ROUTER_PARAMS_ID :: string where
  "MARKET_ROUTER_PARAMS_ID = ''current''"

definition UNKNOWN_MAX_DISCOUNT_BPS :: "32 word" where
  "UNKNOWN_MAX_DISCOUNT_BPS = - 1"

definition txFurnaceEnterIdByLog :: "bytes \<Rightarrow> int \<Rightarrow> string" where
  "txFurnaceEnterIdByLog txHash logIndex = toHexString txHash @ ''-'' @ int_string logIndex"

definition FURNACE_ENTER_SIG :: bytes where
  "FURNACE_ENTER_SIG =
     [0x7f, 0x7f, 0x0d, 0xe1, 0x7f, 0x35, 0x00, 0xa1, 0x42, 0x0b, 0x9c, 0xdc, 0x65, 0xea, 0x62, 0x2e,
      0x20, 0x87, 0x1e, 0x0a, 0xbe, 0x71, 0xd5, 0x19, 0x25, 0x60, 0x05, 0x2b, 0x49, 0x99, 0x96, 0x1f]"

fun precedingLoop :: "eth_log list \<Rightarrow> bool \<Rightarrow> bytes \<Rightarrow> int \<Rightarrow> int \<Rightarrow> int" where
  "precedingLoop [] requireEmitter furnaceAddr beforeLogIndex best = best"
| "precedingLoop (lg # logs) requireEmitter furnaceAddr beforeLogIndex best =
     (if log_logIndex lg \<ge> beforeLogIndex
      then precedingLoop logs requireEmitter furnaceAddr beforeLogIndex best
      else (case log_topics lg of
          [] \<Rightarrow> precedingLoop logs requireEmitter furnaceAddr beforeLogIndex best
        | topic0 # _ \<Rightarrow>
            if toHexString topic0 \<noteq> toHexString FURNACE_ENTER_SIG
            then precedingLoop logs requireEmitter furnaceAddr beforeLogIndex best
            else if requireEmitter \<and> toHexString (log_address lg) \<noteq> toHexString furnaceAddr
            then precedingLoop logs requireEmitter furnaceAddr beforeLogIndex best
            else precedingLoop logs requireEmitter furnaceAddr beforeLogIndex
                   (if best < log_logIndex lg then log_logIndex lg else best)))"

definition findPrecedingFurnaceEnterLogIndex :: "eth_log list option \<Rightarrow> bytes \<Rightarrow> int \<Rightarrow> int" where
  "findPrecedingFurnaceEnterLogIndex receipt furnaceAddr beforeLogIndex =
     (case receipt of
        None \<Rightarrow> - 1
      | Some logs \<Rightarrow> precedingLoop logs (toHexString furnaceAddr \<noteq> toHexString ZERO_ADDRESS)
                       furnaceAddr beforeLogIndex (- 1))"

definition resolveVeClaimNftAddress :: "chain \<Rightarrow> bytes \<Rightarrow> address \<Rightarrow> address" where
  "resolveVeClaimNftAddress c cachedVe router =
     (if \<not> isZeroAddress cachedVe then cachedVe
      else if isLocalNetwork c then ZERO_ADDRESS
      else (case try_ve c router of None \<Rightarrow> ZERO_ADDRESS | Some v \<Rightarrow> v))"

text \<open>The lock object is mutated and saved; the handler goes on with it.\<close>

definition hydrateVeLockIfNeeded :: "chain \<Rightarrow> ve_lock \<Rightarrow> int \<Rightarrow> int \<Rightarrow> address \<Rightarrow> ve_lock handler" where
  "hydrateVeLockIfNeeded c lock tokenId now veAddr =
     (if isLocalNetwork c then ret lock
      else if isZeroAddress veAddr then ret lock
      else if vl_amountWei lock \<noteq> 0 \<or> vl_lockEnd lock \<noteq> 0 then ret lock
      else (case try_getLockInfo c veAddr tokenId of
          None \<Rightarrow> ret lock
        | Some (amountWei, lockEnd, autoMax) \<Rightarrow> do {
            let lock = lock\<lparr>vl_amountWei := amountWei, vl_lockEnd := lockEnd, vl_autoMax := autoMax,
                  vl_updatedAt := now, vl_currentVeWei := Some (currentVeWei amountWei lockEnd now autoMax)\<rparr>;
            modify (saveVeLock (int_string tokenId) lock);
            ret lock
          }))"

definition computeDiscountBps :: "int \<Rightarrow> int \<Rightarrow> (32 word) option" where
  "computeDiscountBps price principalWei =
     (if principalWei = 0 then Some 0
      else if price \<ge> principalWei then Some 0
      else let diff = principalWei - price; bps = bigint_div (diff * BPS) principalWei in
           (case toI32 bps of
              None \<Rightarrow> None
            | Some asI32 \<Rightarrow>
                Some (if sint asI32 < 0 then 0 else if sint asI32 > 10000 then 10000 else asI32)))"

definition computeOfferPriceBpsFromDiscount :: "32 word \<Rightarrow> int" where
  "computeOfferPriceBpsFromDiscount discountBps =
     (let d = sint discountBps;
          d = (if d < 0 then 0 else d);
          d = (if d > 10000 then 10000 else d)
      in 10000 - d)"

definition computeOfferPriceBpsFromTargetBonus :: "32 word \<Rightarrow> int" where
  "computeOfferPriceBpsFromTargetBonus targetBonusBps =
     (let tb = sint targetBonusBps;
          bonus = (if tb < 0 then 0 else tb);
          discount = bigint_div (bonus * BPS) (BPS + bonus)
      in BPS - discount)"

definition computeListingPriceBps :: "int \<Rightarrow> int \<Rightarrow> int" where
  "computeListingPriceBps minClaimOut lockAmountWei =
     (if lockAmountWei = 0 then 0 else bigint_div (minClaimOut * BPS) lockAmountWei)"

definition computeBonusBps :: "int \<Rightarrow> int \<Rightarrow> (32 word) option" where
  "computeBonusBps bonus principalWei =
     (if principalWei = 0 then Some 0
      else (case toI32 (bigint_div (bonus * 10000) principalWei) of
              None \<Rightarrow> None
            | Some raw \<Rightarrow> Some (if sint raw < 0 then 0 else raw)))"

definition new_listing :: "int \<Rightarrow> string \<Rightarrow> int \<Rightarrow> market_listing" where
  "new_listing tokenId sellerId now =
     \<lparr>ml_tokenId = tokenId, ml_lock = int_string tokenId, ml_seller = sellerId, ml_minClaimOutWei = 0,
      ml_priceBps = 0, ml_listedAtTime = now, ml_expiresAtTime = 0, ml_active = False,
      ml_updatedAt = now\<rparr>"

definition loadOrCreateListing :: "int \<Rightarrow> address \<Rightarrow> int \<Rightarrow> market_listing handler" where
  "loadOrCreateListing tokenId seller now = do {
     let i = int_string tokenId;
     r \<leftarrow> gets (\<lambda>s. listings s i);
     (case r of
        None \<Rightarrow> do {
          u \<leftarrow> loadOrCreateUser seller;
          let listing = new_listing tokenId (user_id seller) now;
          modify (saveListing i listing);
          ret listing
        }
      | Some listing \<Rightarrow> ret listing)
   }"

definition new_offer :: "int \<Rightarrow> string \<Rightarrow> int \<Rightarrow> bonus_escrow" where
  "new_offer offerId buyerId now =
     \<lparr>be_offerId = offerId, be_buyer = buyerId, be_discountBps = 0, be_priceBps = 0,
      be_minLockSizeWei = None, be_budgetClaimWei = 0, be_fundsRemainingWei = Some 0,
      be_createdAt = now, be_updatedAt = now, be_active = False, be_durationSeconds = None,
      be_createAutoMax = False, be_expiresAt = 0, be_destinationLockId = None,
      be_destinationLock = None, be_targetBonusBps = 0, be_slippageBps = 0\<rparr>"

definition loadOrCreateOffer :: "int \<Rightarrow> address \<Rightarrow> int \<Rightarrow> bonus_escrow handler" where
  "loadOrCreateOffer offerId buyer now = do {
     let i = int_string offerId;
     r \<leftarrow> gets (\<lambda>s. mt_escrows (market s) i);
     (case r of
        None \<Rightarrow> do {
          u \<leftarrow> loadOrCreateUser buyer;
          let x = new_offer offerId (user_id buyer) now;
          modify (saveEscrow i x);
          ret x
        }
      | Some x \<Rightarrow> ret x)
   }"

definition closed_offer :: "string \<Rightarrow> int \<Rightarrow> bonus_escrow \<Rightarrow> bonus_escrow" where
  "closed_offer buyerId now x =
     x\<lparr>be_buyer := buyerId, be_fundsRemainingWei := Some 0, be_active := False, be_updatedAt := now\<rparr>"

definition closeOfferAfterExecution :: "int \<Rightarrow> address \<Rightarrow> int \<Rightarrow> unit handler" where
  "closeOfferAfterExecution offerId buyer now = do {
     x \<leftarrow> loadOrCreateOffer offerId buyer now;
     u \<leftarrow> loadOrCreateUser buyer;
     (if \<not> be_active x \<and> be_fundsRemainingWei x = Some 0 then skip
      else modify (saveEscrow (int_string offerId) (closed_offer (user_id buyer) now x)))
   }"

definition resolveExecutedFurnaceTokenId ::
  "bytes \<Rightarrow> int \<Rightarrow> eth_log list option \<Rightarrow> bytes \<Rightarrow> int \<Rightarrow> store \<Rightarrow> int" where
  "resolveExecutedFurnaceTokenId txHash emittedFurnaceTokenId receipt furnaceAddr beforeLogIndex s =
     (if emittedFurnaceTokenId \<noteq> 0 then emittedFurnaceTokenId
      else let idx = findPrecedingFurnaceEnterLogIndex receipt furnaceAddr beforeLogIndex in
           if idx < 0 then 0
           else (case mt_furnaceEnters (market s) (txFurnaceEnterIdByLog txHash idx) of
                   Some join \<Rightarrow> te_tokenId join
                 | None \<Rightarrow> 0))"

definition new_router_params :: router_params where
  "new_router_params = \<lparr>rp_updatedAt = 0, rp_minBonusTargetEscrowBudgetClaimWei = 0,
     rp_maxBonusTargetEscrowDiscountBps = UNKNOWN_MAX_DISCOUNT_BPS\<rparr>"

definition loadOrCreateMarketRouterParams :: "router_params handler" where
  "loadOrCreateMarketRouterParams = do {
     r \<leftarrow> gets (\<lambda>s. mt_routerParams (market s) MARKET_ROUTER_PARAMS_ID);
     (case r of
        None \<Rightarrow> do {
          modify (saveRouterParams MARKET_ROUTER_PARAMS_ID new_router_params);
          ret new_router_params
        }
      | Some p \<Rightarrow> ret p)
   }"

definition maybeSnapshotMarketRouterParams :: "chain \<Rightarrow> address \<Rightarrow> int \<Rightarrow> unit option handler" where
  "maybeSnapshotMarketRouterParams c router ts =
     (if isLocalNetwork c then ret (Some ())
      else do {
        p \<leftarrow> loadOrCreateMarketRouterParams;
        (if rp_maxBonusTargetEscrowDiscountBps p \<noteq> UNKNOWN_MAX_DISCOUNT_BPS \<and> rp_updatedAt p \<noteq> 0
         then ret (Some ())
         else (case (try_minBonusTargetEscrowBudget c router, try_maxBonusTargetEscrowDiscountBps c router) of
             (Some minBudget, Some maxDiscount) \<Rightarrow>
               (case toI32 maxDiscount of
                  None \<Rightarrow> ret None
                | Some d \<Rightarrow> do {
                    modify (saveRouterParams MARKET_ROUTER_PARAMS_ID
                      (p\<lparr>rp_updatedAt := ts, rp_minBonusTargetEscrowBudgetClaimWei := minBudget,
                         rp_maxBonusTargetEscrowDiscountBps := d\<rparr>));
                    ret (Some ())
                  })
           | _ \<Rightarrow> ret (Some ())))
      })"

definition createBonusTargetEscrowEvent :: "string \<Rightarrow> string \<Rightarrow> int \<Rightarrow> bytes \<Rightarrow> string \<Rightarrow> unit handler" where
  "createBonusTargetEscrowEvent offerId kind timestamp txHash i =
     modify (saveMarketLog i (BonusTargetEscrowEvent offerId kind timestamp txHash))"

text \<open>\<open>loadOrCreateVeLockForMarket\<close> has the body of the lock mapping's \<open>loadOrCreateVeLock\<close>.\<close>

definition loadOrCreateVeLockForMarket :: "int \<Rightarrow> address \<Rightarrow> int \<Rightarrow> ve_lock handler" where
  "loadOrCreateVeLockForMarket tokenId owner now = loadOrCreateVeLock tokenId owner now"

text \<open>The opening of every handler, with what it does to the protocol row, and the one-time snapshot.\<close>

definition seedMarketRouter :: "chain \<Rightarrow> eth_event \<Rightarrow> (protocol \<Rightarrow> protocol) \<Rightarrow> protocol handler" where
  "seedMarketRouter c ev f = do {
     protocol \<leftarrow> loadOrCreateProtocol c (Some (ev_blockNumber ev));
     let protocol = f (protocol\<lparr>pr_marketRouter := setBytesIfZero (pr_marketRouter protocol) (ev_address ev)\<rparr>);
     modify (saveProtocol PROTOCOL_ID protocol);
     ret protocol
   }"

definition attempt :: "'a option handler \<Rightarrow> ('a \<Rightarrow> 'b option handler) \<Rightarrow> 'b option handler" where
  "attempt h f = do { r \<leftarrow> h; (case r of None \<Rightarrow> ret None | Some x \<Rightarrow> f x) }"

definition openMarket :: "chain \<Rightarrow> eth_event \<Rightarrow> (protocol \<Rightarrow> 'a handler) \<Rightarrow> unit option handler" where
  "openMarket c ev body = do {
     protocol \<leftarrow> seedMarketRouter c ev (\<lambda>p. p);
     attempt (maybeSnapshotMarketRouterParams c (ev_address ev) (ev_timestamp ev))
       (\<lambda>_. do { x \<leftarrow> body protocol; ret (Some ()) })
   }"

section \<open>Configuration\<close>

definition handleTradingPausedChanged :: "chain \<Rightarrow> eth_event \<Rightarrow> bool \<Rightarrow> unit option handler" where
  "handleTradingPausedChanged c ev p_paused = do {
     protocol \<leftarrow> seedMarketRouter c ev (\<lambda>p. p\<lparr>pr_tradingPaused := p_paused\<rparr>);
     maybeSnapshotMarketRouterParams c (ev_address ev) (ev_timestamp ev)
   }"

definition handleSettlementKeeperSet :: "chain \<Rightarrow> eth_event \<Rightarrow> address \<Rightarrow> bool \<Rightarrow> unit option handler" where
  "handleSettlementKeeperSet c ev p_keeper p_allowed =
     openMarket c ev (\<lambda>_. do {
       keeper \<leftarrow> loadOrCreateUser p_keeper;
       modify (saveSettlementKeeper (user_id p_keeper)
         \<lparr>kr_keeper = user_id p_keeper, kr_allowed = p_allowed, kr_updatedAt = ev_timestamp ev\<rparr>);
       modify (saveMarketLog (eventId ev)
         (MarketSettlementKeeperSetEvent (user_id p_keeper) p_allowed (ev_timestamp ev) (ev_txHash ev)))
     })"

definition handleBonusTargetEscrowParamsChanged ::
  "chain \<Rightarrow> eth_event \<Rightarrow> int \<Rightarrow> int \<Rightarrow> int \<Rightarrow> int \<Rightarrow> unit option handler" where
  "handleBonusTargetEscrowParamsChanged c ev p_oldMinBudget p_newMinBudget p_oldMaxDiscountBps p_newMaxDiscountBps =
     do {
       protocol \<leftarrow> seedMarketRouter c ev (\<lambda>p. p);
       attempt (maybeSnapshotMarketRouterParams c (ev_address ev) (ev_timestamp ev)) (\<lambda>_. do {
         params \<leftarrow> loadOrCreateMarketRouterParams;
         (case toI32 p_newMaxDiscountBps of
            None \<Rightarrow> ret None
          | Some newMax \<Rightarrow> do {
              modify (saveRouterParams MARKET_ROUTER_PARAMS_ID
                (params\<lparr>rp_updatedAt := ev_timestamp ev, rp_minBonusTargetEscrowBudgetClaimWei := p_newMinBudget,
                   rp_maxBonusTargetEscrowDiscountBps := newMax\<rparr>));
              (case toI32 p_oldMaxDiscountBps of
                 None \<Rightarrow> ret None
               | Some oldMax \<Rightarrow> do {
                   modify (saveMarketLog (eventId ev)
                     (BonusTargetEscrowParamsChangedEvent (ev_timestamp ev) (ev_blockNumber ev) (ev_txHash ev)
                        p_oldMinBudget p_newMinBudget oldMax newMax));
                   ret (Some ())
                 })
            })
       })
     }"

section \<open>Listings\<close>

definition listed_price :: "int \<Rightarrow> int \<Rightarrow> int" where
  "listed_price minClaimOut amountWei =
     (if minClaimOut \<noteq> 0 \<and> amountWei = 0 then UNKNOWN_LISTING_PRICE_BPS
      else computeListingPriceBps minClaimOut amountWei)"

definition handleLockListed ::
  "chain \<Rightarrow> eth_event \<Rightarrow> address \<Rightarrow> int \<Rightarrow> int \<Rightarrow> int \<Rightarrow> int \<Rightarrow> unit option handler" where
  "handleLockListed c ev p_seller p_tokenId p_minClaimOut p_listedAtTime p_expiresAtTime = do {
     protocol \<leftarrow> seedMarketRouter c ev (\<lambda>p.
       let veAddr = resolveVeClaimNftAddress c (pr_veClaimNft p) (ev_address ev) in
       if isZeroAddress (pr_veClaimNft p) \<and> \<not> isZeroAddress veAddr then p\<lparr>pr_veClaimNft := veAddr\<rparr> else p);
     let veAddr = resolveVeClaimNftAddress c (pr_veClaimNft protocol) (ev_address ev);
     attempt (maybeSnapshotMarketRouterParams c (ev_address ev) (ev_timestamp ev)) (\<lambda>_. do {
       let now = ev_timestamp ev;
       seller \<leftarrow> loadOrCreateUser p_seller;
       lock \<leftarrow> loadOrCreateVeLockForMarket p_tokenId p_seller now;
       lock \<leftarrow> hydrateVeLockIfNeeded c lock p_tokenId now veAddr;
       let lock = lock\<lparr>vl_listed := True, vl_updatedAt := now\<rparr>;
       modify (saveVeLock (int_string p_tokenId) lock);
       listing \<leftarrow> loadOrCreateListing p_tokenId p_seller now;
       modify (saveListing (int_string p_tokenId)
         (listing\<lparr>ml_lock := int_string p_tokenId, ml_seller := user_id p_seller,
            ml_minClaimOutWei := p_minClaimOut,
            ml_priceBps := listed_price p_minClaimOut (vl_amountWei lock),
            ml_listedAtTime := p_listedAtTime, ml_expiresAtTime := p_expiresAtTime,
            ml_active := True, ml_updatedAt := now\<rparr>));
       modify (saveMarketLog (eventId ev)
         (MarketLockListedEvent p_tokenId (user_id p_seller) p_minClaimOut p_listedAtTime p_expiresAtTime
            now (ev_blockNumber ev) (ev_txHash ev)));
       ret (Some ())
     })
   }"

text \<open>What delisting, settling and selling have in common: both flags go off.\<close>

definition closeListing :: "int \<Rightarrow> address \<Rightarrow> int \<Rightarrow> unit handler" where
  "closeListing tokenId seller now = do {
     listing \<leftarrow> loadOrCreateListing tokenId seller now;
     modify (saveListing (int_string tokenId) (listing\<lparr>ml_active := False, ml_updatedAt := now\<rparr>))
   }"

definition unlistLock :: "int \<Rightarrow> address \<Rightarrow> int \<Rightarrow> unit handler" where
  "unlistLock tokenId seller now = do {
     lock \<leftarrow> loadOrCreateVeLockForMarket tokenId seller now;
     modify (saveVeLock (int_string tokenId) (lock\<lparr>vl_listed := False, vl_updatedAt := now\<rparr>))
   }"

definition handleLockDelisted ::
  "chain \<Rightarrow> eth_event \<Rightarrow> address \<Rightarrow> int \<Rightarrow> int \<Rightarrow> unit option handler" where
  "handleLockDelisted c ev p_seller p_tokenId p_reason =
     openMarket c ev (\<lambda>_. do {
       let now = ev_timestamp ev;
       listingBefore \<leftarrow> gets (\<lambda>s. listings s (int_string p_tokenId));
       let priceBefore = (case listingBefore of
           None \<Rightarrow> None
         | Some l \<Rightarrow> if ml_minClaimOutWei l = 0 then None else Some (ml_minClaimOutWei l));
       closeListing p_tokenId p_seller now;
       unlistLock p_tokenId p_seller now;
       seller \<leftarrow> loadOrCreateUser p_seller;
       modify (saveMarketLog (eventId ev)
         (MarketLockDelistedEvent p_tokenId (user_id p_seller) p_reason priceBefore now
            (ev_blockNumber ev) (ev_txHash ev)))
     })"

definition handleListingSettled ::
  "chain \<Rightarrow> eth_event \<Rightarrow> address \<Rightarrow> int \<Rightarrow> int \<Rightarrow> int \<Rightarrow> unit option handler" where
  "handleListingSettled c ev p_seller p_tokenId p_claimOut p_penalty =
     openMarket c ev (\<lambda>_. do {
       let now = ev_timestamp ev;
       seller \<leftarrow> loadOrCreateUser p_seller;
       closeListing p_tokenId p_seller now;
       unlistLock p_tokenId p_seller now;
       modify (saveMarketLog (eventId ev)
         (ListingSettledEvent p_tokenId (user_id p_seller) p_claimOut p_penalty now
            (ev_blockNumber ev) (ev_txHash ev)));
       saveActivityItem (eventId ev) ((new_activity ''LISTING_SETTLED'' now (ev_txHash ev))
         \<lparr>ai_tokenId := Some p_tokenId, ai_user := Some (user_id p_seller), ai_amountClaimWei := Some p_claimOut\<rparr>)
     })"

definition handleMarketSellToFurnace ::
  "chain \<Rightarrow> eth_event \<Rightarrow> address \<Rightarrow> int \<Rightarrow> int \<Rightarrow> int \<Rightarrow> int \<Rightarrow> unit option handler" where
  "handleMarketSellToFurnace c ev p_seller p_tokenId p_minClaimOut p_deadline p_claimOut =
     openMarket c ev (\<lambda>_. do {
       let now = ev_timestamp ev;
       seller \<leftarrow> loadOrCreateUser p_seller;
       listingBefore \<leftarrow> gets (\<lambda>s. listings s (int_string p_tokenId));
       (case listingBefore of
          None \<Rightarrow> skip
        | Some l \<Rightarrow> modify (saveListing (int_string p_tokenId) (l\<lparr>ml_active := False, ml_updatedAt := now\<rparr>)));
       unlistLock p_tokenId p_seller now;
       modify (saveMarketLog (eventId ev)
         (MarketSellToFurnaceEvent p_tokenId (user_id p_seller) p_minClaimOut p_deadline p_claimOut now
            (ev_blockNumber ev) (ev_txHash ev)));
       saveActivityItem (eventId ev) ((new_activity ''MARKET_SELL_TO_FURNACE'' now (ev_txHash ev))
         \<lparr>ai_tokenId := Some p_tokenId, ai_user := Some (user_id p_seller), ai_amountClaimWei := Some p_claimOut\<rparr>)
     })"

section \<open>Bonus-target escrows\<close>

definition offer_activity :: "eth_event \<Rightarrow> string \<Rightarrow> string \<Rightarrow> int option \<Rightarrow> int option \<Rightarrow> unit handler" where
  "offer_activity ev kind buyerId tokenId amountClaim =
     saveActivityItem (eventId ev) ((new_activity kind (ev_timestamp ev) (ev_txHash ev))
       \<lparr>ai_tokenId := tokenId, ai_user := Some buyerId, ai_amountClaimWei := amountClaim\<rparr>)"

text \<open>The row after its creation event; a found row keeps only its bonus target and slippage.\<close>

definition created_offer ::
  "bonus_escrow option \<Rightarrow> int \<Rightarrow> string \<Rightarrow> 32 word \<Rightarrow> int \<Rightarrow> int \<Rightarrow> int \<Rightarrow> bool \<Rightarrow> int \<Rightarrow> int \<Rightarrow> int \<Rightarrow> bonus_escrow" where
  "created_offer row offerId buyerId discountBps budgetClaim createdAt durationSeconds createAutoMax
     expiresAt dest now =
     \<lparr>be_offerId = offerId, be_buyer = buyerId, be_discountBps = discountBps,
      be_priceBps = computeOfferPriceBpsFromDiscount discountBps, be_minLockSizeWei = None,
      be_budgetClaimWei = budgetClaim, be_fundsRemainingWei = Some budgetClaim,
      be_createdAt = createdAt, be_updatedAt = now, be_active = True,
      be_durationSeconds = Some durationSeconds, be_createAutoMax = createAutoMax, be_expiresAt = expiresAt,
      be_destinationLockId = (if dest = 0 then None else Some dest),
      be_destinationLock = (if dest = 0 then None else Some (int_string dest)),
      be_targetBonusBps = (case row of None \<Rightarrow> 0 | Some x \<Rightarrow> be_targetBonusBps x),
      be_slippageBps = (case row of None \<Rightarrow> 0 | Some x \<Rightarrow> be_slippageBps x)\<rparr>"

definition handleBonusTargetEscrowCreated ::
  "chain \<Rightarrow> eth_event \<Rightarrow> int \<Rightarrow> address \<Rightarrow> int \<Rightarrow> int \<Rightarrow> int \<Rightarrow> int \<Rightarrow> bool \<Rightarrow> int \<Rightarrow> int \<Rightarrow> unit option handler" where
  "handleBonusTargetEscrowCreated c ev p_escrowId p_buyer p_discountBps p_budgetClaim p_createdAt
     p_durationSeconds p_createAutoMax p_expiresAt p_destinationLockId = do {
     protocol \<leftarrow> seedMarketRouter c ev (\<lambda>p. p);
     attempt (maybeSnapshotMarketRouterParams c (ev_address ev) (ev_timestamp ev)) (\<lambda>_. do {
       let now = ev_timestamp ev;
       buyer \<leftarrow> loadOrCreateUser p_buyer;
       let offerId = int_string p_escrowId;
       row \<leftarrow> gets (\<lambda>s. mt_escrows (market s) offerId);
       (case toI32 p_discountBps of
          None \<Rightarrow> ret None
        | Some discountBps \<Rightarrow> do {
            modify (saveEscrow offerId (created_offer row p_escrowId (user_id p_buyer) discountBps
              p_budgetClaim p_createdAt p_durationSeconds p_createAutoMax p_expiresAt p_destinationLockId now));
            createBonusTargetEscrowEvent offerId ''CREATED'' now (ev_txHash ev) (eventId ev);
            offer_activity ev ''GLOBAL_OFFER_CREATED'' (user_id p_buyer) None (Some p_budgetClaim);
            ret (Some ())
          })
     })
   }"

definition handleBonusTargetEscrowExpired ::
  "chain \<Rightarrow> eth_event \<Rightarrow> int \<Rightarrow> address \<Rightarrow> int \<Rightarrow> unit option handler" where
  "handleBonusTargetEscrowExpired c ev p_escrowId p_buyer p_refundClaim =
     openMarket c ev (\<lambda>_. do {
       let now = ev_timestamp ev;
       buyer \<leftarrow> loadOrCreateUser p_buyer;
       offer \<leftarrow> loadOrCreateOffer p_escrowId p_buyer now;
       modify (saveEscrow (int_string p_escrowId)
         (offer\<lparr>be_active := False, be_fundsRemainingWei := Some 0, be_updatedAt := now\<rparr>));
       createBonusTargetEscrowEvent (int_string p_escrowId) ''EXPIRED'' now (ev_txHash ev) (eventId ev);
       offer_activity ev ''AUTO_FILL_OFFER_EXPIRED'' (user_id p_buyer) None (Some p_refundClaim)
     })"

definition handleBonusTargetEscrowExpiryExtended ::
  "chain \<Rightarrow> eth_event \<Rightarrow> int \<Rightarrow> address \<Rightarrow> int \<Rightarrow> unit option handler" where
  "handleBonusTargetEscrowExpiryExtended c ev p_escrowId p_buyer p_newExpiresAt =
     openMarket c ev (\<lambda>_. do {
       let now = ev_timestamp ev;
       buyer \<leftarrow> loadOrCreateUser p_buyer;
       offer \<leftarrow> loadOrCreateOffer p_escrowId p_buyer now;
       modify (saveEscrow (int_string p_escrowId)
         (offer\<lparr>be_active := (p_newExpiresAt > now), be_expiresAt := p_newExpiresAt, be_updatedAt := now\<rparr>));
       createBonusTargetEscrowEvent (int_string p_escrowId) ''EXPIRY_EXTENDED'' now (ev_txHash ev) (eventId ev);
       offer_activity ev ''AUTO_FILL_OFFER_EXPIRY_EXTENDED'' (user_id p_buyer) None None
     })"

definition handleBonusTargetEscrowCancelled ::
  "chain \<Rightarrow> eth_event \<Rightarrow> int \<Rightarrow> address \<Rightarrow> int \<Rightarrow> unit option handler" where
  "handleBonusTargetEscrowCancelled c ev p_escrowId p_buyer p_refundClaim =
     openMarket c ev (\<lambda>_. do {
       let now = ev_timestamp ev;
       buyer \<leftarrow> loadOrCreateUser p_buyer;
       offer \<leftarrow> loadOrCreateOffer p_escrowId p_buyer now;
       modify (saveEscrow (int_string p_escrowId) (closed_offer (user_id p_buyer) now offer));
       createBonusTargetEscrowEvent (int_string p_escrowId) ''CANCELLED'' now (ev_txHash ev) (eventId ev);
       offer_activity ev ''GLOBAL_OFFER_CANCELLED'' (user_id p_buyer) None (Some p_refundClaim)
     })"

definition handleBonusTargetEscrowConfigured ::
  "chain \<Rightarrow> eth_event \<Rightarrow> int \<Rightarrow> address \<Rightarrow> int \<Rightarrow> int \<Rightarrow> unit option handler" where
  "handleBonusTargetEscrowConfigured c ev p_escrowId p_buyer p_targetBonusBps p_slippageBps = do {
     protocol \<leftarrow> seedMarketRouter c ev (\<lambda>p. p);
     attempt (maybeSnapshotMarketRouterParams c (ev_address ev) (ev_timestamp ev)) (\<lambda>_. do {
       let now = ev_timestamp ev;
       buyer \<leftarrow> loadOrCreateUser p_buyer;
       offer \<leftarrow> loadOrCreateOffer p_escrowId p_buyer now;
       (case (toI32 p_targetBonusBps, toI32 p_slippageBps) of
          (Some targetBonusBps, Some slippageBps) \<Rightarrow> do {
            modify (saveEscrow (int_string p_escrowId)
              (offer\<lparr>be_buyer := user_id p_buyer, be_targetBonusBps := targetBonusBps,
                 be_priceBps := computeOfferPriceBpsFromTargetBonus targetBonusBps,
                 be_slippageBps := slippageBps, be_updatedAt := now\<rparr>));
            createBonusTargetEscrowEvent (int_string p_escrowId) ''BONUS_CONFIGURED'' now (ev_txHash ev) (eventId ev);
            offer_activity ev ''GLOBAL_OFFER_CONFIGURED'' (user_id p_buyer) None None;
            ret (Some ())
          }
        | _ \<Rightarrow> ret None)
     })
   }"

section \<open>Executions\<close>

text \<open>The token of the activity row: the Furnace's when known, else the routed one.\<close>

definition activity_token :: "int \<Rightarrow> int \<Rightarrow> int option" where
  "activity_token furnaceTokenId routeTokenId =
     (if furnaceTokenId \<noteq> 0 then Some furnaceTokenId
      else if routeTokenId \<noteq> 0 then Some routeTokenId else None)"

text \<open>The defensive cleanup of the routed lock and its listing.\<close>

definition clearRouted :: "int \<Rightarrow> int \<Rightarrow> unit handler" where
  "clearRouted routeTokenId now =
     (if routeTokenId = 0 then skip
      else do {
        deactivateListing (int_string routeTokenId) now;
        lock \<leftarrow> gets (\<lambda>s. veLocks s (int_string routeTokenId));
        (case lock of
           None \<Rightarrow> skip
         | Some l \<Rightarrow>
             if vl_listed l
             then modify (saveVeLock (int_string routeTokenId) (l\<lparr>vl_listed := False, vl_updatedAt := now\<rparr>))
             else skip)
      })"

definition handleBonusTargetEscrowExecuted ::
  "chain \<Rightarrow> eth_event \<Rightarrow> int \<Rightarrow> address \<Rightarrow> int \<Rightarrow> int \<Rightarrow> int \<Rightarrow> int \<Rightarrow> int \<Rightarrow> int \<Rightarrow> unit option handler" where
  "handleBonusTargetEscrowExecuted c ev p_escrowId p_buyer p_claimIn p_principalClaim p_bonusClaim p_veOut
     p_routeTokenId p_furnaceTokenId = do {
     protocol \<leftarrow> seedMarketRouter c ev (\<lambda>p. p);
     attempt (maybeSnapshotMarketRouterParams c (ev_address ev) (ev_timestamp ev)) (\<lambda>_. do {
       let now = ev_timestamp ev;
       buyer \<leftarrow> loadOrCreateUser p_buyer;
       closeOfferAfterExecution p_escrowId p_buyer now;
       createBonusTargetEscrowEvent (int_string p_escrowId) ''FILLED'' now (ev_txHash ev) (eventId ev);
       (case computeBonusBps p_bonusClaim p_principalClaim of
          None \<Rightarrow> ret None
        | Some bonusBps \<Rightarrow> do {
            furnaceTokenId \<leftarrow> gets (resolveExecutedFurnaceTokenId (ev_txHash ev) p_furnaceTokenId
              (ev_receipt ev) (pr_furnace protocol) (ev_logIndex ev));
            modify (saveMarketLog (eventId ev)
              (BonusTargetEscrowExecutedEvent (int_string p_escrowId) (user_id p_buyer) p_claimIn
                 p_principalClaim p_bonusClaim p_veOut bonusBps p_routeTokenId
                 (if furnaceTokenId = 0 then None else Some furnaceTokenId)
                 now (ev_blockNumber ev) (ev_txHash ev)));
            clearRouted p_routeTokenId now;
            offer_activity ev ''GLOBAL_OFFER_EVENT'' (user_id p_buyer)
              (activity_token furnaceTokenId p_routeTokenId) (Some p_claimIn);
            ret (Some ())
          })
     })
   }"

definition handleBonusTargetEscrowAutoFurnaceExecuted ::
  "chain \<Rightarrow> eth_event \<Rightarrow> int \<Rightarrow> address \<Rightarrow> int \<Rightarrow> int \<Rightarrow> int \<Rightarrow> int \<Rightarrow> int \<Rightarrow> int \<Rightarrow> unit option handler" where
  "handleBonusTargetEscrowAutoFurnaceExecuted c ev p_escrowId p_buyer p_claimIn p_principalClaim p_bonusClaim
     p_veOut p_routeTokenId p_furnaceTokenId = do {
     protocol \<leftarrow> seedMarketRouter c ev (\<lambda>p. p);
     attempt (maybeSnapshotMarketRouterParams c (ev_address ev) (ev_timestamp ev)) (\<lambda>_. do {
       let now = ev_timestamp ev;
       buyer \<leftarrow> loadOrCreateUser p_buyer;
       closeOfferAfterExecution p_escrowId p_buyer now;
       createBonusTargetEscrowEvent (int_string p_escrowId) ''AUTO_FURNACE_EXECUTED'' now (ev_txHash ev) (eventId ev);
       (case computeBonusBps p_bonusClaim p_principalClaim of
          None \<Rightarrow> ret None
        | Some bonusBps \<Rightarrow> do {
            furnaceTokenId \<leftarrow> gets (resolveExecutedFurnaceTokenId (ev_txHash ev) p_furnaceTokenId
              (ev_receipt ev) (pr_furnace protocol) (ev_logIndex ev));
            modify (saveMarketLog (eventId ev)
              (BonusTargetEscrowAutoFurnaceExecutedEvent (int_string p_escrowId) (user_id p_buyer) p_claimIn
                 p_principalClaim p_bonusClaim p_veOut bonusBps p_routeTokenId
                 (if furnaceTokenId = 0 then None else Some furnaceTokenId)
                 now (ev_blockNumber ev) (ev_txHash ev)));
            offer_activity ev ''GLOBAL_OFFER_EVENT'' (user_id p_buyer)
              (activity_token furnaceTokenId p_routeTokenId) (Some p_claimIn);
            ret (Some ())
          })
     })
   }"

section \<open>What the handlers leave alone\<close>

text \<open>The tables that the properties below are about.\<close>

definition same_core :: "store \<Rightarrow> store \<Rightarrow> bool" where
  "same_core s t \<longleftrightarrow> users t = users s \<and> veLocks t = veLocks s \<and> listings t = listings s
     \<and> mt_escrows (market t) = mt_escrows (market s)
     \<and> mt_furnaceEnters (market t) = mt_furnaceEnters (market s)"

lemma same_core_trans: "same_core s t \<Longrightarrow> same_core t u \<Longrightarrow> same_core s u"
  by (simp add: same_core_def)

lemma seedMarketRouter_core [simp]: "same_core s (snd (run_state (seedMarketRouter c ev f) s))"
  by (simp add: seedMarketRouter_def same_core_def Let_def store_simps)

lemma maybeSnapshot_core [simp]: "same_core s (snd (run_state (maybeSnapshotMarketRouterParams c r ts) s))"
  by (auto simp: maybeSnapshotMarketRouterParams_def loadOrCreateMarketRouterParams_def same_core_def Let_def
      store_simps split: option.splits)

lemma run_attempt:
  "run_state (attempt h f) s =
     (case fst (run_state h s) of
        None \<Rightarrow> (None, snd (run_state h s))
      | Some x \<Rightarrow> run_state (f x) (snd (run_state h s)))"
  by (auto simp: attempt_def split: option.splits prod.splits)

text \<open>A handler that did not abort ran its body on a store with the same core.\<close>

lemma open_attempt:
  assumes "h = (seedMarketRouter c ev f \<bind> (\<lambda>protocol.
      attempt (maybeSnapshotMarketRouterParams c (ev_address ev) (ev_timestamp ev)) (\<lambda>_. body protocol)))"
    and "fst (run_state h s) = Some ()"
  obtains p s0 where "same_core s s0" and "fst (run_state (body p) s0) = Some ()"
    and "exec h s = exec (body p) s0"
proof -
  obtain p s1 where p: "run_state (seedMarketRouter c ev f) s = (p, s1)" by fastforce
  obtain r s0 where r: "run_state (maybeSnapshotMarketRouterParams c (ev_address ev) (ev_timestamp ev)) s1 = (r, s0)"
    by fastforce
  have "same_core s s1" "same_core s1 s0"
    using seedMarketRouter_core [of s c ev f] maybeSnapshot_core [of s1 c "ev_address ev" "ev_timestamp ev"] p r
    by simp_all
  then have core: "same_core s s0" by (rule same_core_trans)
  have run: "run_state h s = (case r of None \<Rightarrow> (None, s0) | Some x \<Rightarrow> run_state (body p) s0)"
    by (simp add: assms(1) p r run_attempt split: option.split)
  then have "r \<noteq> None" using assms(2) by (cases r) auto
  then have "run_state h s = run_state (body p) s0" using run by auto
  with core assms(2) show ?thesis by (intro that) (simp_all add: exec_def)
qed

lemma openMarket_body:
  assumes "fst (run_state (openMarket c ev body) s) = Some ()"
  obtains p s0 where "same_core s s0" and "exec (openMarket c ev body) s = exec (body p) s0"
proof -
  obtain p s0 where "same_core s s0"
    and "exec (openMarket c ev body) s = exec (do { x \<leftarrow> body p; ret (Some ()) }) s0"
    by (rule open_attempt [OF openMarket_def assms])
  then show ?thesis by (intro that [of s0 p]) (simp_all add: exec_def split: prod.splits)
qed

section \<open>Listing flags\<close>

definition listed_flags :: "store \<Rightarrow> string \<Rightarrow> bool" where
  "listed_flags s i = (case veLocks s i of None \<Rightarrow> False | Some l \<Rightarrow> vl_listed l)"

definition open_listings :: "store \<Rightarrow> string \<Rightarrow> bool" where
  "open_listings s i = (case listings s i of None \<Rightarrow> False | Some m \<Rightarrow> ml_active m)"

lemma flags_cong:
  "veLocks t = veLocks s \<Longrightarrow> listed_flags t = listed_flags s"
  "listings t = listings s \<Longrightarrow> open_listings t = open_listings s"
  by (simp_all add: listed_flags_def open_listings_def fun_eq_iff)

lemma flags_upd:
  "veLocks t = (veLocks s)(i \<mapsto> l) \<Longrightarrow> listed_flags t = (listed_flags s)(i := vl_listed l)"
  "listings t = (listings s)(i \<mapsto> m) \<Longrightarrow> open_listings t = (open_listings s)(i := ml_active m)"
  by (auto simp: listed_flags_def open_listings_def fun_eq_iff)

lemma open_delisted:
  "listings t = delisted (listings s) i now \<Longrightarrow> open_listings t = (open_listings s)(i := False)"
  by (auto simp: open_listings_def delisted_def fun_eq_iff split: option.splits if_splits)

lemma listings_of_ve_handlers:
  "listings (exec (handleLockCreated c ev a t amt e am) s) = listings s"
  "listings (exec (handleLockExtended c ev a t e) s) = listings s"
  "listings (exec (handleLockAmountIncreased c ev a t d) s) = listings s"
  "listings (exec (handleAutoMaxSet c ev a t am) s) = listings s"
  "listings (exec (handleTransfer c ev a ZERO_ADDRESS t) s) = listings s"
  by (auto simp: handleLockCreated_def handleLockExtended_def handleLockAmountIncreased_def
      handleAutoMaxSet_def handleTransfer_def burnTransfer_def furnaceBurn_def loadOrCreateVeLock_def
      Let_def store_simps split: option.splits)

lemma run_loadOrCreateListing [simp]:
  "listings (snd (run_state (loadOrCreateListing t a now) s)) =
     (case listings s (int_string t) of
        None \<Rightarrow> (listings s)(int_string t \<mapsto> new_listing t (user_id a) now) | Some _ \<Rightarrow> listings s)"
  "veLocks (snd (run_state (loadOrCreateListing t a now) s)) = veLocks s"
  "mt_escrows (market (snd (run_state (loadOrCreateListing t a now) s))) = mt_escrows (market s)"
  "fst (run_state (loadOrCreateListing t a now) s) =
     (case listings s (int_string t) of None \<Rightarrow> new_listing t (user_id a) now | Some m \<Rightarrow> m)"
  by (auto simp: loadOrCreateListing_def Let_def store_simps split: option.splits)

lemma run_loadOrCreateVeLockForMarket [simp]:
  "veLocks (snd (run_state (loadOrCreateVeLockForMarket t a now) s)) =
     (case veLocks s (int_string t) of
        None \<Rightarrow> (veLocks s)(int_string t \<mapsto> new_lock t a now) | Some _ \<Rightarrow> veLocks s)"
  "listings (snd (run_state (loadOrCreateVeLockForMarket t a now) s)) = listings s"
  "mt_escrows (market (snd (run_state (loadOrCreateVeLockForMarket t a now) s))) = mt_escrows (market s)"
  "fst (run_state (loadOrCreateVeLockForMarket t a now) s) =
     (case veLocks s (int_string t) of None \<Rightarrow> new_lock t a now | Some l \<Rightarrow> l)"
  by (auto simp: loadOrCreateVeLockForMarket_def loadOrCreateVeLock_def Let_def store_simps split: option.splits)

lemma run_loadOrCreateOffer [simp]:
  "mt_escrows (market (snd (run_state (loadOrCreateOffer i a now) s))) =
     (case mt_escrows (market s) (int_string i) of
        None \<Rightarrow> (mt_escrows (market s))(int_string i \<mapsto> new_offer i (user_id a) now)
      | Some _ \<Rightarrow> mt_escrows (market s))"
  "veLocks (snd (run_state (loadOrCreateOffer i a now) s)) = veLocks s"
  "listings (snd (run_state (loadOrCreateOffer i a now) s)) = listings s"
  "fst (run_state (loadOrCreateOffer i a now) s) =
     (case mt_escrows (market s) (int_string i) of None \<Rightarrow> new_offer i (user_id a) now | Some x \<Rightarrow> x)"
  by (auto simp: loadOrCreateOffer_def Let_def store_simps split: option.splits)

text \<open>The two helpers switch both flags of one token off.\<close>

lemma closeListing_effect:
  "open_listings (snd (run_state (closeListing t a now) s)) = (open_listings s)(int_string t := False)"
  "veLocks (snd (run_state (closeListing t a now) s)) = veLocks s"
  "mt_escrows (market (snd (run_state (closeListing t a now) s))) = mt_escrows (market s)"
  by (auto simp: closeListing_def open_listings_def fun_eq_iff store_simps case_prod_beta split: option.splits)

lemma unlistLock_effect:
  "listed_flags (snd (run_state (unlistLock t a now) s)) = (listed_flags s)(int_string t := False)"
  "listings (snd (run_state (unlistLock t a now) s)) = listings s"
  "mt_escrows (market (snd (run_state (unlistLock t a now) s))) = mt_escrows (market s)"
  by (auto simp: unlistLock_def listed_flags_def fun_eq_iff store_simps case_prod_beta split: option.splits)

lemma user_save_flags [simp]:
  "listed_flags (saveUser i u s) = listed_flags s" "open_listings (saveUser i u s) = open_listings s"
  "listed_flags (saveMarketLog i e s) = listed_flags s" "open_listings (saveMarketLog i e s) = open_listings s"
  "listed_flags (saveActivity i x s) = listed_flags s" "open_listings (saveActivity i x s) = open_listings s"
  "listed_flags (saveEscrow i b s) = listed_flags s" "open_listings (saveEscrow i b s) = open_listings s"
  by (simp_all add: store_simps listed_flags_def open_listings_def fun_eq_iff)

lemma core_flags: "same_core s t \<Longrightarrow> listed_flags t = listed_flags s \<and> open_listings t = open_listings s"
  using flags_cong [of t s] by (simp add: same_core_def)

lemma openMarket_flags:
  assumes "fst (run_state (openMarket c ev body) s) = Some ()"
    and "\<And>p s0. listed_flags s0 = listed_flags s \<Longrightarrow> open_listings s0 = open_listings s \<Longrightarrow>
      listed_flags (exec (body p) s0) = F \<and> open_listings (exec (body p) s0) = G"
  shows "listed_flags (exec (openMarket c ev body) s) = F \<and> open_listings (exec (openMarket c ev body) s) = G"
proof -
  obtain p s0 where "same_core s s0" and run: "exec (openMarket c ev body) s = exec (body p) s0"
    by (rule openMarket_body [OF assms(1)])
  then show ?thesis using assms(2) [of s0 p] core_flags by (simp only: run)
qed

lemma keep_flags [simp]:
  "listed_flags (snd (run_state (closeListing t a now) s)) = listed_flags s"
  "open_listings (snd (run_state (unlistLock t a now) s)) = open_listings s"
  by (rule flags_cong, simp add: closeListing_effect unlistLock_effect)+

text \<open>Both flags of the token after each handler that ends a listing.\<close>

lemma delisted_flags:
  assumes "fst (run_state (handleLockDelisted c ev a t reason) s) = Some ()"
  shows "listed_flags (exec (handleLockDelisted c ev a t reason) s) = (listed_flags s)(int_string t := False)
    \<and> open_listings (exec (handleLockDelisted c ev a t reason) s) = (open_listings s)(int_string t := False)"
  unfolding handleLockDelisted_def
  by (rule openMarket_flags [OF assms [unfolded handleLockDelisted_def]])
    (simp add: Let_def closeListing_effect unlistLock_effect)

lemma settled_flags:
  assumes "fst (run_state (handleListingSettled c ev a t out pen) s) = Some ()"
  shows "listed_flags (exec (handleListingSettled c ev a t out pen) s) = (listed_flags s)(int_string t := False)
    \<and> open_listings (exec (handleListingSettled c ev a t out pen) s) = (open_listings s)(int_string t := False)"
  unfolding handleListingSettled_def
  by (rule openMarket_flags [OF assms [unfolded handleListingSettled_def]])
    (simp add: Let_def closeListing_effect unlistLock_effect saveActivityItem_def)

lemma sold_flags:
  assumes "fst (run_state (handleMarketSellToFurnace c ev a t mn dl out) s) = Some ()"
  shows "listed_flags (exec (handleMarketSellToFurnace c ev a t mn dl out) s) = (listed_flags s)(int_string t := False)
    \<and> open_listings (exec (handleMarketSellToFurnace c ev a t mn dl out) s) = (open_listings s)(int_string t := False)"
proof -
  have drop: "open_listings (case listings s (int_string t) of None \<Rightarrow> s
      | Some l \<Rightarrow> saveListing (int_string t) (l\<lparr>ml_active := False, ml_updatedAt := now\<rparr>) s)
    = (open_listings s)(int_string t := False)" for s now
    by (auto simp: open_listings_def fun_eq_iff store_simps split: option.splits)
  have keep: "listed_flags (case listings s (int_string t) of None \<Rightarrow> s
      | Some l \<Rightarrow> saveListing (int_string t) (l\<lparr>ml_active := False, ml_updatedAt := now\<rparr>) s) = listed_flags s"
    for s now by (simp add: listed_flags_def fun_eq_iff store_simps split: option.splits)
  have run: "snd (run_state (case x of None \<Rightarrow> skip | Some l \<Rightarrow> modify (f l)) s)
      = (case x of None \<Rightarrow> s | Some l \<Rightarrow> f l s)" for x :: "market_listing option" and f s
    by (simp split: option.split)
  show ?thesis
    unfolding handleMarketSellToFurnace_def
    by (rule openMarket_flags [OF assms [unfolded handleMarketSellToFurnace_def]])
      (simp add: Let_def run keep drop unlistLock_effect saveActivityItem_def)
qed

lemma attempt_rule:
  assumes "fst (run_state (seedMarketRouter c ev f \<bind> (\<lambda>protocol.
      attempt (maybeSnapshotMarketRouterParams c (ev_address ev) (ev_timestamp ev)) (\<lambda>_. body protocol))) s) = Some ()"
    and "\<And>p s0. same_core s s0 \<Longrightarrow> fst (run_state (body p) s0) = Some () \<Longrightarrow> Q (exec (body p) s0)"
  shows "Q (exec (seedMarketRouter c ev f \<bind> (\<lambda>protocol.
      attempt (maybeSnapshotMarketRouterParams c (ev_address ev) (ev_timestamp ev)) (\<lambda>_. body protocol))) s)"
proof -
  obtain p s0 where "same_core s s0" and "fst (run_state (body p) s0) = Some ()"
    and run: "exec (seedMarketRouter c ev f \<bind> (\<lambda>protocol.
      attempt (maybeSnapshotMarketRouterParams c (ev_address ev) (ev_timestamp ev)) (\<lambda>_. body protocol))) s
        = exec (body p) s0"
    by (rule open_attempt [OF refl assms(1)])
  then show ?thesis using assms(2) by simp
qed

lemma hydrate_listings [simp]:
  "listings (snd (run_state (hydrateVeLockIfNeeded c l t now a) s)) = listings s"
  by (simp add: hydrateVeLockIfNeeded_def Let_def store_simps split: option.splits)

lemma hydrate_locks:
  "veLocks (snd (run_state (hydrateVeLockIfNeeded c l t now a) s)) = veLocks s
   \<or> (\<exists>l'. veLocks (snd (run_state (hydrateVeLockIfNeeded c l t now a) s)) = (veLocks s)(int_string t \<mapsto> l'))"
  by (auto simp: hydrateVeLockIfNeeded_def Let_def store_simps split: option.splits)

lemma hydrate_others:
  "i \<noteq> int_string t \<Longrightarrow>
     veLocks (snd (run_state (hydrateVeLockIfNeeded c l t now a) s)) i = veLocks s i"
  using hydrate_locks [of c l t now a s] by auto

lemma listed_both_flags:
  assumes "fst (run_state (handleLockListed c ev a t m lt ex) s) = Some ()"
  shows "listed_flags (exec (handleLockListed c ev a t m lt ex) s) = (listed_flags s)(int_string t := True)
    \<and> open_listings (exec (handleLockListed c ev a t m lt ex) s) = (open_listings s)(int_string t := True)"
proof -
  have other: "veLocks (snd (run_state (loadOrCreateVeLockForMarket t a now) s)) i = veLocks s i"
    if "i \<noteq> int_string t" for i now s using that by (auto split: option.splits)
  show ?thesis
    unfolding handleLockListed_def Let_def
    by (rule attempt_rule [OF assms [unfolded handleLockListed_def Let_def]], drule core_flags)
      (auto simp: listed_flags_def open_listings_def fun_eq_iff case_prod_beta store_simps hydrate_others other
        split: option.splits if_splits)
qed

lemma offer_helpers_flags [simp]:
  "listed_flags (snd (run_state (loadOrCreateOffer i a now) s)) = listed_flags s"
  "open_listings (snd (run_state (loadOrCreateOffer i a now) s)) = open_listings s"
  "listed_flags (exec (closeOfferAfterExecution i a now) s) = listed_flags s"
  "open_listings (exec (closeOfferAfterExecution i a now) s) = open_listings s"
  by (rule flags_cong, simp add: closeOfferAfterExecution_def store_simps case_prod_beta)+

lemma clearRouted_flags:
  assumes "open_listings s = listed_flags s"
  shows "open_listings (exec (clearRouted r now) s) = listed_flags (exec (clearRouted r now) s)"
proof (cases "r = 0")
  case True
  then show ?thesis using assms by (simp add: clearRouted_def)
next
  case False
  let ?i = "int_string r"
  define s1 where "s1 = snd (run_state (deactivateListing ?i now) s)"
  have open1: "open_listings s1 = (open_listings s)(?i := False)"
    by (rule open_delisted [where now = now]) (simp add: s1_def)
  have locks1: "veLocks s1 = veLocks s"
    by (simp add: s1_def deactivateListing_def store_simps split: option.splits)
  have run: "exec (clearRouted r now) s = (case veLocks s1 ?i of None \<Rightarrow> s1
      | Some l \<Rightarrow> if vl_listed l then saveVeLock ?i (l\<lparr>vl_listed := False, vl_updatedAt := now\<rparr>) s1 else s1)"
    using False by (simp add: clearRouted_def s1_def split: option.split)
  have "listed_flags (exec (clearRouted r now) s) = (listed_flags s)(?i := False)"
    unfolding run by (auto simp: listed_flags_def locks1 fun_eq_iff store_simps split: option.splits)
  moreover have "open_listings (exec (clearRouted r now) s) = open_listings s1"
    unfolding run by (rule flags_cong(2)) (simp add: store_simps split: option.splits)
  ultimately show ?thesis using assms open1 by simp
qed

text \<open>The events of the market and of the lock token as one step relation over what the indexer has seen.\<close>

inductive market_step :: "chain \<Rightarrow> store \<Rightarrow> store \<Rightarrow> bool" for c where
  ms_created: "veLocks s (int_string t) = None \<Longrightarrow>
     market_step c s (exec (handleLockCreated c ev a t amt e am) s)"
| ms_extended: "veLocks s (int_string t) = Some l \<Longrightarrow> market_step c s (exec (handleLockExtended c ev a t e) s)"
| ms_increased: "veLocks s (int_string t) = Some l \<Longrightarrow>
     market_step c s (exec (handleLockAmountIncreased c ev a t d) s)"
| ms_autoMax: "veLocks s (int_string t) = Some l \<Longrightarrow> market_step c s (exec (handleAutoMaxSet c ev a t am) s)"
| ms_merged: "veLocks s (int_string tf) = Some f \<Longrightarrow> veLocks s (int_string ti) = Some l \<Longrightarrow> tf \<noteq> ti \<Longrightarrow>
     a \<noteq> ZERO_ADDRESS \<Longrightarrow> market_step c s (exec (handleLockMerged c ev a tf ti (vl_amountWei f)) s)"
| ms_unlocked: "veLocks s (int_string t) = Some l \<Longrightarrow> a \<noteq> ZERO_ADDRESS \<Longrightarrow> vl_amountWei l \<le> r \<Longrightarrow>
     market_step c s (exec (handleLockUnlocked c ev a t r) s)"
| ms_transferred: "veLocks s (int_string t) = Some l \<Longrightarrow> a \<noteq> ZERO_ADDRESS \<Longrightarrow> b \<noteq> ZERO_ADDRESS \<Longrightarrow> a \<noteq> b \<Longrightarrow>
     market_step c s (exec (handleTransfer c ev a b t) s)"
| ms_burned: "veLocks s (int_string t) = Some l \<Longrightarrow> \<not> vl_listed l \<Longrightarrow> a \<noteq> ZERO_ADDRESS \<Longrightarrow>
     furnace_of c ev (ve_protocol c ev s) = a \<Longrightarrow> vl_owner l \<noteq> user_id ZERO_ADDRESS \<Longrightarrow> vl_amountWei l \<noteq> 0 \<Longrightarrow>
     market_step c s (exec (handleTransfer c ev a ZERO_ADDRESS t) s)"
| ms_listed: "fst (run_state (handleLockListed c ev a t m lt ex) s) = Some () \<Longrightarrow>
     market_step c s (exec (handleLockListed c ev a t m lt ex) s)"
| ms_delisted: "fst (run_state (handleLockDelisted c ev a t reason) s) = Some () \<Longrightarrow>
     market_step c s (exec (handleLockDelisted c ev a t reason) s)"
| ms_settled: "fst (run_state (handleListingSettled c ev a t out pen) s) = Some () \<Longrightarrow>
     market_step c s (exec (handleListingSettled c ev a t out pen) s)"
| ms_sold: "fst (run_state (handleMarketSellToFurnace c ev a t mn dl out) s) = Some () \<Longrightarrow>
     market_step c s (exec (handleMarketSellToFurnace c ev a t mn dl out) s)"
| ms_executed: "fst (run_state (handleBonusTargetEscrowExecuted c ev i a x p b v r fid) s) = Some () \<Longrightarrow>
     market_step c s (exec (handleBonusTargetEscrowExecuted c ev i a x p b v r fid) s)"
| ms_autoFurnace: "fst (run_state (handleBonusTargetEscrowAutoFurnaceExecuted c ev i a x p b v r fid) s) = Some () \<Longrightarrow>
     market_step c s (exec (handleBonusTargetEscrowAutoFurnaceExecuted c ev i a x p b v r fid) s)"
| ms_offerCreated: "fst (run_state (handleBonusTargetEscrowCreated c ev i a d b ca du am ex ds) s) = Some () \<Longrightarrow>
     market_step c s (exec (handleBonusTargetEscrowCreated c ev i a d b ca du am ex ds) s)"
| ms_offerConfigured: "fst (run_state (handleBonusTargetEscrowConfigured c ev i a tb sl) s) = Some () \<Longrightarrow>
     market_step c s (exec (handleBonusTargetEscrowConfigured c ev i a tb sl) s)"
| ms_offerExpired: "fst (run_state (handleBonusTargetEscrowExpired c ev i a r) s) = Some () \<Longrightarrow>
     market_step c s (exec (handleBonusTargetEscrowExpired c ev i a r) s)"
| ms_offerExtended: "fst (run_state (handleBonusTargetEscrowExpiryExtended c ev i a ex) s) = Some () \<Longrightarrow>
     market_step c s (exec (handleBonusTargetEscrowExpiryExtended c ev i a ex) s)"
| ms_offerCancelled: "fst (run_state (handleBonusTargetEscrowCancelled c ev i a r) s) = Some () \<Longrightarrow>
     market_step c s (exec (handleBonusTargetEscrowCancelled c ev i a r) s)"

inductive market_reachable :: "chain \<Rightarrow> store \<Rightarrow> bool" for c where
  "market_reachable c empty_store"
| "market_reachable c s \<Longrightarrow> market_step c s s' \<Longrightarrow> market_reachable c s'"

lemma run_offer_activity [simp]:
  "run_state (offer_activity ev k b t x) s = ((), saveActivity (eventId ev)
     ((new_activity k (ev_timestamp ev) (ev_txHash ev))
        \<lparr>ai_tokenId := t, ai_user := Some b, ai_amountClaimWei := x,
         ai_sortKey := activitySortKey (ev_timestamp ev) (eventId ev)\<rparr>) s)"
  by (simp add: offer_activity_def saveActivityItem_def new_activity_def)

lemma exec_offer_activity [simp]: "exec (offer_activity ev k b t x) s = snd (run_state (offer_activity ev k b t x) s)"
  by (simp add: exec_def)

lemma executed_flags:
  assumes "fst (run_state (handleBonusTargetEscrowExecuted c ev i a x p b v r fid) s) = Some ()"
    and "open_listings s = listed_flags s"
  shows "open_listings (exec (handleBonusTargetEscrowExecuted c ev i a x p b v r fid) s)
    = listed_flags (exec (handleBonusTargetEscrowExecuted c ev i a x p b v r fid) s)"
  unfolding handleBonusTargetEscrowExecuted_def Let_def
proof (rule attempt_rule [OF assms(1) [unfolded handleBonusTargetEscrowExecuted_def Let_def]], goal_cases)
  case (1 q s0)
  have "open_listings s0 = listed_flags s0" using core_flags [OF 1(1)] assms(2) by simp
  then have "open_listings (exec (closeOfferAfterExecution i a (ev_timestamp ev)) (saveUser (user_id a) (user_of a s0) s0))
      = listed_flags (exec (closeOfferAfterExecution i a (ev_timestamp ev)) (saveUser (user_id a) (user_of a s0) s0))"
    by simp
  moreover have snd_is_exec: "snd (run_state h t) = exec h t" for h :: "unit handler" and t by (simp add: exec_def)
  ultimately show ?case
    by (cases "computeBonusBps b p")
      (simp_all add: createBonusTargetEscrowEvent_def snd_is_exec clearRouted_flags)
qed

lemma autoFurnace_flags:
  assumes "fst (run_state (handleBonusTargetEscrowAutoFurnaceExecuted c ev i a x p b v r fid) s) = Some ()"
  shows "listed_flags (exec (handleBonusTargetEscrowAutoFurnaceExecuted c ev i a x p b v r fid) s) = listed_flags s
    \<and> open_listings (exec (handleBonusTargetEscrowAutoFurnaceExecuted c ev i a x p b v r fid) s) = open_listings s"
  unfolding handleBonusTargetEscrowAutoFurnaceExecuted_def Let_def
proof (rule attempt_rule [OF assms [unfolded handleBonusTargetEscrowAutoFurnaceExecuted_def Let_def]], goal_cases)
  case (1 q s0)
  moreover have snd_is_exec: "snd (run_state h t) = exec h t" for h :: "unit handler" and t by (simp add: exec_def)
  ultimately show ?case using core_flags [OF 1(1)]
    by (cases "computeBonusBps b p") (simp_all add: createBonusTargetEscrowEvent_def snd_is_exec)
qed

lemma offerCreated_flags:
  assumes "fst (run_state (handleBonusTargetEscrowCreated c ev i a d b ca du am ex ds) s) = Some ()"
  shows "listed_flags (exec (handleBonusTargetEscrowCreated c ev i a d b ca du am ex ds) s) = listed_flags s
    \<and> open_listings (exec (handleBonusTargetEscrowCreated c ev i a d b ca du am ex ds) s) = open_listings s"
  unfolding handleBonusTargetEscrowCreated_def Let_def
proof (rule attempt_rule [OF assms [unfolded handleBonusTargetEscrowCreated_def Let_def]], goal_cases)
  case (1 q s0)
  then show ?case using core_flags [OF 1(1)]
    by (cases "toI32 d") (simp_all add: createBonusTargetEscrowEvent_def)
qed

lemma offerConfigured_flags:
  assumes "fst (run_state (handleBonusTargetEscrowConfigured c ev i a tb sl) s) = Some ()"
  shows "listed_flags (exec (handleBonusTargetEscrowConfigured c ev i a tb sl) s) = listed_flags s
    \<and> open_listings (exec (handleBonusTargetEscrowConfigured c ev i a tb sl) s) = open_listings s"
  unfolding handleBonusTargetEscrowConfigured_def Let_def
proof (rule attempt_rule [OF assms [unfolded handleBonusTargetEscrowConfigured_def Let_def]], goal_cases)
  case (1 q s0)
  then show ?case using core_flags [OF 1(1)]
    by (cases "toI32 tb"; cases "toI32 sl") (simp_all add: createBonusTargetEscrowEvent_def)
qed

lemma offerClosed_flags:
  "fst (run_state (handleBonusTargetEscrowExpired c ev i a r) s) = Some () \<Longrightarrow>
     listed_flags (exec (handleBonusTargetEscrowExpired c ev i a r) s) = listed_flags s
     \<and> open_listings (exec (handleBonusTargetEscrowExpired c ev i a r) s) = open_listings s"
  "fst (run_state (handleBonusTargetEscrowExpiryExtended c ev i a r) s) = Some () \<Longrightarrow>
     listed_flags (exec (handleBonusTargetEscrowExpiryExtended c ev i a r) s) = listed_flags s
     \<and> open_listings (exec (handleBonusTargetEscrowExpiryExtended c ev i a r) s) = open_listings s"
  "fst (run_state (handleBonusTargetEscrowCancelled c ev i a r) s) = Some () \<Longrightarrow>
     listed_flags (exec (handleBonusTargetEscrowCancelled c ev i a r) s) = listed_flags s
     \<and> open_listings (exec (handleBonusTargetEscrowCancelled c ev i a r) s) = open_listings s"
  unfolding handleBonusTargetEscrowExpired_def handleBonusTargetEscrowExpiryExtended_def
    handleBonusTargetEscrowCancelled_def
  by (erule openMarket_flags, simp add: Let_def createBonusTargetEscrowEvent_def)+

lemma unlocked_listings:
  assumes "veLocks s (int_string t) = Some l"
  shows "listings (exec (handleLockUnlocked c ev a t r) s)
    = (if vl_listed l then delisted (listings s) (int_string t) (ev_timestamp ev) else listings s)"
  using assms by (auto simp: handleLockUnlocked_def Let_def store_simps)

lemma merged_listings:
  assumes "veLocks s (int_string tf) = Some f" and "veLocks s (int_string ti) = Some l"
  shows "listings (exec (handleLockMerged c ev a tf ti m) s)
    = (if vl_listed f then delisted (listings s) (int_string tf) (ev_timestamp ev) else listings s)"
  using assms by (auto simp: handleLockMerged_def Let_def store_simps)

lemma open_if_delisted:
  assumes "listings t = (if listed_flags s i then delisted (listings s) i now else listings s)"
    and "open_listings s = listed_flags s"
  shows "open_listings t = (listed_flags s)(i := False)"
proof (cases "listed_flags s i")
  case True
  then have "open_listings t = (open_listings s)(i := False)"
    using assms(1) by (intro open_delisted) simp
  then show ?thesis using assms(2) by simp
next
  case False
  then have "open_listings t = open_listings s" using assms(1) by (intro flags_cong) simp
  then show ?thesis using assms(2) False by (simp add: fun_upd_idem)
qed

lemma same_row_flags:
  "veLocks s i = Some l \<Longrightarrow> vl_listed l' = vl_listed l \<Longrightarrow> veLocks t = (veLocks s)(i \<mapsto> l') \<Longrightarrow>
     listed_flags t = listed_flags s"
  by (auto simp: listed_flags_def fun_eq_iff)

lemma market_step_flags:
  assumes "market_step c s s'" and eq: "open_listings s = listed_flags s"
  shows "open_listings s' = listed_flags s'"
  using assms(1)
proof cases
  case (ms_created t ev a amt e am)
  have "listed_flags s' = (listed_flags s)(int_string t := False)"
    using flags_upd(1) [OF created_ledger(1) [OF ms_created(1)]] by (simp add: created_lock_def)
  moreover have "\<not> listed_flags s (int_string t)" using ms_created(2) by (simp add: listed_flags_def)
  moreover have "open_listings s' = open_listings s"
    by (rule flags_cong) (simp add: ms_created(1) listings_of_ve_handlers)
  ultimately show ?thesis using eq by (simp add: fun_upd_idem)
next
  case (ms_extended t l ev a e)
  have "listed_flags s' = listed_flags s"
    by (rule same_row_flags [OF ms_extended(2) _ extended_ledger(1) [OF ms_extended]])
      (simp add: rescheduled_lock_def)
  moreover have "open_listings s' = open_listings s"
    by (rule flags_cong) (simp add: ms_extended(1) listings_of_ve_handlers)
  ultimately show ?thesis using eq by simp
next
  case (ms_increased t l ev a d)
  have "listed_flags s' = listed_flags s"
    by (rule same_row_flags [OF ms_increased(2) _ increased_ledger(1) [OF ms_increased]])
      (simp add: rescheduled_lock_def)
  moreover have "open_listings s' = open_listings s"
    by (rule flags_cong) (simp add: ms_increased(1) listings_of_ve_handlers)
  ultimately show ?thesis using eq by simp
next
  case (ms_autoMax t l ev a am)
  have "listed_flags s' = listed_flags s"
    by (rule same_row_flags [OF ms_autoMax(2) _ autoMax_ledger(1) [OF ms_autoMax]])
      (simp add: rescheduled_lock_def)
  moreover have "open_listings s' = open_listings s"
    by (rule flags_cong) (simp add: ms_autoMax(1) listings_of_ve_handlers)
  ultimately show ?thesis using eq by simp
next
  case (ms_merged tf f ti l a ev)
  have "listed_flags s' = (listed_flags s)(int_string tf := False)"
    using ms_merged(3) int_string_inj ms_merged(4)
    unfolding listed_flags_def merged_ledger(1) [OF ms_merged(1-5)]
    by (auto simp: fun_eq_iff merged_lock_def rescheduled_lock_def cleared_lock_def)
  moreover have "open_listings s' = (listed_flags s)(int_string tf := False)"
    by (rule open_if_delisted [OF _ eq, where now = "ev_timestamp ev"])
      (simp add: ms_merged(1) merged_listings [OF ms_merged(2,3)] listed_flags_def ms_merged(2))
  ultimately show ?thesis by simp
next
  case (ms_unlocked t l a r ev)
  have "listed_flags s' = (listed_flags s)(int_string t := False)"
    using flags_upd(1) [OF unlocked_ledger(1) [OF ms_unlocked(1,2,4,3)]] by (simp add: cleared_lock_def)
  moreover have "open_listings s' = (listed_flags s)(int_string t := False)"
    by (rule open_if_delisted [OF _ eq, where now = "ev_timestamp ev"])
      (simp add: ms_unlocked(1) unlocked_listings [OF ms_unlocked(2)] listed_flags_def ms_unlocked(2))
  ultimately show ?thesis by simp
next
  case (ms_transferred t l a b ev)
  have "listed_flags s' = (listed_flags s)(int_string t := False)"
    using flags_upd(1) [OF normalTransfer_ledger(1) [OF ms_transferred]] by (simp add: moved_lock_def)
  moreover have "open_listings s' = (listed_flags s)(int_string t := False)"
    by (rule open_if_delisted [OF _ eq, where now = "ev_timestamp ev"])
      (simp add: ms_transferred(1) transfer_listings [OF ms_transferred(2-5)] listed_flags_def ms_transferred(2))
  ultimately show ?thesis by simp
next
  case (ms_burned t l a ev)
  have "listed_flags s' = (listed_flags s)(int_string t := False)"
    using flags_upd(1) [OF furnaceBurn_ledger(1) [OF ms_burned(1,2,4-7)]] by (simp add: burned_lock_def)
  moreover have "\<not> listed_flags s (int_string t)" using ms_burned(2,3) by (simp add: listed_flags_def)
  moreover have "open_listings s' = open_listings s"
    by (rule flags_cong) (simp add: ms_burned(1) listings_of_ve_handlers)
  ultimately show ?thesis using eq by (simp add: fun_upd_idem)
next
  case (ms_listed ev a t m lt ex)
  then show ?thesis using listed_both_flags eq by simp
next
  case (ms_delisted ev a t reason)
  then show ?thesis using delisted_flags eq by simp
next
  case (ms_settled ev a t out pen)
  then show ?thesis using settled_flags eq by simp
next
  case (ms_sold ev a t mn dl out)
  then show ?thesis using sold_flags eq by simp
next
  case (ms_executed ev i a x p b v r fid)
  then show ?thesis using executed_flags eq by simp
qed (use autoFurnace_flags offerCreated_flags offerConfigured_flags offerClosed_flags eq in simp_all)

lemma reachable_flags: "market_reachable c s \<Longrightarrow> open_listings s = listed_flags s"
proof (induction rule: market_reachable.induct)
  case 1
  then show ?case by (simp add: open_listings_def listed_flags_def fun_eq_iff)
next
  case (2 s s')
  then show ?case using market_step_flags by blast
qed

section \<open>Escrows against their specification\<close>

text \<open>What a client reads of an escrow: whether it is active, the funds it has left, when it expires.\<close>

type_synonym escrow_view = "bool \<times> int option \<times> int"

definition escrow_view :: "bonus_escrow \<Rightarrow> escrow_view" where
  "escrow_view x = (be_active x, be_fundsRemainingWei x, be_expiresAt x)"

definition escrow_abs :: "store \<Rightarrow> string \<Rightarrow> escrow_view option" where
  "escrow_abs s i = map_option escrow_view (mt_escrows (market s) i)"

text \<open>The events of one escrow, with the arguments their handlers get.\<close>

datatype escrow_event =
    Escrow_created address int int int int bool int int
  | Escrow_configured address int int
  | Escrow_extended address int
  | Escrow_expired address int
  | Escrow_cancelled address int
  | Escrow_executed address int int int int int int
  | Escrow_autoFurnace address int int int int int int

fun escrow_handler :: "chain \<Rightarrow> eth_event \<Rightarrow> int \<Rightarrow> escrow_event \<Rightarrow> unit option handler" where
  "escrow_handler c ev i (Escrow_created a d b t0 du am ex ds) = handleBonusTargetEscrowCreated c ev i a d b t0 du am ex ds"
| "escrow_handler c ev i (Escrow_configured a tb sl) = handleBonusTargetEscrowConfigured c ev i a tb sl"
| "escrow_handler c ev i (Escrow_extended a ex) = handleBonusTargetEscrowExpiryExtended c ev i a ex"
| "escrow_handler c ev i (Escrow_expired a r) = handleBonusTargetEscrowExpired c ev i a r"
| "escrow_handler c ev i (Escrow_cancelled a r) = handleBonusTargetEscrowCancelled c ev i a r"
| "escrow_handler c ev i (Escrow_executed a x p b v r f) = handleBonusTargetEscrowExecuted c ev i a x p b v r f"
| "escrow_handler c ev i (Escrow_autoFurnace a x p b v r f) =
     handleBonusTargetEscrowAutoFurnaceExecuted c ev i a x p b v r f"

text \<open>A run stops at the first handler that aborts.\<close>

fun escrow_run :: "chain \<Rightarrow> (eth_event \<times> int \<times> escrow_event) list \<Rightarrow> store \<Rightarrow> store option" where
  "escrow_run c [] s = Some s"
| "escrow_run c ((ev, i, e) # es) s =
     (case fst (run_state (escrow_handler c ev i e) s) of
        None \<Rightarrow> None | Some _ \<Rightarrow> escrow_run c es (exec (escrow_handler c ev i e) s))"

text \<open>The specification: an escrow never seen counts as closed, without funds, expired at time 0.\<close>

fun escrow_spec :: "int \<Rightarrow> escrow_event \<Rightarrow> escrow_view \<Rightarrow> escrow_view" where
  "escrow_spec now (Escrow_created a d b t0 du am ex ds) v = (True, Some b, ex)"
| "escrow_spec now (Escrow_configured a tb sl) v = v"
| "escrow_spec now (Escrow_extended a ex) (act, funds, old) = (now < ex, funds, ex)"
| "escrow_spec now e (act, funds, ex) = (False, Some 0, ex)"

definition view_or_none :: "escrow_view option \<Rightarrow> escrow_view" where
  "view_or_none v = (case v of None \<Rightarrow> (False, Some 0, 0) | Some w \<Rightarrow> w)"

fun escrow_spec_run :: "(eth_event \<times> int \<times> escrow_event) list \<Rightarrow> (string \<Rightarrow> escrow_view option) \<Rightarrow>
    string \<Rightarrow> escrow_view option" where
  "escrow_spec_run [] v = v"
| "escrow_spec_run ((ev, i, e) # es) v =
     escrow_spec_run es (v(int_string i \<mapsto> escrow_spec (ev_timestamp ev) e (view_or_none (v (int_string i)))))"

lemma escrow_abs_cong: "mt_escrows (market t) = mt_escrows (market s) \<Longrightarrow> escrow_abs t = escrow_abs s"
  by (simp add: escrow_abs_def fun_eq_iff)

lemma escrow_saves [simp]:
  "escrow_abs (saveUser j u s) = escrow_abs s" "escrow_abs (saveMarketLog j l s) = escrow_abs s"
  "escrow_abs (saveActivity j a s) = escrow_abs s" "escrow_abs (saveVeLock j v s) = escrow_abs s"
  "escrow_abs (saveListing j m s) = escrow_abs s"
  "escrow_abs (saveEscrow j x s) = (escrow_abs s)(j \<mapsto> escrow_view x)"
  by (simp_all add: store_simps escrow_abs_def fun_eq_iff)

lemma core_escrows: "same_core s t \<Longrightarrow> escrow_abs t = escrow_abs s"
  by (rule escrow_abs_cong) (simp add: same_core_def)

lemma loaded_offer:
  "escrow_view (fst (run_state (loadOrCreateOffer i a now) s)) = view_or_none (escrow_abs s (int_string i))"
  "escrow_abs (snd (run_state (loadOrCreateOffer i a now) s)) =
     (escrow_abs s)(int_string i \<mapsto> view_or_none (escrow_abs s (int_string i)))"
  by (auto simp: escrow_abs_def view_or_none_def escrow_view_def new_offer_def fun_eq_iff split: option.splits)

lemma loaded_view:
  assumes "view_or_none (escrow_abs s (int_string i)) = (act, funds, ex)"
  shows "be_active (fst (run_state (loadOrCreateOffer i a now) s)) = act"
    "be_fundsRemainingWei (fst (run_state (loadOrCreateOffer i a now) s)) = funds"
    "be_expiresAt (fst (run_state (loadOrCreateOffer i a now) s)) = ex"
  using loaded_offer(1) [of i a now s] assms by (simp_all add: escrow_view_def)

declare run_loadOrCreateOffer(4) [simp del]

lemma closed_abs [simp]:
  "escrow_abs (exec (closeOfferAfterExecution i a now) s) = (escrow_abs s)(int_string i \<mapsto>
     (case view_or_none (escrow_abs s (int_string i)) of (act, funds, ex) \<Rightarrow> (False, Some 0, ex)))"
proof -
  obtain act funds ex where v: "view_or_none (escrow_abs s (int_string i)) = (act, funds, ex)"
    by (cases "view_or_none (escrow_abs s (int_string i))")
  note L = loaded_view [OF v, of a now]
  show ?thesis
    by (auto simp: closeOfferAfterExecution_def case_prod_beta v L loaded_offer closed_offer_def escrow_view_def)
qed

lemma clearRouted_abs [simp]: "escrow_abs (exec (clearRouted r now) s) = escrow_abs s"
  by (rule escrow_abs_cong)
    (simp add: clearRouted_def deactivateListing_def store_simps split: option.splits)

lemma openMarket_abs:
  assumes "fst (run_state (openMarket c ev body) s) = Some ()"
    and "\<And>p s0. escrow_abs s0 = escrow_abs s \<Longrightarrow> escrow_abs (exec (body p) s0) = F"
  shows "escrow_abs (exec (openMarket c ev body) s) = F"
proof -
  obtain p s0 where "same_core s s0" and run: "exec (openMarket c ev body) s = exec (body p) s0"
    by (rule openMarket_body [OF assms(1)])
  then show ?thesis using assms(2) [of s0 p] core_escrows by (simp only: run)
qed

definition escrow_stepped :: "eth_event \<Rightarrow> int \<Rightarrow> escrow_event \<Rightarrow> (string \<Rightarrow> escrow_view option) \<Rightarrow>
    string \<Rightarrow> escrow_view option" where
  "escrow_stepped ev i e v =
     v(int_string i \<mapsto> escrow_spec (ev_timestamp ev) e (view_or_none (v (int_string i))))"

lemma executed_abs:
  assumes "fst (run_state (handleBonusTargetEscrowExecuted c ev i a x p b v r f) s) = Some ()"
  shows "escrow_abs (exec (handleBonusTargetEscrowExecuted c ev i a x p b v r f) s)
    = escrow_stepped ev i (Escrow_executed a x p b v r f) (escrow_abs s)"
  unfolding handleBonusTargetEscrowExecuted_def Let_def
proof (rule attempt_rule [OF assms [unfolded handleBonusTargetEscrowExecuted_def Let_def]], goal_cases)
  case (1 q s0)
  moreover have snd_is_exec: "snd (run_state h t) = exec h t" for h :: "unit handler" and t by (simp add: exec_def)
  ultimately show ?case using core_escrows [OF 1(1)]
    by (cases "computeBonusBps b p")
      (auto simp: createBonusTargetEscrowEvent_def snd_is_exec escrow_stepped_def split: prod.split)
qed

lemma autoFurnace_abs:
  assumes "fst (run_state (handleBonusTargetEscrowAutoFurnaceExecuted c ev i a x p b v r f) s) = Some ()"
  shows "escrow_abs (exec (handleBonusTargetEscrowAutoFurnaceExecuted c ev i a x p b v r f) s)
    = escrow_stepped ev i (Escrow_autoFurnace a x p b v r f) (escrow_abs s)"
  unfolding handleBonusTargetEscrowAutoFurnaceExecuted_def Let_def
proof (rule attempt_rule [OF assms [unfolded handleBonusTargetEscrowAutoFurnaceExecuted_def Let_def]], goal_cases)
  case (1 q s0)
  moreover have snd_is_exec: "snd (run_state h t) = exec h t" for h :: "unit handler" and t by (simp add: exec_def)
  ultimately show ?case using core_escrows [OF 1(1)]
    by (cases "computeBonusBps b p")
      (auto simp: createBonusTargetEscrowEvent_def snd_is_exec escrow_stepped_def split: prod.split)
qed

lemma created_abs:
  assumes "fst (run_state (handleBonusTargetEscrowCreated c ev i a d b t0 du am ex ds) s) = Some ()"
  shows "escrow_abs (exec (handleBonusTargetEscrowCreated c ev i a d b t0 du am ex ds) s)
    = escrow_stepped ev i (Escrow_created a d b t0 du am ex ds) (escrow_abs s)"
  unfolding handleBonusTargetEscrowCreated_def Let_def
proof (rule attempt_rule [OF assms [unfolded handleBonusTargetEscrowCreated_def Let_def]], goal_cases)
  case (1 q s0)
  then show ?case using core_escrows [OF 1(1)]
    by (cases "toI32 d")
      (simp_all add: createBonusTargetEscrowEvent_def escrow_stepped_def created_offer_def escrow_view_def)
qed

lemma configured_abs:
  assumes "fst (run_state (handleBonusTargetEscrowConfigured c ev i a tb sl) s) = Some ()"
  shows "escrow_abs (exec (handleBonusTargetEscrowConfigured c ev i a tb sl) s)
    = escrow_stepped ev i (Escrow_configured a tb sl) (escrow_abs s)"
  unfolding handleBonusTargetEscrowConfigured_def Let_def
proof (rule attempt_rule [OF assms [unfolded handleBonusTargetEscrowConfigured_def Let_def]], goal_cases)
  case (1 q s0)
  then show ?case using core_escrows [OF 1(1)]
    by (cases "toI32 tb"; cases "toI32 sl"; cases "view_or_none (escrow_abs s (int_string i))")
      (simp_all add: createBonusTargetEscrowEvent_def escrow_stepped_def escrow_view_def loaded_view loaded_offer)
qed

lemma open_handlers_abs:
  "fst (run_state (handleBonusTargetEscrowExpired c ev i a r) s) = Some () \<Longrightarrow>
     escrow_abs (exec (handleBonusTargetEscrowExpired c ev i a r) s)
       = escrow_stepped ev i (Escrow_expired a r) (escrow_abs s)"
  "fst (run_state (handleBonusTargetEscrowExpiryExtended c ev i a ex) s) = Some () \<Longrightarrow>
     escrow_abs (exec (handleBonusTargetEscrowExpiryExtended c ev i a ex) s)
       = escrow_stepped ev i (Escrow_extended a ex) (escrow_abs s)"
  "fst (run_state (handleBonusTargetEscrowCancelled c ev i a r) s) = Some () \<Longrightarrow>
     escrow_abs (exec (handleBonusTargetEscrowCancelled c ev i a r) s)
       = escrow_stepped ev i (Escrow_cancelled a r) (escrow_abs s)"
  unfolding handleBonusTargetEscrowExpired_def handleBonusTargetEscrowExpiryExtended_def
    handleBonusTargetEscrowCancelled_def
  by (erule openMarket_abs, cases "view_or_none (escrow_abs s (int_string i))",
      simp add: Let_def createBonusTargetEscrowEvent_def escrow_stepped_def escrow_view_def closed_offer_def
        loaded_view loaded_offer)+

lemmas escrow_abs_handlers = executed_abs autoFurnace_abs created_abs configured_abs open_handlers_abs

lemma escrow_step_abs:
  assumes "fst (run_state (escrow_handler c ev i e) s) = Some ()"
  shows "escrow_abs (exec (escrow_handler c ev i e) s) = escrow_stepped ev i e (escrow_abs s)"
  using assms by (cases e) (simp_all add: escrow_abs_handlers)

lemma escrow_run_abs:
  "escrow_run c es s = Some t \<Longrightarrow> escrow_abs t = escrow_spec_run es (escrow_abs s)"
proof (induction c es s rule: escrow_run.induct)
  case (2 c ev i e es s)
  then have ok: "fst (run_state (escrow_handler c ev i e) s) = Some ()" by (auto split: option.splits)
  then show ?case using 2 escrow_step_abs [OF ok] by (simp add: escrow_stepped_def fun_upd_def)
qed simp

text \<open>An event that can give an escrow funds or reopen it.\<close>

fun reopens :: "escrow_event \<Rightarrow> bool" where
  "reopens (Escrow_created a d b t0 du am ex ds) = True"
| "reopens (Escrow_extended a ex) = True"
| "reopens _ = False"

lemma spec_run_closed:
  assumes "\<forall>(ev, j, e) \<in> set es. int_string j = i \<longrightarrow> \<not> reopens e"
    and "v i = Some (False, Some 0, ex)"
  shows "escrow_spec_run es v i = Some (False, Some 0, ex)"
  using assms
proof (induction es arbitrary: v)
  case (Cons x es)
  obtain ev j e where x: "x = (ev, j, e)" by (cases x)
  have "escrow_spec (ev_timestamp ev) e (False, Some 0, ex) = (False, Some 0, ex)" if "int_string j = i"
    using Cons.prems(1) that x by (cases e) auto
  then have "(v(int_string j \<mapsto> escrow_spec (ev_timestamp ev) e (view_or_none (v (int_string j))))) i
      = Some (False, Some 0, ex)"
    using Cons.prems(2) by (auto simp: view_or_none_def)
  then show ?case using Cons by (simp add: x)
qed simp

section \<open>Prices and log indices\<close>

lemma offer_price_ceiling:
  assumes "b = max 0 (sint tb)"
  shows "computeOfferPriceBpsFromTargetBonus tb = - ((- (BPS * BPS)) div (BPS + b))"
proof -
  have b: "0 \<le> b" "(if sint tb < 0 then 0 else sint tb) = b" by (auto simp: assms)
  have "- (BPS * BPS) = b * BPS + (BPS + b) * (- BPS)" by (simp add: algebra_simps)
  moreover have "(b * BPS + (BPS + b) * (- BPS)) div (BPS + b) = - BPS + b * BPS div (BPS + b)"
    by (rule div_mult_self2) (use b in \<open>simp add: BPS_def\<close>)
  ultimately have "(- (BPS * BPS)) div (BPS + b) = b * BPS div (BPS + b) - BPS" by simp
  then show ?thesis using b
    by (simp add: computeOfferPriceBpsFromTargetBonus_def Let_def bigint_div_nonneg BPS_def)
qed

text \<open>The log indices the loop considers, and the fold it is.\<close>

definition furnace_enter_log :: "bytes \<Rightarrow> int \<Rightarrow> eth_log \<Rightarrow> bool" where
  "furnace_enter_log furnaceAddr beforeLogIndex lg \<longleftrightarrow>
     log_logIndex lg < beforeLogIndex \<and> log_topics lg \<noteq> [] \<and> hd (log_topics lg) = FURNACE_ENTER_SIG
     \<and> (furnaceAddr = ZERO_ADDRESS \<or> log_address lg = furnaceAddr)"

lemma precedingLoop_fold:
  "precedingLoop logs (furnaceAddr \<noteq> ZERO_ADDRESS) furnaceAddr n best
     = fold max (map log_logIndex (filter (furnace_enter_log furnaceAddr n) logs)) best"
  by (induction logs arbitrary: best)
    (auto simp: furnace_enter_log_def max_def not_le not_less split: list.splits)

text \<open>On the local network, where nothing is read from a contract, no snapshot aborts a handler.\<close>

lemma local_opens:
  assumes "isLocalNetwork c"
  shows "fst (run_state (openMarket c ev body) s) = Some ()"
    "fst (run_state (handleLockListed c ev a t m lt ex) s) = Some ()"
  using assms by (simp_all add: openMarket_def handleLockListed_def attempt_def Let_def
      maybeSnapshotMarketRouterParams_def case_prod_beta)

lemma local_chain_is_local [simp]: "isLocalNetwork local_chain"
  by (simp add: isLocalNetwork_def local_chain_def)

section \<open>A lock first seen in a listing\<close>

lemma hydrated_listing_ledger:
  assumes "fst (run_state (handleLockListed c ev a t m lt ex) s) = Some ()"
    and chain: "\<not> isLocalNetwork c" "try_ve c (ev_address ev) = Some v" "v \<noteq> ZERO_ADDRESS"
    and info: "\<And>x. try_getLockInfo c x t = Some (amt, end, am)"
    and unseen: "veLocks s (int_string t) = None"
  shows "\<exists>l. vl_owner l = user_id a \<and> vl_amountWei l = amt
      \<and> veLocks (exec (handleLockListed c ev a t m lt ex) s) = (veLocks s)(int_string t \<mapsto> l)
      \<and> locked_in (users (exec (handleLockListed c ev a t m lt ex) s)) = locked_in (users s)"
  unfolding handleLockListed_def Let_def
proof (rule attempt_rule [OF assms(1) [unfolded handleLockListed_def Let_def]], goal_cases)
  case (1 p s0)
  have ve: "\<not> isZeroAddress (resolveVeClaimNftAddress c x (ev_address ev))" for x
    using chain by (auto simp: resolveVeClaimNftAddress_def isZeroAddress_def)
  have core: "veLocks s0 = veLocks s" "users s0 = users s" using 1(1) by (simp_all add: same_core_def)
  let ?now = "ev_timestamp ev"
  show ?case
    using unseen chain(1) ve
    by (intro exI [of _ "(new_lock t a ?now)\<lparr>vl_amountWei := amt, vl_lockEnd := end, vl_autoMax := am,
          vl_updatedAt := ?now, vl_currentVeWei := Some (currentVeWei amt end ?now am), vl_listed := True\<rparr>"])
      (simp add: core hydrateVeLockIfNeeded_def info case_prod_beta loadOrCreateVeLockForMarket_def
        loadOrCreateVeLock_def loadOrCreateListing_def Let_def new_lock_def store_simps fun_eq_iff
        split: option.split)
qed

section \<open>Properties\<close>

text \<open>
  C28. In every store the events of the lock token and the market reach, the \<open>listed\<close> flag of a lock and the
  \<open>active\<close> flag of its listing row agree, for every token.
\<close>

theorem listing_flags_agree:
  assumes "market_reachable c s"
  shows "listed_flags s i \<longleftrightarrow> open_listings s i"
  using reachable_flags [OF assms] by simp

lemma listing_flags_witness:
  "let s = exec (handleLockListed local_chain sample_event [1] 7 500 0 99)
             (exec (handleLockCreated local_chain sample_event [1] 7 1000 0 True) empty_store)
   in listed_flags s ''7'' \<and> open_listings s ''7''"
proof -
  let ?s1 = "exec (handleLockCreated local_chain sample_event [1] 7 1000 0 True) empty_store"
  let ?s2 = "exec (handleLockListed local_chain sample_event [1] 7 500 0 99) ?s1"
  have ok: "fst (run_state (handleLockListed local_chain sample_event [1] 7 500 0 99) ?s1) = Some ()"
    by (rule local_opens(2)) simp
  have r1: "market_reachable local_chain ?s1"
    by (rule market_reachable.intros(2) [OF market_reachable.intros(1)]) (rule ms_created, simp)
  have r2: "market_reachable local_chain ?s2"
    by (rule market_reachable.intros(2) [OF r1]) (rule ms_listed [OF ok])
  have "int_string 7 = ''7''" by code_simp
  then have "open_listings ?s2 ''7''" using listed_both_flags [OF ok] by simp
  then show ?thesis using listing_flags_agree [OF r2, of "''7''"] by (simp add: Let_def)
qed

text \<open>
  C27. The escrow rows refine the specification of one escrow: whatever sequence of escrow events is
  handled, what a client reads of every escrow is what the specification computes from the events alone.
\<close>

theorem escrows_refine_spec:
  assumes "escrow_run c es empty_store = Some t"
  shows "escrow_abs t = escrow_spec_run es (\<lambda>_. None)"
proof -
  have "escrow_abs empty_store = (\<lambda>_. None)" by (simp add: escrow_abs_def fun_eq_iff)
  then show ?thesis using escrow_run_abs [OF assms] by simp
qed

text \<open>An escrow created, extended and filled.\<close>

definition sample_escrow_events :: "(eth_event \<times> int \<times> escrow_event) list" where
  "sample_escrow_events =
     [(sample_event, 4, Escrow_created [1] 250 900 5000 60 False 6000 0),
      (sample_event, 4, Escrow_extended [1] 7000),
      (sample_event, 4, Escrow_executed [1] 900 900 30 880 0 12)]"

lemma sample_escrow_run:
  obtains t where "escrow_run local_chain sample_escrow_events empty_store = Some t"
proof -
  have conv: "toI32 250 = Some 250" "computeBonusBps 30 900 = Some 333" by code_simp+
  have "\<exists>t. escrow_run local_chain sample_escrow_events empty_store = Some t"
    by (simp add: sample_escrow_events_def local_opens handleBonusTargetEscrowExpiryExtended_def
        handleBonusTargetEscrowCreated_def handleBonusTargetEscrowExecuted_def attempt_def Let_def conv
        maybeSnapshotMarketRouterParams_def case_prod_beta)
  then show ?thesis using that by auto
qed

lemma escrows_refine_witness:
  "\<exists>t. escrow_run local_chain sample_escrow_events empty_store = Some t
     \<and> escrow_abs t ''4'' = Some (False, Some 0, 7000)"
proof -
  obtain t where t: "escrow_run local_chain sample_escrow_events empty_store = Some t"
    by (rule sample_escrow_run)
  have "int_string 4 = ''4''" by code_simp
  then have "escrow_spec_run sample_escrow_events (\<lambda>_. None) ''4'' = Some (False, Some 0, 7000)"
    by (simp add: sample_escrow_events_def sample_event_def view_or_none_def)
  then show ?thesis using escrows_refine_spec [OF t] t by simp
qed

text \<open>
  An escrow that is closed stays closed, without funds and with its expiry, whatever is handled next
  other than its creation or an extension of it.
\<close>

theorem closed_escrow_stays_closed:
  assumes "escrow_run c es s = Some t" and "mt_escrows (market s) i = Some x"
    and "\<not> be_active x" and "be_fundsRemainingWei x = Some 0"
    and "\<forall>(ev, j, e) \<in> set es. int_string j = i \<longrightarrow> \<not> reopens e"
  shows "\<exists>y. mt_escrows (market t) i = Some y \<and> \<not> be_active y \<and> be_fundsRemainingWei y = Some 0
    \<and> be_expiresAt y = be_expiresAt x"
proof -
  have "escrow_abs s i = Some (False, Some 0, be_expiresAt x)"
    using assms(2-4) by (simp add: escrow_abs_def escrow_view_def)
  with assms(5) have "escrow_spec_run es (escrow_abs s) i = Some (False, Some 0, be_expiresAt x)"
    by (rule spec_run_closed)
  then show ?thesis
    by (auto simp: escrow_run_abs [OF assms(1), symmetric] escrow_abs_def escrow_view_def)
qed

lemma closed_escrow_witness:
  "let x = (new_offer 4 ''a'' 10)\<lparr>be_expiresAt := 70\<rparr>; s = saveEscrow ''4'' x empty_store;
       es = [(sample_event, 4, Escrow_expired [1] 0), (sample_event, 5, Escrow_cancelled [1] 0)]
   in \<exists>t y. escrow_run local_chain es s = Some t \<and> mt_escrows (market t) ''4'' = Some y \<and> \<not> be_active y"
proof -
  let ?x = "(new_offer 4 ''a'' 10)\<lparr>be_expiresAt := 70\<rparr>"
  let ?s = "saveEscrow ''4'' ?x empty_store"
  let ?es = "[(sample_event, 4, Escrow_expired [1] 0), (sample_event, 5, Escrow_cancelled [1] 0)]"
  have "\<exists>t. escrow_run local_chain ?es ?s = Some t"
    by (simp add: local_opens handleBonusTargetEscrowExpired_def handleBonusTargetEscrowCancelled_def)
  then obtain t where t: "escrow_run local_chain ?es ?s = Some t" by auto
  have "mt_escrows (market ?s) ''4'' = Some ?x" by (simp add: store_simps)
  from closed_escrow_stays_closed [OF t this] t show ?thesis
    by (auto simp: new_offer_def Let_def)
qed

text \<open>
  The price of an escrow that asks for a bonus of \<open>b\<close> basis points is the least price, in basis points, at
  which a buyer gets it: price times \<open>10000 + b\<close> reaches \<open>10000\<^sup>2\<close>, and one basis point less does not.
  It is positive and at most 10000.
\<close>

theorem offer_price_is_least:
  "(let b = max 0 (sint tb); price = computeOfferPriceBpsFromTargetBonus tb in
      BPS * BPS \<le> price * (BPS + b) \<and> (price - 1) * (BPS + b) < BPS * BPS \<and> 0 < price \<and> price \<le> BPS)"
proof -
  define b where "b = max 0 (sint tb)"
  define p where "p = computeOfferPriceBpsFromTargetBonus tb"
  have b: "0 \<le> b" "0 < BPS + b" by (simp_all add: b_def BPS_def)
  define q where "q = (- (BPS * BPS)) div (BPS + b)"
  have p: "p = - q" using offer_price_ceiling [OF b_def] by (simp add: p_def q_def)
  have m: "- (BPS * BPS) = q * (BPS + b) + (- (BPS * BPS)) mod (BPS + b)"
    unfolding q_def by (simp only: div_mult_mod_eq)
  have "0 \<le> (- (BPS * BPS)) mod (BPS + b)" "(- (BPS * BPS)) mod (BPS + b) < BPS + b" using b by simp_all
  then have le: "BPS * BPS \<le> p * (BPS + b)" and lt: "(p - 1) * (BPS + b) < BPS * BPS"
    using m by (simp_all add: p algebra_simps)
  have "0 < p * (BPS + b)" using le by (simp add: BPS_def)
  then have pos: "0 < p" using b by (simp add: zero_less_mult_iff)
  have "p - 1 < BPS"
  proof (rule ccontr)
    assume "\<not> p - 1 < BPS"
    then have "BPS * BPS \<le> (p - 1) * (BPS + b)" using b by (intro mult_mono) (simp_all add: BPS_def)
    with lt show False by simp
  qed
  with le lt pos show ?thesis by (simp add: b_def p_def Let_def)
qed

text \<open>
  The log searched for is the latest one before the given index that the Furnace emitted with the event's
  signature (any emitter when the Furnace is not known yet), and -1 when there is none or no receipt.
\<close>

theorem preceding_log_is_latest:
  "findPrecedingFurnaceEnterLogIndex receipt furnaceAddr n
     = Max (insert (- 1) (log_logIndex ` {lg \<in> set (case receipt of None \<Rightarrow> [] | Some logs \<Rightarrow> logs).
                            furnace_enter_log furnaceAddr n lg}))"
proof (cases receipt)
  case (Some logs)
  have "findPrecedingFurnaceEnterLogIndex receipt furnaceAddr n
      = fold max (map log_logIndex (filter (furnace_enter_log furnaceAddr n) logs)) (- 1)"
    using Some by (simp add: findPrecedingFurnaceEnterLogIndex_def precedingLoop_fold)
  also have "\<dots> = Max (set (- 1 # map log_logIndex (filter (furnace_enter_log furnaceAddr n) logs)))"
    by (rule Max.set_eq_fold [symmetric])
  finally show ?thesis using Some by simp
qed (simp add: findPrecedingFurnaceEnterLogIndex_def)


text \<open>
  A lock whose first event is its listing gets its principal from the contract, but its owner's
  \<open>totalLockedClaimWei\<close> does not: from a ledger in balance the sum of the owner's locks exceeds the
  aggregate by the whole principal.
\<close>

theorem hydration_credits_nobody:
  assumes "ledger_ok s" and unseen: "veLocks s (int_string t) = None"
    and ran: "fst (run_state (handleLockListed c ev a t m lt ex) s) = Some ()"
    and chain: "\<not> isLocalNetwork c" "try_ve c (ev_address ev) = Some v" "v \<noteq> ZERO_ADDRESS"
    and info: "\<And>x. try_getLockInfo c x t = Some (amt, end, am)"
    and s': "s' = exec (handleLockListed c ev a t m lt ex) s"
  shows "msum (\<lambda>l. vl_owner l = user_id a) vl_amountWei (veLocks s') = locked_in (users s') (user_id a) + amt"
proof -
  obtain l where l: "vl_owner l = user_id a" "vl_amountWei l = amt"
      "veLocks s' = (veLocks s)(int_string t \<mapsto> l)" "locked_in (users s') = locked_in (users s)"
    using hydrated_listing_ledger [OF ran chain info unseen] by (auto simp: s')
  have "locked_in (users s) (user_id a) = msum (\<lambda>l. vl_owner l = user_id a) vl_amountWei (veLocks s)"
    using assms(1) by (intro principal.balancedD) (simp add: ledger_ok_def)
  then show ?thesis
    using assms(1) unseen by (simp add: l msum_upd ledger_ok_def principal.balanced_def)
qed

lemma hydration_witness:
  "let c = local_chain\<lparr>network := ''base'', try_ve := \<lambda>_. Some [8], try_getLockInfo := \<lambda>_ _. Some (500, 0, True)\<rparr>;
       s' = exec (handleLockListed c sample_event [1] 7 100 0 99) empty_store
   in msum (\<lambda>l. vl_owner l = user_id [1]) vl_amountWei (veLocks s') = locked_in (users s') (user_id [1]) + 500"
proof -
  let ?c = "local_chain\<lparr>network := ''base'', try_ve := \<lambda>_. Some [8], try_getLockInfo := \<lambda>_ _. Some (500, 0, True)\<rparr>"
  have far: "\<not> isLocalNetwork ?c" by (simp add: isLocalNetwork_def)
  have ve: "try_ve ?c (ev_address sample_event) = Some [8]" "[8] \<noteq> ZERO_ADDRESS"
    by (simp_all add: short_address_neq)
  have info: "\<And>x. try_getLockInfo ?c x 7 = Some (500, 0, True)" by simp
  have no: "try_minBonusTargetEscrowBudget ?c = (\<lambda>_. None)" by (simp add: local_chain_def)
  have ran: "fst (run_state (handleLockListed ?c sample_event [1] 7 100 0 99) empty_store) = Some ()"
    by (simp add: handleLockListed_def attempt_def Let_def maybeSnapshotMarketRouterParams_def no case_prod_beta)
  show ?thesis
    using hydration_credits_nobody [OF ledger_init _ ran far ve info refl] by (simp add: Let_def)
qed

end
