(* ===== verification/FurnaceMap.thy ===== *)
theory FurnaceMap
  imports PendingQueue MineCoreMap Market
begin

text \<open>
  The event handlers of the Furnace mapping (\<open>src/subgraph/src/mappings/furnace.ts\<close>): token entries decoded
  from call data or from the receipt, the wiring handlers, bonuses, drips, sellbacks, entries, reserve events.

  \<^item> A handler with a \<open>toI32\<close> returns an option, \<open>None\<close> for the abort (as in the market mapping).
  \<^item> The block handler gets the block's number and timestamp. The reads of the quoter give the five leading
    values of \<open>getFurnaceState\<close>: reserve, (unused), user bps, LP bps, quoted bps.
  \<^item> \<open>Address.fromBytes\<close> of the last 20 bytes of a 32-byte topic does not fail.
\<close>

section \<open>Token entries\<close>

definition MODE_ENTER_WITH_TOKEN :: "32 word" where
  "MODE_ENTER_WITH_TOKEN = 3"

definition f_txFurnaceEnterIdByLog :: "bytes \<Rightarrow> int \<Rightarrow> string" where
  "f_txFurnaceEnterIdByLog txHash logIndex = toHexString txHash @ ''-'' @ int_string logIndex"

definition ENTER_WITH_TOKEN_SELECTOR :: bytes where
  "ENTER_WITH_TOKEN_SELECTOR = [0xbc, 0xbb, 0xeb, 0xe1]"

definition ENTER_WITH_TOKEN_FROM_CALLER_FOR_SELECTOR :: bytes where
  "ENTER_WITH_TOKEN_FROM_CALLER_FOR_SELECTOR = [0xa2, 0x60, 0x2c, 0x01]"

definition AUTO_FURNACE_EXECUTED_SIG :: bytes where
  "AUTO_FURNACE_EXECUTED_SIG =
     [0xde, 0x21, 0xb5, 0x2f, 0x3f, 0x82, 0xbe, 0x51, 0xe2, 0xec, 0xdb, 0xc7, 0x08, 0x35, 0x55, 0x50,
      0x52, 0x34, 0x26, 0xc7, 0x75, 0xcb, 0x6d, 0x6c, 0xdf, 0xce, 0x32, 0x3f, 0xf3, 0x23, 0xd9, 0xa4]"

definition transferSig :: bytes where
  "transferSig =
     [0xdd, 0xf2, 0x52, 0xad, 0x1b, 0xe2, 0xc8, 0x9b, 0x69, 0xc2, 0xb0, 0x68, 0xfc, 0x37, 0x8d, 0xaa,
      0x95, 0x2b, 0xa7, 0xf1, 0x63, 0xc4, 0xa1, 0x16, 0x28, 0xf5, 0x5a, 0x4d, 0xf5, 0x23, 0xb3, 0xef]"

record token_entry =
  tk_payer :: address
  tk_tokenIn :: address
  tk_amountIn :: int

text \<open>The loop runs from the last log to the first.\<close>

fun deriveLoop :: "chain \<Rightarrow> eth_log list \<Rightarrow> address \<Rightarrow> int \<Rightarrow> bytes \<Rightarrow> token_entry option" where
  "deriveLoop c [] furnace furnaceEnterLogIndex claimToken = None"
| "deriveLoop c (lg # logs) furnace furnaceEnterLogIndex claimToken =
     (let continue = deriveLoop c logs furnace furnaceEnterLogIndex claimToken in
      if log_logIndex lg \<ge> furnaceEnterLogIndex then continue
      else (case log_topics lg of
          topic0 # topic1 # topic2 # _ \<Rightarrow>
            if toHexString topic0 \<noteq> toHexString transferSig then continue
            else if toHexString (log_address lg) = toHexString claimToken then continue
            else if toHexString (drop 12 topic2) \<noteq> toHexString furnace then continue
            else if length (log_data lg) < 32 then continue
            else (case abi_uint256 c (log_data lg) of
                None \<Rightarrow> continue
              | Some v \<Rightarrow> Some \<lparr>tk_payer = drop 12 topic1, tk_tokenIn = log_address lg, tk_amountIn = v\<rparr>)
        | _ \<Rightarrow> continue))"

definition deriveTokenEntryFromReceipt ::
  "chain \<Rightarrow> eth_log list option \<Rightarrow> address \<Rightarrow> int \<Rightarrow> bytes \<Rightarrow> token_entry option" where
  "deriveTokenEntryFromReceipt c receipt furnace furnaceEnterLogIndex claimToken =
     (case receipt of
        None \<Rightarrow> None
      | Some logs \<Rightarrow> deriveLoop c (rev logs) furnace furnaceEnterLogIndex claimToken)"

definition decodeTokenEntry :: "chain \<Rightarrow> bytes \<Rightarrow> address \<Rightarrow> address \<Rightarrow> token_entry option" where
  "decodeTokenEntry c input eventUser txFrom =
     (if length input < 4 then None
      else let selHex = toHexString (take 4 input); data = drop 4 input in
        if selHex = toHexString ENTER_WITH_TOKEN_SELECTOR
        then (case abi_enterWithToken c data of
            None \<Rightarrow> None
          | Some (tokenIn, amountIn) \<Rightarrow>
              Some \<lparr>tk_payer = eventUser, tk_tokenIn = tokenIn, tk_amountIn = amountIn\<rparr>)
        else if selHex = toHexString ENTER_WITH_TOKEN_FROM_CALLER_FOR_SELECTOR
        then (case abi_enterWithTokenFromCallerFor c data of
            None \<Rightarrow> None
          | Some (userFromCalldata, tokenIn, amountIn) \<Rightarrow>
              if toHexString userFromCalldata \<noteq> toHexString eventUser then None
              else Some \<lparr>tk_payer = txFrom, tk_tokenIn = tokenIn, tk_amountIn = amountIn\<rparr>)
        else None)"

fun topicLoop :: "eth_log list \<Rightarrow> bytes \<Rightarrow> bool \<Rightarrow> address \<Rightarrow> bool" where
  "topicLoop [] sig requireEmitter emitter = False"
| "topicLoop (lg # logs) sig requireEmitter emitter =
     (if requireEmitter \<and> toHexString (log_address lg) \<noteq> toHexString emitter
      then topicLoop logs sig requireEmitter emitter
      else (case log_topics lg of
          [] \<Rightarrow> topicLoop logs sig requireEmitter emitter
        | topic0 # _ \<Rightarrow>
            if toHexString topic0 = toHexString sig then True
            else topicLoop logs sig requireEmitter emitter))"

definition f_receiptHasTopic :: "eth_log list option \<Rightarrow> bytes \<Rightarrow> address \<Rightarrow> bool" where
  "f_receiptHasTopic receipt sig emitter =
     (case receipt of
        None \<Rightarrow> False
      | Some logs \<Rightarrow> topicLoop logs sig (toHexString emitter \<noteq> toHexString ZERO_ADDRESS) emitter)"

fun observedLoop :: "chain \<Rightarrow> eth_log list \<Rightarrow> address \<Rightarrow> address \<Rightarrow> address \<Rightarrow> int \<Rightarrow> int" where
  "observedLoop c [] token sender to acc = acc"
| "observedLoop c (lg # logs) token sender to acc =
     (let continue = observedLoop c logs token sender to in
      if toHexString (log_address lg) \<noteq> toHexString token then continue acc
      else (case log_topics lg of
          topic0 # topic1 # topic2 # _ \<Rightarrow>
            if toHexString topic0 \<noteq> toHexString transferSig then continue acc
            else if toHexString (drop 12 topic1) \<noteq> toHexString sender then continue acc
            else if toHexString (drop 12 topic2) \<noteq> toHexString to then continue acc
            else (case abi_uint256 c (log_data lg) of
                None \<Rightarrow> continue acc
              | Some v \<Rightarrow> continue (acc + v))
        | _ \<Rightarrow> continue acc))"

definition sumObservedTokenIn ::
  "chain \<Rightarrow> eth_log list option \<Rightarrow> address \<Rightarrow> address \<Rightarrow> address \<Rightarrow> int" where
  "sumObservedTokenIn c receipt token sender to =
     (case receipt of None \<Rightarrow> 0 | Some logs \<Rightarrow> observedLoop c logs token sender to 0)"

section \<open>The protocol row and the quoter\<close>

definition FURNACE_BLOCK_HANDLER_MIN_BLOCK :: int where
  "FURNACE_BLOCK_HANDLER_MIN_BLOCK = 10"

definition touchFurnaceProtocol :: "chain \<Rightarrow> address \<Rightarrow> int \<Rightarrow> unit handler" where
  "touchFurnaceProtocol c addr blockNumber = do {
     protocol \<leftarrow> loadOrCreateProtocol c (Some blockNumber);
     let fill = (toHexString (pr_furnace protocol) = toHexString ZERO_ADDRESS);
     let protocol = (if fill then protocol\<lparr>pr_furnace := addr\<rparr> else protocol);
     let alias = (case pr_furnaceEntryTokenRegistry protocol of
         None \<Rightarrow> None
       | Some fe \<Rightarrow> (case pr_entryTokenRegistry protocol of
           None \<Rightarrow> Some fe
         | Some current \<Rightarrow> if toHexString current \<noteq> toHexString fe then Some fe else None));
     let protocol = (case alias of None \<Rightarrow> protocol | Some fe \<Rightarrow> protocol\<lparr>pr_entryTokenRegistry := Some fe\<rparr>);
     (if fill \<or> alias \<noteq> None then modify (saveProtocol PROTOCOL_ID protocol) else skip)
   }"

definition tryReadQuoterState :: "chain \<Rightarrow> address \<Rightarrow> (int \<times> int \<times> int \<times> int \<times> int) option" where
  "tryReadQuoterState c furnaceAddr =
     (case try_furnaceQuoter c furnaceAddr of None \<Rightarrow> None | Some quoter \<Rightarrow> try_getFurnaceState c quoter)"

text \<open>\<open>toI32\<close>, aborting the handler.\<close>

definition with_i32 :: "int \<Rightarrow> (32 word \<Rightarrow> 'a option handler) \<Rightarrow> 'a option handler" where
  "with_i32 i f = (case toI32 i of None \<Rightarrow> ret None | Some x \<Rightarrow> f x)"

text \<open>The two samples, the daily range and the snapshot, in the order every handler calls them.\<close>

definition sampleQuote :: "int \<Rightarrow> 32 word \<Rightarrow> int \<Rightarrow> unit option handler" where
  "sampleQuote ts quoteBps reserve = do {
     maybeCreateBonusSample ts BUCKET_5M quoteBps;
     maybeCreateBonusSample ts BUCKET_1H quoteBps;
     updateDailyBonusQuoteMinMax ts quoteBps reserve;
     updateSnapshotFromLast24h ts quoteBps
   }"

definition quoted_state :: "32 word \<Rightarrow> 32 word \<Rightarrow> furnace_state \<Rightarrow> furnace_state" where
  "quoted_state userBps lpBps state =
     state\<lparr>fs_grossSpotBonusBps := Some (computeGrossSpotBonusBps userBps lpBps),
           fs_userSpotBonusBps := Some userBps, fs_lpTopupRateBps := Some lpBps\<rparr>"

text \<open>The read of the quoter that closes the drip, clamp and credit handlers.\<close>

definition readBonusTiming :: "chain \<Rightarrow> eth_event \<Rightarrow> furnace_state \<Rightarrow> int \<Rightarrow> unit option handler" where
  "readBonusTiming c ev state reserve =
     (if isLocalNetwork c then ret (Some ())
      else (case tryReadQuoterState c (ev_address ev) of
          None \<Rightarrow> ret (Some ())
        | Some (v0, v1, v2, v3, v4) \<Rightarrow>
            with_i32 v4 (\<lambda>quoteBps. with_i32 v2 (\<lambda>userBps. with_i32 v3 (\<lambda>lpBps. do {
              modify (saveFurnaceState ''current'' (quoted_state userBps lpBps state));
              sampleQuote (ev_timestamp ev) quoteBps reserve
            })))))"

definition handleFurnaceBlock :: "chain \<Rightarrow> int \<Rightarrow> int \<Rightarrow> unit option handler" where
  "handleFurnaceBlock c block_number block_timestamp =
     (if block_number < FURNACE_BLOCK_HANDLER_MIN_BLOCK then ret (Some ())
      else if isLocalNetwork c then ret (Some ())
      else do {
        touchFurnaceProtocol c (dataSource_address c) block_number;
        (case tryReadQuoterState c (dataSource_address c) of
           None \<Rightarrow> ret (Some ())
         | Some (reserve, v1, v2, v3, v4) \<Rightarrow>
             with_i32 v4 (\<lambda>quoteUserBonusBps. do {
               maybeCreateBonusSample block_timestamp BUCKET_5M quoteUserBonusBps;
               let hourId = bonusSampleId BUCKET_1H (bucketStart block_timestamp BUCKET_1H);
               hour \<leftarrow> gets (\<lambda>s. ft_bonusSamples (furnace_rows s) hourId);
               maybeCreateBonusSample block_timestamp BUCKET_1H quoteUserBonusBps;
               (if hour = None
                then do {
                  state \<leftarrow> loadOrCreateFurnaceState;
                  state \<leftarrow> refreshLpRewards24h state block_timestamp;
                  modify (saveFurnaceState ''current'' state)
                }
                else skip);
               updateDailyBonusQuoteMinMax block_timestamp quoteUserBonusBps reserve;
               updateSnapshotFromLast24h block_timestamp quoteUserBonusBps
             }))
      })"

section \<open>Wiring\<close>

text \<open>The protocol row with the Furnace's address filled in, changed by \<open>f\<close> and saved.\<close>

definition wireFurnace :: "chain \<Rightarrow> eth_event \<Rightarrow> (protocol \<Rightarrow> protocol) \<Rightarrow> protocol handler" where
  "wireFurnace c ev f = do {
     protocol \<leftarrow> loadOrCreateProtocol c (Some (ev_blockNumber ev));
     let protocol = f (protocol\<lparr>pr_furnace := setBytesIfZero (pr_furnace protocol) (ev_address ev)\<rparr>);
     modify (saveProtocol PROTOCOL_ID protocol);
     ret protocol
   }"

text \<open>The alias kept in sync.\<close>

definition sync_alias :: "protocol \<Rightarrow> protocol" where
  "sync_alias protocol =
     (case pr_furnaceEntryTokenRegistry protocol of
        None \<Rightarrow> protocol
      | Some fe \<Rightarrow> protocol\<lparr>pr_entryTokenRegistry := Some fe\<rparr>)"

definition f_handleEntryTokenRegistrySet :: "chain \<Rightarrow> eth_event \<Rightarrow> address \<Rightarrow> unit handler" where
  "f_handleEntryTokenRegistrySet c ev p_registry = do {
     protocol \<leftarrow> loadOrCreateProtocol c (Some (ev_blockNumber ev));
     let protocol = protocol\<lparr>pr_furnace := setBytesIfZero (pr_furnace protocol) (ev_address ev)\<rparr>;
     let prev = pr_furnaceEntryTokenRegistry protocol;
     modify (saveProtocol PROTOCOL_ID
       (protocol\<lparr>pr_furnaceEntryTokenRegistry := Some p_registry, pr_entryTokenRegistry := Some p_registry\<rparr>));
     let shouldCreate = (case prev of
         None \<Rightarrow> True
       | Some prevBytes \<Rightarrow> toHexString prevBytes \<noteq> toHexString p_registry);
     (if shouldCreate
      then do {
        let registryId = toHexString p_registry;
        r \<leftarrow> gets (\<lambda>s. registries s registryId);
        (if r = None
         then do {
           modify (saveRegistry registryId
             ((new_registry p_registry)\<lparr>tr_updatedAt := Some (ev_timestamp ev)\<rparr>));
           modify (\<lambda>s. s\<lparr>dataSources := dataSources s @ [p_registry]\<rparr>)
         }
         else skip);
        snapshotEntryTokenRegistry c p_registry (ev_timestamp ev) (ev_blockNumber ev)
      }
      else skip)
   }"

definition handleLockingPausedChanged :: "chain \<Rightarrow> eth_event \<Rightarrow> bool \<Rightarrow> unit handler" where
  "handleLockingPausedChanged c ev p_paused = do {
     p \<leftarrow> wireFurnace c ev (\<lambda>p. p\<lparr>pr_lockingPaused := p_paused\<rparr>);
     ret ()
   }"

definition f_handleMineCoreChanged :: "chain \<Rightarrow> eth_event \<Rightarrow> address \<Rightarrow> unit handler" where
  "f_handleMineCoreChanged c ev p_newMineCore = do {
     p \<leftarrow> wireFurnace c ev (\<lambda>p. p\<lparr>pr_mineCore := p_newMineCore\<rparr>);
     ret ()
   }"

definition f_handleMineMarketChanged :: "chain \<Rightarrow> eth_event \<Rightarrow> address \<Rightarrow> unit handler" where
  "f_handleMineMarketChanged c ev p_newMineMarket = do {
     p \<leftarrow> wireFurnace c ev (\<lambda>p. p\<lparr>pr_marketRouter := p_newMineMarket\<rparr>);
     ret ()
   }"

definition f_handleShareholderRoyaltiesChanged :: "chain \<Rightarrow> eth_event \<Rightarrow> address \<Rightarrow> unit handler" where
  "f_handleShareholderRoyaltiesChanged c ev p_newSR = do {
     p \<leftarrow> wireFurnace c ev (\<lambda>p. p\<lparr>pr_shareholderRoyalties := p_newSR\<rparr>);
     ret ()
   }"

definition handleLpRewardsVaultSet :: "chain \<Rightarrow> eth_event \<Rightarrow> address \<Rightarrow> address \<Rightarrow> unit handler" where
  "handleLpRewardsVaultSet c ev p_oldVault p_newVault = do {
     p \<leftarrow> wireFurnace c ev (\<lambda>p. sync_alias (p\<lparr>pr_lpStakingVault := Some p_newVault\<rparr>));
     modify (saveFurnaceLog (eventId ev)
       (LpRewardsVaultSetEvent (ev_timestamp ev) (ev_blockNumber ev) (ev_txHash ev) p_oldVault p_newVault))
   }"

definition handleFurnaceQuoterSet :: "chain \<Rightarrow> eth_event \<Rightarrow> address \<Rightarrow> address \<Rightarrow> unit handler" where
  "handleFurnaceQuoterSet c ev p_oldQuoter p_newQuoter = do {
     p \<leftarrow> wireFurnace c ev (\<lambda>p. sync_alias (p\<lparr>pr_furnaceQuoter := Some p_newQuoter\<rparr>));
     modify (saveFurnaceLog (eventId ev)
       (FurnaceQuoterSetEvent (ev_timestamp ev) (ev_blockNumber ev) (ev_txHash ev) p_oldQuoter p_newQuoter))
   }"

definition handleLpRewardsNotifyFailed :: "chain \<Rightarrow> eth_event \<Rightarrow> address \<Rightarrow> int \<Rightarrow> bytes \<Rightarrow> unit handler" where
  "handleLpRewardsNotifyFailed c ev p_vault p_amountClaim p_revertData = do {
     p \<leftarrow> wireFurnace c ev sync_alias;
     modify (saveFurnaceLog (eventId ev)
       (LpRewardsNotifyFailedEvent (ev_timestamp ev) (ev_blockNumber ev) (ev_txHash ev) p_vault p_amountClaim
          p_revertData))
   }"

definition handleLpStreamFunded :: "chain \<Rightarrow> eth_event \<Rightarrow> int \<Rightarrow> int \<Rightarrow> int \<Rightarrow> unit handler" where
  "handleLpStreamFunded c ev p_amountFunded p_newRatePerSec p_newPeriodFinish = do {
     p \<leftarrow> wireFurnace c ev sync_alias;
     modify (saveFurnaceLog (eventId ev)
       (LpStreamFundedEvent (ev_timestamp ev) (ev_blockNumber ev) (ev_txHash ev) p_amountFunded p_newRatePerSec
          p_newPeriodFinish));
     state \<leftarrow> loadOrCreateFurnaceState;
     modify (saveFurnaceState ''current''
       (state\<lparr>fs_updatedAt := ev_timestamp ev, fs_lpStreamRatePerSec := p_newRatePerSec,
              fs_lpStreamPeriodFinish := p_newPeriodFinish\<rparr>))
   }"

section \<open>Bonuses, drips and the reserve\<close>

definition paid_day :: "int \<Rightarrow> int \<Rightarrow> int \<Rightarrow> furnace_day \<Rightarrow> furnace_day" where
  "paid_day grossBonus lpTopup reserveAfter d =
     d\<lparr>fd_bonusPaidCount := fd_bonusPaidCount d + 1, fd_totalGrossBonus := fd_totalGrossBonus d + grossBonus,
       fd_totalLpTopup := fd_totalLpTopup d + lpTopup, fd_totalLpFromFurnace := fd_totalLpFromFurnace d + lpTopup,
       fd_reserveEnd := reserveAfter\<rparr>"

text \<open>The parameters of \<open>BonusPaid\<close>.\<close>

record bonus_paid =
  bp_user :: address
  bp_principal :: int
  bp_principalEff :: int
  bp_grossBonusClaim :: int
  bp_userBonusClaim :: int
  bp_lpTopupClaim :: int
  bp_userSpotBonusBps :: int
  bp_lpTopupRateBps :: int
  bp_grossSpotBonusBps :: int
  bp_quoteUserBonusBps :: int
  bp_quoteLpTopupBps :: int
  bp_lockDurationSec :: int
  bp_reserveBefore :: int
  bp_reserveAfter :: int
  bp_virtualDepthBefore :: int
  bp_virtualDepthAfter :: int

definition handleBonusPaid :: "chain \<Rightarrow> eth_event \<Rightarrow> bonus_paid \<Rightarrow> unit option handler" where
  "handleBonusPaid c ev p = do {
     touchFurnaceProtocol c (ev_address ev) (ev_blockNumber ev);
     bonusUser \<leftarrow> loadOrCreateUser (bp_user p);
     with_i32 (bp_userSpotBonusBps p) (\<lambda>userSpot. with_i32 (bp_lpTopupRateBps p) (\<lambda>lpRate.
     with_i32 (bp_grossSpotBonusBps p) (\<lambda>grossSpot. with_i32 (bp_quoteUserBonusBps p) (\<lambda>quoteBps.
     with_i32 (bp_quoteLpTopupBps p) (\<lambda>quoteLp. with_i32 (bp_lockDurationSec p) (\<lambda>duration. do {
       modify (saveFurnaceLog (eventId ev)
         (BonusPaidEvent (ev_timestamp ev) (ev_blockNumber ev) (ev_txHash ev) (user_id (bp_user p))
            (bp_principal p) (bp_principalEff p) (bp_grossBonusClaim p) (bp_userBonusClaim p)
            (bp_lpTopupClaim p) userSpot lpRate grossSpot quoteBps quoteLp duration (bp_reserveBefore p)
            (bp_reserveAfter p) (bp_virtualDepthBefore p) (bp_virtualDepthAfter p)));
       attempt (sampleQuote (ev_timestamp ev) quoteBps (bp_reserveAfter p)) (\<lambda>_. do {
         let dayId = dayIdFromTimestamp (ev_timestamp ev);
         daily \<leftarrow> loadOrCreateDay dayId;
         modify (saveDay dayId (paid_day (bp_grossBonusClaim p) (bp_lpTopupClaim p) (bp_reserveAfter p) daily));
         recordPendingBonusPaid ev (bp_user p) (bp_userBonusClaim p) (bp_reserveAfter p);
         addToLpRewardsSample1h (ev_timestamp ev) (bp_lpTopupClaim p) 0 0;
         state \<leftarrow> loadOrCreateFurnaceState;
         state \<leftarrow> refreshLpRewards24h
           (state\<lparr>fs_updatedAt := ev_timestamp ev, fs_reserve := bp_reserveAfter p,
                  fs_userSpotBonusBps := Some userSpot, fs_grossSpotBonusBps := Some grossSpot,
                  fs_lpTopupRateBps := Some lpRate\<rparr>) (ev_timestamp ev);
         modify (saveFurnaceState ''current'' state);
         ret (Some ())
       })
     }))))))
   }"

definition drip_day :: "int \<Rightarrow> int \<Rightarrow> furnace_day \<Rightarrow> furnace_day" where
  "drip_day drip reserveAfter d =
     d\<lparr>fd_dripCount := fd_dripCount d + 1, fd_totalLpDrip := fd_totalLpDrip d + drip,
       fd_totalLpFromFurnace := fd_totalLpFromFurnace d + drip, fd_reserveEnd := reserveAfter\<rparr>"

definition handleLpOverflowDripPaid ::
  "chain \<Rightarrow> eth_event \<Rightarrow> int \<Rightarrow> int \<Rightarrow> int \<Rightarrow> int \<Rightarrow> int \<Rightarrow> int \<Rightarrow> int \<Rightarrow> int \<Rightarrow> int \<Rightarrow> unit option handler" where
  "handleLpOverflowDripPaid c ev p_dripAmount p_reserveBefore p_reserveAfter p_alphaBps p_gateBps
     p_capInflowPerDay p_capFixedPerDay p_reserveTarget p_excessBefore = do {
     touchFurnaceProtocol c (ev_address ev) (ev_blockNumber ev);
     with_i32 p_alphaBps (\<lambda>alphaBps. with_i32 p_gateBps (\<lambda>gateBps. do {
       modify (saveFurnaceLog (eventId ev)
         (LpOverflowDripPaidEvent (ev_timestamp ev) (ev_blockNumber ev) (ev_txHash ev) p_dripAmount
            p_reserveBefore p_reserveAfter alphaBps gateBps p_capInflowPerDay p_capFixedPerDay
            p_reserveTarget p_excessBefore));
       let dayId = dayIdFromTimestamp (ev_timestamp ev);
       daily \<leftarrow> loadOrCreateDay dayId;
       modify (saveDay dayId (drip_day p_dripAmount p_reserveAfter daily));
       addToLpRewardsSample1h (ev_timestamp ev) 0 p_dripAmount 0;
       state \<leftarrow> loadOrCreateFurnaceState;
       state \<leftarrow> refreshLpRewards24h
         (state\<lparr>fs_updatedAt := ev_timestamp ev, fs_reserve := p_reserveAfter,
                fs_capInflowPerDay := Some p_capInflowPerDay\<rparr>) (ev_timestamp ev);
       modify (saveFurnaceState ''current'' state);
       readBonusTiming c ev state p_reserveAfter
     }))
   }"

text \<open>The state and the day after an event that sets the reserve.\<close>

definition setReserve :: "eth_event \<Rightarrow> int \<Rightarrow> furnace_state handler" where
  "setReserve ev newReserve = do {
     state \<leftarrow> loadOrCreateFurnaceState;
     let state = state\<lparr>fs_updatedAt := ev_timestamp ev, fs_reserve := newReserve\<rparr>;
     modify (saveFurnaceState ''current'' state);
     let dayId = dayIdFromTimestamp (ev_timestamp ev);
     daily \<leftarrow> loadOrCreateDay dayId;
     modify (saveDay dayId (daily\<lparr>fd_reserveEnd := newReserve\<rparr>));
     ret state
   }"

definition handleReserveClamped ::
  "chain \<Rightarrow> eth_event \<Rightarrow> address \<Rightarrow> int \<Rightarrow> int \<Rightarrow> int \<Rightarrow> int \<Rightarrow> unit option handler" where
  "handleReserveClamped c ev p_caller p_oldReserve p_newReserve p_claimBalance p_lpStreamLiability = do {
     p \<leftarrow> wireFurnace c ev sync_alias;
     caller \<leftarrow> loadOrCreateUser p_caller;
     modify (saveFurnaceLog (eventId ev)
       (ReserveClampedEvent (ev_timestamp ev) (ev_blockNumber ev) (ev_txHash ev) (user_id p_caller)
          p_oldReserve p_newReserve p_claimBalance p_lpStreamLiability));
     state \<leftarrow> setReserve ev p_newReserve;
     readBonusTiming c ev state p_newReserve
   }"

definition handleReserveCredited :: "chain \<Rightarrow> eth_event \<Rightarrow> int \<Rightarrow> int \<Rightarrow> unit option handler" where
  "handleReserveCredited c ev p_amount p_newReserve = do {
     p \<leftarrow> wireFurnace c ev sync_alias;
     modify (saveFurnaceLog (eventId ev)
       (ReserveCreditedEvent (ev_timestamp ev) (ev_blockNumber ev) (ev_txHash ev) p_amount p_newReserve));
     state \<leftarrow> setReserve ev p_newReserve;
     readBonusTiming c ev state p_newReserve
   }"

section \<open>Sellbacks\<close>

text \<open>The discount of the trade row: null for an empty lock, 0 for a premium; the outer option is the abort.\<close>

definition trade_discount :: "int \<Rightarrow> int \<Rightarrow> (32 word) option option" where
  "trade_discount lockAmount claimOut =
     (if lockAmount = 0 then Some None
      else if claimOut \<ge> lockAmount then Some (Some 0)
      else (case toI32 (bigint_div ((lockAmount - claimOut) * 10000) lockAmount) of
          None \<Rightarrow> None
        | Some rawBps \<Rightarrow> Some (Some (if sint rawBps > 10000 then 10000 else rawBps))))"

definition sold_lock :: "int \<Rightarrow> ve_lock \<Rightarrow> ve_lock" where
  "sold_lock now l =
     l\<lparr>vl_owner := user_id ZERO_ADDRESS, vl_amountWei := 0, vl_listed := False, vl_updatedAt := now,
       vl_currentVeWei := Some 0\<rparr>"

text \<open>What is left of the Furnace's aggregates when the custody of a lock is taken back.\<close>

definition released_user :: "ve_lock \<Rightarrow> int \<Rightarrow> user \<Rightarrow> user" where
  "released_user l now u =
     (let lockVe = (case vl_currentVeWei l of
            None \<Rightarrow> currentVeWei (vl_amountWei l) (vl_lockEnd l) now (vl_autoMax l)
          | Some v \<Rightarrow> v);
          furnaceLocked = as_BigInt (us_totalLockedClaimWei u);
          furnaceVe = as_BigInt (us_veBalanceWei u)
      in u\<lparr>us_totalLockedClaimWei := Some (minus_clamped furnaceLocked (vl_amountWei l)),
           us_veBalanceWei := Some (minus_clamped furnaceVe lockVe)\<rparr>)"

definition burnSoldLock :: "eth_event \<Rightarrow> int \<Rightarrow> unit handler" where
  "burnSoldLock ev tokenId = do {
     let lockId = int_string tokenId;
     row \<leftarrow> gets (\<lambda>s. veLocks s lockId);
     (case row of
        None \<Rightarrow> skip
      | Some l \<Rightarrow> do {
          zero \<leftarrow> loadOrCreateUser ZERO_ADDRESS;
          (if vl_amountWei l = 0 \<and> vl_owner l = user_id ZERO_ADDRESS then skip
           else do {
             furnaceUser \<leftarrow> loadOrCreateUser (ev_address ev);
             modify (saveUser (user_id (ev_address ev)) (released_user l (ev_timestamp ev) furnaceUser));
             modify (saveVeLock lockId (sold_lock (ev_timestamp ev) l))
           })
        })
   }"

definition sell_day :: "int \<Rightarrow> int \<Rightarrow> int \<Rightarrow> int \<Rightarrow> furnace_day \<Rightarrow> furnace_day" where
  "sell_day lockAmount claimOut lpReward reserveAdd d =
     d\<lparr>fd_sellCount := fd_sellCount d + 1, fd_totalSellLockAmount := fd_totalSellLockAmount d + lockAmount,
       fd_totalSellClaimOut := fd_totalSellClaimOut d + claimOut,
       fd_totalSellLpReward := fd_totalSellLpReward d + lpReward,
       fd_totalSellReserveAdd := fd_totalSellReserveAdd d + reserveAdd,
       fd_totalLpFromFurnace := fd_totalLpFromFurnace d + lpReward\<rparr>"

text \<open>The quoter's reserve, user, LP and quoted bps, if it was read: an abort, or an optional quote.\<close>

definition read_quote :: "chain \<Rightarrow> address \<Rightarrow> (int \<times> 32 word \<times> 32 word \<times> 32 word) option option" where
  "read_quote c furnace =
     (if isLocalNetwork c then Some None
      else (case tryReadQuoterState c furnace of
          None \<Rightarrow> Some None
        | Some (v0, v1, v2, v3, v4) \<Rightarrow>
            (case (toI32 v2, toI32 v3, toI32 v4) of
               (Some userBps, Some lpBps, Some quoteBps) \<Rightarrow> Some (Some (v0, userBps, lpBps, quoteBps))
             | _ \<Rightarrow> None)))"

text \<open>The parameters of \<open>LockSoldToFurnace\<close>.\<close>

record lock_sold =
  so_seller :: address
  so_tokenId :: int
  so_lockAmount :: int
  so_claimOut :: int
  so_spreadBps :: int
  so_cut :: int
  so_lpSaleShareBps :: int
  so_lpReward :: int
  so_reserveAdd :: int
  so_bonusRefBpsUsed :: int

definition tradeRow :: "eth_event \<Rightarrow> lock_sold \<Rightarrow> (32 word) option \<Rightarrow> furnace_log" where
  "tradeRow ev p discount =
     MarketTradeEvent ''BUY'' (so_tokenId p) (user_id (so_seller p)) (user_id (ev_address ev)) (so_claimOut p)
       (so_cut p) (so_lockAmount p) discount (ev_timestamp ev) (ev_txHash ev)"

text \<open>The rollups of a sellback: day, LP sample, state, then the samples when the quoter answered.\<close>

definition sellRollup :: "chain \<Rightarrow> eth_event \<Rightarrow> lock_sold \<Rightarrow> unit option handler" where
  "sellRollup c ev p = do {
     let now = ev_timestamp ev;
     let dayId = dayIdFromTimestamp now;
     daily \<leftarrow> loadOrCreateDay dayId;
     addToLpRewardsSample1h now 0 0 (so_lpReward p);
     state \<leftarrow> loadOrCreateFurnaceState;
     (case read_quote c (ev_address ev) of
        None \<Rightarrow> ret None
      | Some quote \<Rightarrow> do {
          let reserveEnd = (case quote of
              None \<Rightarrow> fs_reserve state + so_reserveAdd p
            | Some (v0, userBps, lpBps, quoteBps) \<Rightarrow> v0);
          let state = state\<lparr>fs_updatedAt := now, fs_reserve := reserveEnd\<rparr>;
          state \<leftarrow> refreshLpRewards24h (case quote of
              None \<Rightarrow> state
            | Some (v0, userBps, lpBps, quoteBps) \<Rightarrow> quoted_state userBps lpBps state) now;
          modify (saveFurnaceState ''current'' state);
          modify (saveDay dayId ((sell_day (so_lockAmount p) (so_claimOut p) (so_lpReward p)
            (so_reserveAdd p) daily)\<lparr>fd_reserveEnd := reserveEnd\<rparr>));
          (case quote of
             None \<Rightarrow> ret (Some ())
           | Some (v0, userBps, lpBps, quoteBps) \<Rightarrow> sampleQuote now quoteBps reserveEnd)
        })
   }"

definition handleLockSoldToFurnace :: "chain \<Rightarrow> eth_event \<Rightarrow> lock_sold \<Rightarrow> unit option handler" where
  "handleLockSoldToFurnace c ev p = do {
     touchFurnaceProtocol c (ev_address ev) (ev_blockNumber ev);
     seller \<leftarrow> loadOrCreateUser (so_seller p);
     with_i32 (so_spreadBps p) (\<lambda>spreadBps. with_i32 (so_lpSaleShareBps p) (\<lambda>lpSaleShareBps.
     with_i32 (so_bonusRefBpsUsed p) (\<lambda>bonusRefBpsUsed. do {
       modify (saveFurnaceLog (eventId ev)
         (LockSoldToFurnaceEvent (ev_timestamp ev) (ev_blockNumber ev) (ev_txHash ev) (user_id (so_seller p))
            (so_tokenId p) (so_lockAmount p) (so_claimOut p) spreadBps (so_cut p) lpSaleShareBps
            (so_lpReward p) (so_reserveAdd p) bonusRefBpsUsed));
       buyer \<leftarrow> loadOrCreateUser (ev_address ev);
       (case trade_discount (so_lockAmount p) (so_claimOut p) of
          None \<Rightarrow> ret None
        | Some discount \<Rightarrow> do {
            modify (saveFurnaceLog (eventId ev) (tradeRow ev p discount));
            burnSoldLock ev (so_tokenId p);
            attempt (sellRollup c ev p) (\<lambda>_. do {
              saveActivityItem (eventId ev) ((new_activity ''FURNACE_SELLBACK'' (ev_timestamp ev) (ev_txHash ev))
                \<lparr>ai_user := Some (user_id (so_seller p)), ai_tokenId := Some (so_tokenId p),
                 ai_amountClaimWei := Some (so_claimOut p)\<rparr>);
              ret (Some ())
            })
          })
     })))
   }"

section \<open>Entries and settlements\<close>

text \<open>The token and amount of a token entry, from call data joined with the receipt, or the receipt alone.\<close>

definition canonical_amount :: "int \<Rightarrow> int \<Rightarrow> int" where
  "canonical_amount amountInCalldata observed =
     (if observed > 0
      then (if amountInCalldata > 0 \<and> observed > amountInCalldata then amountInCalldata else observed)
      else amountInCalldata)"

definition entry_of ::
  "chain \<Rightarrow> eth_event \<Rightarrow> address \<Rightarrow> 32 word \<Rightarrow> bytes \<Rightarrow> (address \<times> int) option" where
  "entry_of c ev p_user mode claimToken =
     (if mode \<noteq> MODE_ENTER_WITH_TOKEN then None
      else (case decodeTokenEntry c (ev_txInput ev) p_user (ev_txFrom ev) of
          Some decoded \<Rightarrow>
            Some (tk_tokenIn decoded, canonical_amount (tk_amountIn decoded)
              (sumObservedTokenIn c (ev_receipt ev) (tk_tokenIn decoded) (tk_payer decoded) (ev_address ev)))
        | None \<Rightarrow>
            map_option (\<lambda>e. (tk_tokenIn e, tk_amountIn e))
              (deriveTokenEntryFromReceipt c (ev_receipt ev) (ev_address ev) (ev_logIndex ev) claimToken)))"

text \<open>The join row; a row that exists keeps its transaction and user.\<close>

definition recordJoin :: "eth_event \<Rightarrow> string \<Rightarrow> int \<Rightarrow> int \<Rightarrow> int \<Rightarrow> unit handler" where
  "recordJoin ev userId p_tokenId p_principalClaim p_bonusClaim = do {
     let txJoinId = f_txFurnaceEnterIdByLog (ev_txHash ev) (ev_logIndex ev);
     j \<leftarrow> gets (\<lambda>s. mt_furnaceEnters (market s) txJoinId);
     modify (saveTxFurnaceEnter txJoinId
       \<lparr>te_txHash = (case j of None \<Rightarrow> ev_txHash ev | Some x \<Rightarrow> te_txHash x),
        te_user = (case j of None \<Rightarrow> userId | Some x \<Rightarrow> te_user x),
        te_logIndex = ev_logIndex ev, te_tokenId = p_tokenId, te_principalClaimWei = p_principalClaim,
        te_bonusClaimWei = p_bonusClaim, te_timestamp = ev_timestamp ev, te_blockNumber = ev_blockNumber ev\<rparr>)
   }"

definition handleFurnaceEnter ::
  "chain \<Rightarrow> eth_event \<Rightarrow> address \<Rightarrow> 32 word \<Rightarrow> int \<Rightarrow> int \<Rightarrow> int \<Rightarrow> int \<Rightarrow> unit handler" where
  "handleFurnaceEnter c ev p_user p_mode p_ethIn p_principalClaim p_bonusClaim p_tokenId = do {
     protocol \<leftarrow> wireFurnace c ev sync_alias;
     user \<leftarrow> loadOrCreateUser p_user;
     let entry = entry_of c ev p_user p_mode (pr_claimToken protocol);
     modify (saveFurnaceLog (eventId ev)
       (FurnaceEnterEvent (blockSortKey (ev_blockNumber ev) (eventId ev)) (ev_timestamp ev) (ev_blockNumber ev)
          (ev_txHash ev) (user_id p_user) p_mode p_ethIn p_principalClaim p_bonusClaim p_tokenId
          (map_option fst entry) (map_option snd entry)));
     let autoFurnaceEmitter = (if toHexString (pr_marketRouter protocol) \<noteq> toHexString ZERO_ADDRESS
                               then pr_marketRouter protocol else ZERO_ADDRESS);
     (if f_receiptHasTopic (ev_receipt ev) AUTO_FURNACE_EXECUTED_SIG autoFurnaceEmitter
      then recordJoin ev (user_id p_user) p_tokenId p_principalClaim p_bonusClaim
      else skip);
     modify (saveUser (user_id p_user)
       (user\<lparr>us_furnaceEthInWei := us_furnaceEthInWei user + p_ethIn,
             us_furnacePrincipalClaimInWei := us_furnacePrincipalClaimInWei user + p_principalClaim\<rparr>));
     settleDeliveredUserBonus (ev_timestamp ev) (ev_txHash ev) p_user p_bonusClaim;
     saveActivityItem (eventId ev) ((new_activity ''FURNACE_ENTER'' (ev_timestamp ev) (ev_txHash ev))
       \<lparr>ai_user := Some (user_id p_user), ai_tokenId := Some p_tokenId, ai_amountEthWei := Some p_ethIn,
        ai_amountClaimWei := Some p_principalClaim\<rparr>)
   }"

definition handleFurnaceMergeWithBonus ::
  "chain \<Rightarrow> eth_event \<Rightarrow> address \<Rightarrow> int \<Rightarrow> int \<Rightarrow> int \<Rightarrow> int \<Rightarrow> int \<Rightarrow> int \<Rightarrow> bool \<Rightarrow> int \<Rightarrow> int \<Rightarrow> unit handler" where
  "handleFurnaceMergeWithBonus c ev p_user p_fromTokenId p_intoTokenId p_fromAmount p_intoAmount p_newPrincipal
     p_newEnd p_newAutoMax p_durationDelta p_bonusClaim = do {
     touchFurnaceProtocol c (ev_address ev) (ev_blockNumber ev);
     user \<leftarrow> loadOrCreateUser p_user;
     modify (saveFurnaceLog (eventId ev)
       (FurnaceMergeWithBonusEvent (ev_timestamp ev) (ev_blockNumber ev) (ev_txHash ev) (user_id p_user)
          p_fromTokenId p_intoTokenId p_fromAmount p_intoAmount p_newPrincipal p_newEnd p_newAutoMax
          p_durationDelta p_bonusClaim));
     settleDeliveredUserBonus (ev_timestamp ev) (ev_txHash ev) p_user p_bonusClaim
   }"

definition handleAutoMaxBonusClaimed :: "chain \<Rightarrow> eth_event \<Rightarrow> address \<Rightarrow> int \<Rightarrow> int \<Rightarrow> unit handler" where
  "handleAutoMaxBonusClaimed c ev p_user p_tokenId p_bonusClaim = do {
     touchFurnaceProtocol c (ev_address ev) (ev_blockNumber ev);
     user \<leftarrow> loadOrCreateUser p_user;
     modify (saveFurnaceLog (eventId ev)
       (AutoMaxBonusClaimedEvent (ev_timestamp ev) (ev_blockNumber ev) (ev_txHash ev) (user_id p_user)
          p_tokenId p_bonusClaim));
     settleDeliveredUserBonus (ev_timestamp ev) (ev_txHash ev) p_user p_bonusClaim
   }"

definition f_handleDelegationSessionUsed ::
  "eth_event \<Rightarrow> address \<Rightarrow> address \<Rightarrow> int \<Rightarrow> int \<Rightarrow> int \<Rightarrow> int \<Rightarrow> unit handler" where
  "f_handleDelegationSessionUsed ev p_user p_delegate p_actionType p_permsUsed p_refId p_timestamp =
     recordDelegationSessionUsed ev p_user p_delegate p_actionType p_permsUsed p_refId p_timestamp"

section \<open>Invariants that every handler keeps\<close>

lemma keeps_with_i32 [keeps]: "(\<And>x. keeps_inv P (f x)) \<Longrightarrow> keeps_inv P (with_i32 i f)"
  by (auto simp: with_i32_def intro!: keeps)

lemma keeps_attempt [keeps]: "keeps_inv P h \<Longrightarrow> (\<And>x. keeps_inv P (f x)) \<Longrightarrow> keeps_inv P (attempt h f)"
  by (auto simp: attempt_def intro!: keeps)

text \<open>Handlers and helpers that touch no row of the Furnace.\<close>

lemma keeps_touch [keeps]: "keeps_inv (rows_inv I) (touchFurnaceProtocol c a b)"
  by (auto simp: touchFurnaceProtocol_def Let_def part_inv_def store_simps intro!: keeps split: option.splits)

lemma keeps_wire [keeps]: "keeps_inv (rows_inv I) (wireFurnace c ev f)"
  by (auto simp: wireFurnace_def Let_def part_inv_def store_simps intro!: keeps)

lemma keeps_registry [keeps]: "keeps_inv (rows_inv I) (snapshotEntryTokenRegistry c r ts b)"
  by (auto simp: snapshotEntryTokenRegistry_def Let_def part_inv_def store_simps intro!: keeps split: option.splits)

lemma keeps_session [keeps]: "keeps_inv (rows_inv I) (recordDelegationSessionUsed ev u d a p r ts)"
  by (auto simp: recordDelegationSessionUsed_def Let_def part_inv_def store_simps intro!: keeps split: option.splits)

lemma keeps_burn [keeps]: "keeps_inv (rows_inv I) (burnSoldLock ev t)"
  by (auto simp: burnSoldLock_def Let_def part_inv_def store_simps intro!: keeps)

lemma keeps_join [keeps]: "keeps_inv (rows_inv I) (recordJoin ev u t p b)"
  by (auto simp: recordJoin_def Let_def part_inv_def store_simps intro!: keeps)

text \<open>
  An invariant about the snapshot or the LP samples: it does not look at the other tables, and the three
  operations on those two keep it. Every handler then keeps it.
\<close>

locale furnace_invariant =
  fixes I :: "furnace_tables \<Rightarrow> bool"
  assumes frame: "I (f\<lparr>ft_days := d\<rparr>) = I f" "I (f\<lparr>ft_states := x\<rparr>) = I f" "I (f\<lparr>ft_queues := q\<rparr>) = I f"
      "I (f\<lparr>ft_pendings := p\<rparr>) = I f" "I (f\<lparr>ft_bonusSamples := b\<rparr>) = I f" "I (f\<lparr>ft_logs := g\<rparr>) = I f"
    and update: "keeps_inv (rows_inv I) (updateSnapshotFromLast24h ts quote)"
    and add_lp: "0 \<le> topup \<Longrightarrow> 0 \<le> drip \<Longrightarrow> 0 \<le> sell \<Longrightarrow> keeps_inv (rows_inv I) (addToLpRewardsSample1h ts topup drip sell)"
    and refresh: "keeps_inv (rows_inv I) (refreshLpRewards24h st ts)"
    and init: "I (furnace_rows empty_store)"
begin

lemmas leaves = update refresh keeps_days [of I, OF frame(1)] keeps_samples [of I, OF frame(5)]
  keeps_state [of I, OF frame(2)] keeps_settle [of I, OF frame(1-4)]

lemma sample_quote: "keeps_inv (rows_inv I) (sampleQuote ts quote r)"
  by (simp add: sampleQuote_def) (intro keeps leaves)

lemma timing: "keeps_inv (rows_inv I) (readBonusTiming c ev st r)"
  unfolding readBonusTiming_def
  by (intro keeps sample_quote) (simp_all add: part_inv_def store_simps frame)

lemma block: "keeps_inv (rows_inv I) (handleFurnaceBlock c n ts)"
  unfolding handleFurnaceBlock_def
  by (intro keeps leaves) (simp_all add: part_inv_def store_simps frame)

lemma set_reserve: "keeps_inv (rows_inv I) (setReserve ev r)"
  unfolding setReserve_def
  by (intro keeps leaves) (simp_all add: part_inv_def store_simps frame)

lemma bonus_paid:
  assumes "0 \<le> bp_lpTopupClaim p"
  shows "keeps_inv (rows_inv I) (handleBonusPaid c ev p)"
  unfolding handleBonusPaid_def
  by (intro keeps leaves sample_quote add_lp keeps_rows_other) (use assms in \<open>simp_all add: part_inv_def store_simps frame\<close>)

lemma drip:
  assumes "0 \<le> dr"
  shows "keeps_inv (rows_inv I) (handleLpOverflowDripPaid c ev dr rb ra al ga ci cf rt eb)"
  unfolding handleLpOverflowDripPaid_def
  by (intro keeps leaves timing add_lp) (use assms in \<open>simp_all add: part_inv_def store_simps frame\<close>)

lemma clamped: "keeps_inv (rows_inv I) (handleReserveClamped c ev cl ro rn cb ls)"
  unfolding handleReserveClamped_def
  by (intro keeps set_reserve timing keeps_rows_other) (simp_all add: part_inv_def store_simps frame)

lemma credited: "keeps_inv (rows_inv I) (handleReserveCredited c ev am rn)"
  unfolding handleReserveCredited_def
  by (intro keeps set_reserve timing) (simp_all add: part_inv_def store_simps frame)

lemma rollup:
  assumes "0 \<le> so_lpReward p"
  shows "keeps_inv (rows_inv I) (sellRollup c ev p)"
  unfolding sellRollup_def
  by (intro keeps leaves sample_quote add_lp) (use assms in \<open>simp_all add: part_inv_def store_simps frame\<close>)

lemma sold:
  assumes "0 \<le> so_lpReward p"
  shows "keeps_inv (rows_inv I) (handleLockSoldToFurnace c ev p)"
  unfolding handleLockSoldToFurnace_def
  by (intro keeps rollup assms keeps_rows_other) (simp_all add: part_inv_def store_simps frame)

lemma entered: "keeps_inv (rows_inv I) (handleFurnaceEnter c ev u m ei pc bc t)"
  unfolding handleFurnaceEnter_def
  by (intro keeps leaves keeps_rows_other) (simp_all add: part_inv_def store_simps frame)

lemma settlements:
  "keeps_inv (rows_inv I) (handleFurnaceMergeWithBonus c ev u tf ti fa ia np ne na dd bc)"
  "keeps_inv (rows_inv I) (handleAutoMaxBonusClaimed c ev u t bc)"
  unfolding handleFurnaceMergeWithBonus_def handleAutoMaxBonusClaimed_def
  by (intro keeps leaves keeps_rows_other; simp add: part_inv_def store_simps frame)+

lemma wirings:
  "keeps_inv (rows_inv I) (f_handleEntryTokenRegistrySet c ev r)"
  "keeps_inv (rows_inv I) (handleLockingPausedChanged c ev b)"
  "keeps_inv (rows_inv I) (f_handleMineCoreChanged c ev a)"
  "keeps_inv (rows_inv I) (f_handleMineMarketChanged c ev a)"
  "keeps_inv (rows_inv I) (f_handleShareholderRoyaltiesChanged c ev a)"
  "keeps_inv (rows_inv I) (handleLpRewardsVaultSet c ev a b')"
  "keeps_inv (rows_inv I) (handleFurnaceQuoterSet c ev a b')"
  "keeps_inv (rows_inv I) (handleLpRewardsNotifyFailed c ev a x y)"
  "keeps_inv (rows_inv I) (handleLpStreamFunded c ev x y' z)"
  "keeps_inv (rows_inv I) (f_handleDelegationSessionUsed ev u d ty pu ri tm)"
  unfolding f_handleEntryTokenRegistrySet_def handleLockingPausedChanged_def f_handleMineCoreChanged_def
    f_handleMineMarketChanged_def f_handleShareholderRoyaltiesChanged_def handleLpRewardsVaultSet_def
    handleFurnaceQuoterSet_def handleLpRewardsNotifyFailed_def handleLpStreamFunded_def f_handleDelegationSessionUsed_def
  by (intro keeps leaves keeps_rows_other; simp add: part_inv_def store_simps frame)+

end

interpretation snapshot: furnace_invariant snapshot_inv
  by unfold_locales (auto intro: keeps_updateSnapshot keeps_lp simp: snapshot_inv_def)

interpretation lp_rows: furnace_invariant lp_inv
proof unfold_locales
  show "keeps_inv (rows_inv lp_inv) (updateSnapshotFromLast24h ts quote)" for ts quote
    by (auto simp: updateSnapshotFromLast24h_def loadOrCreateFurnaceBonusSnapshot_def Let_def part_inv_def store_simps
        intro!: keeps split: option.split)
qed (auto intro: keeps_addToLp keeps_refreshLp simp: lp_inv_def)

section \<open>Reachable stores\<close>

text \<open>One step per event; amounts of LP rewards are unsigned on the chain. A handler that aborts takes no step.\<close>

inductive furnace_event :: "chain \<Rightarrow> store \<Rightarrow> store \<Rightarrow> bool" for c where
  "fst (run_state (handleFurnaceBlock c n ts) s) = Some () \<Longrightarrow> furnace_event c s (exec (handleFurnaceBlock c n ts) s)"
| "fst (run_state (handleBonusPaid c ev p) s) = Some () \<Longrightarrow> 0 \<le> bp_lpTopupClaim p \<Longrightarrow>
     furnace_event c s (exec (handleBonusPaid c ev p) s)"
| "fst (run_state (handleLpOverflowDripPaid c ev dr rb ra al ga ci cf rt eb) s) = Some () \<Longrightarrow> 0 \<le> dr \<Longrightarrow>
     furnace_event c s (exec (handleLpOverflowDripPaid c ev dr rb ra al ga ci cf rt eb) s)"
| "fst (run_state (handleLockSoldToFurnace c ev q) s) = Some () \<Longrightarrow> 0 \<le> so_lpReward q \<Longrightarrow>
     furnace_event c s (exec (handleLockSoldToFurnace c ev q) s)"
| "fst (run_state (handleReserveClamped c ev cl ro rn cb ls) s) = Some () \<Longrightarrow>
     furnace_event c s (exec (handleReserveClamped c ev cl ro rn cb ls) s)"
| "fst (run_state (handleReserveCredited c ev am rn) s) = Some () \<Longrightarrow>
     furnace_event c s (exec (handleReserveCredited c ev am rn) s)"
| "furnace_event c s (exec (handleFurnaceEnter c ev u m ei pc bc t) s)"
| "furnace_event c s (exec (handleFurnaceMergeWithBonus c ev u tf ti fa ia np ne na dd bc) s)"
| "furnace_event c s (exec (handleAutoMaxBonusClaimed c ev u t bc) s)"
| "furnace_event c s (exec (f_handleEntryTokenRegistrySet c ev a) s)"
| "furnace_event c s (exec (handleLockingPausedChanged c ev b) s)"
| "furnace_event c s (exec (f_handleMineCoreChanged c ev a) s)"
| "furnace_event c s (exec (f_handleMineMarketChanged c ev a) s)"
| "furnace_event c s (exec (f_handleShareholderRoyaltiesChanged c ev a) s)"
| "furnace_event c s (exec (handleLpRewardsVaultSet c ev a a') s)"
| "furnace_event c s (exec (handleFurnaceQuoterSet c ev a a') s)"
| "furnace_event c s (exec (handleLpRewardsNotifyFailed c ev a x y) s)"
| "furnace_event c s (exec (handleLpStreamFunded c ev x y' z) s)"
| "furnace_event c s (exec (f_handleDelegationSessionUsed ev u d ty pu ri tm) s)"
| "furnace_rows s' = furnace_rows s \<Longrightarrow> furnace_event c s s'" \<comment> \<open>the other mappings\<close>

inductive furnace_reachable :: "chain \<Rightarrow> store \<Rightarrow> bool" for c where
  "furnace_reachable c empty_store"
| "furnace_reachable c s \<Longrightarrow> furnace_event c s s' \<Longrightarrow> furnace_reachable c s'"

context furnace_invariant begin

lemma keeps_rows: "keeps_inv (rows_inv I) h \<Longrightarrow> I (furnace_rows s) \<Longrightarrow> I (furnace_rows (exec h s))"
  using keeps_exec [of "rows_inv I" h s] by (simp add: part_inv_def)

lemmas handlers = block bonus_paid drip sold clamped credited entered settlements wirings

lemma step: "furnace_event c s s' \<Longrightarrow> I (furnace_rows s) \<Longrightarrow> I (furnace_rows s')"
  by (induction rule: furnace_event.induct) (simp_all add: keeps_rows handlers)

lemma reachable: "furnace_reachable c s \<Longrightarrow> I (furnace_rows s)"
  by (induction rule: furnace_reachable.induct) (auto intro: step init)

end

section \<open>Joining entries and executions\<close>

lemma settle_market [simp]: "market (exec (settleDeliveredUserBonus ts h u b) s) = market s"
  by (auto simp: settleDeliveredUserBonus_def settleHead_def advanceQueue_def loadOrCreateDay_def
      loadOrCreateFurnaceState_def Let_def store_simps split: option.splits)

lemma joinId_eq: "f_txFurnaceEnterIdByLog = txFurnaceEnterIdByLog"
  by (simp add: f_txFurnaceEnterIdByLog_def txFurnaceEnterIdByLog_def fun_eq_iff)

lemma router_protocol [simp]:
  "pr_marketRouter (sync_alias p) = pr_marketRouter p"
  by (simp add: sync_alias_def split: option.split)

lemma snd_run [simp]: "snd (run_state (settleDeliveredUserBonus ts h u b) s) = exec (settleDeliveredUserBonus ts h u b) s"
  by (simp add: exec_def)

lemma entered_join:
  assumes "f_receiptHasTopic (ev_receipt ev) AUTO_FURNACE_EXECUTED_SIG
      (pr_marketRouter (protocol_of c (Some (ev_blockNumber ev)) s))"
  shows "map_option te_tokenId (mt_furnaceEnters (market (exec (handleFurnaceEnter c ev u m ei pc bc t) s))
      (txFurnaceEnterIdByLog (ev_txHash ev) (ev_logIndex ev))) = Some t"
proof -
  have "(if toHexString r \<noteq> toHexString ZERO_ADDRESS then r else ZERO_ADDRESS) = r" for r by simp
  then show ?thesis using assms
    by (simp add: handleFurnaceEnter_def wireFurnace_def Let_def recordJoin_def joinId_eq saveActivityItem_def
        store_simps)
qed

text \<open>A chain whose quoter answers, and the block handler on it.\<close>

definition quoting_chain :: chain where
  "quoting_chain = local_chain\<lparr>network := ''base'', try_furnaceQuoter := \<lambda>_. Some [8],
     try_getFurnaceState := \<lambda>_. Some (1000, 0, 500, 100, 500)\<rparr>"

lemma snapshot_saved:
  assumes "dayIdI32 ts \<noteq> None"
  shows "fst (run_state (updateSnapshotFromLast24h ts q) s) = Some ()
    \<and> ft_snapshots (furnace_rows (snd (run_state (updateSnapshotFromLast24h ts q) s))) ''1'' \<noteq> None"
  using assms by (auto simp: updateSnapshotFromLast24h_def Let_def case_prod_beta store_simps)

lemma quoting_block:
  "fst (run_state (handleFurnaceBlock quoting_chain 100 5000) s) = Some ()
    \<and> ft_snapshots (furnace_rows (exec (handleFurnaceBlock quoting_chain 100 5000) s)) ''1'' \<noteq> None"
proof -
  have d: "dayIdI32 5000 \<noteq> None" by code_simp
  have i: "toI32 500 = Some 500" by code_simp
  have q: "\<not> isLocalNetwork quoting_chain" "tryReadQuoterState quoting_chain a = Some (1000, 0, 500, 100, 500)" for a
    by (simp_all add: isLocalNetwork_def quoting_chain_def tryReadQuoterState_def)
  show ?thesis
    using snapshot_saved [OF d]
    by (auto simp: handleFurnaceBlock_def FURNACE_BLOCK_HANDLER_MIN_BLOCK_def q with_i32_def i exec_def Let_def case_prod_beta)
qed

section \<open>Properties\<close>

text \<open>
  C29. In every store the Furnace's events reach, the bonus snapshot is ordered: the 24h minimum, the three
  quantiles and the 24h maximum are in that order and contain the current quote, and so do the 7-day range and
  the 30-day range around it.
\<close>

theorem furnace_snapshot_ordered:
  assumes "furnace_reachable c s" and "ft_snapshots (furnace_rows s) ''1'' = Some x"
  shows "snapshot_ordered x"
  using snapshot.reachable [OF assms(1)] assms(2) by (simp add: snapshot_inv_def)

lemma furnace_snapshot_witness:
  "\<exists>x. ft_snapshots (furnace_rows (exec (handleFurnaceBlock quoting_chain 100 5000) empty_store)) ''1'' = Some x
     \<and> snapshot_ordered x"
proof -
  let ?s = "exec (handleFurnaceBlock quoting_chain 100 5000) empty_store"
  obtain x where ran: "fst (run_state (handleFurnaceBlock quoting_chain 100 5000) empty_store) = Some ()"
      and x: "ft_snapshots (furnace_rows ?s) ''1'' = Some x"
    using quoting_block [of empty_store] by auto
  have "furnace_reachable quoting_chain ?s"
    by (rule furnace_reachable.intros(2) [OF furnace_reachable.intros(1)]) (rule furnace_event.intros(1) [OF ran])
  from furnace_snapshot_ordered [OF this x] x show ?thesis by simp
qed

text \<open>
  In every such store a refresh of the 24h totals gives a total that is the sum of its three parts.
\<close>

theorem lp_totals_add_up:
  assumes "furnace_reachable c s" and "x = fst (run_state (refreshLpRewards24h st ts) s)"
  shows "fs_lpRewardsClaim24h x = fs_lpRewardsTopupClaim24h x + fs_lpRewardsDripClaim24h x + fs_lpRewardsSellRewardClaim24h x"
  using lp_part_adds [OF lp_rows.reachable [OF assms(1)]] by (simp add: assms(2) run_refreshLp lp_sum_part)

lemma lp_totals_add_up_witness:
  "let s = exec (handleLpOverflowDripPaid local_chain sample_event 40 100 60 1 1 1 1 1 1) empty_store;
       x = fst (run_state (refreshLpRewards24h new_furnace_state 5000) s)
   in furnace_reachable local_chain s
      \<and> fs_lpRewardsClaim24h x = fs_lpRewardsTopupClaim24h x + fs_lpRewardsDripClaim24h x + fs_lpRewardsSellRewardClaim24h x"
proof -
  let ?h = "handleLpOverflowDripPaid local_chain sample_event 40 100 60 1 1 1 1 1 1"
  have i: "toI32 1 = Some 1" by code_simp
  have "fst (run_state ?h empty_store) = Some ()"
    by (simp add: handleLpOverflowDripPaid_def with_i32_def i readBonusTiming_def Let_def case_prod_beta)
  then have "furnace_reachable local_chain (exec ?h empty_store)"
    by (intro furnace_reachable.intros(2) [OF furnace_reachable.intros(1)] furnace_event.intros(3)) simp_all
  from lp_totals_add_up [OF this refl, of new_furnace_state 5000] this show ?thesis by (simp add: Let_def)
qed

text \<open>
  The market's execution handler finds the Furnace entry it belongs to: after an entry of the same
  transaction was indexed, whose receipt shows an automatic execution of the router, a lookup before a later
  log gives that entry's token, provided it is the latest entry before that log.
\<close>

theorem execution_finds_entry:
  assumes "ev_receipt ev = Some logs" and "entry \<in> set logs"
    and "furnace_enter_log (ev_address ev) n entry" "log_logIndex entry = ev_logIndex ev" "0 \<le> ev_logIndex ev"
    and "\<forall>lg \<in> set logs. furnace_enter_log (ev_address ev) n lg \<longrightarrow> log_logIndex lg \<le> ev_logIndex ev"
    and "f_receiptHasTopic (Some logs) AUTO_FURNACE_EXECUTED_SIG (pr_marketRouter (protocol_of c (Some (ev_blockNumber ev)) s))"
    and "s' = exec (handleFurnaceEnter c ev u m ei pc bc t) s"
  shows "resolveExecutedFurnaceTokenId (ev_txHash ev) 0 (Some logs) (ev_address ev) n s' = t"
proof -
  have "findPrecedingFurnaceEnterLogIndex (Some logs) (ev_address ev) n
      = fold max (map log_logIndex (filter (furnace_enter_log (ev_address ev) n) logs)) (- 1)"
    by (simp add: findPrecedingFurnaceEnterLogIndex_def precedingLoop_fold)
  also have "\<dots> = Max (set (- 1 # map log_logIndex (filter (furnace_enter_log (ev_address ev) n) logs)))"
    by (rule Max.set_eq_fold [symmetric])
  also have "\<dots> = ev_logIndex ev"
    using assms(2-6) by (intro Max_eqI) force+
  finally have "findPrecedingFurnaceEnterLogIndex (Some logs) (ev_address ev) n = ev_logIndex ev" .
  moreover obtain row where "mt_furnaceEnters (market s') (txFurnaceEnterIdByLog (ev_txHash ev) (ev_logIndex ev)) = Some row"
      "te_tokenId row = t"
    using entered_join [of ev c s u m ei pc bc t] assms(1,7,8) by auto
  ultimately show ?thesis using assms(5) by (simp add: resolveExecutedFurnaceTokenId_def Let_def)
qed

lemma execution_finds_entry_witness:
  "let entry = \<lparr>log_address = [9], log_topics = [FURNACE_ENTER_SIG], log_logIndex = 3, log_data = []\<rparr>;
       executed = \<lparr>log_address = [4], log_topics = [AUTO_FURNACE_EXECUTED_SIG], log_logIndex = 5, log_data = []\<rparr>;
       s = exec (handleFurnaceEnter local_chain (sample_event\<lparr>ev_receipt := Some [entry, executed]\<rparr>) [1] 0 10 100 5 7) empty_store
   in resolveExecutedFurnaceTokenId [171] 0 (Some [entry, executed]) [9] 5 s = 7"
proof -
  let ?entry = "\<lparr>log_address = [9], log_topics = [FURNACE_ENTER_SIG], log_logIndex = 3, log_data = []\<rparr>"
  let ?executed = "\<lparr>log_address = [4], log_topics = [AUTO_FURNACE_EXECUTED_SIG], log_logIndex = 5, log_data = []\<rparr>"
  let ?ev = "sample_event\<lparr>ev_receipt := Some [?entry, ?executed]\<rparr>"
  have router: "pr_marketRouter (protocol_of local_chain (Some (ev_blockNumber ?ev)) empty_store) = ZERO_ADDRESS"
    by (simp add: protocol_of_def backfillEntryTokenRegistry_def new_protocol_def)
  have "f_receiptHasTopic (Some [?entry, ?executed]) AUTO_FURNACE_EXECUTED_SIG
      (pr_marketRouter (protocol_of local_chain (Some (ev_blockNumber ?ev)) empty_store))"
    by (simp only: router) (simp add: f_receiptHasTopic_def)
  from execution_finds_entry [of ?ev "[?entry, ?executed]" ?entry 5, OF _ _ _ _ _ _ this refl, of "[1]" 0 10 100 5 7]
  show ?thesis by (simp add: sample_event_def furnace_enter_log_def Let_def)
qed

text \<open>
  The sellback guard. \<open>LockSoldToFurnace\<close> leaves the lock burned: empty, unlisted, owned by the zero address.
  On a lock that the burn \<open>Transfer\<close> has already cleared it changes neither the lock nor any user's totals.
\<close>

theorem sellback_guard:
  assumes l: "veLocks s (int_string t) = Some l" and s': "s' = exec (burnSoldLock ev t) s"
  shows "(\<exists>b. veLocks s' (int_string t) = Some b \<and> vl_amountWei b = 0 \<and> vl_owner b = user_id ZERO_ADDRESS)
    \<and> (vl_amountWei l = 0 \<and> vl_owner l = user_id ZERO_ADDRESS \<longrightarrow>
         veLocks s' = veLocks s \<and> locked_in (users s') = locked_in (users s) \<and> ve_in (users s') = ve_in (users s))"
proof (cases "vl_amountWei l = 0 \<and> vl_owner l = user_id ZERO_ADDRESS")
  case True
  then show ?thesis using l by (simp add: s' burnSoldLock_def Let_def store_simps)
next
  case False
  then show ?thesis using l by (auto simp: s' burnSoldLock_def sold_lock_def Let_def store_simps)
qed

lemma sellback_guard_witness:
  "let s = saveVeLock (int_string 7) ((new_lock 7 [9] 100)\<lparr>vl_amountWei := 60\<rparr>) empty_store
   in \<exists>b. veLocks (exec (burnSoldLock sample_event 7) s) (int_string 7) = Some b
       \<and> vl_amountWei b = 0 \<and> vl_owner b = user_id ZERO_ADDRESS"
  using sellback_guard [OF _ refl, of "saveVeLock (int_string 7) ((new_lock 7 [9] 100)\<lparr>vl_amountWei := 60\<rparr>) empty_store" 7
      "(new_lock 7 [9] 100)\<lparr>vl_amountWei := 60\<rparr>" sample_event]
  by (simp add: store_simps Let_def)

end
