(* ===== verification/LpVault.thy ===== *)
theory LpVault
  imports HandlerRules PricingApr
begin

text \<open>
  The LP staking vault mapping (\<open>src/subgraph/src/mappings/lpStakingVault7D.ts\<close>): the harvest keepers, one
  log entity per event, and the APR inputs that stakes, unbonds and rewards move.

  \<^item> The log classes and the tables are in \<open>Store\<close>; \<open>dataSource.address()\<close> is the chain's field of that name.
  \<^item> \<open>reasonCode\<close> is a \<open>uint8\<close>, which the event passes as an \<open>i32\<close>.
\<close>

section \<open>Auto-compounding\<close>

definition COMPOUND_FOR_SELECTOR :: string where
  "COMPOUND_FOR_SELECTOR = ''0x22e65764''"

definition COMPOUND_FOR_MANY_SELECTOR :: string where
  "COMPOUND_FOR_MANY_SELECTOR = ''0xd4c3d93b''"

definition isAutoCompoundTransaction :: "bytes \<Rightarrow> bool" where
  "isAutoCompoundTransaction input =
     (let selector = take 10 (toHexString input)
      in selector = COMPOUND_FOR_SELECTOR \<or> selector = COMPOUND_FOR_MANY_SELECTOR)"

definition lp_handleAutoCompoundConfigured ::
  "eth_event \<Rightarrow> address \<Rightarrow> bool \<Rightarrow> int \<Rightarrow> int \<Rightarrow> int \<Rightarrow> int \<Rightarrow> unit handler" where
  "lp_handleAutoCompoundConfigured ev p_user p_enabled p_tokenId p_durationSeconds p_maxSlippageBps
     p_minRewardToCompound = do {
     user \<leftarrow> loadOrCreateUser p_user;
     modify (saveVaultLog (eventId ev)
       (AutoCompoundConfiguredEvent (user_id p_user) p_enabled p_tokenId p_durationSeconds p_maxSlippageBps
          p_minRewardToCompound (ev_timestamp ev) (ev_txHash ev)))
   }"

definition lp_handleAutoCompoundPaused :: "eth_event \<Rightarrow> address \<Rightarrow> int \<Rightarrow> 32 word \<Rightarrow> unit handler" where
  "lp_handleAutoCompoundPaused ev p_user p_tokenId p_reasonCode = do {
     user \<leftarrow> loadOrCreateUser p_user;
     modify (saveVaultLog (eventId ev)
       (AutoCompoundPausedEvent (user_id p_user) p_tokenId p_reasonCode (ev_timestamp ev) (ev_txHash ev)))
   }"

definition lp_handleAutoCompoundUnpaused :: "eth_event \<Rightarrow> address \<Rightarrow> unit handler" where
  "lp_handleAutoCompoundUnpaused ev p_user = do {
     user \<leftarrow> loadOrCreateUser p_user;
     modify (saveVaultLog (eventId ev)
       (AutoCompoundUnpausedEvent (user_id p_user) (ev_timestamp ev) (ev_txHash ev)))
   }"

section \<open>Configuration and ownership\<close>

definition handleHarvestKeeperSet :: "eth_event \<Rightarrow> address \<Rightarrow> bool \<Rightarrow> unit handler" where
  "handleHarvestKeeperSet ev p_keeper p_allowed = do {
     keeper \<leftarrow> loadOrCreateUser p_keeper;
     let keeperId = user_id p_keeper;
     r \<leftarrow> gets (\<lambda>s. lt_harvestKeepers (launch_rows s) keeperId);
     let state = (case r of
         None \<Rightarrow> \<lparr>kr_keeper = keeperId, kr_allowed = p_allowed, kr_updatedAt = ev_timestamp ev\<rparr>
       | Some state \<Rightarrow> state\<lparr>kr_allowed := p_allowed, kr_updatedAt := ev_timestamp ev\<rparr>);
     modify (saveHarvestKeeper keeperId state);
     modify (saveVaultLog (eventId ev)
       (HarvestKeeperSetEvent keeperId p_allowed (ev_timestamp ev) (ev_txHash ev)))
   }"

definition handleMinCompoundRewardSet :: "eth_event \<Rightarrow> int \<Rightarrow> int \<Rightarrow> unit handler" where
  "handleMinCompoundRewardSet ev p_oldFloor p_newFloor =
     modify (saveVaultLog (eventId ev)
       (LpMinCompoundRewardSetEvent p_oldFloor p_newFloor (ev_timestamp ev) (ev_txHash ev)))"

definition handleMinHarvestClaimFloorSet :: "eth_event \<Rightarrow> int \<Rightarrow> int \<Rightarrow> unit handler" where
  "handleMinHarvestClaimFloorSet ev p_oldFloor p_newFloor =
     modify (saveVaultLog (eventId ev)
       (LpMinHarvestClaimFloorSetEvent p_oldFloor p_newFloor (ev_timestamp ev) (ev_txHash ev)))"

definition handleNotifyAmountDivergence :: "eth_event \<Rightarrow> int \<Rightarrow> int \<Rightarrow> unit handler" where
  "handleNotifyAmountDivergence ev p_declared p_actualDelta =
     modify (saveVaultLog (eventId ev)
       (LpNotifyAmountDivergenceEvent p_declared p_actualDelta (ev_timestamp ev) (ev_txHash ev)))"

definition handleAccountedRewardBalanceClamped :: "eth_event \<Rightarrow> int \<Rightarrow> int \<Rightarrow> unit handler" where
  "handleAccountedRewardBalanceClamped ev p_requested p_available =
     modify (saveVaultLog (eventId ev)
       (LpAccountedRewardBalanceClampedEvent p_requested p_available (ev_timestamp ev) (ev_txHash ev)))"

definition handleHarvestMinClaimOutIgnored :: "eth_event \<Rightarrow> int \<Rightarrow> unit handler" where
  "handleHarvestMinClaimOutIgnored ev p_minClaimOut =
     modify (saveVaultLog (eventId ev)
       (LpHarvestMinClaimOutIgnoredEvent p_minClaimOut (ev_timestamp ev) (ev_txHash ev)))"

definition lp_handleOwnershipTransferStarted :: "eth_event \<Rightarrow> address \<Rightarrow> address \<Rightarrow> unit handler" where
  "lp_handleOwnershipTransferStarted ev p_previousOwner p_newOwner = do {
     previousOwner \<leftarrow> loadOrCreateUser p_previousOwner;
     newOwner \<leftarrow> loadOrCreateUser p_newOwner;
     modify (saveVaultLog (eventId ev)
       (LpOwnershipTransferStartedEvent (user_id p_previousOwner) (user_id p_newOwner) (ev_timestamp ev)
          (ev_txHash ev)))
   }"

definition lp_handleOwnershipTransferred :: "eth_event \<Rightarrow> address \<Rightarrow> address \<Rightarrow> unit handler" where
  "lp_handleOwnershipTransferred ev p_previousOwner p_newOwner = do {
     previousOwner \<leftarrow> loadOrCreateUser p_previousOwner;
     newOwner \<leftarrow> loadOrCreateUser p_newOwner;
     modify (saveVaultLog (eventId ev)
       (LpOwnershipTransferredEvent (user_id p_previousOwner) (user_id p_newOwner) (ev_timestamp ev)
          (ev_txHash ev)))
   }"

section \<open>Stakes, unbonds and rewards\<close>

text \<open>The pricing row of the event's block, read before the APR inputs when the lock contract is known.\<close>

definition refreshPricingIfWired :: "chain \<Rightarrow> int \<Rightarrow> int \<Rightarrow> unit handler" where
  "refreshPricingIfWired c blockNumber blockTimestamp = do {
     protocol \<leftarrow> loadOrCreateProtocol c (Some blockNumber);
     (if toHexString (pr_veClaimNft protocol) \<noteq> toHexString ZERO_ADDRESS
      then refreshTokenPricingSnapshot c (pr_veClaimNft protocol) blockNumber blockTimestamp
      else skip)
   }"

definition refreshLpTvlAfterStakeChange :: "chain \<Rightarrow> int \<Rightarrow> int \<Rightarrow> unit handler" where
  "refreshLpTvlAfterStakeChange c blockNumber blockTimestamp = do {
     refreshPricingIfWired c blockNumber blockTimestamp;
     recordLpEventForApr c (dataSource_address c) blockNumber blockTimestamp 0
   }"

definition handleLpStaked :: "chain \<Rightarrow> eth_event \<Rightarrow> address \<Rightarrow> int \<Rightarrow> unit handler" where
  "handleLpStaked c ev p_user p_amount = do {
     user \<leftarrow> loadOrCreateUser p_user;
     modify (saveVaultLog (eventId ev)
       (LpStakedEvent (user_id p_user) p_amount (ev_timestamp ev) (ev_txHash ev)));
     refreshLpTvlAfterStakeChange c (ev_blockNumber ev) (ev_timestamp ev)
   }"

definition handleLpUnbondStarted :: "chain \<Rightarrow> eth_event \<Rightarrow> address \<Rightarrow> int \<Rightarrow> int \<Rightarrow> int \<Rightarrow> unit handler" where
  "handleLpUnbondStarted c ev p_user p_unbondId p_amount p_unlockTime = do {
     user \<leftarrow> loadOrCreateUser p_user;
     modify (saveVaultLog (eventId ev)
       (LpUnbondStartedEvent (user_id p_user) p_unbondId p_amount p_unlockTime (ev_timestamp ev) (ev_txHash ev)));
     refreshLpTvlAfterStakeChange c (ev_blockNumber ev) (ev_timestamp ev)
   }"

definition handleLpUnbondWithdrawn :: "eth_event \<Rightarrow> address \<Rightarrow> int \<Rightarrow> int \<Rightarrow> unit handler" where
  "handleLpUnbondWithdrawn ev p_user p_unbondId p_amount = do {
     user \<leftarrow> loadOrCreateUser p_user;
     modify (saveVaultLog (eventId ev)
       (LpUnbondWithdrawnEvent (user_id p_user) p_unbondId p_amount (ev_timestamp ev) (ev_txHash ev)))
   }"

definition handleLpRewardsNotified :: "chain \<Rightarrow> eth_event \<Rightarrow> int \<Rightarrow> unit handler" where
  "handleLpRewardsNotified c ev p_amountClaim = do {
     modify (saveVaultLog (eventId ev) (LpRewardsNotifiedEvent p_amountClaim (ev_timestamp ev) (ev_txHash ev)));
     refreshPricingIfWired c (ev_blockNumber ev) (ev_timestamp ev);
     recordLpEventForApr c (dataSource_address c) (ev_blockNumber ev) (ev_timestamp ev) p_amountClaim
   }"

definition handleLpRewardsClaimed :: "eth_event \<Rightarrow> address \<Rightarrow> int \<Rightarrow> unit handler" where
  "handleLpRewardsClaimed ev p_user p_amountClaim = do {
     user \<leftarrow> loadOrCreateUser p_user;
     modify (saveVaultLog (eventId ev)
       (LpRewardsClaimedEvent (user_id p_user) p_amountClaim (ev_timestamp ev) (ev_txHash ev)))
   }"

definition handleLpRewardsLocked :: "eth_event \<Rightarrow> address \<Rightarrow> int \<Rightarrow> int \<Rightarrow> int \<Rightarrow> int \<Rightarrow> unit handler" where
  "handleLpRewardsLocked ev p_user p_amountClaim p_principalClaim p_bonusClaim p_tokenId = do {
     user \<leftarrow> loadOrCreateUser p_user;
     modify (saveVaultLog (eventId ev)
       (LpRewardsLockedEvent (user_id p_user) p_amountClaim p_principalClaim p_bonusClaim p_tokenId
          (isAutoCompoundTransaction (ev_txInput ev)) (ev_timestamp ev) (ev_txHash ev)))
   }"

definition handleLpFeesHarvestedToRewards :: "eth_event \<Rightarrow> address \<Rightarrow> int \<Rightarrow> int \<Rightarrow> int \<Rightarrow> unit handler" where
  "handleLpFeesHarvestedToRewards ev p_caller p_feeWeth p_feeClaim p_claimToRewards = do {
     caller \<leftarrow> loadOrCreateUser p_caller;
     modify (saveVaultLog (eventId ev)
       (LpFeesHarvestedToRewardsEvent (user_id p_caller) p_feeWeth p_feeClaim p_claimToRewards (ev_timestamp ev)
          (ev_txHash ev)))
   }"

definition lp_handleDelegationSessionUsed ::
  "eth_event \<Rightarrow> address \<Rightarrow> address \<Rightarrow> int \<Rightarrow> int \<Rightarrow> int \<Rightarrow> int \<Rightarrow> unit handler" where
  "lp_handleDelegationSessionUsed ev p_user p_delegate p_actionType p_permsUsed p_refId p_timestamp =
     recordDelegationSessionUsed ev p_user p_delegate p_actionType p_permsUsed p_refId p_timestamp"

section \<open>What an event changes\<close>

lemma protocol_of_again [simp]: "protocol_of c b (with_protocol c d s) = protocol_of c d s"
  by (auto simp: protocol_of_def with_protocol_def saveProtocol_def backfillEntryTokenRegistry_def
      split: option.splits if_splits)

lemma protocol_of_saves [simp]:
  "protocol_of c b (savePricing i p s) = protocol_of c b s"
  "protocol_of c b (saveUser i u s) = protocol_of c b s"
  "protocol_of c b (saveVaultLog j e s) = protocol_of c b s"
  by (simp_all add: protocol_of_def savePricing_def saveUser_def saveVaultLog_def)

lemma buckets_saves [simp]:
  "buckets (savePricing i p s) = buckets s"
  "buckets (saveUser i u s) = buckets s"
  "buckets (saveVaultLog j e s) = buckets s"
  by (simp_all add: savePricing_def saveUser_def saveVaultLog_def)

text \<open>The store after the pricing refresh has the protocol row and the buckets it had.\<close>

lemma refreshed_pricing [simp]:
  "pr_claimToken (protocol_of c b (snd (run_state (refreshPricingIfWired c d t) s))) = pr_claimToken (protocol_of c (Some d) s)"
  "buckets (snd (run_state (refreshPricingIfWired c d t) s)) = buckets s"
  by (auto simp: refreshPricingIfWired_def refreshTokenPricingSnapshot_def Let_def case_prod_beta)

lemma lp_flow_recorded:
  assumes "network c \<noteq> ''local''" and "pr_claimToken (protocol_of c (Some b) s) \<noteq> ZERO_ADDRESS"
    and s': "s' = snd (run_state (recordLpEventForApr c v b now d) s)"
  shows "flow_in s' FLOW_LP_REWARDS h = flow_in s FLOW_LP_REWARDS h + (if h = hourStart now then max d 0 else 0)"
    and "flow_in s' FLOW_SHAREHOLDER_ETH h = flow_in s FLOW_SHAREHOLDER_ETH h"
  using assms(1,2)
  by (auto simp: s' recordLpEventForApr_def Let_def flow_in_def
      saveBucket_def new_bucket_def int_string_inj max_def split: option.splits)

lemma flow_in_cong: "buckets s = buckets t \<Longrightarrow> flow_in s k h = flow_in t k h"
  by (simp add: flow_in_def)

lemma flow_window: "sumFlowOverLast24h s asOf k = (\<Sum>i \<in> {1..24}. flow_in s k (asOf - 3600 * i))"
  by (simp add: sumFlow_window flow_in_def)

text \<open>Adding to one hour adds to the window that holds it, once.\<close>

lemma window_add:
  assumes "\<And>x. flow_in s' k x = flow_in s k x + (if x = h then d else 0)" and "3600 dvd asOf - h"
  shows "sumFlowOverLast24h s' asOf k = sumFlowOverLast24h s asOf k + (if h < asOf \<and> asOf \<le> h + 86400 then d else 0)"
proof -
  obtain m where m: "asOf - h = 3600 * m" using assms(2) by (rule dvdE)
  have "(\<Sum>i \<in> {1..24}. (if asOf - 3600 * i = h then d else 0)) = (\<Sum>i \<in> {1..24}. (if i = m then d else 0))"
    using m by (intro sum.cong) auto
  also have "\<dots> = (if m \<in> {1..24} then d else 0)" by (subst sum.delta) auto
  also have "(m \<in> {1..24}) = (h < asOf \<and> asOf \<le> h + 86400)" using m by auto
  finally show ?thesis by (simp add: flow_window assms(1) sum.distrib)
qed

section \<open>Properties\<close>

text \<open>
  The APR numerator. Off a local network and once the CLAIM address is known, a notified reward enters the 24h
  reward flow of exactly the reports made in the 24 hours after its own hour; the ETH flow does not move.
\<close>

theorem notified_reward_window:
  assumes "network c \<noteq> ''local''" and "pr_claimToken (protocol_of c (Some (ev_blockNumber ev)) s) \<noteq> ZERO_ADDRESS"
    and "3600 dvd asOf - hourStart (ev_timestamp ev)" and "0 \<le> amount"
    and s': "s' = exec (handleLpRewardsNotified c ev amount) s"
  shows "sumFlowOverLast24h s' asOf FLOW_LP_REWARDS = sumFlowOverLast24h s asOf FLOW_LP_REWARDS
      + (if hourStart (ev_timestamp ev) < asOf \<and> asOf \<le> hourStart (ev_timestamp ev) + 86400 then amount else 0)
    \<and> sumFlowOverLast24h s' asOf FLOW_SHAREHOLDER_ETH = sumFlowOverLast24h s asOf FLOW_SHAREHOLDER_ETH"
proof -
  define t where "t = snd (run_state (refreshPricingIfWired c (ev_blockNumber ev) (ev_timestamp ev))
    (saveVaultLog (eventId ev) (LpRewardsNotifiedEvent amount (ev_timestamp ev) (ev_txHash ev)) s))"
  have t: "pr_claimToken (protocol_of c (Some (ev_blockNumber ev)) t) \<noteq> ZERO_ADDRESS" "buckets t = buckets s"
    using assms(2) by (simp_all add: t_def)
  have s'_eq: "s' = snd (run_state (recordLpEventForApr c (dataSource_address c) (ev_blockNumber ev) (ev_timestamp ev) amount) t)"
    by (simp add: s' handleLpRewardsNotified_def t_def exec_def case_prod_beta)
  note flows = lp_flow_recorded [OF assms(1) t(1) s'_eq]
  have "flow_in s' FLOW_LP_REWARDS x = flow_in s FLOW_LP_REWARDS x + (if x = hourStart (ev_timestamp ev) then amount else 0)" for x
    using flows(1) [of x] assms(4) flow_in_cong [OF t(2)] by simp
  from window_add [OF this assms(3)] flows(2) show ?thesis
    using flow_in_cong [OF t(2)] by (simp add: flow_window)
qed

lemma notified_reward_witness:
  "let ev = sample_event\<lparr>ev_timestamp := 7300\<rparr>; s = exec (handleLpRewardsNotified (base_chain 1 1) ev 40) claim_store
   in sumFlowOverLast24h s 10800 FLOW_LP_REWARDS = 40 \<and> sumFlowOverLast24h s 97200 FLOW_LP_REWARDS = 0"
proof -
  let ?ev = "sample_event\<lparr>ev_timestamp := 7300\<rparr>"
  have net: "network (base_chain 1 1) \<noteq> ''local''" by (simp add: base_chain_def)
  have hour: "hourStart 7300 = 7200" by (simp add: hourStart_def HOUR_SECONDS_def host_simps)
  have none: "sumFlowOverLast24h claim_store a FLOW_LP_REWARDS = 0" for a by (simp add: flow_window flow_in_def)
  show ?thesis
    using notified_reward_window [OF net _ _ _ refl, of ?ev claim_store 10800 40]
      notified_reward_window [OF net _ _ _ refl, of ?ev claim_store 97200 40] seven_neq_zero
    by (simp add: claim_store_protocol hour none Let_def)
qed

lemma hex_byte_length: "length (hex_byte b) = 2"
  by (simp add: hex_byte_def)

lemma take_hex: "take (2 * n) (concat (map hex_byte bs)) = concat (map hex_byte (take n bs))"
proof (induction bs arbitrary: n)
  case (Cons b bs)
  show ?case by (cases n) (simp_all add: hex_byte_length Cons.IH)
qed simp

text \<open>
  The executor's calls are told from the users' by the first four bytes of the call data, whatever follows
  them; shorter call data is never an executor's.
\<close>

theorem auto_compound_selector:
  "isAutoCompoundTransaction input \<longleftrightarrow>
     take 4 input = [0x22, 0xe6, 0x57, 0x64] \<or> take 4 input = [0xd4, 0xc3, 0xd9, 0x3b]"
proof -
  have cut: "take 10 (toHexString input) = toHexString (take 4 input)"
    using take_hex [of 4 input] by (simp add: toHexString_def)
  have one: "COMPOUND_FOR_SELECTOR = toHexString [0x22, 0xe6, 0x57, 0x64]" by code_simp
  have many: "COMPOUND_FOR_MANY_SELECTOR = toHexString [0xd4, 0xc3, 0xd9, 0x3b]" by code_simp
  show ?thesis by (simp only: isAutoCompoundTransaction_def Let_def cut one many toHexString_inj)
qed

end
