(* ===== verification/LaunchMap.thy ===== *)
theory LaunchMap
  imports FurnaceMap LpVault
begin

text \<open>
  The mappings of the launch and of the small contracts: \<open>launchController.ts\<close>, \<open>genesisLPVault24M.ts\<close>,
  \<open>maintenanceHub.ts\<close>, \<open>claimAllHelper.ts\<close> and \<open>entryTokenRegistry.ts\<close> (all under
  \<open>src/subgraph/src/mappings/\<close>). The last sections state the life of the genesis row as a fold over the events
  of the two launch contracts, and the invariant of the registry tables, which the MineCore and the Furnace
  mappings write too.
\<close>

section \<open>The genesis row\<close>

definition GENESIS_STATE_ID :: string where
  "GENESIS_STATE_ID = ''1''"

definition lc_eventId :: "eth_event \<Rightarrow> string" where
  "lc_eventId ev = toHexString (ev_txHash ev) @ ''-'' @ int_string (ev_logIndex ev)"

definition new_genesis :: genesis_state where
  "new_genesis = \<lparr>gs_genesisFinalized = False, gs_finalizedAt = None, gs_finalizedTxHash = None,
     gs_genesisLpVaultLockStart = None, gs_genesisLpVaultUnlockTime = None\<rparr>"

definition loadOrCreateGenesisState :: "genesis_state handler" where
  "loadOrCreateGenesisState = do {
     g \<leftarrow> gets (\<lambda>s. lt_genesis (launch_rows s) GENESIS_STATE_ID);
     (case g of
        None \<Rightarrow> do { modify (saveGenesis GENESIS_STATE_ID new_genesis); ret new_genesis }
      | Some g \<Rightarrow> ret g)
   }"

section \<open>LaunchController\<close>

definition handleGenesisFinalized :: "chain \<Rightarrow> eth_event \<Rightarrow> address \<Rightarrow> int \<Rightarrow> unit handler" where
  "handleGenesisFinalized c ev p_genesisLpVault p_timestamp = do {
     protocol \<leftarrow> loadOrCreateProtocol c (Some (ev_blockNumber ev));
     modify (saveProtocol PROTOCOL_ID
       (protocol\<lparr>pr_launchController := Some (ev_address ev), pr_genesisLpVault24m := Some p_genesisLpVault\<rparr>));
     g \<leftarrow> loadOrCreateGenesisState;
     modify (saveGenesis GENESIS_STATE_ID
       (g\<lparr>gs_genesisFinalized := True, gs_finalizedAt := Some p_timestamp,
          gs_finalizedTxHash := Some (ev_txHash ev)\<rparr>))
   }"

definition handleDeploymentValidated ::
  "eth_event \<Rightarrow> address \<Rightarrow> address \<Rightarrow> address \<Rightarrow> address \<Rightarrow> address \<Rightarrow> unit handler" where
  "handleDeploymentValidated ev p_claim p_mineCore p_genesisLpVault p_guardian p_expectedPool =
     modify (saveLaunchLog (lc_eventId ev)
       (LaunchControllerDeploymentValidatedEvent p_claim p_mineCore p_genesisLpVault p_guardian p_expectedPool
          (ev_timestamp ev) (ev_txHash ev)))"

definition handleTokenSwept :: "eth_event \<Rightarrow> address \<Rightarrow> address \<Rightarrow> int \<Rightarrow> unit handler" where
  "handleTokenSwept ev p_token p_to p_amount =
     modify (saveLaunchLog (lc_eventId ev)
       (LaunchControllerTokenSweptEvent p_token p_to p_amount (ev_timestamp ev) (ev_txHash ev)))"

definition handleSkimFailed :: "eth_event \<Rightarrow> address \<Rightarrow> bytes \<Rightarrow> unit handler" where
  "handleSkimFailed ev p_pool p_reason =
     modify (saveLaunchLog (lc_eventId ev)
       (LaunchControllerSkimFailedEvent p_pool p_reason (ev_timestamp ev) (ev_txHash ev)))"

section \<open>GenesisLPVault24M\<close>

definition FALLBACK_RECIPIENT_SENTINEL :: address where
  "FALLBACK_RECIPIENT_SENTINEL = replicate 18 0 @ [0xde, 0xad]"

definition touchGenesisVault :: "chain \<Rightarrow> bytes \<Rightarrow> int \<Rightarrow> unit handler" where
  "touchGenesisVault c addr blockNumber = do {
     protocol \<leftarrow> loadOrCreateProtocol c (Some blockNumber);
     modify (saveProtocol PROTOCOL_ID (protocol\<lparr>pr_genesisLpVault24m :=
       (case pr_genesisLpVault24m protocol of
          None \<Rightarrow> Some addr
        | Some current \<Rightarrow> Some (setBytesIfZero current addr))\<rparr>))
   }"

definition handleLocked :: "chain \<Rightarrow> eth_event \<Rightarrow> int \<Rightarrow> int \<Rightarrow> unit handler" where
  "handleLocked c ev p_lockStartTime p_unlockTime = do {
     touchGenesisVault c (ev_address ev) (ev_blockNumber ev);
     g \<leftarrow> loadOrCreateGenesisState;
     modify (saveGenesis GENESIS_STATE_ID
       (g\<lparr>gs_genesisLpVaultLockStart := Some p_lockStartTime, gs_genesisLpVaultUnlockTime := Some p_unlockTime\<rparr>))
   }"

definition g_handleLockExtended :: "chain \<Rightarrow> eth_event \<Rightarrow> int \<Rightarrow> unit handler" where
  "g_handleLockExtended c ev p_newUnlockTime = do {
     touchGenesisVault c (ev_address ev) (ev_blockNumber ev);
     g \<leftarrow> loadOrCreateGenesisState;
     modify (saveGenesis GENESIS_STATE_ID (g\<lparr>gs_genesisLpVaultUnlockTime := Some p_newUnlockTime\<rparr>))
   }"

definition handleWithdrawLp :: "chain \<Rightarrow> eth_event \<Rightarrow> address \<Rightarrow> int \<Rightarrow> unit handler" where
  "handleWithdrawLp c ev p_to p_amount = do {
     touchGenesisVault c (ev_address ev) (ev_blockNumber ev);
     to \<leftarrow> loadOrCreateUser p_to;
     modify (saveLaunchLog (eventId ev)
       (GenesisWithdrawLpEvent (user_id p_to) p_amount (ev_timestamp ev) (ev_txHash ev)))
   }"

definition handleResidualLpSwept :: "chain \<Rightarrow> eth_event \<Rightarrow> address \<Rightarrow> int \<Rightarrow> unit handler" where
  "handleResidualLpSwept c ev p_to p_amount = do {
     touchGenesisVault c (ev_address ev) (ev_blockNumber ev);
     to \<leftarrow> loadOrCreateUser p_to;
     modify (saveLaunchLog (eventId ev)
       (GenesisResidualLpSweepEvent (user_id p_to) p_amount (ev_timestamp ev) (ev_txHash ev)))
   }"

text \<open>The CLAIM and the ETH leg of the two forwarded amounts.\<close>

definition fee_legs :: "bytes \<Rightarrow> bytes \<Rightarrow> bytes \<Rightarrow> int \<Rightarrow> int \<Rightarrow> int option \<times> int option" where
  "fee_legs claimAddr token0 token1 amount0 amount1 =
     (if toHexString claimAddr = toHexString token0 then (Some amount0, Some amount1)
      else if toHexString claimAddr = toHexString token1 then (Some amount1, Some amount0)
      else (None, None))"

definition handleFeesClaimedAndForwarded ::
  "chain \<Rightarrow> eth_event \<Rightarrow> address \<Rightarrow> address \<Rightarrow> int \<Rightarrow> int \<Rightarrow> unit handler" where
  "handleFeesClaimedAndForwarded c ev p_token0 p_token1 p_amount0Forwarded p_amount1Forwarded = do {
     touchGenesisVault c (ev_address ev) (ev_blockNumber ev);
     let recipientResult = try_lpWithdrawRecipient c (ev_address ev);
     let recipientResolvedByFallback = (recipientResult = None);
     let recipient = (case recipientResult of None \<Rightarrow> FALLBACK_RECIPIENT_SENTINEL | Some a \<Rightarrow> a);
     to \<leftarrow> loadOrCreateUser recipient;
     modify (saveLaunchLog (eventId ev)
       (GenesisLpFeeClaimEvent (user_id recipient) recipientResolvedByFallback p_token0 p_token1
          p_amount0Forwarded p_amount1Forwarded (ev_blockNumber ev) (ev_timestamp ev) (ev_txHash ev)));
     protocol \<leftarrow> loadOrCreateProtocol c (Some (ev_blockNumber ev));
     let (claimLeg, ethLeg) = fee_legs (pr_claimToken protocol) p_token0 p_token1 p_amount0Forwarded p_amount1Forwarded;
     saveActivityItem (eventId ev)
       ((new_activity ''GENESIS_VAULT_FEES_CLAIMED_AND_FORWARDED'' (ev_timestamp ev) (ev_txHash ev))
         \<lparr>ai_user := Some (user_id recipient), ai_amountClaimWei := claimLeg, ai_amountEthWei := ethLeg\<rparr>)
   }"

definition handleTokenRescued :: "chain \<Rightarrow> eth_event \<Rightarrow> address \<Rightarrow> address \<Rightarrow> unit handler" where
  "handleTokenRescued c ev p_token p_to = do {
     touchGenesisVault c (ev_address ev) (ev_blockNumber ev);
     to \<leftarrow> loadOrCreateUser p_to;
     let kind = (if isZeroAddressBytes p_token then ''GENESIS_VAULT_ETH_RESCUED'' else ''GENESIS_VAULT_TOKEN_RESCUED'');
     saveActivityItem (eventId ev)
       ((new_activity kind (ev_timestamp ev) (ev_txHash ev))\<lparr>ai_user := Some (user_id p_to)\<rparr>)
   }"

section \<open>MaintenanceHub and ClaimAllHelper\<close>

definition touchMaintenanceHubAddress :: "chain \<Rightarrow> bytes \<Rightarrow> int \<Rightarrow> unit handler" where
  "touchMaintenanceHubAddress c addr blockNumber = do {
     protocol \<leftarrow> loadOrCreateProtocol c (Some blockNumber);
     modify (saveProtocol PROTOCOL_ID (protocol\<lparr>pr_maintenanceHub :=
       (case pr_maintenanceHub protocol of
          None \<Rightarrow> Some addr
        | Some current \<Rightarrow> Some (setBytesIfZero current addr))\<rparr>))
   }"

definition handlePoked ::
  "chain \<Rightarrow> eth_event \<Rightarrow> address \<Rightarrow> bool \<Rightarrow> bool \<Rightarrow> int \<Rightarrow> int \<Rightarrow> bool \<Rightarrow> int \<Rightarrow> unit handler" where
  "handlePoked c ev p_caller p_checkpointOk p_flushOk p_offersAttempted p_offersSucceeded p_furnaceTickSucceeded
     p_bountyWethForwarded = do {
     touchMaintenanceHubAddress c (ev_address ev) (ev_blockNumber ev);
     caller \<leftarrow> loadOrCreateUser p_caller;
     modify (saveLaunchLog (eventId ev)
       (MaintenancePokedEvent (user_id p_caller) p_checkpointOk p_flushOk p_offersAttempted p_offersSucceeded
          p_furnaceTickSucceeded p_bountyWethForwarded (ev_timestamp ev) (ev_blockNumber ev) (ev_txHash ev)))
   }"

definition ca_handleDelegationSessionUsed ::
  "eth_event \<Rightarrow> address \<Rightarrow> address \<Rightarrow> int \<Rightarrow> int \<Rightarrow> int \<Rightarrow> int \<Rightarrow> unit handler" where
  "ca_handleDelegationSessionUsed ev p_user p_delegate p_actionType p_permsUsed p_refId p_timestamp =
     recordDelegationSessionUsed ev p_user p_delegate p_actionType p_permsUsed p_refId p_timestamp"

section \<open>EntryTokenRegistry\<close>

definition tr_registryEntityId :: "address \<Rightarrow> string" where
  "tr_registryEntityId registry = toHexString registry"

definition configEntityId :: "address \<Rightarrow> address \<Rightarrow> string" where
  "configEntityId registry tokenIn = toHexString registry @ ''-'' @ toHexString tokenIn"

text \<open>The two loaders do not save.\<close>

definition loadOrCreateRegistry :: "address \<Rightarrow> token_registry handler" where
  "loadOrCreateRegistry registry = do {
     r \<leftarrow> gets (\<lambda>s. registries s (tr_registryEntityId registry));
     ret (case r of None \<Rightarrow> new_registry registry | Some r \<Rightarrow> r)
   }"

definition loadOrCreateTokenConfig :: "address \<Rightarrow> address \<Rightarrow> token_config handler" where
  "loadOrCreateTokenConfig registry tokenIn = do {
     c \<leftarrow> gets (\<lambda>s. lt_tokenConfigs (launch_rows s) (configEntityId registry tokenIn));
     ret (case c of
         None \<Rightarrow> \<lparr>tc_registry = tr_registryEntityId registry, tc_tokenIn = tokenIn, tc_enabled = False,
           tc_directToClaimEnabled = False, tc_tokenClaimStable = False, tc_tokenClaimPool = ZERO_ADDRESS,
           tc_tokenWethStable = False, tc_tokenWethPool = ZERO_ADDRESS, tc_exactReceiptSafe = False,
           tc_updatedAt = 0\<rparr>
       | Some c \<Rightarrow> c)
   }"

definition tr_handleGuardianChanged :: "eth_event \<Rightarrow> address \<Rightarrow> unit handler" where
  "tr_handleGuardianChanged ev p_newGuardian = do {
     r \<leftarrow> loadOrCreateRegistry (ev_address ev);
     modify (saveRegistry (tr_registryEntityId (ev_address ev))
       (r\<lparr>tr_guardian := Some p_newGuardian, tr_updatedAt := Some (ev_timestamp ev)\<rparr>))
   }"

definition handleRouterConfigSet ::
  "chain \<Rightarrow> eth_event \<Rightarrow> address \<Rightarrow> address \<Rightarrow> address \<Rightarrow> address \<Rightarrow> unit handler" where
  "handleRouterConfigSet c ev p_router p_factory p_wrappedNative p_claimToken = do {
     protocol \<leftarrow> loadOrCreateProtocol c (Some (ev_blockNumber ev));
     modify (saveProtocol PROTOCOL_ID
       (if isZeroAddressBytes (pr_claimToken protocol) then protocol\<lparr>pr_claimToken := p_claimToken\<rparr> else protocol));
     r \<leftarrow> loadOrCreateRegistry (ev_address ev);
     modify (saveRegistry (tr_registryEntityId (ev_address ev))
       (r\<lparr>tr_router := Some p_router, tr_factory := Some p_factory, tr_wrappedNative := Some p_wrappedNative,
          tr_claimToken := Some p_claimToken, tr_updatedAt := Some (ev_timestamp ev)\<rparr>))
   }"

definition handleWethClaimPoolSet :: "eth_event \<Rightarrow> address \<Rightarrow> bool \<Rightarrow> unit handler" where
  "handleWethClaimPoolSet ev p_pool p_stable = do {
     r \<leftarrow> loadOrCreateRegistry (ev_address ev);
     modify (saveRegistry (tr_registryEntityId (ev_address ev))
       (r\<lparr>tr_wethClaimPool := Some p_pool, tr_wethClaimPoolStable := Some p_stable,
          tr_updatedAt := Some (ev_timestamp ev)\<rparr>))
   }"

definition touchRegistry :: "eth_event \<Rightarrow> unit handler" where
  "touchRegistry ev = do {
     r \<leftarrow> loadOrCreateRegistry (ev_address ev);
     modify (saveRegistry (tr_registryEntityId (ev_address ev)) (r\<lparr>tr_updatedAt := Some (ev_timestamp ev)\<rparr>))
   }"

definition handleTokenConfigSet ::
  "eth_event \<Rightarrow> address \<Rightarrow> bool \<Rightarrow> bool \<Rightarrow> bool \<Rightarrow> address \<Rightarrow> bool \<Rightarrow> address \<Rightarrow> unit handler" where
  "handleTokenConfigSet ev p_tokenIn p_enabled p_directToClaimEnabled p_tokenClaimStable p_tokenClaimPool
     p_tokenWethStable p_tokenWethPool = do {
     touchRegistry ev;
     c \<leftarrow> loadOrCreateTokenConfig (ev_address ev) p_tokenIn;
     modify (saveTokenConfig (configEntityId (ev_address ev) p_tokenIn)
       (c\<lparr>tc_enabled := p_enabled, tc_directToClaimEnabled := p_directToClaimEnabled,
          tc_tokenClaimStable := p_tokenClaimStable, tc_tokenClaimPool := p_tokenClaimPool,
          tc_tokenWethStable := p_tokenWethStable, tc_tokenWethPool := p_tokenWethPool,
          tc_updatedAt := ev_timestamp ev\<rparr>))
   }"

definition handleFurnaceEntryTokenSafetySet :: "eth_event \<Rightarrow> address \<Rightarrow> bool \<Rightarrow> unit handler" where
  "handleFurnaceEntryTokenSafetySet ev p_tokenIn p_exactReceiptSafe = do {
     touchRegistry ev;
     c \<leftarrow> loadOrCreateTokenConfig (ev_address ev) p_tokenIn;
     modify (saveTokenConfig (configEntityId (ev_address ev) p_tokenIn)
       (c\<lparr>tc_exactReceiptSafe := p_exactReceiptSafe, tc_updatedAt := ev_timestamp ev\<rparr>))
   }"

definition handleTokenEnabledChanged :: "eth_event \<Rightarrow> address \<Rightarrow> bool \<Rightarrow> unit handler" where
  "handleTokenEnabledChanged ev p_tokenIn p_enabled = do {
     c \<leftarrow> loadOrCreateTokenConfig (ev_address ev) p_tokenIn;
     modify (saveTokenConfig (configEntityId (ev_address ev) p_tokenIn)
       (c\<lparr>tc_enabled := p_enabled, tc_updatedAt := ev_timestamp ev\<rparr>))
   }"

section \<open>The genesis row as a function of the events\<close>

datatype launch_event =
  Genesis_finalized address int
| Deployment_validated address address address address address
| Token_swept address address int
| Skim_failed address bytes
| Vault_locked int int
| Vault_extended int
| Vault_withdrawn address int
| Vault_swept address int
| Vault_fees address address int int
| Vault_rescued address address
| Hub_poked address bool bool int int bool int

fun launch_handler :: "chain \<Rightarrow> eth_event \<Rightarrow> launch_event \<Rightarrow> unit handler" where
  "launch_handler c ev (Genesis_finalized v t) = handleGenesisFinalized c ev v t"
| "launch_handler c ev (Deployment_validated cl m v g p) = handleDeploymentValidated ev cl m v g p"
| "launch_handler c ev (Token_swept t a x) = handleTokenSwept ev t a x"
| "launch_handler c ev (Skim_failed p r) = handleSkimFailed ev p r"
| "launch_handler c ev (Vault_locked s u) = handleLocked c ev s u"
| "launch_handler c ev (Vault_extended u) = g_handleLockExtended c ev u"
| "launch_handler c ev (Vault_withdrawn a x) = handleWithdrawLp c ev a x"
| "launch_handler c ev (Vault_swept a x) = handleResidualLpSwept c ev a x"
| "launch_handler c ev (Vault_fees t0 t1 x y) = handleFeesClaimedAndForwarded c ev t0 t1 x y"
| "launch_handler c ev (Vault_rescued t a) = handleTokenRescued c ev t a"
| "launch_handler c ev (Hub_poked a k f n m d w) = handlePoked c ev a k f n m d w"

definition launch_run :: "chain \<Rightarrow> (eth_event \<times> launch_event) list \<Rightarrow> store \<Rightarrow> store" where
  "launch_run c es s = fold (\<lambda>(ev, e). exec (launch_handler c ev e)) es s"

definition genesis_of :: "store \<Rightarrow> genesis_state" where
  "genesis_of s = (case lt_genesis (launch_rows s) GENESIS_STATE_ID of None \<Rightarrow> new_genesis | Some g \<Rightarrow> g)"

text \<open>The latest value that an event of the sequence gives.\<close>

definition latest :: "('e \<Rightarrow> 'a option) \<Rightarrow> 'e list \<Rightarrow> 'a option" where
  "latest f es = fold (\<lambda>e r. case f e of None \<Rightarrow> r | Some x \<Rightarrow> Some x) es None"

lemma latest_snoc [simp]:
  "latest f [] = None" "latest f (es @ [e]) = (case f e of None \<Rightarrow> latest f es | Some x \<Rightarrow> Some x)"
  by (simp_all add: latest_def split: option.split)

text \<open>What an event says of the genesis row: finalization (time, transaction), lock start, unlock time.\<close>

fun says_finalized :: "eth_event \<times> launch_event \<Rightarrow> (int \<times> bytes) option" where
  "says_finalized (ev, Genesis_finalized v t) = Some (t, ev_txHash ev)"
| "says_finalized _ = None"

fun says_start :: "eth_event \<times> launch_event \<Rightarrow> int option" where
  "says_start (ev, Vault_locked s u) = Some s"
| "says_start _ = None"

fun says_unlock :: "eth_event \<times> launch_event \<Rightarrow> int option" where
  "says_unlock (ev, Vault_locked s u) = Some u"
| "says_unlock (ev, Vault_extended u) = Some u"
| "says_unlock _ = None"

lemma run_genesis [simp]:
  "fst (run_state loadOrCreateGenesisState s) = genesis_of s"
  "genesis_of (snd (run_state loadOrCreateGenesisState s)) = genesis_of s"
  by (auto simp: loadOrCreateGenesisState_def genesis_of_def store_simps split: option.splits)

lemma genesis_saves [simp]:
  "genesis_of (saveGenesis GENESIS_STATE_ID g s) = g"
  "genesis_of (saveProtocol i p s) = genesis_of s"
  "genesis_of (saveLaunchLog i e s) = genesis_of s"
  "genesis_of (saveUser i u s) = genesis_of s"
  "genesis_of (saveActivity i a s) = genesis_of s"
  "genesis_of (with_protocol c b s) = genesis_of s"
  by (simp_all add: genesis_of_def store_simps)

lemma touched [simp]:
  "genesis_of (snd (run_state (touchGenesisVault c a b) s)) = genesis_of s"
  "genesis_of (snd (run_state (touchMaintenanceHubAddress c a b) s)) = genesis_of s"
  "pr_claimToken (protocol_of c d (snd (run_state (touchGenesisVault c a b) s))) = pr_claimToken (protocol_of c (Some b) s)"
  by (auto simp: touchGenesisVault_def touchMaintenanceHubAddress_def Let_def protocol_of_def saveProtocol_def
      backfillEntryTokenRegistry_def genesis_of_def store_simps split: option.splits)

text \<open>One event's effect on the row.\<close>

lemma genesis_step:
  "genesis_of (exec (launch_handler c ev e) s) =
     (let g = genesis_of s;
          g = (case says_finalized (ev, e) of
                 None \<Rightarrow> g
               | Some (t, h) \<Rightarrow> g\<lparr>gs_genesisFinalized := True, gs_finalizedAt := Some t, gs_finalizedTxHash := Some h\<rparr>);
          g = (case says_start (ev, e) of None \<Rightarrow> g | Some x \<Rightarrow> g\<lparr>gs_genesisLpVaultLockStart := Some x\<rparr>)
      in (case says_unlock (ev, e) of None \<Rightarrow> g | Some x \<Rightarrow> g\<lparr>gs_genesisLpVaultUnlockTime := Some x\<rparr>))"
  by (cases e)
    (simp_all add: handleGenesisFinalized_def handleDeploymentValidated_def handleTokenSwept_def handleSkimFailed_def
      handleLocked_def g_handleLockExtended_def handleWithdrawLp_def handleResidualLpSwept_def
      handleFeesClaimedAndForwarded_def handleTokenRescued_def handlePoked_def saveActivityItem_def exec_def Let_def
      case_prod_beta)

section \<open>The registry tables\<close>

datatype registry_event =
  Guardian_changed address
| Router_config address address address address
| Hop_pool address bool
| Token_config address bool bool bool address bool address
| Token_safety address bool
| Token_enabled address bool

fun registry_handler :: "chain \<Rightarrow> eth_event \<Rightarrow> registry_event \<Rightarrow> unit handler" where
  "registry_handler c ev (Guardian_changed g) = tr_handleGuardianChanged ev g"
| "registry_handler c ev (Router_config r f w t) = handleRouterConfigSet c ev r f w t"
| "registry_handler c ev (Hop_pool p b) = handleWethClaimPoolSet ev p b"
| "registry_handler c ev (Token_config t e d cs cp ws wp) = handleTokenConfigSet ev t e d cs cp ws wp"
| "registry_handler c ev (Token_safety t x) = handleFurnaceEntryTokenSafetySet ev t x"
| "registry_handler c ev (Token_enabled t x) = handleTokenEnabledChanged ev t x"

text \<open>
  A registry's own events come from its data source, so only after a MineCore or Furnace event has created it.
  Every other mapping leaves the three tables alone.
\<close>

inductive registry_step :: "chain \<Rightarrow> store \<Rightarrow> store \<Rightarrow> bool" for c where
  "registry_step c s (exec (mc_handleEntryTokenRegistrySet c ev a) s)"
| "registry_step c s (exec (f_handleEntryTokenRegistrySet c ev a) s)"
| "ev_address ev \<in> set (dataSources s) \<Longrightarrow> registry_step c s (exec (registry_handler c ev e) s)"
| "registries s' = registries s \<Longrightarrow> dataSources s' = dataSources s \<Longrightarrow>
     lt_tokenConfigs (launch_rows s') = lt_tokenConfigs (launch_rows s) \<Longrightarrow> registry_step c s s'"

inductive registry_reachable :: "chain \<Rightarrow> store \<Rightarrow> bool" for c where
  "registry_reachable c empty_store"
| "registry_reachable c s \<Longrightarrow> registry_step c s s' \<Longrightarrow> registry_reachable c s'"

definition registry_inv :: "store \<Rightarrow> bool" where
  "registry_inv s \<longleftrightarrow> distinct (dataSources s) \<and> dom (registries s) = toHexString ` set (dataSources s)
     \<and> (\<forall>i x. lt_tokenConfigs (launch_rows s) i = Some x \<longrightarrow>
          (\<exists>a \<in> set (dataSources s). tc_registry x = toHexString a \<and> i = configEntityId a (tc_tokenIn x)))"

lemma registry_inv_cong:
  assumes "dom (registries s') = dom (registries s)" "dataSources s' = dataSources s"
    "lt_tokenConfigs (launch_rows s') = lt_tokenConfigs (launch_rows s)"
  shows "registry_inv s' = registry_inv s"
  using assms by (simp add: registry_inv_def)

lemma registry_saves [simp]:
  "registries (saveProtocol i p s) = registries s" "dataSources (saveProtocol i p s) = dataSources s"
  "dataSources (saveRegistry i r s) = dataSources s" "launch_rows (saveRegistry i r s) = launch_rows s"
  "launch_rows (saveProtocol i p s) = launch_rows s"
  "registries (saveTokenConfig i x s) = registries s" "dataSources (saveTokenConfig i x s) = dataSources s"
  "lt_tokenConfigs (launch_rows (saveTokenConfig i x s)) = (lt_tokenConfigs (launch_rows s))(i \<mapsto> x)"
  by (simp_all add: saveProtocol_def saveRegistry_def saveTokenConfig_def)

lemma snapshot_tables:
  defines "t \<equiv> \<lambda>c a ts b s. snd (run_state (snapshotEntryTokenRegistry c a ts b) s)"
  shows "toHexString a \<in> dom (registries s) \<Longrightarrow> dom (registries (t c a ts b s)) = dom (registries s)"
    "dataSources (t c a ts b s) = dataSources s" "launch_rows (t c a ts b s) = launch_rows s"
  unfolding t_def
  by (auto simp: snapshotEntryTokenRegistry_def registryEntityId_def Let_def case_prod_beta saveRegistry_def
      split: option.splits if_splits)

text \<open>The steps the two wiring handlers share: the row and its data source when there is none, then the snapshot.\<close>

definition created :: "address \<Rightarrow> int \<Rightarrow> store \<Rightarrow> store" where
  "created a ts s = (if registries s (toHexString a) = None
     then (saveRegistry (toHexString a) ((new_registry a)\<lparr>tr_updatedAt := Some ts\<rparr>) s)\<lparr>dataSources := dataSources s @ [a]\<rparr>
     else s)"

lemma created_inv: "registry_inv s \<Longrightarrow> registry_inv (created a ts s)"
proof (cases "registries s (toHexString a)")
  case None
  assume inv: "registry_inv s"
  then have "a \<notin> set (dataSources s)" using None by (metis domIff imageI registry_inv_def)
  then show ?thesis using inv None by (auto simp: registry_inv_def created_def saveRegistry_def)
qed (simp add: created_def)

lemma created_row: "toHexString a \<in> dom (registries (created a ts s))"
  by (auto simp: created_def saveRegistry_def)

lemma snapshot_inv_tables:
  "registry_inv s \<Longrightarrow> registry_inv (snd (run_state (snapshotEntryTokenRegistry c a ts b) (created a ts s)))"
  using created_inv [of s a ts] created_row [of a ts s]
  by (subst registry_inv_cong [of _ "created a ts s"]) (simp_all add: snapshot_tables)

lemma snapshot_created:
  assumes "registry_inv s" "registries s (toHexString a) = None" "d = dataSources s"
  shows "registry_inv (snd (run_state (snapshotEntryTokenRegistry c a ts b)
    ((saveRegistry (toHexString a) ((new_registry a)\<lparr>tr_updatedAt := Some ts\<rparr>) s)\<lparr>dataSources := d @ [a]\<rparr>)))"
  using snapshot_inv_tables [OF assms(1), of c a ts b] assms(2,3) by (simp add: created_def)

lemma snapshot_present:
  assumes "registry_inv s" "registries s (toHexString a) = Some r"
  shows "registry_inv (snd (run_state (snapshotEntryTokenRegistry c a ts b) s))"
  using snapshot_inv_tables [OF assms(1), of c a ts b] assms(2) by (simp add: created_def)

lemma protocol_inv [simp]: "registry_inv (saveProtocol i p s) = registry_inv s"
  "registry_inv (with_protocol c b s) = registry_inv s"
  by (simp_all add: registry_inv_def)

lemma wired_inv:
  assumes "registry_inv s"
  shows "registry_inv (exec (mc_handleEntryTokenRegistrySet c ev a) s)"
    "registry_inv (exec (f_handleEntryTokenRegistrySet c ev a) s)"
  using assms
  by (auto simp: mc_handleEntryTokenRegistrySet_def f_handleEntryTokenRegistrySet_def exec_def Let_def case_prod_beta
      split: option.split intro!: snapshot_created intro: snapshot_present)

text \<open>The registry's own handlers.\<close>

lemma save_existing:
  assumes "registry_inv s" "a \<in> set (dataSources s)"
  shows "registry_inv (saveRegistry (toHexString a) r s)"
  using assms by (auto simp: registry_inv_def saveRegistry_def)

lemma save_config:
  assumes "registry_inv s" "a \<in> set (dataSources s)" "tc_registry x = toHexString a" "tc_tokenIn x = t"
  shows "registry_inv (saveTokenConfig (configEntityId a t) x s)"
  using assms by (auto simp: registry_inv_def)

lemma loaded_config:
  assumes "registry_inv s"
  shows "tc_registry (fst (run_state (loadOrCreateTokenConfig a t) s)) = toHexString a"
    "tc_tokenIn (fst (run_state (loadOrCreateTokenConfig a t) s)) = t"
proof -
  have "tc_registry x = toHexString a \<and> tc_tokenIn x = t"
    if x: "lt_tokenConfigs (launch_rows s) (configEntityId a t) = Some x" for x
  proof -
    obtain a' where a': "tc_registry x = toHexString a'" "configEntityId a t = configEntityId a' (tc_tokenIn x)"
      using assms x unfolding registry_inv_def by blast
    then have "toHexString a = toHexString a'" "toHexString t = toHexString (tc_tokenIn x)"
      using dash_join_inj [OF toHexString_no_dash toHexString_no_dash] unfolding configEntityId_def by blast+
    then show ?thesis using a' by simp
  qed
  then show "tc_registry (fst (run_state (loadOrCreateTokenConfig a t) s)) = toHexString a"
    "tc_tokenIn (fst (run_state (loadOrCreateTokenConfig a t) s)) = t"
    by (auto simp: loadOrCreateTokenConfig_def tr_registryEntityId_def split: option.split)
qed

lemma run_loaded [simp]:
  "snd (run_state (loadOrCreateRegistry a) s) = s" "snd (run_state (loadOrCreateTokenConfig a t) s) = s"
  by (simp_all add: loadOrCreateRegistry_def loadOrCreateTokenConfig_def)

lemma registry_handler_inv:
  assumes "registry_inv s" "ev_address ev \<in> set (dataSources s)"
  shows "registry_inv (exec (registry_handler c ev e) s)"
proof -
  note defs = exec_def Let_def case_prod_beta tr_registryEntityId_def
  define t where "t = snd (run_state (touchRegistry ev) s)"
  have t: "registry_inv t" "ev_address ev \<in> set (dataSources t)"
    using assms save_existing [OF assms] by (simp_all add: t_def touchRegistry_def defs)
  show ?thesis
  proof (cases e)
    case (Guardian_changed g)
    then show ?thesis using save_existing [OF assms] by (simp add: tr_handleGuardianChanged_def defs)
  next
    case (Router_config r f w k)
    define u where "u = with_protocol c (Some (ev_blockNumber ev)) s"
    have u: "registry_inv (saveProtocol i p u)" "ev_address ev \<in> set (dataSources (saveProtocol i p u))" for i p
      using assms by (simp_all add: u_def)
    show ?thesis using save_existing [OF u] Router_config
      by (simp add: handleRouterConfigSet_def defs u_def [symmetric])
  next
    case (Hop_pool p b)
    then show ?thesis using save_existing [OF assms] by (simp add: handleWethClaimPoolSet_def defs)
  next
    case (Token_config k en d cs cp ws wp)
    then show ?thesis
      by (simp add: handleTokenConfigSet_def defs t_def [symmetric]) (rule save_config [OF t]; simp add: loaded_config [OF t(1)])
  next
    case (Token_safety k x)
    then show ?thesis
      by (simp add: handleFurnaceEntryTokenSafetySet_def defs t_def [symmetric]) (rule save_config [OF t]; simp add: loaded_config [OF t(1)])
  next
    case (Token_enabled k x)
    then show ?thesis
      by (simp add: handleTokenEnabledChanged_def defs) (rule save_config [OF assms]; simp add: loaded_config [OF assms(1)])
  qed
qed

lemma registry_reachable_inv: "registry_reachable c s \<Longrightarrow> registry_inv s"
proof (induction rule: registry_reachable.induct)
  case 1
  then show ?case by (simp add: registry_inv_def empty_store_def)
next
  case (2 s s')
  from 2(2) show ?case
  proof (cases rule: registry_step.cases)
    case (1 ev a)
    show ?thesis unfolding 1 by (rule wired_inv [OF 2(3)])
  next
    case (2 ev a)
    show ?thesis unfolding 2 by (rule wired_inv [OF \<open>registry_inv s\<close>])
  next
    case (3 ev e)
    show ?thesis unfolding 3(1) by (rule registry_handler_inv [OF 2(3) 3(2)])
  next
    case 4
    then show ?thesis using 2(3) registry_inv_cong [of s' s] by simp
  qed
qed

section \<open>Properties\<close>

text \<open>
  The genesis row is what its history says. After any sequence of events of the launch controller, the genesis
  vault and the maintenance hub, it is finalized exactly if a finalization was seen, with the time and the
  transaction of the latest one; the lock start is the latest that the vault announced and the unlock time the
  latest of its locks and extensions. No other event of the three contracts changes it.
\<close>

theorem genesis_row_is_history:
  "genesis_of (launch_run c es empty_store) =
     \<lparr>gs_genesisFinalized = (latest says_finalized es \<noteq> None),
      gs_finalizedAt = map_option fst (latest says_finalized es),
      gs_finalizedTxHash = map_option snd (latest says_finalized es),
      gs_genesisLpVaultLockStart = latest says_start es,
      gs_genesisLpVaultUnlockTime = latest says_unlock es\<rparr>"
proof (induction es rule: rev_induct)
  case Nil
  then show ?case by (simp add: launch_run_def genesis_of_def new_genesis_def)
next
  case (snoc x es)
  obtain ev e where x: "x = (ev, e)" by (cases x)
  have "launch_run c (es @ [x]) empty_store = exec (launch_handler c ev e) (launch_run c es empty_store)"
    by (simp add: launch_run_def x)
  then show ?case
    by (simp add: genesis_step snoc.IH x Let_def split: option.splits)
qed

text \<open>
  The registry tables. Whatever the order of the wiring events of MineCore and the Furnace and of the
  registries' own events: no registry gets two data sources, the registries with a row are exactly those with a
  data source, and every token configuration belongs to a registry that has a row.
\<close>

theorem registry_tables_complete:
  assumes "registry_reachable c s"
  shows "distinct (dataSources s) \<and> (registries s i \<noteq> None \<longleftrightarrow> (\<exists>a \<in> set (dataSources s). i = toHexString a))
    \<and> (\<forall>x. lt_tokenConfigs (launch_rows s) j = Some x \<longrightarrow> registries s (tc_registry x) \<noteq> None)"
proof -
  have inv: "registry_inv s" by (rule registry_reachable_inv [OF assms])
  have row: "registries s k \<noteq> None \<longleftrightarrow> (\<exists>a \<in> set (dataSources s). k = toHexString a)" for k
  proof -
    have "registries s k \<noteq> None \<longleftrightarrow> k \<in> dom (registries s)" by auto
    also have "\<dots> \<longleftrightarrow> (\<exists>a \<in> set (dataSources s). k = toHexString a)" using inv by (auto simp: registry_inv_def)
    finally show ?thesis .
  qed
  moreover have "\<exists>a \<in> set (dataSources s). tc_registry x = toHexString a"
    if "lt_tokenConfigs (launch_rows s) j = Some x" for x
    using inv that unfolding registry_inv_def by blast
  ultimately show ?thesis using inv by (auto simp: registry_inv_def)
qed

lemma registry_tables_witness:
  "let s = exec (mc_handleEntryTokenRegistrySet local_chain sample_event [6]) empty_store;
       t = exec (handleTokenEnabledChanged (sample_event\<lparr>ev_address := [6]\<rparr>) [3] True) s;
       u = exec (f_handleEntryTokenRegistrySet local_chain sample_event [6]) t
   in distinct (dataSources u) \<and> registries t (user_id [6]) \<noteq> None"
proof -
  let ?s = "exec (mc_handleEntryTokenRegistrySet local_chain sample_event [6]) empty_store"
  let ?ev = "sample_event\<lparr>ev_address := [6]\<rparr>"
  let ?t = "exec (registry_handler local_chain ?ev (Token_enabled [3] True)) ?s"
  let ?u = "exec (f_handleEntryTokenRegistrySet local_chain sample_event [6]) ?t"
  have s: "registry_reachable local_chain ?s"
    by (rule registry_reachable.intros(2) [OF registry_reachable.intros(1) registry_step.intros(1)])
  have ds: "dataSources ?s = [[6]]"
    by (simp add: mc_handleEntryTokenRegistrySet_def exec_def Let_def case_prod_beta protocol_of_def
        backfillEntryTokenRegistry_def new_protocol_def snapshot_tables empty_store_def)
  then have "registry_step local_chain ?s ?t" by (intro registry_step.intros(3)) simp
  then have t: "registry_reachable local_chain ?t" by (rule registry_reachable.intros(2) [OF s])
  have "dataSources ?t = [[6]]" using ds by (simp add: handleTokenEnabledChanged_def exec_def case_prod_beta)
  then have row: "registries ?t (user_id [6]) \<noteq> None"
    using registry_tables_complete [OF t, of "user_id [6]" "''''"] by simp
  have "registry_reachable local_chain ?u"
    by (rule registry_reachable.intros(2) [OF t registry_step.intros(2)])
  from registry_tables_complete [OF this] row show ?thesis by (simp add: Let_def)
qed

end
