(* ===== verification/Permissions.thy ===== *)
theory Permissions
  imports Prelude
begin

unbundle bit_operations_syntax

text \<open>
  The delegation permissions of the agent SDK (\<open>src/agents/sdk/src/delegation/permissions.ts\<close>): the
  bits, the full and the safe mask, the registry, and the conversions between masks, names and
  specifications. A mask is an unbounded \<open>bigint\<close>, an \<open>int\<close>; a throw is the left summand.
\<close>

section \<open>The bits\<close>

definition P_TAKEOVER_FOR :: int where "P_TAKEOVER_FOR = push_bit 0 1"
definition P_ROUTE_REIGN_CLAIM_TO_CALLER :: int where "P_ROUTE_REIGN_CLAIM_TO_CALLER = push_bit 1 1"
definition P_SET_REIGN_ETH_RECIPIENT :: int where "P_SET_REIGN_ETH_RECIPIENT = push_bit 2 1"
definition P_SET_REIGN_ETH_RECIPIENT_TO_CALLER_ONLY :: int where
  "P_SET_REIGN_ETH_RECIPIENT_TO_CALLER_ONLY = push_bit 3 1"
definition P_SET_REIGN_CLAIM_RECIPIENT :: int where "P_SET_REIGN_CLAIM_RECIPIENT = push_bit 4 1"
definition P_SET_REIGN_CLAIM_RECIPIENT_TO_USER_ONLY :: int where
  "P_SET_REIGN_CLAIM_RECIPIENT_TO_USER_ONLY = push_bit 5 1"
definition P_WITHDRAW_KING_BUCKET_FOR :: int where "P_WITHDRAW_KING_BUCKET_FOR = push_bit 6 1"
definition P_CLAIM_SHAREHOLDER_FOR :: int where "P_CLAIM_SHAREHOLDER_FOR = push_bit 7 1"
definition P_CLAIM_ALL_FOR :: int where "P_CLAIM_ALL_FOR = push_bit 8 1"
definition P_FURNACE_ENTER_ETH_FOR :: int where "P_FURNACE_ENTER_ETH_FOR = push_bit 9 1"
definition P_FURNACE_ENTER_CLAIM_FOR :: int where "P_FURNACE_ENTER_CLAIM_FOR = push_bit 10 1"
definition P_FURNACE_ENTER_TOKEN_FOR :: int where "P_FURNACE_ENTER_TOKEN_FOR = push_bit 11 1"
definition P_VE_EXTEND_LOCK_FOR :: int where "P_VE_EXTEND_LOCK_FOR = push_bit 12 1"
definition P_VE_MERGE_LOCKS_FOR :: int where "P_VE_MERGE_LOCKS_FOR = push_bit 13 1"
definition P_VE_UNLOCK_EXPIRED_FOR :: int where "P_VE_UNLOCK_EXPIRED_FOR = push_bit 14 1"
definition P_SET_KING_AUTO_LOCK_CONFIG_FOR :: int where "P_SET_KING_AUTO_LOCK_CONFIG_FOR = push_bit 15 1"
definition P_SET_SHAREHOLDER_AUTOCOMPOUND_CONFIG_FOR :: int where
  "P_SET_SHAREHOLDER_AUTOCOMPOUND_CONFIG_FOR = push_bit 16 1"
definition P_SET_LP_AUTOCOMPOUND_CONFIG_FOR :: int where
  "P_SET_LP_AUTOCOMPOUND_CONFIG_FOR = push_bit 17 1"
definition P_ROUTE_SHAREHOLDER_ETH_TO_CALLER :: int where
  "P_ROUTE_SHAREHOLDER_ETH_TO_CALLER = push_bit 18 1"

lemmas perm_bit_defs = P_TAKEOVER_FOR_def P_ROUTE_REIGN_CLAIM_TO_CALLER_def
  P_SET_REIGN_ETH_RECIPIENT_def P_SET_REIGN_ETH_RECIPIENT_TO_CALLER_ONLY_def
  P_SET_REIGN_CLAIM_RECIPIENT_def P_SET_REIGN_CLAIM_RECIPIENT_TO_USER_ONLY_def
  P_WITHDRAW_KING_BUCKET_FOR_def P_CLAIM_SHAREHOLDER_FOR_def P_CLAIM_ALL_FOR_def
  P_FURNACE_ENTER_ETH_FOR_def P_FURNACE_ENTER_CLAIM_FOR_def P_FURNACE_ENTER_TOKEN_FOR_def
  P_VE_EXTEND_LOCK_FOR_def P_VE_MERGE_LOCKS_FOR_def P_VE_UNLOCK_EXPIRED_FOR_def
  P_SET_KING_AUTO_LOCK_CONFIG_FOR_def P_SET_SHAREHOLDER_AUTOCOMPOUND_CONFIG_FOR_def
  P_SET_LP_AUTOCOMPOUND_CONFIG_FOR_def P_ROUTE_SHAREHOLDER_ETH_TO_CALLER_def

definition ALL_PERMS :: int where
  "ALL_PERMS = P_TAKEOVER_FOR OR P_ROUTE_REIGN_CLAIM_TO_CALLER OR P_SET_REIGN_ETH_RECIPIENT OR
     P_SET_REIGN_ETH_RECIPIENT_TO_CALLER_ONLY OR P_SET_REIGN_CLAIM_RECIPIENT OR
     P_SET_REIGN_CLAIM_RECIPIENT_TO_USER_ONLY OR P_WITHDRAW_KING_BUCKET_FOR OR
     P_CLAIM_SHAREHOLDER_FOR OR P_CLAIM_ALL_FOR OR P_FURNACE_ENTER_ETH_FOR OR
     P_FURNACE_ENTER_CLAIM_FOR OR P_FURNACE_ENTER_TOKEN_FOR OR P_VE_EXTEND_LOCK_FOR OR
     P_VE_MERGE_LOCKS_FOR OR P_VE_UNLOCK_EXPIRED_FOR OR P_SET_KING_AUTO_LOCK_CONFIG_FOR OR
     P_SET_SHAREHOLDER_AUTOCOMPOUND_CONFIG_FOR OR P_SET_LP_AUTOCOMPOUND_CONFIG_FOR OR
     P_ROUTE_SHAREHOLDER_ETH_TO_CALLER"

definition SAFE_AGENT_PERMS :: int where
  "SAFE_AGENT_PERMS = ALL_PERMS AND NOT P_ROUTE_REIGN_CLAIM_TO_CALLER AND NOT P_SET_REIGN_ETH_RECIPIENT
     AND NOT P_SET_REIGN_CLAIM_RECIPIENT AND NOT P_ROUTE_SHAREHOLDER_ETH_TO_CALLER"

definition permsMask :: "int list \<Rightarrow> int" where
  "permsMask perms = foldl (OR) 0 perms"

section \<open>The registry\<close>

record perm_info =
  pi_constant :: string
  pi_bit :: int
  pi_description :: string

definition perm_info :: "string \<Rightarrow> int \<Rightarrow> string \<Rightarrow> perm_info" where
  "perm_info c b d = \<lparr>pi_constant = c, pi_bit = b, pi_description = d\<rparr>"

definition PERM_DEFINITIONS :: "perm_info list" where
  "PERM_DEFINITIONS = [
     perm_info ''P_TAKEOVER_FOR'' P_TAKEOVER_FOR ''Allow MineCore.takeoverFor(user).'',
     perm_info ''P_ROUTE_REIGN_CLAIM_TO_CALLER'' P_ROUTE_REIGN_CLAIM_TO_CALLER
       ''Allow routing the reign CLAIM stream to the delegate (high risk).'',
     perm_info ''P_SET_REIGN_ETH_RECIPIENT'' P_SET_REIGN_ETH_RECIPIENT
       ''Allow setting reign ETH recipient (high risk).'',
     perm_info ''P_SET_REIGN_ETH_RECIPIENT_TO_CALLER_ONLY'' P_SET_REIGN_ETH_RECIPIENT_TO_CALLER_ONLY
       ''Allow setting reign ETH recipient only to the delegate.'',
     perm_info ''P_SET_REIGN_CLAIM_RECIPIENT'' P_SET_REIGN_CLAIM_RECIPIENT
       ''Allow setting reign CLAIM recipient (high risk).'',
     perm_info ''P_SET_REIGN_CLAIM_RECIPIENT_TO_USER_ONLY'' P_SET_REIGN_CLAIM_RECIPIENT_TO_USER_ONLY
       ''Allow setting reign CLAIM recipient only to the user.'',
     perm_info ''P_WITHDRAW_KING_BUCKET_FOR'' P_WITHDRAW_KING_BUCKET_FOR
       ''Allow withdrawing user King bucket via ClaimAllHelper.'',
     perm_info ''P_CLAIM_SHAREHOLDER_FOR'' P_CLAIM_SHAREHOLDER_FOR
       ''Allow claiming shareholder ETH for user via ClaimAllHelper.'',
     perm_info ''P_CLAIM_ALL_FOR'' P_CLAIM_ALL_FOR ''Allow ClaimAllHelper.claimAllFor(user,...).'',
     perm_info ''P_FURNACE_ENTER_ETH_FOR'' P_FURNACE_ENTER_ETH_FOR
       ''Allow Furnace.enterWithEthFor(user,...).'',
     perm_info ''P_FURNACE_ENTER_CLAIM_FOR'' P_FURNACE_ENTER_CLAIM_FOR
       ''Allow Furnace.enterWithClaimFor(user,...).'',
     perm_info ''P_FURNACE_ENTER_TOKEN_FOR'' P_FURNACE_ENTER_TOKEN_FOR
       ''Allow Furnace.enterWithTokenFor(user,...).'',
     perm_info ''P_VE_EXTEND_LOCK_FOR'' P_VE_EXTEND_LOCK_FOR ''Allow extending ve lock for user.'',
     perm_info ''P_VE_MERGE_LOCKS_FOR'' P_VE_MERGE_LOCKS_FOR ''Allow merging ve locks for user.'',
     perm_info ''P_VE_UNLOCK_EXPIRED_FOR'' P_VE_UNLOCK_EXPIRED_FOR
       ''Allow unlocking expired ve lock for user.'',
     perm_info ''P_SET_KING_AUTO_LOCK_CONFIG_FOR'' P_SET_KING_AUTO_LOCK_CONFIG_FOR
       ''Allow setting King auto-lock config for user.'',
     perm_info ''P_SET_SHAREHOLDER_AUTOCOMPOUND_CONFIG_FOR'' P_SET_SHAREHOLDER_AUTOCOMPOUND_CONFIG_FOR
       ''Allow setting shareholder auto-compound config for user.'',
     perm_info ''P_SET_LP_AUTOCOMPOUND_CONFIG_FOR'' P_SET_LP_AUTOCOMPOUND_CONFIG_FOR
       ''Allow setting LP auto-compound config for user.'',
     perm_info ''P_ROUTE_SHAREHOLDER_ETH_TO_CALLER'' P_ROUTE_SHAREHOLDER_ETH_TO_CALLER
       ''Allow routing claimed shareholder ETH to the delegate (high risk).'']"

definition PERM_NAME_TO_BIT :: "string \<rightharpoonup> int" where
  "PERM_NAME_TO_BIT = foldl (\<lambda>m p. m(pi_constant p \<mapsto> pi_bit p)) Map.empty PERM_DEFINITIONS"

section \<open>Names and specifications\<close>

datatype perm_error =
  UnknownPermission string | OutsideKnownSet int | NegativeValue string | AboveHighestBit string

fun strip_P :: "string \<Rightarrow> string" where
  "strip_P (CHR ''P'' # CHR ''_'' # n) = strip_P n"
| "strip_P n = n"

definition normalizePermConstant :: "string \<Rightarrow> string" where
  "normalizePermConstant raw =
     (let n = toUpperCase (js_trim raw) in if n = [] then n else ''P_'' @ strip_P n)"

fun permsFromNamesLoop :: "string list \<Rightarrow> int \<Rightarrow> perm_error + int" where
  "permsFromNamesLoop [] out = Inr out"
| "permsFromNamesLoop (raw # names) out =
     (case PERM_NAME_TO_BIT (normalizePermConstant raw) of
        None \<Rightarrow> Inl (UnknownPermission raw)
      | Some b \<Rightarrow> permsFromNamesLoop names (out OR b))"

definition permsFromNames :: "string list \<Rightarrow> perm_error + int" where
  "permsFromNames names =
     (case permsFromNamesLoop names 0 of
        Inl e \<Rightarrow> Inl e
      | Inr out \<Rightarrow>
          if out \<noteq> 0 \<and> out AND NOT ALL_PERMS \<noteq> 0 then Inl (OutsideKnownSet out) else Inr out)"

definition is_digit :: "char \<Rightarrow> bool" where
  "is_digit c = (let n = of_char c :: nat in 48 \<le> n \<and> n \<le> 57)"

definition hex_value :: "char \<Rightarrow> nat option" where
  "hex_value c = (let n = of_char c :: nat in
     if 48 \<le> n \<and> n \<le> 57 then Some (n - 48)
     else if 97 \<le> n \<and> n \<le> 102 then Some (n - 87)
     else if 65 \<le> n \<and> n \<le> 70 then Some (n - 55)
     else None)"

definition is_hex_literal :: "string \<Rightarrow> bool" where
  "is_hex_literal s \<longleftrightarrow> take 2 s = ''0x'' \<and> drop 2 s \<noteq> [] \<and> (\<forall>c \<in> set (drop 2 s). hex_value c \<noteq> None)"

definition is_decimal_literal :: "string \<Rightarrow> bool" where
  "is_decimal_literal s \<longleftrightarrow> s \<noteq> [] \<and> (\<forall>c \<in> set s. is_digit c)"

text \<open>\<open>BigInt(s)\<close> on the two literal forms that the caller has matched.\<close>

definition js_BigInt :: "string \<Rightarrow> int" where
  "js_BigInt s =
     (if is_hex_literal s
      then foldl (\<lambda>a c. 16 * a + int (case hex_value c of None \<Rightarrow> 0 | Some d \<Rightarrow> d)) 0 (drop 2 s)
      else int (string_nat s))"

definition MAX_KNOWN_BIT :: nat where
  "MAX_KNOWN_BIT = 18"

definition MAX_VALID_PERMS :: int where
  "MAX_VALID_PERMS = push_bit (MAX_KNOWN_BIT + 1) 1 - 1"

definition parsePermsSpec :: "string \<Rightarrow> perm_error + int" where
  "parsePermsSpec spec =
     (let s = js_trim spec in
      if s = [] then Inr 0
      else if is_hex_literal s \<or> is_decimal_literal s
      then let v = js_BigInt s in
        if v < 0 then Inl (NegativeValue s)
        else if v > MAX_VALID_PERMS then Inl (AboveHighestBit s) else Inr v
      else permsFromNames (filter (\<lambda>x. x \<noteq> []) (map js_trim (split_on CHR '','' s))))"

definition describePerms :: "int \<Rightarrow> string list" where
  "describePerms perms = map pi_constant (filter (\<lambda>p. perms AND pi_bit p \<noteq> 0) PERM_DEFINITIONS)"

section \<open>Which bits the masks have\<close>

lemma perm_values [simp]:
  "P_TAKEOVER_FOR = 1" "P_ROUTE_REIGN_CLAIM_TO_CALLER = 2" "P_SET_REIGN_ETH_RECIPIENT = 4"
  "P_SET_REIGN_ETH_RECIPIENT_TO_CALLER_ONLY = 8" "P_SET_REIGN_CLAIM_RECIPIENT = 16"
  "P_SET_REIGN_CLAIM_RECIPIENT_TO_USER_ONLY = 32" "P_WITHDRAW_KING_BUCKET_FOR = 64"
  "P_CLAIM_SHAREHOLDER_FOR = 128" "P_CLAIM_ALL_FOR = 256" "P_FURNACE_ENTER_ETH_FOR = 512"
  "P_FURNACE_ENTER_CLAIM_FOR = 1024" "P_FURNACE_ENTER_TOKEN_FOR = 2048" "P_VE_EXTEND_LOCK_FOR = 4096"
  "P_VE_MERGE_LOCKS_FOR = 8192" "P_VE_UNLOCK_EXPIRED_FOR = 16384"
  "P_SET_KING_AUTO_LOCK_CONFIG_FOR = 32768" "P_SET_SHAREHOLDER_AUTOCOMPOUND_CONFIG_FOR = 65536"
  "P_SET_LP_AUTOCOMPOUND_CONFIG_FOR = 131072" "P_ROUTE_SHAREHOLDER_ETH_TO_CALLER = 262144"
  by (simp_all add: perm_bit_defs push_bit_eq_mult)

lemma ALL_PERMS_eq: "ALL_PERMS = mask 19"
  by (simp add: ALL_PERMS_def mask_eq_exp_minus_1)

lemma bit_ALL_PERMS [simp]: "bit ALL_PERMS i \<longleftrightarrow> i < 19"
  by (simp add: ALL_PERMS_eq bit_mask_iff)

lemma bit_perm [simp]:
  "bit (2 :: int) i \<longleftrightarrow> i = 1" "bit (4 :: int) i \<longleftrightarrow> i = 2" "bit (16 :: int) i \<longleftrightarrow> i = 4"
  "bit (262144 :: int) i \<longleftrightarrow> i = 18"
  using bit_exp_iff [of 1 i, where ?'a = int] bit_exp_iff [of 2 i, where ?'a = int]
    bit_exp_iff [of 4 i, where ?'a = int] bit_exp_iff [of 18 i, where ?'a = int] by simp_all

text \<open>
  The mask recommended for third-party agents has every defined permission except the four that
  redirect the user's funds: routing the reign CLAIM to the caller, setting the ETH or the CLAIM
  recipient freely, and routing the shareholder ETH to the caller.
\<close>

theorem safe_mask_bits:
  "describePerms SAFE_AGENT_PERMS
    = filter (\<lambda>n. n \<notin> {''P_ROUTE_REIGN_CLAIM_TO_CALLER'', ''P_SET_REIGN_ETH_RECIPIENT'',
                       ''P_SET_REIGN_CLAIM_RECIPIENT'', ''P_ROUTE_SHAREHOLDER_ETH_TO_CALLER''})
        (describePerms ALL_PERMS)
   \<and> SAFE_AGENT_PERMS AND (P_ROUTE_REIGN_CLAIM_TO_CALLER OR P_SET_REIGN_ETH_RECIPIENT
       OR P_SET_REIGN_CLAIM_RECIPIENT OR P_ROUTE_SHAREHOLDER_ETH_TO_CALLER) = 0"
proof
  have all: "ALL_PERMS = 524287" by (simp add: ALL_PERMS_def)
  have safe: "SAFE_AGENT_PERMS = 262121" by (simp add: SAFE_AGENT_PERMS_def all)
  show "describePerms SAFE_AGENT_PERMS
    = filter (\<lambda>n. n \<notin> {''P_ROUTE_REIGN_CLAIM_TO_CALLER'', ''P_SET_REIGN_ETH_RECIPIENT'',
                       ''P_SET_REIGN_CLAIM_RECIPIENT'', ''P_ROUTE_SHAREHOLDER_ETH_TO_CALLER''})
        (describePerms ALL_PERMS)"
    by (simp add: describePerms_def PERM_DEFINITIONS_def perm_info_def safe all)
  show "SAFE_AGENT_PERMS AND (P_ROUTE_REIGN_CLAIM_TO_CALLER OR P_SET_REIGN_ETH_RECIPIENT
       OR P_SET_REIGN_CLAIM_RECIPIENT OR P_ROUTE_SHAREHOLDER_ETH_TO_CALLER) = 0"
    by (simp add: safe)
qed

section \<open>Names to masks and back\<close>

lemma letter_char [simp]:
  "is_space (Char b0 b1 b2 b3 b4 b5 True False) = False"
  "b5 = False \<Longrightarrow> upper_char (Char b0 b1 b2 b3 b4 b5 True False) = Char b0 b1 b2 b3 b4 b5 True False"
  by (cases b0; cases b1; cases b2; cases b3; cases b4; cases b5; simp add: is_space_def upper_char_def Let_def)+

lemma registry_upper:
  "list_all (\<lambda>p. list_all (\<lambda>c. \<not> is_space c \<and> upper_char c = c) (pi_constant p)) PERM_DEFINITIONS"
  by (simp add: PERM_DEFINITIONS_def perm_info_def)

lemma registry_strip: "list_all (\<lambda>p. ''P_'' @ strip_P (pi_constant p) = pi_constant p) PERM_DEFINITIONS"
  by (simp add: PERM_DEFINITIONS_def perm_info_def)

lemma registry_map:
  "list_all (\<lambda>p. PERM_NAME_TO_BIT (pi_constant p) = Some (pi_bit p)) PERM_DEFINITIONS"
  by (simp add: PERM_NAME_TO_BIT_def PERM_DEFINITIONS_def perm_info_def)

lemma registry_lookup:
  assumes "p \<in> set PERM_DEFINITIONS"
  shows "PERM_NAME_TO_BIT (normalizePermConstant (pi_constant p)) = Some (pi_bit p)"
proof -
  let ?n = "pi_constant p"
  have chars: "\<not> is_space c \<and> upper_char c = c" if "c \<in> set ?n" for c
    using registry_upper assms that by (auto simp only: list_all_iff)
  then have "js_trim ?n = ?n" by (intro js_trim_id) blast
  moreover have "toUpperCase ?n = ?n"
    using chars by (simp add: toUpperCase_def map_idI)
  moreover have strip: "''P_'' @ strip_P ?n = ?n"
    using registry_strip assms by (simp only: list_all_iff)
  moreover have "?n \<noteq> []" using strip by (metis append_is_Nil_conv list.distinct(1))
  ultimately have "normalizePermConstant ?n = ?n" by (simp only: normalizePermConstant_def Let_def if_False)
  then show ?thesis using registry_map assms by (simp only: list_all_iff)
qed

lemma registry_bits: "map pi_bit PERM_DEFINITIONS = map (\<lambda>k. 2 ^ k) [0..<19]"
  by (simp add: PERM_DEFINITIONS_def perm_info_def upt_rec)

lemma registry_bit: "p \<in> set PERM_DEFINITIONS \<Longrightarrow> \<exists>k<19. pi_bit p = 2 ^ k"
proof -
  assume "p \<in> set PERM_DEFINITIONS"
  then have "pi_bit p \<in> set (map pi_bit PERM_DEFINITIONS)" by simp
  then show ?thesis unfolding registry_bits by auto
qed

lemma registry_all_bits: "k < 19 \<Longrightarrow> \<exists>p \<in> set PERM_DEFINITIONS. pi_bit p = 2 ^ k"
proof -
  assume "k < 19"
  then have "(2 :: int) ^ k \<in> set (map pi_bit PERM_DEFINITIONS)" unfolding registry_bits by simp
  then show ?thesis by auto
qed

lemma foldl_map_range:
  "foldl (\<lambda>m p. m(f p \<mapsto> g p)) m0 ps n = Some b \<Longrightarrow> m0 n = Some b \<or> b \<in> g ` set ps"
proof (induction ps arbitrary: m0)
  case (Cons p ps)
  have "(m0(f p \<mapsto> g p)) n = Some b \<or> b \<in> g ` set ps"
    by (rule Cons.IH) (use Cons.prems in \<open>simp only: foldl.simps\<close>)
  then show ?case by (auto split: if_splits)
qed simp

lemma lookup_bit: "PERM_NAME_TO_BIT n = Some b \<Longrightarrow> \<exists>k<19. b = 2 ^ k"
  using foldl_map_range [of pi_constant pi_bit Map.empty PERM_DEFINITIONS n b] registry_bit
  by (auto simp: PERM_NAME_TO_BIT_def)

lemma bit_foldl_or:
  fixes out :: int
  shows "bit (foldl (OR) out bs) i \<longleftrightarrow> bit out i \<or> (\<exists>b \<in> set bs. bit b i)"
  by (induction bs arbitrary: out) (auto simp: bit_or_iff)

lemma subset_ALL: "(m :: int) AND NOT ALL_PERMS = 0 \<longleftrightarrow> (\<forall>i. bit m i \<longrightarrow> i < 19)"
  by (auto simp: bit_eq_iff bit_and_iff bit_not_iff)

lemma loop_known:
  "permsFromNamesLoop names out =
     (case find (\<lambda>raw. PERM_NAME_TO_BIT (normalizePermConstant raw) = None) names of
        Some raw \<Rightarrow> Inl (UnknownPermission raw)
      | None \<Rightarrow> Inr (foldl (OR) out
          (map (\<lambda>raw. the (PERM_NAME_TO_BIT (normalizePermConstant raw))) names)))"
  by (induction names arbitrary: out) (auto split: option.splits)

text \<open>
  \<open>permsFromNames\<close> fails exactly on the first unknown name, and otherwise yields the union of
  the named bits, which never leaves the known set: the corrupted-registry guard cannot fire.
\<close>

theorem permsFromNames_exact:
  "permsFromNames names =
     (case find (\<lambda>raw. PERM_NAME_TO_BIT (normalizePermConstant raw) = None) names of
        Some raw \<Rightarrow> Inl (UnknownPermission raw)
      | None \<Rightarrow> Inr (permsMask
          (map (\<lambda>raw. the (PERM_NAME_TO_BIT (normalizePermConstant raw))) names)))"
proof (cases "find (\<lambda>raw. PERM_NAME_TO_BIT (normalizePermConstant raw) = None) names")
  case (Some raw)
  then show ?thesis by (simp add: permsFromNames_def loop_known)
next
  case None
  let ?bs = "map (\<lambda>raw. the (PERM_NAME_TO_BIT (normalizePermConstant raw))) names"
  have known: "\<exists>k<19. b = 2 ^ k" if "b \<in> set ?bs" for b
  proof -
    have "b \<in> (\<lambda>raw. the (PERM_NAME_TO_BIT (normalizePermConstant raw))) ` set names"
      using that by (simp only: set_map)
    then obtain raw where "raw \<in> set names"
      and b: "b = the (PERM_NAME_TO_BIT (normalizePermConstant raw))" by blast
    with None obtain c where "PERM_NAME_TO_BIT (normalizePermConstant raw) = Some c"
      by (auto simp: find_None_iff)
    with b lookup_bit show ?thesis by simp
  qed
  have "permsMask ?bs AND NOT ALL_PERMS = 0"
    unfolding subset_ALL permsMask_def bit_foldl_or using known by (fastforce simp: bit_exp_iff)
  with None show ?thesis by (simp add: permsFromNames_def loop_known permsMask_def)
qed

text \<open>
  Describing a mask and reading the names back gives the mask restricted to the defined bits:
  on every mask within the known set the two are inverse.
\<close>

theorem describe_permsFromNames:
  "permsFromNames (describePerms m) = Inr (m AND ALL_PERMS)"
proof -
  let ?ps = "filter (\<lambda>p. m AND pi_bit p \<noteq> 0) PERM_DEFINITIONS"
  have look: "PERM_NAME_TO_BIT (normalizePermConstant (pi_constant p)) = Some (pi_bit p)"
    if "p \<in> set PERM_DEFINITIONS" for p
    using that by (rule registry_lookup)
  have none: "find (\<lambda>raw. PERM_NAME_TO_BIT (normalizePermConstant raw) = None) (describePerms m) = None"
    using look by (auto simp: find_None_iff describePerms_def)
  have bits: "map (\<lambda>raw. the (PERM_NAME_TO_BIT (normalizePermConstant raw))) (describePerms m)
      = map pi_bit ?ps"
    using look by (simp add: describePerms_def)
  have "permsFromNamesLoop (describePerms m) 0 = Inr (foldl (OR) 0 (map pi_bit ?ps))"
    by (simp only: loop_known none bits option.case)
  moreover have "foldl (OR) 0 (map pi_bit ?ps) = m AND ALL_PERMS"
  proof (rule bit_eqI)
    fix i
    have "(\<exists>p \<in> set ?ps. bit (pi_bit p) i) \<longleftrightarrow> i < 19 \<and> bit m i"
    proof
      assume "\<exists>p \<in> set ?ps. bit (pi_bit p) i"
      then obtain p where p: "p \<in> set PERM_DEFINITIONS" "m AND pi_bit p \<noteq> 0" "bit (pi_bit p) i" by auto
      then obtain k where "k < 19" and "pi_bit p = 2 ^ k" using registry_bit by blast
      with p show "i < 19 \<and> bit m i" by (auto simp: bit_exp_iff and_exp_eq_0_iff_not_bit)
    next
      assume i: "i < 19 \<and> bit m i"
      then obtain p where "p \<in> set PERM_DEFINITIONS" and "pi_bit p = 2 ^ i" using registry_all_bits by blast
      with i show "\<exists>p \<in> set ?ps. bit (pi_bit p) i"
        by (intro bexI [of _ p]) (auto simp: bit_exp_iff and_exp_eq_0_iff_not_bit)
    qed
    then show "bit (foldl (OR) 0 (map pi_bit ?ps)) i = bit (m AND ALL_PERMS) i"
      by (auto simp: bit_foldl_or bit_and_iff)
  qed
  moreover have "(m AND ALL_PERMS) AND NOT ALL_PERMS = 0"
    unfolding subset_ALL by (simp add: bit_and_iff)
  ultimately show ?thesis by (simp add: permsFromNames_def)
qed

end
