(* ===== verification/Policy.thy ===== *)
theory Policy
  imports Permissions
begin

unbundle bit_operations_syntax

text \<open>
  The built-in policy of the live agent (\<open>src/agents/sdk/src/agent/policy.ts\<close>) and the delegation
  requirement of an action (\<open>delegationRequirements.ts\<close>): from a snapshot, a configuration, the
  caller and an optional delegation session to a list of actions. Addresses are strings compared
  without case, amounts are \<open>bigint\<close>s, milliseconds are integers; \<open>Date.now()\<close> is an argument. The
  snapshot record has the fields that the policy reads.
\<close>

section \<open>Actions (types.ts)\<close>

datatype (plugins only: code) agent_action =
  Furnace_enterWithEth int int int bool int
    \<comment> \<open>ethIn, targetTokenId, durationSeconds, createAutoMax, slippageBps\<close>
| Furnace_enterWithEthFor string int int int bool int  \<comment> \<open>user first\<close>
| Furnace_enterWithClaim int int int bool int
| Furnace_enterWithClaimFromCallerFor string int int int bool int
| Furnace_enterWithToken string int int int bool int
| Furnace_enterWithTokenFromCallerFor string string int int int bool int
| MineCore_takeover int
| MineCore_takeoverFor string int  \<comment> \<open>newKing, price\<close>
| MineCore_takeoverWithToken string int int
| MineCore_setCurrentReignRecipients string string
| MineCore_setKingAutoLockConfig bool int int bool int
| Royalties_claimShareholderEth int
| Royalties_claimShareholderLock int int bool int
| Royalties_setAutoCompoundConfig bool int int int int
| ClaimAllHelper_claimShareholderForUser string int int int int bool int
    \<comment> \<open>user, claimable, mode, targetTokenId, durationSeconds, createAutoMax, minVeOut\<close>
| ClaimAllHelper_withdrawKingBalanceForUser string int
| ClaimAllHelper_claimAllFor string int int int int bool int
| MineCore_withdrawKingBalance int
| MineCore_withdrawRefundBalance int string
| MarketRouter_sellLockToFurnace int int int
| MarketRouter_sellListedLockToFurnace int int
| MarketRouter_listLock int int int
| MarketRouter_delistLock int
| MarketRouter_cancelExpiredListing int
| MarketRouter_createBonusTargetEscrowWithTarget int int int bool int int int
| MarketRouter_cancelBonusTargetEscrow int
| MarketRouter_extendBonusTargetEscrowExpiry int int
| MarketRouter_cancelExpiredBonusTargetEscrow int
| MarketRouter_executeAutoFurnace int
| Erc20_approve string string int
| Erc20_ensureAllowance string string int int
| Ve_approve string int
| Ve_setApprovalForAll string bool
| Furnace_extendWithBonus int int int
| Furnace_extendWithBonusFor string int int int
| Furnace_mergeLocksWithBonus int int int
| Ve_unlock int
| Ve_setAutoMax int bool
| Ve_checkpointGlobalState
| Ve_checkpointTotalVe
| Furnace_mergeLocksWithBonusFor string int int int
| Ve_unlockExpiredForUser string int
| MineCore_setKingAutoLockConfigForUser string bool int int bool int
| Royalties_setAutoCompoundConfigForUser string bool int int int int
| LpVault_setAutoCompoundConfigForUser string bool int int

record delegation_requirement =
  dr_user :: string
  dr_requiredPerms :: int

definition requires :: "string \<Rightarrow> int \<Rightarrow> delegation_requirement option" where
  "requires u p = Some \<lparr>dr_user = u, dr_requiredPerms = p\<rparr>"

definition getDelegationRequirementForAction :: "agent_action \<Rightarrow> delegation_requirement option" where
  "getDelegationRequirementForAction a =
     (case a of
        Furnace_enterWithEthFor u _ _ _ _ _ \<Rightarrow> requires u P_FURNACE_ENTER_ETH_FOR
      | Furnace_enterWithClaimFromCallerFor u _ _ _ _ _ \<Rightarrow> requires u P_FURNACE_ENTER_CLAIM_FOR
      | Furnace_enterWithTokenFromCallerFor u _ _ _ _ _ _ \<Rightarrow> requires u P_FURNACE_ENTER_TOKEN_FOR
      | MineCore_takeoverFor newKing _ \<Rightarrow> requires newKing P_TAKEOVER_FOR
      | ClaimAllHelper_claimShareholderForUser u _ _ _ _ _ _ \<Rightarrow> requires u P_CLAIM_SHAREHOLDER_FOR
      | ClaimAllHelper_withdrawKingBalanceForUser u _ \<Rightarrow> requires u P_WITHDRAW_KING_BUCKET_FOR
      | ClaimAllHelper_claimAllFor u _ _ _ _ _ _ \<Rightarrow> requires u P_CLAIM_ALL_FOR
      | Furnace_extendWithBonusFor u _ _ _ \<Rightarrow> requires u P_VE_EXTEND_LOCK_FOR
      | Furnace_mergeLocksWithBonusFor u _ _ _ \<Rightarrow> requires u P_VE_MERGE_LOCKS_FOR
      | Ve_unlockExpiredForUser u _ \<Rightarrow> requires u P_VE_UNLOCK_EXPIRED_FOR
      | MineCore_setKingAutoLockConfigForUser u _ _ _ _ _ \<Rightarrow> requires u P_SET_KING_AUTO_LOCK_CONFIG_FOR
      | Royalties_setAutoCompoundConfigForUser u _ _ _ _ _ \<Rightarrow> requires u P_SET_SHAREHOLDER_AUTOCOMPOUND_CONFIG_FOR
      | LpVault_setAutoCompoundConfigForUser u _ _ _ \<Rightarrow> requires u P_SET_LP_AUTOCOMPOUND_CONFIG_FOR
      | _ \<Rightarrow> None)"

section \<open>Configuration, snapshot and caller\<close>

record king_lock_config =
  kl_enabled :: bool
  kl_targetTokenId :: int
  kl_durationSeconds :: int
  kl_createAutoMax :: bool
  kl_minVeOut :: int

record royalties_desired =
  rd_enabled :: bool
  rd_tokenId :: int
  rd_durationSeconds :: int
  rd_minCadenceSeconds :: int
  rd_minEthToCompound :: int

record lp_desired =
  ld_enabled :: bool
  ld_tokenId :: int
  ld_durationSeconds :: int

record policy_config =
  pc_enableFurnaceEntry :: bool
  pc_enableTakeovers :: bool
  pc_enableRoyaltiesClaim :: bool
  pc_enableWithdrawals :: bool
  pc_furnaceEthIn :: int
  pc_lockDurationSeconds :: int
  pc_targetTokenId :: int
  pc_createAutoMax :: bool
  pc_slippageBps :: int
  pc_maxTakeoverEth :: int
  pc_takeoverCooldownSeconds :: int
  pc_minRoyaltiesEthToClaim :: int
  pc_minKingEthToWithdraw :: int
  pc_minRefundEthToWithdraw :: int
  pc_kingAutoLockDesired :: "king_lock_config option"
  pc_royaltiesAutoCompoundDesired :: "royalties_desired option"
  pc_lpAutoCompoundDesired :: "lp_desired option"

record royalties_current =
  rc_enabled :: bool
  rc_paused :: bool
  rc_tokenId :: int
  rc_durationSeconds :: int
  rc_minCadenceSeconds :: int
  rc_minEthToCompound :: int

record lp_current =
  lc_enabled :: bool
  lc_paused :: bool
  lc_tokenId :: int
  lc_durationSeconds :: int

record subject =
  su_address :: string
  su_ethBalance :: int
  su_kingEthBalance :: int
  su_refundEthBalance :: int
  su_kingAutoLockConfig :: king_lock_config
  su_royalties :: royalties_current
  su_claimable :: int
  su_lpVault :: lp_current
  su_veBalance :: int
  su_nftBalance :: int

record snapshot =
  sn_user :: "subject option"
  sn_blockTimestamp :: int
  sn_lockingPaused :: bool
  sn_takeoversPaused :: bool
  sn_currentKing :: string
  sn_currentTakeoverPrice :: int

record caller_context =
  cc_address :: string
  cc_ethBalance :: int
  cc_kingEthBalance :: int
  cc_refundEthBalance :: int

record delegation_context =
  dc_user :: string
  dc_delegate :: string
  dc_perms :: int
  dc_expiry :: int

section \<open>The policy\<close>

definition sameAddress :: "string \<Rightarrow> string \<Rightarrow> bool" where
  "sameAddress a b \<longleftrightarrow> toLowerCase a = toLowerCase b"

definition hasPerm :: "int \<Rightarrow> int \<Rightarrow> bool" where
  "hasPerm perms b \<longleftrightarrow> perms AND b \<noteq> 0"

text \<open>\<open>wallSec\<close> is the wall clock, used only without a block timestamp.\<close>

definition isDelegationActive :: "delegation_context option \<Rightarrow> int option \<Rightarrow> int \<Rightarrow> bool" where
  "isDelegationActive d blockTimestamp wallSec =
     (case d of
        None \<Rightarrow> False
      | Some d \<Rightarrow>
          if dc_expiry d = 0 then False
          else dc_expiry d \<ge> (case blockTimestamp of Some t \<Rightarrow> t | None \<Rightarrow> wallSec))"

definition default_caller :: "subject \<Rightarrow> caller_context" where
  "default_caller u = \<lparr>cc_address = su_address u, cc_ethBalance = su_ethBalance u,
     cc_kingEthBalance = su_kingEthBalance u, cc_refundEthBalance = su_refundEthBalance u\<rparr>"

definition resolveLockTokenId :: "int \<Rightarrow> int" where
  "resolveLockTokenId spec = (if spec > 0 then spec else 0)"

definition checkResolvedLockUsable :: "int \<Rightarrow> bool" where
  "checkResolvedLockUsable resolvedTokenId \<longleftrightarrow> resolvedTokenId > 0"

text \<open>The three blocks of the configuration sync.\<close>

definition king_sync :: "subject \<Rightarrow> king_lock_config option \<Rightarrow> int \<Rightarrow> agent_action list" where
  "king_sync subj desired perms =
     (case desired of
        None \<Rightarrow> []
      | Some d \<Rightarrow>
          if hasPerm perms P_SET_KING_AUTO_LOCK_CONFIG_FOR
          then let cur = su_kingAutoLockConfig subj;
                   mismatch = kl_enabled cur \<noteq> kl_enabled d
                     \<or> kl_targetTokenId cur \<noteq> kl_targetTokenId d
                     \<or> kl_durationSeconds cur \<noteq> kl_durationSeconds d
                     \<or> kl_createAutoMax cur \<noteq> kl_createAutoMax d
                     \<or> kl_minVeOut cur \<noteq> kl_minVeOut d
               in if mismatch
                  then [MineCore_setKingAutoLockConfigForUser (su_address subj) (kl_enabled d)
                          (kl_targetTokenId d) (kl_durationSeconds d) (kl_createAutoMax d) (kl_minVeOut d)]
                  else []
          else [])"

definition royalties_wanted :: "royalties_current \<Rightarrow> royalties_desired option \<Rightarrow> royalties_desired option" where
  "royalties_wanted cur desired =
     (case desired of
        Some d \<Rightarrow> Some d
      | None \<Rightarrow>
          if rc_enabled cur \<and> rc_paused cur
          then Some \<lparr>rd_enabled = True, rd_tokenId = rc_tokenId cur,
                     rd_durationSeconds = rc_durationSeconds cur,
                     rd_minCadenceSeconds = rc_minCadenceSeconds cur,
                     rd_minEthToCompound = rc_minEthToCompound cur\<rparr>
          else None)"

definition royalties_sync :: "subject \<Rightarrow> royalties_desired option \<Rightarrow> int \<Rightarrow> agent_action list" where
  "royalties_sync subj desired perms =
     (let cur = su_royalties subj in
      case royalties_wanted cur desired of
        None \<Rightarrow> []
      | Some d \<Rightarrow>
          if hasPerm perms P_SET_SHAREHOLDER_AUTOCOMPOUND_CONFIG_FOR
          then let resolvedTokenId = (if rd_enabled d then resolveLockTokenId (rd_tokenId d) else rd_tokenId d);
                   wantsEnabled = rd_enabled d;
                   canEnable = (\<not> wantsEnabled \<or> resolvedTokenId > 0 \<and> checkResolvedLockUsable resolvedTokenId);
                   mismatch = (rc_enabled cur \<noteq> rd_enabled d
                     \<or> wantsEnabled \<and> (rc_paused cur
                         \<or> rc_tokenId cur \<noteq> resolvedTokenId
                         \<or> rc_durationSeconds cur \<noteq> rd_durationSeconds d
                         \<or> rc_minCadenceSeconds cur \<noteq> rd_minCadenceSeconds d
                         \<or> rc_minEthToCompound cur \<noteq> rd_minEthToCompound d))
               in if canEnable \<and> mismatch
                  then [Royalties_setAutoCompoundConfigForUser (su_address subj) (rd_enabled d)
                          resolvedTokenId (rd_durationSeconds d) (rd_minCadenceSeconds d)
                          (rd_minEthToCompound d)]
                  else []
          else [])"

definition lp_wanted :: "lp_current \<Rightarrow> lp_desired option \<Rightarrow> lp_desired option" where
  "lp_wanted cur desired =
     (case desired of
        Some d \<Rightarrow> Some d
      | None \<Rightarrow>
          if lc_enabled cur \<and> lc_paused cur
          then Some \<lparr>ld_enabled = True, ld_tokenId = lc_tokenId cur,
                     ld_durationSeconds = lc_durationSeconds cur\<rparr>
          else None)"

definition lp_sync :: "subject \<Rightarrow> lp_desired option \<Rightarrow> int \<Rightarrow> agent_action list" where
  "lp_sync subj desired perms =
     (let cur = su_lpVault subj in
      case lp_wanted cur desired of
        None \<Rightarrow> []
      | Some d \<Rightarrow>
          if hasPerm perms P_SET_LP_AUTOCOMPOUND_CONFIG_FOR
          then let resolvedTokenId = (if ld_enabled d then resolveLockTokenId (ld_tokenId d) else ld_tokenId d);
                   wantsEnabled = ld_enabled d;
                   canEnable = (\<not> wantsEnabled \<or> resolvedTokenId > 0 \<and> checkResolvedLockUsable resolvedTokenId);
                   mismatch = (lc_enabled cur \<noteq> ld_enabled d
                     \<or> wantsEnabled \<and> (lc_paused cur
                         \<or> lc_tokenId cur \<noteq> resolvedTokenId
                         \<or> lc_durationSeconds cur \<noteq> ld_durationSeconds d))
               in if canEnable \<and> mismatch
                  then [LpVault_setAutoCompoundConfigForUser (su_address subj) (ld_enabled d)
                          resolvedTokenId (ld_durationSeconds d)]
                  else []
          else [])"

definition config_sync :: "subject \<Rightarrow> policy_config \<Rightarrow> int \<Rightarrow> agent_action list" where
  "config_sync subj config perms =
     king_sync subj (pc_kingAutoLockDesired config) perms
     @ royalties_sync subj (pc_royaltiesAutoCompoundDesired config) perms
     @ lp_sync subj (pc_lpAutoCompoundDesired config) perms"

text \<open>Furnace entry, when the subject has no ve position: the only action of its plan.\<close>

definition furnace_step ::
  "snapshot \<Rightarrow> subject \<Rightarrow> policy_config \<Rightarrow> caller_context \<Rightarrow> bool \<Rightarrow> int \<Rightarrow> agent_action list option" where
  "furnace_step snap subj config caller delegated perms =
     (let needsVe = (su_veBalance subj = 0 \<or> su_nftBalance subj = 0);
          canFurnace = (pc_enableFurnaceEntry config
            \<and> \<not> sn_lockingPaused snap
            \<and> pc_furnaceEthIn config > 0
            \<and> cc_ethBalance caller \<ge> pc_furnaceEthIn config
            \<and> (\<not> delegated \<or> hasPerm perms P_FURNACE_ENTER_ETH_FOR))
      in if needsVe \<and> canFurnace
         then Some [if delegated
              then Furnace_enterWithEthFor (su_address subj) (pc_furnaceEthIn config)
                     (pc_targetTokenId config) (pc_lockDurationSeconds config)
                     (pc_createAutoMax config) (pc_slippageBps config)
              else Furnace_enterWithEth (pc_furnaceEthIn config)
                     (pc_targetTokenId config) (pc_lockDurationSeconds config)
                     (pc_createAutoMax config) (pc_slippageBps config)]
         else None)"

text \<open>Royalties: the actions and the flag \<open>plannedClaimAllFor\<close>.\<close>

definition royalties_step ::
  "subject \<Rightarrow> policy_config \<Rightarrow> bool \<Rightarrow> int \<Rightarrow> agent_action list \<times> bool" where
  "royalties_step subj config delegated perms =
     (if pc_enableRoyaltiesClaim config
      then let claimable = su_claimable subj in
           if claimable > 0 \<and> claimable \<ge> pc_minRoyaltiesEthToClaim config
           then if delegated
                then if hasPerm perms P_CLAIM_ALL_FOR
                     then ([ClaimAllHelper_claimAllFor (su_address subj) claimable 0 0 0 False 0], True)
                     else if hasPerm perms P_CLAIM_SHAREHOLDER_FOR
                     then ([ClaimAllHelper_claimShareholderForUser (su_address subj) claimable 0 0 0 False 0],
                           False)
                     else ([], False)
                else ([Royalties_claimShareholderEth claimable], False)
           else ([], False)
      else ([], False))"

definition withdraw_refund :: "int \<Rightarrow> string \<Rightarrow> policy_config \<Rightarrow> agent_action list" where
  "withdraw_refund refundBal to config =
     (if refundBal > 0 \<and> refundBal \<ge> pc_minRefundEthToWithdraw config
      then [MineCore_withdrawRefundBalance refundBal to] else [])"

definition withdraw_king :: "int \<Rightarrow> policy_config \<Rightarrow> agent_action list" where
  "withdraw_king kingBal config =
     (if kingBal > 0 \<and> kingBal \<ge> pc_minKingEthToWithdraw config
      then [MineCore_withdrawKingBalance kingBal] else [])"

definition withdraw_step ::
  "subject \<Rightarrow> policy_config \<Rightarrow> caller_context \<Rightarrow> bool \<Rightarrow> int \<Rightarrow> bool \<Rightarrow> agent_action list" where
  "withdraw_step subj config caller delegated perms plannedClaimAllFor =
     (if pc_enableWithdrawals config
      then if delegated
           then (let userKingBal = su_kingEthBalance subj in
                 if userKingBal > 0 \<and> userKingBal \<ge> pc_minKingEthToWithdraw config
                 then if hasPerm perms P_CLAIM_ALL_FOR \<and> \<not> plannedClaimAllFor
                      then [ClaimAllHelper_claimAllFor (su_address subj) (su_claimable subj) 0 0 0 False 0]
                      else if hasPerm perms P_WITHDRAW_KING_BUCKET_FOR
                      then [ClaimAllHelper_withdrawKingBalanceForUser (su_address subj) userKingBal]
                      else []
                 else [])
                @ withdraw_refund (cc_refundEthBalance caller) (cc_address caller) config
                @ withdraw_king (cc_kingEthBalance caller) config
           else withdraw_refund (su_refundEthBalance subj) (su_address subj) config
                @ withdraw_king (su_kingEthBalance subj) config
      else [])"

definition takeover_step ::
  "snapshot \<Rightarrow> subject \<Rightarrow> policy_config \<Rightarrow> int option \<Rightarrow> int \<Rightarrow> caller_context \<Rightarrow> bool \<Rightarrow> int
     \<Rightarrow> agent_action list" where
  "takeover_step snap subj config lastTakeoverAtMs nowMs caller delegated perms =
     (if pc_enableTakeovers config
      then let cooldownOk = (case lastTakeoverAtMs of
                 None \<Rightarrow> True
               | Some t \<Rightarrow> nowMs - t \<ge> pc_takeoverCooldownSeconds config * 1000);
               price = sn_currentTakeoverPrice snap;
               baseChecks = (cooldownOk
                 \<and> \<not> sn_takeoversPaused snap
                 \<and> \<not> sameAddress (sn_currentKing snap) (su_address subj)
                 \<and> pc_maxTakeoverEth config > 0
                 \<and> price > 0
                 \<and> price \<le> pc_maxTakeoverEth config
                 \<and> cc_ethBalance caller \<ge> price);
               canTakeover = (baseChecks \<and> (\<not> delegated \<or> hasPerm perms P_TAKEOVER_FOR))
           in if canTakeover
              then [if delegated then MineCore_takeoverFor (su_address subj) price
                    else MineCore_takeover price]
              else []
      else [])"

text \<open>
  The whole plan. \<open>perms\<close> is the session's mask in delegated mode with an active session, else no
  permission at all.
\<close>

definition buildActionPlan ::
  "snapshot \<Rightarrow> policy_config \<Rightarrow> int option \<Rightarrow> int \<Rightarrow> int \<Rightarrow> caller_context option \<Rightarrow>
   delegation_context option \<Rightarrow> agent_action list" where
  "buildActionPlan snap config lastTakeoverAtMs nowMs wallSec callerOpt delegation =
     (case sn_user snap of
        None \<Rightarrow> []
      | Some subj \<Rightarrow>
          let caller = (case callerOpt of Some c \<Rightarrow> c | None \<Rightarrow> default_caller subj);
              delegated = (\<not> sameAddress (cc_address caller) (su_address subj));
              delegationActive = isDelegationActive delegation (Some (sn_blockTimestamp snap)) wallSec;
              perms = (if delegated \<and> delegationActive
                       then (case delegation of Some d \<Rightarrow> dc_perms d | None \<Rightarrow> 0) else 0);
              hasDesiredConfig = (pc_kingAutoLockDesired config \<noteq> None
                \<or> pc_royaltiesAutoCompoundDesired config \<noteq> None
                \<or> pc_lpAutoCompoundDesired config \<noteq> None);
              sync = (if hasDesiredConfig \<and> delegated \<and> delegationActive
                      then config_sync subj config perms else [])
          in if sync \<noteq> [] then sync
             else (case furnace_step snap subj config caller delegated perms of
                 Some actions \<Rightarrow> actions
               | None \<Rightarrow>
                   let (royalties, plannedClaimAllFor) = royalties_step subj config delegated perms
                   in royalties
                      @ withdraw_step subj config caller delegated perms plannedClaimAllFor
                      @ takeover_step snap subj config lastTakeoverAtMs nowMs caller delegated perms))"

section \<open>Every planned action is allowed\<close>

text \<open>
  What an action needs from the caller: a delegated action the permission and the subject, and
  no delegation at all for an action of the caller itself.
\<close>

definition allowed :: "subject \<Rightarrow> bool \<Rightarrow> int \<Rightarrow> agent_action \<Rightarrow> bool" where
  "allowed subj delegated perms a =
     (case getDelegationRequirementForAction a of
        None \<Rightarrow> True
      | Some r \<Rightarrow> delegated \<and> dr_user r = su_address subj \<and> hasPerm perms (dr_requiredPerms r))"

lemma allowed_config_sync: "a \<in> set (config_sync subj config perms) \<Longrightarrow> allowed subj True perms a"
  by (auto simp: config_sync_def king_sync_def royalties_sync_def lp_sync_def allowed_def requires_def
      getDelegationRequirementForAction_def Let_def split: option.splits if_splits)

lemma allowed_furnace_step:
  "furnace_step snap subj config caller delegated perms = Some as \<Longrightarrow> a \<in> set as \<Longrightarrow>
   allowed subj delegated perms a"
  by (auto simp: furnace_step_def allowed_def requires_def getDelegationRequirementForAction_def Let_def
      split: if_splits)

lemma allowed_royalties_step:
  "a \<in> set (fst (royalties_step subj config delegated perms)) \<Longrightarrow> allowed subj delegated perms a"
  by (auto simp: royalties_step_def allowed_def requires_def getDelegationRequirementForAction_def Let_def
      split: if_splits)

lemma allowed_withdraw_step:
  "a \<in> set (withdraw_step subj config caller delegated perms p) \<Longrightarrow> allowed subj delegated perms a"
  by (auto simp: withdraw_step_def withdraw_refund_def withdraw_king_def allowed_def requires_def
      getDelegationRequirementForAction_def Let_def split: if_splits)

lemma allowed_takeover_step:
  "a \<in> set (takeover_step snap subj config l nowMs caller delegated perms) \<Longrightarrow>
   allowed subj delegated perms a"
  by (auto simp: takeover_step_def allowed_def requires_def getDelegationRequirementForAction_def Let_def
      split: if_splits)

lemma hasPerm_zero [simp]: "\<not> hasPerm 0 b"
  by (simp add: hasPerm_def)


text \<open>A managed user with claimable royalties and a king bucket, and a delegate with every permission.\<close>

definition sample_subject :: subject where
  "sample_subject = \<lparr>su_address = ''0xaa'', su_ethBalance = 0, su_kingEthBalance = 70,
     su_refundEthBalance = 0,
     su_kingAutoLockConfig = \<lparr>kl_enabled = False, kl_targetTokenId = 0, kl_durationSeconds = 0,
       kl_createAutoMax = False, kl_minVeOut = 0\<rparr>,
     su_royalties = \<lparr>rc_enabled = False, rc_paused = False, rc_tokenId = 0, rc_durationSeconds = 0,
       rc_minCadenceSeconds = 0, rc_minEthToCompound = 0\<rparr>,
     su_claimable = 50,
     su_lpVault = \<lparr>lc_enabled = False, lc_paused = False, lc_tokenId = 0, lc_durationSeconds = 0\<rparr>,
     su_veBalance = 9, su_nftBalance = 1\<rparr>"

definition sample_snapshot :: snapshot where
  "sample_snapshot = \<lparr>sn_user = Some sample_subject, sn_blockTimestamp = 1000, sn_lockingPaused = False,
     sn_takeoversPaused = False, sn_currentKing = ''0xcc'', sn_currentTakeoverPrice = 30\<rparr>"

definition sample_config :: policy_config where
  "sample_config = \<lparr>pc_enableFurnaceEntry = True, pc_enableTakeovers = True,
     pc_enableRoyaltiesClaim = True, pc_enableWithdrawals = True, pc_furnaceEthIn = 10,
     pc_lockDurationSeconds = 100, pc_targetTokenId = 0, pc_createAutoMax = False, pc_slippageBps = 50,
     pc_maxTakeoverEth = 40, pc_takeoverCooldownSeconds = 60, pc_minRoyaltiesEthToClaim = 1,
     pc_minKingEthToWithdraw = 1, pc_minRefundEthToWithdraw = 1, pc_kingAutoLockDesired = None,
     pc_royaltiesAutoCompoundDesired = None, pc_lpAutoCompoundDesired = None\<rparr>"

definition sample_caller :: caller_context where
  "sample_caller = \<lparr>cc_address = ''0xbb'', cc_ethBalance = 100, cc_kingEthBalance = 0,
     cc_refundEthBalance = 0\<rparr>"

definition sample_session :: delegation_context where
  "sample_session = \<lparr>dc_user = ''0xaa'', dc_delegate = ''0xbb'', dc_perms = 524287, dc_expiry = 2000\<rparr>"

lemma sample_delegated: "\<not> sameAddress ''0xbb'' ''0xaa''"
  by (simp add: sameAddress_def toLowerCase_def lower_char_def)

lemma sample_not_king: "\<not> sameAddress ''0xcc'' ''0xaa''"
  by (simp add: sameAddress_def toLowerCase_def lower_char_def)

lemmas sample_defs = sample_subject_def sample_snapshot_def sample_config_def sample_caller_def
  sample_session_def

lemma sample_plan:
  "buildActionPlan sample_snapshot sample_config None 0 0 (Some sample_caller) (Some sample_session)
    = [ClaimAllHelper_claimAllFor ''0xaa'' 50 0 0 0 False 0,
       ClaimAllHelper_withdrawKingBalanceForUser ''0xaa'' 70,
       MineCore_takeoverFor ''0xaa'' 30]"
  by (simp add: buildActionPlan_def sample_defs sample_delegated sample_not_king Let_def
      isDelegationActive_def furnace_step_def royalties_step_def withdraw_step_def withdraw_refund_def
      withdraw_king_def takeover_step_def hasPerm_def)


section \<open>Spending\<close>

text \<open>The ETH that an action sends from the caller.\<close>

definition eth_value :: "agent_action \<Rightarrow> int" where
  "eth_value a =
     (case a of
        Furnace_enterWithEth e _ _ _ _ \<Rightarrow> e
      | Furnace_enterWithEthFor _ e _ _ _ _ \<Rightarrow> e
      | MineCore_takeover p \<Rightarrow> p
      | MineCore_takeoverFor _ p \<Rightarrow> p
      | _ \<Rightarrow> 0)"

definition spends :: "agent_action list \<Rightarrow> int" where
  "spends as = sum_list (map eth_value as)"

lemma spends_append [simp]: "spends (as @ bs) = spends as + spends bs"
  by (simp add: spends_def)

lemma spends_config_sync [simp]: "spends (config_sync subj config perms) = 0"
proof -
  have "spends (king_sync subj k perms) = 0" for k
    by (auto simp: king_sync_def spends_def eth_value_def Let_def split: option.splits)
  moreover have "spends (royalties_sync subj r perms) = 0" for r
    by (auto simp: royalties_sync_def spends_def eth_value_def Let_def split: option.splits)
  moreover have "spends (lp_sync subj l perms) = 0" for l
    by (auto simp: lp_sync_def spends_def eth_value_def Let_def split: option.splits)
  ultimately show ?thesis by (simp add: config_sync_def)
qed

lemma spends_royalties_step: "royalties_step subj config delegated perms = (rs, pl) \<Longrightarrow> spends rs = 0"
  by (auto simp: royalties_step_def spends_def eth_value_def Let_def split: if_splits)

lemma spends_withdraw_step [simp]: "spends (withdraw_step subj config caller delegated perms p) = 0"
  by (simp add: withdraw_step_def withdraw_refund_def withdraw_king_def spends_def eth_value_def Let_def)

lemma spends_furnace_step:
  "furnace_step snap subj config caller delegated perms = Some as \<Longrightarrow>
   0 \<le> spends as \<and> spends as \<le> cc_ethBalance caller \<and> spends as = pc_furnaceEthIn config
   \<and> \<not> sn_lockingPaused snap"
  by (auto simp: furnace_step_def spends_def eth_value_def Let_def split: if_splits)

lemma spends_takeover_step:
  "as = takeover_step snap subj config l nowMs caller delegated perms \<Longrightarrow>
   spends as = 0 \<or> 0 < spends as \<and> spends as \<le> cc_ethBalance caller
     \<and> spends as \<le> pc_maxTakeoverEth config \<and> spends as = sn_currentTakeoverPrice snap"
  by (auto simp: takeover_step_def spends_def eth_value_def Let_def)

text \<open>
  C40. The ETH that a plan sends never exceeds what the paying caller holds, and it is either
  nothing, the configured Furnace entry, or the current takeover price within the configured maximum:
  one plan never pays for both.
\<close>

theorem plan_spending_bounded:
  assumes user: "sn_user snap = Some subj"
    and caller: "caller = (case callerOpt of Some c \<Rightarrow> c | None \<Rightarrow> default_caller subj)"
    and funds: "0 \<le> cc_ethBalance caller"
    and total: "spent = spends (buildActionPlan snap config l nowMs wallSec callerOpt delegation)"
  shows "spent \<le> cc_ethBalance caller
    \<and> (spent = 0 \<or> spent = pc_furnaceEthIn config \<and> \<not> sn_lockingPaused snap
       \<or> spent = sn_currentTakeoverPrice snap \<and> spent \<le> pc_maxTakeoverEth config)"
proof -
  define delegated where "delegated = (\<not> sameAddress (cc_address caller) (su_address subj))"
  define active where "active = isDelegationActive delegation (Some (sn_blockTimestamp snap)) wallSec"
  define perms where "perms = (if delegated \<and> active
      then (case delegation of Some d \<Rightarrow> dc_perms d | None \<Rightarrow> 0) else 0)"
  obtain rs pl where roy: "royalties_step subj config delegated perms = (rs, pl)" by fastforce
  show ?thesis
    using funds spends_furnace_step [of snap subj config caller delegated perms]
      spends_takeover_step [OF refl, of snap subj config l nowMs caller delegated perms]
      spends_royalties_step [OF roy]
    unfolding total buildActionPlan_def user option.case Let_def caller [symmetric]
      delegated_def [symmetric] active_def [symmetric] perms_def [symmetric] roy prod.case
    by (auto split: option.splits)
qed

lemma plan_spending_bounded_witness:
  "spends (buildActionPlan sample_snapshot sample_config None 0 0 (Some sample_caller) (Some sample_session))
     \<le> 100"
proof -
  have funds: "0 \<le> cc_ethBalance sample_caller" and user: "sn_user sample_snapshot = Some sample_subject"
    by (simp_all add: sample_defs)
  show ?thesis
    using plan_spending_bounded [OF user _ funds refl, of "Some sample_caller" sample_config None 0 0
        "Some sample_session"]
    by (simp add: sample_caller_def)
qed

text \<open>
  With a session that grants both, a claimable amount over the threshold and a king bucket over
  its threshold, the plan withdraws the user's king bucket twice: by the bundle \<open>claimAllFor\<close>, which
  itself withdraws the bucket, and again by \<open>withdrawKingBalanceForUser\<close>.
\<close>

theorem king_bucket_planned_twice:
  assumes user: "sn_user snap = Some subj"
    and del: "\<not> sameAddress (cc_address c) (su_address subj)"
    and session: "isDelegationActive (Some d) (Some (sn_blockTimestamp snap)) wallSec"
    and perms: "hasPerm (dc_perms d) P_CLAIM_ALL_FOR" "hasPerm (dc_perms d) P_WITHDRAW_KING_BUCKET_FOR"
    and config: "pc_kingAutoLockDesired config = None" "pc_royaltiesAutoCompoundDesired config = None"
      "pc_lpAutoCompoundDesired config = None" "pc_enableFurnaceEntry config = False"
      "pc_enableRoyaltiesClaim config" "pc_enableWithdrawals config"
    and claim: "0 < su_claimable subj" "pc_minRoyaltiesEthToClaim config \<le> su_claimable subj"
    and king: "0 < su_kingEthBalance subj" "pc_minKingEthToWithdraw config \<le> su_kingEthBalance subj"
    and plan: "plan = buildActionPlan snap config l nowMs wallSec (Some c) (Some d)"
  shows "ClaimAllHelper_claimAllFor (su_address subj) (su_claimable subj) 0 0 0 False 0 \<in> set plan
    \<and> ClaimAllHelper_withdrawKingBalanceForUser (su_address subj) (su_kingEthBalance subj) \<in> set plan"
  using assms
  by (simp add: buildActionPlan_def Let_def furnace_step_def royalties_step_def withdraw_step_def)

lemma king_bucket_planned_twice_witness:
  "ClaimAllHelper_withdrawKingBalanceForUser ''0xaa'' 70 \<in>
     set (buildActionPlan sample_snapshot (sample_config\<lparr>pc_enableFurnaceEntry := False\<rparr>) None 0 0
            (Some sample_caller) (Some sample_session))"
  using king_bucket_planned_twice [of sample_snapshot sample_subject sample_caller sample_session 0
      "sample_config\<lparr>pc_enableFurnaceEntry := False\<rparr>" _ None 0, OF _ _ _ _ _ _ _ _ _ _ _ _ _ _ _ refl]
  by (simp add: sample_defs sample_delegated isDelegationActive_def hasPerm_def)

end
