(* ===== verification/ActionSecurity.thy ===== *)
theory ActionSecurity
  imports Policy
begin

text \<open>
  What an action passes before it is executed (\<open>src/agents/sdk/src/agent/actionSecurity.ts\<close>, \<open>executorHelpers.ts\<close> and
  the head of \<open>executeAgentAction\<close> in \<open>executorImpl.ts\<close>): the private route, the security policy of the operator and
  the delegation session.

  \<^item> \<open>action_fields\<close> are the fields of an action under their names, as the checks that run over them see them.
  \<^item> \<open>isAddress\<close> is viem's check of an address, an argument. A call that throws is \<open>Sec_type_error\<close>.
  \<^item> The texts and details of errors are dropped; an error names its field.
\<close>

section \<open>The fields of an action\<close>

datatype field_value = F_big int | F_num int | F_bool bool | F_text string

primrec action_kind :: "agent_action \<Rightarrow> string" where
  "action_kind (Furnace_enterWithEth ethIn targetTokenId durationSeconds createAutoMax slippageBps) =
     ''furnace.enterWithEth''"
| "action_kind (Furnace_enterWithEthFor user ethIn targetTokenId durationSeconds createAutoMax slippageBps) =
     ''furnace.enterWithEthFor''"
| "action_kind (Furnace_enterWithClaim claimIn targetTokenId durationSeconds createAutoMax slippageBps) =
     ''furnace.enterWithClaim''"
| "action_kind (Furnace_enterWithClaimFromCallerFor user claimIn targetTokenId durationSeconds createAutoMax slippageBps) =
     ''furnace.enterWithClaimFromCallerFor''"
| "action_kind (Furnace_enterWithToken tokenIn amountIn targetTokenId durationSeconds createAutoMax slippageBps) =
     ''furnace.enterWithToken''"
| "action_kind (Furnace_enterWithTokenFromCallerFor user tokenIn amountIn targetTokenId durationSeconds createAutoMax slippageBps) =
     ''furnace.enterWithTokenFromCallerFor''"
| "action_kind (MineCore_takeover price) = ''mineCore.takeover''"
| "action_kind (MineCore_takeoverFor newKing price) = ''mineCore.takeoverFor''"
| "action_kind (MineCore_takeoverWithToken tokenIn amountIn slippageBps) = ''mineCore.takeoverWithToken''"
| "action_kind (MineCore_setCurrentReignRecipients ethRecipient claimRecipient) =
     ''mineCore.setCurrentReignRecipients''"
| "action_kind (MineCore_setKingAutoLockConfig enabled targetTokenId durationSeconds createAutoMax minVeOut) =
     ''mineCore.setKingAutoLockConfig''"
| "action_kind (Royalties_claimShareholderEth claimable) = ''royalties.claimShareholderEth''"
| "action_kind (Royalties_claimShareholderLock targetTokenId durationSeconds createAutoMax slippageBps) =
     ''royalties.claimShareholderLock''"
| "action_kind (Royalties_setAutoCompoundConfig enabled tokenId durationSeconds minCadenceSeconds minEthToCompound) =
     ''royalties.setAutoCompoundConfig''"
| "action_kind (ClaimAllHelper_claimShareholderForUser user claimable mode targetTokenId durationSeconds createAutoMax minVeOut) =
     ''claimAllHelper.claimShareholderForUser''"
| "action_kind (ClaimAllHelper_withdrawKingBalanceForUser user amount) =
     ''claimAllHelper.withdrawKingBalanceForUser''"
| "action_kind (ClaimAllHelper_claimAllFor user claimable mode targetTokenId durationSeconds createAutoMax minVeOut) =
     ''claimAllHelper.claimAllFor''"
| "action_kind (MineCore_withdrawKingBalance amount) = ''mineCore.withdrawKingBalance''"
| "action_kind (MineCore_withdrawRefundBalance amount to) = ''mineCore.withdrawRefundBalance''"
| "action_kind (MarketRouter_sellLockToFurnace tokenId slippageBps deadlineSeconds) =
     ''marketRouter.sellLockToFurnace''"
| "action_kind (MarketRouter_sellListedLockToFurnace tokenId deadlineSeconds) =
     ''marketRouter.sellListedLockToFurnace''"
| "action_kind (MarketRouter_listLock tokenId minClaimOut ttlSeconds) = ''marketRouter.listLock''"
| "action_kind (MarketRouter_delistLock tokenId) = ''marketRouter.delistLock''"
| "action_kind (MarketRouter_cancelExpiredListing tokenId) = ''marketRouter.cancelExpiredListing''"
| "action_kind (MarketRouter_createBonusTargetEscrowWithTarget targetBonusBps budgetClaim durationSeconds createAutoMax escrowTtlSeconds destinationLockId slippageBps) =
     ''marketRouter.createBonusTargetEscrowWithTarget''"
| "action_kind (MarketRouter_cancelBonusTargetEscrow offerId) = ''marketRouter.cancelBonusTargetEscrow''"
| "action_kind (MarketRouter_extendBonusTargetEscrowExpiry offerId ttlSecondsFromNow) =
     ''marketRouter.extendBonusTargetEscrowExpiry''"
| "action_kind (MarketRouter_cancelExpiredBonusTargetEscrow offerId) =
     ''marketRouter.cancelExpiredBonusTargetEscrow''"
| "action_kind (MarketRouter_executeAutoFurnace offerId) = ''marketRouter.executeAutoFurnace''"
| "action_kind (Erc20_approve token spender amount) = ''erc20.approve''"
| "action_kind (Erc20_ensureAllowance token spender minAllowance approveAmount) = ''erc20.ensureAllowance''"
| "action_kind (Ve_approve spender tokenId) = ''ve.approve''"
| "action_kind (Ve_setApprovalForAll operator approved) = ''ve.setApprovalForAll''"
| "action_kind (Furnace_extendWithBonus tokenId durationSeconds minBonusOut) = ''furnace.extendWithBonus''"
| "action_kind (Furnace_extendWithBonusFor user tokenId durationSeconds minBonusOut) = ''furnace.extendWithBonusFor''"
| "action_kind (Furnace_mergeLocksWithBonus fromTokenId intoTokenId minBonusOut) = ''furnace.mergeLocksWithBonus''"
| "action_kind (Ve_unlock tokenId) = ''ve.unlock''"
| "action_kind (Ve_setAutoMax tokenId enabled) = ''ve.setAutoMax''"
| "action_kind Ve_checkpointGlobalState = ''ve.checkpointGlobalState''"
| "action_kind Ve_checkpointTotalVe = ''ve.checkpointTotalVe''"
| "action_kind (Furnace_mergeLocksWithBonusFor user fromTokenId intoTokenId minBonusOut) =
     ''furnace.mergeLocksWithBonusFor''"
| "action_kind (Ve_unlockExpiredForUser user tokenId) = ''ve.unlockExpiredForUser''"
| "action_kind (MineCore_setKingAutoLockConfigForUser user enabled targetTokenId durationSeconds createAutoMax minVeOut) =
     ''mineCore.setKingAutoLockConfigForUser''"
| "action_kind (Royalties_setAutoCompoundConfigForUser user enabled tokenId durationSeconds minCadenceSeconds minEthToCompound) =
     ''royalties.setAutoCompoundConfigForUser''"
| "action_kind (LpVault_setAutoCompoundConfigForUser user enabled tokenId durationSeconds) =
     ''lpVault.setAutoCompoundConfigForUser''"

primrec action_fields :: "agent_action \<Rightarrow> (string \<times> field_value) list" where
  "action_fields (Furnace_enterWithEth ethIn targetTokenId durationSeconds createAutoMax slippageBps) =
     [(''ethIn'', F_big ethIn), (''targetTokenId'', F_big targetTokenId),
      (''durationSeconds'', F_big durationSeconds), (''createAutoMax'', F_bool createAutoMax),
      (''slippageBps'', F_big slippageBps)]"
| "action_fields (Furnace_enterWithEthFor user ethIn targetTokenId durationSeconds createAutoMax slippageBps) =
     [(''user'', F_text user), (''ethIn'', F_big ethIn), (''targetTokenId'', F_big targetTokenId),
      (''durationSeconds'', F_big durationSeconds), (''createAutoMax'', F_bool createAutoMax),
      (''slippageBps'', F_big slippageBps)]"
| "action_fields (Furnace_enterWithClaim claimIn targetTokenId durationSeconds createAutoMax slippageBps) =
     [(''claimIn'', F_big claimIn), (''targetTokenId'', F_big targetTokenId),
      (''durationSeconds'', F_big durationSeconds), (''createAutoMax'', F_bool createAutoMax),
      (''slippageBps'', F_big slippageBps)]"
| "action_fields (Furnace_enterWithClaimFromCallerFor user claimIn targetTokenId durationSeconds createAutoMax slippageBps) =
     [(''user'', F_text user), (''claimIn'', F_big claimIn), (''targetTokenId'', F_big targetTokenId),
      (''durationSeconds'', F_big durationSeconds), (''createAutoMax'', F_bool createAutoMax),
      (''slippageBps'', F_big slippageBps)]"
| "action_fields (Furnace_enterWithToken tokenIn amountIn targetTokenId durationSeconds createAutoMax slippageBps) =
     [(''tokenIn'', F_text tokenIn), (''amountIn'', F_big amountIn), (''targetTokenId'', F_big targetTokenId),
      (''durationSeconds'', F_big durationSeconds), (''createAutoMax'', F_bool createAutoMax),
      (''slippageBps'', F_big slippageBps)]"
| "action_fields (Furnace_enterWithTokenFromCallerFor user tokenIn amountIn targetTokenId durationSeconds createAutoMax slippageBps) =
     [(''user'', F_text user), (''tokenIn'', F_text tokenIn), (''amountIn'', F_big amountIn),
      (''targetTokenId'', F_big targetTokenId), (''durationSeconds'', F_big durationSeconds),
      (''createAutoMax'', F_bool createAutoMax), (''slippageBps'', F_big slippageBps)]"
| "action_fields (MineCore_takeover price) =
     [(''price'', F_big price)]"
| "action_fields (MineCore_takeoverFor newKing price) =
     [(''newKing'', F_text newKing), (''price'', F_big price)]"
| "action_fields (MineCore_takeoverWithToken tokenIn amountIn slippageBps) =
     [(''tokenIn'', F_text tokenIn), (''amountIn'', F_big amountIn), (''slippageBps'', F_big slippageBps)]"
| "action_fields (MineCore_setCurrentReignRecipients ethRecipient claimRecipient) =
     [(''ethRecipient'', F_text ethRecipient), (''claimRecipient'', F_text claimRecipient)]"
| "action_fields (MineCore_setKingAutoLockConfig enabled targetTokenId durationSeconds createAutoMax minVeOut) =
     [(''enabled'', F_bool enabled), (''targetTokenId'', F_big targetTokenId),
      (''durationSeconds'', F_big durationSeconds), (''createAutoMax'', F_bool createAutoMax),
      (''minVeOut'', F_big minVeOut)]"
| "action_fields (Royalties_claimShareholderEth claimable) =
     [(''claimable'', F_big claimable)]"
| "action_fields (Royalties_claimShareholderLock targetTokenId durationSeconds createAutoMax slippageBps) =
     [(''targetTokenId'', F_big targetTokenId), (''durationSeconds'', F_big durationSeconds),
      (''createAutoMax'', F_bool createAutoMax), (''slippageBps'', F_big slippageBps)]"
| "action_fields (Royalties_setAutoCompoundConfig enabled tokenId durationSeconds minCadenceSeconds minEthToCompound) =
     [(''enabled'', F_bool enabled), (''tokenId'', F_big tokenId), (''durationSeconds'', F_big durationSeconds),
      (''minCadenceSeconds'', F_big minCadenceSeconds), (''minEthToCompound'', F_big minEthToCompound)]"
| "action_fields (ClaimAllHelper_claimShareholderForUser user claimable mode targetTokenId durationSeconds createAutoMax minVeOut) =
     [(''user'', F_text user), (''claimable'', F_big claimable), (''mode'', F_num mode),
      (''targetTokenId'', F_big targetTokenId), (''durationSeconds'', F_big durationSeconds),
      (''createAutoMax'', F_bool createAutoMax), (''minVeOut'', F_big minVeOut)]"
| "action_fields (ClaimAllHelper_withdrawKingBalanceForUser user amount) =
     [(''user'', F_text user), (''amount'', F_big amount)]"
| "action_fields (ClaimAllHelper_claimAllFor user claimable mode targetTokenId durationSeconds createAutoMax minVeOut) =
     [(''user'', F_text user), (''claimable'', F_big claimable), (''mode'', F_num mode),
      (''targetTokenId'', F_big targetTokenId), (''durationSeconds'', F_big durationSeconds),
      (''createAutoMax'', F_bool createAutoMax), (''minVeOut'', F_big minVeOut)]"
| "action_fields (MineCore_withdrawKingBalance amount) =
     [(''amount'', F_big amount)]"
| "action_fields (MineCore_withdrawRefundBalance amount to) =
     [(''amount'', F_big amount), (''to'', F_text to)]"
| "action_fields (MarketRouter_sellLockToFurnace tokenId slippageBps deadlineSeconds) =
     [(''tokenId'', F_big tokenId), (''slippageBps'', F_big slippageBps), (''deadlineSeconds'', F_big deadlineSeconds)]"
| "action_fields (MarketRouter_sellListedLockToFurnace tokenId deadlineSeconds) =
     [(''tokenId'', F_big tokenId), (''deadlineSeconds'', F_big deadlineSeconds)]"
| "action_fields (MarketRouter_listLock tokenId minClaimOut ttlSeconds) =
     [(''tokenId'', F_big tokenId), (''minClaimOut'', F_big minClaimOut), (''ttlSeconds'', F_big ttlSeconds)]"
| "action_fields (MarketRouter_delistLock tokenId) =
     [(''tokenId'', F_big tokenId)]"
| "action_fields (MarketRouter_cancelExpiredListing tokenId) =
     [(''tokenId'', F_big tokenId)]"
| "action_fields (MarketRouter_createBonusTargetEscrowWithTarget targetBonusBps budgetClaim durationSeconds createAutoMax escrowTtlSeconds destinationLockId slippageBps) =
     [(''targetBonusBps'', F_big targetBonusBps), (''budgetClaim'', F_big budgetClaim),
      (''durationSeconds'', F_big durationSeconds), (''createAutoMax'', F_bool createAutoMax),
      (''escrowTtlSeconds'', F_big escrowTtlSeconds), (''destinationLockId'', F_big destinationLockId),
      (''slippageBps'', F_big slippageBps)]"
| "action_fields (MarketRouter_cancelBonusTargetEscrow offerId) =
     [(''offerId'', F_big offerId)]"
| "action_fields (MarketRouter_extendBonusTargetEscrowExpiry offerId ttlSecondsFromNow) =
     [(''offerId'', F_big offerId), (''ttlSecondsFromNow'', F_big ttlSecondsFromNow)]"
| "action_fields (MarketRouter_cancelExpiredBonusTargetEscrow offerId) =
     [(''offerId'', F_big offerId)]"
| "action_fields (MarketRouter_executeAutoFurnace offerId) =
     [(''offerId'', F_big offerId)]"
| "action_fields (Erc20_approve token spender amount) =
     [(''token'', F_text token), (''spender'', F_text spender), (''amount'', F_big amount)]"
| "action_fields (Erc20_ensureAllowance token spender minAllowance approveAmount) =
     [(''token'', F_text token), (''spender'', F_text spender), (''minAllowance'', F_big minAllowance),
      (''approveAmount'', F_big approveAmount)]"
| "action_fields (Ve_approve spender tokenId) =
     [(''spender'', F_text spender), (''tokenId'', F_big tokenId)]"
| "action_fields (Ve_setApprovalForAll operator approved) =
     [(''operator'', F_text operator), (''approved'', F_bool approved)]"
| "action_fields (Furnace_extendWithBonus tokenId durationSeconds minBonusOut) =
     [(''tokenId'', F_big tokenId), (''durationSeconds'', F_big durationSeconds), (''minBonusOut'', F_big minBonusOut)]"
| "action_fields (Furnace_extendWithBonusFor user tokenId durationSeconds minBonusOut) =
     [(''user'', F_text user), (''tokenId'', F_big tokenId), (''durationSeconds'', F_big durationSeconds),
      (''minBonusOut'', F_big minBonusOut)]"
| "action_fields (Furnace_mergeLocksWithBonus fromTokenId intoTokenId minBonusOut) =
     [(''fromTokenId'', F_big fromTokenId), (''intoTokenId'', F_big intoTokenId), (''minBonusOut'', F_big minBonusOut)]"
| "action_fields (Ve_unlock tokenId) =
     [(''tokenId'', F_big tokenId)]"
| "action_fields (Ve_setAutoMax tokenId enabled) =
     [(''tokenId'', F_big tokenId), (''enabled'', F_bool enabled)]"
| "action_fields Ve_checkpointGlobalState =
     []"
| "action_fields Ve_checkpointTotalVe =
     []"
| "action_fields (Furnace_mergeLocksWithBonusFor user fromTokenId intoTokenId minBonusOut) =
     [(''user'', F_text user), (''fromTokenId'', F_big fromTokenId), (''intoTokenId'', F_big intoTokenId),
      (''minBonusOut'', F_big minBonusOut)]"
| "action_fields (Ve_unlockExpiredForUser user tokenId) =
     [(''user'', F_text user), (''tokenId'', F_big tokenId)]"
| "action_fields (MineCore_setKingAutoLockConfigForUser user enabled targetTokenId durationSeconds createAutoMax minVeOut) =
     [(''user'', F_text user), (''enabled'', F_bool enabled), (''targetTokenId'', F_big targetTokenId),
      (''durationSeconds'', F_big durationSeconds), (''createAutoMax'', F_bool createAutoMax),
      (''minVeOut'', F_big minVeOut)]"
| "action_fields (Royalties_setAutoCompoundConfigForUser user enabled tokenId durationSeconds minCadenceSeconds minEthToCompound) =
     [(''user'', F_text user), (''enabled'', F_bool enabled), (''tokenId'', F_big tokenId),
      (''durationSeconds'', F_big durationSeconds), (''minCadenceSeconds'', F_big minCadenceSeconds),
      (''minEthToCompound'', F_big minEthToCompound)]"
| "action_fields (LpVault_setAutoCompoundConfigForUser user enabled tokenId durationSeconds) =
     [(''user'', F_text user), (''enabled'', F_bool enabled), (''tokenId'', F_big tokenId),
      (''durationSeconds'', F_big durationSeconds)]"

section \<open>The security policy\<close>

text \<open>The options, with their defaults where the code fills them in at once.\<close>

record agent_security =
  as_enabled :: bool
  as_allowedActionKinds :: "string list"
  as_deniedActionKinds :: "string list"
  as_delegatedUserAllowlist :: "string list"
  as_allowAnyDelegatedUser :: bool
  as_approvalSpenderAllowlist :: "string list option"
  as_allowAnyApprovalSpender :: bool
  as_nftOperatorAllowlist :: "string list option"
  as_allowAnyNftOperator :: bool
  as_allowThirdPartyWithdrawals :: bool
  as_withdrawalRecipientAllowlist :: "string list"
  as_maxCallValueWei :: "int option"
  as_maxApprovalAmount :: "int option"
  as_maxSlippageBps :: "int option"
  as_validateInputs :: bool
  as_allowLargeSeconds :: bool

text \<open>\<open>params.security ?? {}\<close> when no policy is given.\<close>

definition default_security :: agent_security where
  "default_security = \<lparr>as_enabled = True, as_allowedActionKinds = [], as_deniedActionKinds = [], as_delegatedUserAllowlist = [],
     as_allowAnyDelegatedUser = False, as_approvalSpenderAllowlist = None, as_allowAnyApprovalSpender = False,
     as_nftOperatorAllowlist = None, as_allowAnyNftOperator = False, as_allowThirdPartyWithdrawals = False,
     as_withdrawalRecipientAllowlist = [], as_maxCallValueWei = None, as_maxApprovalAmount = None, as_maxSlippageBps = None,
     as_validateInputs = True, as_allowLargeSeconds = False\<rparr>"

datatype denial =
  Kind_not_allowed | Kind_denied | Bad_address string | Negative_bigint string | Bps_too_large string int
| Seconds_too_large string | Bad_claim_mode int | Delegated_out_of_scope | Call_value_too_large | Spender_not_allowed
| Approval_too_large | Nft_operator_not_allowed | Zero_recipient | Recipient_not_allowed

datatype security_result = Sec_ok | Sec_denied denial | Sec_type_error

definition UINT32_MAX :: int where
  "UINT32_MAX = 4294967295"

fun uniqAddrs :: "string list \<Rightarrow> string list \<Rightarrow> string list" where
  "uniqAddrs seen [] = []"
| "uniqAddrs seen (a # as) =
     (let s = toLowerCase a in
      if s = [] \<or> s \<in> set seen then uniqAddrs seen as else s # uniqAddrs (s # seen) as)"

definition includesAddr :: "string list \<Rightarrow> string \<Rightarrow> bool" where
  "includesAddr l addr \<longleftrightarrow> (\<exists>a \<in> set l. toLowerCase a = toLowerCase addr)"

definition isActionKindAllowed :: "string \<Rightarrow> agent_security \<Rightarrow> denial option" where
  "isActionKindAllowed kind sec =
     (let allowed = filter (\<lambda>k. k \<noteq> []) (as_allowedActionKinds sec);
          denied = filter (\<lambda>k. k \<noteq> []) (as_deniedActionKinds sec)
      in if allowed \<noteq> [] \<and> kind \<notin> set allowed then Some Kind_not_allowed
         else if denied \<noteq> [] \<and> kind \<in> set denied then Some Kind_denied
         else None)"

definition addressKeys :: "string list" where
  "addressKeys = [''user'', ''tokenIn'', ''newKing'', ''ethRecipient'', ''claimRecipient'', ''to'', ''token'', ''spender'', ''operator'']"

definition bad_address :: "(string \<Rightarrow> bool) \<Rightarrow> agent_action \<Rightarrow> string option" where
  "bad_address isAddress a =
     List.find (\<lambda>k. case map_of (action_fields a) k of
       None \<Rightarrow> False | Some (F_text t) \<Rightarrow> \<not> isAddress t | Some _ \<Rightarrow> True) addressKeys"

definition check_bigint :: "agent_security \<Rightarrow> string \<Rightarrow> int \<Rightarrow> denial option" where
  "check_bigint sec k v =
     (if v < 0 then Some (Negative_bigint k)
      else let configured = (if k = ''slippageBps'' then (case as_maxSlippageBps sec of Some m \<Rightarrow> m | None \<Rightarrow> 10000) else 10000);
               limit = (if configured > 10000 then 10000 else configured)
           in if js_endsWith k ''Bps'' \<and> v > limit then Some (Bps_too_large k limit)
              else if \<not> as_allowLargeSeconds sec \<and> js_includes k ''Seconds'' \<and> v > UINT32_MAX then Some (Seconds_too_large k)
              else None)"

fun check_fields :: "agent_security \<Rightarrow> (string \<times> field_value) list \<Rightarrow> denial option" where
  "check_fields sec [] = None"
| "check_fields sec ((k, F_big v) # fs) = (case check_bigint sec k v of Some e \<Rightarrow> Some e | None \<Rightarrow> check_fields sec fs)"
| "check_fields sec (_ # fs) = check_fields sec fs"

definition bad_mode :: "agent_action \<Rightarrow> denial option" where
  "bad_mode a =
     (case a of
        ClaimAllHelper_claimShareholderForUser _ _ mode _ _ _ _ \<Rightarrow> if mode \<noteq> 0 \<and> mode \<noteq> 1 then Some (Bad_claim_mode mode) else None
      | ClaimAllHelper_claimAllFor _ _ mode _ _ _ _ \<Rightarrow> if mode \<noteq> 0 \<and> mode \<noteq> 1 then Some (Bad_claim_mode mode) else None
      | _ \<Rightarrow> None)"

definition validateActionShape :: "(string \<Rightarrow> bool) \<Rightarrow> agent_action \<Rightarrow> agent_security \<Rightarrow> denial option" where
  "validateActionShape isAddress a sec =
     (if \<not> as_validateInputs sec then None
      else case bad_address isAddress a of
             Some k \<Rightarrow> Some (Bad_address k)
           | None \<Rightarrow> (case check_fields sec (action_fields a) of
                       Some e \<Rightarrow> Some e
                     | None \<Rightarrow> bad_mode a))"

definition callValueForAction :: "agent_action \<Rightarrow> int option" where
  "callValueForAction a =
     (case a of
        MineCore_takeover price \<Rightarrow> Some price
      | MineCore_takeoverFor _ price \<Rightarrow> Some price
      | Furnace_enterWithEth ethIn _ _ _ _ \<Rightarrow> Some ethIn
      | Furnace_enterWithEthFor _ ethIn _ _ _ _ \<Rightarrow> Some ethIn
      | _ \<Rightarrow> None)"

definition delegated_denied :: "agent_security \<Rightarrow> string option \<Rightarrow> bool" where
  "delegated_denied sec delegatedUser \<longleftrightarrow>
     (case delegatedUser of
        None \<Rightarrow> False
      | Some u \<Rightarrow> \<not> as_allowAnyDelegatedUser sec \<and> u \<noteq> []
          \<and> (as_delegatedUserAllowlist sec = [] \<or> \<not> includesAddr (as_delegatedUserAllowlist sec) u))"

definition value_denied :: "agent_security \<Rightarrow> agent_action \<Rightarrow> bool" where
  "value_denied sec a \<longleftrightarrow>
     (case (callValueForAction a, as_maxCallValueWei sec) of (Some v, Some cap) \<Rightarrow> v > cap | _ \<Rightarrow> False)"

definition approval_denied :: "agent_security \<Rightarrow> string list \<Rightarrow> agent_action \<Rightarrow> denial option" where
  "approval_denied sec manifestAddrs a =
     (let spenderAllow = (case as_approvalSpenderAllowlist sec of Some l \<Rightarrow> l | None \<Rightarrow> uniqAddrs [] manifestAddrs);
          nftAllow = (case as_nftOperatorAllowlist sec of Some l \<Rightarrow> l | None \<Rightarrow> spenderAllow);
          gate = (\<lambda>spender amount.
            if \<not> as_allowAnyApprovalSpender sec \<and> \<not> includesAddr spenderAllow spender then Some Spender_not_allowed
            else case as_maxApprovalAmount sec of
                   Some cap \<Rightarrow> if amount > cap then Some Approval_too_large else None
                 | None \<Rightarrow> None);
          nft = (\<lambda>operator.
            if \<not> as_allowAnyNftOperator sec \<and> \<not> includesAddr nftAllow operator then Some Nft_operator_not_allowed else None)
      in case a of
           Erc20_approve _ spender amount \<Rightarrow> gate spender amount
         | Erc20_ensureAllowance _ spender _ approveAmount \<Rightarrow> gate spender approveAmount
         | Ve_approve spender _ \<Rightarrow> nft spender
         | Ve_setApprovalForAll operator _ \<Rightarrow> nft operator
         | _ \<Rightarrow> None)"

definition zeroAddress :: string where
  "zeroAddress = ''0x'' @ replicate 40 CHR ''0''"

text \<open>A recipient that is not there is \<open>None\<close>: lowering it throws.\<close>

definition recipient_check :: "agent_security \<Rightarrow> string \<Rightarrow> string option \<Rightarrow> security_result" where
  "recipient_check sec signer recipient =
     (case recipient of
        None \<Rightarrow> Sec_type_error
      | Some t \<Rightarrow>
          if toLowerCase t = toLowerCase zeroAddress then Sec_denied Zero_recipient
          else if \<not> as_allowThirdPartyWithdrawals sec \<and> toLowerCase t \<noteq> toLowerCase signer
            \<and> \<not> (as_withdrawalRecipientAllowlist sec \<noteq> [] \<and> includesAddr (as_withdrawalRecipientAllowlist sec) t)
          then Sec_denied Recipient_not_allowed
          else Sec_ok)"

definition to_field :: "agent_action \<Rightarrow> string option" where
  "to_field a = (case map_of (action_fields a) ''to'' of Some (F_text t) \<Rightarrow> Some t | _ \<Rightarrow> None)"

definition withdrawal_check :: "agent_security \<Rightarrow> string \<Rightarrow> agent_action \<Rightarrow> security_result" where
  "withdrawal_check sec signer a =
     (case a of
        MineCore_withdrawKingBalance _ \<Rightarrow> recipient_check sec signer (to_field a)
      | MineCore_withdrawRefundBalance _ _ \<Rightarrow> recipient_check sec signer (to_field a)
      | _ \<Rightarrow> Sec_ok)"

definition checkAgentActionSecurity ::
  "(string \<Rightarrow> bool) \<Rightarrow> string list \<Rightarrow> string \<Rightarrow> agent_security \<Rightarrow> string option \<Rightarrow> agent_action \<Rightarrow> security_result" where
  "checkAgentActionSecurity isAddress manifestAddrs signer sec delegatedUser a =
     (if \<not> as_enabled sec then Sec_ok
      else case isActionKindAllowed (action_kind a) sec of
             Some e \<Rightarrow> Sec_denied e
           | None \<Rightarrow> (case validateActionShape isAddress a sec of
               Some e \<Rightarrow> Sec_denied e
             | None \<Rightarrow>
                 if delegated_denied sec delegatedUser then Sec_denied Delegated_out_of_scope
                 else if value_denied sec a then Sec_denied Call_value_too_large
                 else (case approval_denied sec manifestAddrs a of
                         Some e \<Rightarrow> Sec_denied e
                       | None \<Rightarrow> withdrawal_check sec signer a)))"

section \<open>The private route\<close>

datatype rpc_mode = Mode_off | Mode_route | Mode_only

definition isPrivateTxAllowed :: "agent_action \<Rightarrow> bool" where
  "isPrivateTxAllowed a \<longleftrightarrow>
     (case a of
        MineCore_takeover _ \<Rightarrow> True | MineCore_takeoverFor _ _ \<Rightarrow> True | MineCore_takeoverWithToken _ _ _ \<Rightarrow> True
      | Furnace_enterWithEth _ _ _ _ _ \<Rightarrow> True | Furnace_enterWithEthFor _ _ _ _ _ _ \<Rightarrow> True
      | Furnace_enterWithToken _ _ _ _ _ _ \<Rightarrow> True | Furnace_enterWithTokenFromCallerFor _ _ _ _ _ _ _ \<Rightarrow> True
      | Furnace_enterWithClaim _ _ _ _ _ \<Rightarrow> True | Furnace_enterWithClaimFromCallerFor _ _ _ _ _ _ \<Rightarrow> True
      | Royalties_claimShareholderLock _ _ _ _ \<Rightarrow> True
      | MarketRouter_sellLockToFurnace _ _ _ \<Rightarrow> True | MarketRouter_sellListedLockToFurnace _ _ \<Rightarrow> True
      | MarketRouter_executeAutoFurnace _ \<Rightarrow> True
      | ClaimAllHelper_claimShareholderForUser _ _ mode _ _ _ _ \<Rightarrow> mode = 1
      | ClaimAllHelper_claimAllFor _ _ mode _ _ _ _ \<Rightarrow> mode = 1
      | _ \<Rightarrow> False)"

text \<open>\<open>None\<close>: blocked; otherwise whether the private client is used.\<close>

definition pickWalletClientForAction :: "bool \<Rightarrow> rpc_mode option \<Rightarrow> agent_action \<Rightarrow> bool option" where
  "pickWalletClientForAction havePrivate privateRpcMode a =
     (let mode = (if havePrivate then (case privateRpcMode of Some m \<Rightarrow> m | None \<Rightarrow> Mode_route) else Mode_off);
          allowed = isPrivateTxAllowed a
      in if mode = Mode_only \<and> \<not> allowed then None
         else if mode \<noteq> Mode_off \<and> allowed \<and> havePrivate then Some True
         else Some False)"

section \<open>The head of the executor\<close>

record exec_context =
  ex_havePrivate :: bool
  ex_privateRpcMode :: "rpc_mode option"
  ex_execute :: bool
  ex_manifestAddrs :: "string list"
  ex_signer :: string
  ex_security :: "agent_security option"
  ex_haveHub :: bool
  ex_session :: "string \<Rightarrow> (int \<times> int \<times> int) option"   \<comment> \<open>perms, expiry, time of the block; \<open>None\<close>: a read throws\<close>

datatype preflight =
  Route_blocked
| Security_denied denial
| Security_throws
| Hub_missing
| Session_unreadable
| Session_inactive
| Perms_missing int
| Proceed bool   \<comment> \<open>whether through the private client\<close>

definition session_check :: "exec_context \<Rightarrow> delegation_requirement \<Rightarrow> bool \<Rightarrow> preflight" where
  "session_check cx req route =
     (if \<not> ex_haveHub cx then Hub_missing
      else case ex_session cx (dr_user req) of
             None \<Rightarrow> Session_unreadable
           | Some (perms, expiry, now) \<Rightarrow>
               (let active = (expiry \<noteq> 0 \<and> expiry \<ge> now);
                    granted = perms AND dr_requiredPerms req;
                    missing = dr_requiredPerms req XOR granted
                in if \<not> active then Session_inactive
                   else if missing \<noteq> 0 then Perms_missing missing
                   else Proceed route))"

definition executePreflight :: "(string \<Rightarrow> bool) \<Rightarrow> exec_context \<Rightarrow> agent_action \<Rightarrow> preflight" where
  "executePreflight isAddress cx a =
     (let route = pickWalletClientForAction (ex_havePrivate cx) (ex_privateRpcMode cx) a;
          req = getDelegationRequirementForAction a;
          sec = (case ex_security cx of Some s \<Rightarrow> s | None \<Rightarrow> default_security)
      in if ex_execute cx \<and> route = None then Route_blocked
         else case checkAgentActionSecurity isAddress (ex_manifestAddrs cx) (ex_signer cx) sec (map_option dr_user req) a of
                Sec_type_error \<Rightarrow> Security_throws
              | Sec_denied e \<Rightarrow> Security_denied e
              | Sec_ok \<Rightarrow>
                  (case req of
                     None \<Rightarrow> Proceed (route = Some True)
                   | Some r \<Rightarrow> session_check cx r (route = Some True)))"

section \<open>Lemmas\<close>

lemma security_ok_parts:
  assumes "checkAgentActionSecurity isAddress addrs signer sec du a = Sec_ok" "as_enabled sec"
  shows "isActionKindAllowed (action_kind a) sec = None" "validateActionShape isAddress a sec = None"
    "\<not> delegated_denied sec du" "\<not> value_denied sec a" "approval_denied sec addrs a = None" "withdrawal_check sec signer a = Sec_ok"
  using assms by (auto simp: checkAgentActionSecurity_def split: option.splits if_splits)

lemma lower_char_idem [simp]: "lower_char (lower_char c) = lower_char c"
proof (cases "65 \<le> (of_char c :: nat) \<and> (of_char c :: nat) \<le> 90")
  case True
  then have "(of_char (char_of (of_char c + 32 :: nat)) :: nat) = of_char c + 32" by simp
  with True show ?thesis by (simp add: lower_char_def Let_def)
next
  case False
  then have "lower_char c = c" by (auto simp: lower_char_def Let_def)
  then show ?thesis by simp
qed

lemma toLowerCase_idem [simp]: "toLowerCase (toLowerCase s) = toLowerCase s"
  by (simp add: toLowerCase_def)

lemma includes_uniqAddrs:
  "includesAddr (uniqAddrs seen l) x \<Longrightarrow> includesAddr l x"
proof (induction seen l rule: uniqAddrs.induct)
  case (2 seen a as)
  then show ?case by (auto simp: includesAddr_def Let_def split: if_splits)
qed simp

lemma check_fields_bigint: "check_fields sec fs = None \<Longrightarrow> (k, F_big v) \<in> set fs \<Longrightarrow> check_bigint sec k v = None"
  by (induction sec fs rule: check_fields.induct) (auto split: option.splits)

lemma bad_address_None:
  assumes "bad_address isAddress a = None" "k \<in> set addressKeys" "map_of (action_fields a) k = Some (F_text t)"
  shows "isAddress t"
  using assms unfolding bad_address_def find_None_iff by fastforce

lemma session_check_Proceed:
  assumes "session_check cx r route = Proceed priv"
  obtains perms expiry now where "ex_session cx (dr_user r) = Some (perms, expiry, now)" "expiry \<noteq> 0" "now \<le> expiry"
    "perms AND dr_requiredPerms r = dr_requiredPerms r" "priv = route"
proof -
  obtain perms expiry now where s: "ex_session cx (dr_user r) = Some (perms, expiry, now)" "expiry \<noteq> 0" "now \<le> expiry"
    "dr_requiredPerms r XOR (perms AND dr_requiredPerms r) = 0" "priv = route"
    using assms by (auto simp: session_check_def Let_def split: if_splits option.splits)
  have "perms AND dr_requiredPerms r = dr_requiredPerms r"
  proof (rule bit_eqI)
    fix n show "bit (perms AND dr_requiredPerms r) n = bit (dr_requiredPerms r) n"
      using arg_cong [OF s(4), of "\<lambda>x. bit x n"] by (auto simp: bit_simps)
  qed
  then show thesis using s that by blast
qed

definition used_security :: "exec_context \<Rightarrow> agent_security" where
  "used_security cx = (case ex_security cx of Some s \<Rightarrow> s | None \<Rightarrow> default_security)"

definition used_route :: "exec_context \<Rightarrow> agent_action \<Rightarrow> bool option" where
  "used_route cx a = pickWalletClientForAction (ex_havePrivate cx) (ex_privateRpcMode cx) a"

lemma preflight_Proceed:
  assumes "executePreflight isAddress cx a = Proceed priv"
  shows "checkAgentActionSecurity isAddress (ex_manifestAddrs cx) (ex_signer cx) (used_security cx)
      (map_option dr_user (getDelegationRequirementForAction a)) a = Sec_ok"
    and "ex_execute cx \<Longrightarrow> used_route cx a \<noteq> None"
    and "getDelegationRequirementForAction a = None \<Longrightarrow> priv = (used_route cx a = Some True)"
    and "getDelegationRequirementForAction a = Some r \<Longrightarrow> session_check cx r (used_route cx a = Some True) = Proceed priv"
  using assms unfolding executePreflight_def Let_def used_security_def [symmetric] used_route_def [symmetric]
  by (auto split: if_splits security_result.splits)

lemma private_only: "ex_havePrivate cx \<Longrightarrow> ex_privateRpcMode cx = Some Mode_only \<Longrightarrow> used_route cx a \<noteq> None \<Longrightarrow> used_route cx a = Some True"
  by (auto simp: used_route_def pickWalletClientForAction_def Let_def split: if_splits)

lemma preflight_route:
  assumes "executePreflight isAddress cx a = Proceed priv"
  shows "priv = (used_route cx a = Some True)"
  using preflight_Proceed(3,4) [OF assms] session_check_Proceed
  by (cases "getDelegationRequirementForAction a") (auto elim: session_check_Proceed)

lemma kind_permitted:
  "isActionKindAllowed k sec = None \<Longrightarrow>
     ((\<forall>l \<in> set (as_allowedActionKinds sec). l = []) \<or> k \<in> set (as_allowedActionKinds sec))
     \<and> (k \<in> set (as_deniedActionKinds sec) \<longrightarrow> k = [])"
  by (auto simp: isActionKindAllowed_def Let_def filter_empty_conv split: if_splits)

lemma shape_bigint:
  "validateActionShape isAddress a sec = None \<Longrightarrow> as_validateInputs sec \<Longrightarrow> (k, F_big v) \<in> set (action_fields a) \<Longrightarrow>
     check_bigint sec k v = None"
  by (auto simp: validateActionShape_def dest: check_fields_bigint split: option.splits)

lemma check_bigint_bounds:
  "check_bigint sec k v = None \<Longrightarrow> 0 \<le> v \<and> (k = ''slippageBps'' \<longrightarrow> v \<le> 10000)"
  by (auto simp: check_bigint_def js_endsWith_def Let_def split: if_splits option.splits)

section \<open>Properties\<close>


text \<open>The built-in policy plans a withdrawal of the king's balance only for a positive balance.\<close>

lemma no_king_withdrawal:
  "MineCore_withdrawKingBalance x \<notin> set (config_sync subj config perms)"
  "furnace_step snap subj config caller delegated perms = Some as \<Longrightarrow> MineCore_withdrawKingBalance x \<notin> set as"
  "MineCore_withdrawKingBalance x \<notin> set (fst (royalties_step subj config delegated perms))"
  "MineCore_withdrawKingBalance x \<notin> set (takeover_step snap subj config l nowMs caller delegated perms)"
  by (auto simp: config_sync_def king_sync_def royalties_sync_def lp_sync_def furnace_step_def royalties_step_def
    takeover_step_def Let_def split: option.splits if_splits)

lemma king_withdrawal_positive:
  "MineCore_withdrawKingBalance x \<in> set (withdraw_step subj config caller delegated perms p) \<Longrightarrow> 0 < x"
  by (auto simp: withdraw_step_def withdraw_refund_def withdraw_king_def Let_def split: if_splits)

text \<open>Where an action of a plan comes from.\<close>

lemma plan_sources:
  assumes "a \<in> set (buildActionPlan snap config l nowMs wallSec callerOpt delegation)"
  shows "\<exists>subj caller delegated perms p. a \<in> set (config_sync subj config perms)
    \<or> (\<exists>as. furnace_step snap subj config caller delegated perms = Some as \<and> a \<in> set as)
    \<or> a \<in> set (fst (royalties_step subj config delegated perms))
    \<or> a \<in> set (withdraw_step subj config caller delegated perms p)
    \<or> a \<in> set (takeover_step snap subj config l nowMs caller delegated perms)"
proof (cases "sn_user snap")
  case (Some subj)
  define caller where "caller = (case callerOpt of Some c \<Rightarrow> c | None \<Rightarrow> default_caller subj)"
  define delegated where "delegated = (\<not> sameAddress (cc_address caller) (su_address subj))"
  define active where "active = isDelegationActive delegation (Some (sn_blockTimestamp snap)) wallSec"
  define perms where "perms = (if delegated \<and> active
      then (case delegation of Some d \<Rightarrow> dc_perms d | None \<Rightarrow> 0) else 0)"
  obtain rs p where roy: "royalties_step subj config delegated perms = (rs, p)" by fastforce
  have "a \<in> set (config_sync subj config perms)
    \<or> (\<exists>as. furnace_step snap subj config caller delegated perms = Some as \<and> a \<in> set as)
    \<or> a \<in> set (fst (royalties_step subj config delegated perms))
    \<or> a \<in> set (withdraw_step subj config caller delegated perms p)
    \<or> a \<in> set (takeover_step snap subj config l nowMs caller delegated perms)"
    using assms unfolding buildActionPlan_def Some option.case Let_def caller_def [symmetric]
      delegated_def [symmetric] active_def [symmetric] perms_def [symmetric] roy prod.case fst_conv
    by (auto split: if_splits option.splits)
  then show ?thesis by blast
qed (use assms in \<open>simp add: buildActionPlan_def\<close>)

lemma planned_king_withdrawal_positive:
  assumes "MineCore_withdrawKingBalance x \<in> set (buildActionPlan snap config l nowMs wallSec caller delegation)"
  shows "0 < x"
  using plan_sources [OF assms] no_king_withdrawal king_withdrawal_positive by metis

lemma king_withdrawal_shape:
  "0 \<le> x \<Longrightarrow> validateActionShape isAddress (MineCore_withdrawKingBalance x) sec = None"
  by (simp add: validateActionShape_def bad_address_def addressKeys_def check_bigint_def js_endsWith_def bad_mode_def)

text \<open>
  No withdrawal of the king's balance that the built-in policy plans can be executed under a policy that allows
  its kind: the check reads a recipient that the action does not have, and throws, for every signer, recipient list
  and cap. The throw leaves the executor, which guards only what comes after the check.
\<close>

theorem king_withdrawal_throws:
  assumes "MineCore_withdrawKingBalance amount \<in> set (buildActionPlan snap config l nowMs wallSec caller delegation)"
    and "as_enabled (used_security cx)" "isActionKindAllowed ''mineCore.withdrawKingBalance'' (used_security cx) = None"
    and "\<not> (ex_havePrivate cx \<and> ex_privateRpcMode cx = Some Mode_only)"
  shows "executePreflight isAddress cx (MineCore_withdrawKingBalance amount) = Security_throws"
proof -
  let ?a = "MineCore_withdrawKingBalance amount"
  have "0 \<le> amount" using planned_king_withdrawal_positive [OF assms(1)] by simp
  then have "checkAgentActionSecurity isAddress (ex_manifestAddrs cx) (ex_signer cx) (used_security cx) None ?a = Sec_type_error"
    using assms(2,3) king_withdrawal_shape [of amount isAddress "used_security cx"]
    by (simp add: checkAgentActionSecurity_def delegated_denied_def value_denied_def callValueForAction_def approval_denied_def
      withdrawal_check_def to_field_def recipient_check_def Let_def)
  moreover have "used_route cx ?a \<noteq> None"
    using assms(4) by (auto simp: used_route_def pickWalletClientForAction_def isPrivateTxAllowed_def Let_def split: option.splits)
  ultimately show ?thesis
    unfolding executePreflight_def Let_def used_security_def [symmetric] used_route_def [symmetric]
    by (simp add: getDelegationRequirementForAction_def)
qed

section \<open>Witnesses\<close>

definition self_caller :: caller_context where
  "self_caller = \<lparr>cc_address = ''0xaa'', cc_ethBalance = 0, cc_kingEthBalance = 70, cc_refundEthBalance = 0\<rparr>"

definition sample_context :: exec_context where
  "sample_context = \<lparr>ex_havePrivate = False, ex_privateRpcMode = None, ex_execute = True, ex_manifestAddrs = [''0xF0''],
     ex_signer = ''0xbb'', ex_security = Some (default_security\<lparr>as_delegatedUserAllowlist := [''0xAA'']\<rparr>), ex_haveHub = True,
     ex_session = (\<lambda>u. Some (524287, 2000, 1000))\<rparr>"

lemma sample_preflight:
  "executePreflight (\<lambda>_. True) sample_context (MineCore_takeoverFor ''0xaa'' 30) = Proceed False"
  by code_simp


theorem king_withdrawal_throws_witness:
  "executePreflight (\<lambda>_. True) (sample_context\<lparr>ex_security := None\<rparr>) (MineCore_withdrawKingBalance 70) = Security_throws"
proof (rule king_withdrawal_throws)
  show "MineCore_withdrawKingBalance 70 \<in> set (buildActionPlan sample_snapshot
    (sample_config\<lparr>pc_enableFurnaceEntry := False, pc_enableRoyaltiesClaim := False\<rparr>) None 0 0 (Some self_caller) None)"
    by code_simp
qed (simp_all add: used_security_def default_security_def sample_context_def isActionKindAllowed_def)

end
