(* ===== verification/CircuitBreaker.thy ===== *)
theory CircuitBreaker
  imports Prelude
begin

text \<open>
  The keeper's transaction circuit breaker (\<open>src/keeper/src/shared/circuit_breaker.ts\<close>), the pause
  file it writes and every send checks (\<open>pause.ts\<close>), and the integer parser both use (\<open>utils.ts\<close>).

  \<^item> A timestamp string of the state is the millisecond value that \<open>Date.parse\<close> reads from it; the
    parser of an arbitrary string, \<open>dateParse\<close>, is an argument. \<open>Date.now()\<close> is an argument, read
    once per call.
  \<^item> A file that is read is its parsed content or the way reading failed; the file that is written is
    part of the result. A throw is the left summand.

  The interface \<open>failure_streak\<close> states what a breaker promises to its client; the breaker of
  this theory provides it, and so does the live agent's back-off controller.
\<close>

section \<open>What a breaker promises\<close>

text \<open>
  A breaker counts consecutive failures. In a \<open>steady\<close> state it does not block; below the
  threshold a failure only counts, and the state stays steady for a later time that is \<open>near\<close>;
  the failure that reaches the threshold blocks; a success starts the count again.
\<close>

locale failure_streak =
  fixes fail :: "int \<Rightarrow> 's \<Rightarrow> 's"
    and succeed :: "int \<Rightarrow> 's \<Rightarrow> 's"
    and streak :: "'s \<Rightarrow> int"
    and blocked :: "int \<Rightarrow> 's \<Rightarrow> bool"
    and threshold :: int
    and steady :: "int \<Rightarrow> 's \<Rightarrow> bool"
    and near :: "int \<Rightarrow> int \<Rightarrow> bool"
  assumes threshold_pos: "1 \<le> threshold"
    and steady_unblocked: "steady t s \<Longrightarrow> \<not> blocked t s"
    and fail_below: "steady t s \<Longrightarrow> streak s + 1 < threshold \<Longrightarrow> near t t' \<Longrightarrow>
          steady t' (fail t s) \<and> streak (fail t s) = streak s + 1"
    and fail_trips: "steady t s \<Longrightarrow> threshold \<le> streak s + 1 \<Longrightarrow> blocked t (fail t s)"
    and succeed_steady: "steady t s \<Longrightarrow> near t t' \<Longrightarrow> steady t' (succeed t s) \<and> streak (succeed t s) = 0"
begin

text \<open>Failures at the given times, each near the one before.\<close>

fun fails :: "int list \<Rightarrow> 's \<Rightarrow> 's" where
  "fails [] s = s"
| "fails (t # ts) s = fails ts (fail t s)"

fun near_run :: "int list \<Rightarrow> bool" where
  "near_run (t # t' # ts) \<longleftrightarrow> near t t' \<and> near_run (t' # ts)"
| "near_run _ \<longleftrightarrow> True"

lemma fails_below:
  assumes "near_run (ts @ [t'])" and "steady (hd (ts @ [t'])) s" and "streak s + int (length ts) < threshold"
  shows "steady t' (fails ts s) \<and> streak (fails ts s) = streak s + int (length ts)"
  using assms
proof (induction ts arbitrary: s)
  case Nil
  then show ?case by simp
next
  case (Cons t ts)
  have "near t (hd (ts @ [t']))" and rest: "near_run (ts @ [t'])"
    using Cons.prems(1) by (cases ts; simp)+
  then have "steady (hd (ts @ [t'])) (fail t s) \<and> streak (fail t s) = streak s + 1"
    using fail_below Cons.prems by simp
  then show ?case using Cons.IH [of "fail t s"] rest Cons.prems(3) by simp
qed

text \<open>Exactly the failure that completes the threshold blocks.\<close>

lemma trips_exactly:
  assumes "near_run (ts @ [t])" and "steady (hd (ts @ [t])) s"
    and "streak s + int (length ts) + 1 = threshold"
  shows "\<not> blocked t (fails ts s) \<and> blocked t (fails (ts @ [t]) s)"
proof -
  have below: "steady t (fails ts s) \<and> streak (fails ts s) = streak s + int (length ts)"
    using assms by (intro fails_below) simp_all
  moreover have "fails (ts @ [t]) s = fail t (fails ts s)"
    by (induction ts arbitrary: s) simp_all
  ultimately show ?thesis using fail_trips steady_unblocked assms(3) by simp
qed

text \<open>After a success the full threshold is needed again.\<close>

lemma success_forgives:
  assumes "steady t0 s" and "near_run (t0 # ts)" and "ts \<noteq> []" and "int (length ts) < threshold"
  shows "\<not> blocked (last ts) (fails (butlast ts) (succeed t0 s))"
proof -
  have split: "butlast ts @ [last ts] = ts" using assms(3) by simp
  have hd: "near t0 (hd ts)" and run: "near_run ts" using assms(2,3) by (cases ts; simp)+
  have s0: "steady (hd ts) (succeed t0 s)" "streak (succeed t0 s) = 0"
    using succeed_steady [OF assms(1) hd] by simp_all
  have "steady (last ts) (fails (butlast ts) (succeed t0 s))"
    using fails_below [of "butlast ts" "last ts" "succeed t0 s"] split run s0 assms(4) by simp
  then show ?thesis by (rule steady_unblocked)
qed

end

section \<open>JSON values and integers (utils.ts)\<close>

datatype json =
  JNull
| JBool bool
| JNum int
| JFloat string       \<comment> \<open>a number that is not an integer, with its decimal rendering\<close>
| JStr string
| JArr "json list"
| JObj "(string \<times> json) list"

text \<open>\<open>String(v)\<close> of a JSON value; a null element of an array prints as nothing.\<close>

fun join_comma :: "string list \<Rightarrow> string" where
  "join_comma [] = ''''"
| "join_comma [s] = s"
| "join_comma (s # t # ss) = s @ '','' @ join_comma (t # ss)"

fun json_String :: "json \<Rightarrow> string" where
  "json_String JNull = ''null''"
| "json_String (JBool b) = (if b then ''true'' else ''false'')"
| "json_String (JNum i) = int_string i"
| "json_String (JFloat s) = s"
| "json_String (JStr s) = s"
| "json_String (JArr vs) = join_comma (map (\<lambda>v. if v = JNull then '''' else json_String v) vs)"
| "json_String (JObj _) = ''[object Object]''"

definition MAX_SAFE_INTEGER :: int where
  "MAX_SAFE_INTEGER = 9007199254740991"

definition is_numeral_text :: "string \<Rightarrow> bool" where
  "is_numeral_text s \<longleftrightarrow>
     s = ''0'' \<or> (case s of [] \<Rightarrow> False
       | c # cs \<Rightarrow> (let n = of_char c :: nat in 49 \<le> n \<and> n \<le> 57)
                    \<and> list_all (\<lambda>d. let n = of_char d :: nat in 48 \<le> n \<and> n \<le> 57) cs)"

definition parseNonNegativeSafeInteger :: "json \<Rightarrow> int option \<Rightarrow> int option" where
  "parseNonNegativeSafeInteger v defaultValue =
     (case v of
        JNum i \<Rightarrow> if i \<le> MAX_SAFE_INTEGER \<and> i \<ge> 0 then Some i else defaultValue
      | JFloat _ \<Rightarrow> defaultValue
      | _ \<Rightarrow>
          (let s = js_trim (if v = JNull then '''' else json_String v) in
           if s = [] then defaultValue
           else if \<not> is_numeral_text s then defaultValue
           else let parsed = int (string_nat s) in
                if parsed \<le> MAX_SAFE_INTEGER then Some parsed else defaultValue))"

definition parsePositiveSafeInteger :: "json \<Rightarrow> int option \<Rightarrow> int option" where
  "parsePositiveSafeInteger v defaultValue =
     (let parsed = parseNonNegativeSafeInteger v defaultValue in
      case parsed of Some p \<Rightarrow> if p > 0 then parsed else defaultValue | None \<Rightarrow> defaultValue)"

section \<open>The state and its file (circuit_breaker.ts)\<close>

record cb_state =
  cb_consecutiveFailures :: int
  cb_lastFailureAt :: "int option"
  cb_lastSuccessAt :: "int option"
  cb_trippedAt :: "int option"
  cb_pausedUntil :: "int option"
  cb_lastError :: "string option"

datatype cb_error =
  Unreadable | NotAnObject | BadVersion | BadFailures | NotAString string | NotATimestamp string

definition initState :: cb_state where
  "initState = \<lparr>cb_consecutiveFailures = 0, cb_lastFailureAt = None, cb_lastSuccessAt = None,
     cb_trippedAt = None, cb_pausedUntil = None, cb_lastError = None\<rparr>"

text \<open>A field of the object; an absent field is \<open>undefined\<close>, which the checks treat as null.\<close>

definition json_field :: "(string \<times> json) list \<Rightarrow> string \<Rightarrow> json" where
  "json_field fs k = (case map_of fs k of None \<Rightarrow> JNull | Some v \<Rightarrow> v)"

definition requireOptionalString :: "json \<Rightarrow> string \<Rightarrow> cb_error + string option" where
  "requireOptionalString v field =
     (case v of JNull \<Rightarrow> Inr None | JStr s \<Rightarrow> Inr (Some s) | _ \<Rightarrow> Inl (NotAString field))"

definition requireOptionalIsoTimestamp ::
  "(string \<Rightarrow> int option) \<Rightarrow> json \<Rightarrow> string \<Rightarrow> cb_error + int option" where
  "requireOptionalIsoTimestamp dateParse v field =
     (case requireOptionalString v field of
        Inl e \<Rightarrow> Inl e
      | Inr None \<Rightarrow> Inr None
      | Inr (Some out) \<Rightarrow>
          (case dateParse out of None \<Rightarrow> Inl (NotATimestamp field) | Some ms \<Rightarrow> Inr (Some ms)))"

definition requireState :: "(string \<Rightarrow> int option) \<Rightarrow> json \<Rightarrow> cb_error + cb_state" where
  "requireState dateParse x =
     (case x of
        JObj fs \<Rightarrow>
          if json_field fs ''version'' \<noteq> JNum 1 then Inl BadVersion
          else (case parseNonNegativeSafeInteger (json_field fs ''consecutiveFailures'') None of
              None \<Rightarrow> Inl BadFailures
            | Some n \<Rightarrow>
                (case requireOptionalIsoTimestamp dateParse (json_field fs ''lastFailureAtUtc'') ''lastFailureAtUtc'' of
                   Inl e \<Rightarrow> Inl e
                 | Inr failureAt \<Rightarrow>
                (case requireOptionalIsoTimestamp dateParse (json_field fs ''lastSuccessAtUtc'') ''lastSuccessAtUtc'' of
                   Inl e \<Rightarrow> Inl e
                 | Inr successAt \<Rightarrow>
                (case requireOptionalIsoTimestamp dateParse (json_field fs ''trippedAtUtc'') ''trippedAtUtc'' of
                   Inl e \<Rightarrow> Inl e
                 | Inr trippedAt \<Rightarrow>
                (case requireOptionalIsoTimestamp dateParse (json_field fs ''pausedUntilUtc'') ''pausedUntilUtc'' of
                   Inl e \<Rightarrow> Inl e
                 | Inr pausedUntil \<Rightarrow>
                (case requireOptionalString (json_field fs ''lastError'') ''lastError'' of
                   Inl e \<Rightarrow> Inl e
                 | Inr lastError \<Rightarrow>
                     Inr \<lparr>cb_consecutiveFailures = n, cb_lastFailureAt = failureAt,
                          cb_lastSuccessAt = successAt, cb_trippedAt = trippedAt,
                          cb_pausedUntil = pausedUntil, cb_lastError = lastError\<rparr>))))))
      | _ \<Rightarrow> Inl NotAnObject)"

datatype loaded_json = FileMissing | FileError | FileOk json

definition loadCircuitBreakerState ::
  "(string \<Rightarrow> int option) \<Rightarrow> loaded_json \<Rightarrow> cb_error + cb_state" where
  "loadCircuitBreakerState dateParse cur =
     (case cur of
        FileMissing \<Rightarrow> Inr initState
      | FileError \<Rightarrow> Inl Unreadable
      | FileOk v \<Rightarrow> requireState dateParse v)"

section \<open>Pausing\<close>

record keeper_config =
  kc_circuitBreakerEnabled :: bool
  kc_circuitBreakerMaxFailures :: int
  kc_circuitBreakerCooldownMs :: int

definition assertCircuitBreakerStateHealthy ::
  "(string \<Rightarrow> int option) \<Rightarrow> keeper_config \<Rightarrow> loaded_json \<Rightarrow> cb_error + cb_state" where
  "assertCircuitBreakerStateHealthy dateParse config cur =
     (if \<not> kc_circuitBreakerEnabled config then Inr initState
      else loadCircuitBreakerState dateParse cur)"

definition computePausedUntil :: "int \<Rightarrow> int \<Rightarrow> int option" where
  "computePausedUntil trippedAt cooldownMs =
     (case parsePositiveSafeInteger (JNum cooldownMs) None of
        None \<Rightarrow> None
      | Some cooldown \<Rightarrow> Some (trippedAt + cooldown))"

definition getEffectivePausedUntil :: "cb_state \<Rightarrow> int \<Rightarrow> int option" where
  "getEffectivePausedUntil state cooldownMs =
     (case cb_pausedUntil state of
        Some u \<Rightarrow> Some u
      | None \<Rightarrow>
          (case cb_trippedAt state of
             None \<Rightarrow> None
           | Some t \<Rightarrow> computePausedUntil t cooldownMs))"

record pause_info =
  pi_paused :: bool
  pi_until :: "int option"
  pi_reason :: "string option"
  pi_fromState :: bool

definition getCircuitBreakerPauseInfo :: "keeper_config \<Rightarrow> int \<Rightarrow> cb_state \<Rightarrow> pause_info" where
  "getCircuitBreakerPauseInfo config now state =
     (if \<not> kc_circuitBreakerEnabled config
      then \<lparr>pi_paused = False, pi_until = None, pi_reason = None, pi_fromState = False\<rparr>
      else if cb_trippedAt state = None
      then \<lparr>pi_paused = False, pi_until = None, pi_reason = None, pi_fromState = False\<rparr>
      else let untilMs = getEffectivePausedUntil state (kc_circuitBreakerCooldownMs config) in
           if (case untilMs of None \<Rightarrow> False | Some u \<Rightarrow> u \<le> now)
           then \<lparr>pi_paused = False, pi_until = untilMs, pi_reason = None, pi_fromState = False\<rparr>
           else \<lparr>pi_paused = True, pi_until = untilMs, pi_reason = Some ''circuit breaker tripped'',
                 pi_fromState = True\<rparr>)"

section \<open>Outcomes of a transaction\<close>

definition success_state :: "int \<Rightarrow> cb_state \<Rightarrow> cb_state" where
  "success_state now cur =
     cur\<lparr>cb_consecutiveFailures := 0, cb_lastSuccessAt := Some now, cb_trippedAt := None,
         cb_pausedUntil := None, cb_lastError := None\<rparr>"

text \<open>The result and what the state file holds afterwards (\<open>None\<close>: not written).\<close>

definition recordTxSuccess ::
  "(string \<Rightarrow> int option) \<Rightarrow> keeper_config \<Rightarrow> int \<Rightarrow> loaded_json \<Rightarrow>
   cb_error + cb_state \<times> cb_state option" where
  "recordTxSuccess dateParse config now cur =
     (if \<not> kc_circuitBreakerEnabled config then Inr (initState, None)
      else (case loadCircuitBreakerState dateParse cur of
          Inl e \<Rightarrow> Inl e
        | Inr st \<Rightarrow> let next = success_state now st in Inr (next, Some next)))"

text \<open>\<open>writePauseFile\<close>: the time until which it pauses; the write itself may throw (\<open>Some msg\<close>).\<close>

definition pauseFileUntil :: "int \<Rightarrow> int \<Rightarrow> int option" where
  "pauseFileUntil now cooldownMs = (if cooldownMs > 0 then Some (now + cooldownMs) else None)"

definition effectiveMaxFailures :: "keeper_config \<Rightarrow> int" where
  "effectiveMaxFailures config =
     (if kc_circuitBreakerMaxFailures config > 0 then kc_circuitBreakerMaxFailures config else 1)"

definition cooldown_expired :: "keeper_config \<Rightarrow> int \<Rightarrow> cb_state \<Rightarrow> bool" where
  "cooldown_expired config now cur0 =
     (case getEffectivePausedUntil cur0 (kc_circuitBreakerCooldownMs config) of
        None \<Rightarrow> False | Some u \<Rightarrow> u \<le> now)"

definition failure_state ::
  "keeper_config \<Rightarrow> int \<Rightarrow> string option \<Rightarrow> string \<Rightarrow> cb_state \<Rightarrow> cb_state \<times> bool" where
  "failure_state config now pauseError err cur0 =
     (let maxFailures = effectiveMaxFailures config;
          cooldownExpired = cooldown_expired config now cur0;
          cur = (if cooldownExpired
                 then cur0\<lparr>cb_consecutiveFailures := 0, cb_trippedAt := None, cb_pausedUntil := None\<rparr>
                 else cur0);
          next = cur\<lparr>cb_consecutiveFailures :=
                       min ((case parseNonNegativeSafeInteger (JNum (cb_consecutiveFailures cur)) (Some 0) of
                               None \<Rightarrow> 0 | Some n \<Rightarrow> n) + 1) (maxFailures + 10),
                     cb_lastFailureAt := Some now, cb_lastError := Some (take 2048 err)\<rparr>;
          effectiveThreshold = (if cooldownExpired then max maxFailures 2 else maxFailures)
      in if cb_consecutiveFailures next \<ge> effectiveThreshold
         then let next = next\<lparr>cb_trippedAt := Some now,
                              cb_pausedUntil := computePausedUntil now (kc_circuitBreakerCooldownMs config)\<rparr>
              in (case pauseError of
                    None \<Rightarrow>
                      (next\<lparr>cb_pausedUntil := pauseFileUntil now (kc_circuitBreakerCooldownMs config)\<rparr>, True)
                  | Some msg \<Rightarrow>
                      (next\<lparr>cb_lastError := Some ((case cb_lastError next of None \<Rightarrow> '''' | Some e \<Rightarrow> e)
                         @ '' (circuit breaker pause write failed: '' @ msg @ '')'')\<rparr>, True))
         else (next, False))"

definition recordTxFailure ::
  "(string \<Rightarrow> int option) \<Rightarrow> keeper_config \<Rightarrow> int \<Rightarrow> string option \<Rightarrow> string \<Rightarrow> loaded_json \<Rightarrow>
   cb_error + (cb_state \<times> bool) \<times> cb_state option" where
  "recordTxFailure dateParse config now pauseError err cur =
     (if \<not> kc_circuitBreakerEnabled config then Inr ((initState, False), None)
      else (case loadCircuitBreakerState dateParse cur of
          Inl e \<Rightarrow> Inl e
        | Inr cur0 \<Rightarrow>
            let (next, tripped) = failure_state config now pauseError err cur0
            in Inr ((next, tripped), Some next)))"

section \<open>The circuit breaker is such a breaker\<close>

definition cb_fail :: "keeper_config \<Rightarrow> int \<Rightarrow> cb_state \<Rightarrow> cb_state" where
  "cb_fail config t s = fst (failure_state config t None ''tx failed'' s)"

definition cb_blocked :: "keeper_config \<Rightarrow> int \<Rightarrow> cb_state \<Rightarrow> bool" where
  "cb_blocked config t s = pi_paused (getCircuitBreakerPauseInfo config t s)"

definition cb_steady :: "keeper_config \<Rightarrow> int \<Rightarrow> cb_state \<Rightarrow> bool" where
  "cb_steady config t s \<longleftrightarrow> kc_circuitBreakerEnabled config
     \<and> kc_circuitBreakerMaxFailures config \<le> 100
     \<and> cb_trippedAt s = None \<and> cb_pausedUntil s = None
     \<and> 0 \<le> cb_consecutiveFailures s \<and> cb_consecutiveFailures s \<le> MAX_SAFE_INTEGER"

lemma parse_num [simp]:
  "0 \<le> n \<Longrightarrow> n \<le> MAX_SAFE_INTEGER \<Longrightarrow> parseNonNegativeSafeInteger (JNum n) d = Some n"
  by (simp add: parseNonNegativeSafeInteger_def)

lemma effectiveMaxFailures_bounds:
  "1 \<le> effectiveMaxFailures config"
  "kc_circuitBreakerMaxFailures config \<le> 100 \<Longrightarrow> effectiveMaxFailures config \<le> 100"
  by (auto simp: effectiveMaxFailures_def)

lemma computePausedUntil_later: "computePausedUntil t cd = Some u \<Longrightarrow> t < u"
  by (auto simp: computePausedUntil_def parsePositiveSafeInteger_def parseNonNegativeSafeInteger_def
      split: option.splits if_splits)

lemma pauseFileUntil_later: "pauseFileUntil t cd = Some u \<Longrightarrow> t < u"
  by (auto simp: pauseFileUntil_def split: if_splits)

text \<open>A failure from a state that is neither tripped nor paused.\<close>

lemma failure_untripped:
  assumes "cb_trippedAt s = None" and "cb_pausedUntil s = None"
    and "0 \<le> cb_consecutiveFailures s" and "cb_consecutiveFailures s \<le> MAX_SAFE_INTEGER"
  shows "cooldown_expired config t s = False"
    and "cb_consecutiveFailures (fst (failure_state config t pe err s))
       = min (cb_consecutiveFailures s + 1) (effectiveMaxFailures config + 10)"
    and "snd (failure_state config t pe err s)
       \<longleftrightarrow> effectiveMaxFailures config \<le> cb_consecutiveFailures s + 1"
    and "cb_trippedAt (fst (failure_state config t pe err s))
       = (if effectiveMaxFailures config \<le> cb_consecutiveFailures s + 1 then Some t else None)"
    and "cb_pausedUntil (fst (failure_state config t pe err s))
       = (if effectiveMaxFailures config \<le> cb_consecutiveFailures s + 1
          then (if pe = None then pauseFileUntil t (kc_circuitBreakerCooldownMs config)
                else computePausedUntil t (kc_circuitBreakerCooldownMs config))
          else None)"
proof -
  show e: "cooldown_expired config t s = False"
    using assms by (simp add: cooldown_expired_def getEffectivePausedUntil_def)
  show "cb_consecutiveFailures (fst (failure_state config t pe err s))
       = min (cb_consecutiveFailures s + 1) (effectiveMaxFailures config + 10)"
    and "snd (failure_state config t pe err s)
       \<longleftrightarrow> effectiveMaxFailures config \<le> cb_consecutiveFailures s + 1"
    and "cb_trippedAt (fst (failure_state config t pe err s))
       = (if effectiveMaxFailures config \<le> cb_consecutiveFailures s + 1 then Some t else None)"
    and "cb_pausedUntil (fst (failure_state config t pe err s))
       = (if effectiveMaxFailures config \<le> cb_consecutiveFailures s + 1
          then (if pe = None then pauseFileUntil t (kc_circuitBreakerCooldownMs config)
                else computePausedUntil t (kc_circuitBreakerCooldownMs config))
          else None)"
    using assms by (auto simp: failure_state_def e Let_def split: option.splits)
qed

lemma tripped_blocks:
  assumes "kc_circuitBreakerEnabled config" and "cb_trippedAt s = Some t"
    and "\<And>u. cb_pausedUntil s = Some u \<Longrightarrow> t < u"
  shows "cb_blocked config t s"
  using assms computePausedUntil_later
  by (auto simp: cb_blocked_def getCircuitBreakerPauseInfo_def getEffectivePausedUntil_def Let_def
      split: option.splits dest: leD)

lemma failure_blocks:
  assumes "kc_circuitBreakerEnabled config"
    and s: "cb_trippedAt s = None" "cb_pausedUntil s = None"
      "0 \<le> cb_consecutiveFailures s" "cb_consecutiveFailures s \<le> MAX_SAFE_INTEGER"
    and "effectiveMaxFailures config \<le> cb_consecutiveFailures s + 1"
  shows "cb_blocked config t (fst (failure_state config t pe err s))"
proof (rule tripped_blocks [OF assms(1)])
  note F = failure_untripped(2-5) [where config = config and t = t and pe = pe and err = err, OF s]
  show "cb_trippedAt (fst (failure_state config t pe err s)) = Some t" using F(3) assms(6) by simp
  show "t < u" if "cb_pausedUntil (fst (failure_state config t pe err s)) = Some u" for u
    using that F(4) assms(6) pauseFileUntil_later computePausedUntil_later by (auto split: if_splits)
qed

interpretation breaker: failure_streak "cb_fail config" success_state cb_consecutiveFailures
  "cb_blocked config" "effectiveMaxFailures config" "cb_steady config" "\<lambda>t t'. True" for config
proof unfold_locales
  show "1 \<le> effectiveMaxFailures config" by (rule effectiveMaxFailures_bounds)
next
  fix t s
  assume "cb_steady config t s"
  then show "\<not> cb_blocked config t s"
    by (simp add: cb_steady_def cb_blocked_def getCircuitBreakerPauseInfo_def)
next
  fix t t' s
  assume s: "cb_steady config t s" and less: "cb_consecutiveFailures s + 1 < effectiveMaxFailures config"
  note F = failure_untripped(2-5) [where s = s and config = config and t = t and pe = None and err = "''tx failed''"]
  show "cb_steady config t' (cb_fail config t s)
      \<and> cb_consecutiveFailures (cb_fail config t s) = cb_consecutiveFailures s + 1"
    using s less F effectiveMaxFailures_bounds [of config]
    by (auto simp: cb_steady_def cb_fail_def MAX_SAFE_INTEGER_def)
next
  fix t s
  assume "cb_steady config t s" and "effectiveMaxFailures config \<le> cb_consecutiveFailures s + 1"
  then show "cb_blocked config t (cb_fail config t s)"
    unfolding cb_fail_def cb_steady_def by (intro failure_blocks) blast+
next
  fix t t' s
  assume "cb_steady config t s"
  then show "cb_steady config t' (success_state t s) \<and> cb_consecutiveFailures (success_state t s) = 0"
    by (simp add: cb_steady_def success_state_def MAX_SAFE_INTEGER_def)
qed

lemma breaker_fails_fold: "breaker.fails config ts s = fold (cb_fail config) ts s"
  by (induction ts arbitrary: s) (simp_all add: breaker.fails.simps)

lemma breaker_near [simp]: "breaker.near_run ts"
  by (induction ts rule: breaker.near_run.induct) (simp_all add: breaker.near_run.simps)

section \<open>The pause file (pause.ts)\<close>

record pause_status =
  ps_paused :: bool
  ps_reason :: "string option"
  ps_untilUtc :: "string option"
  ps_source :: "string option"

text \<open>What \<open>lstatSync\<close> reports: an error code, a link, something else, or a file of a size.\<close>

datatype lstat_result = StatError string | IsSymlink | NotAFile | IsFile nat

record pause_file =
  pf_path :: string
  pf_stat :: lstat_result
  pf_content :: "string option"    \<comment> \<open>\<open>None\<close>: reading it throws\<close>

definition MAX_PAUSE_FILE_BYTES :: nat where
  "MAX_PAUSE_FILE_BYTES = 64 * 1024"

fun json_truthy :: "json \<Rightarrow> bool" where
  "json_truthy JNull = False"
| "json_truthy (JBool b) = b"
| "json_truthy (JNum i) = (i \<noteq> 0)"
| "json_truthy (JStr s) = (s \<noteq> '''')"
| "json_truthy _ = True"

definition safeDateMs :: "(string \<Rightarrow> int option) \<Rightarrow> json \<Rightarrow> int option" where
  "safeDateMs dateParse v = (if \<not> json_truthy v then None else dateParse (json_String v))"

definition not_paused :: pause_status where
  "not_paused = \<lparr>ps_paused = False, ps_reason = None, ps_untilUtc = None, ps_source = None\<rparr>"

definition paused_by_file :: "string \<Rightarrow> string option \<Rightarrow> pause_status" where
  "paused_by_file reason untilUtc =
     \<lparr>ps_paused = True, ps_reason = Some reason, ps_untilUtc = untilUtc, ps_source = Some ''file''\<rparr>"

text \<open>The part after the file has been read; the flag says that the file is removed.\<close>

definition pause_content ::
  "(string \<Rightarrow> json option) \<Rightarrow> (string \<Rightarrow> int option) \<Rightarrow> int \<Rightarrow> string \<Rightarrow> pause_status \<times> bool" where
  "pause_content jsonParse dateParse now raw =
     (let s = js_trim raw;
          manual = paused_by_file
            (if length s > 200 then take 200 s @ [CHR 0xE2, CHR 0x80, CHR 0xA6] else s) None
      in if s = [] then (paused_by_file ''pause file present'' None, False)
         else (case jsonParse s of
             None \<Rightarrow>
               if hd s = CHR ''{'' \<or> hd s = CHR ''[''
               then (paused_by_file ''pause file present (invalid JSON)'' None, False)
               else (manual, False)
           | Some v \<Rightarrow>
               (case v of
                  JObj obj \<Rightarrow>
                    if json_field obj ''version'' = JNum 1
                    then let untilUtc = json_field obj ''pausedUntilUtc'' in
                         if (case safeDateMs dateParse untilUtc of None \<Rightarrow> False | Some u \<Rightarrow> u \<le> now)
                         then (not_paused, True)
                         else (paused_by_file
                                 (if json_field obj ''reason'' = JNull then ''paused''
                                  else json_String (json_field obj ''reason''))
                                 (if json_truthy untilUtc then Some (json_String untilUtc) else None),
                               False)
                    else (manual, False)
                | _ \<Rightarrow> (manual, False))))"

definition getPauseInfo ::
  "(string \<Rightarrow> json option) \<Rightarrow> (string \<Rightarrow> int option) \<Rightarrow> bool \<Rightarrow> int \<Rightarrow> pause_file \<Rightarrow>
   pause_status \<times> bool" where
  "getPauseInfo jsonParse dateParse paused now f =
     (if paused
      then (\<lparr>ps_paused = True, ps_reason = Some ''KEEPER_PAUSED=1'', ps_untilUtc = None,
             ps_source = Some ''env''\<rparr>, False)
      else if pf_path f = [] then (not_paused, False)
      else if CHR 0x00 \<in> set (pf_path f)
      then (paused_by_file ''pause file path contains null byte (fail-safe)'' None, False)
      else (case pf_stat f of
          StatError code \<Rightarrow>
            if code = ''ENOENT'' then (not_paused, False)
            else (paused_by_file ''pause file stat failed (fail-safe)'' None, False)
        | IsSymlink \<Rightarrow> (paused_by_file ''pause file is a symlink (refusing to follow)'' None, False)
        | NotAFile \<Rightarrow> (paused_by_file ''pause file is not a regular file (fail-safe)'' None, False)
        | IsFile sz \<Rightarrow>
            if sz > MAX_PAUSE_FILE_BYTES
            then (paused_by_file (''pause file exceeds '' @ nat_string MAX_PAUSE_FILE_BYTES
                    @ '' bytes (fail-safe)'') None, False)
            else (case pf_content f of
                None \<Rightarrow> (paused_by_file ''pause file present (unreadable)'' None, False)
              | Some raw \<Rightarrow> pause_content jsonParse dateParse now raw)))"

section \<open>Properties\<close>

lemma paused_simps [simp]: "ps_paused (paused_by_file r u)" "\<not> ps_paused not_paused"
  by (simp_all add: paused_by_file_def not_paused_def)

lemma cb_steady_trips:
  assumes "cb_steady config (hd (ts @ [t])) s"
    and "cb_consecutiveFailures s + int (length ts) + 1 = effectiveMaxFailures config"
  shows "\<not> cb_blocked config t (fold (cb_fail config) ts s)
    \<and> cb_blocked config t (fold (cb_fail config) (ts @ [t]) s)"
  using breaker.trips_exactly [of ts t config s] assms
  by (simp only: breaker_fails_fold breaker_near simp_thms)

text \<open>
  C24. The breaker trips exactly at its threshold: from a state that is neither tripped nor paused, after
  one failure fewer than \<open>circuitBreakerMaxFailures\<close> (at least one) the keeper is not paused, and
  with one more failure it is.
\<close>

theorem breaker_trips_exactly:
  assumes "kc_circuitBreakerEnabled config" and "kc_circuitBreakerMaxFailures config \<le> 100"
    and "cb_trippedAt s = None" and "cb_pausedUntil s = None" and "0 \<le> cb_consecutiveFailures s"
    and "cb_consecutiveFailures s + int (length ts) + 1 = max 1 (kc_circuitBreakerMaxFailures config)"
  shows "\<not> pi_paused (getCircuitBreakerPauseInfo config t (fold (cb_fail config) ts s))
    \<and> pi_paused (getCircuitBreakerPauseInfo config t (fold (cb_fail config) (ts @ [t]) s))"
proof -
  have "cb_steady config (hd (ts @ [t])) s"
    using assms by (auto simp: cb_steady_def MAX_SAFE_INTEGER_def max_def split: if_splits)
  then show ?thesis
    using cb_steady_trips [of config ts t s] assms(6)
    by (simp add: cb_blocked_def effectiveMaxFailures_def max_def split: if_splits)
qed

theorem breaker_trips_exactly_witness:
  "\<not> pi_paused (getCircuitBreakerPauseInfo \<lparr>kc_circuitBreakerEnabled = True,
       kc_circuitBreakerMaxFailures = 3, kc_circuitBreakerCooldownMs = 60000\<rparr> 2000
     (fold (cb_fail \<lparr>kc_circuitBreakerEnabled = True,
       kc_circuitBreakerMaxFailures = 3, kc_circuitBreakerCooldownMs = 60000\<rparr>) [1000, 1500] initState))"
  by (rule breaker_trips_exactly [THEN conjunct1]) (simp_all add: initState_def)

lemma tripped_fields:
  assumes "snd (failure_state config t pe err s)"
  shows "cb_trippedAt (fst (failure_state config t pe err s)) = Some t"
    and "cb_pausedUntil (fst (failure_state config t pe err s))
       = (if pe = None then pauseFileUntil t (kc_circuitBreakerCooldownMs config)
          else computePausedUntil t (kc_circuitBreakerCooldownMs config))"
  using assms
  by (simp_all add: failure_state_def Let_def split: option.splits if_split_asm)

lemma computePausedUntil_cooldown:
  "cd \<le> MAX_SAFE_INTEGER \<Longrightarrow> computePausedUntil t cd = (if 0 < cd then Some (t + cd) else None)"
  by (simp add: computePausedUntil_def parsePositiveSafeInteger_def parseNonNegativeSafeInteger_def)

text \<open>
  The failure that trips pauses the keeper for the cooldown, whether or not the pause file could be
  written: at any time \<open>t'\<close> the state that \<open>recordTxFailure\<close> writes blocks iff there is no cooldown
  or it has not yet passed.
\<close>

theorem tripped_for_cooldown:
  assumes "kc_circuitBreakerEnabled config" and "kc_circuitBreakerCooldownMs config \<le> MAX_SAFE_INTEGER"
    and "snd (failure_state config t pauseError err s)"
  shows "pi_paused (getCircuitBreakerPauseInfo config t' (fst (failure_state config t pauseError err s)))
    \<longleftrightarrow> kc_circuitBreakerCooldownMs config \<le> 0 \<or> t' < t + kc_circuitBreakerCooldownMs config"
  using assms(1) computePausedUntil_cooldown [OF assms(2)] tripped_fields [OF assms(3)]
  by (auto simp: getCircuitBreakerPauseInfo_def getEffectivePausedUntil_def pauseFileUntil_def Let_def)

theorem tripped_for_cooldown_witness:
  "\<not> pi_paused (getCircuitBreakerPauseInfo \<lparr>kc_circuitBreakerEnabled = True,
       kc_circuitBreakerMaxFailures = 1, kc_circuitBreakerCooldownMs = 60000\<rparr> 61000
     (fst (failure_state \<lparr>kc_circuitBreakerEnabled = True, kc_circuitBreakerMaxFailures = 1,
        kc_circuitBreakerCooldownMs = 60000\<rparr> 1000 (Some ''EROFS'') ''reverted'' initState)))"
  by (subst tripped_for_cooldown)
    (simp_all add: MAX_SAFE_INTEGER_def failure_state_def cooldown_expired_def getEffectivePausedUntil_def
      initState_def effectiveMaxFailures_def)

text \<open>
  The first failure after an expired cooldown is a probe: it never trips, it counts as the first one
  of a new streak, and the keeper stays unpaused; the failure after it trips iff the configured
  threshold is at most two.
\<close>

theorem cooldown_probe:
  assumes "cooldown_expired config t s" and "kc_circuitBreakerMaxFailures config \<le> 100"
  shows "let first = failure_state config t pe err s in
    \<not> snd first \<and> cb_consecutiveFailures (fst first) = 1
    \<and> \<not> pi_paused (getCircuitBreakerPauseInfo config t (fst first))
    \<and> (snd (failure_state config t2 pe2 err2 (fst first)) \<longleftrightarrow> kc_circuitBreakerMaxFailures config \<le> 2)"
proof -
  obtain s1 where s1: "failure_state config t pe err s = (s1, False)"
    and f: "cb_consecutiveFailures s1 = 1" "cb_trippedAt s1 = None" "cb_pausedUntil s1 = None"
    using assms effectiveMaxFailures_bounds [of config]
    by (auto simp: failure_state_def Let_def MAX_SAFE_INTEGER_def)
  have "snd (failure_state config t2 pe2 err2 s1) \<longleftrightarrow> effectiveMaxFailures config \<le> 2"
    using failure_untripped(3) [of s1 config t2 pe2 err2] f by (simp add: MAX_SAFE_INTEGER_def)
  then show ?thesis
    using s1 f by (simp add: getCircuitBreakerPauseInfo_def effectiveMaxFailures_def split: if_splits)
qed

theorem cooldown_probe_witness:
  "\<not> snd (failure_state \<lparr>kc_circuitBreakerEnabled = True, kc_circuitBreakerMaxFailures = 1,
        kc_circuitBreakerCooldownMs = 60000\<rparr> 61000 None ''reverted''
      (initState\<lparr>cb_consecutiveFailures := 1, cb_trippedAt := Some 1000\<rparr>))"
proof -
  let ?c = "\<lparr>kc_circuitBreakerEnabled = True, kc_circuitBreakerMaxFailures = 1,
        kc_circuitBreakerCooldownMs = 60000\<rparr>"
  let ?s = "initState\<lparr>cb_consecutiveFailures := 1, cb_trippedAt := Some 1000\<rparr>"
  have "cooldown_expired ?c 61000 ?s"
    by (simp add: cooldown_expired_def getEffectivePausedUntil_def initState_def computePausedUntil_def
        parsePositiveSafeInteger_def MAX_SAFE_INTEGER_def)
  from cooldown_probe [OF this, of None "''reverted''" 0 None "''''"] show ?thesis by (simp add: Let_def)
qed

definition valid_breaker_file :: "(string \<Rightarrow> int option) \<Rightarrow> (string \<times> json) list \<Rightarrow> bool" where
  "valid_breaker_file dateParse fs \<longleftrightarrow> json_field fs ''version'' = JNum 1
     \<and> parseNonNegativeSafeInteger (json_field fs ''consecutiveFailures'') None \<noteq> None
     \<and> (\<forall>k \<in> {''lastFailureAtUtc'', ''lastSuccessAtUtc'', ''trippedAtUtc'', ''pausedUntilUtc''}.
          json_field fs k = JNull \<or> (\<exists>x. json_field fs k = JStr x \<and> dateParse x \<noteq> None))
     \<and> (json_field fs ''lastError'' = JNull \<or> (\<exists>x. json_field fs ''lastError'' = JStr x))"

lemma requireState_accepts:
  "(\<exists>st. requireState dateParse v = Inr st) \<longleftrightarrow> (\<exists>fs. v = JObj fs \<and> valid_breaker_file dateParse fs)"
proof -
  have str: "(\<exists>y. requireOptionalString v f = Inr y) \<longleftrightarrow> v = JNull \<or> (\<exists>x. v = JStr x)" for v f
    by (auto simp: requireOptionalString_def split: json.splits)
  have time: "(\<exists>y. requireOptionalIsoTimestamp dateParse v f = Inr y)
      \<longleftrightarrow> v = JNull \<or> (\<exists>x. v = JStr x \<and> dateParse x \<noteq> None)" for v f
    by (auto simp: requireOptionalIsoTimestamp_def requireOptionalString_def
        split: json.splits option.splits)
  have "(\<exists>st. requireState dateParse v = Inr st) \<longleftrightarrow> (\<exists>fs. v = JObj fs \<and> json_field fs ''version'' = JNum 1
          \<and> parseNonNegativeSafeInteger (json_field fs ''consecutiveFailures'') None \<noteq> None
          \<and> (\<forall>k \<in> {''lastFailureAtUtc'', ''lastSuccessAtUtc'', ''trippedAtUtc'', ''pausedUntilUtc''}.
               \<exists>y. requireOptionalIsoTimestamp dateParse (json_field fs k) k = Inr y)
          \<and> (\<exists>y. requireOptionalString (json_field fs ''lastError'') ''lastError'' = Inr y))"
    by (cases v) (auto simp: requireState_def split: option.splits sum.splits)
  then show ?thesis unfolding str time valid_breaker_file_def .
qed

text \<open>
  The breaker fails closed: with the breaker enabled, a state file that is present but unreadable or
  malformed makes the health check and both recording operations throw, and nothing is written; the
  file is accepted exactly when it is an object of version 1 with a non-negative count, four optional
  timestamps that parse, and an optional error text.
\<close>

theorem breaker_fails_closed:
  assumes "kc_circuitBreakerEnabled config"
    and "cur \<noteq> FileMissing" and "\<nexists>fs. cur = FileOk (JObj fs) \<and> valid_breaker_file dateParse fs"
  shows "\<exists>e. assertCircuitBreakerStateHealthy dateParse config cur = Inl e
      \<and> recordTxSuccess dateParse config now cur = Inl e
      \<and> recordTxFailure dateParse config now pe err cur = Inl e"
proof -
  have "\<nexists>st. loadCircuitBreakerState dateParse cur = Inr st"
    using assms(2,3) requireState_accepts [of dateParse]
    by (cases cur) (simp_all add: loadCircuitBreakerState_def)
  then obtain e where "loadCircuitBreakerState dateParse cur = Inl e"
    by (metis sum.exhaust)
  then show ?thesis using assms(1)
    by (simp add: assertCircuitBreakerStateHealthy_def recordTxSuccess_def recordTxFailure_def)
qed

theorem breaker_fails_closed_witness:
  "\<exists>e. recordTxFailure (\<lambda>_. None) \<lparr>kc_circuitBreakerEnabled = True, kc_circuitBreakerMaxFailures = 3,
      kc_circuitBreakerCooldownMs = 60000\<rparr> 1000 None ''reverted'' (FileOk (JObj [(''version'', JNum 2)])) = Inl e"
  using breaker_fails_closed [of "\<lparr>kc_circuitBreakerEnabled = True, kc_circuitBreakerMaxFailures = 3,
      kc_circuitBreakerCooldownMs = 60000\<rparr>" "FileOk (JObj [(''version'', JNum 2)])" "\<lambda>_. None"
      1000 None "''reverted''"]
  by (auto simp: valid_breaker_file_def json_field_def)

text \<open>
  The pause file pauses unless it is absent or an expired breaker pause: sends go ahead exactly when
  \<open>KEEPER_PAUSED\<close> is off and the path is unset, or the file does not exist, or it is a readable regular
  file of at most 64 KiB holding a version 1 object whose \<open>pausedUntilUtc\<close> lies in the past; only the
  last case removes the file.
\<close>

theorem pause_is_fail_safe:
  "(\<not> ps_paused (fst (getPauseInfo jsonParse dateParse paused now f)) \<longleftrightarrow>
      \<not> paused \<and> (pf_path f = [] \<or> CHR 0x00 \<notin> set (pf_path f) \<and> (pf_stat f = StatError ''ENOENT''
        \<or> (\<exists>sz raw obj u. pf_stat f = IsFile sz \<and> sz \<le> 64 * 1024 \<and> pf_content f = Some raw
             \<and> js_trim raw \<noteq> [] \<and> jsonParse (js_trim raw) = Some (JObj obj)
             \<and> json_field obj ''version'' = JNum 1
             \<and> safeDateMs dateParse (json_field obj ''pausedUntilUtc'') = Some u \<and> u \<le> now))))
   \<and> (snd (getPauseInfo jsonParse dateParse paused now f) \<longleftrightarrow>
      \<not> ps_paused (fst (getPauseInfo jsonParse dateParse paused now f)) \<and> pf_path f \<noteq> []
      \<and> pf_stat f \<noteq> StatError ''ENOENT'')"
proof -
  have content: "(\<not> ps_paused (fst (pause_content jsonParse dateParse now raw)) \<longleftrightarrow>
        (\<exists>obj u. js_trim raw \<noteq> [] \<and> jsonParse (js_trim raw) = Some (JObj obj)
           \<and> json_field obj ''version'' = JNum 1
           \<and> safeDateMs dateParse (json_field obj ''pausedUntilUtc'') = Some u \<and> u \<le> now))
      \<and> snd (pause_content jsonParse dateParse now raw)
          = (\<not> ps_paused (fst (pause_content jsonParse dateParse now raw)))" for raw
    by (auto simp: pause_content_def Let_def split: option.splits json.splits)
  then show ?thesis
    by (auto simp: getPauseInfo_def MAX_PAUSE_FILE_BYTES_def
        split: option.splits lstat_result.splits if_splits)
qed

end
