(* ===== verification/EventCursor.thy ===== *)
theory EventCursor
  imports CircuitBreaker
begin

text \<open>
  The SDK's durable event cursor (\<open>src/agents/sdk/src/agent/eventCursor.ts\<close>, with \<open>clampStrictSafeInteger\<close>
  of \<open>integers.ts\<close>): which events have been processed, where a restart begins, and how a reorganisation
  of the chain is noticed.

  \<^item> \<open>publicClient.getBlock\<close> is an argument: the block number to its hash, \<open>None\<close> when the call fails.
  \<^item> The file is the JSON value that \<open>JSON.parse\<close> reads back from it, \<open>None\<close> when there is none or it
    cannot be read; the operations that write it return it. A field whose value is \<open>undefined\<close> is not
    written.
  \<^item> \<open>recentKeys\<close> and \<open>recentSet\<close> are kept apart as in the code; that they agree is the invariant.
\<close>

section \<open>Events and state\<close>

record cursor_event =
  ce_source_subgraph :: bool
  ce_subgraphId :: "string option"
  ce_transactionHash :: string
  ce_logIndex :: nat
  ce_blockNumber :: int

definition keyForEvent :: "cursor_event \<Rightarrow> string" where
  "keyForEvent ev =
     (if ce_source_subgraph ev \<and> ce_subgraphId ev \<noteq> None \<and> ce_subgraphId ev \<noteq> Some ''''
      then ''subgraph:'' @ the (ce_subgraphId ev)
      else ce_transactionHash ev @ ''-'' @ nat_string (ce_logIndex ev))"

record cursor_params =
  cp_chainId :: int
  cp_rewindBlocks :: int
  cp_maxRecentKeys :: json

record cursor =
  cu_chainId :: int
  cu_rewindBlocks :: int
  cu_maxRecentKeys :: nat
  cu_lastProcessedBlock :: "int option"
  cu_lastProcessedBlockHash :: "string option"
  cu_recentKeys :: "string list"
  cu_recentSet :: "string set"

definition HARD_MAX_RECENT_KEYS :: int where
  "HARD_MAX_RECENT_KEYS = 100000"

section \<open>Integers (integers.ts)\<close>

definition is_digits :: "string \<Rightarrow> bool" where
  "is_digits s \<longleftrightarrow> s \<noteq> [] \<and> list_all (\<lambda>c. let n = of_char c :: nat in 48 \<le> n \<and> n \<le> 57) s"

definition parseStrictSafeInteger :: "json \<Rightarrow> int option" where
  "parseStrictSafeInteger value =
     (case value of
        JNum i \<Rightarrow> if - MAX_SAFE_INTEGER \<le> i \<and> i \<le> MAX_SAFE_INTEGER then Some i else None
      | JStr raw \<Rightarrow>
          (let s = js_trim raw;
               digits = (if s \<noteq> [] \<and> (hd s = CHR ''+'' \<or> hd s = CHR ''-'') then tl s else s)
           in if \<not> is_digits digits then None
              else let n = (if hd s = CHR ''-'' then - int (string_nat digits) else int (string_nat digits)) in
                   if - MAX_SAFE_INTEGER \<le> n \<and> n \<le> MAX_SAFE_INTEGER then Some n else None)
      | _ \<Rightarrow> None)"

definition clampStrictSafeInteger :: "json \<Rightarrow> int \<Rightarrow> int \<Rightarrow> int \<Rightarrow> int" where
  "clampStrictSafeInteger v fallback lo hi =
     (case parseStrictSafeInteger v of
        None \<Rightarrow> fallback
      | Some n \<Rightarrow> if n < lo then lo else if n > hi then hi else n)"

section \<open>Loading\<close>

definition parseBigintOrUndefined :: "json option \<Rightarrow> int option" where
  "parseBigintOrUndefined v =
     (case v of Some (JStr s) \<Rightarrow> if is_digits s then Some (int (string_nat s)) else None | _ \<Rightarrow> None)"

text \<open>\<open>readFile\<close> after the parse: an object of version 1 with an integer chain id and an array of keys.\<close>

definition readFile :: "json option \<Rightarrow> ((string \<times> json) list \<times> int \<times> json list) option" where
  "readFile content =
     (case content of
        Some (JObj fs) \<Rightarrow>
          if map_of fs ''version'' \<noteq> Some (JNum 1) then None
          else (case map_of fs ''chainId'' of
              Some (JNum c) \<Rightarrow>
                (case map_of fs ''recentKeys'' of Some (JArr ks) \<Rightarrow> Some (fs, c, ks) | _ \<Rightarrow> None)
            | _ \<Rightarrow> None)
      | _ \<Rightarrow> None)"

fun string_elements :: "json list \<Rightarrow> string list" where
  "string_elements [] = []"
| "string_elements (JStr s # vs) = (if s = [] then string_elements vs else s # string_elements vs)"
| "string_elements (_ # vs) = string_elements vs"

definition load_cursor :: "cursor_params \<Rightarrow> json option \<Rightarrow> cursor" where
  "load_cursor params content =
     (let base = \<lparr>cu_chainId = cp_chainId params,
            cu_rewindBlocks = (if cp_rewindBlocks params < 0 then 0 else cp_rewindBlocks params),
            cu_maxRecentKeys = nat (clampStrictSafeInteger (cp_maxRecentKeys params) 5000 0 HARD_MAX_RECENT_KEYS),
            cu_lastProcessedBlock = None, cu_lastProcessedBlockHash = None,
            cu_recentKeys = [], cu_recentSet = {}\<rparr>
      in case readFile content of
           None \<Rightarrow> base
         | Some (fs, chainId, ks) \<Rightarrow>
             if chainId \<noteq> cp_chainId params then base
             else let recentKeys = string_elements ks;
                      capped = drop (length recentKeys - cu_maxRecentKeys base) recentKeys
                  in base\<lparr>cu_lastProcessedBlock := parseBigintOrUndefined (map_of fs ''lastProcessedBlock''),
                          cu_lastProcessedBlockHash :=
                            (case map_of fs ''lastProcessedBlockHash'' of
                               Some (JStr h) \<Rightarrow> if h = [] then None else Some h | _ \<Rightarrow> None),
                          cu_recentKeys := capped, cu_recentSet := set capped\<rparr>)"

section \<open>Operations\<close>

definition rewound :: "cursor \<Rightarrow> int \<Rightarrow> int" where
  "rewound c b = (if b > cu_rewindBlocks c then b - cu_rewindBlocks c else 0)"

definition getStartBlock :: "cursor \<Rightarrow> int option" where
  "getStartBlock c = map_option (rewound c) (cu_lastProcessedBlock c)"

definition shouldProcess :: "cursor_event \<Rightarrow> cursor \<Rightarrow> bool" where
  "shouldProcess ev c \<longleftrightarrow> keyForEvent ev \<notin> cu_recentSet c"

text \<open>The \<open>while\<close> that drops the oldest keys; an empty key would be dropped from the list only.\<close>

function trim_keys :: "cursor \<Rightarrow> cursor" where
  "trim_keys c =
     (if length (cu_recentKeys c) > cu_maxRecentKeys c
      then (case cu_recentKeys c of
              [] \<Rightarrow> c
            | oldest # rest \<Rightarrow>
                trim_keys (c\<lparr>cu_recentKeys := rest,
                    cu_recentSet := (if oldest = [] then cu_recentSet c else cu_recentSet c - {oldest})\<rparr>))
      else c)"
  by pat_completeness auto
termination by (relation "measure (\<lambda>c. length (cu_recentKeys c))") auto

declare trim_keys.simps [simp del]

definition persist :: "cursor \<Rightarrow> json" where
  "persist c = JObj ([(''version'', JNum 1), (''chainId'', JNum (cu_chainId c)),
       (''rewindBlocks'', JStr (int_string (cu_rewindBlocks c)))]
     @ (case cu_lastProcessedBlock c of None \<Rightarrow> []
          | Some b \<Rightarrow> [(''lastProcessedBlock'', JStr (int_string b))])
     @ (case cu_lastProcessedBlockHash c of None \<Rightarrow> []
          | Some h \<Rightarrow> [(''lastProcessedBlockHash'', JStr h)])
     @ [(''recentKeys'', JArr (map JStr (cu_recentKeys c)))])"

definition record_key :: "string \<Rightarrow> cursor \<Rightarrow> cursor" where
  "record_key key c =
     (if key \<notin> cu_recentSet c
      then trim_keys (c\<lparr>cu_recentKeys := cu_recentKeys c @ [key], cu_recentSet := insert key (cu_recentSet c)\<rparr>)
      else c)"

definition record_block :: "(int \<Rightarrow> string option) \<Rightarrow> int \<Rightarrow> cursor \<Rightarrow> cursor" where
  "record_block getBlock blockNumber c =
     (if (case cu_lastProcessedBlock c of None \<Rightarrow> True | Some b \<Rightarrow> blockNumber > b)
      then let c = c\<lparr>cu_lastProcessedBlock := Some blockNumber\<rparr> in
           (case getBlock blockNumber of
              None \<Rightarrow> c
            | Some h \<Rightarrow> c\<lparr>cu_lastProcessedBlockHash := Some h\<rparr>)
      else c)"

definition recordProcessedEvent ::
  "(int \<Rightarrow> string option) \<Rightarrow> cursor_event \<Rightarrow> cursor \<Rightarrow> cursor \<times> json" where
  "recordProcessedEvent getBlock ev c =
     (let c = record_block getBlock (ce_blockNumber ev) (record_key (keyForEvent ev) c) in (c, persist c))"

definition rewind :: "cursor \<Rightarrow> cursor" where
  "rewind c =
     (case cu_lastProcessedBlock c of
        None \<Rightarrow> c\<lparr>cu_recentKeys := [], cu_recentSet := {}, cu_lastProcessedBlockHash := None\<rparr>
      | Some b \<Rightarrow> c\<lparr>cu_lastProcessedBlock := Some (rewound c b), cu_lastProcessedBlockHash := None,
                       cu_recentKeys := [], cu_recentSet := {}\<rparr>)"

text \<open>The result (\<open>Some\<close>: not ok, with the block rewound from), and the file when it is written.\<close>

definition validateAgainstChain ::
  "(int \<Rightarrow> string option) \<Rightarrow> cursor \<Rightarrow> cursor \<times> int option \<times> json option" where
  "validateAgainstChain getBlock c =
     (case (cu_lastProcessedBlock c, cu_lastProcessedBlockHash c) of
        (Some b, Some hash) \<Rightarrow>
          if getBlock b = Some hash then (c, None, None)
          else let c' = rewind c in (c', Some b, Some (persist c'))
      | _ \<Rightarrow> (c, None, None))"

section \<open>Invariant\<close>

definition cursor_ok :: "cursor \<Rightarrow> bool" where
  "cursor_ok c \<longleftrightarrow> cu_recentSet c = set (cu_recentKeys c) \<and> distinct (cu_recentKeys c)
     \<and> length (cu_recentKeys c) \<le> cu_maxRecentKeys c \<and> [] \<notin> set (cu_recentKeys c)
     \<and> 0 \<le> cu_rewindBlocks c
     \<and> (\<forall>b. cu_lastProcessedBlock c = Some b \<longrightarrow> 0 \<le> b)
     \<and> cu_lastProcessedBlockHash c \<noteq> Some []"

lemma trim_keys_drop:
  assumes "cu_recentSet c = set (cu_recentKeys c)" and "distinct (cu_recentKeys c)" and "[] \<notin> set (cu_recentKeys c)"
  shows "trim_keys c = (let ks = drop (length (cu_recentKeys c) - cu_maxRecentKeys c) (cu_recentKeys c)
    in c\<lparr>cu_recentKeys := ks, cu_recentSet := set ks\<rparr>)"
  using assms
proof (induction c rule: trim_keys.induct)
  case (1 c)
  show ?case
  proof (cases "length (cu_recentKeys c) > cu_maxRecentKeys c")
    case False
    then show ?thesis using 1(2) by (subst trim_keys.simps) simp
  next
    case True
    then obtain k ks where k: "cu_recentKeys c = k # ks" by (cases "cu_recentKeys c") auto
    have k0: "k \<noteq> []" "[] \<notin> set ks" "cu_recentSet c - {k} = set ks" using 1(2-4) k by auto
    then have "trim_keys c = trim_keys (c\<lparr>cu_recentKeys := ks, cu_recentSet := set ks\<rparr>)"
      using True k 1(4) by (subst trim_keys.simps) auto
    also have "\<dots> = (let ks = drop (length ks - cu_maxRecentKeys c) ks
        in c\<lparr>cu_recentKeys := ks, cu_recentSet := set ks\<rparr>)"
      using 1(1) [OF True k] 1(3) k k0 by (simp add: Let_def)
    finally show ?thesis using True k by (simp add: Let_def Suc_diff_le)
  qed
qed

lemma record_key_new:
  assumes "cursor_ok c" and "key \<notin> cu_recentSet c" and "key \<noteq> []"
  shows "record_key key c = (let ks = drop (length (cu_recentKeys c) + 1 - cu_maxRecentKeys c) (cu_recentKeys c @ [key])
    in c\<lparr>cu_recentKeys := ks, cu_recentSet := set ks\<rparr>)"
  using assms
  by (subst record_key_def, simp, subst trim_keys_drop) (auto simp: cursor_ok_def Let_def)

lemma record_key_ok:
  assumes "cursor_ok c" and "key \<noteq> []"
  shows "cursor_ok (record_key key c)"
proof (cases "key \<in> cu_recentSet c")
  case True
  then show ?thesis using assms by (simp add: record_key_def)
next
  case False
  have "set (drop n (cu_recentKeys c @ [key])) \<subseteq> set (cu_recentKeys c) \<union> {key}" for n
    using set_drop_subset [of n "cu_recentKeys c @ [key]"] by simp
  moreover have "distinct (drop n (cu_recentKeys c @ [key]))" for n
    using assms(1) False by (intro distinct_drop) (auto simp: cursor_ok_def)
  ultimately show ?thesis using assms
    unfolding record_key_new [OF assms(1) False assms(2)]
    by (auto simp: cursor_ok_def Let_def simp del: drop_append)
qed

lemma keyForEvent_nonempty [simp]: "keyForEvent ev \<noteq> []"
  by (simp add: keyForEvent_def)

lemma record_block_simps [simp]:
  "cu_recentKeys (record_block g n c) = cu_recentKeys c"
  "cu_recentSet (record_block g n c) = cu_recentSet c"
  "cu_maxRecentKeys (record_block g n c) = cu_maxRecentKeys c"
  "cu_rewindBlocks (record_block g n c) = cu_rewindBlocks c"
  "cu_chainId (record_block g n c) = cu_chainId c"
  by (simp_all add: record_block_def Let_def split: option.splits)

lemma record_ok:
  assumes "cursor_ok c" and "0 \<le> ce_blockNumber ev" and "\<And>n. getBlock n \<noteq> Some []"
  shows "cursor_ok (fst (recordProcessedEvent getBlock ev c))"
proof -
  have "cursor_ok (record_block getBlock n c)" if "cursor_ok c" "0 \<le> n" for n c
    using that assms(3) by (auto simp: cursor_ok_def record_block_def Let_def split: option.splits)
  then show ?thesis using record_key_ok [OF assms(1)] assms(2)
    by (simp add: recordProcessedEvent_def Let_def)
qed

definition process_all :: "(int \<Rightarrow> string option) \<Rightarrow> cursor_event list \<Rightarrow> cursor \<Rightarrow> cursor" where
  "process_all getBlock evs c = fold (\<lambda>ev c. fst (recordProcessedEvent getBlock ev c)) evs c"

lemma fresh_ok: "cursor_ok (load_cursor p None)"
  by (simp add: load_cursor_def readFile_def cursor_ok_def Let_def)

lemma process_all_ok:
  "cursor_ok c \<Longrightarrow> (\<forall>ev \<in> set evs. 0 \<le> ce_blockNumber ev) \<Longrightarrow> (\<And>n. getBlock n \<noteq> Some []) \<Longrightarrow>
     cursor_ok (process_all getBlock evs c)"
  by (induction evs arbitrary: c) (simp_all add: process_all_def record_ok)

lemma record_key_fields [simp]:
  assumes "cursor_ok c" "key \<noteq> []"
  shows "cu_maxRecentKeys (record_key key c) = cu_maxRecentKeys c"
    "cu_rewindBlocks (record_key key c) = cu_rewindBlocks c"
    "cu_chainId (record_key key c) = cu_chainId c"
    "cu_lastProcessedBlock (record_key key c) = cu_lastProcessedBlock c"
    "cu_lastProcessedBlockHash (record_key key c) = cu_lastProcessedBlockHash c"
  using record_key_new [OF assms(1) _ assms(2)] by (cases "key \<in> cu_recentSet c"; simp add: record_key_def Let_def)+

section \<open>Properties\<close>

text \<open>What the keys hold while the cap is not reached.\<close>

lemma record_key_uncapped:
  assumes "cursor_ok c" and "key \<noteq> []" and "card (insert key (cu_recentSet c)) \<le> cu_maxRecentKeys c"
  shows "cu_recentSet (record_key key c) = insert key (cu_recentSet c)"
proof (cases "key \<in> cu_recentSet c")
  case True
  then show ?thesis by (simp add: record_key_def insert_absorb)
next
  case False
  have "card (cu_recentSet c) = length (cu_recentKeys c)" and "finite (cu_recentSet c)"
    using assms(1) by (simp_all add: cursor_ok_def distinct_card)
  then have "Suc (length (cu_recentKeys c)) - cu_maxRecentKeys c = 0"
    using assms(3) False by simp
  then show ?thesis
    using assms(1) unfolding record_key_new [OF assms(1) False assms(2)]
    by (simp add: Let_def cursor_ok_def)
qed

lemma process_all_keys:
  assumes "cursor_ok c" and "\<forall>ev \<in> set evs. 0 \<le> ce_blockNumber ev" and "\<And>n. getBlock n \<noteq> Some []"
    and "card (cu_recentSet c \<union> keyForEvent ` set evs) \<le> cu_maxRecentKeys c"
  shows "cu_recentSet (process_all getBlock evs c) = cu_recentSet c \<union> keyForEvent ` set evs"
  using assms(1,2,4)
proof (induction evs arbitrary: c)
  case Nil
  then show ?case by (simp add: process_all_def)
next
  case (Cons ev evs)
  let ?c = "fst (recordProcessedEvent getBlock ev c)"
  have fin: "finite (cu_recentSet c \<union> keyForEvent ` set (ev # evs))"
    using Cons.prems(1) by (simp add: cursor_ok_def)
  have "card (insert (keyForEvent ev) (cu_recentSet c)) \<le> cu_maxRecentKeys c"
    by (rule order_trans [OF card_mono [OF fin] Cons.prems(3)]) auto
  then have c: "cu_recentSet ?c = insert (keyForEvent ev) (cu_recentSet c)"
    "cu_maxRecentKeys ?c = cu_maxRecentKeys c"
    using record_key_uncapped [OF Cons.prems(1)] Cons.prems(1)
    by (simp_all add: recordProcessedEvent_def Let_def)
  have "cursor_ok ?c" using record_ok [OF Cons.prems(1) _ assms(3)] Cons.prems(2) by simp
  from Cons.IH [OF this] c Cons.prems show ?case by (simp add: process_all_def)
qed

lemma process_all_last:
  assumes "cursor_ok c" and "\<forall>ev \<in> set evs. 0 \<le> ce_blockNumber ev" and "\<And>n. getBlock n \<noteq> Some []"
  shows "cu_lastProcessedBlock (process_all getBlock evs c)
      = fold (\<lambda>ev l. case l of None \<Rightarrow> Some (ce_blockNumber ev) | Some b \<Rightarrow> Some (max b (ce_blockNumber ev)))
          evs (cu_lastProcessedBlock c)
    \<and> cu_rewindBlocks (process_all getBlock evs c) = cu_rewindBlocks c"
  using assms(1,2)
proof (induction evs arbitrary: c)
  case Nil
  then show ?case by (simp add: process_all_def)
next
  case (Cons ev evs)
  let ?c = "fst (recordProcessedEvent getBlock ev c)"
  have "cu_lastProcessedBlock (record_block getBlock n d) = (case cu_lastProcessedBlock d of
      None \<Rightarrow> Some n | Some b \<Rightarrow> Some (max b n))" for n and d :: cursor
    by (auto simp: record_block_def Let_def max_def split: option.splits)
  then have "cu_lastProcessedBlock ?c = (case cu_lastProcessedBlock c of
      None \<Rightarrow> Some (ce_blockNumber ev) | Some b \<Rightarrow> Some (max b (ce_blockNumber ev)))"
    and "cu_rewindBlocks ?c = cu_rewindBlocks c"
    using Cons.prems(1) by (simp_all add: recordProcessedEvent_def Let_def)
  moreover have "cursor_ok ?c" using record_ok [OF Cons.prems(1) _ assms(3)] Cons.prems(2) by simp
  ultimately show ?case using Cons.IH [of ?c] Cons.prems by (simp add: process_all_def)
qed

lemma fold_max_some:
  "fold (\<lambda>ev l. case l of None \<Rightarrow> Some (f ev) | Some b \<Rightarrow> Some (max b (f ev))) evs (Some b)
     = Some (Max (insert b (f ` set evs)))" for f :: "'a \<Rightarrow> int"
proof (induction evs arbitrary: b)
  case (Cons ev evs)
  have "Max (insert (max b (f ev)) (f ` set evs)) = Max (insert b (f ` set (ev # evs)))"
    by (cases "evs = []") (simp_all add: max.assoc)
  then show ?case using Cons.IH by simp
qed simp

text \<open>
  The cursor remembers exactly what it has processed: starting from no file, after any events have
  been recorded, as long as their keys fit the cap an event is taken again iff its key is not among
  theirs, and a restart begins at the highest block seen less the rewind, but not below 0.
\<close>

theorem cursor_remembers:
  assumes "evs \<noteq> []" and "\<forall>ev \<in> set evs. 0 \<le> ce_blockNumber ev" and "\<And>n. getBlock n \<noteq> Some []"
    and "card (keyForEvent ` set evs) \<le> cu_maxRecentKeys (load_cursor p None)"
    and "0 \<le> cp_rewindBlocks p"
  shows "(shouldProcess ev (process_all getBlock evs (load_cursor p None)) \<longleftrightarrow> keyForEvent ev \<notin> keyForEvent ` set evs)
    \<and> getStartBlock (process_all getBlock evs (load_cursor p None))
        = Some (max 0 (Max (ce_blockNumber ` set evs) - cp_rewindBlocks p))"
proof -
  let ?c = "load_cursor p None"
  have fresh: "cu_recentSet ?c = {}" "cu_lastProcessedBlock ?c = None" "cu_rewindBlocks ?c = cp_rewindBlocks p"
    using assms(5) by (simp_all add: load_cursor_def readFile_def Let_def)
  obtain e es where evs: "evs = e # es" using assms(1) by (cases evs) auto
  have last: "cu_lastProcessedBlock (process_all getBlock evs ?c) = Some (Max (ce_blockNumber ` set evs))"
    and rw: "cu_rewindBlocks (process_all getBlock evs ?c) = cp_rewindBlocks p"
    using process_all_last [OF fresh_ok assms(2,3)] fresh
    by (simp_all add: evs fold_max_some)
  have "getStartBlock (process_all getBlock evs ?c)
      = Some (max 0 (Max (ce_blockNumber ` set evs) - cp_rewindBlocks p))"
    using rw unfolding getStartBlock_def last by (simp add: rewound_def)
  moreover have "cu_recentSet (process_all getBlock evs ?c) = keyForEvent ` set evs"
    using process_all_keys [OF fresh_ok assms(2,3)] assms(4) fresh(1) by simp
  ultimately show ?thesis by (simp add: shouldProcess_def)
qed

definition sample_params :: cursor_params where
  "sample_params = \<lparr>cp_chainId = 8453, cp_rewindBlocks = 20, cp_maxRecentKeys = JNum 100\<rparr>"

definition sample_cursor_event :: "int \<Rightarrow> cursor_event" where
  "sample_cursor_event n = \<lparr>ce_source_subgraph = False, ce_subgraphId = None, ce_transactionHash = ''0xab'',
     ce_logIndex = nat n, ce_blockNumber = n\<rparr>"

theorem cursor_remembers_witness:
  "getStartBlock (process_all (\<lambda>_. None) [sample_cursor_event 30, sample_cursor_event 25]
      (load_cursor sample_params None)) = Some 10"
proof -
  have "card (keyForEvent ` set [sample_cursor_event 30, sample_cursor_event 25]) \<le> 2"
    by (rule order_trans [OF card_image_le]) (auto simp: card_insert_if)
  then have "card (keyForEvent ` set [sample_cursor_event 30, sample_cursor_event 25])
      \<le> cu_maxRecentKeys (load_cursor sample_params None)"
    by (simp add: load_cursor_def readFile_def sample_params_def clampStrictSafeInteger_def
        parseStrictSafeInteger_def MAX_SAFE_INTEGER_def HARD_MAX_RECENT_KEYS_def)
  then have "getStartBlock (process_all (\<lambda>_. None) [sample_cursor_event 30, sample_cursor_event 25]
      (load_cursor sample_params None)) = Some (max 0 (Max {30, 25} - 20))"
    using cursor_remembers [of "[sample_cursor_event 30, sample_cursor_event 25]" "\<lambda>_. None" sample_params
        "sample_cursor_event 1"]
    by (simp add: sample_cursor_event_def sample_params_def)
  then show ?thesis by simp
qed

lemma is_digits_nat_string: "is_digits (nat_string n)"
proof (induction n rule: nat_string.induct)
  case (1 n)
  then show ?case by (subst nat_string.simps) (auto simp: is_digits_def Let_def)
qed

lemma parse_int_string: "0 \<le> b \<Longrightarrow> parseBigintOrUndefined (Some (JStr (int_string b))) = Some b"
  by (simp add: parseBigintOrUndefined_def int_string_def is_digits_nat_string)

lemma string_elements_map: "[] \<notin> set ks \<Longrightarrow> string_elements (map JStr ks) = ks"
  by (induction ks) auto

text \<open>
  A restart loses nothing: the file that the cursor writes, loaded again with the parameters it was
  made with, gives the cursor back unchanged.
\<close>

theorem cursor_roundtrip:
  assumes "cursor_ok c" and "cu_chainId c = cp_chainId p"
    and "cu_rewindBlocks c = cu_rewindBlocks (load_cursor p None)"
    and "cu_maxRecentKeys c = cu_maxRecentKeys (load_cursor p None)"
  shows "load_cursor p (Some (persist c)) = c"
proof -
  let ?fs = "case persist c of JObj fs \<Rightarrow> fs | _ \<Rightarrow> []"
  have read: "readFile (Some (persist c)) = Some (?fs, cu_chainId c, map JStr (cu_recentKeys c))"
    by (auto simp: readFile_def persist_def map_of_append map_add_def split: option.splits)
  have block: "parseBigintOrUndefined (map_of ?fs ''lastProcessedBlock'') = cu_lastProcessedBlock c"
    using assms(1) parse_int_string
    by (auto simp: persist_def cursor_ok_def map_add_def parseBigintOrUndefined_def [of None]
        split: option.splits)
  have hash: "(case map_of ?fs ''lastProcessedBlockHash'' of
      Some (JStr h) \<Rightarrow> if h = [] then None else Some h | _ \<Rightarrow> None) = cu_lastProcessedBlockHash c"
    using assms(1) by (auto simp: persist_def cursor_ok_def map_add_def split: option.splits)
  have keys: "string_elements (map JStr (cu_recentKeys c)) = cu_recentKeys c"
    using assms(1) by (intro string_elements_map) (simp add: cursor_ok_def)
  have "load_cursor p (Some (persist c)) = (load_cursor p None)\<lparr>
      cu_lastProcessedBlock := cu_lastProcessedBlock c,
      cu_lastProcessedBlockHash := cu_lastProcessedBlockHash c,
      cu_recentKeys := cu_recentKeys c, cu_recentSet := set (cu_recentKeys c)\<rparr>"
    using assms(1,2,4) read keys block hash
    by (simp add: load_cursor_def cursor_ok_def Let_def readFile_def [of None])
  also have "\<dots> = c"
    using assms by (cases c) (simp add: load_cursor_def readFile_def cursor_ok_def Let_def)
  finally show ?thesis .
qed

theorem cursor_roundtrip_witness:
  "load_cursor sample_params (Some (persist (load_cursor sample_params None))) = load_cursor sample_params None"
  by (rule cursor_roundtrip [OF fresh_ok _ refl refl]) (simp add: load_cursor_def readFile_def Let_def)

text \<open>
  A reorganisation is noticed and reprocessed: when the chain no longer has the stored hash at the last
  processed block (or the block cannot be read), the check fails, the cursor goes back by the rewind, the
  same events are all taken again, and the file written holds that state; when the hash still matches,
  nothing changes. But a failed \<open>getBlock\<close> while recording leaves the hash of an older block behind, so
  a check against an unchanged chain also rewinds.
\<close>

theorem reorg_rewinds:
  assumes "cu_lastProcessedBlock c = Some b" and "cu_lastProcessedBlockHash c = Some h"
  shows "(getBlock b = Some h \<longrightarrow> validateAgainstChain getBlock c = (c, None, None))
    \<and> (getBlock b \<noteq> Some h \<longrightarrow> (\<exists>c'. validateAgainstChain getBlock c = (c', Some b, Some (persist c'))
         \<and> cu_lastProcessedBlock c' = getStartBlock c \<and> cu_lastProcessedBlockHash c' = None
         \<and> (\<forall>ev. shouldProcess ev c')))
    \<and> (b < ce_blockNumber ev \<longrightarrow> getBlock (ce_blockNumber ev) \<noteq> Some h \<longrightarrow> cursor_ok c \<longrightarrow>
         fst (snd (validateAgainstChain getBlock (fst (recordProcessedEvent (\<lambda>_. None) ev c))))
           = Some (ce_blockNumber ev))"
proof -
  have "fst (snd (validateAgainstChain getBlock (fst (recordProcessedEvent (\<lambda>_. None) ev c)))) = Some (ce_blockNumber ev)"
    if "b < ce_blockNumber ev" "getBlock (ce_blockNumber ev) \<noteq> Some h" "cursor_ok c"
    using that assms
    by (simp add: recordProcessedEvent_def record_block_def validateAgainstChain_def Let_def)
  then show ?thesis
    using assms by (auto simp: validateAgainstChain_def rewind_def getStartBlock_def shouldProcess_def Let_def)
qed

theorem reorg_rewinds_witness:
  "fst (snd (validateAgainstChain (\<lambda>_. Some ''0x12'')
      ((load_cursor sample_params None)\<lparr>cu_lastProcessedBlock := Some 30, cu_lastProcessedBlockHash := Some ''0x99''\<rparr>)))
    = Some 30"
proof -
  let ?c = "(load_cursor sample_params None)\<lparr>cu_lastProcessedBlock := Some 30, cu_lastProcessedBlockHash := Some ''0x99''\<rparr>"
  have "\<exists>c'. validateAgainstChain (\<lambda>_. Some ''0x12'') ?c = (c', Some 30, Some (persist c'))"
    using reorg_rewinds [of ?c 30 "''0x99''" "\<lambda>_. Some ''0x12''" "sample_cursor_event 1"] by auto
  then show ?thesis by auto
qed

end
