(* ===== verification/PlanIO.thy ===== *)
theory PlanIO
  imports ActionSecurity EventCursor "HOL-Library.AList"
begin

text \<open>
  The plan file of the agent (\<open>src/agents/sdk/src/agent/planio.ts\<close>): an action and a plan to JSON and back, with the
  limits of the reader.

  \<^item> JSON values stand for the text (\<open>JSON.stringify\<close> and \<open>JSON.parse\<close> are the language's); the reader takes what the
    parse gives, \<open>None\<close> when it throws. A field that is missing reads as \<open>null\<close>, which the code treats alike.
  \<^item> The reader checks amounts but neither addresses nor the kind of an action: what it returns is \<open>Typed\<close>, or
    \<open>Untyped\<close> when the value is no action (an unknown kind, or an address that is not a text).
\<close>

section \<open>Fields\<close>

datatype plan_error =
  Not_decimal_string | Empty_decimal | Decimal_too_long nat | Invalid_decimal | Bad_mode | Type_error
| Json_syntax | Not_an_object | Unsupported_version | Too_many_actions nat | Not_a_file | File_too_large

datatype parsed_action = Typed agent_action | Untyped json

definition MAX_BIGINT_DECIMAL_DIGITS :: nat where
  "MAX_BIGINT_DECIMAL_DIGITS = 256"

definition bi :: "json \<Rightarrow> plan_error + int" where
  "bi v = (case v of
     JStr raw \<Rightarrow>
       (let s = js_trim raw in
        if s = [] then Inl Empty_decimal
        else if length s > MAX_BIGINT_DECIMAL_DIGITS then Inl (Decimal_too_long (length s))
        else if \<not> is_digits s then Inl Invalid_decimal
        else Inr (int (string_nat s)))
   | _ \<Rightarrow> Inl Not_decimal_string)"

definition nni :: "json \<Rightarrow> plan_error + int" where
  "nni v = (case parseStrictSafeInteger v of
     Some n \<Rightarrow> if n < 0 then Inl Bad_mode else Inr n | None \<Rightarrow> Inl Bad_mode)"

definition then_get :: "plan_error + 'a \<Rightarrow> ('a \<Rightarrow> plan_error + 'b) \<Rightarrow> plan_error + 'b" where
  "then_get x k = (case x of Inl e \<Rightarrow> Inl e | Inr v \<Rightarrow> k v)"

text \<open>An address is passed on as it is.\<close>

definition text_field :: "json \<Rightarrow> json \<Rightarrow> (string \<Rightarrow> parsed_action) \<Rightarrow> parsed_action" where
  "text_field raw v k = (case v of JStr s \<Rightarrow> k s | _ \<Rightarrow> Untyped raw)"

definition num_text :: "int \<Rightarrow> json" where
  "num_text i = JStr (int_string i)"

definition action_json :: "string \<Rightarrow> (string \<times> json) list \<Rightarrow> json" where
  "action_json kind fs = JObj ((''kind'', JStr kind) # fs)"

section \<open>Actions\<close>

primrec toActionJsonV1 :: "agent_action \<Rightarrow> json" where
  "toActionJsonV1 (Furnace_enterWithEth ethIn targetTokenId durationSeconds createAutoMax slippageBps) =
     action_json ''furnace.enterWithEth''
       [(''ethIn'', num_text ethIn), (''targetTokenId'', num_text targetTokenId),
        (''durationSeconds'', num_text durationSeconds), (''createAutoMax'', JBool createAutoMax),
        (''slippageBps'', num_text slippageBps)]"
| "toActionJsonV1 (Furnace_enterWithEthFor user ethIn targetTokenId durationSeconds createAutoMax slippageBps) =
     action_json ''furnace.enterWithEthFor''
       [(''user'', JStr user), (''ethIn'', num_text ethIn), (''targetTokenId'', num_text targetTokenId),
        (''durationSeconds'', num_text durationSeconds), (''createAutoMax'', JBool createAutoMax),
        (''slippageBps'', num_text slippageBps)]"
| "toActionJsonV1 (Furnace_enterWithClaim claimIn targetTokenId durationSeconds createAutoMax slippageBps) =
     action_json ''furnace.enterWithClaim''
       [(''claimIn'', num_text claimIn), (''targetTokenId'', num_text targetTokenId),
        (''durationSeconds'', num_text durationSeconds), (''createAutoMax'', JBool createAutoMax),
        (''slippageBps'', num_text slippageBps)]"
| "toActionJsonV1 (Furnace_enterWithClaimFromCallerFor user claimIn targetTokenId durationSeconds createAutoMax slippageBps) =
     action_json ''furnace.enterWithClaimFromCallerFor''
       [(''user'', JStr user), (''claimIn'', num_text claimIn), (''targetTokenId'', num_text targetTokenId),
        (''durationSeconds'', num_text durationSeconds), (''createAutoMax'', JBool createAutoMax),
        (''slippageBps'', num_text slippageBps)]"
| "toActionJsonV1 (Furnace_enterWithToken tokenIn amountIn targetTokenId durationSeconds createAutoMax slippageBps) =
     action_json ''furnace.enterWithToken''
       [(''tokenIn'', JStr tokenIn), (''amountIn'', num_text amountIn), (''targetTokenId'', num_text targetTokenId),
        (''durationSeconds'', num_text durationSeconds), (''createAutoMax'', JBool createAutoMax),
        (''slippageBps'', num_text slippageBps)]"
| "toActionJsonV1 (Furnace_enterWithTokenFromCallerFor user tokenIn amountIn targetTokenId durationSeconds createAutoMax slippageBps) =
     action_json ''furnace.enterWithTokenFromCallerFor''
       [(''user'', JStr user), (''tokenIn'', JStr tokenIn), (''amountIn'', num_text amountIn),
        (''targetTokenId'', num_text targetTokenId), (''durationSeconds'', num_text durationSeconds),
        (''createAutoMax'', JBool createAutoMax), (''slippageBps'', num_text slippageBps)]"
| "toActionJsonV1 (MineCore_takeover price) =
     action_json ''mineCore.takeover''
       [(''price'', num_text price)]"
| "toActionJsonV1 (MineCore_takeoverFor newKing price) =
     action_json ''mineCore.takeoverFor''
       [(''newKing'', JStr newKing), (''price'', num_text price)]"
| "toActionJsonV1 (MineCore_takeoverWithToken tokenIn amountIn slippageBps) =
     action_json ''mineCore.takeoverWithToken''
       [(''tokenIn'', JStr tokenIn), (''amountIn'', num_text amountIn), (''slippageBps'', num_text slippageBps)]"
| "toActionJsonV1 (MineCore_setCurrentReignRecipients ethRecipient claimRecipient) =
     action_json ''mineCore.setCurrentReignRecipients''
       [(''ethRecipient'', JStr ethRecipient), (''claimRecipient'', JStr claimRecipient)]"
| "toActionJsonV1 (MineCore_setKingAutoLockConfig enabled targetTokenId durationSeconds createAutoMax minVeOut) =
     action_json ''mineCore.setKingAutoLockConfig''
       [(''enabled'', JBool enabled), (''targetTokenId'', num_text targetTokenId),
        (''durationSeconds'', num_text durationSeconds), (''createAutoMax'', JBool createAutoMax),
        (''minVeOut'', num_text minVeOut)]"
| "toActionJsonV1 (Royalties_claimShareholderEth claimable) =
     action_json ''royalties.claimShareholderEth''
       [(''claimable'', num_text claimable)]"
| "toActionJsonV1 (Royalties_claimShareholderLock targetTokenId durationSeconds createAutoMax slippageBps) =
     action_json ''royalties.claimShareholderLock''
       [(''targetTokenId'', num_text targetTokenId), (''durationSeconds'', num_text durationSeconds),
        (''createAutoMax'', JBool createAutoMax), (''slippageBps'', num_text slippageBps)]"
| "toActionJsonV1 (Royalties_setAutoCompoundConfig enabled tokenId durationSeconds minCadenceSeconds minEthToCompound) =
     action_json ''royalties.setAutoCompoundConfig''
       [(''enabled'', JBool enabled), (''tokenId'', num_text tokenId),
        (''durationSeconds'', num_text durationSeconds), (''minCadenceSeconds'', num_text minCadenceSeconds),
        (''minEthToCompound'', num_text minEthToCompound)]"
| "toActionJsonV1 (ClaimAllHelper_claimShareholderForUser user claimable mode targetTokenId durationSeconds createAutoMax minVeOut) =
     action_json ''claimAllHelper.claimShareholderForUser''
       [(''user'', JStr user), (''claimable'', num_text claimable), (''mode'', JNum mode),
        (''targetTokenId'', num_text targetTokenId), (''durationSeconds'', num_text durationSeconds),
        (''createAutoMax'', JBool createAutoMax), (''minVeOut'', num_text minVeOut)]"
| "toActionJsonV1 (ClaimAllHelper_withdrawKingBalanceForUser user amount) =
     action_json ''claimAllHelper.withdrawKingBalanceForUser''
       [(''user'', JStr user), (''amount'', num_text amount)]"
| "toActionJsonV1 (ClaimAllHelper_claimAllFor user claimable mode targetTokenId durationSeconds createAutoMax minVeOut) =
     action_json ''claimAllHelper.claimAllFor''
       [(''user'', JStr user), (''claimable'', num_text claimable), (''mode'', JNum mode),
        (''targetTokenId'', num_text targetTokenId), (''durationSeconds'', num_text durationSeconds),
        (''createAutoMax'', JBool createAutoMax), (''minVeOut'', num_text minVeOut)]"
| "toActionJsonV1 (MineCore_withdrawKingBalance amount) =
     action_json ''mineCore.withdrawKingBalance''
       [(''amount'', num_text amount)]"
| "toActionJsonV1 (MineCore_withdrawRefundBalance amount to) =
     action_json ''mineCore.withdrawRefundBalance''
       [(''amount'', num_text amount), (''to'', JStr to)]"
| "toActionJsonV1 (MarketRouter_sellLockToFurnace tokenId slippageBps deadlineSeconds) =
     action_json ''marketRouter.sellLockToFurnace''
       [(''tokenId'', num_text tokenId), (''slippageBps'', num_text slippageBps),
        (''deadlineSeconds'', num_text deadlineSeconds)]"
| "toActionJsonV1 (MarketRouter_sellListedLockToFurnace tokenId deadlineSeconds) =
     action_json ''marketRouter.sellListedLockToFurnace''
       [(''tokenId'', num_text tokenId), (''deadlineSeconds'', num_text deadlineSeconds)]"
| "toActionJsonV1 (MarketRouter_listLock tokenId minClaimOut ttlSeconds) =
     action_json ''marketRouter.listLock''
       [(''tokenId'', num_text tokenId), (''minClaimOut'', num_text minClaimOut),
        (''ttlSeconds'', num_text ttlSeconds)]"
| "toActionJsonV1 (MarketRouter_delistLock tokenId) =
     action_json ''marketRouter.delistLock''
       [(''tokenId'', num_text tokenId)]"
| "toActionJsonV1 (MarketRouter_cancelExpiredListing tokenId) =
     action_json ''marketRouter.cancelExpiredListing''
       [(''tokenId'', num_text tokenId)]"
| "toActionJsonV1 (MarketRouter_createBonusTargetEscrowWithTarget targetBonusBps budgetClaim durationSeconds createAutoMax escrowTtlSeconds destinationLockId slippageBps) =
     action_json ''marketRouter.createBonusTargetEscrowWithTarget''
       [(''targetBonusBps'', num_text targetBonusBps), (''budgetClaim'', num_text budgetClaim),
        (''durationSeconds'', num_text durationSeconds), (''createAutoMax'', JBool createAutoMax),
        (''escrowTtlSeconds'', num_text escrowTtlSeconds), (''destinationLockId'', num_text destinationLockId),
        (''slippageBps'', num_text slippageBps)]"
| "toActionJsonV1 (MarketRouter_cancelBonusTargetEscrow offerId) =
     action_json ''marketRouter.cancelBonusTargetEscrow''
       [(''offerId'', num_text offerId)]"
| "toActionJsonV1 (MarketRouter_extendBonusTargetEscrowExpiry offerId ttlSecondsFromNow) =
     action_json ''marketRouter.extendBonusTargetEscrowExpiry''
       [(''offerId'', num_text offerId), (''ttlSecondsFromNow'', num_text ttlSecondsFromNow)]"
| "toActionJsonV1 (MarketRouter_cancelExpiredBonusTargetEscrow offerId) =
     action_json ''marketRouter.cancelExpiredBonusTargetEscrow''
       [(''offerId'', num_text offerId)]"
| "toActionJsonV1 (MarketRouter_executeAutoFurnace offerId) =
     action_json ''marketRouter.executeAutoFurnace''
       [(''offerId'', num_text offerId)]"
| "toActionJsonV1 (Erc20_approve token spender amount) =
     action_json ''erc20.approve''
       [(''token'', JStr token), (''spender'', JStr spender), (''amount'', num_text amount)]"
| "toActionJsonV1 (Erc20_ensureAllowance token spender minAllowance approveAmount) =
     action_json ''erc20.ensureAllowance''
       [(''token'', JStr token), (''spender'', JStr spender), (''minAllowance'', num_text minAllowance),
        (''approveAmount'', num_text approveAmount)]"
| "toActionJsonV1 (Ve_approve spender tokenId) =
     action_json ''ve.approve''
       [(''spender'', JStr spender), (''tokenId'', num_text tokenId)]"
| "toActionJsonV1 (Ve_setApprovalForAll operator approved) =
     action_json ''ve.setApprovalForAll''
       [(''operator'', JStr operator), (''approved'', JBool approved)]"
| "toActionJsonV1 (Furnace_extendWithBonus tokenId durationSeconds minBonusOut) =
     action_json ''furnace.extendWithBonus''
       [(''tokenId'', num_text tokenId), (''durationSeconds'', num_text durationSeconds),
        (''minBonusOut'', num_text minBonusOut)]"
| "toActionJsonV1 (Furnace_extendWithBonusFor user tokenId durationSeconds minBonusOut) =
     action_json ''furnace.extendWithBonusFor''
       [(''user'', JStr user), (''tokenId'', num_text tokenId), (''durationSeconds'', num_text durationSeconds),
        (''minBonusOut'', num_text minBonusOut)]"
| "toActionJsonV1 (Furnace_mergeLocksWithBonus fromTokenId intoTokenId minBonusOut) =
     action_json ''furnace.mergeLocksWithBonus''
       [(''fromTokenId'', num_text fromTokenId), (''intoTokenId'', num_text intoTokenId),
        (''minBonusOut'', num_text minBonusOut)]"
| "toActionJsonV1 (Ve_unlock tokenId) =
     action_json ''ve.unlock''
       [(''tokenId'', num_text tokenId)]"
| "toActionJsonV1 (Ve_setAutoMax tokenId enabled) =
     action_json ''ve.setAutoMax''
       [(''tokenId'', num_text tokenId), (''enabled'', JBool enabled)]"
| "toActionJsonV1 Ve_checkpointGlobalState =
     action_json ''ve.checkpointGlobalState''
       []"
| "toActionJsonV1 Ve_checkpointTotalVe =
     action_json ''ve.checkpointTotalVe''
       []"
| "toActionJsonV1 (Furnace_mergeLocksWithBonusFor user fromTokenId intoTokenId minBonusOut) =
     action_json ''furnace.mergeLocksWithBonusFor''
       [(''user'', JStr user), (''fromTokenId'', num_text fromTokenId), (''intoTokenId'', num_text intoTokenId),
        (''minBonusOut'', num_text minBonusOut)]"
| "toActionJsonV1 (Ve_unlockExpiredForUser user tokenId) =
     action_json ''ve.unlockExpiredForUser''
       [(''user'', JStr user), (''tokenId'', num_text tokenId)]"
| "toActionJsonV1 (MineCore_setKingAutoLockConfigForUser user enabled targetTokenId durationSeconds createAutoMax minVeOut) =
     action_json ''mineCore.setKingAutoLockConfigForUser''
       [(''user'', JStr user), (''enabled'', JBool enabled), (''targetTokenId'', num_text targetTokenId),
        (''durationSeconds'', num_text durationSeconds), (''createAutoMax'', JBool createAutoMax),
        (''minVeOut'', num_text minVeOut)]"
| "toActionJsonV1 (Royalties_setAutoCompoundConfigForUser user enabled tokenId durationSeconds minCadenceSeconds minEthToCompound) =
     action_json ''royalties.setAutoCompoundConfigForUser''
       [(''user'', JStr user), (''enabled'', JBool enabled), (''tokenId'', num_text tokenId),
        (''durationSeconds'', num_text durationSeconds), (''minCadenceSeconds'', num_text minCadenceSeconds),
        (''minEthToCompound'', num_text minEthToCompound)]"
| "toActionJsonV1 (LpVault_setAutoCompoundConfigForUser user enabled tokenId durationSeconds) =
     action_json ''lpVault.setAutoCompoundConfigForUser''
       [(''user'', JStr user), (''enabled'', JBool enabled), (''tokenId'', num_text tokenId),
        (''durationSeconds'', num_text durationSeconds)]"

definition fromAction3 :: "json \<Rightarrow> string \<Rightarrow> (string \<Rightarrow> json) \<Rightarrow> plan_error + parsed_action" where
  "fromAction3 raw kind f =
     (if kind = ''erc20.ensureAllowance'' then
       then_get (bi (f ''minAllowance'')) (\<lambda>minAllowance.
       then_get (bi (f ''approveAmount'')) (\<lambda>approveAmount. Inr (text_field raw (f ''token'') (\<lambda>token.
       text_field raw (f ''spender'') (\<lambda>spender.
       Typed (Erc20_ensureAllowance token spender minAllowance approveAmount))))))
     else if kind = ''ve.approve'' then
       then_get (bi (f ''tokenId'')) (\<lambda>tokenId. Inr (text_field raw (f ''spender'') (\<lambda>spender.
       Typed (Ve_approve spender tokenId))))
     else if kind = ''ve.setApprovalForAll'' then
       Inr (text_field raw (f ''operator'') (\<lambda>operator.
       Typed (Ve_setApprovalForAll operator (json_truthy (f ''approved'')))))
     else if kind = ''furnace.extendWithBonus'' then
       then_get (bi (f ''tokenId'')) (\<lambda>tokenId.
       then_get (bi (f ''durationSeconds'')) (\<lambda>durationSeconds.
       then_get (bi (f ''minBonusOut'')) (\<lambda>minBonusOut.
       Inr (Typed (Furnace_extendWithBonus tokenId durationSeconds minBonusOut)))))
     else if kind = ''furnace.extendWithBonusFor'' then
       then_get (bi (f ''tokenId'')) (\<lambda>tokenId.
       then_get (bi (f ''durationSeconds'')) (\<lambda>durationSeconds.
       then_get (bi (f ''minBonusOut'')) (\<lambda>minBonusOut. Inr (text_field raw (f ''user'') (\<lambda>user.
       Typed (Furnace_extendWithBonusFor user tokenId durationSeconds minBonusOut))))))
     else if kind = ''furnace.mergeLocksWithBonus'' then
       then_get (bi (f ''fromTokenId'')) (\<lambda>fromTokenId.
       then_get (bi (f ''intoTokenId'')) (\<lambda>intoTokenId.
       then_get (bi (f ''minBonusOut'')) (\<lambda>minBonusOut.
       Inr (Typed (Furnace_mergeLocksWithBonus fromTokenId intoTokenId minBonusOut)))))
     else if kind = ''ve.unlock'' then
       then_get (bi (f ''tokenId'')) (\<lambda>tokenId. Inr (Typed (Ve_unlock tokenId)))
     else if kind = ''ve.setAutoMax'' then
       then_get (bi (f ''tokenId'')) (\<lambda>tokenId.
       Inr (Typed (Ve_setAutoMax tokenId (json_truthy (f ''enabled'')))))
     else if kind = ''ve.checkpointGlobalState'' then
       Inr (Typed Ve_checkpointGlobalState)
     else if kind = ''ve.checkpointTotalVe'' then
       Inr (Typed Ve_checkpointTotalVe)
     else if kind = ''furnace.mergeLocksWithBonusFor'' then
       then_get (bi (f ''fromTokenId'')) (\<lambda>fromTokenId.
       then_get (bi (f ''intoTokenId'')) (\<lambda>intoTokenId.
       then_get (bi (f ''minBonusOut'')) (\<lambda>minBonusOut. Inr (text_field raw (f ''user'') (\<lambda>user.
       Typed (Furnace_mergeLocksWithBonusFor user fromTokenId intoTokenId minBonusOut))))))
     else if kind = ''ve.unlockExpiredForUser'' then
       then_get (bi (f ''tokenId'')) (\<lambda>tokenId. Inr (text_field raw (f ''user'') (\<lambda>user.
       Typed (Ve_unlockExpiredForUser user tokenId))))
     else if kind = ''mineCore.setKingAutoLockConfigForUser'' then
       then_get (bi (f ''targetTokenId'')) (\<lambda>targetTokenId.
       then_get (bi (f ''durationSeconds'')) (\<lambda>durationSeconds.
       then_get (bi (f ''minVeOut'')) (\<lambda>minVeOut. Inr (text_field raw (f ''user'') (\<lambda>user.
       Typed (MineCore_setKingAutoLockConfigForUser user (json_truthy (f ''enabled'')) targetTokenId durationSeconds (json_truthy (f ''createAutoMax'')) minVeOut))))))
     else if kind = ''royalties.setAutoCompoundConfigForUser'' then
       then_get (bi (f ''tokenId'')) (\<lambda>tokenId.
       then_get (bi (f ''durationSeconds'')) (\<lambda>durationSeconds.
       then_get (bi (f ''minCadenceSeconds'')) (\<lambda>minCadenceSeconds.
       then_get (bi (f ''minEthToCompound'')) (\<lambda>minEthToCompound.
       Inr (text_field raw (f ''user'') (\<lambda>user.
       Typed (Royalties_setAutoCompoundConfigForUser user (json_truthy (f ''enabled'')) tokenId durationSeconds minCadenceSeconds minEthToCompound)))))))
     else if kind = ''lpVault.setAutoCompoundConfigForUser'' then
       then_get (bi (f ''tokenId'')) (\<lambda>tokenId.
       then_get (bi (f ''durationSeconds'')) (\<lambda>durationSeconds.
       Inr (text_field raw (f ''user'') (\<lambda>user.
       Typed (LpVault_setAutoCompoundConfigForUser user (json_truthy (f ''enabled'')) tokenId durationSeconds)))))
     else Inr (Untyped raw))"

definition fromAction2 :: "json \<Rightarrow> string \<Rightarrow> (string \<Rightarrow> json) \<Rightarrow> plan_error + parsed_action" where
  "fromAction2 raw kind f =
     (if kind = ''claimAllHelper.withdrawKingBalanceForUser'' then
       then_get (bi (f ''amount'')) (\<lambda>amount. Inr (text_field raw (f ''user'') (\<lambda>user.
       Typed (ClaimAllHelper_withdrawKingBalanceForUser user amount))))
     else if kind = ''claimAllHelper.claimAllFor'' then
       then_get (bi (f ''claimable'')) (\<lambda>claimable. then_get (nni (f ''mode'')) (\<lambda>mode.
       then_get (bi (f ''targetTokenId'')) (\<lambda>targetTokenId.
       then_get (bi (f ''durationSeconds'')) (\<lambda>durationSeconds.
       then_get (bi (f ''minVeOut'')) (\<lambda>minVeOut. Inr (text_field raw (f ''user'') (\<lambda>user.
       Typed (ClaimAllHelper_claimAllFor user claimable mode targetTokenId durationSeconds (json_truthy (f ''createAutoMax'')) minVeOut))))))))
     else if kind = ''mineCore.withdrawKingBalance'' then
       then_get (bi (f ''amount'')) (\<lambda>amount. Inr (Typed (MineCore_withdrawKingBalance amount)))
     else if kind = ''mineCore.withdrawRefundBalance'' then
       then_get (bi (f ''amount'')) (\<lambda>amount. Inr (text_field raw (f ''to'') (\<lambda>to.
       Typed (MineCore_withdrawRefundBalance amount to))))
     else if kind = ''marketRouter.sellLockToFurnace'' then
       then_get (bi (f ''tokenId'')) (\<lambda>tokenId. then_get (bi (f ''slippageBps'')) (\<lambda>slippageBps.
       then_get (bi (f ''deadlineSeconds'')) (\<lambda>deadlineSeconds.
       Inr (Typed (MarketRouter_sellLockToFurnace tokenId slippageBps deadlineSeconds)))))
     else if kind = ''marketRouter.sellListedLockToFurnace'' then
       then_get (bi (f ''tokenId'')) (\<lambda>tokenId.
       then_get (bi (f ''deadlineSeconds'')) (\<lambda>deadlineSeconds.
       Inr (Typed (MarketRouter_sellListedLockToFurnace tokenId deadlineSeconds))))
     else if kind = ''marketRouter.listLock'' then
       then_get (bi (f ''tokenId'')) (\<lambda>tokenId. then_get (bi (f ''minClaimOut'')) (\<lambda>minClaimOut.
       then_get (bi (f ''ttlSeconds'')) (\<lambda>ttlSeconds.
       Inr (Typed (MarketRouter_listLock tokenId minClaimOut ttlSeconds)))))
     else if kind = ''marketRouter.delistLock'' then
       then_get (bi (f ''tokenId'')) (\<lambda>tokenId. Inr (Typed (MarketRouter_delistLock tokenId)))
     else if kind = ''marketRouter.cancelExpiredListing'' then
       then_get (bi (f ''tokenId'')) (\<lambda>tokenId. Inr (Typed (MarketRouter_cancelExpiredListing tokenId)))
     else if kind = ''marketRouter.createBonusTargetEscrowWithTarget'' then
       then_get (bi (f ''targetBonusBps'')) (\<lambda>targetBonusBps.
       then_get (bi (f ''budgetClaim'')) (\<lambda>budgetClaim.
       then_get (bi (f ''durationSeconds'')) (\<lambda>durationSeconds.
       then_get (bi (f ''escrowTtlSeconds'')) (\<lambda>escrowTtlSeconds.
       then_get (bi (f ''destinationLockId'')) (\<lambda>destinationLockId.
       then_get (bi (f ''slippageBps'')) (\<lambda>slippageBps.
       Inr (Typed (MarketRouter_createBonusTargetEscrowWithTarget targetBonusBps budgetClaim durationSeconds (json_truthy (f ''createAutoMax'')) escrowTtlSeconds destinationLockId slippageBps))))))))
     else if kind = ''marketRouter.cancelBonusTargetEscrow'' then
       then_get (bi (f ''offerId'')) (\<lambda>offerId. Inr (Typed (MarketRouter_cancelBonusTargetEscrow offerId)))
     else if kind = ''marketRouter.extendBonusTargetEscrowExpiry'' then
       then_get (bi (f ''offerId'')) (\<lambda>offerId.
       then_get (bi (f ''ttlSecondsFromNow'')) (\<lambda>ttlSecondsFromNow.
       Inr (Typed (MarketRouter_extendBonusTargetEscrowExpiry offerId ttlSecondsFromNow))))
     else if kind = ''marketRouter.cancelExpiredBonusTargetEscrow'' then
       then_get (bi (f ''offerId'')) (\<lambda>offerId.
       Inr (Typed (MarketRouter_cancelExpiredBonusTargetEscrow offerId)))
     else if kind = ''marketRouter.executeAutoFurnace'' then
       then_get (bi (f ''offerId'')) (\<lambda>offerId. Inr (Typed (MarketRouter_executeAutoFurnace offerId)))
     else if kind = ''erc20.approve'' then
       then_get (bi (f ''amount'')) (\<lambda>amount. Inr (text_field raw (f ''token'') (\<lambda>token.
       text_field raw (f ''spender'') (\<lambda>spender. Typed (Erc20_approve token spender amount)))))
     else fromAction3 raw kind f)"

definition fromAction1 :: "json \<Rightarrow> string \<Rightarrow> (string \<Rightarrow> json) \<Rightarrow> plan_error + parsed_action" where
  "fromAction1 raw kind f =
     (if kind = ''furnace.enterWithEth'' then
       then_get (bi (f ''ethIn'')) (\<lambda>ethIn. then_get (bi (f ''targetTokenId'')) (\<lambda>targetTokenId.
       then_get (bi (f ''durationSeconds'')) (\<lambda>durationSeconds.
       then_get (bi (f ''slippageBps'')) (\<lambda>slippageBps.
       Inr (Typed (Furnace_enterWithEth ethIn targetTokenId durationSeconds (json_truthy (f ''createAutoMax'')) slippageBps))))))
     else if kind = ''furnace.enterWithEthFor'' then
       then_get (bi (f ''ethIn'')) (\<lambda>ethIn. then_get (bi (f ''targetTokenId'')) (\<lambda>targetTokenId.
       then_get (bi (f ''durationSeconds'')) (\<lambda>durationSeconds.
       then_get (bi (f ''slippageBps'')) (\<lambda>slippageBps. Inr (text_field raw (f ''user'') (\<lambda>user.
       Typed (Furnace_enterWithEthFor user ethIn targetTokenId durationSeconds (json_truthy (f ''createAutoMax'')) slippageBps)))))))
     else if kind = ''furnace.enterWithClaim'' then
       then_get (bi (f ''claimIn'')) (\<lambda>claimIn. then_get (bi (f ''targetTokenId'')) (\<lambda>targetTokenId.
       then_get (bi (f ''durationSeconds'')) (\<lambda>durationSeconds.
       then_get (bi (f ''slippageBps'')) (\<lambda>slippageBps.
       Inr (Typed (Furnace_enterWithClaim claimIn targetTokenId durationSeconds (json_truthy (f ''createAutoMax'')) slippageBps))))))
     else if kind = ''furnace.enterWithClaimFromCallerFor'' then
       then_get (bi (f ''claimIn'')) (\<lambda>claimIn. then_get (bi (f ''targetTokenId'')) (\<lambda>targetTokenId.
       then_get (bi (f ''durationSeconds'')) (\<lambda>durationSeconds.
       then_get (bi (f ''slippageBps'')) (\<lambda>slippageBps. Inr (text_field raw (f ''user'') (\<lambda>user.
       Typed (Furnace_enterWithClaimFromCallerFor user claimIn targetTokenId durationSeconds (json_truthy (f ''createAutoMax'')) slippageBps)))))))
     else if kind = ''furnace.enterWithToken'' then
       then_get (bi (f ''amountIn'')) (\<lambda>amountIn. then_get (bi (f ''targetTokenId'')) (\<lambda>targetTokenId.
       then_get (bi (f ''durationSeconds'')) (\<lambda>durationSeconds.
       then_get (bi (f ''slippageBps'')) (\<lambda>slippageBps. Inr (text_field raw (f ''tokenIn'') (\<lambda>tokenIn.
       Typed (Furnace_enterWithToken tokenIn amountIn targetTokenId durationSeconds (json_truthy (f ''createAutoMax'')) slippageBps)))))))
     else if kind = ''furnace.enterWithTokenFromCallerFor'' then
       then_get (bi (f ''amountIn'')) (\<lambda>amountIn. then_get (bi (f ''targetTokenId'')) (\<lambda>targetTokenId.
       then_get (bi (f ''durationSeconds'')) (\<lambda>durationSeconds.
       then_get (bi (f ''slippageBps'')) (\<lambda>slippageBps. Inr (text_field raw (f ''user'') (\<lambda>user.
       text_field raw (f ''tokenIn'') (\<lambda>tokenIn.
       Typed (Furnace_enterWithTokenFromCallerFor user tokenIn amountIn targetTokenId durationSeconds (json_truthy (f ''createAutoMax'')) slippageBps))))))))
     else if kind = ''mineCore.takeover'' then
       then_get (bi (f ''price'')) (\<lambda>price. Inr (Typed (MineCore_takeover price)))
     else if kind = ''mineCore.takeoverFor'' then
       then_get (bi (f ''price'')) (\<lambda>price. Inr (text_field raw (f ''newKing'') (\<lambda>newKing.
       Typed (MineCore_takeoverFor newKing price))))
     else if kind = ''mineCore.takeoverWithToken'' then
       then_get (bi (f ''amountIn'')) (\<lambda>amountIn. then_get (bi (f ''slippageBps'')) (\<lambda>slippageBps.
       Inr (text_field raw (f ''tokenIn'') (\<lambda>tokenIn.
       Typed (MineCore_takeoverWithToken tokenIn amountIn slippageBps)))))
     else if kind = ''mineCore.setCurrentReignRecipients'' then
       Inr (text_field raw (f ''ethRecipient'') (\<lambda>ethRecipient.
       text_field raw (f ''claimRecipient'') (\<lambda>claimRecipient.
       Typed (MineCore_setCurrentReignRecipients ethRecipient claimRecipient))))
     else if kind = ''mineCore.setKingAutoLockConfig'' then
       then_get (bi (f ''targetTokenId'')) (\<lambda>targetTokenId.
       then_get (bi (f ''durationSeconds'')) (\<lambda>durationSeconds.
       then_get (bi (f ''minVeOut'')) (\<lambda>minVeOut.
       Inr (Typed (MineCore_setKingAutoLockConfig (json_truthy (f ''enabled'')) targetTokenId durationSeconds (json_truthy (f ''createAutoMax'')) minVeOut)))))
     else if kind = ''royalties.claimShareholderEth'' then
       then_get (bi (f ''claimable'')) (\<lambda>claimable. Inr (Typed (Royalties_claimShareholderEth claimable)))
     else if kind = ''royalties.claimShareholderLock'' then
       then_get (bi (f ''targetTokenId'')) (\<lambda>targetTokenId.
       then_get (bi (f ''durationSeconds'')) (\<lambda>durationSeconds.
       then_get (bi (f ''slippageBps'')) (\<lambda>slippageBps.
       Inr (Typed (Royalties_claimShareholderLock targetTokenId durationSeconds (json_truthy (f ''createAutoMax'')) slippageBps)))))
     else if kind = ''royalties.setAutoCompoundConfig'' then
       then_get (bi (f ''tokenId'')) (\<lambda>tokenId.
       then_get (bi (f ''durationSeconds'')) (\<lambda>durationSeconds.
       then_get (bi (f ''minCadenceSeconds'')) (\<lambda>minCadenceSeconds.
       then_get (bi (f ''minEthToCompound'')) (\<lambda>minEthToCompound.
       Inr (Typed (Royalties_setAutoCompoundConfig (json_truthy (f ''enabled'')) tokenId durationSeconds minCadenceSeconds minEthToCompound))))))
     else if kind = ''claimAllHelper.claimShareholderForUser'' then
       then_get (bi (f ''claimable'')) (\<lambda>claimable. then_get (nni (f ''mode'')) (\<lambda>mode.
       then_get (bi (f ''targetTokenId'')) (\<lambda>targetTokenId.
       then_get (bi (f ''durationSeconds'')) (\<lambda>durationSeconds.
       then_get (bi (f ''minVeOut'')) (\<lambda>minVeOut. Inr (text_field raw (f ''user'') (\<lambda>user.
       Typed (ClaimAllHelper_claimShareholderForUser user claimable mode targetTokenId durationSeconds (json_truthy (f ''createAutoMax'')) minVeOut))))))))
     else fromAction2 raw kind f)"

definition fromActionJsonV1 :: "json \<Rightarrow> plan_error + parsed_action" where
  "fromActionJsonV1 raw =
     (case raw of
        JNull \<Rightarrow> Inl Type_error
      | JObj fs \<Rightarrow>
          (case json_field fs ''kind'' of
             JStr kind \<Rightarrow> fromAction1 raw kind (json_field fs)
           | _ \<Rightarrow> Inr (Untyped raw))
      | _ \<Rightarrow> Inr (Untyped raw))"

section \<open>Plans\<close>

record 'a agent_plan =
  pl_chain :: json
  pl_chainId :: json
  pl_blockNumber :: int
  pl_blockTimestamp :: int
  pl_agent :: json
  pl_actions :: "'a list"

definition toPlanJsonV1 :: "agent_action agent_plan \<Rightarrow> json" where
  "toPlanJsonV1 p = JObj
     [(''version'', JStr ''agentPlan.v1''), (''chain'', pl_chain p), (''chainId'', pl_chainId p),
      (''blockNumber'', num_text (pl_blockNumber p)), (''blockTimestamp'', num_text (pl_blockTimestamp p)),
      (''agent'', pl_agent p), (''actions'', JArr (map toActionJsonV1 (pl_actions p)))]"

fun fromActions :: "json list \<Rightarrow> plan_error + parsed_action list" where
  "fromActions [] = Inr []"
| "fromActions (v # vs) = then_get (fromActionJsonV1 v) (\<lambda>a. then_get (fromActions vs) (\<lambda>as. Inr (a # as)))"

definition fromPlanJsonV1 :: "(string \<times> json) list \<Rightarrow> plan_error + parsed_action agent_plan" where
  "fromPlanJsonV1 fs =
     then_get (bi (json_field fs ''blockNumber'')) (\<lambda>blockNumber.
     then_get (bi (json_field fs ''blockTimestamp'')) (\<lambda>blockTimestamp.
     then_get (case json_field fs ''actions'' of
                 JNull \<Rightarrow> Inr [] | JArr vs \<Rightarrow> fromActions vs | _ \<Rightarrow> Inl Type_error) (\<lambda>actions.
     Inr \<lparr>pl_chain = json_field fs ''chain'', pl_chainId = json_field fs ''chainId'', pl_blockNumber = blockNumber,
          pl_blockTimestamp = blockTimestamp, pl_agent = json_field fs ''agent'', pl_actions = actions\<rparr>)))"

text \<open>\<open>None\<close> is a value that is no finite number.\<close>

definition clampFiniteInt :: "int option \<Rightarrow> int \<Rightarrow> int \<Rightarrow> int \<Rightarrow> int" where
  "clampFiniteInt v lo hi fallback = (case v of None \<Rightarrow> fallback | Some n \<Rightarrow> max lo (min hi n))"

definition parsePlan :: "json option \<Rightarrow> int option \<Rightarrow> plan_error + parsed_action agent_plan" where
  "parsePlan parsed maxActions =
     (case parsed of
        None \<Rightarrow> Inl Json_syntax
      | Some (JObj fs) \<Rightarrow>
          if json_field fs ''version'' \<noteq> JStr ''agentPlan.v1'' then Inl Unsupported_version
          else (case json_field fs ''actions'' of
                  JArr vs \<Rightarrow> if int (length vs) > clampFiniteInt maxActions 1 1000000 100000
                             then Inl (Too_many_actions (length vs)) else fromPlanJsonV1 fs
                | _ \<Rightarrow> fromPlanJsonV1 fs)
      | Some (JArr _) \<Rightarrow> Inl Unsupported_version
      | _ \<Rightarrow> Inl Not_an_object)"

definition readPlanFromFile ::
  "bool \<Rightarrow> int \<Rightarrow> json option \<Rightarrow> int option \<Rightarrow> int option \<Rightarrow> plan_error + parsed_action agent_plan" where
  "readPlanFromFile isFile bytes parsed maxBytes maxActions =
     (if \<not> isFile then Inl Not_a_file
      else if bytes > clampFiniteInt maxBytes 1 200000000 20000000 then Inl File_too_large
      else parsePlan parsed maxActions)"

section \<open>What can be written\<close>

definition in_range :: "int \<Rightarrow> bool" where
  "in_range i \<longleftrightarrow> 0 \<le> i \<and> i < 10 ^ MAX_BIGINT_DECIMAL_DIGITS"

text \<open>Amounts are written as texts and modes as numbers.\<close>

definition writable :: "agent_action \<Rightarrow> bool" where
  "writable a \<longleftrightarrow> (\<forall>f \<in> set (action_fields a).
     case snd f of F_big i \<Rightarrow> in_range i | F_num m \<Rightarrow> 0 \<le> m \<and> m \<le> MAX_SAFE_INTEGER | _ \<Rightarrow> True)"

lemma digits_not_space: "is_digits s \<Longrightarrow> js_trim s = s"
  by (rule js_trim_id) (auto simp: is_digits_def list_all_iff is_space_def Let_def)

lemma bi_num_text: "in_range i \<Longrightarrow> bi (num_text i) = Inr i"
proof -
  assume i: "in_range i"
  then have "nat i < 10 ^ MAX_BIGINT_DECIMAL_DIGITS" by (simp add: in_range_def nat_less_iff)
  then have "length (nat_string (nat i)) \<le> MAX_BIGINT_DECIMAL_DIGITS"
    by (intro length_nat_string_le) (simp_all add: MAX_BIGINT_DECIMAL_DIGITS_def)
  then show ?thesis using i
    by (simp add: bi_def num_text_def int_string_def in_range_def digits_not_space is_digits_nat_string)
qed

lemma nni_num: "0 \<le> n \<Longrightarrow> n \<le> MAX_SAFE_INTEGER \<Longrightarrow> nni (JNum n) = Inr n"
  by (simp add: nni_def parseStrictSafeInteger_def MAX_SAFE_INTEGER_def)

lemma then_get_simps [simp]: "then_get (Inr v) k = k v" "then_get (Inl e) k = Inl e"
  by (simp_all add: then_get_def)

lemma text_field_JStr [simp]: "text_field raw (JStr s) k = k s"
  by (simp add: text_field_def)

lemma action_roundtrip: "writable a \<Longrightarrow> fromActionJsonV1 (toActionJsonV1 a) = Inr (Typed a)"
  by (cases a) (simp_all add: writable_def bi_num_text nni_num action_json_def fromActionJsonV1_def
    fromAction1_def fromAction2_def fromAction3_def json_field_def)

section \<open>What is read\<close>

definition reads_writable :: "plan_error + parsed_action \<Rightarrow> bool" where
  "reads_writable r \<longleftrightarrow> (\<forall>a. r = Inr (Typed a) \<longrightarrow> writable a)"

lemma foldl_digits_bound:
  "list_all (\<lambda>c. let n = of_char c :: nat in 48 \<le> n \<and> n \<le> 57) s \<Longrightarrow> string_nat s < 10 ^ length s"
proof (induction s rule: rev_induct)
  case (snoc c s)
  then have "char_digit c \<le> 9" by (auto simp: char_digit_def Let_def)
  with snoc show ?case by (simp add: string_nat_snoc)
qed (simp add: string_nat_def)

lemma bi_in_range: "bi v = Inr i \<Longrightarrow> in_range i"
proof -
  assume "bi v = Inr i"
  then obtain s where s: "is_digits s" "length s \<le> MAX_BIGINT_DECIMAL_DIGITS" "i = int (string_nat s)"
    by (auto simp: bi_def Let_def split: json.splits if_splits)
  have "string_nat s < 10 ^ length s" using s(1) foldl_digits_bound by (auto simp: is_digits_def)
  also have "(10 :: nat) ^ length s \<le> 10 ^ MAX_BIGINT_DECIMAL_DIGITS" using s(2) by (intro power_increasing) simp_all
  finally have "int (string_nat s) < int (10 ^ MAX_BIGINT_DECIMAL_DIGITS)" by (simp only: of_nat_less_iff)
  then show ?thesis using s(3) by (simp add: in_range_def)
qed

lemma nni_range: "nni v = Inr n \<Longrightarrow> 0 \<le> n \<and> n \<le> MAX_SAFE_INTEGER"
  by (auto simp: nni_def parseStrictSafeInteger_def Let_def split: option.splits json.splits if_splits)

lemma reads_bi: "(\<And>i. in_range i \<Longrightarrow> reads_writable (k i)) \<Longrightarrow> reads_writable (then_get (bi v) k)"
  using bi_in_range by (cases "bi v") (auto simp: reads_writable_def)

lemma reads_nni: "(\<And>n. 0 \<le> n \<and> n \<le> MAX_SAFE_INTEGER \<Longrightarrow> reads_writable (k n)) \<Longrightarrow> reads_writable (then_get (nni v) k)"
  using nni_range by (cases "nni v") (auto simp: reads_writable_def)

lemma reads_if: "reads_writable x \<Longrightarrow> reads_writable y \<Longrightarrow> reads_writable (if b then x else y)"
  by simp

lemma reads_text: "(\<And>s. reads_writable (Inr (k s))) \<Longrightarrow> reads_writable (Inr (text_field raw v k))"
  by (auto simp: reads_writable_def text_field_def split: json.splits)

lemma reads_typed: "writable a \<Longrightarrow> reads_writable (Inr (Typed a))"
  by (simp add: reads_writable_def)

lemma reads_untyped: "reads_writable (Inr (Untyped v))"
  by (simp add: reads_writable_def)

lemmas reads_intros = reads_if reads_bi reads_nni reads_text reads_typed reads_untyped

lemma fromAction3_writable: "reads_writable (fromAction3 raw kind f)"
  unfolding fromAction3_def by (intro reads_intros) (simp_all add: writable_def)

lemma fromAction2_writable: "reads_writable (fromAction2 raw kind f)"
  unfolding fromAction2_def by (intro reads_intros fromAction3_writable) (simp_all add: writable_def)

lemma fromAction1_writable: "reads_writable (fromAction1 raw kind f)"
  unfolding fromAction1_def by (intro reads_intros fromAction2_writable) (simp_all add: writable_def)

lemma fromAction_writable: "fromActionJsonV1 v = Inr (Typed a) \<Longrightarrow> writable a"
  using fromAction1_writable
  by (auto simp: fromActionJsonV1_def reads_writable_def split: json.splits)

lemma fromActions_written:
  "\<forall>a \<in> set as. writable a \<Longrightarrow> fromActions (map toActionJsonV1 as) = Inr (map Typed as)"
  by (induction as) (simp_all add: action_roundtrip)

lemma fromActions_elements:
  "fromActions vs = Inr as \<Longrightarrow> length as = length vs \<and> (\<forall>i < length vs. fromActionJsonV1 (vs ! i) = Inr (as ! i))"
proof (induction vs arbitrary: as)
  case (Cons v vs)
  then obtain a bs where "fromActionJsonV1 v = Inr a" "fromActions vs = Inr bs" "as = a # bs"
    by (auto simp: then_get_def split: sum.splits)
  then show ?case using Cons.IH by (auto simp: less_Suc_eq_0_disj)
qed simp

section \<open>Properties\<close>

definition plan_writable :: "agent_action agent_plan \<Rightarrow> bool" where
  "plan_writable p \<longleftrightarrow> in_range (pl_blockNumber p) \<and> in_range (pl_blockTimestamp p) \<and> (\<forall>a \<in> set (pl_actions p). writable a)"

text \<open>
  C7. A plan whose amounts are non-negative and of at most 256 digits is read back from what is written for it,
  whatever the cap on actions, as long as the plan is within it.
\<close>

theorem plan_roundtrip:
  assumes "plan_writable p" "int (length (pl_actions p)) \<le> clampFiniteInt maxActions 1 1000000 100000"
  shows "parsePlan (Some (toPlanJsonV1 p)) maxActions
    = Inr \<lparr>pl_chain = pl_chain p, pl_chainId = pl_chainId p, pl_blockNumber = pl_blockNumber p,
        pl_blockTimestamp = pl_blockTimestamp p, pl_agent = pl_agent p, pl_actions = map Typed (pl_actions p)\<rparr>"
  using assms
  by (simp add: parsePlan_def toPlanJsonV1_def json_field_def fromPlanJsonV1_def bi_num_text plan_writable_def fromActions_written)

text \<open>
  What the reader accepts is bounded: the plan has at most as many actions as the cap, its block and time and every
  amount of a typed action are non-negative and of at most 256 digits, and the modes are safe integers.
\<close>

theorem parsed_plan_bounded:
  assumes "parsePlan parsed maxActions = Inr p"
  shows "int (length (pl_actions p)) \<le> clampFiniteInt maxActions 1 1000000 100000
    \<and> in_range (pl_blockNumber p) \<and> in_range (pl_blockTimestamp p) \<and> (\<forall>a. Typed a \<in> set (pl_actions p) \<longrightarrow> writable a)"
proof -
  have "\<exists>fs. fromPlanJsonV1 fs = Inr p
      \<and> (\<forall>vs. json_field fs ''actions'' = JArr vs \<longrightarrow> int (length vs) \<le> clampFiniteInt maxActions 1 1000000 100000)"
    using assms by (auto simp: parsePlan_def split: option.splits json.splits if_splits)
  then obtain fs where fs: "fromPlanJsonV1 fs = Inr p"
    "\<And>vs. json_field fs ''actions'' = JArr vs \<Longrightarrow> int (length vs) \<le> clampFiniteInt maxActions 1 1000000 100000"
    by blast
  obtain b t as where p: "bi (json_field fs ''blockNumber'') = Inr b" "bi (json_field fs ''blockTimestamp'') = Inr t"
    "(case json_field fs ''actions'' of JNull \<Rightarrow> Inr [] | JArr vs \<Rightarrow> fromActions vs | _ \<Rightarrow> Inl Type_error) = Inr as"
    "pl_blockNumber p = b" "pl_blockTimestamp p = t" "pl_actions p = as"
    using fs(1) unfolding fromPlanJsonV1_def then_get_def by (auto split: sum.splits)
  have cap: "0 \<le> clampFiniteInt maxActions 1 1000000 100000"
    by (simp add: clampFiniteInt_def le_max_iff_disj split: option.split)
  have "as = [] \<or> (\<exists>vs. json_field fs ''actions'' = JArr vs \<and> fromActions vs = Inr as)"
    using p(3) by (auto split: json.splits)
  then have "int (length as) \<le> clampFiniteInt maxActions 1 1000000 100000 \<and> (\<forall>a. Typed a \<in> set as \<longrightarrow> writable a)"
    using fs(2) cap fromActions_elements fromAction_writable by (fastforce simp: in_set_conv_nth)
  then show ?thesis using p bi_in_range by auto
qed

text \<open>The kinds that the writer gives.\<close>

definition known_kinds :: "string list" where
  "known_kinds =
    [''furnace.enterWithEth'', ''furnace.enterWithEthFor'', ''furnace.enterWithClaim'',
     ''furnace.enterWithClaimFromCallerFor'', ''furnace.enterWithToken'', ''furnace.enterWithTokenFromCallerFor'',
     ''mineCore.takeover'', ''mineCore.takeoverFor'', ''mineCore.takeoverWithToken'',
     ''mineCore.setCurrentReignRecipients'', ''mineCore.setKingAutoLockConfig'', ''royalties.claimShareholderEth'',
     ''royalties.claimShareholderLock'', ''royalties.setAutoCompoundConfig'',
     ''claimAllHelper.claimShareholderForUser'', ''claimAllHelper.withdrawKingBalanceForUser'',
     ''claimAllHelper.claimAllFor'', ''mineCore.withdrawKingBalance'', ''mineCore.withdrawRefundBalance'',
     ''marketRouter.sellLockToFurnace'', ''marketRouter.sellListedLockToFurnace'', ''marketRouter.listLock'',
     ''marketRouter.delistLock'', ''marketRouter.cancelExpiredListing'',
     ''marketRouter.createBonusTargetEscrowWithTarget'', ''marketRouter.cancelBonusTargetEscrow'',
     ''marketRouter.extendBonusTargetEscrowExpiry'', ''marketRouter.cancelExpiredBonusTargetEscrow'',
     ''marketRouter.executeAutoFurnace'', ''erc20.approve'', ''erc20.ensureAllowance'', ''ve.approve'',
     ''ve.setApprovalForAll'', ''furnace.extendWithBonus'', ''furnace.extendWithBonusFor'',
     ''furnace.mergeLocksWithBonus'', ''ve.unlock'', ''ve.setAutoMax'', ''ve.checkpointGlobalState'',
     ''ve.checkpointTotalVe'', ''furnace.mergeLocksWithBonusFor'', ''ve.unlockExpiredForUser'',
     ''mineCore.setKingAutoLockConfigForUser'', ''royalties.setAutoCompoundConfigForUser'',
     ''lpVault.setAutoCompoundConfigForUser'']"

lemma action_kind_known: "action_kind a \<in> set known_kinds"
  by (cases a) (simp_all add: known_kinds_def)

lemma unknown_kind: "json_field fs ''kind'' = JStr kind \<Longrightarrow> kind \<notin> set known_kinds \<Longrightarrow> fromActionJsonV1 (JObj fs) = Inr (Untyped (JObj fs))"
  by (simp add: fromActionJsonV1_def fromAction1_def fromAction2_def fromAction3_def known_kinds_def)

lemma fromActions_snoc:
  "fromActions vs = Inr as \<Longrightarrow> fromActionJsonV1 v = Inr a \<Longrightarrow> fromActions (vs @ [v]) = Inr (as @ [a])"
proof (induction vs arbitrary: as)
  case (Cons w vs)
  then obtain b bs where "fromActionJsonV1 w = Inr b" "fromActions vs = Inr bs" "as = b # bs"
    by (auto simp: then_get_def split: sum.splits)
  then show ?case using Cons by simp
qed simp

text \<open>
  The kind of an action is not checked: any value with a kind that the writer never gives can be appended to an
  accepted plan, and the plan is still accepted, with that value in it as it is.
\<close>

theorem unknown_kind_accepted:
  assumes "parsePlan (Some (JObj fs)) None = Inr p" "json_field fs ''actions'' = JArr vs" "length vs < 100000"
    and "json_field act ''kind'' = JStr kind" "kind \<notin> set known_kinds"
  shows "parsePlan (Some (JObj (AList.update ''actions'' (JArr (vs @ [JObj act])) fs))) None
    = Inr (p\<lparr>pl_actions := pl_actions p @ [Untyped (JObj act)]\<rparr>)"
proof -
  have f: "json_field (AList.update k v fs) j = (if j = k then v else json_field fs j)" for k v j
    by (simp add: json_field_def update_conv)
  have p: "json_field fs ''version'' = JStr ''agentPlan.v1''" "fromPlanJsonV1 fs = Inr p"
    using assms(1,2) by (auto simp: parsePlan_def split: if_splits)
  then obtain as where as: "fromActions vs = Inr as" "pl_actions p = as"
    unfolding fromPlanJsonV1_def then_get_def assms(2) by (auto split: sum.splits)
  have "fromActions (vs @ [JObj act]) = Inr (as @ [Untyped (JObj act)])"
    using as(1) unknown_kind [OF assms(4,5)] by (rule fromActions_snoc)
  then show ?thesis using p as assms(2,3)
    by (cases p) (auto simp: parsePlan_def f clampFiniteInt_def fromPlanJsonV1_def then_get_def split: sum.splits)
qed

section \<open>Witnesses\<close>

definition sample_plan :: "agent_action agent_plan" where
  "sample_plan = \<lparr>pl_chain = JStr ''base'', pl_chainId = JNum 8453, pl_blockNumber = 7, pl_blockTimestamp = 9,
     pl_agent = JStr ''0xab'', pl_actions = [MineCore_takeoverFor ''0xcd'' 25, Ve_checkpointTotalVe]\<rparr>"

lemma sample_plan_writable: "plan_writable sample_plan"
  by (simp add: plan_writable_def sample_plan_def in_range_def writable_def MAX_BIGINT_DECIMAL_DIGITS_def)

theorem plan_roundtrip_witness:
  "parsePlan (Some (toPlanJsonV1 sample_plan)) None
   = Inr \<lparr>pl_chain = JStr ''base'', pl_chainId = JNum 8453, pl_blockNumber = 7, pl_blockTimestamp = 9, pl_agent = JStr ''0xab'',
       pl_actions = [Typed (MineCore_takeoverFor ''0xcd'' 25), Typed Ve_checkpointTotalVe]\<rparr>"
  using plan_roundtrip [OF sample_plan_writable, of None] by (simp add: sample_plan_def clampFiniteInt_def)

lemma sample_plan_reads:
  "parsePlan (Some (JObj [(''version'', JStr ''agentPlan.v1''), (''blockNumber'', JStr ''7''), (''blockTimestamp'', JStr ''9''),
     (''actions'', JArr [])])) None
   = Inr \<lparr>pl_chain = JNull, pl_chainId = JNull, pl_blockNumber = 7, pl_blockTimestamp = 9, pl_agent = JNull, pl_actions = []\<rparr>"
  by code_simp

theorem parsed_plan_bounded_witness: "in_range 7 \<and> in_range (9 :: int)"
  using parsed_plan_bounded [OF sample_plan_reads] by simp

theorem unknown_kind_accepted_witness:
  "\<exists>p. parsePlan (Some (JObj [(''version'', JStr ''agentPlan.v1''), (''blockNumber'', JStr ''7''), (''blockTimestamp'', JStr ''9''),
     (''actions'', JArr [JObj [(''kind'', JStr ''mineCore.takoever'')]])])) None = Inr p
   \<and> pl_actions p = [Untyped (JObj [(''kind'', JStr ''mineCore.takoever'')])]"
  using unknown_kind_accepted [OF sample_plan_reads, of "[]" "[(''kind'', JStr ''mineCore.takoever'')]" "''mineCore.takoever''"]
  by (simp add: json_field_def known_kinds_def)

end
