(* ===== verification/ExecCalls.thy ===== *)
theory ExecCalls
  imports ActionSecurity "HOL-Library.Signed_Division"
begin

text \<open>
  What the branches of \<open>executeAgentActionImpl\<close> (\<open>src/agents/sdk/src/agent/executorImpl.ts\<close>) send: one definition per
  action kind that has checks or reads of its own, and \<open>prepare\<close>, the switch.

  A branch reads the chain and the quoters, may refuse with an error, may find that nothing is to be
  done, and otherwise determines one contract call, which the rest of the executor simulates or sends.

  \<^item> A read is an option: \<open>None\<close> is a read that throws, which the surrounding \<open>try\<close> turns into an error. The
    account and the block do not change within an action.
  \<^item> The details and the messages that go with a result are dropped, the errors are told apart by
    constructors. Where the source lists a case twice (the second occurrence is never reached), the
    first is modelled.
\<close>

section \<open>Calls, reads and errors\<close>

datatype arg = A_int int | A_bool bool | A_addr string

record call =
  cl_address :: string
  cl_function :: string
  cl_args :: "arg list"
  cl_value :: "int option"

record enter_quote =
  eq_principalClaim :: int
  eq_bonusClaim :: int
  eq_veOut :: int

record lock_info =
  li_amount :: int
  li_lockEnd :: int
  li_autoMax :: bool
  li_listed :: bool

record listing_info =
  lg_seller :: "string option"
  lg_minClaimOut :: int
  lg_expiresAtTime :: int
  lg_active :: bool

record offer_info =
  oi_buyer :: string
  oi_durationSeconds :: int
  oi_createAutoMax :: bool
  oi_destinationLockId :: int
  oi_fundsRemaining :: int
  oi_expiresAt :: int
  oi_active :: bool

record target_config =
  tg_configured :: bool
  tg_targetBonusBps :: int
  tg_slippageBps :: int

text \<open>The addresses of the manifest; those that the code tests for are options.\<close>

record manifest =
  mf_MineCore :: string
  mf_Furnace :: string
  mf_Royalties :: string
  mf_ClaimAllHelper :: "string option"
  mf_Ve :: "string option"
  mf_LpVault :: "string option"
  mf_MarketRouter :: "string option"
  mf_ClaimToken :: "string option"
  mf_FurnaceQuoter :: bool   \<comment> \<open>whether the contracts map has it\<close>

record exec_reads =
  xr_allowance :: "string \<Rightarrow> string \<Rightarrow> int option"   \<comment> \<open>token, spender; of the signer\<close>
  xr_block :: "(int \<times> int) option"   \<comment> \<open>number and time of the latest block\<close>
  xr_currentKing :: "string option"
  xr_claimableEth :: "int option"
  xr_ownerOf :: "int \<Rightarrow> string option"
  xr_getApproved :: "int \<Rightarrow> string option"
  xr_isApprovedForAll :: "string \<Rightarrow> string \<Rightarrow> bool option"
  xr_getLockInfo :: "int \<Rightarrow> lock_info option"
  xr_tradingPaused :: "bool option"
  xr_lastListingActionBlock :: "int \<Rightarrow> int option"
  xr_getListing :: "int \<Rightarrow> listing_info option"
  xr_getOffer :: "int \<Rightarrow> offer_info option"
  xr_targetConfig :: "int \<Rightarrow> target_config option"
  xr_maxExpiresAt :: "int \<Rightarrow> int option"
  xr_minBudget :: "int option"
  xr_maxDiscountBps :: "int option"
  xr_quoteEnterWithEth :: "string \<Rightarrow> int \<Rightarrow> int \<Rightarrow> int \<Rightarrow> bool \<Rightarrow> enter_quote option"
  xr_quoteEnterWithClaim :: "string \<Rightarrow> int \<Rightarrow> int \<Rightarrow> int \<Rightarrow> bool \<Rightarrow> enter_quote option"
  xr_quoteEnterWithToken :: "string \<Rightarrow> string \<Rightarrow> int \<Rightarrow> int \<Rightarrow> int \<Rightarrow> bool \<Rightarrow> enter_quote option"
  xr_quoteTakeoverWithToken :: "string \<Rightarrow> int \<Rightarrow> (int \<times> int) option"   \<comment> \<open>ethOut, takeoverPrice\<close>
  xr_quoteSell :: "string \<Rightarrow> int \<Rightarrow> int option"   \<comment> \<open>claimOut\<close>
  xr_quoteSellFromInfo :: "int \<Rightarrow> int \<Rightarrow> bool \<Rightarrow> int option"
  xr_quoteExtend :: "string \<Rightarrow> int \<Rightarrow> int \<Rightarrow> int option"   \<comment> \<open>bonusClaim\<close>

datatype exec_error =
  Contract_missing string
| Allowance_too_low int int
| Below_takeover_price int int
| Not_current_king string
| Duration_too_large int
| Nothing_claimable
| Argument_zero string
| Not_owner string
| Trading_paused
| Listing_cooldown int int
| Router_not_approved
| Lock_expired int int
| Lock_listed
| Expiry_after_lock_end int int
| Listing_inactive
| Not_seller
| Listing_not_expired int int
| Listing_expired int int
| Below_min_claim_out int int
| Offer_inactive
| Offer_not_expired int int
| Offer_expired int int
| Offer_not_configured
| Offer_empty
| Quote_without_principal
| Bonus_below_target int int
| Budget_too_low int int
| Discount_out_of_bounds int int
| Slippage_too_large int
| Auto_max_mismatch
| Not_buyer string
| Expiry_not_later int int
| Expiry_too_late int int
| Read_throws   \<comment> \<open>a read or a helper threw\<close>

text \<open>What a branch decides: an error, that nothing is to be done, or a call.\<close>

datatype prepared = Already_done | Call call

section \<open>The shape of a branch\<close>

type_synonym branch = "exec_error + prepared"

definition need :: "bool \<Rightarrow> exec_error \<Rightarrow> branch \<Rightarrow> branch" where
  "need b e k = (if b then k else Inl e)"

definition reading :: "'a option \<Rightarrow> ('a \<Rightarrow> branch) \<Rightarrow> branch" where
  "reading r k = (case r of Some v \<Rightarrow> k v | None \<Rightarrow> Inl Read_throws)"

definition having :: "string \<Rightarrow> string option \<Rightarrow> (string \<Rightarrow> branch) \<Rightarrow> branch" where
  "having name addr k = (case addr of Some v \<Rightarrow> k v | None \<Rightarrow> Inl (Contract_missing name))"

definition calls :: "string \<Rightarrow> string \<Rightarrow> arg list \<Rightarrow> branch" where
  "calls addr f as = Inr (Call \<lparr>cl_address = addr, cl_function = f, cl_args = as, cl_value = None\<rparr>)"

definition pays :: "int \<Rightarrow> string \<Rightarrow> string \<Rightarrow> arg list \<Rightarrow> branch" where
  "pays v addr f as = Inr (Call \<lparr>cl_address = addr, cl_function = f, cl_args = as, cl_value = Some v\<rparr>)"

text \<open>\<open>minOutFromBps\<close> (\<open>quotes.ts\<close>) throws outside the range.\<close>

definition minOutFromBps :: "int \<Rightarrow> int \<Rightarrow> int option" where
  "minOutFromBps expectedOut slippageBps =
     (if slippageBps < 0 \<or> slippageBps > 10000 then None
      else Some ((expectedOut * (10000 - slippageBps)) sdiv 10000))"

text \<open>An allowance that cannot be read lets the action pass.\<close>

definition allowance_ok :: "exec_reads \<Rightarrow> string \<Rightarrow> string \<Rightarrow> int \<Rightarrow> branch \<Rightarrow> branch" where
  "allowance_ok rd token spender amount k =
     (case xr_allowance rd token spender of
        Some a \<Rightarrow> need (a \<ge> amount) (Allowance_too_low a amount) k
      | None \<Rightarrow> k)"

section \<open>Entering the Furnace\<close>

definition enter_floor :: "enter_quote option \<Rightarrow> int \<Rightarrow> (int \<Rightarrow> branch) \<Rightarrow> branch" where
  "enter_floor quote slippageBps k = reading quote (\<lambda>q. reading (minOutFromBps (eq_veOut q) slippageBps) k)"

definition br_enterWithEth :: "manifest \<Rightarrow> exec_reads \<Rightarrow> string \<Rightarrow> int \<Rightarrow> int \<Rightarrow> int \<Rightarrow> bool \<Rightarrow> int \<Rightarrow> branch" where
  "br_enterWithEth mf rd signer ethIn tokenId dur autoMax slip =
     enter_floor (xr_quoteEnterWithEth rd signer ethIn tokenId dur autoMax) slip (\<lambda>minVeOut.
       pays ethIn (mf_Furnace mf) ''enterWithEth'' [A_int tokenId, A_int dur, A_bool autoMax, A_int minVeOut])"

definition br_enterWithEthFor :: "manifest \<Rightarrow> exec_reads \<Rightarrow> string \<Rightarrow> int \<Rightarrow> int \<Rightarrow> int \<Rightarrow> bool \<Rightarrow> int \<Rightarrow> branch" where
  "br_enterWithEthFor mf rd user ethIn tokenId dur autoMax slip =
     enter_floor (xr_quoteEnterWithEth rd user ethIn tokenId dur autoMax) slip (\<lambda>minVeOut.
       pays ethIn (mf_Furnace mf) ''enterWithEthFor''
         [A_addr user, A_int tokenId, A_int dur, A_bool autoMax, A_int minVeOut])"

definition br_enterWithClaim :: "manifest \<Rightarrow> exec_reads \<Rightarrow> string \<Rightarrow> int \<Rightarrow> int \<Rightarrow> int \<Rightarrow> bool \<Rightarrow> int \<Rightarrow> branch" where
  "br_enterWithClaim mf rd signer claimIn tokenId dur autoMax slip =
     having ''ClaimToken'' (mf_ClaimToken mf) (\<lambda>claimToken.
       allowance_ok rd claimToken (mf_Furnace mf) claimIn (
         enter_floor (xr_quoteEnterWithClaim rd signer claimIn tokenId dur autoMax) slip (\<lambda>minVeOut.
           calls (mf_Furnace mf) ''enterWithClaim''
             [A_int claimIn, A_int tokenId, A_int dur, A_bool autoMax, A_int minVeOut])))"

definition br_enterWithClaimFor :: "manifest \<Rightarrow> exec_reads \<Rightarrow> string \<Rightarrow> int \<Rightarrow> int \<Rightarrow> int \<Rightarrow> bool \<Rightarrow> int \<Rightarrow> branch" where
  "br_enterWithClaimFor mf rd user claimIn tokenId dur autoMax slip =
     having ''ClaimToken'' (mf_ClaimToken mf) (\<lambda>claimToken.
       allowance_ok rd claimToken (mf_Furnace mf) claimIn (
         enter_floor (xr_quoteEnterWithClaim rd user claimIn tokenId dur autoMax) slip (\<lambda>minVeOut.
           calls (mf_Furnace mf) ''enterWithClaimFromCallerFor''
             [A_addr user, A_int claimIn, A_int tokenId, A_int dur, A_bool autoMax, A_int minVeOut])))"

definition br_enterWithToken :: "manifest \<Rightarrow> exec_reads \<Rightarrow> string \<Rightarrow> string \<Rightarrow> int \<Rightarrow> int \<Rightarrow> int \<Rightarrow> bool \<Rightarrow> int \<Rightarrow> branch" where
  "br_enterWithToken mf rd signer tokenIn amountIn tokenId dur autoMax slip =
     allowance_ok rd tokenIn (mf_Furnace mf) amountIn (
       enter_floor (xr_quoteEnterWithToken rd signer tokenIn amountIn tokenId dur autoMax) slip (\<lambda>minVeOut.
         calls (mf_Furnace mf) ''enterWithToken''
           [A_addr tokenIn, A_int amountIn, A_int tokenId, A_int dur, A_bool autoMax, A_int minVeOut]))"

definition br_enterWithTokenFor :: "manifest \<Rightarrow> exec_reads \<Rightarrow> string \<Rightarrow> string \<Rightarrow> int \<Rightarrow> int \<Rightarrow> int \<Rightarrow> bool \<Rightarrow> int \<Rightarrow> branch" where
  "br_enterWithTokenFor mf rd user tokenIn amountIn tokenId dur autoMax slip =
     allowance_ok rd tokenIn (mf_Furnace mf) amountIn (
       enter_floor (xr_quoteEnterWithToken rd user tokenIn amountIn tokenId dur autoMax) slip (\<lambda>minVeOut.
         calls (mf_Furnace mf) ''enterWithTokenFromCallerFor''
           [A_addr user, A_addr tokenIn, A_int amountIn, A_int tokenId, A_int dur, A_bool autoMax, A_int minVeOut]))"

text \<open>A lock is extended or merged with at least the bonus asked for, or with the bonus quoted when none is.\<close>

definition br_extendWithBonus :: "manifest \<Rightarrow> exec_reads \<Rightarrow> string \<Rightarrow> int \<Rightarrow> int \<Rightarrow> int \<Rightarrow> branch" where
  "br_extendWithBonus mf rd signer tokenId dur minBonusOut =
     need (mf_FurnaceQuoter mf) Read_throws (
       reading (if minBonusOut = 0 then xr_quoteExtend rd signer tokenId dur else Some minBonusOut) (\<lambda>minBonusOut.
         calls (mf_Furnace mf) ''extendWithBonus'' [A_int tokenId, A_int dur, A_int minBonusOut]))"

definition br_extendWithBonusFor :: "manifest \<Rightarrow> exec_reads \<Rightarrow> string \<Rightarrow> int \<Rightarrow> int \<Rightarrow> int \<Rightarrow> branch" where
  "br_extendWithBonusFor mf rd user tokenId dur minBonusOut =
     need (mf_FurnaceQuoter mf) Read_throws (
       reading (if minBonusOut = 0 then xr_quoteExtend rd user tokenId dur else Some minBonusOut) (\<lambda>minBonusOut.
         calls (mf_Furnace mf) ''extendWithBonusFor'' [A_addr user, A_int tokenId, A_int dur, A_int minBonusOut]))"

definition br_mergeLocksWithBonus :: "manifest \<Rightarrow> exec_reads \<Rightarrow> string \<Rightarrow> int \<Rightarrow> int \<Rightarrow> int \<Rightarrow> branch" where
  "br_mergeLocksWithBonus mf rd signer fromId intoId minBonusOut =
     having ''VeClaimNFT'' (mf_Ve mf) (\<lambda>ve.
       reading (xr_ownerOf rd fromId) (\<lambda>ownerFrom. reading (xr_ownerOf rd intoId) (\<lambda>ownerInto.
         need (sameAddress ownerFrom signer \<and> sameAddress ownerInto signer) (Not_owner ownerFrom) (
           calls (mf_Furnace mf) ''mergeLocksWithBonus'' [A_int fromId, A_int intoId, A_int minBonusOut]))))"

definition br_mergeLocksWithBonusFor :: "manifest \<Rightarrow> string \<Rightarrow> int \<Rightarrow> int \<Rightarrow> int \<Rightarrow> branch" where
  "br_mergeLocksWithBonusFor mf user fromId intoId minBonusOut =
     having ''VeClaimNFT'' (mf_Ve mf) (\<lambda>ve.
       calls (mf_Furnace mf) ''mergeLocksWithBonusFor'' [A_addr user, A_int fromId, A_int intoId, A_int minBonusOut])"

section \<open>MineCore and the royalties\<close>

definition tenth_more :: "int \<Rightarrow> int" where
  "tenth_more price = (price * 110) sdiv 100"

definition br_takeover :: "manifest \<Rightarrow> int \<Rightarrow> branch" where
  "br_takeover mf price =
     pays price (mf_MineCore mf) ''takeover'' [A_int (tenth_more price)]"

definition br_takeoverFor :: "manifest \<Rightarrow> string \<Rightarrow> int \<Rightarrow> branch" where
  "br_takeoverFor mf newKing price =
     pays price (mf_MineCore mf) ''takeoverFor'' [A_addr newKing, A_int (tenth_more price)]"

definition br_takeoverWithToken :: "manifest \<Rightarrow> exec_reads \<Rightarrow> string \<Rightarrow> int \<Rightarrow> int \<Rightarrow> branch" where
  "br_takeoverWithToken mf rd tokenIn amountIn slip =
     allowance_ok rd tokenIn (mf_MineCore mf) amountIn (
       reading (xr_quoteTakeoverWithToken rd tokenIn amountIn) (\<lambda>(ethOut, takeoverPrice).
       reading (minOutFromBps ethOut slip) (\<lambda>quotedMin.
         need (ethOut \<ge> takeoverPrice) (Below_takeover_price ethOut takeoverPrice) (
           calls (mf_MineCore mf) ''takeoverWithToken''
             [A_addr tokenIn, A_int amountIn, A_int (if quotedMin < takeoverPrice then takeoverPrice else quotedMin),
              A_int (tenth_more takeoverPrice)]))))"

definition br_setCurrentReignRecipients :: "manifest \<Rightarrow> exec_reads \<Rightarrow> string \<Rightarrow> string \<Rightarrow> string \<Rightarrow> branch" where
  "br_setCurrentReignRecipients mf rd signer ethRecipient claimRecipient =
     reading (xr_currentKing rd) (\<lambda>king.
       need (sameAddress king signer) (Not_current_king king) (
         calls (mf_MineCore mf) ''setCurrentReignRecipients'' [A_addr ethRecipient, A_addr claimRecipient]))"

definition br_setKingAutoLockConfig :: "manifest \<Rightarrow> bool \<Rightarrow> int \<Rightarrow> int \<Rightarrow> bool \<Rightarrow> int \<Rightarrow> branch" where
  "br_setKingAutoLockConfig mf enabled tokenId dur autoMax minVeOut =
     need (dur \<le> UINT32_MAX) (Duration_too_large dur) (
       calls (mf_MineCore mf) ''setKingAutoLockConfig''
         [A_bool enabled, A_int tokenId, A_int dur, A_bool autoMax, A_int minVeOut])"

definition br_setKingAutoLockConfigForUser :: "manifest \<Rightarrow> string \<Rightarrow> bool \<Rightarrow> int \<Rightarrow> int \<Rightarrow> bool \<Rightarrow> int \<Rightarrow> branch" where
  "br_setKingAutoLockConfigForUser mf user enabled tokenId dur autoMax minVeOut =
     calls (mf_MineCore mf) ''setKingAutoLockConfigForUser''
       [A_addr user, A_bool enabled, A_int tokenId, A_int dur, A_bool autoMax, A_int minVeOut]"

definition br_withdrawKingBalance :: "manifest \<Rightarrow> branch" where
  "br_withdrawKingBalance mf =
     calls (mf_MineCore mf) ''withdrawKingBalance'' []"

definition br_withdrawRefundBalance :: "manifest \<Rightarrow> string \<Rightarrow> branch" where
  "br_withdrawRefundBalance mf recipient =
     calls (mf_MineCore mf) ''withdrawRefundBalance'' [A_addr recipient]"

definition br_claimShareholderEth :: "manifest \<Rightarrow> branch" where
  "br_claimShareholderEth mf =
     calls (mf_Royalties mf) ''claimShareholder'' [A_int 0, A_int 0, A_int 0, A_bool False, A_int 0]"

definition br_claimShareholderLock :: "manifest \<Rightarrow> exec_reads \<Rightarrow> string \<Rightarrow> int \<Rightarrow> int \<Rightarrow> bool \<Rightarrow> int \<Rightarrow> branch" where
  "br_claimShareholderLock mf rd signer tokenId dur autoMax slip =
     reading (xr_claimableEth rd) (\<lambda>claimableEth.
       need (claimableEth \<noteq> 0) Nothing_claimable (
         enter_floor (xr_quoteEnterWithEth rd signer claimableEth tokenId dur autoMax) slip (\<lambda>minVeOut.
           calls (mf_Royalties mf) ''claimShareholder'' [A_int 1, A_int tokenId, A_int dur, A_bool autoMax, A_int minVeOut])))"

definition br_setAutoCompoundConfig :: "manifest \<Rightarrow> bool \<Rightarrow> int \<Rightarrow> int \<Rightarrow> int \<Rightarrow> int \<Rightarrow> branch" where
  "br_setAutoCompoundConfig mf enabled tokenId dur cadence minEth =
     calls (mf_Royalties mf) ''setAutoCompoundConfig''
       [A_bool enabled, A_int tokenId, A_int dur, A_int cadence, A_int minEth]"

definition br_royaltiesConfigForUser :: "manifest \<Rightarrow> string \<Rightarrow> bool \<Rightarrow> int \<Rightarrow> int \<Rightarrow> int \<Rightarrow> int \<Rightarrow> branch" where
  "br_royaltiesConfigForUser mf user enabled tokenId dur cadence minEth =
     calls (mf_Royalties mf) ''setAutoCompoundConfigForUser''
       [A_addr user, A_bool enabled, A_int tokenId, A_int dur, A_int cadence, A_int minEth]"

definition br_lpConfigForUser :: "manifest \<Rightarrow> string \<Rightarrow> bool \<Rightarrow> int \<Rightarrow> int \<Rightarrow> branch" where
  "br_lpConfigForUser mf user enabled tokenId dur =
     having ''LpStakingVault7D'' (mf_LpVault mf) (\<lambda>vault.
       calls vault ''setAutoCompoundConfigForUser'' [A_addr user, A_bool enabled, A_int tokenId, A_int dur])"

section \<open>The claim-all helper\<close>

definition br_claimShareholderForUser :: "manifest \<Rightarrow> string \<Rightarrow> int \<Rightarrow> int \<Rightarrow> int \<Rightarrow> bool \<Rightarrow> int \<Rightarrow> branch" where
  "br_claimShareholderForUser mf user mode tokenId dur autoMax minVeOut =
     having ''ClaimAllHelper'' (mf_ClaimAllHelper mf) (\<lambda>helper.
       calls helper ''claimShareholderForUser''
         [A_addr user, A_int mode, A_int tokenId, A_int dur, A_bool autoMax, A_int minVeOut])"

definition br_claimAllFor :: "manifest \<Rightarrow> string \<Rightarrow> int \<Rightarrow> int \<Rightarrow> int \<Rightarrow> bool \<Rightarrow> int \<Rightarrow> branch" where
  "br_claimAllFor mf user mode tokenId dur autoMax minVeOut =
     having ''ClaimAllHelper'' (mf_ClaimAllHelper mf) (\<lambda>helper.
       calls helper ''claimAllFor''
         [A_addr user, A_int mode, A_int tokenId, A_int dur, A_bool autoMax, A_int minVeOut])"

definition br_withdrawKingBalanceForUser :: "manifest \<Rightarrow> string \<Rightarrow> branch" where
  "br_withdrawKingBalanceForUser mf user =
     having ''ClaimAllHelper'' (mf_ClaimAllHelper mf) (\<lambda>helper.
       calls helper ''withdrawKingBalanceForUser'' [A_addr user])"

section \<open>The market\<close>

text \<open>Checks that several branches share: the signer owns the lock, the router may move it, a listing changed
  in an earlier block.\<close>

definition owned_by :: "exec_reads \<Rightarrow> string \<Rightarrow> int \<Rightarrow> branch \<Rightarrow> branch" where
  "owned_by rd signer tokenId k =
     reading (xr_ownerOf rd tokenId) (\<lambda>owner. need (sameAddress owner signer) (Not_owner owner) k)"

definition router_approved :: "exec_reads \<Rightarrow> string \<Rightarrow> int \<Rightarrow> branch \<Rightarrow> branch" where
  "router_approved rd router tokenId k =
     reading (xr_ownerOf rd tokenId) (\<lambda>owner. reading (xr_getApproved rd tokenId) (\<lambda>approved.
     reading (xr_isApprovedForAll rd owner router) (\<lambda>approvedForAll.
       need (sameAddress approved router \<or> approvedForAll) Router_not_approved k)))"

definition cooled_down :: "exec_reads \<Rightarrow> int \<Rightarrow> int \<Rightarrow> branch \<Rightarrow> branch" where
  "cooled_down rd blockNumber tokenId k =
     reading (xr_lastListingActionBlock rd tokenId) (\<lambda>lastBlock.
       need (blockNumber > lastBlock) (Listing_cooldown blockNumber lastBlock) k)"

definition br_listLock :: "manifest \<Rightarrow> exec_reads \<Rightarrow> string \<Rightarrow> int \<Rightarrow> int \<Rightarrow> int \<Rightarrow> branch" where
  "br_listLock mf rd signer tokenId minClaimOut ttl =
     having ''MarketRouter'' (mf_MarketRouter mf) (\<lambda>router. having ''VeClaimNFT'' (mf_Ve mf) (\<lambda>ve.
       need (minClaimOut \<noteq> 0) (Argument_zero ''minClaimOut'') (need (ttl \<noteq> 0) (Argument_zero ''ttlSeconds'') (
       owned_by rd signer tokenId (
       reading (xr_block rd) (\<lambda>(blockNumber, now). reading (xr_tradingPaused rd) (\<lambda>paused.
       need (\<not> paused) Trading_paused (
       cooled_down rd blockNumber tokenId (
       router_approved rd router tokenId (
       reading (xr_getLockInfo rd tokenId) (\<lambda>info.
       need (li_lockEnd info > now) (Lock_expired (li_lockEnd info) now) (
       need (\<not> li_listed info) Lock_listed (
       need (now + ttl \<le> li_lockEnd info) (Expiry_after_lock_end (now + ttl) (li_lockEnd info)) (
       reading (xr_ownerOf rd tokenId) (\<lambda>owner. reading (xr_quoteSell rd owner tokenId) (\<lambda>_.
         calls router ''listLock'' [A_int tokenId, A_int minClaimOut, A_int (now + ttl)]))))))))))))))))"

definition br_delistLock :: "manifest \<Rightarrow> exec_reads \<Rightarrow> string \<Rightarrow> int \<Rightarrow> branch" where
  "br_delistLock mf rd signer tokenId =
     having ''MarketRouter'' (mf_MarketRouter mf) (\<lambda>router.
       reading (xr_getListing rd tokenId) (\<lambda>listing.
       need (lg_active listing) Listing_inactive (
       need (case lg_seller listing of Some s \<Rightarrow> s \<noteq> [] \<and> sameAddress s signer | None \<Rightarrow> False) Not_seller (
       reading (xr_block rd) (\<lambda>(blockNumber, now).
       cooled_down rd blockNumber tokenId (
         calls router ''delistLock'' [A_int tokenId]))))))"

definition br_cancelExpiredListing :: "manifest \<Rightarrow> exec_reads \<Rightarrow> int \<Rightarrow> branch" where
  "br_cancelExpiredListing mf rd tokenId =
     having ''MarketRouter'' (mf_MarketRouter mf) (\<lambda>router.
       reading (xr_getListing rd tokenId) (\<lambda>listing.
       need (lg_active listing) Listing_inactive (
       reading (xr_block rd) (\<lambda>(blockNumber, now).
       need (\<not> (lg_expiresAtTime listing = 0 \<or> now \<le> lg_expiresAtTime listing))
         (Listing_not_expired (lg_expiresAtTime listing) now) (
       cooled_down rd blockNumber tokenId (
         calls router ''cancelExpiredListing'' [A_int tokenId]))))))"

definition br_sellLockToFurnace :: "manifest \<Rightarrow> exec_reads \<Rightarrow> string \<Rightarrow> int \<Rightarrow> int \<Rightarrow> int \<Rightarrow> branch" where
  "br_sellLockToFurnace mf rd signer tokenId slip deadlineSeconds =
     having ''MarketRouter'' (mf_MarketRouter mf) (\<lambda>router. having ''VeClaimNFT'' (mf_Ve mf) (\<lambda>ve.
       owned_by rd signer tokenId (
       router_approved rd router tokenId (
       reading (xr_ownerOf rd tokenId) (\<lambda>owner. reading (xr_quoteSell rd owner tokenId) (\<lambda>claimOut.
       reading (minOutFromBps claimOut slip) (\<lambda>minClaimOut.
       reading (xr_block rd) (\<lambda>(blockNumber, now).
         calls router ''sellLockToFurnace'' [A_int tokenId, A_int minClaimOut, A_int (now + deadlineSeconds)]))))))))"

definition br_sellListedLockToFurnace :: "manifest \<Rightarrow> exec_reads \<Rightarrow> string \<Rightarrow> int \<Rightarrow> int \<Rightarrow> branch" where
  "br_sellListedLockToFurnace mf rd signer tokenId deadlineSeconds =
     having ''MarketRouter'' (mf_MarketRouter mf) (\<lambda>router. having ''VeClaimNFT'' (mf_Ve mf) (\<lambda>ve.
       owned_by rd signer tokenId (
       reading (xr_getListing rd tokenId) (\<lambda>listing. reading (xr_block rd) (\<lambda>(blockNumber, now).
       need (lg_active listing) Listing_inactive (
       need (\<not> (lg_expiresAtTime listing \<noteq> 0 \<and> now > lg_expiresAtTime listing))
         (Listing_expired (lg_expiresAtTime listing) now) (
       router_approved rd router tokenId (
       reading (xr_getLockInfo rd tokenId) (\<lambda>info.
       reading (xr_quoteSellFromInfo rd (li_amount info) (li_lockEnd info) (li_autoMax info)) (\<lambda>claimOut.
       need (claimOut \<ge> lg_minClaimOut listing) (Below_min_claim_out claimOut (lg_minClaimOut listing)) (
         calls router ''sellListedLockToFurnace'' [A_int tokenId, A_int (now + deadlineSeconds)])))))))))))"

definition br_cancelExpiredOffer :: "manifest \<Rightarrow> exec_reads \<Rightarrow> int \<Rightarrow> branch" where
  "br_cancelExpiredOffer mf rd offerId =
     having ''MarketRouter'' (mf_MarketRouter mf) (\<lambda>router.
       reading (xr_block rd) (\<lambda>(blockNumber, now). reading (xr_getOffer rd offerId) (\<lambda>offer.
       need (oi_active offer) Offer_inactive (
       need (\<not> (oi_expiresAt offer = 0 \<or> now \<le> oi_expiresAt offer)) (Offer_not_expired (oi_expiresAt offer) now) (
         calls router ''cancelExpiredBonusTargetEscrow'' [A_int offerId])))))"

text \<open>The lock that the offer names, when it may receive the entry; else 0, which stands for a new lock.\<close>

definition eligible_lock :: "manifest \<Rightarrow> exec_reads \<Rightarrow> int \<Rightarrow> offer_info \<Rightarrow> int" where
  "eligible_lock mf rd now offer =
     (let lockId = oi_destinationLockId offer in
      if lockId = 0 \<or> mf_Ve mf = None then lockId
      else case (xr_ownerOf rd lockId, xr_getLockInfo rd lockId) of
             (Some owner, Some info) \<Rightarrow>
               if sameAddress owner (oi_buyer offer) \<and> li_lockEnd info > now \<and> \<not> li_listed info
                  \<and> li_autoMax info = oi_createAutoMax offer \<and> li_lockEnd info \<le> now + oi_durationSeconds offer
               then lockId else 0
           | _ \<Rightarrow> 0)"

text \<open>A quote against the lock that throws is repeated for a new lock.\<close>

definition offer_quote :: "exec_reads \<Rightarrow> offer_info \<Rightarrow> int \<Rightarrow> enter_quote option" where
  "offer_quote rd offer lockId =
     (let quote = (\<lambda>l. xr_quoteEnterWithClaim rd (oi_buyer offer) (oi_fundsRemaining offer) l
                      (oi_durationSeconds offer) (oi_createAutoMax offer))
      in case quote lockId of Some q \<Rightarrow> Some q | None \<Rightarrow> if lockId \<noteq> 0 then quote 0 else None)"

definition br_executeAutoFurnace :: "manifest \<Rightarrow> exec_reads \<Rightarrow> int \<Rightarrow> branch" where
  "br_executeAutoFurnace mf rd offerId =
     having ''MarketRouter'' (mf_MarketRouter mf) (\<lambda>router.
       reading (xr_block rd) (\<lambda>(blockNumber, now). reading (xr_tradingPaused rd) (\<lambda>paused.
       reading (xr_getOffer rd offerId) (\<lambda>offer. reading (xr_targetConfig rd offerId) (\<lambda>cfg.
       need (\<not> paused) Trading_paused (
       need (oi_active offer) Offer_inactive (
       need (\<not> (oi_expiresAt offer \<noteq> 0 \<and> now > oi_expiresAt offer)) (Offer_expired (oi_expiresAt offer) now) (
       need (tg_configured cfg) Offer_not_configured (
       need (oi_fundsRemaining offer \<noteq> 0) Offer_empty (
       reading (offer_quote rd offer (eligible_lock mf rd now offer)) (\<lambda>q.
       need (eq_principalClaim q \<noteq> 0) Quote_without_principal (
       let bonusBps = (eq_bonusClaim q * 10000) sdiv eq_principalClaim q in
       need (bonusBps \<ge> tg_targetBonusBps cfg) (Bonus_below_target bonusBps (tg_targetBonusBps cfg)) (
       reading (minOutFromBps (eq_veOut q) (tg_slippageBps cfg)) (\<lambda>_.
         calls router ''executeAutoFurnace'' [A_int offerId]))))))))))))))"

text \<open>The discount of a target; a denominator of zero throws.\<close>

definition discount_of :: "int \<Rightarrow> int option" where
  "discount_of targetBonusBps =
     (if targetBonusBps = 0 then Some 0
      else if 10000 + targetBonusBps = 0 then None
      else Some ((targetBonusBps * 10000) sdiv (10000 + targetBonusBps)))"

text \<open>Reads of the destination lock that throw are ignored, the contract will tell.\<close>

definition destination_ok :: "manifest \<Rightarrow> exec_reads \<Rightarrow> string \<Rightarrow> int \<Rightarrow> int \<Rightarrow> bool \<Rightarrow> branch \<Rightarrow> branch" where
  "destination_ok mf rd signer now lockId createAutoMax k =
     (if lockId = 0 \<or> mf_Ve mf = None then k
      else case xr_ownerOf rd lockId of
             None \<Rightarrow> k
           | Some owner \<Rightarrow>
               need (sameAddress owner signer) (Not_owner owner) (
               case xr_getLockInfo rd lockId of
                 None \<Rightarrow> k
               | Some info \<Rightarrow>
                   need (\<not> (li_lockEnd info \<noteq> 0 \<and> li_lockEnd info \<le> now)) (Lock_expired (li_lockEnd info) now) (
                   need (\<not> li_listed info) Lock_listed (
                   need (li_autoMax info = createAutoMax) Auto_max_mismatch k))))"

definition br_createOffer :: "manifest \<Rightarrow> exec_reads \<Rightarrow> string \<Rightarrow> int \<Rightarrow> int \<Rightarrow> int \<Rightarrow> bool \<Rightarrow> int \<Rightarrow> int \<Rightarrow> int \<Rightarrow> branch" where
  "br_createOffer mf rd signer target budget dur autoMax ttl lockId slip =
     having ''MarketRouter'' (mf_MarketRouter mf) (\<lambda>router. having ''ClaimToken'' (mf_ClaimToken mf) (\<lambda>claimToken.
       reading (xr_block rd) (\<lambda>(blockNumber, now). reading (discount_of target) (\<lambda>discountBps.
       reading (xr_tradingPaused rd) (\<lambda>paused. reading (xr_minBudget rd) (\<lambda>minBudget.
       reading (xr_maxDiscountBps rd) (\<lambda>maxDiscount.
       need (\<not> paused) Trading_paused (
       need (budget \<ge> minBudget) (Budget_too_low budget minBudget) (
       need (\<not> (discountBps \<ge> 10000 \<or> discountBps > maxDiscount)) (Discount_out_of_bounds discountBps maxDiscount) (
       need (slip < 10000) (Slippage_too_large slip) (
       reading (xr_allowance rd claimToken router) (\<lambda>allowance.
       need (allowance \<ge> budget) (Allowance_too_low allowance budget) (
       destination_ok mf rd signer now lockId autoMax (
         calls router ''createBonusTargetEscrowWithTarget''
           [A_int target, A_int budget, A_int dur, A_bool autoMax, A_int ttl, A_int lockId, A_int slip]))))))))))))))"

text \<open>A read that throws is ignored here; an empty buyer passes.\<close>

definition br_cancelOffer :: "manifest \<Rightarrow> exec_reads \<Rightarrow> string \<Rightarrow> int \<Rightarrow> branch" where
  "br_cancelOffer mf rd signer offerId =
     having ''MarketRouter'' (mf_MarketRouter mf) (\<lambda>router.
       let cancel = calls router ''cancelBonusTargetEscrow'' [A_int offerId] in
       case xr_getOffer rd offerId of
         None \<Rightarrow> cancel
       | Some offer \<Rightarrow>
           need (oi_active offer) Offer_inactive (
           need (oi_buyer offer = [] \<or> sameAddress (oi_buyer offer) signer) (Not_buyer (oi_buyer offer)) cancel))"

definition br_extendOffer :: "manifest \<Rightarrow> exec_reads \<Rightarrow> string \<Rightarrow> int \<Rightarrow> int \<Rightarrow> branch" where
  "br_extendOffer mf rd signer offerId ttl =
     having ''MarketRouter'' (mf_MarketRouter mf) (\<lambda>router.
       reading (xr_block rd) (\<lambda>(blockNumber, now).
       reading (xr_getOffer rd offerId) (\<lambda>offer. reading (xr_maxExpiresAt rd offerId) (\<lambda>maxExpiresAt.
       need (oi_active offer) Offer_inactive (
       need (oi_buyer offer = [] \<or> sameAddress (oi_buyer offer) signer) (Not_buyer (oi_buyer offer)) (
       need (now \<le> oi_expiresAt offer) (Offer_expired (oi_expiresAt offer) now) (
       need (now + ttl > oi_expiresAt offer) (Expiry_not_later (oi_expiresAt offer) (now + ttl)) (
       need (\<not> (maxExpiresAt \<noteq> 0 \<and> now + ttl > maxExpiresAt)) (Expiry_too_late (now + ttl) maxExpiresAt) (
         calls router ''extendBonusTargetEscrowExpiry'' [A_int offerId, A_int (now + ttl)])))))))))"

section \<open>Approvals and locks\<close>

definition br_erc20Approve :: "string \<Rightarrow> string \<Rightarrow> int \<Rightarrow> branch" where
  "br_erc20Approve token spender amount =
     calls token ''approve'' [A_addr spender, A_int amount]"

definition br_ensureAllowance :: "exec_reads \<Rightarrow> string \<Rightarrow> string \<Rightarrow> int \<Rightarrow> int \<Rightarrow> branch" where
  "br_ensureAllowance rd token spender minAllowance approveAmount =
     (if (case xr_allowance rd token spender of Some a \<Rightarrow> a \<ge> minAllowance | None \<Rightarrow> False) then Inr Already_done
      else calls token ''approve'' [A_addr spender, A_int approveAmount])"

definition br_veApprove :: "manifest \<Rightarrow> exec_reads \<Rightarrow> string \<Rightarrow> string \<Rightarrow> int \<Rightarrow> branch" where
  "br_veApprove mf rd signer spender tokenId =
     having ''VeClaimNFT'' (mf_Ve mf) (\<lambda>ve.
       owned_by rd signer tokenId (
       reading (xr_getApproved rd tokenId) (\<lambda>approved.
         if sameAddress approved spender then Inr Already_done
         else calls ve ''approve'' [A_addr spender, A_int tokenId])))"

definition br_setApprovalForAll :: "manifest \<Rightarrow> exec_reads \<Rightarrow> string \<Rightarrow> string \<Rightarrow> bool \<Rightarrow> branch" where
  "br_setApprovalForAll mf rd signer operator approved =
     having ''VeClaimNFT'' (mf_Ve mf) (\<lambda>ve.
       reading (xr_isApprovedForAll rd signer operator) (\<lambda>current.
         if current = approved then Inr Already_done
         else calls ve ''setApprovalForAll'' [A_addr operator, A_bool approved]))"

definition br_unlock :: "manifest \<Rightarrow> exec_reads \<Rightarrow> string \<Rightarrow> int \<Rightarrow> branch" where
  "br_unlock mf rd signer tokenId =
     having ''VeClaimNFT'' (mf_Ve mf) (\<lambda>ve. owned_by rd signer tokenId (calls ve ''unlock'' [A_int tokenId]))"

definition br_setAutoMax :: "manifest \<Rightarrow> exec_reads \<Rightarrow> string \<Rightarrow> int \<Rightarrow> bool \<Rightarrow> branch" where
  "br_setAutoMax mf rd signer tokenId enabled =
     having ''VeClaimNFT'' (mf_Ve mf) (\<lambda>ve.
       owned_by rd signer tokenId (calls ve ''setAutoMax'' [A_int tokenId, A_bool enabled]))"

definition br_checkpointGlobalState :: "manifest \<Rightarrow> branch" where
  "br_checkpointGlobalState mf =
     having ''VeClaimNFT'' (mf_Ve mf) (\<lambda>ve. calls ve ''checkpointGlobalState'' [])"

definition br_checkpointTotalVe :: "manifest \<Rightarrow> branch" where
  "br_checkpointTotalVe mf =
     having ''VeClaimNFT'' (mf_Ve mf) (\<lambda>ve. calls ve ''checkpointTotalVe'' [])"

definition br_unlockExpiredForUser :: "manifest \<Rightarrow> string \<Rightarrow> int \<Rightarrow> branch" where
  "br_unlockExpiredForUser mf user tokenId =
     having ''VeClaimNFT'' (mf_Ve mf) (\<lambda>ve. calls ve ''unlockExpiredForUser'' [A_addr user, A_int tokenId])"

section \<open>The switch\<close>

primrec prepare :: "manifest \<Rightarrow> exec_reads \<Rightarrow> string \<Rightarrow> agent_action \<Rightarrow> branch" where
  "prepare mf rd signer (Furnace_enterWithEth ethIn tokenId dur autoMax slip) =
     br_enterWithEth mf rd signer ethIn tokenId dur autoMax slip"
| "prepare mf rd signer (Furnace_enterWithEthFor user ethIn tokenId dur autoMax slip) =
     br_enterWithEthFor mf rd user ethIn tokenId dur autoMax slip"
| "prepare mf rd signer (Furnace_enterWithClaim claimIn tokenId dur autoMax slip) =
     br_enterWithClaim mf rd signer claimIn tokenId dur autoMax slip"
| "prepare mf rd signer (Furnace_enterWithClaimFromCallerFor user claimIn tokenId dur autoMax slip) =
     br_enterWithClaimFor mf rd user claimIn tokenId dur autoMax slip"
| "prepare mf rd signer (Furnace_enterWithToken tokenIn amountIn tokenId dur autoMax slip) =
     br_enterWithToken mf rd signer tokenIn amountIn tokenId dur autoMax slip"
| "prepare mf rd signer (Furnace_enterWithTokenFromCallerFor user tokenIn amountIn tokenId dur autoMax slip) =
     br_enterWithTokenFor mf rd user tokenIn amountIn tokenId dur autoMax slip"
| "prepare mf rd signer (MineCore_takeover price) =
     br_takeover mf price"
| "prepare mf rd signer (MineCore_takeoverFor newKing price) =
     br_takeoverFor mf newKing price"
| "prepare mf rd signer (MineCore_takeoverWithToken tokenIn amountIn slip) =
     br_takeoverWithToken mf rd tokenIn amountIn slip"
| "prepare mf rd signer (MineCore_setCurrentReignRecipients ethRecipient claimRecipient) =
     br_setCurrentReignRecipients mf rd signer ethRecipient claimRecipient"
| "prepare mf rd signer (MineCore_setKingAutoLockConfig enabled tokenId dur autoMax minVeOut) =
     br_setKingAutoLockConfig mf enabled tokenId dur autoMax minVeOut"
| "prepare mf rd signer (Royalties_claimShareholderEth claimable) =
     br_claimShareholderEth mf"
| "prepare mf rd signer (Royalties_claimShareholderLock tokenId dur autoMax slip) =
     br_claimShareholderLock mf rd signer tokenId dur autoMax slip"
| "prepare mf rd signer (Royalties_setAutoCompoundConfig enabled tokenId dur cadence minEth) =
     br_setAutoCompoundConfig mf enabled tokenId dur cadence minEth"
| "prepare mf rd signer (ClaimAllHelper_claimShareholderForUser user claimable mode tokenId dur autoMax minVeOut) =
     br_claimShareholderForUser mf user mode tokenId dur autoMax minVeOut"
| "prepare mf rd signer (ClaimAllHelper_withdrawKingBalanceForUser user amount) =
     br_withdrawKingBalanceForUser mf user"
| "prepare mf rd signer (ClaimAllHelper_claimAllFor user claimable mode tokenId dur autoMax minVeOut) =
     br_claimAllFor mf user mode tokenId dur autoMax minVeOut"
| "prepare mf rd signer (MineCore_withdrawKingBalance amount) =
     br_withdrawKingBalance mf"
| "prepare mf rd signer (MineCore_withdrawRefundBalance amount recipient) =
     br_withdrawRefundBalance mf recipient"
| "prepare mf rd signer (MarketRouter_sellLockToFurnace tokenId slip deadline) =
     br_sellLockToFurnace mf rd signer tokenId slip deadline"
| "prepare mf rd signer (MarketRouter_sellListedLockToFurnace tokenId deadline) =
     br_sellListedLockToFurnace mf rd signer tokenId deadline"
| "prepare mf rd signer (MarketRouter_listLock tokenId minClaimOut ttl) =
     br_listLock mf rd signer tokenId minClaimOut ttl"
| "prepare mf rd signer (MarketRouter_delistLock tokenId) =
     br_delistLock mf rd signer tokenId"
| "prepare mf rd signer (MarketRouter_cancelExpiredListing tokenId) =
     br_cancelExpiredListing mf rd tokenId"
| "prepare mf rd signer (MarketRouter_createBonusTargetEscrowWithTarget target budget dur autoMax ttl lockId slip) =
     br_createOffer mf rd signer target budget dur autoMax ttl lockId slip"
| "prepare mf rd signer (MarketRouter_cancelBonusTargetEscrow offerId) =
     br_cancelOffer mf rd signer offerId"
| "prepare mf rd signer (MarketRouter_extendBonusTargetEscrowExpiry offerId ttl) =
     br_extendOffer mf rd signer offerId ttl"
| "prepare mf rd signer (MarketRouter_cancelExpiredBonusTargetEscrow offerId) =
     br_cancelExpiredOffer mf rd offerId"
| "prepare mf rd signer (MarketRouter_executeAutoFurnace offerId) =
     br_executeAutoFurnace mf rd offerId"
| "prepare mf rd signer (Erc20_approve token spender amount) =
     br_erc20Approve token spender amount"
| "prepare mf rd signer (Erc20_ensureAllowance token spender minAllowance approveAmount) =
     br_ensureAllowance rd token spender minAllowance approveAmount"
| "prepare mf rd signer (Ve_approve spender tokenId) =
     br_veApprove mf rd signer spender tokenId"
| "prepare mf rd signer (Ve_setApprovalForAll operator approved) =
     br_setApprovalForAll mf rd signer operator approved"
| "prepare mf rd signer (Furnace_extendWithBonus tokenId dur minBonusOut) =
     br_extendWithBonus mf rd signer tokenId dur minBonusOut"
| "prepare mf rd signer (Furnace_extendWithBonusFor user tokenId dur minBonusOut) =
     br_extendWithBonusFor mf rd user tokenId dur minBonusOut"
| "prepare mf rd signer (Furnace_mergeLocksWithBonus fromId intoId minBonusOut) =
     br_mergeLocksWithBonus mf rd signer fromId intoId minBonusOut"
| "prepare mf rd signer (Ve_unlock tokenId) =
     br_unlock mf rd signer tokenId"
| "prepare mf rd signer (Ve_setAutoMax tokenId enabled) =
     br_setAutoMax mf rd signer tokenId enabled"
| "prepare mf rd signer Ve_checkpointGlobalState =
     br_checkpointGlobalState mf"
| "prepare mf rd signer Ve_checkpointTotalVe =
     br_checkpointTotalVe mf"
| "prepare mf rd signer (Furnace_mergeLocksWithBonusFor user fromId intoId minBonusOut) =
     br_mergeLocksWithBonusFor mf user fromId intoId minBonusOut"
| "prepare mf rd signer (Ve_unlockExpiredForUser user tokenId) =
     br_unlockExpiredForUser mf user tokenId"
| "prepare mf rd signer (MineCore_setKingAutoLockConfigForUser user enabled tokenId dur autoMax minVeOut) =
     br_setKingAutoLockConfigForUser mf user enabled tokenId dur autoMax minVeOut"
| "prepare mf rd signer (Royalties_setAutoCompoundConfigForUser user enabled tokenId dur cadence minEth) =
     br_royaltiesConfigForUser mf user enabled tokenId dur cadence minEth"
| "prepare mf rd signer (LpVault_setAutoCompoundConfigForUser user enabled tokenId dur) =
     br_lpConfigForUser mf user enabled tokenId dur"

section \<open>Lemmas\<close>

lemma branch_results [simp]:
  "need b e k = Inr x \<longleftrightarrow> b \<and> k = Inr x"
  "reading r f = Inr x \<longleftrightarrow> (\<exists>v. r = Some v \<and> f v = Inr x)"
  "having name addr g = Inr x \<longleftrightarrow> (\<exists>v. addr = Some v \<and> g v = Inr x)"
  "allowance_ok rd token spender amount k = Inr x \<longleftrightarrow>
     (\<forall>a. xr_allowance rd token spender = Some a \<longrightarrow> amount \<le> a) \<and> k = Inr x"
  by (auto simp: need_def reading_def having_def allowance_ok_def split: option.splits)

lemma branch_calls [simp]:
  "calls addr f as = Inr (Call c) \<longleftrightarrow> c = \<lparr>cl_address = addr, cl_function = f, cl_args = as, cl_value = None\<rparr>"
  "pays v addr f as = Inr (Call c) \<longleftrightarrow> c = \<lparr>cl_address = addr, cl_function = f, cl_args = as, cl_value = Some v\<rparr>"
  by (auto simp: calls_def pays_def)

lemma destination_ok_result:
  "destination_ok mf rd signer now lockId autoMax k = Inr x \<Longrightarrow> k = Inr x"
  by (auto simp: destination_ok_def split: if_splits option.splits)

lemmas branch_defs =
  enter_floor_def owned_by_def router_approved_def cooled_down_def
  br_enterWithEth_def br_enterWithEthFor_def br_enterWithClaim_def br_enterWithClaimFor_def
  br_enterWithToken_def br_enterWithTokenFor_def br_extendWithBonus_def br_extendWithBonusFor_def
  br_mergeLocksWithBonus_def br_mergeLocksWithBonusFor_def br_takeover_def br_takeoverFor_def
  br_takeoverWithToken_def br_setCurrentReignRecipients_def br_setKingAutoLockConfig_def br_setKingAutoLockConfigForUser_def
  br_withdrawKingBalance_def br_withdrawRefundBalance_def br_claimShareholderEth_def br_claimShareholderLock_def
  br_setAutoCompoundConfig_def br_royaltiesConfigForUser_def br_lpConfigForUser_def br_claimShareholderForUser_def
  br_claimAllFor_def br_withdrawKingBalanceForUser_def br_listLock_def br_delistLock_def
  br_cancelExpiredListing_def br_sellLockToFurnace_def br_sellListedLockToFurnace_def br_cancelExpiredOffer_def
  br_executeAutoFurnace_def br_createOffer_def br_cancelOffer_def br_extendOffer_def
  br_erc20Approve_def br_ensureAllowance_def br_veApprove_def br_setApprovalForAll_def
  br_unlock_def br_setAutoMax_def br_checkpointGlobalState_def br_checkpointTotalVe_def
  br_unlockExpiredForUser_def

lemma call_value:
  "prepare mf rd signer a = Inr (Call c) \<Longrightarrow> cl_value c = callValueForAction a"
  by (cases a) (auto simp: branch_defs callValueForAction_def Let_def dest!: destination_ok_result split: if_splits option.splits)

section \<open>A call is the one its kind names\<close>

text \<open>The two parts of a kind, the contract and the function; three kinds name another function.\<close>

definition contract_part :: "string \<Rightarrow> string" where
  "contract_part k = takeWhile (\<lambda>c. c \<noteq> CHR ''.'') k"

definition renamed_functions :: "(string \<times> string) list" where
  "renamed_functions =
     [(''royalties.claimShareholderEth'', ''claimShareholder''), (''royalties.claimShareholderLock'', ''claimShareholder''),
      (''erc20.ensureAllowance'', ''approve'')]"

definition function_part :: "string \<Rightarrow> string" where
  "function_part k = (case map_of renamed_functions k of Some f \<Rightarrow> f | None \<Rightarrow> tl (dropWhile (\<lambda>c. c \<noteq> CHR ''.'') k))"

definition contract_named :: "manifest \<Rightarrow> agent_action \<Rightarrow> string option" where
  "contract_named mf a =
     (let p = contract_part (action_kind a) in
      if p = ''furnace'' then Some (mf_Furnace mf)
      else if p = ''mineCore'' then Some (mf_MineCore mf)
      else if p = ''royalties'' then Some (mf_Royalties mf)
      else if p = ''claimAllHelper'' then mf_ClaimAllHelper mf
      else if p = ''marketRouter'' then mf_MarketRouter mf
      else if p = ''ve'' then mf_Ve mf
      else if p = ''lpVault'' then mf_LpVault mf
      else case map_of (action_fields a) ''token'' of Some (F_text t) \<Rightarrow> Some t | _ \<Rightarrow> None)"

lemma call_target:
  "prepare mf rd signer a = Inr (Call c) \<Longrightarrow>
     contract_named mf a = Some (cl_address c) \<and> function_part (action_kind a) = cl_function c"
  by (cases a) (auto simp: branch_defs contract_named_def contract_part_def function_part_def renamed_functions_def Let_def
    dest!: destination_ok_result split: if_splits option.splits)

lemma call_user:
  "prepare mf rd signer a = Inr (Call c) \<Longrightarrow> getDelegationRequirementForAction a = Some r \<Longrightarrow>
     \<exists>as. cl_args c = A_addr (dr_user r) # as"
  by (cases a) (auto simp: branch_defs getDelegationRequirementForAction_def requires_def split: if_splits option.splits)

section \<open>What a call is worth at least\<close>

text \<open>The quoted result of a swap, its slippage, and where the call has the least result accepted.\<close>

definition quoted_floor :: "exec_reads \<Rightarrow> string \<Rightarrow> agent_action \<Rightarrow> (int \<times> int \<times> nat) option" where
  "quoted_floor rd signer a =
     (case a of
        Furnace_enterWithEth ethIn tokenId dur autoMax slip \<Rightarrow>
          map_option (\<lambda>q. (eq_veOut q, slip, 3)) (xr_quoteEnterWithEth rd signer ethIn tokenId dur autoMax)
      | Furnace_enterWithEthFor user ethIn tokenId dur autoMax slip \<Rightarrow>
          map_option (\<lambda>q. (eq_veOut q, slip, 4)) (xr_quoteEnterWithEth rd user ethIn tokenId dur autoMax)
      | Furnace_enterWithClaim claimIn tokenId dur autoMax slip \<Rightarrow>
          map_option (\<lambda>q. (eq_veOut q, slip, 4)) (xr_quoteEnterWithClaim rd signer claimIn tokenId dur autoMax)
      | Furnace_enterWithClaimFromCallerFor user claimIn tokenId dur autoMax slip \<Rightarrow>
          map_option (\<lambda>q. (eq_veOut q, slip, 5)) (xr_quoteEnterWithClaim rd user claimIn tokenId dur autoMax)
      | Furnace_enterWithToken tokenIn amountIn tokenId dur autoMax slip \<Rightarrow>
          map_option (\<lambda>q. (eq_veOut q, slip, 5)) (xr_quoteEnterWithToken rd signer tokenIn amountIn tokenId dur autoMax)
      | Furnace_enterWithTokenFromCallerFor user tokenIn amountIn tokenId dur autoMax slip \<Rightarrow>
          map_option (\<lambda>q. (eq_veOut q, slip, 6)) (xr_quoteEnterWithToken rd user tokenIn amountIn tokenId dur autoMax)
      | MineCore_takeoverWithToken tokenIn amountIn slip \<Rightarrow>
          map_option (\<lambda>(ethOut, _). (ethOut, slip, 2)) (xr_quoteTakeoverWithToken rd tokenIn amountIn)
      | Royalties_claimShareholderLock tokenId dur autoMax slip \<Rightarrow>
          (case xr_claimableEth rd of
             Some eth \<Rightarrow> map_option (\<lambda>q. (eq_veOut q, slip, 4)) (xr_quoteEnterWithEth rd signer eth tokenId dur autoMax)
           | None \<Rightarrow> None)
      | MarketRouter_sellLockToFurnace tokenId slip _ \<Rightarrow>
          (case xr_ownerOf rd tokenId of
             Some owner \<Rightarrow> map_option (\<lambda>claimOut. (claimOut, slip, 1)) (xr_quoteSell rd owner tokenId) | None \<Rightarrow> None)
      | _ \<Rightarrow> None)"

lemma sdiv_nonneg: "0 \<le> a \<Longrightarrow> a sdiv 10000 = (a :: int) div 10000"
  by (cases "a = 0") (simp_all add: signed_divide_int_def)

lemma minOutFromBps_bounds:
  assumes "minOutFromBps x slip = Some m" "0 \<le> x"
  shows "0 \<le> slip" "slip \<le> 10000" "m \<le> x" "x * (10000 - slip) < 10000 * (m + 1)"
proof -
  have m: "m = (x * (10000 - slip)) sdiv 10000" and s: "0 \<le> slip" "slip \<le> 10000"
    using assms(1) by (auto simp: minOutFromBps_def split: if_splits)
  then show "0 \<le> slip" "slip \<le> 10000" by simp_all
  have p: "0 \<le> x * (10000 - slip)" using s assms(2) by simp
  then have m: "m = (x * (10000 - slip)) div 10000" using m by (simp only: sdiv_nonneg)
  have "x * (10000 - slip) \<le> x * 10000" using s assms(2) by (intro mult_left_mono) simp_all
  then have "m \<le> (x * 10000) div 10000" unfolding m by (rule zdiv_mono1) simp
  then show "m \<le> x" by simp
  show "x * (10000 - slip) < 10000 * (m + 1)" unfolding m by presburger
qed

lemma call_floor:
  assumes "prepare mf rd signer a = Inr (Call c)" "quoted_floor rd signer a = Some (out, slip, i)"
  shows "\<exists>m q. cl_args c ! i = A_int m \<and> minOutFromBps out slip = Some q \<and> q \<le> m \<and> (0 \<le> out \<longrightarrow> m \<le> out)"
proof -
  have le: "minOutFromBps x s = Some n \<Longrightarrow> 0 \<le> x \<Longrightarrow> n \<le> x" for x s n by (rule minOutFromBps_bounds(3))
  show ?thesis using assms
    by (cases a) (auto simp: branch_defs quoted_floor_def le split: if_splits option.splits)
qed

section \<open>Whose locks a call touches\<close>

text \<open>The locks of an action that only their owner may use and that the executor looks up.\<close>

definition own_locks :: "agent_action \<Rightarrow> int list" where
  "own_locks a =
     (case a of
        MarketRouter_listLock tokenId _ _ \<Rightarrow> [tokenId]
      | MarketRouter_sellLockToFurnace tokenId _ _ \<Rightarrow> [tokenId]
      | MarketRouter_sellListedLockToFurnace tokenId _ \<Rightarrow> [tokenId]
      | Furnace_mergeLocksWithBonus fromId intoId _ \<Rightarrow> [fromId, intoId]
      | Ve_approve _ tokenId \<Rightarrow> [tokenId]
      | Ve_unlock tokenId \<Rightarrow> [tokenId]
      | Ve_setAutoMax tokenId _ \<Rightarrow> [tokenId]
      | _ \<Rightarrow> [])"

lemma call_owner:
  "prepare mf rd signer a = Inr (Call c) \<Longrightarrow> i \<in> set (own_locks a) \<Longrightarrow>
     \<exists>owner. xr_ownerOf rd i = Some owner \<and> sameAddress owner signer"
  by (cases a) (auto simp: branch_defs own_locks_def split: if_splits)

end
