(* ===== verification/AutoApprove.thy ===== *)
theory AutoApprove
  imports ActionSecurity
begin

text \<open>
  The approvals that the agent inserts into a plan before it executes it
  (\<open>src/agents/sdk/src/agent/autoApprovals.ts\<close>, called by \<open>planExecutor.ts\<close> and \<open>runner.ts\<close>).

  \<^item> The chain is read through \<open>approve_env\<close>; a read that fails is \<open>None\<close>. The allowance of a token for a spender has the
    key that the code gives it.
  \<^item> \<open>approve_state\<close> is what the code remembers within one plan: the allowances it counts on and the veNFT approvals.
  \<^item> The notes for the operator are dropped.
\<close>

section \<open>Insertion\<close>

record approve_env =
  ae_caller :: string
  ae_furnace :: string
  ae_mineCore :: string
  ae_marketRouter :: "string option"
  ae_claimToken :: "string option"
  ae_ve :: "string option"
  ae_allowance :: "string \<Rightarrow> int option"
  ae_ownerOf :: "int \<Rightarrow> string option"
  ae_isApprovedForAll :: "string \<Rightarrow> string \<Rightarrow> bool option"
  ae_getApproved :: "int \<Rightarrow> string option"

record approve_options =
  ao_enabled :: bool
  ao_max :: bool
  ao_includeNftApprovals :: bool

record approve_state =
  ap_planned :: "string \<Rightarrow> int option"
  ap_ve :: "string list"

definition maxUint256 :: int where
  "maxUint256 = 2 ^ 256 - 1"

definition allowanceKey :: "string \<Rightarrow> string \<Rightarrow> string" where
  "allowanceKey token spender = toLowerCase token @ '':'' @ toLowerCase spender"

definition ensureAllowance ::
  "approve_env \<Rightarrow> approve_options \<Rightarrow> string \<Rightarrow> string \<Rightarrow> int \<Rightarrow> approve_state \<Rightarrow> agent_action list \<times> approve_state" where
  "ensureAllowance env opts token spender minAllowance st =
     (let k = allowanceKey token spender;
          cur = (case ae_allowance env k of Some a \<Rightarrow> a | None \<Rightarrow> 0);
          effective = (case ap_planned st k of Some p \<Rightarrow> p | None \<Rightarrow> cur);
          approveAmount = (if ao_max opts then maxUint256 else minAllowance)
      in if effective \<ge> minAllowance then ([], st)
         else ([Erc20_ensureAllowance token spender minAllowance approveAmount],
               st\<lparr>ap_planned := (ap_planned st)(k \<mapsto> approveAmount)\<rparr>))"

definition veKey :: "string \<Rightarrow> int \<Rightarrow> string \<Rightarrow> string" where
  "veKey ve tokenId operator = toLowerCase ve @ '':'' @ int_string tokenId @ '':'' @ toLowerCase operator"

definition ensureVeApprove ::
  "approve_env \<Rightarrow> approve_options \<Rightarrow> int \<Rightarrow> string \<Rightarrow> approve_state \<Rightarrow> agent_action list \<times> approve_state" where
  "ensureVeApprove env opts tokenId operator st =
     (case ae_ve env of
        None \<Rightarrow> ([], st)
      | Some ve \<Rightarrow>
          (let key = veKey ve tokenId operator;
               noted = st\<lparr>ap_ve := key # ap_ve st\<rparr>
           in if \<not> ao_includeNftApprovals opts \<or> key \<in> set (ap_ve st) then ([], st)
              else case ae_ownerOf env tokenId of
                     None \<Rightarrow> ([], st)
                   | Some owner \<Rightarrow>
                       if \<not> sameAddress owner (ae_caller env) then ([], st)
                       else if ae_isApprovedForAll env owner operator = Some True then ([], noted)
                       else if (case ae_getApproved env tokenId of Some a \<Rightarrow> a \<noteq> [] \<and> sameAddress a operator | None \<Rightarrow> False)
                       then ([], noted)
                       else ([Ve_approve operator tokenId], noted)))"

text \<open>What an action spends from the caller: a token, its spender and an amount.\<close>

definition spend_of :: "approve_env \<Rightarrow> agent_action \<Rightarrow> (string \<times> string \<times> int) option" where
  "spend_of env a =
     (case a of
        Furnace_enterWithClaim claimIn _ _ _ _ \<Rightarrow> map_option (\<lambda>t. (t, ae_furnace env, claimIn)) (ae_claimToken env)
      | Furnace_enterWithClaimFromCallerFor _ claimIn _ _ _ _ \<Rightarrow> map_option (\<lambda>t. (t, ae_furnace env, claimIn)) (ae_claimToken env)
      | Furnace_enterWithToken tokenIn amountIn _ _ _ _ \<Rightarrow> Some (tokenIn, ae_furnace env, amountIn)
      | Furnace_enterWithTokenFromCallerFor _ tokenIn amountIn _ _ _ _ \<Rightarrow> Some (tokenIn, ae_furnace env, amountIn)
      | MineCore_takeoverWithToken tokenIn amountIn _ \<Rightarrow> Some (tokenIn, ae_mineCore env, amountIn)
      | MarketRouter_createBonusTargetEscrowWithTarget _ budgetClaim _ _ _ _ _ \<Rightarrow>
          (case (ae_marketRouter env, ae_claimToken env) of
             (Some m, Some t) \<Rightarrow> Some (t, m, budgetClaim) | _ \<Rightarrow> None)
      | _ \<Rightarrow> None)"

definition lock_of :: "agent_action \<Rightarrow> int option" where
  "lock_of a =
     (case a of
        MarketRouter_listLock tokenId _ _ \<Rightarrow> Some tokenId
      | MarketRouter_sellLockToFurnace tokenId _ _ \<Rightarrow> Some tokenId
      | MarketRouter_sellListedLockToFurnace tokenId _ \<Rightarrow> Some tokenId
      | _ \<Rightarrow> None)"

text \<open>One action: what is inserted before it, and the state after it.\<close>

definition expandAction ::
  "approve_env \<Rightarrow> approve_options \<Rightarrow> agent_action \<Rightarrow> approve_state \<Rightarrow> agent_action list \<times> approve_state" where
  "expandAction env opts a st =
     (case a of
        Erc20_approve token spender amount \<Rightarrow>
          ([], st\<lparr>ap_planned := (ap_planned st)(allowanceKey token spender \<mapsto> amount)\<rparr>)
      | Erc20_ensureAllowance token spender _ approveAmount \<Rightarrow>
          (let k = allowanceKey token spender;
               prev = (case ap_planned st k of Some p \<Rightarrow> p | None \<Rightarrow> 0)
           in ([], st\<lparr>ap_planned := (ap_planned st)(k \<mapsto> if approveAmount > prev then approveAmount else prev)\<rparr>))
      | Ve_approve spender tokenId \<Rightarrow>
          ([], case ae_ve env of Some ve \<Rightarrow> st\<lparr>ap_ve := veKey ve tokenId spender # ap_ve st\<rparr> | None \<Rightarrow> st)
      | _ \<Rightarrow>
          (case spend_of env a of
             Some (token, spender, need) \<Rightarrow> ensureAllowance env opts token spender need st
           | None \<Rightarrow>
               (case (lock_of a, ae_marketRouter env) of
                  (Some tokenId, Some m) \<Rightarrow> ensureVeApprove env opts tokenId m st
                | _ \<Rightarrow> ([], st))))"

fun expandActions ::
  "approve_env \<Rightarrow> approve_options \<Rightarrow> agent_action list \<Rightarrow> approve_state \<Rightarrow> agent_action list" where
  "expandActions env opts [] st = []"
| "expandActions env opts (a # as) st =
     (let (inserts, st) = expandAction env opts a st in inserts @ a # expandActions env opts as st)"

definition expandPlanWithAutoApprovals ::
  "approve_env \<Rightarrow> approve_options \<Rightarrow> rpc_mode option \<Rightarrow> agent_action list \<Rightarrow> agent_action list" where
  "expandPlanWithAutoApprovals env opts privateRpcMode as =
     (if \<not> ao_enabled opts \<or> privateRpcMode = Some Mode_only then as
      else expandActions env opts as \<lparr>ap_planned = Map.empty, ap_ve = []\<rparr>)"

section \<open>What a token does\<close>

text \<open>
  The allowances while the actions run: an approval sets one, the executor's \<open>ensureAllowance\<close> sets it when it is too
  low, a spend needs it and takes from it, unless it is unlimited. \<open>None\<close>: a spend is not covered.
\<close>

fun run_allowances :: "approve_env \<Rightarrow> (string \<Rightarrow> int) \<Rightarrow> agent_action list \<Rightarrow> (string \<Rightarrow> int) option" where
  "run_allowances env al [] = Some al"
| "run_allowances env al (a # as) =
     (case a of
        Erc20_approve token spender amount \<Rightarrow> run_allowances env (al(allowanceKey token spender := amount)) as
      | Erc20_ensureAllowance token spender minAllowance approveAmount \<Rightarrow>
          (let k = allowanceKey token spender in
           run_allowances env (if al k \<ge> minAllowance then al else al(k := approveAmount)) as)
      | _ \<Rightarrow>
          (case spend_of env a of
             None \<Rightarrow> run_allowances env al as
           | Some (token, spender, need) \<Rightarrow>
               (let k = allowanceKey token spender in
                if al k < need then None
                else run_allowances env (if al k = maxUint256 then al else al(k := al k - need)) as)))"

section \<open>Lemmas\<close>

definition is_erc20_approval :: "agent_action \<Rightarrow> bool" where
  "is_erc20_approval a \<longleftrightarrow> (case a of Erc20_approve _ _ _ \<Rightarrow> True | Erc20_ensureAllowance _ _ _ _ \<Rightarrow> True | _ \<Rightarrow> False)"

definition spend_key :: "approve_env \<Rightarrow> agent_action \<Rightarrow> string option" where
  "spend_key env a = map_option (\<lambda>(token, spender, need). allowanceKey token spender) (spend_of env a)"

definition spend_keys :: "approve_env \<Rightarrow> agent_action list \<Rightarrow> string list" where
  "spend_keys env as = List.map_filter (spend_key env) as"

lemma spend_keys_simps [simp]:
  "spend_keys env [] = []"
  "spend_keys env (a # as) = (case spend_key env a of Some k \<Rightarrow> k # spend_keys env as | None \<Rightarrow> spend_keys env as)"
  by (simp_all add: spend_keys_def map_filter_simps split: option.split)

lemma run_spend:
  "\<not> is_erc20_approval a \<Longrightarrow> run_allowances env al (a # as) =
     (case spend_of env a of
        None \<Rightarrow> run_allowances env al as
      | Some (token, spender, need) \<Rightarrow>
          (let k = allowanceKey token spender in
           if al k < need then None
           else run_allowances env (if al k = maxUint256 then al else al(k := al k - need)) as))"
  by (cases a) (simp_all add: is_erc20_approval_def)

lemma expand_spend:
  "spend_of env a = Some (token, spender, need) \<Longrightarrow> expandAction env opts a st = ensureAllowance env opts token spender need st"
  by (cases a) (simp_all add: expandAction_def spend_of_def)

text \<open>An action that spends no token gets at most a veNFT approval, and leaves the planned allowances alone.\<close>

lemma ensureVe_inserts:
  "ensureVeApprove env opts tokenId operator st = (ins, st') \<Longrightarrow>
     (ins = [] \<or> ins = [Ve_approve operator tokenId]) \<and> ap_planned st' = ap_planned st"
  by (auto simp: ensureVeApprove_def Let_def split: option.splits if_splits)

lemma expand_no_spend:
  assumes "expandAction env opts a st = (ins, st')" "spend_of env a = None" "\<not> is_erc20_approval a"
  shows "(ins = [] \<or> (\<exists>m tokenId. ae_marketRouter env = Some m \<and> ins = [Ve_approve m tokenId])) \<and> ap_planned st' = ap_planned st"
proof (cases "lock_of a")
  case None
  then show ?thesis using assms
    by (cases a) (auto simp: expandAction_def is_erc20_approval_def split: option.splits)
next
  case (Some tokenId)
  then have "expandAction env opts a st = (case ae_marketRouter env of Some m \<Rightarrow> ensureVeApprove env opts tokenId m st | None \<Rightarrow> ([], st))"
    using assms(2) by (cases a) (simp_all add: expandAction_def lock_of_def)
  then show ?thesis using assms(1)
    by (cases "ae_marketRouter env") (use ensureVe_inserts [of env opts tokenId _ st ins st'] in auto)
qed

lemma ensureAllowance_inserts:
  "ensureAllowance env opts token spender need st = (ins, st') \<Longrightarrow>
     ins = [] \<or> ins = [Erc20_ensureAllowance token spender need (if ao_max opts then maxUint256 else need)]"
  by (auto simp: ensureAllowance_def Let_def split: if_splits)

lemma run_ve_approve [simp]: "run_allowances env al (Ve_approve m t # as) = run_allowances env al as"
  by (simp add: spend_of_def)

lemma expandActions_Cons:
  "expandAction env opts a st = (ins, st') \<Longrightarrow> expandActions env opts (a # as) st = ins @ a # expandActions env opts as st'"
  by simp

text \<open>The allowance that the code counts on before the first spend of a key.\<close>

definition read_allowance :: "approve_env \<Rightarrow> string \<Rightarrow> int" where
  "read_allowance env k = (case ae_allowance env k of Some x \<Rightarrow> x | None \<Rightarrow> 0)"

lemma expand_covers:
  assumes "\<forall>a \<in> set as. \<not> is_erc20_approval a" "distinct (spend_keys env as)"
    and "\<forall>a \<in> set as. \<forall>token spender need. spend_of env a = Some (token, spender, need) \<longrightarrow> need \<le> maxUint256"
    and "\<forall>k \<in> set (spend_keys env as). ap_planned st k = None \<and> read_allowance env k \<le> al k"
  shows "run_allowances env al (expandActions env opts as st) \<noteq> None"
  using assms
proof (induction as arbitrary: al st)
  case (Cons a as)
  obtain ins st' where e: "expandAction env opts a st = (ins, st')" by force
  have na: "\<not> is_erc20_approval a" using Cons.prems(1) by simp
  show ?case
  proof (cases "spend_of env a")
    case None
    then have k: "spend_key env a = None" by (simp add: spend_key_def)
    have "run_allowances env al (expandActions env opts (a # as) st) = run_allowances env al (expandActions env opts as st')"
      using expand_no_spend [OF e None na] None
      by (auto simp: expandActions_Cons [OF e] run_spend [OF na] simp del: expandActions.simps run_allowances.simps)
    moreover have "run_allowances env al (expandActions env opts as st') \<noteq> None"
      using Cons.prems k expand_no_spend [OF e None na] by (intro Cons.IH) auto
    ultimately show ?thesis by simp
  next
    case (Some s)
    then obtain token spender need where s: "spend_of env a = Some (token, spender, need)" by (cases s) auto
    let ?k = "allowanceKey token spender"
    have key: "spend_key env a = Some ?k" by (simp add: spend_key_def s)
    have prem: "ap_planned st ?k = None" "read_allowance env ?k \<le> al ?k" "?k \<notin> set (spend_keys env as)" "need \<le> maxUint256"
      using Cons.prems key s by auto
    define spent where "spent al = (if al ?k = maxUint256 then al else al(?k := al ?k - need))" for al :: "string \<Rightarrow> int"
    have spent: "spent l j = l j" if "j \<noteq> ?k" for l j using that by (simp add: spent_def)
    have r: "run_allowances env l (a # rest) = (if l ?k < need then None else run_allowances env (spent l) rest)" for l rest
      by (simp add: run_spend [OF na] s Let_def spent_def del: run_allowances.simps)
    obtain l where l: "run_allowances env al (expandActions env opts (a # as) st) = run_allowances env (spent l) (expandActions env opts as st')"
      "\<And>j. j \<noteq> ?k \<Longrightarrow> l j = al j"
    proof (cases "need \<le> read_allowance env ?k")
      case True
      then have i: "ins = []" using e prem(1) by (auto simp: expand_spend [OF s] ensureAllowance_def read_allowance_def Let_def)
      show thesis
        by (rule that [of al]) (use True prem(2) in \<open>simp_all add: expandActions_Cons [OF e] i r del: expandActions.simps run_allowances.simps\<close>)
    next
      case False
      let ?app = "if ao_max opts then maxUint256 else need"
      have i: "ins = [Erc20_ensureAllowance token spender need ?app]"
        using False e prem(1) by (auto simp: expand_spend [OF s] ensureAllowance_def read_allowance_def Let_def)
      have q: "run_allowances env al (ins @ rest) = run_allowances env (if al ?k \<ge> need then al else al(?k := ?app)) rest" for rest
        by (simp add: i Let_def)
      show thesis
        by (rule that [of "if al ?k \<ge> need then al else al(?k := ?app)"]) (use prem(4) in \<open>simp_all add: expandActions_Cons [OF e] q r
          del: expandActions.simps run_allowances.simps\<close>)
    qed
    have st': "\<And>j. j \<noteq> ?k \<Longrightarrow> ap_planned st' j = ap_planned st j"
      using e by (auto simp: expand_spend [OF s] ensureAllowance_def Let_def split: if_splits)
    have "run_allowances env (spent l) (expandActions env opts as st') \<noteq> None"
    proof (rule Cons.IH)
      show "\<forall>k \<in> set (spend_keys env as). ap_planned st' k = None \<and> read_allowance env k \<le> spent l k"
      proof
        fix k assume k: "k \<in> set (spend_keys env as)"
        then have "k \<noteq> ?k" using prem(3) by auto
        then show "ap_planned st' k = None \<and> read_allowance env k \<le> spent l k"
          using k Cons.prems(4) key by (simp add: st' spent l(2))
      qed
    qed (use Cons.prems key in auto)
    then show ?thesis using l(1) by simp
  qed
qed simp

definition protocol_spenders :: "approve_env \<Rightarrow> string set" where
  "protocol_spenders env = {ae_furnace env, ae_mineCore env} \<union> set_option (ae_marketRouter env)"

definition protocol_approval :: "approve_env \<Rightarrow> agent_action \<Rightarrow> bool" where
  "protocol_approval env i \<longleftrightarrow>
     (case i of Erc20_ensureAllowance _ spender _ _ \<Rightarrow> spender \<in> protocol_spenders env
      | Ve_approve spender _ \<Rightarrow> ae_marketRouter env = Some spender | _ \<Rightarrow> False)"

lemma spend_of_spender: "spend_of env a = Some (token, spender, need) \<Longrightarrow> spender \<in> protocol_spenders env"
  by (cases a) (auto simp: spend_of_def protocol_spenders_def split: option.splits)

lemma expandAction_approvals:
  assumes "expandAction env opts a st = (ins, st')" "i \<in> set ins"
  shows "protocol_approval env i"
proof (cases "is_erc20_approval a")
  case True
  then show ?thesis using assms by (cases a) (auto simp: is_erc20_approval_def expandAction_def Let_def)
next
  case na: False
  show ?thesis
  proof (cases "spend_of env a")
    case None
    then show ?thesis using expand_no_spend [OF assms(1) None na] assms(2) by (auto simp: protocol_approval_def)
  next
    case (Some s)
    then obtain token spender need where s: "spend_of env a = Some (token, spender, need)" by (cases s) auto
    then have "ensureAllowance env opts token spender need st = (ins, st')" using assms(1) expand_spend [OF s] by simp
    then show ?thesis using ensureAllowance_inserts assms(2) spend_of_spender [OF s] by (fastforce simp: protocol_approval_def)
  qed
qed

lemma includes_uniqI:
  "x \<in> set l \<Longrightarrow> x \<noteq> [] \<Longrightarrow> toLowerCase x \<notin> set seen \<Longrightarrow> includesAddr (uniqAddrs seen l) x"
proof (induction seen l rule: uniqAddrs.induct)
  case (2 seen a as)
  show ?case
  proof (cases "toLowerCase a = toLowerCase x")
    case True
    then show ?thesis using 2 by (simp add: includesAddr_def Let_def toLowerCase_def)
  next
    case False
    then have "x \<in> set as" using 2 by auto
    then show ?thesis using 2 False by (auto simp: includesAddr_def Let_def)
  qed
qed simp

lemma protocol_approval_accepted:
  assumes "protocol_approval env i" "protocol_spenders env \<subseteq> set addrs" "[] \<notin> protocol_spenders env"
  shows "approval_denied default_security addrs i = None"
proof -
  have "includesAddr (uniqAddrs [] addrs) s" if "s \<in> protocol_spenders env" for s
    using that assms(2,3) by (intro includes_uniqI) auto
  then show ?thesis using assms(1)
    by (cases i) (auto simp: protocol_approval_def approval_denied_def default_security_def Let_def protocol_spenders_def)
qed

lemma expandActions_decompose:
  "\<exists>inss. length inss = length as \<and> expandActions env opts as st = concat (map2 (\<lambda>ins a. ins @ [a]) inss as)
     \<and> (\<forall>i \<in> set (concat inss). protocol_approval env i)"
proof (induction as arbitrary: st)
  case (Cons a as)
  obtain ins st' where e: "expandAction env opts a st = (ins, st')" by force
  obtain inss where "length inss = length as" "expandActions env opts as st' = concat (map2 (\<lambda>ins a. ins @ [a]) inss as)"
    "\<forall>i \<in> set (concat inss). protocol_approval env i"
    using Cons.IH by blast
  then show ?case using expandAction_approvals [OF e] expandActions_Cons [OF e]
    by (intro exI [of _ "ins # inss"]) auto
qed simp

section \<open>Properties\<close>

text \<open>
  C8. The expansion keeps the plan: it is the actions of the plan in their order, each after its approvals; and every
  approval that it adds is for a contract of the protocol, so that the default security policy accepts it.
\<close>

theorem expansion_adds_protocol_approvals:
  assumes "protocol_spenders env \<subseteq> set addrs" "[] \<notin> protocol_spenders env"
  shows "\<exists>inss. length inss = length as
    \<and> expandPlanWithAutoApprovals env opts mode as = concat (map2 (\<lambda>ins a. ins @ [a]) inss as)
    \<and> (\<forall>i \<in> set (concat inss). protocol_approval env i \<and> approval_denied default_security addrs i = None)"
proof (cases "\<not> ao_enabled opts \<or> mode = Some Mode_only")
  case True
  have "concat (map2 (\<lambda>ins a. ins @ [a]) (replicate (length as) []) as) = as"
    by (induction as) simp_all
  then show ?thesis using True
    by (intro exI [of _ "replicate (length as) []"]) (auto simp: expandPlanWithAutoApprovals_def)
next
  case False
  obtain inss where "length inss = length as"
    "expandActions env opts as \<lparr>ap_planned = Map.empty, ap_ve = []\<rparr> = concat (map2 (\<lambda>ins a. ins @ [a]) inss as)"
    "\<forall>i \<in> set (concat inss). protocol_approval env i"
    using expandActions_decompose by blast
  then show ?thesis using False protocol_approval_accepted [OF _ assms]
    by (intro exI [of _ inss]) (auto simp: expandPlanWithAutoApprovals_def)
qed


text \<open>
  Of two entries with the same token the second is not covered: in exact mode the approval for the first is taken
  for enough, although the first entry uses it up; and in either mode an allowance that is enough for each but not for
  both is taken for enough.
\<close>

theorem second_spend_uncovered:
  assumes "ao_enabled opts" "mode \<noteq> Some Mode_only" "ae_claimToken env = Some token"
    and "ae_allowance env (allowanceKey token (ae_furnace env)) = Some x" "x \<noteq> maxUint256" "first \<noteq> maxUint256"
    and "\<not> ao_max opts \<and> x < first \<and> 0 < second \<and> second \<le> first \<or> first \<le> x \<and> second \<le> x \<and> x < first + second"
    and "al (allowanceKey token (ae_furnace env)) = x"
  shows "run_allowances env al (expandPlanWithAutoApprovals env opts mode
    [Furnace_enterWithClaim first t d am s, Furnace_enterWithClaim second t' d' am' s']) = None"
  using assms(7)
proof
  assume "\<not> ao_max opts \<and> x < first \<and> 0 < second \<and> second \<le> first"
  then show ?thesis using assms
    by (auto simp: expandPlanWithAutoApprovals_def expandAction_def spend_of_def ensureAllowance_def Let_def)
next
  assume "first \<le> x \<and> second \<le> x \<and> x < first + second"
  then show ?thesis using assms
    by (auto simp: expandPlanWithAutoApprovals_def expandAction_def spend_of_def ensureAllowance_def Let_def)
qed

section \<open>Witnesses\<close>

definition sample_approve_env :: "int option \<Rightarrow> approve_env" where
  "sample_approve_env x = \<lparr>ae_caller = ''0xbb'', ae_furnace = ''0xf0'', ae_mineCore = ''0xc0'', ae_marketRouter = Some ''0xd0'',
     ae_claimToken = Some ''0xe0'', ae_ve = Some ''0xa0'', ae_allowance = (\<lambda>_. x), ae_ownerOf = (\<lambda>_. Some ''0xBB''),
     ae_isApprovedForAll = (\<lambda>_ _. Some False), ae_getApproved = (\<lambda>_. None)\<rparr>"

definition sample_approve_options :: approve_options where
  "sample_approve_options = \<lparr>ao_enabled = True, ao_max = False, ao_includeNftApprovals = True\<rparr>"

theorem expansion_adds_protocol_approvals_witness:
  "\<exists>inss. length inss = 1 \<and> expandPlanWithAutoApprovals (sample_approve_env None) sample_approve_options None [MarketRouter_listLock 7 1 1]
     = concat (map2 (\<lambda>ins a. ins @ [a]) inss [MarketRouter_listLock 7 1 1])"
  using expansion_adds_protocol_approvals [of "sample_approve_env None" "[''0xf0'', ''0xc0'', ''0xd0'']" "[MarketRouter_listLock 7 1 1]"
      sample_approve_options None]
  by (auto simp: protocol_spenders_def sample_approve_env_def)


theorem second_spend_uncovered_witness:
  "run_allowances (sample_approve_env (Some 40)) (\<lambda>_. 40) (expandPlanWithAutoApprovals (sample_approve_env (Some 40))
     sample_approve_options None [Furnace_enterWithClaim 60 0 1 False 50, Furnace_enterWithClaim 60 0 1 False 50]) = None"
  by (rule second_spend_uncovered [where token = "''0xe0''" and x = 40])
    (simp_all add: sample_approve_options_def sample_approve_env_def maxUint256_def)

end
