(* ===== verification/TxManager.thy ===== *)
theory TxManager
  imports EventCursor
begin

text \<open>
  The agent's sender of transactions (\<open>src/agents/sdk/src/tx/txManager.ts\<close>): the nonce it keeps, the broadcast with its
  fee bumps, and the wait for a receipt.

  \<^item> The clients are \<open>tm_env\<close>: the answers to the calls of each kind, in the order of the calls, which the state counts.
    An error is the text that \<open>extractMessage\<close> finds in it.
  \<^item> The state also records every accepted broadcast, as the chain's side of the story.
  \<^item> A manager handles one write at a time (\<open>runExclusive\<close>), so a write is a function of the state.
\<close>

section \<open>Policy and fees\<close>

record tx_policy =
  tp_enabled :: bool
  tp_timeoutMs :: int
  tp_pollIntervalMs :: int
  tp_maxAttempts :: int
  tp_feeBumpBps :: int

definition DEFAULT_TX_REPLACEMENT_POLICY :: tx_policy where
  "DEFAULT_TX_REPLACEMENT_POLICY = \<lparr>tp_enabled = False, tp_timeoutMs = 45000, tp_pollIntervalMs = 1500, tp_maxAttempts = 3,
     tp_feeBumpBps = 12500\<rparr>"

text \<open>The options of the constructor; an option that is not given has its default.\<close>

definition tx_policy_of :: "bool option \<Rightarrow> json option \<Rightarrow> json option \<Rightarrow> json option \<Rightarrow> json option \<Rightarrow> tx_policy" where
  "tx_policy_of enabled timeout pollInterval maxAttempts feeBump =
     (let d = DEFAULT_TX_REPLACEMENT_POLICY;
          clamp = (\<lambda>v lo hi fallback. case v of None \<Rightarrow> fallback | Some j \<Rightarrow> clampStrictSafeInteger j fallback lo hi);
          timeoutMs = clamp timeout 1000 600000 (tp_timeoutMs d)
      in \<lparr>tp_enabled = (case enabled of Some b \<Rightarrow> b | None \<Rightarrow> tp_enabled d),
          tp_timeoutMs = timeoutMs,
          tp_pollIntervalMs = min (clamp pollInterval 100 60000 (tp_pollIntervalMs d)) timeoutMs,
          tp_maxAttempts = clamp maxAttempts 1 10 (tp_maxAttempts d),
          tp_feeBumpBps = clamp feeBump 10001 100000 (tp_feeBumpBps d)\<rparr>)"

datatype fee_params = Gas_price int | Eip1559 int int

definition bumpByBps :: "int \<Rightarrow> int \<Rightarrow> int" where
  "bumpByBps v bps = (let out = (v * bps + 9999) div 10000 in if out > v then out else v + 1)"

definition bumpFees :: "fee_params option \<Rightarrow> tx_policy \<Rightarrow> fee_params option" where
  "bumpFees prev policy =
     (let bps = tp_feeBumpBps policy in
      case prev of
        None \<Rightarrow> None
      | Some (Gas_price g) \<Rightarrow> Some (Gas_price (bumpByBps g bps))
      | Some (Eip1559 m p) \<Rightarrow> Some (Eip1559 (bumpByBps m bps) (bumpByBps p bps)))"

section \<open>Errors\<close>

definition isNonceTooLowError :: "string \<Rightarrow> bool" where
  "isNonceTooLowError err = (let msg = toLowerCase err in
     js_includes msg ''nonce too low'' \<or> js_includes msg ''nonce is too low'' \<or> js_includes msg ''nonce has already been used'')"

definition isNonceTooHighError :: "string \<Rightarrow> bool" where
  "isNonceTooHighError err = (let msg = toLowerCase err in
     js_includes msg ''nonce too high'' \<or> js_includes msg ''nonce is too high'')"

definition isReplacementUnderpricedError :: "string \<Rightarrow> bool" where
  "isReplacementUnderpricedError err = (let msg = toLowerCase err in
     js_includes msg ''replacement transaction underpriced''
     \<or> js_includes msg ''replacement'' \<and> js_includes msg ''underpriced''
     \<or> js_includes msg ''fee too low to replace'')"

definition isNotFoundError :: "string \<Rightarrow> bool" where
  "isNotFoundError msg \<longleftrightarrow>
     js_includes msg ''TransactionReceiptNotFound'' \<or> js_includes msg ''Transaction receipt not found''
     \<or> js_includes msg ''transaction not found'' \<or> js_includes msg ''Transaction not found''
     \<or> js_includes msg ''Unknown transaction'' \<or> js_includes msg ''could not be found''"

section \<open>The environment and the state\<close>

datatype write_answer = Accepted string | Rejected string

text \<open>One poll for a receipt, with the time elapsed after it: a receipt and whether it succeeded, or an error.\<close>

datatype poll_answer = Receipt bool | Poll_error string

datatype nonce_count = C_big int | C_num int

record tm_env =
  te_counts :: "nat \<Rightarrow> (nonce_count option \<times> nonce_count option) list"   \<comment> \<open>per client: pending, latest\<close>
  te_requestFees :: "fee_params option"
  te_estimate :: "nat \<Rightarrow> fee_params option"
  te_write :: "nat \<Rightarrow> write_answer"
  te_polls :: "nat \<Rightarrow> (poll_answer \<times> int) list"

record tm_state =
  ts_nextNonce :: "int option"
  ts_syncs :: nat
  ts_writes :: nat
  ts_estimates :: nat
  ts_sent :: "(int \<times> fee_params option \<times> string) list"

datatype wait_receipt = Wr_receipt bool | Wr_timeout | Wr_error string

fun waitForReceiptOrTimeout :: "int \<Rightarrow> (poll_answer \<times> int) list \<Rightarrow> wait_receipt" where
  "waitForReceiptOrTimeout timeoutMs [] = Wr_timeout"
| "waitForReceiptOrTimeout timeoutMs ((Receipt success, _) # polls) = Wr_receipt success"
| "waitForReceiptOrTimeout timeoutMs ((Poll_error err, elapsed) # polls) =
     (if \<not> isNotFoundError err then Wr_error err
      else if elapsed \<ge> timeoutMs then Wr_timeout
      else waitForReceiptOrTimeout timeoutMs polls)"

definition toBigIntNonce :: "nonce_count option \<Rightarrow> int option" where
  "toBigIntNonce v = (case v of None \<Rightarrow> None | Some (C_big i) \<Rightarrow> Some i | Some (C_num i) \<Rightarrow> if i \<ge> 0 then Some i else None)"

fun maxPendingNonce :: "int \<Rightarrow> (nonce_count option \<times> nonce_count option) list \<Rightarrow> int" where
  "maxPendingNonce m [] = m"
| "maxPendingNonce m ((pending, latest) # cs) =
     (let n = (case toBigIntNonce pending of Some i \<Rightarrow> Some i | None \<Rightarrow> toBigIntNonce latest)
      in maxPendingNonce (case n of Some i \<Rightarrow> if i > m then i else m | None \<Rightarrow> m) cs)"

definition getNetworkPendingNonce :: "tm_env \<Rightarrow> tm_state \<Rightarrow> int" where
  "getNetworkPendingNonce env s = maxPendingNonce 0 (te_counts env (ts_syncs s))"

definition syncNonce :: "tm_env \<Rightarrow> tm_state \<Rightarrow> tm_state" where
  "syncNonce env s =
     (let net = getNetworkPendingNonce env s in
      s\<lparr>ts_syncs := Suc (ts_syncs s),
        ts_nextNonce := (case ts_nextNonce s of None \<Rightarrow> Some net | Some n \<Rightarrow> if net > n then Some net else Some n)\<rparr>)"

text \<open>\<open>syncNonce\<close> always sets the nonce, so the second read of the code is never made.\<close>

definition allocateNonce :: "tm_env \<Rightarrow> tm_state \<Rightarrow> int \<times> tm_state" where
  "allocateNonce env s = (let s = syncNonce env s in (case ts_nextNonce s of Some n \<Rightarrow> n | None \<Rightarrow> 0, s))"

definition getInitialFees :: "tm_env \<Rightarrow> tm_state \<Rightarrow> fee_params option \<times> tm_state" where
  "getInitialFees env s =
     (case te_requestFees env of
        Some f \<Rightarrow> (Some f, s)
      | None \<Rightarrow> (te_estimate env (ts_estimates s), s\<lparr>ts_estimates := Suc (ts_estimates s)\<rparr>))"

section \<open>Writing\<close>

datatype tm_error =
  Broadcast_failed "string option"
| Poll_failed string
| Tx_reverted_error string
| Tx_timeout_error int "string list"
| Nonce_sync_failed

datatype loop_result = L_mined string nat "string list" | L_retry | L_throw tm_error

text \<open>The fees of the next attempt after a timeout.\<close>

definition next_fees :: "tm_env \<Rightarrow> tx_policy \<Rightarrow> fee_params option \<Rightarrow> tm_state \<Rightarrow> fee_params option \<times> tm_state" where
  "next_fees env policy fees s =
     (case bumpFees fees policy of
        Some f \<Rightarrow> (Some f, s)
      | None \<Rightarrow> (let (f, s) = getInitialFees env s in (bumpFees f policy, s)))"

text \<open>The fees after an error that reports an underpriced replacement.\<close>

definition repriced_fees :: "tm_env \<Rightarrow> tx_policy \<Rightarrow> fee_params option \<Rightarrow> tm_state \<Rightarrow> fee_params option \<times> tm_state" where
  "repriced_fees env policy fees s =
     (let (f, s) = (if fees = None then getInitialFees env s else (fees, s)) in (bumpFees f policy, s))"

text \<open>\<open>fresh\<close>: a stale nonce may still be resynchronised. \<open>k\<close> attempts are left.\<close>

fun attemptLoop ::
  "tm_env \<Rightarrow> tx_policy \<Rightarrow> bool \<Rightarrow> int \<Rightarrow> nat \<Rightarrow> nat \<Rightarrow> fee_params option \<Rightarrow> string list \<Rightarrow> string option \<Rightarrow> tm_state
     \<Rightarrow> loop_result \<times> tm_state" where
  "attemptLoop env policy fresh nonce 0 attempt fees hashes lastErr s =
     (L_throw (if hashes = [] then Broadcast_failed lastErr else Tx_timeout_error nonce hashes), s\<lparr>ts_nextNonce := None\<rparr>)"
| "attemptLoop env policy fresh nonce (Suc k) attempt fees hashes lastErr s =
     (let answer = te_write env (ts_writes s);
          polls = te_polls env (ts_writes s);
          s = s\<lparr>ts_writes := Suc (ts_writes s)\<rparr>
      in case answer of
           Rejected err \<Rightarrow>
             (let stale = (isNonceTooLowError err \<or> isNonceTooHighError err);
                  s = (if stale then syncNonce env (s\<lparr>ts_nextNonce := None\<rparr>) else s)
              in if stale \<and> fresh then (L_retry, s)
                 else if isReplacementUnderpricedError err
                 then (let (fees, s) = repriced_fees env policy fees s
                       in attemptLoop env policy fresh nonce k (Suc attempt) fees hashes (Some err) s)
                 else (L_throw (Broadcast_failed (Some err)), s\<lparr>ts_nextNonce := None\<rparr>))
         | Accepted h \<Rightarrow>
             (let s = s\<lparr>ts_sent := ts_sent s @ [(nonce, fees, h)]\<rparr>;
                  s = (if hashes = [] then s\<lparr>ts_nextNonce := Some (nonce + 1)\<rparr> else s);
                  hashes = hashes @ [h]
              in case waitForReceiptOrTimeout (tp_timeoutMs policy) polls of
                   Wr_receipt success \<Rightarrow>
                     if \<not> success then (L_throw (Tx_reverted_error h), s)
                     else (L_mined h attempt hashes,
                           case ts_nextNonce s of
                             Some n \<Rightarrow> if n \<le> nonce then s\<lparr>ts_nextNonce := Some (nonce + 1)\<rparr> else s | None \<Rightarrow> s)
                 | Wr_error err \<Rightarrow> (L_throw (Poll_failed err), s\<lparr>ts_nextNonce := None\<rparr>)
                 | Wr_timeout \<Rightarrow>
                     if \<not> tp_enabled policy then (L_throw (Tx_timeout_error nonce hashes), s\<lparr>ts_nextNonce := None\<rparr>)
                     else (let (fees, s) = next_fees env policy fees s
                           in attemptLoop env policy fresh nonce k (Suc attempt) fees hashes lastErr s)))"

datatype tm_result = Mined string int nat "string list" | Write_throws tm_error

definition nonceAttempt :: "tm_env \<Rightarrow> tx_policy \<Rightarrow> bool \<Rightarrow> tm_state \<Rightarrow> int \<times> loop_result \<times> tm_state" where
  "nonceAttempt env policy fresh s =
     (let (nonce, s) = allocateNonce env s;
          (fees, s) = getInitialFees env s
      in (nonce, attemptLoop env policy fresh nonce (nat (max 1 (tp_maxAttempts policy))) 1 fees [] None s))"

definition writeContract :: "tm_env \<Rightarrow> tx_policy \<Rightarrow> tm_state \<Rightarrow> tm_result \<times> tm_state" where
  "writeContract env policy s =
     (case nonceAttempt env policy True s of
        (nonce, L_mined h attempts hashes, s) \<Rightarrow> (Mined h nonce attempts hashes, s)
      | (nonce, L_throw e, s) \<Rightarrow> (Write_throws e, s)
      | (nonce, L_retry, s) \<Rightarrow>
          (case nonceAttempt env policy False s of
             (nonce, L_mined h attempts hashes, s) \<Rightarrow> (Mined h nonce attempts hashes, s)
           | (nonce, L_throw e, s) \<Rightarrow> (Write_throws e, s)
           | (nonce, L_retry, s) \<Rightarrow> (Write_throws Nonce_sync_failed, s)))"

section \<open>Lemmas\<close>

lemma bumpByBps_gt: "v < bumpByBps v bps"
  by (simp add: bumpByBps_def Let_def)

text \<open>A bump meets the rule of the network: at least the configured factor.\<close>

lemma bumpByBps_factor: "v * bps \<le> 10000 * bumpByBps v bps"
proof -
  have "(v * bps + 9999) div 10000 * 10000 + (v * bps + 9999) mod 10000 = v * bps + 9999" by (rule div_mult_mod_eq)
  moreover have "(v * bps + 9999) mod 10000 < 10000" by (rule pos_mod_bound) simp
  ultimately have "v * bps \<le> 10000 * ((v * bps + 9999) div 10000)" by linarith
  then show ?thesis by (auto simp: bumpByBps_def Let_def)
qed

definition fee_below :: "fee_params option \<Rightarrow> fee_params option \<Rightarrow> bool" where
  "fee_below a b \<longleftrightarrow>
     (case a of
        None \<Rightarrow> True
      | Some (Gas_price x) \<Rightarrow> (case b of Some (Gas_price y) \<Rightarrow> x < y | _ \<Rightarrow> False)
      | Some (Eip1559 m p) \<Rightarrow> (case b of Some (Eip1559 m' p') \<Rightarrow> m < m' \<and> p < p' | _ \<Rightarrow> False))"

lemma fee_below_trans: "fee_below a b \<Longrightarrow> fee_below b c \<Longrightarrow> fee_below a c"
  by (auto simp: fee_below_def split: option.splits fee_params.splits)

lemma bumpFees_below: "fee_below a (bumpFees a policy)"
  by (auto simp: fee_below_def bumpFees_def bumpByBps_gt Let_def split: option.split fee_params.split)

lemma next_fees_below: "next_fees env policy fees s = (fees', s') \<Longrightarrow> fee_below fees fees'"
  using bumpFees_below [of fees policy]
  by (cases fees) (auto simp: next_fees_def fee_below_def bumpFees_def Let_def split: option.splits prod.splits fee_params.splits)

lemma repriced_fees_below: "repriced_fees env policy fees s = (fees', s') \<Longrightarrow> fee_below fees fees'"
  using bumpFees_below [of fees policy]
  by (cases fees) (auto simp: repriced_fees_def fee_below_def split: prod.splits)

lemma getInitialFees_state [simp]:
  "ts_nextNonce (snd (getInitialFees env s)) = ts_nextNonce s" "ts_sent (snd (getInitialFees env s)) = ts_sent s"
  "ts_writes (snd (getInitialFees env s)) = ts_writes s"
  by (simp_all add: getInitialFees_def split: option.split)

lemma fees_state:
  "next_fees env policy fees s = (f, s') \<Longrightarrow> ts_nextNonce s' = ts_nextNonce s \<and> ts_sent s' = ts_sent s \<and> ts_writes s' = ts_writes s"
  "repriced_fees env policy fees s = (f, s') \<Longrightarrow> ts_nextNonce s' = ts_nextNonce s \<and> ts_sent s' = ts_sent s \<and> ts_writes s' = ts_writes s"
  using getInitialFees_state [of env s]
  by (cases "getInitialFees env s"; auto simp: next_fees_def repriced_fees_def Let_def split: option.splits if_splits)+

lemma syncNonce_state [simp]:
  "ts_sent (syncNonce env s) = ts_sent s" "ts_writes (syncNonce env s) = ts_writes s"
  "\<exists>n. ts_nextNonce (syncNonce env s) = Some n \<and> (\<forall>m. ts_nextNonce s = Some m \<longrightarrow> m \<le> n)"
  by (auto simp: syncNonce_def Let_def split: option.split)

text \<open>What one run of the attempts adds to the broadcasts.\<close>

definition sends_ok :: "int \<Rightarrow> fee_params option \<Rightarrow> (int \<times> fee_params option \<times> string) list \<Rightarrow> bool" where
  "sends_ok nonce fees es \<longleftrightarrow> (\<forall>(n, _, _) \<in> set es. n = nonce) \<and> sorted_wrt fee_below (map (fst \<circ> snd) es)
     \<and> (\<forall>(_, f, _) \<in> set es. f = fees \<or> fee_below fees f)"

lemma sends_ok_Nil [simp]: "sends_ok nonce fees []"
  by (simp add: sends_ok_def)

lemma sends_ok_later: "sends_ok nonce fees' es \<Longrightarrow> fee_below fees fees' \<Longrightarrow> sends_ok nonce fees es"
  using fee_below_trans by (fastforce simp: sends_ok_def)

lemma sends_ok_Cons: "sends_ok nonce fees' es \<Longrightarrow> fee_below fees fees' \<Longrightarrow> sends_ok nonce fees ((nonce, fees, h) # es)"
  using fee_below_trans by (fastforce simp: sends_ok_def)

text \<open>What a run of the attempts does to the state.\<close>

definition loop_effect ::
  "int \<Rightarrow> nat \<Rightarrow> fee_params option \<Rightarrow> bool \<Rightarrow> tm_state \<Rightarrow> loop_result \<times> tm_state \<Rightarrow> bool" where
  "loop_effect nonce k fees committed s r \<longleftrightarrow>
     (\<exists>es. ts_sent (snd r) = ts_sent s @ es \<and> sends_ok nonce fees es)
   \<and> ts_writes (snd r) \<le> ts_writes s + k
   \<and> (\<forall>h a hs. fst r = L_mined h a hs \<longrightarrow> committed \<longrightarrow> (\<exists>n. ts_nextNonce (snd r) = Some n \<and> nonce < n))"

lemma loop_effect_step:
  assumes "loop_effect nonce k fees' True s' r" "fee_below fees fees'" "ts_writes s' = Suc (ts_writes s)"
    and "ts_sent s' = ts_sent s @ [(nonce, fees, h)]"
  shows "loop_effect nonce (Suc k) fees True s r"
proof -
  obtain es where "ts_sent (snd r) = ts_sent s' @ es" "sends_ok nonce fees' es"
    using assms(1) by (auto simp: loop_effect_def)
  then have "ts_sent (snd r) = ts_sent s @ ((nonce, fees, h) # es)" "sends_ok nonce fees ((nonce, fees, h) # es)"
    using assms(2,4) sends_ok_Cons by auto
  then show ?thesis using assms(1,3) unfolding loop_effect_def by (metis add_Suc_right add_Suc)
qed

lemma loop_effect_rejected:
  assumes "loop_effect nonce k fees' c s' r" "fee_below fees fees'" "ts_writes s' = Suc (ts_writes s)" "ts_sent s' = ts_sent s"
  shows "loop_effect nonce (Suc k) fees c s r"
  using assms sends_ok_later unfolding loop_effect_def by (metis add_Suc_right add_Suc)

lemma attemptLoop_effect:
  "hashes \<noteq> [] \<longrightarrow> ts_nextNonce s \<noteq> None \<Longrightarrow>
     loop_effect nonce k fees True s (attemptLoop env policy fresh nonce k attempt fees hashes lastErr s)"
proof (induction k arbitrary: attempt fees hashes lastErr s)
  case 0
  then show ?case by (simp add: loop_effect_def)
next
  case (Suc k)
  let ?r = "attemptLoop env policy fresh nonce (Suc k) attempt fees hashes lastErr s"
  let ?s = "s\<lparr>ts_writes := Suc (ts_writes s)\<rparr>"
  show ?case
  proof (cases "te_write env (ts_writes s)")
    case (Rejected err)
    define s1 where "s1 = (if isNonceTooLowError err \<or> isNonceTooHighError err then syncNonce env (?s\<lparr>ts_nextNonce := None\<rparr>) else ?s)"
    have s1: "ts_sent s1 = ts_sent s" "ts_writes s1 = Suc (ts_writes s)" "hashes \<noteq> [] \<longrightarrow> ts_nextNonce s1 \<noteq> None"
      using Suc.prems syncNonce_state(3) [of env "?s\<lparr>ts_nextNonce := None\<rparr>"] by (auto simp: s1_def)
    obtain fees' s2 where f: "repriced_fees env policy fees s1 = (fees', s2)" by force
    have s2: "ts_sent s2 = ts_sent s" "ts_writes s2 = Suc (ts_writes s)" "hashes \<noteq> [] \<longrightarrow> ts_nextNonce s2 \<noteq> None"
      using fees_state(2) [OF f] s1 by auto
    have "?r = (if (isNonceTooLowError err \<or> isNonceTooHighError err) \<and> fresh then (L_retry, s1)
        else if isReplacementUnderpricedError err
        then (let (fees, s) = repriced_fees env policy fees s1 in attemptLoop env policy fresh nonce k (Suc attempt) fees hashes (Some err) s)
        else (L_throw (Broadcast_failed (Some err)), s1\<lparr>ts_nextNonce := None\<rparr>))"
      unfolding s1_def by (simp only: attemptLoop.simps Rejected Let_def write_answer.case)
    then have "?r = (L_retry, s1) \<or> ?r = attemptLoop env policy fresh nonce k (Suc attempt) fees' hashes (Some err) s2
        \<or> ?r = (L_throw (Broadcast_failed (Some err)), s1\<lparr>ts_nextNonce := None\<rparr>)"
      by (simp add: f split: if_splits)
    then show ?thesis
      using loop_effect_rejected [OF Suc.IH [OF s2(3)] repriced_fees_below [OF f] s2(2,1)] s1
      by (auto simp: loop_effect_def)
  next
    case (Accepted h)
    define s1 where "s1 = (if hashes = [] then ?s\<lparr>ts_sent := ts_sent ?s @ [(nonce, fees, h)]\<rparr>\<lparr>ts_nextNonce := Some (nonce + 1)\<rparr>
      else ?s\<lparr>ts_sent := ts_sent ?s @ [(nonce, fees, h)]\<rparr>)"
    have s1: "ts_sent s1 = ts_sent s @ [(nonce, fees, h)]" "ts_writes s1 = Suc (ts_writes s)" "ts_nextNonce s1 \<noteq> None"
      using Suc.prems by (auto simp: s1_def)
    have one: "sends_ok nonce fees [(nonce, fees, h)]" by (simp add: sends_ok_def)
    obtain fees' s2 where f: "next_fees env policy fees s1 = (fees', s2)" by force
    have s2: "ts_sent s2 = ts_sent s @ [(nonce, fees, h)]" "ts_writes s2 = Suc (ts_writes s)" "ts_nextNonce s2 \<noteq> None"
      using fees_state(1) [OF f] s1 by auto
    define mined where "mined = (case ts_nextNonce s1 of Some n \<Rightarrow> if n \<le> nonce then s1\<lparr>ts_nextNonce := Some (nonce + 1)\<rparr> else s1 | None \<Rightarrow> s1)"
    have m: "ts_sent mined = ts_sent s1" "ts_writes mined = ts_writes s1" "\<exists>n. ts_nextNonce mined = Some n \<and> nonce < n"
      using s1(3) by (auto simp: mined_def split: option.split)
    have "?r = (case waitForReceiptOrTimeout (tp_timeoutMs policy) (te_polls env (ts_writes s)) of
        Wr_receipt success \<Rightarrow> if \<not> success then (L_throw (Tx_reverted_error h), s1) else (L_mined h attempt (hashes @ [h]), mined)
      | Wr_timeout \<Rightarrow>
          if \<not> tp_enabled policy then (L_throw (Tx_timeout_error nonce (hashes @ [h])), s1\<lparr>ts_nextNonce := None\<rparr>)
          else (let (fees, s) = next_fees env policy fees s1
                in attemptLoop env policy fresh nonce k (Suc attempt) fees (hashes @ [h]) lastErr s)
      | Wr_error err \<Rightarrow> (L_throw (Poll_failed err), s1\<lparr>ts_nextNonce := None\<rparr>))"
      unfolding s1_def mined_def by (simp only: attemptLoop.simps Accepted Let_def write_answer.case)
    then have "(\<exists>e s3. ?r = (L_throw e, s3) \<and> ts_sent s3 = ts_sent s1 \<and> ts_writes s3 = ts_writes s1)
        \<or> ?r = (L_mined h attempt (hashes @ [h]), mined)
        \<or> ?r = attemptLoop env policy fresh nonce k (Suc attempt) fees' (hashes @ [h]) lastErr s2"
      by (simp add: f split: wait_receipt.splits if_splits)
    then show ?thesis
    proof (elim disjE exE conjE)
      assume "?r = attemptLoop env policy fresh nonce k (Suc attempt) fees' (hashes @ [h]) lastErr s2"
      then show ?thesis
        using loop_effect_step [OF Suc.IH next_fees_below [OF f] s2(2,1), of "hashes @ [h]"] s2(3) by simp
    qed (use one s1 m in \<open>auto simp: loop_effect_def\<close>)
  qed
qed

lemma nonceAttempt_effect:
  assumes "nonceAttempt env policy fresh s = (nonce, res, s')"
  shows "(\<exists>es fees. ts_sent s' = ts_sent s @ es \<and> sends_ok nonce fees es)
    \<and> ts_writes s' \<le> ts_writes s + nat (max 1 (tp_maxAttempts policy))
    \<and> (\<forall>h a hs. res = L_mined h a hs \<longrightarrow> (\<exists>n. ts_nextNonce s' = Some n \<and> nonce < n))"
proof -
  define s1 where "s1 = snd (allocateNonce env s)"
  define s2 where "s2 = snd (getInitialFees env s1)"
  have eq: "ts_sent s2 = ts_sent s" "ts_writes s2 = ts_writes s"
    by (simp_all add: s2_def s1_def allocateNonce_def Let_def)
  have n: "(res, s') = attemptLoop env policy fresh nonce (nat (max 1 (tp_maxAttempts policy))) 1 (fst (getInitialFees env s1)) [] None s2"
    using assms by (auto simp: nonceAttempt_def s1_def s2_def allocateNonce_def Let_def split: prod.splits)
  have "loop_effect nonce (nat (max 1 (tp_maxAttempts policy))) (fst (getInitialFees env s1)) True s2 (res, s')"
    unfolding n by (rule attemptLoop_effect) simp
  then show ?thesis using eq by (auto simp: loop_effect_def)
qed

lemma tx_policy_of_attempts: "1 \<le> tp_maxAttempts (tx_policy_of e t p a b) \<and> tp_maxAttempts (tx_policy_of e t p a b) \<le> 10"
  by (auto simp: tx_policy_of_def clampStrictSafeInteger_def DEFAULT_TX_REPLACEMENT_POLICY_def Let_def split: option.split)

lemma allocate_above: "ts_nextNonce s = Some m \<Longrightarrow> m \<le> fst (allocateNonce env s)"
  using syncNonce_state(3) [of env s] by (auto simp: allocateNonce_def Let_def)

section \<open>Properties\<close>



declare attemptLoop.simps(2) [simp del]

lemma fees_syncs:
  "ts_syncs (snd (getInitialFees env s)) = ts_syncs s"
  "next_fees env policy fees s = (f, s') \<Longrightarrow> ts_syncs s' = ts_syncs s"
proof -
  show g: "ts_syncs (snd (getInitialFees env s)) = ts_syncs s" by (simp add: getInitialFees_def split: option.split)
  show "next_fees env policy fees s = (f, s') \<Longrightarrow> ts_syncs s' = ts_syncs s"
    using g by (cases "getInitialFees env s") (auto simp: next_fees_def Let_def split: option.splits)
qed

text \<open>The two ways in which the attempts of the scenario go on.\<close>

lemma loop_timed_out:
  assumes "te_write env (ts_writes s) = Accepted h" "waitForReceiptOrTimeout (tp_timeoutMs policy) (te_polls env (ts_writes s)) = Wr_timeout"
    and "tp_enabled policy"
  shows "\<exists>f' s2. attemptLoop env policy fresh nonce (Suc k) attempt fees [] lastErr s
      = attemptLoop env policy fresh nonce k (Suc attempt) f' [h] lastErr s2
    \<and> ts_writes s2 = Suc (ts_writes s) \<and> ts_syncs s2 = ts_syncs s \<and> ts_sent s2 = ts_sent s @ [(nonce, fees, h)]"
proof -
  let ?s = "s\<lparr>ts_writes := Suc (ts_writes s), ts_sent := ts_sent s @ [(nonce, fees, h)], ts_nextNonce := Some (nonce + 1)\<rparr>"
  obtain f' s2 where f: "next_fees env policy fees ?s = (f', s2)" by force
  then show ?thesis using assms fees_state(1) [OF f] fees_syncs(2) [OF f]
    by (intro exI [of _ f'] exI [of _ s2]) (simp add: attemptLoop.simps(2) Let_def)
qed

lemma loop_stale:
  assumes "te_write env (ts_writes s) = Rejected err" "isNonceTooLowError err"
  shows "attemptLoop env policy True nonce (Suc k) attempt fees hashes lastErr s
    = (L_retry, syncNonce env (s\<lparr>ts_writes := Suc (ts_writes s)\<rparr>\<lparr>ts_nextNonce := None\<rparr>))"
  using assms by (simp add: attemptLoop.simps(2) Let_def)

lemma loop_mined:
  assumes "te_write env (ts_writes s) = Accepted h" "waitForReceiptOrTimeout (tp_timeoutMs policy) (te_polls env (ts_writes s)) = Wr_receipt True"
  shows "\<exists>s2. attemptLoop env policy fresh nonce (Suc k) attempt fees [] lastErr s = (L_mined h attempt [h], s2)
    \<and> ts_sent s2 = ts_sent s @ [(nonce, fees, h)]"
  using assms by (simp add: attemptLoop.simps(2) Let_def)

text \<open>
  A transaction that is mined just after its time-out is sent again as a new one: the replacement is answered with
  "nonce too low", which the manager takes for a stale nonce, and the same call is broadcast with the next nonce.
\<close>

theorem mined_write_sent_twice:
  assumes "tp_enabled policy" "2 \<le> tp_maxAttempts policy"
    and "te_write env (ts_writes s) = Accepted h1" "waitForReceiptOrTimeout (tp_timeoutMs policy) (te_polls env (ts_writes s)) = Wr_timeout"
    and "te_write env (Suc (ts_writes s)) = Rejected err" "isNonceTooLowError err"
    and "te_write env (Suc (Suc (ts_writes s))) = Accepted h2"
      "waitForReceiptOrTimeout (tp_timeoutMs policy) (te_polls env (Suc (Suc (ts_writes s)))) = Wr_receipt True"
    and "fst (allocateNonce env s) < maxPendingNonce 0 (te_counts env (Suc (ts_syncs s)))"
  shows "\<exists>s' n1 n2 f1 f2. writeContract env policy s = (Mined h2 n2 1 [h2], s')
    \<and> ts_sent s' = ts_sent s @ [(n1, f1, h1), (n2, f2, h2)] \<and> n1 < n2"
proof -
  define k where "k = nat (tp_maxAttempts policy - 2)"
  have k: "nat (max 1 (tp_maxAttempts policy)) = Suc (Suc k)"
    using assms(2) by (simp add: k_def)
  define sA where "sA = snd (allocateNonce env s)"
  obtain f1 sB where f1: "getInitialFees env sA = (f1, sB)" by force
  have A: "ts_writes sA = ts_writes s" "ts_syncs sA = Suc (ts_syncs s)" "ts_sent sA = ts_sent s"
    by (simp_all add: sA_def allocateNonce_def syncNonce_def Let_def)
  have B: "ts_writes sB = ts_writes s" "ts_syncs sB = Suc (ts_syncs s)" "ts_sent sB = ts_sent s"
    using getInitialFees_state [of env sA] fees_syncs(1) [of env sA] f1 A by simp_all
  let ?n1 = "fst (allocateNonce env s)"
  have one: "nonceAttempt env policy True s = (?n1, attemptLoop env policy True ?n1 (Suc (Suc k)) 1 f1 [] None sB)"
    using f1 by (cases "allocateNonce env s") (simp add: nonceAttempt_def k sA_def)
  obtain f2 sC where C: "attemptLoop env policy True ?n1 (Suc (Suc k)) 1 f1 [] None sB = attemptLoop env policy True ?n1 (Suc k) 2 f2 [h1] None sC"
    "ts_writes sC = Suc (ts_writes s)" "ts_syncs sC = Suc (ts_syncs s)" "ts_sent sC = ts_sent s @ [(?n1, f1, h1)]"
    using loop_timed_out [of env sB h1 policy True ?n1 "Suc k" 1 f1 None] assms(1,3,4) B by (auto simp: numeral_2_eq_2)
  define sD where "sD = syncNonce env (sC\<lparr>ts_writes := Suc (ts_writes sC)\<rparr>\<lparr>ts_nextNonce := None\<rparr>)"
  have D: "attemptLoop env policy True ?n1 (Suc k) 2 f2 [h1] None sC = (L_retry, sD)"
    unfolding sD_def by (rule loop_stale) (use assms(5,6) C(2) in simp_all)
  have D': "ts_writes sD = Suc (Suc (ts_writes s))" "ts_sent sD = ts_sent s @ [(?n1, f1, h1)]"
    "ts_nextNonce sD = Some (maxPendingNonce 0 (te_counts env (Suc (ts_syncs s))))"
    using C by (simp_all add: sD_def syncNonce_def getNetworkPendingNonce_def Let_def)
  let ?n2 = "fst (allocateNonce env sD)"
  have n: "?n1 < ?n2" using allocate_above [OF D'(3), of env] assms(9) by simp
  obtain f3 sF where f3: "getInitialFees env (snd (allocateNonce env sD)) = (f3, sF)" by force
  have F: "ts_writes sF = Suc (Suc (ts_writes s))" "ts_sent sF = ts_sent s @ [(?n1, f1, h1)]"
    using getInitialFees_state [of env "snd (allocateNonce env sD)"] D'(1,2)
    unfolding f3 snd_conv by (simp_all add: allocateNonce_def Let_def)
  have two: "nonceAttempt env policy False sD = (?n2, attemptLoop env policy False ?n2 (Suc (Suc k)) 1 f3 [] None sF)"
    using f3 by (cases "allocateNonce env sD") (simp add: nonceAttempt_def k)
  obtain sG where "attemptLoop env policy False ?n2 (Suc (Suc k)) 1 f3 [] None sF = (L_mined h2 1 [h2], sG)"
    "ts_sent sG = ts_sent s @ [(?n1, f1, h1), (?n2, f3, h2)]"
    using loop_mined [of env sF h2 policy False ?n2 "Suc k" 1 f3 None] assms(7,8) F by auto
  then show ?thesis using one two C(1) D n by (auto simp: writeContract_def)
qed

section \<open>Witnesses\<close>

definition sample_tm_env :: tm_env where
  "sample_tm_env = \<lparr>te_counts = (\<lambda>i. [(Some (C_num (if i = 0 then 5 else 6)), None)]), te_requestFees = None,
     te_estimate = (\<lambda>_. Some (Eip1559 100 2)),
     te_write = (\<lambda>i. if i = 0 then Accepted ''0x1'' else if i = 1 then Rejected ''Nonce too low'' else Accepted ''0x2''),
     te_polls = (\<lambda>i. if i = 0 then [(Poll_error ''Transaction receipt not found'', 45000)] else [(Receipt True, 0)])\<rparr>"

definition sample_tm_state :: tm_state where
  "sample_tm_state = \<lparr>ts_nextNonce = None, ts_syncs = 0, ts_writes = 0, ts_estimates = 0, ts_sent = []\<rparr>"

abbreviation "sample_tx_policy \<equiv> tx_policy_of (Some True) None None None None"

lemma sample_write:
  "writeContract sample_tm_env sample_tx_policy sample_tm_state
   = (Mined ''0x2'' 6 1 [''0x2''], \<lparr>ts_nextNonce = Some 7, ts_syncs = 3, ts_writes = 3, ts_estimates = 2,
       ts_sent = [(5, Some (Eip1559 100 2), ''0x1''), (6, Some (Eip1559 100 2), ''0x2'')]\<rparr>)"
  by code_simp

theorem mined_write_sent_twice_witness:
  "\<exists>s' n1 n2 f1 f2. writeContract sample_tm_env sample_tx_policy sample_tm_state = (Mined ''0x2'' n2 1 [''0x2''], s')
    \<and> ts_sent s' = [(n1, f1, ''0x1''), (n2, f2, ''0x2'')] \<and> n1 < n2"
proof -
  have "isNonceTooLowError ''Nonce too low''" by code_simp
  moreover have "isNotFoundError ''Transaction receipt not found''" by code_simp
  moreover have "fst (allocateNonce sample_tm_env sample_tm_state) < maxPendingNonce 0 (te_counts sample_tm_env (Suc 0))" by code_simp
  ultimately show ?thesis
    using mined_write_sent_twice [of sample_tx_policy sample_tm_env sample_tm_state "''0x1''" "''Nonce too low''" "''0x2''"]
    by (simp add: sample_tm_env_def sample_tm_state_def tx_policy_of_def DEFAULT_TX_REPLACEMENT_POLICY_def Let_def)
qed



end
