(* ===== verification/Backoff.thy ===== *)
theory Backoff
  imports CircuitBreaker Complex_Main
begin

text \<open>
  The live agent's back-off controller (\<open>src/agents/sdk/src/agent/backoff.ts\<close>): it stops the agent from
  broadcasting after repeated errors or timeouts, for a cooldown that grows while errors go on.

  \<^item> Times and durations are milliseconds, unbounded integers; the multiplier is a rational, so the
    product under \<open>Math.floor\<close> is exact.
  \<^item> \<open>Date.now()\<close> is an argument. An optional field is an option; the code tests
    \<open>lastErrorAtMs\<close> for truth, so a recorded time of 0 counts as none.

  It provides the same interface as the keeper's breaker, \<open>failure_streak\<close>; here the streak only
  continues while errors come within \<open>resetAfterMs\<close> of each other.
\<close>

section \<open>Configuration and state\<close>

datatype (plugins only: code) error_kind =
  Err_tx_timeout | Err_not_authorized | Err_paused | Err_slippage | Err_deadline
| Err_insufficient_balance | Err_insufficient_allowance | Err_unknown

record error_info =
  ei_kind :: error_kind
  ei_errorName :: "string option"
  ei_message :: string

record backoff_config =
  bc_enabled :: bool
  bc_baseCooldownMs :: int
  bc_maxCooldownMs :: int
  bc_multiplier :: rat
  bc_maxConsecutiveTimeouts :: int
  bc_maxConsecutiveErrors :: int
  bc_resetAfterMs :: int
  bc_countErrorKinds :: "error_kind list option"

record backoff_state =
  bs_active :: bool
  bs_cooldownUntilMs :: int
  bs_cooldownMs :: int
  bs_consecutiveErrors :: int
  bs_consecutiveTimeouts :: int
  bs_lastErrorAtMs :: "int option"
  bs_lastErrorKind :: "error_kind option"
  bs_lastErrorName :: "string option"
  bs_lastActionKind :: "string option"

text \<open>
  The fields of an \<open>AgentActionResult\<close> that the controller reads; \<open>ar_detailsErrorInfo\<close> is
  \<open>details.errorInfo\<close>. An empty error text counts as no error.
\<close>

record action_result =
  ar_simulated :: bool
  ar_error :: "string option"
  ar_errorInfo :: "error_info option"
  ar_detailsErrorInfo :: "error_info option"
  ar_actionKind :: "string option"

record entered_reason =
  er_errorKind :: error_kind
  er_errorName :: "string option"
  er_message :: "string option"
  er_actionKind :: "string option"

datatype (plugins only: code) backoff_transition =
  Entered backoff_state entered_reason
| Cleared backoff_state

definition clamp :: "int \<Rightarrow> int \<Rightarrow> int \<Rightarrow> int" where
  "clamp n lo hi = max lo (min hi n)"

definition inferErrorInfo :: "action_result \<Rightarrow> error_info option" where
  "inferErrorInfo res =
     (case ar_errorInfo res of Some direct \<Rightarrow> Some direct | None \<Rightarrow> ar_detailsErrorInfo res)"

definition shouldCountErrorKind :: "error_kind \<Rightarrow> error_kind list option \<Rightarrow> bool" where
  "shouldCountErrorKind kind allowList =
     (case allowList of None \<Rightarrow> True | Some l \<Rightarrow> if l = [] then True else kind \<in> set l)"

definition DEFAULT_BACKOFF_CONFIG :: backoff_config where
  "DEFAULT_BACKOFF_CONFIG = \<lparr>bc_enabled = True, bc_baseCooldownMs = 15000,
     bc_maxCooldownMs = 5 * 60000, bc_multiplier = 2, bc_maxConsecutiveTimeouts = 1,
     bc_maxConsecutiveErrors = 3, bc_resetAfterMs = 2 * 60000, bc_countErrorKinds = None\<rparr>"

definition initial_backoff :: backoff_state where
  "initial_backoff = \<lparr>bs_active = False, bs_cooldownUntilMs = 0, bs_cooldownMs = 0,
     bs_consecutiveErrors = 0, bs_consecutiveTimeouts = 0, bs_lastErrorAtMs = None,
     bs_lastErrorKind = None, bs_lastErrorName = None, bs_lastActionKind = None\<rparr>"

section \<open>Operations\<close>

definition isActive :: "backoff_config \<Rightarrow> int \<Rightarrow> backoff_state \<Rightarrow> bool" where
  "isActive cfg nowMs s =
     (if \<not> bc_enabled cfg then False
      else if \<not> bs_active s then False
      else if nowMs \<ge> bs_cooldownUntilMs s then False
      else True)"

definition remainingMs :: "backoff_config \<Rightarrow> int \<Rightarrow> backoff_state \<Rightarrow> int" where
  "remainingMs cfg nowMs s =
     (if \<not> isActive cfg nowMs s then 0 else max 0 (bs_cooldownUntilMs s - nowMs))"

definition streak_stale :: "backoff_config \<Rightarrow> int \<Rightarrow> backoff_state \<Rightarrow> bool" where
  "streak_stale cfg nowMs s =
     (case bs_lastErrorAtMs s of
        None \<Rightarrow> False | Some t \<Rightarrow> t \<noteq> 0 \<and> nowMs - t \<ge> bc_resetAfterMs cfg)"

definition clear_streak :: "backoff_state \<Rightarrow> backoff_state" where
  "clear_streak s = s\<lparr>bs_consecutiveErrors := 0, bs_consecutiveTimeouts := 0, bs_lastErrorAtMs := None,
     bs_lastErrorKind := None, bs_lastErrorName := None, bs_lastActionKind := None\<rparr>"

definition maybeClear ::
  "backoff_config \<Rightarrow> int \<Rightarrow> backoff_state \<Rightarrow> backoff_state \<times> backoff_transition option" where
  "maybeClear cfg nowMs s =
     (if \<not> bc_enabled cfg then (s, None)
      else if bs_active s \<and> nowMs \<ge> bs_cooldownUntilMs s
      then let s' = s\<lparr>bs_active := False, bs_cooldownUntilMs := 0\<rparr> in (s', Some (Cleared s'))
      else if streak_stale cfg nowMs s
      then ((clear_streak s)\<lparr>bs_cooldownMs := 0\<rparr>, None)
      else (s, None))"

definition next_cooldown :: "backoff_config \<Rightarrow> int \<Rightarrow> int" where
  "next_cooldown cfg prevCooldown =
     (if prevCooldown > 0
      then clamp \<lfloor>rat_of_int prevCooldown * bc_multiplier cfg\<rfloor> (bc_baseCooldownMs cfg) (bc_maxCooldownMs cfg)
      else clamp (bc_baseCooldownMs cfg) 1 (bc_maxCooldownMs cfg))"

definition onActionResult ::
  "backoff_config \<Rightarrow> action_result \<Rightarrow> int \<Rightarrow> backoff_state \<Rightarrow> backoff_state \<times> backoff_transition option" where
  "onActionResult cfg res nowMs s =
     (if \<not> bc_enabled cfg then (s, None)
      else if ar_simulated res then (s, None)
      else if ar_error res = None \<or> ar_error res = Some '''' then (clear_streak s, None)
      else
        let info = inferErrorInfo res;
            kind = (case info of None \<Rightarrow> Err_unknown | Some i \<Rightarrow> ei_kind i);
            s = (if streak_stale cfg nowMs s
                 then s\<lparr>bs_consecutiveErrors := 0, bs_consecutiveTimeouts := 0, bs_cooldownMs := 0\<rparr>
                 else s);
            consecutiveErrors = (if shouldCountErrorKind kind (bc_countErrorKinds cfg)
                                 then bs_consecutiveErrors s + 1 else bs_consecutiveErrors s);
            consecutiveTimeouts = (if kind = Err_tx_timeout then bs_consecutiveTimeouts s + 1
                                   else bs_consecutiveTimeouts s);
            s = s\<lparr>bs_consecutiveErrors := consecutiveErrors, bs_consecutiveTimeouts := consecutiveTimeouts,
                  bs_lastErrorAtMs := Some nowMs, bs_lastErrorKind := Some kind,
                  bs_lastErrorName := (case info of None \<Rightarrow> None | Some i \<Rightarrow> ei_errorName i),
                  bs_lastActionKind := ar_actionKind res\<rparr>;
            hitTimeoutThreshold = (consecutiveTimeouts \<ge> max 1 (bc_maxConsecutiveTimeouts cfg));
            hitErrorThreshold = (consecutiveErrors \<ge> max 1 (bc_maxConsecutiveErrors cfg))
        in if \<not> hitTimeoutThreshold \<and> \<not> hitErrorThreshold then (s, None)
           else let nextCooldown = next_cooldown cfg (bs_cooldownMs s);
                    s = s\<lparr>bs_active := True, bs_cooldownMs := nextCooldown,
                          bs_cooldownUntilMs := nowMs + nextCooldown\<rparr>
                in (s, Some (Entered s \<lparr>er_errorKind = kind,
                          er_errorName = (case info of None \<Rightarrow> None | Some i \<Rightarrow> ei_errorName i),
                          er_message = (case info of None \<Rightarrow> None | Some i \<Rightarrow> Some (ei_message i)),
                          er_actionKind = ar_actionKind res\<rparr>)))"

section \<open>The controller is a breaker\<close>

lemma clamp_bounds: "lo \<le> hi \<Longrightarrow> lo \<le> clamp n lo hi \<and> clamp n lo hi \<le> hi"
  by (simp add: clamp_def)

lemma clamp_ge: "lo \<le> clamp n lo hi"
  by (simp add: clamp_def)

lemma next_cooldown_pos: "1 \<le> bc_baseCooldownMs cfg \<Longrightarrow> 1 \<le> next_cooldown cfg c"
  using clamp_ge [of "bc_baseCooldownMs cfg" _ "bc_maxCooldownMs cfg"]
    clamp_ge [of 1 "bc_baseCooldownMs cfg" "bc_maxCooldownMs cfg"]
  by (simp add: next_cooldown_def) (meson order_trans)

text \<open>An executed action that failed with a counted error that is not a timeout.\<close>

definition plain_failure :: "backoff_config \<Rightarrow> action_result \<Rightarrow> bool" where
  "plain_failure cfg res \<longleftrightarrow> \<not> ar_simulated res \<and> (\<exists>c cs. ar_error res = Some (c # cs))
     \<and> (let kind = (case inferErrorInfo res of None \<Rightarrow> Err_unknown | Some i \<Rightarrow> ei_kind i)
        in shouldCountErrorKind kind (bc_countErrorKinds cfg) \<and> kind \<noteq> Err_tx_timeout)"

text \<open>What such a failure does to the fields that matter, in a state whose streak is not stale.\<close>

lemma onActionResult_failure:
  assumes "bc_enabled cfg" and "plain_failure cfg res" and "\<not> streak_stale cfg t s"
    and "bs_consecutiveTimeouts s < max 1 (bc_maxConsecutiveTimeouts cfg)"
  defines "n \<equiv> bs_consecutiveErrors s + 1" and "s' \<equiv> fst (onActionResult cfg res t s)"
  shows "bs_consecutiveErrors s' = n"
    and "bs_consecutiveTimeouts s' = bs_consecutiveTimeouts s"
    and "bs_lastErrorAtMs s' = Some t"
    and "n < max 1 (bc_maxConsecutiveErrors cfg) \<Longrightarrow> bs_active s' = bs_active s \<and> bs_cooldownMs s' = bs_cooldownMs s
           \<and> bs_cooldownUntilMs s' = bs_cooldownUntilMs s"
    and "max 1 (bc_maxConsecutiveErrors cfg) \<le> n \<Longrightarrow> bs_active s' \<and> bs_cooldownMs s' = next_cooldown cfg (bs_cooldownMs s)
           \<and> bs_cooldownUntilMs s' = t + next_cooldown cfg (bs_cooldownMs s)"
proof -
  obtain c cs where "ar_error res = Some (c # cs)" and "\<not> ar_simulated res"
    using assms(2) by (auto simp: plain_failure_def)
  moreover have "shouldCountErrorKind (case inferErrorInfo res of None \<Rightarrow> Err_unknown | Some i \<Rightarrow> ei_kind i)
      (bc_countErrorKinds cfg)"
    and "(case inferErrorInfo res of None \<Rightarrow> Err_unknown | Some i \<Rightarrow> ei_kind i) \<noteq> Err_tx_timeout"
    using assms(2) by (simp_all add: plain_failure_def Let_def)
  ultimately have "s' = (let s = s\<lparr>bs_consecutiveErrors := n, bs_lastErrorAtMs := Some t,
      bs_lastErrorKind := Some (case inferErrorInfo res of None \<Rightarrow> Err_unknown | Some i \<Rightarrow> ei_kind i),
      bs_lastErrorName := (case inferErrorInfo res of None \<Rightarrow> None | Some i \<Rightarrow> ei_errorName i),
      bs_lastActionKind := ar_actionKind res\<rparr>
    in if max 1 (bc_maxConsecutiveErrors cfg) \<le> n
       then s\<lparr>bs_active := True, bs_cooldownMs := next_cooldown cfg (bs_cooldownMs s),
              bs_cooldownUntilMs := t + next_cooldown cfg (bs_cooldownMs s)\<rparr>
       else s)"
    using assms(1,3) assms(4) [unfolded not_le [symmetric]]
    by (simp add: s'_def n_def onActionResult_def Let_def del: max.bounded_iff)
  then show "bs_consecutiveErrors s' = n"
    and "bs_consecutiveTimeouts s' = bs_consecutiveTimeouts s"
    and "bs_lastErrorAtMs s' = Some t"
    and "n < max 1 (bc_maxConsecutiveErrors cfg) \<Longrightarrow> bs_active s' = bs_active s \<and> bs_cooldownMs s' = bs_cooldownMs s
           \<and> bs_cooldownUntilMs s' = bs_cooldownUntilMs s"
    and "max 1 (bc_maxConsecutiveErrors cfg) \<le> n \<Longrightarrow> bs_active s' \<and> bs_cooldownMs s' = next_cooldown cfg (bs_cooldownMs s)
           \<and> bs_cooldownUntilMs s' = t + next_cooldown cfg (bs_cooldownMs s)"
    by (simp_all add: Let_def not_le [symmetric] del: max.bounded_iff not_le)
qed

definition sample_failure :: action_result where
  "sample_failure = \<lparr>ar_simulated = False, ar_error = Some ''execution reverted'', ar_errorInfo = None,
     ar_detailsErrorInfo = None, ar_actionKind = Some ''takeover''\<rparr>"

definition sample_success :: action_result where
  "sample_success = \<lparr>ar_simulated = False, ar_error = None, ar_errorInfo = None,
     ar_detailsErrorInfo = None, ar_actionKind = Some ''takeover''\<rparr>"

definition backoff_fail :: "backoff_config \<Rightarrow> int \<Rightarrow> backoff_state \<Rightarrow> backoff_state" where
  "backoff_fail cfg t s = fst (onActionResult cfg sample_failure t s)"

definition backoff_succeed :: "backoff_config \<Rightarrow> int \<Rightarrow> backoff_state \<Rightarrow> backoff_state" where
  "backoff_succeed cfg t s = fst (onActionResult cfg sample_success t s)"

definition backoff_steady :: "backoff_config \<Rightarrow> int \<Rightarrow> backoff_state \<Rightarrow> bool" where
  "backoff_steady cfg t s \<longleftrightarrow> bc_enabled cfg \<and> plain_failure cfg sample_failure
     \<and> 1 \<le> bc_baseCooldownMs cfg \<and> \<not> bs_active s \<and> \<not> streak_stale cfg t s
     \<and> bs_consecutiveTimeouts s < max 1 (bc_maxConsecutiveTimeouts cfg)"

lemma streak_stale_near:
  "bs_lastErrorAtMs s = Some t \<Longrightarrow> t' - t < bc_resetAfterMs cfg \<Longrightarrow> \<not> streak_stale cfg t' s"
  by (simp add: streak_stale_def)

lemma backoff_steadyD:
  assumes "backoff_steady cfg t s"
  shows "bc_enabled cfg" "plain_failure cfg sample_failure" "\<not> streak_stale cfg t s"
    "bs_consecutiveTimeouts s < max 1 (bc_maxConsecutiveTimeouts cfg)"
    "1 \<le> bc_baseCooldownMs cfg" "\<not> bs_active s"
  using assms unfolding backoff_steady_def by blast+

interpretation backoff: failure_streak "backoff_fail cfg" "backoff_succeed cfg" bs_consecutiveErrors
  "isActive cfg" "max 1 (bc_maxConsecutiveErrors cfg)" "backoff_steady cfg"
  "\<lambda>t t'. t' - t < bc_resetAfterMs cfg" for cfg
proof unfold_locales
  show "1 \<le> max 1 (bc_maxConsecutiveErrors cfg)" by simp
next
  fix t s
  assume "backoff_steady cfg t s"
  then show "\<not> isActive cfg t s" by (simp add: backoff_steady_def isActive_def)
next
  fix t t' s
  assume s: "backoff_steady cfg t s" and less: "bs_consecutiveErrors s + 1 < max 1 (bc_maxConsecutiveErrors cfg)"
    and near: "t' - t < bc_resetAfterMs cfg"
  note F = onActionResult_failure [OF backoff_steadyD(1-4) [OF s], folded backoff_fail_def]
  show "backoff_steady cfg t' (backoff_fail cfg t s)
      \<and> bs_consecutiveErrors (backoff_fail cfg t s) = bs_consecutiveErrors s + 1"
    using F(4) [OF less] backoff_steadyD [OF s] streak_stale_near [OF F(3) near]
    by (simp only: backoff_steady_def F(1,2) simp_thms)
next
  fix t s
  assume s: "backoff_steady cfg t s" and trip: "max 1 (bc_maxConsecutiveErrors cfg) \<le> bs_consecutiveErrors s + 1"
  note F = onActionResult_failure(5) [OF backoff_steadyD(1-4) [OF s] trip, folded backoff_fail_def]
  show "isActive cfg t (backoff_fail cfg t s)"
    using F backoff_steadyD(1,5) [OF s] next_cooldown_pos [of cfg "bs_cooldownMs s"]
    by (simp add: isActive_def)
next
  fix t t' s
  assume "backoff_steady cfg t s"
  then show "backoff_steady cfg t' (backoff_succeed cfg t s)
      \<and> bs_consecutiveErrors (backoff_succeed cfg t s) = 0"
    by (simp add: backoff_steady_def backoff_succeed_def onActionResult_def sample_success_def
        clear_streak_def streak_stale_def)
qed

lemma backoff_near_run:
  "backoff.near_run cfg ts \<longleftrightarrow> successively (\<lambda>t t'. t' - t < bc_resetAfterMs cfg) ts"
  by (induction ts rule: backoff.near_run.induct) (simp_all add: backoff.near_run.simps)

lemma backoff_fails_fold: "backoff.fails cfg ts s = fold (backoff_fail cfg) ts s"
  by (induction ts arbitrary: s) (simp_all add: backoff.fails.simps)

section \<open>Sequences of inputs\<close>

datatype backoff_input = Tick int | Outcome action_result int

definition backoff_input_step :: "backoff_config \<Rightarrow> backoff_input \<Rightarrow> backoff_state \<Rightarrow> backoff_state" where
  "backoff_input_step cfg i s =
     (case i of Tick t \<Rightarrow> fst (maybeClear cfg t s) | Outcome res t \<Rightarrow> fst (onActionResult cfg res t s))"

definition backoff_run :: "backoff_config \<Rightarrow> backoff_input list \<Rightarrow> backoff_state \<Rightarrow> backoff_state" where
  "backoff_run cfg inputs s = fold (backoff_input_step cfg) inputs s"

lemma next_cooldown_bounds:
  "1 \<le> bc_baseCooldownMs cfg \<Longrightarrow> bc_baseCooldownMs cfg \<le> bc_maxCooldownMs cfg \<Longrightarrow>
     bc_baseCooldownMs cfg \<le> next_cooldown cfg c \<and> next_cooldown cfg c \<le> bc_maxCooldownMs cfg"
  using clamp_bounds [of "bc_baseCooldownMs cfg" "bc_maxCooldownMs cfg"]
  by (simp add: next_cooldown_def) (simp add: clamp_def)

text \<open>An outcome changes the cooldown only to none or to the next one.\<close>

lemma onActionResult_cooldown:
  "bs_cooldownMs (fst (onActionResult cfg res t s)) \<in>
     {0, bs_cooldownMs s, next_cooldown cfg 0, next_cooldown cfg (bs_cooldownMs s)}"
  by (simp add: onActionResult_def Let_def clear_streak_def)

lemma maybeClear_cooldown: "bs_cooldownMs (fst (maybeClear cfg t s)) \<in> {0, bs_cooldownMs s}"
  by (simp add: maybeClear_def Let_def)

section \<open>Properties\<close>

text \<open>
  The back-off starts exactly at its error threshold: from a state that is not backed off and whose
  error streak is not stale, failures that come within \<open>resetAfterMs\<close> of each other leave writes enabled
  until their number reaches \<open>maxConsecutiveErrors\<close> (at least one), and that failure disables them.
\<close>

theorem backoff_enters_exactly:
  assumes "backoff_steady cfg (hd (ts @ [t])) s"
    and "successively (\<lambda>t t'. t' - t < bc_resetAfterMs cfg) (ts @ [t])"
    and "bs_consecutiveErrors s + int (length ts) + 1 = max 1 (bc_maxConsecutiveErrors cfg)"
  shows "\<not> isActive cfg t (fold (backoff_fail cfg) ts s)
    \<and> isActive cfg t (fold (backoff_fail cfg) (ts @ [t]) s)"
  using backoff.trips_exactly [of cfg ts t s] assms
  by (simp only: backoff_fails_fold backoff_near_run simp_thms)

theorem backoff_enters_exactly_witness:
  "isActive DEFAULT_BACKOFF_CONFIG 3000 (fold (backoff_fail DEFAULT_BACKOFF_CONFIG) ([1000, 2000] @ [3000]) initial_backoff)"
  by (rule backoff_enters_exactly [THEN conjunct2])
    (simp_all add: backoff_steady_def DEFAULT_BACKOFF_CONFIG_def plain_failure_def sample_failure_def
      inferErrorInfo_def shouldCountErrorKind_def initial_backoff_def streak_stale_def)

text \<open>An unbroken streak of plain failures from the initial state.\<close>

definition capped :: "backoff_config \<Rightarrow> int \<Rightarrow> nat \<Rightarrow> int" where
  "capped cfg m k = min (bc_maxCooldownMs cfg) (bc_baseCooldownMs cfg * m ^ k)"

lemma next_cooldown_capped:
  assumes base: "1 \<le> bc_baseCooldownMs cfg" "bc_baseCooldownMs cfg \<le> bc_maxCooldownMs cfg"
    and m: "bc_multiplier cfg = rat_of_int m" "1 \<le> m"
  shows "next_cooldown cfg 0 = capped cfg m 0"
    and "next_cooldown cfg (capped cfg m k) = capped cfg m (Suc k)"
proof -
  show "next_cooldown cfg 0 = capped cfg m 0"
    using base by (simp add: next_cooldown_def capped_def clamp_def)
  let ?b = "bc_baseCooldownMs cfg" and ?M = "bc_maxCooldownMs cfg"
  have pow: "?b \<le> ?b * m ^ k" using base(1) m(2) by simp
  have step: "?b * m ^ k \<le> ?b * m ^ Suc k" using pow base(1) m(2)
    by (simp add: mult_le_cancel_left mult_le_cancel_right1)
  have cap: "?M \<le> ?M * m" using base m(2) by simp
  have "capped cfg m k > 0" using pow base by (simp add: capped_def)
  then have "next_cooldown cfg (capped cfg m k) = clamp (capped cfg m k * m) ?b ?M"
    using m(1) by (simp add: next_cooldown_def flip: of_int_mult)
  also have "\<dots> = capped cfg m (Suc k)"
  proof (cases "?b * m ^ k \<le> ?M")
    case True
    then have "capped cfg m k * m = ?b * m ^ Suc k" by (simp add: capped_def)
    then show ?thesis using pow step base by (simp only: capped_def clamp_def)
  next
    case False
    then have "capped cfg m k = ?M" by (simp add: capped_def)
    moreover have "capped cfg m (Suc k) = ?M" using False step by (simp add: capped_def)
    ultimately show ?thesis using cap base by (simp add: clamp_def)
  qed
  finally show "next_cooldown cfg (capped cfg m k) = capped cfg m (Suc k)" .
qed

definition streak_cooldown :: "backoff_config \<Rightarrow> int \<Rightarrow> nat \<Rightarrow> int" where
  "streak_cooldown cfg m n =
     (let N = nat (max 1 (bc_maxConsecutiveErrors cfg)) in if n < N then 0 else capped cfg m (n - N))"

lemma streak_cooldown_Suc:
  assumes "1 \<le> bc_baseCooldownMs cfg" "bc_baseCooldownMs cfg \<le> bc_maxCooldownMs cfg"
    and "bc_multiplier cfg = rat_of_int m" "1 \<le> m"
    and "nat (max 1 (bc_maxConsecutiveErrors cfg)) \<le> Suc n"
  shows "next_cooldown cfg (streak_cooldown cfg m n) = streak_cooldown cfg m (Suc n)"
  using next_cooldown_capped [OF assms(1-4)] assms(5)
  by (cases "Suc n = nat (max 1 (bc_maxConsecutiveErrors cfg))")
    (auto simp: streak_cooldown_def Let_def Suc_diff_le)

lemma backoff_run_snoc:
  "backoff_run cfg (map (Outcome res) (ts @ [t])) s
     = fst (onActionResult cfg res t (backoff_run cfg (map (Outcome res) ts) s))"
  by (simp add: backoff_run_def backoff_input_step_def)

lemma streak_invariant:
  assumes "bc_enabled cfg" and "plain_failure cfg res"
    and "1 \<le> bc_baseCooldownMs cfg" "bc_baseCooldownMs cfg \<le> bc_maxCooldownMs cfg"
    and "bc_multiplier cfg = rat_of_int m" "1 \<le> m"
    and "successively (\<lambda>t t'. t' - t < bc_resetAfterMs cfg) ts"
  defines "s \<equiv> backoff_run cfg (map (Outcome res) ts) initial_backoff"
  shows "bs_consecutiveErrors s = int (length ts) \<and> bs_consecutiveTimeouts s = 0
    \<and> bs_lastErrorAtMs s = (if ts = [] then None else Some (last ts))
    \<and> bs_cooldownMs s = streak_cooldown cfg m (length ts)
    \<and> (nat (max 1 (bc_maxConsecutiveErrors cfg)) \<le> length ts \<longrightarrow>
         bs_active s \<and> bs_cooldownUntilMs s = last ts + bs_cooldownMs s)"
  using assms(7) unfolding s_def
proof (induction ts rule: rev_induct)
  case Nil
  then show ?case
    by (simp add: backoff_run_def initial_backoff_def streak_cooldown_def Let_def less_max_iff_disj)
next
  case (snoc t ts)
  define s where "s = backoff_run cfg (map (Outcome res) ts) initial_backoff"
  have run: "successively (\<lambda>t t'. t' - t < bc_resetAfterMs cfg) ts"
    and near: "ts \<noteq> [] \<Longrightarrow> t - last ts < bc_resetAfterMs cfg"
    using snoc.prems by (auto simp: successively_append_iff)
  from snoc.IH [OF run, folded s_def]
  have IH: "bs_consecutiveErrors s = int (length ts)" "bs_consecutiveTimeouts s = 0"
    "bs_lastErrorAtMs s = (if ts = [] then None else Some (last ts))"
    "bs_cooldownMs s = streak_cooldown cfg m (length ts)" by blast+
  have stale: "\<not> streak_stale cfg t s" using IH(3) near by (cases "ts = []") (simp_all add: streak_stale_def)
  have "bs_consecutiveTimeouts s < max 1 (bc_maxConsecutiveTimeouts cfg)"
    using IH(2) by simp
  note F = onActionResult_failure [OF assms(1,2) stale this]
  show ?case
  proof (cases "nat (max 1 (bc_maxConsecutiveErrors cfg)) \<le> Suc (length ts)")
    case True
    then have "max 1 (bc_maxConsecutiveErrors cfg) \<le> bs_consecutiveErrors s + 1"
      using IH(1) by linarith
    from F(5) [OF this] F(1-3) IH streak_cooldown_Suc [OF assms(3-6) True] show ?thesis
      unfolding backoff_run_snoc s_def [symmetric] by simp
  next
    case False
    then have "bs_consecutiveErrors s + 1 < max 1 (bc_maxConsecutiveErrors cfg)"
      using IH(1) by linarith
    moreover have "streak_cooldown cfg m n = 0" if "n \<le> Suc (length ts)" for n
      using False that by (auto simp: streak_cooldown_def Let_def)
    ultimately show ?thesis
      using F(1-4) IH False unfolding backoff_run_snoc s_def [symmetric] by simp
  qed
qed

text \<open>
  The cooldown escalates geometrically and is capped: with an integer multiplier \<open>m\<close>, the failure
  that is \<open>k\<close> past the threshold of an unbroken streak sets the cooldown to the base times \<open>m\<close> to the
  \<open>k\<close>, at most \<open>maxCooldownMs\<close>, running from that failure.
\<close>

theorem cooldown_escalates:
  assumes "bc_enabled cfg" and "plain_failure cfg res"
    and "1 \<le> bc_baseCooldownMs cfg" "bc_baseCooldownMs cfg \<le> bc_maxCooldownMs cfg"
    and "bc_multiplier cfg = rat_of_int m" "1 \<le> m"
    and "successively (\<lambda>t t'. t' - t < bc_resetAfterMs cfg) (ts @ [t])"
    and "Suc (length ts) = nat (max 1 (bc_maxConsecutiveErrors cfg)) + k"
  shows "let s = backoff_run cfg (map (Outcome res) (ts @ [t])) initial_backoff in
    bs_active s \<and> bs_cooldownMs s = min (bc_maxCooldownMs cfg) (bc_baseCooldownMs cfg * m ^ k)
    \<and> bs_cooldownUntilMs s = t + bs_cooldownMs s"
proof -
  have "streak_cooldown cfg m (length (ts @ [t])) = min (bc_maxCooldownMs cfg) (bc_baseCooldownMs cfg * m ^ k)"
    and "nat (max 1 (bc_maxConsecutiveErrors cfg)) \<le> length (ts @ [t])"
    using assms(8) by (simp_all add: streak_cooldown_def capped_def Let_def)
  with streak_invariant [OF assms(1-7)] show ?thesis unfolding Let_def by simp
qed

theorem cooldown_escalates_witness:
  "bs_cooldownMs (backoff_run DEFAULT_BACKOFF_CONFIG
     (map (Outcome sample_failure) ([1000, 2000, 3000, 4000] @ [5000])) initial_backoff) = 60000"
  using cooldown_escalates [of DEFAULT_BACKOFF_CONFIG sample_failure 2 "[1000, 2000, 3000, 4000]" 5000 2]
  by (simp add: DEFAULT_BACKOFF_CONFIG_def plain_failure_def sample_failure_def
      inferErrorInfo_def shouldCountErrorKind_def Let_def)

text \<open>
  Every cooldown stays in its range and only time ends it: with \<open>1 \<le> base \<le> max\<close>, after any inputs
  the cooldown is 0 or lies between the base and the maximum, and while a back-off runs, no tick,
  success or simulated result at an earlier time than its end lifts it.
\<close>

theorem backoff_holds:
  assumes "bc_enabled cfg" and "1 \<le> bc_baseCooldownMs cfg" and "bc_baseCooldownMs cfg \<le> bc_maxCooldownMs cfg"
    and "bs_active s" and "\<forall>i \<in> set quiet. case i of Tick t \<Rightarrow> t < bs_cooldownUntilMs s
        | Outcome res t \<Rightarrow> ar_simulated res \<or> ar_error res = None"
  shows "bs_cooldownMs (backoff_run cfg inputs initial_backoff)
      \<in> insert 0 {bc_baseCooldownMs cfg .. bc_maxCooldownMs cfg}
    \<and> remainingMs cfg now (backoff_run cfg quiet s) = max 0 (bs_cooldownUntilMs s - now)"
proof
  have step: "bs_cooldownMs (backoff_input_step cfg i s) \<in> insert 0 {bc_baseCooldownMs cfg .. bc_maxCooldownMs cfg}"
    if "bs_cooldownMs s \<in> insert 0 {bc_baseCooldownMs cfg .. bc_maxCooldownMs cfg}" for i s
    using that next_cooldown_bounds [OF assms(2,3)]
      onActionResult_cooldown [of cfg _ _ s] maybeClear_cooldown [of cfg _ s]
    by (fastforce simp: backoff_input_step_def split: backoff_input.splits)
  have "bs_cooldownMs (backoff_run cfg inputs s) \<in> insert 0 {bc_baseCooldownMs cfg .. bc_maxCooldownMs cfg}"
    if "bs_cooldownMs s \<in> insert 0 {bc_baseCooldownMs cfg .. bc_maxCooldownMs cfg}" for s
    using that by (induction inputs arbitrary: s) (simp_all only: backoff_run_def fold_simps step comp_apply)
  then show "bs_cooldownMs (backoff_run cfg inputs initial_backoff)
      \<in> insert 0 {bc_baseCooldownMs cfg .. bc_maxCooldownMs cfg}"
    by (simp add: initial_backoff_def)
  have "bs_active (backoff_run cfg quiet s') \<and> bs_cooldownUntilMs (backoff_run cfg quiet s') = bs_cooldownUntilMs s"
    if "bs_active s'" and "bs_cooldownUntilMs s' = bs_cooldownUntilMs s" for s'
    using that assms(5)
  proof (induction quiet arbitrary: s')
    case (Cons i quiet)
    have "bs_active (backoff_input_step cfg i s') \<and> bs_cooldownUntilMs (backoff_input_step cfg i s') = bs_cooldownUntilMs s"
      using Cons.prems
      by (auto simp: backoff_input_step_def maybeClear_def onActionResult_def clear_streak_def
          split: backoff_input.splits)
    then show ?case using Cons.IH [of "backoff_input_step cfg i s'"] Cons.prems by (simp add: backoff_run_def)
  qed (simp add: backoff_run_def)
  from this [OF assms(4) refl]
  show "remainingMs cfg now (backoff_run cfg quiet s) = max 0 (bs_cooldownUntilMs s - now)"
    using assms(1) by (simp add: remainingMs_def isActive_def)
qed

theorem backoff_holds_witness:
  "remainingMs DEFAULT_BACKOFF_CONFIG 20000 (backoff_run DEFAULT_BACKOFF_CONFIG
      [Tick 11000, Outcome sample_success 12000]
      (initial_backoff\<lparr>bs_active := True, bs_cooldownMs := 15000, bs_cooldownUntilMs := 25000\<rparr>)) = 5000"
  using backoff_holds [of DEFAULT_BACKOFF_CONFIG
      "initial_backoff\<lparr>bs_active := True, bs_cooldownMs := 15000, bs_cooldownUntilMs := 25000\<rparr>"
      "[Tick 11000, Outcome sample_success 12000]" "[]" 20000]
  by (simp add: DEFAULT_BACKOFF_CONFIG_def sample_success_def)

end
