(* ===== verification/Executor.thy ===== *)
theory Executor
  imports ExecCalls AutoApprove TxManager Backoff
begin

text \<open>
  The executor of the agent: \<open>executeAgentActionImpl\<close> (\<open>src/agents/sdk/src/agent/executorImpl.ts\<close>) from its head to its
  catch, with \<open>simulateAndWrite\<close> (\<open>harness/tx.ts\<close>), \<open>classifyViemError\<close> (\<open>errors.ts\<close>) and \<open>executeAgentPlan\<close>
  (\<open>agent/planExecutor.ts\<close>).

  It composes the check of \<open>ActionSecurity\<close>, the branches of \<open>ExecCalls\<close> and the transaction manager. The state
  holds the manager's state and every broadcast that a node accepted, as the call and its hash.
\<close>

section \<open>Simulating and sending\<close>

datatype thrown =
  Th_simulation string
| Th_managed tm_error
| Th_write string
| Th_wait string
| Th_reverted string

text \<open>What happens to one send: the error of the simulation, and the answers to the manager or to the wallet.\<close>

record call_env =
  se_simulate :: "string option"
  se_tm :: tm_env
  se_write :: write_answer
  se_receipt :: "string + bool"   \<comment> \<open>the wait throws, or whether the transaction succeeded\<close>

record exec_state =
  es_tm :: tm_state
  es_sent :: "(call \<times> string) list"

text \<open>The broadcasts that a use of the manager adds.\<close>

definition hashes_since :: "tm_state \<Rightarrow> tm_state \<Rightarrow> string list" where
  "hashes_since old new = map (\<lambda>(_, _, h). h) (drop (length (ts_sent old)) (ts_sent new))"

definition simulateAndWrite ::
  "tx_policy option \<Rightarrow> call_env \<Rightarrow> call \<Rightarrow> exec_state \<Rightarrow> (thrown + string) \<times> exec_state" where
  "simulateAndWrite manager env c s =
     (case se_simulate env of
        Some err \<Rightarrow> (Inl (Th_simulation err), s)
      | None \<Rightarrow>
          (case manager of
             Some policy \<Rightarrow>
               (let (res, tm) = writeContract (se_tm env) policy (es_tm s);
                    s = s\<lparr>es_tm := tm, es_sent := es_sent s @ map (Pair c) (hashes_since (es_tm s) tm)\<rparr>
                in case res of Mined h _ _ _ \<Rightarrow> (Inr h, s) | Write_throws e \<Rightarrow> (Inl (Th_managed e), s))
           | None \<Rightarrow>
               (case se_write env of
                  Rejected err \<Rightarrow> (Inl (Th_write err), s)
                | Accepted h \<Rightarrow>
                    (let s = s\<lparr>es_sent := es_sent s @ [(c, h)]\<rparr> in
                     case se_receipt env of
                       Inl err \<Rightarrow> (Inl (Th_wait err), s)
                     | Inr success \<Rightarrow> if success then (Inr h, s) else (Inl (Th_reverted h), s)))))"

section \<open>Results\<close>

datatype exec_failure =
  F_route
| F_security denial
| F_no_hub
| F_session_inactive
| F_perms_missing int
| F_branch exec_error
| F_thrown thrown

record exec_result =
  xs_simulated :: bool
  xs_failure :: "exec_failure option"
  xs_hash :: "string option"

definition refused :: "bool \<Rightarrow> exec_failure \<Rightarrow> exec_result" where
  "refused execute f = \<lparr>xs_simulated = (\<not> execute), xs_failure = Some f, xs_hash = None\<rparr>"

definition send :: "bool \<Rightarrow> tx_policy option \<Rightarrow> call_env \<Rightarrow> call \<Rightarrow> exec_state \<Rightarrow> (thrown + exec_result) \<times> exec_state" where
  "send execute manager env c s =
     (if \<not> execute
      then (case se_simulate env of
              Some err \<Rightarrow> Inl (Th_simulation err)
            | None \<Rightarrow> Inr \<lparr>xs_simulated = True, xs_failure = None, xs_hash = None\<rparr>, s)
      else case simulateAndWrite manager env c s of
             (Inl e, s) \<Rightarrow> (Inl e, s)
           | (Inr h, s) \<Rightarrow> (Inr \<lparr>xs_simulated = False, xs_failure = None, xs_hash = Some h\<rparr>, s))"

text \<open>
  The branch of \<open>cancelBonusTargetEscrow\<close> sends within the \<open>try\<close> of its own checks: once the offer was read, any
  error of the send leads to a second send.
\<close>

definition sends_again :: "exec_reads \<Rightarrow> agent_action \<Rightarrow> bool" where
  "sends_again rd a = (case a of MarketRouter_cancelBonusTargetEscrow offerId \<Rightarrow> xr_getOffer rd offerId \<noteq> None | _ \<Rightarrow> False)"

text \<open>The \<open>catch\<close> of the executor. It knows the reverted error of \<open>harness/tx.ts\<close>, not that of the manager.\<close>

definition caught :: "bool \<Rightarrow> thrown \<Rightarrow> exec_result" where
  "caught execute e =
     (refused execute (F_thrown e))\<lparr>xs_hash :=
        (case e of
           Th_managed (Tx_timeout_error nonce hashes) \<Rightarrow> Some (last hashes)
         | Th_reverted h \<Rightarrow> Some h
         | _ \<Rightarrow> None)\<rparr>"

definition run_branch ::
  "bool \<Rightarrow> exec_reads \<Rightarrow> tx_policy option \<Rightarrow> (nat \<Rightarrow> call_env) \<Rightarrow> agent_action \<Rightarrow> call \<Rightarrow> exec_state \<Rightarrow> exec_result \<times> exec_state" where
  "run_branch execute rd manager envs a c s =
     (case send execute manager (envs 0) c s of
        (Inr res, s) \<Rightarrow> (res, s)
      | (Inl e, s) \<Rightarrow>
          if sends_again rd a
          then (case send execute manager (envs 1) c s of
                  (Inr res, s) \<Rightarrow> (res, s) | (Inl e, s) \<Rightarrow> (caught execute e, s))
          else (caught execute e, s))"

section \<open>The executor\<close>

text \<open>\<open>None\<close>: an exception leaves the executor.\<close>

definition executeAgentAction ::
  "(string \<Rightarrow> bool) \<Rightarrow> exec_context \<Rightarrow> manifest \<Rightarrow> exec_reads \<Rightarrow> tx_policy option \<Rightarrow> (nat \<Rightarrow> call_env) \<Rightarrow> agent_action
     \<Rightarrow> exec_state \<Rightarrow> (exec_result \<times> exec_state) option" where
  "executeAgentAction isAddress cx mf rd manager envs a s =
     (let execute = ex_execute cx in
      case executePreflight isAddress cx a of
        Security_throws \<Rightarrow> None
      | Session_unreadable \<Rightarrow> None
      | Route_blocked \<Rightarrow> Some (refused execute F_route, s)
      | Security_denied e \<Rightarrow> Some (refused execute (F_security e), s)
      | Hub_missing \<Rightarrow> Some (refused execute F_no_hub, s)
      | Session_inactive \<Rightarrow> Some (refused execute F_session_inactive, s)
      | Perms_missing missing \<Rightarrow> Some (refused execute (F_perms_missing missing), s)
      | Proceed priv \<Rightarrow>
          Some (case prepare mf rd (ex_signer cx) a of
                  Inl e \<Rightarrow> (refused execute (F_branch e), s)
                | Inr Already_done \<Rightarrow> (\<lparr>xs_simulated = (\<not> execute), xs_failure = None, xs_hash = None\<rparr>, s)
                | Inr (Call c) \<Rightarrow> run_branch execute rd manager envs a c s))"

text \<open>What the back-off controller reads of a result; the texts of errors and the names that nodes give are arguments.\<close>

definition kind_of_error_name :: "string option \<Rightarrow> error_kind" where
  "kind_of_error_name name =
     (case name of
        None \<Rightarrow> Err_unknown
      | Some n \<Rightarrow>
          if n \<in> set [''NotAuthorized'', ''OnlyAdmin'', ''OnlyGuardian''] then Err_not_authorized
          else if n \<in> set [''TakeoversPaused'', ''TradingPaused'', ''LockingPaused''] then Err_paused
          else if n \<in> set [''MinVeOutNotMet'', ''MinEthOutNotMet'', ''MinClaimOutNotMet'', ''MaxPriceExceeded'', ''SlippageTooHigh'']
          then Err_slippage
          else if n = ''DeadlineExpired'' then Err_deadline
          else if n \<in> set [''InsufficientEthBalance'', ''InsufficientTokenBalance''] then Err_insufficient_balance
          else if n = ''InsufficientTokenAllowance'' then Err_insufficient_allowance
          else Err_unknown)"

definition classifyViemError :: "(exec_failure \<Rightarrow> string) \<Rightarrow> (exec_failure \<Rightarrow> string option) \<Rightarrow> exec_failure \<Rightarrow> error_info option" where
  "classifyViemError describe errorName f =
     (case f of
        F_thrown (Th_managed (Tx_timeout_error _ _)) \<Rightarrow>
          Some \<lparr>ei_kind = Err_tx_timeout, ei_errorName = None, ei_message = describe f\<rparr>
      | F_thrown _ \<Rightarrow> Some \<lparr>ei_kind = kind_of_error_name (errorName f), ei_errorName = errorName f, ei_message = describe f\<rparr>
      | F_branch Read_throws \<Rightarrow> Some \<lparr>ei_kind = kind_of_error_name (errorName f), ei_errorName = errorName f, ei_message = describe f\<rparr>
      | _ \<Rightarrow> None)"

definition backoff_view ::
  "(exec_failure \<Rightarrow> string) \<Rightarrow> (exec_failure \<Rightarrow> string option) \<Rightarrow> agent_action \<Rightarrow> exec_result \<Rightarrow> action_result" where
  "backoff_view describe errorName a res =
     \<lparr>ar_simulated = xs_simulated res, ar_error = map_option describe (xs_failure res),
      ar_errorInfo = Option.bind (xs_failure res) (classifyViemError describe errorName),
      ar_detailsErrorInfo = None, ar_actionKind = Some (action_kind a)\<rparr>"

text \<open>\<open>res.error\<close> as a condition: an empty text counts as none.\<close>

definition has_error :: "(exec_failure \<Rightarrow> string) \<Rightarrow> exec_result \<Rightarrow> bool" where
  "has_error describe res = (case xs_failure res of Some f \<Rightarrow> describe f \<noteq> [] | None \<Rightarrow> False)"

section \<open>Plans\<close>

text \<open>What an action of a plan meets.\<close>

record action_env =
  av_reads :: exec_reads
  av_sends :: "nat \<Rightarrow> call_env"
  av_session :: "string \<Rightarrow> (int \<times> int \<times> int) option"

definition execute_in ::
  "(string \<Rightarrow> bool) \<Rightarrow> exec_context \<Rightarrow> manifest \<Rightarrow> tx_policy option \<Rightarrow> action_env \<Rightarrow> agent_action \<Rightarrow> exec_state
     \<Rightarrow> (exec_result \<times> exec_state) option" where
  "execute_in isAddress cx mf manager av a s =
     executeAgentAction isAddress (cx\<lparr>ex_session := av_session av\<rparr>) mf (av_reads av) manager (av_sends av) a s"

fun runPlan ::
  "(string \<Rightarrow> bool) \<Rightarrow> exec_context \<Rightarrow> manifest \<Rightarrow> tx_policy option \<Rightarrow> (exec_failure \<Rightarrow> string) \<Rightarrow> bool
     \<Rightarrow> (agent_action \<times> action_env) list \<Rightarrow> exec_state
     \<Rightarrow> (exec_result list \<times> exec_state) option" where
  "runPlan isAddress cx mf manager describe stopOnError [] s = Some ([], s)"
| "runPlan isAddress cx mf manager describe stopOnError ((a, av) # as) s =
     (case execute_in isAddress cx mf manager av a s of
        None \<Rightarrow> None
      | Some (res, s) \<Rightarrow>
          if stopOnError \<and> has_error describe res then Some ([res], s)
          else (case runPlan isAddress cx mf manager describe stopOnError as s of
                  None \<Rightarrow> None | Some (rs, s) \<Rightarrow> Some (res # rs, s)))"

text \<open>\<open>world i\<close> is what the i-th action meets.\<close>

definition executeAgentPlan ::
  "(string \<Rightarrow> bool) \<Rightarrow> exec_context \<Rightarrow> manifest \<Rightarrow> tx_policy option \<Rightarrow> (exec_failure \<Rightarrow> string) \<Rightarrow> approve_env \<Rightarrow> approve_options option \<Rightarrow> int option
     \<Rightarrow> bool option \<Rightarrow> (nat \<Rightarrow> action_env) \<Rightarrow> agent_action list \<Rightarrow> exec_state \<Rightarrow> (exec_result list \<times> exec_state) option" where
  "executeAgentPlan isAddress cx mf manager describe env autoApprove maxActions stopOnError world plan s =
     (let plan = (case autoApprove of
            Some opts \<Rightarrow> if ex_execute cx \<and> ao_enabled opts
                         then expandPlanWithAutoApprovals env opts (ex_privateRpcMode cx) plan else plan
          | None \<Rightarrow> plan);
          n = (case maxActions of Some m \<Rightarrow> m | None \<Rightarrow> int (length plan));
          actions = take (nat (max 0 n)) plan
      in runPlan isAddress cx mf manager describe (stopOnError \<noteq> Some False) (zip actions (map world [0..<length actions])) s)"

section \<open>Lemmas\<close>

lemma simulateAndWrite_sent:
  "simulateAndWrite manager env c s = (r, s') \<Longrightarrow> \<exists>hs. es_sent s' = es_sent s @ map (Pair c) hs"
  by (auto simp: simulateAndWrite_def Let_def split: option.splits prod.splits tm_result.splits write_answer.splits
    sum.splits if_splits intro: exI [of _ "[]"] exI [of _ "[h]" for h])

lemma send_sent:
  "send execute manager env c s = (r, s') \<Longrightarrow> \<exists>hs. es_sent s' = es_sent s @ map (Pair c) hs \<and> (\<not> execute \<longrightarrow> hs = [])"
  by (auto simp: send_def split: if_splits option.splits prod.splits sum.splits dest!: simulateAndWrite_sent)

lemma run_branch_sent:
  assumes "run_branch execute rd manager envs a c s = (res, s')"
  shows "\<exists>hs. es_sent s' = es_sent s @ map (Pair c) hs \<and> (\<not> execute \<longrightarrow> hs = [])"
proof -
  obtain r1 s1 where 1: "send execute manager (envs 0) c s = (r1, s1)" by fastforce
  obtain r2 s2 where 2: "send execute manager (envs 1) c s1 = (r2, s2)" by fastforce
  obtain hs1 hs2 where "es_sent s1 = es_sent s @ map (Pair c) hs1" "es_sent s2 = es_sent s1 @ map (Pair c) hs2"
    "\<not> execute \<longrightarrow> hs1 = [] \<and> hs2 = []"
    using send_sent [OF 1] send_sent [OF 2] by blast
  then show ?thesis using assms 1 2
    by (auto simp: run_branch_def split: sum.splits if_splits intro: exI [of _ hs1] exI [of _ "hs1 @ hs2"])
qed

text \<open>What an execution adds to the broadcasts.\<close>

definition authorised_call :: "(string \<Rightarrow> bool) \<Rightarrow> exec_context \<Rightarrow> manifest \<Rightarrow> exec_reads \<Rightarrow> agent_action \<Rightarrow> call \<Rightarrow> bool" where
  "authorised_call isAddress cx mf rd a c \<longleftrightarrow>
     ex_execute cx \<and> (\<exists>priv. executePreflight isAddress cx a = Proceed priv) \<and> prepare mf rd (ex_signer cx) a = Inr (Call c)"

lemma execute_sent:
  assumes "executeAgentAction isAddress cx mf rd manager envs a s = Some (res, s')"
  shows "\<exists>new. es_sent s' = es_sent s @ new \<and> (\<forall>e \<in> set new. authorised_call isAddress cx mf rd a (fst e))"
proof (cases "\<exists>priv c. executePreflight isAddress cx a = Proceed priv \<and> prepare mf rd (ex_signer cx) a = Inr (Call c)")
  case True
  then obtain priv c where p: "executePreflight isAddress cx a = Proceed priv" "prepare mf rd (ex_signer cx) a = Inr (Call c)"
    by blast
  then have "run_branch (ex_execute cx) rd manager envs a c s = (res, s')"
    using assms by (simp add: executeAgentAction_def)
  from run_branch_sent [OF this] p show ?thesis
    by (auto simp: authorised_call_def)
next
  case False
  then have "es_sent s' = es_sent s" using assms
    by (auto simp: executeAgentAction_def Let_def split: preflight.splits sum.splits prepared.splits)
  then show ?thesis by simp
qed

lemma check_bigint_slippage:
  "check_bigint sec ''slippageBps'' v = None \<Longrightarrow> as_maxSlippageBps sec = Some cap \<Longrightarrow> v \<le> cap"
  by (auto simp: check_bigint_def js_endsWith_def Let_def split: if_splits)

lemma quoted_slippage:
  "quoted_floor rd signer a = Some (out, slip, i) \<Longrightarrow> (''slippageBps'', F_big slip) \<in> set (action_fields a)"
  by (cases a) (auto simp: quoted_floor_def split: option.splits)

lemma authorised_parts:
  assumes "authorised_call isAddress cx mf rd a c" "used_security cx = sec" "as_enabled sec"
  shows "ex_execute cx" "prepare mf rd (ex_signer cx) a = Inr (Call c)"
    "validateActionShape isAddress a sec = None" "\<not> value_denied sec a"
    "getDelegationRequirementForAction a = Some r \<Longrightarrow> \<exists>perms expiry now. ex_session cx (dr_user r) = Some (perms, expiry, now)
       \<and> expiry \<noteq> 0 \<and> now \<le> expiry \<and> perms AND dr_requiredPerms r = dr_requiredPerms r"
proof -
  obtain priv where p: "executePreflight isAddress cx a = Proceed priv"
    and c: "ex_execute cx" "prepare mf rd (ex_signer cx) a = Inr (Call c)"
    using assms(1) by (auto simp: authorised_call_def)
  note parts = security_ok_parts [OF preflight_Proceed(1) [OF p, unfolded assms(2)] assms(3)]
  show "ex_execute cx" "prepare mf rd (ex_signer cx) a = Inr (Call c)" by (fact c)+
  show "validateActionShape isAddress a sec = None" "\<not> value_denied sec a" by (fact parts)+
  show "getDelegationRequirementForAction a = Some r \<Longrightarrow> \<exists>perms expiry now. ex_session cx (dr_user r) = Some (perms, expiry, now)
       \<and> expiry \<noteq> 0 \<and> now \<le> expiry \<and> perms AND dr_requiredPerms r = dr_requiredPerms r"
    using preflight_Proceed(4) [OF p] by (auto elim: session_check_Proceed)
qed

text \<open>A plan run action by action.\<close>

lemma runPlan_trace:
  "runPlan isAddress cx mf manager describe stopOnError as s = Some (rs, s') \<Longrightarrow>
     length rs \<le> length as
     \<and> (\<forall>i < length rs - 1. stopOnError \<longrightarrow> \<not> has_error describe (rs ! i))
     \<and> (\<exists>new. es_sent s' = es_sent s @ new
          \<and> (\<forall>e \<in> set new. \<exists>(a, av) \<in> set (take (length rs) as).
               authorised_call isAddress (cx\<lparr>ex_session := av_session av\<rparr>) mf (av_reads av) a (fst e)))"
proof (induction isAddress cx mf manager describe stopOnError as s arbitrary: rs s' rule: runPlan.induct)
  case (2 isAddress cx mf manager describe stopOnError a av as s)
  obtain res s1 where 1: "execute_in isAddress cx mf manager av a s = Some (res, s1)"
    using "2.prems" by (auto split: option.splits)
  obtain new where new: "es_sent s1 = es_sent s @ new"
    "\<forall>e \<in> set new. authorised_call isAddress (cx\<lparr>ex_session := av_session av\<rparr>) mf (av_reads av) a (fst e)"
    using execute_sent [OF 1 [unfolded execute_in_def]] by blast
  show ?case
  proof (cases "stopOnError \<and> has_error describe res")
    case True
    then have "rs = [res]" "s' = s1" using "2.prems" 1 by auto
    then show ?thesis using new by auto
  next
    case False
    then obtain rs1 where r: "runPlan isAddress cx mf manager describe stopOnError as s1 = Some (rs1, s')" "rs = res # rs1"
      using "2.prems" 1 by (auto split: option.splits)
    note IH = "2.IH" [OF 1 refl False r(1)]
    obtain new1 where new1: "es_sent s' = es_sent s1 @ new1"
      "\<forall>e \<in> set new1. \<exists>(a, av) \<in> set (take (length rs1) as).
         authorised_call isAddress (cx\<lparr>ex_session := av_session av\<rparr>) mf (av_reads av) a (fst e)"
      using IH by blast
    have "\<not> has_error describe (rs ! i)" if "i < length rs - 1" "stopOnError" for i
      using that IH False r(2) by (cases i) auto
    moreover have "\<exists>new. es_sent s' = es_sent s @ new \<and> (\<forall>e \<in> set new. \<exists>(a, av) \<in> set (take (length rs) ((a, av) # as)).
        authorised_call isAddress (cx\<lparr>ex_session := av_session av\<rparr>) mf (av_reads av) a (fst e))"
      using new new1 r(2) by (intro exI [of _ "new @ new1"]) auto
    ultimately show ?thesis using IH r(2) by simp
  qed
qed simp

section \<open>Properties\<close>

text \<open>
  C4. Whatever the executor broadcasts is the call that the action names: the contract and the function of its kind,
  the ETH that the security check capped, for a delegated action the user of its session as the first
  argument, and the session was live with every bit that the action needs; locks that only their owner may use
  belong to the signer. Nothing is broadcast without the execute flag.
\<close>

theorem broadcast_is_the_action:
  assumes "executeAgentAction isAddress cx mf rd manager envs a s = Some (res, s')"
    "used_security cx = sec" "as_enabled sec" "(c, h) \<in> set (drop (length (es_sent s)) (es_sent s'))"
  shows "ex_execute cx
    \<and> contract_named mf a = Some (cl_address c) \<and> function_part (action_kind a) = cl_function c
    \<and> cl_value c = callValueForAction a
    \<and> (\<forall>v cap. cl_value c = Some v \<longrightarrow> as_maxCallValueWei sec = Some cap \<longrightarrow> v \<le> cap)
    \<and> (\<forall>r. getDelegationRequirementForAction a = Some r \<longrightarrow> (\<exists>as. cl_args c = A_addr (dr_user r) # as)
         \<and> (\<exists>perms expiry now. ex_session cx (dr_user r) = Some (perms, expiry, now) \<and> expiry \<noteq> 0 \<and> now \<le> expiry
              \<and> perms AND dr_requiredPerms r = dr_requiredPerms r))
    \<and> (\<forall>i \<in> set (own_locks a). \<exists>owner. xr_ownerOf rd i = Some owner \<and> sameAddress owner (ex_signer cx))"
proof -
  have auth: "authorised_call isAddress cx mf rd a c" using execute_sent [OF assms(1)] assms(4) by force
  note p = authorised_parts [OF auth assms(2,3)]
  show ?thesis
    using p(1,4,5) call_target [OF p(2)] call_value [OF p(2)] call_user [OF p(2)] call_owner [OF p(2)]
    by (auto simp: value_denied_def)
qed

text \<open>
  C9. A broadcast swap accepts no less than its quote less the slippage, which the security policy caps: with the cap
  \<open>m\<close> in basis points, the least result it accepts is the quote times \<open>10000 - m\<close> over 10000, rounded down, or
  more, and never more than the quote.
\<close>

theorem broadcast_floor:
  assumes "executeAgentAction isAddress cx mf rd manager envs a s = Some (res, s')"
    "used_security cx = sec" "as_enabled sec" "as_validateInputs sec" "as_maxSlippageBps sec = Some cap"
    "(c, h) \<in> set (drop (length (es_sent s)) (es_sent s'))" "quoted_floor rd (ex_signer cx) a = Some (out, slip, i)" "0 \<le> out"
  shows "\<exists>m. cl_args c ! i = A_int m \<and> m \<le> out \<and> out * (10000 - cap) < 10000 * (m + 1)"
proof -
  have auth: "authorised_call isAddress cx mf rd a c" using execute_sent [OF assms(1)] assms(6) by force
  note p = authorised_parts [OF auth assms(2,3)]
  have "slip \<le> cap"
    using check_bigint_slippage [OF shape_bigint [OF p(3) assms(4) quoted_slippage [OF assms(7)]] assms(5)] .
  then have "out * (10000 - cap) \<le> out * (10000 - slip)" using assms(8) by (intro mult_left_mono) simp_all
  moreover obtain m q where "cl_args c ! i = A_int m" "minOutFromBps out slip = Some q" "q \<le> m" "m \<le> out"
    using call_floor [OF p(2) assms(7)] assms(8) by blast
  moreover from this have "out * (10000 - slip) < 10000 * (q + 1)" using minOutFromBps_bounds(4) assms(8) by blast
  ultimately show ?thesis by (intro exI [of _ m]) simp
qed


text \<open>
  Cancelling an escrow can broadcast the cancellation twice. The send stands in the block whose errors are ignored
  for the sake of the checks before it, so a transaction that was broadcast and then failed (it was reverted, or
  waiting for it threw) is sent again.
\<close>

theorem cancel_broadcast_twice:
  assumes "executePreflight isAddress cx a = Proceed priv" "ex_execute cx" "a = MarketRouter_cancelBonusTargetEscrow offerId"
    "mf_MarketRouter mf = Some router" "xr_getOffer rd offerId = Some offer" "oi_active offer"
    "sameAddress (oi_buyer offer) (ex_signer cx)"
    "\<forall>k < 2. se_simulate (envs k) = None" "se_write (envs 0) = Accepted h0" "se_receipt (envs 0) \<noteq> Inr True"
    "se_write (envs 1) = Accepted h1"
  shows "\<exists>c res s'. executeAgentAction isAddress cx mf rd None envs a s = Some (res, s')
    \<and> es_sent s' = es_sent s @ [(c, h0), (c, h1)]"
proof -
  define c where "c = \<lparr>cl_address = router, cl_function = ''cancelBonusTargetEscrow'', cl_args = [A_int offerId], cl_value = None\<rparr>"
  have "prepare mf rd (ex_signer cx) a = Inr (Call c)"
    using assms(3-7) by (simp add: br_cancelOffer_def c_def Let_def)
  moreover have "\<exists>res s'. run_branch True rd None envs a c s = (res, s') \<and> es_sent s' = es_sent s @ [(c, h0), (c, h1)]"
  proof -
    have sim: "se_simulate (envs 0) = None" "se_simulate (envs 1) = None" using assms(8) by simp_all
    have "\<exists>e. send True None (envs 0) c s = (Inl e, s\<lparr>es_sent := es_sent s @ [(c, h0)]\<rparr>)"
      using sim(1) assms(9,10) by (cases "se_receipt (envs 0)") (auto simp: send_def simulateAndWrite_def Let_def)
    then obtain e where 1: "send True None (envs 0) c s = (Inl e, s\<lparr>es_sent := es_sent s @ [(c, h0)]\<rparr>)" by blast
    have "\<exists>r s2. send True None (envs 1) c (s\<lparr>es_sent := es_sent s @ [(c, h0)]\<rparr>) = (r, s2)
        \<and> es_sent s2 = es_sent s @ [(c, h0), (c, h1)]"
      using sim(2) assms(11) by (cases "se_receipt (envs 1)") (auto simp: send_def simulateAndWrite_def Let_def)
    then obtain r s2 where 2: "send True None (envs 1) c (s\<lparr>es_sent := es_sent s @ [(c, h0)]\<rparr>) = (r, s2)"
      and sent: "es_sent s2 = es_sent s @ [(c, h0), (c, h1)]" by blast
    have "sends_again rd a" using assms(3,5) by (simp add: sends_again_def)
    then show ?thesis using 1 2 sent by (cases r) (auto simp: run_branch_def)
  qed
  ultimately show ?thesis using assms(1,2) by (auto simp: executeAgentAction_def)
qed

section \<open>Witnesses\<close>

definition sample_manifest :: manifest where
  "sample_manifest = \<lparr>mf_MineCore = ''0xc0'', mf_Furnace = ''0xf0'', mf_Royalties = ''0xd0'', mf_ClaimAllHelper = None,
     mf_Ve = Some ''0xe0'', mf_LpVault = None, mf_MarketRouter = Some ''0xb0'', mf_ClaimToken = Some ''0xa0'', mf_FurnaceQuoter = True\<rparr>"

definition sample_offer :: offer_info where
  "sample_offer = \<lparr>oi_buyer = ''0xBB'', oi_durationSeconds = 100, oi_createAutoMax = False, oi_destinationLockId = 0,
     oi_fundsRemaining = 5, oi_expiresAt = 2000, oi_active = True\<rparr>"

definition sample_reads :: exec_reads where
  "sample_reads = \<lparr>xr_allowance = (\<lambda>_ _. Some 0), xr_block = Some (7, 1000), xr_currentKing = None, xr_claimableEth = None,
     xr_ownerOf = (\<lambda>_. Some ''0xbb''), xr_getApproved = (\<lambda>_. None), xr_isApprovedForAll = (\<lambda>_ _. None),
     xr_getLockInfo = (\<lambda>_. None), xr_tradingPaused = None, xr_lastListingActionBlock = (\<lambda>_. None),
     xr_getListing = (\<lambda>_. None), xr_getOffer = (\<lambda>_. Some sample_offer), xr_targetConfig = (\<lambda>_. None),
     xr_maxExpiresAt = (\<lambda>_. None), xr_minBudget = None, xr_maxDiscountBps = None,
     xr_quoteEnterWithEth = (\<lambda>_ _ _ _ _. Some \<lparr>eq_principalClaim = 900, eq_bonusClaim = 90, eq_veOut = 999\<rparr>),
     xr_quoteEnterWithClaim = (\<lambda>_ _ _ _ _. None), xr_quoteEnterWithToken = (\<lambda>_ _ _ _ _ _. None),
     xr_quoteTakeoverWithToken = (\<lambda>_ _. None), xr_quoteSell = (\<lambda>_ _. None), xr_quoteSellFromInfo = (\<lambda>_ _ _. None),
     xr_quoteExtend = (\<lambda>_ _ _. None)\<rparr>"

definition sample_call_env :: "string \<Rightarrow> bool \<Rightarrow> call_env" where
  "sample_call_env h success = \<lparr>se_simulate = None, se_tm = sample_tm_env, se_write = Accepted h, se_receipt = Inr success\<rparr>"

definition sample_exec_state :: exec_state where
  "sample_exec_state = \<lparr>es_tm = sample_tm_state, es_sent = []\<rparr>"

definition sample_takeover_call :: call where
  "sample_takeover_call = \<lparr>cl_address = ''0xc0'', cl_function = ''takeoverFor'', cl_args = [A_addr ''0xaa'', A_int 33], cl_value = Some 30\<rparr>"

lemma sample_prepare: "prepare sample_manifest sample_reads ''0xbb'' (MineCore_takeoverFor ''0xaa'' 30) = Inr (Call sample_takeover_call)"
  by code_simp

lemma sample_call_env_result:
  "send True None (sample_call_env h True) c s =
     (Inr \<lparr>xs_simulated = False, xs_failure = None, xs_hash = Some h\<rparr>, s\<lparr>es_sent := es_sent s @ [(c, h)]\<rparr>)"
  by (simp add: send_def simulateAndWrite_def sample_call_env_def Let_def)

lemma sample_execution:
  assumes "executePreflight isAddress cx a = Proceed priv" "ex_execute cx" "prepare mf rd (ex_signer cx) a = Inr (Call c)"
  shows "executeAgentAction isAddress cx mf rd None (\<lambda>_. sample_call_env h True) a s =
     Some (\<lparr>xs_simulated = False, xs_failure = None, xs_hash = Some h\<rparr>, s\<lparr>es_sent := es_sent s @ [(c, h)]\<rparr>)"
  using assms by (simp add: executeAgentAction_def run_branch_def sample_call_env_result)

theorem broadcast_is_the_action_witness:
  "cl_value sample_takeover_call = Some 30 \<and> contract_named sample_manifest (MineCore_takeoverFor ''0xaa'' 30) = Some ''0xc0''"
proof -
  have "prepare sample_manifest sample_reads (ex_signer sample_context) (MineCore_takeoverFor ''0xaa'' 30) = Inr (Call sample_takeover_call)"
    using sample_prepare by (simp add: sample_context_def)
  note run = sample_execution [OF sample_preflight _ this, of "''0x1''" sample_exec_state, unfolded sample_context_def, simplified, folded sample_context_def]
  show ?thesis
    using broadcast_is_the_action [OF run refl, of sample_takeover_call "''0x1''"]
    by (simp add: used_security_def sample_context_def default_security_def sample_exec_state_def sample_takeover_call_def
      callValueForAction_def)
qed

definition sample_swap_context :: exec_context where
  "sample_swap_context = sample_context\<lparr>ex_security := Some (default_security\<lparr>as_maxSlippageBps := Some 100\<rparr>)\<rparr>"

abbreviation "sample_swap \<equiv> Furnace_enterWithEth 100 0 1 False 50"

definition sample_swap_call :: call where
  "sample_swap_call = \<lparr>cl_address = ''0xf0'', cl_function = ''enterWithEth'', cl_args = [A_int 0, A_int 1, A_bool False, A_int 994],
     cl_value = Some 100\<rparr>"

lemma sample_swap_run:
  "executeAgentAction (\<lambda>_. True) sample_swap_context sample_manifest sample_reads None (\<lambda>_. sample_call_env ''0x1'' True) sample_swap
     sample_exec_state = Some (\<lparr>xs_simulated = False, xs_failure = None, xs_hash = Some ''0x1''\<rparr>,
       sample_exec_state\<lparr>es_sent := es_sent sample_exec_state @ [(sample_swap_call, ''0x1'')]\<rparr>)"
proof (rule sample_execution)
  show "executePreflight (\<lambda>_. True) sample_swap_context sample_swap = Proceed False" by code_simp
  show "ex_execute sample_swap_context" by (simp add: sample_swap_context_def sample_context_def)
  have "prepare sample_manifest sample_reads ''0xbb'' sample_swap = Inr (Call sample_swap_call)" by code_simp
  then show "prepare sample_manifest sample_reads (ex_signer sample_swap_context) sample_swap = Inr (Call sample_swap_call)"
    by (simp add: sample_swap_context_def sample_context_def)
qed

theorem broadcast_floor_witness: "\<exists>m. cl_args sample_swap_call ! 3 = A_int m \<and> m \<le> 999 \<and> 999 * 9900 < 10000 * (m + 1)"
  using broadcast_floor [OF sample_swap_run refl, of 100 sample_swap_call "''0x1''" 999 50 3]
  by (simp add: used_security_def sample_swap_context_def default_security_def sample_exec_state_def quoted_floor_def sample_reads_def)

definition sample_action_env :: action_env where
  "sample_action_env = \<lparr>av_reads = sample_reads, av_sends = \<lambda>_. sample_call_env ''0x1'' True, av_session = ex_session sample_context\<rparr>"

lemma sample_plan_run:
  "executeAgentPlan (\<lambda>_. True) sample_context sample_manifest None describe env None (Some 1) None (\<lambda>_. sample_action_env)
     [MineCore_takeoverFor ''0xaa'' 30, MineCore_takeoverFor ''0xaa'' 30] sample_exec_state =
   Some ([\<lparr>xs_simulated = False, xs_failure = None, xs_hash = Some ''0x1''\<rparr>],
     sample_exec_state\<lparr>es_sent := es_sent sample_exec_state @ [(sample_takeover_call, ''0x1'')]\<rparr>)"
proof -
  have "sample_context\<lparr>ex_session := av_session sample_action_env\<rparr> = sample_context"
    by (simp add: sample_action_env_def)
  moreover have "prepare sample_manifest sample_reads (ex_signer sample_context) (MineCore_takeoverFor ''0xaa'' 30) = Inr (Call sample_takeover_call)"
    using sample_prepare by (simp add: sample_context_def)
  moreover have "ex_execute sample_context" by (simp add: sample_context_def)
  ultimately show ?thesis
    by (simp add: executeAgentPlan_def execute_in_def has_error_def sample_action_env_def sample_execution [OF sample_preflight])
qed


definition sample_cancel_envs :: "nat \<Rightarrow> call_env" where
  "sample_cancel_envs k = (if k = 0 then sample_call_env ''0x1'' False else sample_call_env ''0x2'' True)"

theorem cancel_broadcast_twice_witness:
  "\<exists>c res s'. executeAgentAction (\<lambda>_. True) sample_context sample_manifest sample_reads None sample_cancel_envs
      (MarketRouter_cancelBonusTargetEscrow 3) sample_exec_state = Some (res, s') \<and> es_sent s' = [(c, ''0x1''), (c, ''0x2'')]"
proof -
  have "executePreflight (\<lambda>_. True) sample_context (MarketRouter_cancelBonusTargetEscrow 3) = Proceed False" by code_simp
  moreover have "ex_execute sample_context" by (simp add: sample_context_def)
  moreover have "mf_MarketRouter sample_manifest = Some ''0xb0''" by (simp add: sample_manifest_def)
  moreover have "xr_getOffer sample_reads 3 = Some sample_offer" by (simp add: sample_reads_def)
  moreover have "oi_active sample_offer" by (simp add: sample_offer_def)
  moreover have "sameAddress (oi_buyer sample_offer) (ex_signer sample_context)" by code_simp
  moreover have "\<forall>k < 2. se_simulate (sample_cancel_envs k) = None" "se_write (sample_cancel_envs 0) = Accepted ''0x1''"
    "se_receipt (sample_cancel_envs 0) \<noteq> Inr True" "se_write (sample_cancel_envs 1) = Accepted ''0x2''"
    by (simp_all add: sample_cancel_envs_def sample_call_env_def)
  ultimately show ?thesis
    using cancel_broadcast_twice [of "\<lambda>_. True" sample_context "MarketRouter_cancelBonusTargetEscrow 3" False 3 sample_manifest "''0xb0''"
      sample_reads sample_offer sample_cancel_envs "''0x1''" "''0x2''" sample_exec_state]
    by (simp add: sample_exec_state_def)
qed

end
