(* ===== verification/AgentTick.thy ===== *)
theory AgentTick
  imports Executor "HOL-Library.Multiset"
begin

text \<open>
  A pass of the live agent: the loop of \<open>runLiveAgent\<close> (\<open>src/agents/sdk/src/agent/runner.ts\<close>) with \<open>runStrategies\<close>
  (\<open>agent/strategies.ts\<close>) and \<open>Signal\<close> (\<open>runnerUtils.ts\<close>). It composes the policy, the automatic approvals, the
  executor and the back-off controller.

  \<^item> What a pass meets (the snapshot, the session, the chain, the clock and the outcomes of sends) is its
    environment. The options are those that the runner has already parsed from its environment variables.
  \<^item> A controller that the runner does not create is one with \<open>bc_enabled\<close> false, which does the same.
  \<^item> Artifacts, the monitor, the achievements and the messages are dropped.
\<close>

section \<open>Strategies\<close>

datatype proposal = Pr_throws | Pr_actions "agent_action list" bool   \<comment> \<open>and whether to stop\<close>

record agent_strategy =
  st_id :: string
  st_priority :: "int option"
  st_stopOnActions :: bool
  st_proposal :: proposal

definition priority_of :: "agent_strategy \<Rightarrow> int" where
  "priority_of s = (case st_priority s of Some p \<Rightarrow> p | None \<Rightarrow> 0)"

text \<open>The sort is stable; \<open>rank\<close> stands for the order of \<open>localeCompare\<close>.\<close>

definition sort_strategies :: "(string \<Rightarrow> int) \<Rightarrow> agent_strategy list \<Rightarrow> agent_strategy list" where
  "sort_strategies rank ss = sort_key (\<lambda>s. - priority_of s) (sort_key (\<lambda>s. rank (st_id s)) ss)"

fun collectActions :: "nat option \<Rightarrow> agent_strategy list \<Rightarrow> agent_action list \<Rightarrow> agent_action list" where
  "collectActions maxActions [] actions = actions"
| "collectActions maxActions (s # ss) actions =
     (if (case maxActions of Some m \<Rightarrow> length actions \<ge> m | None \<Rightarrow> False) then actions
      else case st_proposal s of
             Pr_throws \<Rightarrow> collectActions maxActions ss actions
           | Pr_actions out stop \<Rightarrow>
               (let added = (case maxActions of Some m \<Rightarrow> take (m - length actions) out | None \<Rightarrow> out);
                    actions = actions @ added;
                    reachedCap = (case maxActions of Some m \<Rightarrow> length actions \<ge> m | None \<Rightarrow> False)
                in if stop \<or> (st_stopOnActions s \<and> added \<noteq> []) \<or> reachedCap then actions
                   else collectActions maxActions ss actions))"

definition runStrategies :: "(string \<Rightarrow> int) \<Rightarrow> nat option \<Rightarrow> agent_strategy list \<Rightarrow> agent_action list" where
  "runStrategies rank maxActions ss = collectActions maxActions (sort_strategies rank ss) []"

section \<open>The wake signal\<close>

datatype signal = Idle | Pending | Waiting

definition trigger :: "signal \<Rightarrow> signal" where
  "trigger sg = (case sg of Waiting \<Rightarrow> Idle | _ \<Rightarrow> Pending)"

text \<open>\<open>wait\<close>, its time-out, and whether the waiter goes on at once.\<close>

definition wait_on :: "signal \<Rightarrow> signal" where
  "wait_on sg = (case sg of Pending \<Rightarrow> Idle | _ \<Rightarrow> Waiting)"

definition wait_timeout :: "signal \<Rightarrow> signal" where
  "wait_timeout sg = (case sg of Waiting \<Rightarrow> Idle | _ \<Rightarrow> sg)"

section \<open>Configuration\<close>

record run_config =
  rn_execute :: bool
  rn_agent :: string
  rn_user :: string
  rn_tickSeconds :: int
  rn_maxActionsPerTick :: int
  rn_maxPlannedActions :: nat
  rn_policy :: policy_config
  rn_autoApprove :: bool
  rn_approveMax :: bool
  rn_approveNft :: bool
  rn_privateRpcMode :: "rpc_mode option"
  rn_havePrivate :: bool
  rn_manager :: "tx_policy option"
  rn_backoff :: backoff_config
  rn_security :: agent_security   \<comment> \<open>\<open>opts.executionSecurity ?? {}\<close>\<close>
  rn_deniedKinds :: "string list option"   \<comment> \<open>its lists that are told from unset\<close>
  rn_userAllowlist :: "string list option"

definition delegated_run :: "run_config \<Rightarrow> bool" where
  "delegated_run rn \<longleftrightarrow> \<not> sameAddress (rn_user rn) (rn_agent rn)"

definition default_call_cap :: "policy_config \<Rightarrow> int" where
  "default_call_cap pc = (if pc_furnaceEthIn pc > pc_maxTakeoverEth pc then pc_furnaceEthIn pc else pc_maxTakeoverEth pc)"

definition execSecurity :: "run_config \<Rightarrow> agent_security" where
  "execSecurity rn =
     (rn_security rn)\<lparr>
       as_deniedActionKinds := (case rn_deniedKinds rn of Some l \<Rightarrow> l | None \<Rightarrow> [''mineCore.setCurrentReignRecipients'']),
       as_maxSlippageBps := (case as_maxSlippageBps (rn_security rn) of Some m \<Rightarrow> Some m | None \<Rightarrow> Some (pc_slippageBps (rn_policy rn))),
       as_maxCallValueWei := (case as_maxCallValueWei (rn_security rn) of Some m \<Rightarrow> Some m | None \<Rightarrow> Some (default_call_cap (rn_policy rn))),
       as_delegatedUserAllowlist :=
         (if delegated_run rn \<and> \<not> as_allowAnyDelegatedUser (rn_security rn)
          then (case rn_userAllowlist rn of Some l \<Rightarrow> l | None \<Rightarrow> [rn_user rn])
          else (case rn_userAllowlist rn of Some l \<Rightarrow> l | None \<Rightarrow> []))\<rparr>"

text \<open>The parts of a deployment that do not change.\<close>

record deployment =
  dp_manifest :: manifest
  dp_manifestAddrs :: "string list"
  dp_haveHub :: bool
  dp_isAddress :: "string \<Rightarrow> bool"
  dp_describe :: "exec_failure \<Rightarrow> string"
  dp_errorName :: "exec_failure \<Rightarrow> string option"

definition context_of :: "run_config \<Rightarrow> deployment \<Rightarrow> bool \<Rightarrow> exec_context" where
  "context_of rn dp execute =
     \<lparr>ex_havePrivate = rn_havePrivate rn, ex_privateRpcMode = rn_privateRpcMode rn, ex_execute = execute,
      ex_manifestAddrs = dp_manifestAddrs dp, ex_signer = rn_agent rn, ex_security = Some (execSecurity rn),
      ex_haveHub = dp_haveHub dp, ex_session = (\<lambda>_. None)\<rparr>"

section \<open>A pass\<close>

record agent_state =
  gs_lastTakeoverAtMs :: "int option"
  gs_backoff :: backoff_state
  gs_exec :: exec_state
  gs_signal :: signal

text \<open>What a pass meets; the actions are numbered from 0.\<close>

record agent_env =
  tn_snapshot :: snapshot
  tn_caller :: "caller_context option"
  tn_delegation :: "delegation_context option"
  tn_nowMs :: int
  tn_wallSec :: int
  tn_strategies :: "agent_strategy list option"   \<comment> \<open>with what they propose\<close>
  tn_rank :: "string \<Rightarrow> int"
  tn_approve :: approve_env
  tn_clearMs :: int
  tn_startMs :: "nat \<Rightarrow> int"
  tn_endMs :: "nat \<Rightarrow> int"
  tn_world :: "nat \<Rightarrow> action_env"

definition plannedActions :: "run_config \<Rightarrow> agent_env \<Rightarrow> agent_state \<Rightarrow> agent_action list" where
  "plannedActions rn te g =
     (let actions = (case tn_strategies te of
            Some (s # ss) \<Rightarrow> runStrategies (tn_rank te) (Some (rn_maxPlannedActions rn)) (s # ss)
          | _ \<Rightarrow> buildActionPlan (tn_snapshot te) (rn_policy rn) (gs_lastTakeoverAtMs g) (tn_nowMs te) (tn_wallSec te)
                   (tn_caller te) (tn_delegation te));
          actions = take (rn_maxPlannedActions rn) actions;
          autoApproveEnabled = (rn_autoApprove rn \<and> rn_privateRpcMode rn \<noteq> Some Mode_only)
      in if rn_execute rn \<and> autoApproveEnabled \<and> actions \<noteq> []
         then take (rn_maxPlannedActions rn)
           (expandPlanWithAutoApprovals (tn_approve te)
              \<lparr>ao_enabled = True, ao_max = rn_approveMax rn, ao_includeNftApprovals = rn_approveNft rn\<rparr>
              (rn_privateRpcMode rn) actions)
         else actions)"

definition is_takeover :: "agent_action \<Rightarrow> bool" where
  "is_takeover a \<longleftrightarrow> action_kind a \<in> set [''mineCore.takeover'', ''mineCore.takeoverFor'', ''mineCore.takeoverWithToken'']"

text \<open>The end of the handling of a result. No error and not simulated counts as executed.\<close>

definition after_result :: "run_config \<Rightarrow> deployment \<Rightarrow> agent_action \<Rightarrow> int \<Rightarrow> exec_result \<Rightarrow> exec_state \<Rightarrow> agent_state \<Rightarrow> agent_state \<times> bool" where
  "after_result rn dp a endMs res es g =
     (let (b, tr) = onActionResult (rn_backoff rn) (backoff_view (dp_describe dp) (dp_errorName dp) a res) endMs (gs_backoff g);
          executed = (\<not> has_error (dp_describe dp) res \<and> \<not> xs_simulated res)
      in (\<lparr>gs_lastTakeoverAtMs = (if executed \<and> is_takeover a then Some endMs else gs_lastTakeoverAtMs g),
           gs_backoff = b, gs_exec = es, gs_signal = (if executed then trigger (gs_signal g) else gs_signal g)\<rparr>,
          case tr of Some (Entered _ _) \<Rightarrow> True | _ \<Rightarrow> False))"

fun runActions :: "run_config \<Rightarrow> deployment \<Rightarrow> agent_env \<Rightarrow> nat \<Rightarrow> agent_action list \<Rightarrow> agent_state \<Rightarrow> agent_state option" where
  "runActions rn dp te i [] g = Some g"
| "runActions rn dp te i (a # as) g =
     (let backoffActive = isActive (rn_backoff rn) (tn_startMs te i) (gs_backoff g)
      in case execute_in (dp_isAddress dp) (context_of rn dp (rn_execute rn \<and> \<not> backoffActive)) (dp_manifest dp) (rn_manager rn)
                (tn_world te i) a (gs_exec g) of
           None \<Rightarrow> None
         | Some (res, es) \<Rightarrow>
             (let (g, entered) = after_result rn dp a (tn_endMs te i) res es g
              in if entered then Some g else runActions rn dp te (Suc i) as g))"

text \<open>\<open>None\<close>: the run ends with an exception.\<close>

definition agentTick :: "run_config \<Rightarrow> deployment \<Rightarrow> agent_env \<Rightarrow> agent_state \<Rightarrow> agent_state option" where
  "agentTick rn dp te g =
     (let actions = plannedActions rn te g;
          (b, _) = maybeClear (rn_backoff rn) (tn_clearMs te) (gs_backoff g);
          toRun = take (nat (max 0 (rn_maxActionsPerTick rn))) actions
      in runActions rn dp te 0 toRun (g\<lparr>gs_backoff := b\<rparr>))"

text \<open>How long the agent sleeps after a pass unless an event comes.\<close>

definition sleepMs :: "run_config \<Rightarrow> agent_state \<Rightarrow> int" where
  "sleepMs rn g = (if gs_signal g = Pending then 0 else max 1 (rn_tickSeconds rn) * 1000)"

section \<open>Lemmas\<close>

text \<open>What the strategies propose up to the one that stops, without the cap.\<close>

fun proposed :: "agent_strategy list \<Rightarrow> agent_action list" where
  "proposed [] = []"
| "proposed (s # ss) =
     (case st_proposal s of
        Pr_throws \<Rightarrow> proposed ss
      | Pr_actions out stop \<Rightarrow> out @ (if stop \<or> (st_stopOnActions s \<and> out \<noteq> []) then [] else proposed ss))"

lemma collectActions_capped:
  "length actions \<le> m \<Longrightarrow> collectActions (Some m) ss actions = take m (actions @ proposed ss)"
proof (induction ss arbitrary: actions)
  case (Cons s ss)
  show ?case
  proof (cases "length actions = m \<or> st_proposal s = Pr_throws")
    case True
    then show ?thesis using Cons by (auto split: proposal.splits)
  next
    case False
    then obtain out stop where p: "st_proposal s = Pr_actions out stop" and lt: "length actions < m"
      using Cons.prems by (cases "st_proposal s") auto
    define added where "added = take (m - length actions) out"
    have step: "collectActions (Some m) (s # ss) actions =
        (if stop \<or> (st_stopOnActions s \<and> added \<noteq> []) \<or> length (actions @ added) \<ge> m then actions @ added
         else collectActions (Some m) ss (actions @ added))"
      using lt by (simp add: p added_def Let_def)
    show ?thesis
    proof (cases "length (actions @ added) \<ge> m")
      case True
      then have "length out \<ge> m - length actions" by (simp add: added_def)
      with True lt show ?thesis unfolding step by (simp add: p added_def)
    next
      case False
      then have "added = out" using lt by (simp add: added_def)
      with False show ?thesis unfolding step using Cons.IH [of "actions @ out"] by (simp add: p)
    qed
  qed
qed simp

lemma collectActions_uncapped: "collectActions None ss actions = actions @ proposed ss"
  by (induction ss arbitrary: actions) (auto simp: Let_def split: proposal.splits)

text \<open>The broadcasts of a pass.\<close>

definition tick_context :: "run_config \<Rightarrow> deployment \<Rightarrow> action_env \<Rightarrow> exec_context" where
  "tick_context rn dp av = (context_of rn dp True)\<lparr>ex_session := av_session av\<rparr>"

lemma after_result_exec [simp]: "gs_exec (fst (after_result rn dp a t res es g)) = es"
  by (simp add: after_result_def Let_def split: prod.splits)

lemma authorised_executing:
  "authorised_call isAddress (context_of rn dp b\<lparr>ex_session := f\<rparr>) mf rd a c \<Longrightarrow> b"
  by (simp add: authorised_call_def context_of_def)

lemma runActions_trace:
  "runActions rn dp te i as g = Some g' \<Longrightarrow>
     \<exists>new. es_sent (gs_exec g') = es_sent (gs_exec g) @ new
       \<and> (\<forall>e \<in> set new. \<exists>k < length as. rn_execute rn
            \<and> authorised_call (dp_isAddress dp) (tick_context rn dp (tn_world te (i + k))) (dp_manifest dp)
                (av_reads (tn_world te (i + k))) (as ! k) (fst e))"
proof (induction rn dp te i as g rule: runActions.induct)
  case (2 rn dp te i a as g)
  define b where "b = (rn_execute rn \<and> \<not> isActive (rn_backoff rn) (tn_startMs te i) (gs_backoff g))"
  let ?auth = "\<lambda>x k c. authorised_call (dp_isAddress dp) (tick_context rn dp (tn_world te k)) (dp_manifest dp)
     (av_reads (tn_world te k)) x c"
  obtain res es where 1: "execute_in (dp_isAddress dp) (context_of rn dp b) (dp_manifest dp) (rn_manager rn) (tn_world te i) a
      (gs_exec g) = Some (res, es)"
    using "2.prems" by (auto simp: b_def Let_def split: option.splits)
  obtain new where new: "es_sent es = es_sent (gs_exec g) @ new"
    "\<forall>e \<in> set new. authorised_call (dp_isAddress dp) (context_of rn dp b\<lparr>ex_session := av_session (tn_world te i)\<rparr>)
       (dp_manifest dp) (av_reads (tn_world te i)) a (fst e)"
    using execute_sent [OF 1 [unfolded execute_in_def]] by blast
  have new_auth: "\<forall>e \<in> set new. rn_execute rn \<and> ?auth a i (fst e)"
  proof
    fix e assume "e \<in> set new"
    then have a: "authorised_call (dp_isAddress dp) (context_of rn dp b\<lparr>ex_session := av_session (tn_world te i)\<rparr>)
       (dp_manifest dp) (av_reads (tn_world te i)) a (fst e)" using new(2) by blast
    moreover have "b" by (rule authorised_executing [OF a])
    ultimately show "rn_execute rn \<and> ?auth a i (fst e)" by (simp add: tick_context_def b_def)
  qed
  obtain g1 entered where 2: "after_result rn dp a (tn_endMs te i) res es g = (g1, entered)" by fastforce
  have sent1: "es_sent (gs_exec g1) = es_sent (gs_exec g) @ new"
    using after_result_exec [of rn dp a "tn_endMs te i" res es g] 2 new(1) by simp
  have first: "?auth ((a # as) ! 0) (i + 0) c = ?auth a i c" for c by simp
  show ?case
  proof (cases entered)
    case True
    then have "g' = g1" using "2.prems" 1 2 by (simp add: b_def Let_def)
    then show ?thesis using sent1 new_auth first by (intro exI [of _ new]) fastforce
  next
    case False
    then have r: "runActions rn dp te (Suc i) as g1 = Some g'" using "2.prems" 1 2 by (simp add: b_def Let_def)
    obtain new1 where n1: "es_sent (gs_exec g') = es_sent (gs_exec g1) @ new1"
      "\<forall>e \<in> set new1. \<exists>k < length as. rn_execute rn \<and> ?auth (as ! k) (Suc i + k) (fst e)"
      using "2.IH" [OF refl 1 [unfolded b_def] refl refl 2 [symmetric] False r] by blast
    have "\<exists>k < length (a # as). rn_execute rn \<and> ?auth ((a # as) ! k) (i + k) (fst e)" if "e \<in> set (new @ new1)" for e
    proof (cases "e \<in> set new")
      case True
      then show ?thesis using new_auth first by fastforce
    next
      case False
      then have "e \<in> set new1" using that by simp
      then obtain k where "k < length as" "rn_execute rn" "?auth (as ! k) (Suc i + k) (fst e)" using n1(2) by blast
      then show ?thesis by (intro exI [of _ "Suc k"]) simp
    qed
    then show ?thesis using sent1 n1(1) by (intro exI [of _ "new @ new1"]) auto
  qed
qed simp

lemma tick_trace:
  assumes "agentTick rn dp te g = Some g'" "e \<in> set (drop (length (es_sent (gs_exec g))) (es_sent (gs_exec g')))"
  shows "\<exists>k. int k < rn_maxActionsPerTick rn \<and> k < length (plannedActions rn te g) \<and> rn_execute rn
    \<and> authorised_call (dp_isAddress dp) (tick_context rn dp (tn_world te k)) (dp_manifest dp) (av_reads (tn_world te k))
        (plannedActions rn te g ! k) (fst e)"
proof -
  define as where "as = take (nat (max 0 (rn_maxActionsPerTick rn))) (plannedActions rn te g)"
  have "runActions rn dp te 0 as (g\<lparr>gs_backoff := fst (maybeClear (rn_backoff rn) (tn_clearMs te) (gs_backoff g))\<rparr>) = Some g'"
    using assms(1) by (simp add: agentTick_def as_def Let_def split: prod.splits)
  from runActions_trace [OF this] obtain new where n: "es_sent (gs_exec g') = es_sent (gs_exec g) @ new"
    "\<forall>e \<in> set new. \<exists>k < length as. rn_execute rn \<and> authorised_call (dp_isAddress dp) (tick_context rn dp (tn_world te (0 + k)))
       (dp_manifest dp) (av_reads (tn_world te (0 + k))) (as ! k) (fst e)"
    by auto
  have "e \<in> set new" using assms(2) n(1) by simp
  then obtain k where k: "k < length as" "rn_execute rn" "authorised_call (dp_isAddress dp) (tick_context rn dp (tn_world te k))
     (dp_manifest dp) (av_reads (tn_world te k)) (as ! k) (fst e)" using n(2) by fastforce
  moreover have "as ! k = plannedActions rn te g ! k" "int k < rn_maxActionsPerTick rn" "k < length (plannedActions rn te g)"
    using k(1) by (auto simp: as_def)
  ultimately show ?thesis by (intro exI [of _ k]) simp
qed

lemma kind_check_passed:
  assumes "authorised_call isAddress cx mf rd a c" "used_security cx = sec" "as_enabled sec"
  shows "isActionKindAllowed (action_kind a) sec = None" "\<not> delegated_denied sec (map_option dr_user (getDelegationRequirementForAction a))"
proof -
  obtain priv where p: "executePreflight isAddress cx a = Proceed priv" using assms(1) by (auto simp: authorised_call_def)
  show "isActionKindAllowed (action_kind a) sec = None" "\<not> delegated_denied sec (map_option dr_user (getDelegationRequirementForAction a))"
    using security_ok_parts [OF preflight_Proceed(1) [OF p, unfolded assms(2)] assms(3)] by blast+
qed

lemma tick_security [simp]: "used_security (tick_context rn dp av) = execSecurity rn"
  by (simp add: used_security_def tick_context_def context_of_def)

lemma tick_signer [simp]: "ex_signer (tick_context rn dp av) = rn_agent rn"
  by (simp add: tick_context_def context_of_def)

lemma execSecurity_fields:
  "as_enabled (execSecurity rn) = as_enabled (rn_security rn)"
  "as_maxCallValueWei (rn_security rn) = None \<Longrightarrow> as_maxCallValueWei (execSecurity rn) = Some (default_call_cap (rn_policy rn))"
  "rn_deniedKinds rn = None \<Longrightarrow> as_deniedActionKinds (execSecurity rn) = [''mineCore.setCurrentReignRecipients'']"
  "as_allowAnyDelegatedUser (execSecurity rn) = as_allowAnyDelegatedUser (rn_security rn)"
  "\<not> as_allowAnyDelegatedUser (rn_security rn) \<Longrightarrow> rn_userAllowlist rn = None \<Longrightarrow>
     as_delegatedUserAllowlist (execSecurity rn) = (if delegated_run rn then [rn_user rn] else [])"
  by (simp_all add: execSecurity_def)

text \<open>A pass without the execute flag changes nothing but the simulated results.\<close>

lemma execute_dry:
  assumes "executeAgentAction isAddress cx mf rd manager envs a s = Some (res, s')" "\<not> ex_execute cx"
  shows "xs_simulated res \<and> s' = s"
  using assms by (auto simp: executeAgentAction_def refused_def run_branch_def send_def caught_def Let_def
    split: preflight.splits sum.splits prepared.splits option.splits if_splits)

lemma runActions_cooling:
  "runActions rn dp te i as g = Some g' \<Longrightarrow> \<forall>k. isActive (rn_backoff rn) (tn_startMs te k) (gs_backoff g) \<Longrightarrow>
     gs_exec g' = gs_exec g \<and> gs_backoff g' = gs_backoff g \<and> gs_signal g' = gs_signal g
       \<and> gs_lastTakeoverAtMs g' = gs_lastTakeoverAtMs g"
proof (induction rn dp te i as g rule: runActions.induct)
  case (2 rn dp te i a as g)
  have act: "isActive (rn_backoff rn) (tn_startMs te i) (gs_backoff g)" using "2.prems"(2) by blast
  obtain res es where 1: "execute_in (dp_isAddress dp) (context_of rn dp (rn_execute rn \<and> \<not> isActive (rn_backoff rn) (tn_startMs te i) (gs_backoff g)))
      (dp_manifest dp) (rn_manager rn) (tn_world te i) a (gs_exec g) = Some (res, es)"
    using "2.prems"(1) by (auto simp: Let_def split: option.splits)
  have dry: "xs_simulated res \<and> es = gs_exec g"
    using execute_dry [OF 1 [unfolded execute_in_def]] act by (simp add: context_of_def)
  then have 2: "after_result rn dp a (tn_endMs te i) res es g = (g, False)"
    by (simp add: after_result_def onActionResult_def backoff_view_def Let_def)
  then have r: "runActions rn dp te (Suc i) as g = Some g'" using "2.prems"(1) 1 by (simp add: Let_def)
  show ?case by (rule "2.IH" [OF refl 1 refl refl 2 [symmetric] _ r]) (use "2.prems"(2) in simp_all)
qed simp

fun agentRun :: "run_config \<Rightarrow> deployment \<Rightarrow> agent_env list \<Rightarrow> agent_state \<Rightarrow> agent_state option" where
  "agentRun rn dp [] g = Some g"
| "agentRun rn dp (te # tes) g = Option.bind (agentTick rn dp te g) (agentRun rn dp tes)"

lemma maybeClear_cooling:
  assumes "bs_active b" "t < bs_cooldownUntilMs b"
  shows "bs_active (fst (maybeClear cfg t b)) \<and> bs_cooldownUntilMs (fst (maybeClear cfg t b)) = bs_cooldownUntilMs b"
  using assms by (simp add: maybeClear_def clear_streak_def)

lemma tick_cooling:
  assumes "agentTick rn dp te g = Some g'" "bc_enabled (rn_backoff rn)" "bs_active (gs_backoff g)"
    "tn_clearMs te < bs_cooldownUntilMs (gs_backoff g)" "\<forall>k. tn_startMs te k < bs_cooldownUntilMs (gs_backoff g)"
  shows "gs_exec g' = gs_exec g \<and> bs_active (gs_backoff g') \<and> bs_cooldownUntilMs (gs_backoff g') = bs_cooldownUntilMs (gs_backoff g)
    \<and> gs_lastTakeoverAtMs g' = gs_lastTakeoverAtMs g"
proof -
  let ?b = "fst (maybeClear (rn_backoff rn) (tn_clearMs te) (gs_backoff g))"
  have b: "bs_active ?b" "bs_cooldownUntilMs ?b = bs_cooldownUntilMs (gs_backoff g)"
    using maybeClear_cooling [OF assms(3,4)] by simp_all
  have "runActions rn dp te 0 (take (nat (max 0 (rn_maxActionsPerTick rn))) (plannedActions rn te g)) (g\<lparr>gs_backoff := ?b\<rparr>) = Some g'"
    using assms(1) by (simp add: agentTick_def Let_def split: prod.splits)
  moreover have "isActive (rn_backoff rn) (tn_startMs te k) ?b" for k
    using b assms(2) assms(5) [rule_format, of k] by (simp add: isActive_def)
  ultimately show ?thesis using runActions_cooling b by fastforce
qed

lemma onActionResult_ok:
  "\<not> ar_simulated res \<Longrightarrow> ar_error res = None \<Longrightarrow> onActionResult cfg res t s = (if bc_enabled cfg then clear_streak s else s, None)"
  by (simp add: onActionResult_def)

lemma tick_single:
  assumes "plannedActions rn te g = [a]" "1 \<le> rn_maxActionsPerTick rn" "rn_execute rn"
    "maybeClear (rn_backoff rn) (tn_clearMs te) (gs_backoff g) = (b, tr)" "\<not> isActive (rn_backoff rn) (tn_startMs te 0) b"
    "execute_in (dp_isAddress dp) (context_of rn dp True) (dp_manifest dp) (rn_manager rn) (tn_world te 0) a (gs_exec g) = Some (res, es)"
    "after_result rn dp a (tn_endMs te 0) res es (g\<lparr>gs_backoff := b\<rparr>) = (g', entered)"
  shows "agentTick rn dp te g = Some g'"
proof -
  obtain n where "nat (max 0 (rn_maxActionsPerTick rn)) = Suc n" using assms(2) by (cases "nat (max 0 (rn_maxActionsPerTick rn))") auto
  then show ?thesis using assms by (simp add: agentTick_def Let_def)
qed

section \<open>Properties\<close>

text \<open>
  Strategies are merged up to a cap: what they plan is what the sorted strategies propose, up to the one that
  stops, cut off at the cap; a strategy that throws proposes nothing.
\<close>

theorem strategies_merged:
  "runStrategies rank (Some m) ss = take m (proposed (sort_strategies rank ss))
    \<and> runStrategies rank None ss = proposed (sort_strategies rank ss)
    \<and> sorted (map (\<lambda>s. - priority_of s) (sort_strategies rank ss)) \<and> mset (sort_strategies rank ss) = mset ss"
  by (simp add: runStrategies_def collectActions_capped collectActions_uncapped sort_strategies_def)


text \<open>
  C11. While the back-off lasts, no number of passes broadcasts anything, whatever is planned and whatever the chain
  answers: the actions are simulated, their results do not end the back-off, and only the clock does.
\<close>

theorem cooldown_holds_fire:
  assumes "agentRun rn dp tes g = Some g'" "bc_enabled (rn_backoff rn)" "bs_active (gs_backoff g)"
    "\<forall>te \<in> set tes. tn_clearMs te < bs_cooldownUntilMs (gs_backoff g) \<and> (\<forall>k. tn_startMs te k < bs_cooldownUntilMs (gs_backoff g))"
  shows "gs_exec g' = gs_exec g \<and> bs_active (gs_backoff g') \<and> bs_cooldownUntilMs (gs_backoff g') = bs_cooldownUntilMs (gs_backoff g)
    \<and> gs_lastTakeoverAtMs g' = gs_lastTakeoverAtMs g"
  using assms
proof (induction tes arbitrary: g)
  case (Cons te tes)
  then obtain g1 where 1: "agentTick rn dp te g = Some g1" "agentRun rn dp tes g1 = Some g'"
    by (auto split: Option.bind_splits)
  have c: "gs_exec g1 = gs_exec g \<and> bs_active (gs_backoff g1) \<and> bs_cooldownUntilMs (gs_backoff g1) = bs_cooldownUntilMs (gs_backoff g)
    \<and> gs_lastTakeoverAtMs g1 = gs_lastTakeoverAtMs g"
    by (rule tick_cooling [OF 1(1)]) (use Cons.prems in auto)
  then show ?case using Cons.IH [OF 1(2) Cons.prems(2)] Cons.prems(4) by auto
qed simp

text \<open>
  An approval that is already there counts as executed. A pass whose plan is one such action sends nothing, but
  it ends the streak of errors of the back-off and wakes the agent, which goes on without a sleep, for as long as the
  plan stays the same.
\<close>

theorem satisfied_approval_spins:
  assumes "plannedActions rn te g = [Erc20_ensureAllowance token spender minAllowance approveAmount]"
    "1 \<le> rn_maxActionsPerTick rn" "rn_execute rn"
    "\<not> isActive (rn_backoff rn) (tn_startMs te 0) (fst (maybeClear (rn_backoff rn) (tn_clearMs te) (gs_backoff g)))"
    "executePreflight (dp_isAddress dp) (tick_context rn dp (tn_world te 0))
       (Erc20_ensureAllowance token spender minAllowance approveAmount) = Proceed priv"
    "xr_allowance (av_reads (tn_world te 0)) token spender = Some allowance" "minAllowance \<le> allowance"
    "gs_signal g \<noteq> Waiting"
  shows "\<exists>g'. agentTick rn dp te g = Some g' \<and> gs_exec g' = gs_exec g \<and> sleepMs rn g' = 0
    \<and> (bc_enabled (rn_backoff rn) \<longrightarrow> bs_consecutiveErrors (gs_backoff g') = 0)"
proof -
  let ?a = "Erc20_ensureAllowance token spender minAllowance approveAmount"
  let ?b = "fst (maybeClear (rn_backoff rn) (tn_clearMs te) (gs_backoff g))"
  let ?res = "\<lparr>xs_simulated = False, xs_failure = None, xs_hash = None\<rparr>"
  have 1: "execute_in (dp_isAddress dp) (context_of rn dp True) (dp_manifest dp) (rn_manager rn) (tn_world te 0) ?a (gs_exec g)
      = Some (?res, gs_exec g)"
    using assms(5-7) by (simp add: execute_in_def executeAgentAction_def tick_context_def [symmetric] br_ensureAllowance_def)
      (simp add: tick_context_def context_of_def)
  have "trigger (gs_signal g) = Pending" using assms(8) by (cases "gs_signal g") (simp_all add: trigger_def)
  then obtain g' where 2: "after_result rn dp ?a (tn_endMs te 0) ?res (gs_exec g) (g\<lparr>gs_backoff := ?b\<rparr>) = (g', False)"
    and g': "gs_exec g' = gs_exec g" "gs_signal g' = Pending" "bc_enabled (rn_backoff rn) \<longrightarrow> bs_consecutiveErrors (gs_backoff g') = 0"
    by (simp add: after_result_def has_error_def onActionResult_ok backoff_view_def clear_streak_def Let_def)
  obtain b tr where b: "maybeClear (rn_backoff rn) (tn_clearMs te) (gs_backoff g) = (b, tr)" by fastforce
  have "agentTick rn dp te g = Some g'"
    by (rule tick_single [OF assms(1-3) b _ 1]) (use assms(4) 2 b in simp_all)
  then show ?thesis using g' by (simp add: sleepMs_def)
qed

section \<open>Witnesses\<close>

definition sample_deployment :: deployment where
  "sample_deployment = \<lparr>dp_manifest = sample_manifest, dp_manifestAddrs = [''0xf0''], dp_haveHub = True, dp_isAddress = (\<lambda>_. True),
     dp_describe = (\<lambda>_. ''error''), dp_errorName = (\<lambda>_. None)\<rparr>"

definition sample_run :: "string \<Rightarrow> run_config" where
  "sample_run user = \<lparr>rn_execute = True, rn_agent = ''0xbb'', rn_user = user, rn_tickSeconds = 10, rn_maxActionsPerTick = 1,
     rn_maxPlannedActions = 5000, rn_policy = sample_config, rn_autoApprove = False, rn_approveMax = False, rn_approveNft = True,
     rn_privateRpcMode = None, rn_havePrivate = False, rn_manager = None, rn_backoff = DEFAULT_BACKOFF_CONFIG,
     rn_security = default_security, rn_deniedKinds = None, rn_userAllowlist = None\<rparr>"

definition sample_tick :: "agent_action \<Rightarrow> int \<Rightarrow> agent_env" where
  "sample_tick a t = \<lparr>tn_snapshot = sample_snapshot, tn_caller = None, tn_delegation = None, tn_nowMs = t, tn_wallSec = t div 1000,
     tn_strategies = Some [\<lparr>st_id = ''s'', st_priority = None, st_stopOnActions = False, st_proposal = Pr_actions [a] False\<rparr>],
     tn_rank = (\<lambda>_. 0), tn_approve = sample_approve_env None, tn_clearMs = t, tn_startMs = (\<lambda>_. t), tn_endMs = (\<lambda>_. t),
     tn_world = (\<lambda>_. sample_action_env)\<rparr>"

definition sample_agent :: agent_state where
  "sample_agent = \<lparr>gs_lastTakeoverAtMs = None, gs_backoff = initial_backoff, gs_exec = sample_exec_state, gs_signal = Idle\<rparr>"

lemma sample_planned [simp]: "plannedActions (sample_run user) (sample_tick a t) g = [a]"
  by (simp add: plannedActions_def sample_tick_def sample_run_def runStrategies_def sort_strategies_def Let_def)

lemma sample_tick_world [simp]: "tn_world (sample_tick a t) k = sample_action_env"
  by (simp add: sample_tick_def)

lemma sample_deployment_fields [simp]:
  "dp_manifest sample_deployment = sample_manifest" "dp_isAddress sample_deployment = (\<lambda>_. True)"
  by (simp_all add: sample_deployment_def)

lemma sample_tick_times [simp]:
  "tn_clearMs (sample_tick a t) = t" "tn_startMs (sample_tick a t) k = t" "tn_endMs (sample_tick a t) k = t"
  by (simp_all add: sample_tick_def)

lemma sample_run_fields [simp]:
  "rn_execute (sample_run user)" "rn_maxActionsPerTick (sample_run user) = 1" "rn_manager (sample_run user) = None"
  "rn_backoff (sample_run user) = DEFAULT_BACKOFF_CONFIG"
  by (simp_all add: sample_run_def)

lemma sample_initial [simp]:
  "maybeClear cfg t initial_backoff = (initial_backoff, None)" "\<not> isActive cfg t initial_backoff"
  by (simp_all add: maybeClear_def isActive_def initial_backoff_def streak_stale_def)

abbreviation "sample_takeover \<equiv> MineCore_takeoverFor ''0xaa'' 30"

lemma sample_tick_preflight:
  "executePreflight (\<lambda>_. True) (tick_context (sample_run ''0xAA'') sample_deployment sample_action_env) sample_takeover = Proceed False"
  "executePreflight (\<lambda>_. True) (tick_context (sample_run ''0xbb'') sample_deployment sample_action_env)
     (Erc20_ensureAllowance ''0xa0'' ''0xf0'' 0 5) = Proceed False"
  by code_simp+

lemma sample_pass:
  "\<exists>g'. agentTick (sample_run ''0xAA'') sample_deployment (sample_tick sample_takeover 0) sample_agent = Some g'
     \<and> es_sent (gs_exec g') = [(sample_takeover_call, ''0x1'')]"
proof -
  let ?res = "\<lparr>xs_simulated = False, xs_failure = None, xs_hash = Some ''0x1''\<rparr>"
  have 1: "execute_in (\<lambda>_. True) (context_of (sample_run ''0xAA'') sample_deployment True) sample_manifest None sample_action_env
      sample_takeover sample_exec_state = Some (?res, sample_exec_state\<lparr>es_sent := [(sample_takeover_call, ''0x1'')]\<rparr>)"
    using sample_execution [OF sample_tick_preflight(1), of sample_manifest sample_reads sample_takeover_call "''0x1''" sample_exec_state]
      sample_prepare
    by (simp add: execute_in_def tick_context_def context_of_def sample_action_env_def sample_run_def sample_exec_state_def)
  obtain g' where 2: "after_result (sample_run ''0xAA'') sample_deployment sample_takeover 0 ?res
      (sample_exec_state\<lparr>es_sent := [(sample_takeover_call, ''0x1'')]\<rparr>) sample_agent = (g', False)"
    by (simp add: after_result_def has_error_def onActionResult_ok backoff_view_def Let_def)
  have "gs_exec g' = sample_exec_state\<lparr>es_sent := [(sample_takeover_call, ''0x1'')]\<rparr>"
    using after_result_exec [of "sample_run ''0xAA''" sample_deployment sample_takeover 0 ?res
      "sample_exec_state\<lparr>es_sent := [(sample_takeover_call, ''0x1'')]\<rparr>" sample_agent] 2 by simp
  moreover have "agentTick (sample_run ''0xAA'') sample_deployment (sample_tick sample_takeover 0) sample_agent = Some g'"
  proof (rule tick_single [where b = initial_backoff and tr = None and res = ?res and entered = False
        and es = "sample_exec_state\<lparr>es_sent := [(sample_takeover_call, ''0x1'')]\<rparr>"])
    show "maybeClear (rn_backoff (sample_run ''0xAA'')) (tn_clearMs (sample_tick sample_takeover 0)) (gs_backoff sample_agent) = (initial_backoff, None)"
      by (simp add: sample_agent_def sample_initial)
    have "sample_agent\<lparr>gs_backoff := initial_backoff\<rparr> = sample_agent" by (simp add: sample_agent_def)
    then show "after_result (sample_run ''0xAA'') sample_deployment sample_takeover (tn_endMs (sample_tick sample_takeover 0) 0) ?res
        (sample_exec_state\<lparr>es_sent := [(sample_takeover_call, ''0x1'')]\<rparr>) (sample_agent\<lparr>gs_backoff := initial_backoff\<rparr>) = (g', False)"
      using 2 by (simp add: sample_tick_def)
  qed (use 1 in \<open>simp_all add: sample_initial sample_agent_def \<close>)
  ultimately show ?thesis by (intro exI [of _ g']) simp
qed


definition sample_cooling :: agent_state where
  "sample_cooling = sample_agent\<lparr>gs_backoff := initial_backoff\<lparr>bs_active := True, bs_cooldownUntilMs := 1000\<rparr>\<rparr>"

lemma sample_cooling_run:
  obtains g' where "agentRun (sample_run ''0xAA'') sample_deployment [sample_tick sample_takeover 5] sample_cooling = Some g'"
proof -
  let ?b = "initial_backoff\<lparr>bs_active := True, bs_cooldownUntilMs := 1000\<rparr>"
  have p: "executePreflight (\<lambda>_. True) (context_of (sample_run ''0xAA'') sample_deployment False\<lparr>ex_session := av_session sample_action_env\<rparr>)
      sample_takeover = Proceed False" by code_simp
  obtain res es where 1: "execute_in (\<lambda>_. True) (context_of (sample_run ''0xAA'') sample_deployment False) sample_manifest None
      sample_action_env sample_takeover sample_exec_state = Some (res, es)"
    using p by (simp add: execute_in_def executeAgentAction_def Let_def) (metis surj_pair)
  have b: "maybeClear (rn_backoff (sample_run ''0xAA'')) 5 ?b = (?b, None)" "isActive (rn_backoff (sample_run ''0xAA'')) 5 ?b"
    by (simp_all add: sample_run_def maybeClear_def isActive_def streak_stale_def initial_backoff_def DEFAULT_BACKOFF_CONFIG_def)
  have "gs_backoff sample_cooling = ?b" "gs_exec sample_cooling = sample_exec_state"
    by (simp_all add: sample_cooling_def sample_agent_def)
  then have "\<exists>g'. agentTick (sample_run ''0xAA'') sample_deployment (sample_tick sample_takeover 5) sample_cooling = Some g'"
    using 1 b by (simp add: agentTick_def Let_def split: prod.split)
  then show thesis using that by auto
qed

theorem cooldown_holds_fire_witness:
  "\<exists>g'. agentRun (sample_run ''0xAA'') sample_deployment [sample_tick sample_takeover 5] sample_cooling = Some g'
     \<and> gs_exec g' = sample_exec_state"
proof -
  obtain g' where g': "agentRun (sample_run ''0xAA'') sample_deployment [sample_tick sample_takeover 5] sample_cooling = Some g'"
    by (rule sample_cooling_run)
  show ?thesis using cooldown_holds_fire [OF g'] g'
    by (simp add: sample_cooling_def sample_agent_def  DEFAULT_BACKOFF_CONFIG_def)
qed

theorem satisfied_approval_spins_witness:
  "\<exists>g'. agentTick (sample_run ''0xbb'') sample_deployment (sample_tick (Erc20_ensureAllowance ''0xa0'' ''0xf0'' 0 5) 0) sample_agent = Some g'
     \<and> sleepMs (sample_run ''0xbb'') g' = 0"
proof -
  have "xr_allowance (av_reads sample_action_env) ''0xa0'' ''0xf0'' = Some 0" by (simp add: sample_action_env_def sample_reads_def)
  moreover have "gs_signal sample_agent \<noteq> Waiting" "gs_backoff sample_agent = initial_backoff" by (simp_all add: sample_agent_def)
  ultimately show ?thesis
    using satisfied_approval_spins [of "sample_run ''0xbb''" "sample_tick (Erc20_ensureAllowance ''0xa0'' ''0xf0'' 0 5) 0" sample_agent
      "''0xa0''" "''0xf0''" 0 5 sample_deployment False 0] sample_tick_preflight(2)
    by auto
qed

end
