(* ===== verification/UrlGuard.thy ===== *)
theory UrlGuard
  imports Prelude "HOL-Library.Word"
begin

unbundle bit_operations_syntax

text \<open>
  The check of the addresses that the SDK connects to (\<open>src/agents/sdk/src/security/url.ts\<close>): the literal addresses of
  both versions, the ranges, and the validation of a URL with and without a look-up of its host.

  \<^item> The parser of URLs and the look-up are arguments. A policy's field that is not set is an option, and
    stands for the default.
  \<^item> \<open>ipv4ToInt\<close> and the mask are words of 32 bits, which is what \<open>>>> 0\<close> makes of them; the bytes of an address
    of version 6 are a list of 16 numbers.
\<close>

section \<open>Hosts\<close>

definition strip_brackets :: "string \<Rightarrow> string" where
  "strip_brackets h = (if h \<noteq> [] \<and> hd h = CHR ''['' \<and> last h = CHR '']'' then butlast (tl h) else h)"

definition strip_dots :: "string \<Rightarrow> string" where
  "strip_dots h = rev (dropWhile (\<lambda>c. c = CHR ''.'') (rev h))"

definition normalizeHostname :: "string \<Rightarrow> string" where
  "normalizeHostname raw =
     strip_dots (takeWhile (\<lambda>c. c \<noteq> CHR ''%'') (strip_brackets (toLowerCase (js_trim raw))))"

definition uniqNormalizedHosts :: "string list \<Rightarrow> string list" where
  "uniqNormalizedHosts l = rev (remdups (rev (filter (\<lambda>s. s \<noteq> []) (map normalizeHostname l))))"

section \<open>Version 4\<close>

definition ipv4_part :: "string \<Rightarrow> bool" where
  "ipv4_part p \<longleftrightarrow> p \<noteq> [] \<and> \<not> (length p > 1 \<and> hd p = CHR ''0'') \<and> string_nat p \<le> 255"

definition isIpv4Literal :: "string \<Rightarrow> bool" where
  "isIpv4Literal host \<longleftrightarrow>
     host \<noteq> [] \<and> list_all (\<lambda>c. c = CHR ''.'' \<or> (let n = of_char c :: nat in 48 \<le> n \<and> n \<le> 57)) host
     \<and> length (split_on CHR ''.'' host) = 4 \<and> list_all ipv4_part (split_on CHR ''.'' host)"

definition parseIpv4Bytes :: "string \<Rightarrow> nat list option" where
  "parseIpv4Bytes host = (if isIpv4Literal host then Some (map string_nat (split_on CHR ''.'' host)) else None)"

definition ipv4ToInt :: "string \<Rightarrow> 32 word" where
  "ipv4ToInt host =
     (case map string_nat (split_on CHR ''.'' host) of
        [a, b, c, d] \<Rightarrow> push_bit 24 (of_nat a) + push_bit 16 (of_nat b) + push_bit 8 (of_nat c) + of_nat d
      | _ \<Rightarrow> 0)"

definition inIpv4Cidr :: "string \<Rightarrow> string \<Rightarrow> nat \<Rightarrow> bool" where
  "inIpv4Cidr host base maskBits =
     (if \<not> isIpv4Literal host \<or> \<not> isIpv4Literal base then False
      else let mask = (if maskBits = 0 then 0 else push_bit (32 - maskBits) (- 1)) :: 32 word
           in ipv4ToInt host AND mask = ipv4ToInt base AND mask)"

section \<open>Version 6\<close>

definition hextet_digit :: "char \<Rightarrow> nat option" where
  "hextet_digit c =
     (let n = of_char c :: nat in
      if 48 \<le> n \<and> n \<le> 57 then Some (n - 48)
      else if 97 \<le> n \<and> n \<le> 102 then Some (n - 87)
      else if 65 \<le> n \<and> n \<le> 70 then Some (n - 55)
      else None)"

definition parseHextet :: "string \<Rightarrow> nat option" where
  "parseHextet h =
     (if h = [] \<or> length h > 4 \<or> \<not> list_all (\<lambda>c. hextet_digit c \<noteq> None) h then None
      else Some (foldl (\<lambda>n c. 16 * n + the (hextet_digit c)) 0 h))"

text \<open>\<open>split('::')\<close>.\<close>

fun split_colons :: "string \<Rightarrow> string list" where
  "split_colons [] = [[]]"
| "split_colons [c] = [[c]]"
| "split_colons (c # d # s) =
     (if c = CHR '':'' \<and> d = CHR '':'' then [] # split_colons s
      else case split_colons (d # s) of p # ps \<Rightarrow> (c # p) # ps | [] \<Rightarrow> [[c]])"

definition groups_of :: "string \<Rightarrow> string list" where
  "groups_of p = (if p = [] then [] else filter (\<lambda>g. g \<noteq> []) (split_on CHR '':'' p))"

text \<open>Takes a last group with a dot off; the outer option is a group that is no address of version 4.\<close>

definition ipv4_tail :: "string list \<Rightarrow> (string list \<times> nat list) option" where
  "ipv4_tail gs =
     (if gs \<noteq> [] \<and> CHR ''.'' \<in> set (last gs)
      then (case parseIpv4Bytes (last gs) of Some bs \<Rightarrow> Some (butlast gs, bs) | None \<Rightarrow> None)
      else Some (gs, []))"

fun parseHextets :: "string list \<Rightarrow> nat list option" where
  "parseHextets [] = Some []"
| "parseHextets (g # gs) =
     (case parseHextet g of None \<Rightarrow> None
      | Some n \<Rightarrow> (case parseHextets gs of None \<Rightarrow> None | Some ns \<Rightarrow> Some (n # ns)))"

definition hextet_bytes :: "nat list \<Rightarrow> nat list" where
  "hextet_bytes ns = concat (map (\<lambda>n. [n div 256 mod 256, n mod 256]) ns)"

definition ipv4_hextets :: "nat list \<Rightarrow> nat list" where
  "ipv4_hextets bs = (case bs of [a, b, c, d] \<Rightarrow> [256 * a + b, 256 * c + d] | _ \<Rightarrow> [])"

definition parseIpv6ToBytes :: "string \<Rightarrow> nat list option" where
  "parseIpv6ToBytes host =
     (let h = toLowerCase host in
      if CHR '':'' \<notin> set h then None
      else case split_colons h of
             [p] \<Rightarrow>
               (case ipv4_tail (groups_of p) of
                  None \<Rightarrow> None
                | Some (gs, v4) \<Rightarrow>
                    if length gs + length (ipv4_hextets v4) \<noteq> 8 then None
                    else map_option (\<lambda>ns. hextet_bytes (ns @ ipv4_hextets v4)) (parseHextets gs))
           | [p, q] \<Rightarrow>
               (case ipv4_tail (groups_of q) of
                  None \<Rightarrow> None
                | Some (tail, v4) \<Rightarrow>
                    (let used = length (groups_of p) + length tail + length (ipv4_hextets v4) in
                     if used > 8 then None
                     else case (parseHextets (groups_of p), parseHextets tail) of
                            (Some hs, Some ts) \<Rightarrow> Some (hextet_bytes (hs @ replicate (8 - used) 0 @ ts @ ipv4_hextets v4))
                          | _ \<Rightarrow> None))
           | _ \<Rightarrow> None)"

definition isIpv4MappedIpv6 :: "nat list \<Rightarrow> bool" where
  "isIpv4MappedIpv6 bytes \<longleftrightarrow> list_all (\<lambda>b. b = 0) (take 10 bytes) \<and> bytes ! 10 = 255 \<and> bytes ! 11 = 255"

definition dotted :: "nat \<Rightarrow> nat \<Rightarrow> nat \<Rightarrow> nat \<Rightarrow> string" where
  "dotted a b c d = nat_string a @ ''.'' @ nat_string b @ ''.'' @ nat_string c @ ''.'' @ nat_string d"

definition ipv4FromMapped :: "nat list \<Rightarrow> string" where
  "ipv4FromMapped bytes = dotted (bytes ! 12) (bytes ! 13) (bytes ! 14) (bytes ! 15)"

section \<open>Ranges\<close>

definition isLoopback :: "string \<Rightarrow> bool" where
  "isLoopback host =
     (let h = toLowerCase host in
      if h = ''localhost'' then True
      else if isIpv4Literal h \<and> inIpv4Cidr h ''127.0.0.0'' 8 then True
      else case parseIpv6ToBytes h of
             None \<Rightarrow> False
           | Some v6 \<Rightarrow>
               if isIpv4MappedIpv6 v6 then inIpv4Cidr (ipv4FromMapped v6) ''127.0.0.0'' 8
               else list_all (\<lambda>b. b = 0) (take 15 v6) \<and> v6 ! 15 = 1)"

definition isLinkLocal :: "string \<Rightarrow> bool" where
  "isLinkLocal host =
     (let h = toLowerCase host in
      if isIpv4Literal h \<and> inIpv4Cidr h ''169.254.0.0'' 16 then True
      else case parseIpv6ToBytes h of
             None \<Rightarrow> False
           | Some v6 \<Rightarrow>
               if isIpv4MappedIpv6 v6 then inIpv4Cidr (ipv4FromMapped v6) ''169.254.0.0'' 16
               else v6 ! 0 = 254 \<and> v6 ! 1 AND 192 = 128)"

definition privateRanges :: "string \<Rightarrow> bool" where
  "privateRanges v4 \<longleftrightarrow>
     inIpv4Cidr v4 ''10.0.0.0'' 8 \<or> inIpv4Cidr v4 ''172.16.0.0'' 12 \<or> inIpv4Cidr v4 ''192.168.0.0'' 16
     \<or> inIpv4Cidr v4 ''100.64.0.0'' 10"

definition isPrivateIp :: "string \<Rightarrow> bool" where
  "isPrivateIp host =
     (let h = toLowerCase host in
      if isIpv4Literal h then privateRanges h
      else case parseIpv6ToBytes h of
             None \<Rightarrow> False
           | Some v6 \<Rightarrow>
               if isIpv4MappedIpv6 v6 then privateRanges (ipv4FromMapped v6)
               else if list_all (\<lambda>b. b = 0) v6 then True
               else v6 ! 0 AND 254 = 252)"

section \<open>The policy and the check of a URL\<close>

record url_policy =
  up_allowedProtocols :: "string list option"
  up_allowedHosts :: "string list option"
  up_deniedHosts :: "string list option"
  up_allowCredentials :: "bool option"
  up_allowLoopback :: "bool option"
  up_allowPrivateIps :: "bool option"
  up_allowLinkLocal :: "bool option"
  up_allowRedirects :: "bool option"
  up_resolveDns :: "bool option"

definition default_denied_hosts :: "string list" where
  "default_denied_hosts =
     [''169.254.169.254'', ''169.254.170.2'', ''100.100.100.200'', ''metadata.google.internal'', ''metadata'',
      ''fd00:ec2::254'', ''0.0.0.0'', ''::'']"

definition DEFAULT_PUBLIC_HTTP_URL_POLICY :: url_policy where
  "DEFAULT_PUBLIC_HTTP_URL_POLICY = \<lparr>up_allowedProtocols = Some [''https:'', ''http:''], up_allowedHosts = Some [],
     up_deniedHosts = Some default_denied_hosts, up_allowCredentials = Some False, up_allowLoopback = Some False,
     up_allowPrivateIps = Some False, up_allowLinkLocal = Some False, up_allowRedirects = Some False, up_resolveDns = None\<rparr>"

definition or_else :: "'a option \<Rightarrow> 'a \<Rightarrow> 'a" where
  "or_else x d = (case x of Some v \<Rightarrow> v | None \<Rightarrow> d)"

definition deniedHosts :: "url_policy \<Rightarrow> string list" where
  "deniedHosts p = uniqNormalizedHosts (default_denied_hosts @ or_else (up_deniedHosts p) default_denied_hosts)"

record parsed_url =
  pu_protocol :: string
  pu_username :: string
  pu_password :: string
  pu_hostname :: string

datatype url_error =
  Url_empty | Url_newline | Url_invalid | Url_protocol | Url_credentials | Url_no_host | Url_not_allowlisted
| Url_denied | Url_loopback | Url_link_local | Url_private | Url_lookup_failed | Url_no_addresses

text \<open>The address of version 4 that a literal of version 6 contains.\<close>

definition mappedV4 :: "string \<Rightarrow> string option" where
  "mappedV4 host =
     (case parseIpv6ToBytes host of
        Some v6 \<Rightarrow> if isIpv4MappedIpv6 v6 then Some (ipv4FromMapped v6) else None | None \<Rightarrow> None)"

definition range_error :: "url_policy \<Rightarrow> string \<Rightarrow> url_error option" where
  "range_error p host =
     (if \<not> or_else (up_allowLoopback p) True \<and> isLoopback host then Some Url_loopback
      else if \<not> or_else (up_allowLinkLocal p) False \<and> isLinkLocal host then Some Url_link_local
      else if \<not> or_else (up_allowPrivateIps p) True \<and> isPrivateIp host then Some Url_private
      else None)"

definition hits :: "string list \<Rightarrow> string \<Rightarrow> bool" where
  "hits l host \<longleftrightarrow> host \<in> set l \<or> (case mappedV4 host of Some v4 \<Rightarrow> v4 \<in> set l | None \<Rightarrow> False)"

definition parseAndValidateOutboundUrl ::
  "(string \<Rightarrow> parsed_url option) \<Rightarrow> url_policy \<Rightarrow> string \<Rightarrow> url_error + parsed_url" where
  "parseAndValidateOutboundUrl parse p raw =
     (if js_trim raw = [] then Inl Url_empty
      else if CHR 0x0A \<in> set raw \<or> CHR 0x0D \<in> set raw then Inl Url_newline
      else case parse raw of
             None \<Rightarrow> Inl Url_invalid
           | Some u \<Rightarrow>
               (let host = normalizeHostname (pu_hostname u);
                    allowedHosts = uniqNormalizedHosts (or_else (up_allowedHosts p) [])
                in if pu_protocol u \<notin> set (or_else (up_allowedProtocols p) [''https:'', ''http:'']) then Inl Url_protocol
                   else if \<not> or_else (up_allowCredentials p) False \<and> (pu_username u \<noteq> [] \<or> pu_password u \<noteq> []) then Inl Url_credentials
                   else if host = [] then Inl Url_no_host
                   else if \<not> (allowedHosts = [] \<or> hits allowedHosts host) then Inl Url_not_allowlisted
                   else if hits (deniedHosts p) host then Inl Url_denied
                   else case range_error p host of Some e \<Rightarrow> Inl e | None \<Rightarrow> Inr u))"

text \<open>The addresses of a look-up; an empty one is skipped.\<close>

fun check_addresses :: "url_policy \<Rightarrow> string list \<Rightarrow> url_error option" where
  "check_addresses p [] = None"
| "check_addresses p (a # as) =
     (let ip = normalizeHostname a in
      if ip = [] then check_addresses p as
      else if ip \<in> set (deniedHosts p) then Some Url_denied
      else case range_error p ip of Some e \<Rightarrow> Some e | None \<Rightarrow> check_addresses p as)"

text \<open>\<open>None\<close> of the look-up: it threw or timed out.\<close>

definition parseAndValidateOutboundUrlWithDns ::
  "(string \<Rightarrow> parsed_url option) \<Rightarrow> (string \<Rightarrow> string list option) \<Rightarrow> url_policy \<Rightarrow> string \<Rightarrow> url_error + parsed_url" where
  "parseAndValidateOutboundUrlWithDns parse look_up p raw =
     (case parseAndValidateOutboundUrl parse p raw of
        Inl e \<Rightarrow> Inl e
      | Inr u \<Rightarrow>
          (let host = normalizeHostname (pu_hostname u);
               isIpLiteral = (isIpv4Literal host \<or> parseIpv6ToBytes host \<noteq> None)
           in if up_resolveDns p = Some False \<or> host = ''localhost'' \<or> isIpLiteral then Inr u
              else case look_up host of
                     None \<Rightarrow> Inl Url_lookup_failed
                   | Some [] \<Rightarrow> Inl Url_no_addresses
                   | Some (a # as) \<Rightarrow> (case check_addresses p (a # as) of Some e \<Rightarrow> Inl e | None \<Rightarrow> Inr u)))"

definition fetchRedirectMode :: "url_policy \<Rightarrow> string" where
  "fetchRedirectMode p = (if or_else (up_allowRedirects p) False then ''follow'' else ''error'')"

section \<open>Texts of addresses\<close>

lemma split_on_free: "c \<notin> set p \<Longrightarrow> split_on c p = [p]"
  by (induction p) auto

lemma split_on_append: "c \<notin> set p \<Longrightarrow> split_on c (p @ c # s) = p # split_on c s"
  by (induction p) auto

lemma digit_char_code: "d < 10 \<Longrightarrow> of_char (digit_char d) = (48 + d :: nat)"
  by (rule of_char_digit)

lemma digit_char_other:
  assumes "d < 10" "(of_char c :: nat) < 48 \<or> 57 < (of_char c :: nat)"
  shows "digit_char d \<noteq> c"
  using assms of_char_digit [OF assms(1)] by auto

lemma not_in_nat_string: "(of_char c :: nat) < 48 \<or> 57 < (of_char c :: nat) \<Longrightarrow> c \<notin> set (nat_string n)"
  using nat_string_digits digit_char_other by blast

lemma dot_not_in_nat_string [simp]: "CHR ''.'' \<notin> set (nat_string n)"
  by (rule not_in_nat_string) simp

lemma colon_not_in_nat_string [simp]: "CHR '':'' \<notin> set (nat_string n)"
  by (rule not_in_nat_string) simp

lemma split_dotted: "split_on CHR ''.'' (dotted a b c d) = [nat_string a, nat_string b, nat_string c, nat_string d]"
  by (simp add: dotted_def split_on_append split_on_free)

lemma nat_string_leading: "0 < n \<Longrightarrow> hd (nat_string n) \<noteq> CHR ''0''"
proof (induction n rule: nat_string.induct)
  case (1 n)
  show ?case
  proof (cases "n < 10")
    case True
    have "digit_char n \<noteq> CHR ''0''"
    proof
      assume "digit_char n = CHR ''0''"
      then have "of_char (digit_char n) = (48 :: nat)" by simp
      with True 1(2) show False by simp
    qed
    with True show ?thesis by (subst nat_string.simps) simp
  next
    case False
    then show ?thesis using 1(1) by (subst nat_string.simps) (simp add: hd_append)
  qed
qed

lemma ipv4_part_nat_string: "ipv4_part (nat_string n) \<longleftrightarrow> n \<le> 255"
proof -
  have "\<not> (length (nat_string n) > 1 \<and> hd (nat_string n) = CHR ''0'')"
  proof (cases "n = 0")
    case True
    then show ?thesis by (subst nat_string.simps) simp
  next
    case False
    then show ?thesis using nat_string_leading by blast
  qed
  then show ?thesis by (simp add: ipv4_part_def)
qed

lemma nat_string_chars:
  "list_all (\<lambda>c. c = CHR ''.'' \<or> (let n = of_char c :: nat in 48 \<le> n \<and> n \<le> 57)) (nat_string n)"
  using nat_string_digits by (fastforce simp: list_all_iff Let_def)

lemma isIpv4Literal_dotted: "isIpv4Literal (dotted a b c d) \<longleftrightarrow> a \<le> 255 \<and> b \<le> 255 \<and> c \<le> 255 \<and> d \<le> 255"
  unfolding isIpv4Literal_def split_dotted using nat_string_chars
  by (auto simp: ipv4_part_nat_string dotted_def)

lemma lower_char_digit: "d < 10 \<Longrightarrow> lower_char (digit_char d) = digit_char d"
  by (simp add: lower_char_def Let_def)

lemma toLowerCase_append: "toLowerCase (s @ t) = toLowerCase s @ toLowerCase t"
  by (simp add: toLowerCase_def)

lemma toLowerCase_nat_string [simp]: "toLowerCase (nat_string n) = nat_string n"
  unfolding toLowerCase_def by (rule map_idI) (metis nat_string_digits lower_char_digit)

lemma toLowerCase_dot [simp]: "toLowerCase ''.'' = ''.''"
  by code_simp

lemma toLowerCase_dotted [simp]: "toLowerCase (dotted a b c d) = dotted a b c d"
  by (simp add: dotted_def toLowerCase_append del: append.simps)

lemma colon_not_in_dotted [simp]: "CHR '':'' \<notin> set (dotted a b c d)"
  by (simp add: dotted_def)

lemma parseIpv6_dotted [simp]: "parseIpv6ToBytes (dotted a b c d) = None"
  by (simp add: parseIpv6ToBytes_def)

section \<open>Ranges of version 4\<close>

lemma unat_bytes:
  assumes "a \<le> 255" "b \<le> 255" "c \<le> 255" "d \<le> (255 :: nat)"
  shows "unat (push_bit 24 (of_nat a) + push_bit 16 (of_nat b) + push_bit 8 (of_nat c) + of_nat d :: 32 word)
    = 16777216 * a + 65536 * b + 256 * c + d"
proof -
  have "(push_bit 24 (of_nat a) + push_bit 16 (of_nat b) + push_bit 8 (of_nat c) + of_nat d :: 32 word)
      = of_nat (16777216 * a + 65536 * b + 256 * c + d)"
    by (simp add: push_bit_eq_mult)
  moreover have "16777216 * a + 65536 * b + 256 * c + d < 2 ^ 32" using assms by simp
  ultimately show ?thesis by (simp only: unat_of_nat) (simp add: take_bit_nat_eq_self)
qed

lemma mask_eq_iff: "(x AND push_bit k (- 1) = y AND push_bit k (- 1)) \<longleftrightarrow> drop_bit k x = drop_bit k (y :: 32 word)"
proof
  assume l: "x AND push_bit k (- 1) = y AND push_bit k (- 1)"
  show "drop_bit k x = drop_bit k y"
  proof (rule bit_word_eqI)
    fix n
    show "bit (drop_bit k x) n \<longleftrightarrow> bit (drop_bit k y) n"
      using arg_cong [OF l, of "\<lambda>w. bit w (k + n)"] by (auto simp: bit_simps dest: bit_imp_le_length)
  qed
next
  assume r: "drop_bit k x = drop_bit k y"
  show "x AND push_bit k (- 1) = y AND push_bit k (- 1)"
  proof (rule bit_word_eqI)
    fix n
    show "bit (x AND push_bit k (- 1)) n \<longleftrightarrow> bit (y AND push_bit k (- 1)) n"
      using arg_cong [OF r, of "\<lambda>w. bit w (n - k)"] by (auto simp: bit_simps)
  qed
qed

lemma inIpv4Cidr_drop:
  assumes "isIpv4Literal x" "isIpv4Literal y" "0 < n"
  shows "inIpv4Cidr x y n \<longleftrightarrow> drop_bit (32 - n) (ipv4ToInt x) = drop_bit (32 - n) (ipv4ToInt y)"
proof -
  have "inIpv4Cidr x y n \<longleftrightarrow> ipv4ToInt x AND push_bit (32 - n) (- 1) = ipv4ToInt y AND push_bit (32 - n) (- 1)"
    unfolding inIpv4Cidr_def Let_def using assms by (simp only: simp_thms if_False if_True) simp
  then show ?thesis by (simp only: mask_eq_iff)
qed

lemma inIpv4Cidr_dotted:
  assumes "a \<le> 255" "b \<le> 255" "c \<le> 255" "d \<le> 255" "a' \<le> 255" "b' \<le> 255" "c' \<le> 255" "d' \<le> 255" "0 < n"
  shows "inIpv4Cidr (dotted a b c d) (dotted a' b' c' d') n \<longleftrightarrow>
    (16777216 * a + 65536 * b + 256 * c + d) div 2 ^ (32 - n) = (16777216 * a' + 65536 * b' + 256 * c' + d') div 2 ^ (32 - n)"
proof -
  have "inIpv4Cidr (dotted a b c d) (dotted a' b' c' d') n \<longleftrightarrow>
      drop_bit (32 - n) (ipv4ToInt (dotted a b c d)) = drop_bit (32 - n) (ipv4ToInt (dotted a' b' c' d'))"
    by (rule inIpv4Cidr_drop) (use assms in \<open>simp_all add: isIpv4Literal_dotted\<close>)
  also have "\<dots> \<longleftrightarrow> unat (drop_bit (32 - n) (ipv4ToInt (dotted a b c d))) = unat (drop_bit (32 - n) (ipv4ToInt (dotted a' b' c' d')))"
    by (simp only: word_unat_eq_iff)
  also have "\<dots> \<longleftrightarrow> unat (ipv4ToInt (dotted a b c d)) div 2 ^ (32 - n) = unat (ipv4ToInt (dotted a' b' c' d')) div 2 ^ (32 - n)"
    unfolding unat_drop_bit_eq by (simp only: drop_bit_eq_div)
  finally show ?thesis using assms by (simp add: ipv4ToInt_def split_dotted unat_bytes)
qed

lemma range_texts:
  "''127.0.0.0'' = dotted 127 0 0 0" "''169.254.0.0'' = dotted 169 254 0 0" "''10.0.0.0'' = dotted 10 0 0 0"
  "''172.16.0.0'' = dotted 172 16 0 0" "''192.168.0.0'' = dotted 192 168 0 0" "''100.64.0.0'' = dotted 100 64 0 0"
  by code_simp+

lemma address_div:
  assumes "b \<le> 255" "c \<le> 255" "d \<le> (255 :: nat)"
  shows "(16777216 * a + 65536 * b + 256 * c + d) div 2 ^ 24 = a"
    "(16777216 * a + 65536 * b + 256 * c + d) div 2 ^ 16 = 256 * a + b"
    "(16777216 * a + 65536 * b + 256 * c + d) div 2 ^ 20 = 16 * a + b div 16"
    "(16777216 * a + 65536 * b + 256 * c + d) div 2 ^ 22 = 4 * a + b div 64"
  by (rule div_nat_eqI; use assms in \<open>simp; linarith?\<close>)+

lemma in_range_8:
  assumes "a \<le> 255" "b \<le> 255" "c \<le> 255" "d \<le> 255" "x \<le> 255"
  shows "inIpv4Cidr (dotted a b c d) (dotted x 0 0 0) 8 \<longleftrightarrow> a = x"
  using inIpv4Cidr_dotted [OF assms(1-5), of 0 0 0 8] address_div(1) [OF assms(2-4), of a] address_div(1) [of 0 0 0 x] by simp

lemma digits_eq:
  assumes "b < k" "y < (k :: nat)"
  shows "k * a + b = k * x + y \<longleftrightarrow> a = x \<and> b = y"
proof
  assume e: "k * a + b = k * x + y"
  then have "(k * a + b) mod k = (k * x + y) mod k" "(k * a + b) div k = (k * x + y) div k" by simp_all
  with assms show "a = x \<and> b = y" by simp
qed simp

lemma in_range_16:
  assumes "a \<le> 255" "b \<le> 255" "c \<le> 255" "d \<le> 255" "x \<le> 255" "y \<le> 255"
  shows "inIpv4Cidr (dotted a b c d) (dotted x y 0 0) 16 \<longleftrightarrow> a = x \<and> b = y"
  using inIpv4Cidr_dotted [OF assms, of 0 0 16] address_div(2) [OF assms(2-4), of a] address_div(2) [OF assms(6), of 0 0 x]
    digits_eq [of b 256 y a x] assms by simp

lemma in_range_12:
  assumes "a \<le> 255" "b \<le> 255" "c \<le> 255" "d \<le> 255"
  shows "inIpv4Cidr (dotted a b c d) (dotted 172 16 0 0) 12 \<longleftrightarrow> a = 172 \<and> 16 \<le> b \<and> b \<le> 31"
proof -
  have "inIpv4Cidr (dotted a b c d) (dotted 172 16 0 0) 12 \<longleftrightarrow> 16 * a + b div 16 = 16 * 172 + 1"
    using inIpv4Cidr_dotted [OF assms, of 172 16 0 0 12] address_div(3) [OF assms(2-4), of a] address_div(3) [of 16 0 0 172] by simp
  also have "\<dots> \<longleftrightarrow> a = 172 \<and> b div 16 = 1" by (rule digits_eq) (use assms in simp_all)
  also have "b div 16 = 1 \<longleftrightarrow> 16 \<le> b \<and> b \<le> 31" by presburger
  finally show ?thesis .
qed

lemma in_range_10:
  assumes "a \<le> 255" "b \<le> 255" "c \<le> 255" "d \<le> 255"
  shows "inIpv4Cidr (dotted a b c d) (dotted 100 64 0 0) 10 \<longleftrightarrow> a = 100 \<and> 64 \<le> b \<and> b \<le> 127"
proof -
  have "inIpv4Cidr (dotted a b c d) (dotted 100 64 0 0) 10 \<longleftrightarrow> 4 * a + b div 64 = 4 * 100 + 1"
    using inIpv4Cidr_dotted [OF assms, of 100 64 0 0 10] address_div(4) [OF assms(2-4), of a] address_div(4) [of 64 0 0 100] by simp
  also have "\<dots> \<longleftrightarrow> a = 100 \<and> b div 64 = 1" using digits_eq [of "b div 64" 4 1 a 100] assms by simp
  also have "b div 64 = 1 \<longleftrightarrow> 64 \<le> b \<and> b \<le> 127"
    using less_eq_div_iff_mult_less_eq [of 64 1 b] div_less_iff_less_mult [of 64 b 2] by auto
  finally show ?thesis .
qed

lemma in_loopback_range:
  assumes "a \<le> 255" "b \<le> 255" "c \<le> 255" "d \<le> 255"
  shows "inIpv4Cidr (dotted a b c d) ''127.0.0.0'' 8 \<longleftrightarrow> a = 127"
  unfolding range_texts by (rule in_range_8 [OF assms]) simp

lemma in_link_local_range:
  assumes "a \<le> 255" "b \<le> 255" "c \<le> 255" "d \<le> 255"
  shows "inIpv4Cidr (dotted a b c d) ''169.254.0.0'' 16 \<longleftrightarrow> a = 169 \<and> b = 254"
  unfolding range_texts by (rule in_range_16 [OF assms]) simp_all

lemma in_private_ranges:
  assumes "a \<le> 255" "b \<le> 255" "c \<le> 255" "d \<le> 255"
  shows "privateRanges (dotted a b c d) \<longleftrightarrow>
    a = 10 \<or> a = 172 \<and> 16 \<le> b \<and> b \<le> 31 \<or> a = 192 \<and> b = 168 \<or> a = 100 \<and> 64 \<le> b \<and> b \<le> 127"
  unfolding privateRanges_def range_texts
  using in_range_8 [OF assms, of 10] in_range_12 [OF assms] in_range_16 [OF assms, of 192 168] in_range_10 [OF assms] by simp

section \<open>The mapped form\<close>

lemma dotted_starts:
  obtains e s where "dotted a b c d = digit_char e # s" "e < 10" "CHR '':'' \<notin> set s"
proof -
  obtain x s where xs: "nat_string a = x # s" by (cases "nat_string a") auto
  then have "x \<in> set (nat_string a)" by simp
  then obtain e where "e < 10" "x = digit_char e" using nat_string_digits by blast
  with xs that [of e "s @ ''.'' @ nat_string b @ ''.'' @ nat_string c @ ''.'' @ nat_string d"] show thesis
    using colon_not_in_dotted [of a b c d] by (auto simp: dotted_def)
qed

lemma split_colons_free: "CHR '':'' \<notin> set s \<Longrightarrow> split_colons s = [s]"
  by (induction s rule: split_colons.induct) auto

definition mapped :: "nat \<Rightarrow> nat \<Rightarrow> nat \<Rightarrow> nat \<Rightarrow> string" where
  "mapped a b c d = ''::ffff:'' @ dotted a b c d"

lemma split_colons_mapped: "split_colons (mapped a b c d) = [[], ''ffff:'' @ dotted a b c d]"
proof -
  obtain e s where e: "dotted a b c d = digit_char e # s" "e < 10" "CHR '':'' \<notin> set s" by (rule dotted_starts)
  have "digit_char e \<noteq> CHR '':''" using e(2) by (rule digit_char_other) simp
  then have "split_colons (digit_char e # s) = [digit_char e # s]" using e(3) by (intro split_colons_free) auto
  with e(2) \<open>digit_char e \<noteq> CHR '':''\<close> show ?thesis by (simp add: mapped_def e(1))
qed

lemma groups_of_mapped: "groups_of (''ffff:'' @ dotted a b c d) = [''ffff'', dotted a b c d]"
proof -
  have "split_on CHR '':'' (''ffff'' @ CHR '':'' # dotted a b c d) = ''ffff'' # [dotted a b c d]"
    by (subst split_on_append) (simp_all add: split_on_free)
  moreover have "dotted a b c d \<noteq> []" by (simp add: dotted_def)
  ultimately show ?thesis by (simp add: groups_of_def)
qed

lemma parseIpv4_dotted:
  assumes "a \<le> 255" "b \<le> 255" "c \<le> 255" "d \<le> 255"
  shows "parseIpv4Bytes (dotted a b c d) = Some [a, b, c, d]"
  using assms by (simp add: parseIpv4Bytes_def isIpv4Literal_dotted split_dotted)

lemma toLowerCase_mapped [simp]: "toLowerCase (mapped a b c d) = mapped a b c d"
proof -
  have "toLowerCase ''::ffff:'' = ''::ffff:''" by code_simp
  then show ?thesis by (simp add: mapped_def toLowerCase_append del: append.simps)
qed

lemma hextets_ffff: "parseHextets [''ffff''] = Some [65535]"
  by (simp add: parseHextet_def hextet_digit_def)

lemma parseIpv6_mapped:
  assumes "a \<le> 255" "b \<le> 255" "c \<le> 255" "d \<le> 255"
  shows "parseIpv6ToBytes (mapped a b c d) = Some [0, 0, 0, 0, 0, 0, 0, 0, 0, 0, 255, 255, a, b, c, d]"
proof -
  have dot: "CHR ''.'' \<in> set (dotted a b c d)" by (simp add: dotted_def)
  have t: "ipv4_tail (groups_of (''ffff:'' @ dotted a b c d)) = Some ([''ffff''], [a, b, c, d])"
    unfolding groups_of_mapped using dot by (simp add: ipv4_tail_def parseIpv4_dotted [OF assms])
  have c: "CHR '':'' \<in> set (mapped a b c d)" by (simp add: mapped_def)
  have "hextet_bytes ([] @ replicate (8 - 3) 0 @ [65535] @ ipv4_hextets [a, b, c, d])
      = [0, 0, 0, 0, 0, 0, 0, 0, 0, 0, 255, 255, a, b, c, d]"
  proof -
    have "replicate (8 - 3) (0 :: nat) = [0, 0, 0, 0, 0]" by code_simp
    then show ?thesis using assms by (simp add: hextet_bytes_def ipv4_hextets_def)
  qed
  then show ?thesis
    unfolding parseIpv6ToBytes_def Let_def toLowerCase_mapped split_colons_mapped
    using c by (simp only: list.case t option.case prod.case hextets_ffff if_False if_True not_True_eq_False)
      (simp add: groups_of_def ipv4_hextets_def)
qed

lemma mapped_bytes: "isIpv4MappedIpv6 [0, 0, 0, 0, 0, 0, 0, 0, 0, 0, 255, 255, a, b, c, d]"
  by (simp add: isIpv4MappedIpv6_def)

lemma from_mapped_bytes: "ipv4FromMapped [0, 0, 0, 0, 0, 0, 0, 0, 0, 0, 255, 255, a, b, c, d] = dotted a b c d"
  by (simp add: ipv4FromMapped_def)

lemma no_literal_mapped [simp]: "\<not> isIpv4Literal (mapped a b c d)"
  by (simp add: isIpv4Literal_def mapped_def)

lemma not_localhost: "dotted a b c d \<noteq> ''localhost''" "mapped a b c d \<noteq> ''localhost''"
proof -
  obtain e s where e: "dotted a b c d = digit_char e # s" "e < 10" by (rule dotted_starts)
  have "digit_char e \<noteq> CHR ''l''" using e(2) by (rule digit_char_other) simp
  then show "dotted a b c d \<noteq> ''localhost''" by (simp add: e(1))
qed (simp add: mapped_def)

section \<open>What a policy keeps out\<close>

text \<open>The internal addresses of version 4: loopback, link-local, private and the shared range.\<close>

definition private_v4 :: "nat \<Rightarrow> nat \<Rightarrow> bool" where
  "private_v4 a b \<longleftrightarrow> a = 10 \<or> a = 172 \<and> 16 \<le> b \<and> b \<le> 31 \<or> a = 192 \<and> b = 168 \<or> a = 100 \<and> 64 \<le> b \<and> b \<le> 127"

definition internal_v4 :: "nat \<Rightarrow> nat \<Rightarrow> bool" where
  "internal_v4 a b \<longleftrightarrow> a = 127 \<or> a = 169 \<and> b = 254 \<or> private_v4 a b"

lemma ranges_dotted:
  assumes "a \<le> 255" "b \<le> 255" "c \<le> 255" "d \<le> 255"
  shows "isLoopback (dotted a b c d) \<longleftrightarrow> a = 127"
    "isLinkLocal (dotted a b c d) \<longleftrightarrow> a = 169 \<and> b = 254"
    "isPrivateIp (dotted a b c d) \<longleftrightarrow> private_v4 a b"
  using assms in_loopback_range [OF assms] in_link_local_range [OF assms] in_private_ranges [OF assms]
  by (simp_all add: isLoopback_def isLinkLocal_def isPrivateIp_def private_v4_def Let_def isIpv4Literal_dotted not_localhost)

lemma ranges_mapped:
  assumes "a \<le> 255" "b \<le> 255" "c \<le> 255" "d \<le> 255"
  shows "isLoopback (mapped a b c d) \<longleftrightarrow> a = 127"
    "isLinkLocal (mapped a b c d) \<longleftrightarrow> a = 169 \<and> b = 254"
    "isPrivateIp (mapped a b c d) \<longleftrightarrow> private_v4 a b"
  using in_loopback_range [OF assms] in_link_local_range [OF assms] in_private_ranges [OF assms]
  by (simp_all add: isLoopback_def isLinkLocal_def isPrivateIp_def private_v4_def Let_def not_localhost
    parseIpv6_mapped [OF assms] mapped_bytes from_mapped_bytes)

lemma range_error_internal:
  assumes "up_allowLoopback p = Some False" "up_allowLinkLocal p = Some False" "up_allowPrivateIps p = Some False"
    and "a \<le> 255" "b \<le> 255" "c \<le> 255" "d \<le> 255"
  shows "range_error p (dotted a b c d) = None \<longleftrightarrow> \<not> internal_v4 a b"
    "range_error p (mapped a b c d) = None \<longleftrightarrow> \<not> internal_v4 a b"
  using assms(1-3) ranges_dotted [OF assms(4-7)] ranges_mapped [OF assms(4-7)]
  by (auto simp: range_error_def or_else_def internal_v4_def)

text \<open>The addresses that a connection to a host may use.\<close>

definition is_ip_literal :: "string \<Rightarrow> bool" where
  "is_ip_literal host \<longleftrightarrow> isIpv4Literal host \<or> parseIpv6ToBytes host \<noteq> None"

definition endpoints :: "(string \<Rightarrow> string list option) \<Rightarrow> string \<Rightarrow> string list" where
  "endpoints look_up host =
     (if is_ip_literal host then [host] else case look_up host of Some l \<Rightarrow> map normalizeHostname l | None \<Rightarrow> [])"

lemma accepted_host:
  assumes "parseAndValidateOutboundUrl parse p raw = Inr u"
  shows "range_error p (normalizeHostname (pu_hostname u)) = None"
    "\<not> hits (deniedHosts p) (normalizeHostname (pu_hostname u))"
  using assms unfolding parseAndValidateOutboundUrl_def Let_def
  by (auto split: if_splits option.splits)

lemma checked_addresses:
  "check_addresses p as = None \<Longrightarrow> x \<in> normalizeHostname ` set as \<Longrightarrow> x \<noteq> []
    \<Longrightarrow> x \<notin> set (deniedHosts p) \<and> range_error p x = None"
  by (induction p as rule: check_addresses.induct) (auto simp: Let_def split: if_splits option.splits)

lemma accepted_endpoint:
  assumes a: "parseAndValidateOutboundUrlWithDns parse look_up p raw = Inr u"
    and r: "up_resolveDns p \<noteq> Some False" and l: "up_allowLoopback p = Some False"
    and x: "x \<in> set (endpoints look_up (normalizeHostname (pu_hostname u)))" "x \<noteq> []"
  shows "x \<notin> set (deniedHosts p) \<and> range_error p x = None"
proof -
  let ?h = "normalizeHostname (pu_hostname u)"
  from a have p: "parseAndValidateOutboundUrl parse p raw = Inr u"
    by (auto simp: parseAndValidateOutboundUrlWithDns_def Let_def split: sum.splits if_splits option.splits list.splits)
  note h = accepted_host [OF p]
  have "?h \<noteq> ''localhost''"
    using h(1) l by (auto simp: range_error_def or_else_def isLoopback_def toLowerCase_def lower_char_def Let_def)
  show ?thesis
  proof (cases "is_ip_literal ?h")
    case True
    with x(1) h show ?thesis by (simp add: endpoints_def hits_def)
  next
    case False
    with x(1) obtain as where as: "look_up ?h = Some as" "x \<in> normalizeHostname ` set as"
      by (cases "look_up ?h") (auto simp: endpoints_def)
    with a p r False \<open>?h \<noteq> ''localhost''\<close> have "check_addresses p as = None"
      by (auto simp: parseAndValidateOutboundUrlWithDns_def Let_def is_ip_literal_def split: list.splits option.splits if_splits)
    then show ?thesis by (rule checked_addresses [OF _ as(2) x(2)])
  qed
qed

section \<open>Properties\<close>

text \<open>
  C12. The ranges are exact on every address of version 4, written plainly or as the mapped address of version 6:
  the loopback check holds of \<open>127/8\<close> and the link-local check of \<open>169.254/16\<close>, and the private check of
  \<open>10/8\<close>, \<open>172.16/12\<close>, \<open>192.168/16\<close> and \<open>100.64/10\<close>, nothing more and nothing less, through the parser, the words
  of 32 bits and the masks.
\<close>

theorem ranges_exact:
  assumes "a \<le> 255" "b \<le> 255" "c \<le> 255" "d \<le> 255" and s: "s = dotted a b c d \<or> s = mapped a b c d"
  shows "(isLoopback s \<longleftrightarrow> a = 127) \<and> (isLinkLocal s \<longleftrightarrow> a = 169 \<and> b = 254) \<and>
    (isPrivateIp s \<longleftrightarrow> a = 10 \<or> a = 172 \<and> 16 \<le> b \<and> b \<le> 31 \<or> a = 192 \<and> b = 168 \<or> a = 100 \<and> 64 \<le> b \<and> b \<le> 127)"
  using s ranges_dotted [OF assms(1-4)] ranges_mapped [OF assms(1-4)] unfolding private_v4_def by auto

theorem ranges_exact_witness:
  "isPrivateIp (mapped 172 31 255 255) \<and> \<not> isPrivateIp (dotted 172 32 0 0)"
  using ranges_exact [of 172 31 255 255 "mapped 172 31 255 255"] ranges_exact [of 172 32 0 0 "dotted 172 32 0 0"] by simp


definition sample_url :: parsed_url where
  "sample_url = \<lparr>pu_protocol = ''https:'', pu_username = [], pu_password = [], pu_hostname = ''api.example''\<rparr>"

lemma sample_host: "normalizeHostname ''api.example'' = ''api.example''" "\<not> is_ip_literal ''api.example''"
  by code_simp+

lemma default_denied_set: "uniqNormalizedHosts default_denied_hosts = default_denied_hosts"
  by code_simp

lemma sample_first: "parseAndValidateOutboundUrl (\<lambda>_. Some sample_url) DEFAULT_PUBLIC_HTTP_URL_POLICY ''https://api.example'' = Inr sample_url"
  by code_simp

lemma public_policy:
  "up_resolveDns DEFAULT_PUBLIC_HTTP_URL_POLICY = None" "up_allowLoopback DEFAULT_PUBLIC_HTTP_URL_POLICY = Some False"
  "up_allowLinkLocal DEFAULT_PUBLIC_HTTP_URL_POLICY = Some False" "up_allowPrivateIps DEFAULT_PUBLIC_HTTP_URL_POLICY = Some False"
  by (simp_all add: DEFAULT_PUBLIC_HTTP_URL_POLICY_def)

lemma public_denied: "deniedHosts DEFAULT_PUBLIC_HTTP_URL_POLICY = default_denied_hosts"
  by code_simp

lemma sample_second:
  "parseAndValidateOutboundUrlWithDns (\<lambda>_. Some sample_url) (\<lambda>_. Some [a]) DEFAULT_PUBLIC_HTTP_URL_POLICY ''https://api.example''
     = (case check_addresses DEFAULT_PUBLIC_HTTP_URL_POLICY [a] of Some e \<Rightarrow> Inl e | None \<Rightarrow> Inr sample_url)"
proof -
  have "pu_hostname sample_url = ''api.example''" by (simp add: sample_url_def)
  with sample_host show ?thesis
    by (simp add: parseAndValidateOutboundUrlWithDns_def sample_first is_ip_literal_def public_policy del: check_addresses.simps)
qed

lemma normalize_samples:
  "normalizeHostname (dotted 8 8 8 8) = dotted 8 8 8 8" "normalizeHostname (dotted 0 0 0 0) = dotted 0 0 0 0"
  "normalizeHostname (mapped 0 0 0 0) = mapped 0 0 0 0"
  by code_simp+

lemma denied_samples:
  "dotted 8 8 8 8 \<notin> set default_denied_hosts" "dotted 0 0 0 0 \<in> set default_denied_hosts"
  "mapped 0 0 0 0 \<notin> set default_denied_hosts"
  by code_simp+

lemma not_internal_samples: "\<not> internal_v4 8 8" "\<not> internal_v4 0 0"
  by (simp_all add: internal_v4_def private_v4_def)

lemma texts_nonempty: "dotted a b c d \<noteq> []" "mapped a b c d \<noteq> []"
  by (simp_all add: dotted_def mapped_def)

lemma check_public: "check_addresses DEFAULT_PUBLIC_HTTP_URL_POLICY [dotted 8 8 8 8] = None"
  using range_error_internal(1) [of DEFAULT_PUBLIC_HTTP_URL_POLICY 8 8 8 8] denied_samples not_internal_samples
  by (auto simp: public_policy public_denied normalize_samples Let_def texts_nonempty split: option.splits)

lemma check_null:
  "check_addresses DEFAULT_PUBLIC_HTTP_URL_POLICY [dotted 0 0 0 0] = Some Url_denied"
  "check_addresses DEFAULT_PUBLIC_HTTP_URL_POLICY [mapped 0 0 0 0] = None"
  using range_error_internal(2) [of DEFAULT_PUBLIC_HTTP_URL_POLICY 0 0 0 0] denied_samples not_internal_samples
  by (auto simp: public_policy public_denied normalize_samples Let_def texts_nonempty split: option.splits)

lemma hextets_null: "parseHextets [''ffff'', ''0'', ''0''] = Some [65535, 0, 0]"
  by (simp add: parseHextet_def hextet_digit_def)

lemma split_null: "CHR '':'' \<in> set ''::ffff:0:0'' \<and> split_colons ''::ffff:0:0'' = [[], ''ffff:0:0'']
    \<and> groups_of ''ffff:0:0'' = [''ffff'', ''0'', ''0'']"
  by code_simp

lemma lower_null: "toLowerCase ''::ffff:0:0'' = ''::ffff:0:0''"
  by code_simp

lemma parse_null: "parseIpv6ToBytes ''::ffff:0:0'' = Some [0, 0, 0, 0, 0, 0, 0, 0, 0, 0, 255, 255, 0, 0, 0, 0]"
proof -
  have "replicate (8 - 3) (0 :: nat) = [0, 0, 0, 0, 0]" by code_simp
  then have "hextet_bytes ([] @ replicate (8 - 3) 0 @ [65535, 0, 0] @ []) = [0, 0, 0, 0, 0, 0, 0, 0, 0, 0, 255, 255, 0, 0, 0, 0]"
    by (simp add: hextet_bytes_def)
  moreover have "ipv4_tail [''ffff'', ''0'', ''0''] = Some ([''ffff'', ''0'', ''0''], [])"
    by (simp add: ipv4_tail_def)
  ultimately show ?thesis
    unfolding parseIpv6ToBytes_def Let_def lower_null using split_null
    by (simp only: list.case option.case prod.case hextets_null if_False if_True not_True_eq_False)
      (simp add: groups_of_def ipv4_hextets_def)
qed

lemma literal_null: "hits (deniedHosts DEFAULT_PUBLIC_HTTP_URL_POLICY) ''::ffff:0:0''"
  using denied_samples(2) by (simp add: hits_def public_denied mappedV4_def parse_null mapped_bytes from_mapped_bytes)


text \<open>
  The denylist and the mapped form: an address that is on the denylist of the public policy and in none of the
  ranges, \<open>0.0.0.0\<close>, is refused as the answer of a look-up, and its mapped form is refused as a literal host,
  \<open>[::ffff:0:0]\<close>, because the derived address is compared too. As the answer of a look-up the mapped form passes:
  there only the text is compared.
\<close>

theorem mapped_answer_passes:
  "parseAndValidateOutboundUrlWithDns (\<lambda>_. Some sample_url) (\<lambda>_. Some [dotted 0 0 0 0]) DEFAULT_PUBLIC_HTTP_URL_POLICY
      ''https://api.example'' = Inl Url_denied
   \<and> hits (deniedHosts DEFAULT_PUBLIC_HTTP_URL_POLICY) ''::ffff:0:0''
   \<and> parseIpv6ToBytes ''::ffff:0:0'' = parseIpv6ToBytes (mapped 0 0 0 0)
   \<and> parseAndValidateOutboundUrlWithDns (\<lambda>_. Some sample_url) (\<lambda>_. Some [mapped 0 0 0 0]) DEFAULT_PUBLIC_HTTP_URL_POLICY
      ''https://api.example'' = Inr sample_url"
  by (simp only: sample_second check_null option.case literal_null parse_null) (simp add: parseIpv6_mapped)

end
