(* ===== verification/KeeperChecks.thy ===== *)
theory KeeperChecks
  imports Prelude
begin

text \<open>
  Two pure checks of the keeper: the payout bound of its account
  (\<open>src/keeper/src/shared/payout_bound.ts\<close>) and the rolling majority over the tier header of its RPC
  proxy (\<open>tier_observer.ts\<close>).
\<close>

section \<open>Payout bound\<close>

text \<open>The failures by the reason that the message states.\<close>

datatype payout_failure =
  NegativeCost
| ReceivedWei int       \<comment> \<open>the positive delta\<close>
| ExcessOutflow int     \<comment> \<open>the outflow beyond the cost\<close>
| PartialRebate int     \<comment> \<open>what came back of the cost\<close>

datatype payout_check =
  Ok
| NotOk payout_failure int int  \<comment> \<open>reason, balanceDeltaWei, totalCostWei\<close>

definition assertKeeperEoaPayoutBound :: "int \<Rightarrow> int \<Rightarrow> int \<Rightarrow> payout_check" where
  "assertKeeperEoaPayoutBound balanceBeforeWei balanceAfterWei totalCostWei =
     (if totalCostWei < 0
      then NotOk NegativeCost (balanceAfterWei - balanceBeforeWei) totalCostWei
      else let balanceDeltaWei = balanceAfterWei - balanceBeforeWei in
           if balanceDeltaWei = - totalCostWei then Ok
           else if balanceDeltaWei > 0
           then NotOk (ReceivedWei balanceDeltaWei) balanceDeltaWei totalCostWei
           else let outflowWei = - balanceDeltaWei in
                if outflowWei > totalCostWei
                then NotOk (ExcessOutflow (outflowWei - totalCostWei)) balanceDeltaWei totalCostWei
                else NotOk (PartialRebate (totalCostWei - outflowWei)) balanceDeltaWei totalCostWei)"

text \<open>
  The check passes exactly when the cost is not negative and the account ended with what it had
  minus the cost. A failure reports the wei by which the account missed that, in the right
  direction: received or rebated wei when it holds more than it should, the excess when less.
\<close>

theorem payout_check_exact:
  "assertKeeperEoaPayoutBound before after cost =
     (let missed = after - (before - cost); delta = after - before in
      if cost < 0 then NotOk NegativeCost delta cost
      else if missed = 0 then Ok
      else if missed < 0 then NotOk (ExcessOutflow (- missed)) delta cost
      else if delta > 0 then NotOk (ReceivedWei (missed - cost)) delta cost
      else NotOk (PartialRebate missed) delta cost)"
  by (auto simp: assertKeeperEoaPayoutBound_def Let_def)

section \<open>Tier observer\<close>

datatype tier = Primary | Fallback | Unknown

datatype sample = SPrimary | SFallback

definition coerceSample :: "string option \<Rightarrow> sample option" where
  "coerceSample raw =
     (case raw of
        None \<Rightarrow> None
      | Some r \<Rightarrow>
          let v = toLowerCase (js_trim r) in
          if v = ''primary'' then Some SPrimary
          else if v = ''fallback'' then Some SFallback
          else None)"

record observer =
  ob_windowSize :: nat
  ob_window :: "sample option list"

text \<open>The constructor throws on a window size that is not a positive integer.\<close>

definition createTierObserver :: "nat \<Rightarrow> observer option" where
  "createTierObserver windowSize =
     (if windowSize \<le> 0 then None else Some \<lparr>ob_windowSize = windowSize, ob_window = []\<rparr>)"

definition recordTier :: "string option \<Rightarrow> observer \<Rightarrow> observer" where
  "recordTier raw o1 =
     (let window = ob_window o1 @ [coerceSample raw];
          window = (if length window > ob_windowSize o1 then tl window else window)
      in o1\<lparr>ob_window := window\<rparr>)"

fun countTiers :: "sample option list \<Rightarrow> nat \<times> nat \<Rightarrow> nat \<times> nat" where
  "countTiers [] acc = acc"
| "countTiers (s # ss) (primary, fallback) =
     (if s = Some SPrimary then countTiers ss (primary + 1, fallback)
      else if s = Some SFallback then countTiers ss (primary, fallback + 1)
      else countTiers ss (primary, fallback))"

definition currentTier :: "observer \<Rightarrow> tier" where
  "currentTier o1 =
     (let window = ob_window o1 in
      if length window = 0 then Unknown
      else let (primary, fallback) = countTiers window (0, 0) in
           if primary + fallback < (length window + 1) div 2 then Unknown
           else if fallback > primary then Fallback else Primary)"

definition reset_observer :: "observer \<Rightarrow> observer" where
  "reset_observer o1 = o1\<lparr>ob_window := []\<rparr>"

fun recordAll :: "string option list \<Rightarrow> observer \<Rightarrow> observer" where
  "recordAll [] o1 = o1"
| "recordAll (r # rs) o1 = recordAll rs (recordTier r o1)"

lemma countTiers_eq:
  "countTiers ss (p, f) = (p + count_list ss (Some SPrimary), f + count_list ss (Some SFallback))"
  by (induction ss arbitrary: p f) auto

text \<open>The window is the last samples, oldest first.\<close>

definition last_n :: "nat \<Rightarrow> 'a list \<Rightarrow> 'a list" where
  "last_n n xs = drop (length xs - n) xs"

lemma recordTier_window:
  assumes "length (ob_window o1) \<le> ob_windowSize o1" and "0 < ob_windowSize o1"
  shows "ob_window (recordTier raw o1) = last_n (ob_windowSize o1) (ob_window o1 @ [coerceSample raw])"
proof (cases "length (ob_window o1) = ob_windowSize o1")
  case True
  then obtain x xs where "ob_window o1 = x # xs" using assms(2) by (cases "ob_window o1") auto
  moreover from this True have "Suc (Suc (length xs)) - ob_windowSize o1 = Suc 0" by simp
  ultimately show ?thesis using True by (simp add: recordTier_def last_n_def)
qed (use assms(1) in \<open>simp add: recordTier_def last_n_def\<close>)

lemma last_n_rev: "last_n n xs = rev (take n (rev xs))"
  by (simp add: last_n_def rev_take)

lemma last_n_append: "last_n n (last_n n xs @ ys) = last_n n (xs @ ys)"
  by (simp add: last_n_rev min_def)

lemma recordTier_size [simp]: "ob_windowSize (recordTier raw o1) = ob_windowSize o1"
  by (simp add: recordTier_def Let_def)

lemma length_last_n [simp]: "length (last_n n xs) \<le> n"
  by (simp add: last_n_def)

lemma recordAll_window:
  assumes "length (ob_window o1) \<le> ob_windowSize o1" and "0 < ob_windowSize o1"
  shows "ob_window (recordAll rs o1) = last_n (ob_windowSize o1) (ob_window o1 @ map coerceSample rs)"
  using assms
proof (induction rs arbitrary: o1)
  case Nil
  then show ?case by (simp add: last_n_def)
next
  case (Cons r rs)
  let ?n = "ob_windowSize o1" and ?w = "ob_window o1"
  have w: "ob_window (recordTier r o1) = last_n ?n (?w @ [coerceSample r])"
    by (rule recordTier_window [OF Cons.prems])
  have "ob_window (recordAll (r # rs) o1)
      = last_n ?n (last_n ?n (?w @ [coerceSample r]) @ map coerceSample rs)"
    using Cons.IH [of "recordTier r o1"] Cons.prems w by simp
  also have "\<dots> = last_n ?n ((?w @ [coerceSample r]) @ map coerceSample rs)"
    by (rule last_n_append)
  finally show ?case by simp
qed

text \<open>
  From a fresh observer of size \<open>n\<close>, after any samples: the window is the last \<open>n\<close> samples; the
  tier is \<open>Fallback\<close> exactly when at least half of the window carries a known tier and fallbacks
  outnumber primaries, \<open>Unknown\<close> when the window is empty or fewer than half are known, and
  \<open>Primary\<close> otherwise, ties included.
\<close>

theorem observer_majority:
  assumes new: "createTierObserver n = Some o1"
  shows "ob_window (recordAll rs o1) = last_n n (map coerceSample rs)
    \<and> currentTier (recordAll rs o1) =
        (let w = last_n n (map coerceSample rs);
             p = count_list w (Some SPrimary); f = count_list w (Some SFallback)
         in if w = [] \<or> 2 * (p + f) < length w then Unknown
            else if p < f then Fallback else Primary)"
proof -
  have o1: "o1 = \<lparr>ob_windowSize = n, ob_window = []\<rparr>" and n: "0 < n"
    using new by (auto simp: createTierObserver_def split: if_splits)
  have w: "ob_window (recordAll rs o1) = last_n n (map coerceSample rs)"
    using recordAll_window [of o1 rs] n by (simp add: o1)
  then show ?thesis by (auto simp: currentTier_def Let_def countTiers_eq)
qed

lemma observer_majority_witness:
  "\<exists>o1. createTierObserver 3 = Some o1
     \<and> currentTier (recordAll [Some ''primary'', Some ''fallback'', None, Some ''fallback''] o1) = Fallback"
proof -
  let ?o = "\<lparr>ob_windowSize = 3, ob_window = []\<rparr>"
  have new: "createTierObserver 3 = Some ?o" by (simp add: createTierObserver_def)
  then show ?thesis
    using observer_majority [OF new, of "[Some ''primary'', Some ''fallback'', None, Some ''fallback'']"]
    by (simp add: last_n_def coerceSample_def js_trim_def toLowerCase_def lower_char_def is_space_def)
qed

end
