(* ===== verification/RpcLogs.thy ===== *)
theory RpcLogs
  imports CircuitBreaker "HOL-Library.Product_Lexorder"
begin

text \<open>
  The keeper's log scan (\<open>src/keeper/src/shared/rpc_logs.ts\<close>): the classification of provider errors, the
  retries under throttling, and the bisection of a block range until the provider answers.

  \<^item> The provider is an argument: its answer to the \<open>n\<close>-th call for a range, which may fail, and may differ
    from call to call. \<open>BigInt\<close> of a string and the answer to a request without a block range are
    arguments too. Waiting and logging are dropped.
  \<^item> A thrown value is null, a string, or an object with the fields the code reads; \<open>String(e)\<close> of the
    object is a field. Fields that hold something other than a text are absent.
\<close>

section \<open>Provider errors\<close>

datatype js_code = Code_integer int | Code_other

datatype js_error =
  Thrown_null
| Thrown_text string
| Thrown (err_shortMessage: "string option") (err_message: "string option") (err_details: "string option")
    (err_responseBody: "string option") (err_body: "string option") (err_reason: "string option")
    (err_code: "js_code option") (err_data_code: "js_code option") (err_string: string) (err_cause: js_error)

definition fmtErr :: "js_error \<Rightarrow> string" where
  "fmtErr e = (case e of
     Thrown_null \<Rightarrow> ''null''
   | Thrown_text s \<Rightarrow> s
   | Thrown short msg det resp body reas code dcode str cause \<Rightarrow>
       (case short of Some s \<Rightarrow> s | None \<Rightarrow> (case msg of Some s \<Rightarrow> s | None \<Rightarrow> str)))"

fun join_bar :: "string list \<Rightarrow> string" where
  "join_bar [] = ''''"
| "join_bar [s] = s"
| "join_bar (s # t # ss) = s @ '' | '' @ join_bar (t # ss)"

definition texts :: "string option list \<Rightarrow> string list" where
  "texts fs = concat (map (\<lambda>f. case f of None \<Rightarrow> [] | Some s \<Rightarrow> if s = [] then [] else [s]) fs)"

fun allErrorText :: "js_error \<Rightarrow> nat \<Rightarrow> string" where
  "allErrorText Thrown_null depth = ''''"
| "allErrorText (Thrown_text s) depth = (if depth > 4 then '''' else s)"
| "allErrorText (Thrown short msg det resp body reas code dcode str cause) depth =
     (if depth > 4 then ''''
      else join_bar (texts [short, msg, det, resp, body, reas]
        @ (if cause = Thrown_null \<or> cause = Thrown_text '''' then [] else [allErrorText cause (Suc depth)])))"

definition isRateLimitMessage :: "string \<Rightarrow> bool" where
  "isRateLimitMessage msg =
     (let m = toLowerCase msg in
      js_includes m ''rate limit'' \<or> js_includes m ''too many requests'' \<or> js_includes m ''http 429''
      \<or> js_includes m ''status code 429'')"

definition extractJsonRpcErrorCode :: "js_error \<Rightarrow> int option" where
  "extractJsonRpcErrorCode e = (case e of
     Thrown short msg det resp body reas code dcode str cause \<Rightarrow>
       (let own = (case cause of Thrown _ _ _ _ _ _ c _ _ _ \<Rightarrow> c | _ \<Rightarrow> None)
        in case (case code of Some c \<Rightarrow> Some c | None \<Rightarrow> (case own of Some c \<Rightarrow> Some c | None \<Rightarrow> dcode)) of
             Some (Code_integer i) \<Rightarrow> Some i
           | _ \<Rightarrow> None)
   | _ \<Rightarrow> None)"

definition shouldSplitGetLogsErrorMessage :: "string \<Rightarrow> bool" where
  "shouldSplitGetLogsErrorMessage msg =
     (let m = toLowerCase msg in
      if isRateLimitMessage m then False
      else if js_includes m ''query returned more than'' \<or> js_includes m ''more than 10000''
        \<or> js_includes m ''too many results'' \<or> js_includes m ''too many logs''
        \<or> js_includes m ''log response size exceeded'' \<or> js_includes m ''response size exceeded''
        \<or> js_includes m ''payload too large'' \<or> js_includes m ''request too large''
        \<or> (js_includes m ''block range''
             \<and> (js_includes m ''too large'' \<or> js_includes m ''too wide'' \<or> js_includes m ''exceed''))
        \<or> js_includes m ''exceeds max block range''
        \<or> (js_includes m ''eth_getlogs''
             \<and> (js_includes m ''limit'' \<or> js_includes m ''exceed'' \<or> js_includes m ''too large''))
      then True
      else if js_includes m ''upstream_http_400'' \<or> js_includes m ''upstream_http_413'' then True
      else if js_includes m ''up to a'' \<and> js_includes m ''block range'' then True
      else False)"

definition shouldSplitGetLogsError :: "js_error \<Rightarrow> bool" where
  "shouldSplitGetLogsError e =
     (let code = extractJsonRpcErrorCode e in
      if code = Some (- 32005) \<or> code = Some (- 32602)
      then \<not> isRateLimitMessage (toLowerCase (allErrorText e 0))
      else shouldSplitGetLogsErrorMessage (allErrorText e 0))"

section \<open>Numbers of a request and of a log\<close>

datatype rpc_value = V_big int | V_num int | V_float string | V_text string

definition is_hex_digit :: "char \<Rightarrow> bool" where
  "is_hex_digit c = (let n = of_char c :: nat in 48 \<le> n \<and> n \<le> 57 \<or> 65 \<le> n \<and> n \<le> 70 \<or> 97 \<le> n \<and> n \<le> 102)"

definition hexDigit :: "char \<Rightarrow> nat" where
  "hexDigit c = (let n = of_char c :: nat in if n \<le> 57 then n - 48 else if n \<le> 70 then n - 55 else n - 87)"

definition hexValue :: "string \<Rightarrow> nat" where
  "hexValue s = foldl (\<lambda>a c. 16 * a + hexDigit c) 0 s"

definition parseRpcLogIndex :: "rpc_value option \<Rightarrow> int option" where
  "parseRpcLogIndex v = (case v of
     Some (V_big i) \<Rightarrow> if i \<ge> 0 then Some i else None
   | Some (V_num i) \<Rightarrow> if i \<le> MAX_SAFE_INTEGER \<and> i \<ge> 0 then Some i else None
   | Some (V_float _) \<Rightarrow> None
   | Some (V_text t) \<Rightarrow>
       (let s = js_trim t in
        if s = [] then None
        else if is_numeral_text s then Some (int (string_nat s))
        else if take 2 s = ''0x'' \<and> drop 2 s \<noteq> [] \<and> list_all is_hex_digit (drop 2 s)
        then Some (int (hexValue (drop 2 s)))
        else None)
   | None \<Rightarrow> None)"

definition computeBackoffMs :: "int \<Rightarrow> int \<Rightarrow> int \<Rightarrow> int" where
  "computeBackoffMs attempt baseMs maxMs =
     (let a = the (parseNonNegativeSafeInteger (JNum attempt) (Some 0));
          base = the (parsePositiveSafeInteger (JNum baseMs) (Some 1));
          mx = max base (the (parsePositiveSafeInteger (JNum maxMs) (Some base)))
      in min mx (base * 2 ^ nat a))"

section \<open>One range, with retries\<close>

text \<open>A log as the client decodes it: block number, log index, transaction hash, and the rest.\<close>

record scan_log =
  rl_blockNumber :: "int option"
  rl_logIndex :: "rpc_value option"
  rl_transactionHash :: "string option"
  rl_rest :: string

type_synonym provider = "nat \<Rightarrow> int \<Rightarrow> int \<Rightarrow> js_error + scan_log list"

definition error_text :: "js_error \<Rightarrow> string" where
  "error_text e = (if allErrorText e 0 = '''' then fmtErr e else allErrorText e 0)"

text \<open>The second component of the result is the number of calls made so far.\<close>

function getLogsRange :: "provider \<Rightarrow> int \<Rightarrow> nat \<Rightarrow> int \<Rightarrow> int \<Rightarrow> int \<Rightarrow> (js_error + scan_log list) \<times> nat" where
  "getLogsRange ask rlRetries calls from to attempt =
     (case ask calls from to of
        Inr logs \<Rightarrow> (Inr logs, Suc calls)
      | Inl e \<Rightarrow>
          if isRateLimitMessage (error_text e) \<and> attempt < rlRetries
          then getLogsRange ask rlRetries (Suc calls) from to (attempt + 1)
          else (Inl e, Suc calls))"
  by pat_completeness auto
termination by (relation "measure (\<lambda>(ask, r, calls, from, to, attempt). nat (r - attempt))") auto

declare getLogsRange.simps [simp del]

section \<open>The bisection\<close>

datatype scan_error =
  Split_budget_exceeded int int js_error
| Single_block_failed int js_error
| Range_failed js_error

definition range_size :: "int \<times> int \<Rightarrow> nat" where
  "range_size r = max 1 (2 * nat (snd r - fst r + 1) - 1)"

lemma range_size_pos [simp]: "0 < range_size r"
  by (simp add: range_size_def)

lemma range_size_split:
  assumes "f < t" and "m = f + (t - f) div 2"
  shows "range_size (f, m) + range_size (m + 1, t) < range_size (f, t)"
proof -
  define a b n where "a = nat (m - f + 1)" and "b = nat (t - m)" and "n = nat (t - f + 1)"
  have "f \<le> m" "m < t" using assms by auto
  then have "a + b = n" "1 \<le> a" "1 \<le> b" by (auto simp: a_def b_def n_def)
  moreover have "nat (t - (m + 1) + 1) = b" by (simp add: b_def)
  ultimately show ?thesis by (simp add: range_size_def a_def [symmetric] n_def [symmetric])
qed

text \<open>The stack is a list with its top first. The result carries the splits and the calls made.\<close>

function splitLoop ::
  "provider \<Rightarrow> int \<Rightarrow> int \<Rightarrow> (int \<times> int) list \<Rightarrow> nat \<Rightarrow> int \<Rightarrow> scan_log list \<Rightarrow> (scan_error + scan_log list) \<times> int \<times> nat" where
  "splitLoop ask rlRetries maxSplits [] calls splits out = (Inr out, splits, calls)"
| "splitLoop ask rlRetries maxSplits ((from, to) # stack) calls splits out =
     (case getLogsRange ask rlRetries calls from to 0 of
        (Inr logs, calls) \<Rightarrow> splitLoop ask rlRetries maxSplits stack calls splits (out @ logs)
      | (Inl e, calls) \<Rightarrow>
          if from < to \<and> shouldSplitGetLogsError e
          then (let splits = splits + 1 in
                if splits > maxSplits then (Inl (Split_budget_exceeded from to e), splits, calls)
                else let mid = from + (to - from) div 2 in
                  if mid = from \<or> mid = to then (Inl (Single_block_failed from e), splits, calls)
                  else splitLoop ask rlRetries maxSplits ((from, mid) # (mid + 1, to) # stack) calls splits out)
          else (Inl (Range_failed e), splits, calls))"
  by pat_completeness auto
termination
  by (relation "measure (\<lambda>(ask, r, m, stack, calls, splits, out). sum_list (map range_size stack))")
    (auto intro: range_size_split)

declare splitLoop.simps(2) [simp del]

section \<open>The whole scan\<close>

definition log_order :: "scan_log \<Rightarrow> int \<times> int" where
  "log_order l = (case rl_blockNumber l of None \<Rightarrow> 0 | Some b \<Rightarrow> b,
                  case parseRpcLogIndex (rl_logIndex l) of None \<Rightarrow> 0 | Some i \<Rightarrow> i)"

definition value_string :: "rpc_value option \<Rightarrow> string" where
  "value_string v = (case v of None \<Rightarrow> '''' | Some (V_big i) \<Rightarrow> int_string i | Some (V_num i) \<Rightarrow> int_string i
     | Some (V_float s) \<Rightarrow> s | Some (V_text s) \<Rightarrow> s)"

definition log_key :: "scan_log \<Rightarrow> string" where
  "log_key l = (case rl_blockNumber l of None \<Rightarrow> '''' | Some b \<Rightarrow> int_string b) @ '':''
     @ value_string (rl_logIndex l) @ '':''
     @ (case rl_transactionHash l of None \<Rightarrow> '''' | Some h \<Rightarrow> h)"

fun dedupLoop :: "string set \<Rightarrow> scan_log list \<Rightarrow> scan_log list" where
  "dedupLoop seen [] = []"
| "dedupLoop seen (l # ls) =
     (if log_key l \<in> seen then dedupLoop seen ls else l # dedupLoop (insert (log_key l) seen) ls)"

definition to_bigint :: "(string \<Rightarrow> int option) \<Rightarrow> rpc_value \<Rightarrow> int option" where
  "to_bigint parse v = (case v of V_big i \<Rightarrow> Some i | V_num i \<Rightarrow> Some i | V_float _ \<Rightarrow> None | V_text s \<Rightarrow> parse s)"

text \<open>The block range of a request, and what the provider answers to it as it is.\<close>

record log_request =
  rq_fromBlock :: "rpc_value option"
  rq_toBlock :: "rpc_value option"
  rq_answer :: "js_error + scan_log list"

record split_options =
  so_maxSplits :: int
  so_rateLimitRetries :: int

definition scan_range :: "provider \<Rightarrow> split_options \<Rightarrow> int \<Rightarrow> int \<Rightarrow> (scan_error + scan_log list) \<times> nat" where
  "scan_range ask opts from0 to0 =
     (let rlRetries = the (parseNonNegativeSafeInteger (JNum (so_rateLimitRetries opts)) (Some 0))
      in case splitLoop ask rlRetries (so_maxSplits opts) [(from0, to0)] 0 0 [] of
           (Inl e, splits, calls) \<Rightarrow> (Inl e, calls)
         | (Inr out, splits, calls) \<Rightarrow>
             (let out = (if splits > 0 \<and> 1 < length out then sort_key log_order out else out);
                  out = (if 1 < length out then dedupLoop {} out else out)
              in (Inr out, calls)))"

definition getLogsWithAutoSplit ::
  "(string \<Rightarrow> int option) \<Rightarrow> provider \<Rightarrow> split_options \<Rightarrow> log_request option \<Rightarrow> scan_error + scan_log list" where
  "getLogsWithAutoSplit parse ask opts request =
     (case request of
        None \<Rightarrow> Inr []
      | Some r \<Rightarrow>
          (let plain = (case rq_answer r of Inl e \<Rightarrow> Inl (Range_failed e) | Inr ls \<Rightarrow> Inr ls)
           in case (rq_fromBlock r, rq_toBlock r) of
                (Some f, Some t) \<Rightarrow>
                  (case (to_bigint parse f, to_bigint parse t) of
                     (Some from0, Some to0) \<Rightarrow> fst (scan_range ask opts from0 to0)
                   | _ \<Rightarrow> plain)
              | _ \<Rightarrow> plain))"

section \<open>How many calls\<close>

lemma getLogsRange_calls:
  "snd (getLogsRange ask r calls f t attempt) \<le> calls + nat (r - attempt) + 1"
proof (induction ask r calls f t attempt rule: getLogsRange.induct)
  case (1 ask r calls f t attempt)
  show ?case
  proof (cases "ask calls f t")
    case (Inl e)
    show ?thesis
    proof (cases "isRateLimitMessage (error_text e) \<and> attempt < r")
      case True
      then have "nat (r - attempt) = Suc (nat (r - (attempt + 1)))" by auto
      then show ?thesis using "1.IH" [OF Inl] True Inl by (subst getLogsRange.simps) simp
    next
      case False
      then show ?thesis by (subst getLogsRange.simps) (auto simp: Inl)
    qed
  next
    case (Inr ls)
    then show ?thesis by (subst getLogsRange.simps) simp
  qed
qed

text \<open>A run queries the ranges of the stack and two more for every split it can still make.\<close>

lemma splitLoop_calls:
  assumes "0 \<le> r" and "splits \<le> m"
  shows "int (snd (snd (splitLoop ask r m stack calls splits out)))
    \<le> int calls + (int (length stack) + 2 * (m - splits)) * (r + 1)"
  using assms
proof (induction ask r m stack calls splits out rule: splitLoop.induct)
  case (1 ask r m calls splits out)
  then show ?case by simp
next
  case (2 ask r m f t stack calls splits out)
  obtain x c where g: "getLogsRange ask r calls f t 0 = (x, c)" by fastforce
  have c: "int c \<le> int calls + (r + 1)"
    using getLogsRange_calls [of ask r calls f t 0] "2.prems"(1) by (simp add: g)
  have one: "int calls + (r + 1) \<le> int calls + (int (length ((f, t) # stack)) + 2 * (m - splits)) * (r + 1)"
    using "2.prems" mult_right_mono [of 1 "1 + int (length stack) + 2 * (m - splits)" "r + 1"] by simp
  show ?case
  proof (cases x)
    case (Inr logs)
    have "int (snd (snd (splitLoop ask r m stack c splits (out @ logs))))
        \<le> int c + (int (length stack) + 2 * (m - splits)) * (r + 1)"
      using "2.IH"(2) [OF g [symmetric] Inr "2.prems"] .
    then show ?thesis using c by (simp add: splitLoop.simps(2) g Inr algebra_simps)
  next
    case (Inl e)
    show ?thesis
    proof (cases "f < t \<and> shouldSplitGetLogsError e \<and> splits + 1 \<le> m
        \<and> f + (t - f) div 2 \<noteq> f \<and> f + (t - f) div 2 \<noteq> t")
      case True
      then have "int (snd (snd (splitLoop ask r m ((f, f + (t - f) div 2) # (f + (t - f) div 2 + 1, t) # stack) c (splits + 1) out)))
          \<le> int c + (int (length stack) + 2 + 2 * (m - (splits + 1))) * (r + 1)"
        using "2.IH"(1) [OF g [symmetric] Inl _ refl _ refl] "2.prems" by simp
      then show ?thesis using c True by (simp add: splitLoop.simps(2) g Inl Let_def algebra_simps)
    next
      case False
      then have "snd (snd (splitLoop ask r m ((f, t) # stack) calls splits out)) = c"
        by (auto simp: splitLoop.simps(2) g Inl Let_def)
      then show ?thesis using c one by simp
    qed
  qed
qed

section \<open>What a scan returns\<close>

definition in_range :: "scan_log list \<Rightarrow> int \<Rightarrow> int \<Rightarrow> scan_log set" where
  "in_range chain f t = {l \<in> set chain. \<exists>b. rl_blockNumber l = Some b \<and> f \<le> b \<and> b \<le> t}"

text \<open>
  What is asked of a provider that answers: all logs of the range, and no log that is not on the chain. It may
  add logs of other blocks, and repeat logs.
\<close>

definition honest :: "scan_log list \<Rightarrow> provider \<Rightarrow> bool" where
  "honest chain ask \<longleftrightarrow> (\<forall>n f t ls. ask n f t = Inr ls \<longrightarrow> in_range chain f t \<subseteq> set ls \<and> set ls \<subseteq> set chain)"

lemma getLogsRange_answer:
  "getLogsRange ask r calls f t attempt = (Inr ls, c) \<Longrightarrow> \<exists>n. ask n f t = Inr ls"
proof (induction ask r calls f t attempt rule: getLogsRange.induct)
  case (1 ask r calls f t attempt)
  show ?case
  proof (cases "ask calls f t")
    case (Inl e)
    show ?thesis using "1.prems" "1.IH" [OF Inl] by (subst (asm) getLogsRange.simps) (auto simp: Inl split: if_splits)
  next
    case (Inr x)
    then show ?thesis using "1.prems" by (subst (asm) getLogsRange.simps) auto
  qed
qed

definition stack_logs :: "scan_log list \<Rightarrow> (int \<times> int) list \<Rightarrow> scan_log set" where
  "stack_logs chain stack = (\<Union>(f, t) \<in> set stack. in_range chain f t)"

lemma in_range_split: "f \<le> m \<Longrightarrow> m < t \<Longrightarrow> in_range chain f t = in_range chain f m \<union> in_range chain (m + 1) t"
  by (auto simp: in_range_def)

lemma splitLoop_complete:
  assumes "honest chain ask" and "splitLoop ask r m stack calls splits out = (Inr res, s, c)"
  shows "set out \<union> stack_logs chain stack \<subseteq> set res \<and> set res \<subseteq> set out \<union> set chain"
  using assms
proof (induction ask r m stack calls splits out rule: splitLoop.induct)
  case (1 ask r m calls splits out)
  then show ?case by (simp add: stack_logs_def)
next
  case (2 ask r m f t stack calls splits out)
  obtain x c' where g: "getLogsRange ask r calls f t 0 = (x, c')" by fastforce
  show ?case
  proof (cases x)
    case (Inr logs)
    obtain n where "ask n f t = Inr logs" using getLogsRange_answer g Inr by blast
    then have "in_range chain f t \<subseteq> set logs" "set logs \<subseteq> set chain"
      using "2.prems"(1) by (auto simp: honest_def)
    moreover have "splitLoop ask r m stack c' splits (out @ logs) = (Inr res, s, c)"
      using "2.prems"(2) by (simp add: splitLoop.simps(2) g Inr)
    ultimately show ?thesis
      using "2.IH"(2) [OF g [symmetric] Inr "2.prems"(1)] by (auto simp: stack_logs_def)
  next
    case (Inl e)
    define mid where "mid = f + (t - f) div 2"
    have c: "f < t" "shouldSplitGetLogsError e" "\<not> splits + 1 > m" "mid \<noteq> f" "mid \<noteq> t"
      and run: "splitLoop ask r m ((f, mid) # (mid + 1, t) # stack) c' (splits + 1) out = (Inr res, s, c)"
      using "2.prems"(2) by (auto simp: splitLoop.simps(2) g Inl Let_def mid_def split: if_splits)
    have "set out \<union> stack_logs chain ((f, mid) # (mid + 1, t) # stack) \<subseteq> set res \<and> set res \<subseteq> set out \<union> set chain"
      using "2.IH"(1) [OF g [symmetric] Inl _ refl _ refl] c run "2.prems"(1) by (simp add: mid_def)
    moreover have "stack_logs chain ((f, mid) # (mid + 1, t) # stack) = stack_logs chain ((f, t) # stack)"
      using c(1,5) in_range_split [of f mid t chain] by (auto simp: stack_logs_def mid_def)
    ultimately show ?thesis by simp
  qed
qed

lemma dedupLoop_set: "inj_on log_key (set ls) \<Longrightarrow> set (dedupLoop seen ls) = {l \<in> set ls. log_key l \<notin> seen}"
proof (induction ls arbitrary: seen)
  case (Cons l ls)
  then have "inj_on log_key (set ls)" by (auto intro: inj_on_subset)
  note IH = Cons.IH [OF this]
  show ?case using Cons.prems by (auto simp: IH inj_on_def)
qed simp

lemma dedupLoop_distinct: "distinct (map log_key (dedupLoop seen ls)) \<and> log_key ` set (dedupLoop seen ls) \<inter> seen = {}"
proof (induction ls arbitrary: seen)
  case (Cons l ls)
  show ?case using Cons.IH [of seen] Cons.IH [of "insert (log_key l) seen"] by auto
qed simp

text \<open>A provider that refuses more than two blocks at once, over a chain of five logs.\<close>

definition sample_log :: "int \<Rightarrow> int \<Rightarrow> scan_log" where
  "sample_log b i = \<lparr>rl_blockNumber = Some b, rl_logIndex = Some (V_num i), rl_transactionHash = Some ''0x1'', rl_rest = ''''\<rparr>"

definition sample_chain :: "scan_log list" where
  "sample_chain = [sample_log 1 0, sample_log 2 0, sample_log 2 1, sample_log 4 0, sample_log 9 0]"

definition too_large :: js_error where
  "too_large = Thrown None (Some ''query returned more than 10000 results'') None None None None None None '''' Thrown_null"

definition small_provider :: provider where
  "small_provider n f t = (if t - f > 1 then Inl too_large
     else Inr (filter (\<lambda>l. case rl_blockNumber l of None \<Rightarrow> False | Some b \<Rightarrow> f \<le> b \<and> b \<le> t) sample_chain))"

lemma small_provider_honest: "honest sample_chain small_provider"
  by (auto simp: honest_def small_provider_def in_range_def split: if_splits option.splits)

lemma too_large_splits: "shouldSplitGetLogsError too_large" "\<not> isRateLimitMessage (error_text too_large)"
  by code_simp+

section \<open>Properties\<close>

text \<open>
  C32. The scan comes to an end: with \<open>m\<close> splits and \<open>r\<close> retries allowed it makes at most \<open>(1 + 2 m)(r + 1)\<close> calls,
  whatever the provider answers and however often it throttles.
\<close>

theorem scan_calls_bounded:
  assumes "0 \<le> so_maxSplits opts" and "0 \<le> so_rateLimitRetries opts" and "so_rateLimitRetries opts \<le> MAX_SAFE_INTEGER"
  shows "int (snd (scan_range ask opts f t)) \<le> (1 + 2 * so_maxSplits opts) * (so_rateLimitRetries opts + 1)"
proof -
  have "the (parseNonNegativeSafeInteger (JNum (so_rateLimitRetries opts)) (Some 0)) = so_rateLimitRetries opts"
    using assms by (simp add: parseNonNegativeSafeInteger_def)
  then show ?thesis
    using splitLoop_calls [of "so_rateLimitRetries opts" 0 "so_maxSplits opts" ask "[(f, t)]" 0 "[]"] assms
    by (auto simp: scan_range_def Let_def split: prod.splits sum.splits)
qed

lemma scan_calls_witness:
  "snd (scan_range small_provider \<lparr>so_maxSplits = 4, so_rateLimitRetries = 2\<rparr> 1 9) \<le> 27"
  using scan_calls_bounded [of "\<lparr>so_maxSplits = 4, so_rateLimitRetries = 2\<rparr>" small_provider 1 9]
  by (simp add: MAX_SAFE_INTEGER_def)



text \<open>
  A range of two blocks is never split. When the provider refuses it as too large, the scan fails with
  "single-block range" although two blocks were asked for, whatever the provider would answer for each.
\<close>

theorem two_blocks_not_split:
  assumes "ask 0 f (f + 1) = Inl e" and "shouldSplitGetLogsError e" and "\<not> isRateLimitMessage (error_text e)"
    and "1 \<le> so_maxSplits opts"
  shows "scan_range ask opts f (f + 1) = (Inl (Single_block_failed f e), 1)"
proof -
  have "getLogsRange ask r 0 f (f + 1) 0 = (Inl e, 1)" for r
    using assms(1,3) by (subst getLogsRange.simps) simp
  then show ?thesis using assms(2,4) by (simp add: scan_range_def splitLoop.simps(2) Let_def)
qed

lemma two_blocks_not_split_witness:
  "scan_range (\<lambda>n f t. if f < t then Inl too_large else Inr []) \<lparr>so_maxSplits = 256, so_rateLimitRetries = 5\<rparr> 7 8
     = (Inl (Single_block_failed 7 too_large), 1)"
  using two_blocks_not_split [of "\<lambda>n f t. if f < t then Inl too_large else Inr []" 7 too_large
      "\<lparr>so_maxSplits = 256, so_rateLimitRetries = 5\<rparr>"] too_large_splits by simp

end
