(* ===== verification/TxSend.thy ===== *)
theory TxSend
  imports KeeperChecks RpcLogs
begin

text \<open>
  The transaction sender of the keeper (\<open>src/keeper/src/shared/tx.ts\<close>): the guards before a submission, the wait for
  a confirmed receipt, and what the outcome does to the circuit breaker.

  \<^item> The public and the wallet client are the environment: the answers of one send are the record \<open>send_env\<close>, those of
    one round of polling the record \<open>poll\<close>. The rounds given are those that start before the timeout.
  \<^item> The breaker's file is state; \<open>toIso\<close> and \<open>dateParse\<close> are \<open>toISOString\<close> and \<open>Date.parse\<close>, \<open>parse\<close> is
    \<open>BigInt\<close> of a text. Logging, waiting and the text of a reason are dropped; an alert is its type.
\<close>

section \<open>Reading answers\<close>

definition toTxNonce :: "(string \<Rightarrow> int option) \<Rightarrow> rpc_value option \<Rightarrow> int option" where
  "toTxNonce parse raw = (case raw of
     None \<Rightarrow> None
   | Some (V_big i) \<Rightarrow> if i \<ge> 0 then Some i else None
   | Some (V_num i) \<Rightarrow> if \<bar>i\<bar> > MAX_SAFE_INTEGER \<or> i < 0 then None else Some i
   | Some (V_float _) \<Rightarrow> None
   | Some (V_text t) \<Rightarrow>
       (let trimmed = js_trim t in
        if trimmed = [] then None
        else case parse trimmed of
               None \<Rightarrow> None
             | Some i \<Rightarrow> if i \<ge> 0 then Some i else None))"

definition isFeeCapTooLowErrorMessage :: "string \<Rightarrow> bool" where
  "isFeeCapTooLowErrorMessage msg =
     (let m = toLowerCase msg in
      js_includes m ''max fee per gas less than block base fee'' \<or> js_includes m ''max fee per gas less than base fee''
      \<or> js_includes m ''fee cap too low''
      \<or> (js_includes m ''base fee'' \<and> js_includes m ''exceeds'' \<and> js_includes m ''max fee''))"

text \<open>The status of a receipt; \<open>St_other\<close> is anything else than the shapes the code knows.\<close>

datatype receipt_status = St_text string | St_bool bool | St_num int | St_other

definition receiptStatusOk :: "receipt_status option \<Rightarrow> bool option" where
  "receiptStatusOk st = (case st of
     None \<Rightarrow> None
   | Some (St_text t) \<Rightarrow>
       if t = ''success'' then Some True
       else if t = ''reverted'' then Some False
       else (let s = toLowerCase (js_trim t) in
             if s \<in> {''0x1'', ''0x01'', ''1'', ''true''} then Some True
             else if s \<in> {''0x0'', ''0x00'', ''0'', ''false''} then Some False
             else None)
   | Some (St_bool b) \<Rightarrow> Some b
   | Some (St_num n) \<Rightarrow> if n = 1 then Some True else if n = 0 then Some False else None
   | Some St_other \<Rightarrow> None)"

record receipt =
  rc_blockNumber :: "rpc_value option"
  rc_blockHash :: "string option"
  rc_status :: "receipt_status option"
  rc_gasUsed :: "rpc_value option"
  rc_effectiveGasPrice :: "rpc_value option"
  rc_l1Fee :: "rpc_value option"

text \<open>\<open>BigInt(receipt.blockNumber ?? 0n)\<close>, 0 when that throws.\<close>

definition block_of :: "(string \<Rightarrow> int option) \<Rightarrow> receipt \<Rightarrow> int" where
  "block_of parse r = (case rc_blockNumber r of None \<Rightarrow> 0 | Some v \<Rightarrow>
     (case to_bigint parse v of None \<Rightarrow> 0 | Some i \<Rightarrow> i))"

section \<open>Waiting for a confirmed receipt\<close>

record poll =
  po_elapsed :: int
  po_txNonce :: "rpc_value option"
  po_currentNonce :: "rpc_value option"
  po_receiptPublic :: "receipt option option"   \<comment> \<open>\<open>None\<close>: an error, also that there is none\<close>
  po_receiptWallet :: "receipt option"
  po_tipPublic :: "rpc_value option"
  po_tipWallet :: "rpc_value option"
  po_freshPublic :: "receipt option option"
  po_freshWallet :: "receipt option"
  po_hashPublic :: "string option option"   \<comment> \<open>\<open>None\<close>: the block cannot be read\<close>
  po_hashWallet :: "string option"

datatype wait_result = Got receipt | Replaced | Receipt_timeout | Confirmations_timeout

text \<open>\<open>tryGetReceiptAny\<close>: the wallet is asked when the public client throws.\<close>

definition tryGetReceiptAny :: "receipt option option \<Rightarrow> receipt option \<Rightarrow> receipt option" where
  "tryGetReceiptAny public wallet = (case public of Some r \<Rightarrow> r | None \<Rightarrow> wallet)"

definition is_replaced :: "(string \<Rightarrow> int option) \<Rightarrow> int \<Rightarrow> poll \<Rightarrow> bool" where
  "is_replaced parse timeoutMs p \<longleftrightarrow>
     3 * po_elapsed p > min timeoutMs 180000
     \<and> (case (toTxNonce parse (po_txNonce p), po_currentNonce p) of
          (Some txNonce, Some v) \<Rightarrow> (case to_bigint parse v of Some currentNonce \<Rightarrow> currentNonce > txNonce | None \<Rightarrow> False)
        | _ \<Rightarrow> False)"

text \<open>The tip and whether the wallet gave it.\<close>

definition tryGetTipWithSource :: "(string \<Rightarrow> int option) \<Rightarrow> poll \<Rightarrow> (int \<times> bool) option" where
  "tryGetTipWithSource parse p =
     (case po_tipPublic p of
        Some v \<Rightarrow> (case to_bigint parse v of Some tip \<Rightarrow> Some (tip, False)
                    | None \<Rightarrow> (case po_tipWallet p of Some w \<Rightarrow> map_option (\<lambda>t. (t, True)) (to_bigint parse w) | None \<Rightarrow> None))
      | None \<Rightarrow> (case po_tipWallet p of Some w \<Rightarrow> map_option (\<lambda>t. (t, True)) (to_bigint parse w) | None \<Rightarrow> None))"

definition hash_text :: "string option \<Rightarrow> string option" where
  "hash_text h = (case h of Some s \<Rightarrow> if take 2 s = ''0x'' then Some s else None | None \<Rightarrow> None)"

definition tryGetCanonicalBlockHash :: "poll \<Rightarrow> bool \<Rightarrow> string option" where
  "tryGetCanonicalBlockHash p preferWallet =
     (let wallet = hash_text (po_hashWallet p) in
      if preferWallet \<and> wallet \<noteq> None then wallet
      else case po_hashPublic p of
             Some h \<Rightarrow> hash_text h
           | None \<Rightarrow> if preferWallet then None else wallet)"

definition not_canonical :: "poll \<Rightarrow> bool \<Rightarrow> receipt \<Rightarrow> bool" where
  "not_canonical p preferWallet fresh \<longleftrightarrow>
     (case hash_text (rc_blockHash fresh) of
        Some bh \<Rightarrow> (case tryGetCanonicalBlockHash p preferWallet of
                       Some canonical \<Rightarrow> toLowerCase canonical \<noteq> toLowerCase bh | None \<Rightarrow> False)
      | None \<Rightarrow> False)"

datatype stage = Return receipt | Again "receipt option"

text \<open>The second stage of a round: return a receipt, or go on with the one given.\<close>

definition confirm_stage :: "(string \<Rightarrow> int option) \<Rightarrow> int \<Rightarrow> poll \<Rightarrow> receipt \<Rightarrow> stage" where
  "confirm_stage parse conf p r =
     (let minedAt = block_of parse r in
      if minedAt \<le> 0 then Return r
      else case tryGetTipWithSource parse p of
             None \<Rightarrow> Again (Some r)
           | Some (tip, fromWallet) \<Rightarrow>
               if tip < minedAt + (conf - 1) then Again (Some r)
               else (case tryGetReceiptAny (po_freshPublic p) (po_freshWallet p) of
                       None \<Rightarrow> Again None
                     | Some fresh \<Rightarrow>
                         (let freshBn = block_of parse fresh in
                          if freshBn \<le> 0 then Return fresh
                          else if tip < freshBn + (conf - 1) then Again (Some fresh)
                          else if not_canonical p fromWallet fresh then Again None
                          else Return fresh)))"

fun waitLoop ::
  "(string \<Rightarrow> int option) \<Rightarrow> int \<Rightarrow> int \<Rightarrow> poll list \<Rightarrow> receipt option \<Rightarrow> bool \<Rightarrow> wait_result" where
  "waitLoop parse conf timeoutMs [] r sawReceipt = (if sawReceipt then Confirmations_timeout else Receipt_timeout)"
| "waitLoop parse conf timeoutMs (p # ps) (Some r) sawReceipt =
     (case confirm_stage parse conf p r of
        Return fin \<Rightarrow> Got fin
      | Again r \<Rightarrow> waitLoop parse conf timeoutMs ps r sawReceipt)"
| "waitLoop parse conf timeoutMs (p # ps) None sawReceipt =
     (if is_replaced parse timeoutMs p then Replaced
      else case tryGetReceiptAny (po_receiptPublic p) (po_receiptWallet p) of
             None \<Rightarrow> waitLoop parse conf timeoutMs ps None sawReceipt
           | Some r \<Rightarrow>
               if conf \<le> 1 then Got r
               else (case confirm_stage parse conf p r of
                       Return fin \<Rightarrow> Got fin
                     | Again r \<Rightarrow> waitLoop parse conf timeoutMs ps r True))"

definition waitForReceiptWithConfirmations ::
  "(string \<Rightarrow> int option) \<Rightarrow> json \<Rightarrow> int \<Rightarrow> poll list \<Rightarrow> wait_result" where
  "waitForReceiptWithConfirmations parse confirmations timeoutMs polls =
     waitLoop parse (the (parsePositiveSafeInteger confirmations (Some 1))) timeoutMs polls None False"

section \<open>The breaker's file\<close>

definition opt_text :: "string option \<Rightarrow> json" where
  "opt_text t = (case t of None \<Rightarrow> JNull | Some s \<Rightarrow> JStr s)"

text \<open>What \<open>saveJsonAtomic\<close> writes for a state.\<close>

definition cb_to_json :: "(int \<Rightarrow> string) \<Rightarrow> cb_state \<Rightarrow> json" where
  "cb_to_json toIso st = JObj
     [(''version'', JNum 1), (''consecutiveFailures'', JNum (cb_consecutiveFailures st)),
      (''lastFailureAtUtc'', opt_text (map_option toIso (cb_lastFailureAt st))),
      (''lastSuccessAtUtc'', opt_text (map_option toIso (cb_lastSuccessAt st))),
      (''trippedAtUtc'', opt_text (map_option toIso (cb_trippedAt st))),
      (''pausedUntilUtc'', opt_text (map_option toIso (cb_pausedUntil st))),
      (''lastError'', opt_text (cb_lastError st))]"

section \<open>Sending\<close>

record tx_config =
  tx_breaker :: keeper_config
  tx_keeperPaused :: bool
  tx_dryRun :: bool
  tx_allowTxWhilePending :: bool
  tx_maxFeePerGasWei :: "int option"
  tx_gasLimitMultiplierBps :: int
  tx_maxGasLimit :: "int option"
  tx_maxTotalFeeWei :: "int option"
  tx_confirmations :: json
  tx_receiptTimeoutMs :: int

text \<open>The readers of text that the code relies on.\<close>

record tx_readers =
  rd_jsonParse :: "string \<Rightarrow> json option"
  rd_dateParse :: "string \<Rightarrow> int option"
  rd_iso :: "int \<Rightarrow> string"
  rd_bigint :: "string \<Rightarrow> int option"

record send_env =
  se_now :: int
  se_pauseFile :: pause_file
  se_walletCounts :: "(rpc_value option \<times> rpc_value option) option"   \<comment> \<open>latest and pending nonce\<close>
  se_publicCounts :: "js_error + rpc_value \<times> rpc_value"
  se_baseFee :: "js_error + rpc_value option"
  se_estimate :: "js_error + int"
  se_estimateAt :: int
  se_baseFeeAgain :: "js_error + rpc_value option"
  se_recheckAt :: int
  se_recheckPauseFile :: pause_file
  se_balanceBefore :: "int option"
  se_write :: "js_error + string"
  se_polls :: "poll list"
  se_balanceAfter :: "int option"
  se_outcomeAt :: int
  se_pauseWriteError :: "string option"

datatype skip_code = Sk_paused | Sk_dry_run | Sk_pending_guard | Sk_fee_cap | Sk_gas_limit_cap | Sk_total_fee_cap

datatype tx_error =
  Breaker_state_error cb_error
| Nonce_unreadable
| Rpc_error js_error
| Wait_error wait_result
| Tx_reverted
| Tx_status_unknown
| Breaker_update_error cb_error

datatype send_result =
  Sent string receipt "(payout_failure \<times> int \<times> int) option"
| Skipped skip_code
| Send_throws tx_error

record tx_world =
  tw_breaker :: loaded_json
  tw_submitted :: nat
  tw_alerts :: "string list"

definition save_breaker :: "tx_readers \<Rightarrow> cb_state option \<Rightarrow> tx_world \<Rightarrow> tx_world" where
  "save_breaker rd st w = (case st of None \<Rightarrow> w | Some s \<Rightarrow> w\<lparr>tw_breaker := FileOk (cb_to_json (rd_iso rd) s)\<rparr>)"

definition alert :: "string \<Rightarrow> tx_world \<Rightarrow> tx_world" where
  "alert t w = w\<lparr>tw_alerts := tw_alerts w @ [t]\<rparr>"

text \<open>\<open>recordTxFailure\<close> on the file: an error and the file as it was, or whether it tripped.\<close>

definition record_failure :: "tx_readers \<Rightarrow> tx_config \<Rightarrow> send_env \<Rightarrow> int \<Rightarrow> string \<Rightarrow> tx_world \<Rightarrow> (cb_error + bool) \<times> tx_world" where
  "record_failure rd config env now err w =
     (case recordTxFailure (rd_dateParse rd) (tx_breaker config) now (se_pauseWriteError env) err (tw_breaker w) of
        Inl e \<Rightarrow> (Inl e, w)
      | Inr ((st, tripped), file) \<Rightarrow> (Inr tripped, save_breaker rd file w))"

text \<open>The two checks of the breaker: an error, or whether it pauses.\<close>

definition breaker_pauses :: "tx_readers \<Rightarrow> tx_config \<Rightarrow> int \<Rightarrow> tx_world \<Rightarrow> cb_error + bool" where
  "breaker_pauses rd config now w =
     (if kc_circuitBreakerEnabled (tx_breaker config)
      then (case assertCircuitBreakerStateHealthy (rd_dateParse rd) (tx_breaker config) (tw_breaker w) of
              Inl e \<Rightarrow> Inl e
            | Inr st \<Rightarrow> Inr (pi_paused (getCircuitBreakerPauseInfo (tx_breaker config) now st)))
      else Inr False)"

definition is_paused :: "tx_readers \<Rightarrow> tx_config \<Rightarrow> int \<Rightarrow> pause_file \<Rightarrow> bool" where
  "is_paused rd config now f = ps_paused (fst (getPauseInfo (rd_jsonParse rd) (rd_dateParse rd) (tx_keeperPaused config) now f))"

datatype guard = Guard_ok | Guard_pending | Guard_error tx_error

definition pendingGuard :: "tx_readers \<Rightarrow> tx_config \<Rightarrow> send_env \<Rightarrow> guard" where
  "pendingGuard rd config env =
     (if tx_allowTxWhilePending config then Guard_ok
      else let counts = (case se_walletCounts env of
                 Some (Some l, Some p) \<Rightarrow> Inr (l, p)
               | _ \<Rightarrow> se_publicCounts env)
           in case counts of
                Inl e \<Rightarrow> Guard_error (Rpc_error e)
              | Inr (l, p) \<Rightarrow>
                  (case (to_bigint (rd_bigint rd) l, to_bigint (rd_bigint rd) p) of
                     (Some latestN, Some pendingN) \<Rightarrow> if pendingN > latestN then Guard_pending else Guard_ok
                   | _ \<Rightarrow> Guard_error Nonce_unreadable))"

definition base_fee_too_high :: "tx_readers \<Rightarrow> tx_config \<Rightarrow> js_error + rpc_value option \<Rightarrow> bool" where
  "base_fee_too_high rd config answer =
     (case tx_maxFeePerGasWei config of
        None \<Rightarrow> False
      | Some cap \<Rightarrow>
          (case answer of
             Inr (Some v) \<Rightarrow> (case to_bigint (rd_bigint rd) v of Some baseWei \<Rightarrow> baseWei > cap | None \<Rightarrow> False)
           | _ \<Rightarrow> False))"

definition gas_limit :: "tx_config \<Rightarrow> int option \<Rightarrow> int \<Rightarrow> int" where
  "gas_limit config minGasLimit est =
     (let estimatedGasLimit = (est * tx_gasLimitMultiplierBps config + 9999) div 10000;
          gasFloor = (case minGasLimit of Some m \<Rightarrow> if m > 0 then m else 0 | None \<Rightarrow> 0)
      in if estimatedGasLimit < gasFloor then gasFloor else estimatedGasLimit)"

text \<open>The audit of the balance: no answer, or the cost that the account should have paid.\<close>

definition total_cost :: "tx_readers \<Rightarrow> receipt \<Rightarrow> int option" where
  "total_cost rd r =
     (let num = (\<lambda>v. case v of None \<Rightarrow> Some None | Some x \<Rightarrow> map_option Some (to_bigint (rd_bigint rd) x)) in
      case (num (rc_gasUsed r), num (rc_effectiveGasPrice r), num (rc_l1Fee r)) of
        (Some (Some gasUsed), Some (Some price), Some l1) \<Rightarrow>
          Some (gasUsed * price + (case l1 of Some f \<Rightarrow> f | None \<Rightarrow> 0))
      | _ \<Rightarrow> None)"

definition audit :: "tx_readers \<Rightarrow> send_env \<Rightarrow> receipt \<Rightarrow> (payout_failure \<times> int \<times> int) option" where
  "audit rd env r =
     (case (se_balanceBefore env, se_balanceAfter env, total_cost rd r) of
        (Some before, Some after, Some cost) \<Rightarrow>
          (case assertKeeperEoaPayoutBound before after cost of
             Ok \<Rightarrow> None
           | NotOk reason delta c \<Rightarrow> Some (reason, delta, c))
      | _ \<Rightarrow> None)"

definition report_violation :: "tx_readers \<Rightarrow> tx_config \<Rightarrow> send_env \<Rightarrow> (payout_failure \<times> int \<times> int) option \<Rightarrow> tx_world \<Rightarrow> tx_world" where
  "report_violation rd config env v w =
     (case v of
        None \<Rightarrow> w
      | Some _ \<Rightarrow> alert ''keeper_payout_bound_violation''
          (snd (record_failure rd config env (se_outcomeAt env) ''payout_bound_violation'' w)))"

definition record_success :: "tx_readers \<Rightarrow> tx_config \<Rightarrow> send_env \<Rightarrow> tx_world \<Rightarrow> tx_world" where
  "record_success rd config env w =
     (case recordTxSuccess (rd_dateParse rd) (tx_breaker config) (se_outcomeAt env) (tw_breaker w) of
        Inl e \<Rightarrow> alert ''keeper_circuit_breaker_state_invalid'' w
      | Inr (st, file) \<Rightarrow> save_breaker rd file w)"

text \<open>The catch block: \<open>hash\<close> says whether a hash is known, \<open>msg\<close> is the text of the error.\<close>

definition tx_failed ::
  "tx_readers \<Rightarrow> tx_config \<Rightarrow> send_env \<Rightarrow> bool \<Rightarrow> tx_error \<Rightarrow> string \<Rightarrow> tx_world \<Rightarrow> send_result \<times> tx_world" where
  "tx_failed rd config env hash e msg w =
     (if \<not> hash \<and> isFeeCapTooLowErrorMessage msg then (Skipped Sk_fee_cap, w)
      else case record_failure rd config env (se_outcomeAt env) msg w of
             (Inl ce, w) \<Rightarrow> (Send_throws (Breaker_update_error ce), w)
           | (Inr tripped, w) \<Rightarrow>
               (Send_throws e, if tripped then alert ''keeper_circuit_breaker_tripped'' w else w))"

definition submit :: "tx_readers \<Rightarrow> tx_config \<Rightarrow> send_env \<Rightarrow> tx_world \<Rightarrow> send_result \<times> tx_world" where
  "submit rd config env w =
     (let w = w\<lparr>tw_submitted := Suc (tw_submitted w)\<rparr> in
      case se_write env of
        Inl e \<Rightarrow> tx_failed rd config env False (Rpc_error e) (fmtErr e) w
      | Inr hash \<Rightarrow>
          (case waitForReceiptWithConfirmations (rd_bigint rd) (tx_confirmations config) (tx_receiptTimeoutMs config) (se_polls env) of
             Got r \<Rightarrow>
               (case receiptStatusOk (rc_status r) of
                  Some True \<Rightarrow>
                    (let v = audit rd env r
                     in (Sent hash r v, record_success rd config env (report_violation rd config env v w)))
                | Some False \<Rightarrow> tx_failed rd config env True Tx_reverted ''tx reverted'' w
                | None \<Rightarrow> tx_failed rd config env True Tx_status_unknown ''tx status unknown'' w)
           | res \<Rightarrow> tx_failed rd config env True (Wait_error res) ''tx not confirmed'' w))"

definition estimate_failed ::
  "tx_readers \<Rightarrow> tx_config \<Rightarrow> send_env \<Rightarrow> js_error \<Rightarrow> tx_world \<Rightarrow> send_result \<times> tx_world" where
  "estimate_failed rd config env e w =
     (if isFeeCapTooLowErrorMessage (fmtErr e) then (Skipped Sk_fee_cap, w)
      else (Send_throws (Rpc_error e), snd (record_failure rd config env (se_estimateAt env) (fmtErr e) w)))"

text \<open>From the estimate on.\<close>

definition send_estimated ::
  "tx_readers \<Rightarrow> tx_config \<Rightarrow> int option \<Rightarrow> send_env \<Rightarrow> int \<Rightarrow> tx_world \<Rightarrow> send_result \<times> tx_world" where
  "send_estimated rd config minGasLimit env est w =
     (let gasLimit = gas_limit config minGasLimit est in
      if (case tx_maxGasLimit config of Some cap \<Rightarrow> gasLimit > cap | None \<Rightarrow> False) then (Skipped Sk_gas_limit_cap, w)
      else if (case (tx_maxTotalFeeWei config, tx_maxFeePerGasWei config) of
                 (Some cap, Some fee) \<Rightarrow> gasLimit * fee > cap | _ \<Rightarrow> False) then (Skipped Sk_total_fee_cap, w)
      else if base_fee_too_high rd config (se_baseFeeAgain env) then (Skipped Sk_fee_cap, w)
      else if is_paused rd config (se_recheckAt env) (se_recheckPauseFile env) then (Skipped Sk_paused, w)
      else case breaker_pauses rd config (se_recheckAt env) w of
             Inl e \<Rightarrow> (Send_throws (Breaker_state_error e), w)
           | Inr True \<Rightarrow> (Skipped Sk_paused, w)
           | Inr False \<Rightarrow> submit rd config env w)"

definition sendContractTx ::
  "tx_readers \<Rightarrow> tx_config \<Rightarrow> int option \<Rightarrow> send_env \<Rightarrow> tx_world \<Rightarrow> send_result \<times> tx_world" where
  "sendContractTx rd config minGasLimit env w =
     (if is_paused rd config (se_now env) (se_pauseFile env) then (Skipped Sk_paused, w)
      else if tx_dryRun config then (Skipped Sk_dry_run, w)
      else case breaker_pauses rd config (se_now env) w of
             Inl e \<Rightarrow> (Send_throws (Breaker_state_error e), w)
           | Inr True \<Rightarrow> (Skipped Sk_paused, w)
           | Inr False \<Rightarrow>
               (case pendingGuard rd config env of
                  Guard_pending \<Rightarrow> (Skipped Sk_pending_guard, w)
                | Guard_error e \<Rightarrow> (Send_throws e, w)
                | Guard_ok \<Rightarrow>
                    if base_fee_too_high rd config (se_baseFee env) then (Skipped Sk_fee_cap, w)
                    else (case se_estimate env of
                            Inl e \<Rightarrow> estimate_failed rd config env e w
                          | Inr est \<Rightarrow> send_estimated rd config minGasLimit env est w)))"

section \<open>Lemmas\<close>

lemma breaker_file_roundtrip:
  assumes "\<And>t. dateParse (toIso t) = Some t" "0 \<le> cb_consecutiveFailures st" "cb_consecutiveFailures st \<le> MAX_SAFE_INTEGER"
  shows "requireState dateParse (cb_to_json toIso st) = Inr st"
  using assms
  by (cases st) (auto simp: requireState_def cb_to_json_def json_field_def requireOptionalIsoTimestamp_def
    requireOptionalString_def opt_text_def parse_num split: option.split)

text \<open>What a submission needs, as far as this keeper can see: both pause checks, the breaker, and the caps.\<close>

definition may_submit :: "tx_readers \<Rightarrow> tx_config \<Rightarrow> int option \<Rightarrow> send_env \<Rightarrow> tx_world \<Rightarrow> bool" where
  "may_submit rd config minGasLimit env w \<longleftrightarrow>
     \<not> tx_dryRun config
     \<and> \<not> is_paused rd config (se_now env) (se_pauseFile env)
     \<and> \<not> is_paused rd config (se_recheckAt env) (se_recheckPauseFile env)
     \<and> breaker_pauses rd config (se_now env) w = Inr False \<and> breaker_pauses rd config (se_recheckAt env) w = Inr False
     \<and> pendingGuard rd config env = Guard_ok
     \<and> \<not> base_fee_too_high rd config (se_baseFee env) \<and> \<not> base_fee_too_high rd config (se_baseFeeAgain env)
     \<and> (\<exists>est. se_estimate env = Inr est
          \<and> (case tx_maxGasLimit config of Some cap \<Rightarrow> gas_limit config minGasLimit est \<le> cap | None \<Rightarrow> True)
          \<and> (case (tx_maxTotalFeeWei config, tx_maxFeePerGasWei config) of
               (Some cap, Some fee) \<Rightarrow> gas_limit config minGasLimit est * fee \<le> cap | _ \<Rightarrow> True))"

lemma submitted_helpers [simp]:
  "tw_submitted (save_breaker rd st w) = tw_submitted w" "tw_submitted (alert t w) = tw_submitted w"
  "tw_submitted (snd (record_failure rd config env now err w)) = tw_submitted w"
  "tw_submitted (report_violation rd config env v w) = tw_submitted w"
  "tw_submitted (record_success rd config env w) = tw_submitted w"
  by (auto simp: save_breaker_def alert_def record_failure_def report_violation_def record_success_def
    split: option.split sum.split prod.split)

lemma tx_failed_submitted [simp]: "tw_submitted (snd (tx_failed rd config env h e msg w)) = tw_submitted w"
  using submitted_helpers(3) [of rd config env "se_outcomeAt env" msg w]
  by (cases "record_failure rd config env (se_outcomeAt env) msg w") (auto simp: tx_failed_def split: sum.split)

lemma submit_submitted: "tw_submitted (snd (submit rd config env w)) = Suc (tw_submitted w)"
  by (auto simp: submit_def Let_def split: sum.split wait_result.split option.split bool.split)

text \<open>A send either submits once, and then all guards hold, or not at all.\<close>

lemma send_submits:
  "sendContractTx rd config m env w = submit rd config env w \<and> may_submit rd config m env w
   \<or> tw_submitted (snd (sendContractTx rd config m env w)) = tw_submitted w
     \<and> (\<forall>h r v. fst (sendContractTx rd config m env w) \<noteq> Sent h r v)"
  by (auto simp: sendContractTx_def send_estimated_def estimate_failed_def may_submit_def Let_def
    split: sum.split bool.split guard.split option.split)

lemma may_submit_submits: "may_submit rd config m env w \<Longrightarrow> sendContractTx rd config m env w = submit rd config env w"
proof -
  assume m: "may_submit rd config m env w"
  then obtain est where est: "se_estimate env = Inr est" by (auto simp: may_submit_def)
  with m have "send_estimated rd config m env est w = submit rd config env w"
    by (auto simp: may_submit_def send_estimated_def Let_def split: option.split)
  with m est show ?thesis by (simp add: may_submit_def sendContractTx_def)
qed

lemma confirm_stage_deep:
  assumes "confirm_stage parse conf p r = Return fin" "0 < block_of parse fin"
  shows "\<exists>tip fromWallet. tryGetTipWithSource parse p = Some (tip, fromWallet) \<and> block_of parse fin + (conf - 1) \<le> tip
    \<and> tryGetReceiptAny (po_freshPublic p) (po_freshWallet p) = Some fin \<and> \<not> not_canonical p fromWallet fin"
  using assms by (auto simp: confirm_stage_def Let_def split: if_splits option.splits prod.splits)

lemma waitLoop_deep:
  "waitLoop parse conf timeout ps r saw = Got fin \<Longrightarrow> 1 < conf \<Longrightarrow> 0 < block_of parse fin \<Longrightarrow>
     \<exists>p \<in> set ps. \<exists>tip fromWallet. tryGetTipWithSource parse p = Some (tip, fromWallet)
       \<and> block_of parse fin + (conf - 1) \<le> tip
       \<and> tryGetReceiptAny (po_freshPublic p) (po_freshWallet p) = Some fin \<and> \<not> not_canonical p fromWallet fin"
proof (induction parse conf timeout ps r saw rule: waitLoop.induct)
  case (2 parse conf timeout p ps r saw)
  then show ?case using confirm_stage_deep [of parse conf p r fin] by (auto split: stage.splits)
next
  case (3 parse conf timeout p ps saw)
  then show ?case using confirm_stage_deep [of parse conf p _ fin] by (fastforce split: stage.splits option.splits if_splits)
qed (simp split: if_splits)

text \<open>What the reader of the state accepts is in the range that can be written.\<close>

lemma parse_range: "parseNonNegativeSafeInteger v None = Some n \<Longrightarrow> 0 \<le> n \<and> n \<le> MAX_SAFE_INTEGER"
  by (auto simp: parseNonNegativeSafeInteger_def Let_def split: json.splits if_splits)

lemma requireState_range:
  "requireState dateParse v = Inr st \<Longrightarrow> 0 \<le> cb_consecutiveFailures st \<and> cb_consecutiveFailures st \<le> MAX_SAFE_INTEGER"
  by (auto simp: requireState_def dest!: parse_range split: json.splits if_splits option.splits sum.splits)

lemma load_range:
  "loadCircuitBreakerState dateParse f = Inr st \<Longrightarrow> 0 \<le> cb_consecutiveFailures st \<and> cb_consecutiveFailures st \<le> MAX_SAFE_INTEGER"
  by (auto simp: loadCircuitBreakerState_def initState_def MAX_SAFE_INTEGER_def dest: requireState_range split: loaded_json.splits)

lemma failure_range:
  assumes "effectiveMaxFailures config + 10 \<le> MAX_SAFE_INTEGER" "0 \<le> cb_consecutiveFailures s" "cb_consecutiveFailures s \<le> MAX_SAFE_INTEGER"
  shows "0 \<le> cb_consecutiveFailures (fst (failure_state config now pe err s))
    \<and> cb_consecutiveFailures (fst (failure_state config now pe err s)) \<le> MAX_SAFE_INTEGER"
proof -
  have m: "1 \<le> effectiveMaxFailures config" by (rule effectiveMaxFailures_bounds)
  have p: "parseNonNegativeSafeInteger (JNum n) (Some 0) = Some n" if "0 \<le> n" "n \<le> MAX_SAFE_INTEGER" for n
    using that by (rule parse_num)
  show ?thesis using assms m p [of 0]
    by (auto simp: failure_state_def Let_def p MAX_SAFE_INTEGER_def split: option.split)
qed

text \<open>The laws of dates: a time that is written is read again.\<close>

definition dates_ok :: "tx_readers \<Rightarrow> bool" where
  "dates_ok rd \<longleftrightarrow> (\<forall>t. rd_dateParse rd (rd_iso rd t) = Some t)"

lemma saved_loads:
  assumes "dates_ok rd" "0 \<le> cb_consecutiveFailures st" "cb_consecutiveFailures st \<le> MAX_SAFE_INTEGER"
  shows "loadCircuitBreakerState (rd_dateParse rd) (tw_breaker (save_breaker rd (Some st) w)) = Inr st"
  using breaker_file_roundtrip [of "rd_dateParse rd" "rd_iso rd" st] assms
  by (simp add: loadCircuitBreakerState_def save_breaker_def dates_ok_def)

lemma breaker_after_failure:
  assumes "dates_ok rd" "kc_circuitBreakerEnabled (tx_breaker config)" "effectiveMaxFailures (tx_breaker config) + 10 \<le> MAX_SAFE_INTEGER"
    and "loadCircuitBreakerState (rd_dateParse rd) (tw_breaker w) = Inr st"
  shows "\<exists>tripped. fst (record_failure rd config env now err w) = Inr tripped
    \<and> tripped = snd (failure_state (tx_breaker config) now (se_pauseWriteError env) err st)
    \<and> loadCircuitBreakerState (rd_dateParse rd) (tw_breaker (snd (record_failure rd config env now err w)))
      = Inr (fst (failure_state (tx_breaker config) now (se_pauseWriteError env) err st))"
proof -
  obtain st' tripped where f: "failure_state (tx_breaker config) now (se_pauseWriteError env) err st = (st', tripped)" by force
  have "0 \<le> cb_consecutiveFailures st' \<and> cb_consecutiveFailures st' \<le> MAX_SAFE_INTEGER"
    using failure_range [OF assms(3), of st now "se_pauseWriteError env" err] load_range [OF assms(4)] f by simp
  then show ?thesis using saved_loads [OF assms(1), of st' w] assms(2,4) f
    by (simp add: record_failure_def recordTxFailure_def)
qed

lemma breaker_pauses_load:
  "breaker_pauses rd config now w = Inr b \<Longrightarrow> kc_circuitBreakerEnabled (tx_breaker config) \<Longrightarrow>
     \<exists>st. loadCircuitBreakerState (rd_dateParse rd) (tw_breaker w) = Inr st"
  by (auto simp: breaker_pauses_def assertCircuitBreakerStateHealthy_def split: sum.splits)

lemma tw_breaker_alert [simp]: "tw_breaker (alert t w) = tw_breaker w"
  by (simp add: alert_def)

lemma breaker_after_success:
  assumes "dates_ok rd" "kc_circuitBreakerEnabled (tx_breaker config)"
    and "loadCircuitBreakerState (rd_dateParse rd) (tw_breaker w) = Inr st"
  shows "loadCircuitBreakerState (rd_dateParse rd) (tw_breaker (record_success rd config env w)) = Inr (success_state (se_outcomeAt env) st)"
  using saved_loads [OF assms(1), of "success_state (se_outcomeAt env) st" w] assms(2,3)
  by (simp add: record_success_def recordTxSuccess_def success_state_def MAX_SAFE_INTEGER_def Let_def)

section \<open>Properties\<close>

text \<open>
  C35. A send submits at most one transaction, and it does so only when neither check found a pause, the breaker was
  closed both times, no transaction of the account was pending, the base fee was within the cap, and the gas limit
  and the worst fee are within theirs. Nothing is reported as sent without a submission.
\<close>

theorem submission_guarded:
  "let (res, w') = sendContractTx rd config m env w in
     tw_submitted w' \<le> Suc (tw_submitted w)
     \<and> (tw_submitted w' \<noteq> tw_submitted w \<longrightarrow> may_submit rd config m env w)
     \<and> (tw_submitted w' = tw_submitted w \<longrightarrow> (\<forall>h r v. res \<noteq> Sent h r v))"
  using send_submits [of rd config m env w] submit_submitted [of rd config env w]
  by (cases "sendContractTx rd config m env w"; cases "submit rd config env w") auto

text \<open>
  With more than one confirmation asked for, a receipt that is returned and names its block was given again in a
  round in which the tip had the confirmations, and the canonical hash of its block, where it could be read, agrees.
\<close>

theorem confirmed_receipt_is_deep:
  assumes "waitForReceiptWithConfirmations parse (JNum conf) timeout ps = Got fin" "1 < conf" "conf \<le> MAX_SAFE_INTEGER"
    and "0 < block_of parse fin"
  shows "\<exists>p \<in> set ps. \<exists>tip fromWallet. tryGetTipWithSource parse p = Some (tip, fromWallet)
    \<and> block_of parse fin + (conf - 1) \<le> tip
    \<and> tryGetReceiptAny (po_freshPublic p) (po_freshWallet p) = Some fin \<and> \<not> not_canonical p fromWallet fin"
proof -
  have "parsePositiveSafeInteger (JNum conf) (Some 1) = Some conf"
    using assms(2,3) by (simp add: parsePositiveSafeInteger_def parse_num)
  then show ?thesis using assms(1,2,4) waitLoop_deep by (simp add: waitForReceiptWithConfirmations_def)
qed

text \<open>
  A confirmed transaction whose balance audit found a violation leaves the breaker's file as a success does: no
  failure is counted and no trip is recorded, since the success recorded after it clears both. Only the pause file,
  which the breaker writes when a single failure is enough to trip it, can still stop the keeper.
\<close>

theorem violation_leaves_no_failure:
  assumes "sendContractTx rd config m env w = (Sent h r (Some v), w')"
    and "dates_ok rd" "kc_circuitBreakerEnabled (tx_breaker config)" "effectiveMaxFailures (tx_breaker config) + 10 \<le> MAX_SAFE_INTEGER"
  shows "\<exists>st. loadCircuitBreakerState (rd_dateParse rd) (tw_breaker w') = Inr st
    \<and> cb_consecutiveFailures st = 0 \<and> cb_trippedAt st = None \<and> breaker_pauses rd config later w' = Inr False"
proof -
  have s: "sendContractTx rd config m env w = submit rd config env w" "may_submit rd config m env w"
    using send_submits [of rd config m env w] assms(1) by auto
  then obtain st where st: "loadCircuitBreakerState (rd_dateParse rd) (tw_breaker w) = Inr st"
    using breaker_pauses_load [OF _ assms(3), of rd "se_now env" w False] by (auto simp: may_submit_def)
  let ?w = "w\<lparr>tw_submitted := Suc (tw_submitted w)\<rparr>"
  have w': "w' = record_success rd config env (report_violation rd config env (Some v) ?w)"
    using assms(1) unfolding s(1)
    by (auto simp: submit_def tx_failed_def Let_def split: sum.splits wait_result.splits option.splits bool.splits prod.splits if_splits)
  have "\<exists>st1. loadCircuitBreakerState (rd_dateParse rd) (tw_breaker (report_violation rd config env (Some v) ?w)) = Inr st1"
    using breaker_after_failure [OF assms(2,3,4), of ?w st] st by (fastforce simp: report_violation_def)
  then obtain st2 where "loadCircuitBreakerState (rd_dateParse rd) (tw_breaker w') = Inr (success_state (se_outcomeAt env) st2)"
    using breaker_after_success [OF assms(2,3)] w' by metis
  then show ?thesis using assms(3)
    by (simp add: success_state_def breaker_pauses_def assertCircuitBreakerStateHealthy_def getCircuitBreakerPauseInfo_def)
qed

text \<open>
  A transaction that was submitted but not confirmed as successful (reverted, of unknown status, or without a
  confirmed receipt) throws and counts as one failure in the breaker's file.
\<close>

theorem unconfirmed_counts_as_failure:
  assumes "may_submit rd config m env w" "se_write env = Inr h"
    and "\<forall>r. waitForReceiptWithConfirmations (rd_bigint rd) (tx_confirmations config) (tx_receiptTimeoutMs config) (se_polls env) = Got r
      \<longrightarrow> receiptStatusOk (rc_status r) \<noteq> Some True"
    and "dates_ok rd" "kc_circuitBreakerEnabled (tx_breaker config)" "effectiveMaxFailures (tx_breaker config) + 10 \<le> MAX_SAFE_INTEGER"
    and "loadCircuitBreakerState (rd_dateParse rd) (tw_breaker w) = Inr st"
  shows "\<exists>e msg. fst (sendContractTx rd config m env w) = Send_throws e
    \<and> loadCircuitBreakerState (rd_dateParse rd) (tw_breaker (snd (sendContractTx rd config m env w)))
      = Inr (fst (failure_state (tx_breaker config) (se_outcomeAt env) (se_pauseWriteError env) msg st))"
proof -
  let ?w = "w\<lparr>tw_submitted := Suc (tw_submitted w)\<rparr>"
  have "\<exists>e msg. submit rd config env w = tx_failed rd config env True e msg ?w"
    using assms(2,3) by (auto simp: submit_def Let_def split: wait_result.split option.split bool.split)
  then obtain e msg where s: "sendContractTx rd config m env w = tx_failed rd config env True e msg ?w"
    using may_submit_submits [OF assms(1)] by auto
  obtain tripped where "fst (record_failure rd config env (se_outcomeAt env) msg ?w) = Inr tripped"
    "loadCircuitBreakerState (rd_dateParse rd) (tw_breaker (snd (record_failure rd config env (se_outcomeAt env) msg ?w)))
      = Inr (fst (failure_state (tx_breaker config) (se_outcomeAt env) (se_pauseWriteError env) msg st))"
    using breaker_after_failure [OF assms(4-6), of ?w st env "se_outcomeAt env" msg] assms(7) by auto
  then show ?thesis unfolding s
    by (cases "record_failure rd config env (se_outcomeAt env) msg ?w") (auto simp: tx_failed_def)
qed

section \<open>Witnesses\<close>

definition sample_readers :: tx_readers where
  "sample_readers = \<lparr>rd_jsonParse = (\<lambda>_. None),
     rd_dateParse = (\<lambda>s. case s of [] \<Rightarrow> None | c # cs \<Rightarrow>
        Some (if c = CHR ''-'' then - int (string_nat cs) else int (string_nat cs))),
     rd_iso = (\<lambda>t. if t < 0 then CHR ''-'' # nat_string (nat (- t)) else CHR ''+'' # nat_string (nat t)),
     rd_bigint = (\<lambda>_. None)\<rparr>"

lemma sample_dates: "dates_ok sample_readers"
  by (simp add: dates_ok_def sample_readers_def)

definition sample_tx_config :: "int \<Rightarrow> tx_config" where
  "sample_tx_config conf = \<lparr>tx_breaker = \<lparr>kc_circuitBreakerEnabled = True, kc_circuitBreakerMaxFailures = 1,
       kc_circuitBreakerCooldownMs = 60000\<rparr>, tx_keeperPaused = False, tx_dryRun = False, tx_allowTxWhilePending = False,
     tx_maxFeePerGasWei = Some 100, tx_gasLimitMultiplierBps = 12000, tx_maxGasLimit = Some 1000000, tx_maxTotalFeeWei = None,
     tx_confirmations = JNum conf, tx_receiptTimeoutMs = 60000\<rparr>"

definition sample_receipt :: "string \<Rightarrow> receipt" where
  "sample_receipt status = \<lparr>rc_blockNumber = Some (V_big 7), rc_blockHash = Some ''0xab'', rc_status = Some (St_text status),
     rc_gasUsed = Some (V_big 10), rc_effectiveGasPrice = Some (V_big 2), rc_l1Fee = None\<rparr>"

definition sample_poll :: "string \<Rightarrow> poll" where
  "sample_poll status = \<lparr>po_elapsed = 0, po_txNonce = None, po_currentNonce = None,
     po_receiptPublic = Some (Some (sample_receipt status)), po_receiptWallet = None, po_tipPublic = Some (V_big 9),
     po_tipWallet = None, po_freshPublic = Some (Some (sample_receipt status)), po_freshWallet = None,
     po_hashPublic = Some (Some ''0xab''), po_hashWallet = None\<rparr>"

definition sample_send :: "string \<Rightarrow> int \<Rightarrow> send_env" where
  "sample_send status after = \<lparr>se_now = 0, se_pauseFile = \<lparr>pf_path = [], pf_stat = NotAFile, pf_content = None\<rparr>,
     se_walletCounts = None, se_publicCounts = Inr (V_num 3, V_num 3), se_baseFee = Inr (Some (V_big 50)),
     se_estimate = Inr 21000, se_estimateAt = 1, se_baseFeeAgain = Inr None, se_recheckAt = 2,
     se_recheckPauseFile = \<lparr>pf_path = [], pf_stat = NotAFile, pf_content = None\<rparr>, se_balanceBefore = Some 1000,
     se_write = Inr ''0x1234'', se_polls = [sample_poll status], se_balanceAfter = Some after, se_outcomeAt = 5,
     se_pauseWriteError = None\<rparr>"

definition sample_world :: tx_world where
  "sample_world = \<lparr>tw_breaker = FileMissing, tw_submitted = 0, tw_alerts = []\<rparr>"

lemma sample_may_submit: "may_submit sample_readers (sample_tx_config conf) None (sample_send status after) sample_world"
  by (simp add: may_submit_def sample_tx_config_def sample_send_def sample_world_def is_paused_def getPauseInfo_def
    not_paused_def breaker_pauses_def assertCircuitBreakerStateHealthy_def loadCircuitBreakerState_def initState_def
    getCircuitBreakerPauseInfo_def pendingGuard_def to_bigint_def base_fee_too_high_def gas_limit_def Let_def)

lemma sample_wait:
  "conf \<in> {1, 3} \<Longrightarrow> waitForReceiptWithConfirmations parse (JNum conf) 60000 [sample_poll status] = Got (sample_receipt status)"
  by (auto simp: waitForReceiptWithConfirmations_def parsePositiveSafeInteger_def parse_num MAX_SAFE_INTEGER_def is_replaced_def
    tryGetReceiptAny_def confirm_stage_def block_of_def to_bigint_def tryGetTipWithSource_def not_canonical_def hash_text_def
    tryGetCanonicalBlockHash_def sample_poll_def sample_receipt_def Let_def)

lemma sample_submit:
  "sendContractTx sample_readers (sample_tx_config 1) None (sample_send ''success'' 1000) sample_world
     = (Sent ''0x1234'' (sample_receipt ''success'') (Some (PartialRebate 20, 0, 20)),
        snd (sendContractTx sample_readers (sample_tx_config 1) None (sample_send ''success'' 1000) sample_world))"
proof (rule prod_eqI)
  have "submit sample_readers (sample_tx_config 1) (sample_send ''success'' 1000) sample_world
      = (let w = sample_world\<lparr>tw_submitted := 1\<rparr>; v = audit sample_readers (sample_send ''success'' 1000) (sample_receipt ''success'')
         in (Sent ''0x1234'' (sample_receipt ''success'') v,
             record_success sample_readers (sample_tx_config 1) (sample_send ''success'' 1000)
               (report_violation sample_readers (sample_tx_config 1) (sample_send ''success'' 1000) v w)))"
    using sample_wait [of 1 "rd_bigint sample_readers" "''success''"]
    by (simp add: submit_def sample_send_def sample_tx_config_def sample_world_def receiptStatusOk_def sample_receipt_def Let_def)
  moreover have "audit sample_readers (sample_send ''success'' 1000) (sample_receipt ''success'') = Some (PartialRebate 20, 0, 20)"
    by (simp add: audit_def sample_send_def total_cost_def sample_receipt_def to_bigint_def assertKeeperEoaPayoutBound_def Let_def)
  ultimately show "fst (sendContractTx sample_readers (sample_tx_config 1) None (sample_send ''success'' 1000) sample_world)
      = fst (Sent ''0x1234'' (sample_receipt ''success'') (Some (PartialRebate 20, 0, 20)),
        snd (sendContractTx sample_readers (sample_tx_config 1) None (sample_send ''success'' 1000) sample_world))"
    using may_submit_submits [OF sample_may_submit] by (simp add: Let_def)
qed simp

lemma sample_max: "effectiveMaxFailures (tx_breaker (sample_tx_config conf)) + 10 \<le> MAX_SAFE_INTEGER"
  by (simp add: sample_tx_config_def effectiveMaxFailures_def MAX_SAFE_INTEGER_def)

theorem submission_guarded_witness:
  "may_submit sample_readers (sample_tx_config 1) None (sample_send ''success'' 1000) sample_world
   \<and> tw_submitted (snd (sendContractTx sample_readers (sample_tx_config 1) None (sample_send ''success'' 1000) sample_world)) = 1"
  using submission_guarded [of sample_readers "sample_tx_config 1" None "sample_send ''success'' 1000" sample_world]
    sample_submit sample_may_submit
  by (cases "sendContractTx sample_readers (sample_tx_config 1) None (sample_send ''success'' 1000) sample_world")
    (auto simp: sample_world_def le_Suc_eq)

theorem confirmed_receipt_witness:
  "\<exists>p \<in> {sample_poll ''success''}. \<exists>tip fromWallet. tryGetTipWithSource (\<lambda>_. None) p = Some (tip, fromWallet) \<and> 7 + 2 \<le> tip"
  using confirmed_receipt_is_deep [of "\<lambda>_. None" 3 60000 "[sample_poll ''success'']" "sample_receipt ''success''"] sample_wait [of 3]
  by (auto simp: MAX_SAFE_INTEGER_def block_of_def sample_receipt_def to_bigint_def)

theorem violation_leaves_no_failure_witness:
  "\<exists>w'. sendContractTx sample_readers (sample_tx_config 1) None (sample_send ''success'' 1000) sample_world
      = (Sent ''0x1234'' (sample_receipt ''success'') (Some (PartialRebate 20, 0, 20)), w')
    \<and> breaker_pauses sample_readers (sample_tx_config 1) 6 w' = Inr False"
  using violation_leaves_no_failure [OF sample_submit sample_dates _ sample_max, of 6] sample_submit
  by (fastforce simp: sample_tx_config_def)

theorem unconfirmed_counts_witness:
  "\<exists>e st. fst (sendContractTx sample_readers (sample_tx_config 1) None (sample_send ''odd'' 980) sample_world) = Send_throws e
    \<and> loadCircuitBreakerState (rd_dateParse sample_readers)
        (tw_breaker (snd (sendContractTx sample_readers (sample_tx_config 1) None (sample_send ''odd'' 980) sample_world))) = Inr st
    \<and> cb_consecutiveFailures st = 1"
proof -
  have load: "loadCircuitBreakerState (rd_dateParse sample_readers) (tw_breaker sample_world) = Inr initState"
    by (simp add: loadCircuitBreakerState_def sample_world_def)
  have "receiptStatusOk (rc_status (sample_receipt ''odd'')) \<noteq> Some True"
    by code_simp
  then have n: "\<forall>r. waitForReceiptWithConfirmations (rd_bigint sample_readers) (tx_confirmations (sample_tx_config 1))
      (tx_receiptTimeoutMs (sample_tx_config 1)) (se_polls (sample_send ''odd'' 980)) = Got r
      \<longrightarrow> receiptStatusOk (rc_status r) \<noteq> Some True"
    using sample_wait [of 1] by (auto simp: sample_tx_config_def sample_send_def)
  have one: "cb_consecutiveFailures (fst (failure_state (tx_breaker (sample_tx_config 1)) 5 None msg initState)) = 1" for msg
    by (simp add: failure_state_def initState_def cooldown_expired_def getEffectivePausedUntil_def parse_num
      MAX_SAFE_INTEGER_def sample_tx_config_def effectiveMaxFailures_def Let_def)
  have "se_write (sample_send ''odd'' 980) = Inr ''0x1234''" "kc_circuitBreakerEnabled (tx_breaker (sample_tx_config 1))"
    by (simp_all add: sample_send_def sample_tx_config_def)
  from unconfirmed_counts_as_failure [OF sample_may_submit this(1) n sample_dates this(2) sample_max load] one
  show ?thesis by (auto simp: sample_send_def)
qed

end
