(* ===== verification/LockScan.thy ===== *)
theory LockScan
  imports TxSend
begin

text \<open>
  The scan of lock events that two tasks of the keeper share (\<open>scanLockEvents\<close> of \<open>src/keeper/src/tasks/automax_bonus.ts\<close>
  and of \<open>src/keeper/src/tasks/checkpoint_before_expiry.ts\<close>, \<open>src/keeper/src/shared/lock_events.ts\<close>): it resumes with an
  overlap, goes through the blocks in chunks, applies the events of a chunk in chain order to a table of
  locks, and saves the table after each chunk.

  \<^item> \<open>getLogsWithAutoSplit\<close> (\<open>RpcLogs\<close>) for one kind of event and a range is an argument; it may throw. What an event
    does to the table is an argument too: the two tasks differ in it alone.
  \<^item> The interface \<open>event_index\<close> asks of it that replaying a list of events right after itself changes
    nothing, and proves that the table is the replay of the chain. Both tasks are instances.
  \<^item> A table is a list in ascending order of ids, which is the order of the integer keys of an object.
\<close>

section \<open>Events\<close>

datatype lock_body =
  Lock_created string int int bool   \<comment> \<open>user, token, end, auto-max\<close>
| Lock_extended string int int   \<comment> \<open>user, token, new end\<close>
| Lock_unlocked int
| Lock_merged string int int   \<comment> \<open>user, from, into\<close>
| Lock_automax string int bool

record 'b chain_event =
  le_block :: int
  le_index :: int
  le_body :: 'b

type_synonym lock_event = "lock_body chain_event"

datatype event_kind = Kind_created | Kind_extended | Kind_unlocked | Kind_merged | Kind_automax

definition kind_of :: "lock_event \<Rightarrow> event_kind" where
  "kind_of e =
     (case le_body e of
        Lock_created _ _ _ _ \<Rightarrow> Kind_created
      | Lock_extended _ _ _ \<Rightarrow> Kind_extended
      | Lock_unlocked _ \<Rightarrow> Kind_unlocked
      | Lock_merged _ _ _ \<Rightarrow> Kind_merged
      | Lock_automax _ _ _ \<Rightarrow> Kind_automax)"

definition position :: "'b chain_event \<Rightarrow> int \<times> int" where
  "position e = (le_block e, le_index e)"

type_synonym log_source = "event_kind \<Rightarrow> int \<Rightarrow> int \<Rightarrow> lock_event list option"

text \<open>The five requests of a chunk; one that throws makes the scan throw.\<close>

definition chunkEvents :: "log_source \<Rightarrow> int \<Rightarrow> int \<Rightarrow> lock_event list option" where
  "chunkEvents src f t =
     (case (src Kind_created f t, src Kind_extended f t, src Kind_unlocked f t, src Kind_merged f t, src Kind_automax f t) of
        (Some created, Some extended, Some unlocked, Some merged, Some automaxSet) \<Rightarrow>
          Some (sort_key position (created @ extended @ unlocked @ merged @ automaxSet))
      | _ \<Rightarrow> None)"

text \<open>\<open>resolveLockInfoForEvent\<close>: amount, end and flag of a token at a block; \<open>None\<close> when the read fails.\<close>

type_synonym lock_reads = "int \<Rightarrow> int \<Rightarrow> (int \<times> int \<times> bool) option"

section \<open>Tables of locks\<close>

fun put_lock :: "int \<Rightarrow> 'v \<Rightarrow> (int \<times> 'v) list \<Rightarrow> (int \<times> 'v) list" where
  "put_lock k v [] = [(k, v)]"
| "put_lock k v ((j, w) # l) =
     (if k < j then (k, v) # (j, w) # l else if k = j then (k, v) # l else (j, w) # put_lock k v l)"

definition del_lock :: "int \<Rightarrow> (int \<times> 'v) list \<Rightarrow> (int \<times> 'v) list" where
  "del_lock k l = filter (\<lambda>(j, _). j \<noteq> k) l"

definition ordered :: "(int \<times> 'v) list \<Rightarrow> bool" where
  "ordered l \<longleftrightarrow> sorted_wrt (<) (map fst l)"

lemma ordered_simps [simp]:
  "ordered []"
  "ordered ((k, v) # l) \<longleftrightarrow> (\<forall>(j, _) \<in> set l. k < j) \<and> ordered l"
  by (auto simp: ordered_def)

lemma put_lock_set: "set (put_lock k v l) \<subseteq> insert (k, v) (set l)"
  by (induction l rule: put_lock.induct [of _ k v]) auto

lemma ordered_put [simp]: "ordered l \<Longrightarrow> ordered (put_lock k v l)"
proof (induction k v l rule: put_lock.induct)
  case (2 k v j w l)
  then show ?case using put_lock_set [of k v l] by (fastforce split: if_splits)
qed simp

lemma ordered_del [simp]: "ordered l \<Longrightarrow> ordered (del_lock k l)"
  by (induction l) (auto simp: del_lock_def)

lemma map_of_put [simp]: "ordered l \<Longrightarrow> map_of (put_lock k v l) = (map_of l)(k \<mapsto> v)"
proof (induction k v l rule: put_lock.induct)
  case (2 k v j w l)
  then show ?case by (auto simp: fun_eq_iff)
qed simp

lemma map_of_del [simp]: "map_of (del_lock k l) = (map_of l)(k := None)"
  by (induction l) (auto simp: del_lock_def fun_eq_iff)

lemma ordered_unique:
  assumes "ordered l" "ordered m" "map_of l = map_of m"
  shows "l = m"
proof -
  have d: "sorted (map fst l)" "distinct (map fst l)" "sorted (map fst m)" "distinct (map fst m)"
    using assms(1,2) by (auto simp: ordered_def strict_sorted_iff)
  then have "set l = set m" using assms(3) map_of_inject_set by blast
  moreover from this have "inj_on fst (set l \<union> set m)" using d(2) by (simp add: distinct_map)
  ultimately show ?thesis using d by (intro map_sorted_distinct_set_unique)
qed

section \<open>The scan\<close>

text \<open>What a task keeps in its file; the marks are the times by owner that each task adds.\<close>

record 't task_index =
  ti_lastScannedBlock :: int
  ti_locks :: 't
  ti_marks :: "string \<rightharpoonup> int"

definition CHAIN_REWIND_TOLERANCE :: int where
  "CHAIN_REWIND_TOLERANCE = 64"

definition SCAN_OVERLAP_BLOCKS :: int where
  "SCAN_OVERLAP_BLOCKS = CHAIN_REWIND_TOLERANCE"

definition init_index :: "'t \<Rightarrow> 't task_index" where
  "init_index none = \<lparr>ti_lastScannedBlock = 0, ti_locks = none, ti_marks = Map.empty\<rparr>"

text \<open>The raw file, read leniently: a number that \<open>BigInt\<close> does not read counts as 0, a field that is no object as empty.\<close>

definition load_index :: "'t \<Rightarrow> (int option \<times> 't option \<times> (string \<rightharpoonup> int) option) option \<Rightarrow> 't task_index" where
  "load_index none raw =
     (case raw of
        None \<Rightarrow> init_index none
      | Some (lastBlock, locks, marks) \<Rightarrow>
          \<lparr>ti_lastScannedBlock = (case lastBlock of Some n \<Rightarrow> n | None \<Rightarrow> 0),
           ti_locks = (case locks of Some l \<Rightarrow> l | None \<Rightarrow> none),
           ti_marks = (case marks of Some m \<Rightarrow> m | None \<Rightarrow> Map.empty)\<rparr>)"

text \<open>Whether the loop ended, the next block, and the table and block last saved. \<open>chunk\<close> is at least 1.\<close>

function scanChunks ::
  "('t \<Rightarrow> lock_event \<Rightarrow> 't) \<Rightarrow> log_source \<Rightarrow> int \<Rightarrow> int \<Rightarrow> int \<Rightarrow> 't task_index \<Rightarrow> bool \<times> int \<times> 't task_index" where
  "scanChunks apply_event src chunk latest f s =
     (if f > latest then (True, f, s)
      else let upto = (if f + max 1 chunk - 1 > latest then latest else f + max 1 chunk - 1)
           in case chunkEvents src f upto of
                None \<Rightarrow> (False, f, s)
              | Some es \<Rightarrow> scanChunks apply_event src chunk latest (upto + 1)
                  (s\<lparr>ti_lastScannedBlock := upto, ti_locks := foldl apply_event (ti_locks s) es\<rparr>))"
  by pat_completeness auto
termination by (relation "measure (\<lambda>(_, _, _, latest, f, _). nat (latest + 1 - f))") (auto simp: max_def split: if_splits)

declare scanChunks.simps [simp del]

definition chunk_size :: "int option \<Rightarrow> int" where
  "chunk_size chunkBlocks = max 1 (case chunkBlocks of Some n \<Rightarrow> n | None \<Rightarrow> 1000)"

definition resume_block :: "int \<Rightarrow> int \<Rightarrow> int" where
  "resume_block startBlock lastScanned =
     (let start = max 0 startBlock;
          resumeFrom = (if lastScanned > 0
                        then (if lastScanned + 1 > SCAN_OVERLAP_BLOCKS then lastScanned + 1 - SCAN_OVERLAP_BLOCKS else 0)
                        else start)
      in if resumeFrom > start then resumeFrom else start)"

text \<open>The result, \<open>None\<close> when the scan throws, and the file afterwards.\<close>

definition scanLockEvents ::
  "('t \<Rightarrow> lock_event \<Rightarrow> 't) \<Rightarrow> 't \<Rightarrow> log_source \<Rightarrow> int \<Rightarrow> int option \<Rightarrow> int \<Rightarrow> 't task_index
     \<Rightarrow> 't task_index option \<times> 't task_index" where
  "scanLockEvents apply_event none src startBlock chunkBlocks latest file =
     (let s = (if ti_lastScannedBlock file > latest + CHAIN_REWIND_TOLERANCE then init_index none else file);
          from0 = resume_block startBlock (ti_lastScannedBlock s)
      in if from0 > latest then (Some s, file)
         else case scanChunks apply_event src (chunk_size chunkBlocks) latest from0 s of
                (ok, f, s') \<Rightarrow> (if ok then Some s' else None, if f = from0 then file else s'))"

text \<open>Without a configured first block the tasks look back a fixed distance from the head.\<close>

definition scan_start :: "int option \<Rightarrow> int \<Rightarrow> int" where
  "scan_start startBlock latest =
     (case startBlock of Some b \<Rightarrow> if b \<le> 0 then max 0 (latest - 50000) else b | None \<Rightarrow> max 0 (latest - 50000))"

section \<open>The chain and its history\<close>

definition history :: "'b chain_event list \<Rightarrow> int \<Rightarrow> int \<Rightarrow> 'b chain_event list" where
  "history evs f t = sort_key position (filter (\<lambda>e. f \<le> le_block e \<and> le_block e \<le> t) evs)"

text \<open>Every answer of the source has every event of its kind and range once.\<close>

definition honest_source :: "lock_event list \<Rightarrow> log_source \<Rightarrow> bool" where
  "honest_source evs src \<longleftrightarrow>
     (\<forall>k f t l. src k f t = Some l \<longrightarrow> distinct l \<and> set l = {e \<in> set evs. kind_of e = k \<and> f \<le> le_block e \<and> le_block e \<le> t})"

lemma same_events:
  assumes "sorted (map position l)" "sorted (map position m)" "distinct l" "distinct m" "set l = set m"
    "inj_on position (set l)"
  shows "l = m"
  using assms by (intro map_sorted_distinct_set_unique [of position]) (simp_all add: distinct_map)

lemma history_facts:
  assumes "distinct (map position evs)"
  shows "sorted (map position (history evs f t))" "distinct (history evs f t)"
    "set (history evs f t) = {e \<in> set evs. f \<le> le_block e \<and> le_block e \<le> t}" "inj_on position (set (history evs f t))"
  using assms by (auto simp: history_def distinct_map inj_on_subset intro!: distinct_filter)

lemma chunkEvents_history:
  assumes "distinct (map position evs)" "honest_source evs src" "chunkEvents src f t = Some es"
  shows "es = history evs f t"
proof -
  obtain c e u m a where l: "src Kind_created f t = Some c" "src Kind_extended f t = Some e" "src Kind_unlocked f t = Some u"
    "src Kind_merged f t = Some m" "src Kind_automax f t = Some a" "es = sort_key position (c @ e @ u @ m @ a)"
    using assms(3) by (auto simp: chunkEvents_def split: option.splits)
  have h: "distinct x \<and> set x = {e \<in> set evs. kind_of e = k \<and> f \<le> le_block e \<and> le_block e \<le> t}" if "src k f t = Some x" for k x
    using assms(2) that by (simp add: honest_source_def)
  note parts = h [OF l(1)] h [OF l(2)] h [OF l(3)] h [OF l(4)] h [OF l(5)]
  have "distinct es" using parts by (auto simp: l(6))
  moreover have "set es = set (history evs f t)"
    using parts event_kind.exhaust by (auto simp: l(6) history_facts(3) [OF assms(1)])
  ultimately show ?thesis
    using history_facts [OF assms(1), of f t] by (intro same_events) (simp_all add: l(6))
qed

lemma history_split:
  assumes "distinct (map position evs)" "f \<le> m + 1" "m \<le> t"
  shows "history evs f t = history evs f m @ history evs (m + 1) t"
proof (rule same_events)
  note hf = history_facts [OF assms(1)]
  have "position x \<le> position y" if "x \<in> set (history evs f m)" "y \<in> set (history evs (m + 1) t)" for x y
    using that by (auto simp: hf(3) position_def less_eq_prod_def)
  then show "sorted (map position (history evs f m @ history evs (m + 1) t))"
    using hf(1) [of f m] hf(1) [of "m + 1" t] by (auto simp: sorted_append)
  show "distinct (history evs f m @ history evs (m + 1) t)" using hf by auto
  show "set (history evs f t) = set (history evs f m @ history evs (m + 1) t)" using assms(2,3) by (auto simp: hf(3))
qed (use history_facts [OF assms(1)] in auto)

lemma history_empty: "t < f \<Longrightarrow> history evs f t = []"
  by (auto simp: history_def filter_empty_conv)

section \<open>The table is the replay of the chain\<close>

lemma scanChunks_result:
  assumes "distinct (map position evs)"
  shows "scanChunks apply_event src chunk latest f s = (ok, f', s') \<Longrightarrow> f \<le> latest + 1 \<Longrightarrow> honest_source evs src \<Longrightarrow>
    f \<le> f' \<and> f' \<le> latest + 1 \<and> (ok \<longrightarrow> f' = latest + 1)
    \<and> ti_locks s' = foldl apply_event (ti_locks s) (history evs f (f' - 1))
    \<and> (f' \<noteq> f \<longrightarrow> ti_lastScannedBlock s' = f' - 1 \<and> min (f + max 1 chunk) (latest + 1) \<le> f')
    \<and> (f' = f \<longrightarrow> s' = s) \<and> ti_marks s' = ti_marks s"
proof (induction apply_event src chunk latest f s rule: scanChunks.induct)
  case (1 apply_event src0 chunk latest f s)
  define upto where "upto = (if f + max 1 chunk - 1 > latest then latest else f + max 1 chunk - 1)"
  note eq = "1.prems"(1) [unfolded scanChunks.simps [of apply_event src0 chunk latest f s] Let_def, folded upto_def]
  show ?case
  proof (cases "f > latest")
    case True
    with eq "1.prems"(2) show ?thesis by (auto simp: history_empty)
  next
    case False
    then have u: "f \<le> upto" "upto \<le> latest" "min (f + max 1 chunk) (latest + 1) \<le> upto + 1" by (auto simp: upto_def)
    show ?thesis
    proof (cases "chunkEvents src0 f upto")
      case None
      with eq False show ?thesis by (auto simp: history_empty)
    next
      case (Some es)
      let ?s = "s\<lparr>ti_lastScannedBlock := upto, ti_locks := foldl apply_event (ti_locks s) es\<rparr>"
      have run: "scanChunks apply_event src0 chunk latest (upto + 1) ?s = (ok, f', s')" using eq False Some by simp
      have IH: "upto + 1 \<le> f' \<and> f' \<le> latest + 1 \<and> (ok \<longrightarrow> f' = latest + 1)
        \<and> ti_locks s' = foldl apply_event (ti_locks ?s) (history evs (upto + 1) (f' - 1))
        \<and> (f' \<noteq> upto + 1 \<longrightarrow> ti_lastScannedBlock s' = f' - 1 \<and> min (upto + 1 + max 1 chunk) (latest + 1) \<le> f')
        \<and> (f' = upto + 1 \<longrightarrow> s' = ?s) \<and> ti_marks s' = ti_marks ?s"
        by (rule "1.IH" [OF False upto_def Some run _ "1.prems"(3)]) (use u in simp)
      have es: "es = history evs f upto" by (rule chunkEvents_history [OF assms(1) "1.prems"(3) Some])
      have "history evs f (f' - 1) = es @ history evs (upto + 1) (f' - 1)"
        unfolding es by (rule history_split [OF assms(1)]) (use u IH in auto)
      with IH u show ?thesis by (cases "f' = upto + 1") auto
    qed
  qed
qed

text \<open>
  What a task's table may be: nothing yet, or the events of the chain from the first block to the last one scanned,
  applied in order.
\<close>

definition indexed :: "('t \<Rightarrow> lock_event \<Rightarrow> 't) \<Rightarrow> 't \<Rightarrow> lock_event list \<Rightarrow> int \<Rightarrow> 't task_index \<Rightarrow> bool" where
  "indexed apply_event none evs startBlock s \<longleftrightarrow>
     ti_lastScannedBlock s = 0 \<and> ti_locks s = none
     \<or> max 0 startBlock \<le> ti_lastScannedBlock s
       \<and> ti_locks s = foldl apply_event none (history evs (max 0 startBlock) (ti_lastScannedBlock s))"

text \<open>
  The scans and the marks of a task, in any order. A scan may throw at any chunk, if its first chunk covers the overlap;
  the head of the chain does not go back.
\<close>

inductive index_reach :: "('t \<Rightarrow> lock_event \<Rightarrow> 't) \<Rightarrow> 't \<Rightarrow> lock_event list \<Rightarrow> int \<Rightarrow> 't task_index \<Rightarrow> bool"
  for apply_event none evs startBlock where
  fresh: "index_reach apply_event none evs startBlock (init_index none)"
| scanned: "index_reach apply_event none evs startBlock s \<Longrightarrow> honest_source evs src \<Longrightarrow> ti_lastScannedBlock s \<le> latest
    \<Longrightarrow> scanLockEvents apply_event none src startBlock chunkBlocks latest s = (r, s')
    \<Longrightarrow> r \<noteq> None \<or> SCAN_OVERLAP_BLOCKS \<le> chunk_size chunkBlocks
    \<Longrightarrow> index_reach apply_event none evs startBlock s'"
| marked: "index_reach apply_event none evs startBlock s \<Longrightarrow> index_reach apply_event none evs startBlock (s\<lparr>ti_marks := m\<rparr>)"

locale event_index =
  fixes good :: "'t \<Rightarrow> bool"
    and none :: 't
    and apply_event :: "'t \<Rightarrow> lock_event \<Rightarrow> 't"
  assumes good_none: "good none"
    and good_apply: "good t \<Longrightarrow> good (apply_event t e)"
    and replay_again: "good t \<Longrightarrow> foldl apply_event (foldl apply_event t es) es = foldl apply_event t es"
begin

lemma good_replay: "good t \<Longrightarrow> good (foldl apply_event t es)"
  by (induction es arbitrary: t) (auto intro: good_apply)

lemma good_chunks:
  "good (ti_locks s) \<Longrightarrow> good (ti_locks (snd (snd (scanChunks apply_event src chunk latest f s))))"
proof (induction "nat (latest + 1 - f)" arbitrary: f s rule: less_induct)
  case less
  define upto where "upto = (if f + max 1 chunk - 1 > latest then latest else f + max 1 chunk - 1)"
  show ?case
  proof (cases "f > latest \<or> chunkEvents src f upto = None")
    case True
    then show ?thesis using less.prems by (subst scanChunks.simps) (auto simp: Let_def upto_def [symmetric])
  next
    case False
    then obtain es where es: "chunkEvents src f upto = Some es" by auto
    have "f \<le> upto" using False by (auto simp: upto_def)
    then have "nat (latest + 1 - (upto + 1)) < nat (latest + 1 - f)" using False by auto
    from less.hyps [OF this] show ?thesis
      using False es less.prems by (subst scanChunks.simps) (simp add: Let_def upto_def [symmetric] good_replay)
  qed
qed

lemma good_scan:
  assumes "good (ti_locks file)" "scanLockEvents apply_event none src startBlock chunkBlocks latest file = (Some s, f)"
  shows "good (ti_locks s)"
proof -
  define s0 where "s0 = (if ti_lastScannedBlock file > latest + CHAIN_REWIND_TOLERANCE then init_index none else file)"
  have "good (ti_locks s0)" using assms(1) good_none by (simp add: s0_def init_index_def)
  then show ?thesis
    using assms(2) good_chunks [of s0 src "chunk_size chunkBlocks" latest "resume_block startBlock (ti_lastScannedBlock s0)"]
    unfolding scanLockEvents_def Let_def s0_def [symmetric] by (auto split: if_splits prod.splits)
qed

lemma overlap_harmless:
  assumes "distinct (map position evs)" "a \<le> f" "f \<le> l + 1" "l \<le> u"
  shows "foldl apply_event (foldl apply_event none (history evs a l)) (history evs f u)
    = foldl apply_event none (history evs a u)"
proof (cases "f = a")
  case True
  have "history evs a u = history evs a l @ history evs (l + 1) u"
    by (rule history_split [OF assms(1)]) (use assms True in auto)
  then show ?thesis using True by (simp add: replay_again [OF good_none])
next
  case False
  have 1: "history evs a l = history evs a (f - 1) @ history evs f l"
    using history_split [OF assms(1), of a "f - 1" l] assms False by simp
  have 2: "history evs f u = history evs f l @ history evs (l + 1) u"
    by (rule history_split [OF assms(1)]) (use assms in auto)
  have 3: "history evs a u = history evs a (f - 1) @ history evs f u"
    using history_split [OF assms(1), of a "f - 1" u] assms False by simp
  show ?thesis unfolding 1 3 2 by (simp add: replay_again [OF good_replay [OF good_none]])
qed

lemma scan_keeps_index:
  assumes "distinct (map position evs)" "honest_source evs src" "indexed apply_event none evs startBlock s"
    "ti_lastScannedBlock s \<le> latest" "scanLockEvents apply_event none src startBlock chunkBlocks latest s = (r, s')"
    "r \<noteq> None \<or> SCAN_OVERLAP_BLOCKS \<le> chunk_size chunkBlocks"
  shows "indexed apply_event none evs startBlock s'"
proof -
  let ?f = "resume_block startBlock (ti_lastScannedBlock s)" and ?l = "ti_lastScannedBlock s" and ?a = "max 0 startBlock"
  show ?thesis
  proof (cases "?f > latest \<or> s' = s")
    case True
    then show ?thesis using assms(3-5) by (auto simp: scanLockEvents_def Let_def CHAIN_REWIND_TOLERANCE_def)
  next
    case False
    then obtain ok g where run: "scanChunks apply_event src (chunk_size chunkBlocks) latest ?f s = (ok, g, s')" "g \<noteq> ?f"
      "ok \<longleftrightarrow> r \<noteq> None"
      using assms(4,5) by (auto simp: scanLockEvents_def Let_def CHAIN_REWIND_TOLERANCE_def split: prod.splits if_splits)
    note res = scanChunks_result [OF assms(1) run(1) _ assms(2)]
    have f: "?a \<le> ?f" "?f \<le> max ?a (?l + 1)" "?l + 1 \<le> ?f + SCAN_OVERLAP_BLOCKS"
      by (auto simp: resume_block_def Let_def SCAN_OVERLAP_BLOCKS_def CHAIN_REWIND_TOLERANCE_def)
    have g: "ti_lastScannedBlock s' = g - 1" "?f \<le> g - 1" "ti_locks s' = foldl apply_event (ti_locks s) (history evs ?f (g - 1))"
      using res False run(2) by auto
    have "?l \<le> g - 1"
      using res False run(2,3) assms(4,6) f(3) by (auto simp: SCAN_OVERLAP_BLOCKS_def CHAIN_REWIND_TOLERANCE_def)
    show ?thesis
    proof (cases "ti_locks s = none \<and> ?l = 0")
      case True
      then have "?f = ?a" by (simp add: resume_block_def Let_def)
      with True g f show ?thesis by (auto simp: indexed_def)
    next
      case False
      with assms(3) have "?a \<le> ?l" and l: "ti_locks s = foldl apply_event none (history evs ?a ?l)"
        by (auto simp: indexed_def)
      then have "ti_locks s' = foldl apply_event none (history evs ?a (g - 1))"
        unfolding g(3) l by (intro overlap_harmless [OF assms(1)]) (use f \<open>?l \<le> g - 1\<close> in auto)
      with g(1,2) f(1) show ?thesis by (auto simp: indexed_def)
    qed
  qed
qed

lemma reach_indexed:
  assumes "distinct (map position evs)" "index_reach apply_event none evs startBlock s"
  shows "indexed apply_event none evs startBlock s"
  using assms(2)
proof (induction rule: index_reach.induct)
  case (scanned s src latest chunkBlocks r s')
  then show ?case using scan_keeps_index [OF assms(1)] by blast
qed (auto simp: indexed_def init_index_def)

end

end
