(* ===== verification/MorningWindow.thy ===== *)
theory MorningWindow
  imports Prelude "HOL-Library.AList"
begin

text \<open>
  The guess of a user's morning (\<open>src/keeper/src/shared/user_morning.ts\<close>): the end of the longest quiet gap in the hours of
  the day, the cache of these guesses, and the window that a task waits for.

  \<^item> The answers of the subgraph are arguments: the active users and the times of a user's activity, \<open>None\<close> when the
    query fails. The clock is an argument. A user without a guess is \<open>None\<close> in the cache.
\<close>

definition MIN_EVENTS :: nat where
  "MIN_EVENTS = 10"

definition REFRESH_INTERVAL_MS :: int where
  "REFRESH_INTERVAL_MS = 7 * 24 * 60 * 60 * 1000"

definition hour_of :: "nat \<Rightarrow> nat" where
  "hour_of ts = (ts mod 86400) div 3600"

definition events_at :: "nat list \<Rightarrow> nat \<Rightarrow> nat" where
  "events_at timestamps h = length (filter (\<lambda>ts. hour_of ts = h) timestamps)"

text \<open>A twentieth of the events, rounded down, but at least one.\<close>

definition lowThreshold :: "nat list \<Rightarrow> nat" where
  "lowThreshold timestamps = max 1 (length timestamps div 20)"

definition quiet :: "nat list \<Rightarrow> nat \<Rightarrow> bool" where
  "quiet timestamps h \<longleftrightarrow> events_at timestamps (h mod 24) < lowThreshold timestamps"

definition quiet_run :: "nat list \<Rightarrow> nat \<Rightarrow> nat" where
  "quiet_run timestamps start = length (takeWhile (\<lambda>offset. quiet timestamps (start + offset)) [0..<24])"

definition longer :: "nat list \<Rightarrow> nat \<Rightarrow> nat \<times> nat \<Rightarrow> nat \<times> nat" where
  "longer timestamps start best =
     (let len = quiet_run timestamps start in if len > snd best then (start, len) else best)"

definition bestGap :: "nat list \<Rightarrow> nat \<times> nat" where
  "bestGap timestamps = fold (longer timestamps) [0..<24] (0, 0)"

definition detectMorningHour :: "nat list \<Rightarrow> nat option" where
  "detectMorningHour timestamps =
     (if length timestamps < MIN_EVENTS then None
      else case bestGap timestamps of
             (bestStart, bestLen) \<Rightarrow> if bestLen < 4 then None else Some ((bestStart + bestLen) mod 24))"

section \<open>The cache and the window\<close>

record morning_cache =
  mc_refreshedAtMs :: int
  mc_users :: "(string \<times> nat option) list"

definition initCache :: morning_cache where
  "initCache = \<lparr>mc_refreshedAtMs = 0, mc_users = []\<rparr>"

definition isInMorningWindow :: "morning_cache \<Rightarrow> nat \<Rightarrow> string \<Rightarrow> int \<Rightarrow> bool" where
  "isInMorningWindow cache currentHourUtc userAddress windowHours =
     (case map_of (mc_users cache) (toLowerCase userAddress) of
        Some (Some morning) \<Rightarrow>
          (let diff = \<bar>int currentHourUtc - int morning\<bar>;
               circularDiff = min diff (24 - diff)
           in circularDiff \<le> windowHours)
      | _ \<Rightarrow> True)"

definition refresh_user :: "(string \<Rightarrow> nat list option) \<Rightarrow> string \<Rightarrow> (string \<times> nat option) list \<Rightarrow> (string \<times> nat option) list" where
  "refresh_user fetch user users =
     (case fetch (toLowerCase user) of
        Some timestamps \<Rightarrow> AList.update (toLowerCase user) (detectMorningHour timestamps) users
      | None \<Rightarrow> users)"

definition refreshMorningCache ::
  "morning_cache \<Rightarrow> int \<Rightarrow> bool \<Rightarrow> string list \<Rightarrow> string list option \<Rightarrow> (string \<Rightarrow> nat list option) \<Rightarrow> morning_cache" where
  "refreshMorningCache cache nowMs forceRefresh users activeUsers fetch =
     (if \<not> forceRefresh \<and> nowMs - mc_refreshedAtMs cache < REFRESH_INTERVAL_MS \<and> mc_users cache \<noteq> [] then cache
      else case (if users = [] then activeUsers else Some users) of
             None \<Rightarrow> cache
           | Some [] \<Rightarrow> cache
           | Some (u # us) \<Rightarrow>
               \<lparr>mc_refreshedAtMs = nowMs, mc_users = fold (refresh_user fetch) (u # us) (mc_users cache)\<rparr>)"

section \<open>Lemmas\<close>

lemma quiet_run_le: "quiet_run timestamps s \<le> 24"
  using length_takeWhile_le [of _ "[0..<24]"] by (simp add: quiet_run_def)

lemma quiet_in_run: "i < quiet_run timestamps s \<Longrightarrow> quiet timestamps (s + i)"
  using nth_mem [of i "takeWhile (\<lambda>offset. quiet timestamps (s + offset)) [0..<24]"]
    takeWhile_nth [of i "\<lambda>offset. quiet timestamps (s + offset)" "[0..<24]"] quiet_run_le [of timestamps s]
    set_takeWhileD [of i "\<lambda>offset. quiet timestamps (s + offset)" "[0..<24]"]
  by (simp add: quiet_run_def)

lemma run_ends: "quiet_run timestamps s < 24 \<Longrightarrow> \<not> quiet timestamps (s + quiet_run timestamps s)"
  using nth_length_takeWhile [of "\<lambda>offset. quiet timestamps (s + offset)" "[0..<24]"] by (simp add: quiet_run_def)

lemma fold_longer:
  "snd b \<le> snd (fold (longer timestamps) l b) \<and> (\<forall>s \<in> set l. quiet_run timestamps s \<le> snd (fold (longer timestamps) l b))
    \<and> (fold (longer timestamps) l b = b
       \<or> fst (fold (longer timestamps) l b) \<in> set l
         \<and> snd (fold (longer timestamps) l b) = quiet_run timestamps (fst (fold (longer timestamps) l b)))"
proof (induction l arbitrary: b)
  case (Cons s l)
  have "longer timestamps s b = b \<or> longer timestamps s b = (s, quiet_run timestamps s)"
    "snd b \<le> snd (longer timestamps s b)" "quiet_run timestamps s \<le> snd (longer timestamps s b)"
    by (auto simp: longer_def Let_def)
  then show ?case using Cons.IH [of "longer timestamps s b"] by auto
qed simp

lemma bestGap_longest:
  assumes "bestGap timestamps = (s, len)"
  shows "\<forall>s' < 24. quiet_run timestamps s' \<le> len" "0 < len \<Longrightarrow> s < 24 \<and> len = quiet_run timestamps s"
  using fold_longer [of "(0, 0)" timestamps "[0..<24]"] assms unfolding bestGap_def by auto

section \<open>Properties\<close>


lemma sample_quiet: "quiet (replicate 10 43200) h \<longleftrightarrow> h mod 24 \<noteq> 12"
  by (simp add: quiet_def events_at_def hour_of_def lowThreshold_def filter_replicate)

lemma hours_of_day: "[0..<24] = [0, 1, 2, 3, 4, 5, 6, 7, 8, 9, 10, 11, 12, 13, 14, 15, 16, 17, 18, 19, 20, 21, 22, 23 :: nat]"
  by code_simp

lemma sample_morning: "detectMorningHour (replicate 10 43200) = Some 12"
  by (simp add: detectMorningHour_def MIN_EVENTS_def bestGap_def longer_def quiet_run_def sample_quiet hours_of_day Let_def)


lemma window_is_circular:
  assumes "h < 24" "m < 24" "map_of (mc_users cache) (toLowerCase user) = Some (Some m)" "0 \<le> w"
  shows "isInMorningWindow cache h user w \<longleftrightarrow> (\<exists>k. \<bar>k\<bar> \<le> w \<and> (int m + k) mod 24 = int h)"
proof -
  define d where "d = int h - int m"
  have d: "\<bar>d\<bar> < 24" using assms(1,2) by (auto simp: d_def)
  have m: "(int m + k) mod 24 = int h \<longleftrightarrow> (\<exists>q. k = d + 24 * q)" for k
  proof
    assume "(int m + k) mod 24 = int h"
    then have "int m + k = int h + 24 * ((int m + k) div 24)" by (metis add.commute mult.commute mod_mult_div_eq mult_div_mod_eq)
    then show "\<exists>q. k = d + 24 * q" by (intro exI [of _ "(int m + k) div 24"]) (simp add: d_def)
  next
    assume "\<exists>q. k = d + 24 * q"
    then obtain q where "int m + k = int h + 24 * q" by (auto simp: d_def)
    then show "(int m + k) mod 24 = int h" using assms(1) by simp
  qed
  have "min \<bar>d\<bar> (24 - \<bar>d\<bar>) \<le> w \<longleftrightarrow> (\<exists>q. \<bar>d + 24 * q\<bar> \<le> w)"
  proof
    assume l: "min \<bar>d\<bar> (24 - \<bar>d\<bar>) \<le> w"
    then consider "\<bar>d\<bar> \<le> w" | "24 - \<bar>d\<bar> \<le> w" by linarith
    then show "\<exists>q. \<bar>d + 24 * q\<bar> \<le> w"
    proof cases
      case 2
      then show ?thesis using d by (cases "0 \<le> d") (force intro: exI [of _ "- 1"], force intro: exI [of _ 1])
    qed (force intro: exI [of _ 0])
  next
    assume "\<exists>q. \<bar>d + 24 * q\<bar> \<le> w"
    then obtain q where "\<bar>d + 24 * q\<bar> \<le> w" by blast
    moreover have "min \<bar>d\<bar> (24 - \<bar>d\<bar>) \<le> \<bar>d + 24 * q\<bar>" using d by (cases "q = 0"; cases "0 < q") (auto simp: min_def abs_if split: if_splits)
    ultimately show "min \<bar>d\<bar> (24 - \<bar>d\<bar>) \<le> w" by linarith
  qed
  then show ?thesis using assms(3) m by (auto simp: isInMorningWindow_def Let_def d_def [symmetric])
qed

lemma refresh_keeps_unfetched:
  "fetch (toLowerCase user) = None \<Longrightarrow> map_of (fold (refresh_user fetch) us l) (toLowerCase user) = map_of l (toLowerCase user)"
  by (induction us arbitrary: l) (auto simp: refresh_user_def update_conv' split: option.splits)

lemma fresh_cache_kept:
  "mc_users cache \<noteq> [] \<Longrightarrow> nowMs < mc_refreshedAtMs cache + REFRESH_INTERVAL_MS
    \<Longrightarrow> refreshMorningCache cache nowMs False users activeUsers fetch = cache"
  by (simp add: refreshMorningCache_def)

end
