(* ===== verification/AutomaxTask.thy ===== *)
theory AutomaxTask
  imports LockScan MorningWindow "HOL-Library.Sublist"
begin

text \<open>
  The task that claims auto-max bonuses (\<open>src/keeper/src/tasks/automax_bonus.ts\<close>): what a lock event does to its table,
  the selection of locks, the filter by reward, and a run, which sends its claims in batches and remembers the
  owners that were served.

  \<^item> The reads of the Furnace and of its quoter are the record \<open>bonus_reads\<close>, one of them per moment; \<open>None\<close> is a read that
    fails. The answer of \<open>sendContractTx\<close> (\<open>TxSend\<close>) to each batch is an argument.
  \<^item> A mark whose text \<open>Date.parse\<close> does not read has the effect of no mark and is left out; the end of a lock
    whose text \<open>BigInt\<close> does not read is \<open>None\<close>. Messages, alerts and the status file are dropped.
\<close>

section \<open>The table of locks\<close>

record lock_rec =
  lr_lockEnd :: "int option"
  lr_autoMax :: bool
  lr_owner :: "string option"

type_synonym lock_table = "(int \<times> lock_rec) list"

definition applyLockEvent :: "lock_reads \<Rightarrow> lock_table \<Rightarrow> lock_event \<Rightarrow> lock_table" where
  "applyLockEvent rd locks e =
     (case le_body e of
        Lock_created user tokenId lockEnd autoMax \<Rightarrow>
          put_lock tokenId \<lparr>lr_lockEnd = Some lockEnd, lr_autoMax = autoMax, lr_owner = Some (toLowerCase user)\<rparr> locks
      | Lock_extended user tokenId newEnd \<Rightarrow>
          (case map_of locks tokenId of
             Some r \<Rightarrow> put_lock tokenId (r\<lparr>lr_lockEnd := Some newEnd\<rparr>) locks
           | None \<Rightarrow> put_lock tokenId \<lparr>lr_lockEnd = Some newEnd, lr_autoMax = False, lr_owner = Some (toLowerCase user)\<rparr> locks)
      | Lock_unlocked tokenId \<Rightarrow> del_lock tokenId locks
      | Lock_merged user fromId intoId \<Rightarrow>
          (let locks = del_lock fromId locks
           in case rd intoId (le_block e) of
                None \<Rightarrow> locks
              | Some (amount, lockEnd, autoMax) \<Rightarrow>
                  if amount = 0 then del_lock intoId locks
                  else put_lock intoId \<lparr>lr_lockEnd = Some lockEnd, lr_autoMax = autoMax, lr_owner = Some (toLowerCase user)\<rparr> locks)
      | Lock_automax user tokenId eventAutoMax \<Rightarrow>
          (case rd tokenId (le_block e) of
             Some (amount, lockEnd, autoMax) \<Rightarrow>
               if amount = 0 then del_lock tokenId locks
               else put_lock tokenId \<lparr>lr_lockEnd = Some lockEnd, lr_autoMax = autoMax, lr_owner = Some (toLowerCase user)\<rparr> locks
           | None \<Rightarrow>
               put_lock tokenId
                 \<lparr>lr_lockEnd = (case map_of locks tokenId of Some r \<Rightarrow> lr_lockEnd r | None \<Rightarrow> Some 0),
                  lr_autoMax = eventAutoMax, lr_owner = Some (toLowerCase user)\<rparr> locks))"

section \<open>Replaying twice\<close>

text \<open>
  For one token an event is nothing, a constant, or an overwriting of some fields of the record (of a default when
  there is none), and so is every list of events.
\<close>

definition overwrite :: "int option option \<Rightarrow> bool option \<Rightarrow> string option option \<Rightarrow> lock_rec \<Rightarrow> lock_rec" where
  "overwrite lockEnd autoMax owner r =
     \<lparr>lr_lockEnd = (case lockEnd of Some x \<Rightarrow> x | None \<Rightarrow> lr_lockEnd r),
      lr_autoMax = (case autoMax of Some x \<Rightarrow> x | None \<Rightarrow> lr_autoMax r),
      lr_owner = (case owner of Some x \<Rightarrow> x | None \<Rightarrow> lr_owner r)\<rparr>"

definition overwriting :: "(lock_rec option \<Rightarrow> lock_rec option) \<Rightarrow> bool" where
  "overwriting h \<longleftrightarrow>
     (\<exists>a b c d. overwrite a b c d = d \<and> h = (\<lambda>x. Some (case x of Some r \<Rightarrow> overwrite a b c r | None \<Rightarrow> d)))"

definition settled :: "(lock_rec option \<Rightarrow> lock_rec option) \<Rightarrow> bool" where
  "settled h \<longleftrightarrow> h = (\<lambda>x. x) \<or> (\<exists>k. h = (\<lambda>_. k)) \<or> overwriting h"

definition token_effect :: "lock_reads \<Rightarrow> lock_event \<Rightarrow> int \<Rightarrow> lock_rec option \<Rightarrow> lock_rec option" where
  "token_effect rd e i x =
     (case le_body e of
        Lock_created user tokenId lockEnd autoMax \<Rightarrow>
          if i = tokenId then Some \<lparr>lr_lockEnd = Some lockEnd, lr_autoMax = autoMax, lr_owner = Some (toLowerCase user)\<rparr> else x
      | Lock_extended user tokenId newEnd \<Rightarrow>
          if i = tokenId then Some (case x of
              Some r \<Rightarrow> r\<lparr>lr_lockEnd := Some newEnd\<rparr>
            | None \<Rightarrow> \<lparr>lr_lockEnd = Some newEnd, lr_autoMax = False, lr_owner = Some (toLowerCase user)\<rparr>) else x
      | Lock_unlocked tokenId \<Rightarrow> if i = tokenId then None else x
      | Lock_merged user fromId intoId \<Rightarrow>
          (case rd intoId (le_block e) of
             Some (amount, lockEnd, autoMax) \<Rightarrow>
               if i = intoId then (if amount = 0 then None
                 else Some \<lparr>lr_lockEnd = Some lockEnd, lr_autoMax = autoMax, lr_owner = Some (toLowerCase user)\<rparr>)
               else if i = fromId then None else x
           | None \<Rightarrow> if i = fromId then None else x)
      | Lock_automax user tokenId eventAutoMax \<Rightarrow>
          if i = tokenId then
            (case rd tokenId (le_block e) of
               Some (amount, lockEnd, autoMax) \<Rightarrow>
                 if amount = 0 then None
                 else Some \<lparr>lr_lockEnd = Some lockEnd, lr_autoMax = autoMax, lr_owner = Some (toLowerCase user)\<rparr>
             | None \<Rightarrow> Some \<lparr>lr_lockEnd = (case x of Some r \<Rightarrow> lr_lockEnd r | None \<Rightarrow> Some 0),
                 lr_autoMax = eventAutoMax, lr_owner = Some (toLowerCase user)\<rparr>)
          else x)"

lemma ordered_apply: "ordered l \<Longrightarrow> ordered (applyLockEvent rd l e)"
  by (cases "le_body e") (simp_all add: applyLockEvent_def Let_def split: option.splits prod.splits)

lemma map_of_apply: "ordered l \<Longrightarrow> map_of (applyLockEvent rd l e) i = token_effect rd e i (map_of l i)"
  by (cases "le_body e")
    (auto simp: applyLockEvent_def token_effect_def Let_def split: option.splits prod.splits)

lemma overwritingI: "overwrite a b c d = d \<Longrightarrow> overwriting (\<lambda>x. Some (case x of Some r \<Rightarrow> overwrite a b c r | None \<Rightarrow> d))"
  unfolding overwriting_def by blast

lemma settled_extended:
  "overwriting (\<lambda>x. Some (case x of Some r \<Rightarrow> r\<lparr>lr_lockEnd := Some newEnd\<rparr> | None \<Rightarrow> \<lparr>lr_lockEnd = Some newEnd, lr_autoMax = False, lr_owner = o'\<rparr>))"
proof -
  have "r\<lparr>lr_lockEnd := Some newEnd\<rparr> = overwrite (Some (Some newEnd)) None None r" for r :: lock_rec
    by (simp add: overwrite_def)
  then show ?thesis by (simp only:) (rule overwritingI, simp add: overwrite_def)
qed

lemma settled_automax:
  "overwriting (\<lambda>x. Some \<lparr>lr_lockEnd = (case x of Some r \<Rightarrow> lr_lockEnd r | None \<Rightarrow> Some 0), lr_autoMax = b, lr_owner = o'\<rparr>)"
proof -
  have "(\<lambda>x. Some \<lparr>lr_lockEnd = (case x of Some r \<Rightarrow> lr_lockEnd r | None \<Rightarrow> Some 0), lr_autoMax = b, lr_owner = o'\<rparr>)
      = (\<lambda>x. Some (case x of Some r \<Rightarrow> overwrite None (Some b) (Some o') r | None \<Rightarrow> \<lparr>lr_lockEnd = Some 0, lr_autoMax = b, lr_owner = o'\<rparr>))"
    by (auto simp: overwrite_def split: option.splits)
  then show ?thesis by (simp only:) (rule overwritingI, simp add: overwrite_def)
qed

lemma settled_effect: "settled (token_effect rd e i)"
proof (cases "le_body e")
  case (Lock_extended user tokenId newEnd)
  then show ?thesis
    using settled_extended by (cases "i = tokenId") (simp_all add: settled_def token_effect_def [abs_def])
next
  case (Lock_automax user tokenId b)
  then show ?thesis
    using settled_automax by (cases "i = tokenId"; cases "rd tokenId (le_block e)")
      (auto simp: settled_def token_effect_def [abs_def])
next
  case (Lock_merged user fromId intoId)
  then have "token_effect rd e i = (\<lambda>x. x) \<or> (\<exists>k. token_effect rd e i = (\<lambda>_. k))"
    by (cases "rd intoId (le_block e)"; cases "i = intoId"; cases "i = fromId") (auto simp: token_effect_def fun_eq_iff)
  then show ?thesis by (auto simp: settled_def)
next
  case (Lock_created user tokenId lockEnd autoMax)
  then have "token_effect rd e i = (\<lambda>x. x) \<or> (\<exists>k. token_effect rd e i = (\<lambda>_. k))"
    by (cases "i = tokenId") (auto simp: token_effect_def fun_eq_iff)
  then show ?thesis by (auto simp: settled_def)
next
  case (Lock_unlocked tokenId)
  then have "token_effect rd e i = (\<lambda>x. x) \<or> (\<exists>k. token_effect rd e i = (\<lambda>_. k))"
    by (cases "i = tokenId") (auto simp: token_effect_def fun_eq_iff)
  then show ?thesis by (auto simp: settled_def)
qed

lemma settled_compose:
  assumes "settled g" "settled h"
  shows "settled (\<lambda>x. g (h x))"
proof -
  consider "g = (\<lambda>x. x)" | k where "g = (\<lambda>_. k)" | "overwriting g" using assms(1) by (auto simp: settled_def)
  then show ?thesis
  proof cases
    case 3
    then obtain a b c d where g: "overwrite a b c d = d" "g = (\<lambda>x. Some (case x of Some r \<Rightarrow> overwrite a b c r | None \<Rightarrow> d))"
      by (auto simp: overwriting_def)
    consider "h = (\<lambda>x. x)" | k where "h = (\<lambda>_. k)" | "overwriting h" using assms(2) by (auto simp: settled_def)
    then show ?thesis
    proof cases
      case 3
      then obtain a' b' c' d' where h: "overwrite a' b' c' d' = d'"
        "h = (\<lambda>x. Some (case x of Some r \<Rightarrow> overwrite a' b' c' r | None \<Rightarrow> d'))"
        by (auto simp: overwriting_def)
      have two: "overwrite a b c (overwrite a' b' c' r) =
          overwrite (case a of Some v \<Rightarrow> Some v | None \<Rightarrow> a') (case b of Some v \<Rightarrow> Some v | None \<Rightarrow> b')
            (case c of Some v \<Rightarrow> Some v | None \<Rightarrow> c') r" for r
        by (simp add: overwrite_def split: option.splits)
      have "(\<lambda>x. g (h x)) = (\<lambda>x. Some (case x of Some r \<Rightarrow> overwrite a b c (overwrite a' b' c' r) | None \<Rightarrow> overwrite a b c d'))"
        by (auto simp: g(2) h(2) split: option.splits)
      moreover have "overwrite a b c (overwrite a' b' c' (overwrite a b c d')) = overwrite a b c d'"
        by (subst (2) h(1) [symmetric]) (simp add: overwrite_def split: option.splits)
      ultimately show ?thesis
        unfolding settled_def two by (intro disjI2) (simp only:, rule overwritingI, simp add: two)
    qed (use \<open>overwriting g\<close> in \<open>simp_all add: settled_def, blast\<close>)
  qed (use assms in \<open>auto simp: settled_def\<close>)
qed

lemma settled_twice: "settled h \<Longrightarrow> h (h x) = h x"
proof -
  assume "settled h"
  then consider "h = (\<lambda>x. x)" | k where "h = (\<lambda>_. k)" | "overwriting h" by (auto simp: settled_def)
  then show "h (h x) = h x"
  proof cases
    case 3
    then obtain a b c d where d: "overwrite a b c d = d" and h: "h = (\<lambda>x. Some (case x of Some r \<Rightarrow> overwrite a b c r | None \<Rightarrow> d))"
      by (auto simp: overwriting_def)
    have "overwrite a b c (overwrite a b c r) = overwrite a b c r" for r
      by (simp add: overwrite_def split: option.splits)
    with d show ?thesis by (simp add: h split: option.splits)
  qed simp_all
qed

lemma replay_effect:
  "ordered l \<Longrightarrow> \<exists>h. settled h \<and> (\<forall>m. ordered m \<longrightarrow> map_of (foldl (applyLockEvent rd) m es) i = h (map_of m i))"
proof (induction es)
  case Nil
  show ?case by (rule exI [of _ "\<lambda>x. x"]) (simp add: settled_def)
next
  case (Cons e es)
  then obtain h where h: "settled h" "\<And>m. ordered m \<Longrightarrow> map_of (foldl (applyLockEvent rd) m es) i = h (map_of m i)" by blast
  have "settled (\<lambda>x. h (token_effect rd e i x))" by (rule settled_compose [OF h(1) settled_effect])
  moreover have "map_of (foldl (applyLockEvent rd) m (e # es)) i = h (token_effect rd e i (map_of m i))" if "ordered m" for m
    using that by (simp add: h(2) ordered_apply map_of_apply)
  ultimately show ?case by (intro exI conjI) auto
qed

lemma ordered_replay: "ordered l \<Longrightarrow> ordered (foldl (applyLockEvent rd) l es)"
  by (induction es arbitrary: l) (simp_all add: ordered_apply)

interpretation automax_index: event_index ordered "[]" "applyLockEvent rd" for rd
proof (unfold_locales)
  fix t :: lock_table and es
  assume t: "ordered t"
  show "foldl (applyLockEvent rd) (foldl (applyLockEvent rd) t es) es = foldl (applyLockEvent rd) t es"
  proof (rule ordered_unique)
    show "map_of (foldl (applyLockEvent rd) (foldl (applyLockEvent rd) t es) es) = map_of (foldl (applyLockEvent rd) t es)"
    proof
      fix i
      obtain h where "settled h" "\<And>m. ordered m \<Longrightarrow> map_of (foldl (applyLockEvent rd) m es) i = h (map_of m i)"
        using replay_effect [OF t] by blast
      then show "map_of (foldl (applyLockEvent rd) (foldl (applyLockEvent rd) t es) es) i = map_of (foldl (applyLockEvent rd) t es) i"
        using t by (simp add: ordered_replay settled_twice)
    qed
  qed (use t in \<open>simp_all add: ordered_replay\<close>)
qed (simp_all add: ordered_apply)

section \<open>Reads\<close>

record bonus_reads =
  bn_hasQuoter :: bool
  bn_eligible :: "int list \<Rightarrow> bool list option"   \<comment> \<open>\<open>filterAutoMaxBonusEligible\<close>\<close>
  bn_lastClaim :: "int \<Rightarrow> int option"   \<comment> \<open>\<open>lastAutoMaxBonusClaim\<close>, one attempt\<close>
  bn_lastClaimTry :: "int \<Rightarrow> nat \<Rightarrow> int option"   \<comment> \<open>the same, attempt by attempt\<close>
  bn_lastClaimBatch :: "int list \<Rightarrow> int list option"
  bn_bonuses :: "int list \<Rightarrow> int list option"   \<comment> \<open>\<open>quoteAutoMaxBonusBatch\<close>\<close>

definition isAutoMaxLastClaimEligible :: "int \<Rightarrow> int \<Rightarrow> bool" where
  "isAutoMaxLastClaimEligible lastClaim now \<longleftrightarrow> lastClaim = 0 \<or> now - lastClaim \<ge> 86400"

text \<open>Slices of at most \<open>n\<close> elements.\<close>

function slices :: "nat \<Rightarrow> 'a list \<Rightarrow> 'a list list" where
  "slices n xs = (if n = 0 \<or> xs = [] then [] else take n xs # slices n (drop n xs))"
  by pat_completeness auto
termination by (relation "measure (\<lambda>(_, xs). length xs)") auto

declare slices.simps [simp del]

text \<open>The answers of a batched read; what the answer lacks counts as 0.\<close>

definition batch_entries :: "int list \<Rightarrow> int list \<Rightarrow> (int \<times> int) list" where
  "batch_entries chunk answers = zip chunk (answers @ replicate (length chunk - length answers) 0)"

definition single_entries :: "bonus_reads \<Rightarrow> int list \<Rightarrow> (int \<times> int) list" where
  "single_entries rd ids = concat (map (\<lambda>i. case bn_lastClaim rd i of Some lc \<Rightarrow> [(i, lc)] | None \<Rightarrow> []) ids)"

definition readLastAutoMaxBonusClaimBatch :: "bonus_reads \<Rightarrow> int list \<Rightarrow> (int \<times> int) list" where
  "readLastAutoMaxBonusClaimBatch rd tokenIds =
     (if bn_hasQuoter rd
      then concat (map (\<lambda>chunk. case bn_lastClaimBatch rd chunk of
             Some lastClaims \<Rightarrow> batch_entries chunk lastClaims | None \<Rightarrow> single_entries rd chunk) (slices 200 tokenIds))
      else single_entries rd tokenIds)"

text \<open>Up to four attempts.\<close>

definition readAutoMaxLastClaimWithRetry :: "bonus_reads \<Rightarrow> int \<Rightarrow> int option" where
  "readAutoMaxLastClaimWithRetry rd i =
     (case filter (\<lambda>r. r \<noteq> None) (map (bn_lastClaimTry rd i) [0..<4]) of r # _ \<Rightarrow> r | [] \<Rightarrow> None)"

text \<open>The answers up to the first slice that fails, and whether none does.\<close>

fun viaBatchView :: "bonus_reads \<Rightarrow> int list list \<Rightarrow> bool \<times> (int \<times> int) list" where
  "viaBatchView rd [] = (True, [])"
| "viaBatchView rd (chunk # chunks) =
     (case bn_lastClaimBatch rd chunk of
        None \<Rightarrow> (False, [])
      | Some lastClaims \<Rightarrow> (let (ok, out) = viaBatchView rd chunks in (ok, batch_entries chunk lastClaims @ out)))"

definition viaPerToken :: "bonus_reads \<Rightarrow> int list \<Rightarrow> (int \<times> int) list" where
  "viaPerToken rd candidates =
     concat (map (\<lambda>i. case readAutoMaxLastClaimWithRetry rd i of Some lc \<Rightarrow> [(i, lc)] | None \<Rightarrow> []) candidates)"

text \<open>What is read per token comes over what the batches left.\<close>

definition collectAutoMaxLastClaims :: "bonus_reads \<Rightarrow> int list \<Rightarrow> (int \<times> int) list" where
  "collectAutoMaxLastClaims rd candidates =
     (if bn_hasQuoter rd
      then (let (ok, out) = viaBatchView rd (slices 200 candidates)
            in if ok then out else viaPerToken rd candidates @ out)
      else viaPerToken rd candidates)"

definition collectFirstTouchTokenIds :: "bonus_reads \<Rightarrow> int list \<Rightarrow> int list" where
  "collectFirstTouchTokenIds rd candidates =
     (let claims = collectAutoMaxLastClaims rd candidates
      in filter (\<lambda>i. map_of claims i = Some 0) candidates)"

section \<open>Selection\<close>

definition isOwnerInCooldown :: "(string \<rightharpoonup> int) \<Rightarrow> string \<Rightarrow> int \<Rightarrow> int \<Rightarrow> bool" where
  "isOwnerInCooldown marks owner ownerCooldownMs nowMs =
     (case marks owner of Some t \<Rightarrow> nowMs - t < ownerCooldownMs | None \<Rightarrow> False)"

definition owner_of :: "lock_table \<Rightarrow> int \<Rightarrow> string" where
  "owner_of locks i = (case map_of locks i of Some r \<Rightarrow> (case lr_owner r of Some w \<Rightarrow> w | None \<Rightarrow> []) | None \<Rightarrow> [])"

text \<open>Whether a lock enters the groups. \<open>morning\<close> is the window check, always true without a cache.\<close>

definition may_claim :: "(string \<Rightarrow> bool) \<Rightarrow> int \<Rightarrow> lock_rec \<Rightarrow> bool" where
  "may_claim morning now r \<longleftrightarrow>
     lr_autoMax r \<and> (case lr_lockEnd r of Some lockEnd \<Rightarrow> lockEnd > now | None \<Rightarrow> False)
     \<and> (case lr_owner r of Some w \<Rightarrow> w \<noteq> [] \<and> morning w | None \<Rightarrow> False)"

fun add_to_group :: "string \<Rightarrow> int \<Rightarrow> (string \<times> int list) list \<Rightarrow> (string \<times> int list) list" where
  "add_to_group w i [] = [(w, [i])]"
| "add_to_group w i ((v, is) # gs) = (if v = w then (v, is @ [i]) # gs else (v, is) # add_to_group w i gs)"

definition groupByOwner :: "(string \<Rightarrow> bool) \<Rightarrow> int \<Rightarrow> lock_table \<Rightarrow> (string \<times> int list) list" where
  "groupByOwner morning now locks =
     foldl (\<lambda>gs (i, r). if may_claim morning now r then add_to_group (the (lr_owner r)) i gs else gs) [] locks"

fun flattenFrom :: "nat \<Rightarrow> int list \<Rightarrow> (string \<times> int list) list \<Rightarrow> int list" where
  "flattenFrom maxLocks out [] = out"
| "flattenFrom maxLocks out ((_, ownerLocks) # gs) =
     (let remaining = maxLocks - length out in
      if remaining = 0 then out
      else if length ownerLocks > remaining
           then (if out = [] then take remaining ownerLocks else flattenFrom maxLocks out gs)
           else flattenFrom maxLocks (out @ ownerLocks) gs)"

definition flattenOwnerGroupsForPrefilter :: "(string \<times> int list) list \<Rightarrow> nat \<Rightarrow> int list" where
  "flattenOwnerGroupsForPrefilter byOwner maxLocks = flattenFrom maxLocks [] byOwner"

text \<open>The candidates, with the claim times read on the way.\<close>

fun selectFallback :: "bonus_reads \<Rightarrow> int \<Rightarrow> nat \<Rightarrow> int list \<Rightarrow> int list \<times> (int \<times> int) list \<Rightarrow> int list \<times> (int \<times> int) list" where
  "selectFallback rd now maxLocks [] st = st"
| "selectFallback rd now maxLocks (i # is) (candidates, lcs) =
     (if length candidates \<ge> maxLocks then (candidates, lcs)
      else case bn_lastClaim rd i of
             Some lastClaim \<Rightarrow>
               if isAutoMaxLastClaimEligible lastClaim now
               then selectFallback rd now maxLocks is (candidates @ [i], (i, lastClaim) # lcs)
               else selectFallback rd now maxLocks is (candidates, lcs)
           | None \<Rightarrow> selectFallback rd now maxLocks is (candidates, lcs))"

function quoterLoop :: "bonus_reads \<Rightarrow> int \<Rightarrow> nat \<Rightarrow> int list \<Rightarrow> int list \<Rightarrow> int list \<times> (int \<times> int) list" where
  "quoterLoop rd now maxLocks rest candidates =
     (if rest = [] \<or> length candidates \<ge> maxLocks then (candidates, [])
      else let chunk = take 500 rest
           in case bn_eligible rd chunk of
                Some eligible \<Rightarrow>
                  quoterLoop rd now maxLocks (drop 500 rest)
                    (candidates @ take (maxLocks - length candidates) (map fst (filter snd (zip chunk eligible))))
              | None \<Rightarrow> selectFallback rd now (maxLocks - length candidates) rest (candidates, []))"
  by pat_completeness auto
termination by (relation "measure (\<lambda>(_, _, _, rest, _). length rest)") auto

declare quoterLoop.simps [simp del]

definition applyCooldownPostFilter ::
  "bonus_reads \<Rightarrow> (string \<Rightarrow> bool) \<Rightarrow> lock_table \<Rightarrow> int list \<times> (int \<times> int) list \<Rightarrow> int list" where
  "applyCooldownPostFilter rd in_cooldown locks st =
     (case st of (candidates, lcs) \<Rightarrow>
       (let needing = filter (\<lambda>i. map_of lcs i = None) candidates;
            lcs = readLastAutoMaxBonusClaimBatch rd needing @ lcs
        in filter (\<lambda>i. map_of lcs i = Some 0 \<or> owner_of locks i = [] \<or> \<not> in_cooldown (owner_of locks i)) candidates))"

definition selectAutomaxCandidates ::
  "bonus_reads \<Rightarrow> (string \<Rightarrow> bool) \<Rightarrow> (string \<Rightarrow> bool) \<Rightarrow> int \<Rightarrow> nat \<Rightarrow> lock_table \<Rightarrow> int list" where
  "selectAutomaxCandidates rd morning in_cooldown now maxLocks locks =
     (let prefiltered = flattenOwnerGroupsForPrefilter (groupByOwner morning now locks) maxLocks in
      if prefiltered = [] then []
      else applyCooldownPostFilter rd in_cooldown locks
             (if bn_hasQuoter rd then quoterLoop rd now maxLocks prefiltered []
              else selectFallback rd now maxLocks prefiltered ([], [])))"

section \<open>The filter by reward\<close>

text \<open>The bonuses of all candidates, slice by slice; \<open>None\<close> when a slice fails.\<close>

fun quoteBonuses :: "bonus_reads \<Rightarrow> int list list \<Rightarrow> int list option" where
  "quoteBonuses rd [] = Some []"
| "quoteBonuses rd (ids # ss) =
     (case bn_bonuses rd ids of
        None \<Rightarrow> None
      | Some b \<Rightarrow> (case quoteBonuses rd ss of None \<Rightarrow> None | Some bs \<Rightarrow> Some (b @ bs)))"

text \<open>The candidates that are left, and those that are claimed for the first time.\<close>

definition filterAutomaxCandidatesByMinReward :: "bonus_reads \<Rightarrow> int \<Rightarrow> int list \<Rightarrow> int list \<times> int list" where
  "filterAutomaxCandidatesByMinReward rd minReward candidates =
     (if candidates = [] then (candidates, [])
      else if minReward \<le> 0 \<or> \<not> bn_hasQuoter rd then (candidates, collectFirstTouchTokenIds rd candidates)
      else case quoteBonuses rd (slices 200 candidates) of
             None \<Rightarrow> (candidates, collectFirstTouchTokenIds rd candidates)
           | Some bonuses \<Rightarrow>
               (let rewarded = batch_entries candidates bonuses;
                    bootstrapTokenIds = collectFirstTouchTokenIds rd (map fst (filter (\<lambda>(i, b). b < minReward) rewarded))
                in (map fst (filter (\<lambda>(i, b). b \<ge> minReward \<or> i \<in> set bootstrapTokenIds) rewarded), bootstrapTokenIds)))"

section \<open>A run\<close>

record bonus_config =
  ac_startBlock :: "int option"
  ac_chunkBlocks :: "int option"
  ac_maxLocks :: nat
  ac_ownerCooldownMs :: int
  ac_minReward :: int
  ac_dryRun :: bool
  ac_morning :: "(morning_cache \<times> int) option"   \<comment> \<open>the cache and the half-width of the window\<close>

text \<open>What a run meets: the chain, the clock at its places, and the answers to its reads and sends.\<close>

record bonus_env =
  ae_source :: log_source
  ae_lockReads :: lock_reads
  ae_latest :: int
  ae_nowTs :: int
  ae_nowMs :: int
  ae_hourUtc :: nat
  ae_select :: bonus_reads
  ae_reward :: bonus_reads
  ae_before :: bonus_reads
  ae_after :: "nat \<Rightarrow> bonus_reads"
  ae_answer :: "nat \<Rightarrow> send_result"
  ae_markMs :: int

record claim_result =
  cr_batches :: "int list list"   \<comment> \<open>the batches that were given to the sender\<close>
  cr_owners :: "string list"
  cr_error :: bool
  cr_skipped :: bool

definition collectAutomaxCooldownOwners ::
  "int list \<Rightarrow> (int \<Rightarrow> string) \<Rightarrow> int list \<Rightarrow> (int \<times> int) list \<Rightarrow> (int \<times> int) list \<Rightarrow> string list" where
  "collectAutomaxCooldownOwners batch lockOwner bootstrapTokenIds before after =
     map lockOwner (filter (\<lambda>i. i \<notin> set bootstrapTokenIds \<and> lockOwner i \<noteq> []
       \<and> (case (map_of before i, map_of after i) of (Some b, Some a) \<Rightarrow> a > b | _ \<Rightarrow> False)) batch)"

definition global_skip :: "skip_code \<Rightarrow> bool" where
  "global_skip code \<longleftrightarrow> code \<in> {Sk_paused, Sk_dry_run, Sk_pending_guard, Sk_fee_cap}"

definition no_claims :: claim_result where
  "no_claims = \<lparr>cr_batches = [], cr_owners = [], cr_error = False, cr_skipped = False\<rparr>"

definition with_batch :: "int list \<Rightarrow> claim_result \<Rightarrow> claim_result" where
  "with_batch batch r = r\<lparr>cr_batches := batch # cr_batches r\<rparr>"

fun claimBatches ::
  "(int \<Rightarrow> string) \<Rightarrow> int list \<Rightarrow> (int \<times> int) list \<Rightarrow> (nat \<Rightarrow> bonus_reads) \<Rightarrow> (nat \<Rightarrow> send_result) \<Rightarrow> nat \<Rightarrow> int list list
     \<Rightarrow> claim_result" where
  "claimBatches lockOwner boots before after answer k [] = no_claims"
| "claimBatches lockOwner boots before after answer k (batch # bs) =
     with_batch batch
       (case answer k of
          Skipped code \<Rightarrow>
            if global_skip code then no_claims\<lparr>cr_skipped := True\<rparr>
            else (claimBatches lockOwner boots before after answer (Suc k) bs)\<lparr>cr_skipped := True\<rparr>
        | Send_throws _ \<Rightarrow> (claimBatches lockOwner boots before after answer (Suc k) bs)\<lparr>cr_error := True\<rparr>
        | Sent _ _ _ \<Rightarrow>
            (let r = claimBatches lockOwner boots before after answer (Suc k) bs
             in r\<lparr>cr_owners := collectAutomaxCooldownOwners batch lockOwner boots before
                    (collectAutoMaxLastClaims (after k) batch) @ cr_owners r\<rparr>))"

definition markOwnersClaimed :: "int \<Rightarrow> string list \<Rightarrow> (string \<rightharpoonup> int) \<Rightarrow> (string \<rightharpoonup> int)" where
  "markOwnersClaimed now owners marks = (\<lambda>w. if w \<in> set owners then Some now else marks w)"

definition morning_ok :: "bonus_config \<Rightarrow> bonus_env \<Rightarrow> string \<Rightarrow> bool" where
  "morning_ok cfg env w =
     (case ac_morning cfg of Some (cache, hours) \<Rightarrow> isInMorningWindow cache (ae_hourUtc env) w hours | None \<Rightarrow> True)"

definition bonus_candidates :: "bonus_config \<Rightarrow> bonus_env \<Rightarrow> lock_table task_index \<Rightarrow> int list" where
  "bonus_candidates cfg env s =
     selectAutomaxCandidates (ae_select env) (morning_ok cfg env)
       (\<lambda>w. isOwnerInCooldown (ti_marks s) w (ac_ownerCooldownMs cfg) (ae_nowMs env)) (ae_nowTs env) (ac_maxLocks cfg) (ti_locks s)"

definition claimBonuses :: "bonus_config \<Rightarrow> bonus_env \<Rightarrow> lock_table task_index \<Rightarrow> claim_result" where
  "claimBonuses cfg env s =
     (case filterAutomaxCandidatesByMinReward (ae_reward env) (ac_minReward cfg) (bonus_candidates cfg env s) of
        (kept, bootstrapTokenIds) \<Rightarrow>
          (let filteredCandidates = sort kept in
           if filteredCandidates = [] \<or> ac_dryRun cfg then no_claims
           else let before = collectAutoMaxLastClaims (ae_before env) filteredCandidates;
                    boots = bootstrapTokenIds @ map fst (filter (\<lambda>(_, lc). lc = 0) before)
                in claimBatches (owner_of (ti_locks s)) boots before (ae_after env) (ae_answer env) 0 (slices 200 filteredCandidates)))"

text \<open>The result, \<open>None\<close> when the scan throws, and the file afterwards.\<close>

definition runAutomaxBonusOnce ::
  "bonus_config \<Rightarrow> bonus_env \<Rightarrow> lock_table task_index \<Rightarrow> claim_result option \<times> lock_table task_index" where
  "runAutomaxBonusOnce cfg env file =
     (case scanLockEvents (applyLockEvent (ae_lockReads env)) [] (ae_source env) (scan_start (ac_startBlock cfg) (ae_latest env)) (ac_chunkBlocks cfg)
             (ae_latest env) file of
        (None, file) \<Rightarrow> (None, file)
      | (Some s, file) \<Rightarrow>
          (let r = claimBonuses cfg env s
           in (Some r, if cr_owners r = [] then file
                       else s\<lparr>ti_marks := markOwnersClaimed (ae_markMs env) (cr_owners r) (ti_marks s)\<rparr>)))"

section \<open>Lemmas on the selection\<close>

lemma concat_slices: "0 < n \<Longrightarrow> concat (slices n xs) = xs"
proof (induction n xs rule: slices.induct)
  case (1 n xs)
  then show ?case by (subst slices.simps) simp
qed

lemma slices_bounded: "x \<in> set (slices n xs) \<Longrightarrow> length x \<le> n \<and> x \<noteq> []"
proof (induction n xs rule: slices.induct)
  case (1 n xs)
  then show ?case by (subst (asm) slices.simps) (auto split: if_splits)
qed

lemma flattenFrom_shape:
  "length out \<le> maxLocks \<Longrightarrow> \<exists>xs. flattenFrom maxLocks out gs = out @ xs \<and> subseq xs (concat (map snd gs)) \<and> length (out @ xs) \<le> maxLocks"
proof (induction maxLocks out gs rule: flattenFrom.induct)
  case (2 maxLocks out w ls gs)
  note prem = "2.prems"
  define rem where "rem = maxLocks - length out"
  consider "rem = 0" | "rem \<noteq> 0" "length ls > rem" "out = []" | "rem \<noteq> 0" "length ls > rem" "out \<noteq> []" | "rem \<noteq> 0" "length ls \<le> rem"
    by linarith
  then show ?case
  proof cases
    case 1
    then show ?thesis using prem by (simp add: rem_def Let_def)
  next
    case short: 2
    have "subseq (take rem ls) ls" by (simp add: prefix_imp_subseq take_is_prefix)
    then have "subseq (take rem ls) (ls @ concat (map snd gs))" by (metis subseq_append_iff append_Nil2 list_emb_append_mono list_emb_Nil)
    then show ?thesis using short by (simp add: rem_def)
  next
    case 3
    then obtain xs where "flattenFrom maxLocks out gs = out @ xs" "subseq xs (concat (map snd gs))" "length (out @ xs) \<le> maxLocks"
      using "2.IH"(1) [OF rem_def] prem by auto
    then show ?thesis using 3 by (auto simp: rem_def Let_def intro: list_emb_append2)
  next
    case 4
    then obtain xs where "flattenFrom maxLocks (out @ ls) gs = (out @ ls) @ xs" "subseq xs (concat (map snd gs))"
      "length ((out @ ls) @ xs) \<le> maxLocks"
      using "2.IH"(2) [OF rem_def] prem by (fastforce simp: rem_def)
    then show ?thesis using 4 by (auto simp: rem_def Let_def intro!: exI [of _ "ls @ xs"] list_emb_append_mono)
  qed
qed simp

lemma add_to_group_ids:
  "set (concat (map snd (add_to_group w i gs))) = insert i (set (concat (map snd gs)))"
  "i \<notin> set (concat (map snd gs)) \<Longrightarrow> distinct (concat (map snd gs)) \<Longrightarrow> distinct (concat (map snd (add_to_group w i gs)))"
proof -
  show s: "set (concat (map snd (add_to_group w i gs))) = insert i (set (concat (map snd gs)))" for w i gs
    by (induction w i gs rule: add_to_group.induct) auto
  show "i \<notin> set (concat (map snd gs)) \<Longrightarrow> distinct (concat (map snd gs)) \<Longrightarrow> distinct (concat (map snd (add_to_group w i gs)))"
  proof (induction w i gs rule: add_to_group.induct)
    case (2 w i v "is" gs)
    show ?case
    proof (cases "v = w")
      case True
      with "2.prems" show ?thesis by auto
    next
      case False
      moreover have "set is \<inter> set (concat (map snd (add_to_group w i gs))) = {}" unfolding s using "2.prems" by auto
      moreover have "distinct (concat (map snd (add_to_group w i gs)))" using "2.IH" [OF False] "2.prems" by auto
      ultimately show ?thesis using "2.prems" by (simp del: set_concat)
    qed
  qed simp
qed

lemma groupByOwner_ids:
  assumes "distinct (map fst locks)"
  shows "distinct (concat (map snd (groupByOwner morning now locks)))"
    "set (concat (map snd (groupByOwner morning now locks))) = {i. \<exists>r. (i, r) \<in> set locks \<and> may_claim morning now r}"
proof -
  have "distinct (concat (map snd gs)) \<Longrightarrow> set (concat (map snd gs)) \<inter> fst ` set locks = {} \<Longrightarrow>
      distinct (concat (map snd (foldl (\<lambda>gs (i, r). if may_claim morning now r then add_to_group (the (lr_owner r)) i gs else gs) gs locks)))
      \<and> set (concat (map snd (foldl (\<lambda>gs (i, r). if may_claim morning now r then add_to_group (the (lr_owner r)) i gs else gs) gs locks)))
        = set (concat (map snd gs)) \<union> {i. \<exists>r. (i, r) \<in> set locks \<and> may_claim morning now r}" for gs
    using assms
  proof (induction locks arbitrary: gs)
    case (Cons e locks)
    obtain i r where e: "e = (i, r)" by fastforce
    show ?case
    proof (cases "may_claim morning now r")
      case True
      define gs' where "gs' = add_to_group (the (lr_owner r)) i gs"
      have g: "set (concat (map snd gs')) = insert i (set (concat (map snd gs)))" "distinct (concat (map snd gs'))"
        unfolding gs'_def using Cons.prems e by (intro add_to_group_ids(1), intro add_to_group_ids(2)) auto
      have "set (concat (map snd gs')) \<inter> fst ` set locks = {}" unfolding g(1) using Cons.prems e by auto
      from Cons.IH [OF g(2) this] Cons.prems(3) g(1) True show ?thesis unfolding e foldl_Cons prod.case gs'_def [symmetric]
        by (simp add: gs'_def [symmetric]) auto
    next
      case False
      then show ?thesis using Cons.IH [of gs] Cons.prems e by auto
    qed
  qed simp
  from this [of "[]"] show "distinct (concat (map snd (groupByOwner morning now locks)))"
    "set (concat (map snd (groupByOwner morning now locks))) = {i. \<exists>r. (i, r) \<in> set locks \<and> may_claim morning now r}"
    by (auto simp: groupByOwner_def)
qed

text \<open>What shows that a lock can be claimed for: the flag of the quoter, or its last claim.\<close>

definition claimable :: "bonus_reads \<Rightarrow> int \<Rightarrow> int \<Rightarrow> bool" where
  "claimable rd now i \<longleftrightarrow>
     (\<exists>chunk eligible. bn_eligible rd chunk = Some eligible \<and> (i, True) \<in> set (zip chunk eligible))
     \<or> (\<exists>lc. bn_lastClaim rd i = Some lc \<and> isAutoMaxLastClaimEligible lc now)"

text \<open>Where a claim time comes from.\<close>

definition read_claim :: "bonus_reads \<Rightarrow> int \<Rightarrow> int \<Rightarrow> bool" where
  "read_claim rd i lc \<longleftrightarrow>
     bn_lastClaim rd i = Some lc \<or> (\<exists>chunk a. bn_lastClaimBatch rd chunk = Some a \<and> (i, lc) \<in> set (batch_entries chunk a))"

definition picks :: "bonus_reads \<Rightarrow> int \<Rightarrow> nat \<Rightarrow> int list \<Rightarrow> int list \<times> (int \<times> int) list \<Rightarrow> int list \<times> (int \<times> int) list \<Rightarrow> bool" where
  "picks rd now maxLocks rest st st' \<longleftrightarrow>
     (\<exists>xs. fst st' = fst st @ xs \<and> subseq xs rest \<and> length (fst st @ xs) \<le> max maxLocks (length (fst st)) \<and> (\<forall>i \<in> set xs. claimable rd now i))
     \<and> (\<forall>(i, lc) \<in> set (snd st'). (i, lc) \<in> set (snd st) \<or> bn_lastClaim rd i = Some lc)"

lemma picks_refl: "picks rd now m rest st st"
  unfolding picks_def by (intro conjI exI [of _ "[]"]) auto

lemma picks_skip: "picks rd now m is st st' \<Longrightarrow> picks rd now m (i # is) st st'"
  unfolding picks_def by (auto intro: list_emb_Cons)

lemma selectFallback_picks: "picks rd now maxLocks is st (selectFallback rd now maxLocks is st)"
proof (induction rd now maxLocks "is" st rule: selectFallback.induct)
  case (1 rd now maxLocks st)
  show ?case by (simp add: picks_refl)
next
  case (2 rd now maxLocks i "is" candidates lcs)
  show ?case
  proof (cases "length candidates \<ge> maxLocks")
    case True
    then show ?thesis by (simp add: picks_refl)
  next
    case False
    show ?thesis
    proof (cases "bn_lastClaim rd i")
      case None
      then show ?thesis using False picks_skip [OF "2.IH"(1) [OF False None]] by simp
    next
      case (Some lc)
      show ?thesis
      proof (cases "isAutoMaxLastClaimEligible lc now")
        case True
        have "picks rd now maxLocks is (candidates @ [i], (i, lc) # lcs) (selectFallback rd now maxLocks is (candidates @ [i], (i, lc) # lcs))"
          using "2.IH"(2) [OF False Some True] by simp
        then obtain xs where "fst (selectFallback rd now maxLocks is (candidates @ [i], (i, lc) # lcs)) = candidates @ i # xs"
          "subseq xs is" "length (candidates @ i # xs) \<le> max maxLocks (length candidates)" "\<forall>i \<in> set xs. claimable rd now i"
          "\<forall>(j, l) \<in> set (snd (selectFallback rd now maxLocks is (candidates @ [i], (i, lc) # lcs))). (j, l) \<in> set ((i, lc) # lcs) \<or> bn_lastClaim rd j = Some l"
          using False unfolding picks_def by (auto simp: max_def split: if_splits)
        moreover have "claimable rd now i" using Some True by (auto simp: claimable_def)
        ultimately show ?thesis using False Some True
          unfolding picks_def by (intro conjI exI [of _ "i # xs"]) auto
      next
        case no: False
        then show ?thesis using False Some picks_skip [OF "2.IH"(3) [OF False Some no]] by simp
      qed
    qed
  qed
qed

lemma subseq_flagged: "subseq (map fst (filter snd (zip xs fs))) xs"
proof (induction xs arbitrary: fs)
  case (Cons x xs)
  then show ?case by (cases fs) auto
qed simp

lemma quoterLoop_picks: "picks rd now maxLocks rest (candidates, []) (quoterLoop rd now maxLocks rest candidates)"
proof (induction rd now maxLocks rest candidates rule: quoterLoop.induct)
  case (1 rd now maxLocks rest candidates)
  show ?case
  proof (cases "rest = [] \<or> length candidates \<ge> maxLocks")
    case True
    then show ?thesis by (subst quoterLoop.simps) (simp add: picks_refl)
  next
    case False
    show ?thesis
    proof (cases "bn_eligible rd (take 500 rest)")
      case None
      have p: "picks rd now (maxLocks - length candidates) rest (candidates, [])
          (selectFallback rd now (maxLocks - length candidates) rest (candidates, []))" by (rule selectFallback_picks)
      have "picks rd now maxLocks rest (candidates, []) (selectFallback rd now (maxLocks - length candidates) rest (candidates, []))"
        using p unfolding picks_def by (fastforce simp: max_def split: if_splits)
      then show ?thesis using None False by (subst quoterLoop.simps) simp
    next
      case (Some eligible)
      define new where "new = take (maxLocks - length candidates) (map fst (filter snd (zip (take 500 rest) eligible)))"
      have p: "picks rd now maxLocks (drop 500 rest) (candidates @ new, []) (quoterLoop rd now maxLocks (drop 500 rest) (candidates @ new))"
        using "1.IH" False Some unfolding new_def by blast
      have len: "length (candidates @ new) \<le> maxLocks" using False by (auto simp: new_def min_def)
      have new: "subseq new (take 500 rest)" unfolding new_def
        by (rule subseq_order.trans [OF prefix_imp_subseq [OF take_is_prefix] subseq_flagged])
      have "claimable rd now i" if "i \<in> set new" for i
      proof -
        from that have "i \<in> set (map fst (filter snd (zip (take 500 rest) eligible)))" unfolding new_def by (rule in_set_takeD)
        then have "(i, True) \<in> set (zip (take 500 rest) eligible)" by auto
        with Some show ?thesis by (auto simp: claimable_def)
      qed
      moreover from p obtain xs where "fst (quoterLoop rd now maxLocks (drop 500 rest) (candidates @ new)) = candidates @ new @ xs"
        "subseq xs (drop 500 rest)" "length (candidates @ new @ xs) \<le> maxLocks" "\<forall>i \<in> set xs. claimable rd now i"
        "\<forall>(i, lc) \<in> set (snd (quoterLoop rd now maxLocks (drop 500 rest) (candidates @ new))). bn_lastClaim rd i = Some lc"
        using len unfolding picks_def by (auto simp: max_def split: if_splits)
      moreover from this(2) have "subseq (new @ xs) (take 500 rest @ drop 500 rest)" by (rule list_emb_append_mono [OF new])
      ultimately have "picks rd now maxLocks rest (candidates, []) (quoterLoop rd now maxLocks (drop 500 rest) (candidates @ new))"
        unfolding picks_def by (intro conjI exI [of _ "new @ xs"]) auto
      then show ?thesis using Some False by (subst quoterLoop.simps) (simp add: new_def Let_def)
    qed
  qed
qed

lemma subseq_facts: "subseq xs ys \<Longrightarrow> set xs \<subseteq> set ys \<and> (distinct ys \<longrightarrow> distinct xs)"
  by (induction rule: list_emb.induct) auto

definition selected :: "bonus_reads \<Rightarrow> (string \<Rightarrow> bool) \<Rightarrow> (string \<Rightarrow> bool) \<Rightarrow> int \<Rightarrow> lock_table \<Rightarrow> int \<Rightarrow> bool" where
  "selected rd morning in_cooldown now locks i \<longleftrightarrow>
     (\<exists>r. map_of locks i = Some r \<and> may_claim morning now r) \<and> claimable rd now i
     \<and> (in_cooldown (owner_of locks i) \<longrightarrow> read_claim rd i 0)"

lemma batched_reads:
  "(i, lc) \<in> set (readLastAutoMaxBonusClaimBatch rd ids) \<Longrightarrow> read_claim rd i lc"
  by (auto simp: readLastAutoMaxBonusClaimBatch_def single_entries_def read_claim_def split: option.splits if_splits)

lemma selectAutomaxCandidates_facts:
  assumes "ordered locks"
  shows "subseq (selectAutomaxCandidates rd morning in_cooldown now maxLocks locks)
      (flattenOwnerGroupsForPrefilter (groupByOwner morning now locks) maxLocks)"
    "distinct (selectAutomaxCandidates rd morning in_cooldown now maxLocks locks)"
    "length (selectAutomaxCandidates rd morning in_cooldown now maxLocks locks) \<le> maxLocks"
    "i \<in> set (selectAutomaxCandidates rd morning in_cooldown now maxLocks locks) \<Longrightarrow> selected rd morning in_cooldown now locks i"
proof -
  define pre where "pre = flattenOwnerGroupsForPrefilter (groupByOwner morning now locks) maxLocks"
  define st where "st = (if bn_hasQuoter rd then quoterLoop rd now maxLocks pre [] else selectFallback rd now maxLocks pre ([], []))"
  define out where "out = selectAutomaxCandidates rd morning in_cooldown now maxLocks locks"
  have "distinct (map fst locks)" using assms by (simp add: ordered_def strict_sorted_iff)
  note g = groupByOwner_ids [OF this, of morning now]
  obtain ys where ys: "pre = ys" "subseq ys (concat (map snd (groupByOwner morning now locks)))" "length ys \<le> maxLocks"
    using flattenFrom_shape [of "[]" maxLocks "groupByOwner morning now locks"] by (auto simp: pre_def flattenOwnerGroupsForPrefilter_def)
  have "picks rd now maxLocks pre ([], []) st" unfolding st_def using quoterLoop_picks selectFallback_picks by simp
  then have st: "subseq (fst st) pre" "length (fst st) \<le> maxLocks" "\<forall>i \<in> set (fst st). claimable rd now i"
    "\<forall>(i, lc) \<in> set (snd st). bn_lastClaim rd i = Some lc"
    by (auto simp: picks_def)
  have out: "out = (if pre = [] then [] else applyCooldownPostFilter rd in_cooldown locks st)"
    by (simp add: out_def selectAutomaxCandidates_def pre_def st_def Let_def)
  have sub: "subseq out (fst st)" unfolding out by (auto simp: applyCooldownPostFilter_def Let_def split: prod.splits)
  show "subseq (selectAutomaxCandidates rd morning in_cooldown now maxLocks locks)
      (flattenOwnerGroupsForPrefilter (groupByOwner morning now locks) maxLocks)"
    unfolding out_def [symmetric] pre_def [symmetric] by (rule subseq_order.trans [OF sub st(1)])
  have "subseq out (concat (map snd (groupByOwner morning now locks)))"
    using subseq_order.trans [OF sub st(1)] ys(1,2) by (blast intro: subseq_order.trans)
  then show "distinct (selectAutomaxCandidates rd morning in_cooldown now maxLocks locks)"
    unfolding out_def [symmetric] using g(1) subseq_facts by blast
  show "length (selectAutomaxCandidates rd morning in_cooldown now maxLocks locks) \<le> maxLocks"
    unfolding out_def [symmetric] using list_emb_length [OF sub] st(2) by simp
  assume i: "i \<in> set (selectAutomaxCandidates rd morning in_cooldown now maxLocks locks)"
  then have i: "i \<in> set out" by (simp add: out_def)
  then have "i \<in> set (concat (map snd (groupByOwner morning now locks)))"
    using \<open>subseq out (concat (map snd (groupByOwner morning now locks)))\<close> subseq_facts by blast
  then obtain r where r: "(i, r) \<in> set locks" "may_claim morning now r" unfolding g(2) by blast
  then have "map_of locks i = Some r" using \<open>distinct (map fst locks)\<close> by simp
  moreover have "claimable rd now i" using i subseq_facts [OF sub] st(3) by blast
  moreover have "read_claim rd i 0" if c: "in_cooldown (owner_of locks i)"
  proof -
    obtain candidates lcs where s: "st = (candidates, lcs)" by fastforce
    define lcs' where "lcs' = readLastAutoMaxBonusClaimBatch rd (filter (\<lambda>i. map_of lcs i = None) candidates) @ lcs"
    have "owner_of locks i \<noteq> []" using r \<open>map_of locks i = Some r\<close> by (auto simp: owner_of_def may_claim_def split: option.splits)
    then have "map_of lcs' i = Some 0"
      using i c unfolding out s by (auto simp: applyCooldownPostFilter_def Let_def lcs'_def split: if_splits)
    then have "(i, 0) \<in> set lcs'" by (rule map_of_SomeD)
    then show ?thesis using batched_reads st(4) unfolding lcs'_def s by (auto simp: read_claim_def)
  qed
  ultimately show "selected rd morning in_cooldown now locks i" using r(2) by (auto simp: selected_def)
qed

lemma subseq_zip_filter: "subseq (map fst (filter P (zip xs ys))) xs"
proof (induction xs arbitrary: ys)
  case (Cons x xs)
  then show ?case by (cases ys) auto
qed simp

lemma reward_filter_subseq: "subseq (fst (filterAutomaxCandidatesByMinReward rd minReward candidates)) candidates"
  by (auto simp: filterAutomaxCandidatesByMinReward_def Let_def batch_entries_def subseq_zip_filter split: option.splits)

lemma claimBatches_prefix: "\<exists>n. cr_batches (claimBatches lockOwner boots before after answer k bs) = take n bs"
proof (induction bs arbitrary: k)
  case (Cons batch bs)
  obtain n where n: "cr_batches (claimBatches lockOwner boots before after answer (Suc k) bs) = take n bs"
    using Cons [of "Suc k"] by blast
  show ?case
  proof (cases "\<exists>code. answer k = Skipped code \<and> global_skip code")
    case True
    then show ?thesis by (intro exI [of _ 1]) (auto simp: with_batch_def no_claims_def)
  next
    case False
    then show ?thesis using n
      by (intro exI [of _ "Suc n"]) (auto simp: with_batch_def Let_def split: send_result.splits)
  qed
qed (simp add: no_claims_def)

text \<open>What makes an owner be marked: a batch that was sent, with a lock of the owner whose claim time it advanced.\<close>

definition served ::
  "(int \<Rightarrow> string) \<Rightarrow> int list \<Rightarrow> (int \<times> int) list \<Rightarrow> (nat \<Rightarrow> bonus_reads) \<Rightarrow> (nat \<Rightarrow> send_result) \<Rightarrow> nat \<Rightarrow> int list \<Rightarrow> string \<Rightarrow> bool" where
  "served lockOwner boots before after answer k batch w \<longleftrightarrow>
     (\<exists>h r v. answer k = Sent h r v) \<and> w \<noteq> []
     \<and> (\<exists>i \<in> set batch. lockOwner i = w \<and> i \<notin> set boots
          \<and> (\<exists>b a. map_of before i = Some b \<and> map_of (collectAutoMaxLastClaims (after k) batch) i = Some a \<and> b < a))"

lemma cooldown_owner:
  assumes "w \<in> set (collectAutomaxCooldownOwners batch lockOwner boots before after)"
  shows "w \<noteq> [] \<and> (\<exists>i \<in> set batch. lockOwner i = w \<and> i \<notin> set boots
    \<and> (\<exists>b a. map_of before i = Some b \<and> map_of after i = Some a \<and> b < a))"
proof -
  obtain i where i: "i \<in> set batch" "i \<notin> set boots" "lockOwner i \<noteq> []" "lockOwner i = w"
    "case (map_of before i, map_of after i) of (Some b, Some a) \<Rightarrow> a > b | _ \<Rightarrow> False"
    using assms unfolding collectAutomaxCooldownOwners_def by (force simp only: set_map set_filter)
  moreover from i(5) obtain b a where "map_of before i = Some b" "map_of after i = Some a" "b < a"
    by (cases "map_of before i"; cases "map_of after i") auto
  ultimately show ?thesis by blast
qed

lemma claimBatches_owners:
  "w \<in> set (cr_owners (claimBatches lockOwner boots before after answer k bs)) \<Longrightarrow>
     \<exists>j < length (cr_batches (claimBatches lockOwner boots before after answer k bs)).
       served lockOwner boots before after answer (k + j) (cr_batches (claimBatches lockOwner boots before after answer k bs) ! j) w"
proof (induction bs arbitrary: k)
  case (Cons batch bs)
  define rest where "rest = claimBatches lockOwner boots before after answer (Suc k) bs"
  define R where "R = claimBatches lockOwner boots before after answer k (batch # bs)"
  have later: "\<exists>j < length (cr_batches R). served lockOwner boots before after answer (k + j) (cr_batches R ! j) w"
    if rest: "w \<in> set (cr_owners rest)" and R: "cr_batches R = batch # cr_batches rest"
  proof -
    obtain j where "j < length (cr_batches rest)" "served lockOwner boots before after answer (Suc k + j) (cr_batches rest ! j) w"
      using Cons.IH rest unfolding rest_def by blast
    then show ?thesis using R by (intro exI [of _ "Suc j"]) simp
  qed
  have w: "w \<in> set (cr_owners R)" using Cons.prems by (simp only: R_def)
  have "\<exists>j < length (cr_batches R). served lockOwner boots before after answer (k + j) (cr_batches R ! j) w"
  proof (cases "answer k")
    case (Sent h r v)
    then have R: "cr_batches R = batch # cr_batches rest"
      "cr_owners R = collectAutomaxCooldownOwners batch lockOwner boots before (collectAutoMaxLastClaims (after k) batch) @ cr_owners rest"
      by (simp_all add: R_def rest_def with_batch_def Let_def)
    show ?thesis
    proof (cases "w \<in> set (cr_owners rest)")
      case False
      then have "served lockOwner boots before after answer k batch w"
        unfolding served_def using Sent w cooldown_owner [of w batch lockOwner boots before "collectAutoMaxLastClaims (after k) batch"] R(2) by auto
      then show ?thesis using R(1) by (intro exI [of _ 0]) simp
    qed (use later R in blast)
  next
    case (Skipped code)
    then show ?thesis using w later by (cases "global_skip code") (auto simp: R_def rest_def with_batch_def no_claims_def)
  next
    case (Send_throws e)
    then show ?thesis using w later by (auto simp: R_def rest_def with_batch_def)
  qed
  then show ?case unfolding R_def .
qed (simp add: no_claims_def)

lemma claims_prefix: "\<exists>n. concat (cr_batches (claimBonuses cfg env s)) =
    take n (sort (fst (filterAutomaxCandidatesByMinReward (ae_reward env) (ac_minReward cfg) (bonus_candidates cfg env s))))"
proof -
  define F where "F = sort (fst (filterAutomaxCandidatesByMinReward (ae_reward env) (ac_minReward cfg) (bonus_candidates cfg env s)))"
  have p: "\<exists>n. concat (cr_batches (claimBatches lo b be af an 0 (slices 200 F))) = take n F" for lo b be af an
  proof -
    obtain n where n: "cr_batches (claimBatches lo b be af an 0 (slices 200 F)) = take n (slices 200 F)"
      using claimBatches_prefix by blast
    have "concat (take n (slices 200 F)) @ concat (drop n (slices 200 F)) = F"
      by (simp flip: concat_append add: concat_slices)
    then show ?thesis unfolding n by (metis append_eq_conv_conj)
  qed
  show ?thesis
    unfolding claimBonuses_def F_def [symmetric] using p
    by (auto simp: Let_def no_claims_def F_def split: prod.splits intro: exI [of _ 0])
qed

lemma claims_of_candidates:
  "set (concat (cr_batches (claimBonuses cfg env s))) \<subseteq> set (bonus_candidates cfg env s)"
proof -
  obtain n where n: "concat (cr_batches (claimBonuses cfg env s)) =
      take n (sort (fst (filterAutomaxCandidatesByMinReward (ae_reward env) (ac_minReward cfg) (bonus_candidates cfg env s))))"
    using claims_prefix by blast
  have "set (fst (filterAutomaxCandidatesByMinReward (ae_reward env) (ac_minReward cfg) (bonus_candidates cfg env s)))
      \<subseteq> set (bonus_candidates cfg env s)"
    using subseq_facts [OF reward_filter_subseq] by blast
  then show ?thesis unfolding n by (intro subset_trans [OF set_take_subset]) simp
qed

lemma run_parts:
  assumes "runAutomaxBonusOnce cfg env file = (Some r, file')"
  obtains s f where "scanLockEvents (applyLockEvent (ae_lockReads env)) [] (ae_source env) (scan_start (ac_startBlock cfg) (ae_latest env)) (ac_chunkBlocks cfg)
      (ae_latest env) file = (Some s, f)" "r = claimBonuses cfg env s"
    "file' = (if cr_owners r = [] then f else s\<lparr>ti_marks := markOwnersClaimed (ae_markMs env) (cr_owners r) (ti_marks s)\<rparr>)"
  using assms by (auto simp: runAutomaxBonusOnce_def Let_def split: prod.splits option.splits)

section \<open>Properties\<close>


text \<open>
  C18. Every lock of a claim was entitled to one: it is in the table with auto-max on, not over, of a known owner in the
  owner's morning; the chain's own reads said that it can be claimed for; and an owner in cooldown appears only with
  locks that were never claimed for. No lock is given to the sender twice in a run, batches have at most 200 locks,
  all of them together the configured maximum, in ascending order.
\<close>

theorem automax_claims_sound:
  assumes "runAutomaxBonusOnce cfg env file = (Some r, file')" "ordered (ti_locks file)"
    "scanLockEvents (applyLockEvent (ae_lockReads env)) [] (ae_source env) (scan_start (ac_startBlock cfg) (ae_latest env)) (ac_chunkBlocks cfg) (ae_latest env) file
       = (Some s, f)"
  shows "distinct (concat (cr_batches r)) \<and> sorted (concat (cr_batches r)) \<and> length (concat (cr_batches r)) \<le> ac_maxLocks cfg
    \<and> (\<forall>b \<in> set (cr_batches r). length b \<le> 200)
    \<and> (\<forall>i \<in> set (concat (cr_batches r)). selected (ae_select env) (morning_ok cfg env)
         (\<lambda>w. isOwnerInCooldown (ti_marks s) w (ac_ownerCooldownMs cfg) (ae_nowMs env)) (ae_nowTs env) (ti_locks s) i)"
proof -
  have r: "r = claimBonuses cfg env s" using run_parts [OF assms(1)] assms(3) by (metis Pair_inject option.inject)
  have "ordered (ti_locks s)" using automax_index.good_scan [OF assms(2,3)] .
  note sel = selectAutomaxCandidates_facts [OF this, where rd = "ae_select env" and morning = "morning_ok cfg env"
    and in_cooldown = "\<lambda>w. isOwnerInCooldown (ti_marks s) w (ac_ownerCooldownMs cfg) (ae_nowMs env)"
    and now = "ae_nowTs env" and maxLocks = "ac_maxLocks cfg", folded bonus_candidates_def]
  define F where "F = fst (filterAutomaxCandidatesByMinReward (ae_reward env) (ac_minReward cfg) (bonus_candidates cfg env s))"
  have F: "subseq F (bonus_candidates cfg env s)" unfolding F_def by (rule reward_filter_subseq)
  obtain n where n: "concat (cr_batches r) = take n (sort F)" unfolding r F_def using claims_prefix by blast
  have "distinct (concat (cr_batches r))" unfolding n using subseq_facts [OF F] sel(2) by simp
  moreover have "sorted (concat (cr_batches r))" unfolding n by (simp add: sorted_wrt_take)
  moreover have "length (concat (cr_batches r)) \<le> ac_maxLocks cfg"
    unfolding n using list_emb_length [OF F] sel(3) by simp
  moreover have "\<forall>b \<in> set (cr_batches r). length b \<le> 200"
  proof -
    have c: "set (cr_batches (claimBatches lo b be af an 0 (slices 200 xs))) \<subseteq> set (slices 200 xs)" for lo b be af an xs
      using claimBatches_prefix [of lo b be af an 0 "slices 200 xs"] set_take_subset by metis
    obtain kept boots where k: "filterAutomaxCandidatesByMinReward (ae_reward env) (ac_minReward cfg) (bonus_candidates cfg env s) = (kept, boots)"
      by fastforce
    have "set (cr_batches r) \<subseteq> set (slices 200 (sort kept))"
      unfolding r claimBonuses_def k prod.case Let_def using c by (simp add: no_claims_def)
    then show ?thesis using slices_bounded by blast
  qed
  ultimately show ?thesis using sel(4) claims_of_candidates [of cfg env s] unfolding r by blast
qed

text \<open>
  C19. The cooldown of an owner advances only with proof. A run changes the mark of an owner only if the sender answered one
  of its batches with a confirmed transaction, and a lock of the owner in that batch, claimed for before, has a later
  claim time after it than before; skipped and failed batches, first claims and dry runs mark nobody.
\<close>

theorem owner_marked_with_proof:
  assumes "runAutomaxBonusOnce cfg env file = (Some r, file')"
    "scanLockEvents (applyLockEvent (ae_lockReads env)) [] (ae_source env) (scan_start (ac_startBlock cfg) (ae_latest env))
       (ac_chunkBlocks cfg) (ae_latest env) file = (Some s, f)"
    "ti_marks file' w \<noteq> ti_marks f w" "ti_marks file' w \<noteq> ti_marks s w"
  shows "ti_marks file' w = Some (ae_markMs env) \<and> \<not> ac_dryRun cfg
    \<and> (\<exists>k < length (cr_batches r). (\<exists>h rc v. ae_answer env k = Sent h rc v)
        \<and> (\<exists>i \<in> set (cr_batches r ! k). owner_of (ti_locks s) i = w
            \<and> (\<exists>cands b a. map_of (collectAutoMaxLastClaims (ae_before env) cands) i = Some b
                 \<and> map_of (collectAutoMaxLastClaims (ae_after env k) (cr_batches r ! k)) i = Some a \<and> b \<noteq> 0 \<and> b < a)))"
proof -
  have r: "r = claimBonuses cfg env s"
    "file' = (if cr_owners r = [] then f else s\<lparr>ti_marks := markOwnersClaimed (ae_markMs env) (cr_owners r) (ti_marks s)\<rparr>)"
    using run_parts [OF assms(1)] assms(2) by (metis Pair_inject option.inject)+
  then have w: "w \<in> set (cr_owners r)" "ti_marks file' w = Some (ae_markMs env)"
    using assms(3,4) by (auto simp: markOwnersClaimed_def split: if_splits)
  obtain kept boots where k: "filterAutomaxCandidatesByMinReward (ae_reward env) (ac_minReward cfg) (bonus_candidates cfg env s) = (kept, boots)"
    by fastforce
  define before where "before = collectAutoMaxLastClaims (ae_before env) (sort kept)"
  define bs where "bs = boots @ map fst (filter (\<lambda>(_, lc). lc = 0) before)"
  have R: "r = (if sort kept = [] \<or> ac_dryRun cfg then no_claims
      else claimBatches (owner_of (ti_locks s)) bs before (ae_after env) (ae_answer env) 0 (slices 200 (sort kept)))"
    unfolding r(1) claimBonuses_def k prod.case Let_def before_def bs_def ..
  with w(1) have "\<not> ac_dryRun cfg"
    and R: "r = claimBatches (owner_of (ti_locks s)) bs before (ae_after env) (ae_answer env) 0 (slices 200 (sort kept))"
    by (auto simp: no_claims_def split: if_splits)
  obtain j where j: "j < length (cr_batches r)" "served (owner_of (ti_locks s)) bs before (ae_after env) (ae_answer env) j (cr_batches r ! j) w"
    using claimBatches_owners [of w] w(1) R by (metis add_0)
  have nz: "map_of before i = Some b \<Longrightarrow> i \<notin> set bs \<Longrightarrow> b \<noteq> 0" for i b
    using map_of_SomeD [of before i b] by (force simp: bs_def)
  show ?thesis
    using w(2) \<open>\<not> ac_dryRun cfg\<close> j nz unfolding served_def before_def by (metis (no_types, lifting))
qed

text \<open>
  One owner can hold up all others. When the first group of the table has more locks than a run may take, the run claims
  for locks of that group alone, and so does every later run, since neither the claims made nor the cooldown they
  start changes which groups are looked at.
\<close>

theorem oversized_group_blocks_others:
  assumes "runAutomaxBonusOnce cfg env file = (Some r, file')" "ordered (ti_locks file)"
    "scanLockEvents (applyLockEvent (ae_lockReads env)) [] (ae_source env) (scan_start (ac_startBlock cfg) (ae_latest env))
       (ac_chunkBlocks cfg) (ae_latest env) file = (Some s, f)"
    "groupByOwner (morning_ok cfg env) (ae_nowTs env) (ti_locks s) = (w, ls) # gs" "ac_maxLocks cfg < length ls"
  shows "set (concat (cr_batches r)) \<subseteq> set (take (ac_maxLocks cfg) ls)"
proof -
  have r: "r = claimBonuses cfg env s" using run_parts [OF assms(1)] assms(3) by (metis Pair_inject option.inject)
  have o: "ordered (ti_locks s)" using automax_index.good_scan [OF assms(2,3)] .
  have "flattenOwnerGroupsForPrefilter ((w, ls) # gs) (ac_maxLocks cfg) = take (ac_maxLocks cfg) ls"
    using assms(5) by (simp add: flattenOwnerGroupsForPrefilter_def Let_def)
  then have "set (bonus_candidates cfg env s) \<subseteq> set (take (ac_maxLocks cfg) ls)"
    using selectAutomaxCandidates_facts(1) [OF o] assms(4) subseq_facts unfolding bonus_candidates_def by metis
  then show ?thesis using claims_of_candidates unfolding r by blast
qed

text \<open>The limit of the slow path is reduced by the candidates found before, which then count against it again.\<close>

lemma fallback_limit_counted_twice:
  assumes "rest \<noteq> []" "length candidates < maxLocks" "maxLocks \<le> 2 * length candidates" "bn_eligible rd (take 500 rest) = None"
  shows "quoterLoop rd now maxLocks rest candidates = (candidates, [])"
proof -
  have "selectFallback rd now (maxLocks - length candidates) rest (candidates, []) = (candidates, [])"
    using assms(3) by (cases rest) (simp, auto)
  then show ?thesis using assms by (subst quoterLoop.simps) simp
qed

text \<open>Without a configured first block, an outage of more than 50000 blocks leaves a gap that no scan covers.\<close>

lemma outage_leaves_gap:
  "0 < n \<Longrightarrow> n + 1 < latest - 50000 \<Longrightarrow> resume_block (scan_start None latest) n = latest - 50000"
  by (auto simp: resume_block_def scan_start_def Let_def SCAN_OVERLAP_BLOCKS_def CHAIN_REWIND_TOLERANCE_def)

section \<open>Witnesses\<close>

definition sample_lock_event :: lock_event where
  "sample_lock_event = \<lparr>le_block = 5, le_index = 0, le_body = Lock_created ''0xAA'' 1 900 True\<rparr>"

definition sample_source :: log_source where
  "sample_source k f t = Some (if k = Kind_created \<and> f \<le> 5 \<and> 5 \<le> t then [sample_lock_event] else [])"

definition sample_scanned :: "lock_table task_index" where
  "sample_scanned = \<lparr>ti_lastScannedBlock = 10, ti_locks = [(1, \<lparr>lr_lockEnd = Some 900, lr_autoMax = True, lr_owner = Some ''0xaa''\<rparr>)],
     ti_marks = Map.empty\<rparr>"

lemma sample_source_honest: "honest_source [sample_lock_event] sample_source"
  by (auto simp: honest_source_def sample_source_def sample_lock_event_def kind_of_def)

lemma lower_sample: "toLowerCase ''0xAA'' = ''0xaa''"
  by code_simp

lemma sample_scan:
  "scanLockEvents (applyLockEvent (\<lambda>_ _. None)) [] sample_source 1 None 10 (init_index []) = (Some sample_scanned, sample_scanned)"
  by (simp add: scanLockEvents_def Let_def init_index_def resume_block_def chunk_size_def scanChunks.simps chunkEvents_def
    sample_source_def applyLockEvent_def sample_lock_event_def sample_scanned_def lower_sample
    SCAN_OVERLAP_BLOCKS_def CHAIN_REWIND_TOLERANCE_def)


definition sample_bonus_reads :: "int \<Rightarrow> bonus_reads" where
  "sample_bonus_reads lc = \<lparr>bn_hasQuoter = False, bn_eligible = \<lambda>_. None, bn_lastClaim = \<lambda>_. Some lc, bn_lastClaimTry = \<lambda>_ _. Some lc,
     bn_lastClaimBatch = \<lambda>_. None, bn_bonuses = \<lambda>_. None\<rparr>"

definition sample_bonus_config :: bonus_config where
  "sample_bonus_config = \<lparr>ac_startBlock = Some 1, ac_chunkBlocks = None, ac_maxLocks = 1, ac_ownerCooldownMs = 1000, ac_minReward = 0,
     ac_dryRun = False, ac_morning = None\<rparr>"

definition sample_bonus_env :: bonus_env where
  "sample_bonus_env = \<lparr>ae_source = \<lambda>_ _ _. None, ae_lockReads = \<lambda>_ _. None, ae_latest = 36, ae_nowTs = 200000, ae_nowMs = 0, ae_hourUtc = 0,
     ae_select = sample_bonus_reads 1000, ae_reward = sample_bonus_reads 1000, ae_before = sample_bonus_reads 1000,
     ae_after = \<lambda>_. sample_bonus_reads 200000, ae_answer = \<lambda>_. Sent ''0x1'' \<lparr>rc_blockNumber = None, rc_blockHash = None, rc_status = None, rc_gasUsed = None,
       rc_effectiveGasPrice = None, rc_l1Fee = None\<rparr> None, ae_markMs = 7\<rparr>"

definition sample_table :: "lock_table task_index" where
  "sample_table = \<lparr>ti_lastScannedBlock = 100,
     ti_locks = [(1, \<lparr>lr_lockEnd = Some 900000, lr_autoMax = True, lr_owner = Some ''a''\<rparr>),
       (2, \<lparr>lr_lockEnd = Some 900000, lr_autoMax = True, lr_owner = Some ''a''\<rparr>),
       (3, \<lparr>lr_lockEnd = Some 900000, lr_autoMax = True, lr_owner = Some ''b''\<rparr>)], ti_marks = Map.empty\<rparr>"

lemma sample_bonus_scan:
  "scanLockEvents (applyLockEvent (ae_lockReads sample_bonus_env)) [] (ae_source sample_bonus_env)
     (scan_start (ac_startBlock sample_bonus_config) (ae_latest sample_bonus_env)) (ac_chunkBlocks sample_bonus_config)
     (ae_latest sample_bonus_env) sample_table = (Some sample_table, sample_table)"
  by (simp add: scanLockEvents_def Let_def resume_block_def scan_start_def sample_bonus_env_def sample_bonus_config_def sample_table_def
    SCAN_OVERLAP_BLOCKS_def CHAIN_REWIND_TOLERANCE_def)

lemma sample_groups:
  "groupByOwner (morning_ok sample_bonus_config sample_bonus_env) (ae_nowTs sample_bonus_env) (ti_locks sample_table)
     = [(''a'', [1, 2]), (''b'', [3])]"
  by (simp add: groupByOwner_def may_claim_def morning_ok_def sample_bonus_config_def sample_bonus_env_def sample_table_def)

lemma sample_single: "readAutoMaxLastClaimWithRetry (sample_bonus_reads lc) i = Some lc"
proof -
  have "[0..<4] = [0, 1, 2, 3 :: nat]" by code_simp
  then show ?thesis by (simp add: readAutoMaxLastClaimWithRetry_def sample_bonus_reads_def)
qed

lemma sample_collected: "collectAutoMaxLastClaims (sample_bonus_reads lc) [1] = [(1, lc)]"
  using sample_single [of lc 1] by (simp add: collectAutoMaxLastClaims_def viaPerToken_def) (simp add: sample_bonus_reads_def)

lemma sample_owner: "owner_of (ti_locks sample_table) 1 = ''a''"
  by (simp add: owner_of_def sample_table_def)

lemma sample_candidates: "bonus_candidates sample_bonus_config sample_bonus_env sample_table = [1]"
  unfolding bonus_candidates_def selectAutomaxCandidates_def Let_def sample_groups
  by (simp add: flattenOwnerGroupsForPrefilter_def applyCooldownPostFilter_def sample_bonus_config_def sample_bonus_env_def
    sample_bonus_reads_def isAutoMaxLastClaimEligible_def isOwnerInCooldown_def sample_table_def)

lemma slices_one: "slices 200 [x] = [[x]]"
  by (simp add: slices.simps)

definition sample_claims :: claim_result where
  "sample_claims = \<lparr>cr_batches = [[1]], cr_owners = [''a''], cr_error = False, cr_skipped = False\<rparr>"

lemma sample_env_reads:
  "ae_reward sample_bonus_env = sample_bonus_reads 1000" "ae_before sample_bonus_env = sample_bonus_reads 1000"
  "ae_after sample_bonus_env = (\<lambda>_. sample_bonus_reads 200000)" "ac_minReward sample_bonus_config = 0" "\<not> ac_dryRun sample_bonus_config" "ae_markMs sample_bonus_env = 7"
  by (simp_all add: sample_bonus_env_def sample_bonus_config_def)

lemma sample_answer: "\<exists>h r v. ae_answer sample_bonus_env = (\<lambda>_. Sent h r v)"
proof -
  have "ae_answer sample_bonus_env = (\<lambda>_. ae_answer sample_bonus_env 0)" by (simp add: sample_bonus_env_def)
  moreover obtain h r v where "ae_answer sample_bonus_env 0 = Sent h r v" by (simp add: sample_bonus_env_def)
  ultimately show ?thesis by metis
qed

lemma sample_claimed: "claimBonuses sample_bonus_config sample_bonus_env sample_table = sample_claims"
proof -
  obtain h r v where a: "ae_answer sample_bonus_env = (\<lambda>_. Sent h r v)" using sample_answer by blast
  have f: "filterAutomaxCandidatesByMinReward (sample_bonus_reads 1000) 0 [1] = ([1], [])"
    using sample_collected [of 1000] by (simp add: filterAutomaxCandidatesByMinReward_def collectFirstTouchTokenIds_def)
  show ?thesis
    unfolding claimBonuses_def sample_candidates sample_env_reads a f prod.case Let_def
    using sample_env_reads(5) by (simp add: slices_one sample_collected sample_owner collectAutomaxCooldownOwners_def
      with_batch_def no_claims_def sample_claims_def)
qed

lemma sample_run_result:
  "runAutomaxBonusOnce sample_bonus_config sample_bonus_env sample_table
     = (Some sample_claims, sample_table\<lparr>ti_marks := markOwnersClaimed 7 [''a''] Map.empty\<rparr>)"
  unfolding runAutomaxBonusOnce_def sample_bonus_scan
  by (simp add: sample_claimed Let_def sample_env_reads(6)) (simp add: sample_claims_def sample_table_def)

lemma sample_ordered: "ordered (ti_locks sample_table)"
  by (simp add: sample_table_def)

theorem automax_claims_sound_witness: "concat (cr_batches sample_claims) = [1] \<and> length [1 :: int] \<le> ac_maxLocks sample_bonus_config"
  using automax_claims_sound [OF sample_run_result sample_ordered sample_bonus_scan] by (simp add: sample_claims_def)

theorem owner_marked_with_proof_witness:
  "ti_marks (sample_table\<lparr>ti_marks := markOwnersClaimed 7 [''a''] Map.empty\<rparr>) ''a'' = Some 7 \<and> \<not> ac_dryRun sample_bonus_config"
  using owner_marked_with_proof [OF sample_run_result sample_bonus_scan, of "''a''"]
  by (simp add: markOwnersClaimed_def sample_table_def sample_env_reads)

theorem oversized_group_blocks_others_witness: "3 \<notin> set (concat (cr_batches sample_claims)) \<and> set (concat (cr_batches sample_claims)) \<subseteq> {1}"
  using oversized_group_blocks_others [OF sample_run_result sample_ordered sample_bonus_scan sample_groups]
  by (simp add: sample_claims_def sample_bonus_config_def)

end
