(* ===== verification/CheckpointTask.thy ===== *)
theory CheckpointTask
  imports AutomaxTask
begin

text \<open>
  The task that checkpoints owners before their locks expire (\<open>src/keeper/src/tasks/checkpoint_before_expiry.ts\<close>): its table of
  locks, the choice of owners and a run, which sends one batch.

  \<^item> The reads of the lock token are arguments, \<open>None\<close> where they fail, and so is the answer of \<open>sendContractTx\<close>.
  \<^item> Its table is that of \<open>AutomaxTask\<close> without the owners; what is proved of that table carries over.
\<close>

section \<open>The table of locks\<close>

record ck_lock =
  ck_lockEnd :: "int option"
  ck_autoMax :: bool

type_synonym ck_table = "(int \<times> ck_lock) list"

definition applyCheckpointEvent :: "lock_reads \<Rightarrow> ck_table \<Rightarrow> lock_event \<Rightarrow> ck_table" where
  "applyCheckpointEvent rd locks e =
     (case le_body e of
        Lock_created _ tokenId lockEnd autoMax \<Rightarrow> put_lock tokenId \<lparr>ck_lockEnd = Some lockEnd, ck_autoMax = autoMax\<rparr> locks
      | Lock_extended _ tokenId newEnd \<Rightarrow>
          (case map_of locks tokenId of
             Some r \<Rightarrow> put_lock tokenId (r\<lparr>ck_lockEnd := Some newEnd\<rparr>) locks
           | None \<Rightarrow> put_lock tokenId \<lparr>ck_lockEnd = Some newEnd, ck_autoMax = False\<rparr> locks)
      | Lock_unlocked tokenId \<Rightarrow> del_lock tokenId locks
      | Lock_merged _ fromId intoId \<Rightarrow>
          (let locks = del_lock fromId locks
           in case rd intoId (le_block e) of
                None \<Rightarrow> locks
              | Some (amount, lockEnd, autoMax) \<Rightarrow>
                  if amount = 0 then del_lock intoId locks
                  else put_lock intoId \<lparr>ck_lockEnd = Some lockEnd, ck_autoMax = autoMax\<rparr> locks)
      | Lock_automax _ tokenId eventAutoMax \<Rightarrow>
          (case rd tokenId (le_block e) of
             Some (amount, lockEnd, autoMax) \<Rightarrow>
               if amount = 0 then del_lock tokenId locks
               else put_lock tokenId \<lparr>ck_lockEnd = Some lockEnd, ck_autoMax = autoMax\<rparr> locks
           | None \<Rightarrow>
               put_lock tokenId
                 \<lparr>ck_lockEnd = (case map_of locks tokenId of Some r \<Rightarrow> ck_lockEnd r | None \<Rightarrow> Some 0), ck_autoMax = eventAutoMax\<rparr> locks))"

text \<open>The table without its owners.\<close>

definition without_owner :: "lock_rec \<Rightarrow> ck_lock" where
  "without_owner r = \<lparr>ck_lockEnd = lr_lockEnd r, ck_autoMax = lr_autoMax r\<rparr>"

definition without_owners :: "lock_table \<Rightarrow> ck_table" where
  "without_owners = map (\<lambda>(i, r). (i, without_owner r))"

definition with_owners :: "ck_table \<Rightarrow> lock_table" where
  "with_owners = map (\<lambda>(i, r). (i, \<lparr>lr_lockEnd = ck_lockEnd r, lr_autoMax = ck_autoMax r, lr_owner = None\<rparr>))"

lemma without_with [simp]: "without_owners (with_owners l) = l"
  by (induction l) (auto simp: without_owners_def with_owners_def without_owner_def)

lemma without_put: "without_owners (put_lock i r l) = put_lock i (without_owner r) (without_owners l)"
  by (induction i r l rule: put_lock.induct) (auto simp: without_owners_def)

lemma without_del: "without_owners (del_lock i l) = del_lock i (without_owners l)"
  by (induction l) (auto simp: without_owners_def del_lock_def)

lemma map_of_without: "map_of (without_owners l) i = map_option without_owner (map_of l i)"
  by (induction l) (auto simp: without_owners_def)

lemma ordered_without: "ordered (without_owners l) \<longleftrightarrow> ordered l"
  by (simp add: ordered_def without_owners_def case_prod_unfold comp_def)

lemma ordered_with: "ordered (with_owners l) \<longleftrightarrow> ordered l"
  using ordered_without [of "with_owners l"] by simp

lemma apply_without: "applyCheckpointEvent rd (without_owners l) e = without_owners (applyLockEvent rd l e)"
  by (cases "le_body e")
    (auto simp: applyCheckpointEvent_def applyLockEvent_def without_put without_del map_of_without without_owner_def Let_def
      split: option.splits prod.splits)

lemma replay_without: "foldl (applyCheckpointEvent rd) (without_owners l) es = without_owners (foldl (applyLockEvent rd) l es)"
  by (induction es arbitrary: l) (simp_all add: apply_without)

interpretation checkpoint_index: event_index ordered "[]" "applyCheckpointEvent rd" for rd
proof (unfold_locales)
  fix t :: ck_table and es
  assume "ordered t"
  then have "ordered (with_owners t)" by (simp add: ordered_with)
  then show "foldl (applyCheckpointEvent rd) (foldl (applyCheckpointEvent rd) t es) es = foldl (applyCheckpointEvent rd) t es"
    using automax_index.replay_again [of "with_owners t" rd es] replay_without [of rd "with_owners t" es]
      replay_without [of rd "foldl (applyLockEvent rd) (with_owners t) es" es] by simp
next
  fix t :: ck_table and e
  assume "ordered t"
  then show "ordered (applyCheckpointEvent rd t e)"
    using apply_without [of rd "with_owners t" e] by (simp add: ordered_without ordered_with ordered_apply)
qed simp

section \<open>The choice of owners\<close>

record ck_reads =
  cy_ownerOf :: "int \<Rightarrow> string option"
  cy_lockInfo :: "int \<Rightarrow> (int \<times> int \<times> bool) option"

definition ZERO_OWNER :: string where
  "ZERO_OWNER = ''0x0000000000000000000000000000000000000000''"

definition isZeroOwner :: "string \<Rightarrow> bool" where
  "isZeroOwner w \<longleftrightarrow> w = [] \<or> toLowerCase w = ZERO_OWNER"

definition in_window :: "int \<Rightarrow> int \<Rightarrow> int \<Rightarrow> bool" where
  "in_window now windowSecs lockEnd \<longleftrightarrow> now < lockEnd \<and> lockEnd \<le> now + windowSecs"

text \<open>The tokens of the table that expire in the window, those that expire first coming first.\<close>

definition expiring :: "int \<Rightarrow> int \<Rightarrow> ck_table \<Rightarrow> int list" where
  "expiring now windowSecs locks =
     map fst (sort_key snd (concat (map (\<lambda>(i, r).
       case ck_lockEnd r of
         Some lockEnd \<Rightarrow> if \<not> ck_autoMax r \<and> in_window now windowSecs lockEnd then [(i, lockEnd)] else []
       | None \<Rightarrow> []) locks)))"

text \<open>The owner of a token, if the chain confirms that it expires in the window.\<close>

definition confirmedOwner :: "ck_reads \<Rightarrow> int \<Rightarrow> int \<Rightarrow> int \<Rightarrow> string option" where
  "confirmedOwner rd now windowSecs i =
     (case (cy_ownerOf rd i, cy_lockInfo rd i) of
        (Some w, Some (amount, currentEnd, autoMax)) \<Rightarrow>
          if isZeroOwner w \<or> amount = 0 \<or> autoMax \<or> \<not> in_window now windowSecs currentEnd then None else Some (toLowerCase w)
      | _ \<Rightarrow> None)"

fun pickOwners :: "(int \<Rightarrow> string option) \<Rightarrow> nat \<Rightarrow> string list \<Rightarrow> int list \<Rightarrow> string list" where
  "pickOwners confirmed maxUsers owners [] = owners"
| "pickOwners confirmed maxUsers owners (i # is) =
     (if length owners \<ge> maxUsers then owners
      else case confirmed i of
             Some w \<Rightarrow> pickOwners confirmed maxUsers (if w \<in> set owners then owners else owners @ [w]) is
           | None \<Rightarrow> pickOwners confirmed maxUsers owners is)"

definition CHECKPOINT_COOLDOWN_MS :: int where
  "CHECKPOINT_COOLDOWN_MS = 172800 * 1000"

definition checkpoint_due :: "(string \<rightharpoonup> int) \<Rightarrow> int \<Rightarrow> string \<Rightarrow> bool" where
  "checkpoint_due marks nowMs w \<longleftrightarrow> nowMs - (case marks w of Some t \<Rightarrow> t | None \<Rightarrow> 0) \<ge> CHECKPOINT_COOLDOWN_MS"

definition selectOwnersToCheckpoint ::
  "ck_reads \<Rightarrow> ck_table task_index \<Rightarrow> int \<Rightarrow> int \<Rightarrow> nat \<Rightarrow> int \<Rightarrow> string list" where
  "selectOwnersToCheckpoint rd s now windowSecs maxUsers nowMs =
     take maxUsers (filter (checkpoint_due (ti_marks s) nowMs)
       (pickOwners (confirmedOwner rd now windowSecs) maxUsers [] (expiring now windowSecs (ti_locks s))))"

section \<open>A run\<close>

record ck_config =
  cc_startBlock :: "int option"
  cc_chunkBlocks :: "int option"
  cc_windowSecs :: int
  cc_maxUsers :: nat
  cc_dryRun :: bool

record ck_env =
  ce_source :: log_source
  ce_lockReads :: lock_reads
  ce_latest :: int
  ce_nowTs :: int
  ce_loadMs :: int
  ce_nowMs :: int
  ce_reads :: ck_reads
  ce_answer :: send_result
  ce_markMs :: int

definition SEVEN_DAYS_MS :: int where
  "SEVEN_DAYS_MS = 7 * 24 * 60 * 60 * 1000"

text \<open>Loading drops marks that are a week old.\<close>

definition prune_marks :: "int \<Rightarrow> 't task_index \<Rightarrow> 't task_index" where
  "prune_marks nowMs s =
     s\<lparr>ti_marks := (\<lambda>w. case ti_marks s w of Some t \<Rightarrow> if nowMs - t < SEVEN_DAYS_MS then Some t else None | None \<Rightarrow> None)\<rparr>"

definition mark_all :: "int \<Rightarrow> string list \<Rightarrow> (string \<rightharpoonup> int) \<Rightarrow> (string \<rightharpoonup> int)" where
  "mark_all now owners marks = (\<lambda>w. if w \<in> set owners then Some now else marks w)"

text \<open>The owners given to the sender, \<open>None\<close> when the scan throws, and the file afterwards.\<close>

definition runCheckpointBeforeExpiry ::
  "ck_config \<Rightarrow> ck_env \<Rightarrow> ck_table task_index \<Rightarrow> string list option \<times> ck_table task_index" where
  "runCheckpointBeforeExpiry cfg env file =
     (case scanLockEvents (applyCheckpointEvent (ce_lockReads env)) [] (ce_source env) (scan_start (cc_startBlock cfg) (ce_latest env))
             (cc_chunkBlocks cfg) (ce_latest env) (prune_marks (ce_loadMs env) file) of
        (None, f) \<Rightarrow> (None, f)
      | (Some s, f) \<Rightarrow>
          (let owners = selectOwnersToCheckpoint (ce_reads env) s (ce_nowTs env) (cc_windowSecs cfg) (cc_maxUsers cfg) (ce_nowMs env) in
           if owners = [] \<or> cc_dryRun cfg then (Some [], f)
           else case ce_answer env of
                  Sent _ _ _ \<Rightarrow> (Some owners, s\<lparr>ti_marks := mark_all (ce_markMs env) owners (ti_marks s)\<rparr>)
                | _ \<Rightarrow> (Some owners, f)))"

section \<open>Lemmas\<close>

text \<open>The owners of the tokens in order of expiry, each once.\<close>

definition owners_by_expiry :: "ck_reads \<Rightarrow> int \<Rightarrow> int \<Rightarrow> ck_table \<Rightarrow> string list" where
  "owners_by_expiry rd now windowSecs locks =
     rev (remdups (rev (List.map_filter (confirmedOwner rd now windowSecs) (expiring now windowSecs locks))))"

definition add_owners :: "string list \<Rightarrow> string list \<Rightarrow> string list" where
  "add_owners = foldl (\<lambda>owners w. if w \<in> set owners then owners else owners @ [w])"

lemma add_owners_extends: "\<exists>xs. add_owners owners ws = owners @ xs"
proof (induction ws arbitrary: owners)
  case (Cons w ws)
  then obtain xs where "add_owners (if w \<in> set owners then owners else owners @ [w]) ws = (if w \<in> set owners then owners else owners @ [w]) @ xs"
    by blast
  then show ?case by (auto simp: add_owners_def)
qed (simp add: add_owners_def)

lemma add_owners_set: "set (add_owners owners ws) = set owners \<union> set ws"
  by (induction ws arbitrary: owners) (auto simp: add_owners_def)

lemma add_owners_firsts: "add_owners [] ws = rev (remdups (rev ws))"
proof (induction ws rule: rev_induct)
  case (snoc w ws)
  have "add_owners [] (ws @ [w]) = (if w \<in> set (add_owners [] ws) then add_owners [] ws else add_owners [] ws @ [w])"
    by (simp add: add_owners_def)
  then show ?case using snoc add_owners_set [of "[]" ws] by auto
qed (simp add: add_owners_def)

lemma pickOwners_take:
  "length owners \<le> m \<Longrightarrow> pickOwners confirmed m owners is = take m (add_owners owners (List.map_filter confirmed is))"
proof (induction confirmed m owners "is" rule: pickOwners.induct)
  case (1 confirmed m owners)
  then show ?case by (simp add: add_owners_def map_filter_simps)
next
  case (2 confirmed m owners i "is")
  show ?case
  proof (cases "length owners \<ge> m")
    case True
    obtain xs where "add_owners owners (List.map_filter confirmed (i # is)) = owners @ xs" using add_owners_extends by blast
    with True 2(3) show ?thesis by simp
  next
    case False
    then show ?thesis using 2 by (cases "confirmed i") (auto simp: map_filter_simps add_owners_def)
  qed
qed

lemma selectOwners_reference:
  "selectOwnersToCheckpoint rd s now windowSecs maxUsers nowMs =
     filter (checkpoint_due (ti_marks s) nowMs) (take maxUsers (owners_by_expiry rd now windowSecs (ti_locks s)))"
proof -
  have "length (filter P (take m xs)) \<le> m" for P m and xs :: "string list"
    using le_trans [OF length_filter_le] by (metis length_take min.cobounded2)
  then show ?thesis
    unfolding selectOwnersToCheckpoint_def owners_by_expiry_def by (simp add: pickOwners_take add_owners_firsts)
qed

lemma confirmed_facts:
  "confirmedOwner rd now windowSecs i = Some w \<Longrightarrow>
     \<exists>raw amount lockEnd. cy_ownerOf rd i = Some raw \<and> \<not> isZeroOwner raw \<and> w = toLowerCase raw
       \<and> cy_lockInfo rd i = Some (amount, lockEnd, False) \<and> amount \<noteq> 0 \<and> in_window now windowSecs lockEnd"
  by (auto simp: confirmedOwner_def split: option.splits prod.splits if_splits)

lemma expiring_facts:
  "i \<in> set (expiring now windowSecs locks) \<Longrightarrow>
     \<exists>r lockEnd. (i, r) \<in> set locks \<and> \<not> ck_autoMax r \<and> ck_lockEnd r = Some lockEnd \<and> in_window now windowSecs lockEnd"
proof -
  assume "i \<in> set (expiring now windowSecs locks)"
  then obtain e j r where "(j, r) \<in> set locks"
    "(i, e) \<in> set (case ck_lockEnd r of
       Some lockEnd \<Rightarrow> if \<not> ck_autoMax r \<and> in_window now windowSecs lockEnd then [(j, lockEnd)] else [] | None \<Rightarrow> [])"
    by (auto simp: expiring_def)
  then show ?thesis by (cases "ck_lockEnd r") (auto split: if_splits)
qed

lemma owners_facts:
  "w \<in> set (owners_by_expiry rd now windowSecs locks) \<Longrightarrow>
     \<exists>i \<in> set (expiring now windowSecs locks). confirmedOwner rd now windowSecs i = Some w"
  by (auto simp: owners_by_expiry_def map_filter_def)

section \<open>Properties\<close>

text \<open>
  The table of this task is the chain's history too: the contract of the scan holds of it, by way of the table with owners.
\<close>

theorem checkpoint_table_is_history:
  assumes "index_reach (applyCheckpointEvent rd) [] evs startBlock s" "distinct (map position evs)"
  shows "indexed (applyCheckpointEvent rd) [] evs startBlock s"
  by (rule checkpoint_index.reach_indexed [OF assms(2,1)])

text \<open>
  C20. The owners of a batch are at most the configured number, each once, none checkpointed in the last two days; each owns, by
  the chain's word, a lock that is not empty, not on auto-max and expires in the window, as the table says as well.
\<close>

theorem checkpoint_owners_sound:
  assumes "runCheckpointBeforeExpiry cfg env file = (Some owners, file')"
    "scanLockEvents (applyCheckpointEvent (ce_lockReads env)) [] (ce_source env) (scan_start (cc_startBlock cfg) (ce_latest env))
       (cc_chunkBlocks cfg) (ce_latest env) (prune_marks (ce_loadMs env) file) = (Some s, f)"
  shows "length owners \<le> cc_maxUsers cfg \<and> distinct owners \<and> (\<forall>w \<in> set owners. checkpoint_due (ti_marks s) (ce_nowMs env) w
    \<and> (\<exists>i r tableEnd chainEnd raw amount. (i, r) \<in> set (ti_locks s) \<and> \<not> ck_autoMax r \<and> ck_lockEnd r = Some tableEnd
         \<and> in_window (ce_nowTs env) (cc_windowSecs cfg) tableEnd \<and> cy_ownerOf (ce_reads env) i = Some raw \<and> w = toLowerCase raw
         \<and> \<not> isZeroOwner raw \<and> cy_lockInfo (ce_reads env) i = Some (amount, chainEnd, False) \<and> amount \<noteq> 0
         \<and> in_window (ce_nowTs env) (cc_windowSecs cfg) chainEnd))"
proof -
  define sel where "sel = selectOwnersToCheckpoint (ce_reads env) s (ce_nowTs env) (cc_windowSecs cfg) (cc_maxUsers cfg) (ce_nowMs env)"
  have o: "owners = [] \<or> owners = sel"
    using assms by (auto simp: runCheckpointBeforeExpiry_def Let_def sel_def split: if_splits send_result.splits)
  have "length sel \<le> cc_maxUsers cfg" by (simp add: sel_def selectOwnersToCheckpoint_def)
  moreover have "distinct sel" by (simp add: sel_def selectOwners_reference owners_by_expiry_def)
  moreover have "checkpoint_due (ti_marks s) (ce_nowMs env) w
      \<and> (\<exists>i \<in> set (expiring (ce_nowTs env) (cc_windowSecs cfg) (ti_locks s)).
           confirmedOwner (ce_reads env) (ce_nowTs env) (cc_windowSecs cfg) i = Some w)" if "w \<in> set sel" for w
    using that owners_facts unfolding sel_def selectOwners_reference by (auto dest!: in_set_takeD)
  ultimately show ?thesis using o confirmed_facts expiring_facts by (metis (no_types, lifting) distinct.simps(1) empty_iff list.set(1) list.size(3) zero_le)
qed

text \<open>
  Owners in cooldown hold the places of others. The places of a run are given out before the cooldown is looked at: when
  those whose locks expire first were all checkpointed recently, nobody is checkpointed, whoever else is due.
\<close>

theorem cooled_owners_hold_places:
  assumes "runCheckpointBeforeExpiry cfg env file = (Some owners, file')"
    "scanLockEvents (applyCheckpointEvent (ce_lockReads env)) [] (ce_source env) (scan_start (cc_startBlock cfg) (ce_latest env))
       (cc_chunkBlocks cfg) (ce_latest env) (prune_marks (ce_loadMs env) file) = (Some s, f)"
    "\<forall>w \<in> set (take (cc_maxUsers cfg) (owners_by_expiry (ce_reads env) (ce_nowTs env) (cc_windowSecs cfg) (ti_locks s))).
       \<not> checkpoint_due (ti_marks s) (ce_nowMs env) w"
  shows "owners = [] \<and> file' = f"
proof -
  have "selectOwnersToCheckpoint (ce_reads env) s (ce_nowTs env) (cc_windowSecs cfg) (cc_maxUsers cfg) (ce_nowMs env) = []"
    using assms(3) by (simp add: selectOwners_reference filter_empty_conv)
  then show ?thesis using assms(1,2) by (simp add: runCheckpointBeforeExpiry_def)
qed

section \<open>Witnesses\<close>

definition sample_ck_table :: "ck_table task_index" where
  "sample_ck_table = \<lparr>ti_lastScannedBlock = 100,
     ti_locks = [(1, \<lparr>ck_lockEnd = Some 1010, ck_autoMax = False\<rparr>), (2, \<lparr>ck_lockEnd = Some 1005, ck_autoMax = False\<rparr>)],
     ti_marks = Map.empty(''a'' \<mapsto> 500000000)\<rparr>"

definition sample_ck_config :: "nat \<Rightarrow> ck_config" where
  "sample_ck_config n = \<lparr>cc_startBlock = Some 1, cc_chunkBlocks = None, cc_windowSecs = 100, cc_maxUsers = n, cc_dryRun = False\<rparr>"

definition sample_ck_env :: ck_env where
  "sample_ck_env = \<lparr>ce_source = \<lambda>_ _ _. None, ce_lockReads = \<lambda>_ _. None, ce_latest = 36, ce_nowTs = 1000, ce_loadMs = 500000001,
     ce_nowMs = 500000001,
     ce_reads = \<lparr>cy_ownerOf = \<lambda>i. Some (if i = 1 then ''b'' else ''a''), cy_lockInfo = \<lambda>i. Some (7, if i = 1 then 1010 else 1005, False)\<rparr>,
     ce_answer = Skipped Sk_paused, ce_markMs = 0\<rparr>"

lemma sample_ck_pruned: "prune_marks (ce_loadMs sample_ck_env) sample_ck_table = sample_ck_table"
  by (auto simp: prune_marks_def sample_ck_env_def sample_ck_table_def SEVEN_DAYS_MS_def)

lemma sample_ck_scan:
  "scanLockEvents (applyCheckpointEvent (ce_lockReads sample_ck_env)) [] (ce_source sample_ck_env)
     (scan_start (cc_startBlock (sample_ck_config n)) (ce_latest sample_ck_env)) (cc_chunkBlocks (sample_ck_config n))
     (ce_latest sample_ck_env) (prune_marks (ce_loadMs sample_ck_env) sample_ck_table) = (Some sample_ck_table, sample_ck_table)"
  unfolding sample_ck_pruned
  by (simp add: scanLockEvents_def Let_def resume_block_def scan_start_def sample_ck_env_def sample_ck_config_def sample_ck_table_def
    SCAN_OVERLAP_BLOCKS_def CHAIN_REWIND_TOLERANCE_def)

lemma lower_samples: "toLowerCase ''a'' = ''a''" "toLowerCase ''b'' = ''b''"
  by code_simp+

lemma sample_ck_owners:
  "owners_by_expiry (ce_reads sample_ck_env) (ce_nowTs sample_ck_env) (cc_windowSecs (sample_ck_config n)) (ti_locks sample_ck_table)
     = [''a'', ''b'']"
  by (simp add: owners_by_expiry_def expiring_def confirmedOwner_def isZeroOwner_def ZERO_OWNER_def lower_samples in_window_def
    sample_ck_env_def sample_ck_config_def sample_ck_table_def map_filter_simps)

lemma sample_ck_due:
  "\<not> checkpoint_due (ti_marks sample_ck_table) (ce_nowMs sample_ck_env) ''a''" "checkpoint_due (ti_marks sample_ck_table) (ce_nowMs sample_ck_env) ''b''"
  by (simp_all add: checkpoint_due_def CHECKPOINT_COOLDOWN_MS_def sample_ck_table_def sample_ck_env_def)

lemma sample_ck_run:
  "runCheckpointBeforeExpiry (sample_ck_config 1) sample_ck_env sample_ck_table = (Some [], sample_ck_table)"
  "runCheckpointBeforeExpiry (sample_ck_config 2) sample_ck_env sample_ck_table = (Some [''b''], sample_ck_table)"
proof -
  have m: "cc_maxUsers (sample_ck_config n) = n" "\<not> cc_dryRun (sample_ck_config n)" "ce_answer sample_ck_env = Skipped Sk_paused" for n
    by (simp_all add: sample_ck_config_def sample_ck_env_def)
  show "runCheckpointBeforeExpiry (sample_ck_config 1) sample_ck_env sample_ck_table = (Some [], sample_ck_table)"
    "runCheckpointBeforeExpiry (sample_ck_config 2) sample_ck_env sample_ck_table = (Some [''b''], sample_ck_table)"
    unfolding runCheckpointBeforeExpiry_def sample_ck_scan
    by (simp_all add: selectOwners_reference sample_ck_owners sample_ck_due m Let_def)
qed

theorem checkpoint_table_is_history_witness:
  "indexed (applyCheckpointEvent (\<lambda>_ _. None)) [] [sample_lock_event] 1 (init_index [])"
  using checkpoint_table_is_history [OF fresh] by simp

theorem checkpoint_owners_sound_witness: "\<exists>i r. (i, r) \<in> set (ti_locks sample_ck_table) \<and> cy_ownerOf (ce_reads sample_ck_env) i = Some ''b''"
proof -
  obtain i r raw where "(i, r) \<in> set (ti_locks sample_ck_table)" "cy_ownerOf (ce_reads sample_ck_env) i = Some raw" "''b'' = toLowerCase raw"
    using checkpoint_owners_sound [OF sample_ck_run(2) sample_ck_scan] by auto
  then show ?thesis by (auto simp: sample_ck_env_def lower_samples split: if_splits)
qed

theorem cooled_owners_hold_places_witness:
  "runCheckpointBeforeExpiry (sample_ck_config 1) sample_ck_env sample_ck_table = (Some [], sample_ck_table)
    \<and> checkpoint_due (ti_marks sample_ck_table) (ce_nowMs sample_ck_env) ''b''"
proof -
  have "\<forall>w \<in> set (take (cc_maxUsers (sample_ck_config 1)) (owners_by_expiry (ce_reads sample_ck_env) (ce_nowTs sample_ck_env)
      (cc_windowSecs (sample_ck_config 1)) (ti_locks sample_ck_table))). \<not> checkpoint_due (ti_marks sample_ck_table) (ce_nowMs sample_ck_env) w"
    unfolding sample_ck_owners using sample_ck_due(1) by (simp add: sample_ck_config_def)
  from cooled_owners_hold_places [OF sample_ck_run(1) sample_ck_scan this] show ?thesis
    using sample_ck_run(1) sample_ck_due(2) by simp
qed

end
