(* ===== verification/CompoundUsers.thy ===== *)
theory CompoundUsers
  imports LockScan MorningWindow
begin

text \<open>
  The worklist of the compounding task (first half of \<open>src/keeper/src/tasks/compound_shareholders.ts\<close>): the users that
  opted in, read from the events of \<open>ShareholderRoyalties\<close>, the round-robin cursor, the back-off of a user that failed
  and the queue of deferred users.

  \<^item> \<open>compound_state\<close> is the file of the task. Addresses are compared in lower case, which is the key of the tables.
  \<^item> The two requests of a chunk are answers that may fail; the clock of a chunk is a function of its first block.
\<close>

section \<open>The file\<close>

record failure_rec =
  fl_count :: nat
  fl_nextTry :: "int option"   \<comment> \<open>\<open>None\<close>: a text that is no date\<close>
  fl_error :: string

record compound_state =
  cs_lastScannedBlock :: int
  cs_users :: "string list"
  cs_cursor :: nat
  cs_failures :: "string \<rightharpoonup> failure_rec"
  cs_deferred :: "string list"
  cs_firstSeen :: "string \<rightharpoonup> int"

definition init_compound :: compound_state where
  "init_compound = \<lparr>cs_lastScannedBlock = 0, cs_users = [], cs_cursor = 0, cs_failures = Map.empty, cs_deferred = [],
     cs_firstSeen = Map.empty\<rparr>"

text \<open>The fields of the file, each \<open>None\<close> when it has the wrong shape; no file or a corrupt one is the initial state.\<close>

definition load_compound ::
  "(int option \<times> string list option \<times> nat option \<times> (string \<rightharpoonup> failure_rec) option \<times> string list option \<times> (string \<rightharpoonup> int) option) option
     \<Rightarrow> compound_state" where
  "load_compound raw =
     (case raw of
        None \<Rightarrow> init_compound
      | Some (lastBlock, users, cursor, failures, deferred, firstSeen) \<Rightarrow>
          \<lparr>cs_lastScannedBlock = (case lastBlock of Some n \<Rightarrow> n | None \<Rightarrow> 0),
           cs_users = (case users of Some us \<Rightarrow> filter (\<lambda>u. u \<noteq> []) us | None \<Rightarrow> []),
           cs_cursor = (case cursor of Some n \<Rightarrow> n | None \<Rightarrow> 0),
           cs_failures = (case failures of Some m \<Rightarrow> m | None \<Rightarrow> Map.empty),
           cs_deferred = (case deferred of Some us \<Rightarrow> filter (\<lambda>u. u \<noteq> []) us | None \<Rightarrow> []),
           cs_firstSeen = (case firstSeen of Some m \<Rightarrow> m | None \<Rightarrow> Map.empty)\<rparr>)"

section \<open>The list of users and its cursor\<close>

definition same_user :: "string \<Rightarrow> string \<Rightarrow> bool" where
  "same_user user x \<longleftrightarrow> toLowerCase x = toLowerCase user"

definition removeUser :: "string list \<Rightarrow> nat \<Rightarrow> string \<Rightarrow> string list \<times> nat" where
  "removeUser users cursor user =
     (case dropWhile (\<lambda>x. \<not> same_user user x) users of
        [] \<Rightarrow> (users, cursor)
      | _ # rest \<Rightarrow>
          (let kept = takeWhile (\<lambda>x. \<not> same_user user x) users;
               nextUsers = kept @ rest
           in (nextUsers,
               if nextUsers = [] then 0
               else if length kept < cursor then cursor - 1
               else if cursor \<ge> length nextUsers then 0
               else cursor)))"

definition addUser :: "string list \<Rightarrow> string \<Rightarrow> string list" where
  "addUser users user = (if \<exists>x \<in> set users. same_user user x then users else users @ [user])"

section \<open>Failures and deferred users\<close>

definition FAILURE_INITIAL_MS :: int where
  "FAILURE_INITIAL_MS = 5 * 60 * 1000"

definition FAILURE_MAX_MS :: int where
  "FAILURE_MAX_MS = 24 * 60 * 60 * 1000"

definition nextFailureDelayMs :: "nat \<Rightarrow> int" where
  "nextFailureDelayMs count = min (FAILURE_INITIAL_MS * 2 ^ (count - 1)) FAILURE_MAX_MS"

definition markFailure :: "int \<Rightarrow> string \<Rightarrow> string \<Rightarrow> compound_state \<Rightarrow> compound_state" where
  "markFailure nowMs user err s =
     (let count = (case cs_failures s (toLowerCase user) of Some f \<Rightarrow> fl_count f | None \<Rightarrow> 0) + 1
      in s\<lparr>cs_failures := (cs_failures s)(toLowerCase user \<mapsto>
           \<lparr>fl_count = count, fl_nextTry = Some (nowMs + nextFailureDelayMs count), fl_error = err\<rparr>)\<rparr>)"

definition clearFailure :: "string \<Rightarrow> compound_state \<Rightarrow> compound_state" where
  "clearFailure user s = s\<lparr>cs_failures := (cs_failures s)(toLowerCase user := None)\<rparr>"

definition inFailureCooldown :: "int \<Rightarrow> compound_state \<Rightarrow> string \<Rightarrow> bool" where
  "inFailureCooldown nowMs s user \<longleftrightarrow>
     (case cs_failures s (toLowerCase user) of
        Some f \<Rightarrow> (case fl_nextTry f of Some t \<Rightarrow> nowMs < t | None \<Rightarrow> False)
      | None \<Rightarrow> False)"

fun merge_users :: "string list \<Rightarrow> string list \<Rightarrow> string list" where
  "merge_users merged [] = merged"
| "merge_users merged (u # us) =
     (if u = [] \<or> toLowerCase u \<in> toLowerCase ` set merged then merge_users merged us else merge_users (merged @ [u]) us)"

definition reDeferUsers :: "string list \<Rightarrow> compound_state \<Rightarrow> compound_state" where
  "reDeferUsers users s = s\<lparr>cs_deferred := merge_users (cs_deferred s) users\<rparr>"

section \<open>The scan\<close>

datatype user_note = Configured string bool | Paused_note string

type_synonym user_event = "user_note chain_event"

definition event_user :: "user_event \<Rightarrow> string" where
  "event_user e = (case le_body e of Configured u _ \<Rightarrow> u | Paused_note u \<Rightarrow> u)"

definition is_cfg :: "user_event \<Rightarrow> bool" where
  "is_cfg e = (case le_body e of Configured _ _ \<Rightarrow> True | Paused_note _ \<Rightarrow> False)"

definition enables :: "user_event \<Rightarrow> bool" where
  "enables e = (case le_body e of Configured _ enabled \<Rightarrow> enabled | Paused_note _ \<Rightarrow> False)"

type_synonym user_source = "bool \<Rightarrow> int \<Rightarrow> int \<Rightarrow> user_event list option"   \<comment> \<open>\<open>True\<close>: configurations\<close>

definition userChunk :: "user_source \<Rightarrow> int \<Rightarrow> int \<Rightarrow> user_event list option" where
  "userChunk src f t =
     (case (src True f t, src False f t) of
        (Some cfgLogs, Some pausedLogs) \<Rightarrow> Some (sort_key position (cfgLogs @ pausedLogs))
      | _ \<Rightarrow> None)"

definition drop_user :: "string \<Rightarrow> compound_state \<Rightarrow> compound_state" where
  "drop_user user s =
     (case removeUser (cs_users s) (cs_cursor s) user of
        (users, cursor) \<Rightarrow>
          s\<lparr>cs_users := users, cs_cursor := cursor, cs_firstSeen := (cs_firstSeen s)(toLowerCase user := None)\<rparr>)"

definition enlist_user :: "int \<Rightarrow> string \<Rightarrow> compound_state \<Rightarrow> compound_state" where
  "enlist_user nowSec user s =
     s\<lparr>cs_users := addUser (cs_users s) user,
       cs_firstSeen := (case cs_firstSeen s (toLowerCase user) of
                          None \<Rightarrow> (cs_firstSeen s)(toLowerCase user \<mapsto> nowSec)
                        | Some _ \<Rightarrow> cs_firstSeen s)\<rparr>"

definition applyUserEvent :: "int \<Rightarrow> compound_state \<Rightarrow> user_event \<Rightarrow> compound_state" where
  "applyUserEvent nowSec s e =
     (if event_user e = [] then s
      else (let s = clearFailure (event_user e) s
            in if enables e then enlist_user nowSec (event_user e) s else drop_user (event_user e) s))"

function scanUserChunks :: "(int \<Rightarrow> int) \<Rightarrow> user_source \<Rightarrow> int \<Rightarrow> int \<Rightarrow> int \<Rightarrow> compound_state \<Rightarrow> bool \<times> int \<times> compound_state" where
  "scanUserChunks clock src chunk latest f s =
     (if f > latest then (True, f, s)
      else let upto = (if f + max 1 chunk - 1 > latest then latest else f + max 1 chunk - 1)
           in case userChunk src f upto of
                None \<Rightarrow> (False, f, s)
              | Some es \<Rightarrow> scanUserChunks clock src chunk latest (upto + 1)
                  ((foldl (applyUserEvent (clock f)) s es)\<lparr>cs_lastScannedBlock := upto\<rparr>))"
  by pat_completeness auto
termination by (relation "measure (\<lambda>(_, _, _, latest, f, _). nat (latest + 1 - f))") (auto simp: max_def split: if_splits)

declare scanUserChunks.simps [simp del]

text \<open>The result, \<open>None\<close> when the scan throws, and the file afterwards.\<close>

definition scanOptedInUsers ::
  "(int \<Rightarrow> int) \<Rightarrow> user_source \<Rightarrow> int \<Rightarrow> int option \<Rightarrow> int \<Rightarrow> compound_state \<Rightarrow> compound_state option \<times> compound_state" where
  "scanOptedInUsers clock src startBlock chunkBlocks latest file =
     (let s = (if cs_lastScannedBlock file > latest + CHAIN_REWIND_TOLERANCE then init_compound else file);
          from0 = resume_block startBlock (cs_lastScannedBlock s)
      in if from0 > latest then (Some s, file)
         else case scanUserChunks clock src (chunk_size chunkBlocks) latest from0 s of
                (ok, f, s') \<Rightarrow> (if ok then Some s' else None, if f = from0 then file else s'))"

section \<open>The list and its cursor\<close>

definition listed :: "string \<Rightarrow> compound_state \<Rightarrow> bool" where
  "listed w s \<longleftrightarrow> w \<in> toLowerCase ` set (cs_users s)"

text \<open>Every user once, and a cursor inside the list.\<close>

definition worklist_ok :: "compound_state \<Rightarrow> bool" where
  "worklist_ok s \<longleftrightarrow> distinct (map toLowerCase (cs_users s)) \<and> [] \<notin> set (cs_users s)
     \<and> (cs_cursor s = 0 \<or> cs_cursor s < length (cs_users s))"

lemma worklist_cong:
  "cs_users s' = cs_users s \<Longrightarrow> cs_cursor s' = cs_cursor s \<Longrightarrow> worklist_ok s' \<longleftrightarrow> worklist_ok s"
  "cs_users s' = cs_users s \<Longrightarrow> listed w s' \<longleftrightarrow> listed w s"
  by (simp_all add: worklist_ok_def listed_def)

lemma removeUser_cases:
  obtains (absent) "toLowerCase user \<notin> toLowerCase ` set users" "removeUser users cursor user = (users, cursor)"
  | (present) pre x post where "users = pre @ x # post" "toLowerCase x = toLowerCase user"
      "removeUser users cursor user = (pre @ post,
         if pre @ post = [] then 0 else if length pre < cursor then cursor - 1
         else if cursor \<ge> length (pre @ post) then 0 else cursor)"
proof (cases "dropWhile (\<lambda>x. \<not> same_user user x) users")
  case Nil
  then have "\<forall>x \<in> set users. \<not> same_user user x" by (simp add: dropWhile_eq_Nil_conv)
  then have "toLowerCase user \<notin> toLowerCase ` set users" by (force simp: same_user_def)
  moreover have "removeUser users cursor user = (users, cursor)" unfolding removeUser_def Nil by simp
  ultimately show ?thesis by (rule absent)
next
  case (Cons x rest)
  have "same_user user x" using Cons by (metis dropWhile_eq_Cons_conv)
  moreover have "users = takeWhile (\<lambda>x. \<not> same_user user x) users @ x # rest"
    using Cons by (metis takeWhile_dropWhile_id)
  ultimately show ?thesis using Cons
    by (intro present [where x = x and post = rest]) (auto simp: removeUser_def Let_def same_user_def)
qed

lemma drop_user_ok:
  assumes "worklist_ok s"
  shows "worklist_ok (drop_user u s)" "listed w (drop_user u s) \<longleftrightarrow> listed w s \<and> w \<noteq> toLowerCase u"
proof -
  have "worklist_ok (drop_user u s) \<and> (listed w (drop_user u s) \<longleftrightarrow> listed w s \<and> w \<noteq> toLowerCase u)"
  proof (rule removeUser_cases [of u "cs_users s" "cs_cursor s"])
    assume "toLowerCase u \<notin> toLowerCase ` set (cs_users s)" "removeUser (cs_users s) (cs_cursor s) u = (cs_users s, cs_cursor s)"
    with assms show ?thesis by (auto simp: drop_user_def worklist_ok_def listed_def simp del: image_iff) (metis image_eqI)+
  next
    fix pre x post
    assume "cs_users s = pre @ x # post" "toLowerCase x = toLowerCase u"
      "removeUser (cs_users s) (cs_cursor s) u = (pre @ post,
         if pre @ post = [] then 0 else if length pre < cs_cursor s then cs_cursor s - 1
         else if cs_cursor s \<ge> length (pre @ post) then 0 else cs_cursor s)"
    with assms show ?thesis by (auto simp: drop_user_def worklist_ok_def listed_def) (metis image_eqI)+
  qed
  then show "worklist_ok (drop_user u s)" "listed w (drop_user u s) \<longleftrightarrow> listed w s \<and> w \<noteq> toLowerCase u" by auto
qed

lemma enlist_user_ok:
  assumes "worklist_ok s" "u \<noteq> []"
  shows "worklist_ok (enlist_user t u s)" "listed w (enlist_user t u s) \<longleftrightarrow> listed w s \<or> w = toLowerCase u"
  using assms by (auto simp: enlist_user_def worklist_ok_def listed_def addUser_def same_user_def image_iff) (metis+)?

text \<open>A user that leaves the list does not take the turn of another one.\<close>

lemma removal_keeps_turn:
  assumes "cursor < length users" "distinct (map toLowerCase users)" "toLowerCase (users ! cursor) \<noteq> toLowerCase user"
    "removeUser users cursor user = (users', cursor')"
  shows "cursor' < length users' \<and> users' ! cursor' = users ! cursor"
proof (rule removeUser_cases [of user users cursor])
  assume "removeUser users cursor user = (users, cursor)"
  then show ?thesis using assms by simp
next
  fix pre x post
  assume split: "users = pre @ x # post" "toLowerCase x = toLowerCase user"
    and r: "removeUser users cursor user = (pre @ post,
         if pre @ post = [] then 0 else if length pre < cursor then cursor - 1
         else if cursor \<ge> length (pre @ post) then 0 else cursor)"
  have "cursor \<noteq> length pre" using assms(3) split by auto
  then consider "cursor < length pre" | "length pre < cursor" by linarith
  then show ?thesis
  proof cases
    case 1
    then show ?thesis using assms(4) r split(1) by (auto simp: nth_append)
  next
    case 2
    then have "users ! cursor = post ! (cursor - Suc (length pre))" "cursor - Suc (length pre) < length post"
      using split(1) assms(1) by (auto simp: nth_append nth_Cons')
    with 2 show ?thesis using assms(4) r by (auto simp: nth_append)
  qed
qed

section \<open>What the events say\<close>

definition concerns :: "string \<Rightarrow> user_event \<Rightarrow> bool" where
  "concerns w e \<longleftrightarrow> event_user e \<noteq> [] \<and> toLowerCase (event_user e) = w"

text \<open>The last event about a user decides; without one it stays as it was.\<close>

definition opted_in :: "string \<Rightarrow> bool \<Rightarrow> user_event list \<Rightarrow> bool" where
  "opted_in w b es = (case rev (filter (concerns w) es) of [] \<Rightarrow> b | e # _ \<Rightarrow> enables e)"

lemma opted_in_simps [simp]:
  "opted_in w b [] = b"
  "opted_in w b (es @ fs) = opted_in w (opted_in w b es) fs"
  "opted_in w b [e] = (if concerns w e then enables e else b)"
  by (auto simp: opted_in_def split: list.splits)

lemma opted_in_decided: "filter (concerns w) es \<noteq> [] \<Longrightarrow> opted_in w b es = opted_in w b' es"
  by (auto simp: opted_in_def split: list.splits)

lemma opted_in_silent: "filter (concerns w) es = [] \<Longrightarrow> opted_in w b es = b"
  by (simp add: opted_in_def)

lemma apply_listed:
  assumes "worklist_ok s"
  shows "worklist_ok (applyUserEvent t s e)" "listed w (applyUserEvent t s e) = opted_in w (listed w s) [e]"
proof -
  let ?c = "clearFailure (event_user e) s"
  have c: "worklist_ok ?c" "listed w ?c = listed w s"
    using assms worklist_cong [of ?c s] by (simp_all add: clearFailure_def)
  show "worklist_ok (applyUserEvent t s e)"
    using assms drop_user_ok(1) [OF c(1)] enlist_user_ok(1) [OF c(1)] by (simp add: applyUserEvent_def Let_def)
  show "listed w (applyUserEvent t s e) = opted_in w (listed w s) [e]"
    using c(2) drop_user_ok(2) [OF c(1)] enlist_user_ok(2) [OF c(1)] by (auto simp: applyUserEvent_def Let_def concerns_def)
qed

lemma replay_listed:
  assumes "worklist_ok s"
  shows "worklist_ok (foldl (applyUserEvent t) s es) \<and> listed w (foldl (applyUserEvent t) s es) = opted_in w (listed w s) es"
proof (induction es rule: rev_induct)
  case (snoc e es)
  then show ?case using apply_listed [of "foldl (applyUserEvent t) s es"] by auto
qed (use assms in simp)

text \<open>Every answer of the source has every event of its kind and range once.\<close>

definition honest_users :: "user_event list \<Rightarrow> user_source \<Rightarrow> bool" where
  "honest_users evs src \<longleftrightarrow>
     (\<forall>k f t l. src k f t = Some l \<longrightarrow> distinct l \<and> set l = {e \<in> set evs. is_cfg e = k \<and> f \<le> le_block e \<and> le_block e \<le> t})"

lemma userChunk_history:
  assumes "distinct (map position evs)" "honest_users evs src" "userChunk src f t = Some es"
  shows "es = history evs f t"
proof -
  obtain c p where l: "src True f t = Some c" "src False f t = Some p" "es = sort_key position (c @ p)"
    using assms(3) by (auto simp: userChunk_def split: option.splits)
  have h: "distinct x \<and> set x = {e \<in> set evs. is_cfg e = k \<and> f \<le> le_block e \<and> le_block e \<le> t}" if "src k f t = Some x" for k x
    using assms(2) that by (simp add: honest_users_def)
  note parts = h [OF l(1)] h [OF l(2)]
  have "distinct es" using parts by (auto simp: l(3))
  moreover have "set es = set (history evs f t)" using parts by (auto simp: l(3) history_facts(3) [OF assms(1)])
  ultimately show ?thesis using history_facts [OF assms(1), of f t] by (intro same_events) (simp_all add: l(3))
qed

text \<open>What is opted in up to a block may be read off with the events before that are read again.\<close>

definition agrees :: "user_event list \<Rightarrow> int \<Rightarrow> string set \<Rightarrow> compound_state \<Rightarrow> bool" where
  "agrees evs startBlock off s \<longleftrightarrow>
     cs_lastScannedBlock s = 0 \<and> cs_users s = []
     \<or> max 0 startBlock \<le> cs_lastScannedBlock s
       \<and> (\<forall>w. let on = opted_in w False (history evs (max 0 startBlock) (cs_lastScannedBlock s))
              in (listed w s \<longrightarrow> on) \<and> (on \<and> w \<notin> off \<longrightarrow> listed w s))"

lemma scanUserChunks_result:
  assumes "distinct (map position evs)"
  shows "scanUserChunks clock src chunk latest f s = (ok, f', s') \<Longrightarrow> f \<le> latest + 1 \<Longrightarrow> honest_users evs src \<Longrightarrow> worklist_ok s \<Longrightarrow>
    f \<le> f' \<and> f' \<le> latest + 1 \<and> (ok \<longrightarrow> f' = latest + 1)
    \<and> worklist_ok s' \<and> (\<forall>w. listed w s' = opted_in w (listed w s) (history evs f (f' - 1)))
    \<and> (f' \<noteq> f \<longrightarrow> cs_lastScannedBlock s' = f' - 1 \<and> min (f + max 1 chunk) (latest + 1) \<le> f')
    \<and> (f' = f \<longrightarrow> s' = s)"
proof (induction clock src chunk latest f s rule: scanUserChunks.induct)
  case (1 clock src chunk latest f s)
  define upto where "upto = (if f + max 1 chunk - 1 > latest then latest else f + max 1 chunk - 1)"
  note eq = "1.prems"(1) [unfolded scanUserChunks.simps [of clock src chunk latest f s] Let_def, folded upto_def]
  show ?case
  proof (cases "f > latest")
    case True
    with eq "1.prems"(2,4) show ?thesis by (auto simp: history_empty)
  next
    case False
    then have u: "f \<le> upto" "upto \<le> latest" "min (f + max 1 chunk) (latest + 1) \<le> upto + 1" by (auto simp: upto_def)
    show ?thesis
    proof (cases "userChunk src f upto")
      case None
      with eq False "1.prems"(4) show ?thesis by (auto simp: history_empty)
    next
      case (Some es)
      let ?r = "foldl (applyUserEvent (clock f)) s es"
      let ?s = "?r\<lparr>cs_lastScannedBlock := upto\<rparr>"
      have r: "worklist_ok ?s" "listed w ?s = opted_in w (listed w s) es" for w
        using replay_listed [OF "1.prems"(4), of "clock f" es] worklist_cong [of ?s ?r] by auto
      have run: "scanUserChunks clock src chunk latest (upto + 1) ?s = (ok, f', s')" using eq False Some by simp
      have IH: "upto + 1 \<le> f' \<and> f' \<le> latest + 1 \<and> (ok \<longrightarrow> f' = latest + 1)
        \<and> worklist_ok s' \<and> (\<forall>w. listed w s' = opted_in w (listed w ?s) (history evs (upto + 1) (f' - 1)))
        \<and> (f' \<noteq> upto + 1 \<longrightarrow> cs_lastScannedBlock s' = f' - 1 \<and> min (upto + 1 + max 1 chunk) (latest + 1) \<le> f')
        \<and> (f' = upto + 1 \<longrightarrow> s' = ?s)"
        by (rule "1.IH" [OF False upto_def Some run _ "1.prems"(3) r(1)]) (use u in simp)
      have es: "es = history evs f upto" by (rule userChunk_history [OF assms(1) "1.prems"(3) Some])
      have "history evs f (f' - 1) = es @ history evs (upto + 1) (f' - 1)"
        unfolding es by (rule history_split [OF assms(1)]) (use u IH in auto)
      with IH u r(2) show ?thesis by (cases "f' = upto + 1") auto
    qed
  qed
qed

lemma overlap_opted_in:
  assumes "distinct (map position evs)" "a \<le> f" "f \<le> l + 1" "l \<le> u"
    and b: "b \<longrightarrow> opted_in w False (history evs a l)" "opted_in w False (history evs a l) \<and> w \<notin> off \<longrightarrow> b"
  shows "(opted_in w b (history evs f u) \<longrightarrow> opted_in w False (history evs a u))
    \<and> (opted_in w False (history evs a u) \<and> w \<notin> off \<longrightarrow> opted_in w b (history evs f u))"
proof -
  have past: "history evs a m = history evs a (f - 1) @ history evs f m" if "l \<le> m" for m
    using history_split [OF assms(1), of a "f - 1" m] assms(2,3) that by simp
  have "history evs f u = history evs f l @ history evs (l + 1) u"
    by (rule history_split [OF assms(1)]) (use assms in auto)
  then have silent: "filter (concerns w) (history evs f l) = []" if "filter (concerns w) (history evs f u) = []" using that by simp
  show ?thesis
  proof (cases "filter (concerns w) (history evs f u) = []")
    case True
    then show ?thesis using b by (simp add: past [OF order_refl] past [OF assms(4)] opted_in_silent silent)
  next
    case False
    then have "opted_in w b (history evs f u) = opted_in w (opted_in w False (history evs a (f - 1))) (history evs f u)"
      by (rule opted_in_decided)
    then show ?thesis by (simp add: past [OF assms(4)])
  qed
qed

lemma scan_agrees:
  assumes "distinct (map position evs)" "honest_users evs src" "worklist_ok s" "agrees evs startBlock off s"
    "cs_lastScannedBlock s \<le> latest" "scanOptedInUsers clock src startBlock chunkBlocks latest s = (r, s')"
    "r \<noteq> None \<or> SCAN_OVERLAP_BLOCKS \<le> chunk_size chunkBlocks"
  shows "worklist_ok s' \<and> agrees evs startBlock off s'"
proof -
  let ?f = "resume_block startBlock (cs_lastScannedBlock s)" and ?l = "cs_lastScannedBlock s" and ?a = "max 0 startBlock"
  show ?thesis
  proof (cases "?f > latest \<or> s' = s")
    case True
    then show ?thesis using assms(3-6) by (auto simp: scanOptedInUsers_def Let_def CHAIN_REWIND_TOLERANCE_def)
  next
    case False
    then obtain ok g where run: "scanUserChunks clock src (chunk_size chunkBlocks) latest ?f s = (ok, g, s')" "g \<noteq> ?f"
      "ok \<longleftrightarrow> r \<noteq> None"
      using assms(5,6) by (auto simp: scanOptedInUsers_def Let_def CHAIN_REWIND_TOLERANCE_def split: prod.splits if_splits)
    note res = scanUserChunks_result [OF assms(1) run(1) _ assms(2,3)]
    have f: "?a \<le> ?f" "?f \<le> max ?a (?l + 1)" "?l + 1 \<le> ?f + SCAN_OVERLAP_BLOCKS"
      by (auto simp: resume_block_def Let_def SCAN_OVERLAP_BLOCKS_def CHAIN_REWIND_TOLERANCE_def)
    have g: "cs_lastScannedBlock s' = g - 1" "?f \<le> g - 1" "worklist_ok s'"
      "\<And>w. listed w s' = opted_in w (listed w s) (history evs ?f (g - 1))"
      using res False run(2) by auto
    have l: "?l \<le> g - 1"
      using res False run(2,3) assms(5,7) f(3) by (auto simp: SCAN_OVERLAP_BLOCKS_def CHAIN_REWIND_TOLERANCE_def)
    show ?thesis
    proof (cases "cs_users s = [] \<and> ?l = 0")
      case True
      then have "?f = ?a" "\<not> listed w s" for w by (simp_all add: resume_block_def Let_def listed_def)
      with g f show ?thesis by (auto simp: agrees_def Let_def)
    next
      case False
      with assms(4) have a: "?a \<le> ?l" "\<And>w. listed w s \<longrightarrow> opted_in w False (history evs ?a ?l)"
        "\<And>w. opted_in w False (history evs ?a ?l) \<and> w \<notin> off \<longrightarrow> listed w s"
        by (auto simp: agrees_def Let_def)
      have "?f \<le> ?l + 1" using f(2) a(1) by auto
      note o = overlap_opted_in [OF assms(1) f(1) this l a(2,3)]
      show ?thesis using g a(1) l o by (auto simp: agrees_def Let_def)
    qed
  qed
qed

end
