(* ===== verification/CompoundTask.thy ===== *)
theory CompoundTask
  imports CompoundUsers TxSend "HOL-Library.Sublist"
begin

text \<open>
  The compounding of shareholders (second half of \<open>src/keeper/src/tasks/compound_shareholders.ts\<close>): the cadence of a user and its
  spread, the choice of a batch, the shrinking to the gas limit, and a run with its batch and its fallback user by user.

  \<^item> The block, the two multicalls and the clock of the selection are the record \<open>select_env\<close>; the other answers of a
    run are the record \<open>compound_env\<close>. The sender answers as in \<open>TxSend\<close>, with the logs of its receipt beside it.
  \<^item> The clock is read once in a phase. Status files and alerts are dropped.
\<close>

section \<open>The cadence of a user\<close>

definition effectiveShareholderCadenceSeconds :: "int \<Rightarrow> int \<Rightarrow> int" where
  "effectiveShareholderCadenceSeconds keeperFloorSecs userMinCadenceSeconds = max keeperFloorSecs userMinCadenceSeconds"

text \<open>FNV-1a on 32 bits; a character code fits a byte.\<close>

fun fnv1a :: "32 word \<Rightarrow> string \<Rightarrow> 32 word" where
  "fnv1a h [] = h"
| "fnv1a h (c # cs) = fnv1a (xor h (of_char c) * 0x01000193) cs"

definition shareholderSpreadJitterSeconds :: "string \<Rightarrow> int \<Rightarrow> int \<Rightarrow> int" where
  "shareholderSpreadJitterSeconds user lastCompoundTs spreadSecs =
     (if spreadSecs \<le> 0 then 0
      else uint (fnv1a 0x811c9dc5 (toLowerCase user @ '':'' @ int_string lastCompoundTs)) mod spreadSecs)"

record auto_cfg =
  au_enabled :: bool
  au_paused :: bool
  au_tokenId :: int
  au_minCadenceSeconds :: int
  au_minEthToCompound :: int
  au_lastCompoundTs :: int

record compound_config =
  cp_startBlock :: "int option"
  cp_chunkBlocks :: nat
  cp_maxUsers :: nat
  cp_lookahead :: nat
  cp_morningWindowHours :: int
  cp_minCadenceSecs :: int
  cp_spreadSecs :: int
  cp_maxGas :: int
  cp_dryRun :: bool

text \<open>Whether the cadence lets the user through; the anchor of a first compound is set when it is missing.\<close>

definition cadence_gate :: "compound_config \<Rightarrow> int \<Rightarrow> string \<Rightarrow> auto_cfg \<Rightarrow> compound_state \<Rightarrow> bool \<times> compound_state" where
  "cadence_gate cfg nowTs user a s =
     (let lastTs = au_lastCompoundTs a;
          cadence = effectiveShareholderCadenceSeconds (cp_minCadenceSecs cfg) (au_minCadenceSeconds a)
      in if cadence > 0 \<and> lastTs > 0
         then (nowTs \<ge> lastTs + cadence + shareholderSpreadJitterSeconds user lastTs (cp_spreadSecs cfg), s)
         else if lastTs = 0 \<and> cp_spreadSecs cfg > 0
         then (let anchor = (case cs_firstSeen s (toLowerCase user) of Some t \<Rightarrow> t | None \<Rightarrow> nowTs)
               in (nowTs \<ge> anchor + shareholderSpreadJitterSeconds user anchor (cp_spreadSecs cfg),
                   s\<lparr>cs_firstSeen := (cs_firstSeen s)(toLowerCase user \<mapsto> anchor)\<rparr>))
         else (True, s))"

section \<open>The choice of a batch\<close>

record select_env =
  sv_nowTs :: int
  sv_nowMs :: int
  sv_morning :: "morning_cache option"
  sv_hour :: nat
  sv_minAutoCompoundEth :: int
  sv_configsAnswer :: bool   \<comment> \<open>the first multicall does not throw\<close>
  sv_config :: "string \<Rightarrow> auto_cfg option"
  sv_statesAnswer :: bool
  sv_claimable :: "string \<Rightarrow> int option"
  sv_lock :: "int \<Rightarrow> (int \<times> int \<times> bool) option"   \<comment> \<open>amount, end, listed\<close>

definition may_try :: "compound_config \<Rightarrow> select_env \<Rightarrow> compound_state \<Rightarrow> string \<Rightarrow> bool" where
  "may_try cfg env s user \<longleftrightarrow> \<not> inFailureCooldown (sv_nowMs env) s user
     \<and> (case sv_morning env of Some cache \<Rightarrow> isInMorningWindow cache (sv_hour env) user (cp_morningWindowHours cfg) | None \<Rightarrow> True)"

text \<open>The candidates from the queue, and what stays in the queue.\<close>

fun drainDeferred :: "(string \<Rightarrow> bool) \<Rightarrow> string list \<Rightarrow> nat \<Rightarrow> string list \<Rightarrow> string list \<Rightarrow> string list \<Rightarrow> string list \<times> string list" where
  "drainDeferred ok users lookahead [] candidates kept = (candidates, kept)"
| "drainDeferred ok users lookahead (u # queue) candidates kept =
     (if length candidates \<ge> lookahead then drainDeferred ok users lookahead queue candidates (kept @ [u])
      else if u = [] \<or> toLowerCase u \<notin> toLowerCase ` set users then drainDeferred ok users lookahead queue candidates kept
      else if \<not> ok u then drainDeferred ok users lookahead queue candidates (kept @ [u])
      else if toLowerCase u \<in> toLowerCase ` set candidates then drainDeferred ok users lookahead queue candidates kept
      else drainDeferred ok users lookahead queue (candidates @ [u]) kept)"

fun roundRobin :: "(string \<Rightarrow> bool) \<Rightarrow> string list \<Rightarrow> nat \<Rightarrow> nat \<Rightarrow> nat \<Rightarrow> string list \<Rightarrow> nat \<times> string list" where
  "roundRobin ok users lookahead 0 cursor candidates = (cursor, candidates)"
| "roundRobin ok users lookahead (Suc k) cursor candidates =
     (if length candidates \<ge> lookahead \<or> users = [] then (cursor, candidates)
      else (let cursor = (if cursor \<ge> length users then 0 else cursor);
                user = users ! cursor;
                cursor = (cursor + 1) mod length users
            in if user = [] \<or> toLowerCase user \<in> toLowerCase ` set candidates \<or> \<not> ok user
               then roundRobin ok users lookahead k cursor candidates
               else roundRobin ok users lookahead k cursor (candidates @ [user])))"

text \<open>The configurations: users that are off leave the list, users whose cadence has passed are needed.\<close>

fun examine :: "compound_config \<Rightarrow> select_env \<Rightarrow> string list \<Rightarrow> compound_state \<Rightarrow> compound_state \<times> (string \<times> int \<times> int) list" where
  "examine cfg env [] s = (s, [])"
| "examine cfg env (u # us) s =
     (case sv_config env u of
        None \<Rightarrow> examine cfg env us (markFailure (sv_nowMs env) u ''multicall_read_failed'' s)
      | Some a \<Rightarrow>
          if \<not> au_enabled a \<or> au_paused a then examine cfg env us (clearFailure u (drop_user u s))
          else (case cadence_gate cfg (sv_nowTs env) u a s of
                  (ok, s) \<Rightarrow>
                    (case examine cfg env us s of
                       (s, needs) \<Rightarrow> (s, if ok then (u, au_tokenId a, au_minEthToCompound a) # needs else needs))))"

definition MIN_AUTO_COMPOUND_REWARD_WEI :: int where
  "MIN_AUTO_COMPOUND_REWARD_WEI = 1000000000000000"

definition effective_min :: "select_env \<Rightarrow> int \<Rightarrow> int" where
  "effective_min env minEth = max (max minEth (sv_minAutoCompoundEth env)) MIN_AUTO_COMPOUND_REWARD_WEI"

fun pickUsers :: "select_env \<Rightarrow> nat \<Rightarrow> (string \<times> int \<times> int) list \<Rightarrow> compound_state \<Rightarrow> (string \<times> int) list
    \<Rightarrow> compound_state \<times> (string \<times> int) list" where
  "pickUsers env maxUsers [] s batch = (s, batch)"
| "pickUsers env maxUsers ((u, tokenId, minEth) # needs) s batch =
     (if length batch \<ge> maxUsers then (s, batch)
      else let failed = (\<lambda>err. pickUsers env maxUsers needs (markFailure (sv_nowMs env) u err s) batch) in
        case sv_claimable env u of
          None \<Rightarrow> failed ''multicall_state_failed''
        | Some claimable \<Rightarrow>
            (case sv_lock env tokenId of
               None \<Rightarrow> failed ''multicall_lock_failed''
             | Some (amount, lockEnd, on_sale) \<Rightarrow>
                 if claimable = 0 \<or> claimable < effective_min env minEth then pickUsers env maxUsers needs s batch
                 else if amount = 0 then failed ''lock_empty''
                 else if on_sale then failed ''lock_listed_or_frozen''
                 else if lockEnd \<le> sv_nowTs env then failed ''lock_expired''
                 else pickUsers env maxUsers needs (clearFailure u s) (batch @ [(u, claimable)])))"

definition smallest_first :: "(string \<times> int) list \<Rightarrow> string list" where
  "smallest_first batch = map fst (sort_key (\<lambda>(u, claimable). (claimable, toLowerCase u)) batch)"

text \<open>The state, the batch and the users of it that came from the queue; \<open>None\<close> when a multicall throws.\<close>

definition selectBatch :: "compound_config \<Rightarrow> select_env \<Rightarrow> compound_state \<Rightarrow> (compound_state \<times> string list \<times> string list) option" where
  "selectBatch cfg env s =
     (if cs_users s = [] then Some (s, [], [])
      else let lookahead = min (cp_lookahead cfg) (length (cs_users s));
               s = s\<lparr>cs_cursor := cs_cursor s mod length (cs_users s)\<rparr>
           in case drainDeferred (may_try cfg env s) (cs_users s) lookahead (cs_deferred s) [] [] of
                (drained, kept) \<Rightarrow>
                  case roundRobin (may_try cfg env s) (cs_users s) lookahead lookahead (cs_cursor s) drained of
                    (cursor, candidates) \<Rightarrow>
                      (let s = s\<lparr>cs_deferred := kept, cs_cursor := cursor\<rparr> in
                       if candidates = [] then Some (s, [], [])
                       else if \<not> sv_configsAnswer env then None
                       else case examine cfg env candidates s of
                              (s, needs) \<Rightarrow>
                                if needs = [] then Some (s, [], [])
                                else if \<not> sv_statesAnswer env then None
                                else case pickUsers env (cp_maxUsers cfg) needs s [] of
                                       (s, batch) \<Rightarrow>
                                         (let users = smallest_first batch in
                                          Some (s, users, filter (\<lambda>u. u \<noteq> [] \<and> toLowerCase u \<in> toLowerCase ` set users) drained))))"


section \<open>A run\<close>

record tx_log =
  tl_address :: string
  tl_topics :: "string list"

definition EVT_EXECUTED_TOPIC :: string where
  "EVT_EXECUTED_TOPIC = ''0x5454e0c11691a1ab7cff14b2ea65dab5ebc5dee32feb75ce9fe00a09919eccc3''"

definition userTopic :: "string \<Rightarrow> string" where
  "userTopic user =
     (let u = toLowerCase user;
          digits = (if take 2 u = ''0x'' then drop 2 u else u)
      in ''0x'' @ replicate (64 - length digits) (CHR ''0'') @ digits)"

definition receiptHasExecutedForUser :: "string \<Rightarrow> tx_log list \<Rightarrow> string \<Rightarrow> bool" where
  "receiptHasExecutedForUser address logs user \<longleftrightarrow>
     (\<exists>l \<in> set logs. toLowerCase (tl_address l) = toLowerCase address \<and> length (tl_topics l) \<ge> 2
        \<and> toLowerCase (tl_topics l ! 0) = EVT_EXECUTED_TOPIC \<and> toLowerCase (tl_topics l ! 1) = userTopic user)"

text \<open>The longest half, quarter and so on of the batch whose gas is estimated within the limit.\<close>

function shrinkFrom :: "(string list \<Rightarrow> int option) \<Rightarrow> int \<Rightarrow> string list \<Rightarrow> nat \<Rightarrow> string list" where
  "shrinkFrom estimate maxGas users n =
     (if n = 0 then []
      else case estimate (take n users) of
             Some gas \<Rightarrow> if gas \<le> maxGas then take n users else shrinkFrom estimate maxGas users (n div 2)
           | None \<Rightarrow> shrinkFrom estimate maxGas users (n div 2))"
  by pat_completeness auto
termination by (relation "measure (\<lambda>(_, _, _, n). n)") auto

declare shrinkFrom.simps [simp del]

definition shrinkToGasLimit :: "(string list \<Rightarrow> int option) \<Rightarrow> int \<Rightarrow> string list \<Rightarrow> string list" where
  "shrinkToGasLimit estimate maxGas users = shrinkFrom estimate maxGas users (length users)"

record compound_env =
  en_latest :: int
  en_source :: user_source
  en_clock :: "int \<Rightarrow> int"
  en_lockingPaused :: "bool option"
  en_minAutoCompoundEth :: "int option"
  en_select :: select_env
  en_estimate :: "string list \<Rightarrow> int option"
  en_address :: string
  en_batch :: "send_result \<times> tx_log list"
  en_single :: "string \<Rightarrow> send_result \<times> tx_log list"
  en_failMs :: int
  en_errorText :: "tx_error \<Rightarrow> string"

record compound_result =
  ct_threw :: bool
  ct_batch :: "string list"   \<comment> \<open>given to \<open>compoundForMany\<close>\<close>
  ct_singles :: "string list"   \<comment> \<open>given to \<open>compoundFor\<close>\<close>
  ct_state :: compound_state

text \<open>The codes that latch the loop: all that a send can answer.\<close>

definition latches :: "skip_code \<Rightarrow> bool" where
  "latches code \<longleftrightarrow> code \<in> {Sk_paused, Sk_dry_run, Sk_pending_guard, Sk_fee_cap, Sk_gas_limit_cap, Sk_total_fee_cap}"

text \<open>The state, the users put off by the stop, and the users a transaction was sent for.\<close>

fun fallback :: "compound_env \<Rightarrow> string list \<Rightarrow> bool \<Rightarrow> compound_state \<times> string list \<times> string list
    \<Rightarrow> compound_state \<times> string list \<times> string list" where
  "fallback env [] stopped st = st"
| "fallback env (u # us) stopped (s, latched, tried) =
     (if stopped then fallback env us True (s, latched @ [u], tried)
      else case en_single env u of
             (Sent _ _ _, logs) \<Rightarrow>
               fallback env us False
                 (if receiptHasExecutedForUser (en_address env) logs u then s
                  else markFailure (en_failMs env) u ''fallback_no_executed_event'' s, latched, tried @ [u])
           | (Skipped code, _) \<Rightarrow>
               if latches code then fallback env us True (s, latched @ [u], tried @ [u])
               else fallback env us False (s, latched, tried @ [u])
           | (Send_throws e, _) \<Rightarrow>
               fallback env us False (markFailure (en_failMs env) u (en_errorText env e) s, latched, tried @ [u]))"

definition compound_start :: "compound_config \<Rightarrow> int \<Rightarrow> int" where
  "compound_start cfg latest =
     (let lookback = int (cp_chunkBlocks cfg) * 2;
          behind = (if latest > lookback then latest - lookback else 0)
      in case cp_startBlock cfg of Some b \<Rightarrow> if b \<le> 0 then behind else b | None \<Rightarrow> behind)"

text \<open>What follows the selection: the shrinking, the batch, the fallback.\<close>

definition executeBatch :: "compound_config \<Rightarrow> compound_env \<Rightarrow> compound_state \<Rightarrow> string list \<Rightarrow> string list \<Rightarrow> compound_result" where
  "executeBatch cfg env s batch drained =
     (let users = shrinkToGasLimit (en_estimate env) (cp_maxGas cfg) batch;
          shrunkOut = filter (\<lambda>u. u \<noteq> [] \<and> toLowerCase u \<notin> toLowerCase ` set users) drained;
          s = reDeferUsers shrunkOut s
      in if users = [] \<or> cp_dryRun cfg then \<lparr>ct_threw = False, ct_batch = [], ct_singles = [], ct_state = reDeferUsers drained s\<rparr>
         else case en_batch env of
                (Send_throws _, _) \<Rightarrow> \<lparr>ct_threw = True, ct_batch = users, ct_singles = [], ct_state = s\<rparr>
              | (Skipped _, _) \<Rightarrow>
                  \<lparr>ct_threw = False, ct_batch = users, ct_singles = [], ct_state = reDeferUsers (users @ shrunkOut) s\<rparr>
              | (Sent _ _ _, logs) \<Rightarrow>
                  (let executedInBatch = filter (receiptHasExecutedForUser (en_address env) logs) users;
                       missing = filter (\<lambda>u. toLowerCase u \<notin> toLowerCase ` set executedInBatch) users
                   in case fallback env missing False (s, [], []) of
                        (s, latched, tried) \<Rightarrow>
                          \<lparr>ct_threw = False, ct_batch = users, ct_singles = tried, ct_state = reDeferUsers latched s\<rparr>))"

definition select_input :: "compound_env \<Rightarrow> select_env" where
  "select_input env = (en_select env)\<lparr>sv_minAutoCompoundEth :=
     (case en_minAutoCompoundEth env of Some m \<Rightarrow> m | None \<Rightarrow> MIN_AUTO_COMPOUND_REWARD_WEI)\<rparr>"

definition runCompoundShareholders :: "compound_config \<Rightarrow> compound_env \<Rightarrow> compound_state \<Rightarrow> compound_result" where
  "runCompoundShareholders cfg env file =
     (case scanOptedInUsers (en_clock env) (en_source env) (compound_start cfg (en_latest env)) (Some (int (cp_chunkBlocks cfg)))
             (en_latest env) file of
        (None, f) \<Rightarrow> \<lparr>ct_threw = True, ct_batch = [], ct_singles = [], ct_state = f\<rparr>
      | (Some s, f) \<Rightarrow>
          if en_lockingPaused env = Some True then \<lparr>ct_threw = False, ct_batch = [], ct_singles = [], ct_state = f\<rparr>
          else case selectBatch cfg (select_input env) s of
                 None \<Rightarrow> \<lparr>ct_threw = True, ct_batch = [], ct_singles = [], ct_state = f\<rparr>
               | Some (s, batch, drained) \<Rightarrow> executeBatch cfg env s batch drained)"

section \<open>The cadence\<close>

lemma jitter_range:
  "0 \<le> shareholderSpreadJitterSeconds u t spread"
  "0 < spread \<Longrightarrow> shareholderSpreadJitterSeconds u t spread < spread"
  by (simp_all add: shareholderSpreadJitterSeconds_def)

text \<open>The floor of a user's cadence: it has compounded before and the longer of the two cadences has passed.\<close>

definition cadence_passed :: "compound_config \<Rightarrow> int \<Rightarrow> auto_cfg \<Rightarrow> bool" where
  "cadence_passed cfg nowTs a \<longleftrightarrow>
     (au_lastCompoundTs a > 0 \<and> cp_minCadenceSecs cfg > 0 \<longrightarrow>
        nowTs \<ge> au_lastCompoundTs a + cp_minCadenceSecs cfg \<and> nowTs \<ge> au_lastCompoundTs a + au_minCadenceSeconds a)"

lemma gate_passed: "cadence_gate cfg nowTs u a s = (True, s') \<Longrightarrow> cadence_passed cfg nowTs a"
  using jitter_range(1) [of u "au_lastCompoundTs a" "cp_spreadSecs cfg"]
  by (auto simp: cadence_gate_def Let_def effectiveShareholderCadenceSeconds_def cadence_passed_def split: if_splits)

lemma gate_state: "cadence_gate cfg nowTs u a s = (b, s') \<Longrightarrow> s' = s\<lparr>cs_firstSeen := cs_firstSeen s'\<rparr>"
  by (auto simp: cadence_gate_def Let_def split: if_splits)

section \<open>The candidates\<close>

lemma drain_facts:
  "drainDeferred ok users n q c k = (c', k') \<Longrightarrow> distinct (map toLowerCase c) \<Longrightarrow>
    distinct (map toLowerCase c') \<and> length c' \<le> max n (length c) \<and> set c \<subseteq> set c'
    \<and> (\<forall>u \<in> set c'. u \<in> set c \<or> u \<in> set q \<and> u \<noteq> [] \<and> toLowerCase u \<in> toLowerCase ` set users \<and> ok u)
    \<and> set k \<subseteq> set k'
    \<and> (\<forall>u \<in> set q. u = [] \<or> toLowerCase u \<notin> toLowerCase ` set users \<or> u \<in> set k' \<or> toLowerCase u \<in> toLowerCase ` set c')"
proof (induction q arbitrary: c k)
  case (Cons u q)
  define off where "off \<longleftrightarrow> u = [] \<or> toLowerCase u \<notin> toLowerCase ` set users"
  define c1 where "c1 = (if length c \<ge> n \<or> off \<or> \<not> ok u \<or> toLowerCase u \<in> toLowerCase ` set c then c else c @ [u])"
  define k1 where "k1 = (if length c \<ge> n \<or> \<not> off \<and> \<not> ok u then k @ [u] else k)"
  have step: "drainDeferred ok users n q c1 k1 = (c', k')"
    using Cons.prems(1) by (auto simp: c1_def k1_def off_def split: if_splits)
  have c1: "distinct (map toLowerCase c1)" "length c1 \<le> max n (length c)" "set c \<subseteq> set c1" "set k \<subseteq> set k1"
    "\<forall>x \<in> set c1. x \<in> set c \<or> x = u \<and> \<not> off \<and> ok u"
    "off \<or> u \<in> set k1 \<or> toLowerCase u \<in> toLowerCase ` set c1"
    using Cons.prems(2) by (auto simp: c1_def k1_def)
  note IH = Cons.IH [OF step c1(1)]
  have "length c' \<le> max n (length c)" using IH c1(2) by linarith
  moreover have "x \<in> set c \<or> x \<in> set (u # q) \<and> x \<noteq> [] \<and> toLowerCase x \<in> toLowerCase ` set users \<and> ok x" if "x \<in> set c'" for x
    using IH c1(5) that unfolding off_def by auto
  moreover have "off \<or> u \<in> set k' \<or> toLowerCase u \<in> toLowerCase ` set c'" using IH c1(6) by blast
  ultimately show ?case using IH c1(3,4) unfolding off_def by auto
qed auto

lemma roundRobin_facts:
  "roundRobin ok users n k cursor c = (cursor', c') \<Longrightarrow> distinct (map toLowerCase c) \<Longrightarrow> cursor < length users \<Longrightarrow>
    distinct (map toLowerCase c') \<and> length c' \<le> max n (length c) \<and> set c \<subseteq> set c' \<and> cursor' < length users
    \<and> (\<forall>u \<in> set c'. u \<in> set c \<or> u \<in> set users \<and> u \<noteq> [] \<and> ok u)
    \<and> (length c' < n \<longrightarrow> cursor' = (cursor + k) mod length users
        \<and> (\<forall>d < k. let u = users ! ((cursor + d) mod length users) in u \<noteq> [] \<and> ok u \<longrightarrow> toLowerCase u \<in> toLowerCase ` set c'))"
proof (induction k arbitrary: cursor c)
  case (Suc k)
  show ?case
  proof (cases "n \<le> length c")
    case True
    then show ?thesis using Suc.prems by auto
  next
    case False
    let ?u = "users ! cursor" and ?next = "(cursor + 1) mod length users"
    define c1 where "c1 = (if ?u = [] \<or> toLowerCase ?u \<in> toLowerCase ` set c \<or> \<not> ok ?u then c else c @ [?u])"
    have step: "roundRobin ok users n k ?next c1 = (cursor', c')"
      using Suc.prems(1,3) False by (auto simp: c1_def Let_def split: if_splits)
    have c1: "distinct (map toLowerCase c1)" "length c1 \<le> Suc (length c)" "set c \<subseteq> set c1" "set c1 \<subseteq> insert ?u (set c)"
      "?u \<notin> set c \<longrightarrow> ?u \<in> set c1 \<longrightarrow> ?u \<noteq> [] \<and> ok ?u"
      "?u \<noteq> [] \<and> ok ?u \<longrightarrow> toLowerCase ?u \<in> toLowerCase ` set c1"
      using Suc.prems(2) by (auto simp: c1_def)
    have in_list: "?next < length users" using Suc.prems(3) by (intro mod_less_divisor) linarith
    have IH: "distinct (map toLowerCase c') \<and> length c' \<le> max n (length c1) \<and> set c1 \<subseteq> set c' \<and> cursor' < length users
      \<and> (\<forall>u \<in> set c'. u \<in> set c1 \<or> u \<in> set users \<and> u \<noteq> [] \<and> ok u)
      \<and> (length c' < n \<longrightarrow> cursor' = (?next + k) mod length users
        \<and> (\<forall>d < k. let u = users ! ((?next + d) mod length users) in u \<noteq> [] \<and> ok u \<longrightarrow> toLowerCase u \<in> toLowerCase ` set c'))"
      by (rule Suc.IH [OF step c1(1) in_list])
    have shift: "(?next + d) mod length users = (cursor + Suc d) mod length users" for d by (simp add: mod_simps)
    have "length c' \<le> max n (length c)" using IH c1(2) False by auto
    moreover have "u \<in> set c \<or> u \<in> set users \<and> u \<noteq> [] \<and> ok u" if "u \<in> set c'" for u
      using IH c1(4,5) that Suc.prems(3) by (metis insertE nth_mem subsetD)
    moreover have "cursor' = (cursor + Suc k) mod length users" if "length c' < n"
      using IH that shift [of k] by simp
    moreover have "toLowerCase (users ! ((cursor + d) mod length users)) \<in> toLowerCase ` set c'"
      if "length c' < n" "d < Suc k" "users ! ((cursor + d) mod length users) \<noteq> []" "ok (users ! ((cursor + d) mod length users))" for d
    proof (cases d)
      case 0
      then show ?thesis using that c1(6) IH Suc.prems(3) by (auto simp: subset_iff)
    next
      case (Suc e)
      then have "e < k" using that(2) by simp
      with IH that(1) have "let u = users ! ((?next + e) mod length users) in u \<noteq> [] \<and> ok u \<longrightarrow> toLowerCase u \<in> toLowerCase ` set c'"
        by blast
      then show ?thesis using that(3,4) unfolding Suc shift [of e] Let_def by blast
    qed
    ultimately show ?thesis using IH c1(3) by (auto simp: Let_def)
  qed
qed simp

section \<open>The selection\<close>

definition off_users :: "select_env \<Rightarrow> string set" where
  "off_users env = {toLowerCase u | u a. sv_config env u = Some a \<and> (\<not> au_enabled a \<or> au_paused a)}"

definition admitted :: "compound_config \<Rightarrow> select_env \<Rightarrow> string \<times> int \<times> int \<Rightarrow> bool" where
  "admitted cfg env need \<longleftrightarrow>
     (case need of (u, tokenId, minEth) \<Rightarrow>
       \<exists>a. sv_config env u = Some a \<and> au_enabled a \<and> \<not> au_paused a \<and> tokenId = au_tokenId a
         \<and> minEth = au_minEthToCompound a \<and> cadence_passed cfg (sv_nowTs env) a)"

text \<open>What a selection may do to the list: keep it, less users that the chain says are off.\<close>

definition only_off_leave :: "string set \<Rightarrow> compound_state \<Rightarrow> compound_state \<Rightarrow> bool" where
  "only_off_leave off s s' \<longleftrightarrow>
     (worklist_ok s \<longrightarrow> worklist_ok s' \<and> (\<forall>w. (listed w s' \<longrightarrow> listed w s) \<and> (listed w s \<longrightarrow> listed w s' \<or> w \<in> off)))
     \<and> cs_lastScannedBlock s' = cs_lastScannedBlock s \<and> cs_deferred s' = cs_deferred s"

lemma leave_refl: "only_off_leave off s s"
  by (simp add: only_off_leave_def)

lemma leave_trans: "only_off_leave off s s1 \<Longrightarrow> only_off_leave off s1 s2 \<Longrightarrow> only_off_leave off s s2"
  unfolding only_off_leave_def by metis

lemma leave_same:
  "cs_users s' = cs_users s \<Longrightarrow> cs_cursor s' = cs_cursor s \<Longrightarrow> cs_lastScannedBlock s' = cs_lastScannedBlock s
    \<Longrightarrow> cs_deferred s' = cs_deferred s \<Longrightarrow> only_off_leave off s s'"
  using worklist_cong [of s' s] by (simp add: only_off_leave_def)

lemma leave_marks [simp]: "only_off_leave off s (markFailure t u err s)" "only_off_leave off s (clearFailure u s)"
  by (rule leave_same; simp add: markFailure_def clearFailure_def Let_def)+

lemma leave_gate: "cadence_gate cfg nowTs u a s = (b, s') \<Longrightarrow> only_off_leave off s s'"
  by (rule leave_same; subst gate_state; simp)

lemma drop_user_rest [simp]:
  "cs_lastScannedBlock (drop_user u s) = cs_lastScannedBlock s" "cs_deferred (drop_user u s) = cs_deferred s"
  by (simp_all add: drop_user_def split: prod.splits)

lemma leave_drop: "toLowerCase u \<in> off \<Longrightarrow> only_off_leave off s (drop_user u s)"
  using drop_user_ok [of s] unfolding only_off_leave_def drop_user_rest by blast

lemma examine_facts:
  "examine cfg env us s = (s', needs) \<Longrightarrow>
    only_off_leave (off_users env) s s' \<and> subseq (map fst needs) us \<and> (\<forall>n \<in> set needs. admitted cfg env n)"
proof (induction us arbitrary: s s' needs)
  case Nil
  then show ?case by (simp add: leave_refl)
next
  case (Cons u us)
  show ?case
  proof (cases "sv_config env u")
    case None
    with Cons.prems have "examine cfg env us (markFailure (sv_nowMs env) u ''multicall_read_failed'' s) = (s', needs)" by simp
    note IH = Cons.IH [OF this]
    show ?thesis using IH leave_trans [OF leave_marks(1) conjunct1 [OF IH]] by (simp add: list_emb_Cons)
  next
    case (Some a)
    show ?thesis
    proof (cases "\<not> au_enabled a \<or> au_paused a")
      case True
      with Some Cons.prems have "examine cfg env us (clearFailure u (drop_user u s)) = (s', needs)" by simp
      note IH = Cons.IH [OF this]
      have "toLowerCase u \<in> off_users env" using Some True by (auto simp: off_users_def)
      then have "only_off_leave (off_users env) s s'"
        using leave_trans [OF leave_drop leave_trans [OF leave_marks(2) conjunct1 [OF IH]]] by blast
      with IH show ?thesis by (simp add: list_emb_Cons)
    next
      case False
      obtain ok s1 where g: "cadence_gate cfg (sv_nowTs env) u a s = (ok, s1)" by fastforce
      obtain s2 rest where r: "examine cfg env us s1 = (s2, rest)" by fastforce
      have n: "s' = s2" "needs = (if ok then (u, au_tokenId a, au_minEthToCompound a) # rest else rest)"
        using Cons.prems Some False g r by auto
      have "admitted cfg env (u, au_tokenId a, au_minEthToCompound a)" if ok
        using Some False gate_passed [of cfg "sv_nowTs env" u a s s1] g that by (simp add: admitted_def)
      moreover have "only_off_leave (off_users env) s s2" by (rule leave_trans [OF leave_gate [OF g] conjunct1 [OF Cons.IH [OF r]]])
      ultimately show ?thesis using Cons.IH [OF r] n by (cases ok) (simp_all add: list_emb_Cons)
    qed
  qed
qed

definition chosen :: "select_env \<Rightarrow> string \<times> int \<times> int \<Rightarrow> int \<Rightarrow> bool" where
  "chosen env need claimable \<longleftrightarrow>
     (case need of (u, tokenId, minEth) \<Rightarrow>
       sv_claimable env u = Some claimable \<and> claimable \<ge> effective_min env minEth
       \<and> (\<exists>amount lockEnd. sv_lock env tokenId = Some (amount, lockEnd, False) \<and> amount \<noteq> 0 \<and> sv_nowTs env < lockEnd))"

lemma pickUsers_facts:
  "pickUsers env m needs s batch = (s', batch') \<Longrightarrow> length batch \<le> m \<Longrightarrow>
    only_off_leave off s s' \<and> length batch' \<le> m
    \<and> (\<exists>new. batch' = batch @ new \<and> subseq (map fst new) (map fst needs)
         \<and> (\<forall>(u, c) \<in> set new. \<exists>need \<in> set needs. fst need = u \<and> chosen env need c))"
proof (induction needs arbitrary: s batch)
  case Nil
  then show ?case by (simp add: leave_refl)
next
  case (Cons need needs)
  obtain u tokenId minEth where n: "need = (u, tokenId, minEth)" by (cases need)
  let ?good = "\<lambda>claimable. chosen env (u, tokenId, minEth) claimable"
  consider (full) "m \<le> length batch"
    | (skip) s1 where "\<not> m \<le> length batch" "only_off_leave off s s1" "pickUsers env m needs s1 batch = (s', batch')"
    | (pick) claimable where "\<not> m \<le> length batch" "?good claimable"
        "pickUsers env m needs (clearFailure u s) (batch @ [(u, claimable)]) = (s', batch')"
  proof (cases "m \<le> length batch")
    case True
    then show ?thesis by (rule full)
  next
    case False
    show ?thesis
    proof (cases "\<exists>claimable. ?good claimable")
      case True
      then obtain claimable where g: "?good claimable" by blast
      then have "claimable \<noteq> 0" by (auto simp: chosen_def effective_min_def MIN_AUTO_COMPOUND_REWARD_WEI_def)
      with g Cons.prems(1) False show ?thesis by (intro pick) (auto simp: n chosen_def Let_def)
    next
      case no: False
      have failed: ?thesis if "pickUsers env m needs (markFailure (sv_nowMs env) u err s) batch = (s', batch')" for err
        by (rule skip [OF False _ that]) simp
      have kept: ?thesis if "pickUsers env m needs s batch = (s', batch')"
        by (rule skip [OF False leave_refl that])
      show ?thesis
      proof (cases "sv_claimable env u")
        case None
        then show ?thesis using Cons.prems(1) False failed by (simp add: n Let_def)
      next
        case (Some claimable)
        show ?thesis
        proof (cases "sv_lock env tokenId")
          case None
          then show ?thesis using Cons.prems(1) False failed Some by (simp add: n Let_def)
        next
          case lock: (Some l)
          obtain amount lockEnd on_sale where l: "l = (amount, lockEnd, on_sale)" by (cases l)
          show ?thesis
            using Cons.prems(1) False no Some lock failed kept unfolding n l by (auto simp: chosen_def Let_def split: if_split_asm)
        qed
      qed
    qed
  qed
  then show ?case
  proof cases
    case full
    then show ?thesis using Cons.prems by (auto simp: n leave_refl)
  next
    case skip
    note IH = Cons.IH [OF skip(3) Cons.prems(2)]
    then obtain new where "batch' = batch @ new" "subseq (map fst new) (map fst needs)"
      "\<forall>(u, c) \<in> set new. \<exists>need \<in> set needs. fst need = u \<and> chosen env need c" by blast
    then have "\<exists>new. batch' = batch @ new \<and> subseq (map fst new) (map fst (need # needs))
         \<and> (\<forall>(u, c) \<in> set new. \<exists>need \<in> set (need # needs). fst need = u \<and> chosen env need c)"
      by (intro exI [of _ new]) auto
    with IH leave_trans [OF skip(2)] show ?thesis by blast
  next
    case pick
    have "length (batch @ [(u, claimable)]) \<le> m" using pick(1) by simp
    note IH = Cons.IH [OF pick(3) this]
    then obtain new where new: "batch' = batch @ (u, claimable) # new" "subseq (map fst new) (map fst needs)"
      "\<forall>(u, c) \<in> set new. \<exists>need \<in> set needs. fst need = u \<and> chosen env need c" by auto
    have "\<exists>new. batch' = batch @ new \<and> subseq (map fst new) (map fst (need # needs))
         \<and> (\<forall>(u, c) \<in> set new. \<exists>need \<in> set (need # needs). fst need = u \<and> chosen env need c)"
      by (rule exI [of _ "(u, claimable) # new"]) (use new pick(2) n in auto)
    with IH leave_trans [OF leave_marks(2)] show ?thesis by blast
  qed
qed

lemma smallest_first_facts:
  "set (smallest_first batch) = fst ` set batch" "length (smallest_first batch) = length batch"
  "distinct (map toLowerCase (map fst batch)) \<Longrightarrow> distinct (map toLowerCase (smallest_first batch))"
proof -
  assume "distinct (map toLowerCase (map fst batch))"
  then have "distinct (map (toLowerCase \<circ> fst) batch)" by simp
  then have "distinct (map (toLowerCase \<circ> fst) (sort_key (\<lambda>(u, claimable). (claimable, toLowerCase u)) batch))"
    unfolding distinct_map by simp
  then show "distinct (map toLowerCase (smallest_first batch))" by (simp add: smallest_first_def)
qed (simp_all add: smallest_first_def)

lemma smallest_first_sorted:
  assumes "\<And>u c. (u, c) \<in> set batch \<Longrightarrow> f u = (c :: int)"
  shows "sorted (map f (smallest_first batch))"
proof -
  let ?l = "sort_key (\<lambda>(u, claimable). (claimable, toLowerCase u)) batch"
  have "sorted (map (\<lambda>(u, claimable). (claimable, toLowerCase u)) ?l)" by simp
  then have "sorted (map snd ?l)" unfolding sorted_map by (rule sorted_wrt_mono_rel [rotated]) auto
  moreover have "map f (smallest_first batch) = map snd ?l" using assms by (auto simp: smallest_first_def)
  ultimately show ?thesis by simp
qed

definition compoundable :: "compound_config \<Rightarrow> select_env \<Rightarrow> string \<Rightarrow> bool" where
  "compoundable cfg env u \<longleftrightarrow>
     (\<exists>a claimable amount lockEnd.
        sv_config env u = Some a \<and> au_enabled a \<and> \<not> au_paused a \<and> cadence_passed cfg (sv_nowTs env) a
        \<and> sv_claimable env u = Some claimable \<and> claimable \<ge> au_minEthToCompound a \<and> claimable \<ge> sv_minAutoCompoundEth env
        \<and> claimable \<ge> MIN_AUTO_COMPOUND_REWARD_WEI
        \<and> sv_lock env (au_tokenId a) = Some (amount, lockEnd, False) \<and> amount \<noteq> 0 \<and> sv_nowTs env < lockEnd)"

lemma selection_facts:
  assumes "selectBatch cfg env s = Some (s', users, drained)"
  shows "length users \<le> cp_maxUsers cfg" "distinct (map toLowerCase users)"
    "sorted (map (\<lambda>u. the (sv_claimable env u)) users)"
    "\<And>u. u \<in> set users \<Longrightarrow> u \<noteq> [] \<and> listed (toLowerCase u) s \<and> may_try cfg env s u \<and> compoundable cfg env u"
    "\<And>u. u \<in> set drained \<Longrightarrow> u \<noteq> [] \<and> toLowerCase u \<in> toLowerCase ` set users"
    "worklist_ok s \<Longrightarrow> worklist_ok s' \<and> (\<forall>w. (listed w s' \<longrightarrow> listed w s) \<and> (listed w s \<longrightarrow> listed w s' \<or> w \<in> off_users env))"
    "cs_lastScannedBlock s' = cs_lastScannedBlock s"
proof -
  have all: "length users \<le> cp_maxUsers cfg \<and> distinct (map toLowerCase users)
    \<and> sorted (map (\<lambda>u. the (sv_claimable env u)) users)
    \<and> (\<forall>u \<in> set users. u \<noteq> [] \<and> listed (toLowerCase u) s \<and> may_try cfg env s u \<and> compoundable cfg env u)
    \<and> (\<forall>u \<in> set drained. u \<noteq> [] \<and> toLowerCase u \<in> toLowerCase ` set users)
    \<and> (worklist_ok s \<longrightarrow> worklist_ok s' \<and> (\<forall>w. (listed w s' \<longrightarrow> listed w s) \<and> (listed w s \<longrightarrow> listed w s' \<or> w \<in> off_users env)))
    \<and> cs_lastScannedBlock s' = cs_lastScannedBlock s"
  proof (cases "cs_users s = []")
    case True
    with assms show ?thesis by (auto simp: selectBatch_def)
  next
    case False
    define n where "n = min (cp_lookahead cfg) (length (cs_users s))"
    define s0 where "s0 = s\<lparr>cs_cursor := cs_cursor s mod length (cs_users s)\<rparr>"
    obtain c k where d: "drainDeferred (may_try cfg env s0) (cs_users s0) n (cs_deferred s0) [] [] = (c, k)" by fastforce
    obtain cursor cands where r: "roundRobin (may_try cfg env s0) (cs_users s0) n n (cs_cursor s0) c = (cursor, cands)" by fastforce
    define s1 where "s1 = s0\<lparr>cs_deferred := k, cs_cursor := cursor\<rparr>"
    obtain s2 needs where e: "examine cfg env cands s1 = (s2, needs)" by fastforce
    obtain s3 batch where p: "pickUsers env (cp_maxUsers cfg) needs s2 [] = (s3, batch)" by fastforce
    have s0: "cs_users s0 = cs_users s" "may_try cfg env s0 = may_try cfg env s" "cs_cursor s0 < length (cs_users s)"
      using False by (auto simp: s0_def may_try_def inFailureCooldown_def fun_eq_iff)
    note df = drain_facts [OF d, simplified]
    have rf: "distinct (map toLowerCase cands)" "cursor < length (cs_users s)"
      "\<forall>u \<in> set cands. u \<in> set c \<or> u \<in> set (cs_users s) \<and> u \<noteq> [] \<and> may_try cfg env s u"
      using roundRobin_facts [OF r] df s0 by auto
    have cands: "u \<noteq> [] \<and> listed (toLowerCase u) s \<and> may_try cfg env s u" if "u \<in> set cands" for u
      using rf(3) df that s0 by (auto simp: listed_def)
    have w1: "worklist_ok s \<Longrightarrow> worklist_ok s1" "listed w s1 = listed w s" "cs_lastScannedBlock s1 = cs_lastScannedBlock s" for w
      using rf(2) by (auto simp: worklist_ok_def listed_def s1_def s0_def)
    note ef = examine_facts [OF e]
    have "length ([] :: (string \<times> int) list) \<le> cp_maxUsers cfg" by simp
    note pf = pickUsers_facts [OF p this, of "off_users env"]
    have rest: "Some (s', users, drained) = (if cands = [] then Some (s1, [], [])
        else if \<not> sv_configsAnswer env then None
        else if needs = [] then Some (s2, [], [])
        else if \<not> sv_statesAnswer env then None
        else Some (s3, smallest_first batch, filter (\<lambda>u. u \<noteq> [] \<and> toLowerCase u \<in> toLowerCase ` set (smallest_first batch)) c))"
      using assms False d r e p unfolding selectBatch_def Let_def n_def [symmetric] s0_def [symmetric]
      by (auto simp: s1_def [symmetric] split: if_splits)
    consider "s' = s1" "users = []" "drained = []" | "s' = s2" "users = []" "drained = []"
      | "s' = s3" "users = smallest_first batch"
        "drained = filter (\<lambda>u. u \<noteq> [] \<and> toLowerCase u \<in> toLowerCase ` set users) c"
      using rest by (cases "cands = []"; cases "sv_configsAnswer env"; cases "needs = []"; cases "sv_statesAnswer env") auto
    then show ?thesis
    proof cases
      case 1
      then show ?thesis using w1 by simp
    next
      case 2
      then show ?thesis using w1 ef by (simp add: only_off_leave_def)
    next
      case 3
      have leave: "only_off_leave (off_users env) s1 s3" using ef pf leave_trans by blast
      have sub: "subseq (map fst batch) cands" using pf ef by (auto intro: subseq_order.trans)
      have nd: "\<exists>need \<in> set needs. fst need = u \<and> chosen env need c \<and> admitted cfg env need" if "(u, c) \<in> set batch" for u c
        using pf ef that by fastforce
      have "distinct (map toLowerCase (map fst batch))"
        using rf(1) subseq_map [OF sub, of toLowerCase] by (metis subseq_conv_nths distinct_nthsI)
      moreover have "the (sv_claimable env u) = c" if "(u, c) \<in> set batch" for u c
        using nd [OF that] by (auto simp: chosen_def)
      moreover have "compoundable cfg env u" if "u \<in> set users" for u
        using that nd unfolding 3(2) smallest_first_facts(1)
        by (fastforce simp: compoundable_def chosen_def admitted_def effective_min_def)
      moreover have "set (map fst batch) \<subseteq> set cands" using sub by (metis subseq_conv_nths set_nths_subset)
      then have "u \<in> set cands" if "u \<in> set users" for u
        using that unfolding 3(2) smallest_first_facts(1) by auto
      ultimately show ?thesis
        using 3 pf leave w1 cands smallest_first_facts smallest_first_sorted [of batch "\<lambda>u. the (sv_claimable env u)"]
        by (auto simp: only_off_leave_def)
    qed
  qed
  show "length users \<le> cp_maxUsers cfg" "distinct (map toLowerCase users)"
    "sorted (map (\<lambda>u. the (sv_claimable env u)) users)"
    "\<And>u. u \<in> set users \<Longrightarrow> u \<noteq> [] \<and> listed (toLowerCase u) s \<and> may_try cfg env s u \<and> compoundable cfg env u"
    "\<And>u. u \<in> set drained \<Longrightarrow> u \<noteq> [] \<and> toLowerCase u \<in> toLowerCase ` set users"
    "worklist_ok s \<Longrightarrow> worklist_ok s' \<and> (\<forall>w. (listed w s' \<longrightarrow> listed w s) \<and> (listed w s \<longrightarrow> listed w s' \<or> w \<in> off_users env))"
    "cs_lastScannedBlock s' = cs_lastScannedBlock s"
    using all by blast+
qed

section \<open>The fallback and the queue\<close>

lemma merge_users_set: "toLowerCase ` set (merge_users merged us) = toLowerCase ` set merged \<union> toLowerCase ` {u \<in> set us. u \<noteq> []}"
  by (induction merged us rule: merge_users.induct) auto

lemma merge_users_distinct: "distinct (map toLowerCase merged) \<Longrightarrow> distinct (map toLowerCase (merge_users merged us))"
  by (induction merged us rule: merge_users.induct) auto

definition waiting :: "compound_state \<Rightarrow> string \<Rightarrow> bool" where
  "waiting s u \<longleftrightarrow> toLowerCase u \<in> toLowerCase ` set (cs_deferred s)"

lemma waiting_deferred: "waiting (reDeferUsers us s) u \<longleftrightarrow> waiting s u \<or> toLowerCase u \<in> toLowerCase ` {x \<in> set us. x \<noteq> []}"
  by (simp add: waiting_def reDeferUsers_def merge_users_set)

text \<open>A failure with a later time to try again.\<close>

definition backed_off :: "int \<Rightarrow> compound_state \<Rightarrow> string \<Rightarrow> bool" where
  "backed_off nowMs s u \<longleftrightarrow> (\<exists>f t. cs_failures s (toLowerCase u) = Some f \<and> fl_nextTry f = Some t \<and> nowMs < t)"

lemma delay_bounds: "FAILURE_INITIAL_MS \<le> nextFailureDelayMs count \<and> nextFailureDelayMs count \<le> FAILURE_MAX_MS"
proof -
  have "(1 :: int) \<le> 2 ^ (count - 1)" by simp
  then show ?thesis by (auto simp: nextFailureDelayMs_def FAILURE_INITIAL_MS_def FAILURE_MAX_MS_def min_def)
qed

lemma backed_off_mark: "backed_off nowMs (markFailure nowMs v err s) u \<longleftrightarrow> backed_off nowMs s u \<or> toLowerCase v = toLowerCase u"
  using delay_bounds by (auto simp: backed_off_def markFailure_def Let_def FAILURE_INITIAL_MS_def) (smt (verit))+

definition executed_alone :: "compound_env \<Rightarrow> string \<Rightarrow> bool" where
  "executed_alone env u \<longleftrightarrow>
     (case en_single env u of (Sent _ _ _, logs) \<Rightarrow> receiptHasExecutedForUser (en_address env) logs u | _ \<Rightarrow> False)"

lemma latches_all: "latches code"
  by (cases code) (simp_all add: latches_def)

lemma fallback_facts:
  "fallback env us stopped (s, latched, tried) = (s', latched', tried') \<Longrightarrow>
    cs_deferred s' = cs_deferred s \<and> cs_users s' = cs_users s \<and> cs_cursor s' = cs_cursor s
    \<and> cs_lastScannedBlock s' = cs_lastScannedBlock s
    \<and> set latched \<subseteq> set latched' \<and> set latched' \<subseteq> set latched \<union> set us
    \<and> (\<forall>u. backed_off (en_failMs env) s u \<longrightarrow> backed_off (en_failMs env) s' u)
    \<and> (\<forall>u \<in> set us. u \<in> set latched' \<or> u \<in> set tried' \<and> executed_alone env u \<or> backed_off (en_failMs env) s' u)
    \<and> set tried \<subseteq> set tried' \<and> set tried' \<subseteq> set tried \<union> set us"
proof (induction us arbitrary: stopped s latched tried)
  case (Cons u us)
  obtain s1 latched1 tried1 stop1 where step: "fallback env us stop1 (s1, latched1, tried1) = (s', latched', tried')"
    "cs_deferred s1 = cs_deferred s" "cs_users s1 = cs_users s" "cs_cursor s1 = cs_cursor s"
    "cs_lastScannedBlock s1 = cs_lastScannedBlock s" "set latched \<subseteq> set latched1" "set latched1 \<subseteq> insert u (set latched)"
    "\<forall>v. backed_off (en_failMs env) s v \<longrightarrow> backed_off (en_failMs env) s1 v" "set tried \<subseteq> set tried1" "set tried1 \<subseteq> insert u (set tried)"
    "u \<in> set latched1 \<or> u \<in> set tried1 \<and> executed_alone env u \<or> backed_off (en_failMs env) s1 u"
  proof (cases stopped)
    case True
    then show ?thesis using Cons.prems by (intro that [of True s "latched @ [u]" tried]) auto
  next
    case running: False
    have mark: "cs_deferred (markFailure t v err s) = cs_deferred s" "cs_users (markFailure t v err s) = cs_users s"
      "cs_cursor (markFailure t v err s) = cs_cursor s" "cs_lastScannedBlock (markFailure t v err s) = cs_lastScannedBlock s" for t v err
      by (simp_all add: markFailure_def Let_def)
    obtain answer logs where one: "en_single env u = (answer, logs)" by fastforce
    show ?thesis
    proof (cases answer)
      case (Sent h r v)
      let ?done = "receiptHasExecutedForUser (en_address env) logs u"
      let ?s1 = "if ?done then s else markFailure (en_failMs env) u ''fallback_no_executed_event'' s"
      show ?thesis
        by (rule that [of False ?s1 latched "tried @ [u]"])
          (use Cons.prems running one Sent in \<open>auto simp: mark backed_off_mark executed_alone_def\<close>)
    next
      case (Skipped code)
      show ?thesis
        by (rule that [of True s "latched @ [u]" "tried @ [u]"])
          (use Cons.prems running one Skipped in \<open>auto simp: latches_all\<close>)
    next
      case (Send_throws e)
      show ?thesis
        by (rule that [of False "markFailure (en_failMs env) u (en_errorText env e) s" latched "tried @ [u]"])
          (use Cons.prems running one Send_throws in \<open>auto simp: mark backed_off_mark\<close>)
    qed
  qed
  note IH = Cons.IH [OF step(1)]
  have "u \<in> set latched' \<or> u \<in> set tried' \<and> executed_alone env u \<or> backed_off (en_failMs env) s' u"
    using IH step(11) by blast
  then show ?case using IH step(2-10) by auto
qed auto

section \<open>The gas limit\<close>

lemma shrinkFrom_result:
  assumes "n \<le> length users"
  shows "(\<exists>k. let m = n div 2 ^ k in shrinkFrom estimate maxGas users n = take m users
     \<and> (m > 0 \<longrightarrow> (\<exists>gas. estimate (take m users) = Some gas \<and> gas \<le> maxGas))
     \<and> (\<forall>j < k. \<forall>gas. estimate (take (n div 2 ^ j) users) = Some gas \<longrightarrow> gas > maxGas))"
  using assms
proof (induction n rule: less_induct)
  case (less n)
  show ?case
  proof (cases "n = 0 \<or> (\<exists>gas. estimate (take n users) = Some gas \<and> gas \<le> maxGas)")
    case True
    then show ?thesis by (intro exI [of _ 0]) (auto simp: shrinkFrom.simps [of _ _ _ n])
  next
    case False
    then have half: "shrinkFrom estimate maxGas users n = shrinkFrom estimate maxGas users (n div 2)"
      by (subst shrinkFrom.simps) (auto split: option.split)
    have "n div 2 < n" "n div 2 \<le> length users" using False less.prems by auto
    from less.IH [OF this] obtain k where k: "let m = n div 2 div 2 ^ k in shrinkFrom estimate maxGas users (n div 2) = take m users
     \<and> (m > 0 \<longrightarrow> (\<exists>gas. estimate (take m users) = Some gas \<and> gas \<le> maxGas))
     \<and> (\<forall>j < k. \<forall>gas. estimate (take (n div 2 div 2 ^ j) users) = Some gas \<longrightarrow> gas > maxGas)" by blast
    have d: "n div 2 div 2 ^ j = n div 2 ^ Suc j" for j by (simp add: div_mult2_eq)
    have "\<forall>gas. estimate (take (n div 2 ^ j) users) = Some gas \<longrightarrow> gas > maxGas" if "j < Suc k" for j
      using that False k by (cases j) (auto simp: Let_def d)
    then show ?thesis using k by (intro exI [of _ "Suc k"]) (auto simp: Let_def d half)
  qed
qed

section \<open>A whole run\<close>

lemma defer_rest [simp]:
  "cs_users (reDeferUsers us s) = cs_users s" "cs_cursor (reDeferUsers us s) = cs_cursor s"
  "cs_lastScannedBlock (reDeferUsers us s) = cs_lastScannedBlock s" "cs_failures (reDeferUsers us s) = cs_failures s"
  by (simp_all add: reDeferUsers_def)

lemma backed_off_defer [simp]: "backed_off t (reDeferUsers us s) u = backed_off t s u"
  by (simp add: backed_off_def)

lemma shrink_prefix:
  obtains n where "shrinkToGasLimit estimate maxGas users = take n users"
    "n > 0 \<longrightarrow> (\<exists>gas. estimate (take n users) = Some gas \<and> gas \<le> maxGas)"
proof -
  from shrinkFrom_result [OF order_refl, of users estimate maxGas] obtain k where
    "let m = length users div 2 ^ k in shrinkFrom estimate maxGas users (length users) = take m users
     \<and> (m > 0 \<longrightarrow> (\<exists>gas. estimate (take m users) = Some gas \<and> gas \<le> maxGas))
     \<and> (\<forall>j < k. \<forall>gas. estimate (take (length users div 2 ^ j) users) = Some gas \<longrightarrow> gas > maxGas)" by blast
  then show ?thesis unfolding Let_def by (intro that [of "length users div 2 ^ k"]) (simp_all add: shrinkToGasLimit_def)
qed

text \<open>The four ways a batch ends.\<close>

lemma executeBatch_cases:
  assumes "r = executeBatch cfg env s batch drained"
  defines "users \<equiv> shrinkToGasLimit (en_estimate env) (cp_maxGas cfg) batch"
  defines "shrunkOut \<equiv> filter (\<lambda>u. u \<noteq> [] \<and> toLowerCase u \<notin> toLowerCase ` set users) drained"
  obtains (quiet) "users = [] \<or> cp_dryRun cfg" "ct_batch r = []" "ct_singles r = []" "\<not> ct_threw r"
      "ct_state r = reDeferUsers drained (reDeferUsers shrunkOut s)"
  | (threw) "users \<noteq> []" "\<not> cp_dryRun cfg" "ct_batch r = users" "ct_singles r = []" "ct_threw r"
      "ct_state r = reDeferUsers shrunkOut s"
  | (skipped) "users \<noteq> []" "\<not> cp_dryRun cfg" "ct_batch r = users" "ct_singles r = []" "\<not> ct_threw r"
      "ct_state r = reDeferUsers (users @ shrunkOut) (reDeferUsers shrunkOut s)"
  | (sent) s' latched missing where "users \<noteq> []" "\<not> cp_dryRun cfg" "ct_batch r = users" "\<not> ct_threw r"
      "missing = filter (\<lambda>u. toLowerCase u \<notin> toLowerCase ` set (filter (receiptHasExecutedForUser (en_address env) (snd (en_batch env))) users)) users"
      "fallback env missing False (reDeferUsers shrunkOut s, [], []) = (s', latched, ct_singles r)"
      "ct_state r = reDeferUsers latched s'"
proof (cases "users = [] \<or> cp_dryRun cfg")
  case True
  then show ?thesis using quiet by (simp add: assms(1) executeBatch_def Let_def users_def shrunkOut_def)
next
  case False
  obtain answer logs where b: "en_batch env = (answer, logs)" by fastforce
  note eq = assms(1) [unfolded executeBatch_def Let_def, folded users_def, folded shrunkOut_def] b
  show ?thesis
  proof (cases answer)
    case (Sent h rc v)
    define missing where "missing = filter (\<lambda>u. toLowerCase u \<notin> toLowerCase ` set (filter (receiptHasExecutedForUser (en_address env) logs) users)) users"
    obtain s' latched tried where f: "fallback env missing False (reDeferUsers shrunkOut s, [], []) = (s', latched, tried)"
      by (metis prod_cases3)
    show ?thesis
      by (rule sent [of missing s' latched]) (use False eq Sent f in \<open>simp_all add: missing_def\<close>)
  next
    case (Skipped code)
    then show ?thesis using False eq by (intro skipped) simp_all
  next
    case (Send_throws e)
    then show ?thesis using False eq by (intro threw) simp_all
  qed
qed

lemma executeBatch_rest:
  "cs_users (ct_state (executeBatch cfg env s batch drained)) = cs_users s"
  "cs_cursor (ct_state (executeBatch cfg env s batch drained)) = cs_cursor s"
  "cs_lastScannedBlock (ct_state (executeBatch cfg env s batch drained)) = cs_lastScannedBlock s"
proof -
  let ?r = "executeBatch cfg env s batch drained"
  have "cs_users (ct_state ?r) = cs_users s \<and> cs_cursor (ct_state ?r) = cs_cursor s
    \<and> cs_lastScannedBlock (ct_state ?r) = cs_lastScannedBlock s"
    by (rule executeBatch_cases [OF refl, where cfg = cfg and env = env and s = s and batch = batch and drained = drained]) (use fallback_facts in fastforce)+
  then show "cs_users (ct_state ?r) = cs_users s" "cs_cursor (ct_state ?r) = cs_cursor s"
    "cs_lastScannedBlock (ct_state ?r) = cs_lastScannedBlock s" by auto
qed

lemma executeBatch_sends:
  assumes "r = executeBatch cfg env s batch drained"
  shows "ct_batch r = [] \<and> ct_singles r = []
    \<or> \<not> cp_dryRun cfg \<and> ct_batch r = shrinkToGasLimit (en_estimate env) (cp_maxGas cfg) batch \<and> set (ct_singles r) \<subseteq> set (ct_batch r)"
proof (rule executeBatch_cases [OF assms])
  let ?users = "shrinkToGasLimit (en_estimate env) (cp_maxGas cfg) batch"
  fix s' latched missing
  assume b: "ct_batch r = ?users" "\<not> cp_dryRun cfg"
    and m: "missing = filter (\<lambda>u. toLowerCase u \<notin> toLowerCase ` set (filter (receiptHasExecutedForUser (en_address env) (snd (en_batch env))) ?users)) ?users"
    and f: "fallback env missing False (reDeferUsers (filter (\<lambda>u. u \<noteq> [] \<and> toLowerCase u \<notin> toLowerCase ` set ?users) drained) s, [], [])
      = (s', latched, ct_singles r)"
  have "set (ct_singles r) \<subseteq> set missing" using fallback_facts [OF f] by simp
  also have "set missing \<subseteq> set ?users" unfolding m by (rule filter_is_subset)
  finally show ?thesis using b by simp
qed simp_all

lemma executed_same_user: "toLowerCase u = toLowerCase v \<Longrightarrow>
    receiptHasExecutedForUser address logs u = receiptHasExecutedForUser address logs v"
  by (simp add: receiptHasExecutedForUser_def userTopic_def)

lemma select_input_same [simp]: "off_users (select_input env) = off_users (en_select env)"
  by (simp add: off_users_def select_input_def)

text \<open>
  The runs of the task one after the other, with the users that some run found switched off. The head of the chain does not
  go back, and a scan that throws covered the overlap in its first chunk.
\<close>

inductive compound_reach :: "user_event list \<Rightarrow> int \<Rightarrow> string set \<Rightarrow> compound_state \<Rightarrow> bool" for evs startBlock where
  fresh: "compound_reach evs startBlock {} init_compound"
| ran: "compound_reach evs startBlock off s \<Longrightarrow> honest_users evs (en_source env) \<Longrightarrow> cs_lastScannedBlock s \<le> en_latest env
    \<Longrightarrow> compound_start cfg (en_latest env) = startBlock
    \<Longrightarrow> fst (scanOptedInUsers (en_clock env) (en_source env) startBlock (Some (int (cp_chunkBlocks cfg))) (en_latest env) s) \<noteq> None
        \<or> SCAN_OVERLAP_BLOCKS \<le> chunk_size (Some (int (cp_chunkBlocks cfg)))
    \<Longrightarrow> compound_reach evs startBlock (off \<union> off_users (en_select env)) (ct_state (runCompoundShareholders cfg env s))"

lemma scan_past_head: "scanUserChunks clock src chunk latest f s = (True, f', s') \<Longrightarrow> latest < f'"
proof (induction clock src chunk latest f s rule: scanUserChunks.induct)
  case (1 clock src chunk latest f s)
  define upto where "upto = (if f + max 1 chunk - 1 > latest then latest else f + max 1 chunk - 1)"
  note eq = "1.prems" [unfolded scanUserChunks.simps [of clock src chunk latest f s] Let_def, folded upto_def]
  show ?case
  proof (cases "latest < f")
    case True
    then show ?thesis using eq by simp
  next
    case False
    with eq obtain es where es: "userChunk src f upto = Some es" by (auto split: option.split_asm)
    show ?thesis by (rule "1.IH" [OF False upto_def es]) (use eq False es in simp)
  qed
qed

lemma scan_result_saved:
  "cs_lastScannedBlock s \<le> latest \<Longrightarrow> scanOptedInUsers clock src startBlock chunkBlocks latest s = (Some s1, f) \<Longrightarrow> f = s1"
  using scan_past_head
  by (fastforce simp: scanOptedInUsers_def Let_def CHAIN_REWIND_TOLERANCE_def split: if_split_asm prod.split_asm)

lemma agrees_leave:
  assumes "agrees evs startBlock off s" "cs_lastScannedBlock s' = cs_lastScannedBlock s"
    "\<forall>w. (listed w s' \<longrightarrow> listed w s) \<and> (listed w s \<longrightarrow> listed w s' \<or> w \<in> off')"
  shows "agrees evs startBlock (off \<union> off') s'"
proof -
  have "cs_users s = [] \<Longrightarrow> cs_users s' = []" using assms(3) by (simp add: listed_def) 
  then show ?thesis using assms unfolding agrees_def Let_def by auto
qed

lemma run_cases:
  assumes "cs_lastScannedBlock s \<le> en_latest env"
    and scan: "scanOptedInUsers (en_clock env) (en_source env) (compound_start cfg (en_latest env)) (Some (int (cp_chunkBlocks cfg)))
      (en_latest env) s = (r, f)"
  obtains (idle) "ct_state (runCompoundShareholders cfg env s) = f" "ct_batch (runCompoundShareholders cfg env s) = []"
      "ct_singles (runCompoundShareholders cfg env s) = []"
  | (selected) s1 batch drained where "r = Some f" "selectBatch cfg (select_input env) f = Some (s1, batch, drained)"
      "en_lockingPaused env \<noteq> Some True" "runCompoundShareholders cfg env s = executeBatch cfg env s1 batch drained"
proof (cases r)
  case None
  then show ?thesis using idle scan by (simp add: runCompoundShareholders_def)
next
  case (Some s1)
  have "f = s1" using scan_result_saved [OF assms(1)] scan Some by blast
  then show ?thesis
    using idle selected scan Some
    by (cases "en_lockingPaused env = Some True"; cases "selectBatch cfg (select_input env) f")
      (auto simp: runCompoundShareholders_def)
qed

section \<open>Properties\<close>




text \<open>
  C16. Spreading costs a user at most the spread. A user that has compounded is let through never before its cadence has
  passed and always once the spread has passed too; one that has not, always once the spread has passed since it was first
  seen; and a user that was let through once is let through at any later time, until it compounds.
\<close>

theorem spread_bounds_wait:
  assumes "0 \<le> cp_spreadSecs cfg" "cadence_gate cfg t u a s = (b, s1)" "t \<le> t'" "0 \<le> au_lastCompoundTs a"
    "cadence = effectiveShareholderCadenceSeconds (cp_minCadenceSecs cfg) (au_minCadenceSeconds a)" "0 < cadence"
  shows "(b \<and> 0 < au_lastCompoundTs a \<longrightarrow> t \<ge> au_lastCompoundTs a + cadence)
    \<and> (b \<longrightarrow> fst (cadence_gate cfg t' u a s1))
    \<and> (0 < au_lastCompoundTs a \<and> t' \<ge> au_lastCompoundTs a + cadence + cp_spreadSecs cfg \<longrightarrow> fst (cadence_gate cfg t' u a s1))
    \<and> (au_lastCompoundTs a = 0 \<and> t' \<ge> (case cs_firstSeen s (toLowerCase u) of Some x \<Rightarrow> x | None \<Rightarrow> t) + cp_spreadSecs cfg
        \<longrightarrow> fst (cadence_gate cfg t' u a s1))"
proof (cases "cp_spreadSecs cfg = 0 \<or> 0 < au_lastCompoundTs a")
  case True
  have j: "shareholderSpreadJitterSeconds u x (cp_spreadSecs cfg) \<le> cp_spreadSecs cfg" for x
  proof (cases "cp_spreadSecs cfg = 0")
    case False
    with assms(1) have "0 < cp_spreadSecs cfg" by simp
    from jitter_range(2) [OF this] show ?thesis by (rule less_imp_le)
  qed (simp add: shareholderSpreadJitterSeconds_def)
  show ?thesis
    using True assms(2-) j [of "au_lastCompoundTs a"] jitter_range(1) [of u "au_lastCompoundTs a" "cp_spreadSecs cfg"]
    by (auto simp: cadence_gate_def Let_def split: if_split_asm)
next
  case False
  define anchor where "anchor = (case cs_firstSeen s (toLowerCase u) of Some x \<Rightarrow> x | None \<Rightarrow> t)"
  have "cp_spreadSecs cfg > 0" "au_lastCompoundTs a = 0" using False assms(1,4) by auto
  then have "b \<longleftrightarrow> t \<ge> anchor + shareholderSpreadJitterSeconds u anchor (cp_spreadSecs cfg)"
    "s1 = s\<lparr>cs_firstSeen := (cs_firstSeen s)(toLowerCase u \<mapsto> anchor)\<rparr>"
    "shareholderSpreadJitterSeconds u anchor (cp_spreadSecs cfg) < cp_spreadSecs cfg"
    using assms(2) jitter_range(2) by (auto simp: cadence_gate_def Let_def anchor_def)
  then show ?thesis
    using False assms(3,4) \<open>cp_spreadSecs cfg > 0\<close> by (auto simp: cadence_gate_def Let_def anchor_def [symmetric])
qed

text \<open>A batch that throws leaves its users out of the queue they came from.\<close>

lemma thrown_batch_forgets:
  assumes "r = executeBatch cfg env s batch drained" "ct_threw r" "u \<in> set (ct_batch r)"
  shows "waiting (ct_state r) u \<longleftrightarrow> waiting s u"
proof (rule executeBatch_cases [OF assms(1)])
  let ?users = "shrinkToGasLimit (en_estimate env) (cp_maxGas cfg) batch"
  assume "ct_batch r = ?users"
    "ct_state r = reDeferUsers (filter (\<lambda>u. u \<noteq> [] \<and> toLowerCase u \<notin> toLowerCase ` set ?users) drained) s"
  then show ?thesis using assms(3) by (auto simp: waiting_deferred) (metis image_eqI)
qed (use assms(2,3) in simp_all)

text \<open>The event of another user is not taken for one's own: topics of addresses differ.\<close>

lemma userTopic_inj:
  assumes "toLowerCase u = ''0x'' @ x" "toLowerCase v = ''0x'' @ y" "length x = 40" "length y = 40" "userTopic u = userTopic v"
  shows "toLowerCase u = toLowerCase v"
  using assms by (simp add: userTopic_def Let_def)

section \<open>Witnesses\<close>

definition sample_user_event :: user_event where
  "sample_user_event = \<lparr>le_block = 10, le_index = 0, le_body = Configured ''a'' True\<rparr>"

definition sample_user_source :: user_source where
  "sample_user_source k f t = Some (if k \<and> f \<le> 10 \<and> 10 \<le> t then [sample_user_event] else [])"

definition sample_select_env :: select_env where
  "sample_select_env = \<lparr>sv_nowTs = 200000, sv_nowMs = 200000000, sv_morning = None, sv_hour = 0, sv_minAutoCompoundEth = 0,
     sv_configsAnswer = True,
     sv_config = (\<lambda>_. Some \<lparr>au_enabled = True, au_paused = False, au_tokenId = 1, au_minCadenceSeconds = 3600,
       au_minEthToCompound = 5, au_lastCompoundTs = 1000\<rparr>),
     sv_statesAnswer = True, sv_claimable = (\<lambda>_. Some 2000000000000000), sv_lock = (\<lambda>_. Some (7, 300000, False))\<rparr>"

definition sample_compound_config :: compound_config where
  "sample_compound_config = \<lparr>cp_startBlock = Some 5, cp_chunkBlocks = 100, cp_maxUsers = 3, cp_lookahead = 10,
     cp_morningWindowHours = 1, cp_minCadenceSecs = 86400, cp_spreadSecs = 0, cp_maxGas = 100, cp_dryRun = False\<rparr>"

definition sample_compound_env :: "bool \<Rightarrow> compound_env" where
  "sample_compound_env paused = \<lparr>en_latest = 20, en_source = sample_user_source, en_clock = (\<lambda>_. 0), en_lockingPaused = Some paused,
     en_minAutoCompoundEth = None, en_select = sample_select_env, en_estimate = (\<lambda>_. Some 50), en_address = ''c'',
     en_batch = (Skipped Sk_pending_guard, []), en_single = (\<lambda>_. (Skipped Sk_paused, [])), en_failMs = 0, en_errorText = (\<lambda>_. [])\<rparr>"

definition sample_worklist :: compound_state where
  "sample_worklist = \<lparr>cs_lastScannedBlock = 20, cs_users = [''a''], cs_cursor = 0, cs_failures = Map.empty, cs_deferred = [],
     cs_firstSeen = [''a'' \<mapsto> 0]\<rparr>"

lemma lower_a: "toLowerCase ''a'' = ''a''"
  by code_simp

lemma sample_user_scan:
  "scanOptedInUsers (\<lambda>_. 0) sample_user_source 5 (Some 100) 20 init_compound = (Some sample_worklist, sample_worklist)"
proof -
  have "userChunk sample_user_source 5 20 = Some [sample_user_event]"
    by (simp add: userChunk_def sample_user_source_def)
  then have "scanUserChunks (\<lambda>_. 0) sample_user_source 100 20 5 init_compound = (True, 21, sample_worklist)"
    by (simp add: scanUserChunks.simps [of _ _ _ _ 5] scanUserChunks.simps [of _ _ _ _ 21] applyUserEvent_def Let_def
        sample_user_event_def event_user_def enables_def clearFailure_def enlist_user_def init_compound_def addUser_def lower_a
        sample_worklist_def)
  then show ?thesis
    by (simp add: scanOptedInUsers_def Let_def init_compound_def resume_block_def chunk_size_def)
qed

lemma sample_honest: "honest_users [sample_user_event] sample_user_source"
  by (auto simp: honest_users_def sample_user_source_def sample_user_event_def is_cfg_def)

lemma sample_paused_run: "ct_state (runCompoundShareholders sample_compound_config (sample_compound_env True) init_compound) = sample_worklist"
  using sample_user_scan
  by (simp add: runCompoundShareholders_def sample_compound_env_def sample_compound_config_def compound_start_def Let_def)


lemma sample_selection:
  "selectBatch sample_compound_config (select_input (sample_compound_env False)) sample_worklist = Some (sample_worklist, [''a''], [])"
  by (simp add: selectBatch_def Let_def sample_worklist_def sample_compound_config_def select_input_def sample_compound_env_def
      sample_select_env_def may_try_def inFailureCooldown_def lower_a cadence_gate_def effectiveShareholderCadenceSeconds_def
      shareholderSpreadJitterSeconds_def effective_min_def MIN_AUTO_COMPOUND_REWARD_WEI_def clearFailure_def smallest_first_def)

lemma sample_batch: "executeBatch sample_compound_config (sample_compound_env False) sample_worklist [''a''] []
    = \<lparr>ct_threw = False, ct_batch = [''a''], ct_singles = [], ct_state = sample_worklist\<lparr>cs_deferred := [''a'']\<rparr>\<rparr>"
  by (simp add: executeBatch_def Let_def sample_compound_env_def sample_compound_config_def shrinkToGasLimit_def shrinkFrom.simps
      reDeferUsers_def sample_worklist_def)



theorem spread_bounds_wait_witness:
  "fst (cadence_gate sample_compound_config 90000 ''a'' \<lparr>au_enabled = True, au_paused = False, au_tokenId = 1,
     au_minCadenceSeconds = 3600, au_minEthToCompound = 5, au_lastCompoundTs = 1000\<rparr> sample_worklist)"
proof -
  let ?a = "\<lparr>au_enabled = True, au_paused = False, au_tokenId = 1, au_minCadenceSeconds = 3600, au_minEthToCompound = 5,
     au_lastCompoundTs = 1000\<rparr>"
  have "cadence_gate sample_compound_config 2000 ''a'' ?a sample_worklist = (False, sample_worklist)"
    by (simp add: sample_compound_config_def cadence_gate_def Let_def effectiveShareholderCadenceSeconds_def
        shareholderSpreadJitterSeconds_def)
  from spread_bounds_wait [OF _ this _ _ refl, of 90000] show ?thesis
    by (simp add: sample_compound_config_def effectiveShareholderCadenceSeconds_def)
qed

end
