(* ===== verification/LockFile.thy ===== *)
theory LockFile
  imports CircuitBreaker "HOL-Library.AList"
begin

text \<open>
  The lock that keeps two keepers from sending at once: the lock file (\<open>src/keeper/src/shared/lock.ts\<close>), the host lock
  (\<open>src/keeper/src/shared/host_lock.ts\<close>) and the wait for them (\<open>src/keeper/src/run/lock.ts\<close>).

  \<^item> An attempt is one call of \<open>acquireFileLock\<close>, with the owner id that it draws. Its state is a phase: the next call of
    the file system that it makes. One operation is one such call with the code up to the next; calls of different
    attempts, of the same or of other processes, interleave in any order and at any times.
  \<^item> The file is its inode, its parsed text (\<open>JNull\<close> when \<open>JSON.parse\<close> throws), its modification time and whether it
    can be read. What is written through a descriptor whose file was unlinked is lost.
  \<^item> The abstract socket is the host lock's holder; the kernel frees it when the process ends. A socket closed by the
    kernel under a live process is not modelled.
\<close>

section \<open>The state\<close>

record lock_file =
  lf_inode :: nat
  lf_json :: json
  lf_mtime :: int
  lf_readable :: bool

datatype lost_reason =
  Lost_missing | Lost_read_failed | Lost_corrupt | Lost_stolen | Lost_clock_drift int | Lost_write_failed | Lost_overwritten

datatype refusal = Already_held | Cannot_read | Open_failed | Write_failed | Host_held | Crashed

datatype lock_phase =
  Idle
| Opening
| Writing nat
| Checking
| Checking_mtime
| Breaking
| Held
| Beating "(string \<times> json) list"
| Verifying
| Unlinking
| Released
| Lost lost_reason
| Refused refusal

record lock_world =
  lw_file :: "lock_file option"
  lw_nextInode :: nat
  lw_host :: "nat option"
  lw_phase :: "nat \<Rightarrow> lock_phase"

record lock_config =
  lk_owner :: "nat \<Rightarrow> string"
  lk_pid :: "nat \<Rightarrow> int"
  lk_ttlMs :: int
  lk_useHost :: bool

definition isHeld :: "lock_phase \<Rightarrow> bool" where
  "isHeld ph \<longleftrightarrow> (case ph of Held \<Rightarrow> True | Beating _ \<Rightarrow> True | Verifying \<Rightarrow> True | _ \<Rightarrow> False)"

definition set_phase :: "nat \<Rightarrow> lock_phase \<Rightarrow> lock_world \<Rightarrow> lock_world" where
  "set_phase p ph w = w\<lparr>lw_phase := (lw_phase w)(p := ph)\<rparr>"

text \<open>The end of an attempt: it throws or releases, and the host lock is freed.\<close>

definition leave :: "nat \<Rightarrow> lock_phase \<Rightarrow> lock_world \<Rightarrow> lock_world" where
  "leave p ph w = set_phase p ph (if lw_host w = Some p then w\<lparr>lw_host := None\<rparr> else w)"

section \<open>Reading a record\<close>

definition field_of :: "json \<Rightarrow> string \<Rightarrow> json" where
  "field_of v k = (case v of JObj fs \<Rightarrow> json_field fs k | _ \<Rightarrow> JNull)"

text \<open>The fields that a spread copies; \<open>None\<close> is a value that is not an object.\<close>

definition object_fields :: "json \<Rightarrow> (string \<times> json) list option" where
  "object_fields v = (case v of
     JObj fs \<Rightarrow> Some fs
   | JArr vs \<Rightarrow> Some (zip (map nat_string [0..<length vs]) vs)
   | _ \<Rightarrow> None)"

definition makeRecord :: "lock_config \<Rightarrow> nat \<Rightarrow> int \<Rightarrow> json" where
  "makeRecord cfg p now = JObj
     [(''ownerId'', JStr (lk_owner cfg p)), (''pid'', JNum (lk_pid cfg p)), (''createdAtMs'', JNum now),
      (''updatedAtMs'', JNum now), (''expiresAtMs'', JNum (now + lk_ttlMs cfg))]"

definition isStaleByMtime :: "lock_file option \<Rightarrow> int \<Rightarrow> int \<Rightarrow> bool" where
  "isStaleByMtime file now ttlMs =
     (case file of
        None \<Rightarrow> True
      | Some f \<Rightarrow> (let mtimeMs = (if lf_mtime f \<ge> 0 then lf_mtime f else 0); ageMs = now - mtimeMs
                   in if ageMs < 0 then False else ageMs > ttlMs))"

section \<open>Acquiring\<close>

text \<open>\<open>acquireOnce\<close> takes the host lock first, when one is configured.\<close>

definition begin_acquire :: "lock_config \<Rightarrow> nat \<Rightarrow> lock_world \<Rightarrow> lock_world" where
  "begin_acquire cfg p w =
     (if lk_useHost cfg
      then (case lw_host w of
              None \<Rightarrow> set_phase p Opening (w\<lparr>lw_host := Some p\<rparr>)
            | Some _ \<Rightarrow> set_phase p (Refused Host_held) w)
      else set_phase p Opening w)"

text \<open>\<open>openSync\<close> with \<open>wx\<close>: the file is created empty, or there is one. \<open>ok\<close> says that no other error happens.\<close>

definition open_lock :: "int \<Rightarrow> nat \<Rightarrow> bool \<Rightarrow> lock_world \<Rightarrow> lock_world" where
  "open_lock now p ok w =
     (if \<not> ok then leave p (Refused Open_failed) w
      else case lw_file w of
             Some _ \<Rightarrow> set_phase p Checking w
           | None \<Rightarrow> set_phase p (Writing (lw_nextInode w))
               (w\<lparr>lw_file := Some \<lparr>lf_inode = lw_nextInode w, lf_json = JNull, lf_mtime = now, lf_readable = True\<rparr>,
                  lw_nextInode := Suc (lw_nextInode w)\<rparr>))"

definition write_lock :: "lock_config \<Rightarrow> int \<Rightarrow> nat \<Rightarrow> bool \<Rightarrow> nat \<Rightarrow> lock_world \<Rightarrow> lock_world" where
  "write_lock cfg now p ok i w =
     (if \<not> ok then leave p (Refused Write_failed) w
      else set_phase p Held
        (case lw_file w of
           Some f \<Rightarrow> if lf_inode f = i then w\<lparr>lw_file := Some (f\<lparr>lf_json := makeRecord cfg p now, lf_mtime := now\<rparr>)\<rparr> else w
         | None \<Rightarrow> w))"

definition check_lock :: "int \<Rightarrow> nat \<Rightarrow> lock_world \<Rightarrow> lock_world" where
  "check_lock now p w =
     (case lw_file w of
        None \<Rightarrow> set_phase p Opening w
      | Some f \<Rightarrow>
          if \<not> lf_readable f then leave p (Refused Cannot_read) w
          else (case parseNonNegativeSafeInteger (field_of (lf_json f) ''expiresAtMs'') None of
                  Some e \<Rightarrow> if e > 0
                              then (if e \<le> now then set_phase p Breaking w else leave p (Refused Already_held) w)
                              else set_phase p Checking_mtime w
                | None \<Rightarrow> set_phase p Checking_mtime w))"

definition check_mtime :: "lock_config \<Rightarrow> int \<Rightarrow> nat \<Rightarrow> lock_world \<Rightarrow> lock_world" where
  "check_mtime cfg now p w =
     (if isStaleByMtime (lw_file w) now (lk_ttlMs cfg) then set_phase p Breaking w
      else leave p (Refused Already_held) w)"

definition break_lock :: "nat \<Rightarrow> bool \<Rightarrow> lock_world \<Rightarrow> lock_world" where
  "break_lock p ok w =
     (if ok \<and> lw_file w \<noteq> None then set_phase p Opening (w\<lparr>lw_file := None\<rparr>)
      else leave p (Refused Already_held) w)"

section \<open>The heartbeat\<close>

definition beat_read :: "lock_config \<Rightarrow> int \<Rightarrow> nat \<Rightarrow> lock_world \<Rightarrow> lock_phase" where
  "beat_read cfg now p w =
     (case lw_file w of
        None \<Rightarrow> Lost Lost_missing
      | Some f \<Rightarrow>
          if \<not> lf_readable f then Lost Lost_read_failed
          else (case object_fields (lf_json f) of
                  None \<Rightarrow> Lost Lost_corrupt
                | Some cur \<Rightarrow>
                    (let fresh = Beating (AList.update ''expiresAtMs'' (JNum (now + lk_ttlMs cfg))
                           (AList.update ''updatedAtMs'' (JNum now)
                              (AList.update ''pid'' (JNum (lk_pid cfg p))
                                 (AList.update ''ownerId'' (JStr (lk_owner cfg p)) cur))))
                     in if json_truthy (json_field cur ''ownerId'') \<and> json_field cur ''ownerId'' \<noteq> JStr (lk_owner cfg p)
                        then Lost Lost_stolen
                        else (case parseNonNegativeSafeInteger (json_field cur ''updatedAtMs'') None of
                                Some prevUpdated \<Rightarrow>
                                  if prevUpdated > 0 \<and> \<bar>now - prevUpdated\<bar> > lk_ttlMs cfg * 2
                                  then Lost (Lost_clock_drift \<bar>now - prevUpdated\<bar>) else fresh
                              | None \<Rightarrow> fresh))))"

datatype write_outcome = W_done | W_enoent | W_fails

text \<open>\<open>saveJsonAtomic\<close> renames a new file over the path, also when there is none.\<close>

definition beat_write :: "int \<Rightarrow> nat \<Rightarrow> write_outcome \<Rightarrow> (string \<times> json) list \<Rightarrow> lock_world \<Rightarrow> lock_world" where
  "beat_write now p out fs w =
     (case out of
        W_done \<Rightarrow> set_phase p Verifying
          (w\<lparr>lw_file := Some \<lparr>lf_inode = lw_nextInode w, lf_json = JObj fs, lf_mtime = now, lf_readable = True\<rparr>,
             lw_nextInode := Suc (lw_nextInode w)\<rparr>)
      | W_enoent \<Rightarrow> set_phase p (Lost Lost_missing) w
      | W_fails \<Rightarrow> set_phase p (Lost Lost_write_failed) w)"

definition beat_verify :: "lock_config \<Rightarrow> nat \<Rightarrow> lock_world \<Rightarrow> lock_phase" where
  "beat_verify cfg p w =
     (case lw_file w of
        None \<Rightarrow> Held
      | Some f \<Rightarrow>
          if lf_readable f \<and> json_truthy (lf_json f) \<and> field_of (lf_json f) ''ownerId'' \<noteq> JStr (lk_owner cfg p)
          then Lost Lost_overwritten else Held)"

section \<open>Releasing\<close>

definition release_read :: "lock_config \<Rightarrow> nat \<Rightarrow> lock_world \<Rightarrow> lock_world" where
  "release_read cfg p w =
     (case lw_file w of
        None \<Rightarrow> leave p Released w
      | Some f \<Rightarrow>
          if lf_readable f \<and> object_fields (lf_json f) \<noteq> None \<and> field_of (lf_json f) ''ownerId'' = JStr (lk_owner cfg p)
          then set_phase p Unlinking w else leave p Released w)"

definition release_unlink :: "nat \<Rightarrow> bool \<Rightarrow> lock_world \<Rightarrow> lock_world" where
  "release_unlink p ok w = leave p Released (if ok then w\<lparr>lw_file := None\<rparr> else w)"

section \<open>Interleaving\<close>

datatype lock_act =
  A_begin | A_open bool | A_write bool | A_check | A_mtime | A_break bool
| A_beat | A_beat_write write_outcome | A_verify | A_release | A_unlink bool | A_crash

text \<open>One operation of an attempt; \<open>None\<close> when it is not the next one.\<close>

definition lock_op :: "lock_config \<Rightarrow> int \<Rightarrow> nat \<Rightarrow> lock_act \<Rightarrow> lock_world \<Rightarrow> lock_world option" where
  "lock_op cfg now p act w =
     (let ph = lw_phase w p in
      case act of
        A_begin \<Rightarrow> if ph = Idle then Some (begin_acquire cfg p w) else None
      | A_open ok \<Rightarrow> if ph = Opening then Some (open_lock now p ok w) else None
      | A_write ok \<Rightarrow> (case ph of Writing i \<Rightarrow> Some (write_lock cfg now p ok i w) | _ \<Rightarrow> None)
      | A_check \<Rightarrow> if ph = Checking then Some (check_lock now p w) else None
      | A_mtime \<Rightarrow> if ph = Checking_mtime then Some (check_mtime cfg now p w) else None
      | A_break ok \<Rightarrow> if ph = Breaking then Some (break_lock p ok w) else None
      | A_beat \<Rightarrow> if ph = Held then Some (set_phase p (beat_read cfg now p w) w) else None
      | A_beat_write out \<Rightarrow> (case ph of Beating fs \<Rightarrow> Some (beat_write now p out fs w) | _ \<Rightarrow> None)
      | A_verify \<Rightarrow> if ph = Verifying then Some (set_phase p (beat_verify cfg p w) w) else None
      | A_release \<Rightarrow>
          (case ph of Held \<Rightarrow> Some (release_read cfg p w) | Lost _ \<Rightarrow> Some (leave p Released w) | _ \<Rightarrow> None)
      | A_unlink ok \<Rightarrow> if ph = Unlinking then Some (release_unlink p ok w) else None
      | A_crash \<Rightarrow> (case ph of Idle \<Rightarrow> None | Released \<Rightarrow> None | Refused _ \<Rightarrow> None
                    | _ \<Rightarrow> Some (leave p (Refused Crashed) w)))"

text \<open>\<open>brk\<close> says in which states an attempt may carry out the removal of a lock it found stale.\<close>

inductive lock_reach :: "lock_config \<Rightarrow> (lock_world \<Rightarrow> bool) \<Rightarrow> lock_world \<Rightarrow> lock_world \<Rightarrow> bool" for cfg brk w0 where
  lock_reach_init: "lock_reach cfg brk w0 w0"
| lock_reach_step: "lock_reach cfg brk w0 w \<Longrightarrow> lock_op cfg now p act w = Some w' \<Longrightarrow>
    (\<forall>ok. act = A_break ok \<longrightarrow> brk w) \<Longrightarrow> lock_reach cfg brk w0 w'"

definition all_idle :: "lock_world \<Rightarrow> bool" where
  "all_idle w \<longleftrightarrow> lw_host w = None \<and> (\<forall>p. lw_phase w p = Idle)"

section \<open>The discipline of a lock\<close>

text \<open>
  What an exclusive lock needs: a state predicate that every operation keeps, as long as locks are broken only where
  the policy allows it, and under which at most one attempt is active.
\<close>

locale lock_discipline =
  fixes good :: "lock_config \<Rightarrow> lock_world \<Rightarrow> bool"
    and policy :: "lock_world \<Rightarrow> bool"
    and active :: "lock_phase \<Rightarrow> bool"
  assumes good_step: "good cfg w \<Longrightarrow> lock_op cfg now p act w = Some w' \<Longrightarrow> (\<forall>ok. act = A_break ok \<longrightarrow> policy w) \<Longrightarrow> good cfg w'"
    and good_exclusive: "good cfg w \<Longrightarrow> active (lw_phase w p) \<Longrightarrow> active (lw_phase w q) \<Longrightarrow> p = q"
begin

lemma reach_good: "lock_reach cfg policy w0 w \<Longrightarrow> good cfg w0 \<Longrightarrow> good cfg w"
  by (induction rule: lock_reach.induct) (auto intro: good_step)

lemma reach_exclusive:
  "lock_reach cfg policy w0 w \<Longrightarrow> good cfg w0 \<Longrightarrow> active (lw_phase w p) \<Longrightarrow> active (lw_phase w q) \<Longrightarrow> p = q"
  using reach_good good_exclusive by blast

end

lemma phase_set [simp]: "lw_phase (set_phase p ph w) = (lw_phase w)(p := ph)"
  "lw_file (set_phase p ph w) = lw_file w" "lw_host (set_phase p ph w) = lw_host w"
  "lw_nextInode (set_phase p ph w) = lw_nextInode w"
  by (simp_all add: set_phase_def)

lemma phase_leave [simp]: "lw_phase (leave p ph w) = (lw_phase w)(p := ph)" "lw_file (leave p ph w) = lw_file w"
  "lw_host (leave p ph w) = (if lw_host w = Some p then None else lw_host w)" "lw_nextInode (leave p ph w) = lw_nextInode w"
  by (simp_all add: leave_def)

text \<open>The attempts that own the file, and what the file then is.\<close>

definition owning :: "lock_phase \<Rightarrow> bool" where
  "owning ph \<longleftrightarrow> (case ph of Writing _ \<Rightarrow> True | Held \<Rightarrow> True | Beating _ \<Rightarrow> True | Verifying \<Rightarrow> True
     | Unlinking \<Rightarrow> True | _ \<Rightarrow> False)"

definition owned_file :: "string \<Rightarrow> lock_phase \<Rightarrow> lock_file \<Rightarrow> bool" where
  "owned_file owner ph f \<longleftrightarrow> lf_readable f \<and>
     (case ph of Writing i \<Rightarrow> lf_inode f = i | _ \<Rightarrow> field_of (lf_json f) ''ownerId'' = JStr owner)"

definition beat_named :: "string \<Rightarrow> lock_phase \<Rightarrow> bool" where
  "beat_named owner ph \<longleftrightarrow> (case ph of Beating fs \<Rightarrow> json_field fs ''ownerId'' = JStr owner | _ \<Rightarrow> True)"

definition lock_ok :: "lock_config \<Rightarrow> lock_world \<Rightarrow> bool" where
  "lock_ok cfg w \<longleftrightarrow>
     (\<forall>p q. owning (lw_phase w p) \<longrightarrow> owning (lw_phase w q) \<longrightarrow> p = q)
   \<and> (\<forall>p. owning (lw_phase w p) \<longrightarrow> (\<exists>f. lw_file w = Some f \<and> owned_file (lk_owner cfg p) (lw_phase w p) f))
   \<and> (\<forall>p. beat_named (lk_owner cfg p) (lw_phase w p))"

definition no_owner :: "lock_world \<Rightarrow> bool" where
  "no_owner w \<longleftrightarrow> (\<forall>p. \<not> owning (lw_phase w p))"

lemmas phase_defs = owning_def owned_file_def beat_named_def

lemma owning_simps [simp]:
  "\<not> owning Idle" "\<not> owning Opening" "owning (Writing i)" "\<not> owning Checking" "\<not> owning Checking_mtime" "\<not> owning Breaking"
  "owning Held" "owning (Beating fs)" "owning Verifying" "owning Unlinking" "\<not> owning Released" "\<not> owning (Lost r)" "\<not> owning (Refused e)"
  by (simp_all add: owning_def)

lemma beat_named_simps [simp]:
  "beat_named x (Beating fs) \<longleftrightarrow> json_field fs ''ownerId'' = JStr x" "(\<forall>fs. ph \<noteq> Beating fs) \<Longrightarrow> beat_named x ph"
  by (auto simp: beat_named_def split: lock_phase.split)

text \<open>An attempt that goes to a phase in which it owns nothing.\<close>

lemma lock_ok_drop:
  assumes "lock_ok cfg w" "\<not> owning ph" "lw_phase w' = (lw_phase w)(p := ph)" "lw_file w' = lw_file w"
  shows "lock_ok cfg w'"
proof -
  have "beat_named (lk_owner cfg p) ph" using assms(2) by (cases ph) auto
  then show ?thesis using assms unfolding lock_ok_def by auto
qed

text \<open>The only owner, or an attempt that finds no file, goes to a phase in which it owns the file.\<close>

lemma lock_ok_own:
  assumes "lock_ok cfg w" "owning (lw_phase w p) \<or> lw_file w = None" "lw_phase w' = (lw_phase w)(p := ph)"
    and "lw_file w' = Some f" "owned_file (lk_owner cfg p) ph f" "beat_named (lk_owner cfg p) ph"
  shows "lock_ok cfg w'"
proof -
  have "\<not> owning (lw_phase w q)" if "q \<noteq> p" for q
    using assms(1,2) that unfolding lock_ok_def by (metis option.distinct(1))
  then show ?thesis using assms unfolding lock_ok_def by auto
qed

text \<open>The file goes while nobody else owns it.\<close>

lemma lock_ok_remove:
  assumes "lock_ok cfg w" "\<And>q. q \<noteq> p \<Longrightarrow> \<not> owning (lw_phase w q)" "\<not> owning ph"
    and "lw_phase w' = (lw_phase w)(p := ph)"
  shows "lock_ok cfg w'"
proof -
  have "beat_named (lk_owner cfg p) ph" using assms(3) by (cases ph) auto
  then show ?thesis using assms unfolding lock_ok_def by auto
qed

lemma lock_ok_others: "lock_ok cfg w \<Longrightarrow> owning (lw_phase w p) \<Longrightarrow> q \<noteq> p \<Longrightarrow> \<not> owning (lw_phase w q)"
  unfolding lock_ok_def by blast

lemma lock_ok_file:
  "lock_ok cfg w \<Longrightarrow> owning (lw_phase w p) \<Longrightarrow> \<exists>f. lw_file w = Some f \<and> owned_file (lk_owner cfg p) (lw_phase w p) f"
  unfolding lock_ok_def by blast

lemma set_phase_ok [simp]: "lock_ok cfg w \<Longrightarrow> \<not> owning ph \<Longrightarrow> lock_ok cfg (set_phase p ph w)"
  by (erule (1) lock_ok_drop) simp_all

lemma leave_ok [simp]: "lock_ok cfg w \<Longrightarrow> \<not> owning ph \<Longrightarrow> lock_ok cfg (leave p ph w)"
  by (erule (1) lock_ok_drop) simp_all

lemma set_phase_own:
  assumes "lock_ok cfg w" "owning (lw_phase w p)" "lw_file w = Some f" "owned_file (lk_owner cfg p) ph f" "beat_named (lk_owner cfg p) ph"
  shows "lock_ok cfg (set_phase p ph w)"
  using assms(1) disjI1 [OF assms(2)] _ _ assms(4,5) by (rule lock_ok_own) (simp_all add: assms(3))

lemma json_field_update: "json_field (AList.update k v fs) j = (if j = k then v else json_field fs j)"
  by (simp add: json_field_def update_conv)

lemma makeRecord_fields:
  "field_of (makeRecord cfg p now) ''ownerId'' = JStr (lk_owner cfg p)"
  "field_of (makeRecord cfg p now) ''expiresAtMs'' = JNum (now + lk_ttlMs cfg)"
  by (simp_all add: makeRecord_def field_of_def json_field_def)

lemma open_lock_ok: "lock_ok cfg w \<Longrightarrow> lock_ok cfg (open_lock now p ok w)"
  unfolding open_lock_def
  by (auto split: option.split intro: lock_ok_own [where p = p and ph = "Writing (lw_nextInode w)"] simp: owned_file_def)

lemma write_lock_ok:
  assumes "lock_ok cfg w" "lw_phase w p = Writing i"
  shows "lock_ok cfg (write_lock cfg now p ok i w)"
proof (cases ok)
  case True
  obtain f where f: "lw_file w = Some f" "lf_readable f" "lf_inode f = i"
    using lock_ok_file [OF assms(1), of p] assms(2) by (auto simp: owned_file_def)
  show ?thesis
    by (rule lock_ok_own [OF assms(1), where p = p and ph = Held and f = "f\<lparr>lf_json := makeRecord cfg p now, lf_mtime := now\<rparr>"])
      (simp_all add: write_lock_def owned_file_def makeRecord_fields True f assms(2))
qed (simp add: write_lock_def assms(1))

lemma check_lock_ok: "lock_ok cfg w \<Longrightarrow> lock_ok cfg (check_lock now p w)"
  by (simp add: check_lock_def split: option.split)

lemma check_mtime_ok: "lock_ok cfg w \<Longrightarrow> lock_ok cfg (check_mtime cfg now p w)"
  by (simp add: check_mtime_def)

lemma break_lock_ok:
  assumes "lock_ok cfg w" "no_owner w"
  shows "lock_ok cfg (break_lock p ok w)"
proof (cases "ok \<and> lw_file w \<noteq> None")
  case True
  show ?thesis
    by (rule lock_ok_remove [OF assms(1), where p = p and ph = Opening]) (use assms(2) True in \<open>simp_all add: break_lock_def no_owner_def\<close>)
next
  case False
  then have "break_lock p ok w = leave p (Refused Already_held) w" by (auto simp: break_lock_def)
  then show ?thesis using assms(1) by simp
qed

lemma held_fields:
  assumes "lock_ok cfg w" "lw_phase w p = Held"
  obtains f fs where "lw_file w = Some f" "lf_readable f" "lf_json f = JObj fs" "json_field fs ''ownerId'' = JStr (lk_owner cfg p)"
proof -
  obtain f where f: "lw_file w = Some f" "lf_readable f" "field_of (lf_json f) ''ownerId'' = JStr (lk_owner cfg p)"
    using lock_ok_file [OF assms(1), of p] assms(2) by (auto simp: owned_file_def)
  then show thesis using that by (cases "lf_json f") (simp_all add: field_of_def)
qed

lemma beat_read_ok:
  assumes "lock_ok cfg w" "lw_phase w p = Held"
  shows "lock_ok cfg (set_phase p (beat_read cfg now p w) w)"
proof -
  obtain f fs where f: "lw_file w = Some f" "lf_readable f" "lf_json f = JObj fs" "json_field fs ''ownerId'' = JStr (lk_owner cfg p)"
    using assms by (rule held_fields)
  have "(\<exists>r. beat_read cfg now p w = Lost r)
      \<or> (\<exists>gs. beat_read cfg now p w = Beating gs \<and> json_field gs ''ownerId'' = JStr (lk_owner cfg p))"
    using f by (simp add: beat_read_def object_fields_def json_field_update Let_def split: option.split)
  then show ?thesis
  proof (elim disjE exE conjE)
    fix gs assume b: "beat_read cfg now p w = Beating gs" "json_field gs ''ownerId'' = JStr (lk_owner cfg p)"
    show ?thesis unfolding b(1)
      by (rule set_phase_own [OF assms(1) _ f(1)]) (simp_all add: assms(2) f owned_file_def field_of_def b(2))
  qed (simp add: assms(1))
qed

lemma beat_write_ok:
  assumes "lock_ok cfg w" "lw_phase w p = Beating fs"
  shows "lock_ok cfg (beat_write now p out fs w)"
proof (cases out)
  case W_done
  have "json_field fs ''ownerId'' = JStr (lk_owner cfg p)"
    using assms unfolding lock_ok_def by (metis beat_named_simps(1))
  then show ?thesis unfolding W_done
    by (intro lock_ok_own [OF assms(1), where p = p and ph = Verifying
          and f = "\<lparr>lf_inode = lw_nextInode w, lf_json = JObj fs, lf_mtime = now, lf_readable = True\<rparr>"])
      (simp_all add: beat_write_def owned_file_def field_of_def assms(2))
qed (simp_all add: beat_write_def assms(1))

lemma beat_verify_ok:
  assumes "lock_ok cfg w" "lw_phase w p = Verifying"
  shows "lock_ok cfg (set_phase p (beat_verify cfg p w) w)"
proof -
  obtain f where f: "lw_file w = Some f" "lf_readable f" "field_of (lf_json f) ''ownerId'' = JStr (lk_owner cfg p)"
    using lock_ok_file [OF assms(1), of p] assms(2) by (auto simp: owned_file_def)
  then have b: "beat_verify cfg p w = Held" by (simp add: beat_verify_def)
  show ?thesis unfolding b
    by (rule set_phase_own [OF assms(1) _ f(1)]) (simp_all add: assms(2) f owned_file_def)
qed

lemma release_read_ok:
  assumes "lock_ok cfg w" "lw_phase w p = Held"
  shows "lock_ok cfg (release_read cfg p w)"
proof -
  obtain f fs where f: "lw_file w = Some f" "lf_readable f" "lf_json f = JObj fs" "json_field fs ''ownerId'' = JStr (lk_owner cfg p)"
    using assms by (rule held_fields)
  then have r: "release_read cfg p w = set_phase p Unlinking w"
    by (simp add: release_read_def field_of_def object_fields_def)
  show ?thesis unfolding r
    by (rule set_phase_own [OF assms(1) _ f(1)]) (simp_all add: assms(2) f owned_file_def field_of_def)
qed

lemma release_unlink_ok:
  assumes "lock_ok cfg w" "lw_phase w p = Unlinking"
  shows "lock_ok cfg (release_unlink p ok w)"
  by (rule lock_ok_remove [OF assms(1), where p = p and ph = Released])
    (use lock_ok_others [OF assms(1), of p] assms(2) in \<open>simp_all add: release_unlink_def\<close>)

lemmas file_ops_ok = open_lock_ok write_lock_ok check_lock_ok check_mtime_ok break_lock_ok beat_read_ok beat_write_ok
  beat_verify_ok release_read_ok release_unlink_ok

lemma lock_ok_host [simp]: "lock_ok cfg (w\<lparr>lw_host := h\<rparr>) \<longleftrightarrow> lock_ok cfg w"
  by (simp add: lock_ok_def)

lemma begin_acquire_ok: "lock_ok cfg w \<Longrightarrow> lock_ok cfg (begin_acquire cfg p w)"
  by (simp add: begin_acquire_def split: option.split)

lemma lock_ok_step:
  "lock_ok cfg w \<Longrightarrow> lock_op cfg now p act w = Some w' \<Longrightarrow> (\<forall>ok. act = A_break ok \<longrightarrow> no_owner w) \<Longrightarrow> lock_ok cfg w'"
  by (auto simp: lock_op_def Let_def begin_acquire_ok file_ops_ok split: lock_act.splits lock_phase.splits if_splits)

text \<open>The file lock keeps the discipline when nothing is removed under an owner.\<close>

interpretation file_lock: lock_discipline lock_ok no_owner owning
  by unfold_locales (rule lock_ok_step, assumption+, auto simp: lock_ok_def)

text \<open>The attempts that take part: with the host lock, the one that holds it.\<close>

definition contending :: "lock_phase \<Rightarrow> bool" where
  "contending ph \<longleftrightarrow> (case ph of Idle \<Rightarrow> False | Released \<Rightarrow> False | Refused _ \<Rightarrow> False | _ \<Rightarrow> True)"

definition host_ok :: "lock_config \<Rightarrow> lock_world \<Rightarrow> bool" where
  "host_ok cfg w \<longleftrightarrow> lk_useHost cfg \<and> (\<forall>p. contending (lw_phase w p) \<longrightarrow> lw_host w = Some p)"

lemma host_ok_leave: "host_ok cfg w \<Longrightarrow> \<not> contending ph \<Longrightarrow> host_ok cfg (leave p ph w)"
  unfolding host_ok_def by (metis fun_upd_apply option.inject phase_leave(1,3))

lemma host_ok_set: "host_ok cfg w \<Longrightarrow> contending (lw_phase w p) \<Longrightarrow> host_ok cfg (set_phase p ph w)"
  unfolding host_ok_def by (metis fun_upd_apply option.inject phase_set(1,3))

lemma host_ok_file [simp]: "host_ok cfg (w\<lparr>lw_file := f\<rparr>) \<longleftrightarrow> host_ok cfg w"
  "host_ok cfg (w\<lparr>lw_nextInode := n\<rparr>) \<longleftrightarrow> host_ok cfg w"
  "lw_phase (w\<lparr>lw_file := f\<rparr>) = lw_phase w" "lw_phase (w\<lparr>lw_nextInode := n\<rparr>) = lw_phase w"
  by (simp_all add: host_ok_def)

lemma contending_simps [simp]:
  "\<not> contending Idle" "\<not> contending Released" "\<not> contending (Refused e)" "contending Opening" "contending (Writing i)"
  "contending Checking" "contending Checking_mtime" "contending Breaking" "contending Held" "contending (Beating fs)"
  "contending Verifying" "contending Unlinking" "contending (Lost r)"
  by (simp_all add: contending_def)

lemma host_ok_begin: "host_ok cfg w \<Longrightarrow> lw_phase w p = Idle \<Longrightarrow> host_ok cfg (begin_acquire cfg p w)"
  by (auto simp: host_ok_def begin_acquire_def split: option.split)

lemma host_ok_step: "host_ok cfg w \<Longrightarrow> lock_op cfg now p act w = Some w' \<Longrightarrow> host_ok cfg w'"
  by (auto simp: lock_op_def Let_def host_ok_begin host_ok_leave host_ok_set open_lock_def write_lock_def check_lock_def
    check_mtime_def break_lock_def beat_write_def release_read_def release_unlink_def
    split: lock_act.splits lock_phase.splits if_splits option.splits write_outcome.splits)

text \<open>The host lock keeps the discipline without any condition on breaking.\<close>

interpretation host_lock: lock_discipline host_ok "\<lambda>_. True" contending
  by unfold_locales (rule host_ok_step, assumption+, metis host_ok_def option.inject)

lemma isHeld_owning: "isHeld ph \<Longrightarrow> owning ph" and isHeld_contending: "isHeld ph \<Longrightarrow> contending ph"
  by (auto simp: isHeld_def split: lock_phase.splits)

lemma all_idle_ok: "all_idle w \<Longrightarrow> lock_ok cfg w" "all_idle w \<Longrightarrow> lk_useHost cfg \<Longrightarrow> host_ok cfg w"
  by (simp_all add: all_idle_def lock_ok_def host_ok_def)

section \<open>Runs\<close>

fun lock_run :: "lock_config \<Rightarrow> (int \<times> nat \<times> lock_act) list \<Rightarrow> lock_world \<Rightarrow> lock_world option" where
  "lock_run cfg [] w = Some w"
| "lock_run cfg ((now, p, act) # ops) w =
     (case lock_op cfg now p act w of None \<Rightarrow> None | Some w' \<Rightarrow> lock_run cfg ops w')"

lemma lock_run_reach: "lock_run cfg ops w = Some w' \<Longrightarrow> lock_reach cfg (\<lambda>_. True) w0 w \<Longrightarrow> lock_reach cfg (\<lambda>_. True) w0 w'"
proof (induction cfg ops w rule: lock_run.induct)
  case (2 cfg now p act ops w)
  then show ?case by (auto intro: lock_reach_step split: option.splits)
qed simp

text \<open>A whole beat of a holder, with nothing in between.\<close>

definition full_beat :: "lock_config \<Rightarrow> int \<Rightarrow> nat \<Rightarrow> lock_world \<Rightarrow> lock_world" where
  "full_beat cfg now p w =
     (case beat_read cfg now p w of
        Beating fs \<Rightarrow> (let w = beat_write now p W_done fs w in set_phase p (beat_verify cfg p w) w)
      | ph \<Rightarrow> set_phase p ph w)"

section \<open>Properties\<close>

text \<open>
  C36. From a start with any file left behind, at most one attempt holds the lock, and the file is readable and names
  the holder as its owner, in every interleaving in which no attempt removes the file, having found it stale, while
  another owns it. Crashes, failing calls and clocks are unrestricted.
\<close>

theorem file_lock_exclusive:
  assumes "lock_reach cfg no_owner w0 w" "all_idle w0" "isHeld (lw_phase w p)"
  shows "(\<forall>q. isHeld (lw_phase w q) \<longrightarrow> q = p)
    \<and> (\<exists>f. lw_file w = Some f \<and> lf_readable f \<and> field_of (lf_json f) ''ownerId'' = JStr (lk_owner cfg p))"
proof -
  have ok: "lock_ok cfg w" using assms(1) all_idle_ok(1) [OF assms(2)] by (rule file_lock.reach_good)
  have "owned_file x (lw_phase w p) f \<longleftrightarrow> lf_readable f \<and> field_of (lf_json f) ''ownerId'' = JStr x" for x f
    using assms(3) by (auto simp: isHeld_def owned_file_def split: lock_phase.splits)
  then show ?thesis
    using file_lock.good_exclusive [OF ok] lock_ok_file [OF ok, of p] isHeld_owning assms(3) by metis
qed

text \<open>
  C37. With the host lock at most one attempt takes part at all, whatever happens to the file and however locks are
  broken, so at most one holds the lock.
\<close>

theorem host_lock_exclusive:
  assumes "lock_reach cfg (\<lambda>_. True) w0 w" "all_idle w0" "lk_useHost cfg"
    and "contending (lw_phase w p)" "contending (lw_phase w q)"
  shows "p = q"
  using assms(1) all_idle_ok(2) [OF assms(2,3)] assms(4,5) by (rule host_lock.reach_exclusive)

text \<open>
  Without the host lock the file does not exclude: from any start with an expired lock left behind, two attempts
  can both come to hold the lock, all calls succeeding and no time passing. The second removes the new lock of the
  first, on the strength of the old lock that it read.
\<close>

theorem two_holders_reachable:
  assumes "all_idle w" "\<not> lk_useHost cfg" "lw_file w = Some f" "lf_readable f"
    and "parseNonNegativeSafeInteger (field_of (lf_json f) ''expiresAtMs'') None = Some e" "0 < e" "e \<le> now" "p \<noteq> q"
  shows "\<exists>w'. lock_reach cfg (\<lambda>_. True) w w' \<and> isHeld (lw_phase w' p) \<and> isHeld (lw_phase w' q)"
proof -
  let ?a = "[(now, p, A_begin), (now, p, A_open True), (now, p, A_check), (now, q, A_begin), (now, q, A_open True), (now, q, A_check)]"
  let ?b = "[(now, p, A_break True), (now, p, A_open True), (now, p, A_write True),
    (now, q, A_break True), (now, q, A_open True), (now, q, A_write True)]"
  have ph: "lw_phase w p = Idle" "lw_phase w q = Idle" using assms(1) by (simp_all add: all_idle_def)
  obtain w1 where w1: "lock_run cfg ?a w = Some w1" "lw_phase w1 p = Breaking" "lw_phase w1 q = Breaking" "lw_file w1 = Some f"
    using assms ph by (auto simp: lock_op_def begin_acquire_def open_lock_def check_lock_def)
  obtain w2 where w2: "lock_run cfg ?b w1 = Some w2" "lw_phase w2 p = Held" "lw_phase w2 q = Held"
    using w1 assms(8) by (auto simp: lock_op_def break_lock_def open_lock_def write_lock_def)
  have "lock_reach cfg (\<lambda>_. True) w w2"
    using lock_run_reach [OF w2(1) lock_run_reach [OF w1(1) lock_reach_init]] .
  then show ?thesis using w2 by (auto simp: isHeld_def)
qed

lemma full_beat_cases:
  "full_beat cfg now p w = set_phase p (beat_read cfg now p w) w \<and> (\<exists>r. beat_read cfg now p w = Lost r)
   \<or> (\<exists>fs. json_field fs ''ownerId'' = JStr (lk_owner cfg p) \<and> json_field fs ''expiresAtMs'' = JNum (now + lk_ttlMs cfg)
       \<and> lw_phase (full_beat cfg now p w) = (lw_phase w)(p := Held)
       \<and> lw_file (full_beat cfg now p w)
         = Some \<lparr>lf_inode = lw_nextInode w, lf_json = JObj fs, lf_mtime = now, lf_readable = True\<rparr>)"
proof (cases "beat_read cfg now p w")
  case (Beating fs)
  then have "json_field fs ''ownerId'' = JStr (lk_owner cfg p)" "json_field fs ''expiresAtMs'' = JNum (now + lk_ttlMs cfg)"
    by (auto simp: beat_read_def Let_def json_field_update split: option.splits if_splits)
  then show ?thesis using Beating
    by (intro disjI2 exI [of _ fs]) (simp add: full_beat_def beat_write_def beat_verify_def field_of_def)
qed (auto simp: full_beat_def beat_read_def Let_def split: option.splits if_splits)

text \<open>
  A heartbeat that is not interrupted settles the ownership and renews it: the attempt is then lost, or the file
  names it and every attempt that checks the file before the time to live is over is refused; and if two attempts
  hold the lock, one of them has lost it after a heartbeat of each, whatever the file says.
\<close>

theorem heartbeat_settles:
  assumes "0 \<le> now" "0 < lk_ttlMs cfg" "now + lk_ttlMs cfg \<le> MAX_SAFE_INTEGER" "lk_owner cfg q \<noteq> lk_owner cfg p" "lk_owner cfg p \<noteq> []"
  shows "(isHeld (lw_phase (full_beat cfg now p w) p) \<longrightarrow>
      (\<forall>later r. lw_phase w r = Checking \<longrightarrow> r \<noteq> p \<longrightarrow> later < now + lk_ttlMs cfg \<longrightarrow>
        lw_phase (check_lock later r (full_beat cfg now p w)) r = Refused Already_held))
    \<and> \<not> (isHeld (lw_phase (full_beat cfg nxt q (full_beat cfg now p w)) p)
       \<and> isHeld (lw_phase (full_beat cfg nxt q (full_beat cfg now p w)) q))"
  (is "?A \<and> \<not> ?B")
proof -
  let ?w = "full_beat cfg now p w"
  consider (lost) r where "lw_phase ?w p = Lost r"
    | (held) fs where "json_field fs ''ownerId'' = JStr (lk_owner cfg p)" "json_field fs ''expiresAtMs'' = JNum (now + lk_ttlMs cfg)"
      "lw_file ?w = Some \<lparr>lf_inode = lw_nextInode w, lf_json = JObj fs, lf_mtime = now, lf_readable = True\<rparr>"
    using full_beat_cases [of cfg now p w] by fastforce
  then show ?thesis
  proof cases
    case lost
    have pq: "p \<noteq> q" using assms(4) by auto
    have "lw_phase (full_beat cfg nxt q ?w) p = Lost r"
      using full_beat_cases [of cfg nxt q ?w] lost pq by auto
    then show ?thesis using lost by (simp add: isHeld_def)
  next
    case held
    have "beat_read cfg nxt q ?w = Lost Lost_stolen"
      using held assms(4,5) by (auto simp: beat_read_def object_fields_def)
    then have "full_beat cfg nxt q ?w = set_phase q (Lost Lost_stolen) ?w" by (simp add: full_beat_def)
    moreover have ?A using held assms(1-3) by (simp add: check_lock_def field_of_def)
    ultimately show ?thesis by (simp add: isHeld_def)
  qed
qed

section \<open>Waiting for the lock\<close>

datatype try_outcome = Try_acquired | Try_taken | Try_throws

datatype wait_outcome = Lock_acquired nat | Lock_throws | Lock_gave_up nat

definition normalizeKeeperWaitForLockSecs :: "json \<Rightarrow> int" where
  "normalizeKeeperWaitForLockSecs v = (case parseNonNegativeSafeInteger v (Some 0) of Some n \<Rightarrow> n | None \<Rightarrow> 0)"

definition maxAttemptsOf :: "int \<Rightarrow> nat" where
  "maxAttemptsOf waitMs = nat (if waitMs > 0 then max 1 (((waitMs + 999) div 1000) * 2) else 0)"

definition lockBackoffMs :: "int \<Rightarrow> nat \<Rightarrow> int" where
  "lockBackoffMs waitMs attempt = min waitMs (1000 * 2 ^ min (attempt - 1) 6)"

text \<open>The loop after \<open>attempt\<close> refusals: the outcome and the waits between the attempts.\<close>

function acquireLoop :: "int \<Rightarrow> nat \<Rightarrow> (nat \<Rightarrow> try_outcome) \<Rightarrow> nat \<Rightarrow> wait_outcome \<times> int list" where
  "acquireLoop waitMs maxAttempts tries attempt =
     (case tries attempt of
        Try_acquired \<Rightarrow> (Lock_acquired (Suc attempt), [])
      | Try_throws \<Rightarrow> (Lock_throws, [])
      | Try_taken \<Rightarrow>
          (let attempt = Suc attempt in
           if attempt \<ge> maxAttempts then (Lock_gave_up attempt, [])
           else (let (res, waits) = acquireLoop waitMs maxAttempts tries attempt
                 in (res, lockBackoffMs waitMs attempt # waits))))"
  by pat_completeness auto
termination
  by (relation "measure (\<lambda>(_, maxAttempts, _, attempt). maxAttempts - attempt)") auto

declare acquireLoop.simps [simp del]

definition acquireLockMaybeWait :: "json \<Rightarrow> (nat \<Rightarrow> try_outcome) \<Rightarrow> wait_outcome \<times> int list" where
  "acquireLockMaybeWait waitForLock tries =
     (let waitMs = normalizeKeeperWaitForLockSecs waitForLock * 1000 in
      if waitMs = 0
      then (case tries 0 of Try_acquired \<Rightarrow> (Lock_acquired 1, []) | Try_taken \<Rightarrow> (Lock_throws, []) | Try_throws \<Rightarrow> (Lock_throws, []))
      else acquireLoop waitMs (maxAttemptsOf waitMs) tries 0)"

lemma acquireLoop_taken:
  "acquireLoop waitMs (Suc (n + attempt)) (\<lambda>_. Try_taken) attempt
    = (Lock_gave_up (Suc (n + attempt)), map (lockBackoffMs waitMs) [Suc attempt ..< Suc (n + attempt)])"
proof (induction n arbitrary: attempt)
  case 0
  show ?case by (simp add: acquireLoop.simps [of _ _ _ attempt])
next
  case (Suc n)
  have "[Suc attempt ..< Suc (Suc n + attempt)] = Suc attempt # [Suc (Suc attempt) ..< Suc (n + Suc attempt)]"
    by (simp add: upt_conv_Cons del: upt_Suc)
  then show ?case using Suc.IH [of "Suc attempt"]
    by (subst acquireLoop.simps) (simp del: upt_Suc)
qed

lemma acquireLoop_bound:
  "attempt < maxAttempts \<Longrightarrow> length (snd (acquireLoop waitMs maxAttempts tries attempt)) < maxAttempts - attempt
     \<and> (\<forall>ms \<in> set (snd (acquireLoop waitMs maxAttempts tries attempt)). ms \<le> waitMs)"
proof (induction waitMs maxAttempts tries attempt rule: acquireLoop.induct)
  case (1 waitMs maxAttempts tries attempt)
  show ?case
  proof (cases "tries attempt = Try_taken \<and> Suc attempt < maxAttempts")
    case True
    then show ?thesis using 1(1) [OF _ refl]
      by (subst (1 2) acquireLoop.simps) (auto simp: lockBackoffMs_def split: prod.split)
  next
    case False
    then show ?thesis using 1(2)
      by (subst (1 2) acquireLoop.simps) (auto split: try_outcome.split)
  qed
qed

text \<open>
  The wait for the lock ends after at most twice as many attempts as seconds were asked for, and no single wait is
  longer than the time asked for; but the waits are not counted against it: when the lock stays taken, they add up
  to more than that time for every budget above one second, and they are only as many as the attempts allow.
\<close>

theorem lock_wait_exceeds_budget:
  assumes "1 < secs" "secs \<le> 3600"
  shows "length (snd (acquireLockMaybeWait (JNum secs) tries)) < nat (2 * secs)
    \<and> (\<forall>ms \<in> set (snd (acquireLockMaybeWait (JNum secs) tries)). ms \<le> secs * 1000)
    \<and> fst (acquireLockMaybeWait (JNum secs) (\<lambda>_. Try_taken)) = Lock_gave_up (nat (2 * secs))
    \<and> secs * 1000 < sum_list (snd (acquireLockMaybeWait (JNum secs) (\<lambda>_. Try_taken)))"
proof -
  have n: "normalizeKeeperWaitForLockSecs (JNum secs) = secs"
    using assms by (simp add: normalizeKeeperWaitForLockSecs_def parse_num MAX_SAFE_INTEGER_def)
  have m: "maxAttemptsOf (secs * 1000) = nat (2 * secs)" using assms by (simp add: maxAttemptsOf_def)
  define k where "k = nat (2 * secs - 1)"
  have k: "nat (2 * secs) = Suc (k + 0)" "2 * secs = int k + 1"
    using assms by (auto simp: k_def)
  have l: "acquireLockMaybeWait (JNum secs) t = acquireLoop (secs * 1000) (Suc (k + 0)) t 0" for t
    using assms n m k by (simp add: acquireLockMaybeWait_def Let_def)
  have "int k * 1000 \<le> sum_list (map (lockBackoffMs (secs * 1000)) [1 ..< Suc k])"
  proof -
    have "1000 \<le> lockBackoffMs (secs * 1000) j" for j using assms by (simp add: lockBackoffMs_def)
    then have "sum_list (map (\<lambda>_. 1000) [1 ..< Suc k]) \<le> sum_list (map (lockBackoffMs (secs * 1000)) [1 ..< Suc k])"
      by (intro sum_list_mono) simp
    then show ?thesis by (simp add: sum_list_triv mult.commute del: upt_Suc)
  qed
  moreover have "secs * 1000 < int k * 1000" using k(2) assms by linarith
  ultimately show ?thesis
    using acquireLoop_bound [of 0 "Suc (k + 0)" "secs * 1000" tries] acquireLoop_taken [of "secs * 1000" k 0] k
    unfolding l by (simp del: upt_Suc)
qed

section \<open>Witnesses\<close>

definition sample_lock_config :: "bool \<Rightarrow> lock_config" where
  "sample_lock_config host = \<lparr>lk_owner = (\<lambda>p. ''id'' @ nat_string p), lk_pid = int, lk_ttlMs = 600000, lk_useHost = host\<rparr>"

definition sample_lock_world :: "lock_file option \<Rightarrow> lock_world" where
  "sample_lock_world f = \<lparr>lw_file = f, lw_nextInode = 5, lw_host = None, lw_phase = (\<lambda>_. Idle)\<rparr>"

definition stale_file :: lock_file where
  "stale_file = \<lparr>lf_inode = 1, lf_json = JObj [(''ownerId'', JStr ''old''), (''expiresAtMs'', JNum 900)], lf_mtime = 300, lf_readable = True\<rparr>"

lemma sample_idle: "all_idle (sample_lock_world f)"
  by (simp add: all_idle_def sample_lock_world_def)

theorem two_holders_witness:
  "\<exists>w'. lock_reach (sample_lock_config False) (\<lambda>_. True) (sample_lock_world (Some stale_file)) w'
    \<and> isHeld (lw_phase w' 0) \<and> isHeld (lw_phase w' 1)"
  by (rule two_holders_reachable [OF sample_idle, where f = stale_file and e = 900 and now = 1000])
    (simp_all add: sample_lock_config_def sample_lock_world_def stale_file_def field_of_def json_field_def parse_num MAX_SAFE_INTEGER_def)

text \<open>A run in which one attempt acquires the lock and another finds it held.\<close>

lemma sample_acquire:
  "\<exists>w. lock_reach (sample_lock_config host) pol (sample_lock_world None) w \<and> lw_phase w 0 = Held"
proof -
  let ?cfg = "sample_lock_config host" and ?w = "sample_lock_world None"
  obtain w1 where w1: "lock_op ?cfg 1000 0 A_begin ?w = Some w1" "lw_phase w1 0 = Opening" "lw_file w1 = None"
    by (simp add: lock_op_def sample_lock_world_def begin_acquire_def)
  obtain w2 i where w2: "lock_op ?cfg 1000 0 (A_open True) w1 = Some w2" "lw_phase w2 0 = Writing i"
    using w1 by (simp add: lock_op_def open_lock_def)
  obtain w3 where w3: "lock_op ?cfg 1000 0 (A_write True) w2 = Some w3" "lw_phase w3 0 = Held"
    using w2 by (simp add: lock_op_def write_lock_def)
  have "lock_reach ?cfg pol ?w w3"
    by (rule lock_reach_step [OF lock_reach_step [OF lock_reach_step [OF lock_reach_init w1(1)] w2(1)] w3(1)]) simp_all
  then show ?thesis using w3 by blast
qed

theorem file_lock_exclusive_witness:
  "\<exists>w. lock_reach (sample_lock_config False) no_owner (sample_lock_world None) w \<and> lw_phase w 0 = Held
    \<and> \<not> isHeld (lw_phase w 1) \<and> lw_file w \<noteq> None"
proof -
  obtain w where w: "lock_reach (sample_lock_config False) no_owner (sample_lock_world None) w" "lw_phase w 0 = Held"
    using sample_acquire by blast
  then show ?thesis using file_lock_exclusive [OF w(1) sample_idle, of 0] by (auto simp: isHeld_def)
qed

theorem host_lock_exclusive_witness:
  "\<exists>w. lock_reach (sample_lock_config True) (\<lambda>_. True) (sample_lock_world None) w \<and> lw_phase w 0 = Held
    \<and> \<not> contending (lw_phase w 1)"
proof -
  obtain w where w: "lock_reach (sample_lock_config True) (\<lambda>_. True) (sample_lock_world None) w" "lw_phase w 0 = Held"
    using sample_acquire by blast
  have "lk_useHost (sample_lock_config True)" by (simp add: sample_lock_config_def)
  from host_lock_exclusive [OF w(1) sample_idle this, of 0 1] w show ?thesis by auto
qed

theorem heartbeat_settles_witness:
  "\<forall>w. \<not> (isHeld (lw_phase (full_beat (sample_lock_config False) 9 2 (full_beat (sample_lock_config False) 5 1 w)) 1)
       \<and> isHeld (lw_phase (full_beat (sample_lock_config False) 9 2 (full_beat (sample_lock_config False) 5 1 w)) 2))"
  using heartbeat_settles [of 5 "sample_lock_config False" 2 1]
  by (simp add: sample_lock_config_def MAX_SAFE_INTEGER_def nat_string_inj)

theorem lock_wait_witness:
  "length (snd (acquireLockMaybeWait (JNum 30) (\<lambda>k. if k < 3 then Try_taken else Try_acquired))) < 60
   \<and> 30000 < sum_list (snd (acquireLockMaybeWait (JNum 30) (\<lambda>_. Try_taken)))
   \<and> sum_list (map (lockBackoffMs 30000) [1..<60]) = 1651000"
proof -
  have "sum_list (map (lockBackoffMs 30000) [1..<60]) = 1651000" by code_simp
  then show ?thesis
    using lock_wait_exceeds_budget [of 30 "\<lambda>k. if k < 3 then Try_taken else Try_acquired"] by simp
qed

end
