(* ===== verification/Settlement.thy ===== *)
theory Settlement
  imports Complex_Main Prelude "HOL-Library.Multiset"
begin

text \<open>
  The settlement windows of the keeper (\<open>src/keeper/src/run/settlement.ts\<close>, types in \<open>types.ts\<close>): when the next
  window opens, the life of a cycle, the schedule of batches, the queue of users carried to the next cycle.

  \<^item> Times are integers of milliseconds, as \<open>Date\<close> gives them. Other numbers of the schedule are exact
    rationals; the code's doubles agree with them up to rounding, which the final \<open>Math.round\<close> absorbs
    up to a millisecond, and no bound below depends on it.
  \<^item> \<open>Math.random()\<close> is an argument: the value of the \<open>n\<close>-th call.
  \<^item> The state file is the state it holds, if it can be read. A loop that would not end is \<open>None\<close>.
\<close>

section \<open>Types (types.ts)\<close>

datatype settlement_phase = Phase_idle | Phase_immediate | Phase_spread

record batch_entry =
  bt_taskName :: string
  bt_users :: "string list"
  bt_scheduledAtMs :: int
  bt_completed :: bool

record settlement_cycle =
  sc_cycleId :: string
  sc_windowOpenMs :: int
  sc_windowCloseMs :: int
  sc_phase :: settlement_phase
  sc_immediateTasksCompleted :: "string list"
  sc_harvestCompleted :: bool
  sc_spreadBatchesCompleted :: "batch_entry list"
  sc_spreadBatchesPending :: "string list"
  sc_spreadBaseline :: "string option"
  sc_priorityQueue :: "string list"
  sc_failedTasks :: "string list"
  sc_attemptCount :: int
  sc_lastAttemptMs :: int

record settlement_state =
  st_version :: int
  st_nextWindowMs :: int
  st_current :: "settlement_cycle option"
  st_pendingPriorityQueue :: "string list"

record settlement_config =
  sf_periodSecs :: int
  sf_dayUtc :: int
  sf_hourUtc :: int
  sf_windowDurationSecs :: int

section \<open>Window timing\<close>

definition DAY_MS :: int where "DAY_MS = 86400000"
definition WEEK_SECS :: int where "WEEK_SECS = 604800"
definition IMMEDIATE_TASKS :: "string list" where "IMMEDIATE_TASKS = [''compound-lp'', ''automax-bonus'']"
definition SPREAD_TASKS :: "string list" where "SPREAD_TASKS = [''harvest-staking'']"
definition SETTLEMENT_TASK_NAMES :: "string list" where "SETTLEMENT_TASK_NAMES = IMMEDIATE_TASKS @ SPREAD_TASKS"

text \<open>\<open>setUTCHours(h, 0, 0, 0)\<close> and \<open>getUTCDay()\<close>; 1 January 1970 was a Thursday.\<close>

definition at_utc_hour :: "int \<Rightarrow> int \<Rightarrow> int" where
  "at_utc_hour ms hour = ms div DAY_MS * DAY_MS + hour * 3600000"

definition utc_day :: "int \<Rightarrow> int" where
  "utc_day ms = (ms div DAY_MS + 4) mod 7"

definition computeNextWindowMs :: "int \<Rightarrow> int \<Rightarrow> int \<Rightarrow> int \<Rightarrow> int" where
  "computeNextWindowMs periodSecs dayOfWeek hourUtc nowMs =
     (let periodMs = periodSecs * 1000;
          d = at_utc_hour nowMs hourUtc;
          candidate =
            (if periodSecs mod WEEK_SECS = 0
             then (let daysAhead = dayOfWeek - utc_day d;
                       daysAhead = (if daysAhead < 0 then daysAhead + 7 else daysAhead)
                   in d + daysAhead * DAY_MS)
             else d)
      in if candidate \<le> nowMs then candidate + periodMs else candidate)"

definition isWindowOpen :: "int \<Rightarrow> int \<Rightarrow> int \<Rightarrow> bool" where
  "isWindowOpen windowOpenMs windowDurationMs nowMs \<longleftrightarrow>
     nowMs \<ge> windowOpenMs \<and> nowMs < windowOpenMs + windowDurationMs"

definition isWindowDue :: "int \<Rightarrow> int \<Rightarrow> bool" where
  "isWindowDue nextWindowMs nowMs \<longleftrightarrow> nowMs \<ge> nextWindowMs"

text \<open>The date of \<open>toISOString()\<close>, for the days from 1970 to 9999.\<close>

definition leap_year :: "nat \<Rightarrow> bool" where
  "leap_year y \<longleftrightarrow> y mod 4 = 0 \<and> (y mod 100 \<noteq> 0 \<or> y mod 400 = 0)"

definition year_days :: "nat \<Rightarrow> nat" where
  "year_days y = (if leap_year y then 366 else 365)"

function year_of_day :: "nat \<Rightarrow> nat \<Rightarrow> nat \<times> nat" where
  "year_of_day y d = (if d < year_days y then (y, d) else year_of_day (Suc y) (d - year_days y))"
  by pat_completeness auto
termination by (relation "measure snd") (auto simp: year_days_def)

definition month_days :: "nat \<Rightarrow> nat list" where
  "month_days y = [31, if leap_year y then 29 else 28, 31, 30, 31, 30, 31, 31, 30, 31, 30, 31]"

fun month_of_day :: "nat list \<Rightarrow> nat \<Rightarrow> nat \<Rightarrow> nat \<times> nat" where
  "month_of_day [] m d = (m, d)"
| "month_of_day (k # ks) m d = (if d < k then (m, d) else month_of_day ks (Suc m) (d - k))"

definition pad_left :: "nat \<Rightarrow> nat \<Rightarrow> string" where
  "pad_left w n = replicate (w - length (nat_string n)) CHR ''0'' @ nat_string n"

definition cycleIdFromWindowMs :: "int \<Rightarrow> string" where
  "cycleIdFromWindowMs windowOpenMs =
     (case year_of_day 1970 (nat (windowOpenMs div DAY_MS)) of (y, yd) \<Rightarrow>
      case month_of_day (month_days y) 1 yd of (m, d) \<Rightarrow>
        pad_left 4 y @ ''-'' @ pad_left 2 m @ ''-'' @ pad_left 2 (Suc d))"

section \<open>State and cycles\<close>

definition STATE_VERSION :: int where "STATE_VERSION = 1"

definition st_initState :: "int \<Rightarrow> settlement_state" where
  "st_initState nextWindowMs = \<lparr>st_version = STATE_VERSION, st_nextWindowMs = nextWindowMs, st_current = None,
     st_pendingPriorityQueue = []\<rparr>"

definition next_window :: "settlement_config \<Rightarrow> int \<Rightarrow> int" where
  "next_window config nowMs =
     computeNextWindowMs (sf_periodSecs config) (sf_dayUtc config) (sf_hourUtc config) nowMs"

definition loadSettlementState :: "settlement_state option \<Rightarrow> settlement_config \<Rightarrow> int \<Rightarrow> settlement_state" where
  "loadSettlementState file config nowMs =
     (case file of
        Some persisted \<Rightarrow>
          if st_version persisted = STATE_VERSION
          then (if st_current persisted = None
                  \<and> st_nextWindowMs persisted - nowMs > sf_periodSecs config * 1000
                then persisted\<lparr>st_nextWindowMs := next_window config nowMs\<rparr>
                else persisted)
          else st_initState (next_window config nowMs)
      | None \<Rightarrow> st_initState (next_window config nowMs))"

definition openCycle :: "settlement_state \<Rightarrow> int \<Rightarrow> settlement_config \<Rightarrow> settlement_state" where
  "openCycle state nowMs config =
     (let windowOpenMs = st_nextWindowMs state; windowDurationMs = sf_windowDurationSecs config * 1000;
          cycle = \<lparr>sc_cycleId = cycleIdFromWindowMs windowOpenMs, sc_windowOpenMs = windowOpenMs,
            sc_windowCloseMs = windowOpenMs + windowDurationMs, sc_phase = Phase_immediate,
            sc_immediateTasksCompleted = [], sc_harvestCompleted = False, sc_spreadBatchesCompleted = [],
            sc_spreadBatchesPending = [], sc_spreadBaseline = None,
            sc_priorityQueue = st_pendingPriorityQueue state, sc_failedTasks = [], sc_attemptCount = 0,
            sc_lastAttemptMs = nowMs\<rparr>
      in state\<lparr>st_current := Some cycle, st_pendingPriorityQueue := []\<rparr>)"

partial_function (option) advanceWindow :: "int \<Rightarrow> int \<Rightarrow> int \<Rightarrow> int \<Rightarrow> int option" where
  "advanceWindow periodMs windowDurationMs nowMs nextWindowMs =
     (if nextWindowMs + windowDurationMs \<le> nowMs
      then advanceWindow periodMs windowDurationMs nowMs (nextWindowMs + periodMs)
      else Some nextWindowMs)"

definition closeCycle :: "settlement_state \<Rightarrow> settlement_config \<Rightarrow> int \<Rightarrow> settlement_state option" where
  "closeCycle state config nowMs =
     (let missedUsers = (case st_current state of None \<Rightarrow> [] | Some cycle \<Rightarrow> sc_spreadBatchesPending cycle);
          periodMs = sf_periodSecs config * 1000; windowDurationMs = sf_windowDurationSecs config * 1000;
          nextWindowMs = (case st_current state of
              Some cycle \<Rightarrow> advanceWindow periodMs windowDurationMs nowMs (sc_windowOpenMs cycle + periodMs)
            | None \<Rightarrow> Some (next_window config nowMs))
      in map_option (\<lambda>n. state\<lparr>st_nextWindowMs := n, st_current := None, st_pendingPriorityQueue := missedUsers\<rparr>)
           nextWindowMs)"

section \<open>Changes to the current cycle\<close>

definition isImmediatePhaseComplete :: "settlement_cycle \<Rightarrow> bool" where
  "isImmediatePhaseComplete cycle \<longleftrightarrow>
     list_all (\<lambda>t. t \<in> set (sc_immediateTasksCompleted cycle)) IMMEDIATE_TASKS"

definition on_cycle :: "(settlement_cycle \<Rightarrow> settlement_cycle) \<Rightarrow> settlement_state \<Rightarrow> settlement_state" where
  "on_cycle f state = (case st_current state of None \<Rightarrow> state | Some c \<Rightarrow> state\<lparr>st_current := Some (f c)\<rparr>)"

definition markImmediateTaskDone :: "settlement_state \<Rightarrow> string \<Rightarrow> settlement_state" where
  "markImmediateTaskDone state taskName = on_cycle (\<lambda>cycle.
     if taskName \<in> set (sc_immediateTasksCompleted cycle) then cycle
     else cycle\<lparr>sc_immediateTasksCompleted := sc_immediateTasksCompleted cycle @ [taskName]\<rparr>) state"

definition transitionToSpread :: "settlement_state \<Rightarrow> settlement_state" where
  "transitionToSpread state = on_cycle (\<lambda>cycle. cycle\<lparr>sc_phase := Phase_spread\<rparr>) state"

definition populateSpreadBatches :: "settlement_state \<Rightarrow> batch_entry list \<Rightarrow> string list \<Rightarrow> settlement_state" where
  "populateSpreadBatches state batches allUsers = on_cycle (\<lambda>cycle.
     cycle\<lparr>sc_spreadBatchesPending := allUsers,
           sc_spreadBatchesCompleted := sc_spreadBatchesCompleted cycle @ batches\<rparr>) state"

definition markHarvestDone :: "settlement_state \<Rightarrow> settlement_state" where
  "markHarvestDone state = on_cycle (\<lambda>cycle. cycle\<lparr>sc_harvestCompleted := True\<rparr>) state"

definition complete_nth :: "int \<Rightarrow> batch_entry list \<Rightarrow> batch_entry list" where
  "complete_nth batchIndex bs =
     map (\<lambda>(i, b). if int i = batchIndex then b\<lparr>bt_completed := True\<rparr> else b) (enumerate 0 bs)"

definition not_processed :: "string list \<Rightarrow> string \<Rightarrow> bool" where
  "not_processed processedUsers u \<longleftrightarrow> toLowerCase u \<notin> set (map toLowerCase processedUsers)"

definition markBatchCompleted :: "settlement_state \<Rightarrow> int \<Rightarrow> string list \<Rightarrow> int \<Rightarrow> settlement_state" where
  "markBatchCompleted state batchIndex processedUsers nowMs = on_cycle (\<lambda>cycle.
     cycle\<lparr>sc_spreadBatchesCompleted := complete_nth batchIndex (sc_spreadBatchesCompleted cycle),
           sc_spreadBatchesPending := filter (not_processed processedUsers) (sc_spreadBatchesPending cycle),
           sc_attemptCount := sc_attemptCount cycle + 1, sc_lastAttemptMs := nowMs\<rparr>) state"

definition markTaskFailed :: "settlement_state \<Rightarrow> string \<Rightarrow> settlement_state" where
  "markTaskFailed state taskName = on_cycle (\<lambda>cycle.
     if taskName \<in> set (sc_failedTasks cycle) then cycle
     else cycle\<lparr>sc_failedTasks := sc_failedTasks cycle @ [taskName]\<rparr>) state"

fun dueLoop :: "batch_entry list \<Rightarrow> nat \<Rightarrow> int \<Rightarrow> (batch_entry \<times> nat) option" where
  "dueLoop [] i nowMs = None"
| "dueLoop (b # bs) i nowMs =
     (if \<not> bt_completed b \<and> bt_scheduledAtMs b \<le> nowMs then Some (b, i) else dueLoop bs (Suc i) nowMs)"

definition getNextDueBatch :: "settlement_cycle \<Rightarrow> int \<Rightarrow> (batch_entry \<times> nat) option" where
  "getNextDueBatch cycle nowMs = dueLoop (sc_spreadBatchesCompleted cycle) 0 nowMs"

definition isSpreadPhaseComplete :: "settlement_cycle \<Rightarrow> bool" where
  "isSpreadPhaseComplete cycle \<longleftrightarrow>
     sc_harvestCompleted cycle \<and> length (sc_spreadBatchesPending cycle) = 0
     \<and> list_all bt_completed (sc_spreadBatchesCompleted cycle)"

definition shouldPauseBatch :: "int \<Rightarrow> int \<Rightarrow> int \<Rightarrow> int \<Rightarrow> bool" where
  "shouldPauseBatch estimatedInputWei currentQuoteBps baselineQuoteBps maxDriftBps =
     (if baselineQuoteBps \<le> 0 then False
      else if estimatedInputWei \<le> 0 then False
      else \<bar>currentQuoteBps - baselineQuoteBps\<bar> > maxDriftBps)"

section \<open>The schedule of batches\<close>

definition jitterMs :: "rat \<Rightarrow> rat \<Rightarrow> int" where
  "jitterMs random maxMs = \<lfloor>random * max 0 maxMs\<rfloor>"

definition swap_at :: "nat \<Rightarrow> nat \<Rightarrow> 'a list \<Rightarrow> 'a list" where
  "swap_at i j xs = xs[i := xs ! j, j := xs ! i]"

text \<open>The loop from the last index down to 1; \<open>k\<close> counts the calls of \<open>Math.random()\<close>.\<close>

fun shuffleArray :: "(nat \<Rightarrow> rat) \<Rightarrow> nat \<Rightarrow> nat \<Rightarrow> 'a list \<Rightarrow> 'a list" where
  "shuffleArray random k 0 xs = xs"
| "shuffleArray random k (Suc i) xs =
     (let j = nat \<lfloor>random k * of_nat (Suc i + 1)\<rfloor> in shuffleArray random (Suc k) i (swap_at (Suc i) j xs))"

definition alignToMorning :: "rat \<Rightarrow> int \<Rightarrow> int \<Rightarrow> int \<Rightarrow> int" where
  "alignToMorning random windowOpenMs windowCloseMs morningHourUtc =
     (let dayStartMs = windowOpenMs div DAY_MS * DAY_MS;
          target = dayStartMs + morningHourUtc * 3600 * 1000;
          target = (if target < windowOpenMs then target + 24 * 3600 * 1000 else target)
      in if target \<ge> windowCloseMs
         then windowOpenMs + jitterMs random (of_int (windowCloseMs - windowOpenMs))
         else target + jitterMs random (30 * 60 * 1000))"

definition batch_time ::
  "rat \<Rightarrow> int \<Rightarrow> int \<Rightarrow> rat \<Rightarrow> (string \<Rightarrow> int option) option \<Rightarrow> nat \<Rightarrow> string list \<Rightarrow> int" where
  "batch_time random windowOpenMs windowCloseMs slotMs morningCache batchIndex batchUsers =
     (let spread = of_int windowOpenMs + of_nat batchIndex * slotMs + of_int (jitterMs random (slotMs * 3 / 10));
          scheduledAtMs =
            (case morningCache of
               Some users \<Rightarrow>
                 if length batchUsers = 1
                 then (case users (toLowerCase (batchUsers ! 0)) of
                         Some morning \<Rightarrow> of_int (alignToMorning random windowOpenMs windowCloseMs morning)
                       | None \<Rightarrow> spread)
                 else spread
             | None \<Rightarrow> spread);
          scheduledAtMs = max (of_int windowOpenMs) (min scheduledAtMs (of_int (windowCloseMs - 60000)))
      in round scheduledAtMs)"

text \<open>The loop over \<open>i += batchSize\<close>; \<open>ordered\<close> is what is left from \<open>i\<close> on. It does not end for a batch size of 0.\<close>

function batchLoop ::
  "(nat \<Rightarrow> rat) \<Rightarrow> nat \<Rightarrow> string \<Rightarrow> int \<Rightarrow> int \<Rightarrow> rat \<Rightarrow> (string \<Rightarrow> int option) option \<Rightarrow> nat \<Rightarrow> nat \<Rightarrow> string list
     \<Rightarrow> batch_entry list option" where
  "batchLoop random k taskName winOpen winClose slotMs morningCache batchSize batchIndex ordered =
     (if ordered = [] then Some []
      else if batchSize = 0 then None
      else (let batchUsers = take batchSize ordered;
                b = \<lparr>bt_taskName = taskName, bt_users = batchUsers,
                  bt_scheduledAtMs = batch_time (random k) winOpen winClose slotMs morningCache batchIndex batchUsers,
                  bt_completed = False\<rparr>
            in map_option (\<lambda>bs. b # bs) (batchLoop random (Suc k) taskName winOpen winClose slotMs morningCache batchSize
                 (Suc batchIndex) (drop batchSize ordered))))"
  by pat_completeness auto
termination by (relation "measure (\<lambda>(r, k, tn, op, c, sl, mc, b, i, ordered). length ordered)") auto

declare batchLoop.simps [simp del]

definition scheduleBatches ::
  "(nat \<Rightarrow> rat) \<Rightarrow> string \<Rightarrow> string list \<Rightarrow> string list \<Rightarrow> int \<Rightarrow> int \<Rightarrow> nat \<Rightarrow> (string \<Rightarrow> int option) option
     \<Rightarrow> batch_entry list option" where
  "scheduleBatches random taskName users priorityUsers windowOpenMs windowCloseMs batchSize morningCache =
     (let windowMs = windowCloseMs - windowOpenMs in
      if windowMs \<le> 0 \<or> users = [] then Some []
      else let first = filter (\<lambda>u. toLowerCase u \<in> set (map toLowerCase priorityUsers)) users;
               nonPriority = filter (\<lambda>u. toLowerCase u \<notin> set (map toLowerCase priorityUsers)) users;
               shuffles = length nonPriority - 1;
               ordered = first @ shuffleArray random 0 shuffles nonPriority;
               totalBatches = nat \<lceil>of_nat (length ordered) / (of_nat batchSize :: rat)\<rceil>;
               slotMs = (if totalBatches > 1 then of_int windowMs / of_nat totalBatches else (0 :: rat))
        in map_option (sort_key bt_scheduledAtMs)
             (batchLoop random shuffles taskName windowOpenMs windowCloseMs slotMs morningCache batchSize 0 ordered))"

section \<open>Lemmas\<close>

lemma advanceWindow_steps:
  assumes "0 < p"
  shows "\<exists>k. advanceWindow p d now n = Some (n + int k * p) \<and> now < n + int k * p + d
    \<and> (\<forall>j < k. n + int j * p + d \<le> now)"
proof (induction "nat (now - n - d + 1)" arbitrary: n rule: less_induct)
  case less
  show ?case
  proof (cases "n + d \<le> now")
    case False
    then show ?thesis by (intro exI [of _ 0]) (subst advanceWindow.simps, simp)
  next
    case True
    then have "nat (now - (n + p) - d + 1) < nat (now - n - d + 1)" using assms by auto
    from less [OF this] obtain k where k: "advanceWindow p d now (n + p) = Some (n + p + int k * p)"
      "now < n + p + int k * p + d" "\<forall>j < k. n + p + int j * p + d \<le> now" by blast
    have "n + int j * p + d \<le> now" if "j < Suc k" for j
      using that True k(3) by (cases j) (auto simp: algebra_simps)
    then show ?thesis using k(1,2) True
      by (intro exI [of _ "Suc k"], subst advanceWindow.simps) (simp add: algebra_simps)
  qed
qed

lemma on_cycle_pending [simp]: "st_pendingPriorityQueue (on_cycle f s) = st_pendingPriorityQueue s"
  "st_nextWindowMs (on_cycle f s) = st_nextWindowMs s"
  by (simp_all add: on_cycle_def split: option.split)

lemma on_cycle_current [simp]: "st_current (on_cycle f s) = map_option f (st_current s)"
  by (simp add: on_cycle_def split: option.split)

lemma swap_at_mset: "i < length xs \<Longrightarrow> j < length xs \<Longrightarrow> mset (swap_at i j xs) = mset xs"
  unfolding swap_at_def by (rule mset_swap)

lemma random_index:
  assumes "0 \<le> r" "r < (1 :: rat)"
  shows "nat \<lfloor>r * of_nat n\<rfloor> < n \<or> n = 0"
proof (cases "n = 0")
  case False
  then have "r * of_nat n < of_nat n" using assms by simp
  then have "\<lfloor>r * of_nat n\<rfloor> < int n" by (simp add: floor_less_iff)
  then show ?thesis using False by (simp add: nat_less_iff)
qed simp

lemma shuffle_mset:
  assumes "\<And>k. 0 \<le> random k \<and> random k < (1 :: rat)" and "i < length xs \<or> xs = []"
  shows "mset (shuffleArray random k i xs) = mset xs"
  using assms(2)
proof (induction i arbitrary: k xs)
  case (Suc i)
  have step: "shuffleArray random k (Suc i) xs
      = shuffleArray random (Suc k) i (swap_at (Suc i) (nat \<lfloor>random k * of_nat (Suc i + 1)\<rfloor>) xs)"
    by (simp only: shuffleArray.simps Let_def)
  have j: "nat \<lfloor>random k * of_nat (Suc i + 1)\<rfloor> < Suc i + 1"
    using random_index [of "random k" "Suc i + 1"] assms(1) [of k] by blast
  have l: "i < length (swap_at (Suc i) j xs) \<or> swap_at (Suc i) j xs = []" for j
    using Suc.prems by (auto simp: swap_at_def)
  have "mset (swap_at (Suc i) (nat \<lfloor>random k * of_nat (Suc i + 1)\<rfloor>) xs) = mset xs"
  proof (cases "xs = []")
    case False
    then show ?thesis using Suc.prems j by (intro swap_at_mset) auto
  qed (simp add: swap_at_def)
  then show ?case by (simp only: step Suc.IH [OF l])
qed simp

lemma clamped_time:
  fixes x :: rat
  shows "a \<le> round (max (of_int a) (min x (of_int b)))" "round (max (of_int a) (min x (of_int b))) \<le> max a b"
proof -
  have "(of_int a :: rat) \<le> max (of_int a) (min x (of_int b))" by simp
  from round_mono [OF this] show "a \<le> round (max (of_int a) (min x (of_int b)))" by simp
  have "max (of_int a) (min x (of_int b)) \<le> (of_int (max a b) :: rat)" by (auto simp: max_def min_def)
  from round_mono [OF this] show "round (max (of_int a) (min x (of_int b))) \<le> max a b" by simp
qed

definition batch_ok :: "string \<Rightarrow> int \<Rightarrow> int \<Rightarrow> nat \<Rightarrow> batch_entry \<Rightarrow> bool" where
  "batch_ok taskName winOpen winClose batchSize b \<longleftrightarrow>
     bt_taskName b = taskName \<and> \<not> bt_completed b \<and> bt_users b \<noteq> [] \<and> length (bt_users b) \<le> batchSize
     \<and> winOpen \<le> bt_scheduledAtMs b \<and> bt_scheduledAtMs b \<le> max winOpen (winClose - 60000)"

lemma batchLoop_some:
  assumes "0 < batchSize"
  shows "\<exists>bs. batchLoop random k taskName winOpen winClose slotMs mc batchSize i ordered = Some bs
    \<and> concat (map bt_users bs) = ordered \<and> (\<forall>b \<in> set bs. batch_ok taskName winOpen winClose batchSize b)"
proof (induction "length ordered" arbitrary: k i ordered rule: less_induct)
  case less
  show ?case
  proof (cases "ordered = []")
    case True
    then show ?thesis by (subst batchLoop.simps) simp
  next
    case False
    then have "length (drop batchSize ordered) < length ordered" using assms by simp
    from less [OF this, of "Suc k" "Suc i"] obtain bs where
      bs: "batchLoop random (Suc k) taskName winOpen winClose slotMs mc batchSize (Suc i) (drop batchSize ordered) = Some bs"
        "concat (map bt_users bs) = drop batchSize ordered" "\<forall>b \<in> set bs. batch_ok taskName winOpen winClose batchSize b"
      by blast
    have t: "winOpen \<le> batch_time (random k) winOpen winClose slotMs mc i us"
      "batch_time (random k) winOpen winClose slotMs mc i us \<le> max winOpen (winClose - 60000)" for us
      unfolding batch_time_def Let_def by (rule clamped_time)+
    let ?us = "take batchSize ordered"
    let ?b = "\<lparr>bt_taskName = taskName, bt_users = ?us,
      bt_scheduledAtMs = batch_time (random k) winOpen winClose slotMs mc i ?us, bt_completed = False\<rparr>"
    have "batch_ok taskName winOpen winClose batchSize ?b"
      using t [of ?us] False assms by (simp add: batch_ok_def)
    then show ?thesis using bs False assms
      by (intro exI [of _ "?b # bs"], subst batchLoop.simps) (simp add: Let_def)
  qed
qed

lemma sort_key_mset: "mset (sort_key f xs) = mset xs"
  by simp

lemma mset_partition_if: "mset (filter P xs) + mset (filter (\<lambda>x. \<not> P x) xs) = mset xs"
  by (induction xs) auto

lemma day_split: "ms = ms div DAY_MS * DAY_MS + ms mod DAY_MS" "0 \<le> ms mod DAY_MS" "ms mod DAY_MS < DAY_MS"
  by (simp_all add: DAY_MS_def)

lemma hour_in_day:
  assumes "0 \<le> h" "h \<le> 23"
  shows "(q * DAY_MS + h * 3600000) div DAY_MS = q" "(q * DAY_MS + h * 3600000) mod DAY_MS = h * 3600000"
    "0 \<le> h * 3600000" "h * 3600000 < DAY_MS"
proof -
  show b: "0 \<le> h * 3600000" "h * 3600000 < DAY_MS" using assms by (simp_all add: DAY_MS_def)
  then show "(q * DAY_MS + h * 3600000) div DAY_MS = q" "(q * DAY_MS + h * 3600000) mod DAY_MS = h * 3600000"
    by (simp_all add: DAY_MS_def div_add1_eq [of "q * 86400000"])
qed

lemma week_shift: "(x + 7 * k + 4) mod 7 = (x + 4) mod (7 :: int)"
  using mod_mult_self1 [of "x + 4" k 7] by (simp add: algebra_simps)

lemma days_ahead:
  assumes "0 \<le> dow" "dow \<le> 6"
  shows "\<exists>a. 0 \<le> a \<and> a \<le> 6 \<and> (q + a + 4) mod 7 = dow
    \<and> a = (if dow - (q + 4) mod 7 < 0 then dow - (q + 4) mod 7 + 7 else dow - (q + 4) mod (7 :: int))"
proof -
  have "0 \<le> (q + 4) mod 7" "(q + 4) mod 7 < (7 :: int)" by simp_all
  moreover have "(q + (dow - (q + 4) mod 7) + 4) mod 7 = dow"
    using mod_diff_right_eq [of "dow + (q + 4)" "q + 4" 7] assms by (simp add: algebra_simps)
  then have "(q + (dow - (q + 4) mod 7) + 4) mod 7 = dow" "(q + (dow - (q + 4) mod 7 + 7) + 4) mod 7 = dow"
    using week_shift [of "q + (dow - (q + 4) mod 7)" 1] by (simp_all add: algebra_simps)
  ultimately show ?thesis using assms by auto
qed

text \<open>The candidate of \<open>computeNextWindowMs\<close>: \<open>a\<close> days after today, at the hour.\<close>

lemma candidate_day:
  assumes "0 \<le> h" "h \<le> 23" "0 \<le> dow" "dow \<le> 6"
  obtains a where "0 \<le> a" "a \<le> 6" "\<not> WEEK_SECS dvd ps \<longrightarrow> a = 0"
    "WEEK_SECS dvd ps \<longrightarrow> (now div DAY_MS + a + 4) mod 7 = dow"
    "computeNextWindowMs ps dow h now = (let c = (now div DAY_MS + a) * DAY_MS + h * 3600000 in
       if c \<le> now then c + ps * 1000 else c)"
proof (cases "WEEK_SECS dvd ps")
  case True
  from days_ahead [OF assms(3,4), of "now div DAY_MS"] obtain a where
    a: "0 \<le> a" "a \<le> 6" "(now div DAY_MS + a + 4) mod 7 = dow"
      "a = (if dow - (now div DAY_MS + 4) mod 7 < 0 then dow - (now div DAY_MS + 4) mod 7 + 7
            else dow - (now div DAY_MS + 4) mod 7)" by blast
  have "computeNextWindowMs ps dow h now = (let c = (now div DAY_MS + a) * DAY_MS + h * 3600000 in
       if c \<le> now then c + ps * 1000 else c)"
    unfolding computeNextWindowMs_def at_utc_hour_def utc_day_def hour_in_day(1) [OF assms(1,2)] Let_def
      a(4) [symmetric] using True by (simp add: mod_eq_0_iff_dvd algebra_simps)
  then show ?thesis using that a True by blast
next
  case False
  then show ?thesis using that [of 0]
    by (simp add: computeNextWindowMs_def at_utc_hour_def mod_eq_0_iff_dvd Let_def)
qed

section \<open>Properties\<close>

text \<open>
  For a cadence of whole days the next window is after the present and at most one period away, it opens at
  the configured hour, and for a weekly cadence on the configured day.
\<close>

theorem next_window_sound:
  assumes "0 < sf_periodSecs cfg" "86400 dvd sf_periodSecs cfg"
    and "0 \<le> sf_hourUtc cfg" "sf_hourUtc cfg \<le> 23" "0 \<le> sf_dayUtc cfg" "sf_dayUtc cfg \<le> 6"
  shows "now < next_window cfg now \<and> next_window cfg now \<le> now + sf_periodSecs cfg * 1000
    \<and> next_window cfg now mod DAY_MS = sf_hourUtc cfg * 3600000
    \<and> (WEEK_SECS dvd sf_periodSecs cfg \<longrightarrow> utc_day (next_window cfg now) = sf_dayUtc cfg)"
proof -
  let ?q = "now div DAY_MS" and ?h = "sf_hourUtc cfg * 3600000"
  obtain m where m: "sf_periodSecs cfg = 86400 * m" using assms(2) by (rule dvdE)
  then have "0 < m" using assms(1) by simp
  have p: "sf_periodSecs cfg * 1000 = m * DAY_MS" by (simp add: m DAY_MS_def)
  have w: "7 dvd m" if "WEEK_SECS dvd sf_periodSecs cfg"
    using that by (simp add: m WEEK_SECS_def dvd_def)
  obtain a where a: "0 \<le> a" "a \<le> 6" "\<not> WEEK_SECS dvd sf_periodSecs cfg \<longrightarrow> a = 0"
    "WEEK_SECS dvd sf_periodSecs cfg \<longrightarrow> (?q + a + 4) mod 7 = sf_dayUtc cfg"
    "next_window cfg now = (let c = (?q + a) * DAY_MS + ?h in
       if c \<le> now then c + sf_periodSecs cfg * 1000 else c)"
    unfolding next_window_def using assms(3-6) by (rule candidate_day)
  note day = day_split [of now] and hour = hour_in_day [OF assms(3,4)]
  have am: "a < m" using a(1-3) w \<open>0 < m\<close> by (cases "7 dvd m") (auto dest: zdvd_imp_le)
  define c where "c = (?q + a) * DAY_MS + ?h"
  define k where "k = (if c \<le> now then ?q + a + m else ?q + a)"
  have n: "next_window cfg now = k * DAY_MS + ?h"
    by (simp add: a(5) k_def c_def p Let_def distrib_right)
  have "now < k * DAY_MS + ?h \<and> k * DAY_MS + ?h \<le> now + m * DAY_MS"
    using day hour(3,4) am a(1) \<open>0 < m\<close> by (auto simp: k_def c_def DAY_MS_def)
  moreover have "(k + 4) mod 7 = sf_dayUtc cfg" if "WEEK_SECS dvd sf_periodSecs cfg"
    using w [OF that] a(4) that by (auto simp: k_def week_shift elim!: dvdE [of 7 m])
  ultimately show ?thesis unfolding n p by (simp add: hour utc_day_def)
qed

theorem next_window_sound_witness:
  "(let cfg = \<lparr>sf_periodSecs = 604800, sf_dayUtc = 4, sf_hourUtc = 6, sf_windowDurationSecs = 86400\<rparr> in
    1767225600000 < next_window cfg 1767225600000 \<and> next_window cfg 1767225600000 = 1767247200000)"
  using next_window_sound [of "\<lparr>sf_periodSecs = 604800, sf_dayUtc = 4, sf_hourUtc = 6, sf_windowDurationSecs = 86400\<rparr>"
    1767225600000]
  by (simp add: Let_def next_window_def computeNextWindowMs_def at_utc_hour_def utc_day_def DAY_MS_def WEEK_SECS_def)


lemma closeCycle_next:
  assumes "st_current s = Some c" "0 < sf_periodSecs cfg"
  obtains k where "0 < k"
    "closeCycle s cfg now = Some (s\<lparr>st_nextWindowMs := sc_windowOpenMs c + int k * (sf_periodSecs cfg * 1000),
       st_current := None, st_pendingPriorityQueue := sc_spreadBatchesPending c\<rparr>)"
    "now < sc_windowOpenMs c + int k * (sf_periodSecs cfg * 1000) + sf_windowDurationSecs cfg * 1000"
    "\<forall>j. 0 < j \<and> j < k \<longrightarrow>
       sc_windowOpenMs c + int j * (sf_periodSecs cfg * 1000) + sf_windowDurationSecs cfg * 1000 \<le> now"
proof -
  let ?p = "sf_periodSecs cfg * 1000" and ?d = "sf_windowDurationSecs cfg * 1000" and ?o = "sc_windowOpenMs c"
  from advanceWindow_steps [of ?p ?d now "?o + ?p"] assms(2) obtain k where
    k: "advanceWindow ?p ?d now (?o + ?p) = Some (?o + ?p + int k * ?p)" "now < ?o + ?p + int k * ?p + ?d"
      "\<forall>j < k. ?o + ?p + int j * ?p + ?d \<le> now" by auto
  have shift: "?o + ?p + int j * ?p = ?o + int (Suc j) * ?p" for j by (simp add: algebra_simps)
  have "?o + int j * ?p + ?d \<le> now" if "0 < j" "j < Suc k" for j
    using k(3) that shift [of "j - 1"] by (cases j) auto
  with k(1,2) assms(1) show thesis unfolding shift by (intro that [of "Suc k"]) (auto simp: closeCycle_def)
qed

text \<open>
  C33. Closing a cycle always returns: it schedules the first later window, at a whole number of periods from the one
  that closed, whose active span is not over yet, ends the cycle, and carries exactly the pending users over.
\<close>

theorem cycle_closes:
  assumes "st_current s = Some c" "0 < sf_periodSecs cfg"
  shows "\<exists>k > 0. closeCycle s cfg now = Some (s\<lparr>st_nextWindowMs := sc_windowOpenMs c + int k * (sf_periodSecs cfg * 1000),
       st_current := None, st_pendingPriorityQueue := sc_spreadBatchesPending c\<rparr>)
    \<and> now < sc_windowOpenMs c + int k * (sf_periodSecs cfg * 1000) + sf_windowDurationSecs cfg * 1000
    \<and> (\<forall>j. 0 < j \<and> j < k \<longrightarrow>
         sc_windowOpenMs c + int j * (sf_periodSecs cfg * 1000) + sf_windowDurationSecs cfg * 1000 \<le> now)"
  using closeCycle_next [OF assms] by metis

theorem cycle_closes_witness:
  "let cfg = \<lparr>sf_periodSecs = 86400, sf_dayUtc = 4, sf_hourUtc = 6, sf_windowDurationSecs = 86400\<rparr>;
       s = openCycle (st_initState 21600000) 21600001 cfg
   in \<exists>k > 0. map_option st_nextWindowMs (closeCycle s cfg 108000000) = Some (21600000 + int k * 86400000)"
proof -
  let ?cfg = "\<lparr>sf_periodSecs = 86400, sf_dayUtc = 4, sf_hourUtc = 6, sf_windowDurationSecs = 86400\<rparr>"
  let ?s = "openCycle (st_initState 21600000) 21600001 ?cfg"
  obtain c where "st_current ?s = Some c" "sc_windowOpenMs c = 21600000"
    by (simp add: openCycle_def st_initState_def Let_def)
  with cycle_closes [of ?s c ?cfg 108000000] show ?thesis by (auto simp: Let_def)
qed

text \<open>A cycle that never populated its batches drops the users carried over to it.\<close>

lemma priority_queue_lost:
  assumes "closeCycle (openCycle s now cfg) cfg now' = Some s'"
  shows "st_pendingPriorityQueue s' = []"
  using assms by (auto simp: closeCycle_def openCycle_def Let_def)

text \<open>With a period of less than a day the next window can lie in the past.\<close>

lemma next_window_late:
  assumes "\<not> WEEK_SECS dvd sf_periodSecs cfg" "0 \<le> sf_periodSecs cfg"
    and "at_utc_hour now (sf_hourUtc cfg) + sf_periodSecs cfg * 1000 \<le> now"
  shows "next_window cfg now \<le> now"
  using assms by (simp add: next_window_def computeNextWindowMs_def Let_def mod_eq_0_iff_dvd)

lemma next_window_late_example:
  "next_window \<lparr>sf_periodSecs = 3600, sf_dayUtc = 4, sf_hourUtc = 6, sf_windowDurationSecs = 3600\<rparr> 43200000 = 25200000"
  by (simp add: next_window_def computeNextWindowMs_def at_utc_hour_def utc_day_def DAY_MS_def WEEK_SECS_def Let_def)

text \<open>The re-anchoring of a sub-day cadence can move the window later: at midnight, with the window at 2 o'clock.\<close>

lemma reanchor_later:
  "let cfg = \<lparr>sf_periodSecs = 3600, sf_dayUtc = 4, sf_hourUtc = 23, sf_windowDurationSecs = 3600\<rparr> in
    st_nextWindowMs (loadSettlementState (Some (st_initState 7200000)) cfg 0) = 82800000"
  by (simp add: loadSettlementState_def st_initState_def STATE_VERSION_def next_window_def computeNextWindowMs_def
    at_utc_hour_def utc_day_def DAY_MS_def WEEK_SECS_def Let_def)

lemma concat_mset_cong: "mset xs = mset ys \<Longrightarrow> mset (concat (map f xs)) = mset (concat (map f ys))"
  by (simp add: mset_concat sum_mset_sum_list [symmetric])

lemma schedule_some:
  assumes "\<And>k. 0 \<le> random k \<and> random k < 1" "0 < batchSize" "winOpen < winClose"
  shows "\<exists>bs. scheduleBatches random taskName users priorityUsers winOpen winClose batchSize mc = Some bs
    \<and> mset (concat (map bt_users bs)) = mset users \<and> sorted (map bt_scheduledAtMs bs)
    \<and> (\<forall>b \<in> set bs. batch_ok taskName winOpen winClose batchSize b)"
proof (cases "users = []")
  case True
  then show ?thesis by (simp add: scheduleBatches_def Let_def)
next
  case False
  let ?p = "\<lambda>u. toLowerCase u \<in> set (map toLowerCase priorityUsers)"
  let ?n = "filter (\<lambda>u. \<not> ?p u) users"
  define ordered where "ordered = filter ?p users @ shuffleArray random 0 (length ?n - 1) ?n"
  have "mset (shuffleArray random 0 (length ?n - 1) ?n) = mset ?n"
    using assms(1) by (intro shuffle_mset) auto
  then have o: "mset ordered = mset users" by (simp add: ordered_def mset_partition_if)
  define slot where "slot = (if 1 < nat \<lceil>of_nat (length ordered) / (of_nat batchSize :: rat)\<rceil>
    then of_int (winClose - winOpen) / of_nat (nat \<lceil>of_nat (length ordered) / (of_nat batchSize :: rat)\<rceil>) else (0 :: rat))"
  obtain bs where bs: "batchLoop random (length ?n - 1) taskName winOpen winClose slot mc batchSize 0 ordered = Some bs"
    "concat (map bt_users bs) = ordered" "\<forall>b \<in> set bs. batch_ok taskName winOpen winClose batchSize b"
    using batchLoop_some [OF assms(2)] by blast
  have "scheduleBatches random taskName users priorityUsers winOpen winClose batchSize mc
      = Some (sort_key bt_scheduledAtMs bs)"
    using bs(1) False assms(3) unfolding scheduleBatches_def Let_def ordered_def [symmetric] slot_def [symmetric]
    by simp
  moreover have "mset (concat (map bt_users (sort_key bt_scheduledAtMs bs))) = mset users"
    using concat_mset_cong [of "sort_key bt_scheduledAtMs bs" bs bt_users] o bs(2) by simp
  ultimately show ?thesis using bs(3) by simp
qed

lemma schedule_zero:
  assumes "scheduleBatches random tn users pu wo wc 0 mc = Some bs"
  shows "bs = []"
  using assms by (auto simp: scheduleBatches_def Let_def batchLoop.simps [of _ _ _ _ _ _ _ 0] split: if_splits)

text \<open>What any schedule is: empty, or the users, in batches that are not completed.\<close>

lemma schedule_result:
  assumes "\<And>k. 0 \<le> random k \<and> random k < 1" "scheduleBatches random tn users pu wo wc batchSize mc = Some bs"
  shows "(bs = [] \<or> mset (concat (map bt_users bs)) = mset users) \<and> (\<forall>b \<in> set bs. \<not> bt_completed b)"
proof (cases "wo < wc \<and> 0 < batchSize")
  case True
  then show ?thesis using schedule_some [of random batchSize wo wc tn users pu mc] assms
    by (auto simp: batch_ok_def)
next
  case False
  then have "bs = []" using assms(2) schedule_zero by (auto simp: scheduleBatches_def Let_def)
  then show ?thesis by simp
qed

text \<open>
  The schedule of a non-empty window puts every user in exactly one batch, in batches of at most the batch size,
  at times inside the window, a minute before its end at the latest, in the order of the times.
\<close>

theorem schedule_partitions_users:
  assumes "\<And>k. 0 \<le> random k \<and> random k < 1" "0 < batchSize" "winOpen < winClose"
  shows "\<exists>bs. scheduleBatches random taskName users priorityUsers winOpen winClose batchSize mc = Some bs
    \<and> mset (concat (map bt_users bs)) = mset users \<and> sorted (map bt_scheduledAtMs bs)
    \<and> (\<forall>b \<in> set bs. batch_ok taskName winOpen winClose batchSize b)"
  using schedule_some [OF assms] .

theorem schedule_partitions_users_witness:
  "\<exists>bs. scheduleBatches (\<lambda>_. 0) ''harvest-staking'' [''0xA'', ''0xb''] [''0xB''] 0 3600000 1 None = Some bs
    \<and> mset (concat (map bt_users bs)) = {#''0xA'', ''0xb''#}"
  using schedule_partitions_users [of "\<lambda>_. 0" 1 0 3600000 "''harvest-staking''" "[''0xA'', ''0xb'']" "[''0xB'']" None]
  by auto

end
