(* ===== verification/EventBus.thy ===== *)
theory EventBus
  imports Prelude
begin

text \<open>
  The keeper's WebSocket event bus (\<open>src/keeper/src/run/event_bus.ts\<close>): the class \<open>EventBus\<close> as a state
  machine.

  \<^item> A piece of the class's code that runs without an \<open>await\<close> is one handler; what the event loop may
    deliver next is an event. A connection attempt is the number \<open>connectAttempts\<close> it was given, and
    stands for the \<open>RpcWs\<close> object made by it.
  \<^item> The last three fields of the state are the environment's: the attempts whose \<open>connect()\<close> has not
    settled, those whose subscriptions are being installed, and the sockets that have not reported
    \<open>close\<close>. The relation \<open>eb_step\<close> lets the environment deliver every event these allow, in any order.
  \<^item> Calls of the scheduler (\<open>onTrigger\<close>, \<open>onConnected\<close>, \<open>onDisconnected\<close>) are outputs; what they throw
    is swallowed by the code. Logging is not modelled.
\<close>

section \<open>Block numbers\<close>

definition hex_digit :: "char \<Rightarrow> nat option" where
  "hex_digit c = (let n = of_char c :: nat in
     if 48 \<le> n \<and> n \<le> 57 then Some (n - 48)
     else if 97 \<le> n \<and> n \<le> 102 then Some (n - 87)
     else if 65 \<le> n \<and> n \<le> 70 then Some (n - 55)
     else None)"

fun digits_value :: "nat \<Rightarrow> nat \<Rightarrow> string \<Rightarrow> nat option" where
  "digits_value base acc [] = Some acc"
| "digits_value base acc (c # cs) =
     (case hex_digit c of
        None \<Rightarrow> None
      | Some d \<Rightarrow> if d < base then digits_value base (acc * base + d) cs else None)"

text \<open>\<open>BigInt\<close> of a string: white space around it is ignored, nothing is 0, and a sign only goes with
  decimal digits; \<open>None\<close> is the \<open>SyntaxError\<close>.\<close>

definition numeral_in :: "nat \<Rightarrow> string \<Rightarrow> int option" where
  "numeral_in base cs = (if cs = [] then None else map_option int (digits_value base 0 cs))"

definition BigInt_of :: "string \<Rightarrow> int option" where
  "BigInt_of raw =
     (let s = js_trim raw in
      if s = [] then Some 0
      else if take 2 s = ''0x'' \<or> take 2 s = ''0X'' then numeral_in 16 (drop 2 s)
      else if take 2 s = ''0o'' \<or> take 2 s = ''0O'' then numeral_in 8 (drop 2 s)
      else if take 2 s = ''0b'' \<or> take 2 s = ''0B'' then numeral_in 2 (drop 2 s)
      else if hd s = CHR ''-'' then map_option uminus (numeral_in 10 (tl s))
      else if hd s = CHR ''+'' then numeral_in 10 (tl s)
      else numeral_in 10 s)"

text \<open>A payload without the field, or with one that is not a string, is \<open>None\<close>.\<close>

definition parseBlockNumber :: "string option \<Rightarrow> int option" where
  "parseBlockNumber raw =
     (case raw of None \<Rightarrow> None | Some s \<Rightarrow> if s = [] then None else BigInt_of s)"

section \<open>State\<close>

definition WS_HEALTH_SILENCE_MS :: int where "WS_HEALTH_SILENCE_MS = 120000"
definition BACKOFF_INITIAL_MS :: int where "BACKOFF_INITIAL_MS = 1000"
definition BACKOFF_MAX_MS :: int where "BACKOFF_MAX_MS = 30000"

datatype (plugins only: code) bus_phase = Stopped | Starting | Connecting | Open | InBackoff | Closing

datatype (plugins only: code) which_url = Primary | Fallback

record log_filter =
  lf_address :: "string list"
  lf_topics :: "string list option list"    \<comment> \<open>\<open>None\<close> matches any topic\<close>

record subscription =
  sub_taskName :: string
  sub_filter :: log_filter
  sub_subId :: "string option"

record bus_options =
  bo_wsUrl :: "string option"
  bo_wsUrlFallback :: "string option"

record bus =
  eb_state :: bus_phase
  eb_rpc :: "nat option"
  eb_subscriptions :: "subscription list"
  eb_lastUrlTried :: "which_url option"
  eb_backoffMs :: int
  eb_backoffTimer :: "int option"     \<comment> \<open>the delay of the timer that is set\<close>
  eb_connectAttempts :: nat
  eb_lastMessageAtMs :: int
  eb_lastEventBlock :: "int option"
  eb_stopRequested :: bool
  env_connecting :: "nat set"
  env_installing :: "nat set"
  env_sockets :: "nat set"

definition new_bus :: bus where
  "new_bus = \<lparr>eb_state = Stopped, eb_rpc = None, eb_subscriptions = [], eb_lastUrlTried = None,
     eb_backoffMs = BACKOFF_INITIAL_MS, eb_backoffTimer = None, eb_connectAttempts = 0,
     eb_lastMessageAtMs = 0, eb_lastEventBlock = None, eb_stopRequested = False,
     env_connecting = {}, env_installing = {}, env_sockets = {}\<rparr>"

datatype (plugins only: code) bus_output =
  OnTrigger string int string string string   \<comment> \<open>task, block, address, topic0, transaction hash\<close>
| OnConnected
| OnDisconnected
| CloseSocket nat

text \<open>An absent or empty URL is not configured.\<close>

definition has_url :: "string option \<Rightarrow> bool" where
  "has_url u \<longleftrightarrow> u \<noteq> None \<and> u \<noteq> Some ''''"

definition pickNextUrl :: "bus_options \<Rightarrow> bus \<Rightarrow> (string \<times> which_url) option" where
  "pickNextUrl opts b =
     (let hasPrimary = has_url (bo_wsUrl opts); hasFallback = has_url (bo_wsUrlFallback opts) in
      if \<not> hasPrimary \<and> \<not> hasFallback then None
      else if \<not> hasFallback then Some (the (bo_wsUrl opts), Primary)
      else if \<not> hasPrimary then Some (the (bo_wsUrlFallback opts), Fallback)
      else if eb_lastUrlTried b = Some Primary then Some (the (bo_wsUrlFallback opts), Fallback)
      else Some (the (bo_wsUrl opts), Primary))"

section \<open>Handlers\<close>

datatype bus_error = NotBeforeStart bus_phase

definition subscribe :: "string \<Rightarrow> log_filter \<Rightarrow> bus \<Rightarrow> bus_error + bus" where
  "subscribe taskName f b =
     (if eb_state b \<noteq> Stopped then Inl (NotBeforeStart (eb_state b))
      else Inr (b\<lparr>eb_subscriptions := eb_subscriptions b
                    @ [\<lparr>sub_taskName = taskName, sub_filter = f, sub_subId = None\<rparr>]\<rparr>))"

definition scheduleReconnect :: "bus \<Rightarrow> bus" where
  "scheduleReconnect b =
     (if eb_stopRequested b then b
      else b\<lparr>eb_backoffTimer := Some (eb_backoffMs b),
             eb_backoffMs := min (eb_backoffMs b * 2) BACKOFF_MAX_MS\<rparr>)"

text \<open>\<open>connectWithRetry\<close> up to \<open>await rpc.connect()\<close>.\<close>

definition connectWithRetry :: "bus_options \<Rightarrow> bus \<Rightarrow> bus" where
  "connectWithRetry opts b =
     (case pickNextUrl opts b of
        None \<Rightarrow> b\<lparr>eb_state := Stopped\<rparr>
      | Some (url, which) \<Rightarrow>
          let n = eb_connectAttempts b + 1 in
          b\<lparr>eb_lastUrlTried := Some which, eb_state := Connecting, eb_connectAttempts := n,
            env_connecting := insert n (env_connecting b), env_sockets := insert n (env_sockets b)\<rparr>)"

definition start :: "bus_options \<Rightarrow> bus \<Rightarrow> bus_error + bus" where
  "start opts b =
     (if eb_state b \<noteq> Stopped then Inl (NotBeforeStart (eb_state b))
      else if \<not> has_url (bo_wsUrl opts) \<and> \<not> has_url (bo_wsUrlFallback opts) then Inr b
      else Inr (connectWithRetry opts (b\<lparr>eb_state := Starting, eb_stopRequested := False\<rparr>)))"

definition stop :: "bus \<Rightarrow> bus \<times> bus_output list" where
  "stop b =
     (b\<lparr>eb_stopRequested := True, eb_backoffTimer := None, eb_rpc := None, eb_state := Stopped\<rparr>,
      (case eb_rpc b of None \<Rightarrow> [] | Some n \<Rightarrow> if n \<in> env_sockets b then [CloseSocket n] else []))"

text \<open>\<open>rpc.onClose\<close> of the attempt \<open>n\<close>.\<close>

definition on_close :: "nat \<Rightarrow> bus \<Rightarrow> bus \<times> bus_output list" where
  "on_close n b =
     (let b = b\<lparr>env_sockets := env_sockets b - {n}\<rparr> in
      if eb_stopRequested b then (b, [])
      else (scheduleReconnect (b\<lparr>eb_state := InBackoff\<rparr>), [OnDisconnected]))"

text \<open>The \<open>catch\<close> of \<open>await rpc.connect()\<close>, and what follows when it resolves.\<close>

definition connect_failed :: "nat \<Rightarrow> bus \<Rightarrow> bus" where
  "connect_failed n b =
     scheduleReconnect (b\<lparr>eb_state := InBackoff, env_connecting := env_connecting b - {n}\<rparr>)"

definition connect_ok :: "nat \<Rightarrow> bus \<Rightarrow> bus" where
  "connect_ok n b =
     b\<lparr>eb_rpc := Some n, eb_state := Open, eb_backoffMs := BACKOFF_INITIAL_MS,
       env_connecting := env_connecting b - {n}, env_installing := insert n (env_installing b)\<rparr>"

text \<open>\<open>installSubscriptions\<close>: the ids it has received are stored in order, all of them when it succeeds.\<close>

definition store_ids :: "string list \<Rightarrow> subscription list \<Rightarrow> subscription list" where
  "store_ids ids subs =
     map2 (\<lambda>i s. s\<lparr>sub_subId := Some i\<rparr>) ids subs @ drop (length ids) subs"

definition install_ok :: "nat \<Rightarrow> string list \<Rightarrow> bus \<Rightarrow> bus \<times> bus_output list" where
  "install_ok n ids b =
     (b\<lparr>eb_subscriptions := store_ids ids (eb_subscriptions b), env_installing := env_installing b - {n}\<rparr>,
      [OnConnected])"

definition install_failed :: "nat \<Rightarrow> string list \<Rightarrow> bus \<Rightarrow> bus \<times> bus_output list" where
  "install_failed n ids b =
     (scheduleReconnect (b\<lparr>eb_subscriptions := store_ids ids (eb_subscriptions b), eb_state := InBackoff,
        env_installing := env_installing b - {n}\<rparr>),
      if n \<in> env_sockets b then [CloseSocket n] else [])"

definition timer_fires :: "bus_options \<Rightarrow> bus \<Rightarrow> bus" where
  "timer_fires opts b = connectWithRetry opts (b\<lparr>eb_backoffTimer := None\<rparr>)"

definition note_block :: "int option \<Rightarrow> bus \<Rightarrow> bus" where
  "note_block num b =
     (case num of
        None \<Rightarrow> b
      | Some n \<Rightarrow>
          if (case eb_lastEventBlock b of None \<Rightarrow> True | Some l \<Rightarrow> n > l)
          then b\<lparr>eb_lastEventBlock := Some n\<rparr> else b)"

definition handleHead :: "int \<Rightarrow> string option \<Rightarrow> bus \<Rightarrow> bus" where
  "handleHead now number b = note_block (parseBlockNumber number) (b\<lparr>eb_lastMessageAtMs := now\<rparr>)"

record rpc_log =
  rl_removed :: bool
  rl_blockNumber :: "string option"
  rl_address :: string
  rl_topics :: "string list"
  rl_transactionHash :: string

definition handleLog :: "int \<Rightarrow> string \<Rightarrow> rpc_log \<Rightarrow> bus \<Rightarrow> bus \<times> bus_output list" where
  "handleLog now taskName l b =
     (if rl_removed l then (b, [])
      else let num = parseBlockNumber (rl_blockNumber l) in
           (note_block num (b\<lparr>eb_lastMessageAtMs := now\<rparr>),
            [OnTrigger taskName (case num of None \<Rightarrow> 0 | Some n \<Rightarrow> n) (rl_address l)
               (case rl_topics l of [] \<Rightarrow> '''' | t # _ \<Rightarrow> t) (rl_transactionHash l)]))"

definition isHealthy :: "int \<Rightarrow> bus \<Rightarrow> bool" where
  "isHealthy now b =
     (if eb_state b \<noteq> Open then False
      else if eb_lastMessageAtMs b = 0 then False
      else now - eb_lastMessageAtMs b < WS_HEALTH_SILENCE_MS)"

section \<open>Steps\<close>

datatype bus_event =
  Ev_start | Ev_stop | Ev_timer
| Ev_connected nat | Ev_connect_failed nat | Ev_closed nat
| Ev_installed nat "string list" | Ev_install_failed nat "string list"
| Ev_head int "string option" | Ev_log int string rpc_log

inductive eb_step :: "bus_options \<Rightarrow> bus_event \<Rightarrow> bus \<Rightarrow> bus \<Rightarrow> bool" for opts where
  "start opts b = Inr b' \<Longrightarrow> eb_step opts Ev_start b b'"
| "eb_step opts Ev_stop b (fst (stop b))"
| "eb_backoffTimer b \<noteq> None \<Longrightarrow> eb_step opts Ev_timer b (timer_fires opts b)"
| "n \<in> env_connecting b \<Longrightarrow> n \<in> env_sockets b \<Longrightarrow> eb_step opts (Ev_connected n) b (connect_ok n b)"
| "n \<in> env_connecting b \<Longrightarrow> eb_step opts (Ev_connect_failed n) b (connect_failed n b)"
| "n \<in> env_sockets b \<Longrightarrow> eb_step opts (Ev_closed n) b (fst (on_close n b))"
| "n \<in> env_installing b \<Longrightarrow> length ids = length (eb_subscriptions b) \<Longrightarrow>
     eb_step opts (Ev_installed n ids) b (fst (install_ok n ids b))"
| "n \<in> env_installing b \<Longrightarrow> length ids \<le> length (eb_subscriptions b) \<Longrightarrow>
     eb_step opts (Ev_install_failed n ids) b (fst (install_failed n ids b))"
| "eb_step opts (Ev_head now number) b (handleHead now number b)"
| "eb_step opts (Ev_log now task l) b (fst (handleLog now task l b))"

inductive_cases eb_stepE: "eb_step opts ev b b'"

inductive eb_steps :: "bus_options \<Rightarrow> bus_event list \<Rightarrow> bus \<Rightarrow> bus \<Rightarrow> bool" for opts where
  eb_steps_Nil: "eb_steps opts [] b b"
| eb_steps_Cons: "eb_step opts ev b b' \<Longrightarrow> eb_steps opts evs b' b'' \<Longrightarrow> eb_steps opts (ev # evs) b b''"

section \<open>Invariant\<close>

definition bus_ok :: "bus_options \<Rightarrow> bus \<Rightarrow> bool" where
  "bus_ok opts b \<longleftrightarrow>
     eb_backoffMs b \<in> {BACKOFF_INITIAL_MS .. BACKOFF_MAX_MS}
   \<and> (\<forall>d. eb_backoffTimer b = Some d \<longrightarrow> d \<in> {BACKOFF_INITIAL_MS .. BACKOFF_MAX_MS} \<and> \<not> eb_stopRequested b)
   \<and> eb_state b \<notin> {Starting, Closing}
   \<and> (eb_state b = InBackoff \<longrightarrow> eb_backoffTimer b \<noteq> None \<or> eb_stopRequested b)
   \<and> (eb_state b = Connecting \<longrightarrow> env_connecting b \<noteq> {})
   \<and> (eb_state b = Open \<longrightarrow> eb_stopRequested b \<or> (\<exists>n \<in> env_sockets b. eb_rpc b = Some n))
   \<and> (eb_connectAttempts b \<noteq> 0 \<longrightarrow> eb_state b = Stopped \<longrightarrow> eb_stopRequested b)
   \<and> (eb_connectAttempts b \<noteq> 0 \<longrightarrow> has_url (bo_wsUrl opts) \<or> has_url (bo_wsUrlFallback opts))
   \<and> (eb_connectAttempts b = 0 \<longrightarrow> eb_state b = Stopped \<and> env_connecting b = {} \<and> env_installing b = {}
        \<and> env_sockets b = {} \<and> eb_backoffTimer b = None)"

lemma bus_okI_new: "bus_ok opts (new_bus\<lparr>eb_subscriptions := subs\<rparr>)"
  by (simp add: bus_ok_def new_bus_def BACKOFF_INITIAL_MS_def BACKOFF_MAX_MS_def)

lemma pickNextUrl_None:
  "pickNextUrl opts b = None \<longleftrightarrow> \<not> has_url (bo_wsUrl opts) \<and> \<not> has_url (bo_wsUrlFallback opts)"
  by (simp add: pickNextUrl_def Let_def)

lemma note_block_simps [simp]:
  "eb_state (note_block num b) = eb_state b" "eb_rpc (note_block num b) = eb_rpc b"
  "eb_backoffMs (note_block num b) = eb_backoffMs b" "eb_backoffTimer (note_block num b) = eb_backoffTimer b"
  "eb_connectAttempts (note_block num b) = eb_connectAttempts b"
  "eb_stopRequested (note_block num b) = eb_stopRequested b"
  "env_connecting (note_block num b) = env_connecting b"
  "env_installing (note_block num b) = env_installing b"
  "env_sockets (note_block num b) = env_sockets b"
  "eb_lastUrlTried (note_block num b) = eb_lastUrlTried b"
  by (simp_all add: note_block_def split: option.splits)

lemma connectWithRetry_ok:
  assumes "has_url (bo_wsUrl opts) \<or> has_url (bo_wsUrlFallback opts)"
    and "eb_backoffMs b \<in> {BACKOFF_INITIAL_MS .. BACKOFF_MAX_MS}" and "eb_backoffTimer b = None"
  shows "bus_ok opts (connectWithRetry opts b)"
proof (cases "pickNextUrl opts b")
  case None
  then show ?thesis using assms(1) by (simp add: pickNextUrl_None)
next
  case (Some uw)
  then show ?thesis using assms by (cases uw) (simp add: connectWithRetry_def bus_ok_def Let_def)
qed

lemma scheduleReconnect_ok:
  assumes "eb_backoffMs b \<in> {BACKOFF_INITIAL_MS .. BACKOFF_MAX_MS}"
    and "eb_stopRequested b \<longrightarrow> eb_backoffTimer b = None"
    and "eb_state b = InBackoff" and "eb_connectAttempts b \<noteq> 0"
    and "has_url (bo_wsUrl opts) \<or> has_url (bo_wsUrlFallback opts)"
  shows "bus_ok opts (scheduleReconnect b)"
  using assms by (auto simp: scheduleReconnect_def bus_ok_def BACKOFF_INITIAL_MS_def BACKOFF_MAX_MS_def)

lemma bus_ok_step:
  assumes "bus_ok opts b" and "eb_step opts ev b b'"
  shows "bus_ok opts b'"
  using assms(2)
proof cases
  case 1
  have "bus_ok opts (connectWithRetry opts (b\<lparr>eb_state := Starting, eb_stopRequested := False\<rparr>))"
    if "eb_state b = Stopped" "has_url (bo_wsUrl opts) \<or> has_url (bo_wsUrlFallback opts)"
  proof (rule connectWithRetry_ok)
    show "eb_backoffTimer (b\<lparr>eb_state := Starting, eb_stopRequested := False\<rparr>) = None"
      using assms(1) that(1) by (cases "eb_backoffTimer b") (auto simp: bus_ok_def)
  qed (use assms(1) that(2) in \<open>simp_all add: bus_ok_def\<close>)
  then show ?thesis using 1 assms(1) by (auto simp: start_def split: if_splits)
next
  case 2
  then show ?thesis using assms(1) by (simp add: stop_def bus_ok_def)
next
  case 3
  have "eb_connectAttempts b \<noteq> 0" using 3 assms(1) by (auto simp: bus_ok_def)
  then show ?thesis using assms(1) unfolding 3(2) timer_fires_def
    by (intro connectWithRetry_ok) (auto simp: bus_ok_def)
next
  case (4 n)
  then show ?thesis using assms(1)
    by (auto simp: connect_ok_def bus_ok_def BACKOFF_INITIAL_MS_def BACKOFF_MAX_MS_def)
next
  case (5 n)
  then show ?thesis using assms(1) unfolding 5(2) connect_failed_def
    by (intro scheduleReconnect_ok) (auto simp: bus_ok_def)
next
  case (6 n)
  show ?thesis
  proof (cases "eb_stopRequested b")
    case True
    then show ?thesis using 6 assms(1) by (auto simp: on_close_def bus_ok_def)
  next
    case False
    then have "b' = scheduleReconnect (b\<lparr>env_sockets := env_sockets b - {n}, eb_state := InBackoff\<rparr>)"
      using 6 by (simp add: on_close_def)
    moreover have "bus_ok opts (scheduleReconnect (b\<lparr>env_sockets := env_sockets b - {n}, eb_state := InBackoff\<rparr>))"
      using 6(3) assms(1) False by (intro scheduleReconnect_ok) (auto simp: bus_ok_def)
    ultimately show ?thesis by simp
  qed
next
  case (7 n ids)
  then show ?thesis using assms(1) by (simp add: install_ok_def bus_ok_def)
next
  case (8 n ids)
  then show ?thesis using assms(1) unfolding 8(2) install_failed_def fst_conv
    by (intro scheduleReconnect_ok) (auto simp: bus_ok_def)
next
  case (9 now number)
  then show ?thesis using assms(1) by (simp add: handleHead_def bus_ok_def)
next
  case (10 now task l)
  then show ?thesis using assms(1) by (simp add: handleLog_def bus_ok_def Let_def)
qed

lemma bus_ok_steps: "eb_steps opts evs b b' \<Longrightarrow> bus_ok opts b \<Longrightarrow> bus_ok opts b'"
  by (induction rule: eb_steps.induct) (auto intro: bus_ok_step)

section \<open>Properties\<close>

text \<open>
  C25. The bus never gets stuck: after any sequence of events, once it has tried to connect and until
  \<open>stop()\<close> is called, it is waiting on a timer of 1 to 30 seconds, or on a connection attempt, or its
  installed socket has not reported a close.
\<close>

theorem bus_never_stuck:
  assumes "eb_steps opts evs (new_bus\<lparr>eb_subscriptions := subs\<rparr>) b"
    and "eb_connectAttempts b \<noteq> 0" and "\<not> eb_stopRequested b"
  shows "(eb_state b = InBackoff \<and> (\<exists>d. eb_backoffTimer b = Some d \<and> 1000 \<le> d \<and> d \<le> 30000))
    \<or> (eb_state b = Connecting \<and> env_connecting b \<noteq> {})
    \<or> (eb_state b = Open \<and> (\<exists>n \<in> env_sockets b. eb_rpc b = Some n))"
proof -
  have "bus_ok opts b" by (rule bus_ok_steps [OF assms(1) bus_okI_new])
  then show ?thesis using assms(2,3)
    by (cases "eb_state b") (auto simp: bus_ok_def BACKOFF_INITIAL_MS_def BACKOFF_MAX_MS_def)
qed

definition sample_options :: bus_options where
  "sample_options = \<lparr>bo_wsUrl = Some ''wss://a'', bo_wsUrlFallback = Some ''wss://b''\<rparr>"

lemmas bus_eval = start_def connectWithRetry_def pickNextUrl_def has_url_def sample_options_def
  new_bus_def stop_def on_close_def connect_failed_def connect_ok_def install_failed_def
  timer_fires_def scheduleReconnect_def BACKOFF_INITIAL_MS_def BACKOFF_MAX_MS_def

theorem bus_never_stuck_witness:
  "\<exists>b. eb_steps sample_options [Ev_start, Ev_connect_failed 1] (new_bus\<lparr>eb_subscriptions := []\<rparr>) b
     \<and> eb_state b = InBackoff \<and> (\<exists>d. eb_backoffTimer b = Some d \<and> 1000 \<le> d \<and> d \<le> 30000)"
proof -
  define b1 where "b1 = connectWithRetry sample_options (new_bus\<lparr>eb_subscriptions := [], eb_state := Starting\<rparr>)"
  define b2 where "b2 = connect_failed 1 b1"
  have "eb_step sample_options Ev_start (new_bus\<lparr>eb_subscriptions := []\<rparr>) b1"
    by (rule eb_step.intros(1)) (simp add: b1_def start_def new_bus_def has_url_def sample_options_def)
  moreover have "1 \<in> env_connecting b1" by (simp add: b1_def bus_eval)
  then have "eb_step sample_options (Ev_connect_failed 1) b1 b2"
    unfolding b2_def by (rule eb_step.intros(5))
  ultimately have run: "eb_steps sample_options [Ev_start, Ev_connect_failed 1]
      (new_bus\<lparr>eb_subscriptions := []\<rparr>) b2"
    by (blast intro: eb_steps.intros)
  have "eb_connectAttempts b2 \<noteq> 0" "\<not> eb_stopRequested b2" "eb_state b2 = InBackoff"
    by (simp_all add: b2_def b1_def bus_eval)
  with bus_never_stuck [OF run] run show ?thesis by auto
qed

definition event_block :: "bus_event \<Rightarrow> int option" where
  "event_block ev =
     (case ev of
        Ev_head now number \<Rightarrow> parseBlockNumber number
      | Ev_log now task l \<Rightarrow> if rl_removed l then None else parseBlockNumber (rl_blockNumber l)
      | _ \<Rightarrow> None)"

definition higher :: "int option \<Rightarrow> int option \<Rightarrow> int option" where
  "higher a b = (case a of None \<Rightarrow> b | Some x \<Rightarrow> (case b of None \<Rightarrow> a | Some y \<Rightarrow> Some (max x y)))"

lemma scheduleReconnect_block [simp]: "eb_lastEventBlock (scheduleReconnect b) = eb_lastEventBlock b"
  by (simp add: scheduleReconnect_def)

lemma connectWithRetry_block [simp]: "eb_lastEventBlock (connectWithRetry opts b) = eb_lastEventBlock b"
  by (simp add: connectWithRetry_def Let_def split: option.splits)

lemma note_block_higher: "eb_lastEventBlock (note_block num b) = higher num (eb_lastEventBlock b)"
  by (auto simp: note_block_def higher_def max_def split: option.splits)

lemma step_block: "eb_step opts ev b b' \<Longrightarrow> eb_lastEventBlock b' = higher (event_block ev) (eb_lastEventBlock b)"
  by (erule eb_stepE)
    (auto simp: start_def stop_def timer_fires_def connect_ok_def connect_failed_def on_close_def
      install_ok_def install_failed_def handleHead_def handleLog_def note_block_higher event_block_def
      higher_def Let_def split: if_splits option.splits)

text \<open>
  \<open>getLastEventBlock\<close> is the highest block seen: after any sequence of events it is the maximum of the
  block numbers that parse in the heads and the logs that are not removed ones, so reconnects,
  failures and stops never lower it.
\<close>

theorem last_block_is_max:
  assumes "eb_steps opts evs b b'"
  shows "eb_lastEventBlock b' = fold (\<lambda>ev. higher (event_block ev)) evs (eb_lastEventBlock b)"
  using assms by (induction rule: eb_steps.induct) (simp_all add: step_block)

theorem last_block_is_max_witness:
  "eb_lastEventBlock (handleHead 5 (Some ''0x0f'') (handleHead 4 (Some ''0x1F'') new_bus)) = Some 31"
proof -
  have "eb_steps sample_options [Ev_head 4 (Some ''0x1F''), Ev_head 5 (Some ''0x0f'')] new_bus
      (handleHead 5 (Some ''0x0f'') (handleHead 4 (Some ''0x1F'') new_bus))"
    by (rule eb_steps_Cons [OF eb_step.intros(9)])+ (rule eb_steps_Nil)
  from last_block_is_max [OF this] show ?thesis
    by (simp add: event_block_def parseBlockNumber_def BigInt_of_def js_trim_def is_space_def numeral_in_def
        hex_digit_def new_bus_def higher_def)
qed

text \<open>
  \<open>stop()\<close> is final when nothing is in flight: if no attempt is pending and no subscriptions are being
  installed when it is called, then whatever the environment does next without a new \<open>start()\<close>, the
  bus stays stopped, with no timer and no further attempt.
\<close>

theorem stop_final_when_settled:
  assumes "env_connecting b = {}" and "env_installing b = {}"
    and "eb_steps opts evs (fst (stop b)) b'" and "Ev_start \<notin> set evs"
  shows "eb_state b' = Stopped \<and> eb_backoffTimer b' = None \<and> eb_connectAttempts b' = eb_connectAttempts b
    \<and> eb_rpc b' = None"
proof -
  define quiet :: "bus \<Rightarrow> bool" where "quiet c \<longleftrightarrow> eb_state c = Stopped \<and> eb_backoffTimer c = None \<and> eb_stopRequested c
    \<and> env_connecting c = {} \<and> env_installing c = {} \<and> eb_rpc c = None
    \<and> eb_connectAttempts c = eb_connectAttempts b" for c
  have step: "quiet d" if "eb_step opts ev c d" "ev \<noteq> Ev_start" "quiet c" for ev c d
    using that by (elim eb_stepE)
      (auto simp: quiet_def stop_def on_close_def handleHead_def handleLog_def Let_def)
  have "quiet d" if "eb_steps opts evs c d" "Ev_start \<notin> set evs" "quiet c" for c d
    using that by (induction rule: eb_steps.induct) (auto intro: step)
  moreover have "quiet (fst (stop b))" using assms(1,2) by (simp add: quiet_def stop_def)
  ultimately show ?thesis using assms(3,4) by (auto simp: quiet_def)
qed

theorem stop_final_when_settled_witness:
  "eb_state (handleHead 5 None (fst (stop new_bus))) = Stopped"
proof -
  have "eb_steps sample_options [Ev_head 5 None] (fst (stop new_bus)) (handleHead 5 None (fst (stop new_bus)))"
    by (rule eb_steps_Cons [OF eb_step.intros(9)])+ (rule eb_steps_Nil)
  from stop_final_when_settled [OF _ _ this] show ?thesis by (simp add: new_bus_def)
qed

text \<open>
  A \<open>stop()\<close> while an attempt is pending does not stop the bus: with any URL configured, the attempt
  that then succeeds leaves the bus open with an installed socket, although \<open>stop()\<close> has returned; if it
  fails instead, the bus stays in the back-off state with no timer, where \<open>start()\<close> throws.
\<close>

theorem stop_during_connect_reopens:
  assumes "has_url (bo_wsUrl opts) \<or> has_url (bo_wsUrlFallback opts)"
  shows "(\<exists>b. eb_steps opts [Ev_start, Ev_stop, Ev_connected 1] new_bus b
        \<and> eb_state b = Open \<and> eb_rpc b = Some 1 \<and> 1 \<in> env_sockets b \<and> eb_stopRequested b)
    \<and> (\<exists>b. eb_steps opts [Ev_start, Ev_stop, Ev_connect_failed 1] new_bus b
        \<and> eb_state b = InBackoff \<and> eb_backoffTimer b = None \<and> start opts b = Inl (NotBeforeStart InBackoff))"
proof -
  define b1 where "b1 = connectWithRetry opts (new_bus\<lparr>eb_state := Starting, eb_stopRequested := False\<rparr>)"
  define b2 where "b2 = fst (stop b1)"
  have b1: "eb_connectAttempts b1 = 1" "env_connecting b1 = {1}" "env_sockets b1 = {1}"
    using assms pickNextUrl_None [of opts "new_bus\<lparr>eb_state := Starting, eb_stopRequested := False\<rparr>"]
    by (auto simp: b1_def connectWithRetry_def Let_def new_bus_def split: option.splits)
  have start: "eb_step opts Ev_start new_bus b1"
    using assms by (intro eb_step.intros(1)) (auto simp: b1_def start_def new_bus_def)
  have stop: "eb_step opts Ev_stop b1 b2" unfolding b2_def by (rule eb_step.intros(2))
  have b2: "env_connecting b2 = {1}" "env_sockets b2 = {1}" "eb_stopRequested b2" "eb_backoffTimer b2 = None"
    using b1 by (simp_all add: b2_def stop_def)
  have "eb_step opts (Ev_connected 1) b2 (connect_ok 1 b2)"
    and "eb_step opts (Ev_connect_failed 1) b2 (connect_failed 1 b2)"
    using b2 by (auto intro: eb_step.intros)
  then have "eb_steps opts [Ev_start, Ev_stop, Ev_connected 1] new_bus (connect_ok 1 b2)"
    and "eb_steps opts [Ev_start, Ev_stop, Ev_connect_failed 1] new_bus (connect_failed 1 b2)"
    using start stop by (blast intro: eb_steps.intros)+
  moreover have "eb_state (connect_ok 1 b2) = Open \<and> eb_rpc (connect_ok 1 b2) = Some 1
      \<and> 1 \<in> env_sockets (connect_ok 1 b2) \<and> eb_stopRequested (connect_ok 1 b2)"
    using b2 by (simp add: connect_ok_def)
  moreover have "eb_state (connect_failed 1 b2) = InBackoff \<and> eb_backoffTimer (connect_failed 1 b2) = None
      \<and> start opts (connect_failed 1 b2) = Inl (NotBeforeStart InBackoff)"
    using b2 by (simp add: connect_failed_def scheduleReconnect_def start_def)
  ultimately show ?thesis by blast
qed

theorem stop_during_connect_reopens_witness:
  "\<exists>b. eb_steps sample_options [Ev_start, Ev_stop, Ev_connected 1] new_bus b \<and> eb_state b = Open"
  using stop_during_connect_reopens [of sample_options] by (auto simp: sample_options_def has_url_def)

end
