(* ===== verification/DaemonSched.thy ===== *)
theory DaemonSched
  imports Complex_Main KeeperChecks CircuitBreaker EventBus "HOL-Library.Product_Lexorder"
begin

text \<open>
  The scheduler of the keeper daemon: command line and task list (\<open>src/keeper/src/run/cli.ts\<close>), first and later
  run times (\<open>scheduler.ts\<close>, the jitter of \<open>shared/backoff.ts\<close>), and the parts of \<open>daemon.ts\<close> that decide when a
  task runs: the adaptive interval, the events of the bus, the choice of the tasks that are due, the idle sleep
  and the watch on the balance of the account.

  \<^item> \<open>Math.random()\<close> and \<open>Date.now()\<close> are arguments, also what \<open>Date.parse\<close> reads from a status. Times and
    intervals are integers; a jittered number is an exact rational before it is rounded.
  \<^item> What a task does is not modelled: a run ends at some time, and events may arrive before that.
\<close>

section \<open>Command line (cli.ts)\<close>

record cli_options =
  cl_envPath :: "string option"
  cl_once :: bool
  cl_tasksRaw :: "string option"
  cl_rest :: "string list"
  cl_command :: string
  cl_args :: "string list"

definition ALLOWED_DAEMON_TASKS :: "string list" where
  "ALLOWED_DAEMON_TASKS = [''poke'', ''harvest-staking'', ''sweep-market'', ''sweep-listings'', ''expire-offers'',
     ''compound-shareholders'', ''compound-lp'', ''checkpoint-before-expiry'', ''automax-bonus'']"

definition ALL_TASKS :: "string list" where
  "ALL_TASKS = [''poke'', ''harvest-staking'', ''sweep-market'', ''sweep-listings'', ''expire-offers'',
     ''checkpoint-before-expiry'', ''compound-shareholders'', ''compound-lp'', ''automax-bonus'']"

definition TASK_ALIASES :: "(string \<times> string) list" where
  "TASK_ALIASES =
     [(''harveststaking'', ''harvest-staking''), (''harvest_staking'', ''harvest-staking''),
      (''sweepmarket'', ''sweep-market''), (''sweep_market'', ''sweep-market''), (''market'', ''sweep-market''),
      (''sweeplistings'', ''sweep-listings''), (''sweep_listings'', ''sweep-listings''), (''listings'', ''sweep-listings''),
      (''expireoffers'', ''expire-offers''), (''expire_offers'', ''expire-offers''), (''expire'', ''expire-offers''),
      (''compoundshareholders'', ''compound-shareholders''), (''compound_shareholders'', ''compound-shareholders''),
      (''compoundbarons'', ''compound-shareholders''), (''compound_barons'', ''compound-shareholders''),
      (''barons'', ''compound-shareholders''),
      (''compoundlp'', ''compound-lp''), (''compound_lp'', ''compound-lp''), (''lp'', ''compound-lp''),
      (''checkpointbeforeexpiry'', ''checkpoint-before-expiry''),
      (''checkpoint_before_expiry'', ''checkpoint-before-expiry''), (''checkpoint-expiry'', ''checkpoint-before-expiry''),
      (''automaxbonus'', ''automax-bonus''), (''automax_bonus'', ''automax-bonus''), (''automax'', ''automax-bonus'')]"

text \<open>An error of the command line: a null byte in the path, or the word that is no task.\<close>

datatype cli_error = Null_byte_in_path | Unknown_task string

text \<open>The loop over the arguments; an option at the end takes \<open>undefined\<close>.\<close>

fun parseLoop :: "string list \<Rightarrow> cli_options \<Rightarrow> cli_error + cli_options" where
  "parseLoop [] out = Inr out"
| "parseLoop (a # argv) out =
     (if a = ''--env''
      then (case argv of
              [] \<Rightarrow> parseLoop [] (out\<lparr>cl_envPath := None\<rparr>)
            | rawEnv # rest \<Rightarrow>
                if (CHR 0x00) \<in> set rawEnv then Inl Null_byte_in_path
                else parseLoop rest (out\<lparr>cl_envPath := Some rawEnv\<rparr>))
      else if a = ''--once'' then parseLoop argv (out\<lparr>cl_once := True\<rparr>)
      else if a = ''--tasks''
      then (case argv of
              [] \<Rightarrow> parseLoop [] (out\<lparr>cl_tasksRaw := None\<rparr>)
            | raw # rest \<Rightarrow> parseLoop rest (out\<lparr>cl_tasksRaw := Some raw\<rparr>))
      else parseLoop argv (out\<lparr>cl_rest := cl_rest out @ [a]\<rparr>))"

definition parseCli :: "string list \<Rightarrow> cli_error + cli_options" where
  "parseCli argv =
     (case parseLoop argv \<lparr>cl_envPath = None, cl_once = False, cl_tasksRaw = None, cl_rest = [],
        cl_command = ''help'', cl_args = []\<rparr> of
        Inl e \<Rightarrow> Inl e
      | Inr out \<Rightarrow> Inr (out\<lparr>cl_command := (case cl_rest out of [] \<Rightarrow> ''help'' | c # _ \<Rightarrow> c),
                          cl_args := drop 1 (cl_rest out)\<rparr>))"

definition is_separator :: "char \<Rightarrow> bool" where
  "is_separator c \<longleftrightarrow> is_space c \<or> c = CHR '',''"

text \<open>The non-empty pieces of \<open>split\<close> at runs of separators; \<open>acc\<close> is the piece read so far, reversed.\<close>

fun pieces :: "string \<Rightarrow> string \<Rightarrow> string list" where
  "pieces acc [] = (if acc = [] then [] else [rev acc])"
| "pieces acc (c # s) =
     (if is_separator c then (if acc = [] then [] else [rev acc]) @ pieces [] s else pieces (c # acc) s)"

fun taskLoop :: "string list \<Rightarrow> string list \<Rightarrow> cli_error + string list" where
  "taskLoop [] out = Inr out"
| "taskLoop (p0 # parts) out =
     (let p = toLowerCase p0 in
      if p = ''all'' \<or> p = ''*'' then Inr ALL_TASKS
      else let normalized = (case map_of TASK_ALIASES p of Some t \<Rightarrow> t | None \<Rightarrow> p) in
           if normalized \<notin> set ALLOWED_DAEMON_TASKS then Inl (Unknown_task p0)
           else taskLoop parts (if normalized \<in> set out then out else out @ [normalized]))"

definition parseTasksList :: "string option \<Rightarrow> cli_error + string list option" where
  "parseTasksList raw =
     (case raw of
        None \<Rightarrow> Inr None
      | Some r \<Rightarrow>
          (let s = js_trim r in
           if s = [] then Inr None
           else case taskLoop (pieces [] s) [] of
                  Inl e \<Rightarrow> Inl e
                | Inr out \<Rightarrow> Inr (if out = [] then None else Some out)))"

section \<open>Intervals (backoff.ts, scheduler.ts)\<close>

definition applySymmetricJitterBps :: "rat \<Rightarrow> int \<Rightarrow> json \<Rightarrow> rat" where
  "applySymmetricJitterBps random v jitterBps =
     (let base = (if v \<ge> 0 then v else 0) in
      if base = 0 then 0
      else let parsedJitter = the (parseNonNegativeSafeInteger jitterBps (Some 0)) in
           if parsedJitter = 0 then of_int base
           else let spread = of_int (min parsedJitter 10000) / 10000;
                    offset = (random * 2 - 1) * spread;
                    jittered = of_int base * (1 + offset)
                in if jittered \<ge> 0 then jittered else of_int base)"

definition jitteredIntervalMs :: "rat \<Rightarrow> int \<Rightarrow> json \<Rightarrow> int" where
  "jitteredIntervalMs random intervalMs jitterBps =
     (let baseIntervalMs = the (parsePositiveSafeInteger (JNum intervalMs) (Some 0)) in
      if baseIntervalMs = 0 then 0
      else max 0 (round (applySymmetricJitterBps random baseIntervalMs jitterBps)))"

definition MAX_FUTURE_SKEW_MS :: int where "MAX_FUTURE_SKEW_MS = 300000"

text \<open>\<open>parsed\<close> is what \<open>Date.parse\<close> reads from a non-empty last attempt, if there is one and it is a date.\<close>

definition computeInitialNextRunMs :: "int \<Rightarrow> int option \<Rightarrow> int \<Rightarrow> int" where
  "computeInitialNextRunMs nowMs parsed intervalMs =
     (case parsed of
        None \<Rightarrow> nowMs
      | Some parsed \<Rightarrow>
          if parsed - nowMs > MAX_FUTURE_SKEW_MS then nowMs
          else (case parsePositiveSafeInteger (JNum intervalMs) None of
                  None \<Rightarrow> nowMs
                | Some iv \<Rightarrow> (let dueAt = parsed + iv in if dueAt \<le> nowMs then nowMs else dueAt)))"

datatype ws_status = Ws_disabled | Ws_healthy | Ws_recently_disconnected | Ws_disconnected

definition ws_status_of :: "bool \<Rightarrow> bool \<Rightarrow> int \<Rightarrow> int \<Rightarrow> int \<Rightarrow> ws_status" where
  "ws_status_of hasUrl healthy lastMessageAtMs graceMs nowMs =
     (if \<not> hasUrl then Ws_disabled
      else if healthy then Ws_healthy
      else if lastMessageAtMs > 0 \<and> nowMs - lastMessageAtMs \<le> graceMs then Ws_recently_disconnected
      else Ws_disconnected)"

definition computeWsStatus :: "bus_options \<Rightarrow> bus \<Rightarrow> int \<Rightarrow> int \<Rightarrow> ws_status" where
  "computeWsStatus opts b graceMs nowMs =
     ws_status_of (has_url (bo_wsUrl opts)) (isHealthy nowMs b) (eb_lastMessageAtMs b) graceMs nowMs"

definition ADAPTIVE_CADENCE_TASKS :: "string list" where
  "ADAPTIVE_CADENCE_TASKS = [''poke'', ''sweep-market'', ''sweep-listings'', ''expire-offers'']"

record cadence_config =
  cc_intervalSecsPrimary :: int
  cc_intervalSecsFallback :: int
  cc_safetyNetIntervalSecs :: int

definition effectiveIntervalMsForTask :: "string \<Rightarrow> int \<Rightarrow> cadence_config \<Rightarrow> tier \<Rightarrow> ws_status \<Rightarrow> int" where
  "effectiveIntervalMsForTask taskName intervalMs config tier wsStatus =
     (if taskName \<notin> set ADAPTIVE_CADENCE_TASKS then intervalMs
      else if wsStatus = Ws_healthy \<or> wsStatus = Ws_recently_disconnected
      then cc_safetyNetIntervalSecs config * 1000
      else if tier = tier.Primary then cc_intervalSecsPrimary config * 1000
      else cc_intervalSecsFallback config * 1000)"

section \<open>Tasks and events (daemon.ts)\<close>

record daemon_task =
  tk_name :: string
  tk_statusKey :: string
  tk_intervalMs :: int
  tk_nextRunAtMs :: int
  tk_lastRunEndMs :: int

datatype event_decision = Ev_ignored | Ev_run | Ev_deferred int | Ev_coalesced

definition decideEventTrigger :: "daemon_task \<Rightarrow> int \<Rightarrow> int \<Rightarrow> event_decision" where
  "decideEventTrigger state nowMs minRepeatMs =
     (if tk_nextRunAtMs state \<le> nowMs then Ev_ignored
      else let earliestAllowedMs =
                 (if tk_lastRunEndMs state > 0 \<and> minRepeatMs > 0 then tk_lastRunEndMs state + minRepeatMs else 0)
           in if earliestAllowedMs > nowMs
              then (if earliestAllowedMs < tk_nextRunAtMs state then Ev_deferred earliestAllowedMs else Ev_coalesced)
              else Ev_run)"

text \<open>\<open>new Map(tasks.map(...))\<close>: a later task of the same name replaces an earlier one.\<close>

definition taskByName :: "daemon_task list \<Rightarrow> string \<Rightarrow> nat option" where
  "taskByName tasks = map_of (rev (map (\<lambda>(i, t). (tk_name t, i)) (enumerate 0 tasks)))"

text \<open>The second component says whether the idle sleep is ended.\<close>

definition onEventTrigger ::
  "string list \<Rightarrow> int \<Rightarrow> string \<Rightarrow> int \<Rightarrow> daemon_task list \<Rightarrow> daemon_task list \<times> bool" where
  "onEventTrigger allowedEventTasks eventMinRepeatMs taskName nowMs tasks =
     (if taskName \<notin> set allowedEventTasks then (tasks, False)
      else case taskByName tasks taskName of
             None \<Rightarrow> (tasks, False)
           | Some i \<Rightarrow>
               (case decideEventTrigger (tasks ! i) nowMs eventMinRepeatMs of
                  Ev_ignored \<Rightarrow> (tasks, False)
                | Ev_coalesced \<Rightarrow> (tasks, False)
                | Ev_deferred scheduledAtMs \<Rightarrow> (tasks[i := (tasks ! i)\<lparr>tk_nextRunAtMs := scheduledAtMs\<rparr>], True)
                | Ev_run \<Rightarrow> (tasks[i := (tasks ! i)\<lparr>tk_nextRunAtMs := 0\<rparr>], True)))"

text \<open>
  The tasks of the daemon: the selected names, without the settlement tasks when settlement is on, and their
  first run times. A definition is the status key and the interval in seconds; an unknown name throws.
\<close>

fun buildTasks :: "(string \<Rightarrow> (string \<times> int) option) \<Rightarrow> string list \<Rightarrow> string + daemon_task list" where
  "buildTasks defs [] = Inr []"
| "buildTasks defs (name # names) =
     (case defs name of
        None \<Rightarrow> Inl name
      | Some (statusKey, intervalSecs) \<Rightarrow>
          map_sum id ((#) \<lparr>tk_name = name, tk_statusKey = statusKey, tk_intervalMs = intervalSecs * 1000,
            tk_nextRunAtMs = 0, tk_lastRunEndMs = 0\<rparr>) (buildTasks defs names))"

definition daemonTasks ::
  "string list \<Rightarrow> bool \<Rightarrow> (string \<Rightarrow> (string \<times> int) option) \<Rightarrow> string list \<Rightarrow> string + daemon_task list" where
  "daemonTasks settlementTaskSet settlementEnabled defs selected =
     buildTasks defs (filter (\<lambda>name. \<not> (settlementEnabled \<and> name \<in> set settlementTaskSet)) selected)"

definition initialRuns ::
  "(string \<Rightarrow> int option) \<Rightarrow> int \<Rightarrow> cadence_config \<Rightarrow> tier \<Rightarrow> daemon_task list \<Rightarrow> daemon_task list" where
  "initialRuns lastAttempt now0 config initialTier tasks =
     map (\<lambda>t. t\<lparr>tk_nextRunAtMs := computeInitialNextRunMs now0 (lastAttempt (tk_statusKey t))
        (effectiveIntervalMsForTask (tk_name t) (tk_intervalMs t) config initialTier Ws_disabled)\<rparr>) tasks"

section \<open>The interval loop\<close>

definition TASK_PRIORITY :: "(string \<times> int) list" where
  "TASK_PRIORITY = [(''harvest-staking'', 0), (''poke'', 1), (''sweep-market'', 2), (''sweep-listings'', 3),
     (''expire-offers'', 4), (''compound-shareholders'', 5), (''compound-lp'', 6), (''automax-bonus'', 7),
     (''checkpoint-before-expiry'', 8)]"

definition task_rank :: "daemon_task \<Rightarrow> int \<times> int" where
  "task_rank t = (case map_of TASK_PRIORITY (tk_name t) of Some p \<Rightarrow> p | None \<Rightarrow> 99, tk_nextRunAtMs t)"

text \<open>The positions of the tasks that are due, in the order in which they run.\<close>

definition dueTasks :: "int \<Rightarrow> daemon_task list \<Rightarrow> nat list" where
  "dueTasks now tasks =
     sort_key (\<lambda>i. task_rank (tasks ! i)) (filter (\<lambda>i. now \<ge> tk_nextRunAtMs (tasks ! i)) [0..<length tasks])"

text \<open>
  The sleep of a daemon with nothing due. Without tasks \<open>Math.min\<close> of nothing is infinite and
  \<open>new Date(Infinity).toISOString()\<close>, evaluated for the log line, throws.
\<close>

definition idleSleepMs :: "int \<Rightarrow> daemon_task list \<Rightarrow> int option" where
  "idleSleepMs now tasks =
     (if tasks = [] then None
      else let nextAt = Min (set (map tk_nextRunAtMs tasks)) in Some (max 250 (nextAt - now)))"

record daemon_config =
  da_allowedEventTasks :: "string list"
  da_eventMinRepeatSecs :: int
  da_cadence :: cadence_config
  da_jitterBps :: json
  da_wsGraceSecs :: int

definition eventMinRepeatMs :: "daemon_config \<Rightarrow> int" where
  "eventMinRepeatMs config = max 0 (da_eventMinRepeatSecs config * 1000)"

text \<open>What a run brings: the events that arrive meanwhile, its end, whether it threw the error of the breaker.\<close>

record task_run =
  rn_events :: "(string \<times> int) list"
  rn_endedAtMs :: int
  rn_breakerError :: bool
  rn_tier :: tier
  rn_wsStatus :: ws_status
  rn_random :: rat

definition handleEvents :: "daemon_config \<Rightarrow> (string \<times> int) list \<Rightarrow> daemon_task list \<Rightarrow> daemon_task list" where
  "handleEvents config evs tasks =
     foldl (\<lambda>ts e. fst (onEventTrigger (da_allowedEventTasks config) (eventMinRepeatMs config) (fst e) (snd e) ts)) tasks evs"

definition finishRun :: "daemon_config \<Rightarrow> task_run \<Rightarrow> daemon_task \<Rightarrow> daemon_task" where
  "finishRun config r t =
     (let baseIntervalMs = effectiveIntervalMsForTask (tk_name t) (tk_intervalMs t) (da_cadence config) (rn_tier r) (rn_wsStatus r);
          nextDelayMs = jitteredIntervalMs (rn_random r) baseIntervalMs (da_jitterBps config)
      in t\<lparr>tk_lastRunEndMs := rn_endedAtMs r, tk_nextRunAtMs := rn_endedAtMs r + nextDelayMs\<rparr>)"

definition runTask :: "daemon_config \<Rightarrow> task_run \<Rightarrow> nat \<Rightarrow> daemon_task list \<Rightarrow> daemon_task list" where
  "runTask config r i tasks =
     (let tasks = handleEvents config (rn_events r) tasks in tasks[i := finishRun config r (tasks ! i)])"

text \<open>\<open>Inl\<close>: the lock is lost, or the breaker's error leaves the daemon, with the tasks as they are then.\<close>

fun runDue ::
  "daemon_config \<Rightarrow> (nat \<Rightarrow> bool) \<Rightarrow> (nat \<Rightarrow> task_run) \<Rightarrow> nat list \<Rightarrow> daemon_task list
     \<Rightarrow> daemon_task list + daemon_task list" where
  "runDue config lockHeld runs [] tasks = Inr tasks"
| "runDue config lockHeld runs (i # due) tasks =
     (if \<not> lockHeld i then Inl tasks
      else let tasks' = runTask config (runs i) i tasks in
           if rn_breakerError (runs i) then Inl tasks'
           else runDue config lockHeld runs due tasks')"

section \<open>The balance of the account\<close>

definition trim_zeros :: "string \<Rightarrow> string" where
  "trim_zeros s = rev (dropWhile (\<lambda>c. c = CHR ''0'') (rev s))"

definition pad_start :: "nat \<Rightarrow> string \<Rightarrow> string" where
  "pad_start w s = replicate (w - length s) CHR ''0'' @ s"

definition formatWeiAsEth :: "int \<Rightarrow> string" where
  "formatWeiAsEth wei =
     (let neg = wei < 0; a = (if neg then - wei else wei);
          whole = a div 1000000000000000000;
          frac = trim_zeros (pad_start 18 (int_string (a mod 1000000000000000000)))
      in (if neg then ''-'' else '''') @ int_string whole @ (if frac = [] then '''' else ''.'' @ frac))"

definition decideGasBalanceAlert :: "int \<Rightarrow> int \<Rightarrow> int \<Rightarrow> int \<Rightarrow> int \<Rightarrow> bool \<times> bool" where
  "decideGasBalanceAlert balanceWei minWei nowMs lastAlertAtMs alertRepeatMs =
     (if \<not> balanceWei < minWei then (False, False)
      else (True, lastAlertAtMs = 0 \<or> nowMs - lastAlertAtMs \<ge> alertRepeatMs))"

record gas_watch =
  gw_lastCheckMs :: int
  gw_lastAlertMs :: int
  gw_low :: bool

record gas_config =
  gc_minWei :: "int option"
  gc_checkIntervalSecs :: int
  gc_alertRepeatSecs :: int

text \<open>One pass: when it starts, the balance read (\<open>None\<close>: the read fails) and when. The flag: an alert is sent.\<close>

definition gasWatch :: "gas_config \<Rightarrow> int \<Rightarrow> (int \<times> int) option \<Rightarrow> gas_watch \<Rightarrow> gas_watch \<times> bool" where
  "gasWatch config startMs answer w =
     (case gc_minWei config of
        None \<Rightarrow> (w, False)
      | Some minWei \<Rightarrow>
          if startMs - gw_lastCheckMs w \<ge> gc_checkIntervalSecs config * 1000
          then (let w = w\<lparr>gw_lastCheckMs := startMs\<rparr> in
                case answer of
                  None \<Rightarrow> (w, False)
                | Some (balanceWei, nowMs) \<Rightarrow>
                    (case decideGasBalanceAlert balanceWei minWei nowMs (gw_lastAlertMs w)
                            (gc_alertRepeatSecs config * 1000) of
                       (True, alert) \<Rightarrow>
                         (w\<lparr>gw_low := True, gw_lastAlertMs := (if alert then nowMs else gw_lastAlertMs w)\<rparr>, alert)
                     | (False, _) \<Rightarrow>
                         (w\<lparr>gw_lastAlertMs := (if gw_low w then 0 else gw_lastAlertMs w), gw_low := False\<rparr>, False)))
          else (w, False))"

section \<open>The table of tasks (run/tasks.ts)\<close>

record interval_config =
  ic_poke :: int
  ic_harvestStaking :: int
  ic_sweepMarket :: int
  ic_sweepListings :: int
  ic_expireOffers :: int
  ic_compoundShareholders :: int
  ic_compoundLp :: int
  ic_checkpointBeforeExpiry :: int
  ic_automaxBonus :: int

definition buildDaemonTaskDefs :: "interval_config \<Rightarrow> string \<Rightarrow> (string \<times> int) option" where
  "buildDaemonTaskDefs config = map_of
     [(''poke'', (''poke'', ic_poke config)),
      (''harvest-staking'', (''harvestStaking'', ic_harvestStaking config)),
      (''sweep-market'', (''autoFurnace'', ic_sweepMarket config)),
      (''sweep-listings'', (''sweepListings'', ic_sweepListings config)),
      (''expire-offers'', (''expireOffers'', ic_expireOffers config)),
      (''compound-shareholders'', (''compoundShareholders'', ic_compoundShareholders config)),
      (''compound-lp'', (''compoundLp'', ic_compoundLp config)),
      (''checkpoint-before-expiry'', (''checkpointBeforeExpiry'', ic_checkpointBeforeExpiry config)),
      (''automax-bonus'', (''automaxBonus'', ic_automaxBonus config))]"

section \<open>Hot events (run/hot_events.ts)\<close>

record hot_event =
  he_taskName :: string
  he_contractKey :: string
  he_eventSignature :: string
  he_label :: string

definition HOT_EVENT_SPECS :: "hot_event list" where
  "HOT_EVENT_SPECS =
     [\<lparr>he_taskName = ''poke'', he_contractKey = ''MineCore'',
       he_eventSignature = ''event Takeover(uint256 indexed reignId, address indexed previousKing, address indexed newKing, uint256 pricePaid, uint256 referencePrice, uint256 reignDuration)'',
       he_label = ''MineCore.Takeover''\<rparr>,
      \<lparr>he_taskName = ''sweep-market'', he_contractKey = ''MarketRouter'',
       he_eventSignature = ''event BonusTargetEscrowConfigured(uint256 indexed offerId, address indexed buyer, uint256 targetBonusBps, uint256 slippageBps)'',
       he_label = ''MarketRouter.BonusTargetEscrowConfigured''\<rparr>,
      \<lparr>he_taskName = ''sweep-market'', he_contractKey = ''MarketRouter'',
       he_eventSignature = ''event BonusTargetEscrowCancelled(uint256 indexed offerId, address indexed buyer, uint256 refundClaim)'',
       he_label = ''MarketRouter.BonusTargetEscrowCancelled''\<rparr>,
      \<lparr>he_taskName = ''expire-offers'', he_contractKey = ''MarketRouter'',
       he_eventSignature = ''event BonusTargetEscrowExpired(uint256 indexed offerId, address indexed buyer, uint256 refundClaim)'',
       he_label = ''MarketRouter.BonusTargetEscrowExpired''\<rparr>,
      \<lparr>he_taskName = ''sweep-listings'', he_contractKey = ''MarketRouter'',
       he_eventSignature = ''event LockListed(uint256 indexed tokenId, address indexed seller, uint256 minClaimOut, uint256 listedAtTime, uint256 expiresAtTime)'',
       he_label = ''MarketRouter.LockListed''\<rparr>,
      \<lparr>he_taskName = ''sweep-listings'', he_contractKey = ''MarketRouter'',
       he_eventSignature = ''event LockDelisted(uint256 indexed tokenId, address indexed seller, uint8 reason)'',
       he_label = ''MarketRouter.LockDelisted''\<rparr>]"

record hot_group =
  hg_key :: string
  hg_taskName :: string
  hg_address :: string
  hg_topics :: "string list"
  hg_labels :: "string list"

definition ZERO_ADDRESS_TEXT :: string where
  "ZERO_ADDRESS_TEXT = ''0x'' @ replicate 40 CHR ''0''"

definition group_key :: "string \<Rightarrow> string \<Rightarrow> string" where
  "group_key taskName address = taskName @ ''|'' @ toLowerCase address"

text \<open>The group of a key gets a topic and a label; the groups are kept in the order in which they were made.\<close>

fun extend_group :: "string \<Rightarrow> string \<Rightarrow> string \<Rightarrow> hot_group list \<Rightarrow> hot_group list" where
  "extend_group key topic label [] = []"
| "extend_group key topic label (g # gs) =
     (if hg_key g = key
      then g\<lparr>hg_topics := (if topic \<in> set (hg_topics g) then hg_topics g else hg_topics g @ [topic]),
             hg_labels := hg_labels g @ [label]\<rparr> # gs
      else g # extend_group key topic label gs)"

fun groupLoop ::
  "(string \<Rightarrow> string) \<Rightarrow> (string \<Rightarrow> string option) \<Rightarrow> hot_event list \<Rightarrow> hot_group list \<Rightarrow> hot_group list" where
  "groupLoop selector addressOf [] groups = groups"
| "groupLoop selector addressOf (row # rows) groups =
     groupLoop selector addressOf rows
       (case addressOf (he_contractKey row) of
          None \<Rightarrow> groups
        | Some address \<Rightarrow>
            if address = '''' \<or> address = ZERO_ADDRESS_TEXT then groups
            else let key = group_key (he_taskName row) address; topic0 = selector (he_eventSignature row) in
                 if key \<in> set (map hg_key groups) then extend_group key topic0 (he_label row) groups
                 else groups @ [\<lparr>hg_key = key, hg_taskName = he_taskName row, hg_address = address,
                                  hg_topics = [topic0], hg_labels = [he_label row]\<rparr>])"

definition hot_filter :: "hot_group \<Rightarrow> log_filter" where
  "hot_filter g = \<lparr>lf_address = [hg_address g], lf_topics = [Some (hg_topics g)]\<rparr>"

text \<open>The subscriptions: task and filter. \<open>selector\<close> is the hash of an event signature, a parameter.\<close>

definition resolveHotSubscriptions ::
  "(string \<Rightarrow> string) \<Rightarrow> (string \<Rightarrow> string option) \<Rightarrow> (string \<times> log_filter) list" where
  "resolveHotSubscriptions selector addressOf =
     map (\<lambda>g. (hg_taskName g, hot_filter g)) (groupLoop selector addressOf HOT_EVENT_SPECS [])"

text \<open>The registration before the bus starts: only enabled tasks that this daemon runs.\<close>

fun registerHot ::
  "string list \<Rightarrow> daemon_task list \<Rightarrow> (string \<times> log_filter) list \<Rightarrow> bus \<Rightarrow> bus_error + bus" where
  "registerHot enabled tasks [] b = Inr b"
| "registerHot enabled tasks ((taskName, f) # subs) b =
     (if taskName \<notin> set enabled \<or> taskByName tasks taskName = None then registerHot enabled tasks subs b
      else case subscribe taskName f b of
             Inl e \<Rightarrow> Inl e
           | Inr b \<Rightarrow> registerHot enabled tasks subs b)"

section \<open>Lemmas\<close>

lemma allowed_defined: "name \<in> set ALLOWED_DAEMON_TASKS \<Longrightarrow> buildDaemonTaskDefs config name \<noteq> None"
  by (auto simp: ALLOWED_DAEMON_TASKS_def buildDaemonTaskDefs_def)

lemma buildTasks_all:
  "(\<And>n. n \<in> set names \<Longrightarrow> defs n \<noteq> None) \<Longrightarrow> \<exists>ts. buildTasks defs names = Inr ts \<and> map tk_name ts = names"
proof (induction names)
  case (Cons name names)
  then obtain ts where "buildTasks defs names = Inr ts" "map tk_name ts = names" by auto
  moreover obtain d where "defs name = Some d" using Cons.prems by fastforce
  ultimately show ?case by (cases d) simp
qed simp

lemma ALL_TASKS_set: "set ALL_TASKS = set ALLOWED_DAEMON_TASKS" "distinct ALL_TASKS" "ALL_TASKS \<noteq> []"
  by (simp_all add: ALL_TASKS_def ALLOWED_DAEMON_TASKS_def insert_commute)

lemma taskLoop_result:
  "taskLoop parts out = Inr res \<Longrightarrow> distinct out \<Longrightarrow> set out \<subseteq> set ALLOWED_DAEMON_TASKS \<Longrightarrow>
     distinct res \<and> set res \<subseteq> set ALLOWED_DAEMON_TASKS"
proof (induction parts out rule: taskLoop.induct)
  case (2 p0 parts out)
  show ?case
  proof (cases "toLowerCase p0 = ''all'' \<or> toLowerCase p0 = ''*''")
    case True
    then show ?thesis using 2(2) by (simp add: Let_def ALL_TASKS_set)
  next
    case False
    define t where "t = (case map_of TASK_ALIASES (toLowerCase p0) of Some t \<Rightarrow> t | None \<Rightarrow> toLowerCase p0)"
    have t: "t \<in> set ALLOWED_DAEMON_TASKS" "taskLoop parts (if t \<in> set out then out else out @ [t]) = Inr res"
      using 2(2) False by (simp_all add: Let_def t_def [symmetric] split: if_splits)
    show ?thesis using 2(1) [OF refl False t_def] t 2(3,4) by auto
  qed
qed simp

text \<open>A task name has no separator and no upper-case letter, and is no alias.\<close>

lemma allowed_plain:
  assumes "t \<in> set ALLOWED_DAEMON_TASKS"
  shows "toLowerCase t = t" "map_of TASK_ALIASES t = None" "t \<noteq> ''all''" "t \<noteq> ''*''" "t \<noteq> []"
    "list_all (\<lambda>c. \<not> is_separator c) t"
proof -
  have "list_all (\<lambda>t. toLowerCase t = t \<and> map_of TASK_ALIASES t = None \<and> t \<noteq> ''all'' \<and> t \<noteq> ''*'' \<and> t \<noteq> []
      \<and> list_all (\<lambda>c. \<not> is_separator c) t) ALLOWED_DAEMON_TASKS"
    by code_simp
  then have "toLowerCase t = t \<and> map_of TASK_ALIASES t = None \<and> t \<noteq> ''all'' \<and> t \<noteq> ''*'' \<and> t \<noteq> []
      \<and> list_all (\<lambda>c. \<not> is_separator c) t"
    using assms by (simp only: list_all_iff [of _ ALLOWED_DAEMON_TASKS]) blast
  then show "toLowerCase t = t" "map_of TASK_ALIASES t = None" "t \<noteq> ''all''" "t \<noteq> ''*''" "t \<noteq> []"
    "list_all (\<lambda>c. \<not> is_separator c) t" by blast+
qed

lemma pieces_word:
  "list_all (\<lambda>c. \<not> is_separator c) w \<Longrightarrow> pieces acc (w @ s) = pieces (rev w @ acc) s"
  by (induction w arbitrary: acc) auto

lemma pieces_join:
  "(\<And>w. w \<in> set ws \<Longrightarrow> w \<noteq> [] \<and> list_all (\<lambda>c. \<not> is_separator c) w) \<Longrightarrow> pieces [] (join_comma ws) = ws"
proof (induction ws rule: join_comma.induct)
  case (2 s)
  then show ?case using pieces_word [of s "[]" "[]"] by simp
next
  case (3 s t ss)
  have "list_all (\<lambda>c. \<not> is_separator c) s" "s \<noteq> []" using 3(2) [of s] by auto
  then have "pieces [] (join_comma (s # t # ss)) = s # pieces [] (join_comma (t # ss))"
    using pieces_word [of s "[]" "CHR '','' # join_comma (t # ss)"] by (simp add: is_separator_def)
  then show ?case using 3 by simp
qed simp

lemma taskLoop_canonical:
  "set parts \<subseteq> set ALLOWED_DAEMON_TASKS \<Longrightarrow> distinct (out @ parts) \<Longrightarrow> taskLoop parts out = Inr (out @ parts)"
proof (induction parts arbitrary: out)
  case (Cons t parts)
  have t: "t \<in> set ALLOWED_DAEMON_TASKS" "t \<notin> set out" using Cons.prems by auto
  have "taskLoop parts (out @ [t]) = Inr ((out @ [t]) @ parts)" using Cons.prems by (intro Cons.IH) auto
  then show ?case using t allowed_plain [OF t(1)] by (simp add: Let_def)
qed simp

lemma join_comma_chars:
  "c \<in> set (join_comma ws) \<Longrightarrow> c = CHR '','' \<or> (\<exists>w \<in> set ws. c \<in> set w)"
  by (induction ws rule: join_comma.induct) auto

lemma join_comma_nonempty: "ws \<noteq> [] \<Longrightarrow> hd ws \<noteq> [] \<Longrightarrow> join_comma ws \<noteq> []"
  by (induction ws rule: join_comma.induct) auto

lemma parse_join:
  assumes "set out \<subseteq> set ALLOWED_DAEMON_TASKS" "distinct out" "out \<noteq> []"
  shows "parseTasksList (Some (join_comma out)) = Inr (Some out)"
proof -
  have w: "w \<noteq> [] \<and> list_all (\<lambda>c. \<not> is_separator c) w" if "w \<in> set out" for w
    using allowed_plain(5,6) [of w] assms(1) that by blast
  have "js_trim (join_comma out) = join_comma out"
  proof (rule js_trim_id)
    fix c assume "c \<in> set (join_comma out)"
    then show "\<not> is_space c"
      using join_comma_chars [of c out] w by (auto simp: is_space_def list_all_iff is_separator_def)
  qed
  moreover have "join_comma out \<noteq> []" using assms(3) w by (intro join_comma_nonempty) auto
  ultimately show ?thesis using assms taskLoop_canonical [of out "[]"] pieces_join [of out] w
    by (simp add: parseTasksList_def Let_def)
qed

lemma decide_cases:
  "decideEventTrigger t now m =
     (if tk_nextRunAtMs t \<le> now then Ev_ignored
      else if tk_lastRunEndMs t > 0 \<and> m > 0 \<and> tk_lastRunEndMs t + m > now
      then (if tk_lastRunEndMs t + m < tk_nextRunAtMs t then Ev_deferred (tk_lastRunEndMs t + m) else Ev_coalesced)
      else if now < 0 then (if 0 < tk_nextRunAtMs t then Ev_deferred 0 else Ev_coalesced)
      else Ev_run)"
  by (auto simp: decideEventTrigger_def Let_def)

lemma taskByName_index:
  assumes "distinct (map tk_name tasks)" "i < length tasks"
  shows "taskByName tasks (tk_name (tasks ! i)) = Some i"
proof -
  let ?ps = "map (\<lambda>(i, t). (tk_name t, i)) (enumerate 0 tasks)"
  have "map fst ?ps = map tk_name tasks"
    by (rule nth_equalityI) (simp_all add: nth_enumerate_eq)
  then have "distinct (map fst (rev ?ps))" using assms(1) by (metis distinct_rev rev_map)
  moreover have "(tk_name (tasks ! i), i) \<in> set (rev ?ps)"
    using assms(2) by (force simp: in_set_enumerate_eq)
  ultimately show ?thesis unfolding taskByName_def by (rule map_of_is_SomeI)
qed

lemma onEventTrigger_ignored:
  assumes "tk_nextRunAtMs (tasks ! i) \<le> now"
  shows "fst (onEventTrigger allowed m n now tasks) ! i = tasks ! i"
proof (cases "taskByName tasks n")
  case (Some j)
  then show ?thesis
    using assms by (cases "j = i") (auto simp: onEventTrigger_def decideEventTrigger_def split: event_decision.split)
qed (simp add: onEventTrigger_def)

lemma handleEvents_ignored:
  "(\<And>n ms. (n, ms) \<in> set evs \<Longrightarrow> tk_nextRunAtMs (tasks ! i) \<le> ms) \<Longrightarrow> handleEvents config evs tasks ! i = tasks ! i"
proof (induction evs arbitrary: tasks)
  case (Cons e evs)
  let ?ts = "fst (onEventTrigger (da_allowedEventTasks config) (eventMinRepeatMs config) (fst e) (snd e) tasks)"
  have t: "?ts ! i = tasks ! i"
    using Cons.prems [of "fst e" "snd e"] by (intro onEventTrigger_ignored) simp
  have "tk_nextRunAtMs (?ts ! i) \<le> ms" if "(n, ms) \<in> set evs" for n ms
    using Cons.prems [of n ms] that t by simp
  then have "handleEvents config evs ?ts ! i = ?ts ! i" by (rule Cons.IH)
  then show ?case by (simp add: handleEvents_def t)
qed (simp add: handleEvents_def)

lemma onEventTrigger_length [simp]: "length (fst (onEventTrigger allowed m n now tasks)) = length tasks"
  by (auto simp: onEventTrigger_def split: option.split event_decision.split)

lemma handleEvents_length [simp]: "length (handleEvents config evs tasks) = length tasks"
  by (induction evs arbitrary: tasks) (simp_all add: handleEvents_def)

lemma jitter_bounds:
  assumes "0 \<le> r" "r < 1" "0 \<le> v" "0 \<le> b"
  shows "\<bar>applySymmetricJitterBps r v (JNum b) - of_int v\<bar> \<le> of_int v * of_int (min b 10000) / 10000"
proof (cases "v = 0 \<or> parseNonNegativeSafeInteger (JNum b) (Some 0) = Some 0")
  case True
  then show ?thesis using assms by (auto simp: applySymmetricJitterBps_def Let_def)
next
  case False
  then have b: "parseNonNegativeSafeInteger (JNum b) (Some 0) = Some b" "0 < b" "0 < v"
    using assms by (auto simp: parseNonNegativeSafeInteger_def split: if_splits)
  define s where "s = (of_int (min b 10000) / 10000 :: rat)"
  have s: "0 \<le> s" "s \<le> 1" using b by (auto simp: s_def min_def)
  define x where "x = (r * 2 - 1) * s"
  have r: "\<bar>r * 2 - 1\<bar> \<le> 1" using assms by (simp add: abs_le_iff)
  then have x: "\<bar>x\<bar> \<le> s" using mult_right_mono [OF r, of s] s by (simp add: x_def abs_mult)
  then have "0 \<le> of_int v * (1 + x)" using s b(3) by (intro mult_nonneg_nonneg) auto
  then have "applySymmetricJitterBps r v (JNum b) - of_int v = of_int v * x"
    using b by (simp add: applySymmetricJitterBps_def Let_def s_def [symmetric] x_def [symmetric] distrib_left)
  then show ?thesis using x b(3) by (simp add: abs_mult s_def)
qed

section \<open>Properties\<close>

text \<open>
  What \<open>--tasks\<close> accepts: a list without repetitions of defined tasks, so that the daemon can be built from
  it, and which written with commas is read as the same list again.
\<close>

theorem parsed_tasks_canonical:
  assumes "parseTasksList raw = Inr (Some out)"
  shows "distinct out \<and> out \<noteq> [] \<and> parseTasksList (Some (join_comma out)) = Inr (Some out)
    \<and> (\<exists>ts. daemonTasks settlementTasks enabled (buildDaemonTaskDefs config) out = Inr ts
         \<and> map tk_name ts = filter (\<lambda>n. \<not> (enabled \<and> n \<in> set settlementTasks)) out)"
proof -
  obtain r where "raw = Some r" using assms by (cases raw) (auto simp: parseTasksList_def)
  then have "out \<noteq> []" "taskLoop (pieces [] (js_trim r)) [] = Inr out"
    using assms by (auto simp: parseTasksList_def Let_def split: if_splits sum.splits)
  moreover from taskLoop_result [OF this(2)] have out: "distinct out" "set out \<subseteq> set ALLOWED_DAEMON_TASKS" by auto
  moreover have "\<exists>ts. buildTasks (buildDaemonTaskDefs config) names = Inr ts \<and> map tk_name ts = names"
    if "set names \<subseteq> set out" for names
    using that out(2) allowed_defined by (intro buildTasks_all) blast
  ultimately show ?thesis using parse_join by (auto simp: daemonTasks_def)
qed

theorem parsed_tasks_witness:
  "parseTasksList (Some ''poke, lp poke'') = Inr (Some [''poke'', ''compound-lp''])
    \<and> parseTasksList (Some (join_comma [''poke'', ''compound-lp''])) = Inr (Some [''poke'', ''compound-lp''])"
proof -
  have "parseTasksList (Some ''poke, lp poke'') = Inr (Some [''poke'', ''compound-lp''])" by code_simp
  with parsed_tasks_canonical [OF this] show ?thesis by blast
qed

text \<open>
  An event makes its task due at once or at the end of the minimal distance from the last run, whichever is
  later; it never puts the task off, never moves it before that distance is over, and touches nothing else.
\<close>

theorem event_makes_due:
  assumes "distinct (map tk_name tasks)" "i < length tasks" "tk_name (tasks ! i) \<in> set allowed" "0 \<le> now" "0 \<le> m"
  shows "\<exists>due. fst (onEventTrigger allowed m (tk_name (tasks ! i)) now tasks) = tasks[i := (tasks ! i)\<lparr>tk_nextRunAtMs := due\<rparr>]
    \<and> due \<le> tk_nextRunAtMs (tasks ! i)
    \<and> due \<le> max now (tk_lastRunEndMs (tasks ! i) + m)
    \<and> (due \<noteq> tk_nextRunAtMs (tasks ! i) \<longrightarrow>
         tk_lastRunEndMs (tasks ! i) + m \<le> max now due \<or> tk_lastRunEndMs (tasks ! i) \<le> 0 \<or> m = 0)"
proof -
  let ?t = "tasks ! i"
  define due where "due = (case decideEventTrigger ?t now m of Ev_deferred d \<Rightarrow> d | Ev_run \<Rightarrow> 0 | _ \<Rightarrow> tk_nextRunAtMs ?t)"
  have "fst (onEventTrigger allowed m (tk_name ?t) now tasks) = tasks[i := ?t\<lparr>tk_nextRunAtMs := due\<rparr>]"
    using assms(3) taskByName_index [OF assms(1,2)]
    by (simp add: onEventTrigger_def due_def split: event_decision.split)
  moreover have "due \<le> tk_nextRunAtMs ?t" "due \<le> max now (tk_lastRunEndMs ?t + m)"
    "due \<noteq> tk_nextRunAtMs ?t \<longrightarrow> tk_lastRunEndMs ?t + m \<le> max now due \<or> tk_lastRunEndMs ?t \<le> 0 \<or> m = 0"
    using assms(4,5) by (auto simp: due_def decide_cases)
  ultimately show ?thesis by blast
qed

definition sample_task :: "string \<Rightarrow> int \<Rightarrow> int \<Rightarrow> daemon_task" where
  "sample_task name nextRun lastEnd = \<lparr>tk_name = name, tk_statusKey = name, tk_intervalMs = 60000,
     tk_nextRunAtMs = nextRun, tk_lastRunEndMs = lastEnd\<rparr>"

theorem event_makes_due_witness:
  "\<exists>due \<le> 15000. fst (onEventTrigger [''poke''] 5000 ''poke'' 12000 [sample_task ''poke'' 900000 10000])
    = [sample_task ''poke'' due 10000]"
  using event_makes_due [of "[sample_task ''poke'' 900000 10000]" 0 "[''poke'']" 12000 5000]
  by (auto simp: sample_task_def)

text \<open>
  An event that arrives while its task runs is lost: the task has not left its due time, so the event is
  ignored, and the end of the run then schedules the next one as if there had been no event.
\<close>

theorem event_during_run_lost:
  assumes "i < length tasks"
    and "\<And>n ms. (n, ms) \<in> set (rn_events r) \<Longrightarrow> tk_nextRunAtMs (tasks ! i) \<le> ms"
  shows "runTask config r i tasks ! i = finishRun config r (tasks ! i)"
  using assms handleEvents_ignored [of "rn_events r" tasks i config] by (simp add: runTask_def Let_def)

theorem event_during_run_lost_witness:
  "let config = \<lparr>da_allowedEventTasks = [''poke''], da_eventMinRepeatSecs = 5,
         da_cadence = \<lparr>cc_intervalSecsPrimary = 15, cc_intervalSecsFallback = 60, cc_safetyNetIntervalSecs = 3600\<rparr>,
         da_jitterBps = JNum 0, da_wsGraceSecs = 300\<rparr>;
       r = \<lparr>rn_events = [(''poke'', 20000)], rn_endedAtMs = 30000, rn_breakerError = False,
         rn_tier = tier.Primary, rn_wsStatus = Ws_healthy, rn_random = 0\<rparr>
   in tk_nextRunAtMs (runTask config r 0 [sample_task ''poke'' 10000 1000] ! 0) = 3630000"
proof -
  define config where "config = \<lparr>da_allowedEventTasks = [''poke''], da_eventMinRepeatSecs = 5,
         da_cadence = \<lparr>cc_intervalSecsPrimary = 15, cc_intervalSecsFallback = 60, cc_safetyNetIntervalSecs = 3600\<rparr>,
         da_jitterBps = JNum 0, da_wsGraceSecs = 300\<rparr>"
  define r where "r = \<lparr>rn_events = [(''poke'', 20000 :: int)], rn_endedAtMs = 30000, rn_breakerError = False,
         rn_tier = tier.Primary, rn_wsStatus = Ws_healthy, rn_random = 0\<rparr>"
  have "runTask config r 0 [sample_task ''poke'' 10000 1000] ! 0 = finishRun config r (sample_task ''poke'' 10000 1000)"
    using event_during_run_lost [of 0 "[sample_task ''poke'' 10000 1000]" r config] by (simp add: r_def sample_task_def)
  also have "tk_nextRunAtMs (finishRun config r (sample_task ''poke'' 10000 1000)) = 3630000"
    by (simp add: finishRun_def config_def r_def sample_task_def effectiveIntervalMsForTask_def
      ADAPTIVE_CADENCE_TASKS_def jitteredIntervalMs_def applySymmetricJitterBps_def parsePositiveSafeInteger_def
      parseNonNegativeSafeInteger_def MAX_SAFE_INTEGER_def Let_def)
  finally show ?thesis by (simp add: config_def r_def Let_def)
qed

text \<open>
  A daemon whose selected tasks are all settlement tasks, with settlement on, has no interval task: nothing
  is ever due, and the idle sleep throws.
\<close>

theorem settlement_only_daemon_throws:
  assumes "set selected \<subseteq> set settlementTasks"
  shows "\<exists>tasks. daemonTasks settlementTasks True defs selected = Inr tasks
    \<and> dueTasks now tasks = [] \<and> idleSleepMs now tasks = None"
  using assms by (auto simp: daemonTasks_def dueTasks_def idleSleepMs_def filter_empty_conv subset_iff)

theorem settlement_only_witness:
  "\<exists>tasks. daemonTasks [''compound-lp'', ''automax-bonus'', ''harvest-staking''] True
       (\<lambda>n. Some (n, 60)) [''harvest-staking''] = Inr tasks \<and> idleSleepMs 0 tasks = None"
  using settlement_only_daemon_throws [of "[''harvest-staking'']"
    "[''compound-lp'', ''automax-bonus'', ''harvest-staking'']" "\<lambda>n. Some (n, 60)" 0] by auto

text \<open>The first run is not before the present, nor later than the allowed skew and one interval.\<close>

lemma first_run_bounds:
  assumes "0 \<le> iv"
  shows "now \<le> computeInitialNextRunMs now parsed iv \<and> computeInitialNextRunMs now parsed iv \<le> now + MAX_FUTURE_SKEW_MS + iv"
  using assms by (auto simp: computeInitialNextRunMs_def parsePositiveSafeInteger_def parseNonNegativeSafeInteger_def
    MAX_FUTURE_SKEW_MS_def Let_def split: option.split if_splits)

text \<open>With the bus open or recently heard the adaptive tasks keep to the safety net, and only then.\<close>

lemma never_heard_is_no_safety_net:
  "eb_lastMessageAtMs b = 0 \<Longrightarrow> computeWsStatus opts b grace now \<in> {Ws_disabled, Ws_disconnected}"
  by (simp add: computeWsStatus_def ws_status_of_def isHealthy_def)

text \<open>A low balance is reported at once, then after each repeat interval; a recovery arms the next report.\<close>

lemma gas_alert_exact:
  assumes "gc_minWei cfg = Some m" "begun - gw_lastCheckMs w \<ge> gc_checkIntervalSecs cfg * 1000"
  shows "snd (gasWatch cfg begun (Some (bal, now)) w) \<longleftrightarrow>
      bal < m \<and> (gw_lastAlertMs w = 0 \<or> now - gw_lastAlertMs w \<ge> gc_alertRepeatSecs cfg * 1000)"
    and "m \<le> bal \<Longrightarrow> gw_low w \<Longrightarrow> gw_lastAlertMs (fst (gasWatch cfg begun (Some (bal, now)) w)) = 0"
  using assms by (auto simp: gasWatch_def decideGasBalanceAlert_def Let_def)

end
