(* ===== verification/DaemonTick.thy ===== *)
theory DaemonTick
  imports Settlement DaemonSched
begin

text \<open>
  The settlement part of the daemon's loop (\<open>src/keeper/src/run/daemon.ts\<close>): one pass closes and opens windows,
  runs the immediate tasks, then the spread phase with its batches, their retries and the drift check.

  \<^item> What the outside does in a pass is the record \<open>tick_env\<close>: the times, whether the lock is held before a task
    runs (at the head of the loop: for the empty name), how runs end, the quote, the files read. Runs that throw differ only in whether they throw the
    error of the circuit breaker, which leaves the daemon. Waiting and logging are dropped.
  \<^item> \<open>sl_file\<close> is the state that was saved last.
\<close>

datatype run_result = Ran | Run_failed | Run_breaker

record settle_loop =
  sl_state :: settlement_state
  sl_file :: "settlement_state option"
  sl_retryAtMs :: "string \<rightharpoonup> int"
  sl_retryAttempt :: "string \<rightharpoonup> int"

record tick_config =
  tc_settlement :: settlement_config
  tc_settlementTaskSet :: "string list"   \<comment> \<open>\<open>new Set(SETTLEMENT_TASK_NAMES)\<close>\<close>
  tc_retryWindowSecs :: int
  tc_maxDriftBps :: int
  tc_maxUsersShareholders :: nat

record tick_env =
  te_now :: int
  te_defs :: "string \<Rightarrow> bool"
  te_lockHeld :: "string \<Rightarrow> bool"
  te_run :: "string \<Rightarrow> run_result"
  te_users :: "string list"
  te_morning :: "(string \<Rightarrow> int option) option"
  te_random :: "nat \<Rightarrow> rat"
  te_batchNow :: int
  te_vaultOk :: bool
  te_quote :: "int option"
  te_bigint :: "string \<Rightarrow> int option"
  te_endedAt :: int
  te_backoffRandom :: rat
  te_closeNow :: int

text \<open>
  How a pass goes on: to the interval loop, back to the head of the loop, out of the daemon with an error, or
  never, when the advance of the window does not end.
\<close>

datatype tick_error = Lock_lost | Breaker_error | Bad_baseline

datatype tick_result =
  Proceeds settle_loop
| Restarts settle_loop
| Throws tick_error settle_loop
| Hangs

fun and_then :: "tick_result \<Rightarrow> (settle_loop \<Rightarrow> tick_result) \<Rightarrow> tick_result" where
  "and_then (Proceeds s) f = f s"
| "and_then r f = r"

definition persistSettlement :: "settle_loop \<Rightarrow> settle_loop" where
  "persistSettlement s = s\<lparr>sl_file := Some (sl_state s)\<rparr>"

definition with_state :: "settlement_state \<Rightarrow> settle_loop \<Rightarrow> settle_loop" where
  "with_state st s = s\<lparr>sl_state := st\<rparr>"

section \<open>Windows\<close>

definition close_now :: "tick_config \<Rightarrow> int \<Rightarrow> (settle_loop \<Rightarrow> tick_result) \<Rightarrow> settle_loop \<Rightarrow> tick_result" where
  "close_now config now k s =
     (case closeCycle (sl_state s) (tc_settlement config) now of
        None \<Rightarrow> Hangs
      | Some st \<Rightarrow> k (persistSettlement (with_state st s)))"

definition close_window :: "tick_config \<Rightarrow> tick_env \<Rightarrow> settle_loop \<Rightarrow> tick_result" where
  "close_window config env s =
     (case st_current (sl_state s) of
        Some cycle \<Rightarrow> if te_now env \<ge> sc_windowCloseMs cycle then close_now config (te_now env) Proceeds s else Proceeds s
      | None \<Rightarrow> Proceeds s)"

definition open_window :: "tick_config \<Rightarrow> tick_env \<Rightarrow> settle_loop \<Rightarrow> tick_result" where
  "open_window config env s =
     Proceeds (if st_current (sl_state s) = None \<and> isWindowDue (st_nextWindowMs (sl_state s)) (te_now env)
       then persistSettlement (with_state (openCycle (sl_state s) (te_now env) (tc_settlement config)) s)
       else s)"

section \<open>Immediate phase\<close>

definition run_settlement_task ::
  "tick_env \<Rightarrow> string \<Rightarrow> (settlement_state \<Rightarrow> settlement_state) \<Rightarrow> settle_loop \<Rightarrow> tick_result" where
  "run_settlement_task env taskName mark_ok s =
     (if \<not> te_lockHeld env taskName then Throws Lock_lost s
      else case te_run env taskName of
             Ran \<Rightarrow> Proceeds (persistSettlement (with_state (mark_ok (sl_state s)) s))
           | Run_failed \<Rightarrow> Proceeds (persistSettlement (with_state (markTaskFailed (sl_state s) taskName) s))
           | Run_breaker \<Rightarrow> Throws Breaker_error (with_state (markTaskFailed (sl_state s) taskName) s))"

text \<open>\<open>completed\<close> is the list of the cycle as it was when the phase began.\<close>

fun immediate_loop :: "tick_env \<Rightarrow> string list \<Rightarrow> string list \<Rightarrow> settle_loop \<Rightarrow> tick_result" where
  "immediate_loop env completed [] s = Proceeds s"
| "immediate_loop env completed (taskName # tasks) s =
     (if taskName \<in> set completed then immediate_loop env completed tasks s
      else if \<not> te_defs env taskName
      then immediate_loop env completed tasks
             (persistSettlement (with_state (markTaskFailed (sl_state s) taskName) s))
      else and_then (run_settlement_task env taskName (\<lambda>st. markImmediateTaskDone st taskName) s)
             (immediate_loop env completed tasks))"

definition end_immediate :: "settle_loop \<Rightarrow> tick_result" where
  "end_immediate s =
     Proceeds (case st_current (sl_state s) of
        Some cycle \<Rightarrow>
          if isImmediatePhaseComplete cycle
          then persistSettlement (with_state (transitionToSpread (sl_state s)) s) else s
      | None \<Rightarrow> s)"

definition immediate_phase :: "tick_env \<Rightarrow> settle_loop \<Rightarrow> tick_result" where
  "immediate_phase env s =
     (case st_current (sl_state s) of
        Some cycle \<Rightarrow>
          if sc_phase cycle = Phase_immediate
          then and_then (immediate_loop env (sc_immediateTasksCompleted cycle) IMMEDIATE_TASKS s) end_immediate
          else Proceeds s
      | None \<Rightarrow> Proceeds s)"

section \<open>Spread phase\<close>

definition run_harvest :: "tick_env \<Rightarrow> settlement_cycle \<Rightarrow> settle_loop \<Rightarrow> tick_result" where
  "run_harvest env cycle s =
     (if sc_harvestCompleted cycle then Proceeds s
      else if te_defs env ''harvest-staking''
      then run_settlement_task env ''harvest-staking'' markHarvestDone s
      else Proceeds (persistSettlement (with_state (markHarvestDone (sl_state s)) s)))"

definition schedule_compound :: "tick_config \<Rightarrow> tick_env \<Rightarrow> settlement_cycle \<Rightarrow> settle_loop \<Rightarrow> tick_result" where
  "schedule_compound config env cycle s =
     (if ''compound-shareholders'' \<in> set (tc_settlementTaskSet config)
         \<and> sc_spreadBatchesCompleted cycle = [] \<and> sc_spreadBatchesPending cycle = []
         \<and> te_defs env ''compound-shareholders''
      then (case scheduleBatches (te_random env) ''compound-shareholders''
                   (if te_users env \<noteq> [] then te_users env else sc_priorityQueue cycle) (sc_priorityQueue cycle)
                   (sc_windowOpenMs cycle) (sc_windowCloseMs cycle) (tc_maxUsersShareholders config) (te_morning env) of
              None \<Rightarrow> Hangs
            | Some batches \<Rightarrow>
                Proceeds (persistSettlement (with_state
                  (populateSpreadBatches (sl_state s) batches (concat (map bt_users batches))) s)))
      else Proceeds s)"

text \<open>The drift check: the state with its baseline, and whether to pause.\<close>

definition set_baseline :: "string \<Rightarrow> settlement_state \<Rightarrow> settlement_state" where
  "set_baseline b = on_cycle (\<lambda>c. c\<lparr>sc_spreadBaseline := Some b\<rparr>)"

definition exceeds_drift :: "int \<Rightarrow> int \<Rightarrow> int \<Rightarrow> bool" where
  "exceeds_drift baselineOut curOut maxBps \<longleftrightarrow>
     baselineOut > 0 \<and> \<bar>baselineOut - curOut\<bar> * 10000 > baselineOut * maxBps"

definition drift_check ::
  "tick_config \<Rightarrow> tick_env \<Rightarrow> settlement_cycle \<Rightarrow> (settle_loop \<Rightarrow> bool \<Rightarrow> tick_result) \<Rightarrow> settle_loop \<Rightarrow> tick_result" where
  "drift_check config env cycle k s =
     (if sc_harvestCompleted cycle \<and> te_vaultOk env
      then (case te_quote env of
              None \<Rightarrow> k s False
            | Some curOut \<Rightarrow>
                (let missing = (case st_current (sl_state s) of
                       Some c \<Rightarrow> sc_spreadBaseline c = None \<or> sc_spreadBaseline c = Some '''' | None \<Rightarrow> True);
                     s = (if missing then persistSettlement (with_state (set_baseline (int_string curOut) (sl_state s)) s) else s);
                     baselineStr = (case st_current (sl_state s) of
                       Some c \<Rightarrow> (case sc_spreadBaseline c of Some b \<Rightarrow> b | None \<Rightarrow> '''') | None \<Rightarrow> '''')
                 in case te_bigint env baselineStr of
                      None \<Rightarrow> Throws Bad_baseline s
                    | Some baselineOut \<Rightarrow> k s (exceeds_drift baselineOut curOut (tc_maxDriftBps config))))
      else k s False)"

definition SPREAD_RETRY_BASE_MS :: int where "SPREAD_RETRY_BASE_MS = 15000"
definition SPREAD_RETRY_MAX_MS :: int where "SPREAD_RETRY_MAX_MS = 300000"

definition spreadBatchKey :: "string \<Rightarrow> nat \<Rightarrow> string" where
  "spreadBatchKey taskName index = taskName @ '':'' @ nat_string index"

definition computeSpreadBackoffMs :: "rat \<Rightarrow> int \<Rightarrow> int" where
  "computeSpreadBackoffMs random attempt =
     (let e = min SPREAD_RETRY_MAX_MS (SPREAD_RETRY_BASE_MS * 2 ^ nat (attempt - 1));
          jitterBps = \<lfloor>random * 1000\<rfloor>
      in \<lfloor>(of_int e * (1 + of_int jitterBps / 10000) :: rat)\<rfloor>)"

definition batch_failed :: "tick_config \<Rightarrow> tick_env \<Rightarrow> batch_entry \<Rightarrow> string \<Rightarrow> settle_loop \<Rightarrow> settle_loop" where
  "batch_failed config env b retryKey s =
     (let failAt = te_endedAt env; retryUntilMs = bt_scheduledAtMs b + tc_retryWindowSecs config * 1000 in
      if failAt \<ge> retryUntilMs
      then s\<lparr>sl_state := markTaskFailed (sl_state s) (bt_taskName b),
             sl_retryAtMs := (sl_retryAtMs s)(retryKey := None),
             sl_retryAttempt := (sl_retryAttempt s)(retryKey := None)\<rparr>
      else (let attempt = (case sl_retryAttempt s retryKey of Some a \<Rightarrow> a | None \<Rightarrow> 0) + 1;
                nextAt = min (failAt + computeSpreadBackoffMs (te_backoffRandom env) attempt) retryUntilMs
            in s\<lparr>sl_retryAttempt := (sl_retryAttempt s)(retryKey \<mapsto> attempt),
                 sl_retryAtMs := (sl_retryAtMs s)(retryKey \<mapsto> nextAt)\<rparr>))"

definition run_batch :: "tick_config \<Rightarrow> tick_env \<Rightarrow> batch_entry \<Rightarrow> nat \<Rightarrow> settle_loop \<Rightarrow> tick_result" where
  "run_batch config env b index s =
     (let retryKey = spreadBatchKey (bt_taskName b) index;
          notBefore = (case sl_retryAtMs s retryKey of Some t \<Rightarrow> t | None \<Rightarrow> 0)
      in if te_batchNow env < notBefore then Restarts s
         else case te_run env (bt_taskName b) of
                Ran \<Rightarrow>
                  Proceeds (persistSettlement (s\<lparr>
                    sl_state := markBatchCompleted (sl_state s) (int index) (bt_users b) (te_endedAt env),
                    sl_retryAtMs := (sl_retryAtMs s)(retryKey := None),
                    sl_retryAttempt := (sl_retryAttempt s)(retryKey := None)\<rparr>))
              | Run_failed \<Rightarrow> Proceeds (persistSettlement (batch_failed config env b retryKey s))
              | Run_breaker \<Rightarrow> Throws Breaker_error (batch_failed config env b retryKey s))"

definition process_batch :: "tick_config \<Rightarrow> tick_env \<Rightarrow> settlement_cycle \<Rightarrow> settle_loop \<Rightarrow> tick_result" where
  "process_batch config env cycle s =
     (case st_current (sl_state s) of
        None \<Rightarrow> Proceeds s
      | Some cur \<Rightarrow>
          (case getNextDueBatch cur (te_batchNow env) of
             None \<Rightarrow> Proceeds s
           | Some (b, index) \<Rightarrow>
               if \<not> te_defs env (bt_taskName b) then Proceeds s
               else if \<not> te_lockHeld env (bt_taskName b) then Throws Lock_lost s
               else drift_check config env cycle
                      (\<lambda>s skip. if skip then Proceeds s else run_batch config env b index s) s))"

definition finish_spread :: "tick_config \<Rightarrow> tick_env \<Rightarrow> settle_loop \<Rightarrow> tick_result" where
  "finish_spread config env s =
     (case st_current (sl_state s) of
        Some cycle \<Rightarrow> if isSpreadPhaseComplete cycle then close_now config (te_closeNow env) Restarts s else Proceeds s
      | None \<Rightarrow> Proceeds s)"

definition spread_phase :: "tick_config \<Rightarrow> tick_env \<Rightarrow> settle_loop \<Rightarrow> tick_result" where
  "spread_phase config env s =
     (case st_current (sl_state s) of
        Some cycle \<Rightarrow>
          if sc_phase cycle = Phase_spread
          then and_then (and_then (and_then (run_harvest env cycle s) (schedule_compound config env cycle))
                 (process_batch config env cycle)) (finish_spread config env)
          else Proceeds s
      | None \<Rightarrow> Proceeds s)"

section \<open>A pass\<close>

definition settlementTick :: "tick_config \<Rightarrow> tick_env \<Rightarrow> settle_loop \<Rightarrow> tick_result" where
  "settlementTick config env s =
     and_then (and_then (and_then (close_window config env s) (open_window config env)) (immediate_phase env))
       (spread_phase config env)"

text \<open>
  A pass of the daemon, settlement and then the interval tasks. The interval tasks are left as they are when the
  settlement part goes back to the head of the loop.
\<close>

record daemon_state =
  ds_settle :: "settle_loop option"
  ds_tasks :: "daemon_task list"

datatype pass_result = Pass daemon_state | Stopped_with daemon_state | Stuck

definition interval_loop ::
  "daemon_config \<Rightarrow> int \<Rightarrow> (nat \<Rightarrow> bool) \<Rightarrow> (nat \<Rightarrow> task_run) \<Rightarrow> daemon_task list \<Rightarrow> daemon_task list + daemon_task list" where
  "interval_loop config now lockHeld runs tasks =
     (if dueTasks now tasks = []
      then (case idleSleepMs now tasks of None \<Rightarrow> Inl tasks | Some ms \<Rightarrow> Inr tasks)
      else runDue config lockHeld runs (dueTasks now tasks) tasks)"

definition daemonPass ::
  "tick_config \<Rightarrow> daemon_config \<Rightarrow> tick_env \<Rightarrow> int \<Rightarrow> (nat \<Rightarrow> bool) \<Rightarrow> (nat \<Rightarrow> task_run) \<Rightarrow> daemon_state \<Rightarrow> pass_result" where
  "daemonPass config dconfig env now lockHeld runs d =
     (let go = (\<lambda>settle. case interval_loop dconfig now lockHeld runs (ds_tasks d) of
              Inl tasks \<Rightarrow> Stopped_with (d\<lparr>ds_settle := settle, ds_tasks := tasks\<rparr>)
            | Inr tasks \<Rightarrow> Pass (d\<lparr>ds_settle := settle, ds_tasks := tasks\<rparr>))
      in if \<not> te_lockHeld env [] then Stopped_with d
         else case ds_settle d of
           None \<Rightarrow> go None
         | Some s \<Rightarrow>
             (case settlementTick config env s of
                Proceeds s' \<Rightarrow> go (Some s')
              | Restarts s' \<Rightarrow> Pass (d\<lparr>ds_settle := Some s'\<rparr>)
              | Throws e s' \<Rightarrow> Stopped_with (d\<lparr>ds_settle := Some s'\<rparr>)
              | Hangs \<Rightarrow> Stuck))"

section \<open>Batches and pending users\<close>

definition unfinished :: "batch_entry list \<Rightarrow> string list" where
  "unfinished bs = concat (map bt_users (filter (\<lambda>b. \<not> bt_completed b) bs))"

definition batches_agree :: "settlement_cycle \<Rightarrow> bool" where
  "batches_agree c \<longleftrightarrow> distinct (map toLowerCase (concat (map bt_users (sc_spreadBatchesCompleted c))))
     \<and> sc_spreadBatchesPending c = unfinished (sc_spreadBatchesCompleted c)
     \<and> distinct (map toLowerCase (sc_priorityQueue c))"

definition settle_ok :: "settlement_state \<Rightarrow> bool" where
  "settle_ok st \<longleftrightarrow> distinct (map toLowerCase (st_pendingPriorityQueue st))
     \<and> (\<forall>c. st_current st = Some c \<longrightarrow> batches_agree c)"

definition loop_ok :: "settle_loop \<Rightarrow> bool" where
  "loop_ok s \<longleftrightarrow> settle_ok (sl_state s) \<and> (\<forall>f. sl_file s = Some f \<longrightarrow> settle_ok f)"

fun result_ok :: "(settle_loop \<Rightarrow> bool) \<Rightarrow> tick_result \<Rightarrow> bool" where
  "result_ok P (Proceeds s) = P s"
| "result_ok P (Restarts s) = P s"
| "result_ok P (Throws e s) = P s"
| "result_ok P Hangs = True"

definition env_ok :: "tick_env \<Rightarrow> bool" where
  "env_ok env \<longleftrightarrow> distinct (map toLowerCase (te_users env)) \<and> (\<forall>k. 0 \<le> te_random env k \<and> te_random env k < 1)"

lemma result_and_then [intro]:
  "result_ok P r \<Longrightarrow> (\<And>s. P s \<Longrightarrow> result_ok P (f s)) \<Longrightarrow> result_ok P (and_then r f)"
  by (cases r) auto

lemma unfinished_sub: "set (unfinished bs) \<subseteq> set (concat (map bt_users bs))"
  by (auto simp: unfinished_def)

lemma unfinished_distinct:
  "distinct (map toLowerCase (concat (map bt_users bs))) \<Longrightarrow> distinct (map toLowerCase (unfinished bs))"
proof (induction bs)
  case (Cons b bs)
  then show ?case using unfinished_sub [of bs] by (auto simp: unfinished_def)
qed (simp add: unfinished_def)

lemma unfinished_append: "unfinished (xs @ ys) = unfinished xs @ unfinished ys"
  by (simp add: unfinished_def)

lemma unfinished_fresh: "(\<And>b. b \<in> set bs \<Longrightarrow> \<not> bt_completed b) \<Longrightarrow> unfinished bs = concat (map bt_users bs)"
  by (simp add: unfinished_def)

lemma complete_nth_split: "complete_nth (int (length xs)) (xs @ b # ys) = xs @ b\<lparr>bt_completed := True\<rparr> # ys"
proof -
  have "map (\<lambda>(i, b). if int i = int (length xs) then b\<lparr>bt_completed := True\<rparr> else b) (enumerate 0 xs) = xs"
    by (rule nth_equalityI) (simp_all add: nth_enumerate_eq)
  moreover have "map (\<lambda>(i, b). if int i = int (length xs) then b\<lparr>bt_completed := True\<rparr> else b)
      (enumerate (Suc (length xs)) ys) = ys"
    by (rule nth_equalityI) (simp_all add: nth_enumerate_eq)
  ultimately show ?thesis by (simp add: complete_nth_def enumerate_append_eq)
qed

lemma dueLoop_nth:
  "dueLoop bs k now = Some (b, i) \<Longrightarrow>
     \<exists>j < length bs. i = k + j \<and> bs ! j = b \<and> \<not> bt_completed b \<and> bt_scheduledAtMs b \<le> now
       \<and> (\<forall>l < j. bt_completed (bs ! l) \<or> now < bt_scheduledAtMs (bs ! l))"
proof (induction bs k now rule: dueLoop.induct)
  case (2 b' bs k now)
  show ?case
  proof (cases "\<not> bt_completed b' \<and> bt_scheduledAtMs b' \<le> now")
    case True
    then show ?thesis using 2(2) by auto
  next
    case False
    then obtain j where "j < length bs" "i = Suc k + j" "bs ! j = b" "\<not> bt_completed b" "bt_scheduledAtMs b \<le> now"
      "\<forall>l < j. bt_completed (bs ! l) \<or> now < bt_scheduledAtMs (bs ! l)"
      using 2 by (auto split: if_splits)
    then show ?thesis using False by (intro exI [of _ "Suc j"]) (auto simp: nth_Cons split: nat.split)
  qed
qed simp

lemma getNextDueBatch_nth:
  assumes "getNextDueBatch c now = Some (b, i)"
  shows "i < length (sc_spreadBatchesCompleted c)" "sc_spreadBatchesCompleted c ! i = b" "\<not> bt_completed b"
    "bt_scheduledAtMs b \<le> now"
  using dueLoop_nth [of "sc_spreadBatchesCompleted c" 0 now b i] assms by (auto simp: getNextDueBatch_def)

lemma not_processed_filter:
  assumes "distinct (map toLowerCase (xs @ us @ ys))"
  shows "filter (not_processed us) (xs @ us @ ys) = xs @ ys"
proof -
  have "filter (not_processed us) us = []" by (auto simp: not_processed_def filter_empty_conv)
  moreover have "filter (not_processed us) xs = xs" "filter (not_processed us) ys = ys"
    using assms by (auto simp: not_processed_def filter_id_conv)
  ultimately show ?thesis by simp
qed

lemma agree_completed:
  assumes "batches_agree c" "i < length (sc_spreadBatchesCompleted c)"
    and b: "sc_spreadBatchesCompleted c ! i = b" "\<not> bt_completed b"
  shows "batches_agree (c\<lparr>sc_spreadBatchesCompleted := complete_nth (int i) (sc_spreadBatchesCompleted c),
    sc_spreadBatchesPending := filter (not_processed (bt_users b)) (sc_spreadBatchesPending c),
    sc_attemptCount := n, sc_lastAttemptMs := t\<rparr>)"
proof -
  define xs ys where "xs = take i (sc_spreadBatchesCompleted c)" and "ys = drop (Suc i) (sc_spreadBatchesCompleted c)"
  have bs: "sc_spreadBatchesCompleted c = xs @ b # ys" "i = length xs"
    using id_take_nth_drop [OF assms(2)] assms(2) b(1) by (simp_all add: xs_def ys_def)
  have d: "distinct (map toLowerCase (concat (map bt_users (xs @ b # ys))))" using assms(1) bs by (simp add: batches_agree_def)
  have "unfinished (xs @ b # ys) = unfinished xs @ bt_users b @ unfinished ys"
    using b(2) by (simp add: unfinished_def)
  moreover have "distinct (map toLowerCase (unfinished xs @ bt_users b @ unfinished ys))"
    using unfinished_distinct [OF d] calculation by simp
  ultimately have "filter (not_processed (bt_users b)) (unfinished (xs @ b # ys)) = unfinished xs @ unfinished ys"
    using not_processed_filter [of "unfinished xs" "bt_users b" "unfinished ys"] by simp
  moreover have "unfinished (xs @ b\<lparr>bt_completed := True\<rparr> # ys) = unfinished xs @ unfinished ys"
    by (simp add: unfinished_def)
  ultimately show ?thesis
    using assms(1) d by (simp add: batches_agree_def bs complete_nth_split)
qed

lemma loop_ok_persist [simp]: "settle_ok (sl_state s) \<Longrightarrow> loop_ok (persistSettlement s)"
  by (simp add: loop_ok_def persistSettlement_def)

lemma persist_simps [simp]: "sl_state (persistSettlement s) = sl_state s"
  "sl_file (persistSettlement s) = Some (sl_state s)"
  by (simp_all add: persistSettlement_def)

lemma with_state_simps [simp]: "sl_state (with_state st s) = st" "sl_file (with_state st s) = sl_file s"
  by (simp_all add: with_state_def)

lemma on_cycle_ok:
  "settle_ok st \<Longrightarrow> (\<And>c. st_current st = Some c \<Longrightarrow> batches_agree c \<Longrightarrow> batches_agree (f c)) \<Longrightarrow> settle_ok (on_cycle f st)"
  by (auto simp: settle_ok_def)

lemma marks_ok:
  assumes "settle_ok st"
  shows "settle_ok (markImmediateTaskDone st t)" "settle_ok (transitionToSpread st)" "settle_ok (markHarvestDone st)"
    "settle_ok (markTaskFailed st t)" "settle_ok (set_baseline b st)"
  unfolding markImmediateTaskDone_def transitionToSpread_def markHarvestDone_def markTaskFailed_def set_baseline_def
  by (rule on_cycle_ok [OF assms]; simp add: batches_agree_def)+

lemma openCycle_ok: "settle_ok st \<Longrightarrow> settle_ok (openCycle st now cfg)"
  by (auto simp: settle_ok_def openCycle_def batches_agree_def unfinished_def Let_def)

lemma closeCycle_ok:
  assumes "settle_ok st" "closeCycle st cfg now = Some st'"
  shows "settle_ok st'"
  using assms unfinished_distinct
  by (auto simp: settle_ok_def closeCycle_def batches_agree_def Let_def split: option.splits)

lemma populate_ok:
  assumes "settle_ok st" and "\<And>c. st_current st = Some c \<Longrightarrow> sc_spreadBatchesCompleted c = []"
    and "distinct (map toLowerCase (concat (map bt_users bs)))" "\<And>b. b \<in> set bs \<Longrightarrow> \<not> bt_completed b"
  shows "settle_ok (populateSpreadBatches st bs (concat (map bt_users bs)))"
  unfolding populateSpreadBatches_def using assms
  by (intro on_cycle_ok) (simp_all add: batches_agree_def unfinished_fresh)

lemma close_now_ok:
  "loop_ok s \<Longrightarrow> (\<And>s. loop_ok s \<Longrightarrow> result_ok loop_ok (k s)) \<Longrightarrow> result_ok loop_ok (close_now config now k s)"
  by (auto simp: close_now_def loop_ok_def closeCycle_ok split: option.split)

lemma close_window_ok: "loop_ok s \<Longrightarrow> result_ok loop_ok (close_window config env s)"
  by (auto simp: close_window_def intro: close_now_ok split: option.split)

lemma open_window_ok: "loop_ok s \<Longrightarrow> result_ok loop_ok (open_window config env s)"
  by (auto simp: open_window_def loop_ok_def openCycle_ok)

lemma run_task_ok:
  "loop_ok s \<Longrightarrow> (\<And>st. settle_ok st \<Longrightarrow> settle_ok (f st)) \<Longrightarrow> result_ok loop_ok (run_settlement_task env t f s)"
  by (auto simp: run_settlement_task_def loop_ok_def marks_ok split: run_result.split)

lemma immediate_loop_ok: "loop_ok s \<Longrightarrow> result_ok loop_ok (immediate_loop env cs ts s)"
proof (induction env cs ts s rule: immediate_loop.induct)
  case (2 env cs t ts s)
  have "loop_ok (persistSettlement (with_state (markTaskFailed (sl_state s) t) s))"
    using 2(4) by (simp add: loop_ok_def marks_ok)
  moreover have "result_ok loop_ok (and_then (run_settlement_task env t (\<lambda>st. markImmediateTaskDone st t) s)
      (immediate_loop env cs ts))" if "t \<notin> set cs" "te_defs env t"
    using that 2(3,4) by (intro result_and_then run_task_ok marks_ok) auto
  ultimately show ?case using 2 by simp
qed simp

lemma immediate_phase_ok: "loop_ok s \<Longrightarrow> result_ok loop_ok (immediate_phase env s)"
  by (auto simp: immediate_phase_def end_immediate_def loop_ok_def marks_ok intro!: result_and_then immediate_loop_ok
    split: option.split)

text \<open>Between its start and the batches, the spread phase changes no batch of the cycle.\<close>

definition same_batches :: "settlement_cycle \<Rightarrow> settle_loop \<Rightarrow> bool" where
  "same_batches cycle s \<longleftrightarrow> (\<forall>c. st_current (sl_state s) = Some c \<longrightarrow>
     sc_spreadBatchesCompleted c = sc_spreadBatchesCompleted cycle)"

lemma run_harvest_ok:
  assumes "loop_ok s" "st_current (sl_state s) = Some cycle"
  shows "result_ok (\<lambda>s. loop_ok s \<and> same_batches cycle s) (run_harvest env cycle s)"
  using assms
  by (auto simp: run_harvest_def run_settlement_task_def loop_ok_def marks_ok same_batches_def persistSettlement_def
    markHarvestDone_def markTaskFailed_def marks_ok [unfolded markHarvestDone_def markTaskFailed_def] split: run_result.split)

lemma schedule_ok:
  assumes "loop_ok s" "same_batches cycle s" "env_ok env" "distinct (map toLowerCase (sc_priorityQueue cycle))"
  shows "result_ok loop_ok (schedule_compound config env cycle s)"
proof -
  let ?users = "if te_users env \<noteq> [] then te_users env else sc_priorityQueue cycle"
  have u: "distinct (map toLowerCase ?users)" using assms(3,4) by (simp add: env_ok_def)
  have "settle_ok (populateSpreadBatches (sl_state s) bs (concat (map bt_users bs)))"
    if "sc_spreadBatchesCompleted cycle = []"
      and bs: "scheduleBatches (te_random env) tn ?users pu wo wc bsz mc = Some bs" for bs tn pu wo wc bsz mc
  proof -
    have "(bs = [] \<or> mset (concat (map bt_users bs)) = mset ?users) \<and> (\<forall>b \<in> set bs. \<not> bt_completed b)"
      using assms(3) bs by (intro schedule_result) (auto simp: env_ok_def)
    moreover have "distinct (map toLowerCase xs)" if "mset xs = mset ?users" for xs
      using u that by (metis mset_eq_imp_distinct_iff mset_map)
    ultimately show ?thesis using assms(1,2) that(1)
      by (intro populate_ok) (auto simp: loop_ok_def same_batches_def simp del: map_concat)
  qed
  then show ?thesis using assms(1)
    by (auto simp: schedule_compound_def loop_ok_def split: option.split)
qed

lemma batch_failed_ok: "loop_ok s \<Longrightarrow> loop_ok (batch_failed config env b key s)"
  by (auto simp: batch_failed_def loop_ok_def marks_ok Let_def)

lemma completed_ok:
  assumes "settle_ok st" "st_current st = Some cur" "i < length (sc_spreadBatchesCompleted cur)"
    "sc_spreadBatchesCompleted cur ! i = b" "\<not> bt_completed b"
  shows "settle_ok (markBatchCompleted st (int i) (bt_users b) t)"
  unfolding markBatchCompleted_def
  by (rule on_cycle_ok [OF assms(1)]) (use assms in \<open>auto intro: agree_completed\<close>)

lemma run_batch_ok:
  assumes "loop_ok s" "st_current (sl_state s) = Some cur" "i < length (sc_spreadBatchesCompleted cur)"
    "sc_spreadBatchesCompleted cur ! i = b" "\<not> bt_completed b"
  shows "result_ok loop_ok (run_batch config env b i s)"
proof -
  have "settle_ok (markBatchCompleted (sl_state s) (int i) (bt_users b) (te_endedAt env))"
    using assms by (intro completed_ok) (auto simp: loop_ok_def)
  moreover have "loop_ok (persistSettlement (batch_failed config env b (spreadBatchKey (bt_taskName b) i) s))"
    using batch_failed_ok [OF assms(1)] by (simp add: loop_ok_def)
  ultimately show ?thesis using assms(1) batch_failed_ok [OF assms(1)]
    by (simp add: run_batch_def Let_def split: run_result.split)
qed

lemma drift_check_ok:
  assumes "loop_ok s" "st_current (sl_state s) = Some cur"
    and "\<And>s skip base. loop_ok s \<Longrightarrow> st_current (sl_state s) = Some (cur\<lparr>sc_spreadBaseline := base\<rparr>) \<Longrightarrow> result_ok loop_ok (k s skip)"
  shows "result_ok loop_ok (drift_check config env cycle k s)"
proof -
  have s: "result_ok loop_ok (k s skip)" for skip
    using assms(3) [of s "sc_spreadBaseline cur" skip] assms(1,2) by simp
  define s' where "s' b = persistSettlement (with_state (set_baseline b (sl_state s)) s)" for b
  have ok: "loop_ok (s' b)" for b
    unfolding s'_def using assms(1) by (intro loop_ok_persist) (simp add: loop_ok_def marks_ok)
  moreover have "result_ok loop_ok (k (s' b) skip)" for b skip
    using ok assms(2) by (intro assms(3)) (auto simp: s'_def set_baseline_def)
  ultimately show ?thesis using s assms(1)
    by (auto simp: drift_check_def Let_def s'_def [symmetric] split: option.split)
qed

lemma process_batch_ok:
  assumes "loop_ok s"
  shows "result_ok loop_ok (process_batch config env cycle s)"
proof (cases "st_current (sl_state s)")
  case (Some cur)
  show ?thesis
  proof (cases "getNextDueBatch cur (te_batchNow env)")
    case (Some bi)
    obtain b i where bi: "bi = (b, i)" by (cases bi)
    note nth = getNextDueBatch_nth [OF Some [unfolded bi]]
    have "result_ok loop_ok (drift_check config env cycle
        (\<lambda>s skip. if skip then Proceeds s else run_batch config env b i s) s)"
    proof (rule drift_check_ok [OF assms \<open>st_current (sl_state s) = Some cur\<close>])
      fix s skip base
      assume "loop_ok s" "st_current (sl_state s) = Some (cur\<lparr>sc_spreadBaseline := base\<rparr>)"
      then show "result_ok loop_ok (if skip then Proceeds s else run_batch config env b i s)"
        using run_batch_ok nth by simp
    qed
    then show ?thesis using assms Some \<open>st_current (sl_state s) = Some cur\<close> by (simp add: process_batch_def bi)
  qed (simp add: process_batch_def assms Some)
qed (simp add: process_batch_def assms)

lemma finish_spread_ok: "loop_ok s \<Longrightarrow> result_ok loop_ok (finish_spread config env s)"
  by (auto simp: finish_spread_def intro!: close_now_ok split: option.split)

lemma result_then:
  "result_ok P r \<Longrightarrow> (\<And>s. P s \<Longrightarrow> Q s) \<Longrightarrow> (\<And>s. P s \<Longrightarrow> result_ok Q (f s)) \<Longrightarrow> result_ok Q (and_then r f)"
  by (cases r) auto

lemma spread_phase_ok:
  assumes "loop_ok s" "env_ok env"
  shows "result_ok loop_ok (spread_phase config env s)"
proof (cases "st_current (sl_state s)")
  case (Some cycle)
  then have "distinct (map toLowerCase (sc_priorityQueue cycle))"
    using assms(1) by (simp add: loop_ok_def settle_ok_def batches_agree_def)
  then have "result_ok loop_ok (and_then (run_harvest env cycle s) (schedule_compound config env cycle))"
    using schedule_ok assms(2) by (intro result_then [OF run_harvest_ok [OF assms(1) Some]]) auto
  then show ?thesis using assms(1) Some
    by (auto simp: spread_phase_def intro!: process_batch_ok finish_spread_ok result_and_then)
qed (simp add: spread_phase_def assms)

lemma tick_ok:
  assumes "loop_ok s" "env_ok env"
  shows "result_ok loop_ok (settlementTick config env s)"
  unfolding settlementTick_def
  by (intro result_and_then close_window_ok open_window_ok immediate_phase_ok spread_phase_ok assms)

section \<open>Runs of the daemon\<close>

text \<open>
  The settlement states of a daemon with this configuration: it starts without a file, passes, and may be started
  again at any time from the file that was saved last; the retries are only in memory.
\<close>

definition fresh_loop :: "settlement_state option \<Rightarrow> tick_config \<Rightarrow> int \<Rightarrow> settle_loop" where
  "fresh_loop file config now = \<lparr>sl_state = loadSettlementState file (tc_settlement config) now, sl_file = file,
     sl_retryAtMs = Map.empty, sl_retryAttempt = Map.empty\<rparr>"

fun goes_on :: "tick_result \<Rightarrow> settle_loop option" where
  "goes_on (Proceeds s) = Some s"
| "goes_on (Restarts s) = Some s"
| "goes_on (Throws e s) = Some s"
| "goes_on Hangs = None"

inductive settle_reach :: "tick_config \<Rightarrow> settle_loop \<Rightarrow> bool" for config where
  first_start: "settle_reach config (fresh_loop None config now)"
| pass: "settle_reach config s \<Longrightarrow> env_ok env \<Longrightarrow> goes_on (settlementTick config env s) = Some s' \<Longrightarrow> settle_reach config s'"
| restart: "settle_reach config s \<Longrightarrow> settle_reach config (fresh_loop (sl_file s) config now)"

lemma load_ok: "(\<And>f. file = Some f \<Longrightarrow> settle_ok f) \<Longrightarrow> settle_ok (loadSettlementState file cfg now)"
  by (auto simp: loadSettlementState_def settle_ok_def st_initState_def split: option.split)

lemma reach_ok: "settle_reach config s \<Longrightarrow> loop_ok s"
proof (induction rule: settle_reach.induct)
  case (first_start now)
  have "settle_ok (loadSettlementState None (tc_settlement config) now)" by (rule load_ok) simp
  then show ?case by (simp add: fresh_loop_def loop_ok_def)
next
  case (pass s env s')
  then have "result_ok loop_ok (settlementTick config env s)" by (intro tick_ok)
  then show ?case using pass.hyps by (cases "settlementTick config env s") auto
next
  case (restart s now)
  then show ?case by (auto simp: fresh_loop_def loop_ok_def intro: load_ok)
qed

section \<open>Properties\<close>

text \<open>
  C34. In every settlement state a daemon can reach, through passes, failures and restarts: the pending users of the
  cycle are exactly the users of its unfinished batches, in order, and no user is in two batches.
\<close>

theorem pending_is_unfinished:
  assumes "settle_reach config s" "st_current (sl_state s) = Some c"
  shows "sc_spreadBatchesPending c = concat (map bt_users (filter (\<lambda>b. \<not> bt_completed b) (sc_spreadBatchesCompleted c)))
    \<and> distinct (map toLowerCase (concat (map bt_users (sc_spreadBatchesCompleted c))))"
  using reach_ok [OF assms(1)] assms(2) by (simp add: loop_ok_def settle_ok_def batches_agree_def unfinished_def)

definition sample_tick_config :: "string list \<Rightarrow> tick_config" where
  "sample_tick_config names = \<lparr>tc_settlement = \<lparr>sf_periodSecs = 86400, sf_dayUtc = 4, sf_hourUtc = 6,
     sf_windowDurationSecs = 86400\<rparr>, tc_settlementTaskSet = names, tc_retryWindowSecs = 600, tc_maxDriftBps = 100,
     tc_maxUsersShareholders = 1\<rparr>"

definition sample_tick_env :: "(string \<Rightarrow> run_result) \<Rightarrow> int \<Rightarrow> tick_env" where
  "sample_tick_env run now = \<lparr>te_now = now, te_defs = (\<lambda>_. True), te_lockHeld = (\<lambda>_. True), te_run = run,
     te_users = [''0xa'', ''0xb''], te_morning = None, te_random = (\<lambda>_. 0), te_batchNow = now, te_vaultOk = False,
     te_quote = None, te_bigint = (\<lambda>_. None), te_endedAt = now, te_backoffRandom = 0, te_closeNow = now\<rparr>"

lemma sample_env_ok: "env_ok (sample_tick_env run now)"
  by (simp add: env_ok_def sample_tick_env_def toLowerCase_def lower_char_def)

definition sample_spread :: settle_loop where
  "sample_spread = fresh_loop None (sample_tick_config (''compound-shareholders'' # SETTLEMENT_TASK_NAMES)) 0"

theorem pending_is_unfinished_witness:
  "\<exists>s c. settle_reach (sample_tick_config (''compound-shareholders'' # SETTLEMENT_TASK_NAMES)) s
    \<and> st_current (sl_state s) = Some c \<and> sc_spreadBatchesPending c = [''0xa'']
    \<and> concat (map bt_users (filter (\<lambda>b. \<not> bt_completed b) (sc_spreadBatchesCompleted c))) = [''0xa'']"
proof -
  let ?config = "sample_tick_config (''compound-shareholders'' # SETTLEMENT_TASK_NAMES)"
  let ?env = "sample_tick_env (\<lambda>_. Ran) 21600000"
  have "map_option (\<lambda>s. map_option sc_spreadBatchesPending (st_current (sl_state s)))
      (goes_on (settlementTick ?config ?env sample_spread)) = Some (Some [''0xa''])"
    unfolding sample_spread_def fresh_loop_def loadSettlementState_def st_initState_def sample_tick_config_def sample_tick_env_def
    by code_simp
  then obtain s c where e: "goes_on (settlementTick ?config ?env sample_spread) = Some s"
    and c: "st_current (sl_state s) = Some c" "sc_spreadBatchesPending c = [''0xa'']" by auto
  have "settle_reach ?config sample_spread" unfolding sample_spread_def by (rule first_start)
  then have r: "settle_reach ?config s" using e sample_env_ok by (blast intro: pass)
  then show ?thesis using pending_is_unfinished [OF r c(1)] c by metis
qed

text \<open>
  A pass that opens a due window with every settlement task succeeding closes it in the same pass: the cycle
  is over, saved, the next window is a later one whose span is not over, and nothing is carried over.
\<close>

theorem healthy_tick_settles:
  assumes "st_current (sl_state s) = None" "isWindowDue (st_nextWindowMs (sl_state s)) (te_now env)"
    and "0 < sf_periodSecs (tc_settlement config)" "''compound-shareholders'' \<notin> set (tc_settlementTaskSet config)"
    and "\<And>t. t \<in> set SETTLEMENT_TASK_NAMES \<Longrightarrow> te_defs env t \<and> te_lockHeld env t \<and> te_run env t = Ran"
  shows "\<exists>s' k. settlementTick config env s = Restarts s' \<and> st_current (sl_state s') = None \<and> 0 < k
    \<and> st_nextWindowMs (sl_state s') = st_nextWindowMs (sl_state s) + int k * (sf_periodSecs (tc_settlement config) * 1000)
    \<and> te_closeNow env < st_nextWindowMs (sl_state s') + sf_windowDurationSecs (tc_settlement config) * 1000
    \<and> st_pendingPriorityQueue (sl_state s') = [] \<and> sl_file s' = Some (sl_state s')"
proof -
  have ok: "te_defs env ''compound-lp''" "te_lockHeld env ''compound-lp''" "te_run env ''compound-lp'' = Ran"
    "te_defs env ''automax-bonus''" "te_lockHeld env ''automax-bonus''" "te_run env ''automax-bonus'' = Ran"
    "te_defs env ''harvest-staking''" "te_lockHeld env ''harvest-staking''" "te_run env ''harvest-staking'' = Ran"
    using assms(5) by (auto simp: SETTLEMENT_TASK_NAMES_def IMMEDIATE_TASKS_def SPREAD_TASKS_def)
  define st where "st = openCycle (sl_state s) (te_now env) (tc_settlement config)"
  define st1 where "st1 = markHarvestDone (transitionToSpread (markImmediateTaskDone
    (markImmediateTaskDone st ''compound-lp'') ''automax-bonus''))"
  obtain c where c: "st_current st1 = Some c" "sc_windowOpenMs c = st_nextWindowMs (sl_state s)" "sc_phase c = Phase_spread"
    "sc_spreadBatchesPending c = []" "sc_spreadBatchesCompleted c = []" "sc_harvestCompleted c"
    by (simp add: st1_def st_def openCycle_def markHarvestDone_def transitionToSpread_def markImmediateTaskDone_def Let_def)
  obtain k where k: "0 < k" "closeCycle st1 (tc_settlement config) (te_closeNow env) = Some (st1\<lparr>st_nextWindowMs :=
       sc_windowOpenMs c + int k * (sf_periodSecs (tc_settlement config) * 1000),
       st_current := None, st_pendingPriorityQueue := sc_spreadBatchesPending c\<rparr>)"
    "te_closeNow env < sc_windowOpenMs c + int k * (sf_periodSecs (tc_settlement config) * 1000)
       + sf_windowDurationSecs (tc_settlement config) * 1000"
    using closeCycle_next [OF c(1) assms(3)] by metis
  let ?s1 = "persistSettlement (with_state st1 s)"
  have "and_then (and_then (close_window config env s) (open_window config env)) (immediate_phase env)
      = Proceeds (persistSettlement (with_state (transitionToSpread (markImmediateTaskDone
          (markImmediateTaskDone st ''compound-lp'') ''automax-bonus'')) s))"
    using assms(1,2) ok
    by (simp add: close_window_def open_window_def immediate_phase_def st_def openCycle_def IMMEDIATE_TASKS_def
      run_settlement_task_def end_immediate_def isImmediatePhaseComplete_def persistSettlement_def with_state_def
      markImmediateTaskDone_def on_cycle_def transitionToSpread_def Let_def)
  then have "settlementTick config env s = finish_spread config env ?s1"
    using ok assms(4)
    by (simp add: settlementTick_def spread_phase_def run_harvest_def run_settlement_task_def schedule_compound_def
      process_batch_def getNextDueBatch_def st1_def st_def openCycle_def persistSettlement_def with_state_def
      markImmediateTaskDone_def on_cycle_def transitionToSpread_def markHarvestDone_def Let_def)
  then have "settlementTick config env s = Restarts (persistSettlement (with_state (st1\<lparr>st_nextWindowMs :=
       sc_windowOpenMs c + int k * (sf_periodSecs (tc_settlement config) * 1000),
       st_current := None, st_pendingPriorityQueue := []\<rparr>) ?s1))"
    using c k(2) by (simp add: finish_spread_def isSpreadPhaseComplete_def close_now_def)
  then show ?thesis using k(1,3) c(2) by (intro exI [of _ k] exI conjI) auto
qed

theorem healthy_tick_witness:
  "\<exists>s'. settlementTick (sample_tick_config SETTLEMENT_TASK_NAMES) (sample_tick_env (\<lambda>_. Ran) 21600000)
      (fresh_loop None (sample_tick_config SETTLEMENT_TASK_NAMES) 0) = Restarts s'
    \<and> st_current (sl_state s') = None \<and> sl_file s' = Some (sl_state s')"
  using healthy_tick_settles [of "fresh_loop None (sample_tick_config SETTLEMENT_TASK_NAMES) 0"
    "sample_tick_env (\<lambda>_. Ran) 21600000" "sample_tick_config SETTLEMENT_TASK_NAMES"]
  by (fastforce simp: fresh_loop_def loadSettlementState_def st_initState_def sample_tick_config_def sample_tick_env_def
    next_window_def computeNextWindowMs_def at_utc_hour_def utc_day_def DAY_MS_def WEEK_SECS_def isWindowDue_def
    SETTLEMENT_TASK_NAMES_def IMMEDIATE_TASKS_def SPREAD_TASKS_def Let_def)

text \<open>
  A batch that fails after its retry window is marked as a failed task but stays the batch that is due, without
  any back-off: every later pass runs it again, and no batch after it is reached.
\<close>

theorem expired_batch_stays_due:
  assumes "st_current (sl_state s) = Some c" "getNextDueBatch c (te_batchNow env) = Some (b, i)"
    and "te_batchNow env \<ge> (case sl_retryAtMs s (spreadBatchKey (bt_taskName b) i) of Some t \<Rightarrow> t | None \<Rightarrow> 0)"
    and "te_run env (bt_taskName b) = Run_failed"
    and "te_endedAt env \<ge> bt_scheduledAtMs b + tc_retryWindowSecs config * 1000"
  shows "\<exists>s' c'. run_batch config env b i s = Proceeds s' \<and> st_current (sl_state s') = Some c'
    \<and> bt_taskName b \<in> set (sc_failedTasks c') \<and> sl_retryAtMs s' (spreadBatchKey (bt_taskName b) i) = None
    \<and> getNextDueBatch c' (te_batchNow env) = Some (b, i) \<and> \<not> isSpreadPhaseComplete c'"
proof -
  let ?s' = "persistSettlement (batch_failed config env b (spreadBatchKey (bt_taskName b) i) s)"
  have run: "run_batch config env b i s = Proceeds ?s'" using assms(3,4) by (simp add: run_batch_def Let_def)
  obtain c' where c': "st_current (sl_state ?s') = Some c'" "sc_spreadBatchesCompleted c' = sc_spreadBatchesCompleted c"
    "bt_taskName b \<in> set (sc_failedTasks c')"
    using assms(1,5) by (auto simp: batch_failed_def markTaskFailed_def Let_def)
  have due: "getNextDueBatch c' (te_batchNow env) = Some (b, i)" using assms(2) c'(2) by (simp add: getNextDueBatch_def)
  have "\<not> isSpreadPhaseComplete c'"
    using getNextDueBatch_nth [OF due] by (auto simp: isSpreadPhaseComplete_def list_all_length)
  with c' run due show ?thesis using assms(5) by (intro exI [of _ ?s'] exI [of _ c']) (simp add: batch_failed_def persistSettlement_def Let_def)
qed

definition sample_batch :: "string \<Rightarrow> int \<Rightarrow> batch_entry" where
  "sample_batch user t = \<lparr>bt_taskName = ''compound-shareholders'', bt_users = [user], bt_scheduledAtMs = t, bt_completed = False\<rparr>"

definition sample_cycle :: settlement_cycle where
  "sample_cycle = \<lparr>sc_cycleId = ''1970-01-01'', sc_windowOpenMs = 0, sc_windowCloseMs = 86400000, sc_phase = Phase_spread,
     sc_immediateTasksCompleted = IMMEDIATE_TASKS, sc_harvestCompleted = True,
     sc_spreadBatchesCompleted = [sample_batch ''0xa'' 0, sample_batch ''0xb'' 1000],
     sc_spreadBatchesPending = [''0xa'', ''0xb''], sc_spreadBaseline = None, sc_priorityQueue = [],
     sc_failedTasks = [], sc_attemptCount = 0, sc_lastAttemptMs = 0\<rparr>"

definition sample_loop :: "(string \<rightharpoonup> int) \<Rightarrow> settle_loop" where
  "sample_loop retry = \<lparr>sl_state = (st_initState 86400000)\<lparr>st_current := Some sample_cycle\<rparr>, sl_file = None,
     sl_retryAtMs = retry, sl_retryAttempt = Map.empty\<rparr>"

lemma sample_due: "7200000 \<le> now \<Longrightarrow> getNextDueBatch sample_cycle now = Some (sample_batch ''0xa'' 0, 0)"
  by (simp add: getNextDueBatch_def sample_cycle_def sample_batch_def)

theorem expired_batch_witness:
  "\<exists>s' c'. run_batch (sample_tick_config []) (sample_tick_env (\<lambda>_. Run_failed) 7200000) (sample_batch ''0xa'' 0) 0
       (sample_loop Map.empty) = Proceeds s'
    \<and> st_current (sl_state s') = Some c' \<and> getNextDueBatch c' 7200000 = Some (sample_batch ''0xa'' 0, 0)"
  using expired_batch_stays_due [of "sample_loop Map.empty" sample_cycle "sample_tick_env (\<lambda>_. Run_failed) 7200000"
    "sample_batch ''0xa'' 0" 0 "sample_tick_config []"] sample_due [of 7200000]
  by (auto simp: sample_loop_def sample_tick_env_def sample_batch_def sample_tick_config_def)

text \<open>
  While the batch that is due is in back-off, the daemon goes back to the head of its loop without a sleep and
  without running a single interval task, however many are due.
\<close>

theorem backoff_starves_tasks:
  assumes "ds_settle d = Some s" "te_lockHeld env []"
    and "st_current (sl_state s) = Some c" "sc_phase c = Phase_spread" "te_now env < sc_windowCloseMs c"
    and "sc_harvestCompleted c" "sc_spreadBatchesCompleted c \<noteq> []"
    and "getNextDueBatch c (te_batchNow env) = Some (b, i)" "te_defs env (bt_taskName b)" "te_lockHeld env (bt_taskName b)"
    and "\<not> te_vaultOk env \<or> te_quote env = None"
    and "sl_retryAtMs s (spreadBatchKey (bt_taskName b) i) = Some t" "te_batchNow env < t"
  shows "daemonPass config dconfig env now lockHeld runs d = Pass d"
proof -
  have "close_window config env s = Proceeds s" "open_window config env s = Proceeds s" "immediate_phase env s = Proceeds s"
    using assms(3-5) by (simp_all add: close_window_def open_window_def immediate_phase_def)
  moreover have "run_batch config env b i s = Restarts s" using assms(12,13) by (simp add: run_batch_def Let_def)
  then have "process_batch config env c s = Restarts s"
    using assms(3,8-11) by (auto simp: process_batch_def drift_check_def)
  then have "spread_phase config env s = Restarts s"
    using assms(3,4,6,7) by (simp add: spread_phase_def run_harvest_def schedule_compound_def)
  ultimately have "settlementTick config env s = Restarts s" by (simp add: settlementTick_def)
  then show ?thesis using assms(1,2) by (simp add: daemonPass_def)
qed

theorem backoff_starves_witness:
  "let d = \<lparr>ds_settle = Some (sample_loop [''compound-shareholders:0'' \<mapsto> 7260000]), ds_tasks = [sample_task ''poke'' 0 0]\<rparr>
   in dueTasks 7200000 (ds_tasks d) = [0]
    \<and> (\<forall>dconfig runs. daemonPass (sample_tick_config []) dconfig (sample_tick_env (\<lambda>_. Ran) 7200000) 7200000
          (\<lambda>_. True) runs d = Pass d)"
proof -
  have key: "spreadBatchKey ''compound-shareholders'' 0 = ''compound-shareholders:0''"
    by code_simp
  show ?thesis
    using backoff_starves_tasks [of "\<lparr>ds_settle = Some (sample_loop [''compound-shareholders:0'' \<mapsto> 7260000]),
        ds_tasks = [sample_task ''poke'' 0 0]\<rparr>" "sample_loop [''compound-shareholders:0'' \<mapsto> 7260000]"
      "sample_tick_env (\<lambda>_. Ran) 7200000" sample_cycle "sample_batch ''0xa'' 0" 0 7260000] sample_due [of 7200000] key
    by (simp add: Let_def sample_loop_def sample_tick_env_def sample_cycle_def sample_batch_def dueTasks_def sample_task_def)
qed

text \<open>The retries of a batch are kept by its position, and closing a cycle leaves them for the next one.\<close>

lemma retries_survive_cycle:
  "close_now config now Proceeds s = Proceeds s' \<Longrightarrow> sl_retryAttempt s' = sl_retryAttempt s"
  by (auto simp: close_now_def persistSettlement_def with_state_def split: option.splits)

end
