(* ===== verification/Spec2Isabelle.thy ===== *)
theory Spec2Isabelle
  imports LaunchMap PlanIO AgentTick UrlGuard KeeperChecks RpcLogs CheckpointTask CompoundTask LockFile DaemonTick EventBus EventCursor
begin

text \<open>
  A verification library for the off-chain TypeScript software of ClaimRush.

  The program. \<open>src/subgraph\<close> indexes the protocol's events: one AssemblyScript handler per event
  (\<open>src/subgraph/src/mappings/\<close>) loads entities by id, updates them and saves them.
  \<open>src/agents/sdk\<close> lets an agent play for itself or, with a delegation session, for a user; its live loop
  takes a snapshot, asks a policy for a plan and executes it, under a back-off controller and with a
  durable event cursor. \<open>src/keeper\<close> is a daemon of maintenance tasks whose transactions pass a circuit
  breaker, a pause file and a payout check, and which a WebSocket event bus wakes. The parts share no
  memory: they meet at the chain and at the subgraph.

  Theories and what they model.

  \<^item> \<open>Prelude\<close>: tables, sums over tables, decimal and hexadecimal text, the string functions of the
    language that the code uses.
  \<^item> \<open>GraphHost\<close>: the host of a mapping as far as the code uses it (integers, 32-bit conversion, decimal
    numbers, bytes and hexadecimal text, events); a contract read of \<open>chain\<close> is an argument and may
    revert. It states the interface \<open>entity_table\<close>: what a load returns after a save.
  \<^item> \<open>Store\<close>: the entities of \<open>src/subgraph/schema.graphql\<close>, the store, and the state monad in which
    handlers are written; every table of the store is an \<open>entity_table\<close>.
  \<^item> \<open>SubgraphUtils\<close> (\<open>utils/\<close>, \<open>delegationHub.ts\<close>): ids, sort keys, days, voting weight, the protocol
    and user rows, delegation sessions.
  \<^item> \<open>PricingApr\<close> (\<open>tokenPricingSnapshot.ts\<close>, \<open>aprSnapshot.ts\<close>): price refresh, hourly buckets, the two
    annual rates.
  \<^item> \<open>VeLocks\<close> (\<open>veClaimNFT.ts\<close>): the twelve handlers of the lock token. The interface \<open>owned_weight\<close>
    keeps, for an owned weight, the sum of a user's rows equal to its aggregate; it is interpreted on the
    locked principal and on the voting weight. \<open>ve_step\<close> is the step relation whose guards are the laws of
    the emitting contract (an event names the lock's owner, a token id is fresh, and so on).
  \<^item> \<open>Royalties\<close> (\<open>shareholderRoyalties.ts\<close>) and \<open>MineCoreMap\<close> (\<open>minecore.ts\<close>,
    \<open>entryTokenRegistryInit.ts\<close>): takeovers, reigns, their placeholders, king settlement, auto-compound
    configuration. \<open>reign_step\<close> runs the handlers that write reigns and takeovers.
  \<^item> \<open>Market\<close> (\<open>marketRouter.ts\<close>): listings, bonus escrows, sellbacks, price formulas. \<open>market_step\<close> runs the
    handlers of listings and locks; \<open>escrow_run\<close> runs those of the escrows, against the three-field machine
    \<open>escrow_spec\<close>.
  \<^item> \<open>HandlerRules\<close>: one rule per construct of the store monad for predicates that a handler keeps.
  \<^item> \<open>FurnaceBonus\<close>, \<open>PendingQueue\<close> and \<open>FurnaceMap\<close> (\<open>furnace.ts\<close>): the bonus snapshot, its samples and
    windows; the queue of unsettled bonuses under the interface \<open>keyed_fifo\<close>; the handlers. The interface
    \<open>furnace_invariant\<close> proves once that every handler keeps an invariant of the snapshot or of the LP samples
    and is interpreted on both.
  \<^item> \<open>LpVault\<close> (\<open>lpStakingVault7D.ts\<close>) and \<open>LaunchMap\<close> (\<open>launchController.ts\<close>, \<open>genesisLPVault24M.ts\<close>,
    \<open>maintenanceHub.ts\<close>, \<open>claimAllHelper.ts\<close>, \<open>entryTokenRegistry.ts\<close>).
  \<^item> \<open>Permissions\<close> (\<open>delegation/permissions.ts\<close>) and \<open>Policy\<close> (\<open>agent/policy.ts\<close>,
    \<open>agent/delegationRequirements.ts\<close>): permission masks, their text forms, and the plan step by step.
  \<^item> \<open>ActionSecurity\<close> (\<open>agent/actionSecurity.ts\<close>, the head of \<open>executorImpl.ts\<close>): the fields of an action by name,
    the security check, the private route and the check of the session. \<open>PlanIO\<close> (\<open>agent/planio.ts\<close>): plans as
    JSON values and back. \<open>AutoApprove\<close> (\<open>agent/autoApprovals.ts\<close>): the approvals put before the actions of a
    plan; \<open>run_allowances\<close> runs a plan against the token's allowances. \<open>TxManager\<close> (\<open>tx/txManager.ts\<close>): the nonce
    cache, the fees and the replacement of a stuck transaction.
  \<^item> \<open>ExecCalls\<close> (\<open>agent/executorImpl.ts\<close>, \<open>quotes.ts\<close>): what each branch of the executor checks and the contract
    call it makes. \<open>Executor\<close> (\<open>executorImpl.ts\<close>, \<open>harness/tx.ts\<close>, \<open>errors.ts\<close>, \<open>agent/planExecutor.ts\<close>) composes the
    security check, the branch and the transaction manager, and runs plans. \<open>AgentTick\<close> (\<open>agent/runner.ts\<close>,
    \<open>agent/strategies.ts\<close>, \<open>agent/runnerUtils.ts\<close>): a pass of the live loop, from the snapshot to the next sleep, over
    the policy, the approvals, the executor and the back-off.
  \<^item> \<open>UrlGuard\<close> (\<open>security/url.ts\<close>): literal addresses of both versions, ranges, and the check of a URL and of what
    its host resolves to.
  \<^item> \<open>KeeperChecks\<close> (\<open>payout_bound.ts\<close>, \<open>tier_observer.ts\<close>): the balance check after a transaction and
    the rolling window of upstream tiers.
  \<^item> \<open>CircuitBreaker\<close> (\<open>circuit_breaker.ts\<close>, \<open>pause.ts\<close>, \<open>utils.ts\<close>) and \<open>Backoff\<close>
    (\<open>agent/backoff.ts\<close>): two breakers of one interface, \<open>failure_streak\<close>, which is proved once and
    interpreted on both: nothing blocks before the threshold, the failure that reaches it does, a success
    starts again.
  \<^item> \<open>RpcLogs\<close> (\<open>rpc_logs.ts\<close>): the log scan of the keeper, its retries and the bisection of a block range.
    \<open>TxSend\<close> (\<open>tx.ts\<close>): the guards of a send, the wait for confirmations, and what its outcome writes to the
    breaker's file.
  \<^item> \<open>LockScan\<close> (the scan of \<open>tasks/automax_bonus.ts\<close> and \<open>tasks/checkpoint_before_expiry.ts\<close>, \<open>lock_events.ts\<close>): chunks,
    overlap, rewind and saving, over any table of locks. The interface \<open>event_index\<close> says what a table needs so that
    blocks read twice do no harm; it is interpreted on the tables of both tasks. \<open>AutomaxTask\<close> and \<open>CheckpointTask\<close>
    model the two tasks, \<open>MorningWindow\<close> (\<open>user_morning.ts\<close>) the hours in which an owner is served.
  \<^item> \<open>CompoundUsers\<close> and \<open>CompoundTask\<close> (\<open>tasks/compound_shareholders.ts\<close>): the users that opted in, as the events say, with
    the cursor, the failures and the queue of deferred users; the cadence and its spread, the choice of a batch, the batch
    and the fallback. \<open>compound_reach\<close> is the relation of whole runs.
  \<^item> \<open>LockFile\<close> (\<open>lock.ts\<close>, \<open>host_lock.ts\<close>, \<open>run/lock.ts\<close>): one operation per file-system call, interleaved in
    \<open>lock_reach\<close>. The interface \<open>lock_discipline\<close> proves exclusion once and is interpreted on the lock file,
    under the condition it needs, and on the host lock.
  \<^item> \<open>Settlement\<close> (\<open>run/settlement.ts\<close>): windows, the life of a cycle, the schedule of batches.
    \<open>DaemonSched\<close> (\<open>run/cli.ts\<close>, \<open>scheduler.ts\<close>, \<open>tasks.ts\<close>, \<open>hot_events.ts\<close>, parts of \<open>daemon.ts\<close>) and
    \<open>DaemonTick\<close> (the loop of \<open>daemon.ts\<close>): when tasks run, what an event does, and a pass of the loop with
    settlement and interval tasks. \<open>settle_reach\<close> is the relation of passes, failures and restarts.
  \<^item> \<open>EventBus\<close> (\<open>run/event_bus.ts\<close>): connection, reconnection and shutdown as handlers, and the relation
    \<open>eb_step\<close> in which sockets, timers and calls arrive in any order.
  \<^item> \<open>EventCursor\<close> (\<open>agent/eventCursor.ts\<close>, \<open>integers.ts\<close>): deduplication, restart point, persistence,
    reorganisations.

  Conventions. A handler is a function of the event's fields in the store monad; an entity is a record
  whose optional fields are options; \<open>BigInt\<close> is \<open>int\<close>, \<open>i32\<close> is \<open>32 word\<close>, a throw or an abort is
  \<open>None\<close> or the left summand, a text is a list of characters. Time, network, file contents and parsers of
  foreign text (\<open>Date.parse\<close>, \<open>JSON.parse\<close>) are arguments. Logging is dropped.

  What is shown. The lock ledger: in every reachable store a user's aggregates are the sums over the locks
  it owns, with what a transfer and a merge do exactly, and the case where a Furnace sellback is subtracted
  twice. The market: a lock is flagged exactly when its listing is open, escrows implement their machine, the
  price for a target is the least that reaches it, and a lock hydrated from the contract is credited to
  nobody. The Furnace: ordered snapshot, exact windows, pruning that spares them, first-in first-out settlement,
  the join of entry and execution. The launch: the genesis row is its history, registry rows and data sources
  agree. Reigns: references resolve, rows of takeovers never change, totals add up. Prices and rates: the
  gate on the price feed, the window sums. The plan: every action is one its sender may send, spending is
  within balance and caps, and one bucket can be planned twice. The executor: what passes its head was checked and is
  permitted, and the withdrawal that always throws. Plan files: round trip of every action kind, numbers in
  range. Approvals: only to the protocol, enough for single spends, and not for two of one allowance. The
  branches: a broadcast is the call that its action names, worth at least its quote less the slippage, and the
  cancellation that is sent twice. The live loop: what a pass may send, silence during a cooldown, the merge of
  strategies, and the satisfied approval that makes it spin. URLs: exact ranges, no internal address behind an
  accepted URL, and the mapped answer that the denylist misses. The
  transaction manager: bounded broadcasts at rising fees, nonces that are not used again, and the call that is sent twice. Permissions: the safe mask, exact parsing,
  round trip. The breakers: exact thresholds, cooldowns, the probe after a cooldown, closed on unreadable
  state, escalation. The bus: never stuck unless stopped, shutdown when settled and when not. The cursor:
  exact memory, lossless restart, rewinding. The log scan: complete, within a bound on its calls, and the range
  of two blocks that it does not split. The sender: no submission past a guard, receipts that are deep, failures that
  count, and the violation that does not. The locks: exclusion under its condition, two holders without it, heartbeats
  that settle, and a wait that is longer than its budget. The daemon: windows ahead and on the hour, cycles that close, pending users
  that are those of the unfinished batches, a healthy pass that settles; events that make a task due, and those
  that are lost; the batches and daemons that get stuck. The tasks: a table of locks is the chain's history whatever
  the chunks, overlaps and failures, what is claimed and checkpointed was entitled to it, a cooldown starts only with
  proof of a claim, and the owners that one large owner or one in cooldown keeps out. Compounding: the worklist follows
  the events, a batch passes every gate, no chosen user is forgotten, and the spread bounds the wait.

  Bounds. Every loop of the models is structural or has its termination proof, so there is no fuel: the
  padding loops end by the distance to the width, the trimming of keys by the list, the window loops run
  over the 24 hours that the code walks, the bisection by the blocks left. Only the advance of the settlement
  window is a partial function; \<open>cycle_closes\<close> shows that it returns for every positive period.

  Not modelled. Of the mappings, \<open>computeQuantile\<close> of \<open>furnace.ts\<close>, which nothing calls, and the decoding of
  call data by the host. Of the rest, the start-up of the runner, its artifacts, monitor and notifications; the
  snapshot, quotes and prices, which read contracts; the achievements engine; the keeper's other tasks; the command
  line tools. Network clients and process management stay outside.
\<close>

end
